(* ===== verification/Midas_Prelude.thy ===== *)
theory Midas_Prelude imports Main "HOL-Library.Word" begin

text \<open>
  Shared vocabulary of the development: the machine-integer types of the Rust sources, the
  result type of fallible operations, the arithmetic helpers of Rust's standard library that
  several components use (\<open>saturating_sub\<close>, \<open>saturating_add\<close>, the range of a width), and
  lemmas on lists and maps that more than one component needs.
\<close>

section \<open>Types\<close>

type_synonym u8 = "8 word"
type_synonym u32 = "32 word"
type_synonym u64 = "64 word"
type_synonym i32 = "32 word"
type_synonym i64 = "64 word"

text \<open>A Rust \<open>Result<T, E>\<close>: \<open>Inl\<close> holds the error, \<open>Inr\<close> the value.\<close>

type_synonym ('a, 'e) rust_result = "'e + 'a"

abbreviation Ok :: "'a \<Rightarrow> ('a, 'e) rust_result" where
  "Ok x \<equiv> Inr x"

abbreviation Err :: "'e \<Rightarrow> ('a, 'e) rust_result" where
  "Err e \<equiv> Inl e"

definition is_ok :: "('a, 'e) rust_result \<Rightarrow> bool" where
  "is_ok r = (case r of Inl _ \<Rightarrow> False | Inr _ \<Rightarrow> True)"

definition is_err :: "('a, 'e) rust_result \<Rightarrow> bool" where
  "is_err r = (case r of Inl _ \<Rightarrow> True | Inr _ \<Rightarrow> False)"

named_theorems step_simps \<open>unfoldings of the operations of the component being proved\<close>

named_theorems inv_intros \<open>preservation facts of the component invariants\<close>

lemma is_ok_simps [simp]: "is_ok (Inr x)" "\<not> is_ok (Inl e)"
  by (simp_all add: is_ok_def)

lemma is_err_simps [simp]: "is_err (Inl e)" "\<not> is_err (Inr x)"
  by (simp_all add: is_err_def)

lemma is_ok_if [simp]: "is_ok (if b then Inr x else Inl e) = b"
  by simp

lemma is_okE:
  assumes "is_ok r"
  obtains x where "r = Inr x"
  using assms by (cases r) auto

section \<open>Arithmetic of the Rust standard library\<close>

text \<open>
  Unsigned quantities that the sources keep in 64 bits and that only ever grow by bounded
  amounts (virtual microseconds) are naturals here; subtraction on \<open>nat\<close> stops at 0, as
  \<open>saturating_sub\<close> does.
\<close>

definition saturating_add_nat :: "nat \<Rightarrow> nat \<Rightarrow> nat \<Rightarrow> nat" where
  "saturating_add_nat limit a b = min limit (a + b)"

lemma saturating_add_nat_le: "saturating_add_nat limit a b \<le> limit"
  by (simp add: saturating_add_nat_def)

lemma saturating_add_nat_exact: "a + b \<le> limit \<Longrightarrow> saturating_add_nat limit a b = a + b"
  by (simp add: saturating_add_nat_def)

section \<open>Lists and maps\<close>

lemma sum_list_filter_split:
  "sum_list (map f xs) = sum_list (map f (filter P xs)) + sum_list (map f (filter (\<lambda>x. \<not> P x) xs))"
  for f :: "'a \<Rightarrow> nat"
  by (induction xs) auto

lemma dropWhile_sorted_filter:
  fixes ts :: "'a \<Rightarrow> 'b::linorder"
  assumes "sorted (map ts xs)" and down: "\<And>x y. ts x \<le> ts y \<Longrightarrow> P y \<Longrightarrow> P x"
  shows "dropWhile P xs = filter (\<lambda>x. \<not> P x) xs"
  using assms(1)
proof (induction xs)
  case Nil
  then show ?case by simp
next
  case (Cons x xs)
  show ?case
  proof (cases "P x")
    case True
    with Cons show ?thesis by simp
  next
    case False
    with Cons.prems down have "\<forall>y\<in>set xs. \<not> P y" by (auto simp: le_less)
    with False show ?thesis by simp
  qed
qed

lemma sum_list_dropWhile_le:
  "sum_list (map f (dropWhile P xs)) \<le> sum_list (map f xs)" for f :: "'a \<Rightarrow> nat"
  by (induction xs) (auto simp: trans_le_add2)

end
