(* ===== verification/F64.thy ===== *)
theory F64 imports Midas_Prelude begin

text \<open>
  IEEE 754 binary64 as Rust's \<open>f64\<close> compares it: a value is its 64-bit pattern, and the
  predicates and the orders below (\<open>is_nan\<close>, \<open>is_finite\<close>, \<open><\<close>, \<open><=\<close>, \<open>>\<close>,
  \<open>>=\<close>, \<open>==\<close>) read sign, exponent and mantissa off the bits. The arithmetic is in the
  theory F64_Arith.
\<close>

unbundle bit_operations_syntax

type_synonym f64 = "64 word"

text \<open>The bits below the sign, as a number: it orders the magnitudes of non-NaN values.\<close>

definition f64_mag :: "f64 \<Rightarrow> int" where
  "f64_mag x = uint x mod 2 ^ 63"

definition f64_negative :: "f64 \<Rightarrow> bool" where
  "f64_negative x = (2 ^ 63 \<le> uint x)"

text \<open>\<open>0x7FF0000000000000\<close>: the pattern of \<open>f64::INFINITY\<close>.\<close>

definition f64_inf_bits :: int where
  "f64_inf_bits = 9218868437227405312"

definition f64_is_nan :: "f64 \<Rightarrow> bool" where
  "f64_is_nan x = (f64_inf_bits < f64_mag x)"

definition f64_is_finite :: "f64 \<Rightarrow> bool" where
  "f64_is_finite x = (f64_mag x < f64_inf_bits)"

text \<open>A signed integer with the same order as the value: both zeros map to 0.\<close>

definition f64_key :: "f64 \<Rightarrow> int" where
  "f64_key x = (if f64_negative x then - f64_mag x else f64_mag x)"

definition f64_lt :: "f64 \<Rightarrow> f64 \<Rightarrow> bool" where
  "f64_lt x y = (\<not> f64_is_nan x \<and> \<not> f64_is_nan y \<and> f64_key x < f64_key y)"

definition f64_le :: "f64 \<Rightarrow> f64 \<Rightarrow> bool" where
  "f64_le x y = (\<not> f64_is_nan x \<and> \<not> f64_is_nan y \<and> f64_key x \<le> f64_key y)"

definition f64_eq :: "f64 \<Rightarrow> f64 \<Rightarrow> bool" where
  "f64_eq x y = (\<not> f64_is_nan x \<and> \<not> f64_is_nan y \<and> f64_key x = f64_key y)"

abbreviation f64_gt :: "f64 \<Rightarrow> f64 \<Rightarrow> bool" where
  "f64_gt x y \<equiv> f64_lt y x"

abbreviation f64_ge :: "f64 \<Rightarrow> f64 \<Rightarrow> bool" where
  "f64_ge x y \<equiv> f64_le y x"

text \<open>\<open>0.0\<close> and a quiet NaN (\<open>0x7FF8000000000000\<close>), \<open>1.0\<close> and \<open>2.0\<close>.\<close>

definition f64_zero :: f64 where "f64_zero = 0"
definition f64_nan :: f64 where "f64_nan = 9221120237041090560"
definition f64_one :: f64 where "f64_one = 4607182418800017408"
definition f64_two :: f64 where "f64_two = 4611686018427387904"

lemma f64_lt_irrefl [simp]: "\<not> f64_lt x x"
  by (simp add: f64_lt_def)

lemma f64_lt_trans: "f64_lt x y \<Longrightarrow> f64_lt y z \<Longrightarrow> f64_lt x z"
  by (auto simp: f64_lt_def)

lemma f64_lt_le_trans: "f64_lt x y \<Longrightarrow> f64_le y z \<Longrightarrow> f64_lt x z"
  by (auto simp: f64_lt_def f64_le_def)

lemma f64_lt_asym: "f64_lt x y \<Longrightarrow> \<not> f64_lt y x"
  by (auto simp: f64_lt_def)

lemma f64_finite_not_nan: "f64_is_finite x \<Longrightarrow> \<not> f64_is_nan x"
  by (simp add: f64_is_finite_def f64_is_nan_def)

text \<open>Away from NaN the order is total; with a NaN every comparison is false.\<close>

lemma f64_le_total: "\<not> f64_is_nan x \<Longrightarrow> \<not> f64_is_nan y \<Longrightarrow> f64_le x y \<or> f64_lt y x"
  by (auto simp: f64_lt_def f64_le_def)

lemma f64_not_le: "\<not> f64_is_nan x \<Longrightarrow> \<not> f64_is_nan y \<Longrightarrow> \<not> f64_le x y \<longleftrightarrow> f64_lt y x"
  by (auto simp: f64_lt_def f64_le_def)

lemma f64_le_iff_not_lt: "\<not> f64_is_nan x \<Longrightarrow> \<not> f64_is_nan y \<Longrightarrow> f64_le x y \<longleftrightarrow> \<not> f64_lt y x"
  by (auto simp: f64_lt_def f64_le_def)

lemma f64_nan_incomparable:
  assumes "f64_is_nan x"
  shows "\<not> f64_lt x y" "\<not> f64_lt y x" "\<not> f64_le x y" "\<not> f64_le y x" "\<not> f64_eq x y"
  using assms by (simp_all add: f64_lt_def f64_le_def f64_eq_def)

lemmas f64_defs = f64_lt_def f64_le_def f64_eq_def f64_is_nan_def f64_is_finite_def f64_key_def
  f64_mag_def f64_negative_def f64_inf_bits_def

lemmas f64_consts = f64_zero_def f64_nan_def f64_one_def f64_two_def

lemma f64_const_facts:
  "f64_is_nan f64_nan" "f64_is_finite f64_zero" "f64_is_finite f64_one" "f64_is_finite f64_two"
  "f64_lt f64_zero f64_one" "f64_lt f64_one f64_two"
  by (simp_all add: f64_defs f64_consts)

end
