(* ===== verification/F32.thy ===== *)
theory F32 imports F64_Arith begin

text \<open>
  IEEE 754 binary32 as far as the candle columns need it: the conversion \<open>as f32\<close>, which rounds to
  nearest, ties to even, the exact conversion back, and the order.
\<close>

type_synonym f32 = "32 word"

definition f32_mag :: "f32 \<Rightarrow> int" where
  "f32_mag x = uint x mod 2 ^ 31"

definition f32_negative :: "f32 \<Rightarrow> bool" where
  "f32_negative x = (2 ^ 31 \<le> uint x)"

text \<open>\<open>0x7F800000\<close>, the pattern of infinity.\<close>

definition f32_inf_bits :: int where "f32_inf_bits = 2139095040"

definition f32_is_nan :: "f32 \<Rightarrow> bool" where
  "f32_is_nan x = (f32_inf_bits < f32_mag x)"

definition f32_is_finite :: "f32 \<Rightarrow> bool" where
  "f32_is_finite x = (f32_mag x < f32_inf_bits)"

definition f32_key :: "f32 \<Rightarrow> int" where
  "f32_key x = (if f32_negative x then - f32_mag x else f32_mag x)"

definition f32_lt :: "f32 \<Rightarrow> f32 \<Rightarrow> bool" where
  "f32_lt x y = (\<not> f32_is_nan x \<and> \<not> f32_is_nan y \<and> f32_key x < f32_key y)"

definition f32_le :: "f32 \<Rightarrow> f32 \<Rightarrow> bool" where
  "f32_le x y = (\<not> f32_is_nan x \<and> \<not> f32_is_nan y \<and> f32_key x \<le> f32_key y)"

text \<open>\<open>0x7FC00000\<close>.\<close>

definition f32_nan :: f32 where "f32_nan = 2143289344"

definition f32_make :: "bool \<Rightarrow> int \<Rightarrow> f32" where
  "f32_make neg mag = (if neg then word_of_int (2 ^ 31 + mag) else word_of_int mag)"

text \<open>The magnitude nearest to \<open>m * 2 ^ e\<close>: 24 digits are kept, fewer below the normal range.\<close>

definition f32_round :: "int \<Rightarrow> int \<Rightarrow> int" where
  "f32_round m e =
    (let k = max (int (bit_len m) - 24) (- 149 - e);
         num = (if 0 \<le> k then m else m * 2 ^ nat (- k));
         den = (if 0 \<le> k then 2 ^ nat k else 1);
         q = num div den; r = num mod den;
         q' = (if den < 2 * r \<or> (2 * r = den \<and> odd q) then q + 1 else q)
     in (e + k + 149) * 2 ^ 23 + q')"

definition as_f32 :: "f64 \<Rightarrow> f32" where
  "as_f32 x =
    (if f64_is_nan x then f32_nan
     else if f64_is_inf x then f32_make (f64_negative x) f32_inf_bits
     else if f64_is_zero x then f32_make (f64_negative x) 0
     else f32_make (f64_negative x) (min (f32_round (f64_mant x) (f64_expo x)) f32_inf_bits))"

text \<open>Every \<open>f32\<close> is an \<open>f64\<close>.\<close>

definition as_f64 :: "f32 \<Rightarrow> f64" where
  "as_f64 x =
    (let neg = f32_negative x; b = f32_mag x in
     if f32_is_nan x then f64_nan
     else if b = f32_inf_bits then f64_infinity neg
     else if b < 2 ^ 23 then f64_round_to neg b 1 (- 149)
     else f64_round_to neg (2 ^ 23 + b mod 2 ^ 23) 1 (b div 2 ^ 23 - 150))"

lemma f32_examples:
  "as_f32 f64_one = 1065353216" "as_f64 1065353216 = f64_one" "as_f64 (as_f32 f64_two) = f64_two"
  "as_f32 4591870180066957722 = 1036831949" \<comment> \<open>0.1\<close>
  "as_f32 5183643171103440896 = 2139095040" \<comment> \<open>\<open>2 ^ 128\<close>, too large\<close>
  "as_f32 3936146074321813504 = 1" \<comment> \<open>\<open>2 ^ (- 149)\<close>, the least positive value\<close>
  by (simp_all add: as_f32_def as_f64_def f32_make_def f32_round_def f64_defs f64_consts f64_is_inf_def
      f64_is_zero_def f64_mant_def f64_expo_def mag_mant_def mag_expo_def bit_len.simps f32_mag_def
      f32_negative_def f32_is_nan_def f32_inf_bits_def f64_round_to_def round_bits_def f64_make_def
      f64_infinity_def Let_def)

lemma f32_lt_irrefl [simp]: "\<not> f32_lt x x"
  by (simp add: f32_lt_def)

end
