(* ===== verification/Order_State.thy ===== *)
theory Order_State imports Midas_Prelude begin

text \<open>
  The order lifecycle of \<open>crates/midas-broker/src/orders/state/mod.rs\<close>: the eleven statuses,
  their wire and database spellings, the predicates the engine consults before an action, and
  \<open>validate_transition\<close> with the step relation it induces.
\<close>

section \<open>Statuses and errors\<close>

datatype OrderStatus =
    Draft | Inactive | PendingSubmit | PreSubmitted | Submitted | PartiallyFilled
  | Filled | PendingCancel | Cancelled | Rejected | ErrorSt

text \<open>The one variant of \<open>BrokerError\<close> that the state machine raises.\<close>

datatype TransitionError = InvalidTransition OrderStatus OrderStatus

fun OrderStatus_to_string :: "OrderStatus \<Rightarrow> string" where
  "OrderStatus_to_string Draft = ''Draft''"
| "OrderStatus_to_string Inactive = ''Inactive''"
| "OrderStatus_to_string PendingSubmit = ''PendingSubmit''"
| "OrderStatus_to_string PreSubmitted = ''PreSubmitted''"
| "OrderStatus_to_string Submitted = ''Submitted''"
| "OrderStatus_to_string PartiallyFilled = ''PartiallyFilled''"
| "OrderStatus_to_string Filled = ''Filled''"
| "OrderStatus_to_string PendingCancel = ''PendingCancel''"
| "OrderStatus_to_string Cancelled = ''Cancelled''"
| "OrderStatus_to_string Rejected = ''Rejected''"
| "OrderStatus_to_string ErrorSt = ''Error''"

definition OrderStatus_from_str :: "string \<Rightarrow> (OrderStatus, string) rust_result" where
  "OrderStatus_from_str s =
     (if s = ''Draft'' then Ok Draft
      else if s = ''Inactive'' then Ok Inactive
      else if s = ''PendingSubmit'' then Ok PendingSubmit
      else if s = ''PreSubmitted'' then Ok PreSubmitted
      else if s = ''Submitted'' then Ok Submitted
      else if s = ''PartiallyFilled'' then Ok PartiallyFilled
      else if s = ''Filled'' then Ok Filled
      else if s = ''PendingCancel'' then Ok PendingCancel
      else if s = ''Cancelled'' then Ok Cancelled
      else if s = ''Rejected'' then Ok Rejected
      else if s = ''Error'' then Ok ErrorSt
      else Err (''unknown OrderStatus: '' @ s))"

definition from_ib_status :: "string \<Rightarrow> OrderStatus" where
  "from_ib_status s =
     (if s = ''ApiPending'' \<or> s = ''PendingSubmit'' then PendingSubmit
      else if s = ''PreSubmitted'' then PreSubmitted
      else if s = ''Submitted'' then Submitted
      else if s = ''PartiallyFilled'' then PartiallyFilled
      else if s = ''Filled'' then Filled
      else if s = ''PendingCancel'' then PendingCancel
      else if s = ''Cancelled'' \<or> s = ''ApiCancelled'' then Cancelled
      else if s = ''Inactive'' then Rejected
      else Rejected)"

section \<open>Predicates\<close>

definition is_terminal :: "OrderStatus \<Rightarrow> bool" where
  "is_terminal s = (case s of Filled \<Rightarrow> True | Cancelled \<Rightarrow> True | Rejected \<Rightarrow> True | _ \<Rightarrow> False)"

definition is_live_at_ib :: "OrderStatus \<Rightarrow> bool" where
  "is_live_at_ib s = (case s of PendingSubmit \<Rightarrow> True | PreSubmitted \<Rightarrow> True | Submitted \<Rightarrow> True
     | PartiallyFilled \<Rightarrow> True | PendingCancel \<Rightarrow> True | _ \<Rightarrow> False)"

definition can_activate :: "OrderStatus \<Rightarrow> bool" where
  "can_activate s = (case s of Inactive \<Rightarrow> True | ErrorSt \<Rightarrow> True | _ \<Rightarrow> False)"

definition can_deactivate :: "OrderStatus \<Rightarrow> bool" where
  "can_deactivate s = (case s of PreSubmitted \<Rightarrow> True | Submitted \<Rightarrow> True | _ \<Rightarrow> False)"

definition can_cancel :: "OrderStatus \<Rightarrow> bool" where
  "can_cancel s = (case s of PreSubmitted \<Rightarrow> True | Submitted \<Rightarrow> True | PartiallyFilled \<Rightarrow> True
     | _ \<Rightarrow> False)"

definition can_modify_locally :: "OrderStatus \<Rightarrow> bool" where
  "can_modify_locally s = (case s of Inactive \<Rightarrow> True | ErrorSt \<Rightarrow> True | _ \<Rightarrow> False)"

definition can_modify_at_ib :: "OrderStatus \<Rightarrow> bool" where
  "can_modify_at_ib s = (case s of PreSubmitted \<Rightarrow> True | Submitted \<Rightarrow> True
     | PartiallyFilled \<Rightarrow> True | _ \<Rightarrow> False)"

lemmas status_predicates = is_terminal_def is_live_at_ib_def can_activate_def can_deactivate_def
  can_cancel_def can_modify_locally_def can_modify_at_ib_def

section \<open>Transitions\<close>

text \<open>The \<open>matches!\<close> table of \<open>validate_transition\<close>, one row per source status.\<close>

definition transition_targets :: "OrderStatus \<Rightarrow> OrderStatus list" where
  "transition_targets s = (case s of
      Draft \<Rightarrow> [Inactive]
    | Inactive \<Rightarrow> [PendingSubmit]
    | ErrorSt \<Rightarrow> [Inactive, PendingSubmit]
    | PendingSubmit \<Rightarrow> [PreSubmitted, Submitted, Rejected, ErrorSt, PendingCancel]
    | PreSubmitted \<Rightarrow> [Submitted, PendingCancel, Cancelled, Filled, Rejected]
    | Submitted \<Rightarrow> [PartiallyFilled, Filled, PendingCancel, Cancelled, Rejected]
    | PartiallyFilled \<Rightarrow> [Filled, PendingCancel, Cancelled]
    | PendingCancel \<Rightarrow> [Cancelled, Inactive, Filled]
    | Filled \<Rightarrow> [] | Cancelled \<Rightarrow> [] | Rejected \<Rightarrow> [])"

definition validate_transition ::
  "OrderStatus \<Rightarrow> OrderStatus \<Rightarrow> (unit, TransitionError) rust_result" where
  "validate_transition s t =
     (if t \<in> set (transition_targets s) then Ok () else Err (InvalidTransition s t))"

text \<open>
  A step of an order is a status change that \<open>validate_transition\<close> accepts; an order's history
  is a chain of such steps.
\<close>

inductive status_step :: "OrderStatus \<Rightarrow> OrderStatus \<Rightarrow> bool" where
  step: "validate_transition s t = Ok () \<Longrightarrow> status_step s t"

inductive status_steps :: "OrderStatus \<Rightarrow> OrderStatus \<Rightarrow> bool" where
  stays: "status_steps s s"
| extends: "status_steps s t \<Longrightarrow> status_step t u \<Longrightarrow> status_steps s u"

inductive_simps status_step_iff: "status_step s t"

lemmas transition_simps = status_step_iff validate_transition_def transition_targets_def

lemma status_step_code: "status_step s t \<longleftrightarrow> t \<in> set (transition_targets s)"
  by (auto simp: status_step_iff validate_transition_def)

lemma status_steps_trans: "status_steps s t \<Longrightarrow> status_steps t u \<Longrightarrow> status_steps s u"
  by (rotate_tac, induction rule: status_steps.induct) (auto intro: status_steps.intros)

lemma status_steps_single: "status_step s t \<Longrightarrow> status_steps s t"
  by (auto intro: status_steps.intros)

lemma status_steps_Cons: "status_step s t \<Longrightarrow> status_steps t u \<Longrightarrow> status_steps s u"
  by (blast intro: status_steps_trans status_steps_single)

text \<open>A property of statuses that no legal step leaves is kept by a whole history.\<close>

lemma status_steps_closed:
  assumes "status_steps s t" and "P s" and "\<And>a b. P a \<Longrightarrow> status_step a b \<Longrightarrow> P b"
  shows "P t"
  using assms(1,2) by (induction rule: status_steps.induct) (auto intro: assms(3))

section \<open>Properties of the lifecycle\<close>

text \<open>Every status but the three terminal ones can still reach \<open>Cancelled\<close>.\<close>

lemma reaches_cancelled:
  assumes "\<not> is_terminal s"
  shows "status_steps s Cancelled"
proof -
  have pc: "status_steps PendingCancel Cancelled"
    by (rule status_steps_single) (simp add: transition_simps)
  have ps: "status_steps PendingSubmit Cancelled"
    by (rule status_steps_Cons [OF _ pc]) (simp add: transition_simps)
  have ina: "status_steps Inactive Cancelled"
    by (rule status_steps_Cons [OF _ ps]) (simp add: transition_simps)
  have "\<exists>t\<in>{Cancelled, PendingCancel, Inactive, PendingSubmit}. status_step s t"
    using assms by (cases s) (auto simp: is_terminal_def transition_simps)
  with pc ps ina show ?thesis by (blast intro: status_steps_Cons status_steps_single)
qed

lemma terminal_no_step: "is_terminal s \<Longrightarrow> validate_transition s t \<noteq> Ok ()"
  by (cases s) (auto simp: is_terminal_def validate_transition_def transition_targets_def)

text \<open>
  terminal statuses are exactly the absorbing ones, and no order is stuck short of them: a
  status is terminal iff \<open>validate_transition\<close> rejects every change out of it, and from every
  other status some legal history ends in a terminal one.
\<close>

lemma terminal_iff_absorbing:
  "(is_terminal s \<longleftrightarrow> (\<forall>t. validate_transition s t = Err (InvalidTransition s t)))
   \<and> (\<exists>t. is_terminal t \<and> status_steps s t)"
proof
  show "is_terminal s \<longleftrightarrow> (\<forall>t. validate_transition s t = Err (InvalidTransition s t))"
    by (cases s) (auto simp: is_terminal_def validate_transition_def transition_targets_def)
  show "\<exists>t. is_terminal t \<and> status_steps s t"
  proof (cases "is_terminal s")
    case True
    then show ?thesis by (auto intro: status_steps.stays)
  next
    case False
    then have "status_steps s Cancelled" by (rule reaches_cancelled)
    then show ?thesis by (intro exI [of _ Cancelled]) (simp add: is_terminal_def)
  qed
qed

text \<open>
  The histories of an order as lists of statuses, each a legal step from the one before.
\<close>

fun order_history :: "OrderStatus \<Rightarrow> OrderStatus list \<Rightarrow> bool" where
  "order_history s [] = True"
| "order_history s (t # ts) = (is_ok (validate_transition s t) \<and> order_history t ts)"

lemma order_history_append:
  "order_history s (ts @ us) \<longleftrightarrow> order_history s ts \<and> order_history (last (s # ts)) us"
  by (induction ts arbitrary: s) auto

lemma local_without_submit:
  assumes "order_history s ts" "s = Draft \<or> s = Inactive" "PendingSubmit \<notin> set ts"
  shows "set ts \<subseteq> {Inactive}"
  using assms
proof (induction ts arbitrary: s)
  case Nil
  then show ?case by simp
next
  case (Cons t ts)
  then have "t = Inactive"
    by (auto simp: validate_transition_def transition_targets_def split: if_splits)
  with Cons show ?case by auto
qed

text \<open>
  nothing reaches the gateway unsubmitted. In any legal history of an order that starts as a
  draft or an inactive order, every status other than \<open>Inactive\<close> (live, filled, rejected,
  cancelled or failed) has a \<open>PendingSubmit\<close> at or before it.
\<close>

lemma submission_precedes_gateway:
  assumes "order_history s (ts @ [t])" "s = Draft \<or> s = Inactive" "t \<noteq> Inactive"
  shows "PendingSubmit \<in> set (ts @ [t])"
proof (rule ccontr)
  assume "PendingSubmit \<notin> set (ts @ [t])"
  with assms(1,2) have "set (ts @ [t]) \<subseteq> {Inactive}" by (rule local_without_submit)
  with assms(3) show False by simp
qed

lemma submission_precedes_gateway_witness:
  "order_history Draft ([Inactive, PendingSubmit, Submitted] @ [Filled])
   \<and> PendingSubmit \<in> set ([Inactive, PendingSubmit, Submitted] @ [Filled])"
proof -
  have h: "order_history Draft ([Inactive, PendingSubmit, Submitted] @ [Filled])"
    by (simp add: validate_transition_def transition_targets_def)
  show ?thesis using h submission_precedes_gateway [OF h] by simp
qed

text \<open>
  the predicates the engine asks before acting agree with the transition table. An order can
  be activated iff \<open>PendingSubmit\<close> is a legal next status; an order that can be cancelled may go
  to \<open>PendingCancel\<close>, and the only other status that may is \<open>PendingSubmit\<close> (a cancel before the
  acknowledgement); an order that can be deactivated can go through \<open>PendingCancel\<close> back to
  \<open>Inactive\<close>; live and terminal exclude each other, no predicate permits an action on a terminal
  order, and local edits are allowed exactly where activation is.
\<close>

lemma action_guards_match_transitions:
  "(can_activate s \<longleftrightarrow> validate_transition s PendingSubmit = Ok ())
   \<and> (validate_transition s PendingCancel = Ok () \<longleftrightarrow> can_cancel s \<or> s = PendingSubmit)
   \<and> (can_deactivate s \<longrightarrow> order_history s [PendingCancel, Inactive])
   \<and> (can_modify_locally s \<longleftrightarrow> can_activate s)
   \<and> (can_modify_at_ib s \<longrightarrow> is_live_at_ib s)
   \<and> (is_terminal s \<longrightarrow> \<not> is_live_at_ib s \<and> \<not> can_activate s \<and> \<not> can_deactivate s
        \<and> \<not> can_cancel s \<and> \<not> can_modify_at_ib s)"
  by (cases s) (simp_all add: status_predicates validate_transition_def transition_targets_def)

lemma action_guards_match_transitions_witness:
  "can_deactivate Submitted \<and> order_history Submitted [PendingCancel, Inactive]
   \<and> is_terminal Filled \<and> \<not> can_cancel Filled"
  using action_guards_match_transitions [of Submitted] action_guards_match_transitions [of Filled]
  by (simp add: status_predicates)

text \<open>
  the table does not remember fills. \<open>PartiallyFilled\<close> may step to \<open>PendingCancel\<close>, and
  \<open>PendingCancel\<close> may step to \<open>Inactive\<close> and from there to \<open>PendingSubmit\<close>: an order some of whose
  shares have traded can legally become inactive and be activated again, although
  \<open>can_deactivate\<close> refuses a partially filled order.
\<close>

lemma partial_fill_can_be_reactivated:
  "\<not> can_deactivate PartiallyFilled
   \<and> order_history PartiallyFilled [PendingCancel, Inactive, PendingSubmit]
   \<and> can_activate Inactive"
  by (simp add: status_predicates validate_transition_def transition_targets_def)

text \<open>
  the database spelling of a status reads back as that status, nothing else parses, and a
  gateway status never maps to a status that only exists locally: gateway spellings of live and
  terminal statuses map to themselves, the gateway's \<open>Inactive\<close> and unknown words to \<open>Rejected\<close>.
\<close>

lemma status_strings_roundtrip:
  "OrderStatus_from_str (OrderStatus_to_string s) = Ok s
   \<and> (OrderStatus_from_str w = Ok s \<longleftrightarrow> w = OrderStatus_to_string s)
   \<and> (is_live_at_ib s \<or> is_terminal s \<longrightarrow> s = Rejected \<or> from_ib_status (OrderStatus_to_string s) = s)
   \<and> (is_live_at_ib (from_ib_status w) \<or> is_terminal (from_ib_status w))
   \<and> from_ib_status (OrderStatus_to_string Inactive) = Rejected"
  by (cases s) (auto simp: OrderStatus_from_str_def from_ib_status_def status_predicates)

lemma status_strings_roundtrip_witness:
  "is_live_at_ib Submitted \<and> from_ib_status (OrderStatus_to_string Submitted) = Submitted
   \<and> OrderStatus_from_str ''Error'' = Ok ErrorSt"
  using status_strings_roundtrip [of Submitted] status_strings_roundtrip [of ErrorSt "''Error''"]
  by (simp add: status_predicates)

end
