(* ===== verification/Order_Types.thy ===== *)
theory Order_Types imports F64 Order_State begin

text \<open>
  The order vocabulary of \<open>crates/midas-broker/src/orders/types/mod.rs\<close>: the enums with their
  database spellings and \<open>LocalOrder\<close>, the broker's record of one order. A \<open>Uuid\<close> and a
  \<open>DateTime<Utc>\<close> are opaque numbers here, and the JSON of \<open>algo_params\<close> is its text: no
  modelled operation looks inside them.
\<close>

type_synonym Uuid = nat
type_synonym DateTime = int

datatype OrderAction = Buy | Sell

datatype OrderKind = Market | Limit | Stop | StopLimit | TrailingStop

datatype TimeInForce = Day | Gtc | Ioc | Gtd | Opg

datatype BracketRole = Parent | TakeProfit | StopLoss

datatype SecurityType = Stock | OptionSec | Future | Forex

fun OrderAction_to_string :: "OrderAction \<Rightarrow> string" where
  "OrderAction_to_string Buy = ''BUY''"
| "OrderAction_to_string Sell = ''SELL''"

definition OrderAction_from_str :: "string \<Rightarrow> (OrderAction, string) rust_result" where
  "OrderAction_from_str s =
     (if s = ''BUY'' then Ok Buy else if s = ''SELL'' then Ok Sell
      else Err (''unknown OrderAction: '' @ s))"

fun OrderKind_to_string :: "OrderKind \<Rightarrow> string" where
  "OrderKind_to_string Market = ''MKT''"
| "OrderKind_to_string Limit = ''LMT''"
| "OrderKind_to_string Stop = ''STP''"
| "OrderKind_to_string StopLimit = ''STP LMT''"
| "OrderKind_to_string TrailingStop = ''TRAIL''"

definition OrderKind_from_str :: "string \<Rightarrow> (OrderKind, string) rust_result" where
  "OrderKind_from_str s =
     (if s = ''MKT'' then Ok Market else if s = ''LMT'' then Ok Limit
      else if s = ''STP'' then Ok Stop else if s = ''STP LMT'' then Ok StopLimit
      else if s = ''TRAIL'' then Ok TrailingStop
      else Err (''unknown OrderKind: '' @ s))"

fun TimeInForce_to_string :: "TimeInForce \<Rightarrow> string" where
  "TimeInForce_to_string Day = ''DAY''"
| "TimeInForce_to_string Gtc = ''GTC''"
| "TimeInForce_to_string Ioc = ''IOC''"
| "TimeInForce_to_string Gtd = ''GTD''"
| "TimeInForce_to_string Opg = ''OPG''"

definition TimeInForce_from_str :: "string \<Rightarrow> (TimeInForce, string) rust_result" where
  "TimeInForce_from_str s =
     (if s = ''DAY'' then Ok Day else if s = ''GTC'' then Ok Gtc
      else if s = ''IOC'' then Ok Ioc else if s = ''GTD'' then Ok Gtd
      else if s = ''OPG'' then Ok Opg
      else Err (''unknown TimeInForce: '' @ s))"

fun BracketRole_to_string :: "BracketRole \<Rightarrow> string" where
  "BracketRole_to_string Parent = ''PARENT''"
| "BracketRole_to_string TakeProfit = ''TAKE_PROFIT''"
| "BracketRole_to_string StopLoss = ''STOP_LOSS''"

definition BracketRole_from_str :: "string \<Rightarrow> (BracketRole, string) rust_result" where
  "BracketRole_from_str s =
     (if s = ''PARENT'' \<or> s = ''parent'' then Ok Parent
      else if s = ''TAKE_PROFIT'' \<or> s = ''take_profit'' \<or> s = ''PROFIT'' then Ok TakeProfit
      else if s = ''STOP_LOSS'' \<or> s = ''stop_loss'' \<or> s = ''STOP'' then Ok StopLoss
      else Err (''unknown BracketRole: '' @ s))"

section \<open>The order record\<close>

record LocalOrder =
  lo_id :: Uuid
  lo_ib_order_id :: "i32 option"
  lo_ib_perm_id :: "i64 option"
  lo_symbol :: string
  lo_con_id :: "i32 option"
  lo_sec_type :: SecurityType
  lo_exchange :: string
  lo_currency :: string
  lo_action :: OrderAction
  lo_order_type :: OrderKind
  lo_quantity :: f64
  lo_limit_price :: "f64 option"
  lo_stop_price :: "f64 option"
  lo_trail_amount :: "f64 option"
  lo_trail_percent :: "f64 option"
  lo_tif :: TimeInForce
  lo_status :: OrderStatus
  lo_parent_id :: "Uuid option"
  lo_oca_group :: "string option"
  lo_bracket_role :: "BracketRole option"
  lo_strategy :: "string option"
  lo_tags :: "string list"
  lo_algo_strategy :: "string option"
  lo_algo_params :: "string option"
  lo_outside_rth :: bool
  lo_filled_qty :: f64
  lo_remaining_qty :: f64
  lo_avg_fill_price :: "f64 option"
  lo_last_fill_price :: "f64 option"
  lo_commission :: "f64 option"
  lo_activation_count :: i32
  lo_last_activated_at :: "DateTime option"
  lo_last_deactivated_at :: "DateTime option"
  lo_created_at :: DateTime
  lo_updated_at :: DateTime

text \<open>
  \<open>LocalOrder::new_draft\<close>; the fresh id and the clock reading, which the code takes from
  \<open>Uuid::now_v7()\<close> and \<open>Utc::now()\<close>, are arguments.
\<close>

definition new_draft ::
  "Uuid \<Rightarrow> DateTime \<Rightarrow> string \<Rightarrow> OrderAction \<Rightarrow> OrderKind \<Rightarrow> f64 \<Rightarrow> LocalOrder" where
  "new_draft fresh now symbol action order_type quantity =
    \<lparr> lo_id = fresh, lo_ib_order_id = None, lo_ib_perm_id = None,
      lo_symbol = symbol, lo_con_id = None, lo_sec_type = Stock,
      lo_exchange = ''SMART'', lo_currency = ''USD'',
      lo_action = action, lo_order_type = order_type, lo_quantity = quantity,
      lo_limit_price = None, lo_stop_price = None, lo_trail_amount = None,
      lo_trail_percent = None, lo_tif = Day,
      lo_status = Draft, lo_parent_id = None, lo_oca_group = None, lo_bracket_role = None,
      lo_strategy = None, lo_tags = [],
      lo_algo_strategy = None, lo_algo_params = None, lo_outside_rth = False,
      lo_filled_qty = f64_zero, lo_remaining_qty = quantity, lo_avg_fill_price = None,
      lo_last_fill_price = None, lo_commission = None,
      lo_activation_count = 0, lo_last_activated_at = None, lo_last_deactivated_at = None,
      lo_created_at = now, lo_updated_at = now \<rparr>"

end
