(* ===== verification/Order_Client.thy ===== *)
theory Order_Client imports Order_Types begin

text \<open>
  The order-placement interface of \<open>crates/midas-broker/src/order_client.rs\<close>: the wire order
  \<open>OrderSpec\<close> with its default, the errors, and the operations of the \<open>OrderClient\<close> trait that
  bracket submission calls. A client is its state and three state transformers; the asynchronous
  calls of the code return before the next one is made, so a call is one transformer.
\<close>

record SymbolKey =
  sk_contract_id :: i32
  sk_symbol :: string

datatype OrderType =
    OTMarket | OTLimit | OTStop | OTStopLimit | OTTrailingStop | MarketOnClose | LimitOnClose
  | MarketIfTouched | LimitIfTouched | PegToMarket | PegToMidpoint | Relative | Volatility

datatype Tif = TifDay | TifGtc | TifOpg | TifIoc | TifFok | TifDtc | TifGtd

datatype OcaType = CancelWithBlock | ReduceWithBlock | ReduceNonBlock

datatype OrderCondition =
    PriceCond (cond_con_id: i32) (cond_exchange: string) (cond_is_more: bool) (cond_price: f64)
      (is_conjunction: bool)
  | TimeCond (cond_time: DateTime) (cond_is_more: bool) (is_conjunction: bool)
  | MarginCond (cond_percent: f64) (cond_is_more: bool) (is_conjunction: bool)
  | ExecutionCond (cond_symbol: string) (cond_sec_type: string) (cond_exchange: string)
      (is_conjunction: bool)
  | VolumeCond (cond_con_id: i32) (cond_exchange: string) (cond_is_more: bool) (cond_volume: i64)
      (is_conjunction: bool)
  | PercentChangeCond (cond_con_id: i32) (cond_exchange: string) (cond_is_more: bool)
      (cond_change_percent: f64) (is_conjunction: bool)

datatype AlgoStrategy = Vwap | Twap | ArrivalPx | DarkIce | PctOfVol | Adaptive | CustomAlgo string

datatype TriggerMethod =
  TrigDefault | DoubleBidAsk | TrigLast | DoubleLast | BidAsk | LastOrBidAsk | MidPoint

record OrderSpec =
  os_ib_order_id :: i32
  os_symbol :: SymbolKey
  os_con_id :: i32
  os_action :: OrderAction
  os_order_type :: OrderType
  os_quantity :: f64
  os_limit_price :: "f64 option"
  os_stop_price :: "f64 option"
  os_parent_id :: "i32 option"
  os_transmit :: bool
  os_tif :: Tif
  os_outside_rth :: bool
  os_oca_group :: "string option"
  os_oca_type :: "OcaType option"
  os_conditions :: "OrderCondition list"
  os_algo_strategy :: "AlgoStrategy option"
  os_algo_params :: "(string \<times> string) list"
  os_good_after_time :: "DateTime option"
  os_good_till_date :: "DateTime option"
  os_display_size :: "i64 option"
  os_hidden :: bool
  os_trigger_method :: TriggerMethod
  os_discretionary_amt :: "f64 option"
  os_sweep_to_fill :: bool

definition OrderSpec_default :: OrderSpec where
  "OrderSpec_default =
    \<lparr> os_ib_order_id = 0, os_symbol = \<lparr> sk_contract_id = 0, sk_symbol = [] \<rparr>, os_con_id = 0,
      os_action = Buy, os_order_type = OTMarket, os_quantity = f64_zero,
      os_limit_price = None, os_stop_price = None, os_parent_id = None, os_transmit = True,
      os_tif = TifDay, os_outside_rth = False, os_oca_group = None, os_oca_type = None,
      os_conditions = [], os_algo_strategy = None, os_algo_params = [],
      os_good_after_time = None, os_good_till_date = None, os_display_size = None,
      os_hidden = False, os_trigger_method = TrigDefault, os_discretionary_amt = None,
      os_sweep_to_fill = False \<rparr>"

datatype OrderError =
    Disconnected | InvalidSpec string | RejectedErr string | NotFound i32 | OtherErr string

text \<open>
  A client over a state \<open>'s\<close>. Placing returns the id the broker confirms; the stream that a
  cancel request returns is dropped by the caller modelled here, so only its success counts.
\<close>

record 's order_client =
  oc_next_order_id :: "'s \<Rightarrow> (i32, OrderError) rust_result \<times> 's"
  oc_place_order :: "OrderSpec \<Rightarrow> 's \<Rightarrow> (i32, OrderError) rust_result \<times> 's"
  oc_cancel_order :: "i32 \<Rightarrow> 's \<Rightarrow> (unit, OrderError) rust_result \<times> 's"

end
