(* ===== verification/Market_Types.thy ===== *)
theory Market_Types imports F64_Arith Order_Client begin

text \<open>
  The market-data vocabulary of \<open>crates/midas-broker-core\<close>: ticks, quotes, bars, timeframes,
  errors and the connection's durations (\<open>market_data/tick.rs\<close>, \<open>bar.rs\<close>, \<open>connection.rs\<close>,
  \<open>error.rs\<close>, \<open>contract.rs\<close>, \<open>event.rs\<close>, \<open>lib.rs\<close>). A \<open>DateTime<Utc>\<close> of market data is the
  count of its nanoseconds since the epoch. The text of an I/O error stands for the error.
\<close>

section \<open>Timeframes and bars\<close>

datatype Timeframe = S1 | S5 | S15 | S30 | M1 | M5 | M15 | M30 | H1 | H4 | D1 | W1 | MN1

text \<open>The seconds of one bar.\<close>

fun as_secs :: "Timeframe \<Rightarrow> nat" where
  "as_secs S1 = 1" | "as_secs S5 = 5" | "as_secs S15 = 15" | "as_secs S30 = 30"
| "as_secs M1 = 60" | "as_secs M5 = 300" | "as_secs M15 = 900" | "as_secs M30 = 1800"
| "as_secs H1 = 3600" | "as_secs H4 = 14400" | "as_secs D1 = 86400" | "as_secs W1 = 604800"
| "as_secs MN1 = 2592000"

datatype BarCompleteness = CompletedBar | PartialBar

record Bar =
  bar_symbol :: SymbolKey
  bar_timeframe :: Timeframe
  bar_ts_open :: DateTime
  bar_ts_close :: DateTime
  bar_o :: f64
  bar_h :: f64
  bar_l :: f64
  bar_c :: f64
  bar_volume :: u64
  bar_trade_count :: u32
  bar_wap :: "f64 option"
  bar_completeness :: BarCompleteness

section \<open>Ticks and quotes\<close>

datatype TickKind = PriceKind | SizeKind | PriceSizeKind | GenericKind | StringKind | ParamsKind

datatype TickType =
    BidTick | AskTick | LastTick | BidSizeTick | AskSizeTick | LastSizeTick | VolumeTick | HighTick
  | LowTick | CloseTick | OpenTick | HaltedStateTick

datatype TickValue =
    PriceVal f64 | SizeVal i64 | PriceSizeVal f64 i64 | GenericVal f64 | TextVal string | BoolVal bool

record TickAttributes =
  can_auto_execute :: bool
  past_limit :: bool
  pre_open :: bool
  unreported :: bool
  bid_past_low :: bool
  ask_past_high :: bool

definition TickAttributes_default :: TickAttributes where
  "TickAttributes_default = \<lparr> can_auto_execute = False, past_limit = False, pre_open = False,
     unreported = False, bid_past_low = False, ask_past_high = False \<rparr>"

record Tick =
  tk_symbol :: SymbolKey
  tk_req_id :: i32
  tk_kind :: TickKind
  tk_type :: TickType
  tk_value :: TickValue
  tk_attrs :: TickAttributes
  tk_ts :: DateTime

record Quote =
  q_bid :: "f64 option"
  q_ask :: "f64 option"
  q_last :: "f64 option"
  q_ts :: DateTime

definition Quote_default :: Quote where
  "Quote_default = \<lparr> q_bid = None, q_ask = None, q_last = None, q_ts = 0 \<rparr>"

text \<open>The derived equality of quotes compares prices as floats do.\<close>

definition price_eq :: "f64 option \<Rightarrow> f64 option \<Rightarrow> bool" where
  "price_eq x y = (case (x, y) of (None, None) \<Rightarrow> True | (Some a, Some b) \<Rightarrow> f64_eq a b | _ \<Rightarrow> False)"

definition quote_eq :: "Quote \<Rightarrow> Quote \<Rightarrow> bool" where
  "quote_eq p q = (price_eq (q_bid p) (q_bid q) \<and> price_eq (q_ask p) (q_ask q)
     \<and> price_eq (q_last p) (q_last q) \<and> q_ts p = q_ts q)"

section \<open>Errors and contracts\<close>

datatype EndReason = CancelledEnd | DisconnectedEnd | FarmDroppedEnd | ErrorEnd

datatype MarketDataError =
    NoPermission string
  | RequiresAdditionalSubscription string
  | InvalidReqId i32
  | MdDisconnected
  | PacingViolation string
  | StreamingLineLimitExceeded
  | UnsupportedTimeframe Timeframe
  | ShuttingDown
  | Unsupported
  | LiveTradingNotConfirmed
  | IoErr string
  | MdOther string

record ContractDetails =
  cd_contract_id :: i32
  cd_symbol :: string
  cd_sec_type :: SecurityType
  cd_exchange :: string
  cd_primary_exchange :: "string option"
  cd_currency :: string
  cd_long_name :: "string option"
  cd_min_tick :: f64
  cd_multiplier :: "string option"
  cd_trading_class :: "string option"

section \<open>Look-back durations\<close>

datatype IbDuration = Seconds u32 | Days u32 | Weeks u32 | Months u32 | Years u32

text \<open>\<open>from_lookback\<close> of \<open>d\<close> whole seconds, a \<open>u64\<close>.\<close>

definition ceil_div :: "nat \<Rightarrow> nat \<Rightarrow> nat" where
  "ceil_div a b = (a + b - 1) div b"

definition DAY :: nat where "DAY = 86400"
definition WEEK :: nat where "WEEK = 7 * DAY"
definition MONTH :: nat where "MONTH = 30 * DAY"
definition YEAR :: nat where "YEAR = 365 * DAY"

lemmas lookback_units = DAY_def WEEK_def MONTH_def YEAR_def

definition from_lookback :: "nat \<Rightarrow> IbDuration" where
  "from_lookback secs =
     (if secs < 60 * DAY then Seconds (of_nat (min secs (2 ^ 32 - 1)))
      else if secs < YEAR then Days (of_nat (ceil_div secs DAY))
      else if secs < 4 * YEAR then Weeks (of_nat (ceil_div secs WEEK))
      else if secs < 40 * YEAR then Months (of_nat (ceil_div secs MONTH))
      else Years (of_nat (min (ceil_div secs YEAR) (2 ^ 32 - 1))))"

end
