(* ===== verification/Annot_Types.thy ===== *)
theory Annot_Types imports F32 Market_Types begin

text \<open>
  What is drawn on a chart, \<open>desktop/win/crates/midas-annotation-types/src\<close>: lines and their strokes,
  price levels, order brackets with their legs, notes and markers, and the annotation that wraps one of
  them with its identity and visibility. A four-element array of colours is a record, a number of
  milliseconds the integer it denotes. An \<open>f32\<close> product is rounded from the exact product, which 53
  digits hold.
\<close>

section \<open>Lines\<close>

text \<open>\<open>f64::EPSILON\<close>, \<open>2 ^ -52\<close>.\<close>

definition EPSILON :: f64 where "EPSILON = 4372995238176751616"

definition f32_mul :: "f32 \<Rightarrow> f32 \<Rightarrow> f32" where
  "f32_mul x y = as_f32 (f64_mul (as_f64 x) (as_f64 y))"

record rgba =
  red :: f32
  green :: f32
  blue :: f32
  alpha :: f32

definition rgba_of :: "f32 \<Rightarrow> f32 \<Rightarrow> f32 \<Rightarrow> f32 \<Rightarrow> rgba" where
  "rgba_of r g b a = \<lparr> red = r, green = g, blue = b, alpha = a \<rparr>"

text \<open>The \<open>f32\<close> literals of the code, by their bits.\<close>

definition f32_0_0 :: f32 where "f32_0_0 = 0"
definition f32_1_0 :: f32 where "f32_1_0 = 1065353216"
definition f32_1_5 :: f32 where "f32_1_5 = 1069547520"
definition f32_3_0 :: f32 where "f32_3_0 = 1077936128"
definition f32_4_0 :: f32 where "f32_4_0 = 1082130432"
definition f32_6_0 :: f32 where "f32_6_0 = 1086324736"
definition f32_10_0 :: f32 where "f32_10_0 = 1092616192"

datatype LineStyle = Solid | Pattern "f32 list"

definition dotted :: LineStyle where "dotted = Pattern [f32_1_0, f32_3_0]"
definition sparse_dotted :: LineStyle where "sparse_dotted = Pattern [f32_1_0, f32_6_0]"
definition dashed :: LineStyle where "dashed = Pattern [f32_6_0, f32_3_0]"
definition dashed_long :: LineStyle where "dashed_long = Pattern [f32_10_0, f32_4_0]"
definition dash_dot :: LineStyle where "dash_dot = Pattern [f32_6_0, f32_3_0, f32_1_0, f32_3_0]"
definition dash_dot_dot :: LineStyle where
  "dash_dot_dot = Pattern [f32_6_0, f32_3_0, f32_1_0, f32_3_0, f32_1_0, f32_3_0]"

definition style_is_solid :: "LineStyle \<Rightarrow> bool" where
  "style_is_solid s = (case s of Solid \<Rightarrow> True | Pattern p \<Rightarrow> p = [])"

datatype LineExtent = FullWidth | RightFrom int | Between int int

record LineStroke =
  stroke_color :: rgba
  stroke_width :: f32
  stroke_style :: LineStyle

record PriceLine =
  line_price :: f64
  line_extent :: LineExtent
  line_stroke :: LineStroke

section \<open>Levels, notes and markers\<close>

datatype LevelIcon = NoIcon | ArrowUp | ArrowDown | StarIcon | FlagIcon | WarningIcon

definition from_str_id :: "string \<Rightarrow> LevelIcon" where
  "from_str_id s =
     (if s = ''arrow_up'' then ArrowUp else if s = ''arrow_down'' then ArrowDown
      else if s = ''star'' then StarIcon else if s = ''flag'' then FlagIcon
      else if s = ''warning'' then WarningIcon else NoIcon)"

fun to_str_id :: "LevelIcon \<Rightarrow> string" where
  "to_str_id NoIcon = ''none''" | "to_str_id ArrowUp = ''arrow_up''" | "to_str_id ArrowDown = ''arrow_down''"
| "to_str_id StarIcon = ''star''" | "to_str_id FlagIcon = ''flag''" | "to_str_id WarningIcon = ''warning''"

lemma icon_roundtrip: "from_str_id (to_str_id i) = i"
  by (cases i) (simp_all add: from_str_id_def)

definition price_step_for :: "f64 \<Rightarrow> f64 \<times> f64" where
  "price_step_for price =
     (if f64_ge (f64_abs price) 4641240890982006784 \<comment> \<open>200.0\<close>
      then (4587366580439587226, 4587366580439587226) \<comment> \<open>0.05\<close>
      else (4576918229304087675, 4576918229304087675)) \<comment> \<open>0.01\<close>"

record HorizontalLevel =
  level_id :: u64
  level_line :: PriceLine
  level_label :: "string option"
  level_icon :: LevelIcon

record TextNote =
  note_price :: f64
  note_timestamp :: int
  note_text :: string
  note_background_color :: rgba
  note_text_color :: rgba
  note_font_size :: f32
  note_max_width :: "f32 option"

datatype MarkerIcon = Circle | TriangleUp | TriangleDown | Diamond | Cross | FlagMarker | StarMarker

record MarkerAnnotation =
  marker_price :: f64
  marker_timestamp :: int
  marker_icon :: MarkerIcon
  marker_color :: rgba
  marker_size :: f32
  marker_tooltip :: "string option"

section \<open>Order brackets\<close>

datatype EntryType = Market | Limit | Stop | StopLimit

datatype BracketSide = Long | Short

datatype BracketStatus = Draft | Pending | PartialFill | Active | Closed | Cancelled

datatype LegRole = Entry | TakeProfit | StopLoss | StopTrigger

record BracketLeg =
  leg_line :: PriceLine
  leg_role :: LegRole
  leg_projected_pnl :: "f64 option"
  leg_projected_pnl_pct :: "f64 option"

record OrderBracket =
  ob_entry :: BracketLeg
  ob_take_profit :: "BracketLeg option"
  ob_stop_loss :: "BracketLeg option"
  ob_side :: BracketSide
  ob_status :: BracketStatus
  ob_quantity :: "f64 option"
  ob_saved :: bool
  ob_filled_qty :: "f64 option"
  ob_entry_type :: EntryType
  ob_entry_stop_price :: "f64 option"
  ob_wrong_side_warning :: bool

text \<open>\<open>leg.line.price\<close> as the code reads it and assigns to it.\<close>

abbreviation leg_price :: "BracketLeg \<Rightarrow> f64" where
  "leg_price l \<equiv> line_price (leg_line l)"

definition set_leg_line_price :: "f64 \<Rightarrow> BracketLeg \<Rightarrow> BracketLeg" where
  "set_leg_line_price p l = l\<lparr> leg_line := (leg_line l)\<lparr> line_price := p \<rparr> \<rparr>"

lemma set_leg_line_price_simps [simp]:
  "leg_price (set_leg_line_price p l) = p" "leg_role (set_leg_line_price p l) = leg_role l"
  "leg_projected_pnl (set_leg_line_price p l) = leg_projected_pnl l"
  "leg_projected_pnl_pct (set_leg_line_price p l) = leg_projected_pnl_pct l"
  by (simp_all add: set_leg_line_price_def)

definition bracket_risk_reward :: "OrderBracket \<Rightarrow> f64 option" where
  "bracket_risk_reward b =
     (case (ob_take_profit b, ob_stop_loss b) of
        (Some tp, Some sl) \<Rightarrow>
          (let risk = f64_abs (f64_sub (leg_price (ob_entry b)) (leg_price sl));
               reward = f64_abs (f64_sub (leg_price tp) (leg_price (ob_entry b)))
           in if f64_lt risk EPSILON then None else Some (f64_div reward risk))
      | _ \<Rightarrow> None)"

definition dollar_risk :: "OrderBracket \<Rightarrow> f64 option" where
  "dollar_risk b =
     (case (ob_stop_loss b, ob_quantity b) of
        (Some sl, Some qty) \<Rightarrow> Some (f64_mul (f64_abs (f64_sub (leg_price (ob_entry b)) (leg_price sl))) qty)
      | _ \<Rightarrow> None)"

definition dollar_reward :: "OrderBracket \<Rightarrow> f64 option" where
  "dollar_reward b =
     (case (ob_take_profit b, ob_quantity b) of
        (Some tp, Some qty) \<Rightarrow> Some (f64_mul (f64_abs (f64_sub (leg_price tp) (leg_price (ob_entry b)))) qty)
      | _ \<Rightarrow> None)"

fun is_leg_on_wrong_side :: "BracketSide \<Rightarrow> LegRole \<Rightarrow> f64 \<Rightarrow> f64 \<Rightarrow> bool" where
  "is_leg_on_wrong_side Long TakeProfit price entry_price = f64_le price entry_price"
| "is_leg_on_wrong_side Long StopLoss price entry_price = f64_ge price entry_price"
| "is_leg_on_wrong_side Short TakeProfit price entry_price = f64_ge price entry_price"
| "is_leg_on_wrong_side Short StopLoss price entry_price = f64_le price entry_price"
| "is_leg_on_wrong_side _ Entry price entry_price = False"
| "is_leg_on_wrong_side _ StopTrigger price entry_price = False"

definition BRACKET_TP_COLOR :: rgba where
  "BRACKET_TP_COLOR = rgba_of 1036831949 1062836634 1062836634 f32_1_0"
definition BRACKET_SL_COLOR :: rgba where
  "BRACKET_SL_COLOR = rgba_of f32_1_0 1058642330 f32_0_0 f32_1_0"
definition BRACKET_LONG_ENTRY_COLOR :: rgba where
  "BRACKET_LONG_ENTRY_COLOR = rgba_of 1045220557 1061662228 1051931443 f32_1_0"
definition BRACKET_SHORT_ENTRY_COLOR :: rgba where
  "BRACKET_SHORT_ENTRY_COLOR = rgba_of 1063675494 1048576000 1048576000 f32_1_0"
definition BRACKET_LONG_STOP_COLOR :: rgba where
  "BRACKET_LONG_STOP_COLOR = rgba_of 1045220557 1061662228 1051931443 f32_1_0"
definition BRACKET_LONG_STOP_LIMIT_COLOR :: rgba where
  "BRACKET_LONG_STOP_LIMIT_COLOR = rgba_of 1056964608 1063675494 1045220557 f32_1_0"
definition BRACKET_SHORT_STOP_COLOR :: rgba where
  "BRACKET_SHORT_STOP_COLOR = rgba_of 1063675494 1048576000 1048576000 f32_1_0"
definition BRACKET_SHORT_STOP_LIMIT_COLOR :: rgba where
  "BRACKET_SHORT_STOP_LIMIT_COLOR = rgba_of 1063675494 1050253722 1056964608 f32_1_0"

definition fade :: "f32 \<Rightarrow> rgba \<Rightarrow> rgba" where
  "fade alpha_mult c = c\<lparr> alpha := f32_mul (alpha c) alpha_mult \<rparr>"

fun sl_weight :: "bool \<Rightarrow> BracketStatus \<Rightarrow> f32 \<times> f32" where
  "sl_weight saved Draft = (f32_1_0, if saved then 1059481190 else 1056964608)" \<comment> \<open>0.65 and 0.50\<close>
| "sl_weight saved Pending = (f32_1_0, 1061997773)" \<comment> \<open>0.80\<close>
| "sl_weight saved PartialFill = (f32_1_5, 1063675494)" \<comment> \<open>0.90\<close>
| "sl_weight saved Active = (f32_1_5, f32_1_0)"
| "sl_weight saved Closed = (f32_1_0, 1050253722)" \<comment> \<open>0.30\<close>
| "sl_weight saved Cancelled = (f32_1_0, 1045220557)" \<comment> \<open>0.20\<close>

definition entry_color :: "BracketSide \<Rightarrow> EntryType \<Rightarrow> rgba" where
  "entry_color side ty =
     (case (side, ty) of
        (Long, Stop) \<Rightarrow> BRACKET_LONG_STOP_COLOR
      | (Long, StopLimit) \<Rightarrow> BRACKET_LONG_STOP_LIMIT_COLOR
      | (Long, _) \<Rightarrow> BRACKET_LONG_ENTRY_COLOR
      | (Short, Stop) \<Rightarrow> BRACKET_SHORT_STOP_COLOR
      | (Short, StopLimit) \<Rightarrow> BRACKET_SHORT_STOP_LIMIT_COLOR
      | (Short, _) \<Rightarrow> BRACKET_SHORT_ENTRY_COLOR)"

fun leg_weight :: "bool \<Rightarrow> BracketStatus \<Rightarrow> LineStyle \<times> f32 \<times> f32" where
  "leg_weight saved Draft = (Pattern [f32_6_0, f32_4_0], f32_1_0, if saved then 1059481190 else 1056964608)"
| "leg_weight saved Pending = (dotted, f32_1_0, 1061997773)"
| "leg_weight saved PartialFill = (Solid, f32_1_5, 1063675494)"
| "leg_weight saved Active = (Solid, f32_1_5, f32_1_0)"
| "leg_weight saved Closed = (Solid, f32_1_0, 1050253722)"
| "leg_weight saved Cancelled = (Solid, f32_1_0, 1045220557)"

definition leg_style :: "OrderBracket \<Rightarrow> LegRole \<Rightarrow> LineStroke" where
  "leg_style b role =
     (if role = StopLoss
      then (case sl_weight (ob_saved b) (ob_status b) of (width, alpha_mult) \<Rightarrow>
              \<lparr> stroke_color = fade alpha_mult BRACKET_SL_COLOR, stroke_width = width, stroke_style = dotted \<rparr>)
      else (let base_color = (if role = TakeProfit then BRACKET_TP_COLOR
                              else entry_color (ob_side b) (ob_entry_type b))
            in case leg_weight (ob_saved b) (ob_status b) of (style, width, alpha_mult) \<Rightarrow>
              \<lparr> stroke_color = fade alpha_mult base_color, stroke_width = width, stroke_style = style \<rparr>))"

section \<open>Annotations\<close>

type_synonym AnnotationId = u64

datatype Presence = Present | Ghost | Hidden

fun presence_alpha :: "Presence \<Rightarrow> f32" where
  "presence_alpha Present = f32_1_0" | "presence_alpha Ghost = 1053609165" \<comment> \<open>0.4\<close> | "presence_alpha Hidden = f32_0_0"

definition is_interactive :: "Presence \<Rightarrow> bool" where "is_interactive p = (p = Present)"
definition is_visible :: "Presence \<Rightarrow> bool" where "is_visible p = (p \<noteq> Hidden)"

fun presence_cycle :: "Presence \<Rightarrow> Presence" where
  "presence_cycle Present = Ghost" | "presence_cycle Ghost = Hidden" | "presence_cycle Hidden = Present"

datatype AnnotationKind =
    LevelKind HorizontalLevel | OrderBracketKind OrderBracket | TextNoteKind TextNote | MarkerKind MarkerAnnotation

record Annotation =
  ann_id :: AnnotationId
  ann_kind :: AnnotationKind
  ann_presence :: Presence
  ann_visible_timeframes :: "Timeframe list option"
  ann_locked :: bool
  ann_created_at :: int
  ann_modified_at :: int

definition should_render_on :: "Annotation \<Rightarrow> Timeframe \<Rightarrow> bool" where
  "should_render_on a tf =
     (is_visible (ann_presence a) \<and>
      (case ann_visible_timeframes a of None \<Rightarrow> True | Some tfs \<Rightarrow> tf \<in> set tfs))"

definition is_interactive_on :: "Annotation \<Rightarrow> Timeframe \<Rightarrow> bool" where
  "is_interactive_on a tf = (should_render_on a tf \<and> is_interactive (ann_presence a))"

definition is_draggable_on :: "Annotation \<Rightarrow> Timeframe \<Rightarrow> bool" where
  "is_draggable_on a tf = (is_interactive_on a tf \<and> \<not> ann_locked a)"

end
