(* ===== verification/F64_Facts.thy ===== *)
theory F64_Facts imports F64_Arith begin

text \<open>
  What the components need to know of floating-point arithmetic, as one rounding function on the
  reals: the key (the order code) of a sum, difference, product or quotient of finite values is
  \<open>f64_rnd\<close> of the exact result, \<open>f64_rnd\<close> is monotone, and it is the identity on values. Bounds on
  results follow from bounds on exact results.
\<close>

section \<open>Magnitudes\<close>

definition mag_val :: "int \<Rightarrow> real" where
  "mag_val b = of_int (mag_mant b) * 2 powi mag_expo b"

lemma mag_val_zero [simp]: "mag_val 0 = 0"
  by (simp add: mag_val_def mag_mant_def)

text \<open>The magnitudes with exponent field \<open>q\<close>.\<close>

lemma mag_parts:
  assumes "1 \<le> q" "0 \<le> r" "r < 2 ^ 52"
  shows "mag_mant (q * 2 ^ 52 + r) = 2 ^ 52 + r" "mag_expo (q * 2 ^ 52 + r) = q - 1075"
proof -
  have "(q * 2 ^ 52 + r) div 2 ^ 52 = q" "(q * 2 ^ 52 + r) mod 2 ^ 52 = r" using assms by simp_all
  moreover have "\<not> q * 2 ^ 52 + r < 2 ^ 52" using assms by simp
  ultimately show "mag_mant (q * 2 ^ 52 + r) = 2 ^ 52 + r" "mag_expo (q * 2 ^ 52 + r) = q - 1075"
    by (simp_all add: mag_mant_def mag_expo_def)
qed

lemma mag_segment:
  fixes b :: int
  assumes "2 ^ 52 \<le> b"
  obtains q r where "b = q * 2 ^ 52 + r" "1 \<le> q" "0 \<le> r" "r < 2 ^ 52"
proof -
  have "b = (b div 2 ^ 52) * 2 ^ 52 + b mod 2 ^ 52" by simp
  moreover have "1 \<le> b div 2 ^ 52" using assms by simp
  ultimately show ?thesis using that [of "b div 2 ^ 52" "b mod 2 ^ 52"] by simp
qed

text \<open>Neighbouring magnitudes differ by one unit in the last place.\<close>

lemma mag_val_succ:
  assumes "0 \<le> b"
  shows "mag_val (b + 1) = mag_val b + 2 powi mag_expo b"
proof -
  consider "b + 1 < 2 ^ 52" | "b = 2 ^ 52 - 1" | "2 ^ 52 \<le> b" by linarith
  then show ?thesis
  proof cases
    case 3
    then obtain q r where b: "b = q * 2 ^ 52 + r" "1 \<le> q" "0 \<le> r" "r < 2 ^ 52" by (rule mag_segment)
    note p = mag_parts [OF b(2-4), folded b(1)]
    show ?thesis
    proof (cases "r + 1 = 2 ^ 52")
      case True
      then have e: "b + 1 = (q + 1) * 2 ^ 52 + 0" using b(1) by (simp add: algebra_simps)
      have "1 \<le> q + 1" using b(2) by simp
      note pe = mag_parts [OF this, of 0, folded e]
      then have p': "mag_mant (b + 1) = 2 ^ 52" "mag_expo (b + 1) = q - 1075 + 1" by simp_all
      have r: "r = 2 ^ 52 - 1" using True by simp
      have "2 powi (q - 1075 + 1) = (2 powi (q - 1075)) * (2::real)"
        by (subst power_int_add) simp_all
      then show ?thesis unfolding mag_val_def p p' r by (simp add: algebra_simps)
    next
      case False
      then have "0 \<le> r + 1" "r + 1 < 2 ^ 52" using b by simp_all
      have e: "b + 1 = q * 2 ^ 52 + (r + 1)" using b(1) by simp
      note p' = mag_parts [OF b(2) \<open>0 \<le> r + 1\<close> \<open>r + 1 < 2 ^ 52\<close>, folded e]
      show ?thesis unfolding mag_val_def p p' by (simp add: algebra_simps)
    qed
  qed (simp_all add: mag_val_def mag_mant_def mag_expo_def algebra_simps)
qed

lemma mag_val_strict:
  assumes "0 \<le> a" "a < b"
  shows "mag_val a < mag_val b"
  using assms(2)
proof (induction b rule: int_gr_induct)
  case base
  from assms(1) show ?case by (simp add: mag_val_succ)
next
  case (step i)
  have "mag_val (i + 1) = mag_val i + 2 powi mag_expo i"
    using assms(1) step.hyps by (intro mag_val_succ) simp
  moreover have "0 < (2::real) powi mag_expo i" by simp
  ultimately show ?case using step.IH by (smt (verit))
qed

lemma mag_val_mono: "0 \<le> a \<Longrightarrow> a \<le> b \<Longrightarrow> mag_val a \<le> mag_val b"
  using mag_val_strict [of a b] by (cases "a = b") auto

lemma mag_val_le_iff: "0 \<le> a \<Longrightarrow> 0 \<le> b \<Longrightarrow> mag_val a \<le> mag_val b \<longleftrightarrow> a \<le> b"
  using mag_val_mono [of a b] mag_val_strict [of b a] by (auto simp: not_le [symmetric])

lemma mag_val_eq_iff: "0 \<le> a \<Longrightarrow> 0 \<le> b \<Longrightarrow> mag_val a = mag_val b \<longleftrightarrow> a = b"
  using mag_val_le_iff [of a b] mag_val_le_iff [of b a] by auto

lemma mag_val_nonneg: "0 \<le> b \<Longrightarrow> 0 \<le> mag_val b"
  using mag_val_mono [of 0 b] by simp

section \<open>Rounding to the nearest magnitude\<close>

text \<open>\<open>mag_at v b\<close>: \<open>v\<close> lies between the neighbours \<open>b\<close> and \<open>b + 1\<close>.\<close>

definition mag_at :: "real \<Rightarrow> int \<Rightarrow> bool" where
  "mag_at v b \<longleftrightarrow> 0 \<le> b \<and> mag_val b \<le> v \<and> v < mag_val (b + 1)"

definition mag_nearest :: "real \<Rightarrow> int \<Rightarrow> int" where
  "mag_nearest v b =
    (if mag_val (b + 1) - v < v - mag_val b \<or> (mag_val (b + 1) - v = v - mag_val b \<and> odd b)
     then b + 1 else b)"

lemma mag_at_mono:
  assumes "mag_at v b" "mag_at w c" "v \<le> w"
  shows "b \<le> c"
proof (rule ccontr)
  assume "\<not> b \<le> c"
  then have "mag_val (c + 1) \<le> mag_val b" using assms by (intro mag_val_mono) (auto simp: mag_at_def)
  with assms show False by (simp add: mag_at_def)
qed

lemma mag_at_unique: "mag_at v b \<Longrightarrow> mag_at v c \<Longrightarrow> b = c"
  using mag_at_mono [of v b v c] mag_at_mono [of v c v b] by auto

lemma mag_nearest_mono:
  assumes "mag_at v b" "mag_at w c" "v \<le> w"
  shows "mag_nearest v b \<le> mag_nearest w c"
proof (cases "b = c")
  case True
  with assms(3) show ?thesis by (auto simp: mag_nearest_def)
next
  case False
  with mag_at_mono [OF assms] have "b + 1 \<le> c" by simp
  then show ?thesis by (auto simp: mag_nearest_def)
qed

lemma mag_at_val: "0 \<le> b \<Longrightarrow> mag_at (mag_val b) b"
  by (simp add: mag_at_def mag_val_strict)

lemma mag_nearest_val: "0 \<le> b \<Longrightarrow> mag_nearest (mag_val b) b = b"
  using mag_val_strict [of b "b + 1"] by (simp add: mag_nearest_def)

lemma bit_len_bounds:
  assumes "0 < n"
  shows "0 < bit_len n \<and> 2 ^ (bit_len n - 1) \<le> n \<and> n < 2 ^ bit_len n"
  using assms
proof (induction n rule: bit_len.induct)
  case (1 n)
  show ?case
  proof (cases "n = 1")
    case True
    then show ?thesis by (simp add: bit_len.simps)
  next
    case False
    with 1(2) have "0 < n div 2" by simp
    with 1 have IH: "0 < bit_len (n div 2)" "2 ^ (bit_len (n div 2) - 1) \<le> n div 2"
      "n div 2 < 2 ^ bit_len (n div 2)" by auto
    have s: "bit_len n = Suc (bit_len (n div 2))" using 1(2) by (simp add: bit_len.simps)
    obtain j where j: "bit_len (n div 2) = Suc j" using IH(1) by (cases "bit_len (n div 2)") auto
    have "2 ^ bit_len (n div 2) \<le> n" using IH(2) unfolding j by simp
    moreover have "n < 2 * 2 ^ bit_len (n div 2)" using IH(3) by simp
    ultimately show ?thesis unfolding s by simp
  qed
qed

text \<open>
  \<open>round_bits\<close> finds the neighbours of \<open>n / d * 2 ^ e\<close> and takes the nearer one, or the even one.
\<close>

lemma round_bits_nearest:
  fixes n d e :: int
  defines "v \<equiv> of_int n / of_int d * 2 powi e :: real"
  assumes "0 < d" "d \<le> n"
  shows "\<exists>b. mag_at v b \<and> round_bits n d e = mag_nearest v b"
proof -
  define L where "L = int (bit_len (n div d))"
  define k where "k = max (L - 53) (- 1074 - e)"
  define num where "num = (if 0 \<le> k then n else n * 2 ^ nat (- k))"
  define den where "den = (if 0 \<le> k then d * 2 ^ nat k else d)"
  define q r t where "q = num div den" and "r = num mod den" and "t = e + k"
  define b where "b = (t + 1074) * 2 ^ 52 + q"
  have den: "0 < den" using assms(2) by (simp add: den_def)
  have ratio: "of_int num / of_int den = (of_int n / of_int d) * (2 powi (- k) :: real)"
  proof (cases "0 \<le> k")
    case True
    then have "2 powi k = (2 ^ nat k :: real)" by (simp add: power_int_def)
    then have "2 powi (- k) = 1 / (2 ^ nat k :: real)"
      by (simp add: power_int_minus inverse_eq_divide)
    with True show ?thesis by (simp add: num_def den_def)
  next
    case False
    then have "2 powi (- k) = (2 ^ nat (- k) :: real)" by (simp add: power_int_def)
    with False show ?thesis by (simp add: num_def den_def)
  qed
  have v: "v = of_int num / of_int den * 2 powi t"
    unfolding v_def ratio t_def by (simp add: power_int_add power_int_minus)
  have w: "of_int num / of_int den = of_int q + (of_int r / of_int den :: real)"
  proof -
    have "num = q * den + r" by (simp add: q_def r_def)
    then have "of_int num = of_int q * of_int den + (of_int r :: real)"
      by (metis of_int_add of_int_mult)
    then show ?thesis using den by (simp add: field_simps)
  qed
  have r: "0 \<le> r" "r < den" using den by (simp_all add: r_def)
  have t: "- 1074 \<le> t" by (simp add: t_def k_def)
  have L: "0 < L" "2 ^ nat (L - 1) \<le> n div d" "n div d < 2 ^ nat L"
  proof -
    have "0 < n div d" using assms(2,3) by (simp add: pos_imp_zdiv_pos_iff)
    note bl = bit_len_bounds [OF this]
    then show "0 < L" "2 ^ nat (L - 1) \<le> n div d" "n div d < 2 ^ nat L"
      by (simp_all add: L_def nat_diff_distrib)
  qed
  have n: "2 ^ nat (L - 1) * d \<le> n" "n < 2 ^ nat L * d"
  proof -
    have "2 ^ nat (L - 1) * d \<le> (n div d) * d" using L(2) assms(2) by (intro mult_right_mono) simp_all
    also have "\<dots> \<le> n" using pos_mod_sign [of d n] div_mult_mod_eq [of n d] assms(2) by linarith
    finally show "2 ^ nat (L - 1) * d \<le> n" .
    have "n < (n div d + 1) * d"
      using pos_mod_bound [of d n] div_mult_mod_eq [of n d] assms(2) unfolding distrib_right by linarith
    also have "\<dots> \<le> 2 ^ nat L * d" using L(3) assms(2) by (intro mult_right_mono) simp_all
    finally show "n < 2 ^ nat L * d" .
  qed
  have kL: "L - 53 \<le> k" "k = L - 53 \<or> t = - 1074" by (auto simp: k_def t_def)
  have num: "num < 2 ^ 53 * den \<and> (k = L - 53 \<longrightarrow> 2 ^ 52 * den \<le> num)"
  proof (cases "0 \<le> k")
    case True
    have "2 ^ nat L \<le> (2 ^ (53 + nat k) :: int)" using kL(1) True by (intro power_increasing) simp_all
    then have "2 ^ nat L * d \<le> 2 ^ (53 + nat k) * d" using assms(2) by (intro mult_right_mono) simp_all
    with n(2) have "n < 2 ^ 53 * (d * 2 ^ nat k)" by (simp add: power_add mult_ac)
    moreover have "2 ^ 52 * (d * 2 ^ nat k) \<le> n" if "k = L - 53"
    proof -
      have "nat (L - 1) = 52 + nat k" using that True by simp
      with n(1) show ?thesis by (simp add: power_add mult_ac)
    qed
    ultimately show ?thesis using True by (simp add: num_def den_def)
  next
    case False
    have "n * 2 ^ nat (- k) < 2 ^ nat L * d * 2 ^ nat (- k)" using n(2) by simp
    also have "\<dots> = 2 ^ (nat L + nat (- k)) * d" by (simp add: power_add mult_ac)
    also have "\<dots> \<le> 2 ^ 53 * d"
      using kL(1) False L(1) assms(2) by (intro mult_right_mono power_increasing) simp_all
    finally have "n * 2 ^ nat (- k) < 2 ^ 53 * d" .
    moreover have "2 ^ 52 * d \<le> n * 2 ^ nat (- k)" if "k = L - 53"
    proof -
      have "52 = nat (L - 1) + nat (- k)" using that False L(1) by simp
      then have "2 ^ 52 * d = 2 ^ (nat (L - 1) + nat (- k)) * d" by (simp only:)
      also have "\<dots> = 2 ^ nat (L - 1) * d * 2 ^ nat (- k)" by (simp add: power_add mult_ac)
      also have "\<dots> \<le> n * 2 ^ nat (- k)" using n(1) by (intro mult_right_mono) simp_all
      finally show ?thesis .
    qed
    ultimately show ?thesis using False by (simp add: num_def den_def)
  qed
  have num0: "0 \<le> num" using assms(2,3) by (simp add: num_def)
  have q: "0 \<le> q" "q < 2 ^ 53" "t = - 1074 \<or> 2 ^ 52 \<le> q"
  proof -
    show "0 \<le> q" using num0 den by (simp add: q_def pos_imp_zdiv_nonneg_iff)
    have nq: "num = q * den + r" by (simp add: q_def r_def)
    then have "q * den < 2 ^ 53 * den" using num r by linarith
    then show "q < 2 ^ 53" using den by (simp only: mult_less_cancel_right_pos)
    have "2 ^ 52 \<le> q" if "k = L - 53"
    proof -
      have "2 ^ 52 * den < (q + 1) * den" using num that nq r(2) unfolding distrib_right by linarith
      then have "2 ^ 52 < q + 1" using den by (simp only: mult_less_cancel_right_pos)
      then show ?thesis by simp
    qed
    with kL(2) show "t = - 1074 \<or> 2 ^ 52 \<le> q" by blast
  qed
  have mb: "mag_mant b = q" "mag_expo b = t"
  proof -
    have "mag_mant b = q \<and> mag_expo b = t"
    proof (cases "2 ^ 52 \<le> q")
      case True
      have e: "b = (t + 1075) * 2 ^ 52 + (q - 2 ^ 52)" by (simp add: b_def algebra_simps)
      have "1 \<le> t + 1075" "0 \<le> q - 2 ^ 52" "q - 2 ^ 52 < 2 ^ 52" using t True q(2) by simp_all
      from mag_parts [OF this, folded e] show ?thesis by simp
    next
      case False
      with q show ?thesis by (simp add: b_def mag_mant_def mag_expo_def)
    qed
    then show "mag_mant b = q" "mag_expo b = t" by simp_all
  qed
  have b0: "0 \<le> b" using t q(1) by (simp add: b_def)
  define u where "u = (2 powi t :: real)"
  define x where "x = (of_int r / of_int den :: real)"
  have u: "0 < u" by (simp add: u_def)
  have x: "0 \<le> x" "x < 1" using r den by (simp_all add: x_def)
  have lo: "mag_val b = of_int q * u" by (simp add: mag_val_def mb u_def)
  have hi: "mag_val (b + 1) = of_int q * u + u" unfolding mag_val_succ [OF b0] lo mb u_def by (rule refl)
  have v': "v = of_int q * u + x * u" unfolding v w u_def x_def by (simp add: algebra_simps)
  have at: "mag_at v b" using b0 x u by (simp add: mag_at_def lo hi v')
  have cmp: "mag_val (b + 1) - v < v - mag_val b \<longleftrightarrow> den < 2 * r"
    "mag_val (b + 1) - v = v - mag_val b \<longleftrightarrow> 2 * r = den"
  proof -
    have "mag_val (b + 1) - v = (1 - x) * u" "v - mag_val b = x * u"
      unfolding lo hi v' by (simp_all add: algebra_simps)
    then have "mag_val (b + 1) - v < v - mag_val b \<longleftrightarrow> 1 - x < x"
      "mag_val (b + 1) - v = v - mag_val b \<longleftrightarrow> 1 - x = x" using u by simp_all
    moreover have "1 - x < x \<longleftrightarrow> of_int den < (of_int (2 * r) :: real)"
      "1 - x = x \<longleftrightarrow> of_int (2 * r) = (of_int den :: real)"
      using den by (auto simp: x_def field_simps)
    ultimately show "mag_val (b + 1) - v < v - mag_val b \<longleftrightarrow> den < 2 * r"
      "mag_val (b + 1) - v = v - mag_val b \<longleftrightarrow> 2 * r = den"
      by (simp_all only: of_int_less_iff of_int_eq_iff)
  qed
  have "odd b \<longleftrightarrow> odd q" by (simp add: b_def)
  then have "mag_nearest v b = (if den < 2 * r \<or> (2 * r = den \<and> odd q) then b + 1 else b)"
    by (simp only: mag_nearest_def cmp)
  moreover have "round_bits n d e = (if den < 2 * r \<or> (2 * r = den \<and> odd q) then b + 1 else b)"
    unfolding round_bits_def Let_def L_def [symmetric] k_def [symmetric] num_def [symmetric]
      den_def [symmetric] q_def [symmetric] r_def [symmetric] b_def t_def by simp
  ultimately show ?thesis using at by auto
qed

section \<open>Rounding a real\<close>

definition mag_rnd :: "real \<Rightarrow> int" where
  "mag_rnd v = mag_nearest v (THE b. mag_at v b)"

text \<open>The key of the float nearest to a real, infinite when the real is too large.\<close>

definition f64_rnd :: "real \<Rightarrow> int" where
  "f64_rnd v = (if v < 0 then - min (mag_rnd (- v)) f64_inf_bits else min (mag_rnd v) f64_inf_bits)"

lemma mag_rnd_at: "mag_at v b \<Longrightarrow> mag_rnd v = mag_nearest v b"
  unfolding mag_rnd_def by (metis mag_at_unique the_equality)

lemma mag_rnd_val: "0 \<le> b \<Longrightarrow> mag_rnd (mag_val b) = b"
  using mag_rnd_at [OF mag_at_val] mag_nearest_val by simp

lemma mag_val_unbounded: "\<exists>b\<ge>0. v < mag_val b"
proof -
  define u where "u = (2 powi (- 1074) :: real)"
  have u: "0 < u" by (simp add: u_def)
  obtain n :: nat where n: "v / u < real n" using reals_Archimedean2 by blast
  have "real n * u \<le> mag_val (int n)" for n
  proof (induction n)
    case (Suc n)
    have "u \<le> 2 powi mag_expo (int n)"
      unfolding u_def by (intro power_int_increasing) (auto simp: mag_expo_def)
    moreover have "mag_val (int (Suc n)) = mag_val (int n) + 2 powi mag_expo (int n)"
      using mag_val_succ [of "int n"] by (simp add: add.commute)
    moreover have "real (Suc n) * u = real n * u + u" by (simp add: algebra_simps)
    ultimately show ?case using Suc by linarith
  qed simp
  moreover have "v < real n * u" using n u by (simp add: field_simps)
  ultimately show ?thesis by (intro exI [of _ "int n"]) (metis less_le_trans of_nat_0_le_iff)
qed

lemma mag_at_exists:
  assumes "0 \<le> v"
  shows "\<exists>b. mag_at v b"
proof -
  obtain c where c: "0 \<le> c" "v < mag_val c" using mag_val_unbounded by blast
  define n where "n = (LEAST n. v < mag_val (int n))"
  have n: "v < mag_val (int n)" "\<And>m. m < n \<Longrightarrow> \<not> v < mag_val (int m)"
    unfolding n_def using c by (auto intro: LeastI [of _ "nat c"] dest: not_less_Least)
  from n(1) assms obtain m where m: "n = Suc m" by (cases n) auto
  have "mag_at v (int m)" using n(1) n(2) [of m] unfolding m by (simp add: mag_at_def add.commute not_less)
  then show ?thesis by blast
qed

lemma mag_rnd_mono: "0 \<le> v \<Longrightarrow> v \<le> w \<Longrightarrow> mag_rnd v \<le> mag_rnd w"
proof -
  assume vw: "0 \<le> v" "v \<le> w"
  then obtain b c where "mag_at v b" "mag_at w c" using mag_at_exists by (meson order_trans)
  with vw show ?thesis by (simp add: mag_rnd_at mag_nearest_mono)
qed

lemma mag_rnd_nonneg: "0 \<le> v \<Longrightarrow> 0 \<le> mag_rnd v"
  using mag_rnd_mono [of 0 v] mag_rnd_val [of 0] by simp

lemma f64_rnd_mono: "v \<le> w \<Longrightarrow> f64_rnd v \<le> f64_rnd w"
proof -
  assume vw: "v \<le> w"
  consider "0 \<le> v" | "v < 0" "0 \<le> w" | "w < 0" by linarith
  then show ?thesis
  proof cases
    case 1
    with vw show ?thesis using mag_rnd_mono [of v w] by (auto simp: f64_rnd_def)
  next
    case 2
    with mag_rnd_nonneg [of "- v"] mag_rnd_nonneg [of w] show ?thesis
      by (auto simp: f64_rnd_def f64_inf_bits_def min_def)
  next
    case 3
    with vw show ?thesis using mag_rnd_mono [of "- w" "- v"] by (auto simp: f64_rnd_def min_def)
  qed
qed

section \<open>Values of floats\<close>

definition f64_val :: "f64 \<Rightarrow> real" where
  "f64_val x = (if f64_negative x then - 1 else 1) * mag_val (f64_mag x)"

lemma f64_mag_range: "0 \<le> f64_mag x" "f64_mag x < 2 ^ 63"
  by (simp_all add: f64_mag_def)

lemma f64_make_parts:
  assumes "0 \<le> m" "m < 2 ^ 63"
  shows "f64_mag (f64_make neg m) = m" "f64_negative (f64_make neg m) = neg"
proof -
  have "uint (word_of_int (2 ^ 63 + m) :: f64) = 2 ^ 63 + m" "uint (word_of_int m :: f64) = m"
    unfolding uint_word_of_int using assms by (simp_all add: mod_pos_pos_trivial)
  moreover have "(2 ^ 63 + m) mod 2 ^ 63 = m" using assms by simp
  ultimately show "f64_mag (f64_make neg m) = m" "f64_negative (f64_make neg m) = neg"
    using assms by (simp_all add: f64_mag_def f64_negative_def f64_make_def)
qed

lemma f64_key_make: "0 \<le> m \<Longrightarrow> m < 2 ^ 63 \<Longrightarrow> f64_key (f64_make neg m) = (if neg then - m else m)"
  by (simp add: f64_key_def f64_make_parts)

lemma f64_val_key: "f64_val x = (if f64_key x < 0 then - mag_val (- f64_key x) else mag_val (f64_key x))"
  using f64_mag_range [of x] by (auto simp: f64_val_def f64_key_def)

text \<open>Keys order the values.\<close>

lemma f64_key_le_iff: "f64_key x \<le> f64_key y \<longleftrightarrow> f64_val x \<le> f64_val y"
proof -
  have mono: "(if a < 0 then - mag_val (- a) else mag_val a) < (if b < 0 then - mag_val (- b) else mag_val b)"
    if "a < b" for a b :: int
    using that mag_val_strict [of "- b" "- a"] mag_val_strict [of a b] mag_val_strict [of 0 "- a"]
      mag_val_nonneg [of b] by auto
  show ?thesis
    unfolding f64_val_key using mono [of "f64_key x" "f64_key y"] mono [of "f64_key y" "f64_key x"]
    by (smt (verit))
qed

lemma f64_le_val: "f64_is_finite x \<Longrightarrow> f64_is_finite y \<Longrightarrow> f64_le x y \<longleftrightarrow> f64_val x \<le> f64_val y"
  by (simp add: f64_le_def f64_finite_not_nan f64_key_le_iff)

lemma f64_lt_val: "f64_is_finite x \<Longrightarrow> f64_is_finite y \<Longrightarrow> f64_lt x y \<longleftrightarrow> f64_val x < f64_val y"
  by (simp add: f64_lt_def f64_finite_not_nan f64_key_le_iff flip: not_le)

lemma f64_rnd_val:
  assumes "f64_is_finite x"
  shows "f64_rnd (f64_val x) = f64_key x"
proof -
  have m: "0 \<le> f64_mag x" "f64_mag x < f64_inf_bits"
    using assms f64_mag_range by (simp_all add: f64_is_finite_def)
  have "mag_val (f64_mag x) \<noteq> 0 \<Longrightarrow> f64_mag x \<noteq> 0" by auto
  have "mag_rnd 0 = 0" using mag_rnd_val [of 0] by simp
  with m show ?thesis
    using mag_val_nonneg [OF m(1)] mag_val_eq_iff [OF m(1), of 0]
    by (auto simp: f64_rnd_def f64_val_def f64_key_def mag_rnd_val f64_inf_bits_def)
qed

lemma f64_round_to_rnd:
  assumes "n = 0 \<or> (0 < d \<and> d \<le> n)"
  shows "f64_key (f64_round_to neg n d e)
      = f64_rnd ((if neg then - 1 else 1) * (of_int n / of_int d * 2 powi e))"
    and "\<not> f64_is_nan (f64_round_to neg n d e)"
proof -
  have "f64_key (f64_round_to neg n d e)
      = f64_rnd ((if neg then - 1 else 1) * (of_int n / of_int d * 2 powi e))
    \<and> \<not> f64_is_nan (f64_round_to neg n d e)"
  proof (cases "n = 0")
    case True
    have "f64_rnd 0 = 0" using mag_rnd_val [of 0] by (simp add: f64_rnd_def f64_inf_bits_def)
    with True show ?thesis
      by (simp add: f64_round_to_def f64_key_make f64_is_nan_def f64_make_parts f64_inf_bits_def)
  next
    case False
    let ?v = "of_int n / of_int d * 2 powi e :: real"
    have d: "0 < d" "d \<le> n" using assms False by auto
    then have v: "0 < ?v" by simp
    obtain b where b: "mag_at ?v b" "round_bits n d e = mag_nearest ?v b"
      using round_bits_nearest [OF d] by blast
    then have r: "round_bits n d e = mag_rnd ?v" by (simp add: mag_rnd_at)
    let ?m = "min (round_bits n d e) f64_inf_bits"
    have m: "0 \<le> ?m" "?m < 2 ^ 63" "?m \<le> f64_inf_bits"
      using mag_rnd_nonneg [of ?v] v r by (auto simp: f64_inf_bits_def min_def)
    then show ?thesis
      using False v by (simp add: f64_round_to_def f64_key_make f64_is_nan_def f64_make_parts f64_rnd_def r)
  qed
  then show "f64_key (f64_round_to neg n d e)
      = f64_rnd ((if neg then - 1 else 1) * (of_int n / of_int d * 2 powi e))"
    "\<not> f64_is_nan (f64_round_to neg n d e)" by blast+
qed

section \<open>Operations\<close>

text \<open>A finite value at a common exponent.\<close>

lemma f64_at_val:
  assumes "e \<le> f64_expo x"
  shows "of_int (f64_at e x) * 2 powi e = f64_val x"
proof -
  have "(2 :: real) ^ nat (f64_expo x - e) * 2 powi e = 2 powi (f64_expo x - e) * 2 powi e"
    using assms by (simp add: power_int_def)
  also have "\<dots> = 2 powi f64_expo x" by (simp flip: power_int_add)
  finally have "(2 :: real) ^ nat (f64_expo x - e) * 2 powi e = 2 powi f64_expo x" .
  then show ?thesis
    by (simp add: f64_at_def f64_val_def mag_val_def f64_mant_def f64_expo_def mult.assoc)
qed

lemma f64_val_mant:
  "f64_val x = (if f64_negative x then - 1 else 1) * (of_int (f64_mant x) * 2 powi f64_expo x)"
  by (simp add: f64_val_def mag_val_def f64_mant_def f64_expo_def)

lemma f64_mant_range: "0 \<le> f64_mant x" "f64_mant x < 2 ^ 53"
  using f64_mag_range [of x] pos_mod_bound [of "2 ^ 52" "f64_mag x"]
  by (auto simp: f64_mant_def mag_mant_def)

lemma f64_mant_zero_iff: "f64_mant x = 0 \<longleftrightarrow> f64_is_zero x"
proof -
  have "0 \<le> f64_mag x mod 2 ^ 52" by simp
  moreover have "(0::int) < 2 ^ 52" by simp
  ultimately have "2 ^ 52 + f64_mag x mod 2 ^ 52 \<noteq> 0" by (smt (verit))
  then show ?thesis by (auto simp: f64_mant_def mag_mant_def f64_is_zero_def)
qed

lemma f64_finite_facts:
  assumes "f64_is_finite x"
  shows "\<not> f64_is_nan x" "\<not> f64_is_inf x"
  using assms by (simp_all add: f64_is_finite_def f64_is_nan_def f64_is_inf_def)

lemma f64_rnd_0 [simp]: "f64_rnd 0 = 0"
  using mag_rnd_val [of 0] by (simp add: f64_rnd_def f64_inf_bits_def)

lemma f64_zero_key: "f64_key (f64_make neg 0) = 0" "\<not> f64_is_nan (f64_make neg 0)"
  by (simp_all add: f64_key_make f64_is_nan_def f64_make_parts f64_inf_bits_def)

lemma f64_add_rnd:
  assumes "f64_is_finite x" "f64_is_finite y"
  shows "f64_key (f64_add x y) = f64_rnd (f64_val x + f64_val y)" "\<not> f64_is_nan (f64_add x y)"
proof -
  define e where "e = min (f64_expo x) (f64_expo y)"
  define s where "s = f64_at e x + f64_at e y"
  have v: "of_int s * 2 powi e = f64_val x + f64_val y"
    using f64_at_val [of e x] f64_at_val [of e y] by (simp add: s_def e_def distrib_right)
  have add: "f64_add x y = (if s = 0 then f64_make (f64_negative x \<and> f64_negative y) 0
      else f64_round_to (s < 0) \<bar>s\<bar> 1 e)"
    using assms by (simp add: f64_add_def f64_finite_facts Let_def s_def e_def)
  have s: "(if s < 0 then - 1 else 1) * (of_int \<bar>s\<bar> / of_int 1 * 2 powi e) = f64_val x + f64_val y"
    unfolding v [symmetric] by simp
  have "\<bar>s\<bar> = 0 \<or> (0 < (1::int) \<and> 1 \<le> \<bar>s\<bar>)" by auto
  note rr = f64_round_to_rnd [OF this, of "s < 0" e, unfolded s]
  show "f64_key (f64_add x y) = f64_rnd (f64_val x + f64_val y)"
    using rr(1) v by (auto simp: add f64_zero_key)
  show "\<not> f64_is_nan (f64_add x y)" using rr(2) by (simp add: add f64_zero_key)
qed

lemma f64_neg_facts:
  "f64_is_finite (f64_neg x) = f64_is_finite x" "f64_val (f64_neg x) = - f64_val x"
  "f64_is_nan (f64_neg x) = f64_is_nan x"
  using f64_make_parts [OF f64_mag_range [of x], of "\<not> f64_negative x"]
  by (simp_all add: f64_neg_def f64_is_finite_def f64_is_nan_def f64_val_def)

lemma f64_sub_rnd:
  assumes "f64_is_finite x" "f64_is_finite y"
  shows "f64_key (f64_sub x y) = f64_rnd (f64_val x - f64_val y)" "\<not> f64_is_nan (f64_sub x y)"
  using f64_add_rnd [of x "f64_neg y"] assms by (simp_all add: f64_sub_def f64_neg_facts)

lemma f64_mul_rnd:
  assumes "f64_is_finite x" "f64_is_finite y"
  shows "f64_key (f64_mul x y) = f64_rnd (f64_val x * f64_val y)" "\<not> f64_is_nan (f64_mul x y)"
proof -
  let ?neg = "f64_negative x \<noteq> f64_negative y"
  let ?n = "f64_mant x * f64_mant y" and ?e = "f64_expo x + f64_expo y"
  have mul: "f64_mul x y = f64_round_to ?neg ?n 1 ?e"
    using assms by (simp add: f64_mul_def Let_def f64_finite_facts)
  have "0 \<le> ?n" using f64_mant_range by simp
  then have "?n = 0 \<or> (0 < (1::int) \<and> 1 \<le> ?n)" by linarith
  note rr = f64_round_to_rnd [OF this, of ?neg ?e]
  have "(if ?neg then - 1 else 1) * (of_int ?n / of_int 1 * 2 powi ?e) = f64_val x * f64_val y"
    by (simp add: f64_val_mant power_int_add)
  with rr show "f64_key (f64_mul x y) = f64_rnd (f64_val x * f64_val y)" "\<not> f64_is_nan (f64_mul x y)"
    by (simp_all add: mul)
qed

lemma f64_div_rnd:
  assumes "f64_is_finite x" "f64_is_finite y" "\<not> f64_is_zero y"
  shows "f64_key (f64_div x y) = f64_rnd (f64_val x / f64_val y)" "\<not> f64_is_nan (f64_div x y)"
proof -
  let ?neg = "f64_negative x \<noteq> f64_negative y"
  let ?n = "f64_mant x * 2 ^ 110" and ?d = "f64_mant y" and ?e = "f64_expo x - f64_expo y - 110"
  have div: "f64_div x y = f64_round_to ?neg ?n ?d ?e"
    using assms by (simp add: f64_div_def Let_def f64_finite_facts)
  have d: "0 < ?d" "?d < 2 ^ 53"
    using f64_mant_range [of y] assms(3) f64_mant_zero_iff [of y] by (simp_all add: order.order_iff_strict)
  have "?n = 0 \<or> (0 < ?d \<and> ?d \<le> ?n)" using f64_mant_range(1) [of x] d by (cases "f64_mant x = 0") auto
  note rr = f64_round_to_rnd [OF this, of ?neg ?e]
  have p: "2 powi ?e = (2 powi f64_expo x / 2 powi f64_expo y / 2 ^ 110 :: real)"
    by (simp add: power_int_diff)
  have "(if ?neg then - 1 else 1) * (of_int ?n / of_int ?d * 2 powi ?e) = f64_val x / f64_val y"
    unfolding p by (simp add: f64_val_mant)
  with rr show "f64_key (f64_div x y) = f64_rnd (f64_val x / f64_val y)" "\<not> f64_is_nan (f64_div x y)"
    by (simp_all add: div)
qed

lemma f64_of_int_rnd:
  "f64_key (f64_of_int i) = f64_rnd (of_int i)" "\<not> f64_is_nan (f64_of_int i)"
proof -
  have "\<bar>i\<bar> = 0 \<or> (0 < (1::int) \<and> 1 \<le> \<bar>i\<bar>)" by auto
  note rr = f64_round_to_rnd [OF this, of "i < 0" 0]
  then show "f64_key (f64_of_int i) = f64_rnd (of_int i)" "\<not> f64_is_nan (f64_of_int i)"
    by (simp_all add: f64_of_int_def)
qed

text \<open>Bounds of results by representable bounds of exact results.\<close>

lemma f64_rnd_le: "f64_is_finite b \<Longrightarrow> v \<le> f64_val b \<Longrightarrow> f64_rnd v \<le> f64_key b"
  using f64_rnd_mono [of v "f64_val b"] by (simp add: f64_rnd_val)

lemma f64_rnd_ge: "f64_is_finite b \<Longrightarrow> f64_val b \<le> v \<Longrightarrow> f64_key b \<le> f64_rnd v"
  using f64_rnd_mono [of "f64_val b" v] by (simp add: f64_rnd_val)

lemma f64_finite_key: "f64_is_finite x \<longleftrightarrow> - f64_inf_bits < f64_key x \<and> f64_key x < f64_inf_bits"
  using f64_mag_range [of x] by (auto simp: f64_is_finite_def f64_key_def f64_inf_bits_def)

section \<open>Integers up to \<open>2 ^ 53\<close> are exact\<close>

lemma int_representable:
  assumes "0 < k" "k \<le> 2 ^ 53"
  shows "\<exists>b. 0 \<le> b \<and> b < f64_inf_bits \<and> mag_val b = real_of_int k"
proof -
  have ex: "\<exists>b. 0 \<le> b \<and> b < f64_inf_bits \<and> mag_val b = real_of_int k"
    if k: "0 < k" "k < 2 ^ 53" for k
  proof -
    note bl = bit_len_bounds [OF k(1)]
    have "2 ^ (bit_len k - 1) < (2 ^ 53 :: int)" using bl k(2) by linarith
    then have "bit_len k - 1 < 53" by (simp only: power_strict_increasing_iff)
    then obtain j where j: "bit_len k + j = 53" by (metis Suc_diff_1 bl less_eq_Suc_le le_iff_add)
    have "k * 2 ^ j < 2 ^ bit_len k * 2 ^ j" using bl by simp
    moreover have "2 ^ (bit_len k - 1) * 2 ^ j \<le> k * 2 ^ j" using bl by (intro mult_right_mono) auto
    moreover have "2 ^ bit_len k * 2 ^ j = (2 ^ 53 :: int)" using j by (simp flip: power_add)
    moreover have "2 ^ (bit_len k - 1) * 2 ^ j = (2 ^ 52 :: int)"
    proof -
      have "bit_len k - 1 + j = 52" using j bl by simp
      then show ?thesis by (simp flip: power_add)
    qed
    ultimately have m: "0 \<le> k * 2 ^ j - 2 ^ 52" "k * 2 ^ j - 2 ^ 52 < 2 ^ 52" by (linarith, simp)
    have q: "1 \<le> (1075 - int j)" using j by simp
    let ?b = "(1075 - int j) * 2 ^ 52 + (k * 2 ^ j - 2 ^ 52)"
    have "mag_val ?b = real_of_int (k * 2 ^ j) * 2 powi (- int j)"
      by (simp only: mag_val_def mag_parts [OF q m]) simp
    also have "\<dots> = real_of_int k" by (simp add: power_int_minus)
    finally have "mag_val ?b = real_of_int k" .
    moreover have "0 \<le> ?b" using q m by simp
    moreover have "?b < f64_inf_bits" using m by (simp add: f64_inf_bits_def)
    ultimately show ?thesis by blast
  qed
  show ?thesis
  proof (cases "k = 2 ^ 53")
    case True
    have "mag_val (1076 * 2 ^ 52 + 0) = 2 ^ 53"
      by (simp add: mag_val_def mag_mant_def mag_expo_def)
    with True show ?thesis
      by (intro exI [of _ "1076 * 2 ^ 52 + 0"]) (simp add: f64_inf_bits_def)
  next
    case False
    with assms show ?thesis by (intro ex) simp_all
  qed
qed

text \<open>\<open>f64_int x k\<close>: the float \<open>x\<close> is the integer \<open>k\<close>, exactly.\<close>

definition f64_int :: "f64 \<Rightarrow> int \<Rightarrow> bool" where
  "f64_int x k \<longleftrightarrow> f64_is_finite x \<and> f64_val x = of_int k"

lemma f64_rnd_int:
  assumes "\<bar>k\<bar> \<le> 2 ^ 53"
  shows "\<bar>f64_rnd (of_int k)\<bar> < f64_inf_bits"
    and "f64_key x = f64_rnd (of_int k) \<Longrightarrow> f64_int x k"
proof -
  obtain b where b: "0 \<le> b" "b < f64_inf_bits" "mag_val b = real_of_int \<bar>k\<bar>"
  proof (cases "k = 0")
    case True
    show ?thesis by (rule that [of 0]) (simp_all add: True f64_inf_bits_def)
  next
    case False
    with assms int_representable [of "\<bar>k\<bar>"] that show ?thesis by auto
  qed
  have r: "f64_rnd (of_int k) = (if k < 0 then - b else b)"
    using b mag_rnd_val [OF b(1)] by (auto simp: f64_rnd_def)
  with b show "\<bar>f64_rnd (of_int k)\<bar> < f64_inf_bits" by simp
  assume x: "f64_key x = f64_rnd (of_int k)"
  have "b \<noteq> 0" if "k < 0" using b(3) that by auto
  with b r x show "f64_int x k"
    unfolding f64_int_def f64_val_key f64_finite_key by auto
qed

lemma f64_int_of_int: "\<bar>k\<bar> \<le> 2 ^ 53 \<Longrightarrow> f64_int (f64_of_int k) k"
  by (intro f64_rnd_int(2) f64_of_int_rnd)

lemma f64_int_add:
  "f64_int x a \<Longrightarrow> f64_int y b \<Longrightarrow> \<bar>a + b\<bar> \<le> 2 ^ 53 \<Longrightarrow> f64_int (f64_add x y) (a + b)"
  by (intro f64_rnd_int(2)) (simp_all add: f64_add_rnd f64_int_def)

lemma f64_int_sub:
  "f64_int x a \<Longrightarrow> f64_int y b \<Longrightarrow> \<bar>a - b\<bar> \<le> 2 ^ 53 \<Longrightarrow> f64_int (f64_sub x y) (a - b)"
  by (intro f64_rnd_int(2)) (simp_all add: f64_sub_rnd f64_int_def)

lemma f64_int_mul:
  "f64_int x a \<Longrightarrow> f64_int y b \<Longrightarrow> \<bar>a * b\<bar> \<le> 2 ^ 53 \<Longrightarrow> f64_int (f64_mul x y) (a * b)"
  by (intro f64_rnd_int(2)) (simp_all add: f64_mul_rnd f64_int_def)

lemma f64_int_lt: "f64_int x a \<Longrightarrow> f64_int y b \<Longrightarrow> f64_lt x y \<longleftrightarrow> a < b"
  by (simp add: f64_int_def f64_lt_val)

lemma f64_int_le: "f64_int x a \<Longrightarrow> f64_int y b \<Longrightarrow> f64_le x y \<longleftrightarrow> a \<le> b"
  by (simp add: f64_int_def f64_le_val)

lemma f64_int_consts: "f64_int f64_zero 0" "f64_int f64_one 1"
proof -
  have "f64_of_int 0 = f64_zero" "f64_of_int 1 = f64_one" by code_simp+
  then show "f64_int f64_zero 0" "f64_int f64_one 1"
    using f64_int_of_int [of 0] f64_int_of_int [of 1] by simp_all
qed

section \<open>Rounding to integers\<close>

lemma f64_val_shift:
  assumes "f64_expo x < 0"
  shows "\<bar>f64_val x\<bar> * 2 ^ nat (- f64_expo x) = of_int (f64_mant x)"
proof -
  have "2 powi f64_expo x * 2 ^ nat (- f64_expo x) = (1 :: real)"
    using assms by (simp flip: power_int_of_nat power_int_add)
  then show ?thesis using f64_mant_range(1) [of x] by (simp add: f64_val_mant abs_mult mult.assoc)
qed

lemma f64_val_whole:
  assumes "0 \<le> f64_expo x"
  shows "\<bar>f64_val x\<bar> = of_int (f64_mant x * 2 ^ nat (f64_expo x))"
  using assms f64_mant_range(1) [of x] by (simp add: f64_val_mant abs_mult power_int_def)

lemma f64_val_sign:
  "f64_negative x \<Longrightarrow> f64_val x \<le> 0" "\<not> f64_negative x \<Longrightarrow> 0 \<le> f64_val x"
  using f64_mant_range(1) [of x] by (simp_all add: f64_val_mant)

definition round_mag :: "f64 \<Rightarrow> int" where
  "round_mag x = (if 0 \<le> f64_expo x then f64_mant x * 2 ^ nat (f64_expo x)
     else (2 * f64_mant x + 2 ^ nat (- f64_expo x)) div (2 * 2 ^ nat (- f64_expo x)))"

lemma f64_round_int_mag: "f64_round_int x = (if f64_negative x then - round_mag x else round_mag x)"
  by (simp add: f64_round_int_def round_mag_def)

lemma round_mag_nonneg: "0 \<le> round_mag x"
  using f64_mant_range(1) [of x] by (simp add: round_mag_def pos_imp_zdiv_nonneg_iff)

text \<open>Bounds of the nearest integer, for values at least zero.\<close>

lemma f64_round_int_bounds:
  assumes "0 \<le> j" "of_int j \<le> f64_val x" "f64_val x \<le> of_int k"
  shows "j \<le> f64_round_int x" "f64_round_int x \<le> k"
proof -
  have abs: "\<bar>f64_val x\<bar> = f64_val x" using assms by simp
  have m: "j \<le> (if f64_negative x then - m else m) \<and> (if f64_negative x then - m else m) \<le> k"
    if "j \<le> m" "m \<le> k" "f64_val x = 0 \<longrightarrow> m = 0" for m
    using that f64_val_sign(1) [of x] assms by (cases "f64_val x = 0") auto
  have "j \<le> f64_round_int x \<and> f64_round_int x \<le> k"
  proof (cases "0 \<le> f64_expo x")
    case True
    let ?m = "f64_mant x * 2 ^ nat (f64_expo x)"
    have v: "f64_val x = of_int ?m" using f64_val_whole [OF True] abs by simp
    then have "real_of_int j \<le> of_int ?m" "real_of_int ?m \<le> of_int k" using assms by linarith+
    then have "j \<le> ?m" "?m \<le> k" by (simp_all only: of_int_le_iff)
    moreover have "f64_val x = 0 \<longrightarrow> ?m = 0" using v by linarith
    moreover have "round_mag x = ?m" using True by (simp add: round_mag_def)
    ultimately show ?thesis using m [of ?m] by (simp only: f64_round_int_mag)
  next
    case False
    define p where "p = (2 :: int) ^ nat (- f64_expo x)"
    have p: "0 < p" by (simp add: p_def)
    have v: "f64_val x * of_int p = of_int (f64_mant x)"
      using f64_val_shift [of x] False abs by (simp add: p_def)
    have "real_of_int (j * p) \<le> of_int (f64_mant x)" "of_int (f64_mant x) \<le> real_of_int (k * p)"
      using assms p mult_right_mono [of _ _ "real_of_int p"] by (simp_all flip: v)
    then have b: "j * p \<le> f64_mant x" "f64_mant x \<le> k * p" by (simp_all only: of_int_le_iff)
    let ?m = "(2 * f64_mant x + p) div (2 * p)"
    have "j * (2 * p) div (2 * p) \<le> ?m" "?m \<le> (k * (2 * p) + p) div (2 * p)"
      using b p by (intro zdiv_mono1; simp)+
    moreover have "(k * (2 * p) + p) div (2 * p) = k" using p by simp
    ultimately have jk: "j \<le> ?m" "?m \<le> k" using p by simp_all
    have "f64_val x = 0 \<longrightarrow> ?m = 0"
    proof
      assume that: "f64_val x = 0"
      have "f64_mant x = 0" using v that by simp
      then show "?m = 0" using p by simp
    qed
    moreover have "round_mag x = ?m" using False by (simp only: round_mag_def p_def if_False)
    ultimately show ?thesis using m [OF jk] by (simp only: f64_round_int_mag)
  qed
  then show "j \<le> f64_round_int x" "f64_round_int x \<le> k" by blast+
qed

text \<open>An integral value is its own integer part.\<close>

lemma f64_trunc_int_exact:
  assumes "f64_val x = of_int i"
  shows "f64_trunc_int x = i"
proof -
  have sgn: "(if f64_negative x then - \<bar>i\<bar> else \<bar>i\<bar>) = i"
    using f64_val_sign [of x] assms by auto
  have "(if 0 \<le> f64_expo x then f64_mant x * 2 ^ nat (f64_expo x)
      else f64_mant x div 2 ^ nat (- f64_expo x)) = \<bar>i\<bar>"
  proof (cases "0 \<le> f64_expo x")
    case True
    then have "real_of_int (f64_mant x * 2 ^ nat (f64_expo x)) = of_int \<bar>i\<bar>"
      using f64_val_whole [OF True] assms by simp
    with True show ?thesis by (simp only: of_int_eq_iff if_True)
  next
    case False
    then have "real_of_int (f64_mant x) = of_int (\<bar>i\<bar> * 2 ^ nat (- f64_expo x))"
      using f64_val_shift [of x] assms by simp
    then have "f64_mant x = \<bar>i\<bar> * 2 ^ nat (- f64_expo x)" by (simp only: of_int_eq_iff)
    with False show ?thesis by simp
  qed
  with sgn show ?thesis by (simp only: f64_trunc_int_def Let_def)
qed

lemma f64_as_int_exact:
  "f64_int x i \<Longrightarrow> lo \<le> i \<Longrightarrow> i \<le> hi \<Longrightarrow> f64_as_int lo hi x = i"
  by (simp add: f64_as_int_def f64_int_def f64_finite_facts f64_trunc_int_exact)

lemma f64_round_int:
  assumes "f64_is_finite x" "\<bar>f64_round_int x\<bar> \<le> 2 ^ 53"
  shows "f64_int (f64_round x) (f64_round_int x)"
proof -
  let ?i = "f64_round_int x"
  have sgn: "(if f64_negative x then - \<bar>?i\<bar> else \<bar>?i\<bar>) = ?i"
    using round_mag_nonneg [of x] by (simp add: f64_round_int_mag)
  have "\<bar>?i\<bar> = 0 \<or> (0 < (1::int) \<and> 1 \<le> \<bar>?i\<bar>)" by auto
  note rr = f64_round_to_rnd [OF this, of "f64_negative x" 0]
  have "(if f64_negative x then - 1 else 1) * (real_of_int \<bar>?i\<bar> / of_int 1 * 2 powi 0) = of_int ?i"
    using sgn by (auto split: if_splits)
  with rr(1) have "f64_key (f64_round x) = f64_rnd (of_int ?i)"
    using assms(1) by (simp add: f64_round_def f64_integral_def)
  then show ?thesis by (rule f64_rnd_int(2) [OF assms(2)])
qed

lemma between_finite:
  "f64_is_finite a \<Longrightarrow> f64_is_finite b \<Longrightarrow> f64_key a \<le> f64_key x \<Longrightarrow> f64_key x \<le> f64_key b \<Longrightarrow>
     f64_is_finite x \<and> f64_val a \<le> f64_val x \<and> f64_val x \<le> f64_val b"
  unfolding f64_key_le_iff [symmetric] f64_finite_key by linarith

lemma rnd_between:
  assumes "f64_is_finite a" "f64_is_finite b" "f64_val a \<le> v" "v \<le> f64_val b" "f64_key x = f64_rnd v"
  shows "f64_is_finite x \<and> f64_val a \<le> f64_val x \<and> f64_val x \<le> f64_val b"
  by (rule between_finite) (use assms f64_rnd_le f64_rnd_ge in auto)

lemma f64_int_max: "f64_int x a \<Longrightarrow> f64_int y b \<Longrightarrow> f64_int (f64_max x y) (max a b)"
  by (auto simp: f64_max_def f64_int_lt f64_int_def f64_finite_not_nan)

lemma f64_int_clamp:
  "f64_int x a \<Longrightarrow> f64_int lo b \<Longrightarrow> f64_int hi c \<Longrightarrow> b \<le> c \<Longrightarrow> f64_int (f64_clamp x lo hi) (max b (min a c))"
  by (auto simp: f64_clamp_def f64_int_lt)

end
