(* ===== verification/Std_Strings.thy ===== *)
theory Std_Strings imports Midas_Prelude "HOL-Library.Char_ord" "HOL-Library.List_Lexorder"
  "HOL-Library.Product_Lexorder" begin

text \<open>
  Rust strings are byte strings here: a \<open>char\<close> is one byte of the UTF-8 encoding, and the order of
  \<open>str\<close> is the lexicographic order of the bytes. This theory holds the operations of the standard
  library the components use: ASCII case folding, decimal rendering and decimal parsing.
\<close>

section \<open>ASCII case\<close>

definition byte :: "char \<Rightarrow> nat" where
  "byte c = of_char c"

definition to_ascii_lowercase :: "char \<Rightarrow> char" where
  "to_ascii_lowercase c = (if 65 \<le> byte c \<and> byte c \<le> 90 then char_of (byte c + 32) else c)"

definition eq_ignore_ascii_case :: "string \<Rightarrow> string \<Rightarrow> bool" where
  "eq_ignore_ascii_case s t \<longleftrightarrow> List.map to_ascii_lowercase s = List.map to_ascii_lowercase t"

lemma eq_ignore_ascii_case_refl [simp]: "eq_ignore_ascii_case s s"
  by (simp add: eq_ignore_ascii_case_def)

section \<open>Decimal numerals\<close>

definition digit_char :: "nat \<Rightarrow> char" where
  "digit_char d = char_of (48 + d)"

definition is_ascii_digit :: "char \<Rightarrow> bool" where
  "is_ascii_digit c \<longleftrightarrow> 48 \<le> byte c \<and> byte c \<le> 57"

definition digit_val :: "char \<Rightarrow> nat" where
  "digit_val c = byte c - 48"

text \<open>\<open>Display\<close> of an unsigned and of a signed integer.\<close>

fun show_nat :: "nat \<Rightarrow> string" where
  "show_nat n = (if n < 10 then [digit_char n] else show_nat (n div 10) @ [digit_char (n mod 10)])"

declare show_nat.simps [simp del]

definition show_int :: "int \<Rightarrow> string" where
  "show_int i = (if i < 0 then ''-'' @ show_nat (nat (- i)) else show_nat (nat i))"

text \<open>The value of a non-empty string of digits; \<open>None\<close> for anything else.\<close>

definition digits_val :: "string \<Rightarrow> nat" where
  "digits_val s = foldl (\<lambda>acc c. 10 * acc + digit_val c) 0 s"

definition parse_digits :: "string \<Rightarrow> nat option" where
  "parse_digits s = (if s \<noteq> [] \<and> list_all is_ascii_digit s then Some (digits_val s) else None)"

text \<open>
  \<open>str::parse\<close> of an integer type with bounds \<open>lo\<close> and \<open>hi\<close>, with the error kinds in the order
  in which the standard library's loop finds them. Only signed types take a minus sign.
\<close>

datatype IntErrorKind = EmptyInt | InvalidDigit | PosOverflow | NegOverflow

fun parse_int_loop :: "bool \<Rightarrow> int \<Rightarrow> int \<Rightarrow> int \<Rightarrow> string \<Rightarrow> (int, IntErrorKind) rust_result" where
  "parse_int_loop neg lo hi acc [] = Ok acc"
| "parse_int_loop neg lo hi acc (c # cs) =
     (if \<not> is_ascii_digit c then Err InvalidDigit
      else let m = 10 * acc; a = (if neg then m - int (digit_val c) else m + int (digit_val c))
           in if lo \<le> m \<and> m \<le> hi \<and> lo \<le> a \<and> a \<le> hi then parse_int_loop neg lo hi a cs
              else Err (if neg then NegOverflow else PosOverflow))"

definition parse_int :: "int \<Rightarrow> int \<Rightarrow> string \<Rightarrow> (int, IntErrorKind) rust_result" where
  "parse_int lo hi s =
    (case s of
       [] \<Rightarrow> Err EmptyInt
     | c # cs \<Rightarrow>
         if (c = CHR ''+'' \<or> c = CHR ''-'') \<and> cs = [] then Err InvalidDigit
         else if c = CHR ''+'' then parse_int_loop False lo hi 0 cs
         else if c = CHR ''-'' \<and> lo < 0 then parse_int_loop True lo hi 0 cs
         else parse_int_loop False lo hi 0 s)"

definition parse_i32 :: "string \<Rightarrow> (int, IntErrorKind) rust_result" where
  "parse_i32 = parse_int (- (2 ^ 31)) (2 ^ 31 - 1)"

definition parse_i64 :: "string \<Rightarrow> (int, IntErrorKind) rust_result" where
  "parse_i64 = parse_int (- (2 ^ 63)) (2 ^ 63 - 1)"

lemma byte_char_of: "n < 256 \<Longrightarrow> byte (char_of n) = n"
  by (simp add: byte_def)

lemma digit_char_facts:
  assumes "d < 10"
  shows "is_ascii_digit (digit_char d)" "digit_val (digit_char d) = d"
    "digit_char d \<noteq> CHR ''-''" "digit_char d \<noteq> CHR ''+''"
proof -
  have b: "byte (digit_char d) = 48 + d" using assms by (simp add: digit_char_def byte_char_of)
  then show "is_ascii_digit (digit_char d)" "digit_val (digit_char d) = d"
    using assms by (simp_all add: is_ascii_digit_def digit_val_def)
  have "byte (CHR ''-'') = 45" "byte (CHR ''+'') = 43" by (simp_all add: byte_def)
  with b show "digit_char d \<noteq> CHR ''-''" "digit_char d \<noteq> CHR ''+''" by auto
qed

lemma digits_val_snoc: "digits_val (s @ [c]) = 10 * digits_val s + digit_val c"
  by (simp add: digits_val_def)

lemma show_nat_nonempty [simp]: "show_nat n \<noteq> []"
  by (subst show_nat.simps) simp

lemma show_nat_digits: "list_all is_ascii_digit (show_nat n)"
proof (induction n rule: show_nat.induct)
  case (1 n)
  then show ?case by (subst show_nat.simps) (simp add: digit_char_facts)
qed

lemma digits_val_show_nat: "digits_val (show_nat n) = n"
proof (induction n rule: show_nat.induct)
  case (1 n)
  then show ?case
    by (subst show_nat.simps) (auto simp: digits_val_snoc digit_char_facts, simp add: digits_val_def digit_char_facts)
qed

lemma parse_digits_show_nat [simp]: "parse_digits (show_nat n) = Some n"
  by (simp add: parse_digits_def show_nat_digits digits_val_show_nat)

lemma show_nat_hd: "\<exists>c cs. show_nat n = c # cs \<and> c \<noteq> CHR ''-'' \<and> c \<noteq> CHR ''+''"
proof -
  obtain c cs where s: "show_nat n = c # cs" by (cases "show_nat n") auto
  then have "is_ascii_digit c" using show_nat_digits [of n] by simp
  then have "c \<noteq> CHR ''-''" "c \<noteq> CHR ''+''" by (auto simp: is_ascii_digit_def byte_def)
  with s show ?thesis by blast
qed

lemma digits_val_append: "digits_val (s @ t) = 10 ^ length t * digits_val s + digits_val t"
  by (induction t rule: rev_induct) (simp_all add: digits_val_def algebra_simps)

lemma digits_val_Cons: "digits_val (c # cs) = 10 ^ length cs * digit_val c + digits_val cs"
  using digits_val_append [of "[c]" cs] by (simp add: digits_val_def)

text \<open>The loop returns the value of the digits when the result is in range.\<close>

lemma parse_int_loop_pos:
  assumes "list_all is_ascii_digit s" "0 \<le> acc" "lo \<le> 0"
    "10 ^ length s * acc + int (digits_val s) \<le> hi"
  shows "parse_int_loop False lo hi acc s = Ok (10 ^ length s * acc + int (digits_val s))"
  using assms
proof (induction s arbitrary: acc)
  case Nil
  then show ?case by (simp add: digits_val_def)
next
  case (Cons c cs)
  let ?a = "10 * acc + int (digit_val c)"
  have tot: "10 ^ length (c # cs) * acc + int (digits_val (c # cs))
      = 10 ^ length cs * ?a + int (digits_val cs)"
    by (simp add: digits_val_Cons algebra_simps)
  have "?a \<le> 10 ^ length cs * ?a"
    using Cons.prems(2) mult_right_mono [of 1 "10 ^ length cs" ?a] by simp
  then have "?a \<le> hi" using Cons.prems(4) unfolding tot by linarith
  moreover have "parse_int_loop False lo hi ?a cs = Ok (10 ^ length cs * ?a + int (digits_val cs))"
    using Cons.prems tot by (intro Cons.IH) auto
  ultimately show ?case using Cons.prems(1-3) unfolding tot by (simp add: Let_def)
qed

lemma parse_int_loop_neg:
  assumes "list_all is_ascii_digit s" "acc \<le> 0" "0 \<le> hi"
    "lo \<le> 10 ^ length s * acc - int (digits_val s)"
  shows "parse_int_loop True lo hi acc s = Ok (10 ^ length s * acc - int (digits_val s))"
  using assms
proof (induction s arbitrary: acc)
  case Nil
  then show ?case by (simp add: digits_val_def)
next
  case (Cons c cs)
  let ?a = "10 * acc - int (digit_val c)"
  have tot: "10 ^ length (c # cs) * acc - int (digits_val (c # cs))
      = 10 ^ length cs * ?a - int (digits_val cs)"
    by (simp add: digits_val_Cons algebra_simps)
  have "10 ^ length cs * ?a \<le> ?a"
    using Cons.prems(2) mult_right_mono_neg [of 1 "10 ^ length cs" ?a] by simp
  then have "lo \<le> ?a" using Cons.prems(4) unfolding tot by linarith
  moreover have "parse_int_loop True lo hi ?a cs = Ok (10 ^ length cs * ?a - int (digits_val cs))"
    using Cons.prems tot by (intro Cons.IH) auto
  ultimately show ?case using Cons.prems(1-3) unfolding tot by (simp add: Let_def)
qed

lemma parse_int_show_int:
  assumes "lo \<le> i" "i \<le> hi" "lo < 0" "0 < hi"
  shows "parse_int lo hi (show_int i) = Ok i"
proof (cases "i < 0")
  case True
  then have "parse_int_loop True lo hi 0 (show_nat (nat (- i))) = Ok i"
    using parse_int_loop_neg [of "show_nat (nat (- i))" 0 hi lo] assms
    by (simp add: show_nat_digits digits_val_show_nat)
  with True assms(3) show ?thesis by (simp add: parse_int_def show_int_def)
next
  case False
  obtain c cs where s: "show_nat (nat i) = c # cs" "c \<noteq> CHR ''-''" "c \<noteq> CHR ''+''"
    using show_nat_hd by blast
  have "parse_int_loop False lo hi 0 (show_nat (nat i)) = Ok i"
    using parse_int_loop_pos [of "show_nat (nat i)" 0 lo hi] assms False
    by (simp add: show_nat_digits digits_val_show_nat)
  with False s show ?thesis by (simp add: parse_int_def show_int_def)
qed

lemma parse_int_loop_range:
  "lo \<le> acc \<Longrightarrow> acc \<le> hi \<Longrightarrow> parse_int_loop neg lo hi acc s = Ok i \<Longrightarrow> lo \<le> i \<and> i \<le> hi"
  by (induction neg lo hi acc s rule: parse_int_loop.induct) (auto simp: Let_def split: if_splits)

lemma parse_int_range:
  assumes "lo \<le> 0" "0 \<le> hi" "parse_int lo hi s = Ok i"
  shows "lo \<le> i \<and> i \<le> hi"
proof -
  obtain neg t where "parse_int_loop neg lo hi 0 t = Ok i"
    using assms(3) by (auto simp: parse_int_def simp del: parse_int_loop.simps split: list.splits if_splits)
  then show ?thesis using assms(1,2) by (rule parse_int_loop_range [rotated 2])
qed

lemma show_int_nonempty [simp]: "show_int i \<noteq> []"
  by (simp add: show_int_def)

lemma show_int_chars: "c \<in> set (show_int i) \<Longrightarrow> c = CHR ''-'' \<or> is_ascii_digit c"
  using show_nat_digits by (auto simp: show_int_def list_all_iff split: if_splits)

lemma show_nat_inj: "show_nat m = show_nat n \<longleftrightarrow> m = n"
  by (metis digits_val_show_nat)

section \<open>UTF-8\<close>

text \<open>
  \<open>std::str::from_utf8\<close>: the length of the character at the head of a byte string, or the
  \<open>error_len\<close> of what is wrong there (\<open>None\<close> when the string ends inside a character).
\<close>

definition is_cont :: "char \<Rightarrow> bool" where
  "is_cont c \<longleftrightarrow> 128 \<le> byte c \<and> byte c \<le> 191"

definition utf8_second_ok :: "char \<Rightarrow> char \<Rightarrow> bool" where
  "utf8_second_ok a b \<longleftrightarrow>
    (if byte a = 224 then 160 \<le> byte b \<and> byte b \<le> 191
     else if byte a = 237 then 128 \<le> byte b \<and> byte b \<le> 159
     else if byte a = 240 then 144 \<le> byte b \<and> byte b \<le> 191
     else if byte a = 244 then 128 \<le> byte b \<and> byte b \<le> 143
     else is_cont b)"

definition utf8_width :: "char \<Rightarrow> nat" where
  "utf8_width c = (if byte c < 128 then 1 else if byte c < 194 then 0 else if byte c < 224 then 2
     else if byte c < 240 then 3 else if byte c < 245 then 4 else 0)"

fun utf8_head :: "string \<Rightarrow> (nat, nat option) rust_result" where
  "utf8_head [] = Err None"
| "utf8_head (a # s) =
    (if utf8_width a = 0 then Err (Some 1)
     else if utf8_width a = 1 then Ok 1
     else case s of
       [] \<Rightarrow> Err None
     | b # s \<Rightarrow>
         if \<not> utf8_second_ok a b then Err (Some 1)
         else if utf8_width a = 2 then Ok 2
         else case s of
           [] \<Rightarrow> Err None
         | c # s \<Rightarrow>
             if \<not> is_cont c then Err (Some 2)
             else if utf8_width a = 3 then Ok 3
             else case s of
               [] \<Rightarrow> Err None
             | d # _ \<Rightarrow> if is_cont d then Ok 4 else Err (Some 3))"

record Utf8Error =
  ue_valid_up_to :: nat
  ue_error_len :: "nat option"

function utf8_check :: "nat \<Rightarrow> string \<Rightarrow> Utf8Error option" where
  "utf8_check pos s =
    (if s = [] then None
     else case utf8_head s of
       Inl e \<Rightarrow> Some \<lparr> ue_valid_up_to = pos, ue_error_len = e \<rparr>
     | Inr n \<Rightarrow> utf8_check (pos + max 1 n) (drop (max 1 n) s))"
  by pat_completeness auto
termination
  by (relation "measure (\<lambda>(_, s). length s)") auto

declare utf8_check.simps [simp del]

definition from_utf8 :: "string \<Rightarrow> (string, Utf8Error) rust_result" where
  "from_utf8 s = (case utf8_check 0 s of None \<Rightarrow> Ok s | Some e \<Rightarrow> Err e)"

definition show_utf8_error :: "Utf8Error \<Rightarrow> string" where
  "show_utf8_error e =
    (case ue_error_len e of
       Some n \<Rightarrow> ''invalid utf-8 sequence of '' @ show_nat n @ '' bytes from index '' @ show_nat (ue_valid_up_to e)
     | None \<Rightarrow> ''incomplete utf-8 byte sequence from index '' @ show_nat (ue_valid_up_to e))"

lemma utf8_check_ascii: "list_all (\<lambda>c. byte c < 128) s \<Longrightarrow> utf8_check pos s = None"
proof (induction pos s rule: utf8_check.induct)
  case (1 pos s)
  show ?case
  proof (cases s)
    case (Cons c cs)
    then have "utf8_head s = Inr 1" using 1(2) by (simp add: utf8_width_def)
    with 1 Cons show ?thesis by (subst utf8_check.simps) simp
  qed (simp add: utf8_check.simps)
qed

lemma from_utf8_ascii: "list_all (\<lambda>c. byte c < 128) s \<Longrightarrow> from_utf8 s = Ok s"
  by (simp add: from_utf8_def utf8_check_ascii)

lemma show_int_ascii: "list_all (\<lambda>c. byte c < 128) (show_int i)"
  using show_int_chars [of _ i] by (fastforce simp: list_all_iff is_ascii_digit_def byte_def)

end
