(* ===== verification/Std_Collections.thy ===== *)
theory Std_Collections imports Midas_Prelude "HOL-Library.Multiset" "HOL-Library.Product_Lexorder" begin

text \<open>
  The two standard-library containers the simulator keeps its state in. A \<open>BTreeMap\<close> is the list
  of its entries in key order; a \<open>BinaryHeap<Reverse<T>>\<close> whose elements have a key is the list
  of its elements in key order, so that \<open>peek\<close> and \<open>pop\<close> see the least one. What the clients
  rely on is stated once as the contracts \<open>ordered_map\<close> and \<open>min_heap\<close>; the facts that clients
  need are proved from the contracts and reach them through the interpretations below.
\<close>

section \<open>Ordered maps\<close>

type_synonym ('k, 'v) btree = "('k \<times> 'v) list"

definition bt_empty :: "('k, 'v) btree" where
  "bt_empty = []"

fun bt_get :: "('k, 'v) btree \<Rightarrow> 'k \<Rightarrow> 'v option" where
  "bt_get [] k = None"
| "bt_get ((k', v) # m) k = (if k' = k then Some v else bt_get m k)"

fun bt_insert :: "'k::linorder \<Rightarrow> 'v \<Rightarrow> ('k, 'v) btree \<Rightarrow> ('k, 'v) btree" where
  "bt_insert k v [] = [(k, v)]"
| "bt_insert k v ((k', v') # m) =
     (if k < k' then (k, v) # (k', v') # m
      else if k = k' then (k, v) # m
      else (k', v') # bt_insert k v m)"

definition bt_retain :: "('k \<Rightarrow> 'v \<Rightarrow> bool) \<Rightarrow> ('k, 'v) btree \<Rightarrow> ('k, 'v) btree" where
  "bt_retain P m = filter (\<lambda>(k, v). P k v) m"

definition bt_remove :: "'k \<Rightarrow> ('k, 'v) btree \<Rightarrow> ('k, 'v) btree" where
  "bt_remove k m = filter (\<lambda>(k', _). k' \<noteq> k) m"

definition bt_values :: "('k, 'v) btree \<Rightarrow> 'v list" where
  "bt_values m = map snd m"

definition bt_len :: "('k, 'v) btree \<Rightarrow> nat" where
  "bt_len m = length m"

text \<open>\<open>get\<close> with the default of \<open>entry(k).or_default()\<close>.\<close>

definition bt_get_or :: "('k, 'v) btree \<Rightarrow> 'k \<Rightarrow> 'v \<Rightarrow> 'v" where
  "bt_get_or m k d = (case bt_get m k of None \<Rightarrow> d | Some v \<Rightarrow> v)"

definition bt_sorted :: "('k::linorder, 'v) btree \<Rightarrow> bool" where
  "bt_sorted m = sorted_wrt (<) (map fst m)"

lemma bt_get_None_iff: "bt_get m k = None \<longleftrightarrow> k \<notin> fst ` set m"
  by (induction m k rule: bt_get.induct) auto

lemma bt_get_filter: "bt_get (filter (\<lambda>(k, v). P k v) m) k =
    (case bt_get m k of None \<Rightarrow> None | Some v \<Rightarrow> if P k v then Some v else None)"
  if "distinct (map fst m)"
  using that
proof (induction m k rule: bt_get.induct)
  case (2 k' v m k)
  then show ?case by (auto simp: bt_get_None_iff image_iff split: option.splits)
qed simp

lemma bt_sorted_distinct: "bt_sorted m \<Longrightarrow> distinct (map fst m)"
  by (simp add: bt_sorted_def strict_sorted_iff)

lemma bt_get_insert: "bt_sorted m \<Longrightarrow> bt_get (bt_insert k v m) k' = (if k' = k then Some v else bt_get m k')"
  by (induction k v m rule: bt_insert.induct) (auto simp: bt_sorted_def)

lemma bt_keys_insert: "fst ` set (bt_insert k v m) = insert k (fst ` set m)"
  by (induction k v m rule: bt_insert.induct) auto

lemma bt_sorted_insert: "bt_sorted m \<Longrightarrow> bt_sorted (bt_insert k v m)"
proof (induction k v m rule: bt_insert.induct)
  case (2 k v k' v' m)
  have "\<forall>x\<in>fst ` set (bt_insert k v m). k' < x" if "k' < k"
    using 2(2) that by (auto simp: bt_keys_insert bt_sorted_def)
  with 2 show ?case by (auto simp: bt_sorted_def)
qed (simp add: bt_sorted_def)

lemma bt_sorted_filter: "bt_sorted m \<Longrightarrow> bt_sorted (filter P m)"
  by (induction m) (auto simp: bt_sorted_def)

lemma bt_get_map_of: "bt_get m k = map_of m k"
  by (induction m k rule: bt_get.induct) auto

lemma bt_get_member: "bt_sorted m \<Longrightarrow> (k, v) \<in> set m \<longleftrightarrow> bt_get m k = Some v"
  by (simp add: bt_get_map_of bt_sorted_distinct map_of_eq_Some_iff)

lemma bt_sum_insert:
  fixes f :: "'v \<Rightarrow> nat"
  assumes "bt_sorted m"
  shows "sum_list (map f (bt_values (bt_insert k v m))) + (case bt_get m k of None \<Rightarrow> 0 | Some w \<Rightarrow> f w)
    = sum_list (map f (bt_values m)) + f v"
  using assms
proof (induction k v m rule: bt_insert.induct)
  case (2 k v k' v' m)
  moreover have "bt_get m k = None" if "k < k'" using that 2(2)
    by (auto simp: bt_get_None_iff bt_sorted_def)
  ultimately show ?case by (auto simp: bt_values_def bt_sorted_def)
qed (simp add: bt_values_def)

text \<open>
  The contract of an ordered map. \<open>retain\<close> is the general deletion; \<open>total\<close> folds a count over
  the values.
\<close>

locale ordered_map =
  fixes empty :: "'m" and get :: "'m \<Rightarrow> 'k::linorder \<Rightarrow> 'v option"
    and insert :: "'k \<Rightarrow> 'v \<Rightarrow> 'm \<Rightarrow> 'm" and retain :: "('k \<Rightarrow> 'v \<Rightarrow> bool) \<Rightarrow> 'm \<Rightarrow> 'm"
    and invar :: "'m \<Rightarrow> bool"
  assumes get_empty: "get empty k = None"
    and get_insert: "invar m \<Longrightarrow> get (insert k v m) k' = (if k' = k then Some v else get m k')"
    and get_retain: "invar m \<Longrightarrow> get (retain P m) k =
          (case get m k of None \<Rightarrow> None | Some v \<Rightarrow> if P k v then Some v else None)"
    and invar_empty: "invar empty"
    and invar_insert: "invar m \<Longrightarrow> invar (insert k v m)"
    and invar_retain: "invar m \<Longrightarrow> invar (retain P m)"
begin

lemma get_insert_same: "invar m \<Longrightarrow> get (insert k v m) k = Some v"
  by (simp add: get_insert)

text \<open>Writing one key leaves every other key alone: the frame of a per-session table.\<close>

lemma get_insert_other: "invar m \<Longrightarrow> k' \<noteq> k \<Longrightarrow> get (insert k v m) k' = get m k'"
  by (simp add: get_insert)

lemma get_retain_Some_iff: "invar m \<Longrightarrow> get (retain P m) k = Some v \<longleftrightarrow> get m k = Some v \<and> P k v"
  by (auto simp: get_retain split: option.splits)

lemma get_retain_drop: "invar m \<Longrightarrow> get (retain (\<lambda>k' _. k' \<noteq> k) m) k' = (if k' = k then None else get m k')"
  by (simp add: get_retain split: option.splits)

text \<open>A per-key property survives an insert of a good value and every deletion.\<close>

lemma all_insert:
  assumes "invar m" "\<And>k v. get m k = Some v \<Longrightarrow> Q k v" "Q k v" "get (insert k v m) k' = Some v'"
  shows "Q k' v'"
  using assms by (auto simp: get_insert split: if_splits)

lemma all_retain:
  assumes "invar m" "\<And>k v. get m k = Some v \<Longrightarrow> Q k v" "get (retain P m) k' = Some v'"
  shows "Q k' v' \<and> P k' v'"
  using assms by (auto simp: get_retain_Some_iff)

end

interpretation bt: ordered_map bt_empty bt_get bt_insert bt_retain bt_sorted
proof unfold_locales
  fix m :: "('k::linorder, 'v) btree" and P k
  assume "bt_sorted m"
  then show "bt_get (bt_retain P m) k =
      (case bt_get m k of None \<Rightarrow> None | Some v \<Rightarrow> if P k v then Some v else None)"
    unfolding bt_retain_def by (intro bt_get_filter bt_sorted_distinct)
qed (auto simp: bt_empty_def bt_get_insert bt_sorted_insert bt_retain_def bt_sorted_filter
    bt_sorted_def [of "[]"])

lemma bt_remove_eq_retain: "bt_remove k m = bt_retain (\<lambda>k' _. k' \<noteq> k) m"
  by (simp add: bt_remove_def bt_retain_def)

lemma bt_get_remove: "bt_sorted m \<Longrightarrow> bt_get (bt_remove k m) k' = (if k' = k then None else bt_get m k')"
  by (simp add: bt_remove_eq_retain bt.get_retain_drop)

lemma bt_sorted_remove: "bt_sorted m \<Longrightarrow> bt_sorted (bt_remove k m)"
  by (simp add: bt_remove_eq_retain bt.invar_retain)

lemmas bt_invars = bt.invar_empty bt_sorted_insert bt_sorted_remove bt.invar_retain

text \<open>The keys of a map, and a map to \<open>()\<close> as a set of keys.\<close>

definition bt_dom :: "('k, 'v) btree \<Rightarrow> 'k set" where
  "bt_dom m = {k. bt_get m k \<noteq> None}"

lemma bt_dom_fst: "bt_dom m = fst ` set m"
  using bt_get_None_iff [of m] unfolding bt_dom_def by auto

lemma bt_dom_simps [simp]:
  "bt_dom bt_empty = {}" "bt_sorted m \<Longrightarrow> bt_dom (bt_insert k v m) = insert k (bt_dom m)"
  "bt_dom (bt_remove k m) = bt_dom m - {k}" "finite (bt_dom m)"
  by (auto simp: bt_dom_fst bt_empty_def bt_keys_insert bt_remove_def)

lemma bt_len_card: "bt_sorted m \<Longrightarrow> bt_len m = card (bt_dom m)"
  unfolding bt_dom_fst bt_len_def using bt_sorted_distinct [of m]
  by (metis distinct_card length_map list.set_map)

lemma bt_dom_empty_iff: "bt_dom m = {} \<longleftrightarrow> m = bt_empty"
  by (simp add: bt_dom_fst bt_empty_def)

section \<open>Min-heaps\<close>

definition heap_empty :: "'a list" where
  "heap_empty = []"

definition heap_push :: "('a \<Rightarrow> 'k::linorder) \<Rightarrow> 'a \<Rightarrow> 'a list \<Rightarrow> 'a list" where
  "heap_push key x h = insort_key key x h"

definition heap_peek :: "'a list \<Rightarrow> 'a option" where
  "heap_peek h = (case h of [] \<Rightarrow> None | x # _ \<Rightarrow> Some x)"

definition heap_pop :: "'a list \<Rightarrow> ('a \<times> 'a list) option" where
  "heap_pop h = (case h of [] \<Rightarrow> None | x # h \<Rightarrow> Some (x, h))"

definition heap_sorted :: "('a \<Rightarrow> 'k::linorder) \<Rightarrow> 'a list \<Rightarrow> bool" where
  "heap_sorted key h = sorted (map key h)"

text \<open>
  Draining a heap: pop while the least element satisfies \<open>P\<close>. The relation speaks of \<open>peek\<close> and
  \<open>pop\<close> only, so every loop of the clients that pops this way is an instance.
\<close>

inductive drains :: "('h \<Rightarrow> ('a \<times> 'h) option) \<Rightarrow> ('a \<Rightarrow> bool) \<Rightarrow> 'h \<Rightarrow> 'a list \<Rightarrow> 'h \<Rightarrow> bool"
  for pop P where
  drain_empty: "pop h = None \<Longrightarrow> drains pop P h [] h"
| drain_stop: "pop h = Some (x, h') \<Longrightarrow> \<not> P x \<Longrightarrow> drains pop P h [] h"
| drain_pop: "pop h = Some (x, h') \<Longrightarrow> P x \<Longrightarrow> drains pop P h' xs h'' \<Longrightarrow> drains pop P h (x # xs) h''"

locale min_heap =
  fixes key :: "'a \<Rightarrow> 'k::linorder" and empty :: "'h" and push :: "'a \<Rightarrow> 'h \<Rightarrow> 'h"
    and pop :: "'h \<Rightarrow> ('a \<times> 'h) option" and elems :: "'h \<Rightarrow> 'a multiset" and invar :: "'h \<Rightarrow> bool"
  assumes elems_empty: "elems empty = {#}"
    and elems_push: "invar h \<Longrightarrow> elems (push x h) = add_mset x (elems h)"
    and pop_None: "invar h \<Longrightarrow> pop h = None \<longleftrightarrow> elems h = {#}"
    and pop_Some: "invar h \<Longrightarrow> pop h = Some (x, h') \<Longrightarrow> elems h = add_mset x (elems h')"
    and pop_least: "invar h \<Longrightarrow> pop h = Some (x, h') \<Longrightarrow> y \<in># elems h' \<Longrightarrow> key x \<le> key y"
    and invar_empty: "invar empty"
    and invar_push: "invar h \<Longrightarrow> invar (push x h)"
    and invar_pop: "invar h \<Longrightarrow> pop h = Some (x, h') \<Longrightarrow> invar h'"
begin

text \<open>
  For a condition that smaller keys satisfy too, draining takes out exactly the elements that
  satisfy it, in key order, and keeps the others.
\<close>

lemma drains_exact:
  assumes "drains pop P h xs h'" "invar h" and down: "\<And>x y. key x \<le> key y \<Longrightarrow> P y \<Longrightarrow> P x"
  shows "mset xs = filter_mset P (elems h) \<and> elems h' = filter_mset (\<lambda>x. \<not> P x) (elems h)
    \<and> sorted (map key xs) \<and> invar h'"
  using assms(1,2)
proof (induction rule: drains.induct)
  case (drain_empty h)
  then show ?case by (simp add: pop_None)
next
  case (drain_stop h x h1)
  have none: "\<not> P y" if "y \<in># elems h" for y
    using that drain_stop pop_Some [OF drain_stop.prems drain_stop.hyps(1)]
      pop_least [OF drain_stop.prems drain_stop.hyps(1)] down by auto
  then have "filter_mset P (elems h) = filter_mset (\<lambda>_. False) (elems h)"
    "filter_mset (\<lambda>x. \<not> P x) (elems h) = filter_mset (\<lambda>_. True) (elems h)"
    by (simp_all cong: filter_mset_cong)
  with drain_stop show ?case by simp
next
  case (drain_pop h x h1 xs h2)
  note pop = pop_Some [OF drain_pop.prems drain_pop.hyps(1)]
    pop_least [OF drain_pop.prems drain_pop.hyps(1)] invar_pop [OF drain_pop.prems drain_pop.hyps(1)]
  with drain_pop have IH: "mset xs = filter_mset P (elems h1)" "sorted (map key xs)"
    "elems h2 = filter_mset (\<lambda>x. \<not> P x) (elems h1)" "invar h2" by auto
  have "\<forall>y\<in>set xs. key x \<le> key y"
    using pop(2) IH(1) by (metis filter_mset_eq_conv mset_subset_eqD multiset_filter_subset set_mset_mset)
  with IH pop(1) drain_pop.hyps(2) show ?case by simp
qed

lemma pop_size: "invar h \<Longrightarrow> pop h = Some (x, h') \<Longrightarrow> size (elems h') < size (elems h)"
  using pop_Some by fastforce

end

interpretation heap: min_heap key heap_empty "heap_push key" heap_pop mset "heap_sorted key"
  for key :: "'a \<Rightarrow> 'k::linorder"
proof unfold_locales
  fix h h' :: "'a list" and x y
  show "heap_sorted key h \<Longrightarrow> heap_pop h = Some (x, h') \<Longrightarrow> y \<in># mset h' \<Longrightarrow> key x \<le> key y"
    by (auto simp: heap_pop_def heap_sorted_def split: list.splits)
qed (auto simp: heap_empty_def heap_push_def heap_pop_def heap_sorted_def sorted_insort_key
    split: list.splits)

lemma heap_peek_pop: "heap_peek h = map_option fst (heap_pop h)"
  by (simp add: heap_peek_def heap_pop_def split: list.splits)

lemma heap_drains: "drains heap_pop P h (takeWhile P h) (dropWhile P h)"
  by (induction h) (auto simp: heap_pop_def intro: drains.intros)

text \<open>
  Elements with pairwise different keys have one key order: the drained list is determined by
  what it holds.
\<close>

lemma sorted_keys_unique:
  assumes "mset xs = mset ys" "sorted (map key xs)" "sorted (map key ys)" "inj_on key (set xs)"
  shows "xs = ys"
proof -
  have "mset (map key xs) = mset (map key ys)" using assms(1) by simp
  then have "map key xs = map key ys"
    using assms(2,3) by (metis properties_for_sort)
  moreover have "set xs = set ys" using assms(1) by (rule mset_eq_setD)
  ultimately show ?thesis using assms(4) by (auto intro: map_inj_on)
qed

section \<open>Stable sorting\<close>

lemma map_sort_key: "map f (sort_key (k \<circ> f) xs) = sort_key k (map f xs)"
proof -
  have "map f (insort_key (k \<circ> f) x ys) = insort_key k (f x) (map f ys)" for x ys
    by (induction ys) auto
  then show ?thesis by (induction xs) (auto simp: comp_def)
qed

text \<open>\<open>sort_key\<close> keeps the order of elements with equal keys.\<close>

lemma sort_key_stable_pair:
  fixes f :: "'a \<Rightarrow> 'b::linorder" and g :: "'a \<Rightarrow> 'c::linorder"
  assumes "sorted (map g xs)"
  shows "sorted (map (\<lambda>x. (f x, g x)) (sort_key f xs))"
proof -
  have ins: "sorted (map (\<lambda>x. (f x, g x)) (insort_key f x ys))"
    if "sorted (map (\<lambda>x. (f x, g x)) ys)" "\<forall>y\<in>set ys. g x \<le> g y" for x ys
    using that by (induction ys) (auto simp: set_insort_key less_eq_prod_def)
  show ?thesis using assms by (induction xs) (auto intro!: ins)
qed

end
