(* ===== verification/Sim_Clock.thy ===== *)
theory Sim_Clock imports Std_Collections begin

text \<open>
  Virtual time, \<open>crates/midas-ib-sim/src/engine/clock.rs\<close>: instants and durations, and the
  deterministic \<open>VirtualClock\<close> with its queue of sleepers. A \<open>Duration\<close> is its number of
  nanoseconds, at most \<open>Duration::MAX\<close> (64-bit seconds and 999999999 ns), where
  \<open>saturating_add\<close> stops. A sleeper is known by its deadline and sequence number; what the wakers
  do is the tasks' business. Real and accelerated time read the machine clock and are not modelled.
\<close>

type_synonym Duration = nat
type_synonym VirtualInstant = nat

definition Duration_MAX :: Duration where
  "Duration_MAX = (2 ^ 64 - 1) * 1000000000 + 999999999"

definition from_millis :: "nat \<Rightarrow> VirtualInstant" where
  "from_millis ms = ms * 1000000"

definition from_secs :: "nat \<Rightarrow> VirtualInstant" where
  "from_secs secs = secs * 1000000000"

definition vi_saturating_sub :: "VirtualInstant \<Rightarrow> VirtualInstant \<Rightarrow> Duration" where
  "vi_saturating_sub a b = a - b"

definition vi_saturating_add :: "VirtualInstant \<Rightarrow> Duration \<Rightarrow> VirtualInstant" where
  "vi_saturating_add a d = saturating_add_nat Duration_MAX a d"

section \<open>The virtual clock\<close>

record Waiter =
  w_deadline :: VirtualInstant
  w_seq :: nat

definition waiter_key :: "Waiter \<Rightarrow> VirtualInstant \<times> nat" where
  "waiter_key w = (w_deadline w, w_seq w)"

record VirtualClock =
  vc_now :: VirtualInstant
  vc_waiters :: "Waiter list"
  vc_next_seq :: nat

definition clock_new :: VirtualClock where
  "clock_new = \<lparr> vc_now = 0, vc_waiters = heap_empty, vc_next_seq = 0 \<rparr>"

definition waiter_count :: "VirtualClock \<Rightarrow> nat" where
  "waiter_count c = length (vc_waiters c)"

text \<open>
  \<open>sleep_until\<close> up to its suspension point: \<open>None\<close> when the deadline has passed and the call
  returns at once, otherwise the waiter it leaves in the queue.
\<close>

definition sleep_until :: "VirtualInstant \<Rightarrow> VirtualClock \<Rightarrow> Waiter option \<times> VirtualClock" where
  "sleep_until deadline c =
    (if deadline \<le> vc_now c then (None, c)
     else let w = \<lparr> w_deadline = deadline, w_seq = vc_next_seq c \<rparr>
          in (Some w, c\<lparr> vc_next_seq := vc_next_seq c + 1,
                         vc_waiters := heap_push waiter_key w (vc_waiters c) \<rparr>))"

definition sleep :: "Duration \<Rightarrow> VirtualClock \<Rightarrow> Waiter option \<times> VirtualClock" where
  "sleep duration c = sleep_until (vi_saturating_add (vc_now c) duration) c"

text \<open>The loop of \<open>advance\<close>: the woken waiters in order, the clock's reading and the queue.\<close>

function advance_loop ::
  "VirtualInstant \<Rightarrow> VirtualInstant \<Rightarrow> Waiter list \<Rightarrow> Waiter list \<times> VirtualInstant \<times> Waiter list" where
  "advance_loop until now ws =
    (case heap_pop ws of
       None \<Rightarrow> ([], now, ws)
     | Some (w, rest) \<Rightarrow>
         if until < w_deadline w then ([], now, ws)
         else (case advance_loop until (w_deadline w) rest of
                 (woken, now', ws') \<Rightarrow> (w # woken, now', ws')))"
  by pat_completeness auto
termination
  by (relation "measure (\<lambda>(_, _, ws). length ws)") (auto simp: heap_pop_def split: list.splits)

declare advance_loop.simps [simp del]

definition advance :: "VirtualInstant \<Rightarrow> VirtualClock \<Rightarrow> Waiter list \<times> VirtualClock" where
  "advance until c =
    (case advance_loop until (vc_now c) (vc_waiters c) of
       (woken, now, ws) \<Rightarrow>
         (woken, c\<lparr> vc_now := (if now < until then until else now), vc_waiters := ws \<rparr>))"

definition advance_to_next_event :: "VirtualClock \<Rightarrow> Waiter option \<times> VirtualClock" where
  "advance_to_next_event c =
    (case heap_pop (vc_waiters c) of
       None \<Rightarrow> (None, c)
     | Some (w, ws) \<Rightarrow> (Some w, c\<lparr> vc_now := w_deadline w, vc_waiters := ws \<rparr>))"

section \<open>The clock's invariant\<close>

text \<open>
  The queue is in order, sequence numbers are fresh and different, and no sleeper is overdue: its
  deadline is not before the clock's reading (it may be equal, after \<open>advance_to_next_event\<close> has
  woken another sleeper with the same deadline).
\<close>

definition clock_ok :: "VirtualClock \<Rightarrow> bool" where
  "clock_ok c \<longleftrightarrow> heap_sorted waiter_key (vc_waiters c) \<and> distinct (map w_seq (vc_waiters c))
     \<and> (\<forall>w\<in>set (vc_waiters c). vc_now c \<le> w_deadline w \<and> w_seq w < vc_next_seq c)"

lemma clock_ok_new: "clock_ok clock_new"
  by (simp add: clock_ok_def clock_new_def heap_empty_def heap_sorted_def)

lemma clock_ok_sleep_until [inv_intros]:
  assumes "clock_ok c"
  shows "clock_ok (snd (sleep_until d c))"
proof -
  have "distinct (map w_seq (insort_key waiter_key w ws)) \<longleftrightarrow> w_seq w \<notin> w_seq ` set ws \<and> distinct (map w_seq ws)"
    for w :: Waiter and ws
    by (metis distinct.simps(2) list.simps(9) mset_insort mset_map mset_eq_imp_distinct_iff
        mset.simps(2) list.set_map)
  with assms show ?thesis
    by (auto simp: clock_ok_def sleep_until_def Let_def heap_push_def heap_sorted_def
        sorted_insort_key set_insort_key less_SucI)
qed

lemma clock_ok_sleep [inv_intros]: "clock_ok c \<Longrightarrow> clock_ok (snd (sleep d c))"
  unfolding sleep_def by (rule clock_ok_sleep_until)

lemma clock_ok_next_event [inv_intros]: "clock_ok c \<Longrightarrow> clock_ok (snd (advance_to_next_event c))"
  by (auto simp: clock_ok_def advance_to_next_event_def heap_pop_def heap_sorted_def waiter_key_def
      split: list.splits dest!: bspec intro: less_imp_le)

text \<open>The loop is a drain of the queue, and its reading is the last deadline it passed.\<close>

lemma advance_loop_drains:
  "advance_loop u n ws = (woken, n', ws') \<Longrightarrow>
     drains heap_pop (\<lambda>w. w_deadline w \<le> u) ws woken ws'
     \<and> n' = (if woken = [] then n else w_deadline (last woken))"
proof (induction u n ws arbitrary: woken n' ws' rule: advance_loop.induct)
  case (1 u n ws)
  show ?case
  proof (cases "heap_pop ws")
    case None
    with 1(2) show ?thesis by (auto simp: advance_loop.simps [of u n ws] intro: drain_empty)
  next
    case (Some p)
    then obtain w rest where pop: "heap_pop ws = Some (w, rest)" by (cases p) auto
    show ?thesis
    proof (cases "u < w_deadline w")
      case True
      with 1(2) pop show ?thesis
        by (auto simp: advance_loop.simps [of u n ws] intro: drain_stop)
    next
      case False
      obtain wk m wt where r: "advance_loop u (w_deadline w) rest = (wk, m, wt)"
        by (cases "advance_loop u (w_deadline w) rest")
      with 1(2) pop False have "woken = w # wk" "n' = m" "ws' = wt"
        by (auto simp: advance_loop.simps [of u n ws])
      with 1(1) [OF pop refl _ r] pop False show ?thesis by (auto intro: drain_pop)
    qed
  qed
qed

lemma waiter_key_down: "waiter_key x \<le> waiter_key y \<Longrightarrow> w_deadline y \<le> u \<Longrightarrow> w_deadline x \<le> u"
  by (auto simp: waiter_key_def less_eq_prod_def)

lemma inj_waiter_key: "distinct (map w_seq ws) \<Longrightarrow> inj_on waiter_key (set ws)"
  by (auto simp: waiter_key_def inj_on_def distinct_map)

lemma advance_effect:
  assumes "clock_ok c" "advance u c = (woken, c')"
  shows "mset woken = filter_mset (\<lambda>w. w_deadline w \<le> u) (mset (vc_waiters c))"
    and "mset (vc_waiters c') = filter_mset (\<lambda>w. \<not> w_deadline w \<le> u) (mset (vc_waiters c))"
    and "sorted (map waiter_key woken)" and "heap_sorted waiter_key (vc_waiters c')"
    and "vc_now c' = max (vc_now c) u" and "vc_next_seq c' = vc_next_seq c"
proof -
  obtain n' ws' where loop: "advance_loop u (vc_now c) (vc_waiters c) = (woken, n', ws')"
    and c': "c' = c\<lparr>vc_now := (if n' < u then u else n'), vc_waiters := ws'\<rparr>"
    using assms(2) by (auto simp: advance_def split: prod.splits)
  note loop' = advance_loop_drains [OF loop]
  have exact: "mset woken = filter_mset (\<lambda>w. w_deadline w \<le> u) (mset (vc_waiters c))
      \<and> mset ws' = filter_mset (\<lambda>w. \<not> w_deadline w \<le> u) (mset (vc_waiters c))
      \<and> sorted (map waiter_key woken) \<and> heap_sorted waiter_key ws'"
    by (rule heap.drains_exact [OF loop' [THEN conjunct1]])
      (use assms(1) in \<open>auto simp: clock_ok_def intro: waiter_key_down\<close>)
  then show "mset woken = filter_mset (\<lambda>w. w_deadline w \<le> u) (mset (vc_waiters c))"
    and "mset (vc_waiters c') = filter_mset (\<lambda>w. \<not> w_deadline w \<le> u) (mset (vc_waiters c))"
    and "sorted (map waiter_key woken)" and "heap_sorted waiter_key (vc_waiters c')"
    by (simp_all add: c')
  have "last woken \<in> set (vc_waiters c) \<and> w_deadline (last woken) \<le> u" if "woken \<noteq> []"
    using that exact by (metis (no_types, lifting) filter_mset_eq_conv last_in_set
        mset_subset_eqD multiset_filter_subset set_mset_mset)
  with assms(1) have "vc_now c \<le> w_deadline (last woken) \<and> w_deadline (last woken) \<le> u"
    if "woken \<noteq> []" using that by (auto simp: clock_ok_def)
  with loop' show "vc_now c' = max (vc_now c) u"
    by (cases "woken = []") (auto simp: c' max_def)
  show "vc_next_seq c' = vc_next_seq c" by (simp add: c')
qed

lemma clock_ok_advance [inv_intros]:
  assumes "clock_ok c"
  shows "clock_ok (snd (advance u c))"
proof -
  obtain woken c' where adv: "advance u c = (woken, c')" by (cases "advance u c")
  note eff = advance_effect [OF assms adv]
  have "distinct (map w_seq (vc_waiters c'))"
  proof -
    have "mset (vc_waiters c') = mset (filter (\<lambda>w. \<not> w_deadline w \<le> u) (vc_waiters c))"
      using eff(2) by simp
    then have "mset (map w_seq (vc_waiters c'))
        = mset (map w_seq (filter (\<lambda>w. \<not> w_deadline w \<le> u) (vc_waiters c)))" by simp
    with assms show ?thesis
      unfolding clock_ok_def by (metis distinct_map_filter mset_eq_imp_distinct_iff)
  qed
  moreover have "w \<in> set (vc_waiters c) \<and> \<not> w_deadline w \<le> u" if "w \<in> set (vc_waiters c')" for w
    using that eff(2) by (metis (no_types, lifting) filter_mset_eq_conv mset_subset_eqD
        multiset_filter_subset set_mset_mset)
  ultimately show ?thesis
    using assms eff(4-6) by (force simp: clock_ok_def adv max_def not_le)
qed

text \<open>Any sequence of calls on the clock.\<close>

datatype clock_call = SleepUntil VirtualInstant | Sleep Duration | Advance VirtualInstant | NextEvent

fun clock_step :: "clock_call \<Rightarrow> VirtualClock \<Rightarrow> VirtualClock" where
  "clock_step (SleepUntil d) c = snd (sleep_until d c)"
| "clock_step (Sleep d) c = snd (sleep d c)"
| "clock_step (Advance u) c = snd (advance u c)"
| "clock_step NextEvent c = snd (advance_to_next_event c)"

lemma clock_step_ok: "clock_ok c \<Longrightarrow> clock_ok (clock_step k c)"
  by (cases k) (auto intro: inv_intros)

lemma clock_run_ok: "clock_ok c \<Longrightarrow> clock_ok (fold clock_step ks c)"
  by (induction ks arbitrary: c) (auto intro: clock_step_ok)

lemma clock_step_monotone:
  assumes "clock_ok c"
  shows "vc_now c \<le> vc_now (clock_step k c)"
proof (cases k)
  case (Advance u)
  obtain woken c' where adv: "advance u c = (woken, c')" by (cases "advance u c")
  with Advance advance_effect(5) [OF assms adv] show ?thesis by simp
next
  case NextEvent
  with assms show ?thesis
    by (auto simp: advance_to_next_event_def clock_ok_def heap_pop_def split: list.splits)
qed (auto simp: sleep_def sleep_until_def Let_def)

text \<open>
  virtual time never runs backwards and no sleeper is left behind, whatever calls are made in
  whatever order: after any sequence of calls on a new clock one further call does not decrease
  the reading, and every task still asleep has its deadline at or after the reading.
\<close>

lemma virtual_time_monotone:
  "vc_now (fold clock_step ks clock_new) \<le> vc_now (clock_step k (fold clock_step ks clock_new))
   \<and> list_all (\<lambda>w. vc_now (fold clock_step ks clock_new) \<le> w_deadline w)
       (vc_waiters (fold clock_step ks clock_new))"
proof -
  have "clock_ok (fold clock_step ks clock_new)" by (rule clock_run_ok [OF clock_ok_new])
  then show ?thesis by (auto simp: clock_step_monotone clock_ok_def list_all_iff)
qed

text \<open>
  \<open>advance\<close> wakes exactly the sleepers whose deadline has come, each once, in the order of
  deadline and then of falling asleep; the others stay, and the clock reads the target, or keeps
  its reading when the target is in the past. It holds after any sequence of calls on a new clock.
\<close>

lemma advance_wakes_exactly_the_due:
  assumes "c = fold clock_step ks clock_new" "advance u c = (woken, c')"
  shows "woken = sort_key waiter_key (filter (\<lambda>w. w_deadline w \<le> u) (vc_waiters c))
    \<and> mset (vc_waiters c') = mset (filter (\<lambda>w. u < w_deadline w) (vc_waiters c))
    \<and> vc_now c' = max (vc_now c) u"
proof -
  have ok: "clock_ok c" unfolding assms(1) by (rule clock_run_ok [OF clock_ok_new])
  note eff = advance_effect [OF ok assms(2)]
  have m: "mset woken = mset (filter (\<lambda>w. w_deadline w \<le> u) (vc_waiters c))"
    using eff(1) by simp
  have "inj_on waiter_key (set (vc_waiters c))"
    using ok by (auto simp: clock_ok_def intro: inj_waiter_key)
  then have "inj_on waiter_key (set woken)"
    using mset_eq_setD [OF m] by (auto intro: inj_on_subset)
  then have "woken = sort_key waiter_key (filter (\<lambda>w. w_deadline w \<le> u) (vc_waiters c))"
    using eff(3) m by (intro sorted_keys_unique [where key = waiter_key]) auto
  with eff(2,5) show ?thesis by (simp add: not_le)
qed

lemma advance_wakes_exactly_the_due_witness:
  "\<exists>c woken c'. c = fold clock_step [SleepUntil 30, Sleep 10, SleepUntil 20, Sleep 20] clock_new
     \<and> advance 20 c = (woken, c') \<and> map w_seq woken = [1, 2, 3] \<and> vc_now c' = 20
     \<and> map w_seq (vc_waiters c') = [0]"
proof -
  let ?c = "fold clock_step [SleepUntil 30, Sleep 10, SleepUntil 20, Sleep 20] clock_new"
  have q: "vc_waiters ?c = [\<lparr>w_deadline = 10, w_seq = 1\<rparr>, \<lparr>w_deadline = 20, w_seq = 2\<rparr>,
      \<lparr>w_deadline = 20, w_seq = 3\<rparr>, \<lparr>w_deadline = 30, w_seq = 0\<rparr>]" and n: "vc_now ?c = 0"
    by (simp_all add: sleep_def sleep_until_def Let_def clock_new_def heap_empty_def heap_push_def
        vi_saturating_add_def saturating_add_nat_def Duration_MAX_def waiter_key_def less_eq_prod_def)
  obtain woken c' where adv: "advance 20 ?c = (woken, c')" by (cases "advance 20 ?c")
  from advance_wakes_exactly_the_due [OF refl adv]
  have w: "woken = sort_key waiter_key (filter (\<lambda>w. w_deadline w \<le> 20) (vc_waiters ?c))"
    and r: "mset (vc_waiters c') = mset (filter (\<lambda>w. 20 < w_deadline w) (vc_waiters ?c))"
    and n': "vc_now c' = max (vc_now ?c) 20" by blast+
  have "map w_seq woken = [1, 2, 3]" unfolding w q
    by (simp add: waiter_key_def less_eq_prod_def sort_key_def)
  moreover have "vc_waiters c' = [\<lparr>w_deadline = 30, w_seq = 0\<rparr>]" using r unfolding q by simp
  ultimately show ?thesis using adv n n' by (intro exI conjI refl) auto
qed

end
