(* ===== verification/Std_Floats.thy ===== *)
theory Std_Floats imports F64_Facts Std_Strings Sim_Clock begin

text \<open>
  The standard library's conversions between \<open>f64\<close>, text and \<open>Duration\<close> that the scenario language
  relies on: \<open>f64::from_str\<close> with its correctly rounded result, and \<open>Duration::from_secs_f64\<close>,
  which rounds to whole nanoseconds and panics on what a duration cannot hold.
\<close>

section \<open>Parsing a float\<close>

text \<open>A decimal number is its digits read as one integer, and the power of ten it is scaled by.\<close>

definition parse_exponent :: "string \<Rightarrow> int option" where
  "parse_exponent s =
    (case s of
       c # cs \<Rightarrow> if c = CHR ''-'' then map_option (\<lambda>n. - int n) (parse_digits cs)
                 else if c = CHR ''+'' then map_option int (parse_digits cs)
                 else map_option int (parse_digits s)
     | [] \<Rightarrow> None)"

definition parse_decimal :: "string \<Rightarrow> (int \<times> int) option" where
  "parse_decimal s =
    (let whole = takeWhile is_ascii_digit s; s1 = dropWhile is_ascii_digit s;
         (frac, s2) = (case s1 of
            c # cs \<Rightarrow> if c = CHR ''.'' then (takeWhile is_ascii_digit cs, dropWhile is_ascii_digit cs) else ([], s1)
          | [] \<Rightarrow> ([], []));
         n = int (digits_val (whole @ frac)); e = - int (length frac)
     in if whole @ frac = [] then None
        else case s2 of
          [] \<Rightarrow> Some (n, e)
        | c # cs \<Rightarrow> if c = CHR ''e'' \<or> c = CHR ''E'' then map_option (\<lambda>x. (n, e + x)) (parse_exponent cs) else None)"

definition f64_of_decimal :: "bool \<Rightarrow> int \<Rightarrow> int \<Rightarrow> f64" where
  "f64_of_decimal neg n e =
    (if 0 \<le> e then f64_of_ratio neg (n * 10 ^ nat e) 1 else f64_of_ratio neg n (10 ^ nat (- e)))"

definition parse_inf_nan :: "string \<Rightarrow> f64 option" where
  "parse_inf_nan s =
    (if eq_ignore_ascii_case s ''nan'' then Some f64_nan
     else if eq_ignore_ascii_case s ''inf'' \<or> eq_ignore_ascii_case s ''infinity'' then Some (f64_infinity False)
     else None)"

definition parse_f64 :: "string \<Rightarrow> f64 option" where
  "parse_f64 s =
    (let neg = (take 1 s = ''-''); t = (if take 1 s = ''-'' \<or> take 1 s = ''+'' then drop 1 s else s)
     in case parse_decimal t of
          Some (n, e) \<Rightarrow> Some (f64_of_decimal neg n e)
        | None \<Rightarrow> map_option (\<lambda>x. if neg then f64_neg x else x) (parse_inf_nan t))"

lemma parse_f64_examples:
  "parse_f64 ''0.1'' = Some 0x3FB999999999999A"
  "parse_f64 ''-2.5e0'' = Some 0xC004000000000000"
  "parse_f64 ''1e3'' = Some 0x408F400000000000"
  "parse_f64 ''.'' = None" "parse_f64 ''1e'' = None" "parse_f64 '''' = None" "parse_f64 ''1_0'' = None"
  "parse_f64 ''-INF'' = Some (f64_infinity True)"
  by code_simp+

section \<open>Durations\<close>

definition round_half_even :: "int \<Rightarrow> int \<Rightarrow> int" where
  "round_half_even n d =
    (if d < 2 * (n mod d) \<or> (2 * (n mod d) = d \<and> odd (n div d)) then n div d + 1 else n div d)"

text \<open>\<open>Duration::from_secs_f64\<close>; \<open>None\<close> is its panic.\<close>

definition from_secs_f64 :: "f64 \<Rightarrow> Duration option" where
  "from_secs_f64 x =
    (if f64_lt x f64_zero \<or> \<not> f64_is_finite x then None
     else let ns = (if 0 \<le> f64_expo x then f64_mant x * 2 ^ nat (f64_expo x) * 1000000000
                    else round_half_even (f64_mant x * 1000000000) (2 ^ nat (- f64_expo x)))
          in if ns \<le> int Duration_MAX then Some (nat ns) else None)"

lemma from_secs_f64_examples:
  "map_option int (from_secs_f64 0x3FF8000000000000) = Some 1500000000" \<comment> \<open>\<open>1.5\<close>\<close>
  "map_option int (from_secs_f64 0x3FB999999999999A) = Some 100000000" \<comment> \<open>\<open>0.1\<close>\<close>
  "from_secs_f64 0xBFF0000000000000 = None"
  by (simp_all add: from_secs_f64_def f64_mant_def f64_expo_def f64_defs f64_zero_def mag_mant_def
      mag_expo_def round_half_even_def Duration_MAX_def)

text \<open>\<open>Duration::as_secs_f64\<close>.\<close>

definition as_secs_f64 :: "Duration \<Rightarrow> f64" where
  "as_secs_f64 d = f64_add (f64_of_int (int (d div 1000000000)))
     (f64_div (f64_of_int (int (d mod 1000000000))) (f64_of_int 1000000000))"

lemma as_secs_f64_zero: "f64_le (as_secs_f64 0) f64_zero"
proof -
  have "f64_add (f64_of_int 0) (f64_div (f64_of_int 0) (f64_of_int 1000000000)) = f64_zero" by code_simp
  moreover have "f64_le f64_zero f64_zero" by code_simp
  ultimately show ?thesis by (simp add: as_secs_f64_def)
qed

end
