(* ===== verification/Panel_Rules.thy ===== *)
theory Panel_Rules imports Annot_Types Std_Floats begin

text \<open>
  The rules of the order panel, \<open>desktop/win/crates/midas-app/src/order_panel/mod.rs\<close>: prices from user
  input, risk and reward, the validation of panel input and of a bracket, default and normalised
  brackets, and the shift of a bracket to a new price. An error is the field it belongs to and its text,
  as in the code.
\<close>

section \<open>Input\<close>

datatype OrderSide = Buy | Sell

datatype PriceInputMode = Absolute | Offset | Percent

datatype StopLossType = StopLossStop | StopLossStopLimit

definition f64_lit_100 :: f64 where "f64_lit_100 = 4636737291354636288" \<comment> \<open>100.0\<close>
definition f64_lit_001 :: f64 where "f64_lit_001 = 4576918229304087675" \<comment> \<open>0.01\<close>
definition f64_lit_0005 :: f64 where "f64_lit_0005 = 4572414629676717179" \<comment> \<open>0.005\<close>
definition f64_lit_005 :: f64 where "f64_lit_005 = 4587366580439587226" \<comment> \<open>0.05\<close>
definition f64_lit_30 :: f64 where "f64_lit_30 = 4629137466983448576" \<comment> \<open>30.0\<close>

definition resolve_price :: "PriceInputMode \<Rightarrow> f64 \<Rightarrow> f64 \<Rightarrow> OrderSide \<Rightarrow> bool \<Rightarrow> f64" where
  "resolve_price mode price_value last_price side is_tp =
     (case mode of
        Absolute \<Rightarrow> price_value
      | Offset \<Rightarrow>
          if (side = Buy) = is_tp then f64_add last_price (f64_abs price_value)
          else f64_sub last_price (f64_abs price_value)
      | Percent \<Rightarrow>
          (let factor = f64_div (f64_abs price_value) f64_lit_100 in
           if (side = Buy) = is_tp then f64_mul last_price (f64_add f64_one factor)
           else f64_mul last_price (f64_sub f64_one factor)))"

record RiskReward =
  risk_per_share :: f64
  reward_per_share :: f64
  total_risk :: f64
  total_reward :: f64
  risk_pct :: f64
  reward_pct :: f64
  rr_ratio :: f64

definition calculate_risk_reward :: "f64 \<Rightarrow> f64 option \<Rightarrow> f64 option \<Rightarrow> f64 \<Rightarrow> RiskReward option" where
  "calculate_risk_reward entry_price tp_price sl_price quantity =
     (case sl_price of
        None \<Rightarrow> None
      | Some sl \<Rightarrow>
          (let risk = f64_abs (f64_sub entry_price sl) in
           if f64_lt risk EPSILON then None
           else
             (let reward = (case tp_price of None \<Rightarrow> f64_zero | Some tp \<Rightarrow> f64_abs (f64_sub tp entry_price))
              in Some \<lparr> risk_per_share = risk, reward_per_share = reward,
                        total_risk = f64_mul risk quantity, total_reward = f64_mul reward quantity,
                        risk_pct = f64_mul (f64_div risk entry_price) f64_lit_100,
                        reward_pct = f64_mul (f64_div reward entry_price) f64_lit_100,
                        rr_ratio = (if f64_gt risk f64_zero then f64_div reward risk else f64_zero) \<rparr>)))"

section \<open>The panel and its validation\<close>

type_synonym PanelError = "string \<times> string"

text \<open>The chart a panel is attached to is a number, as chart identifiers are.\<close>

record OrderPanelState =
  pn_visible :: bool
  pn_side :: OrderSide
  pn_quantity :: string
  pn_tp_enabled :: bool
  pn_tp_mode :: PriceInputMode
  pn_tp_value :: string
  pn_sl_enabled :: bool
  pn_sl_mode :: PriceInputMode
  pn_sl_value :: string
  pn_sl_type :: StopLossType
  pn_sl_limit_value :: string
  pn_entry_type :: EntryType
  pn_limit_price :: string
  pn_stop_price :: string
  pn_errors :: "PanelError list"
  pn_symbol :: string
  pn_last_price :: "f64 option"
  pn_source_chart :: "u64 option"
  pn_showing_confirmation :: bool
  pn_bracket_active :: "OrderSide option"
  pn_bracket_annotation_id :: "AnnotationId option"
  pn_dirty :: bool

definition OrderPanelState_default :: OrderPanelState where
  "OrderPanelState_default = \<lparr> pn_visible = False, pn_side = Buy, pn_quantity = ''100'',
     pn_tp_enabled = False, pn_tp_mode = Absolute, pn_tp_value = '''',
     pn_sl_enabled = False, pn_sl_mode = Absolute, pn_sl_value = '''', pn_sl_type = StopLossStop,
     pn_sl_limit_value = '''', pn_entry_type = Market, pn_limit_price = '''', pn_stop_price = '''',
     pn_errors = [], pn_symbol = '''', pn_last_price = None, pn_source_chart = None,
     pn_showing_confirmation = False, pn_bracket_active = None, pn_bracket_annotation_id = None,
     pn_dirty = False \<rparr>"

definition quantity_errors :: "string \<Rightarrow> PanelError list" where
  "quantity_errors s =
     (case parse_f64 s of
        Some q \<Rightarrow> if f64_gt q f64_zero then [] else [(''quantity'', ''Quantity must be positive'')]
      | None \<Rightarrow> [(''quantity'', ''Invalid quantity (not a number)'')])"

text \<open>
  The two exits are checked by the same steps: parse, resolve, test the sign, test the direction. Only
  an unreadable value suppresses the two tests, which both may fail.
\<close>

definition tp_errors :: "OrderPanelState \<Rightarrow> f64 \<Rightarrow> PanelError list" where
  "tp_errors st last_price =
     (case parse_f64 (pn_tp_value st) of
        None \<Rightarrow> [(''tp'', ''Invalid TP value (not a number)'')]
      | Some tp_val \<Rightarrow>
          (let tp_price = resolve_price (pn_tp_mode st) tp_val last_price (pn_side st) True in
           (if f64_le tp_price f64_zero then [(''tp'', ''Invalid TP price'')] else []) @
           (case pn_side st of
              Buy \<Rightarrow> if f64_le tp_price last_price
                     then [(''tp'', ''TP must be above current price for BUY'')] else []
            | Sell \<Rightarrow> if f64_ge tp_price last_price
                     then [(''tp'', ''TP must be below current price for SELL'')] else [])))"

definition sl_errors :: "OrderPanelState \<Rightarrow> f64 \<Rightarrow> PanelError list" where
  "sl_errors st last_price =
     (case parse_f64 (pn_sl_value st) of
        None \<Rightarrow> [(''sl'', ''Invalid SL value (not a number)'')]
      | Some sl_val \<Rightarrow>
          (let sl_price = resolve_price (pn_sl_mode st) sl_val last_price (pn_side st) False in
           (if f64_le sl_price f64_zero then [(''sl'', ''Invalid SL price'')] else []) @
           (case pn_side st of
              Buy \<Rightarrow> if f64_ge sl_price last_price
                     then [(''sl'', ''SL must be below current price for BUY'')] else []
            | Sell \<Rightarrow> if f64_le sl_price last_price
                     then [(''sl'', ''SL must be above current price for SELL'')] else [])))"

definition validate_panel :: "OrderPanelState \<Rightarrow> PanelError list" where
  "validate_panel st =
     (if pn_symbol st = [] then [(''symbol'', ''No symbol selected'')] else []) @
     quantity_errors (pn_quantity st) @
     (case pn_last_price st of
        None \<Rightarrow> [(''price'', ''No market price available'')]
      | Some last_price \<Rightarrow>
          (if pn_tp_enabled st then tp_errors st last_price else []) @
          (if pn_sl_enabled st then sl_errors st last_price else []))"

section \<open>The validation of a bracket\<close>

definition entry_errors :: "OrderBracket \<Rightarrow> PanelError list" where
  "entry_errors b =
     (let price = leg_price (ob_entry b) in
      case ob_entry_type b of
        Market \<Rightarrow> if f64_le price f64_zero then [(''entry'', ''No market price available'')] else []
      | Limit \<Rightarrow> if f64_le price f64_zero then [(''entry'', ''Limit price must be positive'')] else []
      | Stop \<Rightarrow> if f64_le price f64_zero then [(''entry'', ''Stop price must be positive'')] else []
      | StopLimit \<Rightarrow>
          (if f64_le price f64_zero then [(''entry'', ''Limit price must be positive'')] else []) @
          (case ob_entry_stop_price b of
             None \<Rightarrow> [(''entry'', ''Stop-Limit requires a stop trigger price'')]
           | Some sp \<Rightarrow>
               if f64_le sp f64_zero then [(''entry'', ''Stop trigger price must be positive'')]
               else (case ob_side b of
                       Long \<Rightarrow> if f64_gt price sp
                               then [(''entry'', ''Limit price must be at or below stop for BUY'')] else []
                     | Short \<Rightarrow> if f64_lt price sp
                               then [(''entry'', ''Limit price must be at or above stop for SELL'')] else [])))"

definition stop_loss_errors :: "OrderBracket \<Rightarrow> PanelError list" where
  "stop_loss_errors b =
     (case ob_stop_loss b of
        None \<Rightarrow> []
      | Some sl \<Rightarrow>
          (case ob_side b of
             Long \<Rightarrow> if f64_ge (leg_price sl) (leg_price (ob_entry b))
                     then [(''sl'', ''Stop loss must be below entry for BUY'')] else []
           | Short \<Rightarrow> if f64_le (leg_price sl) (leg_price (ob_entry b))
                     then [(''sl'', ''Stop loss must be above entry for SELL'')] else []))"

definition validate_chart_bracket :: "OrderBracket \<Rightarrow> f64 \<Rightarrow> PanelError list" where
  "validate_chart_bracket b quantity =
     (if f64_le quantity f64_zero then [(''quantity'', ''Quantity must be positive'')] else []) @
     entry_errors b @ stop_loss_errors b"

section \<open>Default and normalised brackets\<close>

definition default_bracket_prices ::
  "f64 \<Rightarrow> OrderSide \<Rightarrow> bool \<Rightarrow> bool \<Rightarrow> f64 option \<Rightarrow> f64 \<times> f64 option \<times> f64 option" where
  "default_bracket_prices last_price side tp_enabled sl_enabled price_per_pixel =
     (let pct_tp_offset = f64_mul last_price f64_lit_001;
          pct_sl_offset = f64_mul last_price f64_lit_0005;
          px_min = (case price_per_pixel of None \<Rightarrow> f64_zero
                    | Some ppp \<Rightarrow> f64_max (f64_mul ppp f64_lit_30) f64_lit_001);
          tp_offset = f64_max pct_tp_offset px_min;
          sl_offset = f64_max pct_sl_offset px_min;
          tp = (if tp_enabled then Some (case side of Buy \<Rightarrow> f64_add last_price tp_offset
                                         | Sell \<Rightarrow> f64_sub last_price tp_offset) else None);
          sl = (if sl_enabled then Some (case side of Buy \<Rightarrow> f64_sub last_price sl_offset
                                         | Sell \<Rightarrow> f64_add last_price sl_offset) else None)
      in (last_price, tp, sl))"

definition drop_if_not_positive :: "BracketLeg option \<Rightarrow> BracketLeg option" where
  "drop_if_not_positive leg =
     (case leg of None \<Rightarrow> None | Some l \<Rightarrow> if f64_le (leg_price l) f64_zero then None else Some l)"

definition normalize_bracket :: "OrderBracket \<Rightarrow> OrderBracket" where
  "normalize_bracket b =
     (let b = b\<lparr> ob_entry_stop_price :=
                (case ob_entry_type b of
                   StopLimit \<Rightarrow> (case ob_entry_stop_price b of None \<Rightarrow> Some (leg_price (ob_entry b)) | sp \<Rightarrow> sp)
                 | _ \<Rightarrow> None) \<rparr>;
          b = b\<lparr> ob_take_profit := drop_if_not_positive (ob_take_profit b) \<rparr>;
          b = b\<lparr> ob_stop_loss := drop_if_not_positive (ob_stop_loss b) \<rparr>
      in if f64_le (leg_price (ob_entry b)) f64_zero then b\<lparr> ob_status := Cancelled \<rparr> else b)"

section \<open>Repositioning\<close>

definition should_reposition :: "f64 \<Rightarrow> f64 \<Rightarrow> f64 option \<Rightarrow> bool" where
  "should_reposition entry_price current_price gatr_abs =
     (let threshold = (case gatr_abs of Some g \<Rightarrow> g
                       | None \<Rightarrow> f64_max (f64_mul (f64_abs current_price) f64_lit_005) f64_lit_001)
      in f64_gt (f64_abs (f64_sub entry_price current_price)) threshold)"

definition shift_leg :: "f64 \<Rightarrow> BracketLeg \<Rightarrow> BracketLeg" where
  "shift_leg delta l = set_leg_line_price (f64_add (leg_price l) delta) l"

definition reposition_bracket :: "f64 \<Rightarrow> OrderBracket \<Rightarrow> OrderBracket" where
  "reposition_bracket current_price b =
     (let delta = f64_sub current_price (leg_price (ob_entry b)) in
      b\<lparr> ob_entry := shift_leg delta (ob_entry b),
         ob_entry_stop_price := map_option (\<lambda>sp. f64_add sp delta) (ob_entry_stop_price b),
         ob_take_profit := map_option (shift_leg delta) (ob_take_profit b),
         ob_stop_loss := map_option (shift_leg delta) (ob_stop_loss b) \<rparr>)"

section \<open>Brackets the broker reports\<close>

definition annotation_leg :: "f64 \<Rightarrow> BracketLeg" where
  "annotation_leg price =
     \<lparr> leg_line = \<lparr> line_price = price, line_extent = FullWidth,
                    line_stroke = \<lparr> stroke_color = rgba_of f32_0_0 f32_0_0 f32_0_0 f32_1_0,
                                    stroke_width = f32_1_5, stroke_style = Solid \<rparr> \<rparr>,
       leg_role = Entry, leg_projected_pnl = None, leg_projected_pnl_pct = None \<rparr>"

definition create_bracket_annotation ::
  "BracketSide \<Rightarrow> f64 \<Rightarrow> f64 option \<Rightarrow> f64 option \<Rightarrow> f64 \<Rightarrow> OrderBracket" where
  "create_bracket_annotation side entry_price tp_price sl_price quantity =
     \<lparr> ob_entry = annotation_leg entry_price, ob_take_profit = map_option annotation_leg tp_price,
       ob_stop_loss = map_option annotation_leg sl_price, ob_side = side, ob_status = Pending,
       ob_quantity = Some quantity, ob_saved = False, ob_filled_qty = None, ob_entry_type = Market,
       ob_entry_stop_price = None, ob_wrong_side_warning = False \<rparr>"

definition map_lifecycle_to_chart_status :: "string \<Rightarrow> BracketStatus" where
  "map_lifecycle_to_chart_status status =
     (if status = ''Submitted'' then Pending
      else if status = ''PartialFill'' \<or> status = ''PartiallyFilled'' then PartialFill
      else if status = ''EntryFilled'' then Active
      else if status = ''TakeProfitHit'' \<or> status = ''StopLossHit'' \<or> status = ''Closed'' then Closed
      else if status = ''Cancelled'' \<or> status = ''Rejected'' \<or> status = ''Error'' then Cancelled
      else Pending)"

section \<open>Facts\<close>

lemma normalize_bracket_simps [simp]:
  "ob_entry (normalize_bracket b) = ob_entry b" "ob_side (normalize_bracket b) = ob_side b"
  "ob_entry_type (normalize_bracket b) = ob_entry_type b" "ob_quantity (normalize_bracket b) = ob_quantity b"
  "ob_saved (normalize_bracket b) = ob_saved b" "ob_filled_qty (normalize_bracket b) = ob_filled_qty b"
  "ob_status (normalize_bracket b) = (if f64_le (leg_price (ob_entry b)) f64_zero then Cancelled else ob_status b)"
  by (simp_all add: normalize_bracket_def Let_def)

text \<open>A bracket is normalised once.\<close>

lemma normalize_bracket_idem: "normalize_bracket (normalize_bracket b) = normalize_bracket b"
  by (cases b)
     (simp add: normalize_bracket_def Let_def drop_if_not_positive_def split: option.splits EntryType.splits)

end
