(* ===== verification/Annot_Store.thy ===== *)
theory Annot_Store imports Panel_Rules "HOL-Library.AList" begin

text \<open>
  The annotation store, \<open>desktop/win/crates/midas-app/src/annotation_store/mod.rs\<close>: the annotations of
  every symbol, with one counter of identities, and its filling from files
  (\<open>annotation_persistence.rs\<close>). Symbols are ASCII, as \<open>SymbolKey\<close> documents. The hash map of symbols
  is the list of its entries in its iteration order. The time of a mutation is an argument, a closure a
  function on what it changes.
\<close>

section \<open>Symbols\<close>

definition is_ascii_space :: "char \<Rightarrow> bool" where
  "is_ascii_space c = (byte c \<in> {9, 10, 11, 12, 13, 32})"

definition ascii_upper :: "char \<Rightarrow> char" where
  "ascii_upper c = (if 97 \<le> byte c \<and> byte c \<le> 122 then char_of (byte c - 32) else c)"

definition str_trim :: "string \<Rightarrow> string" where
  "str_trim s = rev (dropWhile is_ascii_space (rev (dropWhile is_ascii_space s)))"

definition SymbolKey_new :: "string \<Rightarrow> string" where
  "SymbolKey_new s = List.map ascii_upper (str_trim s)"

section \<open>Lists changed at their first match\<close>

fun remove_first :: "('a \<Rightarrow> bool) \<Rightarrow> 'a list \<Rightarrow> 'a list option" where
  "remove_first P [] = None"
| "remove_first P (x # xs) = (if P x then Some xs else map_option (Cons x) (remove_first P xs))"

fun update_first :: "('a \<Rightarrow> bool) \<Rightarrow> ('a \<Rightarrow> 'a) \<Rightarrow> 'a list \<Rightarrow> 'a list option" where
  "update_first P f [] = None"
| "update_first P f (x # xs) = (if P x then Some (f x # xs) else map_option (Cons x) (update_first P f xs))"

lemma remove_first_subseq: "remove_first P xs = Some ys \<Longrightarrow> \<exists>x us vs. xs = us @ x # vs \<and> ys = us @ vs \<and> P x \<and> (\<forall>u \<in> set us. \<not> P u)"
proof (induction xs arbitrary: ys)
  case (Cons a xs)
  show ?case
  proof (cases "P a")
    case True
    then show ?thesis using Cons.prems by (intro exI [of _ a] exI [of _ "[]"] exI [of _ xs]) simp
  next
    case False
    then obtain zs where z: "remove_first P xs = Some zs" "ys = a # zs" using Cons.prems by auto
    obtain x us vs where "xs = us @ x # vs" "zs = us @ vs" "P x" "\<forall>u \<in> set us. \<not> P u"
      using Cons.IH [OF z(1)] by blast
    then show ?thesis using z(2) False by (intro exI [of _ x] exI [of _ "a # us"] exI [of _ vs]) simp
  qed
qed simp

lemma update_first_split: "update_first P f xs = Some ys \<Longrightarrow> \<exists>x us vs. xs = us @ x # vs \<and> ys = us @ f x # vs \<and> P x \<and> (\<forall>u \<in> set us. \<not> P u)"
proof (induction xs arbitrary: ys)
  case (Cons a xs)
  show ?case
  proof (cases "P a")
    case True
    then show ?thesis using Cons.prems by (intro exI [of _ a] exI [of _ "[]"] exI [of _ xs]) simp
  next
    case False
    then obtain zs where z: "update_first P f xs = Some zs" "ys = a # zs" using Cons.prems by auto
    obtain x us vs where "xs = us @ x # vs" "zs = us @ f x # vs" "P x" "\<forall>u \<in> set us. \<not> P u"
      using Cons.IH [OF z(1)] by blast
    then show ?thesis using z(2) False by (intro exI [of _ x] exI [of _ "a # us"] exI [of _ vs]) simp
  qed
qed simp

lemma remove_first_None: "remove_first P xs = None \<longleftrightarrow> (\<forall>x \<in> set xs. \<not> P x)"
  by (induction xs) auto

lemma update_first_None: "update_first P f xs = None \<longleftrightarrow> (\<forall>x \<in> set xs. \<not> P x)"
  by (induction xs) auto

section \<open>The store\<close>

record StoredLevel =
  sl_level :: HorizontalLevel
  sl_locked :: bool

definition from_annotation :: "Annotation \<Rightarrow> StoredLevel option" where
  "from_annotation ann = (case ann_kind ann of
     LevelKind level \<Rightarrow> Some \<lparr> sl_level = level, sl_locked = ann_locked ann \<rparr> | _ \<Rightarrow> None)"

record SymbolAnnotations =
  sa_annotations :: "Annotation list"
  sa_generation :: u64

definition SymbolAnnotations_new :: SymbolAnnotations where
  "SymbolAnnotations_new = \<lparr> sa_annotations = [], sa_generation = 0 \<rparr>"

record AnnotationStore =
  by_symbol :: "(string \<times> SymbolAnnotations) list"
  store_generation :: u64
  next_id :: u64

definition AnnotationStore_new :: AnnotationStore where
  "AnnotationStore_new = \<lparr> by_symbol = [], store_generation = 0, next_id = 1 \<rparr>"

subsection \<open>Queries\<close>

definition store_get :: "string \<Rightarrow> AnnotationStore \<Rightarrow> Annotation list" where
  "store_get symbol s = (case map_of (by_symbol s) (SymbolKey_new symbol) of
     None \<Rightarrow> [] | Some sa \<Rightarrow> sa_annotations sa)"

definition get_visible :: "string \<Rightarrow> Timeframe \<Rightarrow> AnnotationStore \<Rightarrow> Annotation list" where
  "get_visible symbol timeframe s = List.filter (\<lambda>ann. should_render_on ann timeframe) (store_get symbol s)"

definition generation_of :: "string \<Rightarrow> AnnotationStore \<Rightarrow> u64" where
  "generation_of symbol s = (case map_of (by_symbol s) (SymbolKey_new symbol) of
     None \<Rightarrow> 0 | Some sa \<Rightarrow> sa_generation sa)"

definition get_by_id :: "string \<Rightarrow> AnnotationId \<Rightarrow> AnnotationStore \<Rightarrow> Annotation option" where
  "get_by_id symbol i s = List.find (\<lambda>a. ann_id a = i) (store_get symbol s)"

definition get_bracket :: "string \<Rightarrow> AnnotationId \<Rightarrow> AnnotationStore \<Rightarrow> OrderBracket option" where
  "get_bracket symbol i s = (case get_by_id symbol i s of
     None \<Rightarrow> None | Some a \<Rightarrow> (case ann_kind a of OrderBracketKind b \<Rightarrow> Some b | _ \<Rightarrow> None))"

fun find_in :: "AnnotationId \<Rightarrow> (string \<times> SymbolAnnotations) list \<Rightarrow> (string \<times> Annotation) option" where
  "find_in i [] = None"
| "find_in i ((key, sa) # rest) = (case List.find (\<lambda>a. ann_id a = i) (sa_annotations sa) of
     Some ann \<Rightarrow> Some (key, ann) | None \<Rightarrow> find_in i rest)"

definition store_find :: "AnnotationId \<Rightarrow> AnnotationStore \<Rightarrow> (string \<times> Annotation) option" where
  "store_find i s = find_in i (by_symbol s)"

definition store_symbols :: "AnnotationStore \<Rightarrow> string list" where
  "store_symbols s = List.map fst (by_symbol s)"

definition levels_for :: "string \<Rightarrow> AnnotationStore \<Rightarrow> StoredLevel list" where
  "levels_for symbol s = List.map_filter from_annotation (store_get symbol s)"

definition is_level :: "Annotation \<Rightarrow> bool" where
  "is_level a = (case ann_kind a of LevelKind _ \<Rightarrow> True | _ \<Rightarrow> False)"

definition has_any_levels :: "AnnotationStore \<Rightarrow> bool" where
  "has_any_levels s = list_ex (\<lambda>(_, sa). list_ex is_level (sa_annotations sa)) (by_symbol s)"

definition has_level_id :: "u64 \<Rightarrow> Annotation \<Rightarrow> bool" where
  "has_level_id i a = (case ann_kind a of LevelKind level \<Rightarrow> level_id level = i | _ \<Rightarrow> False)"

fun find_level_in :: "u64 \<Rightarrow> (string \<times> SymbolAnnotations) list \<Rightarrow> (string \<times> StoredLevel) option" where
  "find_level_in i [] = None"
| "find_level_in i ((key, sa) # rest) = (case List.find (has_level_id i) (sa_annotations sa) of
     Some ann \<Rightarrow> map_option (Pair key) (from_annotation ann) | None \<Rightarrow> find_level_in i rest)"

definition find_level :: "u64 \<Rightarrow> AnnotationStore \<Rightarrow> (string \<times> StoredLevel) option" where
  "find_level i s = find_level_in i (by_symbol s)"

subsection \<open>Mutations\<close>

definition bump_generation :: "string \<Rightarrow> AnnotationStore \<Rightarrow> AnnotationStore" where
  "bump_generation key s = s\<lparr> by_symbol := (case map_of (by_symbol s) key of
       None \<Rightarrow> by_symbol s
     | Some sa \<Rightarrow> AList.update key (sa\<lparr> sa_generation := sa_generation sa + 1 \<rparr>) (by_symbol s)),
     store_generation := store_generation s + 1 \<rparr>"

definition push_annotation :: "string \<Rightarrow> Annotation \<Rightarrow> AnnotationStore \<Rightarrow> AnnotationStore" where
  "push_annotation key a s =
     (let sa = (case map_of (by_symbol s) key of None \<Rightarrow> SymbolAnnotations_new | Some sa \<Rightarrow> sa)
      in s\<lparr> by_symbol := AList.update key (sa\<lparr> sa_annotations := sa_annotations sa @ [a] \<rparr>) (by_symbol s) \<rparr>)"

definition set_annotations :: "string \<Rightarrow> SymbolAnnotations \<Rightarrow> Annotation list \<Rightarrow> AnnotationStore \<Rightarrow> AnnotationStore" where
  "set_annotations key sa anns s =
     s\<lparr> by_symbol := AList.update key (sa\<lparr> sa_annotations := anns \<rparr>) (by_symbol s) \<rparr>"

definition store_add :: "int \<Rightarrow> string \<Rightarrow> AnnotationKind \<Rightarrow> AnnotationStore \<Rightarrow> AnnotationId \<times> AnnotationStore" where
  "store_add now symbol kind s =
     (let i = next_id s;
          annotation = \<lparr> ann_id = i, ann_kind = kind, ann_presence = Present, ann_visible_timeframes = None,
                         ann_locked = False, ann_created_at = now, ann_modified_at = now \<rparr>;
          key = SymbolKey_new symbol
      in (i, bump_generation key (push_annotation key annotation (s\<lparr> next_id := next_id s + 1 \<rparr>))))"

definition remove_where :: "(Annotation \<Rightarrow> bool) \<Rightarrow> string \<Rightarrow> AnnotationStore \<Rightarrow> bool \<times> AnnotationStore" where
  "remove_where P symbol s =
     (let key = SymbolKey_new symbol in
      case map_of (by_symbol s) key of
        None \<Rightarrow> (False, s)
      | Some sa \<Rightarrow>
          (case remove_first P (sa_annotations sa) of
             None \<Rightarrow> (False, s)
           | Some anns \<Rightarrow> (True, bump_generation key (set_annotations key sa anns s))))"

definition store_remove :: "string \<Rightarrow> AnnotationId \<Rightarrow> AnnotationStore \<Rightarrow> bool \<times> AnnotationStore" where
  "store_remove symbol i s = remove_where (\<lambda>a. ann_id a = i) symbol s"

definition update_where ::
  "(Annotation \<Rightarrow> bool) \<Rightarrow> string \<Rightarrow> (Annotation \<Rightarrow> Annotation) \<Rightarrow> AnnotationStore \<Rightarrow> bool \<times> AnnotationStore" where
  "update_where P symbol f s =
     (let key = SymbolKey_new symbol in
      case map_of (by_symbol s) key of
        None \<Rightarrow> (False, s)
      | Some sa \<Rightarrow>
          (case update_first P f (sa_annotations sa) of
             None \<Rightarrow> (False, s)
           | Some anns \<Rightarrow> (True, bump_generation key (set_annotations key sa anns s))))"

definition store_update ::
  "int \<Rightarrow> string \<Rightarrow> AnnotationId \<Rightarrow> (Annotation \<Rightarrow> Annotation) \<Rightarrow> AnnotationStore \<Rightarrow> bool \<times> AnnotationStore" where
  "store_update now symbol i f s =
     update_where (\<lambda>a. ann_id a = i) symbol (\<lambda>a. f (a\<lparr> ann_modified_at := now \<rparr>)) s"

definition store_clear :: "string \<Rightarrow> AnnotationStore \<Rightarrow> AnnotationStore" where
  "store_clear symbol s =
     (let key = SymbolKey_new symbol in
      case map_of (by_symbol s) key of
        None \<Rightarrow> s
      | Some sa \<Rightarrow> if sa_annotations sa = [] then s else bump_generation key (set_annotations key sa [] s))"

definition store_retain :: "string \<Rightarrow> (Annotation \<Rightarrow> bool) \<Rightarrow> AnnotationStore \<Rightarrow> nat \<times> AnnotationStore" where
  "store_retain symbol pred s =
     (let key = SymbolKey_new symbol in
      case map_of (by_symbol s) key of
        None \<Rightarrow> (0, s)
      | Some sa \<Rightarrow>
          (let anns = List.filter pred (sa_annotations sa);
               removed = length (sa_annotations sa) - length anns;
               s' = set_annotations key sa anns s
           in (removed, if removed > 0 then bump_generation key s' else s')))"

definition add_raw :: "string \<Rightarrow> Annotation \<Rightarrow> AnnotationStore \<Rightarrow> AnnotationStore" where
  "add_raw symbol annotation s = push_annotation (SymbolKey_new symbol) annotation s"

definition set_next_id :: "u64 \<Rightarrow> AnnotationStore \<Rightarrow> AnnotationStore" where
  "set_next_id i s = s\<lparr> next_id := i \<rparr>"

subsection \<open>Levels\<close>

definition add_level :: "int \<Rightarrow> string \<Rightarrow> StoredLevel \<Rightarrow> AnnotationStore \<Rightarrow> AnnotationId \<times> AnnotationStore" where
  "add_level now symbol entry s =
     (let i = level_id (sl_level entry);
          s = (if i \<ge> next_id s then s\<lparr> next_id := i + 1 \<rparr> else s);
          annotation = \<lparr> ann_id = i, ann_kind = LevelKind (sl_level entry), ann_presence = Present,
                         ann_visible_timeframes = None, ann_locked = sl_locked entry,
                         ann_created_at = now, ann_modified_at = now \<rparr>;
          key = SymbolKey_new symbol
      in (i, bump_generation key (push_annotation key annotation s)))"

definition alloc_level_id :: "AnnotationStore \<Rightarrow> u64 \<times> AnnotationStore" where
  "alloc_level_id s = (next_id s, s\<lparr> next_id := next_id s + 1 \<rparr>)"

definition remove_level :: "string \<Rightarrow> u64 \<Rightarrow> AnnotationStore \<Rightarrow> bool \<times> AnnotationStore" where
  "remove_level symbol i s = remove_where (has_level_id i) symbol s"

definition clear_levels :: "string \<Rightarrow> AnnotationStore \<Rightarrow> AnnotationStore" where
  "clear_levels symbol s =
     (let key = SymbolKey_new symbol in
      case map_of (by_symbol s) key of
        None \<Rightarrow> s
      | Some sa \<Rightarrow>
          (let anns = List.filter (\<lambda>a. \<not> is_level a) (sa_annotations sa);
               s' = set_annotations key sa anns s
           in if length anns \<noteq> length (sa_annotations sa) then bump_generation key s' else s'))"

definition edit_level ::
  "int \<Rightarrow> (HorizontalLevel \<times> bool \<Rightarrow> HorizontalLevel \<times> bool) \<Rightarrow> Annotation \<Rightarrow> Annotation" where
  "edit_level now f a = (case ann_kind a of
     LevelKind level \<Rightarrow> (case f (level, ann_locked a) of
       (level', locked') \<Rightarrow> a\<lparr> ann_kind := LevelKind level', ann_locked := locked', ann_modified_at := now \<rparr>)
   | _ \<Rightarrow> a)"

definition update_level ::
  "int \<Rightarrow> string \<Rightarrow> u64 \<Rightarrow> (HorizontalLevel \<times> bool \<Rightarrow> HorizontalLevel \<times> bool) \<Rightarrow> AnnotationStore
     \<Rightarrow> bool \<times> AnnotationStore" where
  "update_level now symbol i f s = update_where (has_level_id i) symbol (edit_level now f) s"

subsection \<open>The configuration of levels\<close>

record LevelConfig =
  lc_price :: f64
  lc_color :: rgba
  lc_line_width :: f32
  lc_label :: "string option"
  lc_icon :: string
  lc_locked :: bool

definition level_of_config :: "u64 \<Rightarrow> LevelConfig \<Rightarrow> StoredLevel" where
  "level_of_config i cfg =
     \<lparr> sl_level = \<lparr> level_id = i,
         level_line = \<lparr> line_price = lc_price cfg, line_extent = FullWidth,
           line_stroke = \<lparr> stroke_color = lc_color cfg, stroke_width = lc_line_width cfg, stroke_style = Solid \<rparr> \<rparr>,
         level_label = lc_label cfg, level_icon = from_str_id (lc_icon cfg) \<rparr>,
       sl_locked = lc_locked cfg \<rparr>"

definition import_level :: "int \<Rightarrow> string \<Rightarrow> LevelConfig \<Rightarrow> AnnotationStore \<Rightarrow> AnnotationStore" where
  "import_level now symbol cfg s =
     (case alloc_level_id s of (i, s) \<Rightarrow> snd (add_level now symbol (level_of_config i cfg) s))"

definition import_level_configs :: "int \<Rightarrow> (string \<times> LevelConfig list) list \<Rightarrow> AnnotationStore \<Rightarrow> AnnotationStore" where
  "import_level_configs now cfgs s =
     fold (\<lambda>(symbol, level_cfgs). fold (import_level now symbol) level_cfgs) cfgs s"

definition config_of_annotation :: "Annotation \<Rightarrow> LevelConfig option" where
  "config_of_annotation ann = (case ann_kind ann of
     LevelKind level \<Rightarrow> Some \<lparr> lc_price = line_price (level_line level),
       lc_color = stroke_color (line_stroke (level_line level)),
       lc_line_width = stroke_width (line_stroke (level_line level)),
       lc_label = level_label level, lc_icon = to_str_id (level_icon level), lc_locked = ann_locked ann \<rparr>
   | _ \<Rightarrow> None)"

definition to_level_configs :: "AnnotationStore \<Rightarrow> (string \<times> LevelConfig list) list" where
  "to_level_configs s =
     List.filter (\<lambda>(_, cfgs). cfgs \<noteq> [])
       (List.map (\<lambda>(key, sa). (key, List.map_filter config_of_annotation (sa_annotations sa))) (by_symbol s))"

subsection \<open>Filling from files\<close>

text \<open>\<open>annotation_persistence::store_from_files\<close>: a bracket is normalised; an unsaved draft is dropped.\<close>

definition restored :: "Annotation \<Rightarrow> Annotation option" where
  "restored ann = (case ann_kind ann of
     OrderBracketKind b \<Rightarrow>
       (let b = normalize_bracket b in
        if ob_status b = Draft \<and> \<not> ob_saved b then None else Some (ann\<lparr> ann_kind := OrderBracketKind b \<rparr>))
   | _ \<Rightarrow> Some ann)"

definition restore_annotation :: "string \<Rightarrow> Annotation \<Rightarrow> u64 \<times> AnnotationStore \<Rightarrow> u64 \<times> AnnotationStore" where
  "restore_annotation symbol ann = (\<lambda>(max_id, s).
     (max max_id (ann_id ann),
      case restored ann of None \<Rightarrow> s | Some ann' \<Rightarrow> add_raw symbol ann' s))"

definition store_from_files :: "(string \<times> Annotation list) list \<Rightarrow> AnnotationStore" where
  "store_from_files files =
     (case fold (\<lambda>(symbol, anns). fold (restore_annotation symbol) anns) files (0, AnnotationStore_new) of
        (max_id, s) \<Rightarrow> set_next_id (max_id + 1) s)"

end
