(* ===== verification/Std_Fmt.thy ===== *)
theory Std_Fmt imports Std_Floats begin

text \<open>
  The standard library's \<open>Display\<close> of an \<open>f64\<close>: with two decimals (\<open>{:.2}\<close>), rounded half to even from
  the exact value, and without a precision (\<open>{}\<close>), where the text is the shortest decimal that reads back
  as the same number, the closest one if there are several, without an exponent.
\<close>

definition fmt_sign :: "f64 \<Rightarrow> string" where
  "fmt_sign x = (if f64_negative x then ''-'' else '''')"

text \<open>A finite number is \<open>f64_num x / f64_den x\<close> in absolute value.\<close>

definition f64_num :: "f64 \<Rightarrow> int" where
  "f64_num x = (if 0 \<le> f64_expo x then f64_mant x * 2 ^ nat (f64_expo x) else f64_mant x)"

definition f64_den :: "f64 \<Rightarrow> int" where
  "f64_den x = (if 0 \<le> f64_expo x then 1 else 2 ^ nat (- f64_expo x))"

definition two_digits :: "nat \<Rightarrow> string" where
  "two_digits n = [digit_char (n div 10 mod 10), digit_char (n mod 10)]"

definition fmt_2 :: "f64 \<Rightarrow> string" where
  "fmt_2 x =
     (if f64_is_nan x then ''NaN''
      else if f64_is_inf x then fmt_sign x @ ''inf''
      else let n = nat (round_half_even (f64_num x * 100) (f64_den x))
           in fmt_sign x @ show_nat (n div 100) @ ''.'' @ two_digits (n mod 100))"

text \<open>The decimal exponent of a positive ratio.\<close>

function from_ten :: "int \<Rightarrow> int \<Rightarrow> int" where
  "from_ten n d = (if n < 10 * d \<or> d \<le> 0 then 0 else from_ten n (10 * d) + 1)"
  by pat_completeness auto
termination
  by (relation "measure (\<lambda>(n, d). nat (n - d))") auto

function below_one :: "int \<Rightarrow> int \<Rightarrow> int" where
  "below_one n d = (if d \<le> n \<or> n \<le> 0 then 0 else below_one (10 * n) d - 1)"
  by pat_completeness auto
termination
  by (relation "measure (\<lambda>(n, d). nat (d - n))") auto

declare from_ten.simps [simp del] below_one.simps [simp del]

definition decimal_expo :: "int \<Rightarrow> int \<Rightarrow> int" where
  "decimal_expo n d = (if d \<le> n then from_ten n d else below_one n d)"

definition times_ten :: "int \<Rightarrow> int \<Rightarrow> int" where
  "times_ten n k = (if 0 \<le> k then n * 10 ^ nat k else n)"

text \<open>The decimals with \<open>j\<close> digits next to \<open>x\<close> that read back as \<open>x\<close>, the closer one first.\<close>

definition digit_candidates :: "f64 \<Rightarrow> int \<Rightarrow> (int \<times> int) list" where
  "digit_candidates x j =
     (let n = f64_num x; d = f64_den x; k = decimal_expo n d - j + 1;
          num = times_ten n (- k); den = times_ten d k;
          lo = num div den; near = (if 2 * (num mod den) \<le> den then [lo, lo + 1] else [lo + 1, lo])
      in List.filter (\<lambda>(m, k). f64_of_decimal (f64_negative x) m k = x) (List.map (\<lambda>m. (m, k)) near))"

text \<open>Seventeen digits are always enough.\<close>

function shortest_from :: "int \<Rightarrow> f64 \<Rightarrow> int \<times> int" where
  "shortest_from j x =
     (if 17 < j then (0, 0)
      else let cs = digit_candidates x j in if cs = [] then shortest_from (j + 1) x else hd cs)"
  by pat_completeness auto
termination
  by (relation "measure (\<lambda>(j, x). nat (18 - j))") auto

function strip_zeros :: "int \<Rightarrow> int \<Rightarrow> int \<times> int" where
  "strip_zeros m k = (if m \<noteq> 0 \<and> m mod 10 = 0 then strip_zeros (m div 10) (k + 1) else (m, k))"
  by pat_completeness auto
termination
  by (relation "measure (\<lambda>(m, k). nat \<bar>m\<bar>)") auto

declare shortest_from.simps [simp del] strip_zeros.simps [simp del]

definition shortest_decimal :: "f64 \<Rightarrow> int \<times> int" where
  "shortest_decimal x = (case shortest_from 1 x of (m, k) \<Rightarrow> strip_zeros m k)"

definition show_decimal :: "int \<times> int \<Rightarrow> string" where
  "show_decimal mk =
     (case mk of (m, k) \<Rightarrow>
        (let ds = show_nat (nat m); len = length ds; frac = nat (- k) in
         if 0 \<le> k then ds @ replicate (nat k) CHR ''0''
         else if frac < len then take (len - frac) ds @ ''.'' @ drop (len - frac) ds
         else ''0.'' @ replicate (frac - len) CHR ''0'' @ ds))"

definition fmt_display :: "f64 \<Rightarrow> string" where
  "fmt_display x =
     (if f64_is_nan x then ''NaN''
      else if f64_is_inf x then fmt_sign x @ ''inf''
      else if f64_is_zero x then fmt_sign x @ ''0''
      else fmt_sign x @ show_decimal (shortest_decimal x))"

lemmas f64_text_defs = fmt_sign_def f64_num_def f64_den_def f64_mant_def f64_expo_def mag_mant_def mag_expo_def
  f64_mag_def f64_negative_def f64_is_nan_def f64_is_inf_def f64_is_zero_def f64_inf_bits_def

lemma fmt_2_examples:
  "fmt_2 0x405AE00000000000 = ''107.50''" "fmt_2 0x3FC0000000000000 = ''0.12''"
  "fmt_2 0x8000000000000000 = ''-0.00''" "fmt_2 0xC000CCCCCCCCCCCD = ''-2.10''" "fmt_2 f64_nan = ''NaN''"
  by (simp_all add: fmt_2_def f64_text_defs two_digits_def show_nat.simps digit_char_def round_half_even_def f64_nan_def
      char_of_def bit_0)

lemma shortest_examples:
  "shortest_decimal 0x3FB999999999999A = (1, - 1)" "shortest_decimal 0x4059000000000000 = (1, 2)"
  "shortest_decimal 0xC00B333333333333 = (34, - 1)" "shortest_decimal 0x412E848000000000 = (1, 6)"
  by code_simp+

lemma show_decimal_examples:
  "show_decimal (1, - 1) = ''0.1''" "show_decimal (34, - 1) = ''3.4''"
  by (simp_all add: show_decimal_def show_nat.simps digit_char_def char_of_def bit_0)

lemma fmt_display_examples:
  "fmt_display 0x3FB999999999999A = ''0.1''"
  "fmt_display 0xC00B333333333333 = ''-3.4''" "fmt_display 0 = ''0''"
  by (simp_all add: fmt_display_def shortest_examples show_decimal_examples f64_text_defs)

end
