(* ===== verification/Ticker_State.thy ===== *)
theory Ticker_State imports Annot_Store Std_Fmt begin

text \<open>
  The state of one symbol, \<open>desktop/win/crates/midas-app/src/ticker_state\<close>: the memory of what the user
  entered per side and order type, the anchor of the G-ATR rule, the live bracket, levels, market data,
  the field being edited and the slot of the last snap (\<open>mod.rs\<close>), its constructors (\<open>factory.rs\<close>) and
  default prices (\<open>price_defaults.rs\<close>). A \<open>DateTime\<close> and an \<open>Instant\<close> are nanoseconds; clock readings are
  arguments.
\<close>

section \<open>Default prices\<close>

record InitialPrices =
  ip_entry :: f64
  ip_stop_trigger :: "f64 option"
  ip_take_profit :: f64
  ip_stop_loss :: f64

definition f64_lit_15 :: f64 where "f64_lit_15 = 4609434218613702656" \<comment> \<open>1.5\<close>

definition MIN_OFFSET_FRACTION :: f64 where "MIN_OFFSET_FRACTION = 4591870180066957722" \<comment> \<open>0.1\<close>

definition resolve_step :: "f64 \<Rightarrow> f64 option \<Rightarrow> f64" where
  "resolve_step current_price gatr_abs =
     (let fallback = f64_mul (f64_abs current_price) f64_lit_0005;
          step = (case gatr_abs of
                    Some g \<Rightarrow> if f64_is_finite g \<and> f64_gt g f64_zero then g else fallback
                  | None \<Rightarrow> fallback)
      in f64_max step f64_lit_001)"

definition too_close :: "f64 \<Rightarrow> f64 \<Rightarrow> f64 \<Rightarrow> bool" where
  "too_close price anchor step = f64_lt (f64_abs (f64_sub price anchor)) (f64_mul MIN_OFFSET_FRACTION step)"

definition default_initial_prices :: "OrderSide \<Rightarrow> EntryType \<Rightarrow> f64 \<Rightarrow> f64 option \<Rightarrow> InitialPrices" where
  "default_initial_prices side entry_type current_price gatr_abs =
     (let step = resolve_step current_price gatr_abs;
          (entry, stop_trigger) =
            (case (side, entry_type) of
               (Buy, Market) \<Rightarrow> (current_price, None)
             | (Sell, Market) \<Rightarrow> (current_price, None)
             | (Buy, Limit) \<Rightarrow> (f64_sub current_price step, None)
             | (Sell, Limit) \<Rightarrow> (f64_add current_price step, None)
             | (Buy, Stop) \<Rightarrow> (f64_add current_price step, None)
             | (Sell, Stop) \<Rightarrow> (f64_sub current_price step, None)
             | (Buy, StopLimit) \<Rightarrow>
                 (f64_add current_price (f64_mul f64_lit_15 step), Some (f64_add current_price step))
             | (Sell, StopLimit) \<Rightarrow>
                 (f64_sub current_price (f64_mul f64_lit_15 step), Some (f64_sub current_price step)));
          (take_profit, stop_loss) =
            (case side of
               Buy \<Rightarrow> (f64_add entry (f64_mul f64_two step), f64_sub entry step)
             | Sell \<Rightarrow> (f64_sub entry (f64_mul f64_two step), f64_add entry step))
      in \<lparr> ip_entry = entry, ip_stop_trigger = stop_trigger, ip_take_profit = take_profit, ip_stop_loss = stop_loss \<rparr>)"

section \<open>The state\<close>

record EntryMemory =
  em_entry_price_or_offset :: "f64 option"
  em_quantity :: "f64 option"
  em_tp_enabled :: bool
  em_tp_value :: string
  em_tp_mode :: PriceInputMode
  em_sl_enabled :: bool
  em_sl_value :: string
  em_sl_mode :: PriceInputMode
  em_sl_type :: StopLossType
  em_sl_limit_value :: string

definition EntryMemory_default :: EntryMemory where
  "EntryMemory_default = \<lparr> em_entry_price_or_offset = None, em_quantity = None, em_tp_enabled = False,
     em_tp_value = '''', em_tp_mode = Absolute, em_sl_enabled = True, em_sl_value = '''',
     em_sl_mode = Absolute, em_sl_type = StopLossStop, em_sl_limit_value = '''' \<rparr>"

record GatrAnchor =
  anchor_price :: "f64 option"
  anchor_gatr :: "f64 option"

definition GatrAnchor_default :: GatrAnchor where
  "GatrAnchor_default = \<lparr> anchor_price = None, anchor_gatr = None \<rparr>"

type_synonym CompoundKey = "OrderSide \<times> EntryType"

type_synonym Entries = "CompoundKey \<Rightarrow> EntryMemory option"

datatype EditingField = LimitPrice | StopPrice | TpValue | SlValue | SlLimitValue | QuantityField

record PreSnapState =
  ps_bracket :: "OrderBracket option"
  ps_entries :: Entries
  ps_gatr_anchor :: GatrAnchor

record TickerSessionFlags =
  fl_snapped :: bool
  fl_anchor_seed_toast_shown :: bool
  fl_gatr_undo :: "PreSnapState option"

definition TickerSessionFlags_default :: TickerSessionFlags where
  "TickerSessionFlags_default = \<lparr> fl_snapped = False, fl_anchor_seed_toast_shown = False, fl_gatr_undo = None \<rparr>"

type_synonym Instant = nat

record TickerState =
  ts_symbol :: string
  ts_version :: u32
  ts_last_side :: OrderSide
  ts_last_entry_type :: EntryType
  ts_entries :: Entries
  ts_gatr_anchor :: GatrAnchor
  ts_pinned :: bool
  ts_bracket_mode :: "OrderSide option"
  ts_live_bracket :: "OrderBracket option"
  ts_live_annotation_id :: "AnnotationId option"
  ts_levels :: "StoredLevel list"
  ts_last_price :: "f64 option"
  ts_gatr_abs :: "f64 option"
  ts_editing_field :: "EditingField option"
  ts_editing_value :: "string option"
  ts_pre_snap :: "(PreSnapState \<times> Instant) option"
  ts_session :: TickerSessionFlags
  ts_camera_time_start :: "f64 option"
  ts_camera_time_end :: "f64 option"
  ts_camera_price_low :: "f64 option"
  ts_camera_price_high :: "f64 option"
  ts_camera_was_at_live_edge :: bool
  ts_updated_at :: int
  ts_generation :: u64

definition CURRENT_VERSION :: u32 where "CURRENT_VERSION = 2"

record SavedCamera =
  cam_time_start :: f64
  cam_time_end :: f64
  cam_price_low :: f64
  cam_price_high :: f64
  cam_was_at_live_edge :: bool

definition saved_camera :: "TickerState \<Rightarrow> SavedCamera option" where
  "saved_camera s =
     (case (ts_camera_time_start s, ts_camera_time_end s, ts_camera_price_low s, ts_camera_price_high s) of
        (Some t0, Some t1, Some low, Some high) \<Rightarrow>
          Some \<lparr> cam_time_start = t0, cam_time_end = t1, cam_price_low = low, cam_price_high = high,
                 cam_was_at_live_edge = ts_camera_was_at_live_edge s \<rparr>
      | _ \<Rightarrow> None)"

definition active_entry_memory :: "TickerState \<Rightarrow> EntryMemory" where
  "active_entry_memory s = (case ts_entries s (ts_last_side s, ts_last_entry_type s) of
     None \<Rightarrow> EntryMemory_default | Some m \<Rightarrow> m)"

section \<open>Constructors\<close>

definition ALL_COMPOUND_KEYS :: "CompoundKey list" where
  "ALL_COMPOUND_KEYS = [(Buy, Market), (Buy, Limit), (Buy, Stop), (Buy, StopLimit),
     (Sell, Market), (Sell, Limit), (Sell, Stop), (Sell, StopLimit)]"

lemma all_compound_keys: "k \<in> set ALL_COMPOUND_KEYS"
  by (cases k; cases "fst k"; cases "snd k") (auto simp: ALL_COMPOUND_KEYS_def)

definition TickerState_new :: "int \<Rightarrow> string \<Rightarrow> TickerState" where
  "TickerState_new now symbol = \<lparr> ts_symbol = symbol, ts_version = CURRENT_VERSION, ts_last_side = Buy,
     ts_last_entry_type = Market, ts_entries = (\<lambda>_. None), ts_gatr_anchor = GatrAnchor_default,
     ts_pinned = False, ts_bracket_mode = None, ts_live_bracket = None, ts_live_annotation_id = None,
     ts_levels = [], ts_last_price = None, ts_gatr_abs = None, ts_editing_field = None,
     ts_editing_value = None, ts_pre_snap = None, ts_session = TickerSessionFlags_default,
     ts_camera_time_start = None, ts_camera_time_end = None, ts_camera_price_low = None,
     ts_camera_price_high = None, ts_camera_was_at_live_edge = True, ts_updated_at = now,
     ts_generation = 0 \<rparr>"

definition default_memory :: "f64 \<Rightarrow> f64 option \<Rightarrow> CompoundKey \<Rightarrow> EntryMemory" where
  "default_memory current_price gatr_abs key =
     (let prices = default_initial_prices (fst key) (snd key) current_price gatr_abs in
      EntryMemory_default\<lparr> em_entry_price_or_offset := Some (ip_entry prices), em_quantity := Some f64_lit_100,
        em_tp_enabled := False, em_tp_value := fmt_2 (ip_take_profit prices), em_sl_enabled := True,
        em_sl_value := fmt_2 (ip_stop_loss prices) \<rparr>)"

definition new_with_defaults :: "int \<Rightarrow> string \<Rightarrow> f64 \<Rightarrow> f64 option \<Rightarrow> TickerState" where
  "new_with_defaults now symbol current_price gatr_abs =
     (TickerState_new now symbol)\<lparr>
        ts_entries := fold (\<lambda>key es. es(key \<mapsto> default_memory current_price gatr_abs key)) ALL_COMPOUND_KEYS (\<lambda>_. None),
        ts_last_price := Some current_price, ts_gatr_abs := gatr_abs \<rparr>"

record TickerOrderIntentV1 =
  v1_version :: u32
  v1_symbol :: string
  v1_last_side :: OrderSide
  v1_last_entry_type :: EntryType
  v1_entries :: Entries
  v1_gatr_anchor :: GatrAnchor
  v1_live_annotation_id :: "AnnotationId option"
  v1_broker_order_id :: "Uuid option"
  v1_pinned :: bool
  v1_updated_at :: int

definition migrate_v1_v2 :: "TickerOrderIntentV1 \<Rightarrow> TickerState" where
  "migrate_v1_v2 intent = \<lparr> ts_symbol = v1_symbol intent, ts_version = CURRENT_VERSION,
     ts_last_side = v1_last_side intent, ts_last_entry_type = v1_last_entry_type intent,
     ts_entries = v1_entries intent, ts_gatr_anchor = v1_gatr_anchor intent, ts_pinned = v1_pinned intent,
     ts_bracket_mode = None, ts_live_bracket = None, ts_live_annotation_id = v1_live_annotation_id intent,
     ts_levels = [], ts_last_price = None, ts_gatr_abs = None, ts_editing_field = None,
     ts_editing_value = None, ts_pre_snap = None, ts_session = TickerSessionFlags_default,
     ts_camera_time_start = None, ts_camera_time_end = None, ts_camera_price_low = None,
     ts_camera_price_high = None, ts_camera_was_at_live_edge = True, ts_updated_at = v1_updated_at intent,
     ts_generation = 0 \<rparr>"

definition from_legacy ::
  "TickerOrderIntentV1 \<Rightarrow> StoredLevel list \<Rightarrow> OrderBracket option \<Rightarrow> AnnotationId option \<Rightarrow> TickerState" where
  "from_legacy intent levels bracket annotation_id =
     \<lparr> ts_symbol = v1_symbol intent, ts_version = CURRENT_VERSION,
       ts_last_side = v1_last_side intent, ts_last_entry_type = v1_last_entry_type intent,
       ts_entries = v1_entries intent, ts_gatr_anchor = v1_gatr_anchor intent, ts_pinned = v1_pinned intent,
       ts_bracket_mode = None, ts_live_bracket = bracket,
       ts_live_annotation_id = (case annotation_id of None \<Rightarrow> v1_live_annotation_id intent | Some i \<Rightarrow> Some i),
       ts_levels = levels, ts_last_price = None, ts_gatr_abs = None, ts_editing_field = None,
       ts_editing_value = None, ts_pre_snap = None, ts_session = TickerSessionFlags_default,
       ts_camera_time_start = None, ts_camera_time_end = None, ts_camera_price_low = None,
       ts_camera_price_high = None, ts_camera_was_at_live_edge = True, ts_updated_at = v1_updated_at intent,
       ts_generation = 0 \<rparr>"

end
