(* ===== verification/Ticker_Apply.thy ===== *)
theory Ticker_Apply imports Ticker_State begin

text \<open>
  The reducer of a symbol's state, \<open>ticker_state/apply.rs\<close>: every message, the change it makes and the
  effects it returns. The readings of the two clocks are arguments. A toast is its text and, for a snap,
  the symbol its button sends \<open>UndoSnap\<close> to.
\<close>

section \<open>Messages and effects\<close>

record TickerClock =
  utc_now :: int
  instant_now :: Instant

datatype TickerMsg =
    SetBracketMode "OrderSide option"
  | EnsureDraftBracket OrderSide EntryType
  | CancelBracket | SaveBracket | DeleteBracket | RecallBracket
  | SetLegPrice LegRole f64
  | SetTpEnabled bool | SetSlEnabled bool
  | SetQuantity f64
  | SetSide OrderSide
  | SetEntryType EntryType
  | DragLeg LegRole f64
  | BeginEdit EditingField | UpdateEditValue string | CommitEdit EditingField string | CancelEdit
  | MaybeSnap f64 "f64 option" | TogglePin | UndoSnap
  | UpdateMarketData f64 "f64 option"
  | AddLevel StoredLevel | RemoveLevel nat | UpdateLevel nat StoredLevel | ToggleLevelLock nat
  | SubmitOrder | OrderPending Uuid | OrderFilled f64 f64 | OrderPartialFill f64
  | OrderRejected string | OrderCancelled
  | SaveCameraState f64 f64 f64 f64 bool
  | MarkSnappedThisSession | MarkAnchorSeedToastShown | StoreGatrUndo PreSnapState | ClearGatrUndo
  | Hydrated TickerState

datatype ToastAction = UndoSnapOf string

datatype TickerEffect =
    ProjectBracket OrderBracket
  | RemoveBracket AnnotationId
  | ProjectLevel nat StoredLevel
  | RemoveLevelEffect AnnotationId
  | Toast string "ToastAction option"
  | PersistDirty
  | SubmitToBroker OrderBracket

type_synonym outcome = "TickerState \<times> TickerEffect list"

definition MIN_GATR_ABS :: f64 where "MIN_GATR_ABS = 4472406533629990549" \<comment> \<open>1e-9\<close>
definition RECENCY_GUARD_SECS :: int where "RECENCY_GUARD_SECS = 60 * 60"
definition SNAP_UNDO_TTL :: nat where "SNAP_UNDO_TTL = 30 * 1000000000"

definition make_leg :: "f64 \<Rightarrow> LegRole \<Rightarrow> BracketLeg" where
  "make_leg price role =
     \<lparr> leg_line = \<lparr> line_price = price, line_extent = FullWidth,
                    line_stroke = \<lparr> stroke_color = rgba_of f32_0_0 f32_0_0 f32_0_0 f32_1_0,
                                    stroke_width = f32_1_0, stroke_style = Solid \<rparr> \<rparr>,
       leg_role = role, leg_projected_pnl = None, leg_projected_pnl_pct = None \<rparr>"

definition to_bracket_side :: "OrderSide \<Rightarrow> BracketSide" where
  "to_bracket_side side = (case side of Buy \<Rightarrow> Long | Sell \<Rightarrow> Short)"

definition bump_gen :: "TickerState \<Rightarrow> TickerState" where
  "bump_gen s = s\<lparr> ts_generation := ts_generation s + 1 \<rparr>"

definition with_bracket :: "OrderBracket \<Rightarrow> TickerState \<Rightarrow> TickerState" where
  "with_bracket b s = s\<lparr> ts_live_bracket := Some b \<rparr>"

text \<open>\<open>self.last_price.unwrap_or(0.0)\<close>\<close>

definition price_or_zero :: "TickerState \<Rightarrow> f64" where
  "price_or_zero s = (case ts_last_price s of None \<Rightarrow> f64_zero | Some p \<Rightarrow> p)"

section \<open>The life of a bracket\<close>

definition fresh_bracket :: "OrderSide \<Rightarrow> EntryType \<Rightarrow> InitialPrices \<Rightarrow> OrderBracket" where
  "fresh_bracket side entry_type prices =
     \<lparr> ob_entry = make_leg (ip_entry prices) Entry,
       ob_take_profit = Some (make_leg (ip_take_profit prices) TakeProfit),
       ob_stop_loss = Some (make_leg (ip_stop_loss prices) StopLoss),
       ob_side = to_bracket_side side, ob_status = Draft, ob_quantity = None, ob_saved = False,
       ob_filled_qty = None, ob_entry_type = entry_type, ob_entry_stop_price = ip_stop_trigger prices,
       ob_wrong_side_warning = False \<rparr>"

definition is_stale :: "f64 \<Rightarrow> f64 option \<Rightarrow> OrderBracket \<Rightarrow> bool" where
  "is_stale current_price gatr_abs b =
     (let entry_price = leg_price (ob_entry b) in
      \<not> f64_is_finite entry_price \<or> f64_le entry_price f64_zero \<or>
      (f64_gt current_price f64_zero \<and> should_reposition entry_price current_price gatr_abs))"

definition redrafted :: "OrderSide \<Rightarrow> EntryType \<Rightarrow> f64 \<Rightarrow> f64 option \<Rightarrow> OrderBracket \<Rightarrow> OrderBracket" where
  "redrafted side entry_type current_price gatr_abs b =
     (let prices = default_initial_prices side entry_type current_price gatr_abs;
          b = (if is_stale current_price gatr_abs b \<and> f64_gt current_price f64_zero
               then b\<lparr> ob_entry := make_leg (ip_entry prices) Entry,
                       ob_take_profit := Some (make_leg (ip_take_profit prices) TakeProfit),
                       ob_stop_loss := Some (make_leg (ip_stop_loss prices) StopLoss),
                       ob_entry_stop_price := ip_stop_trigger prices,
                       ob_status := Draft, ob_saved := False, ob_filled_qty := None,
                       ob_wrong_side_warning := False \<rparr>
               else b)
      in normalize_bracket (b\<lparr> ob_status := Draft, ob_saved := False, ob_side := to_bracket_side side,
                               ob_entry_type := entry_type \<rparr>))"

definition apply_ensure_draft :: "OrderSide \<Rightarrow> EntryType \<Rightarrow> TickerState \<Rightarrow> outcome" where
  "apply_ensure_draft side entry_type s =
     (if ts_bracket_mode s = None then (s, [])
      else
        (let s = bump_gen (s\<lparr> ts_last_side := side, ts_last_entry_type := entry_type \<rparr>);
             current_price = price_or_zero s;
             b = (case ts_live_bracket s of
                    Some b \<Rightarrow> redrafted side entry_type current_price (ts_gatr_abs s) b
                  | None \<Rightarrow> fresh_bracket side entry_type
                              (default_initial_prices side entry_type current_price (ts_gatr_abs s)))
         in (with_bracket b s, [ProjectBracket b, PersistDirty])))"

definition removal_effects :: "TickerState \<Rightarrow> TickerEffect list" where
  "removal_effects s = (case ts_live_annotation_id s of
     Some i \<Rightarrow> [RemoveBracket i, PersistDirty] | None \<Rightarrow> [PersistDirty])"

definition clear_live :: "TickerState \<Rightarrow> TickerState" where
  "clear_live s = s\<lparr> ts_live_bracket := None, ts_live_annotation_id := None \<rparr>"

text \<open>The code tells saved brackets from others and does the same with both.\<close>

definition apply_cancel_bracket :: "TickerState \<Rightarrow> outcome" where
  "apply_cancel_bracket s =
     (let s = bump_gen s in
      case ts_live_bracket s of
        None \<Rightarrow> (s, [])
      | Some b \<Rightarrow> if ob_saved b then (clear_live s, removal_effects s) else (clear_live s, removal_effects s))"

definition persisting :: "TickerEffect list \<Rightarrow> TickerEffect list" where
  "persisting effects = (if PersistDirty \<in> set effects then effects else effects @ [PersistDirty])"

definition apply_set_bracket_mode :: "OrderSide option \<Rightarrow> TickerState \<Rightarrow> outcome" where
  "apply_set_bracket_mode mode s =
     (let s = (bump_gen s)\<lparr> ts_bracket_mode := mode \<rparr> in
      case mode of
        Some side \<Rightarrow>
          (let s = s\<lparr> ts_last_side := side \<rparr> in
           case apply_ensure_draft side (ts_last_entry_type s) s of (s, effects) \<Rightarrow> (s, persisting effects))
      | None \<Rightarrow> (case apply_cancel_bracket s of (s, effects) \<Rightarrow> (s, persisting effects)))"

definition apply_save_bracket :: "TickerState \<Rightarrow> outcome" where
  "apply_save_bracket s =
     (let s = bump_gen s in
      case ts_live_bracket s of
        None \<Rightarrow> (s, [])
      | Some b \<Rightarrow> (let b = b\<lparr> ob_saved := True \<rparr> in (with_bracket b s, [ProjectBracket b, PersistDirty])))"

definition apply_delete_bracket :: "TickerState \<Rightarrow> outcome" where
  "apply_delete_bracket s = (let s = bump_gen s in (clear_live s, removal_effects s))"

definition apply_recall_bracket :: "TickerState \<Rightarrow> outcome" where
  "apply_recall_bracket s =
     (let s = bump_gen s in
      case ts_live_bracket s of
        None \<Rightarrow> (s, [])
      | Some b \<Rightarrow>
          (let last = price_or_zero s;
               b = (if f64_gt last f64_zero \<and> should_reposition (leg_price (ob_entry b)) last (ts_gatr_abs s)
                    then reposition_bracket last b else b);
               b = normalize_bracket b
           in (with_bracket b s, [ProjectBracket b, PersistDirty])))"

section \<open>Changes of one field\<close>

text \<open>What the messages on a live bracket share: the bracket changes, the generation counts, the bracket is projected.\<close>

definition edit_bracket :: "(OrderBracket \<Rightarrow> OrderBracket) \<Rightarrow> TickerEffect list \<Rightarrow> TickerState \<Rightarrow> outcome" where
  "edit_bracket f also_done s =
     (case ts_live_bracket s of
        None \<Rightarrow> (s, [])
      | Some b \<Rightarrow> (with_bracket (f b) (bump_gen s), ProjectBracket (f b) # also_done))"

definition set_leg :: "LegRole \<Rightarrow> f64 \<Rightarrow> OrderBracket \<Rightarrow> OrderBracket" where
  "set_leg role price b =
     (case role of
        Entry \<Rightarrow> b\<lparr> ob_entry := set_leg_line_price price (ob_entry b) \<rparr>
      | TakeProfit \<Rightarrow> b\<lparr> ob_take_profit := map_option (set_leg_line_price price) (ob_take_profit b) \<rparr>
      | StopLoss \<Rightarrow> b\<lparr> ob_stop_loss := map_option (set_leg_line_price price) (ob_stop_loss b) \<rparr>
      | StopTrigger \<Rightarrow> b\<lparr> ob_entry_stop_price := Some price \<rparr>)"

definition apply_set_leg_price :: "LegRole \<Rightarrow> f64 \<Rightarrow> TickerState \<Rightarrow> outcome" where
  "apply_set_leg_price role price s = edit_bracket (set_leg role price) [] s"

definition enable_tp :: "bool \<Rightarrow> OrderBracket \<Rightarrow> OrderBracket" where
  "enable_tp enabled b =
     (if enabled \<and> ob_take_profit b = None then
        (let entry = leg_price (ob_entry b);
             offset = f64_max (f64_mul entry f64_lit_001) f64_lit_001;
             price = (case ob_side b of Long \<Rightarrow> f64_add entry offset | Short \<Rightarrow> f64_sub entry offset)
         in b\<lparr> ob_take_profit := Some (make_leg price TakeProfit) \<rparr>)
      else if \<not> enabled then b\<lparr> ob_take_profit := None \<rparr> else b)"

definition apply_set_tp_enabled :: "bool \<Rightarrow> TickerState \<Rightarrow> outcome" where
  "apply_set_tp_enabled enabled s = edit_bracket (enable_tp enabled) [PersistDirty] s"

definition enable_sl :: "bool \<Rightarrow> OrderBracket \<Rightarrow> OrderBracket" where
  "enable_sl enabled b =
     (if enabled \<and> ob_stop_loss b = None then
        (let entry = leg_price (ob_entry b);
             offset = f64_max (f64_mul entry f64_lit_0005) f64_lit_001;
             price = (case ob_side b of Long \<Rightarrow> f64_sub entry offset | Short \<Rightarrow> f64_add entry offset)
         in b\<lparr> ob_stop_loss := Some (make_leg price StopLoss) \<rparr>)
      else if \<not> enabled then b\<lparr> ob_stop_loss := None \<rparr> else b)"

definition apply_set_sl_enabled :: "bool \<Rightarrow> TickerState \<Rightarrow> outcome" where
  "apply_set_sl_enabled enabled s = edit_bracket (enable_sl enabled) [PersistDirty] s"

definition apply_set_quantity :: "f64 \<Rightarrow> TickerState \<Rightarrow> outcome" where
  "apply_set_quantity qty s = edit_bracket (\<lambda>b. b\<lparr> ob_quantity := Some qty \<rparr>) [] s"

definition apply_set_side :: "OrderSide \<Rightarrow> TickerState \<Rightarrow> outcome" where
  "apply_set_side side s =
     (let s = bump_gen (s\<lparr> ts_last_side := side \<rparr>) in
      case ts_live_bracket s of
        None \<Rightarrow> (s, [PersistDirty])
      | Some b \<Rightarrow>
          (let b = normalize_bracket (b\<lparr> ob_side := to_bracket_side side \<rparr>)
           in (with_bracket b s, [ProjectBracket b, PersistDirty])))"

definition entry_or_last :: "f64 \<Rightarrow> OrderBracket \<Rightarrow> OrderBracket" where
  "entry_or_last last_price b =
     (if f64_lt (f64_abs (leg_price (ob_entry b))) EPSILON
      then b\<lparr> ob_entry := set_leg_line_price last_price (ob_entry b) \<rparr> else b)"

definition retyped :: "EntryType \<Rightarrow> f64 \<Rightarrow> OrderBracket \<Rightarrow> OrderBracket" where
  "retyped entry_type last_price b =
     (let b = b\<lparr> ob_entry_type := entry_type, ob_wrong_side_warning := False \<rparr> in
      case entry_type of
        Market \<Rightarrow> b\<lparr> ob_entry := set_leg_line_price last_price (ob_entry b), ob_entry_stop_price := None \<rparr>
      | Limit \<Rightarrow> (entry_or_last last_price b)\<lparr> ob_entry_stop_price := None \<rparr>
      | Stop \<Rightarrow> (entry_or_last last_price b)\<lparr> ob_entry_stop_price := None \<rparr>
      | StopLimit \<Rightarrow>
          (let b = entry_or_last last_price b in
           if ob_entry_stop_price b = None then b\<lparr> ob_entry_stop_price := Some (leg_price (ob_entry b)) \<rparr> else b))"

definition apply_set_entry_type :: "EntryType \<Rightarrow> TickerState \<Rightarrow> outcome" where
  "apply_set_entry_type entry_type s =
     (let s = bump_gen (s\<lparr> ts_last_entry_type := entry_type \<rparr>) in
      case ts_live_bracket s of
        None \<Rightarrow> (s, [PersistDirty])
      | Some b \<Rightarrow>
          (let b = retyped entry_type (price_or_zero s) b
           in (with_bracket b s, [ProjectBracket b, PersistDirty])))"

text \<open>The profit a leg shows: \<open>sign * (price - entry) * qty\<close>, and in percent of the entry.\<close>

definition f64_minus_one :: f64 where "f64_minus_one = 13830554455654793216"

definition side_sign :: "BracketSide \<Rightarrow> f64" where
  "side_sign side = (case side of Long \<Rightarrow> f64_one | Short \<Rightarrow> f64_minus_one)"

definition with_pnl :: "BracketSide \<Rightarrow> f64 \<Rightarrow> f64 \<Rightarrow> BracketLeg \<Rightarrow> BracketLeg" where
  "with_pnl side entry_price qty l =
     (let gain = f64_mul (side_sign side) (f64_sub (leg_price l) entry_price) in
      l\<lparr> leg_projected_pnl := Some (f64_mul gain qty),
         leg_projected_pnl_pct :=
           (if f64_gt (f64_abs entry_price) EPSILON
            then Some (f64_mul (f64_div gain entry_price) f64_lit_100) else None) \<rparr>)"

definition drag_leg :: "LegRole \<Rightarrow> f64 \<Rightarrow> OrderBracket \<Rightarrow> OrderBracket" where
  "drag_leg role new_price b =
     (let qty = (case ob_quantity b of None \<Rightarrow> f64_zero | Some q \<Rightarrow> q);
          drag = (\<lambda>l. let l = set_leg_line_price new_price l in
                      if ob_status b = Active then with_pnl (ob_side b) (leg_price (ob_entry b)) qty l else l)
      in case role of
           Entry \<Rightarrow> b\<lparr> ob_entry := set_leg_line_price new_price (ob_entry b) \<rparr>
         | TakeProfit \<Rightarrow> b\<lparr> ob_take_profit := map_option drag (ob_take_profit b) \<rparr>
         | StopLoss \<Rightarrow> b\<lparr> ob_stop_loss := map_option drag (ob_stop_loss b) \<rparr>
         | StopTrigger \<Rightarrow> b\<lparr> ob_entry_stop_price := Some new_price \<rparr>)"

definition apply_drag_leg :: "LegRole \<Rightarrow> f64 \<Rightarrow> TickerState \<Rightarrow> outcome" where
  "apply_drag_leg role new_price s = edit_bracket (drag_leg role new_price) [] s"

section \<open>The field being edited\<close>

definition commit_value :: "EditingField \<Rightarrow> string \<Rightarrow> OrderBracket \<Rightarrow> OrderBracket" where
  "commit_value field val b =
     (case parse_f64 val of
        None \<Rightarrow> b
      | Some x \<Rightarrow>
          (case field of
             LimitPrice \<Rightarrow> set_leg Entry x b
           | StopPrice \<Rightarrow>
               (case ob_entry_type b of
                  Stop \<Rightarrow> set_leg Entry x b
                | StopLimit \<Rightarrow> set_leg StopTrigger x b
                | _ \<Rightarrow> b)
           | TpValue \<Rightarrow> set_leg TakeProfit x b
           | SlValue \<Rightarrow> set_leg StopLoss x b
           | SlLimitValue \<Rightarrow> b
           | QuantityField \<Rightarrow> b\<lparr> ob_quantity := Some x \<rparr>))"

definition apply_commit :: "EditingField \<Rightarrow> string \<Rightarrow> TickerState \<Rightarrow> outcome" where
  "apply_commit field val s =
     (case ts_live_bracket s of
        None \<Rightarrow> (s, [])
      | Some b \<Rightarrow>
          (let b = commit_value field val b in (with_bracket b s, [ProjectBracket b, PersistDirty])))"

definition stop_editing :: "TickerState \<Rightarrow> TickerState" where
  "stop_editing s = s\<lparr> ts_editing_field := None, ts_editing_value := None \<rparr>"

definition apply_begin_edit :: "EditingField \<Rightarrow> TickerState \<Rightarrow> outcome" where
  "apply_begin_edit field s =
     (let s = bump_gen s;
          (s, effects) =
            (case (ts_editing_field s, ts_editing_value s) of
               (Some current_field, Some val) \<Rightarrow>
                 if current_field \<noteq> field then apply_commit current_field val s else (s, [])
             | _ \<Rightarrow> (s, []))
      in (s\<lparr> ts_editing_field := Some field, ts_editing_value := None \<rparr>, effects))"

definition apply_update_edit_value :: "string \<Rightarrow> TickerState \<Rightarrow> outcome" where
  "apply_update_edit_value txt s = (s\<lparr> ts_editing_value := Some txt \<rparr>, [])"

definition apply_commit_edit :: "EditingField \<Rightarrow> string \<Rightarrow> TickerState \<Rightarrow> outcome" where
  "apply_commit_edit field val s =
     (case apply_commit field val (bump_gen s) of (s, effects) \<Rightarrow> (stop_editing s, effects))"

definition apply_cancel_edit :: "TickerState \<Rightarrow> outcome" where
  "apply_cancel_edit s = (stop_editing (bump_gen s), [])"

section \<open>The G-ATR rule\<close>

definition apply_toggle_pin :: "TickerState \<Rightarrow> outcome" where
  "apply_toggle_pin s = ((bump_gen s)\<lparr> ts_pinned := \<not> ts_pinned s \<rparr>, [PersistDirty])"

definition apply_undo_snap :: "Instant \<Rightarrow> TickerState \<Rightarrow> outcome" where
  "apply_undo_snap now s =
     (case ts_pre_snap s of
        Some (snap, taken) \<Rightarrow>
          if now - taken \<le> SNAP_UNDO_TTL then
            (let s = (bump_gen s)\<lparr> ts_entries := ps_entries snap, ts_gatr_anchor := ps_gatr_anchor snap \<rparr> in
             case ps_bracket snap of
               Some b \<Rightarrow> ((with_bracket b s)\<lparr> ts_pre_snap := None \<rparr>, [ProjectBracket b, PersistDirty])
             | None \<Rightarrow> (s\<lparr> ts_pre_snap := None \<rparr>, [PersistDirty]))
          else (s\<lparr> ts_pre_snap := None \<rparr>, [])
      | None \<Rightarrow> (s\<lparr> ts_pre_snap := None \<rparr>, []))"

text \<open>\<open>num_seconds\<close> of the time between two instants truncates.\<close>

definition num_seconds :: "int \<Rightarrow> int" where
  "num_seconds ns = (if 0 \<le> ns then ns div 1000000000 else - (- ns div 1000000000))"

definition entries_is_empty :: "Entries \<Rightarrow> bool" where
  "entries_is_empty es = list_all (\<lambda>k. es k = None) ALL_COMPOUND_KEYS"

text \<open>The guards of the rule in the order of the code: the G-ATR and the anchor of a snap that is due.\<close>

definition snap_due :: "int \<Rightarrow> f64 \<Rightarrow> f64 option \<Rightarrow> TickerState \<Rightarrow> (f64 \<times> f64) option" where
  "snap_due now current_price gatr_abs s =
     (if ts_pinned s then None
      else if num_seconds (now - ts_updated_at s) < RECENCY_GUARD_SECS then None
      else if \<not> f64_is_finite current_price then None
      else case gatr_abs of
        None \<Rightarrow> None
      | Some gatr \<Rightarrow>
          if \<not> (f64_is_finite gatr \<and> f64_gt gatr MIN_GATR_ABS) then None
          else case anchor_price (ts_gatr_anchor s) of
            None \<Rightarrow> None
          | Some p \<Rightarrow>
              if \<not> f64_is_finite p then None
              else if ts_live_bracket s = None \<and> entries_is_empty (ts_entries s) then None
              else if \<not> should_reposition p current_price (Some gatr) then None
              else Some (gatr, p))"

definition shift_memory :: "f64 \<Rightarrow> EntryMemory \<Rightarrow> EntryMemory" where
  "shift_memory delta m = m\<lparr> em_entry_price_or_offset := map_option (\<lambda>p. f64_add p delta) (em_entry_price_or_offset m) \<rparr>"

definition pre_snap_of :: "TickerState \<Rightarrow> PreSnapState" where
  "pre_snap_of s = \<lparr> ps_bracket = ts_live_bracket s, ps_entries = ts_entries s, ps_gatr_anchor = ts_gatr_anchor s \<rparr>"

definition apply_maybe_snap :: "TickerClock \<Rightarrow> f64 \<Rightarrow> f64 option \<Rightarrow> TickerState \<Rightarrow> outcome" where
  "apply_maybe_snap clock current_price gatr_abs s =
     (case snap_due (utc_now clock) current_price gatr_abs s of
        None \<Rightarrow> (s, [])
      | Some (gatr, p) \<Rightarrow>
          (let delta = f64_sub current_price p;
               s = (bump_gen s)\<lparr> ts_pre_snap := Some (pre_snap_of s, instant_now clock) \<rparr>;
               s = s\<lparr> ts_entries := (\<lambda>k. map_option (shift_memory delta) (ts_entries s k)) \<rparr>;
               s = s\<lparr> ts_gatr_anchor := \<lparr> anchor_price = Some current_price, anchor_gatr = Some gatr \<rparr> \<rparr>;
               (s, effects) =
                 (case ts_live_bracket s of
                    None \<Rightarrow> (s, [])
                  | Some b \<Rightarrow>
                      (let b = reposition_bracket current_price b in (with_bracket b s, [ProjectBracket b])))
           in (s, effects @ [Toast (ts_symbol s @ '' re-anchored'') (Some (UndoSnapOf (ts_symbol s))), PersistDirty])))"

definition apply_market_data :: "TickerClock \<Rightarrow> f64 \<Rightarrow> f64 option \<Rightarrow> TickerState \<Rightarrow> outcome" where
  "apply_market_data clock last_price gatr_abs s =
     (let s = s\<lparr> ts_last_price := Some last_price, ts_gatr_abs := gatr_abs \<rparr> in
      if ts_editing_field s \<noteq> None then (s, []) else apply_maybe_snap clock last_price gatr_abs s)"

section \<open>Levels\<close>

definition apply_add_level :: "StoredLevel \<Rightarrow> TickerState \<Rightarrow> outcome" where
  "apply_add_level level s =
     (let s = (bump_gen s)\<lparr> ts_levels := ts_levels s @ [level] \<rparr>
      in (s, [ProjectLevel (length (ts_levels s) - 1) level, PersistDirty]))"

definition apply_remove_level :: "nat \<Rightarrow> TickerState \<Rightarrow> outcome" where
  "apply_remove_level index s =
     (if index < length (ts_levels s)
      then ((bump_gen s)\<lparr> ts_levels := take index (ts_levels s) @ drop (Suc index) (ts_levels s) \<rparr>, [PersistDirty])
      else (s, []))"

definition apply_update_level :: "nat \<Rightarrow> StoredLevel \<Rightarrow> TickerState \<Rightarrow> outcome" where
  "apply_update_level index level s =
     (if index < length (ts_levels s)
      then ((bump_gen s)\<lparr> ts_levels := (ts_levels s)[index := level] \<rparr>, [ProjectLevel index level, PersistDirty])
      else (s, []))"

definition apply_toggle_level_lock :: "nat \<Rightarrow> TickerState \<Rightarrow> outcome" where
  "apply_toggle_level_lock index s =
     (if index < length (ts_levels s)
      then ((bump_gen s)\<lparr> ts_levels := (ts_levels s)[index :=
              (ts_levels s ! index)\<lparr> sl_locked := \<not> sl_locked (ts_levels s ! index) \<rparr>] \<rparr>, [PersistDirty])
      else (s, []))"

section \<open>What the broker reports\<close>

definition apply_submit_order :: "TickerState \<Rightarrow> outcome" where
  "apply_submit_order s =
     (case ts_live_bracket s of
        None \<Rightarrow> (s, [])
      | Some b \<Rightarrow>
          (let b = b\<lparr> ob_status := Pending \<rparr>
           in (with_bracket b (bump_gen s), [SubmitToBroker b, ProjectBracket b, PersistDirty])))"

definition apply_order_pending :: "Uuid \<Rightarrow> TickerState \<Rightarrow> outcome" where
  "apply_order_pending order_id s = edit_bracket (\<lambda>b. b) [] s"

definition filled_bracket :: "f64 \<Rightarrow> f64 \<Rightarrow> OrderBracket \<Rightarrow> OrderBracket" where
  "filled_bracket filled_qty avg_price b =
     (let b = b\<lparr> ob_status := Active, ob_filled_qty := Some filled_qty,
                 ob_entry := set_leg_line_price avg_price (ob_entry b) \<rparr>;
          qty = (case ob_quantity b of None \<Rightarrow> filled_qty | Some q \<Rightarrow> q)
      in b\<lparr> ob_take_profit := map_option (with_pnl (ob_side b) avg_price qty) (ob_take_profit b),
            ob_stop_loss := map_option (with_pnl (ob_side b) avg_price qty) (ob_stop_loss b) \<rparr>)"

definition apply_order_filled :: "f64 \<Rightarrow> f64 \<Rightarrow> TickerState \<Rightarrow> outcome" where
  "apply_order_filled filled_qty avg_price s =
     edit_bracket (filled_bracket filled_qty avg_price)
       [Toast (ts_symbol s @ '' filled '' @ fmt_display filled_qty @ '' @ '' @ fmt_2 avg_price) None, PersistDirty] s"

definition apply_order_partial_fill :: "f64 \<Rightarrow> TickerState \<Rightarrow> outcome" where
  "apply_order_partial_fill filled_qty s =
     edit_bracket (\<lambda>b. b\<lparr> ob_status := PartialFill, ob_filled_qty := Some filled_qty \<rparr>) [PersistDirty] s"

definition apply_order_rejected :: "string \<Rightarrow> TickerState \<Rightarrow> outcome" where
  "apply_order_rejected reason s =
     edit_bracket (\<lambda>b. b\<lparr> ob_status := Draft \<rparr>) [Toast (''Order rejected: '' @ reason) None] s"

definition apply_order_cancelled :: "TickerState \<Rightarrow> outcome" where
  "apply_order_cancelled s =
     edit_bracket (\<lambda>b. b\<lparr> ob_status := Draft \<rparr>)
       [Toast (ts_symbol s @ '' bracket cancelled'') None, PersistDirty] s"

definition apply_save_camera :: "f64 \<Rightarrow> f64 \<Rightarrow> f64 \<Rightarrow> f64 \<Rightarrow> bool \<Rightarrow> TickerState \<Rightarrow> outcome" where
  "apply_save_camera time_start time_end price_low price_high was_at_live_edge s =
     (bump_gen (s\<lparr> ts_camera_time_start := Some time_start, ts_camera_time_end := Some time_end,
         ts_camera_price_low := Some price_low, ts_camera_price_high := Some price_high,
         ts_camera_was_at_live_edge := was_at_live_edge \<rparr>), [PersistDirty])"

section \<open>The reducer\<close>

definition set_session :: "(TickerSessionFlags \<Rightarrow> TickerSessionFlags) \<Rightarrow> TickerState \<Rightarrow> outcome" where
  "set_session f s = (s\<lparr> ts_session := f (ts_session s) \<rparr>, [])"

fun ticker_apply :: "TickerClock \<Rightarrow> TickerMsg \<Rightarrow> TickerState \<Rightarrow> outcome" where
  "ticker_apply clock (SetBracketMode mode) s = apply_set_bracket_mode mode s"
| "ticker_apply clock (EnsureDraftBracket side entry_type) s = apply_ensure_draft side entry_type s"
| "ticker_apply clock CancelBracket s = apply_cancel_bracket s"
| "ticker_apply clock SaveBracket s = apply_save_bracket s"
| "ticker_apply clock DeleteBracket s = apply_delete_bracket s"
| "ticker_apply clock RecallBracket s = apply_recall_bracket s"
| "ticker_apply clock (SetLegPrice role price) s = apply_set_leg_price role price s"
| "ticker_apply clock (SetTpEnabled enabled) s = apply_set_tp_enabled enabled s"
| "ticker_apply clock (SetSlEnabled enabled) s = apply_set_sl_enabled enabled s"
| "ticker_apply clock (SetQuantity qty) s = apply_set_quantity qty s"
| "ticker_apply clock (SetSide side) s = apply_set_side side s"
| "ticker_apply clock (SetEntryType entry_type) s = apply_set_entry_type entry_type s"
| "ticker_apply clock (DragLeg role new_price) s = apply_drag_leg role new_price s"
| "ticker_apply clock (BeginEdit field) s = apply_begin_edit field s"
| "ticker_apply clock (UpdateEditValue txt) s = apply_update_edit_value txt s"
| "ticker_apply clock (CommitEdit field val) s = apply_commit_edit field val s"
| "ticker_apply clock CancelEdit s = apply_cancel_edit s"
| "ticker_apply clock (MaybeSnap price gatr) s = apply_maybe_snap clock price gatr s"
| "ticker_apply clock TogglePin s = apply_toggle_pin s"
| "ticker_apply clock UndoSnap s = apply_undo_snap (instant_now clock) s"
| "ticker_apply clock (UpdateMarketData price gatr) s = apply_market_data clock price gatr s"
| "ticker_apply clock (AddLevel level) s = apply_add_level level s"
| "ticker_apply clock (RemoveLevel index) s = apply_remove_level index s"
| "ticker_apply clock (UpdateLevel index level) s = apply_update_level index level s"
| "ticker_apply clock (ToggleLevelLock index) s = apply_toggle_level_lock index s"
| "ticker_apply clock SubmitOrder s = apply_submit_order s"
| "ticker_apply clock (OrderPending order_id) s = apply_order_pending order_id s"
| "ticker_apply clock (OrderFilled qty price) s = apply_order_filled qty price s"
| "ticker_apply clock (OrderPartialFill qty) s = apply_order_partial_fill qty s"
| "ticker_apply clock (OrderRejected reason) s = apply_order_rejected reason s"
| "ticker_apply clock OrderCancelled s = apply_order_cancelled s"
| "ticker_apply clock (SaveCameraState t0 t1 low high edge) s = apply_save_camera t0 t1 low high edge s"
| "ticker_apply clock MarkSnappedThisSession s = set_session (\<lambda>f. f\<lparr> fl_snapped := True \<rparr>) s"
| "ticker_apply clock MarkAnchorSeedToastShown s = set_session (\<lambda>f. f\<lparr> fl_anchor_seed_toast_shown := True \<rparr>) s"
| "ticker_apply clock (StoreGatrUndo snap) s = set_session (\<lambda>f. f\<lparr> fl_gatr_undo := Some snap \<rparr>) s"
| "ticker_apply clock ClearGatrUndo s = set_session (\<lambda>f. f\<lparr> fl_gatr_undo := None \<rparr>) s"
| "ticker_apply clock (Hydrated st) s = (s, [])"

end
