(* ===== verification/Order_Bracket.thy ===== *)
theory Order_Bracket imports Order_Types begin

text \<open>
  Brackets, \<open>crates/midas-broker/src/orders/bracket/mod.rs\<close>: the parameters of a bracket and
  their validation, the group of its up to three legs, and the lifecycle status derived from the
  statuses of the legs.
\<close>

section \<open>Parameters\<close>

record TakeProfitParams =
  tp_price :: f64
  tp_tif :: "TimeInForce option"

record StopLossParams =
  sl_stop_price :: f64
  sl_limit_price :: "f64 option"
  sl_tif :: "TimeInForce option"

record BracketParams =
  bp_symbol :: string
  bp_con_id :: "i32 option"
  bp_sec_type :: SecurityType
  bp_exchange :: string
  bp_currency :: string
  bp_action :: OrderAction
  bp_quantity :: f64
  bp_outside_rth :: bool
  bp_entry_kind :: OrderKind
  bp_entry_price :: "f64 option"
  bp_entry_stop_price :: "f64 option"
  bp_take_profit :: "TakeProfitParams option"
  bp_stop_loss :: "StopLossParams option"
  bp_reference_price :: "f64 option"
  bp_strategy :: "string option"
  bp_tags :: "string list"

section \<open>Validation\<close>

datatype ValidationError =
    MissingSymbol | MissingExchange | MissingCurrency | InvalidQuantity | InvalidPrice string

text \<open>\<open>p.is_finite() && p > 0.0\<close>, the test the code repeats for every price.\<close>

definition positive_finite :: "f64 \<Rightarrow> bool" where
  "positive_finite p = (f64_is_finite p \<and> f64_gt p f64_zero)"

text \<open>\<open>opt.is_none_or(|p| !(p.is_finite() && p > 0.0))\<close>\<close>

definition price_missing_or_bad :: "f64 option \<Rightarrow> bool" where
  "price_missing_or_bad p = (case p of None \<Rightarrow> True | Some x \<Rightarrow> \<not> positive_finite x)"

definition push_if :: "bool \<Rightarrow> 'e \<Rightarrow> 'e list \<Rightarrow> 'e list" where
  "push_if b e es = (if b then es @ [e] else es)"

definition validate_entry :: "BracketParams \<Rightarrow> ValidationError list \<Rightarrow> ValidationError list" where
  "validate_entry p es = (case bp_entry_kind p of
      Limit \<Rightarrow> push_if (price_missing_or_bad (bp_entry_price p)) (InvalidPrice ''entry_limit'') es
    | Stop \<Rightarrow> push_if (price_missing_or_bad (bp_entry_stop_price p)) (InvalidPrice ''entry_stop'') es
    | StopLimit \<Rightarrow>
        push_if (price_missing_or_bad (bp_entry_stop_price p)) (InvalidPrice ''entry_stop'')
          (push_if (price_missing_or_bad (bp_entry_price p)) (InvalidPrice ''entry_limit'') es)
    | Market \<Rightarrow> es
    | TrailingStop \<Rightarrow> es)"

definition bracket_errors :: "BracketParams \<Rightarrow> ValidationError list" where
  "bracket_errors p =
    (let es = [];
         es = push_if (bp_symbol p = []) MissingSymbol es;
         es = push_if (bp_exchange p = []) MissingExchange es;
         es = push_if (bp_currency p = []) MissingCurrency es;
         es = push_if (\<not> positive_finite (bp_quantity p)) InvalidQuantity es;
         es = (case bp_take_profit p of None \<Rightarrow> es
               | Some tp \<Rightarrow> push_if (\<not> positive_finite (tp_price tp)) (InvalidPrice ''take_profit'') es);
         es = (case bp_stop_loss p of None \<Rightarrow> es
               | Some sl \<Rightarrow>
                   (let es = push_if (\<not> positive_finite (sl_stop_price sl)) (InvalidPrice ''stop_loss'') es
                    in case sl_limit_price sl of None \<Rightarrow> es
                       | Some l \<Rightarrow> push_if (\<not> positive_finite l) (InvalidPrice ''stop_loss_limit'') es))
     in validate_entry p es)"

definition validate_bracket :: "BracketParams \<Rightarrow> (unit, ValidationError list) rust_result" where
  "validate_bracket p =
    (let errors = bracket_errors p in if errors = [] then Ok () else Err errors)"

section \<open>Direction of the exits\<close>

datatype DirectionWarning =
    TpBelowReference f64 f64 | TpAboveReference f64 f64
  | SlAboveReference f64 f64 | SlBelowReference f64 f64

definition check_bracket_direction ::
  "OrderAction \<Rightarrow> f64 \<Rightarrow> f64 option \<Rightarrow> f64 option \<Rightarrow> DirectionWarning list" where
  "check_bracket_direction action reference tp_opt sl_opt =
    (case action of
      Buy \<Rightarrow>
        (case tp_opt of None \<Rightarrow> []
         | Some tp \<Rightarrow> if f64_le tp reference then [TpBelowReference tp reference] else [])
        @ (case sl_opt of None \<Rightarrow> []
         | Some sl \<Rightarrow> if f64_ge sl reference then [SlAboveReference sl reference] else [])
    | Sell \<Rightarrow>
        (case tp_opt of None \<Rightarrow> []
         | Some tp \<Rightarrow> if f64_ge tp reference then [TpAboveReference tp reference] else [])
        @ (case sl_opt of None \<Rightarrow> []
         | Some sl \<Rightarrow> if f64_le sl reference then [SlBelowReference sl reference] else []))"

section \<open>The group of legs and its lifecycle\<close>

record BracketGroup =
  bg_parent :: LocalOrder
  bg_take_profit :: "LocalOrder option"
  bg_stop_loss :: "LocalOrder option"

definition legs :: "BracketGroup \<Rightarrow> LocalOrder list" where
  "legs g = [bg_parent g]
     @ (case bg_take_profit g of None \<Rightarrow> [] | Some tp \<Rightarrow> [tp])
     @ (case bg_stop_loss g of None \<Rightarrow> [] | Some sl \<Rightarrow> [sl])"

definition group_can_activate :: "BracketGroup \<Rightarrow> bool" where
  "group_can_activate g = list_all (\<lambda>o'. can_activate (lo_status o')) (legs g)"

definition group_is_active :: "BracketGroup \<Rightarrow> bool" where
  "group_is_active g = (lo_status (bg_parent g) = Filled)"

definition group_is_closed :: "BracketGroup \<Rightarrow> bool" where
  "group_is_closed g = list_all (\<lambda>o'. is_terminal (lo_status o')) (legs g)"

datatype BracketLifecycleStatus =
    BSubmitted | EntryFilled | TakeProfitHit | StopLossHit | BCancelled | BRejected | BError | Closed

definition bracket_is_terminal :: "BracketLifecycleStatus \<Rightarrow> bool" where
  "bracket_is_terminal s = (case s of TakeProfitHit \<Rightarrow> True | StopLossHit \<Rightarrow> True
     | BCancelled \<Rightarrow> True | BRejected \<Rightarrow> True | BError \<Rightarrow> True | Closed \<Rightarrow> True | _ \<Rightarrow> False)"

fun BracketLifecycleStatus_to_string :: "BracketLifecycleStatus \<Rightarrow> string" where
  "BracketLifecycleStatus_to_string BSubmitted = ''Submitted''"
| "BracketLifecycleStatus_to_string EntryFilled = ''EntryFilled''"
| "BracketLifecycleStatus_to_string TakeProfitHit = ''TakeProfitHit''"
| "BracketLifecycleStatus_to_string StopLossHit = ''StopLossHit''"
| "BracketLifecycleStatus_to_string BCancelled = ''Cancelled''"
| "BracketLifecycleStatus_to_string BRejected = ''Rejected''"
| "BracketLifecycleStatus_to_string BError = ''Error''"
| "BracketLifecycleStatus_to_string Closed = ''Closed''"

definition BracketLifecycleStatus_from_str ::
  "string \<Rightarrow> (BracketLifecycleStatus, string) rust_result" where
  "BracketLifecycleStatus_from_str s =
     (if s = ''Submitted'' then Ok BSubmitted
      else if s = ''EntryFilled'' then Ok EntryFilled
      else if s = ''TakeProfitHit'' then Ok TakeProfitHit
      else if s = ''StopLossHit'' then Ok StopLossHit
      else if s = ''Cancelled'' then Ok BCancelled
      else if s = ''Rejected'' then Ok BRejected
      else if s = ''Error'' then Ok BError
      else if s = ''Closed'' then Ok Closed
      else Err (''unknown BracketLifecycleStatus: '' @ s))"

definition child_has :: "OrderStatus \<Rightarrow> LocalOrder option \<Rightarrow> bool" where
  "child_has s c = (case c of None \<Rightarrow> False | Some o' \<Rightarrow> lo_status o' = s)"

definition derive_bracket_status :: "BracketGroup \<Rightarrow> BracketLifecycleStatus" where
  "derive_bracket_status g =
    (let parent = lo_status (bg_parent g) in
     if parent = Cancelled then BCancelled
     else if parent = Rejected then BRejected
     else if parent = ErrorSt then BError
     else if \<not> is_terminal parent then BSubmitted
     else if parent \<noteq> Filled then Closed
     else if child_has ErrorSt (bg_take_profit g) \<or> child_has ErrorSt (bg_stop_loss g) then BError
     else if child_has Filled (bg_take_profit g) then TakeProfitHit
     else if child_has Filled (bg_stop_loss g) then StopLossHit
     else if list_ex (\<lambda>o'. is_live_at_ib (lo_status o')) (legs g) then EntryFilled
     else Closed)"

section \<open>What validation promises\<close>

text \<open>
  The rule each error stands for, stated field by field and independently of the order in which
  the code looks.
\<close>

definition bad_price :: "f64 option \<Rightarrow> bool" where
  "bad_price p = (\<exists>x. p = Some x \<and> \<not> positive_finite x)"

fun violates :: "BracketParams \<Rightarrow> ValidationError \<Rightarrow> bool" where
  "violates p MissingSymbol = (bp_symbol p = [])"
| "violates p MissingExchange = (bp_exchange p = [])"
| "violates p MissingCurrency = (bp_currency p = [])"
| "violates p InvalidQuantity = (\<not> positive_finite (bp_quantity p))"
| "violates p (InvalidPrice f) =
     (f = ''take_profit'' \<and> bad_price (map_option tp_price (bp_take_profit p))
      \<or> f = ''stop_loss'' \<and> bad_price (map_option sl_stop_price (bp_stop_loss p))
      \<or> f = ''stop_loss_limit'' \<and> bad_price (Option.bind (bp_stop_loss p) sl_limit_price)
      \<or> f = ''entry_limit'' \<and> bp_entry_kind p \<in> {Limit, StopLimit}
          \<and> (bp_entry_price p = None \<or> bad_price (bp_entry_price p))
      \<or> f = ''entry_stop'' \<and> bp_entry_kind p \<in> {Stop, StopLimit}
          \<and> (bp_entry_stop_price p = None \<or> bad_price (bp_entry_stop_price p)))"

lemma set_push_if [simp]: "x \<in> set (push_if b e es) \<longleftrightarrow> x \<in> set es \<or> b \<and> x = e"
  by (auto simp: push_if_def)

lemma distinct_push_if [simp]:
  "distinct (push_if b e es) \<longleftrightarrow> distinct es \<and> (b \<longrightarrow> e \<notin> set es)"
  by (auto simp: push_if_def)

lemma price_missing_or_bad_iff: "price_missing_or_bad p \<longleftrightarrow> p = None \<or> bad_price p"
  by (cases p) (simp_all add: price_missing_or_bad_def bad_price_def)

lemma bad_price_simps [simp]: "\<not> bad_price None" "bad_price (Some x) \<longleftrightarrow> \<not> positive_finite x"
  by (simp_all add: bad_price_def)

lemma validate_entry_set:
  "e \<in> set (validate_entry p es) \<longleftrightarrow> e \<in> set es
     \<or> e = InvalidPrice ''entry_limit'' \<and> bp_entry_kind p \<in> {Limit, StopLimit}
         \<and> price_missing_or_bad (bp_entry_price p)
     \<or> e = InvalidPrice ''entry_stop'' \<and> bp_entry_kind p \<in> {Stop, StopLimit}
         \<and> price_missing_or_bad (bp_entry_stop_price p)"
  by (cases "bp_entry_kind p") (auto simp: validate_entry_def)

lemma distinct_validate_entry:
  "distinct (validate_entry p es)" if "distinct es"
    "InvalidPrice ''entry_limit'' \<notin> set es" "InvalidPrice ''entry_stop'' \<notin> set es"
  using that by (cases "bp_entry_kind p") (auto simp: validate_entry_def)

lemma set_bracket_errors: "set (bracket_errors p) = {e. violates p e}"
proof (rule set_eqI)
  fix e
  show "e \<in> set (bracket_errors p) \<longleftrightarrow> e \<in> {e. violates p e}"
    by (cases e) (auto simp: bracket_errors_def Let_def validate_entry_set
        price_missing_or_bad_iff split: option.splits)
qed

lemma distinct_bracket_errors: "distinct (bracket_errors p)"
  unfolding bracket_errors_def Let_def
  by (rule distinct_validate_entry) (auto split: option.splits)

text \<open>
  C40: \<open>validate_bracket\<close> accepts exactly the parameters that break no rule, and a rejection
  lists every broken rule, once each, and no other.
\<close>

theorem validate_bracket_exact:
  "(validate_bracket p = Ok () \<longleftrightarrow> (\<forall>e. \<not> violates p e))
   \<and> (validate_bracket p = Err es \<longrightarrow> set es = {e. violates p e} \<and> distinct es \<and> es \<noteq> [])"
proof -
  have "bracket_errors p = [] \<longleftrightarrow> (\<forall>e. \<not> violates p e)"
    using set_bracket_errors [of p] by (metis (mono_tags) empty_Collect_eq set_empty)
  then show ?thesis
    using set_bracket_errors [of p] distinct_bracket_errors [of p]
    by (auto simp: validate_bracket_def Let_def)
qed

definition sample_params :: BracketParams where
  "sample_params = \<lparr> bp_symbol = ''AAPL'', bp_con_id = None, bp_sec_type = Stock,
     bp_exchange = ''SMART'', bp_currency = [], bp_action = Buy, bp_quantity = f64_nan,
     bp_outside_rth = False, bp_entry_kind = StopLimit, bp_entry_price = Some f64_one,
     bp_entry_stop_price = None,
     bp_take_profit = Some \<lparr> tp_price = f64_two, tp_tif = None \<rparr>,
     bp_stop_loss = Some \<lparr> sl_stop_price = f64_zero, sl_limit_price = None, sl_tif = None \<rparr>,
     bp_reference_price = None, bp_strategy = None, bp_tags = [] \<rparr>"

theorem validate_bracket_exact_witness:
  "validate_bracket sample_params =
     Err [MissingCurrency, InvalidQuantity, InvalidPrice ''stop_loss'', InvalidPrice ''entry_stop'']
   \<and> violates sample_params InvalidQuantity"
proof -
  let ?es = "[MissingCurrency, InvalidQuantity, InvalidPrice ''stop_loss'', InvalidPrice ''entry_stop'']"
  have h: "validate_bracket sample_params = Err ?es"
    by (simp add: validate_bracket_def bracket_errors_def sample_params_def push_if_def
        validate_entry_def price_missing_or_bad_def positive_finite_def f64_defs f64_consts)
  then have "set ?es = {e. violates sample_params e}"
    using validate_bracket_exact [of sample_params ?es] by blast
  moreover have "InvalidQuantity \<in> set ?es" by simp
  ultimately have "violates sample_params InvalidQuantity" by blast
  with h show ?thesis by blast
qed

text \<open>
  the direction check is quiet exactly when each exit that is set lies strictly on its own
  side of the reference price: the take-profit above and the stop below for a buy, the reverse
  for a sell. That reading needs prices that are numbers; a NaN reference silences the check.
\<close>

lemma bracket_direction_exact:
  assumes "\<not> f64_is_nan r" "\<not> f64_is_nan t" "\<not> f64_is_nan s" "f64_is_nan q"
  shows "(check_bracket_direction Buy r (Some t) (Some s) = [] \<longleftrightarrow> f64_lt r t \<and> f64_lt s r)
    \<and> (check_bracket_direction Sell r (Some t) (Some s) = [] \<longleftrightarrow> f64_lt t r \<and> f64_lt r s)
    \<and> check_bracket_direction a q tp sl = []"
proof (intro conjI)
  show "check_bracket_direction Buy r (Some t) (Some s) = [] \<longleftrightarrow> f64_lt r t \<and> f64_lt s r"
    "check_bracket_direction Sell r (Some t) (Some s) = [] \<longleftrightarrow> f64_lt t r \<and> f64_lt r s"
    using assms(1-3) by (simp_all add: check_bracket_direction_def f64_le_iff_not_lt)
  show "check_bracket_direction a q tp sl = []"
    using assms(4)
    by (cases a; cases tp; cases sl) (simp_all add: check_bracket_direction_def f64_nan_incomparable)
qed

lemma bracket_direction_exact_witness:
  "check_bracket_direction Sell f64_one (Some f64_zero) (Some f64_two) = []
   \<and> check_bracket_direction Buy f64_one (Some f64_zero) (Some f64_two) \<noteq> []
   \<and> check_bracket_direction Buy f64_nan (Some f64_zero) (Some f64_two) = []"
proof -
  have nan: "\<not> f64_is_nan f64_one" "\<not> f64_is_nan f64_zero" "\<not> f64_is_nan f64_two" "f64_is_nan f64_nan"
    by (simp_all add: f64_const_facts f64_finite_not_nan)
  show ?thesis
    using bracket_direction_exact [OF nan, of Buy "Some f64_zero" "Some f64_two"]
      f64_const_facts f64_lt_asym by blast
qed

section \<open>The derived lifecycle\<close>

definition child_statuses :: "BracketGroup \<Rightarrow> OrderStatus set" where
  "child_statuses g = lo_status ` (set_option (bg_take_profit g) \<union> set_option (bg_stop_loss g))"

lemma legs_statuses: "lo_status ` set (legs g) = insert (lo_status (bg_parent g)) (child_statuses g)"
  by (auto simp: legs_def child_statuses_def split: option.splits)

lemma child_has_iff:
  "child_has s (bg_take_profit g) \<or> child_has s (bg_stop_loss g) \<longleftrightarrow> s \<in> child_statuses g"
  by (auto simp: child_has_def child_statuses_def split: option.splits)

lemma list_ex_legs: "list_ex (\<lambda>o'. P (lo_status o')) (legs g) \<longleftrightarrow>
    P (lo_status (bg_parent g)) \<or> (\<exists>s\<in>child_statuses g. P s)"
  by (auto simp: legs_def child_statuses_def split: option.splits)

lemma derive_when_filled:
  assumes "lo_status (bg_parent g) = Filled"
  shows "derive_bracket_status g =
    (if ErrorSt \<in> child_statuses g then BError
     else if child_has Filled (bg_take_profit g) then TakeProfitHit
     else if child_has Filled (bg_stop_loss g) then StopLossHit
     else if \<exists>s\<in>child_statuses g. is_live_at_ib s then EntryFilled
     else Closed)"
  using assms
  by (simp add: derive_bracket_status_def child_has_iff list_ex_legs is_terminal_def is_live_at_ib_def)

lemma derive_when_not_filled:
  assumes "lo_status (bg_parent g) \<noteq> Filled"
  shows "derive_bracket_status g =
    (case lo_status (bg_parent g) of Cancelled \<Rightarrow> BCancelled | Rejected \<Rightarrow> BRejected
       | ErrorSt \<Rightarrow> BError | _ \<Rightarrow> BSubmitted)"
  using assms
  by (cases "lo_status (bg_parent g)") (simp_all add: derive_bracket_status_def is_terminal_def)

lemma derive_cancelled_iff:
  "derive_bracket_status g = BCancelled \<longleftrightarrow> lo_status (bg_parent g) = Cancelled"
  by (cases "lo_status (bg_parent g)") (simp_all add: derive_bracket_status_def is_terminal_def)

lemma derive_rejected_iff:
  "derive_bracket_status g = BRejected \<longleftrightarrow> lo_status (bg_parent g) = Rejected"
  by (cases "lo_status (bg_parent g)") (simp_all add: derive_bracket_status_def is_terminal_def)

text \<open>
  what each derived status says of the legs. Before the parent fills the bracket mirrors the
  parent alone; once it has filled an error in a child wins over a fill, a filled take-profit
  over a filled stop, and \<open>EntryFilled\<close> means some exit is still working. The fallback branch for
  a terminal parent that is not filled is never reached.
\<close>

lemma derive_bracket_status_table:
  "(derive_bracket_status g = BCancelled \<longleftrightarrow> lo_status (bg_parent g) = Cancelled)
   \<and> (derive_bracket_status g = BRejected \<longleftrightarrow> lo_status (bg_parent g) = Rejected)
   \<and> (derive_bracket_status g = BSubmitted \<longleftrightarrow>
        lo_status (bg_parent g) \<noteq> ErrorSt \<and> \<not> is_terminal (lo_status (bg_parent g)))
   \<and> (derive_bracket_status g = BError \<longleftrightarrow> lo_status (bg_parent g) = ErrorSt
        \<or> group_is_active g \<and> ErrorSt \<in> child_statuses g)
   \<and> (derive_bracket_status g = TakeProfitHit \<longleftrightarrow> group_is_active g \<and> ErrorSt \<notin> child_statuses g
        \<and> child_has Filled (bg_take_profit g))
   \<and> (derive_bracket_status g = StopLossHit \<longleftrightarrow> group_is_active g \<and> ErrorSt \<notin> child_statuses g
        \<and> \<not> child_has Filled (bg_take_profit g) \<and> child_has Filled (bg_stop_loss g))
   \<and> (derive_bracket_status g = EntryFilled \<longleftrightarrow> group_is_active g \<and> Filled \<notin> child_statuses g
        \<and> ErrorSt \<notin> child_statuses g \<and> (\<exists>s\<in>child_statuses g. is_live_at_ib s))
   \<and> (derive_bracket_status g = Closed \<longleftrightarrow> group_is_active g
        \<and> child_statuses g \<subseteq> {Draft, Inactive, Cancelled, Rejected})"
proof (cases "lo_status (bg_parent g) = Filled")
  case True
  have live: "(\<exists>s\<in>S. is_live_at_ib s) \<longleftrightarrow> \<not> S \<subseteq> {Draft, Inactive, Cancelled, Rejected, Filled, ErrorSt}"
    for S by (auto simp: is_live_at_ib_def split: OrderStatus.splits)
  show ?thesis
    using child_has_iff [of Filled g] True
    by (auto simp: derive_when_filled [OF True] group_is_active_def is_terminal_def live)
next
  case False
  then show ?thesis
    by (cases "lo_status (bg_parent g)")
      (simp_all add: derive_when_not_filled group_is_active_def is_terminal_def)
qed

section \<open>How the derived status moves\<close>

text \<open>One leg of the bracket makes a legal status change; the others stay.\<close>

inductive bracket_step :: "BracketGroup \<Rightarrow> BracketGroup \<Rightarrow> bool" where
  parent_moves: "validate_transition (lo_status (bg_parent g)) t = Ok () \<Longrightarrow>
     bracket_step g (g\<lparr>bg_parent := (bg_parent g)\<lparr>lo_status := t\<rparr>\<rparr>)"
| take_profit_moves: "bg_take_profit g = Some c \<Longrightarrow> validate_transition (lo_status c) t = Ok () \<Longrightarrow>
     bracket_step g (g\<lparr>bg_take_profit := Some (c\<lparr>lo_status := t\<rparr>)\<rparr>)"
| stop_loss_moves: "bg_stop_loss g = Some c \<Longrightarrow> validate_transition (lo_status c) t = Ok () \<Longrightarrow>
     bracket_step g (g\<lparr>bg_stop_loss := Some (c\<lparr>lo_status := t\<rparr>)\<rparr>)"

inductive bracket_run :: "BracketGroup \<Rightarrow> BracketGroup \<Rightarrow> bool" where
  run_start: "bracket_run g g"
| run_step: "bracket_run g h \<Longrightarrow> bracket_step h k \<Longrightarrow> bracket_run g k"

lemma bracket_step_parent:
  assumes "bracket_step g h"
  shows "lo_status (bg_parent h) = lo_status (bg_parent g)
    \<or> status_step (lo_status (bg_parent g)) (lo_status (bg_parent h))"
  using assms by cases (auto simp: status_step_iff)

text \<open>A terminal parent never moves again, in any interleaving of the legs.\<close>

lemma bracket_run_terminal_parent:
  assumes "bracket_run g h" "is_terminal (lo_status (bg_parent g))"
  shows "lo_status (bg_parent h) = lo_status (bg_parent g)"
  using assms
proof (induction rule: bracket_run.induct)
  case (run_start g)
  show ?case by simp
next
  case (run_step g h k)
  then have "is_terminal (lo_status (bg_parent h))" by simp
  then have "\<not> status_step (lo_status (bg_parent h)) t" for t
    by (simp add: status_step_iff terminal_no_step)
  with run_step bracket_step_parent [of h k] show ?case by auto
qed

text \<open>
  what the derived status never takes back. However the legs' updates interleave, a cancelled
  or rejected bracket stays so, and once the entry has filled the bracket never again reads as
  submitted, cancelled or rejected.
\<close>

lemma bracket_status_stable:
  assumes "bracket_run g h"
  shows "(derive_bracket_status g = BCancelled \<longrightarrow> derive_bracket_status h = BCancelled)
    \<and> (derive_bracket_status g = BRejected \<longrightarrow> derive_bracket_status h = BRejected)
    \<and> (group_is_active g \<longrightarrow> group_is_active h
        \<and> derive_bracket_status h \<in> {EntryFilled, TakeProfitHit, StopLossHit, BError, Closed})"
proof -
  have parent: "lo_status (bg_parent h) = lo_status (bg_parent g)"
    if "lo_status (bg_parent g) \<in> {Cancelled, Rejected, Filled}"
    using that bracket_run_terminal_parent [OF assms] by (auto simp: is_terminal_def)
  show ?thesis
  proof (intro conjI impI)
    assume "derive_bracket_status g = BCancelled"
    with parent show "derive_bracket_status h = BCancelled" by (simp add: derive_cancelled_iff)
  next
    assume "derive_bracket_status g = BRejected"
    with parent show "derive_bracket_status h = BRejected" by (simp add: derive_rejected_iff)
  next
    assume "group_is_active g"
    with parent show "group_is_active h" by (simp add: group_is_active_def)
    then show "derive_bracket_status h \<in> {EntryFilled, TakeProfitHit, StopLossHit, BError, Closed}"
      by (simp add: group_is_active_def derive_when_filled)
  qed
qed

definition leg :: "Uuid \<Rightarrow> OrderStatus \<Rightarrow> LocalOrder" where
  "leg i s = (new_draft i 0 ''AAPL'' Buy Limit f64_one)\<lparr>lo_status := s\<rparr>"

lemma leg_status [simp]: "lo_status (leg i s) = s"
  by (simp add: leg_def)

definition group_of :: "OrderStatus \<Rightarrow> OrderStatus \<Rightarrow> OrderStatus \<Rightarrow> BracketGroup" where
  "group_of p t s = \<lparr>bg_parent = leg 1 p, bg_take_profit = Some (leg 2 t), bg_stop_loss = Some (leg 3 s)\<rparr>"

lemma leg_update [simp]: "(leg i s)\<lparr>lo_status := t\<rparr> = leg i t"
  by (simp add: leg_def)

lemma bracket_step_group_of:
  "is_ok (validate_transition p p') \<Longrightarrow> bracket_step (group_of p t s) (group_of p' t s)"
  "is_ok (validate_transition t t') \<Longrightarrow> bracket_step (group_of p t s) (group_of p t' s)"
  "is_ok (validate_transition s s') \<Longrightarrow> bracket_step (group_of p t s) (group_of p t s')"
  using parent_moves [of "group_of p t s" p'] take_profit_moves [of "group_of p t s" "leg 2 t" t']
    stop_loss_moves [of "group_of p t s" "leg 3 s" s']
  by (auto simp: group_of_def elim!: is_okE)

lemma bracket_status_stable_witness:
  "bracket_run (group_of Filled Submitted Submitted) (group_of Filled Filled Submitted)
   \<and> derive_bracket_status (group_of Filled Filled Submitted) = TakeProfitHit
   \<and> group_is_active (group_of Filled Filled Submitted)"
proof -
  have run: "bracket_run (group_of Filled Submitted Submitted) (group_of Filled Filled Submitted)"
    by (rule run_step [OF run_start bracket_step_group_of(2)])
      (simp add: validate_transition_def transition_targets_def)
  show ?thesis
    using run bracket_status_stable [OF run]
    by (simp add: group_of_def group_is_active_def derive_bracket_status_def child_has_def is_terminal_def)
qed

text \<open>
  \<open>BracketLifecycleStatus::is_terminal\<close> promises a final state that never changes again,
  but two of its members can change: a bracket whose parent failed locally (\<open>Error\<close>) reads
  \<open>Submitted\<close> after the legal retry \<open>Error -> PendingSubmit\<close>, and a bracket whose take-profit has
  filled reads \<open>Error\<close> when the pending stop then fails locally.
\<close>

lemma terminal_bracket_status_can_change:
  "(\<exists>g h. bracket_step g h \<and> bracket_is_terminal (derive_bracket_status g)
      \<and> derive_bracket_status g = BError \<and> derive_bracket_status h = BSubmitted)
   \<and> (\<exists>g h. bracket_step g h \<and> bracket_is_terminal (derive_bracket_status g)
      \<and> derive_bracket_status g = TakeProfitHit \<and> derive_bracket_status h = BError)"
proof
  have "bracket_step (group_of ErrorSt Inactive Inactive) (group_of PendingSubmit Inactive Inactive)"
    by (rule bracket_step_group_of(1)) (simp add: validate_transition_def transition_targets_def)
  moreover have "derive_bracket_status (group_of ErrorSt Inactive Inactive) = BError"
    "derive_bracket_status (group_of PendingSubmit Inactive Inactive) = BSubmitted"
    by (simp_all add: group_of_def derive_bracket_status_def is_terminal_def)
  ultimately show "\<exists>g h. bracket_step g h \<and> bracket_is_terminal (derive_bracket_status g)
      \<and> derive_bracket_status g = BError \<and> derive_bracket_status h = BSubmitted"
    by (intro exI conjI) (auto simp: bracket_is_terminal_def)
next
  have "bracket_step (group_of Filled Filled PendingSubmit) (group_of Filled Filled ErrorSt)"
    by (rule bracket_step_group_of(3)) (simp add: validate_transition_def transition_targets_def)
  moreover have "derive_bracket_status (group_of Filled Filled PendingSubmit) = TakeProfitHit"
    "derive_bracket_status (group_of Filled Filled ErrorSt) = BError"
    by (simp_all add: group_of_def derive_bracket_status_def is_terminal_def child_has_def)
  ultimately show "\<exists>g h. bracket_step g h \<and> bracket_is_terminal (derive_bracket_status g)
      \<and> derive_bracket_status g = TakeProfitHit \<and> derive_bracket_status h = BError"
    by (intro exI conjI) (auto simp: bracket_is_terminal_def)
qed

end
