(* ===== verification/Bracket_Submit.thy ===== *)
theory Bracket_Submit imports Order_Bracket Order_Client begin

text \<open>
  Bracket submission, \<open>crates/midas-broker/src/bracket.rs\<close>: the three legs of a bracket placed
  through an order client in the order the gateway needs (entry, take-profit, stop; only the last
  one transmits), and the clean-up when a placement fails. The theorems hold for every client.
\<close>

section \<open>Building the legs\<close>

definition opposite :: "OrderAction \<Rightarrow> OrderAction" where
  "opposite a = (case a of Buy \<Rightarrow> Sell | Sell \<Rightarrow> Buy)"

definition kind_to_order_type :: "OrderKind \<Rightarrow> OrderType" where
  "kind_to_order_type k = (case k of Market \<Rightarrow> OTMarket | Limit \<Rightarrow> OTLimit | Stop \<Rightarrow> OTStop
     | StopLimit \<Rightarrow> OTStopLimit | TrailingStop \<Rightarrow> OTTrailingStop)"

definition tif_from :: "TimeInForce option \<Rightarrow> Tif" where
  "tif_from t = (case (case t of None \<Rightarrow> Gtc | Some x \<Rightarrow> x) of
     Day \<Rightarrow> TifDay | Gtc \<Rightarrow> TifGtc | Ioc \<Rightarrow> TifIoc | Gtd \<Rightarrow> TifGtd | Opg \<Rightarrow> TifOpg)"

definition unwrap_or :: "'a \<Rightarrow> 'a option \<Rightarrow> 'a" where
  "unwrap_or d x = (case x of None \<Rightarrow> d | Some v \<Rightarrow> v)"

definition entry_spec :: "i32 \<Rightarrow> SymbolKey \<Rightarrow> BracketParams \<Rightarrow> bool \<Rightarrow> OrderSpec" where
  "entry_spec ib_order_id symbol_key params transmit = OrderSpec_default
    \<lparr> os_ib_order_id := ib_order_id, os_symbol := symbol_key,
      os_con_id := unwrap_or 0 (bp_con_id params), os_action := bp_action params,
      os_order_type := kind_to_order_type (bp_entry_kind params),
      os_quantity := bp_quantity params, os_limit_price := bp_entry_price params,
      os_stop_price := bp_entry_stop_price params, os_transmit := transmit,
      os_tif := tif_from None, os_outside_rth := bp_outside_rth params \<rparr>"

definition tp_spec ::
  "i32 \<Rightarrow> i32 \<Rightarrow> SymbolKey \<Rightarrow> BracketParams \<Rightarrow> TakeProfitParams \<Rightarrow> bool \<Rightarrow> OrderSpec" where
  "tp_spec ib_order_id parent_ib_id symbol_key params tp transmit = OrderSpec_default
    \<lparr> os_ib_order_id := ib_order_id, os_symbol := symbol_key,
      os_con_id := unwrap_or 0 (bp_con_id params), os_action := opposite (bp_action params),
      os_order_type := OTLimit, os_quantity := bp_quantity params,
      os_limit_price := Some (tp_price tp), os_parent_id := Some parent_ib_id,
      os_transmit := transmit, os_tif := tif_from (tp_tif tp),
      os_outside_rth := bp_outside_rth params \<rparr>"

definition sl_spec ::
  "i32 \<Rightarrow> i32 \<Rightarrow> SymbolKey \<Rightarrow> BracketParams \<Rightarrow> StopLossParams \<Rightarrow> bool \<Rightarrow> OrderSpec" where
  "sl_spec ib_order_id parent_ib_id symbol_key params sl transmit = OrderSpec_default
    \<lparr> os_ib_order_id := ib_order_id, os_symbol := symbol_key,
      os_con_id := unwrap_or 0 (bp_con_id params), os_action := opposite (bp_action params),
      os_order_type := (if sl_limit_price sl \<noteq> None then OTStopLimit else OTStop),
      os_quantity := bp_quantity params, os_limit_price := sl_limit_price sl,
      os_stop_price := Some (sl_stop_price sl), os_parent_id := Some parent_ib_id,
      os_transmit := transmit, os_tif := tif_from (sl_tif sl),
      os_outside_rth := bp_outside_rth params \<rparr>"

section \<open>Placing and cancelling\<close>

record BracketHandle =
  bh_parent_id :: Uuid
  bh_entry_id :: i32
  bh_tp_id :: "i32 option"
  bh_sl_id :: "i32 option"

text \<open>An id for a leg that the bracket has; \<open>None\<close> without asking the client otherwise.\<close>

definition alloc_if ::
  "'s order_client \<Rightarrow> bool \<Rightarrow> 's \<Rightarrow> (i32 option, OrderError) rust_result \<times> 's" where
  "alloc_if c b s =
    (if b then (case oc_next_order_id c s of
                  (Inl e, s) \<Rightarrow> (Inl e, s) | (Inr i, s) \<Rightarrow> (Inr (Some i), s))
     else (Inr None, s))"

text \<open>
  The placement phase, after the ids are reserved. \<open>fresh\<close> is the locally minted parent id.
\<close>

definition place_legs ::
  "'s order_client \<Rightarrow> Uuid \<Rightarrow> BracketParams \<Rightarrow> i32 \<Rightarrow> i32 option \<Rightarrow> i32 option \<Rightarrow> 's
    \<Rightarrow> (BracketHandle, OrderError) rust_result \<times> 's" where
  "place_legs c fresh params entry_id tp_id sl_id s =
    (let has_tp = bp_take_profit params \<noteq> None;
         has_sl = bp_stop_loss params \<noteq> None;
         symbol_key = \<lparr> sk_contract_id = unwrap_or 0 (bp_con_id params), sk_symbol = bp_symbol params \<rparr>;
         finish = (\<lambda>s. (Inr \<lparr> bh_parent_id = fresh, bh_entry_id = entry_id, bh_tp_id = tp_id,
                               bh_sl_id = sl_id \<rparr>, s));
         place_sl = (\<lambda>s. case (sl_id, bp_stop_loss params) of
             (Some i, Some sl) \<Rightarrow>
               (case oc_place_order c (sl_spec i entry_id symbol_key params sl True) s of
                  (Inr _, s) \<Rightarrow> finish s
                | (Inl e, s) \<Rightarrow>
                    (let s = snd (oc_cancel_order c entry_id s);
                         s = (case tp_id of None \<Rightarrow> s | Some t \<Rightarrow> snd (oc_cancel_order c t s))
                     in (Inl e, s)))
           | _ \<Rightarrow> finish s);
         place_tp = (\<lambda>s. case (tp_id, bp_take_profit params) of
             (Some i, Some tp) \<Rightarrow>
               (case oc_place_order c (tp_spec i entry_id symbol_key params tp (\<not> has_sl)) s of
                  (Inr _, s) \<Rightarrow> place_sl s
                | (Inl e, s) \<Rightarrow> (Inl e, snd (oc_cancel_order c entry_id s)))
           | _ \<Rightarrow> place_sl s)
     in case oc_place_order c (entry_spec entry_id symbol_key params (\<not> (has_tp \<or> has_sl))) s of
          (Inl e, s) \<Rightarrow> (Inl e, s)
        | (Inr _, s) \<Rightarrow> place_tp s)"

definition place_bracket ::
  "'s order_client \<Rightarrow> Uuid \<Rightarrow> BracketParams \<Rightarrow> 's \<Rightarrow> (BracketHandle, OrderError) rust_result \<times> 's" where
  "place_bracket c fresh params s =
    (case oc_next_order_id c s of
       (Inl e, s) \<Rightarrow> (Inl e, s)
     | (Inr entry_id, s) \<Rightarrow>
         (case alloc_if c (bp_take_profit params \<noteq> None) s of
            (Inl e, s) \<Rightarrow> (Inl e, s)
          | (Inr tp_id, s) \<Rightarrow>
              (case alloc_if c (bp_stop_loss params \<noteq> None) s of
                 (Inl e, s) \<Rightarrow> (Inl e, s)
               | (Inr sl_id, s) \<Rightarrow> place_legs c fresh params entry_id tp_id sl_id s)))"

text \<open>
  \<open>cancel_bracket\<close> asks for every leg in turn and goes on whatever a leg answers (an error and the
  5 s timeout are only logged), so it always returns \<open>Ok\<close>.
\<close>

fun cancel_bracket :: "'s order_client \<Rightarrow> i32 list \<Rightarrow> 's \<Rightarrow> (unit, OrderError) rust_result \<times> 's" where
  "cancel_bracket c [] s = (Inr (), s)"
| "cancel_bracket c (i # is) s = cancel_bracket c is (snd (oc_cancel_order c i s))"

section \<open>Observing the calls\<close>

text \<open>
  Any client, with a log of what was asked and answered: the calls on the right are the inner
  client's, so a statement about the log is a statement about what that client saw.
\<close>

datatype client_call =
    Placed OrderSpec bool
  | CancelAsked i32

definition logged :: "'s order_client \<Rightarrow> ('s \<times> client_call list) order_client" where
  "logged c = \<lparr>
     oc_next_order_id = (\<lambda>(s, l). case oc_next_order_id c s of (r, s) \<Rightarrow> (r, (s, l))),
     oc_place_order = (\<lambda>sp (s, l). case oc_place_order c sp s of
                        (r, s) \<Rightarrow> (r, (s, l @ [Placed sp (is_ok r)]))),
     oc_cancel_order = (\<lambda>i (s, l). case oc_cancel_order c i s of
                        (r, s) \<Rightarrow> (r, (s, l @ [CancelAsked i]))) \<rparr>"

definition place_log :: "'s order_client \<Rightarrow> Uuid \<Rightarrow> BracketParams \<Rightarrow> 's
    \<Rightarrow> (BracketHandle, OrderError) rust_result \<times> client_call list" where
  "place_log c fresh params s = (case place_bracket (logged c) fresh params (s, []) of
      (r, (_, l)) \<Rightarrow> (r, l))"

text \<open>The specs that were placed, those the client accepted, and the ids asked to be cancelled.\<close>

definition placed :: "client_call list \<Rightarrow> OrderSpec list" where
  "placed l = List.map_filter (\<lambda>x. case x of Placed sp _ \<Rightarrow> Some sp | _ \<Rightarrow> None) l"

definition accepted :: "client_call list \<Rightarrow> OrderSpec list" where
  "accepted l = List.map_filter (\<lambda>x. case x of Placed sp True \<Rightarrow> Some sp | _ \<Rightarrow> None) l"

definition cancels :: "client_call list \<Rightarrow> i32 list" where
  "cancels l = List.map_filter (\<lambda>x. case x of CancelAsked i \<Rightarrow> Some i | _ \<Rightarrow> None) l"

lemma log_simps [simp]:
  "placed [] = []" "accepted [] = []" "cancels [] = []"
  "placed (Placed sp b # l) = sp # placed l" "placed (CancelAsked i # l) = placed l"
  "accepted (Placed sp b # l) = (if b then sp # accepted l else accepted l)"
  "accepted (CancelAsked i # l) = accepted l"
  "cancels (Placed sp b # l) = cancels l" "cancels (CancelAsked i # l) = i # cancels l"
  by (simp_all add: placed_def accepted_def cancels_def List.map_filter_def)

section \<open>What the submitter guarantees\<close>

definition key_of :: "BracketParams \<Rightarrow> SymbolKey" where
  "key_of p = \<lparr> sk_contract_id = unwrap_or 0 (bp_con_id p), sk_symbol = bp_symbol p \<rparr>"

text \<open>The specs of a bracket whose legs got these ids, in the order they are to be placed.\<close>

definition leg_specs :: "BracketParams \<Rightarrow> i32 \<Rightarrow> i32 option \<Rightarrow> i32 option \<Rightarrow> OrderSpec list" where
  "leg_specs p entry_id tp_id sl_id =
    [entry_spec entry_id (key_of p) p (tp_id = None \<and> sl_id = None)]
    @ (case (tp_id, bp_take_profit p) of
         (Some i, Some tp) \<Rightarrow> [tp_spec i entry_id (key_of p) p tp (sl_id = None)] | _ \<Rightarrow> [])
    @ (case (sl_id, bp_stop_loss p) of
         (Some i, Some sl) \<Rightarrow> [sl_spec i entry_id (key_of p) p sl True] | _ \<Rightarrow> [])"

definition ids_match :: "BracketParams \<Rightarrow> i32 option \<Rightarrow> i32 option \<Rightarrow> bool" where
  "ids_match p tp_id sl_id \<longleftrightarrow> (tp_id = None \<longleftrightarrow> bp_take_profit p = None)
     \<and> (sl_id = None \<longleftrightarrow> bp_stop_loss p = None)"

text \<open>
  The log of a placement that the client refuses at leg \<open>k\<close>: the accepted legs, the refused one,
  and a cancel request for each accepted leg.
\<close>

definition failed_log :: "OrderSpec list \<Rightarrow> nat \<Rightarrow> client_call list" where
  "failed_log specs k = map (\<lambda>sp. Placed sp True) (take k specs) @ [Placed (specs ! k) False]
     @ map (\<lambda>sp. CancelAsked (os_ib_order_id sp)) (take k specs)"

lemma spec_ids [simp]:
  "os_ib_order_id (entry_spec i k p t) = i"
  "os_ib_order_id (tp_spec i j k p tp t) = i"
  "os_ib_order_id (sl_spec i j k p sl t) = i"
  by (simp_all add: entry_spec_def tp_spec_def sl_spec_def)

lemma place_legs_log:
  assumes "ids_match p tp_id sl_id" "place_legs (logged c) fresh p entry_id tp_id sl_id (s, l) = (r, (s', l'))"
  shows "(\<exists>h. r = Ok h \<and> bh_entry_id h = entry_id \<and> bh_tp_id h = tp_id \<and> bh_sl_id h = sl_id
            \<and> l' = l @ map (\<lambda>sp. Placed sp True) (leg_specs p entry_id tp_id sl_id))
    \<or> is_err r \<and> (\<exists>k<length (leg_specs p entry_id tp_id sl_id).
            l' = l @ failed_log (leg_specs p entry_id tp_id sl_id) k)"
  using assms
  by (cases tp_id; cases sl_id; cases "bp_take_profit p"; cases "bp_stop_loss p";
      auto simp: place_legs_def leg_specs_def ids_match_def key_of_def logged_def Let_def
        failed_log_def Ex_less_Suc is_err_def split: prod.splits sum.splits)

lemma alloc_if_logged:
  "alloc_if (logged c) b t = (r, t') \<Longrightarrow> snd t' = snd t \<and> (\<forall>x. r = Ok x \<longrightarrow> (x = None \<longleftrightarrow> \<not> b))"
  by (cases t) (auto simp: alloc_if_def logged_def split: prod.splits sum.splits if_splits)

lemma place_log_cases:
  assumes "place_log c fresh p s = (r, l)"
  obtains (no_ids) e where "r = Err e" "l = []"
    | (ids) entry_id tp_id sl_id s0 s1 where "ids_match p tp_id sl_id"
        "place_legs (logged c) fresh p entry_id tp_id sl_id (s0, []) = (r, (s1, l))"
proof -
  obtain s1 where pb: "place_bracket (logged c) fresh p (s, []) = (r, (s1, l))"
    using assms by (auto simp: place_log_def split: prod.splits)
  obtain r1 t1 where n1: "oc_next_order_id (logged c) (s, []) = (r1, t1)"
      by (cases "oc_next_order_id (logged c) (s, [])")
  have t1: "snd t1 = []" using n1 by (auto simp: logged_def split: prod.splits)
  show ?thesis
  proof (cases r1)
    case (Inl e)
    with pb n1 t1 show ?thesis by (auto simp: place_bracket_def intro: no_ids)
  next
    case (Inr entry_id)
    obtain r2 t2 where n2: "alloc_if (logged c) (bp_take_profit p \<noteq> None) t1 = (r2, t2)"
      by (cases "alloc_if (logged c) (bp_take_profit p \<noteq> None) t1")
    have t2: "snd t2 = []" and tp: "\<And>x. r2 = Ok x \<Longrightarrow> (x = None) = (bp_take_profit p = None)"
      using alloc_if_logged [OF n2] t1 by auto
    obtain r3 t3 where n3: "alloc_if (logged c) (bp_stop_loss p \<noteq> None) t2 = (r3, t3)"
      by (cases "alloc_if (logged c) (bp_stop_loss p \<noteq> None) t2")
    have t3: "snd t3 = []" and sl: "\<And>x. r3 = Ok x \<Longrightarrow> (x = None) = (bp_stop_loss p = None)"
      using alloc_if_logged [OF n3] t2 by auto
    show ?thesis
    proof (cases r2; cases r3)
      fix tp_id sl_id assume ok: "r2 = Inr tp_id" "r3 = Inr sl_id"
      have "ids_match p tp_id sl_id" using tp sl ok by (simp add: ids_match_def)
      moreover have "place_legs (logged c) fresh p entry_id tp_id sl_id (fst t3, []) = (r, (s1, l))"
        using pb n1 n2 n3 ok Inr t3 by (cases t3) (simp add: place_bracket_def)
      ultimately show ?thesis by (rule ids)
    qed (use pb n1 n2 n3 Inr t2 t3 in \<open>auto simp: place_bracket_def intro: no_ids\<close>)
  qed
qed

lemma log_append [simp]:
  "placed (l @ m) = placed l @ placed m" "accepted (l @ m) = accepted l @ accepted m"
  "cancels (l @ m) = cancels l @ cancels m"
  by (simp_all add: placed_def accepted_def cancels_def List.map_filter_def)

lemma log_maps [simp]:
  "placed (map (\<lambda>sp. Placed sp b) xs) = xs"
  "accepted (map (\<lambda>sp. Placed sp True) xs) = xs"
  "cancels (map (\<lambda>sp. Placed sp b) xs) = []"
  "accepted (map (\<lambda>sp. CancelAsked (f sp)) xs) = []"
  "placed (map (\<lambda>sp. CancelAsked (f sp)) xs) = []"
  "cancels (map (\<lambda>sp. CancelAsked (f sp)) xs) = map f xs"
  by (induction xs) auto

text \<open>Only the last leg transmits.\<close>

lemma leg_specs_transmit:
  assumes "ids_match p tp_id sl_id"
  shows "map os_transmit (leg_specs p entry_id tp_id sl_id)
    = replicate (length (leg_specs p entry_id tp_id sl_id) - 1) False @ [True]"
  using assms
  by (auto simp: leg_specs_def ids_match_def entry_spec_def tp_spec_def sl_spec_def
      split: option.splits)

lemma leg_specs_prefix_held:
  assumes "ids_match p tp_id sl_id" "leg_specs p entry_id tp_id sl_id = xs @ y # ys" "x \<in> set xs"
  shows "\<not> os_transmit x"
proof -
  have "map os_transmit xs @ os_transmit y # map os_transmit ys
      = replicate (length xs + length ys) False @ [True]"
    using leg_specs_transmit [OF assms(1), of entry_id] assms(2) by simp
  then have "map os_transmit xs = take (length xs) (replicate (length xs + length ys) False @ [True])"
    by (metis append_eq_conv_conj length_map)
  then have "map os_transmit xs = replicate (length xs) False" by simp
  with assms(3) show ?thesis by (metis in_set_replicate image_eqI set_map)
qed

text \<open>
  What is asked of the gateway, leg by leg, in terms of the bracket alone: the order's type, limit
  price, stop price, time in force, side, quantity, contract and regular-hours flag. The entry is
  on the bracket's own side; the take-profit leg is there exactly when the bracket has one, and so
  is the stop, which is a stop-limit order exactly when it has a limit price.
\<close>

definition leg_terms :: "OrderSpec \<Rightarrow> (OrderType \<times> f64 option \<times> f64 option \<times> Tif) \<times> OrderAction \<times> f64
    \<times> SymbolKey \<times> bool" where
  "leg_terms sp = ((os_order_type sp, os_limit_price sp, os_stop_price sp, os_tif sp), os_action sp,
     os_quantity sp, os_symbol sp, os_outside_rth sp)"

definition bracket_terms :: "BracketParams \<Rightarrow> ((OrderType \<times> f64 option \<times> f64 option \<times> Tif) \<times> OrderAction
    \<times> f64 \<times> SymbolKey \<times> bool) list" where
  "bracket_terms p = map (\<lambda>(a, t). (t, a, bp_quantity p, key_of p, bp_outside_rth p))
    ((bp_action p, kind_to_order_type (bp_entry_kind p), bp_entry_price p, bp_entry_stop_price p, TifGtc)
     # (case bp_take_profit p of None \<Rightarrow> []
        | Some tp \<Rightarrow> [(opposite (bp_action p), OTLimit, Some (tp_price tp), None, tif_from (tp_tif tp))])
     @ (case bp_stop_loss p of None \<Rightarrow> []
        | Some sl \<Rightarrow> [(opposite (bp_action p), if sl_limit_price sl = None then OTStop else OTStopLimit,
            sl_limit_price sl, Some (sl_stop_price sl), tif_from (sl_tif sl))]))"

lemma leg_specs_terms:
  "ids_match p tp_id sl_id \<Longrightarrow> map leg_terms (leg_specs p entry_id tp_id sl_id) = bracket_terms p"
  by (auto simp: leg_specs_def ids_match_def leg_terms_def bracket_terms_def entry_spec_def
      tp_spec_def sl_spec_def OrderSpec_default_def tif_from_def split: option.splits)

text \<open>
  C3: a bracket that is reported placed was placed whole and in the gateway's order. Whatever the
  client is, success means that it accepted exactly the legs the bracket asks for: the entry, a
  take-profit leg if and only if the bracket has a take-profit, a stop leg if and only if it has a
  stop-loss, in this order, each with the type, prices, time in force, side, quantity, contract
  and hours of the bracket (\<open>bracket_terms\<close>), under the ids of the returned handle, which has an id
  for a child exactly when the bracket has that child. Every leg but the last was held back
  (\<open>transmit = false\<close>), the last transmits, the entry has no parent, every child is on the opposite
  side and names the entry as its parent, and nothing was cancelled.
\<close>

theorem placed_bracket_is_whole:
  assumes "place_log c fresh p s = (Ok h, l)"
  shows "placed l = accepted l \<and> cancels l = []
    \<and> map os_ib_order_id (placed l)
        = bh_entry_id h # (case bh_tp_id h of None \<Rightarrow> [] | Some i \<Rightarrow> [i])
                        @ (case bh_sl_id h of None \<Rightarrow> [] | Some i \<Rightarrow> [i])
    \<and> map os_transmit (placed l) = replicate (length (placed l) - 1) False @ [True]
    \<and> (\<forall>sp\<in>set (tl (placed l)). os_parent_id sp = Some (bh_entry_id h)
          \<and> os_action sp = opposite (bp_action p) \<and> os_quantity sp = bp_quantity p)
    \<and> (bh_tp_id h = None \<longleftrightarrow> bp_take_profit p = None)
    \<and> (bh_sl_id h = None \<longleftrightarrow> bp_stop_loss p = None)
    \<and> map leg_terms (placed l) = bracket_terms p
    \<and> map os_parent_id (placed l)
        = None # replicate (length (placed l) - 1) (Some (bh_entry_id h))"
  using assms
proof (cases rule: place_log_cases)
  case no_ids
  then show ?thesis by simp
next
  case (ids entry_id tp_id sl_id s0 s1)
  from place_legs_log [OF ids]
  have h: "bh_entry_id h = entry_id" "bh_tp_id h = tp_id" "bh_sl_id h = sl_id"
    and l: "l = map (\<lambda>sp. Placed sp True) (leg_specs p entry_id tp_id sl_id)"
    by auto
  have "map os_ib_order_id (leg_specs p entry_id tp_id sl_id)
      = entry_id # (case tp_id of None \<Rightarrow> [] | Some i \<Rightarrow> [i]) @ (case sl_id of None \<Rightarrow> [] | Some i \<Rightarrow> [i])"
    using ids(1) by (auto simp: leg_specs_def ids_match_def split: option.splits)
  moreover have "\<forall>sp\<in>set (tl (leg_specs p entry_id tp_id sl_id)). os_parent_id sp = Some entry_id
      \<and> os_action sp = opposite (bp_action p) \<and> os_quantity sp = bp_quantity p"
    by (auto simp: leg_specs_def tp_spec_def sl_spec_def split: option.splits)
  moreover have "map os_parent_id (leg_specs p entry_id tp_id sl_id)
      = None # replicate (length (leg_specs p entry_id tp_id sl_id) - 1) (Some entry_id)"
    by (auto simp: leg_specs_def entry_spec_def tp_spec_def sl_spec_def OrderSpec_default_def
        split: option.splits)
  ultimately show ?thesis
    using leg_specs_transmit [OF ids(1), of entry_id] leg_specs_terms [OF ids(1), of entry_id] ids(1)
    by (simp add: h l ids_match_def)
qed

text \<open>
  A client for concrete runs: ids count up from its state, and orders with an id from a refused
  list are rejected.
\<close>

definition counting_client :: "i32 list \<Rightarrow> i32 order_client" where
  "counting_client refused = \<lparr>
     oc_next_order_id = (\<lambda>n. (Inr n, n + 1)),
     oc_place_order = (\<lambda>sp n. (if os_ib_order_id sp \<in> set refused then Inl (RejectedErr ''refused'')
                               else Inr (os_ib_order_id sp), n)),
     oc_cancel_order = (\<lambda>i n. (Inr (), n)) \<rparr>"

definition three_legs :: BracketParams where
  "three_legs = sample_params\<lparr>bp_currency := ''USD'', bp_quantity := f64_one, bp_entry_kind := Market\<rparr>"

lemma three_legs_simps [simp]:
  "bp_take_profit three_legs = Some \<lparr>tp_price = f64_two, tp_tif = None\<rparr>"
  "bp_stop_loss three_legs = Some \<lparr>sl_stop_price = f64_zero, sl_limit_price = None, sl_tif = None\<rparr>"
  by (simp_all add: three_legs_def sample_params_def)

lemmas run_log = place_log_def place_bracket_def place_legs_def alloc_if_def logged_def
  counting_client_def Let_def

lemma three_legs_placed:
  "\<exists>l. place_log (counting_client []) 0 three_legs 7 =
     (Ok \<lparr>bh_parent_id = 0, bh_entry_id = 7, bh_tp_id = Some 8, bh_sl_id = Some 9\<rparr>, l)"
  by (simp add: run_log)

theorem placed_bracket_is_whole_witness:
  "\<exists>h l. place_log (counting_client []) 0 three_legs 7 = (Ok h, l)
     \<and> map os_transmit (placed l) = replicate (length (placed l) - 1) False @ [True]
     \<and> map os_ib_order_id (placed l) = [7, 8, 9]"
proof -
  obtain l where l: "place_log (counting_client []) 0 three_legs 7 =
     (Ok \<lparr>bh_parent_id = 0, bh_entry_id = 7, bh_tp_id = Some 8, bh_sl_id = Some 9\<rparr>, l)"
    using three_legs_placed by blast
  note whole = placed_bracket_is_whole [OF l]
  from whole have "map os_transmit (placed l) = replicate (length (placed l) - 1) False @ [True]"
    by blast
  moreover from whole [THEN conjunct2, THEN conjunct2, THEN conjunct1]
  have "map os_ib_order_id (placed l) = [7, 8, 9]" by simp
  ultimately show ?thesis using l by (intro exI conjI)
qed

text \<open>
  C29: a failed bracket leaves nothing working. Whenever submission returns an error, no leg that
  the client accepted had been transmitted, and each of them has been asked to cancel, in the
  order it was placed; legs after the refused one were never sent.
\<close>

theorem failed_bracket_is_cleaned_up:
  assumes "place_log c fresh p s = (Err e, l)"
  shows "(\<forall>sp\<in>set (accepted l). \<not> os_transmit sp)
    \<and> cancels l = map os_ib_order_id (accepted l)
    \<and> length (placed l) \<le> length (accepted l) + 1"
  using assms
proof (cases rule: place_log_cases)
  case no_ids
  then show ?thesis by simp
next
  case (ids entry_id tp_id sl_id s0 s1)
  let ?specs = "leg_specs p entry_id tp_id sl_id"
  from place_legs_log [OF ids] obtain k where k: "k < length ?specs" and l: "l = failed_log ?specs k"
    by auto
  have split: "?specs = take k ?specs @ ?specs ! k # drop (Suc k) ?specs"
    using k by (rule id_take_nth_drop)
  then have "\<forall>sp\<in>set (take k ?specs). \<not> os_transmit sp"
    using leg_specs_prefix_held [OF ids(1)] by blast
  then show ?thesis by (simp add: l failed_log_def)
qed

theorem failed_bracket_is_cleaned_up_witness:
  "\<exists>e l. place_log (counting_client [9]) 0 three_legs 7 = (Err e, l)
     \<and> map os_ib_order_id (accepted l) = [7, 8] \<and> cancels l = [7, 8]"
proof -
  obtain l where l: "place_log (counting_client [9]) 0 three_legs 7 = (Err (RejectedErr ''refused''), l)"
    and acc: "map os_ib_order_id (accepted l) = [7, 8]"
    by (simp add: run_log)
  with failed_bracket_is_cleaned_up [OF l] show ?thesis by simp
qed

end
