(* ===== verification/Ticker_App.thy ===== *)
theory Ticker_App imports Ticker_Apply Bracket_Submit begin

text \<open>
  What the application does with the effects of a ticker message, and the handlers that send such
  messages: \<open>desktop/win/crates/midas-app/src/app/ticker_wiring.rs\<close> and the order-panel, bracket and broker
  handlers of \<open>app/handlers.rs\<close>. The part of the application state they use is a record. Hash maps whose
  order shows are lists of entries. Placing a bracket starts a task of the broker library: the parameters
  it is started with are kept in the order of the calls. Marks for redrawing, log lines and the status
  line are left out.
\<close>

section \<open>The panel and its sources\<close>

definition sync_panel_from_bracket :: "OrderBracket \<Rightarrow> OrderPanelState \<Rightarrow> OrderPanelState" where
  "sync_panel_from_bracket b p =
     (let p = p\<lparr> pn_entry_type := ob_entry_type b,
                 pn_side := (case ob_side b of Long \<Rightarrow> OrderSide.Buy | Short \<Rightarrow> OrderSide.Sell) \<rparr>;
          p = (case ob_quantity b of None \<Rightarrow> p | Some qty \<Rightarrow> p\<lparr> pn_quantity := fmt_display qty \<rparr>);
          entry_str = fmt_2 (leg_price (ob_entry b));
          p = (case ob_entry_type b of
                 EntryType.Market \<Rightarrow> p
               | EntryType.Limit \<Rightarrow> p\<lparr> pn_limit_price := entry_str \<rparr>
               | EntryType.Stop \<Rightarrow> p\<lparr> pn_stop_price := entry_str \<rparr>
               | EntryType.StopLimit \<Rightarrow>
                   (let p = p\<lparr> pn_limit_price := entry_str \<rparr> in
                    case ob_entry_stop_price b of None \<Rightarrow> p | Some sp \<Rightarrow> p\<lparr> pn_stop_price := fmt_2 sp \<rparr>))
      in p\<lparr> pn_tp_enabled := (ob_take_profit b \<noteq> None),
            pn_tp_value := (case ob_take_profit b of Some tp \<Rightarrow> fmt_2 (leg_price tp) | None \<Rightarrow> ''''),
            pn_sl_enabled := (ob_stop_loss b \<noteq> None),
            pn_sl_value := (case ob_stop_loss b of Some sl \<Rightarrow> fmt_2 (leg_price sl) | None \<Rightarrow> '''') \<rparr>)"

definition apply_entry_memory :: "EntryMemory \<Rightarrow> OrderPanelState \<Rightarrow> OrderPanelState" where
  "apply_entry_memory m p =
     (let entry_str = (case em_entry_price_or_offset m of None \<Rightarrow> '''' | Some x \<Rightarrow> fmt_2 x) in
      p\<lparr> pn_quantity := (case em_quantity m of None \<Rightarrow> ''100'' | Some q \<Rightarrow> fmt_display q),
         pn_tp_enabled := em_tp_enabled m, pn_tp_mode := em_tp_mode m, pn_tp_value := em_tp_value m,
         pn_sl_enabled := em_sl_enabled m, pn_sl_mode := em_sl_mode m, pn_sl_value := em_sl_value m,
         pn_sl_type := em_sl_type m, pn_sl_limit_value := em_sl_limit_value m,
         pn_limit_price := (if pn_entry_type p \<in> {EntryType.Limit, EntryType.StopLimit} then entry_str else ''''),
         pn_stop_price := (if pn_entry_type p = EntryType.Stop then entry_str else '''') \<rparr>)"

definition memory_of :: "TickerState \<Rightarrow> OrderSide \<Rightarrow> EntryType \<Rightarrow> EntryMemory" where
  "memory_of s side ty = (case ts_entries s (side, ty) of None \<Rightarrow> EntryMemory_default | Some m \<Rightarrow> m)"

definition hydrate_from_intent :: "TickerState \<Rightarrow> f64 option \<Rightarrow> OrderPanelState \<Rightarrow> OrderPanelState" where
  "hydrate_from_intent s last_price p =
     (if pn_dirty p \<and> pn_symbol p = ts_symbol s then p
      else
        (let p = p\<lparr> pn_symbol := ts_symbol s, pn_side := ts_last_side s, pn_entry_type := ts_last_entry_type s \<rparr>;
             p = apply_entry_memory (memory_of s (ts_last_side s) (ts_last_entry_type s)) p
         in p\<lparr> pn_last_price := last_price, pn_bracket_annotation_id := ts_live_annotation_id s, pn_dirty := False \<rparr>))"

definition rehydrate_for_compound :: "TickerState \<Rightarrow> OrderSide \<Rightarrow> EntryType \<Rightarrow> OrderPanelState \<Rightarrow> OrderPanelState" where
  "rehydrate_for_compound s side ty p =
     apply_entry_memory (memory_of s side ty) (p\<lparr> pn_side := side, pn_entry_type := ty \<rparr>)"

section \<open>The application state\<close>

record OrderAnnotationLink =
  lk_annotation_id :: u64
  lk_parent_order_id :: Uuid
  lk_tp_order_id :: "Uuid option"
  lk_sl_order_id :: "Uuid option"
  lk_entry_ib_id :: "i32 option"
  lk_tp_ib_id :: "i32 option"
  lk_sl_ib_id :: "i32 option"
  lk_symbol :: string
  lk_side :: BracketSide
  lk_quantity :: f64
  lk_created_at :: Instant

type_synonym PanelId = u64

record MidasApp =
  app_tickers :: "string \<Rightarrow> TickerState option"
  app_store :: AnnotationStore
  app_panels :: "(PanelId \<times> OrderPanelState) list"
  app_charts :: "u64 \<Rightarrow> string option"
  app_market :: "string \<Rightarrow> (f64 option \<times> f64 option) option"
  app_links :: "(Uuid \<times> OrderAnnotationLink) list"
  app_ib_to_uuid :: "i32 \<Rightarrow> Uuid option"
  app_persisted :: "string \<Rightarrow> TickerState option"
  app_toasts :: "(string \<times> ToastAction option) list"
  app_has_router :: bool
  app_placed :: "BracketParams list"

definition epoch_millis :: "TickerClock \<Rightarrow> int" where
  "epoch_millis clock = utc_now clock div 1000000"

definition set_ticker :: "string \<Rightarrow> TickerState \<Rightarrow> MidasApp \<Rightarrow> MidasApp" where
  "set_ticker key s app = app\<lparr> app_tickers := (app_tickers app)(key \<mapsto> s) \<rparr>"

definition set_live_annotation_id :: "string \<Rightarrow> AnnotationId option \<Rightarrow> MidasApp \<Rightarrow> MidasApp" where
  "set_live_annotation_id key i app = (case app_tickers app key of
     None \<Rightarrow> app | Some s \<Rightarrow> set_ticker key (s\<lparr> ts_live_annotation_id := i \<rparr>) app)"

definition update_panels ::
  "(OrderPanelState \<Rightarrow> bool) \<Rightarrow> (OrderPanelState \<Rightarrow> OrderPanelState) \<Rightarrow> MidasApp \<Rightarrow> MidasApp" where
  "update_panels P f app = app\<lparr> app_panels := List.map (\<lambda>(i, p). (i, if P p then f p else p)) (app_panels app) \<rparr>"

definition shows_symbol :: "string \<Rightarrow> OrderPanelState \<Rightarrow> bool" where
  "shows_symbol key p = eq_ignore_ascii_case (pn_symbol p) key"

section \<open>Effects\<close>

definition put_bracket :: "OrderBracket \<Rightarrow> Annotation \<Rightarrow> Annotation" where
  "put_bracket b ann = ann\<lparr> ann_kind := OrderBracketKind b, ann_presence := Present \<rparr>"

definition project_bracket :: "int \<Rightarrow> string \<Rightarrow> OrderBracket \<Rightarrow> MidasApp \<Rightarrow> MidasApp" where
  "project_bracket now key b app =
     (let ann_id_opt = (case app_tickers app key of None \<Rightarrow> None | Some s \<Rightarrow> ts_live_annotation_id s);
          ann_exists = (case ann_id_opt of None \<Rightarrow> False
                        | Some i \<Rightarrow> list_ex (\<lambda>a. ann_id a = i) (store_get key (app_store app)));
          app =
            (case (ann_id_opt, ann_exists) of
               (Some i, True) \<Rightarrow> app\<lparr> app_store := snd (store_update now key i (put_bracket b) (app_store app)) \<rparr>
             | _ \<Rightarrow>
                 (let app = set_live_annotation_id key None app in
                  case store_add now key (OrderBracketKind b) (app_store app) of (new_id, store) \<Rightarrow>
                    update_panels (shows_symbol key) (\<lambda>p. p\<lparr> pn_bracket_annotation_id := Some new_id \<rparr>)
                      (set_live_annotation_id key (Some new_id) (app\<lparr> app_store := store \<rparr>))))
      in update_panels (shows_symbol key) (sync_panel_from_bracket b) app)"

definition remove_bracket :: "string \<Rightarrow> AnnotationId \<Rightarrow> MidasApp \<Rightarrow> MidasApp" where
  "remove_bracket key i app =
     update_panels (\<lambda>p. shows_symbol key p \<and> pn_bracket_annotation_id p = Some i)
       (\<lambda>p. p\<lparr> pn_bracket_annotation_id := None \<rparr>)
       (app\<lparr> app_store := snd (store_remove key i (app_store app)) \<rparr>)"

definition broker_action :: "BracketSide \<Rightarrow> OrderAction" where
  "broker_action side = (case side of Long \<Rightarrow> OrderAction.Buy | Short \<Rightarrow> OrderAction.Sell)"

definition entry_of_bracket :: "OrderBracket \<Rightarrow> OrderKind \<times> f64 option \<times> f64 option" where
  "entry_of_bracket b =
     (let price = leg_price (ob_entry b) in
      case ob_entry_type b of
        EntryType.Market \<Rightarrow> (OrderKind.Market, None, None)
      | EntryType.Limit \<Rightarrow> (OrderKind.Limit, Some price, None)
      | EntryType.Stop \<Rightarrow> (OrderKind.Stop, None, Some price)
      | EntryType.StopLimit \<Rightarrow> (OrderKind.StopLimit, Some price, ob_entry_stop_price b))"

text \<open>The parameters the effect and the submit button build, which differ only in the quantity.\<close>

definition params_of_bracket :: "string \<Rightarrow> f64 \<Rightarrow> OrderBracket \<Rightarrow> BracketParams" where
  "params_of_bracket symbol quantity b =
     (case entry_of_bracket b of (entry_kind, entry_price, entry_stop_price) \<Rightarrow>
        \<lparr> bp_symbol = symbol, bp_con_id = None, bp_sec_type = Stock, bp_exchange = ''SMART'',
          bp_currency = ''USD'', bp_action = broker_action (ob_side b), bp_quantity = quantity,
          bp_outside_rth = False, bp_entry_kind = entry_kind, bp_entry_price = entry_price,
          bp_entry_stop_price = entry_stop_price,
          bp_take_profit = map_option (\<lambda>tp. \<lparr> tp_price = leg_price tp, tp_tif = None \<rparr>) (ob_take_profit b),
          bp_stop_loss = map_option (\<lambda>sl. \<lparr> sl_stop_price = leg_price sl, sl_limit_price = None,
                                           sl_tif = None \<rparr>) (ob_stop_loss b),
          bp_reference_price = Some (leg_price (ob_entry b)), bp_strategy = None, bp_tags = [] \<rparr>)"

definition start_placing :: "BracketParams \<Rightarrow> MidasApp \<Rightarrow> MidasApp" where
  "start_placing params app = (if app_has_router app then app\<lparr> app_placed := app_placed app @ [params] \<rparr> else app)"

definition persist :: "string \<Rightarrow> MidasApp \<Rightarrow> MidasApp" where
  "persist key app = (case app_tickers app key of
     None \<Rightarrow> app | Some s \<Rightarrow> app\<lparr> app_persisted := (app_persisted app)(key \<mapsto> s) \<rparr>)"

definition show_toast :: "string \<Rightarrow> ToastAction option \<Rightarrow> MidasApp \<Rightarrow> MidasApp" where
  "show_toast msg action app = app\<lparr> app_toasts := app_toasts app @ [(msg, action)] \<rparr>"

fun handle_effect :: "int \<Rightarrow> string \<Rightarrow> TickerEffect \<Rightarrow> MidasApp \<Rightarrow> MidasApp" where
  "handle_effect now key (ProjectBracket b) app = project_bracket now key b app"
| "handle_effect now key (RemoveBracket i) app = remove_bracket key i app"
| "handle_effect now key (Toast msg action) app = show_toast msg action app"
| "handle_effect now key PersistDirty app = persist key app"
| "handle_effect now key (SubmitToBroker b) app =
     start_placing (params_of_bracket key (case ob_quantity b of None \<Rightarrow> f64_zero | Some q \<Rightarrow> q) b) app"
| "handle_effect now key (ProjectLevel i l) app = app"
| "handle_effect now key (RemoveLevelEffect i) app = app"

definition sync_bracket_mode :: "string \<Rightarrow> MidasApp \<Rightarrow> MidasApp" where
  "sync_bracket_mode key app = (case app_tickers app key of
     None \<Rightarrow> app
   | Some s \<Rightarrow> update_panels (shows_symbol key) (\<lambda>p. p\<lparr> pn_bracket_active := ts_bracket_mode s \<rparr>) app)"

definition handle_ticker_effects :: "int \<Rightarrow> string \<Rightarrow> TickerEffect list \<Rightarrow> MidasApp \<Rightarrow> MidasApp" where
  "handle_ticker_effects now key effects app = sync_bracket_mode key (fold (handle_effect now key) effects app)"

definition ticker_or_new :: "TickerClock \<Rightarrow> string \<Rightarrow> MidasApp \<Rightarrow> TickerState" where
  "ticker_or_new clock key app = (case app_tickers app key of
     None \<Rightarrow> TickerState_new (utc_now clock) key | Some s \<Rightarrow> s)"

text \<open>
  \<open>Message::Ticker\<close>. Its assertion against a message sent while one is handled cannot fail: the handler
  of effects sends none.
\<close>

definition update_ticker :: "TickerClock \<Rightarrow> string \<Rightarrow> TickerMsg \<Rightarrow> MidasApp \<Rightarrow> MidasApp" where
  "update_ticker clock key msg app =
     (case ticker_apply clock msg (ticker_or_new clock key app) of (s, effects) \<Rightarrow>
        handle_ticker_effects (epoch_millis clock) key effects (set_ticker key s app))"

section \<open>The buttons of a bracket\<close>

definition chart_symbol :: "u64 \<Rightarrow> MidasApp \<Rightarrow> string" where
  "chart_symbol chart app = (case app_charts app chart of None \<Rightarrow> '''' | Some s \<Rightarrow> s)"

definition panel_of_annotation :: "AnnotationId \<Rightarrow> MidasApp \<Rightarrow> PanelId option" where
  "panel_of_annotation i app =
     map_option fst (List.find (\<lambda>(_, p). pn_bracket_annotation_id p = Some i) (app_panels app))"

definition panel_state :: "PanelId \<Rightarrow> MidasApp \<Rightarrow> OrderPanelState option" where
  "panel_state pid app = map_of (app_panels app) pid"

definition update_panel :: "PanelId \<Rightarrow> (OrderPanelState \<Rightarrow> OrderPanelState) \<Rightarrow> MidasApp \<Rightarrow> MidasApp" where
  "update_panel pid f app = app\<lparr> app_panels := List.map (\<lambda>(i, p). (i, if i = pid then f p else p)) (app_panels app) \<rparr>"

definition on_panel :: "PanelId option \<Rightarrow> (OrderPanelState \<Rightarrow> OrderPanelState) \<Rightarrow> MidasApp \<Rightarrow> MidasApp" where
  "on_panel pid f app = (case pid of None \<Rightarrow> app | Some i \<Rightarrow> update_panel i f app)"

definition submit_quantity :: "OrderBracket \<Rightarrow> PanelId option \<Rightarrow> MidasApp \<Rightarrow> f64" where
  "submit_quantity b panel_id app =
     (case ob_quantity b of
        Some q \<Rightarrow> q
      | None \<Rightarrow>
          (case panel_id of
             None \<Rightarrow> f64_zero
           | Some pid \<Rightarrow>
               (case panel_state pid app of
                  None \<Rightarrow> f64_zero
                | Some p \<Rightarrow> (case parse_f64 (pn_quantity p) of None \<Rightarrow> f64_zero | Some q \<Rightarrow> q))))"

definition unlink :: "OrderPanelState \<Rightarrow> OrderPanelState" where
  "unlink p = p\<lparr> pn_bracket_annotation_id := None \<rparr>"

definition handle_chart_bracket_submit :: "TickerClock \<Rightarrow> u64 \<Rightarrow> AnnotationId \<Rightarrow> MidasApp \<Rightarrow> MidasApp" where
  "handle_chart_bracket_submit clock chart_id i app =
     (let symbol = chart_symbol chart_id app in
      if symbol = [] then app
      else
        (let panel_id = panel_of_annotation i app in
         case get_bracket symbol i (app_store app) of
           None \<Rightarrow> app
         | Some b \<Rightarrow>
             (let quantity = submit_quantity b panel_id app;
                  errors = validate_chart_bracket b quantity
              in if errors \<noteq> [] then on_panel panel_id (\<lambda>p. p\<lparr> pn_errors := errors \<rparr>) app
                 else
                   (let app = update_ticker clock (SymbolKey_new symbol) SubmitOrder app;
                        app = start_placing (params_of_bracket symbol quantity b) app;
                        app = update_ticker clock (SymbolKey_new symbol) (SetBracketMode None) app
                    in on_panel panel_id unlink app))))"

definition handle_chart_bracket_cancel :: "TickerClock \<Rightarrow> u64 \<Rightarrow> AnnotationId \<Rightarrow> MidasApp \<Rightarrow> MidasApp" where
  "handle_chart_bracket_cancel clock chart_id i app =
     (let symbol = chart_symbol chart_id app in
      if symbol = [] then app
      else on_panel (panel_of_annotation i app) unlink
             (update_ticker clock (SymbolKey_new symbol) (SetBracketMode None) app))"

definition handle_chart_bracket_toggle_sl :: "TickerClock \<Rightarrow> u64 \<Rightarrow> AnnotationId \<Rightarrow> MidasApp \<Rightarrow> MidasApp" where
  "handle_chart_bracket_toggle_sl clock chart_id i app =
     (let symbol = chart_symbol chart_id app in
      if symbol = [] then app
      else
        (let has_sl = (case get_bracket symbol i (app_store app) of
                         None \<Rightarrow> False | Some b \<Rightarrow> ob_stop_loss b \<noteq> None)
         in update_ticker clock (SymbolKey_new symbol) (SetSlEnabled (\<not> has_sl)) app))"

definition handle_chart_bracket_cancel_sl :: "TickerClock \<Rightarrow> u64 \<Rightarrow> MidasApp \<Rightarrow> MidasApp" where
  "handle_chart_bracket_cancel_sl clock chart_id app =
     (let symbol = chart_symbol chart_id app in
      if symbol = [] then app else update_ticker clock (SymbolKey_new symbol) (SetSlEnabled False) app)"

definition handle_chart_bracket_toggle_pin :: "TickerClock \<Rightarrow> u64 \<Rightarrow> MidasApp \<Rightarrow> MidasApp" where
  "handle_chart_bracket_toggle_pin clock chart_id app =
     (let symbol = chart_symbol chart_id app in
      if symbol = [] then app else update_ticker clock (SymbolKey_new symbol) TogglePin app)"

definition handle_chart_bracket_save :: "TickerClock \<Rightarrow> AnnotationId \<Rightarrow> MidasApp \<Rightarrow> MidasApp" where
  "handle_chart_bracket_save clock i app =
     (case List.find (\<lambda>(_, p). pn_bracket_annotation_id p = Some i) (app_panels app) of
        None \<Rightarrow> app
      | Some (_, p) \<Rightarrow> update_ticker clock (SymbolKey_new (pn_symbol p)) SaveBracket app)"

end
