(* ===== verification/Ticker_Panel.thy ===== *)
theory Ticker_Panel imports Ticker_App begin

text \<open>
  The actions of the order panel and the broker's reports about brackets,
  \<open>desktop/win/crates/midas-app/src/app/handlers.rs\<close>. Fresh identifiers and clock readings are arguments.
  The entries of the map of links are in its iteration order.
\<close>

section \<open>Brackets the broker reports\<close>

definition link_of ::
  "u64 \<Rightarrow> Uuid \<Rightarrow> Uuid option \<Rightarrow> Uuid option \<Rightarrow> string \<Rightarrow> BracketSide \<Rightarrow> f64 \<Rightarrow> Instant \<Rightarrow> OrderAnnotationLink" where
  "link_of annotation_id parent tp sl symbol side quantity now =
     \<lparr> lk_annotation_id = annotation_id, lk_parent_order_id = parent, lk_tp_order_id = tp, lk_sl_order_id = sl,
       lk_entry_ib_id = None, lk_tp_ib_id = None, lk_sl_ib_id = None, lk_symbol = symbol, lk_side = side,
       lk_quantity = quantity, lk_created_at = now \<rparr>"

text \<open>\<open>Message::BrokerBracketCreated\<close>\<close>

definition broker_bracket_created ::
  "TickerClock \<Rightarrow> Uuid \<Rightarrow> Uuid option \<Rightarrow> Uuid option \<Rightarrow> string \<Rightarrow> BracketSide \<Rightarrow> f64
     \<Rightarrow> f64 option \<Rightarrow> f64 option \<Rightarrow> f64 option \<Rightarrow> MidasApp \<Rightarrow> MidasApp" where
  "broker_bracket_created clock parent tp_id sl_id symbol side quantity entry_price tp_at sl_at app =
     (let entry = unwrap_or f64_zero entry_price;
          b = create_bracket_annotation side entry tp_at sl_at quantity;
          key = SymbolKey_new symbol;
          app = set_ticker key ((ticker_or_new clock key app)\<lparr> ts_live_bracket := Some b \<rparr>) app;
          app = update_ticker clock key (OrderPending parent) app;
          annotation_id = (case app_tickers app key of None \<Rightarrow> 0 | Some s \<Rightarrow> unwrap_or 0 (ts_live_annotation_id s))
      in app\<lparr> app_links := AList.update parent
               (link_of annotation_id parent tp_id sl_id symbol side quantity (instant_now clock)) (app_links app) \<rparr>)"

text \<open>The translation of the broker's lifecycle in the handler of \<open>BracketStatusChanged\<close>.\<close>

fun chart_status :: "BracketLifecycleStatus \<Rightarrow> BracketStatus" where
  "chart_status BSubmitted = BracketStatus.Pending"
| "chart_status EntryFilled = BracketStatus.Active"
| "chart_status TakeProfitHit = BracketStatus.Closed"
| "chart_status StopLossHit = BracketStatus.Closed"
| "chart_status BCancelled = BracketStatus.Cancelled"
| "chart_status BRejected = BracketStatus.Cancelled"
| "chart_status BError = BracketStatus.Cancelled"
| "chart_status BracketLifecycleStatus.Closed = BracketStatus.Closed"

definition status_message :: "Uuid \<Rightarrow> OrderAnnotationLink \<Rightarrow> BracketStatus \<Rightarrow> f64 option \<Rightarrow> TickerMsg" where
  "status_message parent lk status entry_fill_price =
     (case status of
        BracketStatus.Active \<Rightarrow> OrderFilled (lk_quantity lk) (unwrap_or f64_zero entry_fill_price)
      | BracketStatus.PartialFill \<Rightarrow> OrderPartialFill (lk_quantity lk)
      | BracketStatus.Cancelled \<Rightarrow> OrderCancelled
      | BracketStatus.Pending \<Rightarrow> OrderPending parent
      | _ \<Rightarrow> OrderCancelled)"

text \<open>\<open>Message::BrokerBracketStatusChanged\<close>\<close>

definition broker_bracket_status_changed ::
  "TickerClock \<Rightarrow> Uuid \<Rightarrow> BracketStatus \<Rightarrow> f64 option \<Rightarrow> MidasApp \<Rightarrow> MidasApp" where
  "broker_bracket_status_changed clock parent status entry_fill_price app =
     (case map_of (app_links app) parent of
        None \<Rightarrow> app
      | Some lk \<Rightarrow>
          (let app = update_ticker clock (SymbolKey_new (lk_symbol lk))
                       (status_message parent lk status entry_fill_price) app
           in if status = BracketStatus.Cancelled
              then app\<lparr> app_links := AList.delete parent (app_links app) \<rparr> else app))"

definition f64_lit_tolerance :: f64 where "f64_lit_tolerance = f64_lit_001"

definition oldest_link :: "string \<Rightarrow> BracketSide \<Rightarrow> f64 \<Rightarrow> (Uuid \<times> OrderAnnotationLink) list \<Rightarrow> Uuid option" where
  "oldest_link symbol side quantity links =
     (let candidates = List.filter (\<lambda>(_, lk). lk_symbol lk = symbol \<and> lk_side lk = side \<and>
                         f64_lt (f64_abs (f64_sub (lk_quantity lk) quantity)) f64_lit_tolerance) links
      in case sort_key (\<lambda>(_, lk). lk_created_at lk) candidates of [] \<Rightarrow> None | (k, _) # _ \<Rightarrow> Some k)"

text \<open>\<open>BrokerEvent::BracketCreated\<close>: the oldest link that fits takes the broker's identifiers.\<close>

definition reconcile_created ::
  "TickerClock \<Rightarrow> Uuid \<Rightarrow> Uuid option \<Rightarrow> Uuid option \<Rightarrow> string \<Rightarrow> OrderAction \<Rightarrow> f64
     \<Rightarrow> f64 option \<Rightarrow> f64 option \<Rightarrow> f64 option \<Rightarrow> MidasApp \<Rightarrow> MidasApp" where
  "reconcile_created clock parent tp_id sl_id symbol action quantity tp_at sl_at reference_price app =
     (let side = (case action of OrderAction.Buy \<Rightarrow> Long | OrderAction.Sell \<Rightarrow> Short) in
      case oldest_link symbol side quantity (app_links app) of
        Some old \<Rightarrow>
          (case map_of (app_links app) old of
             None \<Rightarrow> app
           | Some lk \<Rightarrow> app\<lparr> app_links := AList.update parent
                 (lk\<lparr> lk_parent_order_id := parent, lk_tp_order_id := tp_id, lk_sl_order_id := sl_id \<rparr>)
                 (AList.delete old (app_links app)) \<rparr>)
      | None \<Rightarrow> broker_bracket_created clock parent tp_id sl_id symbol side quantity
                  (Some (unwrap_or f64_zero reference_price)) tp_at sl_at app)"

text \<open>
  \<open>Message::BracketPlaceResult\<close>. The newest link of the symbol without an order id takes the ids; of
  several with the same time the last one, as \<open>max_by_key\<close> does.
\<close>

definition newest_provisional :: "string \<Rightarrow> (Uuid \<times> OrderAnnotationLink) list \<Rightarrow> Uuid option" where
  "newest_provisional symbol links =
     (let candidates = List.filter (\<lambda>(_, lk). lk_symbol lk = symbol \<and> lk_entry_ib_id lk = None) links
      in case rev (sort_key (\<lambda>(_, lk). lk_created_at lk) candidates) of [] \<Rightarrow> None | (k, _) # _ \<Rightarrow> Some k)"

definition insert_pair :: "i32 option \<Rightarrow> Uuid option \<Rightarrow> (i32 \<Rightarrow> Uuid option) \<Rightarrow> i32 \<Rightarrow> Uuid option" where
  "insert_pair ib u m = (case (ib, u) of (Some i, Some v) \<Rightarrow> m(i \<mapsto> v) | _ \<Rightarrow> m)"

definition bracket_place_result ::
  "TickerClock \<Rightarrow> string \<Rightarrow> (BracketHandle, string) rust_result \<Rightarrow> MidasApp \<Rightarrow> MidasApp" where
  "bracket_place_result clock symbol result app =
     (case result of
        Inr h \<Rightarrow>
          (case newest_provisional symbol (app_links app) of
             None \<Rightarrow> app
           | Some k \<Rightarrow>
               (case map_of (app_links app) k of
                  None \<Rightarrow> app
                | Some lk \<Rightarrow> app\<lparr> app_links := AList.update k (lk\<lparr> lk_entry_ib_id := Some (bh_entry_id h),
                      lk_tp_ib_id := bh_tp_id h, lk_sl_ib_id := bh_sl_id h \<rparr>) (app_links app),
                      app_ib_to_uuid := insert_pair (bh_sl_id h) (lk_sl_order_id lk)
                        (insert_pair (bh_tp_id h) (lk_tp_order_id lk)
                          ((app_ib_to_uuid app)(bh_entry_id h \<mapsto> lk_parent_order_id lk))) \<rparr>))
      | Inl msg \<Rightarrow>
          update_ticker clock (SymbolKey_new symbol) (OrderRejected msg)
            (show_toast (''Broker error: '' @ msg) None app))"

section \<open>The actions of a panel\<close>

datatype PriceField = TpField | SlField | LimitPriceField | StopPriceField

datatype OrderPanelAction =
    PSetSide OrderSide | PSetQuantity string
  | PToggleTp bool | PSetTpMode PriceInputMode | PSetTpValue string
  | PToggleSl bool | PSetSlMode PriceInputMode | PSetSlValue string
  | PSetSlType StopLossType | PSetSlLimit string
  | PSubmit | PConfirmYes | PConfirmNo | PDismiss
  | PSetBracketMode "OrderSide option" | PSetEntryType EntryType
  | PSetLimitPrice string | PSetStopPrice string
  | PStepPrice PriceField f64

definition market_price :: "string \<Rightarrow> MidasApp \<Rightarrow> f64 option" where
  "market_price key app = (case app_market app key of None \<Rightarrow> None | Some (p, _) \<Rightarrow> p)"

definition market_gatr :: "string \<Rightarrow> MidasApp \<Rightarrow> f64 option" where
  "market_gatr key app = (case app_market app key of None \<Rightarrow> None | Some (_, g) \<Rightarrow> g)"

definition seed_market :: "TickerClock \<Rightarrow> string \<Rightarrow> MidasApp \<Rightarrow> MidasApp" where
  "seed_market clock key app =
     set_ticker key ((ticker_or_new clock key app)\<lparr> ts_last_price := market_price key app,
                                                    ts_gatr_abs := market_gatr key app \<rparr>) app"

definition panel_symbol :: "PanelId \<Rightarrow> MidasApp \<Rightarrow> string" where
  "panel_symbol pid app = (case panel_state pid app of None \<Rightarrow> '''' | Some p \<Rightarrow> pn_symbol p)"

definition panel_set_bracket_mode :: "TickerClock \<Rightarrow> PanelId \<Rightarrow> OrderSide option \<Rightarrow> MidasApp \<Rightarrow> MidasApp" where
  "panel_set_bracket_mode clock pid mode app =
     (let symbol = panel_symbol pid app; key = SymbolKey_new symbol in
      if symbol = [] then app
      else
        (let app = seed_market clock key app;
             app = (case mode of None \<Rightarrow> app | Some side \<Rightarrow> update_panel pid (\<lambda>p. p\<lparr> pn_side := side \<rparr>) app)
         in update_ticker clock key (SetBracketMode mode) app))"

definition panel_set_entry_type :: "TickerClock \<Rightarrow> PanelId \<Rightarrow> EntryType \<Rightarrow> MidasApp \<Rightarrow> MidasApp" where
  "panel_set_entry_type clock pid ty app =
     (let symbol = panel_symbol pid app; key = SymbolKey_new symbol in
      if symbol = [] then app
      else
        (let app = seed_market clock key app;
             app = update_panel pid (\<lambda>p. p\<lparr> pn_entry_type := ty \<rparr>) app;
             app = update_ticker clock key (SetEntryType ty) app;
             side = (case panel_state pid app of None \<Rightarrow> OrderSide.Buy | Some p \<Rightarrow> pn_side p)
         in update_ticker clock key (EnsureDraftBracket side ty) app))"

definition panel_exit_price :: "bool \<Rightarrow> PriceInputMode \<Rightarrow> string \<Rightarrow> f64 \<Rightarrow> OrderSide \<Rightarrow> bool \<Rightarrow> f64 option" where
  "panel_exit_price enabled mode txt last_price side is_tp =
     (if enabled then map_option (\<lambda>v. resolve_price mode v last_price side is_tp) (parse_f64 txt) else None)"

definition confirm_params :: "OrderPanelState \<Rightarrow> f64 \<Rightarrow> BracketParams" where
  "confirm_params p last_price =
     (let tp = panel_exit_price (pn_tp_enabled p) (pn_tp_mode p) (pn_tp_value p) last_price (pn_side p) True;
          sl = panel_exit_price (pn_sl_enabled p) (pn_sl_mode p) (pn_sl_value p) last_price (pn_side p) False
      in \<lparr> bp_symbol = pn_symbol p, bp_con_id = None, bp_sec_type = Stock, bp_exchange = ''SMART'',
           bp_currency = ''USD'',
           bp_action = (case pn_side p of OrderSide.Buy \<Rightarrow> OrderAction.Buy | OrderSide.Sell \<Rightarrow> OrderAction.Sell),
           bp_quantity = (case parse_f64 (pn_quantity p) of None \<Rightarrow> f64_lit_100 | Some q \<Rightarrow> q),
           bp_outside_rth = False, bp_entry_kind = OrderKind.Market, bp_entry_price = None,
           bp_entry_stop_price = None,
           bp_take_profit = map_option (\<lambda>x. \<lparr> tp_price = x, tp_tif = None \<rparr>) tp,
           bp_stop_loss = map_option (\<lambda>x. \<lparr> sl_stop_price = x, sl_limit_price = None, sl_tif = None \<rparr>) sl,
           bp_reference_price = Some last_price, bp_strategy = None, bp_tags = [] \<rparr>)"

text \<open>\<open>ids\<close> are the fresh identifiers of the parent and the two exits.\<close>

definition panel_confirm_yes :: "TickerClock \<Rightarrow> Uuid \<times> Uuid \<times> Uuid \<Rightarrow> PanelId \<Rightarrow> MidasApp \<Rightarrow> MidasApp" where
  "panel_confirm_yes clock ids pid app =
     (case panel_state pid app of
        None \<Rightarrow> app
      | Some p \<Rightarrow>
          (case market_price (SymbolKey_new (pn_symbol p)) app of
             None \<Rightarrow> update_panel pid (\<lambda>p. p\<lparr> pn_errors := [(''price'', ''Market data not loaded'')],
                                             pn_showing_confirmation := False \<rparr>) app
           | Some last_price \<Rightarrow>
               (let params = confirm_params p last_price;
                    tp = map_option tp_price (bp_take_profit params);
                    sl = map_option sl_stop_price (bp_stop_loss params);
                    app = (if app_has_router app then start_placing params app
                           else show_toast (''Broker not ready '' @ [CHR 0xE2, CHR 0x80, CHR 0x94] @ '' try again'') None app);
                    app = update_panel pid (\<lambda>p. p\<lparr> pn_showing_confirmation := False \<rparr>) app
                in case ids of (parent, tp_id, sl_id) \<Rightarrow>
                     broker_bracket_created clock parent (map_option (\<lambda>_. tp_id) tp) (map_option (\<lambda>_. sl_id) sl)
                       (pn_symbol p) (to_bracket_side (pn_side p)) (bp_quantity params) (Some last_price) tp sl app)))"

text \<open>
  Every other action changes the panel, then sends what follows from the change: a structural change or
  a price of the bracket the panel is linked to.
\<close>

datatype FollowUp = NoFollowUp | SendTicker TickerMsg

definition step_value :: "PriceField \<Rightarrow> OrderPanelState \<Rightarrow> string" where
  "step_value field p = (case field of TpField \<Rightarrow> pn_tp_value p | SlField \<Rightarrow> pn_sl_value p
     | LimitPriceField \<Rightarrow> pn_limit_price p | StopPriceField \<Rightarrow> pn_stop_price p)"

definition set_step_value :: "PriceField \<Rightarrow> string \<Rightarrow> OrderPanelState \<Rightarrow> OrderPanelState" where
  "set_step_value field txt p = (case field of TpField \<Rightarrow> p\<lparr> pn_tp_value := txt \<rparr> | SlField \<Rightarrow> p\<lparr> pn_sl_value := txt \<rparr>
     | LimitPriceField \<Rightarrow> p\<lparr> pn_limit_price := txt \<rparr> | StopPriceField \<Rightarrow> p\<lparr> pn_stop_price := txt \<rparr>)"

definition field_role :: "PriceField \<Rightarrow> LegRole" where
  "field_role field = (case field of TpField \<Rightarrow> LegRole.TakeProfit | SlField \<Rightarrow> LegRole.StopLoss
     | LimitPriceField \<Rightarrow> LegRole.Entry | StopPriceField \<Rightarrow> LegRole.StopTrigger)"

definition if_linked :: "OrderPanelState \<Rightarrow> TickerMsg \<Rightarrow> FollowUp" where
  "if_linked p msg = (if pn_bracket_annotation_id p \<noteq> None then SendTicker msg else NoFollowUp)"

definition price_follow_up :: "OrderPanelState \<Rightarrow> PriceField \<Rightarrow> string \<Rightarrow> FollowUp" where
  "price_follow_up p field txt = (case parse_f64 txt of
     None \<Rightarrow> NoFollowUp | Some price \<Rightarrow> if_linked p (SetLegPrice (field_role field) price))"

fun panel_edit ::
  "TickerState option \<Rightarrow> f64 option \<Rightarrow> OrderPanelAction \<Rightarrow> OrderPanelState \<Rightarrow> OrderPanelState \<times> FollowUp" where
  "panel_edit ts price (PSetSide side) p =
     ((case ts of Some s \<Rightarrow> rehydrate_for_compound s side (pn_entry_type p) p | None \<Rightarrow> p\<lparr> pn_side := side \<rparr>),
      if_linked p (SetSide side))"
| "panel_edit ts price (PSetQuantity qty) p =
     (p\<lparr> pn_quantity := qty, pn_dirty := True \<rparr>,
      case parse_f64 qty of None \<Rightarrow> NoFollowUp | Some q \<Rightarrow> if_linked p (SetQuantity q))"
| "panel_edit ts price (PToggleTp enabled) p =
     (p\<lparr> pn_tp_enabled := enabled, pn_dirty := True \<rparr>, if_linked p (SetTpEnabled enabled))"
| "panel_edit ts price (PSetTpMode mode) p = (p\<lparr> pn_tp_mode := mode, pn_dirty := True \<rparr>, NoFollowUp)"
| "panel_edit ts price (PSetTpValue txt) p =
     (p\<lparr> pn_tp_value := txt, pn_dirty := True \<rparr>, price_follow_up p TpField txt)"
| "panel_edit ts price (PToggleSl enabled) p =
     (p\<lparr> pn_sl_enabled := enabled, pn_dirty := True \<rparr>, if_linked p (SetSlEnabled enabled))"
| "panel_edit ts price (PSetSlMode mode) p = (p\<lparr> pn_sl_mode := mode, pn_dirty := True \<rparr>, NoFollowUp)"
| "panel_edit ts price (PSetSlValue txt) p =
     (p\<lparr> pn_sl_value := txt, pn_dirty := True \<rparr>, price_follow_up p SlField txt)"
| "panel_edit ts price (PSetSlType ty) p = (p\<lparr> pn_sl_type := ty, pn_dirty := True \<rparr>, NoFollowUp)"
| "panel_edit ts price (PSetSlLimit txt) p = (p\<lparr> pn_sl_limit_value := txt, pn_dirty := True \<rparr>, NoFollowUp)"
| "panel_edit ts price PSubmit p =
     (let p = p\<lparr> pn_last_price := price \<rparr>; errors = validate_panel p; p = p\<lparr> pn_errors := errors \<rparr>
      in (if errors = [] then p\<lparr> pn_showing_confirmation := True, pn_dirty := False \<rparr> else p, NoFollowUp))"
| "panel_edit ts price PConfirmNo p = (p\<lparr> pn_showing_confirmation := False, pn_dirty := False \<rparr>, NoFollowUp)"
| "panel_edit ts price PDismiss p = (p\<lparr> pn_showing_confirmation := False, pn_dirty := False \<rparr>, NoFollowUp)"
| "panel_edit ts price (PSetLimitPrice txt) p =
     (p\<lparr> pn_limit_price := txt, pn_dirty := True \<rparr>, price_follow_up p LimitPriceField txt)"
| "panel_edit ts price (PSetStopPrice txt) p =
     (p\<lparr> pn_stop_price := txt, pn_dirty := True \<rparr>, price_follow_up p StopPriceField txt)"
| "panel_edit ts price (PStepPrice field delta) p =
     (case parse_f64 (step_value field p) of
        None \<Rightarrow> (p, NoFollowUp)
      | Some current \<Rightarrow>
          (let new_price = f64_max (f64_add current delta) f64_zero
           in ((set_step_value field (fmt_2 new_price) p)\<lparr> pn_dirty := True \<rparr>,
               if_linked p (SetLegPrice (field_role field) new_price))))"
| "panel_edit ts price PConfirmYes p = (p, NoFollowUp)"
| "panel_edit ts price (PSetBracketMode mode) p = (p, NoFollowUp)"
| "panel_edit ts price (PSetEntryType ty) p = (p, NoFollowUp)"

text \<open>
  \<open>sync_panel_to_intent\<close>: the side and the type of the panel go to the ticker. The effects of the two
  messages are dropped.
\<close>

definition sync_panel_to_intent :: "TickerClock \<Rightarrow> PanelId \<Rightarrow> MidasApp \<Rightarrow> MidasApp" where
  "sync_panel_to_intent clock pid app =
     (case panel_state pid app of
        None \<Rightarrow> app
      | Some p \<Rightarrow>
          if pn_symbol p = [] then app
          else
            (let key = SymbolKey_new (pn_symbol p) in
             case app_tickers app key of
               None \<Rightarrow> app
             | Some s \<Rightarrow>
                 (let s = fst (ticker_apply clock (SetSide (pn_side p)) s);
                      s = fst (ticker_apply clock (SetEntryType (pn_entry_type p)) s)
                  in persist key (set_ticker key s app))))"

text \<open>After a change of side: the snap rule, then a draft for what the panel shows.\<close>

definition after_side_change :: "TickerClock \<Rightarrow> PanelId \<Rightarrow> string \<Rightarrow> MidasApp \<Rightarrow> MidasApp" where
  "after_side_change clock pid key app =
     (let app = (case market_price key app of
                   None \<Rightarrow> app
                 | Some price \<Rightarrow> update_ticker clock key (MaybeSnap price (market_gatr key app)) app)
      in case panel_state pid app of
           None \<Rightarrow> app
         | Some p \<Rightarrow>
             (let app = update_ticker clock key (EnsureDraftBracket (pn_side p) (pn_entry_type p)) app
              in case app_tickers app key of
                   None \<Rightarrow> app
                 | Some s \<Rightarrow>
                     (case ts_live_annotation_id s of
                        None \<Rightarrow> app
                      | Some i \<Rightarrow> update_panel pid (\<lambda>p. p\<lparr> pn_bracket_annotation_id := Some i \<rparr>) app)))"

definition panel_edit_action :: "TickerClock \<Rightarrow> PanelId \<Rightarrow> OrderPanelAction \<Rightarrow> MidasApp \<Rightarrow> MidasApp" where
  "panel_edit_action clock pid action app =
     (case panel_state pid app of
        None \<Rightarrow> app
      | Some p \<Rightarrow>
          (let key = SymbolKey_new (pn_symbol p) in
           case panel_edit (app_tickers app key) (market_price key app) action p of (p', follow_up) \<Rightarrow>
             (let app = update_panel pid (\<lambda>_. p') app;
                  app = (case follow_up of NoFollowUp \<Rightarrow> app | SendTicker msg \<Rightarrow> update_ticker clock key msg app);
                  app = (case action of PSetSide _ \<Rightarrow> after_side_change clock pid key app | _ \<Rightarrow> app)
              in sync_panel_to_intent clock pid app)))"

definition handle_panel_action ::
  "TickerClock \<Rightarrow> Uuid \<times> Uuid \<times> Uuid \<Rightarrow> PanelId \<Rightarrow> OrderPanelAction \<Rightarrow> MidasApp \<Rightarrow> MidasApp" where
  "handle_panel_action clock ids pid action app =
     (case action of
        PSetBracketMode mode \<Rightarrow> panel_set_bracket_mode clock pid mode app
      | PSetEntryType ty \<Rightarrow> panel_set_entry_type clock pid ty app
      | PConfirmYes \<Rightarrow> panel_confirm_yes clock ids pid app
      | _ \<Rightarrow> panel_edit_action clock pid action app)"

end
