(* ===== verification/Ticker_Props.thy ===== *)
theory Ticker_Props imports Ticker_Apply begin

text \<open>
  What the reducer of a ticker promises: the effects tell the whole change of the bracket, only one message
  submits, a snap can be taken back, and for a symbol that was never stored by the old version no snap
  ever happens.
\<close>

lemmas apply_defs = apply_set_bracket_mode_def apply_ensure_draft_def apply_cancel_bracket_def apply_save_bracket_def
  apply_delete_bracket_def apply_recall_bracket_def apply_set_leg_price_def apply_set_tp_enabled_def
  apply_set_sl_enabled_def apply_set_quantity_def apply_set_side_def apply_set_entry_type_def apply_drag_leg_def
  apply_begin_edit_def apply_update_edit_value_def apply_commit_edit_def apply_cancel_edit_def
  apply_toggle_pin_def apply_undo_snap_def apply_market_data_def apply_add_level_def apply_remove_level_def
  apply_update_level_def apply_toggle_level_lock_def apply_submit_order_def apply_order_pending_def
  apply_order_filled_def apply_order_partial_fill_def apply_order_rejected_def apply_order_cancelled_def
  apply_save_camera_def apply_commit_def apply_maybe_snap_def set_session_def

lemmas state_helpers = edit_bracket_def with_bracket_def bump_gen_def clear_live_def removal_effects_def
  persisting_def stop_editing_def

section \<open>Effects tell the change of the bracket\<close>

fun is_bracket_effect :: "TickerEffect \<Rightarrow> bool" where
  "is_bracket_effect (ProjectBracket b) = True"
| "is_bracket_effect (RemoveBracket i) = True"
| "is_bracket_effect _ = False"

definition bracket_effects :: "TickerEffect list \<Rightarrow> TickerEffect list" where
  "bracket_effects es = List.filter is_bracket_effect es"

text \<open>Nothing changed, the new bracket was projected, or the bracket was taken away.\<close>

definition tells_bracket :: "TickerState \<Rightarrow> outcome \<Rightarrow> bool" where
  "tells_bracket s r =
     (ts_live_bracket (fst r) = ts_live_bracket s \<and> ts_live_annotation_id (fst r) = ts_live_annotation_id s \<and>
        bracket_effects (snd r) = []
      \<or> (\<exists>b. ts_live_bracket (fst r) = Some b \<and> ts_live_annotation_id (fst r) = ts_live_annotation_id s \<and>
             bracket_effects (snd r) = [ProjectBracket b])
      \<or> ts_live_bracket (fst r) = None \<and> ts_live_annotation_id (fst r) = None \<and>
        bracket_effects (snd r) = (case ts_live_annotation_id s of None \<Rightarrow> [] | Some i \<Rightarrow> [RemoveBracket i]))"

lemma apply_tells_bracket: "tells_bracket s (ticker_apply clock msg s)"
  by (cases msg)
     (auto simp: apply_defs state_helpers tells_bracket_def bracket_effects_def Let_def
       split: option.splits prod.splits if_splits)

text \<open>Only \<open>SubmitOrder\<close> sends an order, and it sends the live bracket, marked as pending.\<close>

lemma only_submits:
  "SubmitToBroker b \<in> set (snd (ticker_apply clock msg s)) \<longleftrightarrow>
     msg = SubmitOrder \<and> (\<exists>live. ts_live_bracket s = Some live \<and> b = live\<lparr> ob_status := Pending \<rparr>)"
  by (cases msg)
     (auto simp: apply_defs state_helpers Let_def split: option.splits prod.splits if_splits)

section \<open>The snap rule\<close>

lemma entries_is_empty: "entries_is_empty es \<longleftrightarrow> es = (\<lambda>_. None)"
  using all_compound_keys by (auto simp: entries_is_empty_def list_all_iff fun_eq_iff)

text \<open>
  C22: A snap that is taken back within its time restores the entries, the anchor and the bracket, and
  projects the old bracket: of the whole state only the generation has moved on.
\<close>

theorem undo_restores_the_state:
  assumes "snap_due (utc_now clock) price gatr s = Some due"
    and "instant_now clock' - instant_now clock \<le> SNAP_UNDO_TTL"
  shows "ticker_apply clock' UndoSnap (fst (ticker_apply clock (MaybeSnap price gatr) s)) =
    (s\<lparr> ts_generation := ts_generation s + 2, ts_pre_snap := None \<rparr>,
     (case ts_live_bracket s of None \<Rightarrow> [] | Some b \<Rightarrow> [ProjectBracket b]) @ [PersistDirty])"
  using assms
  by (cases due; cases s)
     (auto simp: apply_maybe_snap_def apply_undo_snap_def pre_snap_of_def state_helpers Let_def split: option.splits)

text \<open>The state of an old version: an anchor at 100, last written an hour ago, and a bracket.\<close>

definition anchored_state :: TickerState where
  "anchored_state = (TickerState_new 0 ''SPY'')\<lparr>
     ts_gatr_anchor := \<lparr> anchor_price = Some f64_lit_100, anchor_gatr = Some f64_one \<rparr>,
     ts_live_bracket := Some (fresh_bracket Buy Limit (default_initial_prices Buy Limit f64_lit_100 (Some f64_one))) \<rparr>"

lemma anchored_due:
  "snap_due (3600 * 1000000000) 4639481672377565184 (Some f64_two) anchored_state = Some (f64_two, f64_lit_100)"
  by (simp add: snap_due_def anchored_state_def TickerState_new_def num_seconds_def RECENCY_GUARD_SECS_def) code_simp

theorem undo_restores_the_state_witness:
  "snd (ticker_apply \<lparr> utc_now = 0, instant_now = 30000000000 \<rparr> UndoSnap
     (fst (ticker_apply \<lparr> utc_now = 3600 * 1000000000, instant_now = 0 \<rparr>
        (MaybeSnap 4639481672377565184 (Some f64_two)) anchored_state))) =
   [ProjectBracket (fresh_bracket Buy Limit (default_initial_prices Buy Limit f64_lit_100 (Some f64_one))), PersistDirty]"
  using undo_restores_the_state [of "\<lparr> utc_now = 3600 * 1000000000, instant_now = 0 \<rparr>" 4639481672377565184
      "Some f64_two" anchored_state "(f64_two, f64_lit_100)" "\<lparr> utc_now = 0, instant_now = 30000000000 \<rparr>"] anchored_due
  by (simp add: SNAP_UNDO_TTL_def anchored_state_def)

text \<open>The messages a symbol receives, each with its clock.\<close>

fun ticker_run :: "(TickerClock \<times> TickerMsg) list \<Rightarrow> TickerState \<Rightarrow> TickerState" where
  "ticker_run [] s = s"
| "ticker_run ((clock, msg) # ms) s = ticker_run ms (fst (ticker_apply clock msg s))"

definition never_anchored :: "TickerState \<Rightarrow> bool" where
  "never_anchored s \<longleftrightarrow> ts_entries s = (\<lambda>_. None) \<and> ts_gatr_anchor s = GatrAnchor_default \<and> ts_pre_snap s = None"

lemma never_anchored_due: "never_anchored s \<Longrightarrow> snap_due now price gatr s = None"
  by (auto simp: never_anchored_def snap_due_def GatrAnchor_default_def split: option.splits)

lemma never_anchored_snap: "never_anchored s \<Longrightarrow> apply_maybe_snap clock price gatr s = (s, [])"
  by (simp add: apply_maybe_snap_def never_anchored_due)

lemma never_anchored_market:
  "never_anchored s \<Longrightarrow> apply_market_data clock price gatr s = (s\<lparr> ts_last_price := Some price, ts_gatr_abs := gatr \<rparr>, [])"
  using never_anchored_snap [of "s\<lparr> ts_last_price := Some price, ts_gatr_abs := gatr \<rparr>"]
  by (simp add: apply_market_data_def Let_def never_anchored_def)

lemma never_anchored_apply:
  assumes "never_anchored s"
  shows "never_anchored (fst (ticker_apply clock msg s))"
proof (cases msg)
  case (MaybeSnap price gatr)
  then show ?thesis using assms by (simp add: never_anchored_snap)
next
  case (UpdateMarketData price gatr)
  then show ?thesis using assms by (simp add: never_anchored_market never_anchored_def)
qed (use assms in \<open>auto simp: apply_defs state_helpers never_anchored_def Let_def
       split: option.splits prod.splits if_splits\<close>)

lemma never_anchored_run: "never_anchored s \<Longrightarrow> never_anchored (ticker_run ms s)"
  by (induction ms s rule: ticker_run.induct) (simp_all add: never_anchored_apply)

text \<open>
  C25: For a symbol that starts fresh no message ever writes its anchor or its entry memory: after any
  history the snap rule changes nothing, whatever the price, and the memory it would shift is empty.
\<close>

theorem fresh_symbols_never_snap:
  "ticker_apply clock (MaybeSnap price gatr) (ticker_run ms (TickerState_new now symbol)) =
     (ticker_run ms (TickerState_new now symbol), []) \<and>
   active_entry_memory (ticker_run ms (TickerState_new now symbol)) = EntryMemory_default"
proof -
  have "never_anchored (ticker_run ms (TickerState_new now symbol))"
    by (rule never_anchored_run) (simp add: never_anchored_def TickerState_new_def)
  then show ?thesis
    by (simp add: never_anchored_snap) (simp add: never_anchored_def active_entry_memory_def)
qed

section \<open>Default prices\<close>

text \<open>
  The default prices of a draft against the validation of a bracket. All prices are below 2^36, where a
  rounded result is within 2^-15 of the exact one, and the step is at least a cent: rounding cannot
  reverse the order of prices that are half a step apart.
\<close>

lemma mag_rnd_error:
  assumes "0 \<le> v"
  shows "\<bar>mag_val (mag_rnd v) - v\<bar> \<le> v / 2 ^ 52 + 2 powi (- 1074)"
proof -
  obtain b where b: "mag_at v b" using mag_at_exists [OF assms] by blast
  then have at: "0 \<le> b" "mag_val b \<le> v" "v < mag_val b + 2 powi mag_expo b"
    using mag_val_succ [of b] by (auto simp: mag_at_def)
  have "mag_rnd v = b \<or> mag_rnd v = b + 1" using mag_rnd_at [OF b] by (auto simp: mag_nearest_def)
  then have "\<bar>mag_val (mag_rnd v) - v\<bar> \<le> 2 powi mag_expo b"
    using at mag_val_succ [OF at(1)] by auto
  also have "\<dots> \<le> v / 2 ^ 52 + 2 powi (- 1074)"
  proof (cases "b < 2 ^ 52")
    case True
    then show ?thesis using assms by (simp add: mag_expo_def)
  next
    case False
    then have "2 ^ 52 \<le> mag_mant b" by (simp add: mag_mant_def)
    then have "(2 ^ 52 :: real) \<le> of_int (mag_mant b)" by (metis of_int_le_iff of_int_numeral of_int_power)
    then have "2 ^ 52 * 2 powi mag_expo b \<le> mag_val b"
      unfolding mag_val_def by (intro mult_right_mono) simp_all
    then have "2 powi mag_expo b \<le> v / 2 ^ 52" using at(2) by (simp add: field_simps)
    moreover have "0 < (2 :: real) powi (- 1074)" by (rule zero_less_power_int) simp
    ultimately show ?thesis by linarith
  qed
  finally show ?thesis .
qed

lemma rnd_error:
  assumes "f64_is_finite x" "f64_key x = f64_rnd v"
  shows "\<bar>f64_val x - v\<bar> \<le> \<bar>v\<bar> / 2 ^ 52 + 2 powi (- 1074)"
proof (cases "v < 0")
  case True
  have nn: "0 \<le> mag_rnd (- v)" using True by (intro mag_rnd_nonneg) simp
  have "mag_rnd (- v) < f64_inf_bits" using assms True by (auto simp: f64_rnd_def f64_finite_key)
  then have "f64_key x = - mag_rnd (- v)" using assms(2) True by (simp add: f64_rnd_def)
  then have "f64_val x = - mag_val (mag_rnd (- v))" using nn by (simp add: f64_val_key)
  then show ?thesis using mag_rnd_error [of "- v"] True by simp
next
  case False
  have nn: "0 \<le> mag_rnd v" using False by (intro mag_rnd_nonneg) simp
  have "mag_rnd v < f64_inf_bits" using assms False by (auto simp: f64_rnd_def f64_finite_key)
  then have "f64_key x = mag_rnd v" using assms(2) False by (simp add: f64_rnd_def)
  then have "f64_val x = mag_val (mag_rnd v)" using nn by (simp add: f64_val_key)
  then show ?thesis using mag_rnd_error [of v] False by simp
qed

text \<open>Close to the exact value, and finite.\<close>

definition near :: "f64 \<Rightarrow> real \<Rightarrow> bool" where
  "near x v \<longleftrightarrow> f64_is_finite x \<and> v - 1 / 32768 \<le> f64_val x \<and> f64_val x \<le> v + 1 / 32768"

lemma near_rnd:
  assumes "f64_key x = f64_rnd v" "\<bar>v\<bar> \<le> 2 ^ 36"
  shows "near x v"
proof -
  have big: "f64_is_finite (f64_of_int (2 ^ 36))" "f64_val (f64_of_int (2 ^ 36)) = 2 ^ 36"
    using f64_int_of_int [of "2 ^ 36"] by (simp_all add: f64_int_def)
  have fin: "f64_is_finite x"
    using rnd_between [of "f64_neg (f64_of_int (2 ^ 36))" "f64_of_int (2 ^ 36)" v x] assms big
    by (simp add: f64_neg_facts abs_le_iff)
  have "(2 :: real) powi (- 1074) \<le> 2 powi (- 16)" by (intro power_int_increasing) simp_all
  then have "\<bar>v\<bar> / 2 ^ 52 + 2 powi (- 1074) \<le> (1 / 32768 :: real)"
    using assms(2) by (simp add: power_int_minus field_simps)
  with rnd_error [OF fin assms(1)] have "\<bar>f64_val x - v\<bar> \<le> 1 / 32768" by linarith
  then have "v - 1 / 32768 \<le> f64_val x" "f64_val x \<le> v + 1 / 32768" by linarith+
  with fin show ?thesis by (simp add: near_def)
qed

lemma near_ops:
  assumes "f64_is_finite x" "f64_is_finite y"
  shows "\<bar>f64_val x + f64_val y\<bar> \<le> 2 ^ 36 \<Longrightarrow> near (f64_add x y) (f64_val x + f64_val y)"
    and "\<bar>f64_val x - f64_val y\<bar> \<le> 2 ^ 36 \<Longrightarrow> near (f64_sub x y) (f64_val x - f64_val y)"
    and "\<bar>f64_val x * f64_val y\<bar> \<le> 2 ^ 36 \<Longrightarrow> near (f64_mul x y) (f64_val x * f64_val y)"
  using f64_add_rnd(1) [OF assms] f64_sub_rnd(1) [OF assms] f64_mul_rnd(1) [OF assms]
  by (simp_all add: near_rnd)

lemma f64_abs_facts: "f64_is_finite x \<Longrightarrow> f64_is_finite (f64_abs x)" "f64_val (f64_abs x) = \<bar>f64_val x\<bar>"
proof -
  have m: "f64_mag (f64_abs x) = f64_mag x" "\<not> f64_negative (f64_abs x)"
    using f64_make_parts [of "f64_mag x" False] f64_mag_range [of x] by (simp_all add: f64_abs_def)
  then show "f64_is_finite x \<Longrightarrow> f64_is_finite (f64_abs x)" by (simp add: f64_is_finite_def)
  show "f64_val (f64_abs x) = \<bar>f64_val x\<bar>"
    using m mag_val_nonneg [OF f64_mag_range(1) [of x]] by (simp add: f64_val_def)
qed

lemma draft_literals:
  "f64_is_finite f64_lit_15" "f64_val f64_lit_15 = 3 / 2"
  "f64_is_finite f64_lit_001" "1 / 200 \<le> f64_val f64_lit_001" "f64_val f64_lit_001 \<le> 1"
  "f64_is_finite f64_lit_0005" "0 \<le> f64_val f64_lit_0005" "f64_val f64_lit_0005 \<le> 1 / 2"
proof -
  show "f64_is_finite f64_lit_15" "f64_is_finite f64_lit_001" "f64_is_finite f64_lit_0005" by code_simp+
  have "f64_mant f64_lit_15 = 6755399441055744" "f64_expo f64_lit_15 = - 52" "\<not> f64_negative f64_lit_15"
    "f64_mant f64_lit_001 = 5764607523034235" "f64_expo f64_lit_001 = - 59" "\<not> f64_negative f64_lit_001"
    "f64_mant f64_lit_0005 = 5764607523034235" "f64_expo f64_lit_0005 = - 60" "\<not> f64_negative f64_lit_0005"
    by code_simp+
  then show "f64_val f64_lit_15 = 3 / 2" "1 / 200 \<le> f64_val f64_lit_001" "f64_val f64_lit_001 \<le> 1"
    "0 \<le> f64_val f64_lit_0005" "f64_val f64_lit_0005 \<le> 1 / 2"
    by (simp_all add: f64_val_mant power_int_minus)
qed

text \<open>A price, and the G-ATR where it is one, of at most 2^33.\<close>

definition draft_inputs :: "f64 \<Rightarrow> f64 option \<Rightarrow> bool" where
  "draft_inputs p gatr \<longleftrightarrow> f64_is_finite p \<and> \<bar>f64_val p\<bar> \<le> 2 ^ 33
     \<and> (case gatr of None \<Rightarrow> True | Some g \<Rightarrow> f64_is_finite g \<longrightarrow> f64_val g \<le> 2 ^ 33)"

lemma step_bounds:
  assumes "draft_inputs p gatr"
  shows "f64_is_finite (resolve_step p gatr)" "1 / 200 \<le> f64_val (resolve_step p gatr)"
    "f64_val (resolve_step p gatr) \<le> 2 ^ 33"
proof -
  note p = assms [unfolded draft_inputs_def]
  note lit = draft_literals(3-8)
  have ab: "f64_is_finite (f64_abs p)" "f64_val (f64_abs p) = \<bar>f64_val p\<bar>" using f64_abs_facts p by simp_all
  have prod: "0 \<le> \<bar>f64_val p\<bar> * f64_val f64_lit_0005" "\<bar>f64_val p\<bar> * f64_val f64_lit_0005 \<le> 2 ^ 33 * (1 / 2)"
    using p lit(5,6) by (simp, intro mult_mono) simp_all
  then have nr: "near (f64_mul (f64_abs p) f64_lit_0005) (\<bar>f64_val p\<bar> * f64_val f64_lit_0005)"
    using near_ops(3) [OF ab(1) lit(4)] ab(2) by simp
  define step where "step = (case gatr of
      Some g \<Rightarrow> if f64_is_finite g \<and> f64_gt g f64_zero then g else f64_mul (f64_abs p) f64_lit_0005
    | None \<Rightarrow> f64_mul (f64_abs p) f64_lit_0005)"
  have "f64_is_finite (f64_mul (f64_abs p) f64_lit_0005)" "f64_val (f64_mul (f64_abs p) f64_lit_0005) \<le> 2 ^ 33"
    using nr prod by (simp_all add: near_def)
  then have st: "f64_is_finite step" "f64_val step \<le> 2 ^ 33"
    using p by (auto simp: step_def split: option.splits)
  have "resolve_step p gatr = (if f64_lt step f64_lit_001 then f64_lit_001 else step)"
    using st(1) lit(1) by (simp add: resolve_step_def Let_def step_def [symmetric] f64_max_def f64_finite_not_nan)
  then show "f64_is_finite (resolve_step p gatr)" "1 / 200 \<le> f64_val (resolve_step p gatr)"
    "f64_val (resolve_step p gatr) \<le> 2 ^ 33"
    using st lit f64_lt_val [OF st(1) lit(1)] by auto
qed

text \<open>The entry of a draft is this many steps away from the price; the stop loss one step behind it.\<close>

fun draft_offset :: "OrderSide \<Rightarrow> EntryType \<Rightarrow> real" where
  "draft_offset side Market = 0"
| "draft_offset Buy Limit = - 1" | "draft_offset Sell Limit = 1"
| "draft_offset Buy Stop = 1" | "draft_offset Sell Stop = - 1"
| "draft_offset Buy StopLimit = 3 / 2" | "draft_offset Sell StopLimit = - (3 / 2)"

definition toward :: "OrderSide \<Rightarrow> real" where
  "toward side = (case side of Buy \<Rightarrow> 1 | Sell \<Rightarrow> - 1)"

lemma default_prices_near:
  fixes side :: OrderSide and ty :: EntryType
  assumes "draft_inputs p gatr"
  defines "w \<equiv> f64_val (resolve_step p gatr)" and "ip \<equiv> default_initial_prices side ty p gatr"
  shows "f64_is_finite (ip_entry ip)"
    and "f64_val p + draft_offset side ty * w - 1 / 16384 \<le> f64_val (ip_entry ip)"
    and "f64_val (ip_entry ip) \<le> f64_val p + draft_offset side ty * w + 1 / 16384"
    and "near (ip_stop_loss ip) (f64_val (ip_entry ip) - toward side * w)"
    and "if ty = StopLimit then \<exists>t. ip_stop_trigger ip = Some t \<and> near t (f64_val p + toward side * w)
         else ip_stop_trigger ip = None"
proof -
  let ?st = "resolve_step p gatr" and ?h = "f64_mul f64_lit_15 (resolve_step p gatr)"
  have p: "f64_is_finite p" "- (2 ^ 33) \<le> f64_val p" "f64_val p \<le> 2 ^ 33"
    using assms(1) by (simp_all add: draft_inputs_def abs_le_iff)
  have st: "f64_is_finite ?st" "1 / 200 \<le> w" "w \<le> 2 ^ 33" using step_bounds [OF assms(1)] by (simp_all add: w_def)
  note ops = near_ops [OF _ st(1), folded w_def]
  have up: "near (f64_add p ?st) (f64_val p + w)" and down: "near (f64_sub p ?st) (f64_val p - w)"
    by (rule ops [OF p(1)]; use p(2,3) st(2,3) in \<open>simp add: abs_le_iff\<close>)+
  have half: "near ?h (3 / 2 * w)"
    using ops(3) [OF draft_literals(1)] st(2,3) by (simp add: draft_literals(2))
  then have h: "f64_is_finite ?h" "3 / 2 * w - 1 / 32768 \<le> f64_val ?h" "f64_val ?h \<le> 3 / 2 * w + 1 / 32768"
    by (simp_all add: near_def)
  have up3: "near (f64_add p ?h) (f64_val p + f64_val ?h)" and down3: "near (f64_sub p ?h) (f64_val p - f64_val ?h)"
    by (rule near_ops [OF p(1) h(1)]; use h(2,3) p(2,3) st(2,3) in \<open>simp add: abs_le_iff\<close>)+
  have "f64_is_finite (ip_entry ip) \<and> f64_val p + draft_offset side ty * w - 1 / 16384 \<le> f64_val (ip_entry ip)
      \<and> f64_val (ip_entry ip) \<le> f64_val p + draft_offset side ty * w + 1 / 16384"
    using p(1) up down up3 down3 h(2,3)
    by (cases side; cases ty) (simp_all add: ip_def default_initial_prices_def Let_def near_def)
  then show entry: "f64_is_finite (ip_entry ip)"
    "f64_val p + draft_offset side ty * w - 1 / 16384 \<le> f64_val (ip_entry ip)"
    "f64_val (ip_entry ip) \<le> f64_val p + draft_offset side ty * w + 1 / 16384" by blast+
  define D where "D = draft_offset side ty * w"
  have D: "- (3 / 2 * w) \<le> D" "D \<le> 3 / 2 * w"
    using st(2) unfolding D_def by (cases side; cases ty; simp)+
  have sl: "near (f64_sub (ip_entry ip) ?st) (f64_val (ip_entry ip) - w)"
    "near (f64_add (ip_entry ip) ?st) (f64_val (ip_entry ip) + w)"
    by (rule ops [OF entry(1)]; use entry(2,3) [folded D_def] p(2,3) st(2,3) D in \<open>simp add: abs_le_iff\<close>)+
  have "ip_stop_loss ip = (case side of Buy \<Rightarrow> f64_sub (ip_entry ip) ?st | Sell \<Rightarrow> f64_add (ip_entry ip) ?st)"
    by (cases side; cases ty) (simp_all add: ip_def default_initial_prices_def Let_def)
  with sl show "near (ip_stop_loss ip) (f64_val (ip_entry ip) - toward side * w)"
    by (cases side) (simp_all add: toward_def)
  show "if ty = StopLimit then \<exists>t. ip_stop_trigger ip = Some t \<and> near t (f64_val p + toward side * w)
         else ip_stop_trigger ip = None"
    using up down by (cases side; cases ty) (simp_all add: ip_def default_initial_prices_def Let_def toward_def)
qed

lemma positive_not_le: "f64_gt q f64_zero \<Longrightarrow> \<not> f64_le q f64_zero"
  using f64_lt_le_trans [of f64_zero q f64_zero] by auto

lemma f64_zero_finite: "f64_is_finite f64_zero" "f64_val f64_zero = 0"
  using f64_int_consts(1) by (simp_all add: f64_int_def)

text \<open>
  C23: For every price of at most 2^33 in size and every G-ATR of at most 2^33, or none, or one that is
  not a finite positive number: the default draft of a stop-limit order never passes the validation of
  its own panel, on either side; the default draft of another type passes exactly if its entry price is
  positive. If moreover the price is at least two steps (the G-ATR, or half a percent of the price, and
  at least a cent), the one error of the stop-limit draft is that its limit lies beyond its trigger, and
  the other drafts pass.
\<close>

theorem default_stop_limit_draft_is_invalid:
  assumes "draft_inputs p gatr" and "f64_gt q f64_zero"
  shows "(ty = StopLimit \<longrightarrow> validate_chart_bracket (fresh_bracket side ty (default_initial_prices side ty p gatr)) q \<noteq> [])
    \<and> (ty \<noteq> StopLimit \<longrightarrow> (validate_chart_bracket (fresh_bracket side ty (default_initial_prices side ty p gatr)) q = []
         \<longleftrightarrow> f64_gt (ip_entry (default_initial_prices side ty p gatr)) f64_zero))
    \<and> (2 * f64_val (resolve_step p gatr) \<le> f64_val p \<longrightarrow>
         validate_chart_bracket (fresh_bracket side ty (default_initial_prices side ty p gatr)) q =
           (if ty = StopLimit
            then [(''entry'', if side = Buy then ''Limit price must be at or below stop for BUY''
                              else ''Limit price must be at or above stop for SELL'')]
            else []))"
proof -
  let ?ip = "default_initial_prices side ty p gatr" and ?w = "f64_val (resolve_step p gatr)"
  let ?e = "ip_entry ?ip" and ?s = "ip_stop_loss ?ip"
  note w = step_bounds [OF assms(1)] and prices = default_prices_near [OF assms(1), where side = side and ty = ty]
  have fin: "f64_is_finite ?e" "f64_is_finite ?s" using prices(1,4) by (simp_all add: near_def)
  have s: "f64_val ?e - toward side * ?w - 1 / 32768 \<le> f64_val ?s" "f64_val ?s \<le> f64_val ?e - toward side * ?w + 1 / 32768"
    using prices(4) by (simp_all add: near_def)
  have sl: "side = Buy \<Longrightarrow> \<not> f64_le ?e ?s" "side = Sell \<Longrightarrow> \<not> f64_le ?s ?e"
    unfolding f64_le_val [OF fin] f64_le_val [OF fin(2,1)] using s w(2) by (simp_all add: toward_def)
  have pos: "f64_le ?e f64_zero \<longleftrightarrow> \<not> f64_gt ?e f64_zero"
    using f64_not_le [of ?e f64_zero] fin f64_zero_finite by (auto simp: f64_finite_not_nan)
  have "- (3 / 2 * ?w) \<le> draft_offset side ty * ?w" using w(2) by (cases side; cases ty; simp)
  then have pos2: "2 * ?w \<le> f64_val p \<Longrightarrow> \<not> f64_le ?e f64_zero"
    unfolding f64_le_val [OF fin(1) f64_zero_finite(1)] f64_zero_finite(2) using prices(2) w(2) by linarith
  note v = validate_chart_bracket_def entry_errors_def stop_loss_errors_def fresh_bracket_def
    make_leg_def to_bracket_side_def Let_def
  show ?thesis
  proof (cases "ty = StopLimit")
    case True
    then obtain t where t: "ip_stop_trigger ?ip = Some t" "near t (f64_val p + toward side * ?w)"
      using prices(5) by auto
    then have tf: "f64_is_finite t" "f64_val p + toward side * ?w - 1 / 32768 \<le> f64_val t"
      "f64_val t \<le> f64_val p + toward side * ?w + 1 / 32768" by (simp_all add: near_def)
    have off: "draft_offset side ty * ?w = 3 / 2 * (toward side * ?w)"
      using True by (cases side) (simp_all add: toward_def)
    have T: "side = Buy \<Longrightarrow> toward side * ?w = ?w" "side = Sell \<Longrightarrow> toward side * ?w = - ?w"
      by (simp_all add: toward_def)
    have beyond: "f64_lt t ?e" if "side = Buy"
      unfolding f64_lt_val [OF tf(1) fin(1)] using prices(2) tf(3) w(2) off T(1) [OF that] by linarith
    have beyond': "f64_lt ?e t" if "side = Sell"
      unfolding f64_lt_val [OF fin(1) tf(1)] using prices(3) tf(2) w(2) off T(2) [OF that] by linarith
    have "- ?w \<le> toward side * ?w" using w(2) by (cases side) (simp_all add: toward_def)
    then have tpos: "2 * ?w \<le> f64_val p \<Longrightarrow> \<not> f64_le t f64_zero"
      unfolding f64_le_val [OF tf(1) f64_zero_finite(1)] f64_zero_finite(2) using tf(2) w(2) by linarith
    show ?thesis
      using True t(1) beyond beyond' sl pos2 tpos positive_not_le [OF assms(2)] by (cases side) (simp_all add: v)
  next
    case False
    with prices(5) have "ip_stop_trigger ?ip = None" by simp
    then show ?thesis
      using False sl pos pos2 positive_not_le [OF assms(2)] by (cases side; cases ty) (simp_all add: v)
  qed
qed

lemma step_is_gatr:
  assumes "f64_int g G" and "1 \<le> G"
  shows "resolve_step p (Some g) = g"
proof -
  have g: "f64_is_finite g" "1 \<le> f64_val g" using assms by (simp_all add: f64_int_def)
  have "f64_lt f64_zero g" "\<not> f64_lt g f64_lit_001"
    using g draft_literals(5) by (simp_all add: f64_lt_val f64_zero_finite draft_literals(3))
  then show ?thesis using g(1) draft_literals(3) by (simp add: resolve_step_def Let_def f64_max_def f64_finite_not_nan)
qed

lemma f64_int_two: "f64_int f64_two 2"
proof -
  have "f64_of_int 2 = f64_two" by code_simp
  then show ?thesis using f64_int_of_int [of 2] by simp
qed

theorem default_stop_limit_draft_is_invalid_witness:
  "validate_chart_bracket (fresh_bracket Buy StopLimit
     (default_initial_prices Buy StopLimit f64_lit_100 (Some f64_two))) f64_one =
   [(''entry'', ''Limit price must be at or below stop for BUY'')]
   \<and> validate_chart_bracket (fresh_bracket Sell Limit (default_initial_prices Sell Limit f64_lit_100 (Some f64_two))) f64_one = []"
proof -
  have "f64_of_int 100 = f64_lit_100" by code_simp
  then have p: "f64_is_finite f64_lit_100" "f64_val f64_lit_100 = 100"
    using f64_int_of_int [of 100] by (simp_all add: f64_int_def)
  have two: "f64_val f64_two = 2" "resolve_step f64_lit_100 (Some f64_two) = f64_two"
    using f64_int_two step_is_gatr [OF f64_int_two] by (simp_all add: f64_int_def)
  have i: "draft_inputs f64_lit_100 (Some f64_two)" by (simp add: draft_inputs_def p two)
  have q: "f64_gt f64_one f64_zero" by code_simp
  show ?thesis
    using default_stop_limit_draft_is_invalid [OF i q, of StopLimit Buy]
      default_stop_limit_draft_is_invalid [OF i q, of Limit Sell] by (simp add: p two)
qed

end
