(* ===== verification/Annot_Store_Props.thy ===== *)
theory Annot_Store_Props imports Annot_Store begin

text \<open>
  The annotation store behaves as a function from symbols to lists of annotations with a counter of
  identities above them. Identities are never shared and never given out twice; the levels of a
  configuration come back from the store.
\<close>

section \<open>The store as a function\<close>

definition annotations_of :: "AnnotationStore \<Rightarrow> string \<Rightarrow> Annotation list" where
  "annotations_of s key = (case map_of (by_symbol s) key of None \<Rightarrow> [] | Some sa \<Rightarrow> sa_annotations sa)"

named_theorems store_views

lemma store_get_view: "store_get symbol s = annotations_of s (SymbolKey_new symbol)"
  by (simp add: store_get_def annotations_of_def)

lemma bump_view [store_views]:
  "annotations_of (bump_generation key s) = annotations_of s" "next_id (bump_generation key s) = next_id s"
  by (auto simp: annotations_of_def bump_generation_def update_conv' fun_eq_iff split: option.splits)

lemma push_view [store_views]:
  "annotations_of (push_annotation key a s) = (annotations_of s)(key := annotations_of s key @ [a])"
  "next_id (push_annotation key a s) = next_id s"
  by (auto simp: annotations_of_def push_annotation_def SymbolAnnotations_new_def update_conv' Let_def fun_eq_iff
      split: option.splits)

lemma set_view [store_views]:
  "annotations_of (set_annotations key sa anns s) = (annotations_of s)(key := anns)"
  "next_id (set_annotations key sa anns s) = next_id s"
  by (auto simp: annotations_of_def set_annotations_def update_conv' fun_eq_iff)

lemma next_id_view [store_views]:
  "annotations_of (s\<lparr> next_id := i \<rparr>) = annotations_of s" "next_id (s\<lparr> next_id := i \<rparr>) = i"
  by (simp_all add: annotations_of_def fun_eq_iff)

lemma new_view [store_views]: "annotations_of AnnotationStore_new = (\<lambda>_. [])" "next_id AnnotationStore_new = 1"
  by (simp_all add: AnnotationStore_new_def annotations_of_def fun_eq_iff)

definition new_annotation :: "int \<Rightarrow> AnnotationId \<Rightarrow> AnnotationKind \<Rightarrow> bool \<Rightarrow> Annotation" where
  "new_annotation now i kind locked =
     \<lparr> ann_id = i, ann_kind = kind, ann_presence = Present, ann_visible_timeframes = None,
       ann_locked = locked, ann_created_at = now, ann_modified_at = now \<rparr>"

lemma add_view [store_views]:
  "store_add now symbol kind s = (next_id s, snd (store_add now symbol kind s))"
  "annotations_of (snd (store_add now symbol kind s)) = (annotations_of s)(SymbolKey_new symbol :=
     annotations_of s (SymbolKey_new symbol) @ [new_annotation now (next_id s) kind False])"
  "next_id (snd (store_add now symbol kind s)) = next_id s + 1"
  by (simp_all add: store_add_def Let_def store_views new_annotation_def)

lemma annotations_at:
  "map_of (by_symbol s) k = None \<Longrightarrow> annotations_of s k = []"
  "map_of (by_symbol s) k = Some sa \<Longrightarrow> annotations_of s k = sa_annotations sa"
  by (simp_all add: annotations_of_def)

definition first_removed :: "(Annotation \<Rightarrow> bool) \<Rightarrow> Annotation list \<Rightarrow> Annotation list" where
  "first_removed P xs = (case remove_first P xs of None \<Rightarrow> xs | Some ys \<Rightarrow> ys)"

definition first_updated :: "(Annotation \<Rightarrow> bool) \<Rightarrow> (Annotation \<Rightarrow> Annotation) \<Rightarrow> Annotation list \<Rightarrow> Annotation list" where
  "first_updated P f xs = (case update_first P f xs of None \<Rightarrow> xs | Some ys \<Rightarrow> ys)"

lemma remove_view [store_views]:
  "annotations_of (snd (remove_where P symbol s)) = (annotations_of s)(SymbolKey_new symbol :=
     first_removed P (annotations_of s (SymbolKey_new symbol)))"
  "next_id (snd (remove_where P symbol s)) = next_id s"
  by (cases "map_of (by_symbol s) (SymbolKey_new symbol)";
      auto simp: remove_where_def Let_def store_views first_removed_def annotations_at fun_upd_idem split: option.splits)+

lemma update_view [store_views]:
  "annotations_of (snd (update_where P symbol f s)) = (annotations_of s)(SymbolKey_new symbol :=
     first_updated P f (annotations_of s (SymbolKey_new symbol)))"
  "next_id (snd (update_where P symbol f s)) = next_id s"
  by (cases "map_of (by_symbol s) (SymbolKey_new symbol)";
      auto simp: update_where_def Let_def store_views first_updated_def annotations_at fun_upd_idem split: option.splits)+

lemma clear_view [store_views]:
  "annotations_of (store_clear symbol s) = (annotations_of s)(SymbolKey_new symbol := [])"
  "next_id (store_clear symbol s) = next_id s"
  by (cases "map_of (by_symbol s) (SymbolKey_new symbol)";
      auto simp: store_clear_def Let_def store_views annotations_at fun_upd_idem split: option.splits)+

lemma retain_view [store_views]:
  "annotations_of (snd (store_retain symbol pred s)) = (annotations_of s)(SymbolKey_new symbol :=
     List.filter pred (annotations_of s (SymbolKey_new symbol)))"
  "next_id (snd (store_retain symbol pred s)) = next_id s"
  by (cases "map_of (by_symbol s) (SymbolKey_new symbol)";
      auto simp: store_retain_def Let_def store_views annotations_at fun_upd_idem split: option.splits)+

lemma clear_levels_view [store_views]:
  "annotations_of (clear_levels symbol s) = (annotations_of s)(SymbolKey_new symbol :=
     List.filter (\<lambda>a. \<not> is_level a) (annotations_of s (SymbolKey_new symbol)))"
  "next_id (clear_levels symbol s) = next_id s"
  by (cases "map_of (by_symbol s) (SymbolKey_new symbol)";
      auto simp: clear_levels_def Let_def store_views annotations_at fun_upd_idem split: option.splits)+

lemma add_level_view [store_views]:
  "annotations_of (snd (add_level now symbol entry s)) = (annotations_of s)(SymbolKey_new symbol :=
     annotations_of s (SymbolKey_new symbol) @
       [new_annotation now (level_id (sl_level entry)) (LevelKind (sl_level entry)) (sl_locked entry)])"
  "next_id (snd (add_level now symbol entry s)) =
     (if level_id (sl_level entry) \<ge> next_id s then level_id (sl_level entry) + 1 else next_id s)"
  by (simp_all add: add_level_def Let_def store_views new_annotation_def)

section \<open>Identities\<close>

text \<open>Within a symbol and across symbols no two annotations share an identity; all are below the counter.\<close>

definition ids_ok :: "AnnotationStore \<Rightarrow> bool" where
  "ids_ok s \<longleftrightarrow>
     (\<forall>k. distinct (List.map ann_id (annotations_of s k)) \<and> (\<forall>a \<in> set (annotations_of s k). ann_id a < next_id s)) \<and>
     (\<forall>k l a b. k \<noteq> l \<longrightarrow> a \<in> set (annotations_of s k) \<longrightarrow> b \<in> set (annotations_of s l) \<longrightarrow> ann_id a \<noteq> ann_id b)"

lemma ids_ok_new: "ids_ok AnnotationStore_new"
  by (simp add: ids_ok_def store_views)

text \<open>A list of annotations takes the place of another: its identities are among the old ones.\<close>

lemma ids_ok_shrink:
  assumes "ids_ok s" and "annotations_of s' = (annotations_of s)(k := anns)" and "next_id s' = next_id s"
    and "distinct (List.map ann_id anns)" and "ann_id ` set anns \<subseteq> ann_id ` set (annotations_of s k)"
  shows "ids_ok s'"
proof -
  have sub: "\<exists>b \<in> set (annotations_of s k). ann_id b = ann_id a" if "a \<in> set anns" for a
    using assms(5) that by (metis imageE image_eqI subsetD)
  have old: "\<And>m n a b. m \<noteq> n \<Longrightarrow> a \<in> set (annotations_of s m) \<Longrightarrow> b \<in> set (annotations_of s n) \<Longrightarrow> ann_id a \<noteq> ann_id b"
    "\<And>m. distinct (List.map ann_id (annotations_of s m))" "\<And>m a. a \<in> set (annotations_of s m) \<Longrightarrow> ann_id a < next_id s"
    using assms(1) by (auto simp: ids_ok_def)
  have d: "ann_id a \<noteq> ann_id b" if ab: "m \<noteq> n" "a \<in> set (((annotations_of s)(k := anns)) m)" "b \<in> set (((annotations_of s)(k := anns)) n)"
    for m n a b
  proof -
    obtain a' where "a' \<in> set (annotations_of s m)" "ann_id a' = ann_id a"
      using ab(2) sub [of a] by (cases "m = k") auto
    moreover obtain b' where "b' \<in> set (annotations_of s n)" "ann_id b' = ann_id b"
      using ab(3) sub [of b] by (cases "n = k") auto
    ultimately show ?thesis using old(1) ab(1) by metis
  qed
  have "ann_id a < next_id s" if a: "a \<in> set (((annotations_of s)(k := anns)) m)" for m a
  proof -
    obtain a' where "a' \<in> set (annotations_of s m)" "ann_id a' = ann_id a"
      using a sub [of a] by (cases "m = k") auto
    then show ?thesis using old(3) by metis
  qed
  then show ?thesis using assms(2-4) old(2) d by (auto simp: ids_ok_def)
qed

lemma word_succ: "unat (n :: u64) + 1 < 2 ^ 64 \<Longrightarrow> unat (n + 1) = unat n + 1"
  by (simp add: unat_word_ariths)

lemma below_succ: "unat (n :: u64) + 1 < 2 ^ 64 \<Longrightarrow> i < n + 1 \<longleftrightarrow> i < n \<or> i = n"
  by (auto simp: word_less_nat_alt word_succ less_Suc_eq simp flip: word_unat_eq_iff)

lemma ids_ok_push:
  assumes "ids_ok s" and "annotations_of s' = (annotations_of s)(k := annotations_of s k @ [a])"
    and "ann_id a = next_id s" and "next_id s' = next_id s + 1" and "unat (next_id s) + 1 < 2 ^ 64"
  shows "ids_ok s'"
proof -
  note lt = below_succ [OF assms(5)]
  have old: "\<And>m n a b. m \<noteq> n \<Longrightarrow> a \<in> set (annotations_of s m) \<Longrightarrow> b \<in> set (annotations_of s n) \<Longrightarrow> ann_id a \<noteq> ann_id b"
    "\<And>m. distinct (List.map ann_id (annotations_of s m))" "\<And>m a. a \<in> set (annotations_of s m) \<Longrightarrow> ann_id a < next_id s"
    using assms(1) by (auto simp: ids_ok_def)
  have below: "a \<in> set (annotations_of s m) \<Longrightarrow> ann_id a \<noteq> next_id s" for m a using old(3) by fastforce
  show ?thesis
    unfolding ids_ok_def assms(2) assms(4)
    using old assms(3) below by (auto simp: lt image_iff dest: below)
qed

lemma first_removed_ids:
  assumes "distinct (List.map ann_id xs)"
  shows "distinct (List.map ann_id (first_removed P xs))" "set (first_removed P xs) \<subseteq> set xs"
  using assms remove_first_subseq [of P xs] by (auto simp: first_removed_def split: option.splits)

lemma first_updated_ids:
  assumes "\<And>a. ann_id (f a) = ann_id a"
  shows "List.map ann_id (first_updated P f xs) = List.map ann_id xs"
proof (cases "update_first P f xs")
  case (Some ys)
  then obtain x us vs where "xs = us @ x # vs" "ys = us @ f x # vs" using update_first_split by meson
  then show ?thesis using Some assms by (simp add: first_updated_def)
qed (simp add: first_updated_def)

lemma ids_ok_distinct: "ids_ok s \<Longrightarrow> distinct (List.map ann_id (annotations_of s k))"
  by (simp add: ids_ok_def)

lemma ids_ok_remove:
  assumes "ids_ok s"
  shows "ids_ok (snd (remove_where P symbol s))"
  by (rule ids_ok_shrink [OF assms remove_view])
     (intro first_removed_ids(1) image_mono first_removed_ids(2) ids_ok_distinct [OF assms])+

lemma ids_ok_update:
  assumes "ids_ok s" and "\<And>a. ann_id (f a) = ann_id a"
  shows "ids_ok (snd (update_where P symbol f s))"
proof (rule ids_ok_shrink [OF assms(1) update_view])
  note ids = first_updated_ids [of f, OF assms(2)]
  show "distinct (List.map ann_id (first_updated P f (annotations_of s (SymbolKey_new symbol))))"
    unfolding ids by (rule ids_ok_distinct [OF assms(1)])
  show "ann_id ` set (first_updated P f (annotations_of s (SymbolKey_new symbol)))
      \<subseteq> ann_id ` set (annotations_of s (SymbolKey_new symbol))"
    unfolding list.set_map [symmetric] ids by simp
qed

lemma ids_ok_filter:
  assumes "ids_ok s" and "annotations_of s' = (annotations_of s)(k := List.filter P (annotations_of s k))" and "next_id s' = next_id s"
  shows "ids_ok s'"
  by (rule ids_ok_shrink [OF assms]) (use ids_ok_distinct [OF assms(1)] in \<open>auto simp: distinct_map_filter\<close>)

section \<open>Histories of the store\<close>

datatype StoreOp =
    OpAdd int string AnnotationKind
  | OpRemove string AnnotationId
  | OpUpdate int string AnnotationId AnnotationKind Presence
  | OpClear string
  | OpRetain string "Annotation \<Rightarrow> bool"
  | OpAddLevel int string StoredLevel
  | OpRemoveLevel string u64
  | OpUpdateLevel int string u64 "HorizontalLevel \<times> bool \<Rightarrow> HorizontalLevel \<times> bool"
  | OpClearLevels string

text \<open>
  One call, with the identity it gives out. A level is added with an identity allocated for it: the two
  callers of \<open>add_level\<close>, the chart's action that creates a level and \<open>import_level_configs\<close>, do so.
\<close>

definition with_level_id :: "u64 \<Rightarrow> StoredLevel \<Rightarrow> StoredLevel" where
  "with_level_id i entry = entry\<lparr> sl_level := (sl_level entry)\<lparr> level_id := i \<rparr> \<rparr>"

fun store_op :: "StoreOp \<Rightarrow> AnnotationStore \<Rightarrow> AnnotationId list \<times> AnnotationStore" where
  "store_op (OpAdd now symbol kind) s = (case store_add now symbol kind s of (i, s) \<Rightarrow> ([i], s))"
| "store_op (OpRemove symbol i) s = ([], snd (store_remove symbol i s))"
| "store_op (OpUpdate now symbol i kind p) s =
     ([], snd (store_update now symbol i (\<lambda>a. a\<lparr> ann_kind := kind, ann_presence := p \<rparr>) s))"
| "store_op (OpClear symbol) s = ([], store_clear symbol s)"
| "store_op (OpRetain symbol pred) s = ([], snd (store_retain symbol pred s))"
| "store_op (OpAddLevel now symbol entry) s =
     (case alloc_level_id s of (i, s) \<Rightarrow> ([i], snd (add_level now symbol (with_level_id i entry) s)))"
| "store_op (OpRemoveLevel symbol i) s = ([], snd (remove_level symbol i s))"
| "store_op (OpUpdateLevel now symbol i f) s = ([], snd (update_level now symbol i f s))"
| "store_op (OpClearLevels symbol) s = ([], clear_levels symbol s)"

fun store_run :: "StoreOp list \<Rightarrow> AnnotationStore \<Rightarrow> AnnotationId list \<times> AnnotationStore" where
  "store_run [] s = ([], s)"
| "store_run (x # xs) s = (case store_op x s of (is, s) \<Rightarrow> (case store_run xs s of (js, s) \<Rightarrow> (is @ js, s)))"

lemma edit_level_id: "ann_id (edit_level now f a) = ann_id a"
  by (simp add: edit_level_def split: AnnotationKind.splits prod.splits)

lemma store_op_step:
  assumes "ids_ok s" and "unat (next_id s) + 1 < 2 ^ 64"
  shows "ids_ok (snd (store_op x s)) \<and>
    (fst (store_op x s) = [] \<and> next_id (snd (store_op x s)) = next_id s \<or>
     fst (store_op x s) = [next_id s] \<and> next_id (snd (store_op x s)) = next_id s + 1)"
proof (cases x)
  case (OpAdd now symbol kind)
  have "ids_ok (snd (store_add now symbol kind s))"
    by (rule ids_ok_push [OF assms(1) add_view(2) _ _ assms(2)]) (simp_all add: new_annotation_def add_view(3))
  moreover have "store_op x s = ([next_id s], snd (store_add now symbol kind s))"
    using OpAdd by (simp add: prod.case_eq_if store_add_def Let_def)
  ultimately show ?thesis by (simp add: add_view(3))
next
  case (OpAddLevel now symbol entry)
  let ?e = "with_level_id (next_id s) entry"
  let ?s = "snd (add_level now symbol ?e (s\<lparr> next_id := next_id s + 1 \<rparr>))"
  have lt: "\<not> next_id s + 1 \<le> next_id s"
    by (simp add: word_le_nat_alt word_succ [OF assms(2)])
  have n: "next_id ?s = next_id s + 1" using lt by (simp add: store_views with_level_id_def)
  have "ids_ok ?s"
    by (rule ids_ok_push [OF assms(1) _ _ _ assms(2), where a = "new_annotation now (next_id s)
         (LevelKind (sl_level ?e)) (sl_locked ?e)" and k = "SymbolKey_new symbol"])
       (simp_all add: store_views with_level_id_def lt, simp add: new_annotation_def)
  then show ?thesis using OpAddLevel n by (simp add: alloc_level_id_def)
next
  case (OpRetain symbol pred)
  then show ?thesis using ids_ok_filter [OF assms(1) retain_view] by (simp add: store_views)
next
  case (OpClear symbol)
  have "ids_ok (store_clear symbol s)"
    by (rule ids_ok_shrink [OF assms(1) clear_view]) simp_all
  then show ?thesis using OpClear by (simp add: store_views)
next
  case (OpClearLevels symbol)
  then show ?thesis using ids_ok_filter [OF assms(1) clear_levels_view] by (simp add: store_views)
qed (simp_all add: store_remove_def remove_level_def store_update_def update_level_def ids_ok_remove ids_ok_update
       edit_level_id assms(1) store_views)

lemma store_run_ids:
  assumes "ids_ok s" and "unat (next_id s) + length xs < 2 ^ 64"
  shows "ids_ok (snd (store_run xs s)) \<and> distinct (fst (store_run xs s)) \<and>
         (\<forall>i \<in> set (fst (store_run xs s)). next_id s \<le> i)"
  using assms
proof (induction xs arbitrary: s)
  case (Cons x xs)
  let ?s = "snd (store_op x s)"
  have n: "unat (next_id s) + 1 < 2 ^ 64" using Cons.prems(2) by simp
  have step: "ids_ok ?s" "fst (store_op x s) = [] \<and> next_id ?s = next_id s \<or>
     fst (store_op x s) = [next_id s] \<and> next_id ?s = next_id s + 1"
    using store_op_step [OF Cons.prems(1) n] by auto
  have u: "unat (next_id ?s) + length xs < 2 ^ 64" using step(2) Cons.prems(2) word_succ [OF n] by auto
  have ih: "ids_ok (snd (store_run xs ?s))" "distinct (fst (store_run xs ?s))"
    "\<forall>i \<in> set (fst (store_run xs ?s)). next_id ?s \<le> i" using Cons.IH [OF step(1) u] by auto
  have above: "next_id s < i" if "next_id s + 1 \<le> i" for i
    using that word_succ [OF n] by (simp add: word_le_nat_alt word_less_nat_alt)
  show ?case
    using step(2) ih above by (fastforce simp: prod.case_eq_if dest: less_imp_le)
qed simp

text \<open>The levels of the configuration are imported by such calls.\<close>

definition import_ops :: "int \<Rightarrow> (string \<times> LevelConfig list) list \<Rightarrow> StoreOp list" where
  "import_ops now cfgs = concat (List.map (\<lambda>(symbol, ls). List.map (\<lambda>c. OpAddLevel now symbol (level_of_config 0 c)) ls) cfgs)"

lemma store_run_append: "snd (store_run (xs @ ys) s) = snd (store_run ys (snd (store_run xs s)))"
  by (induction xs arbitrary: s) (simp_all add: prod.case_eq_if)

lemma import_is_a_run: "import_level_configs now cfgs s = snd (store_run (import_ops now cfgs) s)"
proof -
  have one: "fold (import_level now symbol) ls s
      = snd (store_run (List.map (\<lambda>c. OpAddLevel now symbol (level_of_config 0 c)) ls) s)" for symbol ls s
    by (induction ls arbitrary: s)
      (simp_all add: import_level_def with_level_id_def level_of_config_def prod.case_eq_if)
  show ?thesis
    by (induction cfgs arbitrary: s)
      (simp_all add: import_level_configs_def import_ops_def one store_run_append prod.case_eq_if)
qed

section \<open>A start from files\<close>

text \<open>The identities of the annotations in the files, those of the drafts that are dropped included.\<close>

definition file_ids :: "(string \<times> Annotation list) list \<Rightarrow> AnnotationId list" where
  "file_ids files = concat (List.map (\<lambda>(symbol, anns). List.map ann_id anns) files)"

definition ids_among :: "AnnotationId list \<Rightarrow> u64 \<times> AnnotationStore \<Rightarrow> bool" where
  "ids_among seen st \<longleftrightarrow>
     (\<forall>k. distinct (List.map ann_id (annotations_of (snd st) k)) \<and> (\<forall>a \<in> set (annotations_of (snd st) k). ann_id a \<in> set seen))
     \<and> (\<forall>k l a b. k \<noteq> l \<longrightarrow> a \<in> set (annotations_of (snd st) k) \<longrightarrow> b \<in> set (annotations_of (snd st) l) \<longrightarrow> ann_id a \<noteq> ann_id b)
     \<and> fst st = fold max seen 0"

lemma restored_id: "restored ann = Some ann' \<Longrightarrow> ann_id ann' = ann_id ann"
  by (auto simp: restored_def Let_def split: AnnotationKind.splits if_splits)

lemma restore_step:
  assumes "ids_among seen st" "ann_id ann \<notin> set seen"
  shows "ids_among (seen @ [ann_id ann]) (restore_annotation symbol ann st)"
proof -
  obtain m s where st: "st = (m, s)" by (cases st)
  have in_seen: "ann_id a \<in> set seen" if "a \<in> set (annotations_of s k)" for a k
    using assms(1) that by (auto simp: ids_among_def st)
  have new: "ann_id a \<noteq> ann_id ann" if "a \<in> set (annotations_of s k)" for a k
    using in_seen [OF that] assms(2) by metis
  show ?thesis
  proof (cases "restored ann")
    case None
    then show ?thesis using assms(1) by (auto simp: ids_among_def restore_annotation_def st max.commute)
  next
    case (Some ann')
    note i = restored_id [OF Some]
    have v: "annotations_of (add_raw symbol ann' s)
        = (annotations_of s)(SymbolKey_new symbol := annotations_of s (SymbolKey_new symbol) @ [ann'])"
      by (simp add: add_raw_def store_views)
    show ?thesis
      using assms(1) new new [symmetric] Some i unfolding ids_among_def restore_annotation_def st
      by (auto simp: v max.commute)
  qed
qed

lemma restore_all:
  "ids_among seen st \<Longrightarrow> distinct (seen @ List.map ann_id anns) \<Longrightarrow>
     ids_among (seen @ List.map ann_id anns) (fold (restore_annotation symbol) anns st)"
proof (induction anns arbitrary: seen st)
  case (Cons a anns)
  have "ids_among (seen @ [ann_id a]) (restore_annotation symbol a st)"
    using Cons.prems by (intro restore_step) auto
  from Cons.IH [OF this] Cons.prems(2) show ?case by simp
qed simp

lemma restore_files:
  "ids_among seen st \<Longrightarrow> distinct (seen @ file_ids files) \<Longrightarrow>
     ids_among (seen @ file_ids files) (fold (\<lambda>(symbol, anns). fold (restore_annotation symbol) anns) files st)"
proof (induction files arbitrary: seen st)
  case (Cons f files)
  obtain symbol anns where f: "f = (symbol, anns)" by (cases f)
  have "ids_among (seen @ List.map ann_id anns) (fold (restore_annotation symbol) anns st)"
    using Cons.prems by (intro restore_all) (auto simp: f file_ids_def)
  from Cons.IH [OF this] Cons.prems(2) show ?case by (simp add: f file_ids_def)
qed (simp add: file_ids_def)

lemma fold_max_ge: "i \<in> set xs \<or> i = m \<Longrightarrow> i \<le> fold max xs (m :: u64)"
proof (induction xs arbitrary: i m)
  case (Cons x xs)
  have "max x m \<le> fold max xs (max x m)" using Cons.IH [of "max x m" "max x m"] by blast
  with Cons.IH [of i "max x m"] Cons.prems show ?case by (auto intro: order_trans)
qed simp

lemma fold_max_in: "fold max xs (m :: u64) = m \<or> fold max xs m \<in> set xs"
proof (induction xs arbitrary: m)
  case (Cons x xs)
  from Cons.IH [of "max x m"] show ?case by (auto simp: max_def)
qed simp

text \<open>The counter starts one above the highest identity of the files.\<close>

lemma store_from_files_start:
  assumes "distinct (file_ids files)"
  shows "next_id (store_from_files files) = fold max (file_ids files) 0 + 1"
    and "unat (fold max (file_ids files) 0) + 1 < 2 ^ 64 \<Longrightarrow> ids_ok (store_from_files files)"
proof -
  obtain m s where st: "fold (\<lambda>(symbol, anns). fold (restore_annotation symbol) anns) files (0, AnnotationStore_new) = (m, s)"
    by (cases "fold (\<lambda>(symbol, anns). fold (restore_annotation symbol) anns) files (0, AnnotationStore_new)")
  have "ids_among [] (0, AnnotationStore_new)" by (simp add: ids_among_def store_views)
  from restore_files [OF this, of files] assms have i: "ids_among (file_ids files) (m, s)" by (simp add: st)
  then have m: "m = fold max (file_ids files) 0" by (simp add: ids_among_def)
  have sf: "store_from_files files = set_next_id (m + 1) s" by (simp add: store_from_files_def st)
  show "next_id (store_from_files files) = fold max (file_ids files) 0 + 1"
    by (simp add: sf set_next_id_def m)
  assume b: "unat (fold max (file_ids files) 0) + 1 < 2 ^ 64"
  have "ann_id a < m + 1" if "a \<in> set (annotations_of s k)" for a k
  proof -
    have "ann_id a \<in> set (file_ids files)" using i that by (auto simp: ids_among_def)
    then have "ann_id a \<le> m" unfolding m by (intro fold_max_ge) simp
    then show ?thesis using word_succ [OF b [folded m]] by (simp add: word_le_nat_alt word_less_nat_alt)
  qed
  with i show "ids_ok (store_from_files files)"
    unfolding sf set_next_id_def ids_ok_def by (auto simp: ids_among_def store_views)
qed

text \<open>
  C21: Within a session of the application no two annotations share an identity, and an identity is
  never given out twice, even when its annotation was removed before. A session starts with the store
  built from the annotation files (from none: the new store), whose identities are distinct, and makes
  any calls that the application makes after that; levels get identities allocated for them. No identity
  it gives out occurs in the files, not even that of a draft that was dropped while loading. The counter
  is assumed not to pass 64 bits.
\<close>

theorem identities_are_never_reused:
  assumes "distinct (file_ids files)"
    and "length xs + 1 < 2 ^ 64" and "list_all (\<lambda>i. unat i + length xs + 1 < 2 ^ 64) (file_ids files)"
  shows "distinct (file_ids files @ fst (store_run xs (store_from_files files)))
    \<and> list_all (\<lambda>i. list_all (\<lambda>j. j < i) (file_ids files)) (fst (store_run xs (store_from_files files)))
    \<and> ids_ok (snd (store_run xs (store_from_files files)))"
proof -
  let ?m = "fold max (file_ids files) 0" and ?s = "store_from_files files"
  have m: "unat ?m + length xs + 1 < 2 ^ 64"
    using fold_max_in [of "file_ids files" 0] assms(2,3) by (auto simp: list_all_iff)
  then have b: "unat ?m + 1 < 2 ^ 64" by simp
  have n: "next_id ?s = ?m + 1" "ids_ok ?s" using store_from_files_start [OF assms(1)] b by simp_all
  have "unat (next_id ?s) + length xs < 2 ^ 64" using m word_succ [OF b] by (simp add: n(1))
  note run = store_run_ids [OF n(2) this]
  have "j < i" if i: "i \<in> set (fst (store_run xs ?s))" and j: "j \<in> set (file_ids files)" for i j
  proof -
    have "j \<le> ?m" using j by (intro fold_max_ge) simp
    moreover have "?m + 1 \<le> i" using run i n(1) by auto
    ultimately show ?thesis using word_succ [OF b] by (simp add: word_le_nat_alt word_less_nat_alt)
  qed
  then show ?thesis using run assms(1) by (fastforce simp: list_all_iff)
qed

text \<open>
  Across restarts identities do come back: the first identity of a session is one above the highest one
  in its files, whatever the session before gave out.
\<close>

lemma restart_gives_out_the_next_identity:
  assumes "distinct (file_ids files)"
  shows "fst (store_run [OpAdd now symbol kind] (store_from_files files)) = [fold max (file_ids files) 0 + 1]"
  by (simp add: store_add_def Let_def store_from_files_start [OF assms])

definition demo_note :: "AnnotationId \<Rightarrow> Annotation" where
  "demo_note i = \<lparr> ann_id = i, ann_kind = LevelKind (sl_level (level_of_config i \<lparr> lc_price = f64_one,
     lc_color = rgba_of 0 0 0 0, lc_line_width = 0, lc_label = None, lc_icon = ''star'', lc_locked = False \<rparr>)),
     ann_presence = Present, ann_visible_timeframes = None, ann_locked = False, ann_created_at = 0, ann_modified_at = 0 \<rparr>"

text \<open>A file with the annotations 7 and 3; one is added and both others are removed, twice.\<close>

definition demo_session :: "StoreOp list" where
  "demo_session = [OpAddLevel 5 ''spy'' (level_of_config 0 \<lparr> lc_price = f64_one, lc_color = rgba_of 0 0 0 0,
       lc_line_width = 0, lc_label = None, lc_icon = ''star'', lc_locked = False \<rparr>), OpClear ''SPY'', OpClear ''SPY'']"

theorem identities_are_never_reused_witness:
  "file_ids [(''SPY'', [demo_note 7, demo_note 3])] = [7, 3]
   \<and> fst (store_run demo_session (store_from_files [(''SPY'', [demo_note 7, demo_note 3])])) = [8]
   \<and> ids_ok (snd (store_run demo_session (store_from_files [(''SPY'', [demo_note 7, demo_note 3])])))"
proof -
  let ?files = "[(''SPY'', [demo_note 7, demo_note 3])]"
  have f: "file_ids ?files = [7, 3]" by (simp add: file_ids_def demo_note_def)
  have n: "next_id (store_from_files ?files) = 8"
    by (subst store_from_files_start(1)) (simp_all add: f)
  have "fst (store_run demo_session (store_from_files ?files)) = [8]"
    by (simp add: demo_session_def alloc_level_id_def n)
  then show ?thesis
    using f identities_are_never_reused [of ?files demo_session] by (simp add: demo_session_def)
qed

section \<open>The levels of a configuration\<close>

definition canonical :: "LevelConfig \<Rightarrow> LevelConfig" where
  "canonical cfg = cfg\<lparr> lc_icon := to_str_id (from_str_id (lc_icon cfg)) \<rparr>"

definition configs_of :: "AnnotationStore \<Rightarrow> string \<Rightarrow> LevelConfig list" where
  "configs_of s key = List.map_filter config_of_annotation (annotations_of s key)"

lemma map_filter_snoc: "List.map_filter f (xs @ [x]) = List.map_filter f xs @ (case f x of None \<Rightarrow> [] | Some y \<Rightarrow> [y])"
  by (simp add: List.map_filter_def split: option.splits)

lemma import_level_configs_of:
  "configs_of (import_level now symbol cfg s) =
     (configs_of s)(SymbolKey_new symbol := configs_of s (SymbolKey_new symbol) @ [canonical cfg])"
  by (auto simp: configs_of_def import_level_def alloc_level_id_def store_views map_filter_snoc fun_eq_iff
      config_of_annotation_def new_annotation_def level_of_config_def canonical_def)

lemma import_levels_configs_of:
  "configs_of (fold (import_level now symbol) cfgs s) =
     (configs_of s)(SymbolKey_new symbol := configs_of s (SymbolKey_new symbol) @ List.map canonical cfgs)"
  by (induction cfgs arbitrary: s) (simp_all add: import_level_configs_of fun_eq_iff)

definition configs_for :: "string \<Rightarrow> (string \<times> LevelConfig list) list \<Rightarrow> LevelConfig list" where
  "configs_for key cfgs = concat (List.map snd (List.filter (\<lambda>(symbol, _). SymbolKey_new symbol = key) cfgs))"

lemma import_configs_of:
  "configs_of (import_level_configs now cfgs s) = (\<lambda>key. configs_of s key @ List.map canonical (configs_for key cfgs))"
  by (induction cfgs arbitrary: s)
     (auto simp: import_level_configs_def configs_for_def import_levels_configs_of fun_eq_iff)

lemma by_symbol_keys:
  "distinct (List.map fst (by_symbol s)) \<Longrightarrow> distinct (List.map fst (by_symbol (push_annotation key a s)))"
  "distinct (List.map fst (by_symbol s)) \<Longrightarrow> distinct (List.map fst (by_symbol (bump_generation key s)))"
  by (simp_all add: push_annotation_def bump_generation_def Let_def distinct_update split: option.splits)

lemma import_keys:
  "distinct (List.map fst (by_symbol s)) \<Longrightarrow> distinct (List.map fst (by_symbol (import_level_configs now cfgs s)))"
proof (induction cfgs arbitrary: s)
  case (Cons c cfgs)
  have "distinct (List.map fst (by_symbol s)) \<Longrightarrow>
      distinct (List.map fst (by_symbol (fold (import_level now symbol) ls s)))" for symbol ls s
    by (induction ls arbitrary: s)
       (simp_all add: import_level_def alloc_level_id_def add_level_def Let_def by_symbol_keys split: prod.splits)
  then show ?case using Cons by (simp add: import_level_configs_def prod.case_eq_if)
qed (simp add: import_level_configs_def)

lemma map_of_filter_map:
  "distinct (List.map fst xs) \<Longrightarrow>
     map_of (List.filter (\<lambda>(_, c). c \<noteq> []) (List.map (\<lambda>(k, v). (k, f v)) xs)) key =
       (case map_of xs key of None \<Rightarrow> None | Some v \<Rightarrow> if f v = [] then None else Some (f v))"
proof (induction xs)
  case (Cons p xs)
  obtain k v where p: "p = (k, v)" by force
  have "map_of xs k = None" using Cons.prems p by (simp add: map_of_eq_None_iff)
  then show ?case using Cons p by auto
qed simp

text \<open>
  C24: The levels of a configuration that is loaded into the store and saved again are the same, symbol by
  symbol and in their order. Spellings of one symbol are put together, an unknown icon becomes none.
\<close>

theorem level_configs_roundtrip:
  "map_of (to_level_configs (import_level_configs now cfgs AnnotationStore_new)) key =
     (if configs_for key cfgs = [] then None else Some (List.map canonical (configs_for key cfgs)))"
proof -
  let ?s = "import_level_configs now cfgs AnnotationStore_new"
  have d: "distinct (List.map fst (by_symbol ?s))"
    by (rule import_keys) (simp add: AnnotationStore_new_def)
  have "map_of (to_level_configs ?s) key = (if configs_of ?s key = [] then None else Some (configs_of ?s key))"
    unfolding to_level_configs_def
    using map_of_filter_map [OF d, of "\<lambda>sa. List.map_filter config_of_annotation (sa_annotations sa)" key]
    by (simp add: configs_of_def annotations_of_def List.map_filter_def split: option.splits)
  then show ?thesis by (simp add: import_configs_of configs_of_def store_views List.map_filter_def)
qed

end
