(* ===== verification/Ticker_App_Props.thy ===== *)
theory Ticker_App_Props imports Ticker_Panel Ticker_Props Annot_Store_Props begin

text \<open>
  The application around the reducer: what the charts show is the live bracket of the ticker, after any
  messages; what is sent to the broker, and how often.
\<close>

section \<open>Symbols\<close>

lemma ascii_upper_facts: "is_ascii_space (ascii_upper c) = is_ascii_space c" "ascii_upper (ascii_upper c) = ascii_upper c"
  by (auto simp: is_ascii_space_def ascii_upper_def byte_def)

lemma str_trim_map: "str_trim (List.map ascii_upper s) = List.map ascii_upper (str_trim s)"
  by (simp add: str_trim_def dropWhile_map rev_map comp_def ascii_upper_facts)

lemma dropWhile_same: "(case xs of [] \<Rightarrow> True | x # _ \<Rightarrow> \<not> P x) \<Longrightarrow> dropWhile P xs = xs"
  by (cases xs) simp_all

lemma dropWhile_stops: "case dropWhile P xs of [] \<Rightarrow> True | x # _ \<Rightarrow> \<not> P x"
  by (induction xs) simp_all

lemma str_trim_idem: "str_trim (str_trim s) = str_trim s"
proof -
  let ?P = is_ascii_space
  define t where "t = dropWhile ?P s"
  define u where "u = rev (dropWhile ?P (rev t))"
  have "rev t = takeWhile ?P (rev t) @ dropWhile ?P (rev t)" by simp
  then have "t = u @ rev (takeWhile ?P (rev t))" unfolding u_def by (metis rev_append rev_rev_ident)
  moreover have "case t of [] \<Rightarrow> True | x # _ \<Rightarrow> \<not> ?P x" unfolding t_def by (rule dropWhile_stops)
  ultimately have "case u of [] \<Rightarrow> True | x # _ \<Rightarrow> \<not> ?P x" by (cases u; cases t) auto
  then have "dropWhile ?P u = u" by (rule dropWhile_same)
  moreover have "rev u = dropWhile ?P (rev t)" by (simp add: u_def)
  ultimately have "str_trim u = u" by (simp add: str_trim_def) (simp add: u_def)
  then show ?thesis by (simp add: str_trim_def u_def t_def)
qed

lemma SymbolKey_idem [simp]: "SymbolKey_new (SymbolKey_new s) = SymbolKey_new s"
  by (simp add: SymbolKey_new_def str_trim_map str_trim_idem ascii_upper_facts)

section \<open>Tickers and annotations\<close>

text \<open>The part of the application the invariant is about, and what an effect does to it.\<close>

definition core :: "MidasApp \<Rightarrow> (string \<Rightarrow> TickerState option) \<times> AnnotationStore" where
  "core app = (app_tickers app, app_store app)"

definition live_id :: "(string \<Rightarrow> TickerState option) \<Rightarrow> string \<Rightarrow> AnnotationId option" where
  "live_id T key = (case T key of None \<Rightarrow> None | Some s \<Rightarrow> ts_live_annotation_id s)"

definition has_id :: "AnnotationId option \<Rightarrow> Annotation list \<Rightarrow> bool" where
  "has_id i anns = (case i of None \<Rightarrow> False | Some i \<Rightarrow> list_ex (\<lambda>a. ann_id a = i) anns)"

definition with_id :: "AnnotationId \<Rightarrow> string \<Rightarrow> (string \<Rightarrow> TickerState option) \<Rightarrow> string \<Rightarrow> TickerState option" where
  "with_id i key T = (case T key of None \<Rightarrow> T | Some s \<Rightarrow> T(key \<mapsto> s\<lparr> ts_live_annotation_id := Some i \<rparr>))"

fun core_effect ::
  "int \<Rightarrow> string \<Rightarrow> TickerEffect \<Rightarrow> (string \<Rightarrow> TickerState option) \<times> AnnotationStore
     \<Rightarrow> (string \<Rightarrow> TickerState option) \<times> AnnotationStore" where
  "core_effect now key (ProjectBracket b) (T, S) =
     (if has_id (live_id T key) (store_get key S)
      then (T, snd (store_update now key (the (live_id T key)) (put_bracket b) S))
      else (with_id (next_id S) key T, snd (store_add now key (OrderBracketKind b) S)))"
| "core_effect now key (RemoveBracket i) (T, S) = (T, snd (store_remove key i S))"
| "core_effect now key _ (T, S) = (T, S)"

lemma update_panels_core [simp]: "core (update_panels P f app) = core app"
  by (simp add: core_def update_panels_def)

lemma project_bracket_core: "core (project_bracket now key b app) = core_effect now key (ProjectBracket b) (core app)"
  using add_view(1) [of now key "OrderBracketKind b" "app_store app"]
  by (auto simp: project_bracket_def core_def live_id_def has_id_def with_id_def update_panels_def
      set_live_annotation_id_def set_ticker_def Let_def store_add_def split: option.splits)

lemma handle_effect_core: "core (handle_effect now key e app) = core_effect now key e (core app)"
proof (cases e)
  case (ProjectBracket b)
  then show ?thesis by (simp only: handle_effect.simps project_bracket_core)
qed (auto simp: core_def remove_bracket_def update_panels_def show_toast_def persist_def start_placing_def
       split: option.splits)

lemma core_effect_other: "\<not> is_bracket_effect e \<Longrightarrow> core_effect now key e c = c"
  by (cases e; cases c) simp_all

lemma fold_core:
  "core (fold (handle_effect now key) es app) = fold (core_effect now key) (bracket_effects es) (core app)"
  by (induction es arbitrary: app) (simp_all add: bracket_effects_def handle_effect_core core_effect_other)

lemma sync_bracket_mode_core [simp]: "core (sync_bracket_mode key app) = core app"
  by (simp add: sync_bracket_mode_def split: option.splits)

lemma update_ticker_core:
  "core (update_ticker clock key msg app) =
     (case ticker_apply clock msg (ticker_or_new clock key app) of (s, es) \<Rightarrow>
        fold (core_effect (epoch_millis clock) key) (bracket_effects es)
          ((app_tickers app)(key \<mapsto> s), app_store app))"
  by (auto simp: update_ticker_def handle_ticker_effects_def fold_core split: prod.splits)
     (simp add: core_def set_ticker_def)

section \<open>The invariant\<close>

definition is_bracket :: "Annotation \<Rightarrow> bool" where
  "is_bracket a = (case ann_kind a of OrderBracketKind _ \<Rightarrow> True | _ \<Rightarrow> False)"

definition brackets_of :: "AnnotationStore \<Rightarrow> string \<Rightarrow> Annotation list" where
  "brackets_of S key = List.filter is_bracket (annotations_of S key)"

text \<open>A ticker without a bracket shows none; a bracket is shown once, under its identity.\<close>

definition shows_live :: "TickerState option \<Rightarrow> Annotation list \<Rightarrow> bool" where
  "shows_live ts anns =
     (case ts of
        None \<Rightarrow> anns = []
      | Some s \<Rightarrow>
          (case (ts_live_bracket s, ts_live_annotation_id s) of
             (None, None) \<Rightarrow> anns = []
           | (Some b, Some i) \<Rightarrow> List.map (\<lambda>a. (ann_id a, ann_kind a)) anns = [(i, OrderBracketKind b)]
           | _ \<Rightarrow> False))"

definition in_step :: "(string \<Rightarrow> TickerState option) \<times> AnnotationStore \<Rightarrow> bool" where
  "in_step c \<longleftrightarrow> ids_ok (snd c) \<and> (\<forall>symbol. shows_live (fst c (SymbolKey_new symbol)) (brackets_of (snd c) (SymbolKey_new symbol)))"

lemma put_bracket_facts:
  "ann_id (put_bracket b a) = ann_id a" "ann_kind (put_bracket b a) = OrderBracketKind b" "is_bracket (put_bracket b a)"
  by (simp_all add: put_bracket_def is_bracket_def)

text \<open>The one bracket of a list is found by its identity.\<close>

lemma split_at_bracket:
  assumes "distinct (List.map ann_id xs)" and "List.filter is_bracket xs = [a]"
    and "xs = us @ x # vs" and "ann_id x = ann_id a"
  shows "x = a" and "List.filter is_bracket us = []" and "List.filter is_bracket vs = []"
proof -
  have "a \<in> set xs" using assms(2) by (metis filter_eq_Cons_iff in_set_conv_decomp)
  then show x: "x = a" using assms(1,3,4) by (metis distinct_map inj_onD in_set_conv_decomp)
  have "is_bracket a" using assms(2) by (metis filter_eq_Cons_iff)
  then have "List.filter is_bracket us @ a # List.filter is_bracket vs = [a]" using assms(2,3) x by simp
  then show "List.filter is_bracket us = []" "List.filter is_bracket vs = []"
    by (cases "List.filter is_bracket us"; simp)+
qed

lemma bracket_updated:
  assumes "distinct (List.map ann_id xs)" and "List.filter is_bracket xs = [a]"
    and "\<And>c. is_bracket (f c)" and "\<And>c. ann_id (f c) = ann_id c"
  shows "List.filter is_bracket (first_updated (\<lambda>c. ann_id c = ann_id a) f xs) = [f a]"
proof (cases "update_first (\<lambda>c. ann_id c = ann_id a) f xs")
  case None
  moreover have "a \<in> set xs" using assms(2) by (metis filter_eq_Cons_iff in_set_conv_decomp)
  ultimately show ?thesis by (auto simp: update_first_None)
next
  case (Some ys)
  then obtain x us vs where x: "xs = us @ x # vs" "ys = us @ f x # vs" "ann_id x = ann_id a"
    using update_first_split [OF Some] by blast
  then show ?thesis using split_at_bracket [OF assms(1,2) x(1,3)] Some assms(3) by (simp add: first_updated_def)
qed

lemma bracket_removed:
  assumes "distinct (List.map ann_id xs)" and "List.filter is_bracket xs = [a]"
  shows "List.filter is_bracket (first_removed (\<lambda>c. ann_id c = ann_id a) xs) = []"
proof (cases "remove_first (\<lambda>c. ann_id c = ann_id a) xs")
  case None
  moreover have "a \<in> set xs" using assms(2) by (metis filter_eq_Cons_iff in_set_conv_decomp)
  ultimately show ?thesis by (auto simp: remove_first_None)
next
  case (Some ys)
  then obtain x us vs where x: "xs = us @ x # vs" "ys = us @ vs" "ann_id x = ann_id a"
    using remove_first_subseq [OF Some] by blast
  then show ?thesis using split_at_bracket [OF assms x(1,3)] Some by (simp add: first_removed_def)
qed

section \<open>One message\<close>

definition ticker_before :: "TickerClock \<Rightarrow> string \<Rightarrow> (string \<Rightarrow> TickerState option) \<Rightarrow> TickerState" where
  "ticker_before clock key T = (case T key of None \<Rightarrow> TickerState_new (utc_now clock) key | Some s \<Rightarrow> s)"

lemma shows_live_before:
  "shows_live (T key) anns \<Longrightarrow> shows_live (Some (ticker_before clock key T)) anns"
  by (simp add: shows_live_def ticker_before_def TickerState_new_def split: option.splits)

text \<open>A change of one symbol: the invariant is to be shown for that symbol alone.\<close>

lemma in_step_at:
  assumes "in_step (T, S)" and "ids_ok S'" and "annotations_of S' = (annotations_of S)(SymbolKey_new symbol := anns)"
    and "shows_live (Some s) (List.filter is_bracket anns)"
  shows "in_step (T(SymbolKey_new symbol \<mapsto> s), S')"
  using assms by (auto simp: in_step_def brackets_of_def)

lemma projected_in_step:
  assumes "in_step (T, S)" and "shows_live (Some s) (brackets_of S (SymbolKey_new symbol))"
    and "ts_live_bracket s' = Some b" and "ts_live_annotation_id s' = ts_live_annotation_id s"
    and "unat (next_id S) + 1 < 2 ^ 64"
  shows "in_step (core_effect now (SymbolKey_new symbol) (ProjectBracket b) (T(SymbolKey_new symbol \<mapsto> s'), S)) \<and>
         unat (next_id (snd (core_effect now (SymbolKey_new symbol) (ProjectBracket b) (T(SymbolKey_new symbol \<mapsto> s'), S))))
           \<le> unat (next_id S) + 1"
proof -
  let ?key = "SymbolKey_new symbol"
  let ?anns = "annotations_of S ?key"
  have ok: "ids_ok S" using assms(1) by (simp add: in_step_def)
  show ?thesis
  proof (cases "ts_live_annotation_id s")
    case None
    have none: "List.filter is_bracket ?anns = []"
      using assms(2) None by (simp add: shows_live_def brackets_of_def split: option.splits)
    let ?S = "snd (store_add now ?key (OrderBracketKind b) S)"
    have "ids_ok ?S"
      by (rule ids_ok_push [OF ok add_view(2) _ _ assms(5)]) (simp_all add: new_annotation_def add_view(3))
    moreover have "shows_live (Some (s'\<lparr> ts_live_annotation_id := Some (next_id S) \<rparr>))
        (List.filter is_bracket (?anns @ [new_annotation now (next_id S) (OrderBracketKind b) False]))"
      using none assms(3) by (simp add: shows_live_def new_annotation_def is_bracket_def)
    ultimately have "in_step (T(?key \<mapsto> s'\<lparr> ts_live_annotation_id := Some (next_id S) \<rparr>), ?S)"
      by (intro in_step_at [OF assms(1) _ _ , where anns = "?anns @ [new_annotation now (next_id S) (OrderBracketKind b) False]"])
         (simp_all only: add_view(2) SymbolKey_idem)
    then show ?thesis
      using None assms(4,5) by (simp add: live_id_def has_id_def with_id_def add_view(3) word_succ)
  next
    case (Some i)
    then obtain a where a: "List.filter is_bracket ?anns = [a]" "ann_id a = i"
      using assms(2) by (auto simp: shows_live_def brackets_of_def split: option.splits)
    have d: "distinct (List.map ann_id ?anns)" by (rule ids_ok_distinct [OF ok])
    have "a \<in> set ?anns" using a(1) by (metis filter_eq_Cons_iff in_set_conv_decomp)
    then have ex: "has_id (live_id (T(?key \<mapsto> s')) ?key) (store_get ?key S)"
      using Some assms(4) a(2) by (auto simp: live_id_def has_id_def store_get_view list_ex_iff)
    let ?f = "\<lambda>c. put_bracket b (c\<lparr> ann_modified_at := now \<rparr>)"
    let ?S = "snd (store_update now ?key i (put_bracket b) S)"
    have view: "annotations_of ?S = (annotations_of S)(?key := first_updated (\<lambda>c. ann_id c = i) ?f ?anns)"
      "next_id ?S = next_id S"
      by (simp_all add: store_update_def store_views)
    have "ids_ok ?S" unfolding store_update_def by (rule ids_ok_update [OF ok]) (simp add: put_bracket_facts)
    moreover have "List.filter is_bracket (first_updated (\<lambda>c. ann_id c = i) ?f ?anns) = [?f a]"
      using bracket_updated [OF d a(1), of ?f] a(2) by (simp add: put_bracket_facts)
    ultimately have "in_step (T(?key \<mapsto> s'), ?S)"
      using Some assms(3,4) a(2)
      by (intro in_step_at [OF assms(1) _ view(1)]) (simp_all add: shows_live_def put_bracket_facts)
    then show ?thesis using ex Some assms(4) view(2) by (simp add: live_id_def)
  qed
qed

lemma removed_in_step:
  assumes "in_step (T, S)" and "shows_live (Some s) (brackets_of S (SymbolKey_new symbol))"
    and "ts_live_bracket s' = None" and "ts_live_annotation_id s' = None"
    and "ts_live_annotation_id s = Some i"
  shows "in_step (T(SymbolKey_new symbol \<mapsto> s'), snd (store_remove (SymbolKey_new symbol) i S))"
proof -
  let ?anns = "annotations_of S (SymbolKey_new symbol)"
  have ok: "ids_ok S" using assms(1) by (simp add: in_step_def)
  obtain a where a: "List.filter is_bracket ?anns = [a]" "ann_id a = i"
    using assms(2,5) by (auto simp: shows_live_def brackets_of_def split: option.splits)
  have "List.filter is_bracket (first_removed (\<lambda>c. ann_id c = i) ?anns) = []"
    using bracket_removed [OF ids_ok_distinct [OF ok] a(1)] a(2) by simp
  then show ?thesis
    using assms(3,4) ids_ok_remove [OF ok]
    by (intro in_step_at [OF assms(1)]) (simp_all add: store_remove_def store_views shows_live_def)
qed

lemma update_ticker_in_step:
  assumes "in_step (core app)" and "unat (next_id (app_store app)) + 1 < 2 ^ 64"
  shows "in_step (core (update_ticker clock (SymbolKey_new symbol) msg app)) \<and>
    unat (next_id (app_store (update_ticker clock (SymbolKey_new symbol) msg app))) \<le> unat (next_id (app_store app)) + 1"
proof -
  let ?key = "SymbolKey_new symbol" and ?T = "app_tickers app" and ?S = "app_store app"
  let ?s = "ticker_before clock ?key ?T"
  obtain s' es where r: "ticker_apply clock msg ?s = (s', es)" by force
  have c: "core (update_ticker clock ?key msg app) =
      fold (core_effect (epoch_millis clock) ?key) (bracket_effects es) (?T(?key \<mapsto> s'), ?S)"
    using r by (simp add: update_ticker_core ticker_or_new_def ticker_before_def)
  have store: "app_store (update_ticker clock ?key msg app) = snd (core (update_ticker clock ?key msg app))"
    by (simp add: core_def)
  have step: "in_step (?T, ?S)" using assms(1) by (simp add: core_def)
  then have before: "shows_live (Some ?s) (brackets_of ?S ?key)"
    using shows_live_before by (simp add: in_step_def)
  consider
      "ts_live_bracket s' = ts_live_bracket ?s" "ts_live_annotation_id s' = ts_live_annotation_id ?s" "bracket_effects es = []"
    | b where "ts_live_bracket s' = Some b" "ts_live_annotation_id s' = ts_live_annotation_id ?s"
        "bracket_effects es = [ProjectBracket b]"
    | "ts_live_bracket s' = None" "ts_live_annotation_id s' = None"
        "bracket_effects es = (case ts_live_annotation_id ?s of None \<Rightarrow> [] | Some i \<Rightarrow> [RemoveBracket i])"
    using apply_tells_bracket [of ?s clock msg] r by (auto simp: tells_bracket_def)
  then show ?thesis
  proof cases
    case 1
    have "in_step (?T(?key \<mapsto> s'), ?S)"
      using before 1 step
      by (intro in_step_at [OF step, where anns = "annotations_of ?S ?key"])
         (simp_all add: in_step_def shows_live_def brackets_of_def)
    then show ?thesis using c store 1 by simp
  next
    case 2
    show ?thesis
      using projected_in_step [OF step before 2(1,2) assms(2), of "epoch_millis clock"] c store 2(3) by simp
  next
    case 3
    show ?thesis
    proof (cases "ts_live_annotation_id ?s")
      case None
      have "in_step (?T(?key \<mapsto> s'), ?S)"
        using before 3 None step
        by (intro in_step_at [OF step, where anns = "annotations_of ?S ?key"])
           (auto simp: in_step_def shows_live_def brackets_of_def split: option.splits)
      then show ?thesis using c store 3 None by simp
    next
      case (Some i)
      then show ?thesis
        using removed_in_step [OF step before 3(1,2) Some] c store 3(3) by (simp add: store_remove_def store_views)
    qed
  qed
qed

text \<open>The messages the application receives for its symbols.\<close>

fun app_run :: "(TickerClock \<times> string \<times> TickerMsg) list \<Rightarrow> MidasApp \<Rightarrow> MidasApp" where
  "app_run [] app = app"
| "app_run ((clock, symbol, msg) # ms) app = app_run ms (update_ticker clock (SymbolKey_new symbol) msg app)"

lemma app_run_in_step:
  "in_step (core app) \<Longrightarrow> unat (next_id (app_store app)) + length ms < 2 ^ 64 \<Longrightarrow> in_step (core (app_run ms app))"
proof (induction ms app rule: app_run.induct)
  case (2 clock symbol msg ms app)
  have "unat (next_id (app_store app)) + 1 < 2 ^ 64 " using "2.prems"(2) by simp
  then show ?case using update_ticker_in_step [OF "2.prems"(1), of clock symbol msg] "2.prems"(2) "2.IH" by simp
qed simp

definition app_start :: "(PanelId \<times> OrderPanelState) list \<Rightarrow> (u64 \<Rightarrow> string option)
    \<Rightarrow> (string \<Rightarrow> (f64 option \<times> f64 option) option) \<Rightarrow> bool \<Rightarrow> MidasApp" where
  "app_start panels charts market router = \<lparr> app_tickers = (\<lambda>_. None), app_store = AnnotationStore_new,
     app_panels = panels, app_charts = charts, app_market = market, app_links = [], app_ib_to_uuid = (\<lambda>_. None),
     app_persisted = (\<lambda>_. None), app_toasts = [], app_has_router = router, app_placed = [] \<rparr>"

lemma in_step_start: "in_step (core (app_start panels charts market router))"
  by (simp add: in_step_def core_def app_start_def ids_ok_new shows_live_def brackets_of_def store_views)

text \<open>
  C6: After any messages to any symbols, the store that the charts draw from holds the live bracket of
  every ticker exactly once, under the identity the ticker has for it, as it is in the ticker; and it
  holds no bracket for a ticker that has none.
\<close>

theorem charts_show_the_live_bracket:
  assumes "length ms < 2 ^ 64 - 1"
  shows "shows_live (app_tickers (app_run ms (app_start panels charts market router)) (SymbolKey_new symbol))
    (brackets_of (app_store (app_run ms (app_start panels charts market router))) (SymbolKey_new symbol))"
  using app_run_in_step [OF in_step_start, of panels charts market router ms] assms
  by (simp add: in_step_def) (simp add: core_def app_start_def store_views)


theorem charts_show_the_live_bracket_witness:
  "shows_live (app_tickers (app_run [(\<lparr> utc_now = 0, instant_now = 0 \<rparr>, ''spy'', SetBracketMode (Some OrderSide.Buy)),
       (\<lparr> utc_now = 1, instant_now = 1 \<rparr>, ''SPY'', CancelBracket)] (app_start [] (\<lambda>_. None) (\<lambda>_. None) False)) (SymbolKey_new ''SPY''))
    (brackets_of (app_store (app_run [(\<lparr> utc_now = 0, instant_now = 0 \<rparr>, ''spy'', SetBracketMode (Some OrderSide.Buy)),
       (\<lparr> utc_now = 1, instant_now = 1 \<rparr>, ''SPY'', CancelBracket)] (app_start [] (\<lambda>_. None) (\<lambda>_. None) False))) (SymbolKey_new ''SPY''))"
  by (rule charts_show_the_live_bracket) simp

section \<open>What is sent to the broker\<close>

text \<open>The placements an effect starts.\<close>

fun placements :: "string \<Rightarrow> TickerEffect \<Rightarrow> BracketParams list" where
  "placements key (SubmitToBroker b) =
     [params_of_bracket key (case ob_quantity b of None \<Rightarrow> f64_zero | Some q \<Rightarrow> q) b]"
| "placements key _ = []"

definition sent :: "MidasApp \<Rightarrow> bool \<times> BracketParams list" where
  "sent app = (app_has_router app, app_placed app)"

lemma sent_unchanged [simp]:
  "sent (update_panels P f app) = sent app" "sent (update_panel pid g app) = sent app"
  "sent (set_ticker key s app) = sent app" "sent (show_toast m a app) = sent app"
  "sent (persist key app) = sent app" "sent (sync_bracket_mode key app) = sent app"
  "sent (set_live_annotation_id key i app) = sent app" "sent (app\<lparr> app_store := S \<rparr>) = sent app"
  "sent (on_panel p g app) = sent app" "sent (app\<lparr> app_links := links \<rparr>) = sent app"
  by (simp_all add: sent_def update_panels_def update_panel_def set_ticker_def show_toast_def persist_def
      sync_bracket_mode_def set_live_annotation_id_def on_panel_def split: option.splits)

lemma project_bracket_sent [simp]: "sent (project_bracket now key b app) = sent app"
  by (simp add: project_bracket_def Let_def split: option.splits prod.splits bool.splits)

lemma handle_effect_sent:
  "sent (handle_effect now key e app) =
     (app_has_router app, app_placed app @ (if app_has_router app then placements key e else []))"
  by (cases e) (simp_all add: remove_bracket_def, simp_all add: sent_def start_placing_def)

lemma fold_sent:
  "sent (fold (handle_effect now key) es app) =
     (app_has_router app, app_placed app @ (if app_has_router app then concat (List.map (placements key) es) else []))"
proof (induction es arbitrary: app)
  case (Cons e es)
  then show ?case using handle_effect_sent [of now key e app] by (simp add: sent_def)
qed (simp add: sent_def)

lemma update_ticker_sent:
  "sent (update_ticker clock key msg app) =
     (app_has_router app, app_placed app @ (if app_has_router app
        then concat (List.map (placements key) (snd (ticker_apply clock msg (ticker_or_new clock key app)))) else []))"
proof -
  obtain s es where r: "ticker_apply clock msg (ticker_or_new clock key app) = (s, es)" by force
  have "app_has_router (set_ticker key s app) = app_has_router app" "app_placed (set_ticker key s app) = app_placed app"
    by (simp_all add: set_ticker_def)
  then show ?thesis using r by (simp add: update_ticker_def handle_ticker_effects_def fold_sent)
qed

lemma other_messages_send_nothing:
  assumes "msg \<noteq> SubmitOrder"
  shows "sent (update_ticker clock key msg app) = sent app"
proof -
  have "placements key e = []" if "e \<in> set (snd (ticker_apply clock msg (ticker_or_new clock key app)))" for e
  proof (cases e)
    case (SubmitToBroker b)
    then show ?thesis using that assms only_submits [of b clock msg "ticker_or_new clock key app"] by blast
  qed simp_all
  then have "concat (List.map (placements key) (snd (ticker_apply clock msg (ticker_or_new clock key app)))) = []"
    by simp
  then show ?thesis by (simp add: update_ticker_sent) (simp add: sent_def)
qed

lemma params_ignore_status: "params_of_bracket symbol q (b\<lparr> ob_status := st \<rparr>) = params_of_bracket symbol q b"
  by (cases "ob_entry_type b") (simp_all add: params_of_bracket_def entry_of_bracket_def Let_def)

text \<open>
  C7: The submit button of a chart places the bracket twice: the message \<open>SubmitOrder\<close> has the bracket
  placed through its effect, and the handler places the same parameters again.
\<close>

theorem submit_button_places_twice:
  assumes "app_has_router app" and "app_charts app chart = Some symbol" and "symbol \<noteq> []" and "SymbolKey_new symbol = symbol"
    and "get_bracket symbol i (app_store app) = Some b"
    and "app_tickers app symbol = Some s" and "ts_live_bracket s = Some b"
    and "ob_quantity b = Some q" and "validate_chart_bracket b q = []"
  shows "app_placed (handle_chart_bracket_submit clock chart i app) =
    app_placed app @ [params_of_bracket symbol q b, params_of_bracket symbol q b]"
proof -
  let ?app1 = "update_ticker clock symbol SubmitOrder app"
  let ?app2 = "start_placing (params_of_bracket symbol q b) ?app1"
  have one: "sent ?app1 = (True, app_placed app @ [params_of_bracket symbol q b])"
    using assms by (simp add: update_ticker_sent ticker_or_new_def apply_submit_order_def params_ignore_status Let_def)
  then have two: "sent ?app2 = (True, app_placed app @ [params_of_bracket symbol q b, params_of_bracket symbol q b])"
    by (simp add: sent_def start_placing_def)
  have "sent (handle_chart_bracket_submit clock chart i app) = sent ?app2"
    using assms by (simp add: handle_chart_bracket_submit_def chart_symbol_def submit_quantity_def Let_def
        other_messages_send_nothing)
  then show ?thesis using two by (simp add: sent_def)
qed

definition market_bracket :: OrderBracket where
  "market_bracket = (fresh_bracket OrderSide.Buy EntryType.Market
     \<lparr> ip_entry = f64_lit_100, ip_stop_trigger = None, ip_take_profit = f64_lit_100, ip_stop_loss = f64_lit_100 \<rparr>)
       \<lparr> ob_quantity := Some f64_two, ob_stop_loss := None \<rparr>"

definition market_app :: MidasApp where
  "market_app = (app_start [] [7 \<mapsto> ''SPY''] (\<lambda>_. None) True)
     \<lparr> app_tickers := [''SPY'' \<mapsto> (TickerState_new 0 ''SPY'')\<lparr> ts_live_bracket := Some market_bracket \<rparr>],
       app_store := snd (store_add 0 ''SPY'' (OrderBracketKind market_bracket) AnnotationStore_new) \<rparr>"

lemma market_bracket_sendable: "validate_chart_bracket market_bracket f64_two = []"
  by code_simp

lemma spy_key: "SymbolKey_new ''SPY'' = ''SPY''"
  by code_simp

theorem submit_button_places_twice_witness:
  "app_placed (handle_chart_bracket_submit \<lparr> utc_now = 0, instant_now = 0 \<rparr> 7 1 market_app) =
    [params_of_bracket ''SPY'' f64_two market_bracket, params_of_bracket ''SPY'' f64_two market_bracket]"
proof -
  have "get_bracket ''SPY'' 1 (app_store market_app) = Some market_bracket"
    by (simp add: market_app_def get_bracket_def get_by_id_def store_get_def store_add_def AnnotationStore_new_def
        push_annotation_def bump_generation_def spy_key SymbolAnnotations_new_def Let_def)
  then show ?thesis
    using submit_button_places_twice [of market_app 7 "''SPY''" 1 market_bracket
        "(TickerState_new 0 ''SPY'')\<lparr> ts_live_bracket := Some market_bracket \<rparr>" f64_two]
    by (simp add: market_bracket_sendable spy_key) (simp add: market_app_def app_start_def market_bracket_def)
qed

section \<open>The order panel\<close>

lemma broker_bracket_created_sent [simp]:
  "sent (broker_bracket_created clock parent tp_id sl_id symbol side quantity e tp sl app) = sent app"
  by (simp add: broker_bracket_created_def Let_def other_messages_send_nothing)

text \<open>
  C8: Confirming the order panel sends a market order without any entry price, whatever order type the
  panel shows and whatever limit and stop prices were typed.
\<close>

theorem confirmation_sends_a_market_order:
  assumes "app_has_router app" and "panel_state pid app = Some p"
    and "market_price (SymbolKey_new (pn_symbol p)) app = Some last_price"
  shows "\<exists>params. app_placed (panel_confirm_yes clock ids pid app) = app_placed app @ [params] \<and>
    bp_entry_kind params = OrderKind.Market \<and> bp_entry_price params = None \<and> bp_entry_stop_price params = None \<and>
    bp_symbol params = pn_symbol p"
proof -
  let ?params = "confirm_params p last_price"
  have "sent (panel_confirm_yes clock ids pid app) = sent (start_placing ?params app)"
    using assms by (simp add: panel_confirm_yes_def Let_def split: prod.splits)
  then have "app_placed (panel_confirm_yes clock ids pid app) = app_placed app @ [?params]"
    using assms(1) by (simp add: sent_def start_placing_def)
  then show ?thesis by (intro exI [of _ ?params]) (simp add: confirm_params_def Let_def)
qed

theorem confirmation_sends_a_market_order_witness:
  "\<exists>params. app_placed (panel_confirm_yes \<lparr> utc_now = 0, instant_now = 0 \<rparr> (1, 2, 3) 4
       (app_start [(4, OrderPanelState_default\<lparr> pn_symbol := ''SPY'', pn_entry_type := EntryType.Limit,
          pn_limit_price := ''99'' \<rparr>)] (\<lambda>_. None) [''SPY'' \<mapsto> (Some f64_lit_100, None)] True)) = [params] \<and>
     bp_entry_kind params = OrderKind.Market \<and> bp_entry_price params = None \<and> bp_entry_stop_price params = None \<and>
     bp_symbol params = ''SPY''"
  using confirmation_sends_a_market_order [of "app_start [(4, OrderPanelState_default\<lparr> pn_symbol := ''SPY'',
      pn_entry_type := EntryType.Limit, pn_limit_price := ''99'' \<rparr>)] (\<lambda>_. None) [''SPY'' \<mapsto> (Some f64_lit_100, None)] True" 4
      "OrderPanelState_default\<lparr> pn_symbol := ''SPY'', pn_entry_type := EntryType.Limit, pn_limit_price := ''99'' \<rparr>"]
  by (simp add: app_start_def panel_state_def market_price_def spy_key)

text \<open>
  The two translations of the broker's lifecycle into the status of a chart agree, the one of the
  enum and the one of its text; a bracket is drawn as over exactly when its lifecycle is over.
\<close>

lemma lifecycle_translations_agree:
  "map_lifecycle_to_chart_status (BracketLifecycleStatus_to_string st) = chart_status st \<and>
   (chart_status st \<in> {BracketStatus.Closed, BracketStatus.Cancelled}) = bracket_is_terminal st"
  by (cases st) (simp_all add: map_lifecycle_to_chart_status_def bracket_is_terminal_def)

text \<open>A bracket that is closed at the broker becomes a draft again.\<close>

lemma closed_bracket_becomes_a_draft:
  assumes "map_of (app_links app) parent = Some lk" and "app_tickers app (SymbolKey_new (lk_symbol lk)) = Some s"
    and "ts_live_bracket s = Some b"
  shows "ticker_apply clock (status_message parent lk (chart_status TakeProfitHit) price) s =
    (with_bracket (b\<lparr> ob_status := Draft \<rparr>) (bump_gen s),
     [ProjectBracket (b\<lparr> ob_status := Draft \<rparr>), Toast (ts_symbol s @ '' bracket cancelled'') None, PersistDirty])"
  using assms(3) by (simp add: status_message_def apply_order_cancelled_def edit_bracket_def)

text \<open>For a stop order the price typed in the panel goes to the trigger of a stop-limit, which nothing sends.\<close>

lemma typed_stop_price_is_not_sent:
  "ob_entry_type b = EntryType.Stop \<Longrightarrow>
     params_of_bracket symbol q (set_leg (field_role StopPriceField) price b) = params_of_bracket symbol q b"
  by (simp add: params_of_bracket_def entry_of_bracket_def set_leg_def field_role_def Let_def)

text \<open>After an edit of the panel the ticker's bracket has changed, the store has not.\<close>

lemma panel_sync_leaves_the_chart_behind:
  assumes "panel_state pid app = Some p" and "pn_symbol p \<noteq> []" and "app_tickers app (SymbolKey_new (pn_symbol p)) = Some s"
    and "ts_live_bracket s = Some b" and "pn_entry_type p = EntryType.Market" and "ts_last_price s = Some price"
  shows "app_store (sync_panel_to_intent clock pid app) = app_store app"
    and "\<exists>s' b'. app_tickers (sync_panel_to_intent clock pid app) (SymbolKey_new (pn_symbol p)) = Some s' \<and>
           ts_live_bracket s' = Some b' \<and> leg_price (ob_entry b') = price"
  using assms
  by (simp_all add: sync_panel_to_intent_def persist_def set_ticker_def apply_set_side_def apply_set_entry_type_def
      state_helpers retyped_def price_or_zero_def Let_def)

end
