(* ===== verification/Calendar_Types.thy ===== *)
theory Calendar_Types imports Order_Types begin

text \<open>
  The calendar vocabulary of \<open>crates/midas-calendar\<close>: sessions, bar periods, windows and errors
  (\<open>types.rs\<close>, \<open>period.rs\<close>) and the \<open>ExchangeCalendar\<close> trait (\<open>exchange.rs\<close>) as the record of its
  methods. A \<open>Timestamp\<close> is the count of its nanoseconds since the epoch, a \<open>NaiveDate\<close> the count of
  its days since 1970-01-01 and a local date-time the nanoseconds since its local 1970-01-01. What the
  code calls of the chrono and chrono-tz crates beyond arithmetic on these is the record \<open>chrono\<close>.
  The panics of chrono at the ends of its range of some 262000 years are not modelled.
\<close>

section \<open>The date library\<close>

type_synonym Timestamp = DateTime
type_synonym NaiveDate = int
type_synonym NaiveDateTime = int

datatype Weekday = Mon | Tue | Wed | Thu | Fri | Sat | Sun

datatype LocalResult = LocalNone | LocalSingle Timestamp | LocalAmbiguous Timestamp Timestamp

text \<open>
  \<open>from_timestamp s\<close> is the instant \<open>s\<close> seconds after the epoch, \<open>from_isoywd_opt\<close> is applied to
  Mondays only, \<open>from_local\<close> and \<open>local_date\<close> convert to and from the time zone of the calendar.
\<close>

record chrono =
  from_timestamp :: "int \<Rightarrow> Timestamp option"
  from_ymd_opt :: "int \<Rightarrow> int \<Rightarrow> int \<Rightarrow> NaiveDate option"
  date_year :: "NaiveDate \<Rightarrow> int"
  date_month :: "NaiveDate \<Rightarrow> int"
  date_day :: "NaiveDate \<Rightarrow> int"
  weekday :: "NaiveDate \<Rightarrow> Weekday"
  iso_week :: "NaiveDate \<Rightarrow> int \<times> int"
  from_isoywd_opt :: "int \<Rightarrow> int \<Rightarrow> NaiveDate option"
  from_local :: "NaiveDateTime \<Rightarrow> LocalResult"
  local_date :: "Timestamp \<Rightarrow> NaiveDate"

definition NANOS :: int where "NANOS = 1000000000"
definition DAY_SECS :: int where "DAY_SECS = 86400"

definition date_start :: "NaiveDate \<Rightarrow> Timestamp" where
  "date_start d = d * (DAY_SECS * NANOS)"

text \<open>\<open>date_naive\<close> and \<open>timestamp\<close> of an instant in UTC.\<close>

definition date_naive :: "Timestamp \<Rightarrow> NaiveDate" where
  "date_naive ts = ts div (DAY_SECS * NANOS)"

definition timestamp_secs :: "Timestamp \<Rightarrow> int" where
  "timestamp_secs ts = ts div NANOS"

section \<open>Periods\<close>

datatype ClockInterval = SecondsOf u32 | MinutesOf u32 | HoursOf u32

datatype SessionSpan = RegularSpan | ExtendedSpan | EthSpan

datatype CalendarSpan = WeekSpan | MonthSpan | QuarterSpan | YearSpan

datatype BarPeriod = ClockPeriod ClockInterval | SessionPeriod SessionSpan | CalendarPeriod CalendarSpan

definition m1 :: BarPeriod where "m1 = ClockPeriod (MinutesOf 1)"
definition m5 :: BarPeriod where "m5 = ClockPeriod (MinutesOf 5)"
definition h1 :: BarPeriod where "h1 = ClockPeriod (HoursOf 1)"
definition d1_rth :: BarPeriod where "d1_rth = SessionPeriod RegularSpan"
definition d1_eth :: BarPeriod where "d1_eth = SessionPeriod ExtendedSpan"
definition w1 :: BarPeriod where "w1 = CalendarPeriod WeekSpan"
definition mn1 :: BarPeriod where "mn1 = CalendarPeriod MonthSpan"

section \<open>Sessions and windows\<close>

type_synonym CalendarId = string

datatype SessionKind = RegularKind | PreMarket | PostMarket | BreakKind | Overnight | ClosedKind

record Session =
  ses_calendar :: CalendarId
  ses_kind :: SessionKind
  ses_label :: "string option"
  ses_open :: Timestamp
  ses_close :: Timestamp

definition Session_new :: "CalendarId \<Rightarrow> SessionKind \<Rightarrow> Timestamp \<Rightarrow> Timestamp \<Rightarrow> Session" where
  "Session_new c k op cl = \<lparr> ses_calendar = c, ses_kind = k, ses_label = None, ses_open = op, ses_close = cl \<rparr>"

definition ses_contains :: "Session \<Rightarrow> Timestamp \<Rightarrow> bool" where
  "ses_contains s ts = (ses_open s \<le> ts \<and> ts < ses_close s)"

record TradingDay =
  td_date :: NaiveDate
  td_sessions :: "Session list"
  td_is_early_close :: bool
  td_is_holiday :: bool
  td_holiday_name :: "string option"

record BarWindow =
  bw_open :: Timestamp
  bw_close :: Timestamp
  bw_session :: Session

datatype TimeAxisPolicy = Continuous | CompressedSessionBoundaries

datatype CalendarError = OutOfRange NaiveDate | UnsupportedPeriod CalendarId BarPeriod

text \<open>Whether an instant lies in a window.\<close>

definition bw_contains :: "BarWindow \<Rightarrow> Timestamp \<Rightarrow> bool" where
  "bw_contains w ts = (bw_open w \<le> ts \<and> ts < bw_close w)"

section \<open>The trait\<close>

text \<open>\<open>sessions_between\<close> returns the filled buffer; its length is the count the method returns.\<close>

record ExchangeCalendar =
  cal_id :: CalendarId
  cal_covers :: "NaiveDate \<times> NaiveDate"
  cal_time_axis_policy :: TimeAxisPolicy
  cal_trading_day :: "NaiveDate \<Rightarrow> (TradingDay, CalendarError) rust_result"
  cal_is_trading_day :: "NaiveDate \<Rightarrow> bool"
  cal_classify :: "Timestamp \<Rightarrow> Session"
  cal_bar_window :: "Timestamp \<Rightarrow> BarPeriod \<Rightarrow> (BarWindow, CalendarError) rust_result"
  cal_validate_period :: "BarPeriod \<Rightarrow> (unit, CalendarError) rust_result"
  cal_sessions_between :: "Timestamp \<Rightarrow> Timestamp \<Rightarrow> Session list"
  cal_next_open :: "Timestamp \<Rightarrow> SessionKind \<Rightarrow> Timestamp option"
  cal_prev_close :: "Timestamp \<Rightarrow> SessionKind \<Rightarrow> Timestamp option"

text \<open>What the bar aggregator relies on: a window belongs to the calendar that returns it.\<close>

locale exchange_calendar =
  fixes cal :: ExchangeCalendar
  assumes window_calendar: "cal_bar_window cal ts p = Ok w \<Longrightarrow> ses_calendar (bw_session w) = cal_id cal"

section \<open>Calendar arithmetic both calendars share\<close>

definition ok_or :: "'a option \<Rightarrow> 'e \<Rightarrow> ('a, 'e) rust_result" where
  "ok_or x e = (case x of Some v \<Rightarrow> Ok v | None \<Rightarrow> Err e)"

definition secs_per_bar :: "ClockInterval \<Rightarrow> int" where
  "secs_per_bar ci = (case ci of SecondsOf s \<Rightarrow> uint s | MinutesOf m \<Rightarrow> uint m * 60 | HoursOf h \<Rightarrow> uint h * 3600)"

text \<open>
  The clock window: aligned to the epoch, with the session of the instant. \<open>date_of\<close> names the date
  the calendar reports in its error.
\<close>

definition clock_bar_window ::
  "chrono \<Rightarrow> CalendarId \<Rightarrow> (Timestamp \<Rightarrow> NaiveDate) \<Rightarrow> (Timestamp \<Rightarrow> Session) \<Rightarrow> Timestamp \<Rightarrow> ClockInterval
   \<Rightarrow> (BarWindow, CalendarError) rust_result" where
  "clock_bar_window C cid date_of classify ts ci =
     (if secs_per_bar ci \<le> 0 then Err (UnsupportedPeriod cid (ClockPeriod ci))
      else let s = timestamp_secs ts; start = s - s mod secs_per_bar ci in
        case from_timestamp C start of
          None \<Rightarrow> Err (OutOfRange (date_of ts))
        | Some op \<Rightarrow>
            (case from_timestamp C (start + secs_per_bar ci) of
               None \<Rightarrow> Err (OutOfRange (date_of ts))
             | Some cl \<Rightarrow> Ok \<lparr> bw_open = op, bw_close = cl, bw_session = classify ts \<rparr>))"

text \<open>The dates \<open>[start, end)\<close> of the calendar span around a date.\<close>

definition next_month :: "int \<Rightarrow> int \<Rightarrow> int \<times> int" where
  "next_month y mo = (if mo = 12 then (y + 1, 1) else (y, mo + 1))"

definition span_dates :: "chrono \<Rightarrow> NaiveDate \<Rightarrow> CalendarSpan \<Rightarrow> (NaiveDate \<times> NaiveDate, CalendarError) rust_result" where
  "span_dates C date span =
     (let out = OutOfRange date; y = date_year C date;
          months = (\<lambda>first_month after.
            case from_ymd_opt C y first_month 1 of
              None \<Rightarrow> Err out
            | Some first \<Rightarrow>
                (case from_ymd_opt C (fst (after first)) (snd (after first)) 1 of
                   None \<Rightarrow> Err out
                 | Some next \<Rightarrow> Ok (first, next)))
      in case span of
           WeekSpan \<Rightarrow>
             (case from_isoywd_opt C (fst (iso_week C date)) (snd (iso_week C date)) of
                None \<Rightarrow> Err out
              | Some monday \<Rightarrow> Ok (monday, monday + 7))
         | MonthSpan \<Rightarrow>
             months (date_month C date) (\<lambda>first. next_month (date_year C first) (date_month C first))
         | QuarterSpan \<Rightarrow>
             (let q = (date_month C date - 1) div 3 * 3 + 1 in
              months q (\<lambda>first.
                if q + 3 > 12 then (date_year C first + 1, q + 3 - 12) else (date_year C first, q + 3)))
         | YearSpan \<Rightarrow> months 1 (\<lambda>first. (y + 1, 1)))"

end
