(* ===== verification/Calendar_Gregorian.thy ===== *)
theory Calendar_Gregorian imports Calendar_Types begin

text \<open>
  The proleptic Gregorian calendar on day numbers, which the chrono crate documents as its
  \<open>NaiveDate\<close>: what the calendars' theorems assume of the date library (\<open>gregorian\<close>), and an
  executable library that satisfies it.
\<close>

section \<open>Years and months\<close>

definition is_leap :: "int \<Rightarrow> bool" where
  "is_leap y = (y mod 4 = 0 \<and> (y mod 100 \<noteq> 0 \<or> y mod 400 = 0))"

text \<open>The day number of the first of January.\<close>

definition year_start :: "int \<Rightarrow> int" where
  "year_start y = 365 * (y - 1970) + (y - 1) div 4 - (y - 1) div 100 + (y - 1) div 400 - 477"

definition month_starts :: "int list" where
  "month_starts = [0, 31, 59, 90, 120, 151, 181, 212, 243, 273, 304, 334, 365]"

definition month_start :: "int \<Rightarrow> int \<Rightarrow> int" where
  "month_start y m = month_starts ! nat (m - 1) + (if is_leap y \<and> 2 < m then 1 else 0)"

definition month_len :: "int \<Rightarrow> int \<Rightarrow> int" where
  "month_len y m = month_start y (m + 1) - month_start y m"

definition civil :: "int \<Rightarrow> int \<Rightarrow> int \<Rightarrow> NaiveDate option" where
  "civil y m d = (if 1 \<le> m \<and> m \<le> 12 \<and> 1 \<le> d \<and> d \<le> month_len y m
     then Some (year_start y + month_start y m + d - 1) else None)"

definition civil_year :: "NaiveDate \<Rightarrow> int" where
  "civil_year x = (let c = x * 400 div 146097 + 1970 in
     if x < year_start c then c - 1 else if year_start (c + 1) \<le> x then c + 1 else c)"

definition civil_month :: "NaiveDate \<Rightarrow> int" where
  "civil_month x = int (length (filter (\<lambda>m. month_start (civil_year x) m \<le> x - year_start (civil_year x)) [1..12]))"

definition civil_day :: "NaiveDate \<Rightarrow> int" where
  "civil_day x = x - year_start (civil_year x) - month_start (civil_year x) (civil_month x) + 1"

text \<open>1970-01-01 was a Thursday.\<close>

definition civil_weekday :: "NaiveDate \<Rightarrow> Weekday" where
  "civil_weekday x = [Mon, Tue, Wed, Thu, Fri, Sat, Sun] ! nat ((x + 3) mod 7)"

definition monday_of :: "NaiveDate \<Rightarrow> NaiveDate" where
  "monday_of x = x - (x + 3) mod 7"

text \<open>What is assumed of the library: it supports all years up to 200000 and its dates are these.\<close>

definition gregorian :: "chrono \<Rightarrow> bool" where
  "gregorian C =
     ((\<forall>y m d. \<bar>y\<bar> \<le> 200000 \<longrightarrow> from_ymd_opt C y m d = civil y m d)
      \<and> (\<forall>y m d x. from_ymd_opt C y m d = Some x \<longrightarrow> civil y m d = Some x)
      \<and> date_year C = civil_year \<and> date_month C = civil_month \<and> date_day C = civil_day
      \<and> weekday C = civil_weekday
      \<and> (\<forall>x. iso_week C (monday_of x) = iso_week C x)
      \<and> (\<forall>x m. from_isoywd_opt C (fst (iso_week C x)) (snd (iso_week C x)) = Some m \<longrightarrow> m = monday_of x)
      \<and> (\<forall>s t. from_timestamp C s = Some t \<longrightarrow> t = s * NANOS))"

section \<open>The calendar is consistent\<close>

lemma div_step:
  fixes y k :: int
  assumes "0 < k"
  shows "y div k = (y - 1) div k + (if y mod k = 0 then 1 else 0)"
proof -
  define q r where "q = (y - 1) div k" and "r = (y - 1) mod k"
  have r: "0 \<le> r" "r < k" and y: "y = k * q + (r + 1)"
    using assms by (simp_all add: q_def r_def algebra_simps)
  show ?thesis
  proof (cases "r + 1 = k")
    case True
    then have "y = k * (q + 1)" using y by (simp add: algebra_simps)
    then have "y div k = q + 1" "y mod k = 0" using assms by simp_all
    then show ?thesis by (simp add: q_def)
  next
    case False
    then have "y div k = q \<and> y mod k = r + 1"
      using r y by (intro conjI int_div_pos_eq [OF y] int_mod_pos_eq [OF y]) simp_all
    then show ?thesis using r by (simp add: q_def)
  qed
qed

lemma year_start_Suc: "year_start (y + 1) = year_start y + (if is_leap y then 366 else 365)"
proof -
  define a b c where "a = (y mod 4 = 0)" and "b = (y mod 100 = 0)" and "c = (y mod 400 = 0)"
  have impl: "b \<Longrightarrow> a" "c \<Longrightarrow> b"
    using dvd_trans [of 4 100 y] dvd_trans [of 100 400 y]
    by (simp_all add: a_def b_def c_def dvd_eq_mod_eq_0)
  have "year_start (y + 1) = 365 * (y - 1970) + 365 + y div 4 - y div 100 + y div 400 - 477"
    by (simp add: year_start_def)
  moreover have "y div 4 = (y - 1) div 4 + (if a then 1 else 0)"
    "y div 100 = (y - 1) div 100 + (if b then 1 else 0)"
    "y div 400 = (y - 1) div 400 + (if c then 1 else 0)"
    unfolding a_def b_def c_def by (rule div_step; simp)+
  ultimately have "year_start (y + 1)
      = year_start y + 365 + (if a then 1 else 0) - (if b then 1 else 0) + (if c then 1 else 0)"
    unfolding year_start_def [of y] by linarith
  moreover have "is_leap y = (a \<and> (\<not> b \<or> c))" by (simp add: is_leap_def a_def b_def c_def)
  ultimately show ?thesis using impl by (simp split: if_splits)
qed

lemma year_start_bounds:
  "146097 * (y - 1970) - 600 \<le> 400 * year_start y \<and> 400 * year_start y \<le> 146097 * (y - 1970) + 600"
proof -
  have eq: "k * ((y - 1) div k) = y - 1 - (y - 1) mod k" for k :: int
    by (simp add: minus_mod_eq_mult_div [symmetric])
  define r4 r100 r400 where "r4 = (y - 1) mod 4" "r100 = (y - 1) mod 100" "r400 = (y - 1) mod 400"
  have "0 \<le> r4" "r4 < 4" "0 \<le> r100" "r100 < 100" "0 \<le> r400" "r400 < 400"
    by (simp_all add: r4_r100_r400_def)
  moreover have "400 * year_start y = 146000 * (y - 1970) + 100 * (y - 1 - r4) - 4 * (y - 1 - r100)
      + (y - 1 - r400) - 190800"
    using eq [of 4] eq [of 100] eq [of 400] unfolding year_start_def r4_r100_r400_def by simp
  ultimately show ?thesis by (simp add: algebra_simps)
qed

lemma year_start_strict: "y < z \<Longrightarrow> year_start y + 365 \<le> year_start z"
proof (induction "nat (z - y)" arbitrary: z)
  case (Suc k)
  show ?case
  proof (cases "z = y + 1")
    case True
    then show ?thesis by (simp add: year_start_Suc)
  next
    case False
    with Suc have "year_start y + 365 \<le> year_start (z - 1)" by auto
    moreover have "year_start (z - 1) \<le> year_start z"
      using year_start_Suc [of "z - 1"] by (auto split: if_splits)
    ultimately show ?thesis by linarith
  qed
qed simp

lemma civil_year_bounds: "year_start (civil_year x) \<le> x \<and> x < year_start (civil_year x + 1)"
proof -
  define c where "c = x * 400 div 146097 + 1970"
  have "0 \<le> (x * 400) mod 146097" "(x * 400) mod 146097 < 146097"
    "x * 400 = 146097 * (c - 1970) + (x * 400) mod 146097"
    by (simp_all add: c_def)
  then have "146097 * (c - 1970) \<le> x * 400" "x * 400 < 146097 * (c - 1970) + 146097" by linarith+
  then have "year_start (c - 1) \<le> x" "x < year_start (c + 2)"
    using year_start_bounds [of "c - 1"] year_start_bounds [of "c + 2"] by simp_all
  moreover have "civil_year x = (if x < year_start c then c - 1 else if year_start (c + 1) \<le> x then c + 1 else c)"
    by (simp add: civil_year_def c_def Let_def)
  ultimately show ?thesis by (simp add: algebra_simps)
qed

lemma civil_year_unique: "year_start y \<le> x \<Longrightarrow> x < year_start (y + 1) \<Longrightarrow> civil_year x = y"
  using civil_year_bounds [of x] year_start_strict [of y "civil_year x"]
    year_start_strict [of "civil_year x" y] year_start_strict [of "y + 1" "civil_year x"]
    year_start_strict [of "civil_year x + 1" y]
  by (smt (verit))

lemma months: "1 \<le> m \<Longrightarrow> m \<le> 12 \<Longrightarrow>
   m = 1 \<or> m = 2 \<or> m = 3 \<or> m = 4 \<or> m = 5 \<or> m = 6 \<or> m = 7 \<or> m = 8 \<or> m = 9 \<or> m = 10 \<or> m = 11 \<or> m = (12::int)"
  by presburger

lemma upto_12: "[1..12] = [1, 2, 3, 4, 5, 6, 7, 8, 9, 10, 11, 12 :: int]"
  by (simp add: upto.simps)

lemmas month_table = month_start_def month_starts_def nth_Cons_numeral nat_numeral


lemma month_of:
  assumes "1 \<le> m" "m \<le> 12" "month_start y m \<le> r" "r < month_start y (m + 1)"
  shows "length (filter (\<lambda>k. month_start y k \<le> r) [1..12]) = nat m"
  using months [OF assms(1, 2)] assms(3, 4) unfolding upto_12
  by (elim disjE) (simp_all add: month_table split: if_splits)

lemma month_start_range:
  assumes "1 \<le> m" "m \<le> 12"
  shows "0 \<le> month_start y m" "month_start y m + 28 \<le> month_start y (m + 1)"
    "month_start y (m + 1) \<le> (if is_leap y then 366 else 365)"
  using months [OF assms] by (elim disjE; simp add: month_table)+

lemma month_start_mono: "1 \<le> m \<Longrightarrow> m < k \<Longrightarrow> k \<le> 13 \<Longrightarrow> month_start y m + 28 \<le> month_start y k"
proof (induction "nat (k - m)" arbitrary: k)
  case (Suc n)
  show ?case
  proof (cases "k = m + 1")
    case True
    with Suc.prems month_start_range(2) [of m y] show ?thesis by simp
  next
    case False
    with Suc have "month_start y m + 28 \<le> month_start y (k - 1)" by simp
    with month_start_range(2) [of "k - 1" y] Suc.prems show ?thesis by simp
  qed
qed simp

lemma civil_Some:
  "civil y m d = Some x \<longleftrightarrow> 1 \<le> m \<and> m \<le> 12 \<and> 1 \<le> d \<and> d \<le> month_len y m
     \<and> x = year_start y + month_start y m + d - 1"
  by (auto simp: civil_def)

lemma civil_parts:
  assumes "civil y m d = Some x"
  shows "civil_year x = y \<and> civil_month x = m \<and> civil_day x = d"
proof -
  have m: "1 \<le> m" "m \<le> 12" and d: "1 \<le> d" "d \<le> month_len y m"
    and x: "x = year_start y + month_start y m + d - 1"
    using assms by (simp_all add: civil_Some)
  note r = month_start_range [OF m, of y]
  have "x < year_start (y + 1)" using d r(3) by (simp add: x month_len_def year_start_Suc)
  then have y: "civil_year x = y" using d r(1) by (intro civil_year_unique) (simp_all add: x)
  have "length (filter (\<lambda>k. month_start y k \<le> x - year_start y) [1..12]) = nat m"
    using d by (intro month_of [OF m]) (simp_all add: x month_len_def)
  then have "civil_month x = m" using m by (simp add: civil_month_def y)
  then show ?thesis using y by (simp add: civil_day_def x)
qed

lemma month_exists:
  assumes "0 \<le> r" "r < month_start y 13"
  obtains m where "1 \<le> m" "m \<le> 12" "month_start y m \<le> r" "r < month_start y (m + 1)"
proof -
  define k where "k = (GREATEST n. n \<le> 12 \<and> 1 \<le> n \<and> month_start y (int n) \<le> r)"
  let ?P = "\<lambda>n. n \<le> 12 \<and> 1 \<le> n \<and> month_start y (int n) \<le> r"
  have "?P 1" using assms(1) by (simp add: month_table)
  then have k: "?P k" unfolding k_def by (rule GreatestI_nat [of ?P 1 12]) simp
  have "r < month_start y (int k + 1)"
  proof (cases "k = 12")
    case False
    have "\<not> ?P (Suc k)" using Greatest_le_nat [of ?P "Suc k" 12] unfolding k_def by auto
    then show ?thesis using k False by (simp add: add.commute)
  qed (use assms in simp)
  then show ?thesis using k that [of "int k"] by simp
qed

lemma civil_of: "civil (civil_year x) (civil_month x) (civil_day x) = Some x"
proof -
  let ?y = "civil_year x" let ?r = "x - year_start ?y"
  have "0 \<le> ?r" "?r < month_start ?y 13"
    using civil_year_bounds [of x] by (simp_all add: year_start_Suc month_table split: if_splits)
  then obtain m where m: "1 \<le> m" "m \<le> 12" "month_start ?y m \<le> ?r" "?r < month_start ?y (m + 1)"
    by (rule month_exists)
  then have "civil_month x = m" by (simp add: civil_month_def month_of)
  with m show ?thesis by (simp add: civil_Some civil_day_def month_len_def)
qed

lemma civil_month_range: "1 \<le> civil_month t" "civil_month t \<le> 12"
  using civil_of [of t] by (simp_all add: civil_Some)

text \<open>Dates are ordered as their years, months and days are.\<close>

lemma civil_less:
  assumes a: "civil y m d = Some x" and b: "civil y' m' d' = Some x'"
    and less: "y < y' \<or> (y = y' \<and> (m < m' \<or> (m = m' \<and> d < d')))"
  shows "x < x'"
proof -
  have bounds: "year_start y + month_start y m \<le> x" "x < year_start y + month_start y (m + 1)"
    "year_start y' + month_start y' m' \<le> x'"
    using a b by (simp_all add: civil_Some month_len_def)
  have m: "1 \<le> m" "m \<le> 12" "1 \<le> m'" "m' \<le> 12" using a b by (simp_all add: civil_Some)
  from less consider "y < y'" | "y = y'" "m < m'" | "y = y'" "m = m'" "d < d'" by blast
  then show ?thesis
  proof cases
    case 1
    then have "year_start (y + 1) \<le> year_start y'"
      using year_start_strict [of "y + 1" y'] by (cases "y' = y + 1") auto
    with bounds month_start_range [OF m(1, 2), of y] month_start_range(1) [OF m(3, 4), of y']
    show ?thesis by (simp add: year_start_Suc split: if_splits)
  next
    case 2
    with bounds month_start_mono [of "m + 1" m' y] m show ?thesis by (cases "m' = m + 1") auto
  next
    case 3
    with a b show ?thesis by (simp add: civil_Some)
  qed
qed

lemma civil_le:
  assumes "civil y m d = Some x" "civil y' m' d' = Some x'"
    and "y < y' \<or> (y = y' \<and> (m < m' \<or> (m = m' \<and> d \<le> d')))"
  shows "x \<le> x'"
proof (cases "y = y' \<and> m = m' \<and> d = d'")
  case False
  with assms(3) show ?thesis using civil_less [OF assms(1, 2)] by force
qed (use assms in simp)

section \<open>Calendar spans\<close>

lemma gregorianD:
  assumes "gregorian C"
  shows "from_ymd_opt C y m d = Some x \<Longrightarrow> civil y m d = Some x"
    and "\<bar>y\<bar> \<le> 200000 \<Longrightarrow> from_ymd_opt C y m d = civil y m d"
    and "date_year C = civil_year" "date_month C = civil_month" "date_day C = civil_day"
    and "weekday C = civil_weekday"
    and "iso_week C (monday_of x) = iso_week C x"
    and "from_isoywd_opt C (fst (iso_week C x)) (snd (iso_week C x)) = Some m' \<Longrightarrow> m' = monday_of x"
    and "from_timestamp C s = Some ts \<Longrightarrow> ts = s * NANOS"
  using assms unfolding gregorian_def by blast+

lemma monday_of_eq: "monday_of x = 7 * ((x + 3) div 7) - 3"
  unfolding monday_of_def by (simp add: minus_mod_eq_mult_div [symmetric])

lemma monday_of_week: "monday_of x \<le> t \<and> t < monday_of x + 7 \<longleftrightarrow> monday_of t = monday_of x"
proof -
  define q k where "q = (x + 3) div 7" and "k = (t + 3) div 7"
  have "7 * k \<le> t + 3" "t + 3 < 7 * k + 7" by (simp_all add: k_def)
  moreover have "monday_of x = 7 * q - 3" "monday_of t = 7 * k - 3"
    by (simp_all add: monday_of_eq q_def k_def)
  ultimately show ?thesis by presburger
qed

text \<open>The dates from one first of a month to another are those of the months between.\<close>

lemma between_firsts:
  assumes "civil y m 1 = Some a" "civil y' m' 1 = Some b"
  shows "a \<le> t \<and> t < b \<longleftrightarrow>
     (y < civil_year t \<or> y = civil_year t \<and> m \<le> civil_month t)
     \<and> (civil_year t < y' \<or> civil_year t = y' \<and> civil_month t < m')"
proof -
  have d: "1 \<le> civil_day t" using civil_of [of t] by (simp add: civil_Some)
  have "a \<le> t \<longleftrightarrow> (y < civil_year t \<or> y = civil_year t \<and> m \<le> civil_month t)"
    using civil_less [OF civil_of assms(1), of t] civil_le [OF assms(1) civil_of, of t] d by fastforce
  moreover have "t < b \<longleftrightarrow> (civil_year t < y' \<or> civil_year t = y' \<and> civil_month t < m')"
    using civil_less [OF civil_of assms(2), of t] civil_le [OF assms(2) civil_of, of t] d by fastforce
  ultimately show ?thesis by simp
qed

lemma same_month:
  fixes yt mt yx mx :: int
  assumes "1 \<le> mt" "mt \<le> 12" "1 \<le> mx" "mx \<le> 12" and "next_month yx mx = (y, m)"
  shows "(yx < yt \<or> yx = yt \<and> mx \<le> mt) \<and> (yt < y \<or> yt = y \<and> mt < m) \<longleftrightarrow> yt = yx \<and> mt = mx"
proof (cases "mx = 12")
  case True
  then have "y = yx + 1" "m = 1" using assms(5) by (simp_all add: next_month_def)
  with True assms(1, 2) show ?thesis by presburger
next
  case False
  then have "y = yx" "m = mx + 1" using assms(5) by (simp_all add: next_month_def)
  then show ?thesis by presburger
qed

lemma same_quarter:
  fixes yt mt yx mx :: int
  assumes "1 \<le> mt" "mt \<le> 12" "1 \<le> mx" "mx \<le> 12"
    and "(if (mx - 1) div 3 * 3 + 1 + 3 > 12 then (yx + 1, (mx - 1) div 3 * 3 + 1 + 3 - 12)
      else (yx, (mx - 1) div 3 * 3 + 1 + 3)) = (y, m)"
  shows "(yx < yt \<or> yx = yt \<and> (mx - 1) div 3 * 3 + 1 \<le> mt) \<and> (yt < y \<or> yt = y \<and> mt < m)
    \<longleftrightarrow> yt = yx \<and> (mt - 1) div 3 * 3 + 1 = (mx - 1) div 3 * 3 + 1"
proof -
  define q k where "q = (mx - 1) div 3" and "k = (mt - 1) div 3"
  have k: "3 * k + 1 \<le> mt" "mt \<le> 3 * k + 3" "0 \<le> k" "k \<le> 3" and q: "0 \<le> q" "q \<le> 3"
    using assms(1-4) unfolding k_def q_def by presburger+
  have in_quarter: "q * 3 + 1 \<le> mt \<and> mt < q * 3 + 4 \<longleftrightarrow> k = q" using k(1, 2) by linarith
  have same: "k * 3 + 1 = q * 3 + 1 \<longleftrightarrow> k = q" by simp
  show ?thesis
  proof (cases "q = 3")
    case True
    then have "y = yx + 1" "m = 1" using assms(5) by (simp_all add: q_def [symmetric])
    moreover have "mt < q * 3 + 4" using True assms(2) by simp
    ultimately show ?thesis
      unfolding q_def [symmetric] k_def [symmetric] same using in_quarter assms(1) by auto
  next
    case False
    then have "y = yx" "m = q * 3 + 4" using assms(5) q by (simp_all add: q_def [symmetric] split: if_splits)
    then show ?thesis unfolding q_def [symmetric] k_def [symmetric] same using in_quarter by auto
  qed
qed

lemma span_dates_stable:
  assumes C: "gregorian C" and span: "span_dates C x span = Ok (a, b)"
  shows "a \<le> x \<and> x < b \<and> (a \<le> t \<and> t < b \<longrightarrow> span_dates C t span = Ok (a, b))"
proof (cases span)
  case WeekSpan
  then obtain m where m: "from_isoywd_opt C (fst (iso_week C x)) (snd (iso_week C x)) = Some m"
    and ab: "a = m" "b = m + 7"
    using span by (auto simp: span_dates_def split: option.splits)
  have "m = monday_of x" using gregorianD(8) [OF C m] .
  then have week: "a \<le> t \<and> t < b \<longleftrightarrow> monday_of t = monday_of x" for t
    using monday_of_week [of x t] by (simp add: ab)
  have "span_dates C t span = Ok (a, b)" if "monday_of t = monday_of x"
  proof -
    have "iso_week C t = iso_week C x" using gregorianD(7) [OF C] that by metis
    with WeekSpan m ab show ?thesis by (simp add: span_dates_def)
  qed
  with week show ?thesis by blast
next
  case MonthSpan
  note G = gregorianD(3, 4) [OF C]
  obtain y m where nm: "next_month (civil_year x) (civil_month x) = (y, m)" by force
  obtain f where f: "from_ymd_opt C (civil_year x) (civil_month x) 1 = Some f"
    using span MonthSpan by (auto simp: span_dates_def G Let_def split: option.splits)
  have fp: "civil_year f = civil_year x" "civil_month f = civil_month x"
    using civil_parts [OF gregorianD(1) [OF C f]] by simp_all
  have ab: "a = f" "from_ymd_opt C y m 1 = Some b"
    using span MonthSpan f nm by (auto simp: span_dates_def G fp Let_def split: option.splits)
  have "a \<le> t \<and> t < b \<longleftrightarrow> civil_year t = civil_year x \<and> civil_month t = civil_month x" for t
    using between_firsts [OF gregorianD(1) [OF C f] gregorianD(1) [OF C ab(2)], of t]
      same_month [OF civil_month_range [of t] civil_month_range [of x] nm, of "civil_year t"]
    by (simp only: ab(1))
  then show ?thesis using span MonthSpan f by (auto simp: span_dates_def G Let_def split: option.splits)
next
  case QuarterSpan
  note G = gregorianD(3, 4) [OF C]
  define q where "q = (civil_month x - 1) div 3 * 3 + 1"
  obtain f where f: "from_ymd_opt C (civil_year x) q 1 = Some f"
    using span QuarterSpan by (auto simp: span_dates_def G q_def Let_def split: option.splits)
  have fp: "civil_year f = civil_year x" using civil_parts [OF gregorianD(1) [OF C f]] by simp
  obtain y m where nm: "(if q + 3 > 12 then (civil_year x + 1, q + 3 - 12) else (civil_year x, q + 3)) = (y, m)"
    by force
  have ab: "a = f" "from_ymd_opt C y m 1 = Some b"
    using span QuarterSpan f nm fp by (auto simp: span_dates_def G q_def [symmetric] Let_def split: option.splits if_splits)
  have "a \<le> t \<and> t < b \<longleftrightarrow> civil_year t = civil_year x \<and> (civil_month t - 1) div 3 * 3 + 1 = q" for t
    using between_firsts [OF gregorianD(1) [OF C f] gregorianD(1) [OF C ab(2)], of t]
      same_quarter [OF civil_month_range [of t] civil_month_range [of x] nm [unfolded q_def], of "civil_year t"]
    by (simp only: ab(1) q_def)
  moreover have "span_dates C t span = Ok (a, b)"
    if "civil_year t = civil_year x" "(civil_month t - 1) div 3 * 3 + 1 = q"
    unfolding span_dates_def QuarterSpan Let_def G that
    by (simp only: CalendarSpan.case f option.case fp nm fst_conv snd_conv ab)
  ultimately show ?thesis using q_def by blast
next
  case YearSpan
  note G = gregorianD(3, 4) [OF C]
  have ab: "from_ymd_opt C (civil_year x) 1 1 = Some a" "from_ymd_opt C (civil_year x + 1) 1 1 = Some b"
    using span YearSpan by (auto simp: span_dates_def G Let_def split: option.splits)
  have "a \<le> t \<and> t < b \<longleftrightarrow> civil_year t = civil_year x" for t
    using between_firsts [OF gregorianD(1) [OF C ab(1)] gregorianD(1) [OF C ab(2)], of t] civil_month_range [of t]
    by auto
  then show ?thesis using span YearSpan ab by (auto simp: span_dates_def G Let_def split: option.splits)
qed

section \<open>A library that satisfies the assumptions\<close>

text \<open>UTC as the local time.\<close>

definition civil_week :: "NaiveDate \<Rightarrow> int \<times> int" where
  "civil_week x = (let thursday = monday_of x + 3; y = civil_year thursday in
     (y, (thursday - year_start y) div 7 + 1))"

definition civil_chrono :: chrono where
  "civil_chrono =
     \<lparr> from_timestamp = (\<lambda>s. Some (s * NANOS)), from_ymd_opt = civil, date_year = civil_year,
       date_month = civil_month, date_day = civil_day, weekday = civil_weekday, iso_week = civil_week,
       from_isoywd_opt = (\<lambda>y w. Some (monday_of (year_start y + 3) + 7 * (w - 1))),
       from_local = LocalSingle, local_date = date_naive \<rparr>"

lemma monday_of_monday: "monday_of (monday_of x) = monday_of x"
  using monday_of_week [of x "monday_of x"] by simp

lemma first_thursday: "monday_of (year_start y + 3) + 7 * ((monday_of x + 3 - year_start y) div 7) = monday_of x"
  if "civil_year (monday_of x + 3) = y"
proof -
  define q s where "q = (x + 3) div 7" and "s = year_start y"
  have m: "monday_of x = 7 * q - 3" by (simp add: monday_of_eq q_def)
  have "s \<le> monday_of x + 3" using civil_year_bounds [of "monday_of x + 3"] that by (simp add: s_def)
  then show ?thesis unfolding s_def [symmetric] m monday_of_eq by presburger
qed

lemma civil_chrono_gregorian: "gregorian civil_chrono"
  unfolding gregorian_def
  by (simp add: civil_chrono_def civil_week_def Let_def monday_of_monday first_thursday)

end
