(* ===== verification/Calendar_Crypto.thy ===== *)
theory Calendar_Crypto imports Calendar_Gregorian begin

text \<open>
  The crypto-spot calendar, \<open>crates/midas-calendar/src/crypto_spot.rs\<close>: always open, one regular
  session per UTC day, from 1970 to 2100. A date limit the code unwraps (the first of January of a
  constant year) is \<open>ymd\<close>, whose value outside the library's range is never asked for.
\<close>

definition CRYPTO_SPOT_ID :: CalendarId where "CRYPTO_SPOT_ID = ''CRYPTO''"

definition ymd :: "chrono \<Rightarrow> int \<Rightarrow> int \<Rightarrow> int \<Rightarrow> NaiveDate" where
  "ymd C y mo d = (case from_ymd_opt C y mo d of Some x \<Rightarrow> x | None \<Rightarrow> 0)"

definition crypto_start :: "chrono \<Rightarrow> NaiveDate" where "crypto_start C = ymd C 1970 1 1"
definition crypto_end :: "chrono \<Rightarrow> NaiveDate" where "crypto_end C = ymd C 2100 1 1"

definition crypto_in_coverage :: "chrono \<Rightarrow> NaiveDate \<Rightarrow> bool" where
  "crypto_in_coverage C date = (crypto_start C \<le> date \<and> date < crypto_end C)"

definition crypto_session :: "NaiveDate \<Rightarrow> Session" where
  "crypto_session date = Session_new CRYPTO_SPOT_ID RegularKind (date_start date) (date_start (date + 1))"

definition crypto_build_day :: "NaiveDate \<Rightarrow> TradingDay" where
  "crypto_build_day date =
     \<lparr> td_date = date, td_sessions = [crypto_session date], td_is_early_close = False,
       td_is_holiday = False, td_holiday_name = None \<rparr>"

definition crypto_closed_session :: "Timestamp \<Rightarrow> Session" where
  "crypto_closed_session ts = Session_new CRYPTO_SPOT_ID ClosedKind ts ts"

definition crypto_covers :: "chrono \<Rightarrow> NaiveDate \<times> NaiveDate" where
  "crypto_covers C = (crypto_start C, crypto_end C)"

definition crypto_trading_day :: "chrono \<Rightarrow> NaiveDate \<Rightarrow> (TradingDay, CalendarError) rust_result" where
  "crypto_trading_day C date =
     (if \<not> crypto_in_coverage C date then Err (OutOfRange date) else Ok (crypto_build_day date))"

definition crypto_classify :: "chrono \<Rightarrow> Timestamp \<Rightarrow> Session" where
  "crypto_classify C ts =
     (let date = date_naive ts in
      if \<not> crypto_in_coverage C date then crypto_closed_session ts
      else hd (td_sessions (crypto_build_day date)))"

definition crypto_validate_period :: "BarPeriod \<Rightarrow> (unit, CalendarError) rust_result" where
  "crypto_validate_period p =
     (case p of SessionPeriod EthSpan \<Rightarrow> Err (UnsupportedPeriod CRYPTO_SPOT_ID p) | _ \<Rightarrow> Ok ())"

definition crypto_calendar_window ::
  "chrono \<Rightarrow> Timestamp \<Rightarrow> CalendarSpan \<Rightarrow> (BarWindow, CalendarError) rust_result" where
  "crypto_calendar_window C ts span =
     (case span_dates C (date_naive ts) span of
        Inl e \<Rightarrow> Err e
      | Inr (start, end_excl) \<Rightarrow>
          let start_td = crypto_build_day start; end_td = crypto_build_day (end_excl - 1) in
          Ok \<lparr> bw_open = ses_open (hd (td_sessions start_td)),
               bw_close = ses_close (last (td_sessions end_td)),
               bw_session = hd (td_sessions start_td) \<rparr>)"

definition crypto_bar_window ::
  "chrono \<Rightarrow> Timestamp \<Rightarrow> BarPeriod \<Rightarrow> (BarWindow, CalendarError) rust_result" where
  "crypto_bar_window C ts p =
     (case crypto_validate_period p of
        Inl e \<Rightarrow> Err e
      | Inr _ \<Rightarrow>
          (case p of
             ClockPeriod ci \<Rightarrow> clock_bar_window C CRYPTO_SPOT_ID date_naive (crypto_classify C) ts ci
           | SessionPeriod _ \<Rightarrow>
               (let date = date_naive ts in
                if \<not> crypto_in_coverage C date then Err (OutOfRange date)
                else let s = hd (td_sessions (crypto_build_day date)) in
                  Ok \<lparr> bw_open = ses_open s, bw_close = ses_close s, bw_session = s \<rparr>)
           | CalendarPeriod span \<Rightarrow> crypto_calendar_window C ts span))"

text \<open>The loops over days, from \<open>d\<close> up to \<open>stop\<close> or down to \<open>start\<close>.\<close>

function crypto_days_between :: "Timestamp \<Rightarrow> Timestamp \<Rightarrow> NaiveDate \<Rightarrow> NaiveDate \<Rightarrow> Session list" where
  "crypto_days_between lo hi d stop =
     (if d < stop then
        filter (\<lambda>s. ses_close s > lo \<and> ses_open s < hi) (td_sessions (crypto_build_day d))
          @ crypto_days_between lo hi (d + 1) stop
      else [])"
  by pat_completeness auto
termination by (relation "measure (\<lambda>(lo, hi, d, stop). nat (stop - d))") auto

definition crypto_sessions_between :: "chrono \<Rightarrow> Timestamp \<Rightarrow> Timestamp \<Rightarrow> Session list" where
  "crypto_sessions_between C lo hi =
     (if hi \<le> lo then []
      else crypto_days_between lo hi (max (date_naive lo) (crypto_start C))
             (min (date_naive hi + 1) (crypto_end C)))"

function crypto_open_after :: "Timestamp \<Rightarrow> NaiveDate \<Rightarrow> NaiveDate \<Rightarrow> Timestamp option" where
  "crypto_open_after ts d stop =
     (if d < stop then
        let s = hd (td_sessions (crypto_build_day d)) in
        if ses_open s > ts then Some (ses_open s) else crypto_open_after ts (d + 1) stop
      else None)"
  by pat_completeness auto
termination by (relation "measure (\<lambda>(ts, d, stop). nat (stop - d))") auto

definition crypto_next_open :: "chrono \<Rightarrow> Timestamp \<Rightarrow> SessionKind \<Rightarrow> Timestamp option" where
  "crypto_next_open C ts kind =
     (if kind \<noteq> RegularKind then None
      else let date = date_naive ts;
               d = (if crypto_in_coverage C date then date else crypto_start C)
           in crypto_open_after ts d (crypto_end C))"

function crypto_close_before :: "Timestamp \<Rightarrow> NaiveDate \<Rightarrow> NaiveDate \<Rightarrow> Timestamp option" where
  "crypto_close_before ts d start =
     (if start \<le> d then
        let s = hd (td_sessions (crypto_build_day d)) in
        if ses_close s \<le> ts then Some (ses_close s) else crypto_close_before ts (d - 1) start
      else None)"
  by pat_completeness auto
termination by (relation "measure (\<lambda>(ts, d, start). nat (d + 1 - start))") auto

definition crypto_prev_close :: "chrono \<Rightarrow> Timestamp \<Rightarrow> SessionKind \<Rightarrow> Timestamp option" where
  "crypto_prev_close C ts kind =
     (if kind \<noteq> RegularKind then None
      else let date = date_naive ts;
               d = (if crypto_in_coverage C date then date else ymd C 2100 12 31)
           in crypto_close_before ts d (crypto_start C))"

declare crypto_days_between.simps [simp del] crypto_open_after.simps [simp del]
  crypto_close_before.simps [simp del]

definition CRYPTO_SPOT :: "chrono \<Rightarrow> ExchangeCalendar" where
  "CRYPTO_SPOT C =
     \<lparr> cal_id = CRYPTO_SPOT_ID, cal_covers = crypto_covers C, cal_time_axis_policy = Continuous,
       cal_trading_day = crypto_trading_day C, cal_is_trading_day = crypto_in_coverage C,
       cal_classify = crypto_classify C, cal_bar_window = crypto_bar_window C,
       cal_validate_period = crypto_validate_period, cal_sessions_between = crypto_sessions_between C,
       cal_next_open = crypto_next_open C, cal_prev_close = crypto_prev_close C \<rparr>"

section \<open>Windows\<close>

lemma NANOS_pos: "0 < NANOS" "0 < DAY_SECS * NANOS"
  by (simp_all add: NANOS_def DAY_SECS_def)

lemma mult_le_iff_le_div: "0 < k \<Longrightarrow> a * k \<le> t \<longleftrightarrow> a \<le> t div k" for k :: int
proof
  assume k: "0 < k" and "a * k \<le> t"
  then have "a * k div k \<le> t div k" by (intro zdiv_mono1)
  with k show "a \<le> t div k" by simp
next
  assume k: "0 < k" and "a \<le> t div k"
  then have "a * k \<le> t div k * k" by simp
  also have "\<dots> \<le> t" using k by (simp add: minus_mod_eq_div_mult [symmetric])
  finally show "a * k \<le> t" .
qed

lemma div_between: "0 < k \<Longrightarrow> a * k \<le> t \<and> t < b * k \<longleftrightarrow> a \<le> t div k \<and> t div k < b" for k :: int
  by (simp add: mult_le_iff_le_div flip: not_le)

lemma date_start_between: "date_start a \<le> t \<and> t < date_start b \<longleftrightarrow> a \<le> date_naive t \<and> date_naive t < b"
  unfolding date_start_def date_naive_def by (rule div_between) (rule NANOS_pos)

lemma clock_window_cases:
  assumes "gregorian C" and "clock_bar_window C cid date_of classify ts ci = Ok w"
  shows "0 < secs_per_bar ci" and "bw_open w = timestamp_secs ts div secs_per_bar ci * secs_per_bar ci * NANOS"
    and "bw_close w = (timestamp_secs ts div secs_per_bar ci + 1) * secs_per_bar ci * NANOS"
    and "bw_session w = classify ts"
  using assms(2)
  by (auto simp: clock_bar_window_def Let_def minus_mod_eq_div_mult distrib_right
      split: if_splits option.splits dest!: gregorianD(9) [OF assms(1)])

lemma clock_window_contains:
  assumes "gregorian C" and "clock_bar_window C cid date_of classify ts ci = Ok w"
  shows "bw_contains w t \<longleftrightarrow> timestamp_secs t div secs_per_bar ci = timestamp_secs ts div secs_per_bar ci"
proof -
  note w = clock_window_cases [OF assms]
  let ?k = "secs_per_bar ci" let ?q = "timestamp_secs ts div ?k"
  have "bw_contains w t \<longleftrightarrow> ?q * ?k * NANOS \<le> t \<and> t < (?q + 1) * ?k * NANOS"
    by (simp add: bw_contains_def w)
  also have "\<dots> \<longleftrightarrow> ?q * ?k \<le> timestamp_secs t \<and> timestamp_secs t < (?q + 1) * ?k"
    unfolding timestamp_secs_def by (rule div_between) (rule NANOS_pos)
  also have "\<dots> \<longleftrightarrow> ?q \<le> timestamp_secs t div ?k \<and> timestamp_secs t div ?k < ?q + 1"
    by (rule div_between) (rule w(1))
  finally show ?thesis by auto
qed

lemma clock_window_stable:
  assumes "clock_bar_window C cid date_of classify ts ci = Ok w"
    and "timestamp_secs t div secs_per_bar ci = timestamp_secs ts div secs_per_bar ci"
  shows "clock_bar_window C cid date_of classify t ci = Ok (w\<lparr> bw_session := classify t \<rparr>)"
  using assms
  by (auto simp: clock_bar_window_def Let_def minus_mod_eq_div_mult split: if_splits option.splits)

text \<open>Every bar window of the crypto calendar, of whatever period, contains the instant it was asked for,
  and every other instant of the window is given the same bounds: the windows of a period tile the
  time line. With the Gregorian calendar for the date library this includes weeks, months, quarters
  and years of any length.\<close>

lemma crypto_windows_tile_time:
  assumes "gregorian C" and "crypto_bar_window C ts p = Ok w"
  shows "bw_contains w ts \<and> (bw_contains w t \<longrightarrow> (\<exists>w'. crypto_bar_window C t p = Ok w'
    \<and> bw_open w' = bw_open w \<and> bw_close w' = bw_close w))"
proof -
  have v: "crypto_validate_period p = Ok ()"
    using assms(2) by (auto simp: crypto_bar_window_def split: sum.splits)
  show ?thesis
  proof (cases p)
    case (ClockPeriod ci)
    then have w: "clock_bar_window C CRYPTO_SPOT_ID date_naive (crypto_classify C) ts ci = Ok w"
      using assms(2) v by (simp add: crypto_bar_window_def)
    show ?thesis
      using clock_window_contains [OF assms(1) w] clock_window_stable [OF w, of t] v
      by (auto simp: crypto_bar_window_def ClockPeriod)
  next
    case (SessionPeriod span)
    then have "w = \<lparr> bw_open = date_start (date_naive ts), bw_close = date_start (date_naive ts + 1),
        bw_session = crypto_session (date_naive ts) \<rparr>" "crypto_in_coverage C (date_naive ts)"
      using assms(2) v
      by (auto simp: crypto_bar_window_def crypto_build_day_def crypto_session_def Session_new_def Let_def split: if_splits)
    moreover from this have "bw_contains w t \<longleftrightarrow> date_naive t = date_naive ts" for t
      using date_start_between [of "date_naive ts" t "date_naive ts + 1"] by (auto simp: bw_contains_def)
    ultimately show ?thesis using v
      by (auto simp: crypto_bar_window_def crypto_build_day_def crypto_session_def Session_new_def Let_def SessionPeriod)
  next
    case (CalendarPeriod span)
    then obtain a b where ab: "span_dates C (date_naive ts) span = Ok (a, b)"
      and w: "w = \<lparr> bw_open = date_start a, bw_close = date_start b, bw_session = crypto_session a \<rparr>"
      using assms(2) v
      by (auto simp: crypto_bar_window_def crypto_calendar_window_def crypto_build_day_def
          crypto_session_def Session_new_def Let_def split: sum.splits)
    have c: "bw_contains w t \<longleftrightarrow> a \<le> date_naive t \<and> date_naive t < b" for t
      using date_start_between [of a t b] by (simp add: bw_contains_def w)
    have "bw_contains w ts" using c span_dates_stable [OF assms(1) ab] by blast
    moreover have "crypto_bar_window C t p = Ok w" if "bw_contains w t"
    proof -
      have "span_dates C (date_naive t) span = Ok (a, b)"
        using that c span_dates_stable [OF assms(1) ab] by blast
      with v w show ?thesis
        by (simp add: crypto_bar_window_def crypto_calendar_window_def crypto_build_day_def
            crypto_session_def Session_new_def CalendarPeriod)
    qed
    ultimately show ?thesis by auto
  qed
qed

text \<open>The windows belong to the calendar, as the aggregator requires.\<close>

lemma crypto_window_calendar:
  assumes "crypto_bar_window C ts p = Ok w"
  shows "ses_calendar (bw_session w) = CRYPTO_SPOT_ID"
  using assms
  by (auto simp: crypto_bar_window_def clock_bar_window_def crypto_calendar_window_def crypto_classify_def
      crypto_closed_session_def crypto_build_day_def crypto_session_def Session_new_def Let_def
      split: sum.splits BarPeriod.splits if_splits option.splits)

interpretation crypto: exchange_calendar "CRYPTO_SPOT C" for C
  by unfold_locales (simp add: CRYPTO_SPOT_def crypto_window_calendar)

text \<open>Instant 0 in a one-hour and in a one-month window.\<close>

lemma crypto_windows_tile_time_witness:
  "\<exists>w. crypto_bar_window civil_chrono 0 h1 = Ok w \<and> bw_contains w 0
     \<and> (\<exists>w'. crypto_bar_window civil_chrono (59 * 60 * NANOS) h1 = Ok w' \<and> bw_open w' = bw_open w)"
proof -
  define w where "w = \<lparr> bw_open = 0, bw_close = 3600 * NANOS, bw_session = crypto_classify civil_chrono 0 \<rparr>"
  have w: "crypto_bar_window civil_chrono 0 h1 = Ok w"
    by (simp add: w_def h1_def crypto_bar_window_def crypto_validate_period_def clock_bar_window_def
        secs_per_bar_def timestamp_secs_def civil_chrono_def Let_def)
  have "bw_contains w (59 * 60 * NANOS)" by (simp add: w_def bw_contains_def NANOS_def)
  then show ?thesis
    using crypto_windows_tile_time [OF civil_chrono_gregorian w, of "59 * 60 * NANOS"] w by blast
qed

section \<open>Coverage\<close>

text \<open>
  After the end of coverage \<open>prev_close\<close> starts from the last day of 2100, a day the calendar does not
  cover, and answers with its close.
\<close>

lemma crypto_prev_close_leaves_coverage:
  "crypto_prev_close civil_chrono (date_start 47847) RegularKind = Some (date_start 47847)
     \<and> snd (crypto_covers civil_chrono) = 47482"
  by (simp add: crypto_prev_close_def crypto_covers_def crypto_end_def crypto_start_def crypto_in_coverage_def
      ymd_def civil_chrono_def civil_def month_len_def month_table year_start_def is_leap_def
      date_naive_def date_start_def NANOS_def DAY_SECS_def crypto_close_before.simps [of _ 47846]
      crypto_build_day_def crypto_session_def Session_new_def)

end
