(* ===== verification/Calendar_Holidays.thy ===== *)
theory Calendar_Holidays imports Calendar_Crypto begin

text \<open>
  The holiday and early-close rules of the New York exchange,
  \<open>crates/midas-calendar/src/xnys/holidays.rs\<close>, one function per rule. Years are positive where
  \<open>easter_sunday\<close> divides, so that truncation is \<open>div\<close>.
\<close>

section \<open>Date helpers\<close>

text \<open>\<open>num_days_from_monday\<close>.\<close>

definition from_monday :: "Weekday \<Rightarrow> int" where
  "from_monday w = (case w of Mon \<Rightarrow> 0 | Tue \<Rightarrow> 1 | Wed \<Rightarrow> 2 | Thu \<Rightarrow> 3 | Fri \<Rightarrow> 4 | Sat \<Rightarrow> 5 | Sun \<Rightarrow> 6)"

definition nth_weekday_of_month :: "chrono \<Rightarrow> int \<Rightarrow> int \<Rightarrow> Weekday \<Rightarrow> int \<Rightarrow> NaiveDate option" where
  "nth_weekday_of_month C year month wd n =
     (case from_ymd_opt C year month 1 of
        None \<Rightarrow> None
      | Some first \<Rightarrow>
          let delta0 = from_monday wd - from_monday (weekday C first);
              delta = (if delta0 < 0 then delta0 + 7 else delta0)
          in from_ymd_opt C year month (1 + delta + (n - 1) * 7))"

definition last_day_of_month :: "chrono \<Rightarrow> int \<Rightarrow> int \<Rightarrow> int option" where
  "last_day_of_month C year month =
     (case from_ymd_opt C (fst (next_month year month)) (snd (next_month year month)) 1 of
        None \<Rightarrow> None
      | Some next_first \<Rightarrow> Some (date_day C (next_first - 1)))"

definition last_weekday_of_month :: "chrono \<Rightarrow> int \<Rightarrow> int \<Rightarrow> Weekday \<Rightarrow> NaiveDate option" where
  "last_weekday_of_month C year month wd =
     (case last_day_of_month C year month of
        None \<Rightarrow> None
      | Some last_day \<Rightarrow>
          (case from_ymd_opt C year month last_day of
             None \<Rightarrow> None
           | Some month_end \<Rightarrow>
               let diff = (from_monday (weekday C month_end) - from_monday wd) mod 7
               in from_ymd_opt C year month (last_day - diff)))"

definition easter_sunday :: "chrono \<Rightarrow> int \<Rightarrow> NaiveDate option" where
  "easter_sunday C year =
     (if year < 1583 then None
      else let a = year mod 19; b = year div 100; c = year mod 100; d = b div 4; e = b mod 4;
               f = (b + 8) div 25; g = (b - f + 1) div 3; h = (19 * a + b - d - g + 15) mod 30;
               i = c div 4; k = c mod 4; l = (32 + 2 * e + 2 * i - h - k) mod 7;
               m = (a + 11 * h + 22 * l) div 451; month = (h + l - 7 * m + 114) div 31;
               day = (h + l - 7 * m + 114) mod 31 + 1
           in from_ymd_opt C year month day)"

section \<open>Closures\<close>

definition CLOSURES :: "(int \<times> int \<times> int \<times> string) list" where
  "CLOSURES =
     [(2001, 9, 11, ''September 11 attacks''), (2001, 9, 12, ''September 11 attacks''),
      (2001, 9, 13, ''September 11 attacks''), (2001, 9, 14, ''September 11 attacks''),
      (2004, 6, 11, ''Ronald Reagan state funeral''), (2007, 1, 2, ''Gerald Ford state funeral''),
      (2012, 10, 29, ''Hurricane Sandy''), (2012, 10, 30, ''Hurricane Sandy''),
      (2018, 12, 5, ''George H.W. Bush state funeral''),
      (2025, 1, 9, ''Jimmy Carter day of mourning'')]"

definition ad_hoc_closure_name :: "chrono \<Rightarrow> NaiveDate \<Rightarrow> string option" where
  "ad_hoc_closure_name C date =
     (case filter (\<lambda>(y, m, d, name). (y, m, d) = (date_year C date, date_month C date, date_day C date)) CLOSURES of
        [] \<Rightarrow> None
      | (_, _, _, name) # _ \<Rightarrow> Some name)"

section \<open>Observed holidays\<close>

definition observed :: "chrono \<Rightarrow> NaiveDate \<Rightarrow> NaiveDate" where
  "observed C date = (case weekday C date of Sat \<Rightarrow> date - 1 | Sun \<Rightarrow> date + 1 | _ \<Rightarrow> date)"

definition is_new_years_day_observed :: "chrono \<Rightarrow> NaiveDate \<Rightarrow> bool" where
  "is_new_years_day_observed C date = (date = observed C (ymd C (date_year C date) 1 1))"

definition is_mlk_day :: "chrono \<Rightarrow> NaiveDate \<Rightarrow> bool" where
  "is_mlk_day C date = (date_month C date = 1 \<and> nth_weekday_of_month C (date_year C date) 1 Mon 3 = Some date)"

definition is_presidents_day :: "chrono \<Rightarrow> NaiveDate \<Rightarrow> bool" where
  "is_presidents_day C date =
     (date_month C date = 2 \<and> nth_weekday_of_month C (date_year C date) 2 Mon 3 = Some date)"

definition is_good_friday :: "chrono \<Rightarrow> NaiveDate \<Rightarrow> bool" where
  "is_good_friday C date =
     (case easter_sunday C (date_year C date) of None \<Rightarrow> False | Some e \<Rightarrow> date = e - 2)"

definition is_memorial_day :: "chrono \<Rightarrow> NaiveDate \<Rightarrow> bool" where
  "is_memorial_day C date =
     (date_month C date = 5 \<and> last_weekday_of_month C (date_year C date) 5 Mon = Some date)"

definition is_juneteenth_observed :: "chrono \<Rightarrow> NaiveDate \<Rightarrow> bool" where
  "is_juneteenth_observed C date =
     (if date_year C date < 2022 then False else date = observed C (ymd C (date_year C date) 6 19))"

definition is_independence_day_observed :: "chrono \<Rightarrow> NaiveDate \<Rightarrow> bool" where
  "is_independence_day_observed C date = (date = observed C (ymd C (date_year C date) 7 4))"

definition is_labor_day :: "chrono \<Rightarrow> NaiveDate \<Rightarrow> bool" where
  "is_labor_day C date =
     (date_month C date = 9 \<and> nth_weekday_of_month C (date_year C date) 9 Mon 1 = Some date)"

definition is_thanksgiving :: "chrono \<Rightarrow> NaiveDate \<Rightarrow> bool" where
  "is_thanksgiving C date =
     (date_month C date = 11 \<and> nth_weekday_of_month C (date_year C date) 11 Thu 4 = Some date)"

definition is_christmas_observed :: "chrono \<Rightarrow> NaiveDate \<Rightarrow> bool" where
  "is_christmas_observed C date = (date = observed C (ymd C (date_year C date) 12 25))"

definition regular_holiday_name :: "chrono \<Rightarrow> NaiveDate \<Rightarrow> string option" where
  "regular_holiday_name C date =
     (if is_new_years_day_observed C date then Some ''New Year's Day''
      else if is_mlk_day C date then Some ''Martin Luther King Jr. Day''
      else if is_presidents_day C date then Some ''Presidents Day''
      else if is_good_friday C date then Some ''Good Friday''
      else if is_memorial_day C date then Some ''Memorial Day''
      else if is_juneteenth_observed C date then Some ''Juneteenth''
      else if is_independence_day_observed C date then Some ''Independence Day''
      else if is_labor_day C date then Some ''Labor Day''
      else if is_thanksgiving C date then Some ''Thanksgiving Day''
      else if is_christmas_observed C date then Some ''Christmas Day''
      else None)"

definition holiday_name :: "chrono \<Rightarrow> NaiveDate \<Rightarrow> string option" where
  "holiday_name C date =
     (case ad_hoc_closure_name C date of Some name \<Rightarrow> Some name | None \<Rightarrow> regular_holiday_name C date)"

section \<open>Early closes\<close>

definition is_weekend :: "chrono \<Rightarrow> NaiveDate \<Rightarrow> bool" where
  "is_weekend C date = (weekday C date \<in> {Sat, Sun})"

definition is_day_after_thanksgiving :: "chrono \<Rightarrow> NaiveDate \<Rightarrow> bool" where
  "is_day_after_thanksgiving C date =
     (if date_month C date \<noteq> 11 then False
      else case nth_weekday_of_month C (date_year C date) 11 Thu 4 of
             None \<Rightarrow> False
           | Some thanksgiving \<Rightarrow> date = thanksgiving + 1)"

definition is_july_3_weekday_early_close :: "chrono \<Rightarrow> NaiveDate \<Rightarrow> bool" where
  "is_july_3_weekday_early_close C date =
     (if date_month C date \<noteq> 7 \<or> date_day C date \<noteq> 3 then False
      else if is_weekend C date then False
      else if is_independence_day_observed C date then False
      else True)"

definition is_christmas_eve_weekday_early_close :: "chrono \<Rightarrow> NaiveDate \<Rightarrow> bool" where
  "is_christmas_eve_weekday_early_close C date =
     (if date_month C date \<noteq> 12 \<or> date_day C date \<noteq> 24 then False
      else if is_weekend C date then False
      else if regular_holiday_name C date \<noteq> None then False
      else True)"

definition early_close_minute :: "chrono \<Rightarrow> NaiveDate \<Rightarrow> (int \<times> int) option" where
  "early_close_minute C date =
     (if is_day_after_thanksgiving C date \<or> is_july_3_weekday_early_close C date
         \<or> is_christmas_eve_weekday_early_close C date
      then Some (13, 0) else None)"

end
