(* ===== verification/Calendar_Rules.thy ===== *)
theory Calendar_Rules imports Calendar_Holidays begin

text \<open>
  What the holiday rules mean: each floating holiday is the weekday of the month it is named after,
  Easter is always a Sunday, no closure falls on a weekend and every early close is a day of trading.
\<close>

section \<open>Weekdays\<close>

lemma from_monday_weekday: "from_monday (civil_weekday x) = (x + 3) mod 7"
proof -
  have "0 \<le> (x + 3) mod 7" "(x + 3) mod 7 < 7" by simp_all
  then have "(x + 3) mod 7 \<in> {0, 1, 2, 3, 4, 5, 6}" by auto
  then show ?thesis by (auto simp: civil_weekday_def from_monday_def)
qed

lemma from_monday_inj: "from_monday v = from_monday w \<longleftrightarrow> v = w"
  by (cases v; cases w; simp add: from_monday_def)

lemma from_monday_range: "0 \<le> from_monday w" "from_monday w < 7"
  by (cases w; simp add: from_monday_def)+

lemma weekday_iff: "civil_weekday x = w \<longleftrightarrow> (x + 3) mod 7 = from_monday w"
  using from_monday_inj from_monday_weekday by metis

lemma civil_shift: "civil y m d = Some x \<Longrightarrow> civil y m e = Some z \<Longrightarrow> z = x + (e - d)"
  by (simp add: civil_Some)

lemma month_len_bounds: "1 \<le> m \<Longrightarrow> m \<le> 12 \<Longrightarrow> 28 \<le> month_len y m"
  using month_start_range(2) [of m y] by (simp add: month_len_def)

lemma forward_to: "(f + (c - f mod 7) mod 7 + 7 * k) mod 7 = c mod 7" for f :: int
proof -
  have "(f + (c - f mod 7) mod 7) mod 7 = c mod 7" by (simp add: mod_simps)
  then show ?thesis by simp
qed

lemma back_to: "(p + c - p mod 7) mod 7 = c mod 7" for p :: int
proof -
  have "p + c - p mod 7 = c + 7 * (p div 7)" using minus_mod_eq_mult_div [of p 7] by linarith
  then show ?thesis by (simp only: mod_mult_self2)
qed

text \<open>The \<open>n\<close>-th such weekday of a month is the one on days \<open>7 (n - 1) + 1\<close> to \<open>7 n\<close>.\<close>

lemma nth_weekday_is_nth:
  assumes C: "gregorian C" and y: "\<bar>y\<bar> \<le> 200000" and m: "1 \<le> m" "m \<le> 12" and n: "1 \<le> n" "n \<le> 4"
  shows "nth_weekday_of_month C y m wd n = Some x \<longleftrightarrow>
    civil_weekday x = wd \<and> civil_year x = y \<and> civil_month x = m \<and> 7 * (n - 1) < civil_day x \<and> civil_day x \<le> 7 * n"
proof -
  obtain f where f: "civil y m 1 = Some f" using m month_len_bounds [OF m, of y] by (simp add: civil_def)
  define delta where "delta = (from_monday wd - (f + 3) mod 7) mod 7"
  have range: "0 \<le> delta" "delta < 7" by (simp_all add: delta_def)
  have adjust: "(if p < 0 then p + 7 else p) = p mod 7" if "- 7 < p" "p < 7" for p :: int
    using that by presburger
  have "- 7 < from_monday wd - (f + 3) mod 7" "from_monday wd - (f + 3) mod 7 < 7"
    using from_monday_range [of wd] pos_mod_sign [of 7 "f + 3"] pos_mod_bound [of 7 "f + 3"] by linarith+
  note adjust [OF this]
  then have nth: "nth_weekday_of_month C y m wd n = civil y m (1 + delta + (n - 1) * 7)"
    using f y by (simp add: nth_weekday_of_month_def gregorianD(2, 6) [OF C] from_monday_weekday delta_def Let_def)
  have day: "1 \<le> 1 + delta + (n - 1) * 7" "1 + delta + (n - 1) * 7 \<le> month_len y m"
    using range n month_len_bounds [OF m, of y] by (simp_all add: algebra_simps)
  then have at: "civil y m (1 + delta + (n - 1) * 7) = Some (f + delta + (n - 1) * 7)"
    using f m by (simp add: civil_def)
  have wd: "(f + delta + (n - 1) * 7 + 3) mod 7 = from_monday wd"
  proof -
    have "f + delta + (n - 1) * 7 + 3 = f + 3 + (from_monday wd - (f + 3) mod 7) mod 7 + 7 * (n - 1)"
      by (simp add: delta_def)
    then have "(f + delta + (n - 1) * 7 + 3) mod 7 = from_monday wd mod 7" by (simp only: forward_to)
    then show ?thesis using from_monday_range [of wd] by simp
  qed
  show ?thesis
  proof
    assume "nth_weekday_of_month C y m wd n = Some x"
    then have x: "civil y m (1 + delta + (n - 1) * 7) = Some x" by (simp add: nth)
    then have "x = f + delta + (n - 1) * 7" by (simp only: at option.inject)
    then have "civil_weekday x = wd" using wd by (simp only: weekday_iff)
    with civil_parts [OF x] range show "civil_weekday x = wd \<and> civil_year x = y \<and> civil_month x = m
        \<and> 7 * (n - 1) < civil_day x \<and> civil_day x \<le> 7 * n"
      by simp
  next
    assume a: "civil_weekday x = wd \<and> civil_year x = y \<and> civil_month x = m
        \<and> 7 * (n - 1) < civil_day x \<and> civil_day x \<le> 7 * n"
    then have x: "civil y m (civil_day x) = Some x" using civil_of [of x] by simp
    then have "x = f + (civil_day x - 1)" using civil_shift [OF f] by simp
    moreover have "(x + 3) mod 7 = (f + delta + (n - 1) * 7 + 3) mod 7" using a wd by (simp add: weekday_iff)
    ultimately have "7 dvd (f + (civil_day x - 1) + 3 - (f + delta + (n - 1) * 7 + 3))"
      by (simp only: mod_eq_dvd_iff)
    moreover define p where "p = civil_day x - 1 - (n - 1) * 7"
    moreover have "f + (civil_day x - 1) + 3 - (f + delta + (n - 1) * 7 + 3) = p - delta"
      by (simp add: p_def)
    ultimately have "7 dvd p - delta" by (simp only:)
    moreover have "0 \<le> p" "p < 7" using a by (simp_all add: p_def)
    ultimately have "p = delta" using range by presburger
    then have "civil_day x = 1 + delta + (n - 1) * 7" by (simp add: p_def)
    with x show "nth_weekday_of_month C y m wd n = Some x" by (simp add: nth)
  qed
qed

lemma last_weekday_is_last:
  assumes C: "gregorian C" and y: "\<bar>y\<bar> < 200000" and m: "1 \<le> m" "m \<le> 12"
    and last: "last_weekday_of_month C y m wd = Some x"
  shows "civil_weekday x = wd \<and> civil_year x = y \<and> civil_month x = m"
proof -
  obtain k where k: "from_ymd_opt C y m k = Some x" and "\<exists>l e. k = l - (from_monday (weekday C e) - from_monday wd) mod 7
      \<and> from_ymd_opt C y m l = Some e"
    using last by (auto simp: last_weekday_of_month_def Let_def split: option.splits)
  then obtain l e where le: "k = l - (from_monday (civil_weekday e) - from_monday wd) mod 7" "civil y m l = Some e"
    using gregorianD(1, 6) [OF C] by metis
  have x: "civil y m k = Some x" using gregorianD(1) [OF C k] .
  have "x = e - ((e + 3) mod 7 - from_monday wd) mod 7"
    using civil_shift [OF le(2) x] by (simp add: le(1) from_monday_weekday)
  then have "x + 3 = (e + 3 - from_monday wd) + from_monday wd - (e + 3 - from_monday wd) mod 7"
    by (simp add: mod_simps)
  then have "(x + 3) mod 7 = from_monday wd mod 7" by (simp only: back_to)
  then show ?thesis using civil_parts [OF x] from_monday_range [of wd] by (simp add: weekday_iff)
qed

section \<open>Easter\<close>

text \<open>The date the rule computes is the Sunday \<open>n\<close> days after the first of March less one.\<close>

lemma march: "civil y 3 d = Some x \<Longrightarrow> x = year_start (y + 1) - 307 + d"
  and april: "civil y 4 d = Some x \<Longrightarrow> x = year_start (y + 1) - 276 + d"
  by (auto simp: civil_Some month_table year_start_Suc)

lemma year_start_parts:
  assumes "y = 400 * d + 100 * e + 4 * i + k" "0 \<le> e" "e < 4" "0 \<le> i" "i < 25" "0 \<le> k" "k < 4"
  shows "year_start (y + 1) = 365 * (y - 1969) + 97 * d + 24 * e + i - 477"
proof -
  have "y div 4 = 100 * d + 25 * e + i" "y div 100 = 4 * d + e" "y div 400 = d"
    using assms
    by (simp_all add: int_div_pos_eq [of y 4 "100 * d + 25 * e + i" k] int_div_pos_eq [of y 100 "4 * d + e" "4 * i + k"]
        int_div_pos_eq [of y 400 d "100 * e + 4 * i + k"])
  then show ?thesis by (simp add: year_start_def)
qed

lemma easter_is_sunday:
  assumes C: "gregorian C" and e: "easter_sunday C y = Some x"
  shows "civil_weekday x = Sun \<and> civil_year x = y
    \<and> (civil_month x = 3 \<and> 15 \<le> civil_day x \<or> civil_month x = 4 \<and> civil_day x \<le> 26)"
proof -
  define b c where "b = y div 100" and "c = y mod 100"
  define d e where "d = b div 4" and "e = b mod 4"
  define i k where "i = c div 4" and "k = c mod 4"
  define h where "h = (19 * (y mod 19) + b - d - (b - (b + 8) div 25 + 1) div 3 + 15) mod 30"
  define l where "l = (32 + 2 * e + 2 * i - h - k) mod 7"
  define m where "m = (y mod 19 + 11 * h + 22 * l) div 451"
  define n where "n = h + l - 7 * m + 114"
  have x: "civil y (n div 31) (n mod 31 + 1) = Some x"
  proof -
    have y: "\<not> y < 1583" using assms(2) by (auto simp: easter_sunday_def)
    have "easter_sunday C y = from_ymd_opt C y (n div 31) (n mod 31 + 1)"
      unfolding easter_sunday_def Let_def n_def m_def l_def h_def k_def i_def e_def d_def c_def b_def
      by (simp only: y if_False)
    with assms(2) show ?thesis using gregorianD(1) [OF C] by simp
  qed
  have h: "0 \<le> h" "h < 30" by (simp_all add: h_def)
  have l: "0 \<le> l" "l < 7" by (simp_all add: l_def)
  have m: "0 \<le> m" "m \<le> 1"
  proof -
    define r where "r = y mod 19"
    have "0 \<le> r" "r < 19" by (simp_all add: r_def)
    with h l have r: "0 \<le> r + 11 * h + 22 * l" "r + 11 * h + 22 * l \<le> 901" by - linarith+
    have m: "m = (r + 11 * h + 22 * l) div 451" by (simp only: m_def r_def)
    show "0 \<le> m" unfolding m using zdiv_mono1 [OF r(1), of 451] by (rule order_trans [rotated]) simp_all
    show "m \<le> 1" unfolding m using zdiv_mono1 [OF r(2), of 451] by (rule order_trans) simp_all
  qed
  have n: "107 \<le> n" "n \<le> 149" using h l m by (simp_all add: n_def)
  have y: "y = 400 * d + 100 * e + 4 * i + k"
    unfolding b_def c_def d_def e_def i_def k_def by presburger
  have parts: "0 \<le> e" "e < 4" "0 \<le> i" "i < 25" "0 \<le> k" "k < 4"
    unfolding e_def i_def k_def c_def by presburger+
  have "x = year_start (y + 1) - 307 + (n - 92)" and md: "n div 31 = 3 \<and> n mod 31 + 1 = n - 92 \<or> n div 31 = 4 \<and> n mod 31 + 1 = n - 123"
  proof -
    have "n div 31 = 3 \<and> n mod 31 = n - 93 \<or> n div 31 = 4 \<and> n mod 31 = n - 124"
      using n by presburger
    then show "x = year_start (y + 1) - 307 + (n - 92)"
      and "n div 31 = 3 \<and> n mod 31 + 1 = n - 92 \<or> n div 31 = 4 \<and> n mod 31 + 1 = n - 123"
      using x march [of y "n mod 31 + 1" x] april [of y "n mod 31 + 1" x] by auto
  qed
  then have x_eq: "x = 365 * (y - 1969) + 97 * d + 24 * e + i - 876 + n"
    using year_start_parts [OF y parts] by simp
  have "(x + 3) mod 7 = 6"
  proof -
    define q where "q = (32 + 2 * e + 2 * i - h - k) div 7"
    have "32 + 2 * e + 2 * i - h - k = 7 * q + l" by (simp add: q_def l_def)
    then have l: "l = 32 + 2 * e + 2 * i - h - k - 7 * q" by simp
    have "x + 3 = 6 + 7 * (20871 * d + 5218 * e + 209 * i + 52 * k - m - q - 102774)"
      unfolding x_eq n_def l y by simp
    then show ?thesis by (simp only: mod_mult_self2) simp
  qed
  then have "civil_weekday x = Sun" by (simp add: weekday_iff from_monday_def)
  with civil_parts [OF x] md n show ?thesis by auto
qed

section \<open>Closures and early closes\<close>

lemma weekend_iff: "gregorian C \<Longrightarrow> is_weekend C date \<longleftrightarrow> civil_weekday date = Sat \<or> civil_weekday date = Sun"
  by (simp add: is_weekend_def gregorianD)

lemma weekday_mod:
  "(x + 1 + 3) mod 7 = ((x + 3) mod 7 + 1) mod 7" "(x - 1 + 3) mod 7 = ((x + 3) mod 7 + 6) mod 7" for x :: int
  by presburger+

lemma weekday_neighbours:
  "civil_weekday (x + 1) = [Tue, Wed, Thu, Fri, Sat, Sun, Mon] ! nat (from_monday (civil_weekday x))"
  "civil_weekday (x - 1) = [Sun, Mon, Tue, Wed, Thu, Fri, Sat] ! nat (from_monday (civil_weekday x))"
proof -
  have "0 \<le> (x + 3) mod 7" "(x + 3) mod 7 < 7" by simp_all
  then have "(x + 3) mod 7 \<in> {0, 1, 2, 3, 4, 5, 6}" by auto
  then show "civil_weekday (x + 1) = [Tue, Wed, Thu, Fri, Sat, Sun, Mon] ! nat (from_monday (civil_weekday x))"
    "civil_weekday (x - 1) = [Sun, Mon, Tue, Wed, Thu, Fri, Sat] ! nat (from_monday (civil_weekday x))"
    unfolding from_monday_weekday unfolding civil_weekday_def weekday_mod by auto
qed

text \<open>A fixed-date holiday is observed on a weekday, one day off at most.\<close>

lemma observed_weekday:
  assumes "gregorian C"
  shows "\<not> is_weekend C (observed C x)" "\<bar>observed C x - x\<bar> \<le> 1"
  using weekday_neighbours [of x] assms
  by (cases "civil_weekday x"; simp add: observed_def weekend_iff gregorianD(6) from_monday_def)+

lemma observed_near:
  assumes C: "gregorian C" and y: "\<bar>civil_year x\<bar> \<le> 200000" and d: "2 \<le> d" "d < month_len (civil_year x) m"
    and m: "1 \<le> m" "m \<le> 12" and x: "x = observed C (ymd C (civil_year x) m d)"
  shows "civil_month x = m \<and> d - 1 \<le> civil_day x \<and> civil_day x \<le> d + 1"
proof -
  let ?y = "civil_year x"
  have f: "from_ymd_opt C ?y m d = Some (year_start ?y + month_start ?y m + d - 1)"
    using d m y by (simp add: gregorianD(2) [OF C] civil_def)
  then have "ymd C ?y m d = year_start ?y + month_start ?y m + d - 1" by (simp add: ymd_def)
  then obtain k where k: "\<bar>k\<bar> \<le> 1" "x = year_start ?y + month_start ?y m + (d + k) - 1"
    using observed_weekday(2) [OF C, of "ymd C ?y m d"] x
    by (metis add.assoc add.commute add_diff_eq diff_add_cancel)
  have "- 1 \<le> k" "k \<le> 1" using k(1) by linarith+
  then have "civil ?y m (d + k) = Some x" using d m k(2) by (simp add: civil_Some)
  from civil_parts [OF this] k(1) show ?thesis by linarith
qed

text \<open>Where each of the ten rules puts its holiday.\<close>

lemma regular_holiday_iff:
  "regular_holiday_name C x \<noteq> None \<longleftrightarrow>
     is_new_years_day_observed C x \<or> is_mlk_day C x \<or> is_presidents_day C x \<or> is_good_friday C x
     \<or> is_memorial_day C x \<or> is_juneteenth_observed C x \<or> is_independence_day_observed C x
     \<or> is_labor_day C x \<or> is_thanksgiving C x \<or> is_christmas_observed C x"
  by (simp add: regular_holiday_name_def)

lemma new_year_place:
  assumes C: "gregorian C" and y: "\<bar>civil_year x\<bar> \<le> 200000" and n: "is_new_years_day_observed C x"
  shows "civil_month x = 1"
proof -
  let ?y = "civil_year x"
  have f: "civil ?y 1 1 = Some (year_start ?y)" by (simp add: civil_def month_len_def month_table)
  then have "ymd C ?y 1 1 = year_start ?y" using y by (simp add: ymd_def gregorianD(2) [OF C])
  then have "\<bar>x - year_start ?y\<bar> \<le> 1"
    using n observed_weekday(2) [OF C] by (metis gregorianD(3) [OF C] is_new_years_day_observed_def)
  then have "x = year_start ?y \<or> x = year_start ?y + 1"
    using civil_year_bounds [of x] by linarith
  then have "civil ?y 1 (x - year_start ?y + 1) = Some x"
    by (auto simp: civil_Some month_len_def month_table)
  from civil_parts [OF this] show ?thesis by simp
qed

lemma regular_holiday_place:
  assumes C: "gregorian C" and y: "\<bar>civil_year x\<bar> < 200000" and h: "regular_holiday_name C x \<noteq> None"
  shows "\<not> is_weekend C x \<and> (civil_month x = 7 \<longrightarrow> is_independence_day_observed C x)
    \<and> (civil_month x = 11 \<longrightarrow> civil_weekday x = Thu)"
proof -
  have y': "\<bar>civil_year x\<bar> \<le> 200000" using y by simp
  note G = gregorianD(3, 4) [OF C] and w = weekend_iff [OF C]
  have nth: "civil_weekday x = wd" if "1 \<le> m" "m \<le> 12" "1 \<le> n" "n \<le> 4"
      "nth_weekday_of_month C (civil_year x) m wd n = Some x" for m wd n
    using nth_weekday_is_nth [OF C y' that(1-4), of wd x] that(5) by simp
  have fixed: "\<not> is_weekend C x \<and> civil_month x = m"
    if "x = observed C (ymd C (civil_year x) m d)" "m \<in> {6, 7, 12}" "2 \<le> d" "d < 29" for m d
  proof -
    have m: "1 \<le> m" "m \<le> 12" using that(2) by auto
    have "d < month_len (civil_year x) m" using that(2, 4) by (auto simp: month_len_def month_table)
    from observed_near [OF C y' that(3) this m that(1)] that(1) observed_weekday(1) [OF C]
    show ?thesis by metis
  qed
  consider (ny) "is_new_years_day_observed C x" | (mlk) "is_mlk_day C x" | (pres) "is_presidents_day C x"
    | (gf) "is_good_friday C x" | (mem) "is_memorial_day C x" | (june) "is_juneteenth_observed C x"
    | (july) "is_independence_day_observed C x" | (labor) "is_labor_day C x" | (tg) "is_thanksgiving C x"
    | (xmas) "is_christmas_observed C x"
    using h unfolding regular_holiday_iff by blast
  then show ?thesis
  proof cases
    case ny
    then have "\<not> is_weekend C x" using observed_weekday(1) [OF C] by (metis is_new_years_day_observed_def)
    with new_year_place [OF C y' ny] show ?thesis by simp
  next
    case mlk
    then show ?thesis using nth [of 1 3 Mon] by (simp add: is_mlk_day_def G w)
  next
    case pres
    then show ?thesis using nth [of 2 3 Mon] by (simp add: is_presidents_day_def G w)
  next
    case gf
    then obtain e where e: "easter_sunday C (civil_year x) = Some e" "x = e - 2"
      by (auto simp: is_good_friday_def G split: option.splits)
    note s = easter_is_sunday [OF C e(1)]
    have wd: "civil_weekday x = Fri"
      using s weekday_neighbours(2) [of e] weekday_neighbours(2) [of "e - 1"] e(2) by (simp add: from_monday_def)
    have "civil (civil_year x) (civil_month e) (civil_day e) = Some e" using civil_of [of e] s by simp
    moreover have "civil_month x < 5"
    proof (rule ccontr)
      assume "\<not> civil_month x < 5"
      then have "e < x" using civil_less [OF calculation civil_of [of x]] s by auto
      with e(2) show False by simp
    qed
    ultimately show ?thesis using wd by (simp add: w)
  next
    case mem
    then show ?thesis using last_weekday_is_last [OF C y, of 5 Mon x] by (simp add: is_memorial_day_def G w)
  next
    case june
    then show ?thesis using fixed [of 6 19] by (simp add: is_juneteenth_observed_def G split: if_splits)
  next
    case july
    then show ?thesis using fixed [of 7 4] by (simp add: is_independence_day_observed_def G)
  next
    case labor
    then show ?thesis using nth [of 9 1 Mon] by (simp add: is_labor_day_def G w)
  next
    case tg
    then show ?thesis using nth [of 11 4 Thu] by (simp add: is_thanksgiving_def G w)
  next
    case xmas
    then show ?thesis using fixed [of 12 25] by (simp add: is_christmas_observed_def G)
  qed
qed

lemma closures_table:
  "list_all (\<lambda>(y, m, d, name). civil_weekday (year_start y + month_start y m + d - 1) \<noteq> Sat
     \<and> civil_weekday (year_start y + month_start y m + d - 1) \<noteq> Sun
     \<and> m \<noteq> 7 \<and> m \<noteq> 11 \<and> (m \<noteq> 12 \<or> d = 5)) CLOSURES"
  by code_simp

lemma closure_place:
  assumes C: "gregorian C" and a: "ad_hoc_closure_name C x = Some name"
  shows "\<not> is_weekend C x \<and> civil_month x \<noteq> 7 \<and> civil_month x \<noteq> 11 \<and> (civil_month x = 12 \<longrightarrow> civil_day x = 5)"
proof -
  have "(civil_year x, civil_month x, civil_day x, name) \<in> set CLOSURES"
    using a unfolding ad_hoc_closure_name_def gregorianD(3-5) [OF C]
    by (auto simp: filter_eq_Cons_iff split: list.splits) (metis in_set_conv_decomp)
  then have "civil_weekday (year_start (civil_year x) + month_start (civil_year x) (civil_month x) + civil_day x - 1) \<noteq> Sat
      \<and> civil_weekday (year_start (civil_year x) + month_start (civil_year x) (civil_month x) + civil_day x - 1) \<noteq> Sun
      \<and> civil_month x \<noteq> 7 \<and> civil_month x \<noteq> 11 \<and> (civil_month x \<noteq> 12 \<or> civil_day x = 5)"
    using closures_table unfolding list_all_iff by blast
  then show ?thesis using civil_of [of x] by (simp add: civil_Some weekend_iff [OF C])
qed

text \<open>No closure of the New York calendar, by rule or by proclamation, falls on a weekend, and every
  day it marks as an early close is a weekday without a closure, closing at 13:00. This covers all
  years the date library supports; it needs that Easter, as the code computes it, is a Sunday.\<close>

lemma closures_and_early_closes_are_weekdays:
  assumes "gregorian C" and "\<bar>date_year C x\<bar> < 200000"
  shows "(holiday_name C x \<noteq> None \<longrightarrow> \<not> is_weekend C x)
    \<and> (early_close_minute C x \<noteq> None \<longrightarrow>
        early_close_minute C x = Some (13, 0) \<and> \<not> is_weekend C x \<and> holiday_name C x = None)"
proof -
  note C = assms(1) and y = assms(2) [unfolded gregorianD(3) [OF assms(1)]]
  have y': "\<bar>civil_year x\<bar> \<le> 200000" using y by simp
  have closures: "\<not> is_weekend C x" if "holiday_name C x \<noteq> None"
    using that closure_place [OF C, of x] regular_holiday_place [OF C y]
    by (auto simp: holiday_name_def split: option.splits)
  have free: "holiday_name C x = None" if "regular_holiday_name C x = None" "ad_hoc_closure_name C x = None"
    using that by (simp add: holiday_name_def)
  have no_closure: "ad_hoc_closure_name C x = None"
    if "civil_month x = 7 \<or> civil_month x = 11 \<or> civil_month x = 12 \<and> civil_day x \<noteq> 5"
    using that closure_place [OF C, of x] by (cases "ad_hoc_closure_name C x") auto
  have early: "\<not> is_weekend C x \<and> holiday_name C x = None" if "early_close_minute C x \<noteq> None"
  proof -
    from that consider (tg) "is_day_after_thanksgiving C x" | (july) "is_july_3_weekday_early_close C x"
      | (xmas) "is_christmas_eve_weekday_early_close C x"
      by (auto simp: early_close_minute_def split: if_splits)
    then show ?thesis
    proof cases
      case tg
      then obtain t where t: "nth_weekday_of_month C (civil_year x) 11 Thu 4 = Some t" "x = t + 1"
        and m: "civil_month x = 11"
        by (auto simp: is_day_after_thanksgiving_def gregorianD(3, 4) [OF C] split: option.splits if_splits)
      have "civil_weekday t = Thu" using nth_weekday_is_nth [OF C y', of 11 4 Thu t] t(1) by simp
      then have "civil_weekday x = Fri" using weekday_neighbours(1) [of t] t(2) by (simp add: from_monday_def)
      moreover from this have "regular_holiday_name C x = None"
        using regular_holiday_place [OF C y] m by (cases "regular_holiday_name C x") auto
      ultimately show ?thesis using free no_closure m by (simp add: weekend_iff [OF C])
    next
      case july
      then have "civil_month x = 7" "\<not> is_weekend C x" "\<not> is_independence_day_observed C x"
        by (auto simp: is_july_3_weekday_early_close_def gregorianD(4) [OF C] split: if_splits)
      moreover from this have "regular_holiday_name C x = None"
        using regular_holiday_place [OF C y] by (cases "regular_holiday_name C x") auto
      ultimately show ?thesis using free no_closure by simp
    next
      case xmas
      then have "civil_month x = 12" "civil_day x = 24" "\<not> is_weekend C x" "regular_holiday_name C x = None"
        by (auto simp: is_christmas_eve_weekday_early_close_def gregorianD(4, 5) [OF C] split: if_splits)
      then show ?thesis using free no_closure by simp
    qed
  qed
  moreover have "early_close_minute C x \<in> {None, Some (13, 0)}" by (simp add: early_close_minute_def)
  ultimately show ?thesis using closures by auto
qed

text \<open>2021-11-26, the day after Thanksgiving, and 2024-03-29, Good Friday.\<close>

lemma closures_and_early_closes_are_weekdays_witness:
  "early_close_minute civil_chrono 18957 = Some (13, 0) \<and> holiday_name civil_chrono 18957 = None
   \<and> holiday_name civil_chrono 19811 = Some ''Good Friday'' \<and> \<not> is_weekend civil_chrono 19811"
proof -
  have "early_close_minute civil_chrono 18957 \<noteq> None" by code_simp
  moreover have "holiday_name civil_chrono 19811 = Some ''Good Friday''" by code_simp
  moreover have "\<bar>date_year civil_chrono 18957\<bar> < 200000" "\<bar>date_year civil_chrono 19811\<bar> < 200000" by code_simp+
  ultimately show ?thesis
    using closures_and_early_closes_are_weekdays [OF civil_chrono_gregorian, of 18957]
      closures_and_early_closes_are_weekdays [OF civil_chrono_gregorian, of 19811] by simp
qed

end
