(* ===== verification/Calendar_Xnys.thy ===== *)
theory Calendar_Xnys imports Calendar_Rules begin

text \<open>
  The New York equities calendar, \<open>crates/midas-calendar/src/xnys/mod.rs\<close>, from 2000 to 2032. The zone
  \<open>America/New_York\<close> of chrono-tz is \<open>from_local\<close> and \<open>local_date\<close> of the date library. Where the code
  unwraps the resolution of a local time one hour after a gap, the model takes the instant 0; the
  theorems assume of the zone that session hours always resolve.
\<close>

definition XNYS_ID :: CalendarId where "XNYS_ID = ''XNYS''"

definition PRE_OPEN_HM :: "int \<times> int" where "PRE_OPEN_HM = (4, 0)"
definition REG_OPEN_HM :: "int \<times> int" where "REG_OPEN_HM = (9, 30)"
definition REG_CLOSE_HM :: "int \<times> int" where "REG_CLOSE_HM = (16, 0)"
definition POST_CLOSE_HM :: "int \<times> int" where "POST_CLOSE_HM = (20, 0)"

lemmas session_hours = PRE_OPEN_HM_def REG_OPEN_HM_def REG_CLOSE_HM_def POST_CLOSE_HM_def

definition local_at :: "NaiveDate \<Rightarrow> int \<times> int \<Rightarrow> NaiveDateTime" where
  "local_at date hm = date_start date + (fst hm * 3600 + snd hm * 60) * NANOS"

definition et_to_utc :: "chrono \<Rightarrow> NaiveDate \<Rightarrow> int \<times> int \<Rightarrow> Timestamp" where
  "et_to_utc C date hm =
     (case from_local C (local_at date hm) of
        LocalSingle t \<Rightarrow> t
      | LocalAmbiguous _ later \<Rightarrow> later
      | LocalNone \<Rightarrow>
          (case from_local C (local_at date hm + 3600 * NANOS) of LocalSingle t \<Rightarrow> t | _ \<Rightarrow> 0))"

definition xnys_start :: "chrono \<Rightarrow> NaiveDate" where "xnys_start C = ymd C 2000 1 1"
definition xnys_end :: "chrono \<Rightarrow> NaiveDate" where "xnys_end C = ymd C 2032 1 1"

definition xnys_in_coverage :: "chrono \<Rightarrow> NaiveDate \<Rightarrow> bool" where
  "xnys_in_coverage C date = (xnys_start C \<le> date \<and> date < xnys_end C)"

definition build_trading_day :: "chrono \<Rightarrow> NaiveDate \<Rightarrow> TradingDay" where
  "build_trading_day C date =
     (if is_weekend C date \<or> holiday_name C date \<noteq> None
      then \<lparr> td_date = date, td_sessions = [], td_is_early_close = False,
             td_is_holiday = (holiday_name C date \<noteq> None), td_holiday_name = holiday_name C date \<rparr>
      else let early = early_close_minute C date;
               reg_close_hm = (case early of None \<Rightarrow> REG_CLOSE_HM | Some hm \<Rightarrow> hm);
               post_close_hm = (if early \<noteq> None then (17, 0) else POST_CLOSE_HM);
               pre_open = et_to_utc C date PRE_OPEN_HM;
               reg_open = et_to_utc C date REG_OPEN_HM;
               reg_close = et_to_utc C date reg_close_hm;
               post_close = et_to_utc C date post_close_hm
           in \<lparr> td_date = date,
                td_sessions =
                  [Session_new XNYS_ID PreMarket pre_open reg_open,
                   Session_new XNYS_ID RegularKind reg_open reg_close,
                   Session_new XNYS_ID PostMarket reg_close post_close],
                td_is_early_close = (early \<noteq> None), td_is_holiday = False, td_holiday_name = None \<rparr>)"

definition xnys_is_trading_day :: "chrono \<Rightarrow> NaiveDate \<Rightarrow> bool" where
  "xnys_is_trading_day C date =
     (if \<not> xnys_in_coverage C date then False
      else if is_weekend C date then False
      else holiday_name C date = None)"

function trading_day_from :: "chrono \<Rightarrow> NaiveDate \<Rightarrow> NaiveDate \<Rightarrow> NaiveDate option" where
  "trading_day_from C d stop =
     (if d < stop then if xnys_is_trading_day C d then Some d else trading_day_from C (d + 1) stop
      else None)"
  by pat_completeness auto
termination by (relation "measure (\<lambda>(C, d, stop). nat (stop - d))") auto

function trading_day_until :: "chrono \<Rightarrow> NaiveDate \<Rightarrow> NaiveDate \<Rightarrow> NaiveDate option" where
  "trading_day_until C d start =
     (if start \<le> d then if xnys_is_trading_day C d then Some d else trading_day_until C (d - 1) start
      else None)"
  by pat_completeness auto
termination by (relation "measure (\<lambda>(C, d, start). nat (d + 1 - start))") auto

definition next_trading_day_on_or_after :: "chrono \<Rightarrow> NaiveDate \<Rightarrow> NaiveDate option" where
  "next_trading_day_on_or_after C date = trading_day_from C date (xnys_end C)"

definition prev_trading_day_on_or_before :: "chrono \<Rightarrow> NaiveDate \<Rightarrow> NaiveDate option" where
  "prev_trading_day_on_or_before C date = trading_day_until C date (xnys_start C)"

definition xnys_closed_session :: "Timestamp \<Rightarrow> Session" where
  "xnys_closed_session ts = Session_new XNYS_ID ClosedKind ts ts"

definition xnys_covers :: "chrono \<Rightarrow> NaiveDate \<times> NaiveDate" where
  "xnys_covers C = (xnys_start C, xnys_end C)"

definition xnys_trading_day :: "chrono \<Rightarrow> NaiveDate \<Rightarrow> (TradingDay, CalendarError) rust_result" where
  "xnys_trading_day C date =
     (if \<not> xnys_in_coverage C date then Err (OutOfRange date) else Ok (build_trading_day C date))"

definition xnys_classify :: "chrono \<Rightarrow> Timestamp \<Rightarrow> Session" where
  "xnys_classify C ts =
     (let et_date = local_date C ts in
      if \<not> xnys_in_coverage C et_date then xnys_closed_session ts
      else case find (\<lambda>s. ses_contains s ts) (td_sessions (build_trading_day C et_date)) of
             Some s \<Rightarrow> s
           | None \<Rightarrow> xnys_closed_session ts)"

definition xnys_validate_period :: "BarPeriod \<Rightarrow> (unit, CalendarError) rust_result" where
  "xnys_validate_period p =
     (case p of SessionPeriod EthSpan \<Rightarrow> Err (UnsupportedPeriod XNYS_ID p) | _ \<Rightarrow> Ok ())"

definition regular_of :: "TradingDay \<Rightarrow> Session option" where
  "regular_of td = find (\<lambda>s. ses_kind s = RegularKind) (td_sessions td)"

definition session_bar_window ::
  "chrono \<Rightarrow> Timestamp \<Rightarrow> SessionSpan \<Rightarrow> (BarWindow, CalendarError) rust_result" where
  "session_bar_window C ts span =
     (let et_date = local_date C ts in
      case next_trading_day_on_or_after C et_date of
        None \<Rightarrow> Err (OutOfRange et_date)
      | Some date \<Rightarrow>
          let td = build_trading_day C date in
          (case span of
             RegularSpan \<Rightarrow>
               (case regular_of td of
                  None \<Rightarrow> Err (OutOfRange date)
                | Some reg \<Rightarrow> Ok \<lparr> bw_open = ses_open reg, bw_close = ses_close reg, bw_session = reg \<rparr>)
           | ExtendedSpan \<Rightarrow>
               (if td_sessions td = [] then Err (OutOfRange date)
                else case regular_of td of
                       None \<Rightarrow> Err (OutOfRange date)
                     | Some reg \<Rightarrow>
                         Ok \<lparr> bw_open = ses_open (hd (td_sessions td)),
                              bw_close = ses_close (last (td_sessions td)), bw_session = reg \<rparr>)
           | EthSpan \<Rightarrow> Err (UnsupportedPeriod XNYS_ID (SessionPeriod span))))"

definition xnys_calendar_window ::
  "chrono \<Rightarrow> Timestamp \<Rightarrow> CalendarSpan \<Rightarrow> (BarWindow, CalendarError) rust_result" where
  "xnys_calendar_window C ts span =
     (case span_dates C (local_date C ts) span of
        Inl e \<Rightarrow> Err e
      | Inr (start, end_excl) \<Rightarrow>
          (case next_trading_day_on_or_after C start of
             None \<Rightarrow> Err (OutOfRange start)
           | Some first_trading \<Rightarrow>
               if \<not> first_trading < end_excl then Err (OutOfRange start)
               else case prev_trading_day_on_or_before C (end_excl - 1) of
                 None \<Rightarrow> Err (OutOfRange (end_excl - 1))
               | Some last_trading \<Rightarrow>
                   if \<not> start \<le> last_trading then Err (OutOfRange (end_excl - 1))
                   else case regular_of (build_trading_day C first_trading) of
                     None \<Rightarrow> Err (OutOfRange first_trading)
                   | Some first_reg \<Rightarrow>
                       (case regular_of (build_trading_day C last_trading) of
                          None \<Rightarrow> Err (OutOfRange last_trading)
                        | Some last_reg \<Rightarrow>
                            Ok \<lparr> bw_open = ses_open first_reg, bw_close = ses_close last_reg,
                                 bw_session = first_reg \<rparr>)))"

definition xnys_bar_window ::
  "chrono \<Rightarrow> Timestamp \<Rightarrow> BarPeriod \<Rightarrow> (BarWindow, CalendarError) rust_result" where
  "xnys_bar_window C ts p =
     (case xnys_validate_period p of
        Inl e \<Rightarrow> Err e
      | Inr _ \<Rightarrow>
          (case p of
             ClockPeriod ci \<Rightarrow> clock_bar_window C XNYS_ID (local_date C) (xnys_classify C) ts ci
           | SessionPeriod span \<Rightarrow> session_bar_window C ts span
           | CalendarPeriod span \<Rightarrow> xnys_calendar_window C ts span))"

text \<open>The loops over days.\<close>

function xnys_days_between ::
  "chrono \<Rightarrow> Timestamp \<Rightarrow> Timestamp \<Rightarrow> NaiveDate \<Rightarrow> NaiveDate \<Rightarrow> Session list" where
  "xnys_days_between C lo hi d stop =
     (if d < stop then
        filter (\<lambda>s. ses_close s > lo \<and> ses_open s < hi) (td_sessions (build_trading_day C d))
          @ xnys_days_between C lo hi (d + 1) stop
      else [])"
  by pat_completeness auto
termination by (relation "measure (\<lambda>(C, lo, hi, d, stop). nat (stop - d))") auto

definition xnys_sessions_between :: "chrono \<Rightarrow> Timestamp \<Rightarrow> Timestamp \<Rightarrow> Session list" where
  "xnys_sessions_between C lo hi =
     (if hi \<le> lo then []
      else xnys_days_between C lo hi (max (local_date C lo) (xnys_start C))
             (min (local_date C hi + 1) (xnys_end C)))"

function xnys_open_after ::
  "chrono \<Rightarrow> Timestamp \<Rightarrow> SessionKind \<Rightarrow> NaiveDate \<Rightarrow> NaiveDate \<Rightarrow> Timestamp option" where
  "xnys_open_after C ts kind d stop =
     (if d < stop then
        case (if xnys_is_trading_day C d
              then find (\<lambda>s. ses_kind s = kind \<and> ses_open s > ts) (td_sessions (build_trading_day C d))
              else None) of
          Some s \<Rightarrow> Some (ses_open s)
        | None \<Rightarrow> xnys_open_after C ts kind (d + 1) stop
      else None)"
  by pat_completeness auto
termination by (relation "measure (\<lambda>(C, ts, kind, d, stop). nat (stop - d))") auto

definition xnys_next_open :: "chrono \<Rightarrow> Timestamp \<Rightarrow> SessionKind \<Rightarrow> Timestamp option" where
  "xnys_next_open C ts kind =
     (let et_date = local_date C ts;
          d = (if xnys_in_coverage C et_date then et_date else xnys_start C)
      in xnys_open_after C ts kind d (xnys_end C))"

function xnys_close_before ::
  "chrono \<Rightarrow> Timestamp \<Rightarrow> SessionKind \<Rightarrow> NaiveDate \<Rightarrow> NaiveDate \<Rightarrow> Timestamp option" where
  "xnys_close_before C ts kind d start =
     (if start \<le> d then
        case (if xnys_is_trading_day C d
              then find (\<lambda>s. ses_kind s = kind \<and> ses_close s \<le> ts) (rev (td_sessions (build_trading_day C d)))
              else None) of
          Some s \<Rightarrow> Some (ses_close s)
        | None \<Rightarrow> xnys_close_before C ts kind (d - 1) start
      else None)"
  by pat_completeness auto
termination by (relation "measure (\<lambda>(C, ts, kind, d, start). nat (d + 1 - start))") auto

definition xnys_prev_close :: "chrono \<Rightarrow> Timestamp \<Rightarrow> SessionKind \<Rightarrow> Timestamp option" where
  "xnys_prev_close C ts kind =
     (let et_date = local_date C ts;
          d = (if xnys_in_coverage C et_date then et_date else ymd C 2032 12 31)
      in xnys_close_before C ts kind d (xnys_start C))"

declare trading_day_from.simps [simp del] trading_day_until.simps [simp del]
  xnys_days_between.simps [simp del] xnys_open_after.simps [simp del] xnys_close_before.simps [simp del]

definition XNYS :: "chrono \<Rightarrow> ExchangeCalendar" where
  "XNYS C =
     \<lparr> cal_id = XNYS_ID, cal_covers = xnys_covers C,
       cal_time_axis_policy = CompressedSessionBoundaries,
       cal_trading_day = xnys_trading_day C, cal_is_trading_day = xnys_is_trading_day C,
       cal_classify = xnys_classify C, cal_bar_window = xnys_bar_window C,
       cal_validate_period = xnys_validate_period, cal_sessions_between = xnys_sessions_between C,
       cal_next_open = xnys_next_open C, cal_prev_close = xnys_prev_close C \<rparr>"

section \<open>Sessions\<close>

text \<open>
  What is assumed of the zone. For the days the calendar covers: between 4:00 and midnight local time of
  a day, local times resolve to instants at one distance (no change of the clock falls into the trading
  day), and these instants have the day as their local date. For the instants the date library can
  represent, of which the years up to 200000 are certainly some: local dates do not go back. (New York
  changes its clock at 2:00 at night and did so, when it came to midnight at all, never across a date.)
\<close>

definition supported :: "Timestamp \<Rightarrow> bool" where
  "supported t \<longleftrightarrow> date_start (year_start (- 200000)) \<le> t \<and> t < date_start (year_start 200000)"

definition new_york :: "chrono \<Rightarrow> bool" where
  "new_york C =
     ((\<forall>d. xnys_in_coverage C d \<longrightarrow> (\<exists>z. \<forall>s. 4 * 3600 * NANOS \<le> s \<and> s < DAY_SECS * NANOS \<longrightarrow>
          from_local C (date_start d + s) = LocalSingle (date_start d + s + z)
          \<and> local_date C (date_start d + s + z) = d \<and> supported (date_start d + s + z)))
      \<and> (\<forall>t u. supported t \<and> supported u \<and> t \<le> u \<longrightarrow> local_date C t \<le> local_date C u))"

lemma date_naive_in_day: "0 \<le> s \<Longrightarrow> s < DAY_SECS * NANOS \<Longrightarrow> date_naive (date_start d + s) = d"
  unfolding date_naive_def date_start_def by (rule int_div_pos_eq [of _ _ d s]) (simp_all add: mult.commute)

lemma session_hours_resolve:
  assumes "new_york C" "xnys_in_coverage C d"
  obtains z where
    "\<And>s. 4 * 3600 * NANOS \<le> s \<Longrightarrow> s < DAY_SECS * NANOS \<Longrightarrow>
       local_date C (date_start d + s + z) = d \<and> supported (date_start d + s + z)"
    "\<And>h m. 4 \<le> h \<Longrightarrow> h < 24 \<Longrightarrow> 0 \<le> m \<Longrightarrow> m < 60 \<Longrightarrow>
       et_to_utc C d (h, m) = date_start d + (h * 3600 + m * 60) * NANOS + z"
proof -
  obtain z where z: "\<And>s. 4 * 3600 * NANOS \<le> s \<Longrightarrow> s < DAY_SECS * NANOS \<Longrightarrow>
      from_local C (date_start d + s) = LocalSingle (date_start d + s + z)
      \<and> local_date C (date_start d + s + z) = d \<and> supported (date_start d + s + z)"
    using assms unfolding new_york_def by blast
  have "local_date C (date_start d + s + z) = d \<and> supported (date_start d + s + z)"
    if "4 * 3600 * NANOS \<le> s" "s < DAY_SECS * NANOS" for s
    using z [OF that] by simp
  moreover have "et_to_utc C d (h, m) = date_start d + (h * 3600 + m * 60) * NANOS + z"
    if "4 \<le> h" "h < 24" "0 \<le> m" "m < 60" for h m
  proof -
    have "4 * 3600 * NANOS \<le> (h * 3600 + m * 60) * NANOS" "(h * 3600 + m * 60) * NANOS < DAY_SECS * NANOS"
      using that by (simp_all add: NANOS_def DAY_SECS_def)
    from z [OF this] show ?thesis by (simp add: et_to_utc_def local_at_def)
  qed
  ultimately show ?thesis by (rule that)
qed

text \<open>The sessions of a day follow each other without gap or overlap, inside the day.\<close>

definition back_to_back :: "Session list \<Rightarrow> bool" where
  "back_to_back ss = sorted_wrt (\<lambda>s t. ses_close s \<le> ses_open t) ss"

lemma trading_day_sessions:
  assumes "new_york C" "xnys_in_coverage C d"
  shows "back_to_back (td_sessions (build_trading_day C d))"
    and "s \<in> set (td_sessions (build_trading_day C d)) \<Longrightarrow>
      ses_open s < ses_close s \<and> (ses_contains s ts \<longrightarrow> local_date C ts = d)
      \<and> local_date C (ses_open s) = d \<and> local_date C (ses_close s) = d
      \<and> supported (ses_open s) \<and> supported (ses_close s)"
proof -
  obtain z where day: "\<And>s. 4 * 3600 * NANOS \<le> s \<Longrightarrow> s < DAY_SECS * NANOS \<Longrightarrow>
      local_date C (date_start d + s + z) = d \<and> supported (date_start d + s + z)"
    and hm: "\<And>h m. 4 \<le> h \<Longrightarrow> h < 24 \<Longrightarrow> 0 \<le> m \<Longrightarrow> m < 60 \<Longrightarrow>
       et_to_utc C d (h, m) = date_start d + (h * 3600 + m * 60) * NANOS + z"
    by (rule session_hours_resolve [OF assms]) blast
  have early: "early_close_minute C d = None \<or> early_close_minute C d = Some (13, 0)"
    by (simp add: early_close_minute_def)
  show "back_to_back (td_sessions (build_trading_day C d))"
    using early NANOS_pos(1)
    by (auto simp: back_to_back_def build_trading_day_def Let_def session_hours Session_new_def hm)
  assume s: "s \<in> set (td_sessions (build_trading_day C d))"
  then obtain a b where ab: "ses_open s = date_start d + a * NANOS + z" "ses_close s = date_start d + b * NANOS + z"
    and le: "4 * 3600 \<le> a" "a < b" "b < DAY_SECS"
    using early
    by (auto simp: build_trading_day_def Let_def session_hours Session_new_def hm DAY_SECS_def
        less_imp_neq [OF NANOS_pos(1), symmetric] split: if_splits)
  have ends: "local_date C (date_start d + c * NANOS + z) = d \<and> supported (date_start d + c * NANOS + z)" if "4 * 3600 \<le> c" "c < DAY_SECS" for c
    using day [of "c * NANOS"] that NANOS_pos(1) by simp
  have "local_date C ts = d" if "ses_contains s ts"
  proof -
    have "4 * 3600 * NANOS \<le> ts - date_start d - z" "ts - date_start d - z < DAY_SECS * NANOS"
      using that le NANOS_pos(1) by (auto simp: ses_contains_def ab NANOS_def)
    from day [OF this] show ?thesis by simp
  qed
  then show "ses_open s < ses_close s \<and> (ses_contains s ts \<longrightarrow> local_date C ts = d)
      \<and> local_date C (ses_open s) = d \<and> local_date C (ses_close s) = d
      \<and> supported (ses_open s) \<and> supported (ses_close s)"
    using le ends NANOS_pos(1) by (simp add: ab)
qed

text \<open>The sessions of a range of days, in the order of time.\<close>

lemma xnys_days_between_eq:
  "xnys_days_between C lo hi d stop
     = concat (map (\<lambda>e. filter (\<lambda>s. ses_close s > lo \<and> ses_open s < hi) (td_sessions (build_trading_day C e)))
         [d..stop - 1])"
proof (induction C lo hi d stop rule: xnys_days_between.induct)
  case (1 C lo hi d stop)
  show ?case
  proof (cases "d < stop")
    case True
    with 1 show ?thesis by (subst xnys_days_between.simps) (simp add: upto_rec1)
  qed (subst xnys_days_between.simps, simp)
qed

lemma earlier_date:
  assumes "new_york C" "supported t" "supported u" "local_date C t < local_date C u"
  shows "t < u"
  using assms unfolding new_york_def by (meson linorder_not_le)

lemma back_to_back_days:
  assumes ny: "new_york C"
  shows "(\<And>x. d \<le> x \<Longrightarrow> x \<le> e \<Longrightarrow> xnys_in_coverage C x) \<Longrightarrow>
    back_to_back (concat (map (\<lambda>e. filter P (td_sessions (build_trading_day C e))) [d..e]))"
proof (induction "nat (e + 1 - d)" arbitrary: d)
  case (Suc n)
  then have de: "d \<le> e" by simp
  have later: "ses_close s \<le> ses_open t"
    if "s \<in> set (td_sessions (build_trading_day C d))" "t \<in> set (td_sessions (build_trading_day C e'))"
      "d < e'" "e' \<le> e" for s t e'
  proof -
    have c: "xnys_in_coverage C d" "xnys_in_coverage C e'" using Suc.prems de that(3,4) by simp_all
    show ?thesis
      using trading_day_sessions(2) [OF ny c(1) that(1)] trading_day_sessions(2) [OF ny c(2) that(2)] that(3)
        earlier_date [OF ny, of "ses_close s" "ses_open t"] by simp
  qed
  have "back_to_back (filter P (td_sessions (build_trading_day C d)))"
    using trading_day_sessions(1) [OF ny, of d] Suc.prems de by (simp add: back_to_back_def sorted_wrt_filter)
  moreover have "back_to_back (concat (map (\<lambda>e. filter P (td_sessions (build_trading_day C e))) [d + 1..e]))"
    using Suc by simp
  ultimately show ?case
    using later by (auto simp: upto_rec1 [OF de] back_to_back_def sorted_wrt_append)
qed (simp add: back_to_back_def)

text \<open>C27: For the days the calendar covers, and a zone that behaves there as New York's does,
  \<open>sessions_between\<close> fills the buffer with exactly the covered sessions that meet the range, in
  the order of time and without overlap, and \<open>classify\<close> agrees with it: an instant is in the session
  \<open>classify\<close> names, which is the one session of the calendar that contains it, or no session contains
  it and the answer is closed.\<close>

theorem xnys_sessions_are_exact:
  assumes "new_york C" and "lo < hi" and "supported lo" and "supported hi"
  shows "set (xnys_sessions_between C lo hi)
      = {s. \<exists>d. xnys_in_coverage C d \<and> s \<in> set (td_sessions (build_trading_day C d))
              \<and> ses_close s > lo \<and> ses_open s < hi}
    \<and> back_to_back (xnys_sessions_between C lo hi)
    \<and> (if \<exists>d. xnys_in_coverage C d \<and> (\<exists>s \<in> set (td_sessions (build_trading_day C d)). ses_contains s ts)
       then ses_contains (xnys_classify C ts) ts
         \<and> (\<exists>d. xnys_in_coverage C d \<and> xnys_classify C ts \<in> set (td_sessions (build_trading_day C d)))
       else xnys_classify C ts = xnys_closed_session ts)"
proof -
  let ?from = "max (local_date C lo) (xnys_start C)" and ?to = "min (local_date C hi + 1) (xnys_end C) - 1"
  have eq: "xnys_sessions_between C lo hi
      = concat (map (\<lambda>e. filter (\<lambda>s. ses_close s > lo \<and> ses_open s < hi) (td_sessions (build_trading_day C e))) [?from..?to])"
    using assms(2) by (simp add: xnys_sessions_between_def xnys_days_between_eq)
  have range: "local_date C lo \<le> d \<and> d \<le> local_date C hi"
    if "xnys_in_coverage C d" "s \<in> set (td_sessions (build_trading_day C d))" "ses_close s > lo" "ses_open s < hi" for d s
    using trading_day_sessions(2) [OF assms(1) that(1,2)] that(3,4) assms(1,3,4)
    unfolding new_york_def by (metis less_imp_le)
  have "set (xnys_sessions_between C lo hi)
      = {s. \<exists>d. xnys_in_coverage C d \<and> s \<in> set (td_sessions (build_trading_day C d))
              \<and> ses_close s > lo \<and> ses_open s < hi}"
    unfolding eq using range by (fastforce simp: xnys_in_coverage_def)
  moreover have "back_to_back (xnys_sessions_between C lo hi)"
    unfolding eq by (rule back_to_back_days [OF assms(1)]) (auto simp: xnys_in_coverage_def)
  moreover have "if \<exists>d. xnys_in_coverage C d \<and> (\<exists>s \<in> set (td_sessions (build_trading_day C d)). ses_contains s ts)
       then ses_contains (xnys_classify C ts) ts
         \<and> (\<exists>d. xnys_in_coverage C d \<and> xnys_classify C ts \<in> set (td_sessions (build_trading_day C d)))
       else xnys_classify C ts = xnys_closed_session ts"
  proof (cases "\<exists>d. xnys_in_coverage C d \<and> (\<exists>s \<in> set (td_sessions (build_trading_day C d)). ses_contains s ts)")
    case True
    then obtain d s where d: "xnys_in_coverage C d" "s \<in> set (td_sessions (build_trading_day C d))" "ses_contains s ts"
      by blast
    then have "local_date C ts = d" using trading_day_sessions(2) [OF assms(1) d(1,2)] by blast
    moreover obtain s' where s': "find (\<lambda>s. ses_contains s ts) (td_sessions (build_trading_day C d)) = Some s'"
      using d(2,3) by (cases "find (\<lambda>s. ses_contains s ts) (td_sessions (build_trading_day C d))") (auto simp: find_None_iff)
    moreover from s' have "ses_contains s' ts" "s' \<in> set (td_sessions (build_trading_day C d))"
      by (auto simp: find_Some_iff)
    ultimately have "ses_contains (xnys_classify C ts) ts
        \<and> (\<exists>d. xnys_in_coverage C d \<and> xnys_classify C ts \<in> set (td_sessions (build_trading_day C d)))"
      using d(1) by (auto simp: xnys_classify_def)
    with True show ?thesis by (simp only: if_True)
  next
    case False
    then have "xnys_in_coverage C (local_date C ts) \<Longrightarrow>
        find (\<lambda>s. ses_contains s ts) (td_sessions (build_trading_day C (local_date C ts))) = None"
      by (auto simp: find_None_iff)
    then have "xnys_classify C ts = xnys_closed_session ts" by (auto simp: xnys_classify_def Let_def)
    with False show ?thesis by (simp only: if_False)
  qed
  ultimately show ?thesis by blast
qed

text \<open>A trade before the open or after the close of a trading day is given the same regular-hours bar
  as the trades of the session: the daily bar of regular hours takes the trades of all hours, although
  they are outside its window.\<close>

lemma regular_bar_takes_trades_of_all_hours:
  assumes "new_york C" and "xnys_is_trading_day C (local_date C ts)"
  shows "\<exists>w. xnys_bar_window C ts d1_rth = Ok w \<and> regular_of (build_trading_day C (local_date C ts)) = Some (bw_session w)
    \<and> (\<forall>t. local_date C t = local_date C ts \<longrightarrow> xnys_bar_window C t d1_rth = Ok w)
    \<and> (ses_kind (xnys_classify C ts) \<noteq> RegularKind \<longrightarrow> \<not> bw_contains w ts)"
proof -
  let ?d = "local_date C ts"
  have next_day: "next_trading_day_on_or_after C ?d = Some ?d"
    using assms(2) unfolding next_trading_day_on_or_after_def
    by (subst trading_day_from.simps) (simp add: xnys_is_trading_day_def xnys_in_coverage_def split: if_splits)
  have open_day: "\<not> is_weekend C ?d" "holiday_name C ?d = None" "xnys_in_coverage C ?d"
    using assms(2) by (simp_all add: xnys_is_trading_day_def split: if_splits)
  obtain p r q where ss: "td_sessions (build_trading_day C ?d) = [p, r, q]" "ses_kind p = PreMarket"
    "ses_kind r = RegularKind"
    using open_day by (simp add: build_trading_day_def Let_def Session_new_def)
  then have reg: "regular_of (build_trading_day C ?d) = Some r" by (simp add: regular_of_def)
  define w where "w = \<lparr> bw_open = ses_open r, bw_close = ses_close r, bw_session = r \<rparr>"
  have win: "xnys_bar_window C t d1_rth = Ok w" if "local_date C t = ?d" for t
    using that next_day reg
    by (simp add: xnys_bar_window_def d1_rth_def xnys_validate_period_def session_bar_window_def w_def)
  have "ses_kind (xnys_classify C ts) = RegularKind" if "bw_contains w ts"
  proof -
    have r: "ses_contains r ts" using that by (simp add: w_def bw_contains_def ses_contains_def)
    moreover have "\<not> ses_contains p ts"
      using trading_day_sessions(1) [OF assms(1) open_day(3)] r ss(1) by (simp add: back_to_back_def ses_contains_def)
    ultimately show ?thesis using ss(1, 3) open_day(3) by (simp add: xnys_classify_def Let_def)
  qed
  then show ?thesis using win reg by (auto simp: w_def)
qed

section \<open>The theorems at work\<close>

text \<open>
  New York as it is: the clock goes from five hours behind UTC to four on the second Sunday of March (up
  to 2006: the first of April) and back on the first Sunday of November (up to 2006: the last of
  October), at 2:00. These have been the rules since 1987, so this is the zone on all the days covered.
\<close>

definition sunday_from :: "NaiveDate \<Rightarrow> NaiveDate" where
  "sunday_from d = d + (3 - d) mod 7"

definition dst_start :: "int \<Rightarrow> NaiveDate" where
  "dst_start y = sunday_from (year_start y + (if 2007 \<le> y then month_start y 3 + 7 else month_start y 4))"

definition dst_end :: "int \<Rightarrow> NaiveDate" where
  "dst_end y = sunday_from (year_start y + (if 2007 \<le> y then month_start y 11 else month_start y 10 + 24))"

definition HOUR :: int where "HOUR = 3600 * NANOS"

definition in_dst :: "Timestamp \<Rightarrow> bool" where
  "in_dst t = (let y = civil_year (date_naive t) in
     date_start (dst_start y) + 7 * HOUR \<le> t \<and> t < date_start (dst_end y) + 6 * HOUR)"

definition ny_local_date :: "Timestamp \<Rightarrow> NaiveDate" where
  "ny_local_date t = date_naive (t - (if in_dst t then 4 else 5) * HOUR)"

definition ny_from_local :: "NaiveDateTime \<Rightarrow> LocalResult" where
  "ny_from_local n =
     (let y = civil_year (date_naive n); gap = date_start (dst_start y) + 2 * HOUR; fold = date_start (dst_end y) + HOUR
      in if gap \<le> n \<and> n < gap + HOUR then LocalNone
         else if fold \<le> n \<and> n < fold + HOUR then LocalAmbiguous (n + 4 * HOUR) (n + 5 * HOUR)
         else if gap \<le> n \<and> n < fold then LocalSingle (n + 4 * HOUR)
         else LocalSingle (n + 5 * HOUR))"

definition ny_chrono :: chrono where
  "ny_chrono = civil_chrono\<lparr> from_local := ny_from_local, local_date := ny_local_date \<rparr>"

lemma day_hours: "date_start (d + 1) = date_start d + 24 * HOUR" "0 < HOUR"
  by (simp_all add: date_start_def DAY_SECS_def HOUR_def NANOS_def)

lemma date_start_le: "date_start d \<le> t \<longleftrightarrow> d \<le> date_naive t"
  by (simp only: date_start_def date_naive_def mult_le_iff_le_div [OF NANOS_pos(2)])

lemma date_start_mono: "d \<le> e \<Longrightarrow> date_start d \<le> date_start e"
  unfolding date_start_def using NANOS_pos(2) by (intro mult_right_mono) simp_all

lemma date_naive_between: "date_start d \<le> t \<Longrightarrow> t < date_start d + 24 * HOUR \<Longrightarrow> date_naive t = d"
  using date_start_le [of d t] date_start_le [of "d + 1" t] by (simp add: day_hours(1))

lemma date_start_shift: "d < e \<Longrightarrow> date_start d + 24 * HOUR \<le> date_start e"
  using date_start_mono [of "d + 1" e] by (simp add: day_hours(1))

lemma sunday_from_bounds: "d \<le> sunday_from d" "sunday_from d \<le> d + 6"
  by (simp_all add: sunday_from_def)

lemma dst_bounds:
  "year_start y + 59 \<le> dst_start y" "dst_start y + 100 \<le> dst_end y" "dst_end y + 40 \<le> year_start (y + 1)"
  using sunday_from_bounds [of "year_start y + month_start y 3 + 7"] sunday_from_bounds [of "year_start y + month_start y 4"]
    sunday_from_bounds [of "year_start y + month_start y 11"] sunday_from_bounds [of "year_start y + month_start y 10 + 24"]
  by (auto simp: dst_start_def dst_end_def year_start_Suc month_table add.assoc)

text \<open>Within one year of UTC.\<close>

lemma in_dst_year:
  assumes "date_start (year_start y) \<le> t" "t < date_start (year_start (y + 1))"
  shows "in_dst t \<longleftrightarrow> date_start (dst_start y) + 7 * HOUR \<le> t \<and> t < date_start (dst_end y) + 6 * HOUR"
proof -
  have "civil_year (date_naive t) = y"
    using assms date_start_le [of "year_start y" t] date_start_le [of "year_start (y + 1)" t]
    by (intro civil_year_unique) simp_all
  then show ?thesis by (simp add: in_dst_def Let_def)
qed

lemma in_dst_span:
  assumes "date_start (dst_start y) + 7 * HOUR \<le> t" "t < date_start (dst_end y) + 6 * HOUR"
  shows "in_dst t"
proof (rule in_dst_year [THEN iffD2])
  have "date_start (year_start y) \<le> date_start (dst_start y)" using dst_bounds(1) [of y] by (intro date_start_mono) simp
  then show "date_start (year_start y) \<le> t" using assms(1) day_hours(2) by linarith
  have "date_start (dst_end y) + 24 * HOUR \<le> date_start (year_start (y + 1))"
    using dst_bounds(3) [of y] by (intro date_start_shift) simp
  then show "t < date_start (year_start (y + 1))" using assms(2) day_hours(2) by linarith
qed (use assms in simp)

lemma ny_local_date_mono: "t \<le> u \<Longrightarrow> ny_local_date t \<le> ny_local_date u"
proof -
  assume tu: "t \<le> u"
  have mono: "date_naive a \<le> date_naive b" if "a \<le> b" for a b
    using date_start_le [of "date_naive a" a] date_start_le [of "date_naive a" b] that by simp
  show ?thesis
  proof (cases "in_dst t \<and> \<not> in_dst u")
    case False
    then show ?thesis using tu day_hours(2) by (auto simp: ny_local_date_def intro!: mono)
  next
    case True
    define y where "y = civil_year (date_naive t)"
    have t: "date_start (dst_start y) + 7 * HOUR \<le> t" "t < date_start (dst_end y) + 6 * HOUR"
      using True by (simp_all add: in_dst_def y_def Let_def)
    have u: "date_start (dst_end y) + 6 * HOUR \<le> u"
      using in_dst_span [of y u] t(1) tu True by force
    have "date_naive (t - 4 * HOUR) \<le> dst_end y"
      using date_start_le [of "dst_end y + 1" "t - 4 * HOUR"] t(2) day_hours by (simp add: day_hours(1))
    moreover have "dst_end y \<le> date_naive (u - 5 * HOUR)"
      using date_start_le [of "dst_end y" "u - 5 * HOUR"] u day_hours(2) by simp
    ultimately show ?thesis using True by (simp add: ny_local_date_def)
  qed
qed

lemma ny_day:
  fixes d :: NaiveDate
  assumes "4 * HOUR \<le> s" "s < 24 * HOUR"
  defines "y \<equiv> civil_year d"
  defines "z \<equiv> (if dst_start y \<le> d \<and> d < dst_end y then 4 else 5) * HOUR"
  shows "ny_from_local (date_start d + s) = LocalSingle (date_start d + s + z)"
    and "ny_local_date (date_start d + s + z) = d"
proof -
  note H = day_hours(2)
  have dn: "date_naive (date_start d + s) = d" using assms(1,2) H by (intro date_naive_between) simp_all
  have yb: "year_start y \<le> d" "d < year_start (y + 1)" using civil_year_bounds [of d] by (simp_all add: y_def)
  note b = dst_bounds [of y]
  have before: "d < dst_start y \<Longrightarrow> date_start d + 24 * HOUR \<le> date_start (dst_start y)"
    and mid: "d < dst_end y \<Longrightarrow> date_start d + 24 * HOUR \<le> date_start (dst_end y)"
    and onset: "dst_start y \<le> d \<Longrightarrow> date_start (dst_start y) \<le> date_start d"
    and offset: "dst_end y \<le> d \<Longrightarrow> date_start (dst_end y) \<le> date_start d"
    and order: "date_start (dst_start y) + 24 * HOUR \<le> date_start (dst_end y)"
    using b by (auto intro: date_start_shift date_start_mono)
  show "ny_from_local (date_start d + s) = LocalSingle (date_start d + s + z)"
    using before mid onset offset order assms(1,2) H b(2)
    by (auto simp: ny_from_local_def Let_def dn y_def [symmetric] z_def)
  have "in_dst (date_start d + s + z) \<longleftrightarrow> dst_start y \<le> d \<and> d < dst_end y"
  proof (cases "dst_start y \<le> d \<and> d < dst_end y")
    case True
    then show ?thesis using onset mid assms(1,2) H by (auto simp: z_def intro!: in_dst_span [of y])
  next
    case False
    then have z: "z = 5 * HOUR" unfolding z_def by (simp only: if_False)
    show ?thesis
    proof (cases "date_start d + s + z < date_start (year_start (y + 1))")
      case True
      have "date_start (year_start y) \<le> date_start d" using yb by (intro date_start_mono) simp
      then have "in_dst (date_start d + s + z) \<longleftrightarrow> date_start (dst_start y) + 7 * HOUR \<le> date_start d + s + z
          \<and> date_start d + s + z < date_start (dst_end y) + 6 * HOUR"
        using assms(1) H z by (intro in_dst_year [OF _ True]) simp
      then show ?thesis using False before offset assms(1,2) H z b(2) by fastforce
    next
      case new_year: False
      have "date_start d + 24 * HOUR \<le> date_start (year_start (y + 1))" using yb by (intro date_start_shift) simp
      moreover have "date_start (year_start (y + 1)) + 24 * HOUR \<le> date_start (dst_start (y + 1))"
        using dst_bounds(1) [of "y + 1"] by (intro date_start_shift) simp
      moreover have "date_start (dst_start (y + 1)) \<le> date_start (year_start (y + 1 + 1))"
        using dst_bounds(2,3) [of "y + 1"] by (intro date_start_mono) simp
      ultimately show ?thesis
        using in_dst_year [of "y + 1" "date_start d + s + z"] new_year assms(2) H False z by auto
    qed
  qed
  moreover have "date_start d + s + z - z = date_start d + s" by simp
  moreover have "ny_local_date t = date_naive (t - z)" if "in_dst t \<longleftrightarrow> dst_start y \<le> d \<and> d < dst_end y" for t
    unfolding ny_local_date_def that z_def by (rule refl)
  ultimately show "ny_local_date (date_start d + s + z) = d" using dn by metis
qed

lemma ny_chrono_gregorian: "gregorian ny_chrono"
  unfolding gregorian_def
  by (simp add: ny_chrono_def civil_chrono_def civil_week_def Let_def monday_of_monday first_thursday)

lemma ny_chrono_new_york: "new_york ny_chrono"
proof -
  have cov: "0 \<le> d \<and> d < 40000" if "xnys_in_coverage ny_chrono d" for d
  proof -
    have "xnys_start ny_chrono = 10957" "xnys_end ny_chrono = 22645" by code_simp+
    with that show ?thesis by (simp add: xnys_in_coverage_def)
  qed
  have sup: "supported t" if "0 \<le> t" "t < date_start 50000" for t
    using that by (simp add: supported_def date_start_def year_start_def DAY_SECS_def NANOS_def)
  have hours: "4 * 3600 * NANOS = 4 * HOUR" "DAY_SECS * NANOS = 24 * HOUR"
    by (simp_all add: HOUR_def DAY_SECS_def NANOS_def)
  have "\<exists>z. \<forall>s. 4 * HOUR \<le> s \<and> s < 24 * HOUR \<longrightarrow>
      ny_from_local (date_start d + s) = LocalSingle (date_start d + s + z)
      \<and> ny_local_date (date_start d + s + z) = d \<and> supported (date_start d + s + z)"
    if "xnys_in_coverage ny_chrono d" for d
  proof (intro exI allI impI conjI; elim conjE)
    let ?z = "(if dst_start (civil_year d) \<le> d \<and> d < dst_end (civil_year d) then 4 else 5) * HOUR"
    fix s assume s: "4 * HOUR \<le> s" "s < 24 * HOUR"
    show "ny_from_local (date_start d + s) = LocalSingle (date_start d + s + ?z)"
      "ny_local_date (date_start d + s + ?z) = d" by (rule ny_day [OF s])+
    show "supported (date_start d + s + ?z)"
      using cov [OF that] s day_hours(2) date_start_mono [of 0 d] date_start_shift [of d 40000] date_start_shift [of 40000 50000]
      by (intro sup) (auto simp: date_start_def)
  qed
  then show ?thesis
    using ny_local_date_mono unfolding new_york_def hours by (simp add: ny_chrono_def)
qed

text \<open>
  Day 18956 is Thanksgiving of 2021, day 18957 closes early: its sessions open at 9:00, 14:30 and 18:00 UTC.
  The post-market session of the day before Thanksgiving reaches one hour into the UTC day 18956.
\<close>

lemma xnys_sessions_are_exact_witness:
  "map ses_kind (xnys_sessions_between ny_chrono (date_start 18956) (date_start 18958)) = [PostMarket, PreMarket, RegularKind, PostMarket]
   \<and> map (\<lambda>s. (ses_open s - date_start 18957) div (60 * NANOS)) (xnys_sessions_between ny_chrono (date_start 18956) (date_start 18958))
     = [- 1620, 540, 870, 1080]
   \<and> back_to_back (xnys_sessions_between ny_chrono (date_start 18956) (date_start 18958))"
proof -
  have "date_start 18956 < date_start 18958" "supported (date_start 18956)" "supported (date_start 18958)" by code_simp+
  note xnys_sessions_are_exact [OF ny_chrono_new_york this, of 0]
  moreover have "map ses_kind (xnys_sessions_between ny_chrono (date_start 18956) (date_start 18958))
      = [PostMarket, PreMarket, RegularKind, PostMarket]"
    "map (\<lambda>s. (ses_open s - date_start 18957) div (60 * NANOS)) (xnys_sessions_between ny_chrono (date_start 18956) (date_start 18958))
     = [- 1620, 540, 870, 1080]"
    by code_simp+
  ultimately show ?thesis by blast
qed

text \<open>A trade at 18:00 UTC of day 18957, at the early close.\<close>

lemma regular_bar_takes_trades_of_all_hours_witness:
  "\<exists>w. xnys_bar_window ny_chrono (date_start 18957 + 18 * 3600 * NANOS) d1_rth = Ok w
     \<and> \<not> bw_contains w (date_start 18957 + 18 * 3600 * NANOS)"
proof -
  let ?t = "date_start 18957 + 18 * 3600 * NANOS"
  have "xnys_is_trading_day ny_chrono (local_date ny_chrono ?t)" by code_simp
  moreover have "ses_kind (xnys_classify ny_chrono ?t) \<noteq> RegularKind" by code_simp
  ultimately show ?thesis
    using regular_bar_takes_trades_of_all_hours [OF ny_chrono_new_york, of ?t] by blast
qed

lemma find_member: "find P xs = Some x \<Longrightarrow> x \<in> set xs"
  by (auto simp: find_Some_iff)

lemma xnys_window_calendar:
  assumes "xnys_bar_window C ts p = Ok w"
  shows "ses_calendar (bw_session w) = XNYS_ID"
proof -
  have day: "ses_calendar s = XNYS_ID" if "s \<in> set (td_sessions (build_trading_day C d))" for s d
    using that by (auto simp: build_trading_day_def Let_def Session_new_def split: if_splits)
  have reg: "ses_calendar s = XNYS_ID" if "regular_of (build_trading_day C d) = Some s" for s d
    using that unfolding regular_of_def by (intro day [of s d] find_member)
  have "ses_calendar (xnys_classify C t) = XNYS_ID" for t
    by (auto simp: xnys_classify_def xnys_closed_session_def Session_new_def Let_def
        dest!: find_member day split: option.splits)
  then show ?thesis
    using assms reg
    by (auto simp: xnys_bar_window_def clock_bar_window_def session_bar_window_def xnys_calendar_window_def Let_def
        split: sum.splits BarPeriod.splits SessionSpan.splits if_splits option.splits)
qed

interpretation xnys: exchange_calendar "XNYS C" for C
  by unfold_locales (simp add: XNYS_def xnys_window_calendar)

end
