(* ===== verification/Bars_Candle.thy ===== *)
theory Bars_Candle imports Calendar_Xnys F64_Arith begin

text \<open>
  Symbols and candles of \<open>crates/midas-bars\<close> (\<open>symbol.rs\<close>, \<open>candle.rs\<close>): the validating constructors of
  \<open>Ohlcv\<close> and \<open>Candle\<close>. A \<open>Symbol\<close>'s interned strings are compared by their text.
\<close>

record Symbol =
  sy_ticker :: string
  sy_calendar :: CalendarId

datatype Completeness = Completed | Partial

record Ohlcv =
  oh_o :: f64
  oh_h :: f64
  oh_l :: f64
  oh_c :: f64
  oh_volume :: u64
  oh_trade_count :: u32
  oh_wap :: "f64 option"

record Candle =
  ca_symbol :: Symbol
  ca_calendar :: CalendarId
  ca_period :: BarPeriod
  ca_session :: Session
  ca_window :: BarWindow
  ca_o :: f64
  ca_h :: f64
  ca_l :: f64
  ca_c :: f64
  ca_volume :: u64
  ca_trade_count :: u32
  ca_wap :: "f64 option"
  ca_completeness :: Completeness

datatype CandleError =
    InvalidOhlc string f64 f64 f64 f64
  | CalendarMismatch CalendarId CalendarId CalendarId
  | SymbolCalendarMismatch CalendarId CalendarId
  | WindowSessionMismatch
  | SeriesCalendarMismatch CalendarId CalendarId
  | SeriesPeriodMismatch BarPeriod BarPeriod
  | SeriesSymbolMismatch Symbol Symbol

definition Ohlcv_new ::
  "f64 \<Rightarrow> f64 \<Rightarrow> f64 \<Rightarrow> f64 \<Rightarrow> u64 \<Rightarrow> u32 \<Rightarrow> f64 option \<Rightarrow> (Ohlcv, CandleError) rust_result" where
  "Ohlcv_new op h l c volume trade_count wap =
     (let bad = (\<lambda>reason. Err (InvalidOhlc reason op h l c));
          good = Ok \<lparr> oh_o = op, oh_h = h, oh_l = l, oh_c = c, oh_volume = volume,
                      oh_trade_count = trade_count, oh_wap = wap \<rparr>
      in if \<not> f64_is_finite op \<or> \<not> f64_is_finite h \<or> \<not> f64_is_finite l \<or> \<not> f64_is_finite c
         then bad ''OHLC contains NaN or infinite value''
         else if f64_gt l h then bad ''low > high''
         else if f64_lt op l \<or> f64_gt op h then bad ''open outside [low, high]''
         else if f64_lt c l \<or> f64_gt c h then bad ''close outside [low, high]''
         else case wap of
                None \<Rightarrow> good
              | Some w \<Rightarrow>
                  if \<not> f64_is_finite w then bad ''wap not finite''
                  else if f64_lt w l \<or> f64_gt w h then bad ''wap outside [low, high]''
                  else good)"

definition Candle_new ::
  "Symbol \<Rightarrow> ExchangeCalendar \<Rightarrow> BarPeriod \<Rightarrow> Session \<Rightarrow> BarWindow \<Rightarrow> Ohlcv \<Rightarrow> Completeness
   \<Rightarrow> (Candle, CandleError) rust_result" where
  "Candle_new symbol calendar period session window ohlcv completeness =
     (let cid = cal_id calendar in
      if ses_calendar session \<noteq> cid
      then Err (CalendarMismatch cid (ses_calendar session) (ses_calendar (bw_session window)))
      else if ses_calendar (bw_session window) \<noteq> cid
      then Err (CalendarMismatch cid (ses_calendar session) (ses_calendar (bw_session window)))
      else if sy_calendar symbol \<noteq> cid then Err (SymbolCalendarMismatch cid (sy_calendar symbol))
      else if ses_kind (bw_session window) \<noteq> ses_kind session
           \<or> ses_open (bw_session window) \<noteq> ses_open session
           \<or> ses_close (bw_session window) \<noteq> ses_close session
      then Err WindowSessionMismatch
      else case Ohlcv_new (oh_o ohlcv) (oh_h ohlcv) (oh_l ohlcv) (oh_c ohlcv) (oh_volume ohlcv)
                  (oh_trade_count ohlcv) (oh_wap ohlcv) of
             Inl e \<Rightarrow> Err e
           | Inr v \<Rightarrow>
               Ok \<lparr> ca_symbol = symbol, ca_calendar = cid, ca_period = period, ca_session = session,
                    ca_window = window, ca_o = oh_o v, ca_h = oh_h v, ca_l = oh_l v, ca_c = oh_c v,
                    ca_volume = oh_volume v, ca_trade_count = oh_trade_count v, ca_wap = oh_wap v,
                    ca_completeness = completeness \<rparr>)"

text \<open>What the constructors promise.\<close>

definition prices_ok :: "f64 \<Rightarrow> f64 \<Rightarrow> f64 \<Rightarrow> f64 \<Rightarrow> f64 option \<Rightarrow> bool" where
  "prices_ok op h l c wap =
     (f64_is_finite op \<and> f64_is_finite h \<and> f64_is_finite l \<and> f64_is_finite c
      \<and> f64_le l op \<and> f64_le op h \<and> f64_le l c \<and> f64_le c h
      \<and> (case wap of None \<Rightarrow> True | Some w \<Rightarrow> f64_is_finite w \<and> f64_le l w \<and> f64_le w h))"

definition candle_ok :: "Candle \<Rightarrow> bool" where
  "candle_ok cd =
     (prices_ok (ca_o cd) (ca_h cd) (ca_l cd) (ca_c cd) (ca_wap cd)
      \<and> sy_calendar (ca_symbol cd) = ca_calendar cd \<and> ses_calendar (ca_session cd) = ca_calendar cd
      \<and> ses_calendar (bw_session (ca_window cd)) = ca_calendar cd
      \<and> ses_kind (bw_session (ca_window cd)) = ses_kind (ca_session cd)
      \<and> ses_open (bw_session (ca_window cd)) = ses_open (ca_session cd)
      \<and> ses_close (bw_session (ca_window cd)) = ses_close (ca_session cd))"

lemma f64_le_trans: "f64_le x y \<Longrightarrow> f64_le y z \<Longrightarrow> f64_le x z"
  by (auto simp: f64_le_def)

lemma f64_le_refl: "f64_is_finite x \<Longrightarrow> f64_le x x"
  by (simp add: f64_le_def f64_finite_not_nan)

lemma Ohlcv_new_ok:
  "is_ok (Ohlcv_new op h l c volume trade_count wap) \<longleftrightarrow> prices_ok op h l c wap"
  by (auto simp: Ohlcv_new_def prices_ok_def Let_def f64_lt_def f64_le_def f64_finite_not_nan
      split: option.splits)

lemma Ohlcv_new_value:
  "prices_ok op h l c wap \<Longrightarrow> Ohlcv_new op h l c volume trade_count wap
     = Ok \<lparr> oh_o = op, oh_h = h, oh_l = l, oh_c = c, oh_volume = volume, oh_trade_count = trade_count, oh_wap = wap \<rparr>"
  using Ohlcv_new_ok [of op h l c volume trade_count wap]
  by (auto simp: Ohlcv_new_def Let_def split: option.splits if_splits)

end
