(* ===== verification/Bars_Series.thy ===== *)
theory Bars_Series imports Bars_Candle F32 begin

text \<open>
  The candle store of a chart, \<open>crates/midas-bars/src/series.rs\<close>: one column per field, prices in 32-bit
  floats, an optional cap on the number of rows. \<open>None\<close> is a panic: a candle of another series, or an
  instant that does not fit the 64 bits of its nanoseconds. The columns are proved to be a list of rows.
\<close>

record CandleSeries =
  cs_calendar :: CalendarId
  cs_period :: BarPeriod
  cs_symbol :: Symbol
  cs_timestamps :: "i64 list"
  cs_opens :: "f32 list"
  cs_highs :: "f32 list"
  cs_lows :: "f32 list"
  cs_closes :: "f32 list"
  cs_volumes :: "u32 list"
  cs_trade_counts :: "u32 list"
  cs_waps :: "f32 list"
  cs_sessions :: "SessionKind list"
  cs_completeness :: "Completeness list"
  cs_max_rows :: "nat option"
  cs_version :: u64

text \<open>
  The constructor as a release build has it: the \<open>debug_assert\<close> that the symbol's calendar is the
  given one is left out.
\<close>

definition with_optional_cap :: "CalendarId \<Rightarrow> BarPeriod \<Rightarrow> Symbol \<Rightarrow> nat option \<Rightarrow> CandleSeries" where
  "with_optional_cap calendar period symbol max_rows =
     \<lparr> cs_calendar = calendar, cs_period = period, cs_symbol = symbol, cs_timestamps = [], cs_opens = [],
       cs_highs = [], cs_lows = [], cs_closes = [], cs_volumes = [], cs_trade_counts = [], cs_waps = [],
       cs_sessions = [], cs_completeness = [], cs_max_rows = max_rows, cs_version = 0 \<rparr>"

definition series_new :: "CalendarId \<Rightarrow> BarPeriod \<Rightarrow> Symbol \<Rightarrow> CandleSeries" where
  "series_new calendar period symbol = with_optional_cap calendar period symbol None"

definition series_new_with_cap :: "CalendarId \<Rightarrow> BarPeriod \<Rightarrow> Symbol \<Rightarrow> nat \<Rightarrow> CandleSeries option" where
  "series_new_with_cap calendar period symbol max_rows =
     (if max_rows > 0 then Some (with_optional_cap calendar period symbol (Some max_rows)) else None)"

definition series_len :: "CandleSeries \<Rightarrow> nat" where
  "series_len cs = length (cs_timestamps cs)"

definition timestamp_nanos_opt :: "Timestamp \<Rightarrow> i64 option" where
  "timestamp_nanos_opt ts = (if - (2 ^ 63) \<le> ts \<and> ts < 2 ^ 63 then Some (word_of_int ts) else None)"

definition wap_to_column :: "f64 option \<Rightarrow> f32" where
  "wap_to_column wap = (case wap of Some v \<Rightarrow> if f64_is_finite v then as_f32 v else f32_nan | None \<Rightarrow> f32_nan)"

definition column_to_wap :: "f32 \<Rightarrow> f64 option" where
  "column_to_wap v = (if f32_is_finite v then Some (as_f64 v) else None)"

definition clamp_volume :: "u64 \<Rightarrow> u32" where
  "clamp_volume v = (if uint v < 2 ^ 32 then ucast v else - 1)"

definition validate_candle :: "CandleSeries \<Rightarrow> Candle \<Rightarrow> (unit, CandleError) rust_result" where
  "validate_candle cs cd =
     (if ca_calendar cd \<noteq> cs_calendar cs then Err (SeriesCalendarMismatch (cs_calendar cs) (ca_calendar cd))
      else if ca_period cd \<noteq> cs_period cs then Err (SeriesPeriodMismatch (cs_period cs) (ca_period cd))
      else if ca_symbol cd \<noteq> cs_symbol cs then Err (SeriesSymbolMismatch (cs_symbol cs) (ca_symbol cd))
      else Ok ())"

definition push_columns :: "Candle \<Rightarrow> CandleSeries \<Rightarrow> CandleSeries option" where
  "push_columns cd cs =
     (case timestamp_nanos_opt (bw_open (ca_window cd)) of
        None \<Rightarrow> None
      | Some ts \<Rightarrow> Some (cs\<lparr>
          cs_timestamps := cs_timestamps cs @ [ts],
          cs_opens := cs_opens cs @ [as_f32 (ca_o cd)],
          cs_highs := cs_highs cs @ [as_f32 (ca_h cd)],
          cs_lows := cs_lows cs @ [as_f32 (ca_l cd)],
          cs_closes := cs_closes cs @ [as_f32 (ca_c cd)],
          cs_volumes := cs_volumes cs @ [clamp_volume (ca_volume cd)],
          cs_trade_counts := cs_trade_counts cs @ [ca_trade_count cd],
          cs_waps := cs_waps cs @ [wap_to_column (ca_wap cd)],
          cs_sessions := cs_sessions cs @ [ses_kind (ca_session cd)],
          cs_completeness := cs_completeness cs @ [ca_completeness cd] \<rparr>))"

definition write_row :: "nat \<Rightarrow> Candle \<Rightarrow> CandleSeries \<Rightarrow> CandleSeries option" where
  "write_row i cd cs =
     (case timestamp_nanos_opt (bw_open (ca_window cd)) of
        None \<Rightarrow> None
      | Some ts \<Rightarrow> Some (cs\<lparr>
          cs_timestamps := (cs_timestamps cs)[i := ts],
          cs_opens := (cs_opens cs)[i := as_f32 (ca_o cd)],
          cs_highs := (cs_highs cs)[i := as_f32 (ca_h cd)],
          cs_lows := (cs_lows cs)[i := as_f32 (ca_l cd)],
          cs_closes := (cs_closes cs)[i := as_f32 (ca_c cd)],
          cs_volumes := (cs_volumes cs)[i := clamp_volume (ca_volume cd)],
          cs_trade_counts := (cs_trade_counts cs)[i := ca_trade_count cd],
          cs_waps := (cs_waps cs)[i := wap_to_column (ca_wap cd)],
          cs_sessions := (cs_sessions cs)[i := ses_kind (ca_session cd)],
          cs_completeness := (cs_completeness cs)[i := ca_completeness cd] \<rparr>))"

definition enforce_cap :: "CandleSeries \<Rightarrow> CandleSeries" where
  "enforce_cap cs =
     (case cs_max_rows cs of
        None \<Rightarrow> cs
      | Some cap \<Rightarrow>
          if length (cs_timestamps cs) \<le> cap then cs
          else let n = length (cs_timestamps cs) - cap in
            cs\<lparr> cs_timestamps := drop n (cs_timestamps cs), cs_opens := drop n (cs_opens cs),
                cs_highs := drop n (cs_highs cs), cs_lows := drop n (cs_lows cs),
                cs_closes := drop n (cs_closes cs), cs_volumes := drop n (cs_volumes cs),
                cs_trade_counts := drop n (cs_trade_counts cs), cs_waps := drop n (cs_waps cs),
                cs_sessions := drop n (cs_sessions cs), cs_completeness := drop n (cs_completeness cs) \<rparr>)"

definition bump_version :: "CandleSeries \<Rightarrow> CandleSeries" where
  "bump_version cs = cs\<lparr> cs_version := cs_version cs + 1 \<rparr>"

definition series_push :: "Candle \<Rightarrow> CandleSeries \<Rightarrow> CandleSeries option" where
  "series_push cd cs =
     (if is_err (validate_candle cs cd) then None
      else map_option (\<lambda>cs. bump_version (enforce_cap cs)) (push_columns cd cs))"

definition series_apply :: "Candle \<Rightarrow> CandleSeries \<Rightarrow> CandleSeries option" where
  "series_apply cd cs =
     (if is_err (validate_candle cs cd) then None
      else case timestamp_nanos_opt (bw_open (ca_window cd)) of
        None \<Rightarrow> None
      | Some ts \<Rightarrow>
          if cs_timestamps cs \<noteq> [] \<and> last (cs_timestamps cs) = ts
          then map_option bump_version (write_row (length (cs_timestamps cs) - 1) cd cs)
          else map_option (\<lambda>cs. bump_version (enforce_cap cs)) (push_columns cd cs))"

definition update_last_price :: "f64 \<Rightarrow> CandleSeries \<Rightarrow> CandleSeries" where
  "update_last_price price cs =
     (if \<not> f64_is_finite price then cs
      else if cs_closes cs = [] then cs
      else let p = as_f32 price; i = length (cs_closes cs) - 1;
               cs = (if f32_lt (cs_highs cs ! i) p then cs\<lparr> cs_highs := (cs_highs cs)[i := p] \<rparr> else cs);
               cs = (if f32_lt p (cs_lows cs ! i) then cs\<lparr> cs_lows := (cs_lows cs)[i := p] \<rparr> else cs)
           in bump_version (cs\<lparr> cs_closes := (cs_closes cs)[i := p] \<rparr>))"

section \<open>Reading\<close>

record CandleRef =
  cr_ts_open :: Timestamp
  cr_open :: f64
  cr_high :: f64
  cr_low :: f64
  cr_close :: f64
  cr_volume :: u64
  cr_trade_count :: u32
  cr_wap :: "f64 option"
  cr_session_kind :: SessionKind
  cr_completeness :: Completeness

definition series_at :: "CandleSeries \<Rightarrow> nat \<Rightarrow> CandleRef option" where
  "series_at cs i =
     (if i < series_len cs
      then Some \<lparr> cr_ts_open = sint (cs_timestamps cs ! i), cr_open = as_f64 (cs_opens cs ! i),
        cr_high = as_f64 (cs_highs cs ! i), cr_low = as_f64 (cs_lows cs ! i),
        cr_close = as_f64 (cs_closes cs ! i), cr_volume = ucast (cs_volumes cs ! i),
        cr_trade_count = cs_trade_counts cs ! i, cr_wap = column_to_wap (cs_waps cs ! i),
        cr_session_kind = cs_sessions cs ! i, cr_completeness = cs_completeness cs ! i \<rparr>
      else None)"

definition series_iter :: "CandleSeries \<Rightarrow> CandleRef list" where
  "series_iter cs = map (\<lambda>i. the (series_at cs i)) [0..<series_len cs]"

definition cr_ts_close :: "ExchangeCalendar \<Rightarrow> BarPeriod \<Rightarrow> CandleRef \<Rightarrow> Timestamp" where
  "cr_ts_close cal period r =
     (case cal_bar_window cal (cr_ts_open r) period of Inr w \<Rightarrow> bw_close w | Inl _ \<Rightarrow> cr_ts_open r)"

definition cr_session :: "ExchangeCalendar \<Rightarrow> CandleRef \<Rightarrow> Session" where
  "cr_session cal r = cal_classify cal (cr_ts_open r)"

section \<open>The columns are a list of rows\<close>

record Row =
  rw_ts :: i64
  rw_open :: f32
  rw_high :: f32
  rw_low :: f32
  rw_close :: f32
  rw_volume :: u32
  rw_trade_count :: u32
  rw_wap :: f32
  rw_kind :: SessionKind
  rw_completeness :: Completeness

definition row_at :: "CandleSeries \<Rightarrow> nat \<Rightarrow> Row" where
  "row_at cs i =
     \<lparr> rw_ts = cs_timestamps cs ! i, rw_open = cs_opens cs ! i, rw_high = cs_highs cs ! i,
       rw_low = cs_lows cs ! i, rw_close = cs_closes cs ! i, rw_volume = cs_volumes cs ! i,
       rw_trade_count = cs_trade_counts cs ! i, rw_wap = cs_waps cs ! i, rw_kind = cs_sessions cs ! i,
       rw_completeness = cs_completeness cs ! i \<rparr>"

definition rows_of :: "CandleSeries \<Rightarrow> Row list" where
  "rows_of cs = map (row_at cs) [0..<series_len cs]"

definition row_of :: "i64 \<Rightarrow> Candle \<Rightarrow> Row" where
  "row_of ts cd =
     \<lparr> rw_ts = ts, rw_open = as_f32 (ca_o cd), rw_high = as_f32 (ca_h cd), rw_low = as_f32 (ca_l cd),
       rw_close = as_f32 (ca_c cd), rw_volume = clamp_volume (ca_volume cd),
       rw_trade_count = ca_trade_count cd, rw_wap = wap_to_column (ca_wap cd),
       rw_kind = ses_kind (ca_session cd), rw_completeness = ca_completeness cd \<rparr>"

definition columns_ok :: "CandleSeries \<Rightarrow> bool" where
  "columns_ok cs =
     (let n = series_len cs in
      length (cs_opens cs) = n \<and> length (cs_highs cs) = n \<and> length (cs_lows cs) = n
      \<and> length (cs_closes cs) = n \<and> length (cs_volumes cs) = n \<and> length (cs_trade_counts cs) = n
      \<and> length (cs_waps cs) = n \<and> length (cs_sessions cs) = n \<and> length (cs_completeness cs) = n)"

text \<open>The specification: the last rows are kept; a candle of the same opening replaces the last row.\<close>

definition keep_last :: "nat option \<Rightarrow> 'a list \<Rightarrow> 'a list" where
  "keep_last cap xs = (case cap of None \<Rightarrow> xs | Some n \<Rightarrow> drop (length xs - n) xs)"

definition fold_price :: "f32 \<Rightarrow> Row \<Rightarrow> Row" where
  "fold_price p r = r\<lparr> rw_close := p, rw_high := (if f32_lt (rw_high r) p then p else rw_high r),
     rw_low := (if f32_lt p (rw_low r) then p else rw_low r) \<rparr>"

datatype series_op = PushOp Candle | ApplyOp Candle | PriceOp f64

definition series_do :: "series_op \<Rightarrow> CandleSeries \<Rightarrow> CandleSeries option" where
  "series_do x cs = (case x of PushOp cd \<Rightarrow> series_push cd cs | ApplyOp cd \<Rightarrow> series_apply cd cs
     | PriceOp price \<Rightarrow> Some (update_last_price price cs))"

fun series_run :: "series_op list \<Rightarrow> CandleSeries \<Rightarrow> CandleSeries option" where
  "series_run [] cs = Some cs"
| "series_run (x # xs) cs = (case series_do x cs of None \<Rightarrow> None | Some cs' \<Rightarrow> series_run xs cs')"

definition belongs :: "CalendarId \<Rightarrow> BarPeriod \<Rightarrow> Symbol \<Rightarrow> Candle \<Rightarrow> bool" where
  "belongs calendar period symbol cd =
     (ca_calendar cd = calendar \<and> ca_period cd = period \<and> ca_symbol cd = symbol
      \<and> timestamp_nanos_opt (bw_open (ca_window cd)) \<noteq> None)"

definition spec_do :: "nat option \<Rightarrow> series_op \<Rightarrow> Row list \<Rightarrow> Row list" where
  "spec_do cap x rows =
     (case x of
        PushOp cd \<Rightarrow> keep_last cap (rows @ [row_of (the (timestamp_nanos_opt (bw_open (ca_window cd)))) cd])
      | ApplyOp cd \<Rightarrow>
          (let r = row_of (the (timestamp_nanos_opt (bw_open (ca_window cd)))) cd in
           if rows \<noteq> [] \<and> rw_ts (last rows) = rw_ts r then butlast rows @ [r] else keep_last cap (rows @ [r]))
      | PriceOp price \<Rightarrow>
          if f64_is_finite price \<and> rows \<noteq> [] then butlast rows @ [fold_price (as_f32 price) (last rows)] else rows)"

definition op_belongs :: "CalendarId \<Rightarrow> BarPeriod \<Rightarrow> Symbol \<Rightarrow> series_op \<Rightarrow> bool" where
  "op_belongs calendar period symbol x =
     (case x of PushOp cd \<Rightarrow> belongs calendar period symbol cd | ApplyOp cd \<Rightarrow> belongs calendar period symbol cd
      | PriceOp price \<Rightarrow> True)"

lemma columns_okD:
  assumes "columns_ok cs"
  shows "length (cs_timestamps cs) = series_len cs" "length (cs_opens cs) = series_len cs"
    "length (cs_highs cs) = series_len cs" "length (cs_lows cs) = series_len cs"
    "length (cs_closes cs) = series_len cs" "length (cs_volumes cs) = series_len cs"
    "length (cs_trade_counts cs) = series_len cs" "length (cs_waps cs) = series_len cs"
    "length (cs_sessions cs) = series_len cs" "length (cs_completeness cs) = series_len cs"
  using assms by (simp_all add: columns_ok_def series_len_def Let_def)

lemma length_rows [simp]: "length (rows_of cs) = series_len cs"
  by (simp add: rows_of_def)

lemma nth_rows: "i < series_len cs \<Longrightarrow> rows_of cs ! i = row_at cs i"
  by (simp add: rows_of_def)

lemma rows_empty_iff: "rows_of cs = [] \<longleftrightarrow> cs_timestamps cs = []"
  by (simp add: rows_of_def series_len_def)

lemma last_row: "cs_timestamps cs \<noteq> [] \<Longrightarrow> last (rows_of cs) = row_at cs (series_len cs - 1)"
  by (simp add: rows_of_def last_map series_len_def)

lemma last_row_ts: "cs_timestamps cs \<noteq> [] \<Longrightarrow> rw_ts (last (rows_of cs)) = last (cs_timestamps cs)"
  by (simp add: last_row row_at_def last_conv_nth series_len_def)

lemma push_columns_rows:
  assumes "columns_ok cs" "timestamp_nanos_opt (bw_open (ca_window cd)) = Some ts"
  shows "\<exists>cs'. push_columns cd cs = Some cs' \<and> columns_ok cs' \<and> rows_of cs' = rows_of cs @ [row_of ts cd]
    \<and> cs_max_rows cs' = cs_max_rows cs \<and> cs_calendar cs' = cs_calendar cs \<and> cs_period cs' = cs_period cs
    \<and> cs_symbol cs' = cs_symbol cs \<and> cs_version cs' = cs_version cs"
proof -
  note c = columns_okD [OF assms(1)]
  obtain cs' where cs': "push_columns cd cs = Some cs'" by (simp add: push_columns_def assms(2))
  have len: "series_len cs' = Suc (series_len cs)"
    using cs' by (auto simp: push_columns_def assms(2) series_len_def)
  have rows: "row_at cs' i = (if i < series_len cs then row_at cs i else row_of ts cd)" if "i < series_len cs'" for i
    using cs' that len c
    by (auto simp: push_columns_def assms(2) row_at_def row_of_def nth_append less_Suc_eq)
  have "rows_of cs' = rows_of cs @ [row_of ts cd]"
    by (rule nth_equalityI) (auto simp: len nth_rows rows nth_append)
  moreover have "columns_ok cs'"
    using cs' c len by (auto simp: push_columns_def assms(2) columns_ok_def)
  ultimately show ?thesis using cs' by (auto simp: push_columns_def assms(2))
qed

lemma write_row_rows:
  assumes "columns_ok cs" "timestamp_nanos_opt (bw_open (ca_window cd)) = Some ts" "cs_timestamps cs \<noteq> []"
  shows "\<exists>cs'. write_row (length (cs_timestamps cs) - 1) cd cs = Some cs' \<and> columns_ok cs'
    \<and> rows_of cs' = butlast (rows_of cs) @ [row_of ts cd]
    \<and> cs_max_rows cs' = cs_max_rows cs \<and> cs_calendar cs' = cs_calendar cs \<and> cs_period cs' = cs_period cs
    \<and> cs_symbol cs' = cs_symbol cs \<and> cs_version cs' = cs_version cs"
proof -
  note c = columns_okD [OF assms(1)]
  let ?k = "length (cs_timestamps cs) - 1"
  obtain cs' where cs': "write_row ?k cd cs = Some cs'" by (simp add: write_row_def assms(2))
  have k: "?k < series_len cs" using assms(3) by (simp add: series_len_def)
  have len: "series_len cs' = series_len cs"
    using cs' by (auto simp: write_row_def assms(2) series_len_def)
  have rows: "row_at cs' i = (if i = ?k then row_of ts cd else row_at cs i)" if "i < series_len cs" for i
    using cs' that k c by (auto simp: write_row_def assms(2) row_at_def row_of_def)
  have "rows_of cs' = butlast (rows_of cs) @ [row_of ts cd]"
    using k by (intro nth_equalityI) (auto simp: len nth_rows rows nth_append nth_butlast c(1))
  moreover have "columns_ok cs'"
    using cs' c len by (auto simp: write_row_def assms(2) columns_ok_def)
  ultimately show ?thesis using cs' by (auto simp: write_row_def assms(2))
qed

lemma enforce_cap_rows:
  assumes "columns_ok cs"
  shows "columns_ok (enforce_cap cs) \<and> rows_of (enforce_cap cs) = keep_last (cs_max_rows cs) (rows_of cs)
    \<and> cs_max_rows (enforce_cap cs) = cs_max_rows cs \<and> cs_calendar (enforce_cap cs) = cs_calendar cs
    \<and> cs_period (enforce_cap cs) = cs_period cs \<and> cs_symbol (enforce_cap cs) = cs_symbol cs"
proof (cases "cs_max_rows cs")
  case None
  with assms show ?thesis by (simp add: enforce_cap_def keep_last_def)
next
  case (Some cap)
  note c = columns_okD [OF assms]
  show ?thesis
  proof (cases "series_len cs \<le> cap")
    case True
    with assms Some c show ?thesis by (simp add: enforce_cap_def keep_last_def)
  next
    case False
    let ?n = "series_len cs - cap"
    have len: "series_len (enforce_cap cs) = cap"
      using Some False by (simp add: enforce_cap_def series_len_def Let_def)
    have rows: "row_at (enforce_cap cs) i = row_at cs (?n + i)" if "i < cap" for i
      using Some False c that by (simp add: enforce_cap_def row_at_def Let_def)
    have "rows_of (enforce_cap cs) = drop ?n (rows_of cs)"
      using False by (intro nth_equalityI) (auto simp: len nth_rows rows)
    moreover have "columns_ok (enforce_cap cs)"
      using Some False c len by (simp add: enforce_cap_def columns_ok_def Let_def)
    ultimately show ?thesis using Some False c by (simp add: enforce_cap_def keep_last_def Let_def)
  qed
qed

lemma bump_rows [simp]:
  "rows_of (bump_version cs) = rows_of cs" "columns_ok (bump_version cs) = columns_ok cs"
  "cs_max_rows (bump_version cs) = cs_max_rows cs" "cs_calendar (bump_version cs) = cs_calendar cs"
  "cs_period (bump_version cs) = cs_period cs" "cs_symbol (bump_version cs) = cs_symbol cs"
  by (simp_all add: bump_version_def rows_of_def row_at_def [abs_def] columns_ok_def series_len_def)

section \<open>Every operation\<close>

lemma price_rows:
  assumes "columns_ok cs"
  shows "columns_ok (update_last_price price cs)
    \<and> rows_of (update_last_price price cs)
      = (if f64_is_finite price \<and> rows_of cs \<noteq> [] then butlast (rows_of cs) @ [fold_price (as_f32 price) (last (rows_of cs))]
         else rows_of cs)
    \<and> cs_max_rows (update_last_price price cs) = cs_max_rows cs
    \<and> cs_calendar (update_last_price price cs) = cs_calendar cs
    \<and> cs_period (update_last_price price cs) = cs_period cs \<and> cs_symbol (update_last_price price cs) = cs_symbol cs"
proof (cases "f64_is_finite price \<and> cs_timestamps cs \<noteq> []")
  case False
  note c = columns_okD [OF assms]
  have "update_last_price price cs = cs"
    using False c(1, 5) by (auto simp: update_last_price_def)
  then show ?thesis using False assms by (auto simp: rows_empty_iff)
next
  case True
  note c = columns_okD [OF assms]
  define cs' where "cs' = update_last_price price cs"
  let ?k = "series_len cs - 1" and ?p = "as_f32 price"
  have k: "?k < series_len cs" using True by (simp add: series_len_def)
  have ne: "cs_closes cs \<noteq> []" using True c(1, 5) by auto
  have len: "series_len cs' = series_len cs"
    by (simp add: cs'_def update_last_price_def bump_version_def series_len_def Let_def)
  have rows: "row_at cs' i = (if i = ?k then fold_price ?p (row_at cs i) else row_at cs i)" if "i < series_len cs" for i
    using that True ne k c
    by (simp add: cs'_def update_last_price_def bump_version_def row_at_def fold_price_def Let_def)
  have "rows_of cs' = butlast (rows_of cs) @ [fold_price ?p (last (rows_of cs))]"
    using k last_row [of cs] True
    by (intro nth_equalityI) (auto simp: len nth_rows rows nth_append nth_butlast)
  moreover have "columns_ok cs'"
    using c len ne by (simp add: cs'_def update_last_price_def bump_version_def columns_ok_def Let_def)
  ultimately show ?thesis
    using True unfolding cs'_def [symmetric] by (simp add: rows_empty_iff)
      (simp add: cs'_def update_last_price_def bump_version_def Let_def)
qed

lemma validate_iff:
  "is_err (validate_candle cs cd) \<or> timestamp_nanos_opt (bw_open (ca_window cd)) = None
     \<longleftrightarrow> \<not> belongs (cs_calendar cs) (cs_period cs) (cs_symbol cs) cd"
  by (auto simp: validate_candle_def belongs_def)

text \<open>What stays: the identity of the series and its cap.\<close>

definition same_series :: "CandleSeries \<Rightarrow> CandleSeries \<Rightarrow> bool" where
  "same_series cs cs' = (cs_max_rows cs' = cs_max_rows cs \<and> cs_calendar cs' = cs_calendar cs
     \<and> cs_period cs' = cs_period cs \<and> cs_symbol cs' = cs_symbol cs)"

lemma append_rows:
  assumes "columns_ok cs" "timestamp_nanos_opt (bw_open (ca_window cd)) = Some ts"
  shows "\<exists>cs'. map_option (\<lambda>cs. bump_version (enforce_cap cs)) (push_columns cd cs) = Some cs' \<and> columns_ok cs'
    \<and> rows_of cs' = keep_last (cs_max_rows cs) (rows_of cs @ [row_of ts cd]) \<and> same_series cs cs'"
  using push_columns_rows [OF assms] enforce_cap_rows by (fastforce simp: same_series_def)

lemma series_do_rows:
  assumes c: "columns_ok cs" and b: "op_belongs (cs_calendar cs) (cs_period cs) (cs_symbol cs) x"
  shows "\<exists>cs'. series_do x cs = Some cs' \<and> columns_ok cs' \<and> rows_of cs' = spec_do (cs_max_rows cs) x (rows_of cs)
    \<and> same_series cs cs'"
proof (cases x)
  case (PushOp cd)
  then obtain ts where ts: "timestamp_nanos_opt (bw_open (ca_window cd)) = Some ts" "\<not> is_err (validate_candle cs cd)"
    using b validate_iff [of cs cd] by (auto simp: op_belongs_def belongs_def)
  with append_rows [OF c ts(1)] PushOp show ?thesis by (simp add: series_do_def series_push_def spec_do_def)
next
  case (ApplyOp cd)
  then obtain ts where ts: "timestamp_nanos_opt (bw_open (ca_window cd)) = Some ts" "\<not> is_err (validate_candle cs cd)"
    using b validate_iff [of cs cd] by (auto simp: op_belongs_def belongs_def)
  show ?thesis
  proof (cases "cs_timestamps cs \<noteq> [] \<and> last (cs_timestamps cs) = ts")
    case True
    have "rw_ts (last (rows_of cs)) = ts" using True by (simp add: last_row_ts)
    with True ts ApplyOp write_row_rows [OF c ts(1)] show ?thesis
      by (fastforce simp: series_do_def series_apply_def spec_do_def same_series_def rows_empty_iff row_of_def Let_def)
  next
    case False
    have "\<not> (rows_of cs \<noteq> [] \<and> rw_ts (last (rows_of cs)) = ts)"
      using False by (auto simp: last_row_ts rows_empty_iff)
    with False ts ApplyOp append_rows [OF c ts(1)] show ?thesis
      by (auto simp: series_do_def series_apply_def spec_do_def row_of_def Let_def)
  qed
next
  case (PriceOp price)
  with price_rows [OF c, of price] show ?thesis by (simp add: series_do_def spec_do_def same_series_def)
qed

lemma series_do_refuses:
  "\<not> op_belongs (cs_calendar cs) (cs_period cs) (cs_symbol cs) x \<Longrightarrow> series_do x cs = None"
proof (cases x)
  case (PushOp cd)
  then show "\<not> op_belongs (cs_calendar cs) (cs_period cs) (cs_symbol cs) x \<Longrightarrow> series_do x cs = None"
    using validate_iff [of cs cd]
    by (auto simp: op_belongs_def series_do_def series_push_def push_columns_def)
next
  case (ApplyOp cd)
  then show "\<not> op_belongs (cs_calendar cs) (cs_period cs) (cs_symbol cs) x \<Longrightarrow> series_do x cs = None"
    using validate_iff [of cs cd] by (auto simp: op_belongs_def series_do_def series_apply_def)
qed (simp add: op_belongs_def)

lemma with_optional_cap_rows:
  "columns_ok (with_optional_cap calendar period symbol cap)" "rows_of (with_optional_cap calendar period symbol cap) = []"
  by (simp_all add: with_optional_cap_def columns_ok_def rows_of_def series_len_def)

lemma series_run_from:
  assumes "columns_ok cs"
  shows "if list_all (op_belongs (cs_calendar cs) (cs_period cs) (cs_symbol cs)) xs
      then \<exists>cs'. series_run xs cs = Some cs' \<and> columns_ok cs' \<and> rows_of cs' = fold (spec_do (cs_max_rows cs)) xs (rows_of cs)
      else series_run xs cs = None"
  using assms
proof (induction xs arbitrary: cs)
  case (Cons x xs)
  show ?case
  proof (cases "op_belongs (cs_calendar cs) (cs_period cs) (cs_symbol cs) x")
    case True
    then obtain cs' where cs': "series_do x cs = Some cs'" "columns_ok cs'"
      "rows_of cs' = spec_do (cs_max_rows cs) x (rows_of cs)" "same_series cs cs'"
      using series_do_rows [OF Cons.prems] by blast
    with Cons.IH [OF cs'(2)] True show ?thesis by (auto simp: same_series_def split: if_splits)
  next
    case False
    then show ?thesis using series_do_refuses [OF False] by simp
  qed
qed simp

lemma with_optional_cap_identity:
  "cs_calendar (with_optional_cap calendar period symbol cap) = calendar"
  "cs_period (with_optional_cap calendar period symbol cap) = period"
  "cs_symbol (with_optional_cap calendar period symbol cap) = symbol"
  "cs_max_rows (with_optional_cap calendar period symbol cap) = cap"
  by (simp_all add: with_optional_cap_def)

text \<open>C14: The ten columns are one list of rows, whatever sequence of pushes, in-place updates and price
  ticks is made: the columns keep one length; a push appends a row and drops the oldest beyond the cap;
  an update with the opening of the last row replaces that row; a price tick moves the close and
  stretches the range of the last row. The series refuses, by a panic, exactly the runs with a candle
  of another calendar, period or symbol, or outside the range of the nanosecond clock.\<close>

theorem series_refines_rows:
  "case series_run xs (with_optional_cap calendar period symbol cap) of
     None \<Rightarrow> \<not> list_all (op_belongs calendar period symbol) xs
   | Some cs \<Rightarrow> list_all (op_belongs calendar period symbol) xs \<and> columns_ok cs
       \<and> rows_of cs = fold (spec_do cap) xs []"
  using series_run_from [OF with_optional_cap_rows(1), of calendar period symbol cap xs]
  by (auto simp: with_optional_cap_identity with_optional_cap_rows(2) split: if_splits)

end
