(* ===== verification/Market_Hub.thy ===== *)
theory Market_Hub imports Market_Types begin

text \<open>
  The per-symbol hub of the market-data router and its publisher tasks,
  \<open>crates/midas-market-data/src/router/state.rs\<close> and \<open>publisher.rs\<close>. A broadcast channel is seen
  from its sender: what is sent, and how many receivers there are at that moment. A \<open>watch\<close> channel
  is its value and version; \<open>watch::Sender::send\<close> stores nothing when nobody holds a receiver.
\<close>

section \<open>Channels and the hub\<close>

record 'a watch =
  wt_value :: 'a
  wt_version :: nat

definition watch_new :: "'a \<Rightarrow> 'a watch" where
  "watch_new x = \<lparr> wt_value = x, wt_version = 0 \<rparr>"

definition watch_send :: "nat \<Rightarrow> 'a \<Rightarrow> 'a watch \<Rightarrow> 'a watch" where
  "watch_send receivers x w =
     (if receivers = 0 then w else \<lparr> wt_value = x, wt_version = wt_version w + 1 \<rparr>)"

text \<open>A spawned task behind its join handle; aborting consumes the handle.\<close>

datatype PublisherTask = Running | Finished

record SymbolHub =
  sh_symbol :: SymbolKey
  sh_tick_refcount :: u32
  sh_watch_refcount :: u32
  sh_last_quote :: "Quote watch"
  sh_rt_bars_open :: bool
  sh_rt_bar_refcount :: u32
  sh_tick_publisher_task :: "PublisherTask option"
  sh_rt_bar_publisher_task :: "PublisherTask option"
  sh_last_tick_ts :: i64
  sh_end_reason :: "EndReason option"

definition SymbolHub_new :: "SymbolKey \<Rightarrow> SymbolHub" where
  "SymbolHub_new symbol = \<lparr> sh_symbol = symbol, sh_tick_refcount = 0, sh_watch_refcount = 0,
     sh_last_quote = watch_new Quote_default, sh_rt_bars_open = False, sh_rt_bar_refcount = 0,
     sh_tick_publisher_task = None, sh_rt_bar_publisher_task = None, sh_last_tick_ts = 0,
     sh_end_reason = None \<rparr>"

definition ensure_rt_bars_tx :: "SymbolHub \<Rightarrow> SymbolHub" where
  "ensure_rt_bars_tx hub = hub\<lparr> sh_rt_bars_open := True \<rparr>"

section \<open>The last quote\<close>

definition update_last_quote :: "nat \<Rightarrow> Tick \<Rightarrow> Quote watch \<Rightarrow> Quote watch" where
  "update_last_quote receivers tick w =
    (let current = wt_value w;
         nxt = (case (tk_type tick, tk_value tick) of
             (BidTick, PriceVal p) \<Rightarrow> current\<lparr> q_bid := Some p, q_ts := tk_ts tick \<rparr>
           | (AskTick, PriceVal p) \<Rightarrow> current\<lparr> q_ask := Some p, q_ts := tk_ts tick \<rparr>
           | (LastTick, PriceVal p) \<Rightarrow> current\<lparr> q_last := Some p, q_ts := tk_ts tick \<rparr>
           | (LastTick, PriceSizeVal p _) \<Rightarrow> current\<lparr> q_last := Some p, q_ts := tk_ts tick \<rparr>
           | (BidTick, PriceSizeVal p _) \<Rightarrow> current\<lparr> q_bid := Some p, q_ts := tk_ts tick \<rparr>
           | (AskTick, PriceSizeVal p _) \<Rightarrow> current\<lparr> q_ask := Some p, q_ts := tk_ts tick \<rparr>
           | _ \<Rightarrow> current)
     in if \<not> quote_eq nxt current then watch_send receivers nxt w else w)"

section \<open>Publishers\<close>

text \<open>What a stream's \<open>next\<close> returns.\<close>

datatype 'a upstream_item = Item 'a | Lagged nat | Closed

text \<open>How a publisher ends. On a closed upstream it first sends \<open>UpstreamClosed\<close> to the router.\<close>

datatype publisher_end = AutoExit | UpstreamEnded SymbolKey EndReason | NoSender

definition PUBLISHER_AUTO_EXIT_STREAK :: nat where "PUBLISHER_AUTO_EXIT_STREAK = 16"

text \<open>
  One pass of the tick publisher's loop. \<open>bcast\<close> and \<open>wtch\<close> are the receiver counts of the two
  channels when the tick is handled; the result holds the tick sent and the end, if the task ends.
\<close>

definition tick_publisher_step ::
  "Tick upstream_item \<Rightarrow> nat \<Rightarrow> nat \<Rightarrow> SymbolHub \<times> nat
     \<Rightarrow> Tick option \<times> publisher_end option \<times> SymbolHub \<times> nat" where
  "tick_publisher_step item bcast wtch = (\<lambda>(hub, zero_streak).
     case item of
       Item tick \<Rightarrow>
         (let hub = hub\<lparr> sh_last_tick_ts := of_int (tk_ts tick div 1000000) \<rparr>;
              hub = (if tk_kind tick \<in> {PriceKind, PriceSizeKind}
                     then hub\<lparr> sh_last_quote := update_last_quote wtch tick (sh_last_quote hub) \<rparr>
                     else hub)
          in if \<not> bcast > 0 \<and> \<not> wtch > 0
             then (if zero_streak + 1 \<ge> PUBLISHER_AUTO_EXIT_STREAK
                   then (Some tick, Some AutoExit, hub, zero_streak + 1)
                   else (Some tick, None, hub, zero_streak + 1))
             else (Some tick, None, hub, 0))
     | Lagged n \<Rightarrow> (None, None, hub, zero_streak)
     | Closed \<Rightarrow> (None, Some (UpstreamEnded (sh_symbol hub) DisconnectedEnd), hub, zero_streak))"

text \<open>The bar publisher has no watch beside its broadcast.\<close>

definition rt_bar_publisher_step ::
  "Bar upstream_item \<Rightarrow> nat \<Rightarrow> SymbolHub \<times> nat
     \<Rightarrow> Bar option \<times> publisher_end option \<times> SymbolHub \<times> nat" where
  "rt_bar_publisher_step item bcast = (\<lambda>(hub, zero_streak).
     case item of
       Item bar \<Rightarrow>
         (if \<not> sh_rt_bars_open hub then (None, Some NoSender, hub, zero_streak)
          else if \<not> bcast > 0
          then (if zero_streak + 1 \<ge> PUBLISHER_AUTO_EXIT_STREAK
                then (Some bar, Some AutoExit, hub, zero_streak + 1)
                else (Some bar, None, hub, zero_streak + 1))
          else (Some bar, None, hub, 0))
     | Lagged n \<Rightarrow> (None, None, hub, zero_streak)
     | Closed \<Rightarrow> (None, Some (UpstreamEnded (sh_symbol hub) DisconnectedEnd), hub, zero_streak))"

text \<open>
  A publisher task over a stretch of upstream items: what it sent, whether and how it ended, and
  the state it left.
\<close>

fun run_publisher ::
  "('i \<Rightarrow> 's \<Rightarrow> 'a option \<times> publisher_end option \<times> 's) \<Rightarrow> 'i list \<Rightarrow> 's
     \<Rightarrow> 'a list \<times> publisher_end option \<times> 's" where
  "run_publisher step [] s = ([], None, s)"
| "run_publisher step (i # is) s =
     (case step i s of (sent, fin, s') \<Rightarrow>
       (let out = (case sent of None \<Rightarrow> [] | Some x \<Rightarrow> [x])
        in case fin of
             Some e \<Rightarrow> (out, Some e, s')
           | None \<Rightarrow> (case run_publisher step is s' of (outs, e, s'') \<Rightarrow> (out @ outs, e, s''))))"

definition run_tick_publisher ::
  "(Tick upstream_item \<times> nat \<times> nat) list \<Rightarrow> SymbolHub
     \<Rightarrow> Tick list \<times> publisher_end option \<times> SymbolHub \<times> nat" where
  "run_tick_publisher items hub =
     run_publisher (\<lambda>(item, bcast, wtch). tick_publisher_step item bcast wtch) items (hub, 0)"

definition run_rt_bar_publisher ::
  "(Bar upstream_item \<times> nat) list \<Rightarrow> SymbolHub
     \<Rightarrow> Bar list \<times> publisher_end option \<times> SymbolHub \<times> nat" where
  "run_rt_bar_publisher items hub =
     run_publisher (\<lambda>(item, bcast). rt_bar_publisher_step item bcast) items (hub, 0)"

section \<open>Counting in 32 bits\<close>

lemma unat_Suc:
  fixes n :: u32
  shows "unat (n + 1) \<le> unat n + 1" "unat n + 1 < 2 ^ 32 \<Longrightarrow> unat (n + 1) = unat n + 1"
    "n \<noteq> 0 \<Longrightarrow> unat (n - 1) = unat n - 1"
  by (simp_all add: unat_word_ariths unat_minus_one)

lemma unat_Suc_nonzero:
  fixes n :: u32
  assumes "unat n + 1 < 2 ^ 32"
  shows "n + 1 \<noteq> 0"
proof
  assume "n + 1 = 0"
  then have "unat (n + 1) = 0" by (simp only: unat_0)
  with unat_Suc(2) [OF assms] show False by linarith
qed

end
