(* ===== verification/Market_Aggregator.thy ===== *)
theory Market_Aggregator imports Market_Hub begin

text \<open>
  The bar aggregator of \<open>crates/midas-market-data/src/aggregator/task.rs\<close>: five-second bars folded
  into the bars of a timeframe. The loop waits for the next upstream bar or, while something
  changed, for the 100 ms coalescing tick; a run is the list of what it woke up for.
  \<open>from_ts\<close> is \<open>DateTime::from_timestamp\<close> of the chrono library.
\<close>

section \<open>Windows\<close>

definition tf_to_duration :: "Timeframe \<Rightarrow> nat" where
  "tf_to_duration tf = as_secs tf"

definition nanos :: int where "nanos = 1000000000"

definition timestamp :: "DateTime \<Rightarrow> int" where
  "timestamp ts = ts div nanos"

definition align_to_window ::
  "(int \<Rightarrow> DateTime option) \<Rightarrow> DateTime \<Rightarrow> Timeframe \<Rightarrow> (DateTime, MarketDataError) rust_result" where
  "align_to_window from_ts ts tf =
    (let secs = int (tf_to_duration tf) in
     if secs \<le> 0 then Err (UnsupportedTimeframe tf)
     else let epoch = timestamp ts; aligned = epoch - epoch mod secs
          in Ok (case from_ts aligned of None \<Rightarrow> ts | Some t \<Rightarrow> t))"

section \<open>The task\<close>

definition ZERO_STREAK_AUTO_EXIT :: nat where "ZERO_STREAK_AUTO_EXIT = 16"

record Aggregator =
  ag_current :: "Bar option"
  ag_dirty :: bool
  ag_zero_streak :: nat
  ag_last_bar :: "Bar option"

definition Aggregator_new :: Aggregator where
  "Aggregator_new = \<lparr> ag_current = None, ag_dirty = False, ag_zero_streak = 0, ag_last_bar = None \<rparr>"

datatype agg_input = Upstream "Bar upstream_item" | Coalesce nat

definition saturating_add_u64 :: "u64 \<Rightarrow> u64 \<Rightarrow> u64" where
  "saturating_add_u64 a b = (if a + b < a then - 1 else a + b)"

definition saturating_add_u32 :: "u32 \<Rightarrow> u32 \<Rightarrow> u32" where
  "saturating_add_u32 a b = (if a + b < a then - 1 else a + b)"

text \<open>Folding a bar into the open window, and opening a window with it.\<close>

definition fold_bar :: "Bar \<Rightarrow> Bar \<Rightarrow> Bar" where
  "fold_bar bar rt_bar =
    bar\<lparr> bar_c := bar_c rt_bar,
         bar_h := (if f64_lt (bar_h bar) (bar_h rt_bar) then bar_h rt_bar else bar_h bar),
         bar_l := (if f64_lt (bar_l rt_bar) (bar_l bar) then bar_l rt_bar else bar_l bar),
         bar_volume := saturating_add_u64 (bar_volume bar) (bar_volume rt_bar),
         bar_trade_count := saturating_add_u32 (bar_trade_count bar) (bar_trade_count rt_bar),
         bar_wap := bar_wap rt_bar,
         bar_completeness := PartialBar \<rparr>"

definition open_bar :: "Timeframe \<Rightarrow> DateTime \<Rightarrow> Bar \<Rightarrow> Bar" where
  "open_bar tf window_open rt_bar =
    \<lparr> bar_symbol = bar_symbol rt_bar, bar_timeframe = tf, bar_ts_open = window_open,
      bar_ts_close = window_open + int (tf_to_duration tf) * nanos, bar_o = bar_o rt_bar,
      bar_h = bar_h rt_bar, bar_l = bar_l rt_bar, bar_c = bar_c rt_bar,
      bar_volume = bar_volume rt_bar, bar_trade_count = bar_trade_count rt_bar,
      bar_wap = bar_wap rt_bar, bar_completeness = PartialBar \<rparr>"

definition on_rt_bar ::
  "(int \<Rightarrow> DateTime option) \<Rightarrow> Timeframe \<Rightarrow> Bar \<Rightarrow> Aggregator \<Rightarrow> Bar option \<times> bool \<times> Aggregator" where
  "on_rt_bar from_ts tf rt_bar ag =
    (case align_to_window from_ts (bar_ts_open rt_bar) tf of
       Inl e \<Rightarrow> (None, True, ag)
     | Inr window_open \<Rightarrow>
        (case ag_current ag of
           Some bar \<Rightarrow>
             (if bar_ts_open bar = window_open
              then (None, False, ag\<lparr> ag_current := Some (fold_bar bar rt_bar), ag_dirty := True \<rparr>)
              else (let prev = bar\<lparr> bar_completeness := CompletedBar \<rparr>
                    in (Some prev, False, ag\<lparr> ag_current := Some (open_bar tf window_open rt_bar),
                          ag_last_bar := Some prev, ag_dirty := True \<rparr>)))
         | None \<Rightarrow> (None, False, ag\<lparr> ag_current := Some (open_bar tf window_open rt_bar),
                       ag_dirty := True \<rparr>)))"

definition on_coalesce :: "nat \<Rightarrow> Aggregator \<Rightarrow> Bar option \<times> bool \<times> Aggregator" where
  "on_coalesce receivers ag =
    (let sent = ag_current ag;
         ag = (case sent of Some bar \<Rightarrow> ag\<lparr> ag_last_bar := Some bar \<rparr> | None \<Rightarrow> ag)\<lparr> ag_dirty := False \<rparr>
     in if receivers = 0
        then (sent, ag_zero_streak ag + 1 \<ge> ZERO_STREAK_AUTO_EXIT,
              ag\<lparr> ag_zero_streak := ag_zero_streak ag + 1 \<rparr>)
        else (sent, False, ag\<lparr> ag_zero_streak := 0 \<rparr>))"

text \<open>One turn: the bar sent, whether the task returns, and the state. The coalescing arm is
  disabled while nothing changed.\<close>

definition aggregator_step ::
  "(int \<Rightarrow> DateTime option) \<Rightarrow> Timeframe \<Rightarrow> agg_input \<Rightarrow> Aggregator \<Rightarrow> Bar option \<times> bool \<times> Aggregator" where
  "aggregator_step from_ts tf input ag = (case input of
     Upstream (Item rt_bar) \<Rightarrow> on_rt_bar from_ts tf rt_bar ag
   | Upstream (Lagged n) \<Rightarrow> (None, False, ag\<lparr> ag_current := None, ag_dirty := False \<rparr>)
   | Upstream Closed \<Rightarrow> (None, True, ag)
   | Coalesce receivers \<Rightarrow> (if ag_dirty ag then on_coalesce receivers ag else (None, False, ag)))"

text \<open>The bars a run sends, whether the task returned, and the state it left.\<close>

fun run_aggregator ::
  "(int \<Rightarrow> DateTime option) \<Rightarrow> Timeframe \<Rightarrow> agg_input list \<Rightarrow> Aggregator \<Rightarrow> Bar list \<times> bool \<times> Aggregator" where
  "run_aggregator from_ts tf [] ag = ([], False, ag)"
| "run_aggregator from_ts tf (i # is) ag =
    (case aggregator_step from_ts tf i ag of (sent, fin, ag') \<Rightarrow>
       (let out = (case sent of None \<Rightarrow> [] | Some bar \<Rightarrow> [bar])
        in if fin then (out, True, ag')
           else case run_aggregator from_ts tf is ag' of (outs, fin', ag'') \<Rightarrow> (out @ outs, fin', ag'')))"

section \<open>Windows are right\<close>

text \<open>
  chrono builds the instants of the years 1970 to 9999, a range well inside the one its
  documentation gives (years -262143 to 262142; \<open>None\<close> outside). Bars are dated in it.
\<close>

definition year_10000 :: int where "year_10000 = 253402300800"

definition instants_exist :: "(int \<Rightarrow> DateTime option) \<Rightarrow> bool" where
  "instants_exist from_ts = (\<forall>s. 0 \<le> s \<and> s < year_10000 \<longrightarrow> from_ts s = Some (s * nanos))"

definition dated :: "Bar \<Rightarrow> bool" where
  "dated b = (0 \<le> bar_ts_open b \<and> bar_ts_open b < year_10000 * nanos)"

text \<open>The start of the window of an instant.\<close>

definition window_start :: "Timeframe \<Rightarrow> DateTime \<Rightarrow> DateTime" where
  "window_start tf ts = ts - ts mod (int (as_secs tf) * nanos)"

lemma as_secs_pos: "0 < as_secs tf"
  by (cases tf) simp_all

lemma align_is_window_start:
  assumes "instants_exist from_ts" "0 \<le> ts" "ts < year_10000 * nanos"
  shows "align_to_window from_ts ts tf = Ok (window_start tf ts)"
proof -
  have "ts mod (int (as_secs tf) * nanos) = nanos * (ts div nanos mod int (as_secs tf)) + ts mod nanos"
    unfolding mult.commute [of _ nanos] by (rule zmod_zmult2_eq) simp
  moreover have "ts = nanos * (ts div nanos) + ts mod nanos" by simp
  ultimately have w: "(timestamp ts - timestamp ts mod int (as_secs tf)) * nanos = window_start tf ts"
    by (simp add: window_start_def timestamp_def algebra_simps)
  have t: "0 \<le> timestamp ts" "timestamp ts < year_10000"
    using assms(2,3) by (simp_all add: timestamp_def nanos_def)
  have "0 \<le> timestamp ts mod int (as_secs tf)" "timestamp ts mod int (as_secs tf) \<le> timestamp ts"
    using as_secs_pos [of tf] t(1) by (simp_all add: zmod_le_nonneg_dividend)
  with t assms(1)
  have "from_ts (timestamp ts - timestamp ts mod int (as_secs tf)) = Some (window_start tf ts)"
    unfolding instants_exist_def w [symmetric] by simp
  with as_secs_pos [of tf] show ?thesis
    by (simp add: align_to_window_def tf_to_duration_def Let_def not_le)
qed

lemma window_start_mono: "x \<le> y \<Longrightarrow> window_start tf x \<le> window_start tf y"
proof -
  assume "x \<le> y"
  then have "x div (int (as_secs tf) * nanos) \<le> y div (int (as_secs tf) * nanos)"
    using as_secs_pos [of tf] by (intro zdiv_mono1) (simp_all add: nanos_def)
  then show ?thesis
    using as_secs_pos [of tf] unfolding window_start_def minus_mod_eq_mult_div
    by (simp add: nanos_def mult_left_mono)
qed

section \<open>The reference: bars grouped by window\<close>

text \<open>The maximal runs of neighbours with the same key.\<close>

function runs :: "('a \<Rightarrow> 'k) \<Rightarrow> 'a list \<Rightarrow> 'a list list" where
  "runs key [] = []"
| "runs key (x # xs) = (x # takeWhile (\<lambda>y. key y = key x) xs) # runs key (dropWhile (\<lambda>y. key y = key x) xs)"
  by pat_completeness auto
termination by (relation "measure (\<lambda>(_, xs). length xs)") (auto simp: le_imp_less_Suc length_dropWhile_le)

text \<open>The bar of one window: first open, last close, extremes, saturating sums.\<close>

definition window_bar :: "Timeframe \<Rightarrow> Bar list \<Rightarrow> Bar" where
  "window_bar tf bars =
    \<lparr> bar_symbol = bar_symbol (hd bars), bar_timeframe = tf,
      bar_ts_open = window_start tf (bar_ts_open (hd bars)),
      bar_ts_close = window_start tf (bar_ts_open (hd bars)) + int (as_secs tf) * nanos,
      bar_o = bar_o (hd bars),
      bar_h = foldl (\<lambda>h b. if f64_lt h (bar_h b) then bar_h b else h) (bar_h (hd bars)) (tl bars),
      bar_l = foldl (\<lambda>l b. if f64_lt (bar_l b) l then bar_l b else l) (bar_l (hd bars)) (tl bars),
      bar_c = bar_c (last bars),
      bar_volume = foldl (\<lambda>v b. saturating_add_u64 v (bar_volume b)) (bar_volume (hd bars)) (tl bars),
      bar_trade_count = foldl (\<lambda>n b. saturating_add_u32 n (bar_trade_count b)) (bar_trade_count (hd bars)) (tl bars),
      bar_wap = bar_wap (last bars), bar_completeness = PartialBar \<rparr>"

definition completed :: "Bar \<Rightarrow> Bar" where
  "completed bar = bar\<lparr> bar_completeness := CompletedBar \<rparr>"

definition windows :: "Timeframe \<Rightarrow> Bar list \<Rightarrow> Bar list list" where
  "windows tf bars = runs (\<lambda>b. window_start tf (bar_ts_open b)) bars"

end
