(* ===== verification/Market_Aggregator_Props.thy ===== *)
theory Market_Aggregator_Props imports Market_Aggregator begin

text \<open>
  The aggregator computes the bars of the windows: while it is not cut off from its upstream, what
  it sends as completed are the reference bars of all windows but the last, each once.
\<close>

section \<open>Runs of neighbours\<close>

lemma runs_eq_Nil [simp]: "runs key xs = [] \<longleftrightarrow> xs = []"
  by (cases xs) simp_all

lemma takeWhile_snoc:
  "takeWhile P (xs @ [x]) = takeWhile P xs @ (if (\<forall>y \<in> set xs. P y) \<and> P x then [x] else [])"
  by (induction xs) auto

lemma dropWhile_snoc:
  "dropWhile P (xs @ [x]) = (if \<forall>y \<in> set xs. P y then (if P x then [] else [x]) else dropWhile P xs @ [x])"
  by (induction xs) auto

lemma last_dropWhile: "dropWhile P xs \<noteq> [] \<Longrightarrow> last (dropWhile P xs) = last xs"
  by (induction xs) (auto split: if_splits)

lemma runs_snoc:
  "runs key (xs @ [x]) = (if xs \<noteq> [] \<and> key (last xs) = key x
     then butlast (runs key xs) @ [last (runs key xs) @ [x]] else runs key xs @ [[x]])"
proof (induction key xs rule: runs.induct)
  case (2 key y ys)
  show ?case
  proof (cases "\<forall>z \<in> set ys. key z = key y")
    case True
    then have "key (last (y # ys)) = key y" by (metis last.simps last_in_set)
    moreover have "takeWhile (\<lambda>z. key z = key y) ys = ys" "dropWhile (\<lambda>z. key z = key y) ys = []"
      using True by simp_all
    ultimately show ?thesis using True by (simp add: takeWhile_snoc dropWhile_snoc)
  next
    case False
    then have d: "dropWhile (\<lambda>z. key z = key y) ys \<noteq> []" by (auto simp: dropWhile_eq_Nil_conv)
    then have "last (dropWhile (\<lambda>z. key z = key y) ys) = last (y # ys)"
      using last_dropWhile [OF d] by (cases ys) auto
    with 2 False d show ?thesis by (auto simp: takeWhile_snoc dropWhile_snoc butlast_append)
  qed
qed simp

lemma hd_runs: "xs \<noteq> [] \<Longrightarrow> hd (runs key xs) \<noteq> [] \<and> hd (hd (runs key xs)) = hd xs"
  by (cases xs) simp_all

lemma runs_members: "r \<in> set (runs key xs) \<Longrightarrow> r \<noteq> [] \<and> set r \<subseteq> set xs \<and> (\<forall>y \<in> set r. key y = key (hd r))"
proof (induction key xs rule: runs.induct)
  case (2 key x xs)
  show ?case
  proof (cases "r = x # takeWhile (\<lambda>y. key y = key x) xs")
    case True
    then show ?thesis by (auto dest: set_takeWhileD)
  next
    case False
    with 2(2) have "r \<in> set (runs key (dropWhile (\<lambda>y. key y = key x) xs))" by simp
    from 2(1) [OF this] show ?thesis by (meson order_trans set_dropWhileD set_subset_Cons subsetI)
  qed
qed simp

lemma last_run:
  "xs \<noteq> [] \<Longrightarrow> last (runs key xs) \<noteq> [] \<and> key (hd (last (runs key xs))) = key (last xs)"
proof (induction xs rule: rev_induct)
  case (snoc x xs)
  show ?case
  proof (cases "xs \<noteq> [] \<and> key (last xs) = key x")
    case True
    with snoc.IH show ?thesis by (simp add: runs_snoc)
  next
    case False
    then have "runs key (xs @ [x]) = runs key xs @ [[x]]" using runs_snoc [of key xs x] by argo
    then show ?thesis by simp
  qed
qed simp

lemma runs_strictly_sorted:
  fixes key :: "'a \<Rightarrow> 'k::linorder"
  shows "sorted (map key xs) \<Longrightarrow> sorted_wrt (<) (map (\<lambda>r. key (hd r)) (runs key xs))"
proof (induction key xs rule: runs.induct)
  case (2 key x xs)
  let ?rest = "dropWhile (\<lambda>y. key y = key x) xs"
  have s: "sorted (map key ?rest)"
    using 2(2) by (simp add: sorted_wrt_map sorted_wrt_dropWhile)
  have above: "key x < key y" if y: "y \<in> set ?rest" for y
  proof -
    have ne: "?rest \<noteq> []" using y by (metis empty_iff list.set(1))
    have "key (hd ?rest) \<noteq> key x" using hd_dropWhile [OF ne] by simp
    moreover have "hd ?rest \<in> set xs" using hd_in_set [OF ne] by (rule set_dropWhileD)
    then have "key x \<le> key (hd ?rest)" using 2(2) by simp
    moreover have "key (hd ?rest) \<le> key y" using ne y s by (cases ?rest) auto
    ultimately show ?thesis by simp
  qed
  have "key x < key (hd r)" if "r \<in> set (runs key ?rest)" for r
    using runs_members [OF that] above by (metis hd_in_set subsetD)
  with 2(1) s show ?case by simp
qed simp

section \<open>The fold\<close>

lemma window_bar_single: "window_bar tf [x] = open_bar tf (window_start tf (bar_ts_open x)) x"
  by (simp add: window_bar_def open_bar_def tf_to_duration_def)

lemma window_bar_snoc: "bars \<noteq> [] \<Longrightarrow> fold_bar (window_bar tf bars) x = window_bar tf (bars @ [x])"
  by (simp add: window_bar_def fold_bar_def)

definition rt_bars :: "agg_input list \<Rightarrow> Bar list" where
  "rt_bars inputs = concat (map (\<lambda>i. case i of Upstream (Item b) \<Rightarrow> [b] | _ \<Rightarrow> []) inputs)"

text \<open>Nothing was missed, the upstream is open and somebody listens.\<close>

definition calm :: "agg_input \<Rightarrow> bool" where
  "calm i = (case i of Upstream (Item _) \<Rightarrow> True | Upstream _ \<Rightarrow> False | Coalesce receivers \<Rightarrow> 0 < receivers)"

definition completed_bars :: "Bar list \<Rightarrow> Bar list" where
  "completed_bars outs = filter (\<lambda>b. bar_completeness b = CompletedBar) outs"

lemma run_aggregator_snoc:
  "run_aggregator from_ts tf (is @ [i]) ag = (case run_aggregator from_ts tf is ag of (outs, fin, ag') \<Rightarrow>
     if fin then (outs, True, ag')
     else (case aggregator_step from_ts tf i ag' of (sent, fin', ag'') \<Rightarrow>
       (outs @ (case sent of None \<Rightarrow> [] | Some bar \<Rightarrow> [bar]), fin', ag'')))"
  by (induction "is" arbitrary: ag) (auto simp: Let_def split: prod.splits if_splits)

definition window_of :: "Timeframe \<Rightarrow> Bar \<Rightarrow> DateTime" where
  "window_of tf b = window_start tf (bar_ts_open b)"

text \<open>What the task holds after a run.\<close>

definition folded :: "Timeframe \<Rightarrow> Bar list \<Rightarrow> Bar list \<Rightarrow> Aggregator \<Rightarrow> bool" where
  "folded tf bars outs ag =
    (completed_bars outs = map (\<lambda>w. completed (window_bar tf w)) (butlast (windows tf bars))
     \<and> ag_current ag = (if bars = [] then None else Some (window_bar tf (last (windows tf bars)))))"

lemma windows_runs: "windows tf = runs (window_of tf)"
  by (rule ext) (simp add: windows_def window_of_def [abs_def])

lemma on_rt_bar_folded:
  assumes "instants_exist from_ts" "folded tf bars outs ag" "dated b"
  shows "\<exists>sent ag'. on_rt_bar from_ts tf b ag = (sent, False, ag')
    \<and> folded tf (bars @ [b]) (outs @ (case sent of None \<Rightarrow> [] | Some bar \<Rightarrow> [bar])) ag'"
proof (cases "bars = []")
  case True
  with assms show ?thesis
    by (simp add: on_rt_bar_def align_is_window_start dated_def folded_def windows_runs
        window_bar_single)
next
  case False
  let ?w = "last (windows tf bars)"
  note l = last_run [OF False, of "window_of tf", folded windows_runs]
  have cur: "ag_current ag = Some (window_bar tf ?w)" using assms(2) False by (simp add: folded_def)
  have ts: "bar_ts_open (window_bar tf ?w) = window_of tf (last bars)"
    using l by (simp add: window_bar_def window_of_def)
  have al: "align_to_window from_ts (bar_ts_open b) tf = Ok (window_of tf b)"
    using assms(3) by (simp add: align_is_window_start [OF assms(1)] dated_def window_of_def)
  have sofar: "completed_bars outs = map (\<lambda>w. completed (window_bar tf w)) (butlast (windows tf bars))"
    using assms(2) by (simp add: folded_def)
  show ?thesis
  proof (cases "window_of tf (last bars) = window_of tf b")
    case True
    have w: "windows tf (bars @ [b]) = butlast (windows tf bars) @ [?w @ [b]]"
      using True False by (simp add: windows_runs runs_snoc)
    have "on_rt_bar from_ts tf b ag = (None, False, ag\<lparr> ag_current := Some (fold_bar (window_bar tf ?w) b), ag_dirty := True \<rparr>)"
      using True by (simp add: on_rt_bar_def al cur ts)
    then show ?thesis using l sofar by (simp add: folded_def w window_bar_snoc)
  next
    case ne: False
    have w: "windows tf (bars @ [b]) = windows tf bars @ [[b]]"
      using ne by (simp add: windows_runs runs_snoc)
    have wn: "windows tf bars = butlast (windows tf bars) @ [?w]" using False by (simp add: windows_runs)
    have "on_rt_bar from_ts tf b ag = (Some (completed (window_bar tf ?w)), False,
        ag\<lparr> ag_current := Some (open_bar tf (window_of tf b) b),
            ag_last_bar := Some (completed (window_bar tf ?w)), ag_dirty := True \<rparr>)"
      using ne by (simp add: on_rt_bar_def al cur ts completed_def Let_def)
    moreover have "completed_bars (outs @ [completed (window_bar tf ?w)])
        = map (\<lambda>w. completed (window_bar tf w)) (windows tf bars)"
      by (subst wn) (simp add: completed_bars_def sofar [unfolded completed_bars_def] completed_def)
    ultimately show ?thesis
      by (simp add: folded_def w window_bar_single window_of_def)
  qed
qed

lemma on_coalesce_folded:
  assumes "0 < receivers" "folded tf bars outs ag"
  shows "\<exists>sent ag'. on_coalesce receivers ag = (sent, False, ag')
    \<and> folded tf bars (outs @ (case sent of None \<Rightarrow> [] | Some bar \<Rightarrow> [bar])) ag'"
  using assms
  by (auto simp: on_coalesce_def folded_def Let_def completed_bars_def window_bar_def)

lemma aggregator_completes:
  assumes "instants_exist from_ts" "\<forall>i \<in> set inputs. calm i" "\<forall>b \<in> set (rt_bars inputs). dated b"
  shows "\<exists>outs ag. run_aggregator from_ts tf inputs Aggregator_new = (outs, False, ag)
    \<and> completed_bars outs = map (\<lambda>w. completed (window_bar tf w)) (butlast (windows tf (rt_bars inputs)))
    \<and> ag_current ag = (if rt_bars inputs = [] then None
        else Some (window_bar tf (last (windows tf (rt_bars inputs)))))"
proof -
  have "\<exists>outs ag. run_aggregator from_ts tf inputs Aggregator_new = (outs, False, ag)
      \<and> folded tf (rt_bars inputs) outs ag"
    using assms(2,3)
  proof (induction inputs rule: rev_induct)
    case Nil
    then show ?case by (simp add: folded_def completed_bars_def windows_def rt_bars_def Aggregator_new_def)
  next
    case (snoc i inputs)
    from snoc.prems(2) have before: "\<forall>b \<in> set (rt_bars inputs). dated b"
      and new: "\<And>b. i = Upstream (Item b) \<Longrightarrow> dated b"
      by (auto simp: rt_bars_def)
    from snoc before obtain outs ag where r: "run_aggregator from_ts tf inputs Aggregator_new = (outs, False, ag)"
      and f: "folded tf (rt_bars inputs) outs ag" by auto
    have c: "calm i" using snoc.prems by simp
    have "\<exists>sent ag'. aggregator_step from_ts tf i ag = (sent, False, ag')
        \<and> folded tf (rt_bars (inputs @ [i])) (outs @ (case sent of None \<Rightarrow> [] | Some bar \<Rightarrow> [bar])) ag'"
      using c f new on_rt_bar_folded [OF assms(1) f] on_coalesce_folded [OF _ f]
      by (auto simp: aggregator_step_def calm_def rt_bars_def split: agg_input.splits upstream_item.splits)
    with r show ?case by (auto simp: run_aggregator_snoc)
  qed
  then show ?thesis by (auto simp: folded_def)
qed

text \<open>C11: While the aggregator misses nothing and somebody listens, and its bars are dated within
  the years 1970 to 9999, for which the date library builds every instant, it keeps running, and
  the bars it sends as completed are exactly the reference bars of the windows closed so far:
  upstream bars grouped by window, first open, highest high, lowest low, last close, saturating
  sums. The bar it is building is the reference bar of the last window.\<close>

theorem aggregator_computes_windows:
  assumes "instants_exist from_ts" "\<forall>i \<in> set inputs. calm i" "\<forall>b \<in> set (rt_bars inputs). dated b"
  shows "\<exists>outs ag. run_aggregator from_ts tf inputs Aggregator_new = (outs, False, ag)
    \<and> completed_bars outs = map (\<lambda>w. completed (window_bar tf w)) (butlast (windows tf (rt_bars inputs)))
    \<and> ag_current ag = (if rt_bars inputs = [] then None
        else Some (window_bar tf (last (windows tf (rt_bars inputs)))))"
  by (rule aggregator_completes [OF assms])

text \<open>When the upstream bars come in order of time, the completed bars come in strictly increasing
  order of their windows, so that no window is completed twice.\<close>

lemma windows_complete_once:
  assumes "instants_exist from_ts" "\<forall>i \<in> set inputs. calm i" "\<forall>b \<in> set (rt_bars inputs). dated b"
    and "sorted (map bar_ts_open (rt_bars inputs))"
    and "run_aggregator from_ts tf inputs Aggregator_new = (outs, fin, ag)"
  shows "sorted_wrt (<) (map bar_ts_open (completed_bars outs))"
proof -
  obtain outs' ag' where r: "run_aggregator from_ts tf inputs Aggregator_new = (outs', False, ag')"
    and c: "completed_bars outs' = map (\<lambda>w. completed (window_bar tf w)) (butlast (windows tf (rt_bars inputs)))"
    using aggregator_completes [OF assms(1-3)] by blast
  have "sorted (map (window_of tf) (rt_bars inputs))"
    using assms(4) window_start_mono by (fastforce simp: sorted_wrt_map window_of_def elim!: sorted_wrt_mono_rel [rotated])
  then have "sorted_wrt (<) (map (\<lambda>w. window_of tf (hd w)) (windows tf (rt_bars inputs)))"
    unfolding windows_runs by (rule runs_strictly_sorted)
  then have "sorted_wrt (<) (butlast (map (\<lambda>w. window_of tf (hd w)) (windows tf (rt_bars inputs))))"
    by (metis append_butlast_last_id butlast.simps(1) sorted_wrt_append)
  moreover have "map bar_ts_open (completed_bars outs)
      = butlast (map (\<lambda>w. window_of tf (hd w)) (windows tf (rt_bars inputs)))"
    using r assms(5) c by (simp add: map_butlast [symmetric] completed_def window_bar_def window_of_def comp_def)
  ultimately show ?thesis by simp
qed

section \<open>The theorems at work\<close>

definition example_bar :: "int \<Rightarrow> Bar" where
  "example_bar secs = \<lparr> bar_symbol = \<lparr> sk_contract_id = 1, sk_symbol = ''A'' \<rparr>, bar_timeframe = S5,
     bar_ts_open = secs * nanos, bar_ts_close = (secs + 5) * nanos, bar_o = f64_one, bar_h = f64_one,
     bar_l = f64_one, bar_c = f64_one, bar_volume = 10, bar_trade_count = 2, bar_wap = None,
     bar_completeness = CompletedBar \<rparr>"

definition example_inputs :: "agg_input list" where
  "example_inputs = [Upstream (Item (example_bar 0)), Coalesce 1, Upstream (Item (example_bar 55)),
     Upstream (Item (example_bar 60))]"

text \<open>A date library with a range like chrono's: no instants before year 0 or after year 9999.\<close>

definition ranged_instants :: "int \<Rightarrow> DateTime option" where
  "ranged_instants s = (if -62167219200 \<le> s \<and> s < year_10000 then Some (s * nanos) else None)"

lemma example_calm: "instants_exist ranged_instants" "\<forall>i \<in> set example_inputs. calm i"
  "\<forall>b \<in> set (rt_bars example_inputs). dated b"
  "rt_bars example_inputs = [example_bar 0, example_bar 55, example_bar 60]"
  "windows M1 [example_bar 0, example_bar 55, example_bar 60] = [[example_bar 0, example_bar 55], [example_bar 60]]"
  by (simp_all add: instants_exist_def ranged_instants_def example_inputs_def calm_def rt_bars_def
      dated_def year_10000_def windows_def example_bar_def window_start_def nanos_def)

lemma aggregator_computes_windows_witness:
  "\<exists>outs ag. run_aggregator ranged_instants M1 example_inputs Aggregator_new = (outs, False, ag)
     \<and> map bar_volume (completed_bars outs) = [20] \<and> ag_current ag \<noteq> None"
proof -
  obtain outs ag where r: "run_aggregator ranged_instants M1 example_inputs Aggregator_new = (outs, False, ag)"
    and c: "completed_bars outs = map (\<lambda>w. completed (window_bar M1 w)) (butlast (windows M1 (rt_bars example_inputs)))"
    and g: "ag_current ag = (if rt_bars example_inputs = [] then None
        else Some (window_bar M1 (last (windows M1 (rt_bars example_inputs)))))"
    using aggregator_computes_windows [OF example_calm(1-3), of M1] by blast
  have "bar_volume (completed (window_bar M1 [example_bar 0, example_bar 55])) = 20"
    by (simp add: completed_def window_bar_def example_bar_def saturating_add_u64_def)
  with r c g show ?thesis by (simp add: example_calm)
qed

lemma windows_complete_once_witness:
  "sorted_wrt (<) (map bar_ts_open (completed_bars (fst (run_aggregator ranged_instants M1 example_inputs Aggregator_new))))"
proof -
  obtain outs fin ag where r: "run_aggregator ranged_instants M1 example_inputs Aggregator_new = (outs, fin, ag)"
    by (cases "run_aggregator ranged_instants M1 example_inputs Aggregator_new")
  have "sorted (map bar_ts_open (rt_bars example_inputs))"
    by (simp add: example_calm example_bar_def nanos_def)
  from windows_complete_once [OF example_calm(1-3) this r] r show ?thesis by simp
qed

end
