(* ===== verification/Bars_Aggregator.thy ===== *)
theory Bars_Aggregator imports Bars_Series Market_Aggregator_Props begin

text \<open>
  The session-aware bar aggregator of \<open>crates/midas-bars-adapter/src/aggregator\<close> (\<open>core.rs\<close>,
  \<open>config.rs\<close>, \<open>stream.rs\<close>): trade ticks folded into the bar of the calendar's window. \<open>None\<close> is a panic
  of one of its \<open>expect\<close>s. What the clock shows is an argument of each call: the monotonic readings of
  \<open>accept_tick\<close>, in nanoseconds, in the order it takes them. A trade folded into the bar has a pair of
  readings, one for the throttle and one for the emission; where the throttle does not look at the clock
  (a rate of zero, or no emission yet) the one reading the code takes is the second of the pair.
\<close>

section \<open>Configuration and state\<close>

definition DEFAULT_PARTIAL_EMIT_RATE_HZ :: u32 where "DEFAULT_PARTIAL_EMIT_RATE_HZ = 4"

record AggregatorConfig =
  ac_symbol :: Symbol
  ac_calendar :: ExchangeCalendar
  ac_period :: BarPeriod
  ac_partial_emit_rate_hz :: u32

definition AggregatorConfig_new :: "Symbol \<Rightarrow> ExchangeCalendar \<Rightarrow> BarPeriod \<Rightarrow> AggregatorConfig" where
  "AggregatorConfig_new symbol calendar period =
     \<lparr> ac_symbol = symbol, ac_calendar = calendar, ac_period = period,
       ac_partial_emit_rate_hz = DEFAULT_PARTIAL_EMIT_RATE_HZ \<rparr>"

definition with_partial_emit_rate_hz :: "AggregatorConfig \<Rightarrow> u32 \<Rightarrow> AggregatorConfig" where
  "with_partial_emit_rate_hz cfg hz = cfg\<lparr> ac_partial_emit_rate_hz := hz \<rparr>"

datatype AggregatorOutput =
    Ignored
  | Folded
  | PartialOut Candle
  | OpenedOut Candle
  | ClosedOut Candle
  | Rollover Candle Candle

record InProgressBar =
  ip_window :: BarWindow
  ip_o :: f64
  ip_h :: f64
  ip_l :: f64
  ip_c :: f64
  ip_volume :: u64
  ip_trade_count :: u32
  ip_vwap_num :: f64
  ip_vwap_den :: u64
  ip_first_tick_ts :: Timestamp

record SessionedBarAggregator =
  sa_current :: "InProgressBar option"
  sa_last_partial_emit :: "nat option"

definition aggregator_new :: "AggregatorConfig \<Rightarrow> (SessionedBarAggregator, CalendarError) rust_result" where
  "aggregator_new cfg =
     (case cal_validate_period (ac_calendar cfg) (ac_period cfg) of
        Inl e \<Rightarrow> Err e
      | Inr _ \<Rightarrow> Ok \<lparr> sa_current = None, sa_last_partial_emit = None \<rparr>)"

section \<open>The bar in progress\<close>

definition ip_wap :: "InProgressBar \<Rightarrow> f64 option" where
  "ip_wap inp = (if ip_vwap_den inp = 0 then None
     else Some (f64_div (ip_vwap_num inp) (f64_of_int (uint (ip_vwap_den inp)))))"

definition to_candle :: "AggregatorConfig \<Rightarrow> Completeness \<Rightarrow> InProgressBar \<Rightarrow> Candle option" where
  "to_candle cfg completeness inp =
     (let wap = (case ip_wap inp of
                   Some w \<Rightarrow> if f64_is_finite w \<and> f64_ge w (ip_l inp) \<and> f64_le w (ip_h inp) then Some w else None
                 | None \<Rightarrow> None)
      in case Ohlcv_new (ip_o inp) (ip_h inp) (ip_l inp) (ip_c inp) (ip_volume inp) (ip_trade_count inp) wap of
           Inl _ \<Rightarrow> None
         | Inr ohlcv \<Rightarrow>
             (case Candle_new (ac_symbol cfg) (ac_calendar cfg) (ac_period cfg) (bw_session (ip_window inp))
                     (ip_window inp) ohlcv completeness of
                Inl _ \<Rightarrow> None
              | Inr candle \<Rightarrow> Some candle))"

text \<open>\<open>i64::MAX / 2\<close>.\<close>

definition MAX_TRADE_SIZE :: int where "MAX_TRADE_SIZE = 2 ^ 62 - 1"

definition sane_price_size :: "f64 \<Rightarrow> i64 \<Rightarrow> (f64 \<times> u64) option" where
  "sane_price_size price qty =
     (if \<not> f64_is_finite price then None
      else if sint qty < 0 then Some (price, 0)
      else if sint qty > MAX_TRADE_SIZE then None
      else Some (price, qty))"

definition extract_trade :: "Tick \<Rightarrow> (f64 \<times> u64) option" where
  "extract_trade tick =
     (case (tk_kind tick, tk_type tick, tk_value tick) of
        (PriceSizeKind, LastTick, PriceSizeVal price qty) \<Rightarrow> sane_price_size price qty
      | (PriceKind, LastTick, PriceVal p) \<Rightarrow> if f64_is_finite p then Some (p, 0) else None
      | _ \<Rightarrow> None)"

definition new_bar :: "BarWindow \<Rightarrow> f64 \<Rightarrow> u64 \<Rightarrow> Timestamp \<Rightarrow> InProgressBar" where
  "new_bar window price qty ts =
     \<lparr> ip_window = window, ip_o = price, ip_h = price, ip_l = price, ip_c = price, ip_volume = qty,
       ip_trade_count = 1,
       ip_vwap_num = (if qty = 0 then f64_zero else f64_mul price (f64_of_int (uint qty))),
       ip_vwap_den = (if qty = 0 then 0 else qty), ip_first_tick_ts = ts \<rparr>"

definition fold_trade :: "f64 \<Rightarrow> u64 \<Rightarrow> InProgressBar \<Rightarrow> InProgressBar" where
  "fold_trade price qty inp =
     (let inp = inp\<lparr> ip_h := (if f64_gt price (ip_h inp) then price else ip_h inp),
                    ip_l := (if f64_lt price (ip_l inp) then price else ip_l inp),
                    ip_c := price, ip_trade_count := saturating_add_u32 (ip_trade_count inp) 1 \<rparr>
      in if qty > 0
         then inp\<lparr> ip_volume := saturating_add_u64 (ip_volume inp) qty,
                   ip_vwap_num := f64_add (ip_vwap_num inp) (f64_mul price (f64_of_int (uint qty))),
                   ip_vwap_den := saturating_add_u64 (ip_vwap_den inp) qty \<rparr>
         else inp)"

section \<open>The aggregator\<close>

definition should_emit_partial :: "AggregatorConfig \<Rightarrow> nat \<Rightarrow> SessionedBarAggregator \<Rightarrow> bool" where
  "should_emit_partial cfg now ag =
     (if ac_partial_emit_rate_hz cfg = 0 then True
      else case sa_last_partial_emit ag of
             None \<Rightarrow> True
           | Some prev \<Rightarrow> now - prev \<ge> 1000000000 div unat (ac_partial_emit_rate_hz cfg))"

definition current_candle :: "AggregatorConfig \<Rightarrow> Completeness \<Rightarrow> SessionedBarAggregator \<Rightarrow> Candle option" where
  "current_candle cfg completeness ag =
     (case sa_current ag of None \<Rightarrow> None | Some inp \<Rightarrow> to_candle cfg completeness inp)"

definition close_current_as_completed ::
  "AggregatorConfig \<Rightarrow> SessionedBarAggregator \<Rightarrow> (Candle \<times> SessionedBarAggregator) option" where
  "close_current_as_completed cfg ag =
     (case sa_current ag of
        None \<Rightarrow> None
      | Some inp \<Rightarrow>
          (case to_candle cfg Completed inp of
             None \<Rightarrow> None
           | Some candle \<Rightarrow> Some (candle, ag\<lparr> sa_current := None, sa_last_partial_emit := None \<rparr>)))"

definition snapshot_current_partial :: "AggregatorConfig \<Rightarrow> SessionedBarAggregator \<Rightarrow> Candle option option" where
  "snapshot_current_partial cfg ag =
     (case sa_current ag of
        None \<Rightarrow> Some None
      | Some inp \<Rightarrow> (case to_candle cfg Partial inp of None \<Rightarrow> None | Some c \<Rightarrow> Some (Some c)))"

definition accept_tick ::
  "AggregatorConfig \<Rightarrow> Tick \<Rightarrow> nat \<times> nat \<Rightarrow> SessionedBarAggregator
   \<Rightarrow> (AggregatorOutput \<times> SessionedBarAggregator) option" where
  "accept_tick cfg tick clock ag =
     (case extract_trade tick of
        None \<Rightarrow> Some (Ignored, ag)
      | Some (price, qty) \<Rightarrow>
          (case cal_bar_window (ac_calendar cfg) (tk_ts tick) (ac_period cfg) of
             Inl _ \<Rightarrow> Some (Ignored, ag)
           | Inr window \<Rightarrow>
               (case sa_current ag of
                  None \<Rightarrow>
                    (let ag = ag\<lparr> sa_current := Some (new_bar window price qty (tk_ts tick)) \<rparr> in
                     case current_candle cfg Partial ag of
                       None \<Rightarrow> None
                     | Some candle \<Rightarrow> Some (OpenedOut candle, ag\<lparr> sa_last_partial_emit := Some (fst clock) \<rparr>))
                | Some inp \<Rightarrow>
                    if ip_window inp = window
                    then (let ag = ag\<lparr> sa_current := Some (fold_trade price qty inp) \<rparr> in
                          if should_emit_partial cfg (fst clock) ag
                          then (let ag = ag\<lparr> sa_last_partial_emit := Some (snd clock) \<rparr> in
                                case current_candle cfg Partial ag of
                                  None \<Rightarrow> None
                                | Some candle \<Rightarrow> Some (PartialOut candle, ag))
                          else Some (Folded, ag))
                    else (case close_current_as_completed cfg ag of
                            None \<Rightarrow> None
                          | Some (closed_candle, ag) \<Rightarrow>
                              (let ag = ag\<lparr> sa_current := Some (new_bar window price qty (tk_ts tick)) \<rparr> in
                               case current_candle cfg Partial ag of
                                 None \<Rightarrow> None
                               | Some opened \<Rightarrow>
                                   Some (Rollover closed_candle opened,
                                         ag\<lparr> sa_last_partial_emit := Some (fst clock) \<rparr>))))))"

text \<open>\<open>flush_if_due\<close> at wall-clock time \<open>now\<close>.\<close>

definition flush_if_due ::
  "AggregatorConfig \<Rightarrow> Timestamp \<Rightarrow> SessionedBarAggregator \<Rightarrow> (Candle option \<times> SessionedBarAggregator) option" where
  "flush_if_due cfg now ag =
     (let due = (case sa_current ag of None \<Rightarrow> False | Some c \<Rightarrow> now \<ge> bw_close (ip_window c)) in
      if due
      then (case close_current_as_completed cfg ag of None \<Rightarrow> None | Some (c, ag) \<Rightarrow> Some (Some c, ag))
      else Some (None, ag))"

section \<open>The stream\<close>

text \<open>What one output puts out: the candle returned at once, and those queued for the next calls.\<close>

fun candles_of :: "AggregatorOutput \<Rightarrow> Candle list" where
  "candles_of Ignored = []"
| "candles_of Folded = []"
| "candles_of (PartialOut c) = [c]"
| "candles_of (OpenedOut c) = [c]"
| "candles_of (ClosedOut c) = [c]"
| "candles_of (Rollover closed_candle opened) = [closed_candle, opened]"

text \<open>
  \<open>next\<close> of the stream: \<open>pending\<close> is its queue, \<open>ticks\<close> what the channel will still deliver, each with
  the clock readings at its arrival. The outer \<open>None\<close> is a panic, the inner one the end of the stream.
\<close>

fun stream_next ::
  "AggregatorConfig \<Rightarrow> Candle list \<Rightarrow> (Tick \<times> nat \<times> nat) list \<Rightarrow> SessionedBarAggregator
   \<Rightarrow> (Candle option \<times> Candle list \<times> (Tick \<times> nat \<times> nat) list \<times> SessionedBarAggregator) option" where
  "stream_next cfg (c # pending) ticks ag = Some (Some c, pending, ticks, ag)"
| "stream_next cfg [] [] ag = Some (None, [], [], ag)"
| "stream_next cfg [] ((tick, clock) # ticks) ag =
     (case accept_tick cfg tick clock ag of
        None \<Rightarrow> None
      | Some (out, ag') \<Rightarrow>
          (case candles_of out of
             [] \<Rightarrow> stream_next cfg [] ticks ag'
           | c # pending \<Rightarrow> Some (Some c, pending, ticks, ag')))"

end
