(* ===== verification/Bars_Aggregator_Props.thy ===== *)
theory Bars_Aggregator_Props imports Bars_Aggregator begin

text \<open>
  What the session-aware aggregator computes: on any calendar that keeps the contract it never panics,
  its candles are valid, and they are the reference bars of the runs of trades of one window. Between two
  sessions of one clock window, and after an early flush, the bars it closes share their opening
  with the bars it opens, so that the series of the chart loses them.
\<close>

section \<open>Candles are valid\<close>

definition emitted_wap :: "InProgressBar \<Rightarrow> f64 option" where
  "emitted_wap inp =
     (case ip_wap inp of
        Some w \<Rightarrow> if f64_is_finite w \<and> f64_ge w (ip_l inp) \<and> f64_le w (ip_h inp) then Some w else None
      | None \<Rightarrow> None)"

definition candle_view :: "AggregatorConfig \<Rightarrow> Completeness \<Rightarrow> InProgressBar \<Rightarrow> Candle" where
  "candle_view cfg completeness inp =
     \<lparr> ca_symbol = ac_symbol cfg, ca_calendar = cal_id (ac_calendar cfg), ca_period = ac_period cfg,
       ca_session = bw_session (ip_window inp), ca_window = ip_window inp, ca_o = ip_o inp, ca_h = ip_h inp,
       ca_l = ip_l inp, ca_c = ip_c inp, ca_volume = ip_volume inp, ca_trade_count = ip_trade_count inp,
       ca_wap = emitted_wap inp, ca_completeness = completeness \<rparr>"

definition bar_good :: "CalendarId \<Rightarrow> InProgressBar \<Rightarrow> bool" where
  "bar_good cid inp =
     (prices_ok (ip_o inp) (ip_h inp) (ip_l inp) (ip_c inp) None \<and> ses_calendar (bw_session (ip_window inp)) = cid)"

lemma bar_good_prices: "bar_good cid inp \<Longrightarrow> prices_ok (ip_o inp) (ip_h inp) (ip_l inp) (ip_c inp) (emitted_wap inp)"
  by (auto simp: bar_good_def prices_ok_def emitted_wap_def split: option.splits)

lemma to_candle_good:
  assumes "bar_good (cal_id (ac_calendar cfg)) inp" and "sy_calendar (ac_symbol cfg) = cal_id (ac_calendar cfg)"
  shows "to_candle cfg k inp = Some (candle_view cfg k inp) \<and> candle_ok (candle_view cfg k inp)"
proof -
  note p = bar_good_prices [OF assms(1)]
  have "ses_calendar (bw_session (ip_window inp)) = cal_id (ac_calendar cfg)" using assms(1) by (simp add: bar_good_def)
  with assms(2) p show ?thesis
    by (simp add: to_candle_def candle_view_def candle_ok_def Candle_new_def Ohlcv_new_value [OF p]
        emitted_wap_def [symmetric] Let_def)
qed

lemma new_bar_good: "f64_is_finite price \<Longrightarrow> ses_calendar (bw_session window) = cid \<Longrightarrow> bar_good cid (new_bar window price qty ts)"
  by (simp add: bar_good_def new_bar_def prices_ok_def f64_le_refl)

lemma fold_trade_good:
  assumes "bar_good cid inp" "f64_is_finite price"
  shows "bar_good cid (fold_trade price qty inp)"
  using assms
  by (auto simp: bar_good_def fold_trade_def prices_ok_def Let_def f64_lt_def f64_le_def f64_finite_not_nan)

lemma fold_trade_window [simp]: "ip_window (fold_trade price qty inp) = ip_window inp"
  by (simp add: fold_trade_def Let_def)

lemma new_bar_view [simp]:
  "ip_window (new_bar w p q t) = w" "ip_o (new_bar w p q t) = p" "ip_c (new_bar w p q t) = p"
  "ip_trade_count (new_bar w p q t) = 1"
  by (simp_all add: new_bar_def)

lemma extract_trade_finite: "extract_trade tick = Some (price, qty) \<Longrightarrow> f64_is_finite price"
  by (auto simp: extract_trade_def sane_price_size_def split: TickKind.splits TickType.splits TickValue.splits if_splits)

section \<open>The reference: one bar per run of trades\<close>

text \<open>The trades that count: those with a window of the calendar.\<close>

definition trade_of :: "AggregatorConfig \<Rightarrow> Tick \<Rightarrow> (BarWindow \<times> f64 \<times> u64 \<times> Timestamp) option" where
  "trade_of cfg tick =
     (case extract_trade tick of
        None \<Rightarrow> None
      | Some (price, qty) \<Rightarrow>
          (case cal_bar_window (ac_calendar cfg) (tk_ts tick) (ac_period cfg) of
             Inl _ \<Rightarrow> None
           | Inr window \<Rightarrow> Some (window, price, qty, tk_ts tick)))"

definition trades :: "AggregatorConfig \<Rightarrow> Tick list \<Rightarrow> (BarWindow \<times> f64 \<times> u64 \<times> Timestamp) list" where
  "trades cfg ticks = List.map_filter (trade_of cfg) ticks"

fun bar_of :: "(BarWindow \<times> f64 \<times> u64 \<times> Timestamp) list \<Rightarrow> InProgressBar" where
  "bar_of [] = new_bar undefined 0 0 0"
| "bar_of ((w, p, q, t) # ts) = foldl (\<lambda>b (_, p, q, _). fold_trade p q b) (new_bar w p q t) ts"

lemma bar_of_single: "bar_of [(w, p, q, t)] = new_bar w p q t"
  by simp

lemma bar_of_snoc: "ts \<noteq> [] \<Longrightarrow> bar_of (ts @ [(w, p, q, t)]) = fold_trade p q (bar_of ts)"
  by (cases ts) auto

definition window_key :: "BarWindow \<times> f64 \<times> u64 \<times> Timestamp \<Rightarrow> BarWindow" where
  "window_key tr = fst tr"

definition trade_runs :: "AggregatorConfig \<Rightarrow> Tick list \<Rightarrow> (BarWindow \<times> f64 \<times> u64 \<times> Timestamp) list list" where
  "trade_runs cfg ticks = runs window_key (trades cfg ticks)"

lemma trades_Nil [simp]: "trades cfg [] = []"
  by (simp add: trades_def map_filter_simps)

lemma trades_snoc: "trades cfg (ticks @ [tick]) = trades cfg ticks @ (case trade_of cfg tick of None \<Rightarrow> [] | Some tr \<Rightarrow> [tr])"
  by (simp add: trades_def map_filter_def split: option.splits)

lemma bar_of_window: "ts \<noteq> [] \<Longrightarrow> ip_window (bar_of ts) = window_key (hd ts)"
proof (induction ts rule: rev_induct)
  case (snoc x xs)
  then show ?case
    by (cases "xs = []"; cases x) (simp_all add: bar_of_single bar_of_snoc new_bar_def window_key_def del: bar_of.simps)
qed simp

text \<open>A run of the aggregator over ticks and clock readings: its outputs and the state it leaves.\<close>

fun run_ticks ::
  "AggregatorConfig \<Rightarrow> (Tick \<times> nat \<times> nat) list \<Rightarrow> SessionedBarAggregator
   \<Rightarrow> (AggregatorOutput list \<times> SessionedBarAggregator) option" where
  "run_ticks cfg [] ag = Some ([], ag)"
| "run_ticks cfg ((tick, clock) # ticks) ag =
     (case accept_tick cfg tick clock ag of
        None \<Rightarrow> None
      | Some (out, ag') \<Rightarrow>
          (case run_ticks cfg ticks ag' of None \<Rightarrow> None | Some (outs, ag'') \<Rightarrow> Some (out # outs, ag'')))"

lemma run_ticks_snoc:
  "run_ticks cfg (xs @ [(tick, clock)]) ag =
     (case run_ticks cfg xs ag of
        None \<Rightarrow> None
      | Some (outs, ag') \<Rightarrow>
          (case accept_tick cfg tick clock ag' of None \<Rightarrow> None | Some (out, ag'') \<Rightarrow> Some (outs @ [out], ag'')))"
  by (induction xs arbitrary: ag) (auto split: option.splits)

definition completed_candles :: "AggregatorOutput list \<Rightarrow> Candle list" where
  "completed_candles outs = filter (\<lambda>c. ca_completeness c = Completed) (concat (map candles_of outs))"

definition fresh :: SessionedBarAggregator where
  "fresh = \<lparr> sa_current = None, sa_last_partial_emit = None \<rparr>"

text \<open>What holds after a run over \<open>ticks\<close>.\<close>

definition tracked :: "AggregatorConfig \<Rightarrow> Tick list \<Rightarrow> AggregatorOutput list \<Rightarrow> SessionedBarAggregator \<Rightarrow> bool" where
  "tracked cfg ticks outs ag =
     (completed_candles outs = map (\<lambda>r. candle_view cfg Completed (bar_of r)) (butlast (trade_runs cfg ticks))
      \<and> sa_current ag = (if trades cfg ticks = [] then None else Some (bar_of (last (trade_runs cfg ticks))))
      \<and> (\<forall>r \<in> set (trade_runs cfg ticks). bar_good (cal_id (ac_calendar cfg)) (bar_of r))
      \<and> (\<forall>c \<in> set (concat (map candles_of outs)). candle_ok c))"

lemma trade_of_good:
  assumes "exchange_calendar (ac_calendar cfg)" "trade_of cfg tick = Some (w, p, q, t)"
  shows "f64_is_finite p \<and> ses_calendar (bw_session w) = cal_id (ac_calendar cfg)"
  using assms extract_trade_finite [of tick] exchange_calendar.window_calendar [OF assms(1)]
  by (auto simp: trade_of_def split: option.splits sum.splits)

lemma candle_view_completeness [simp]: "ca_completeness (candle_view cfg k inp) = k"
  by (simp add: candle_view_def)

lemma accept_trade_tracked:
  assumes cal: "exchange_calendar (ac_calendar cfg)" and sym: "sy_calendar (ac_symbol cfg) = cal_id (ac_calendar cfg)"
    and tr: "tracked cfg ticks outs ag" and t: "trade_of cfg tick = Some (w, p, q, ts)"
  shows "\<exists>out ag'. accept_tick cfg tick clock ag = Some (out, ag') \<and> tracked cfg (ticks @ [tick]) (outs @ [out]) ag'"
proof -
  have ext: "extract_trade tick = Some (p, q)" "cal_bar_window (ac_calendar cfg) (tk_ts tick) (ac_period cfg) = Ok w"
    and ts: "ts = tk_ts tick"
    using t by (auto simp: trade_of_def split: option.splits sum.splits)
  note good = trade_of_good [OF cal t]
  have nb: "bar_good (cal_id (ac_calendar cfg)) (new_bar w p q (tk_ts tick))" using good by (auto intro: new_bar_good)
  note view = to_candle_good [OF _ sym]
  have trs: "trades cfg (ticks @ [tick]) = trades cfg ticks @ [(w, p, q, tk_ts tick)]"
    by (simp add: trades_snoc t ts)
  show ?thesis
  proof (cases "trades cfg ticks = []")
    case True
    then have cur: "sa_current ag = None" and runs: "trade_runs cfg (ticks @ [tick]) = [[(w, p, q, tk_ts tick)]]"
      using tr by (simp_all add: tracked_def trade_runs_def trs)
    from True tr have "completed_candles outs = []" by (simp add: tracked_def trade_runs_def)
    with cur runs tr nb view [OF nb, of Partial] show ?thesis
      by (simp add: accept_tick_def ext current_candle_def tracked_def trs completed_candles_def)
  next
    case False
    let ?rs = "trade_runs cfg ticks" let ?r = "last ?rs"
    have rs: "?rs \<noteq> []" using False by (simp add: trade_runs_def)
    have r: "?r \<in> set ?rs" "?r \<noteq> []" and key: "window_key (hd ?r) = window_key (last (trades cfg ticks))"
      using rs last_run [OF False, of window_key] by (simp_all add: trade_runs_def)
    have cur: "sa_current ag = Some (bar_of ?r)" using tr False by (simp add: tracked_def)
    have gr: "bar_good (cal_id (ac_calendar cfg)) (bar_of ?r)" using tr r(1) by (simp add: tracked_def)
    have win: "ip_window (bar_of ?r) = window_key (last (trades cfg ticks))" using bar_of_window [OF r(2)] key by simp
    show ?thesis
    proof (cases "window_key (last (trades cfg ticks)) = w")
      case True
      have runs: "trade_runs cfg (ticks @ [tick]) = butlast ?rs @ [?r @ [(w, p, q, tk_ts tick)]]"
        using True False by (simp add: trade_runs_def trs runs_snoc window_key_def)
      have bar: "bar_of (?r @ [(w, p, q, tk_ts tick)]) = fold_trade p q (bar_of ?r)" by (rule bar_of_snoc [OF r(2)])
      have gf: "bar_good (cal_id (ac_calendar cfg)) (fold_trade p q (bar_of ?r))"
        using fold_trade_good [OF gr] good by blast
      have rest: "\<forall>r \<in> set (butlast ?rs). bar_good (cal_id (ac_calendar cfg)) (bar_of r)"
        using tr in_set_butlastD by (fastforce simp: tracked_def)
      from True win cur view [OF gf, of Partial] tr rest gf show ?thesis
        by (auto simp: accept_tick_def ext current_candle_def tracked_def trs runs bar completed_candles_def Let_def)
    next
      case ne: False
      have runs: "trade_runs cfg (ticks @ [tick]) = ?rs @ [[(w, p, q, tk_ts tick)]]"
        using ne False by (simp add: trade_runs_def trs runs_snoc window_key_def)
      have whole: "map f ?rs = map f (butlast ?rs) @ [f ?r]" for f :: "_ \<Rightarrow> Candle"
        using rs by (metis append_butlast_last_id list.simps(8,9) map_append)
      have step: "accept_tick cfg tick clock ag =
          Some (Rollover (candle_view cfg Completed (bar_of ?r)) (candle_view cfg Partial (new_bar w p q (tk_ts tick))),
            ag\<lparr> sa_current := Some (new_bar w p q (tk_ts tick)), sa_last_partial_emit := Some (fst clock) \<rparr>)"
        using ne win cur view [OF gr, of Completed] view [OF nb, of Partial]
        by (simp add: accept_tick_def ext close_current_as_completed_def current_candle_def Let_def)
      show ?thesis
        unfolding step using tr nb view [OF gr, of Completed] view [OF nb, of Partial]
        by (auto simp: tracked_def trs runs completed_candles_def whole)
    qed
  qed
qed

lemma accept_other_tracked:
  assumes "tracked cfg ticks outs ag" "trade_of cfg tick = None"
  shows "\<exists>out ag'. accept_tick cfg tick clock ag = Some (out, ag') \<and> tracked cfg (ticks @ [tick]) (outs @ [out]) ag'"
proof -
  have "accept_tick cfg tick clock ag = Some (Ignored, ag)"
    using assms(2) by (auto simp: accept_tick_def trade_of_def split: option.splits sum.splits)
  moreover have "trades cfg (ticks @ [tick]) = trades cfg ticks" using assms(2) by (simp add: trades_snoc)
  ultimately show ?thesis using assms(1) by (simp add: tracked_def trade_runs_def completed_candles_def)
qed

context exchange_calendar begin

lemma run_tracked:
  assumes "ac_calendar cfg = cal" "sy_calendar (ac_symbol cfg) = cal_id cal"
  shows "\<exists>outs ag. run_ticks cfg xs fresh = Some (outs, ag) \<and> tracked cfg (map fst xs) outs ag"
proof (induction xs rule: rev_induct)
  case Nil
  then show ?case by (simp add: tracked_def trade_runs_def completed_candles_def fresh_def)
next
  case (snoc x xs)
  obtain tick clock where x: "x = (tick, clock)" by (cases x)
  from snoc obtain outs ag where run: "run_ticks cfg xs fresh = Some (outs, ag)" "tracked cfg (map fst xs) outs ag" by blast
  have "\<exists>out ag'. accept_tick cfg tick clock ag = Some (out, ag') \<and> tracked cfg (map fst xs @ [tick]) (outs @ [out]) ag'"
  proof (cases "trade_of cfg tick")
    case None
    then show ?thesis by (rule accept_other_tracked [OF run(2)])
  next
    case (Some tr)
    then show ?thesis
      using accept_trade_tracked [OF _ _ run(2)] assms exchange_calendar_axioms by (cases tr) simp
  qed
  then obtain out ag' where "accept_tick cfg tick clock ag = Some (out, ag')"
    "tracked cfg (map fst xs @ [tick]) (outs @ [out]) ag'" by blast
  with run(1) show ?case by (simp add: x run_ticks_snoc)
qed

end

text \<open>C13: On the crypto and on the New York calendar the aggregator never panics, whatever ticks arrive and
  whatever its clock shows, every candle it emits is valid, and the completed candles are exactly the bars
  of the runs of trades with one window, all but the last: it computes its bars trade by trade.\<close>

theorem aggregator_is_total_and_exact:
  assumes "ac_calendar cfg \<in> {CRYPTO_SPOT C, XNYS C}" and "sy_calendar (ac_symbol cfg) = cal_id (ac_calendar cfg)"
  shows "\<exists>outs ag. run_ticks cfg xs fresh = Some (outs, ag)
    \<and> (\<forall>c \<in> set (concat (map candles_of outs)). candle_ok c)
    \<and> completed_candles outs
        = map (\<lambda>r. candle_view cfg Completed (bar_of r)) (butlast (trade_runs cfg (map fst xs)))"
proof -
  have "\<exists>outs ag. run_ticks cfg xs fresh = Some (outs, ag) \<and> tracked cfg (map fst xs) outs ag"
    using assms crypto.run_tracked [of cfg C xs] xnys.run_tracked [of cfg C xs] by auto
  then show ?thesis unfolding tracked_def by blast
qed

section \<open>Bars that share their opening\<close>

lemma keep_last_snoc:
  assumes "cap \<noteq> Some 0"
  shows "keep_last cap (xs @ [x]) \<noteq> []" "last (keep_last cap (xs @ [x])) = x"
    "butlast (keep_last cap (xs @ [x])) @ [y] = keep_last cap (xs @ [y])"
  using assms by (cases cap; cases "the cap"; simp add: keep_last_def drop_append)+

lemma apply_twice:
  assumes "bw_open (ca_window a) = bw_open (ca_window b)" "cap \<noteq> Some 0"
  shows "spec_do cap (ApplyOp b) (spec_do cap (ApplyOp a) rows) = spec_do cap (ApplyOp b) rows"
proof -
  define ra where "ra = row_of (the (timestamp_nanos_opt (bw_open (ca_window b)))) a"
  define rb where "rb = row_of (the (timestamp_nanos_opt (bw_open (ca_window b)))) b"
  have a: "spec_do cap (ApplyOp a) rs = (if rs \<noteq> [] \<and> rw_ts (last rs) = rw_ts ra then butlast rs @ [ra]
      else keep_last cap (rs @ [ra]))" for rs
    by (simp add: spec_do_def ra_def assms(1) Let_def)
  have b: "spec_do cap (ApplyOp b) rs = (if rs \<noteq> [] \<and> rw_ts (last rs) = rw_ts rb then butlast rs @ [rb]
      else keep_last cap (rs @ [rb]))" for rs
    by (simp add: spec_do_def rb_def Let_def)
  have ts: "rw_ts ra = rw_ts rb" by (simp add: ra_def rb_def row_of_def)
  show ?thesis
  proof (cases "rows \<noteq> [] \<and> rw_ts (last rows) = rw_ts rb")
    case True
    then show ?thesis using ts by (simp add: a b)
  next
    case False
    then have "spec_do cap (ApplyOp a) rows = keep_last cap (rows @ [ra])"
      and "spec_do cap (ApplyOp b) rows = keep_last cap (rows @ [rb])"
      using ts by (auto simp: a b)
    with ts show ?thesis by (simp add: b keep_last_snoc [OF assms(2)])
  qed
qed

text \<open>On the series itself: both candles belong to it or neither does.\<close>

definition apply_both :: "Candle \<Rightarrow> Candle \<Rightarrow> CandleSeries \<Rightarrow> Row list option" where
  "apply_both a b cs = map_option rows_of (series_run [ApplyOp a, ApplyOp b] cs)"

definition apply_one :: "Candle \<Rightarrow> CandleSeries \<Rightarrow> Row list option" where
  "apply_one b cs = map_option rows_of (series_apply b cs)"

lemma apply_both_is_last:
  assumes "columns_ok cs" "cs_max_rows cs \<noteq> Some 0"
    and "bw_open (ca_window a) = bw_open (ca_window b)" "ca_calendar a = ca_calendar b"
    and "ca_period a = ca_period b" "ca_symbol a = ca_symbol b"
  shows "apply_both a b cs = apply_one b cs"
proof -
  have same: "op_belongs cal per s (ApplyOp a) = op_belongs cal per s (ApplyOp b)" for cal per s
    using assms by (simp add: op_belongs_def belongs_def)
  have app: "series_apply b cs = series_do (ApplyOp b) cs" by (simp add: series_do_def)
  show ?thesis
  proof (cases "op_belongs (cs_calendar cs) (cs_period cs) (cs_symbol cs) (ApplyOp a)")
    case True
    obtain cs1 where 1: "series_do (ApplyOp a) cs = Some cs1" "columns_ok cs1"
      "rows_of cs1 = spec_do (cs_max_rows cs) (ApplyOp a) (rows_of cs)" "same_series cs cs1"
      using series_do_rows [OF assms(1) True] by blast
    have b1: "op_belongs (cs_calendar cs1) (cs_period cs1) (cs_symbol cs1) (ApplyOp b)"
      using True 1(4) same by (simp add: same_series_def)
    obtain cs2 where 2: "series_do (ApplyOp b) cs1 = Some cs2"
      "rows_of cs2 = spec_do (cs_max_rows cs1) (ApplyOp b) (rows_of cs1)"
      using series_do_rows [OF 1(2) b1] by blast
    obtain cs3 where 3: "series_do (ApplyOp b) cs = Some cs3"
      "rows_of cs3 = spec_do (cs_max_rows cs) (ApplyOp b) (rows_of cs)"
      using series_do_rows [OF assms(1), of "ApplyOp b"] True same by blast
    have "rows_of cs2 = rows_of cs3"
      using apply_twice [OF assms(3, 2)] 1(3, 4) 2(2) 3(2) by (simp add: same_series_def)
    with 1(1) 2(1) 3(1) show ?thesis by (simp add: apply_both_def apply_one_def app)
  next
    case False
    then have "series_do (ApplyOp a) cs = None" "series_do (ApplyOp b) cs = None"
      using series_do_refuses same by blast+
    then show ?thesis by (simp add: apply_both_def apply_one_def app)
  qed
qed

text \<open>C19: When two trades of one clock window lie in different sessions, the aggregator closes the bar of
  the first and opens another, and both have the opening of the clock window; the chart's driver applies
  both to its series, which keeps the second only. At every session boundary inside a clock window the
  trades before the boundary are lost from the chart: hourly bars of New York at 9:30, five-hour bars
  of crypto at midnight.\<close>

theorem session_boundary_loses_the_closed_bar:
  assumes "ac_calendar cfg \<in> {CRYPTO_SPOT C, XNYS C}" and "sy_calendar (ac_symbol cfg) = cal_id (ac_calendar cfg)"
    and "gregorian C" and "ac_period cfg = ClockPeriod ci"
    and "trade_of cfg tick1 = Some (wa, p1, q1, t1)" and "trade_of cfg tick2 = Some (wb, p2, q2, t2)"
    and "timestamp_secs t1 div secs_per_bar ci = timestamp_secs t2 div secs_per_bar ci"
    and "cal_classify (ac_calendar cfg) t1 \<noteq> cal_classify (ac_calendar cfg) t2"
    and "columns_ok cs" and "cs_max_rows cs \<noteq> Some 0"
  shows "\<exists>opened a b ag. run_ticks cfg [(tick1, c1), (tick2, c2)] fresh = Some ([OpenedOut opened, Rollover a b], ag)
    \<and> ca_completeness a = Completed \<and> ca_c a = p1 \<and> ca_o b = p2
    \<and> apply_both a b cs = apply_one b cs"
proof -
  have cal: "exchange_calendar (ac_calendar cfg)"
    using assms(1) crypto.exchange_calendar_axioms [of C] xnys.exchange_calendar_axioms [of C] by auto
  define classify where "classify = cal_classify (ac_calendar cfg)"
  have win: "\<exists>cid date_of. clock_bar_window C cid date_of classify t ci = Ok w"
    if "trade_of cfg tick = Some (w, p, q, t)" for tick w p q t
    using that assms(1, 4)
    by (auto simp: trade_of_def classify_def CRYPTO_SPOT_def XNYS_def crypto_bar_window_def xnys_bar_window_def
        crypto_validate_period_def xnys_validate_period_def split: option.splits sum.splits) blast+
  obtain cid date_of where wa: "clock_bar_window C cid date_of classify t1 ci = Ok wa" using win [OF assms(5)] by blast
  obtain cid' date_of' where wb: "clock_bar_window C cid' date_of' classify t2 ci = Ok wb" using win [OF assms(6)] by blast
  have same: "bw_open wa = bw_open wb" and ne: "wa \<noteq> wb"
    using clock_window_cases [OF assms(3) wa] clock_window_cases [OF assms(3) wb] assms(7, 8)
    by (auto simp: classify_def)
  have parts: "extract_trade tick1 = Some (p1, q1)" "cal_bar_window (ac_calendar cfg) (tk_ts tick1) (ac_period cfg) = Ok wa"
    "extract_trade tick2 = Some (p2, q2)" "cal_bar_window (ac_calendar cfg) (tk_ts tick2) (ac_period cfg) = Ok wb"
    using assms(5, 6) by (auto simp: trade_of_def split: option.splits sum.splits)
  have good: "bar_good (cal_id (ac_calendar cfg)) (new_bar wa p1 q1 (tk_ts tick1))"
    "bar_good (cal_id (ac_calendar cfg)) (new_bar wb p2 q2 (tk_ts tick2))"
    using trade_of_good [OF cal assms(5)] trade_of_good [OF cal assms(6)] by (auto intro: new_bar_good)
  let ?a = "candle_view cfg Completed (new_bar wa p1 q1 (tk_ts tick1))"
  let ?b = "candle_view cfg Partial (new_bar wb p2 q2 (tk_ts tick2))"
  note view = to_candle_good [OF good(1) assms(2)] to_candle_good [OF good(2) assms(2)]
  have "run_ticks cfg [(tick1, c1), (tick2, c2)] fresh
      = Some ([OpenedOut (candle_view cfg Partial (new_bar wa p1 q1 (tk_ts tick1))), Rollover ?a ?b],
          \<lparr> sa_current = Some (new_bar wb p2 q2 (tk_ts tick2)), sa_last_partial_emit = Some (fst c2) \<rparr>)"
    using ne by (simp add: accept_tick_def parts fresh_def current_candle_def close_current_as_completed_def view Let_def)
  moreover have "apply_both ?a ?b cs = apply_one ?b cs"
    using apply_both_is_last [OF assms(9, 10), of ?a ?b] same by (simp add: candle_view_def new_bar_def)
  ultimately show ?thesis by (auto simp: candle_view_def new_bar_def)
qed

text \<open>A trade of a window that was already flushed reopens the window with that trade alone, and its
  candle replaces the completed bar in the chart's series.\<close>

lemma late_trade_replaces_the_flushed_bar:
  assumes "ac_calendar cfg \<in> {CRYPTO_SPOT C, XNYS C}" and "sy_calendar (ac_symbol cfg) = cal_id (ac_calendar cfg)"
    and "sa_current ag = Some inp" and "bar_good (cal_id (ac_calendar cfg)) inp" and "bw_close (ip_window inp) \<le> now"
    and "trade_of cfg tick = Some (ip_window inp, p, q, t)" and "columns_ok cs" and "cs_max_rows cs \<noteq> Some 0"
  shows "\<exists>a ag' b ag''. flush_if_due cfg now ag = Some (Some a, ag') \<and> ca_completeness a = Completed
    \<and> ca_trade_count a = ip_trade_count inp
    \<and> accept_tick cfg tick clock ag' = Some (OpenedOut b, ag'') \<and> ca_trade_count b = 1
    \<and> apply_both a b cs = apply_one b cs"
proof -
  have cal: "exchange_calendar (ac_calendar cfg)"
    using assms(1) crypto.exchange_calendar_axioms [of C] xnys.exchange_calendar_axioms [of C] by auto
  let ?nb = "new_bar (ip_window inp) p q (tk_ts tick)"
  let ?a = "candle_view cfg Completed inp" and ?b = "candle_view cfg Partial ?nb"
  have parts: "extract_trade tick = Some (p, q)"
    "cal_bar_window (ac_calendar cfg) (tk_ts tick) (ac_period cfg) = Ok (ip_window inp)"
    using assms(6) by (auto simp: trade_of_def split: option.splits sum.splits)
  have "bar_good (cal_id (ac_calendar cfg)) ?nb" using trade_of_good [OF cal assms(6)] by (auto intro: new_bar_good)
  note view = to_candle_good [OF assms(4) assms(2)] to_candle_good [OF this assms(2)]
  have "flush_if_due cfg now ag = Some (Some ?a, ag\<lparr> sa_current := None, sa_last_partial_emit := None \<rparr>)"
    using assms(3, 5) by (simp add: flush_if_due_def close_current_as_completed_def view)
  moreover have "accept_tick cfg tick clock (ag\<lparr> sa_current := None, sa_last_partial_emit := None \<rparr>)
      = Some (OpenedOut ?b, ag\<lparr> sa_current := Some ?nb, sa_last_partial_emit := Some (fst clock) \<rparr>)"
    by (simp add: accept_tick_def parts current_candle_def view)
  moreover have "apply_both ?a ?b cs = apply_one ?b cs"
    using apply_both_is_last [OF assms(7, 8), of ?a ?b] by (simp add: candle_view_def new_bar_def)
  ultimately show ?thesis by (auto simp: candle_view_def new_bar_def)
qed

section \<open>The stream delivers every candle\<close>

text \<open>Calling \<open>next\<close> until the end.\<close>

function stream_drain ::
  "AggregatorConfig \<Rightarrow> Candle list \<Rightarrow> (Tick \<times> nat \<times> nat) list \<Rightarrow> SessionedBarAggregator \<Rightarrow> Candle list option" where
  "stream_drain cfg (c # pending) ticks ag = map_option ((#) c) (stream_drain cfg pending ticks ag)"
| "stream_drain cfg [] [] ag = Some []"
| "stream_drain cfg [] ((tick, clock) # ticks) ag =
     (case accept_tick cfg tick clock ag of
        None \<Rightarrow> None
      | Some (out, ag') \<Rightarrow> stream_drain cfg (candles_of out) ticks ag')"
  by pat_completeness auto
termination
  by (relation "measures [\<lambda>(cfg, pending, ticks, ag). length ticks, \<lambda>(cfg, pending, ticks, ag). length pending]") auto

lemma stream_drain_next:
  "stream_drain cfg pending ticks ag =
     (case stream_next cfg pending ticks ag of
        None \<Rightarrow> None
      | Some (None, _) \<Rightarrow> Some []
      | Some (Some c, pending', ticks', ag') \<Rightarrow> map_option ((#) c) (stream_drain cfg pending' ticks' ag'))"
proof (induction cfg pending ticks ag rule: stream_next.induct)
  case (3 cfg tick clock ticks ag)
  then show ?case by (auto split: option.splits list.splits prod.splits)
qed simp_all

lemma stream_drain_pending:
  "stream_drain cfg pending ticks ag = map_option ((@) pending) (stream_drain cfg [] ticks ag)"
  by (induction pending) (auto simp: option.map_comp comp_def map_option.id [unfolded id_def])

lemma stream_delivers_all:
  "stream_drain cfg [] ticks ag = map_option (\<lambda>(outs, _). concat (map candles_of outs)) (run_ticks cfg ticks ag)"
proof (induction cfg ticks ag rule: run_ticks.induct)
  case (2 cfg tick clock ticks ag)
  then show ?case
    by (auto simp: stream_drain_pending [of cfg "candles_of _"] split: option.splits)
qed simp

section \<open>Witnesses\<close>

text \<open>Five-hour bars of a pair traded all day; trades a second before and after midnight.\<close>

definition demo_cfg :: AggregatorConfig where
  "demo_cfg = AggregatorConfig_new \<lparr> sy_ticker = ''BTC-USD'', sy_calendar = CRYPTO_SPOT_ID \<rparr>
     (CRYPTO_SPOT civil_chrono) (ClockPeriod (HoursOf 5))"

definition demo_trade :: "f64 \<Rightarrow> int \<Rightarrow> Tick" where
  "demo_trade price secs = \<lparr> tk_symbol = \<lparr> sk_contract_id = 0, sk_symbol = ''BTC'' \<rparr>, tk_req_id = 0, tk_kind = PriceSizeKind,
     tk_type = LastTick, tk_value = PriceSizeVal price 1, tk_attrs = TickAttributes_default, tk_ts = secs * NANOS \<rparr>"

definition demo_window :: "int \<Rightarrow> BarWindow" where
  "demo_window day = \<lparr> bw_open = 72000 * NANOS, bw_close = 90000 * NANOS,
     bw_session = crypto_session day \<rparr>"

text \<open>Prices 100 and 101.\<close>

definition demo_before :: Tick where "demo_before = demo_trade 4636737291354636288 86399"
definition demo_after :: Tick where "demo_after = demo_trade 4636807660098813952 86401"

lemma demo_cfg_calendar:
  "ac_calendar demo_cfg = CRYPTO_SPOT civil_chrono" "sy_calendar (ac_symbol demo_cfg) = cal_id (ac_calendar demo_cfg)"
  "ac_period demo_cfg = ClockPeriod (HoursOf 5)"
  by (simp_all add: demo_cfg_def AggregatorConfig_new_def CRYPTO_SPOT_def)

lemma demo_trades:
  "trade_of demo_cfg demo_before = Some (demo_window 0, 4636737291354636288, 1, 86399 * NANOS)"
  "trade_of demo_cfg demo_after = Some (demo_window 1, 4636807660098813952, 1, 86401 * NANOS)"
  by code_simp+

lemma aggregator_is_total_and_exact_witness:
  "\<exists>outs ag. run_ticks demo_cfg [(demo_before, 0, 0), (demo_after, 0, 0)] fresh = Some (outs, ag)
    \<and> completed_candles outs
        = [candle_view demo_cfg Completed (new_bar (demo_window 0) 4636737291354636288 1 (86399 * NANOS))]"
proof -
  have "butlast (trade_runs demo_cfg (map fst [(demo_before, 0::nat, 0::nat), (demo_after, 0, 0)]))
      = [[(demo_window 0, 4636737291354636288, 1, 86399 * NANOS)]]"
    by (simp add: trade_runs_def trades_def map_filter_simps demo_trades window_key_def) code_simp
  then show ?thesis
    using aggregator_is_total_and_exact [of demo_cfg civil_chrono "[(demo_before, 0, 0), (demo_after, 0, 0)]"]
      demo_cfg_calendar by auto
qed

lemma session_boundary_loses_the_closed_bar_witness:
  "\<exists>opened a b ag. run_ticks demo_cfg [(demo_before, 0, 0), (demo_after, 0, 0)] fresh
      = Some ([OpenedOut opened, Rollover a b], ag)
    \<and> ca_c a = 4636737291354636288
    \<and> apply_both a b (series_new CRYPTO_SPOT_ID (ClockPeriod (HoursOf 5)) (ac_symbol demo_cfg))
      = apply_one b (series_new CRYPTO_SPOT_ID (ClockPeriod (HoursOf 5)) (ac_symbol demo_cfg))"
proof -
  let ?cs = "series_new CRYPTO_SPOT_ID (ClockPeriod (HoursOf 5)) (ac_symbol demo_cfg)"
  have ne: "cal_classify (ac_calendar demo_cfg) (86399 * NANOS) \<noteq> cal_classify (ac_calendar demo_cfg) (86401 * NANOS)"
    by code_simp
  have same: "timestamp_secs (86399 * NANOS) div secs_per_bar (HoursOf 5)
      = timestamp_secs (86401 * NANOS) div secs_per_bar (HoursOf 5)"
    by code_simp
  have cs: "columns_ok ?cs" "cs_max_rows ?cs \<noteq> Some 0"
    by (simp_all add: series_new_def with_optional_cap_rows) (simp add: with_optional_cap_def)
  show ?thesis
    using session_boundary_loses_the_closed_bar [OF _ demo_cfg_calendar(2) civil_chrono_gregorian demo_cfg_calendar(3)
        demo_trades same ne cs, where ?c1.0 = "(0, 0)" and ?c2.0 = "(0, 0)"] demo_cfg_calendar(1)
    by auto
qed

text \<open>The bar of the trade before midnight, flushed at 01:00 the next day; the same trade arrives once more.\<close>

definition demo_bar :: InProgressBar where
  "demo_bar = new_bar (demo_window 0) 4636737291354636288 1 (86399 * NANOS)"

lemma late_trade_replaces_the_flushed_bar_witness:
  "\<exists>a ag' b ag''. flush_if_due demo_cfg (90000 * NANOS) (fresh\<lparr> sa_current := Some demo_bar \<rparr>) = Some (Some a, ag')
    \<and> accept_tick demo_cfg demo_before (0, 0) ag' = Some (OpenedOut b, ag'')
    \<and> apply_both a b (series_new CRYPTO_SPOT_ID (ClockPeriod (HoursOf 5)) (ac_symbol demo_cfg))
      = apply_one b (series_new CRYPTO_SPOT_ID (ClockPeriod (HoursOf 5)) (ac_symbol demo_cfg))"
proof -
  let ?cs = "series_new CRYPTO_SPOT_ID (ClockPeriod (HoursOf 5)) (ac_symbol demo_cfg)"
  have bar: "bar_good (cal_id (ac_calendar demo_cfg)) demo_bar" "bw_close (ip_window demo_bar) \<le> 90000 * NANOS"
    by code_simp+
  have "trade_of demo_cfg demo_before = Some (ip_window demo_bar, 4636737291354636288, 1, 86399 * NANOS)"
    by (simp add: demo_trades demo_bar_def)
  moreover have cs: "columns_ok ?cs" "cs_max_rows ?cs \<noteq> Some 0"
    by (simp_all add: series_new_def with_optional_cap_rows) (simp add: with_optional_cap_def)
  ultimately show ?thesis
    using late_trade_replaces_the_flushed_bar [OF _ demo_cfg_calendar(2) _ bar(1) bar(2) _ cs,
        where C = civil_chrono and ag = "fresh\<lparr> sa_current := Some demo_bar \<rparr>" and tick = demo_before
          and clock = "(0, 0)"] demo_cfg_calendar(1)
    by fastforce
qed

end
