(* ===== verification/Bars_Stream.thy ===== *)
theory Bars_Stream imports Bars_Series begin

text \<open>
  Bar streams, \<open>crates/midas-stream/src\<close> (\<open>lib.rs\<close>, \<open>fixture.rs\<close>, \<open>channel.rs\<close>, \<open>filter.rs\<close>,
  \<open>history_then_live.rs\<close>, \<open>resample.rs\<close>), and the chart's pump over one,
  \<open>desktop/win/crates/midas-app/src/session_chart/driver.rs\<close>. A channel is the list of candles it will
  still deliver before it closes. The loops of \<open>next\<close> take fuel, and \<open>fuel_of\<close> is proved to be enough.
\<close>

section \<open>Ranges, errors, metadata\<close>

record TimeRange =
  tr_from :: Timestamp
  tr_to :: Timestamp

definition TimeRange_new :: "Timestamp \<Rightarrow> Timestamp \<Rightarrow> TimeRange option" where
  "TimeRange_new from_ts to_ts = (if from_ts > to_ts then None else Some \<lparr> tr_from = from_ts, tr_to = to_ts \<rparr>)"

definition tr_contains :: "TimeRange \<Rightarrow> Timestamp \<Rightarrow> bool" where
  "tr_contains r ts = (ts \<ge> tr_from r \<and> ts < tr_to r)"

definition tr_is_empty :: "TimeRange \<Rightarrow> bool" where
  "tr_is_empty r = (tr_from r = tr_to r)"

text \<open>The formatted text of \<open>Upstream\<close> is what it reports.\<close>

datatype UpstreamReason =
    FixtureCalendar nat CalendarId CalendarId
  | FixturePeriod nat BarPeriod BarPeriod
  | FixtureSymbol nat Symbol Symbol
  | FixtureNotSorted Timestamp Timestamp
  | ResampleNotImplemented

datatype StreamError =
    StreamClosed
  | NotSeekable
  | StreamOutOfRange Timestamp
  | Upstream UpstreamReason
  | CoverageExceeded CalendarId TimeRange

record BarStreamMeta =
  bm_symbol :: Symbol
  bm_calendar :: ExchangeCalendar
  bm_period :: BarPeriod

section \<open>The fixture\<close>

record FixtureBarStream =
  fx_meta :: BarStreamMeta
  fx_candles :: "Candle list"
  fx_cursor :: nat

definition candle_open :: "Candle \<Rightarrow> Timestamp" where
  "candle_open c = bw_open (ca_window c)"

definition fixture_range :: "Candle list \<Rightarrow> Candle \<Rightarrow> TimeRange" where
  "fixture_range candles c =
     (let range_from = (case candles of [] \<Rightarrow> candle_open c | x # _ \<Rightarrow> candle_open x);
          range_to = (if candles = [] then candle_open c else candle_open (last candles))
      in case TimeRange_new range_from range_to of
           Some r \<Rightarrow> r
         | None \<Rightarrow> \<lparr> tr_from = range_from, tr_to = range_from \<rparr>)"

definition fixture_check :: "BarStreamMeta \<Rightarrow> Candle list \<Rightarrow> nat \<Rightarrow> Candle \<Rightarrow> StreamError option" where
  "fixture_check meta candles i c =
     (let cal_id = cal_id (bm_calendar meta); cov = cal_covers (bm_calendar meta); date = date_naive (candle_open c) in
      if ca_calendar c \<noteq> cal_id then Some (Upstream (FixtureCalendar i (ca_calendar c) cal_id))
      else if ca_period c \<noteq> bm_period meta then Some (Upstream (FixturePeriod i (ca_period c) (bm_period meta)))
      else if ca_symbol c \<noteq> bm_symbol meta then Some (Upstream (FixtureSymbol i (ca_symbol c) (bm_symbol meta)))
      else if date < fst cov \<or> date \<ge> snd cov then Some (CoverageExceeded cal_id (fixture_range candles c))
      else None)"

fun fixture_check_all :: "BarStreamMeta \<Rightarrow> Candle list \<Rightarrow> nat \<Rightarrow> Candle list \<Rightarrow> StreamError option" where
  "fixture_check_all meta candles i [] = None"
| "fixture_check_all meta candles i (c # cs) =
     (case fixture_check meta candles i c of
        Some e \<Rightarrow> Some e
      | None \<Rightarrow> fixture_check_all meta candles (Suc i) cs)"

fun check_sorted :: "Candle list \<Rightarrow> StreamError option" where
  "check_sorted (a # b # cs) =
     (if candle_open b < candle_open a then Some (Upstream (FixtureNotSorted (candle_open a) (candle_open b)))
      else check_sorted (b # cs))"
| "check_sorted _ = None"

definition FixtureBarStream_new ::
  "BarStreamMeta \<Rightarrow> Candle list \<Rightarrow> (FixtureBarStream, StreamError) rust_result" where
  "FixtureBarStream_new meta candles =
     (case fixture_check_all meta candles 0 candles of
        Some e \<Rightarrow> Err e
      | None \<Rightarrow>
          (case check_sorted candles of
             Some e \<Rightarrow> Err e
           | None \<Rightarrow> Ok \<lparr> fx_meta = meta, fx_candles = candles, fx_cursor = 0 \<rparr>))"

definition fixture_next :: "FixtureBarStream \<Rightarrow> Candle option \<times> FixtureBarStream" where
  "fixture_next fx =
     (if fx_cursor fx \<ge> length (fx_candles fx) then (None, fx)
      else (Some (fx_candles fx ! fx_cursor fx), fx\<lparr> fx_cursor := fx_cursor fx + 1 \<rparr>))"

definition fixture_snapshot :: "TimeRange \<Rightarrow> FixtureBarStream \<Rightarrow> Candle list" where
  "fixture_snapshot r fx = filter (\<lambda>c. tr_contains r (candle_open c)) (fx_candles fx)"

text \<open>\<open>partition_point\<close> of the standard library on sorted candles: how many open before \<open>to\<close>.\<close>

definition fixture_seek :: "Timestamp \<Rightarrow> FixtureBarStream \<Rightarrow> FixtureBarStream" where
  "fixture_seek to_ts fx = fx\<lparr> fx_cursor := length (takeWhile (\<lambda>c. candle_open c < to_ts) (fx_candles fx)) \<rparr>"

section \<open>Filters\<close>

record EhFilter =
  allow_pre :: bool
  allow_post :: bool

definition RTH_ONLY :: EhFilter where "RTH_ONLY = \<lparr> allow_pre = False, allow_post = False \<rparr>"
definition EH_ALL :: EhFilter where "EH_ALL = \<lparr> allow_pre = True, allow_post = True \<rparr>"

definition eh_accept :: "EhFilter \<Rightarrow> Candle \<Rightarrow> bool" where
  "eh_accept f c =
     (case ses_kind (ca_session c) of
        RegularKind \<Rightarrow> True | BreakKind \<Rightarrow> True | Overnight \<Rightarrow> True
      | PreMarket \<Rightarrow> allow_pre f | PostMarket \<Rightarrow> allow_post f | ClosedKind \<Rightarrow> False)"

definition kinds_accept :: "SessionKind list \<Rightarrow> Candle \<Rightarrow> bool" where
  "kinds_accept kinds c = (ses_kind (ca_session c) \<in> set kinds)"

datatype FilterPolicy = EhPolicy EhFilter | KindsPolicy "SessionKind list"

fun policy_accept :: "FilterPolicy \<Rightarrow> Candle \<Rightarrow> bool" where
  "policy_accept (EhPolicy f) c = eh_accept f c"
| "policy_accept (KindsPolicy kinds) c = kinds_accept kinds c"

section \<open>Streams\<close>

datatype BarStream =
    FixtureStream FixtureBarStream
  | ChannelBarStream BarStreamMeta "Candle list"
  | HistoryThenLive BarStreamMeta "FixtureBarStream option" BarStream "Timestamp option"
  | Filtered BarStream FilterPolicy
  | Resampled BarStream BarPeriod BarStreamMeta bool

fun stream_meta :: "BarStream \<Rightarrow> BarStreamMeta" where
  "stream_meta (FixtureStream fx) = fx_meta fx"
| "stream_meta (ChannelBarStream meta _) = meta"
| "stream_meta (HistoryThenLive meta _ _ _) = meta"
| "stream_meta (Filtered inner _) = stream_meta inner"
| "stream_meta (Resampled _ _ meta _) = meta"

definition HistoryThenLive_new :: "BarStreamMeta \<Rightarrow> FixtureBarStream \<Rightarrow> BarStream \<Rightarrow> BarStream" where
  "HistoryThenLive_new meta history live = HistoryThenLive meta (Some history) live None"

definition Resampled_new :: "BarStream \<Rightarrow> BarPeriod \<Rightarrow> BarStream" where
  "Resampled_new inner target =
     Resampled inner target
       \<lparr> bm_symbol = bm_symbol (stream_meta inner), bm_calendar = bm_calendar (stream_meta inner), bm_period = target \<rparr>
       False"

text \<open>\<open>next\<close>: \<open>None\<close> when the fuel runs out, otherwise what it returns and the stream it leaves.\<close>

fun stream_pull :: "nat \<Rightarrow> BarStream \<Rightarrow> (Candle option \<times> BarStream) option" where
  "stream_pull 0 _ = None"
| "stream_pull (Suc n) (FixtureStream fx) = Some (apsnd FixtureStream (fixture_next fx))"
| "stream_pull (Suc n) (ChannelBarStream meta []) = Some (None, ChannelBarStream meta [])"
| "stream_pull (Suc n) (ChannelBarStream meta (c # cs)) = Some (Some c, ChannelBarStream meta cs)"
| "stream_pull (Suc n) (HistoryThenLive meta (Some h) live seam) =
     (case fixture_next h of
        (Some c, h) \<Rightarrow> Some (Some c, HistoryThenLive meta (Some h) live (Some (candle_open c)))
      | (None, h) \<Rightarrow> stream_pull n (HistoryThenLive meta None live seam))"
| "stream_pull (Suc n) (HistoryThenLive meta None live seam) =
     (case stream_pull n live of
        None \<Rightarrow> None
      | Some (None, live) \<Rightarrow> Some (None, HistoryThenLive meta None live seam)
      | Some (Some c, live) \<Rightarrow>
          if (case seam of Some s \<Rightarrow> candle_open c < s | None \<Rightarrow> False)
          then stream_pull n (HistoryThenLive meta None live seam)
          else Some (Some c, HistoryThenLive meta None live (Some (candle_open c))))"
| "stream_pull (Suc n) (Filtered inner policy) =
     (case stream_pull n inner of
        None \<Rightarrow> None
      | Some (None, inner) \<Rightarrow> Some (None, Filtered inner policy)
      | Some (Some c, inner) \<Rightarrow>
          if policy_accept policy c then Some (Some c, Filtered inner policy)
          else stream_pull n (Filtered inner policy))"
| "stream_pull (Suc n) (Resampled inner target meta _) = Some (None, Resampled inner target meta True)"

definition try_seek :: "Timestamp \<Rightarrow> FixtureBarStream option \<Rightarrow> (FixtureBarStream, StreamError) rust_result" where
  "try_seek to_ts history = (case history of Some h \<Rightarrow> Ok (fixture_seek to_ts h) | None \<Rightarrow> Err NotSeekable)"

text \<open>The part of a combined snapshot after the seam.\<close>

definition join_snapshots :: "Timestamp \<Rightarrow> Candle list \<Rightarrow> Candle list \<Rightarrow> Candle list" where
  "join_snapshots seam bars live_bars =
     (let live_bars = filter (\<lambda>c. candle_open c \<ge> seam) live_bars;
          bars = (case live_bars of
                    first_live # _ \<Rightarrow>
                      if candle_open first_live = seam \<and> bars \<noteq> [] \<and> candle_open (last bars) = seam
                      then butlast bars else bars
                  | [] \<Rightarrow> bars)
      in bars @ live_bars)"

fun stream_snapshot :: "TimeRange \<Rightarrow> BarStream \<Rightarrow> (Candle list, StreamError) rust_result" where
  "stream_snapshot r (FixtureStream fx) = Ok (fixture_snapshot r fx)"
| "stream_snapshot r (ChannelBarStream meta cs) = Err NotSeekable"
| "stream_snapshot r (HistoryThenLive meta None live seam) = stream_snapshot r live"
| "stream_snapshot r (HistoryThenLive meta (Some h) live None) = Ok (fixture_snapshot r h)"
| "stream_snapshot r (HistoryThenLive meta (Some h) live (Some seam)) =
     (if tr_to r \<le> seam then Ok (fixture_snapshot r h)
      else let bars = fixture_snapshot r h;
               fwd_range = (case TimeRange_new seam (tr_to r) of
                              Some fr \<Rightarrow> fr | None \<Rightarrow> \<lparr> tr_from = seam, tr_to = seam \<rparr>)
           in case stream_snapshot fwd_range live of
                Inr live_bars \<Rightarrow> Ok (join_snapshots seam bars live_bars)
              | Inl NotSeekable \<Rightarrow> Ok bars
              | Inl e \<Rightarrow> Err e)"
| "stream_snapshot r (Filtered inner policy) =
     (case stream_snapshot r inner of Inl e \<Rightarrow> Err e | Inr bars \<Rightarrow> Ok (filter (policy_accept policy) bars))"
| "stream_snapshot r (Resampled inner target meta emitted) = Err (Upstream ResampleNotImplemented)"

section \<open>The pump of a chart\<close>

definition apply_candle :: "Candle \<Rightarrow> CandleSeries \<Rightarrow> CandleSeries option" where
  "apply_candle c cs = (case ca_completeness c of Partial \<Rightarrow> series_apply c cs | Completed \<Rightarrow> series_apply c cs)"

text \<open>Until the stream ends; the outer \<open>None\<close> is spent fuel, the inner one a panic.\<close>

fun pump :: "nat \<Rightarrow> BarStream \<Rightarrow> CandleSeries \<Rightarrow> CandleSeries option option" where
  "pump 0 _ _ = None"
| "pump (Suc n) s cs =
     (case stream_pull n s of
        None \<Rightarrow> None
      | Some (None, _) \<Rightarrow> Some (Some cs)
      | Some (Some c, s) \<Rightarrow> (case apply_candle c cs of None \<Rightarrow> Some None | Some cs \<Rightarrow> pump n s cs))"

section \<open>What a stream delivers\<close>

text \<open>Behind the seam nothing older than what was delivered passes.\<close>

fun since :: "Timestamp option \<Rightarrow> Candle list \<Rightarrow> Candle list" where
  "since seam [] = []"
| "since seam (c # cs) =
     (if (case seam of Some s \<Rightarrow> candle_open c < s | None \<Rightarrow> False) then since seam cs
      else c # since (Some (candle_open c)) cs)"

definition fixture_rest :: "FixtureBarStream \<Rightarrow> Candle list" where
  "fixture_rest fx = drop (fx_cursor fx) (fx_candles fx)"

definition history_rest :: "FixtureBarStream option \<Rightarrow> Candle list" where
  "history_rest h = (case h of None \<Rightarrow> [] | Some fx \<Rightarrow> fixture_rest fx)"

fun deliveries :: "BarStream \<Rightarrow> Candle list" where
  "deliveries (FixtureStream fx) = fixture_rest fx"
| "deliveries (ChannelBarStream meta cs) = cs"
| "deliveries (HistoryThenLive meta h live seam) =
     (let hs = history_rest h in
      hs @ since (if hs = [] then seam else Some (candle_open (last hs))) (deliveries live))"
| "deliveries (Filtered inner policy) = filter (policy_accept policy) (deliveries inner)"
| "deliveries (Resampled inner target meta emitted) = []"

fun fuel_of :: "BarStream \<Rightarrow> nat" where
  "fuel_of (HistoryThenLive meta h live seam) =
     (case h of None \<Rightarrow> 1 | Some _ \<Rightarrow> 2) + fuel_of live + length (deliveries live)"
| "fuel_of (Filtered inner policy) = Suc (fuel_of inner + length (deliveries inner))"
| "fuel_of _ = 1"

lemma fixture_next_rest:
  "fixture_next fx = (c, fx') \<Longrightarrow>
     (case fixture_rest fx of [] \<Rightarrow> c = None \<and> fx' = fx | d # ds \<Rightarrow> c = Some d \<and> fixture_rest fx' = ds)"
  by (auto simp: fixture_next_def fixture_rest_def split: if_splits list.splits)
    (metis Cons_nth_drop_Suc list.inject not_less drop_all list.distinct(1))+

definition pulled :: "(Candle option \<times> BarStream) option \<Rightarrow> BarStream \<Rightarrow> bool" where
  "pulled r s =
     (\<exists>s'. r = Some (case deliveries s of [] \<Rightarrow> None | c # _ \<Rightarrow> Some c, s')
        \<and> deliveries s' = tl (deliveries s) \<and> fuel_of s' \<le> fuel_of s)"

lemma pulled_cases:
  assumes "pulled r s"
  obtains s' where "deliveries s = []" "r = Some (None, s')" "deliveries s' = []" "fuel_of s' \<le> fuel_of s"
  | c s' where "deliveries s = c # deliveries s'" "r = Some (Some c, s')" "fuel_of s' \<le> fuel_of s"
  using assms by (cases "deliveries s") (auto simp: pulled_def)

lemma pulled_same:
  assumes "pulled r t" "deliveries t = deliveries s" "fuel_of t \<le> fuel_of s"
  shows "pulled r s"
  using assms by (auto simp: pulled_def)

lemma enough_fuel: "fuel_of s \<le> n \<Longrightarrow> pulled (stream_pull n s) s"
proof (induction n arbitrary: s)
  case 0
  then show ?case by (cases s) (auto split: option.splits)
next
  case (Suc n)
  show ?case
  proof (cases s)
    case (FixtureStream fx)
    obtain c fx' where "fixture_next fx = (c, fx')" by (cases "fixture_next fx")
    with fixture_next_rest [OF this] FixtureStream show ?thesis
      by (auto simp: pulled_def split: list.splits)
  next
    case (ChannelBarStream meta cs)
    then show ?thesis by (cases cs) (auto simp: pulled_def)
  next
    case (Resampled inner target meta emitted)
    then show ?thesis by (auto simp: pulled_def)
  next
    case (Filtered inner policy)
    then have "fuel_of inner \<le> n" using Suc.prems by simp
    from Suc.IH [OF this] show ?thesis
    proof (cases rule: pulled_cases)
      case 1
      then show ?thesis using Filtered by (auto simp: pulled_def)
    next
      case (2 c inner')
      have IH: "pulled (stream_pull n (Filtered inner' policy)) (Filtered inner' policy)"
        using Suc.prems Filtered 2 by (intro Suc.IH) simp
      show ?thesis
      proof (cases "policy_accept policy c")
        case True
        then show ?thesis using Filtered 2 by (auto simp: pulled_def)
      next
        case False
        then show ?thesis using Filtered 2 pulled_same [OF IH, of s] by simp
      qed
    qed
  next
    case (HistoryThenLive meta h live seam)
    show ?thesis
    proof (cases h)
      case (Some fx)
      obtain r fx' where fxn: "fixture_next fx = (r, fx')" by (cases "fixture_next fx")
      show ?thesis
      proof (cases "fixture_rest fx")
        case Nil
        have "pulled (stream_pull n (HistoryThenLive meta None live seam)) (HistoryThenLive meta None live seam)"
          using Suc.prems HistoryThenLive Some by (intro Suc.IH) simp
        from pulled_same [OF this, of s] show ?thesis
          using fixture_next_rest [OF fxn] HistoryThenLive Some Nil fxn by (simp add: history_rest_def)
      next
        case (Cons c cs)
        then show ?thesis
          using fixture_next_rest [OF fxn] HistoryThenLive Some fxn by (auto simp: pulled_def history_rest_def Let_def)
      qed
    next
      case None
      then have "fuel_of live \<le> n" using Suc.prems HistoryThenLive by simp
      from Suc.IH [OF this] show ?thesis
      proof (cases rule: pulled_cases)
        case 1
        then show ?thesis using HistoryThenLive None by (auto simp: pulled_def history_rest_def Let_def)
      next
        case (2 c live')
        have IH: "pulled (stream_pull n (HistoryThenLive meta None live' seam)) (HistoryThenLive meta None live' seam)"
          using Suc.prems HistoryThenLive None 2 by (intro Suc.IH) simp
        show ?thesis
        proof (cases "case seam of Some t \<Rightarrow> candle_open c < t | None \<Rightarrow> False")
          case True
          then show ?thesis
            using HistoryThenLive None 2 pulled_same [OF IH, of s] by (simp add: history_rest_def Let_def)
        next
          case False
          then show ?thesis using HistoryThenLive None 2 by (auto simp: pulled_def history_rest_def Let_def)
        qed
      qed
    qed
  qed
qed

text \<open>\<open>next\<close> returns on every stream the module builds, filters and seams included, and the stream
  delivers exactly its list: the history from the cursor on, then the live candles not older than what
  was delivered before, and of any stream the candles its filter accepts, in order.\<close>

lemma next_delivers_the_next_candle:
  "\<exists>s'. stream_pull (fuel_of s + k) s = Some (case deliveries s of [] \<Rightarrow> None | c # _ \<Rightarrow> Some c, s')
     \<and> deliveries s' = tl (deliveries s)"
  using enough_fuel [of s "fuel_of s + k"] by (auto simp: pulled_def)

section \<open>The chart shows its bars in order\<close>

lemma pump_applies_all:
  "fuel_of s + length (deliveries s) < n \<Longrightarrow> pump n s cs = Some (series_run (map ApplyOp (deliveries s)) cs)"
proof (induction n arbitrary: s cs)
  case (Suc n)
  have app: "apply_candle c cs = series_do (ApplyOp c) cs" for c cs
    by (cases "ca_completeness c") (simp_all add: apply_candle_def series_do_def)
  have "pulled (stream_pull n s) s" using Suc.prems by (intro enough_fuel) simp
  then show ?case
  proof (cases rule: pulled_cases)
    case 1
    then show ?thesis by simp
  next
    case (2 c s')
    have "fuel_of s' + length (deliveries s') < n" using Suc.prems 2 by simp
    from Suc.IH [OF this] 2 show ?thesis by (simp add: app split: option.splits)
  qed
qed simp

lemma since_sorted:
  "sorted (map candle_open (since seam cs))
    \<and> (\<forall>c \<in> set (since seam cs). case seam of None \<Rightarrow> True | Some s \<Rightarrow> s \<le> candle_open c)"
proof (induction seam cs rule: since.induct)
  case (2 seam c cs)
  show ?case
  proof (cases "case seam of Some s \<Rightarrow> candle_open c < s | None \<Rightarrow> False")
    case True
    then show ?thesis using 2(1) by simp
  next
    case False
    then show ?thesis using 2(2) by (cases seam) fastforce+
  qed
qed simp

lemma check_sorted_sorted: "check_sorted cs = None \<Longrightarrow> sorted (map candle_open cs)"
  by (induction cs rule: check_sorted.induct) (auto split: if_splits)

lemma fixture_sorted:
  assumes "FixtureBarStream_new meta candles = Ok h"
  shows "sorted (map candle_open (fixture_rest h))"
  using assms check_sorted_sorted [of candles]
  by (auto simp: FixtureBarStream_new_def fixture_rest_def split: option.splits)

lemma sorted_last_ge: "sorted (map f xs) \<Longrightarrow> x \<in> set xs \<Longrightarrow> f x \<le> f (last xs)"
  by (induction xs) (auto split: if_splits)

lemma joined_sorted:
  assumes "FixtureBarStream_new meta candles = Ok h"
  shows "sorted (map candle_open (deliveries (HistoryThenLive_new meta' h live)))"
proof -
  define hs where "hs = fixture_rest h"
  have hs: "sorted (map candle_open hs)" using fixture_sorted [OF assms] by (simp add: hs_def)
  show ?thesis
  proof (cases "hs = []")
    case True
    then show ?thesis using since_sorted by (simp add: HistoryThenLive_new_def history_rest_def hs_def)
  next
    case False
    have "candle_open c \<le> candle_open (last hs)" if "c \<in> set hs" for c
      using sorted_last_ge [OF hs that] .
    then show ?thesis
      using False hs since_sorted [of "Some (candle_open (last hs))" "deliveries live"]
      by (fastforce simp: HistoryThenLive_new_def history_rest_def hs_def [symmetric] sorted_append Let_def)
  qed
qed

text \<open>Rows whose openings rise.\<close>

definition rising :: "Row list \<Rightarrow> bool" where
  "rising rows = sorted_wrt (<) (map (\<lambda>r. sint (rw_ts r)) rows)"

lemma rising_snoc: "rising (rows @ [r]) \<longleftrightarrow> rising rows \<and> (\<forall>x \<in> set rows. sint (rw_ts x) < sint (rw_ts r))"
  by (simp add: rising_def sorted_wrt_append)

lemma rising_keep_last: "rising rows \<Longrightarrow> rising (keep_last cap rows)"
  by (auto simp: rising_def keep_last_def drop_map [symmetric] sorted_wrt_drop split: option.splits)

lemma set_keep_last: "set (keep_last cap rows) \<subseteq> set rows"
  by (auto simp: keep_last_def dest: in_set_dropD split: option.splits)

lemma nanos_value: "timestamp_nanos_opt t = Some w \<Longrightarrow> sint w = t"
  by (auto simp: timestamp_nanos_opt_def int_word_sint split: if_splits)

lemma sint_inj: "sint a = sint b \<Longrightarrow> a = (b :: i64)"
  by (drule arg_cong [of _ _ "word_of_int :: int \<Rightarrow> i64"]) simp

lemma apply_rising:
  assumes "rising rows" "\<forall>x \<in> set rows. sint (rw_ts x) \<le> candle_open c"
    and "timestamp_nanos_opt (candle_open c) = Some w"
  shows "rising (spec_do cap (ApplyOp c) rows) \<and> (\<forall>x \<in> set (spec_do cap (ApplyOp c) rows). sint (rw_ts x) \<le> candle_open c)"
proof -
  define r where "r = row_of w c"
  have r: "sint (rw_ts r) = candle_open c" using nanos_value [OF assms(3)] by (simp add: r_def row_of_def)
  have sp: "spec_do cap (ApplyOp c) rows
      = (if rows \<noteq> [] \<and> rw_ts (last rows) = rw_ts r then butlast rows @ [r] else keep_last cap (rows @ [r]))"
    using assms(3) by (simp add: spec_do_def r_def candle_open_def Let_def)
  show ?thesis
  proof (cases "rows \<noteq> [] \<and> rw_ts (last rows) = rw_ts r")
    case True
    then have "rising (butlast rows @ [last rows])" using assms(1) by simp
    then have "rising (butlast rows @ [r])" using True by (simp add: rising_snoc del: append_butlast_last_id)
    then show ?thesis using True assms(2) r in_set_butlastD by (fastforce simp: sp)
  next
    case False
    have "sint (rw_ts x) < candle_open c" if x: "x \<in> set rows" for x
    proof -
      have ne: "rows \<noteq> []" using x by auto
      then have "rising (butlast rows @ [last rows])" using assms(1) by simp
      then have "x = last rows \<or> sint (rw_ts x) < sint (rw_ts (last rows))"
        using x ne unfolding rising_snoc by (metis append_butlast_last_id in_set_conv_decomp list.set_intros(1) set_ConsD
            UnE set_append empty_iff empty_set)
      moreover have "sint (rw_ts (last rows)) \<noteq> candle_open c" using False ne r sint_inj by metis
      ultimately show ?thesis using assms(2) ne x by (metis last_in_set less_le_trans order_less_le)
    qed
    then have "rising (rows @ [r])" using assms(1) r by (simp add: rising_snoc)
    then show ?thesis
      using False assms(2) r rising_keep_last [of "rows @ [r]" cap] set_keep_last [of cap "rows @ [r]"] by (auto simp: sp)
  qed
qed

lemma fold_rising:
  assumes "rising rows" "\<forall>x \<in> set rows. \<forall>c \<in> set cs. sint (rw_ts x) \<le> candle_open c"
    and "sorted (map candle_open cs)" "\<forall>c \<in> set cs. timestamp_nanos_opt (candle_open c) \<noteq> None"
  shows "rising (fold (spec_do cap) (map ApplyOp cs) rows)"
  using assms
proof (induction cs arbitrary: rows)
  case (Cons c cs)
  obtain w where w: "timestamp_nanos_opt (candle_open c) = Some w" using Cons.prems(4) by auto
  have step: "rising (spec_do cap (ApplyOp c) rows)"
    "\<forall>x \<in> set (spec_do cap (ApplyOp c) rows). sint (rw_ts x) \<le> candle_open c"
    using apply_rising [OF Cons.prems(1) _ w] Cons.prems(2) by auto
  have "\<forall>x \<in> set (spec_do cap (ApplyOp c) rows). \<forall>d \<in> set cs. sint (rw_ts x) \<le> candle_open d"
    using step(2) Cons.prems(3) by force
  then show ?case using Cons.IH [OF step(1)] Cons.prems(3, 4) by simp
qed simp

lemma timestamps_of_rows: "cs_timestamps cs = map rw_ts (rows_of cs)"
  by (rule nth_equalityI) (simp_all add: series_len_def [symmetric] nth_rows row_at_def)

lemma series_run_rows:
  "case series_run xs (with_optional_cap calendar period symbol cap) of
     None \<Rightarrow> \<not> list_all (op_belongs calendar period symbol) xs
   | Some cs \<Rightarrow> list_all (op_belongs calendar period symbol) xs \<and> rows_of cs = fold (spec_do cap) xs []"
  using series_run_from [OF with_optional_cap_rows(1), of calendar period symbol cap xs]
  by (auto simp: with_optional_cap_identity with_optional_cap_rows(2) split: if_splits)

definition chart_run ::
  "BarStreamMeta \<Rightarrow> FixtureBarStream \<Rightarrow> BarStream \<Rightarrow> CandleSeries \<Rightarrow> CandleSeries option option" where
  "chart_run meta history live cs =
     (let s = HistoryThenLive_new meta history live in pump (Suc (fuel_of s + length (deliveries s))) s cs)"

text \<open>C15: A chart fed by a validated history and any live stream, cut at the seam: the pump returns;
  it panics only on a candle of another series; otherwise the series holds what the specification makes
  of the delivered candles, and the openings of its rows strictly rise, whatever the live stream sends.\<close>

theorem chart_rows_are_in_order:
  assumes "FixtureBarStream_new meta candles = Ok h"
  shows "case chart_run meta' h live (with_optional_cap calendar period symbol cap) of
      None \<Rightarrow> False
    | Some None \<Rightarrow>
        (\<exists>c \<in> set (deliveries (HistoryThenLive_new meta' h live)). \<not> belongs calendar period symbol c)
    | Some (Some cs) \<Rightarrow>
        rows_of cs = fold (spec_do cap) (map ApplyOp (deliveries (HistoryThenLive_new meta' h live))) []
        \<and> sorted_wrt (<) (map sint (cs_timestamps cs))"
proof -
  define ds where "ds = deliveries (HistoryThenLive_new meta' h live)"
  have run: "chart_run meta' h live (with_optional_cap calendar period symbol cap)
      = Some (series_run (map ApplyOp ds) (with_optional_cap calendar period symbol cap))"
    unfolding chart_run_def Let_def ds_def by (rule pump_applies_all) simp
  have all: "list_all (op_belongs calendar period symbol) (map ApplyOp ds) \<longleftrightarrow> (\<forall>c \<in> set ds. belongs calendar period symbol c)"
    by (simp add: list_all_iff op_belongs_def)
  show ?thesis
  proof (cases "series_run (map ApplyOp ds) (with_optional_cap calendar period symbol cap)")
    case None
    then show ?thesis
      using series_run_rows [where xs = "map ApplyOp ds" and calendar = calendar and period = period and symbol = symbol and cap = cap] all by (auto simp: run ds_def)
  next
    case (Some cs)
    have ok: "\<forall>c \<in> set ds. belongs calendar period symbol c" and rows: "rows_of cs = fold (spec_do cap) (map ApplyOp ds) []"
      using series_run_rows [where xs = "map ApplyOp ds" and calendar = calendar and period = period and symbol = symbol and cap = cap] all Some by auto
    have "rising (rows_of cs)"
      unfolding rows using ok joined_sorted [OF assms, of meta' live]
      by (intro fold_rising) (auto simp: rising_def belongs_def candle_open_def ds_def)
    then show ?thesis by (simp add: run Some rows ds_def [symmetric] timestamps_of_rows rising_def comp_def)
  qed
qed

section \<open>Snapshots of a joined stream\<close>

text \<open>
  The combined snapshot asks the history for the whole range, not for the part before the seam: with a
  live side that answers snapshots, the candles the history still has after the seam come twice.
\<close>

definition demo_meta :: BarStreamMeta where
  "demo_meta = \<lparr> bm_symbol = \<lparr> sy_ticker = ''BTC-USD'', sy_calendar = CRYPTO_SPOT_ID \<rparr>,
     bm_calendar = CRYPTO_SPOT civil_chrono, bm_period = m1 \<rparr>"

definition demo_candle :: "int \<Rightarrow> Candle" where
  "demo_candle minute =
     (let w = \<lparr> bw_open = minute * 60 * NANOS, bw_close = (minute + 1) * 60 * NANOS, bw_session = crypto_session 0 \<rparr> in
      \<lparr> ca_symbol = bm_symbol demo_meta, ca_calendar = CRYPTO_SPOT_ID, ca_period = m1, ca_session = crypto_session 0,
        ca_window = w, ca_o = 0, ca_h = 0, ca_l = 0, ca_c = 0, ca_volume = 0, ca_trade_count = 0, ca_wap = None,
        ca_completeness = Completed \<rparr>)"

definition demo_fixture :: FixtureBarStream where
  "demo_fixture = \<lparr> fx_meta = demo_meta, fx_candles = map demo_candle [1, 2, 3], fx_cursor = 0 \<rparr>"

lemma demo_fixture_ok: "FixtureBarStream_new demo_meta (map demo_candle [1, 2, 3]) = Ok demo_fixture"
proof -
  have "fixture_check_all demo_meta (map demo_candle [1, 2, 3]) 0 (map demo_candle [1, 2, 3]) = None" by code_simp
  moreover have "check_sorted (map demo_candle [1, 2, 3]) = None" by code_simp
  ultimately show ?thesis by (simp add: FixtureBarStream_new_def demo_fixture_def)
qed

lemma snapshot_repeats_the_history:
  "case stream_pull 4 (HistoryThenLive_new demo_meta demo_fixture (FixtureStream demo_fixture)) of
     Some (Some c, s) \<Rightarrow>
       map_option (map candle_open) (case stream_snapshot \<lparr> tr_from = 0, tr_to = 600 * NANOS \<rparr> s of Inr cs \<Rightarrow> Some cs | Inl e \<Rightarrow> None)
         = Some (map (\<lambda>m. m * 60 * NANOS) [1, 2, 3, 1, 2, 3])
   | _ \<Rightarrow> False"
  by code_simp

section \<open>Witness\<close>

lemma chart_rows_are_in_order_witness:
  "case chart_run demo_meta demo_fixture (ChannelBarStream demo_meta (map demo_candle [2, 3, 4]))
      (with_optional_cap CRYPTO_SPOT_ID m1 (bm_symbol demo_meta) None) of
     Some (Some cs) \<Rightarrow> sorted_wrt (<) (map sint (cs_timestamps cs)) \<and> length (cs_timestamps cs) = 4
   | _ \<Rightarrow> False"
proof -
  have "case chart_run demo_meta demo_fixture (ChannelBarStream demo_meta (map demo_candle [2, 3, 4]))
      (with_optional_cap CRYPTO_SPOT_ID m1 (bm_symbol demo_meta) None) of
     Some (Some cs) \<Rightarrow> length (cs_timestamps cs) = 4 | _ \<Rightarrow> False"
    by code_simp
  then show ?thesis
    using chart_rows_are_in_order [OF demo_fixture_ok, of demo_meta "ChannelBarStream demo_meta (map demo_candle [2, 3, 4])"
        CRYPTO_SPOT_ID m1 "bm_symbol demo_meta" None]
    by (auto split: option.splits)
qed

end
