(* ===== verification/Std_Slices.thy ===== *)
theory Std_Slices imports Midas_Prelude begin

text \<open>
  What the code uses of slices of the standard library: \<open>partition_point\<close> on a slice whose elements
  satisfy the predicate up to a point and not after it, and ranges, whose indexing panics out of bounds.
\<close>

definition partition_point :: "('a \<Rightarrow> bool) \<Rightarrow> 'a list \<Rightarrow> nat" where
  "partition_point P xs = length (takeWhile P xs)"

definition slice_range :: "nat \<times> nat \<Rightarrow> 'a list \<Rightarrow> 'a list option" where
  "slice_range r xs = (if fst r \<le> snd r \<and> snd r \<le> length xs then Some (take (snd r - fst r) (drop (fst r) xs)) else None)"

lemma partition_point_le: "partition_point P xs \<le> length xs"
  by (simp add: partition_point_def length_takeWhile_le)

lemma takeWhile_le_sorted: "sorted (xs :: 'a::linorder list) \<Longrightarrow> takeWhile (\<lambda>x. x \<le> t) xs = filter (\<lambda>x. x \<le> t) xs"
proof (induction xs)
  case (Cons a xs)
  have "filter (\<lambda>x. x \<le> t) xs = []" if "\<not> a \<le> t"
    using that Cons.prems by (auto simp: filter_empty_conv)
  with Cons show ?case by (cases "a \<le> t") simp_all
qed simp

lemma partition_mono:
  "a \<le> b \<Longrightarrow> partition_point (\<lambda>x. x < (a :: 'a::linorder)) xs \<le> partition_point (\<lambda>x. x \<le> b) xs"
  by (induction xs) (auto simp: partition_point_def)

lemma slice_between:
  assumes "sorted (xs :: 'a::linorder list)" "a \<le> b"
  shows "slice_range (partition_point (\<lambda>x. x < a) xs, partition_point (\<lambda>x. x \<le> b) xs) xs
    = Some (filter (\<lambda>x. a \<le> x \<and> x \<le> b) xs)"
proof -
  have "take (partition_point (\<lambda>x. x \<le> b) xs - partition_point (\<lambda>x. x < a) xs) (drop (partition_point (\<lambda>x. x < a) xs) xs)
      = filter (\<lambda>x. a \<le> x \<and> x \<le> b) xs"
    using assms
  proof (induction xs)
    case (Cons x xs)
    have ab: "x < a \<Longrightarrow> x \<le> b" using Cons.prems by simp
    consider "x < a" | "a \<le> x" "x \<le> b" | "b < x" by fastforce
    then show ?case
    proof cases
      case 1
      then show ?thesis using Cons ab by (auto simp: partition_point_def)
    next
      case 2
      have "filter (\<lambda>y. a \<le> y \<and> y \<le> b) xs = takeWhile (\<lambda>y. y \<le> b) xs"
        using Cons.prems 2 by (auto simp: takeWhile_le_sorted intro!: filter_cong)
      then show ?thesis using 2 by (simp add: partition_point_def takeWhile_eq_take [symmetric])
    next
      case 3
      then have "filter (\<lambda>x. a \<le> x \<and> x \<le> b) xs = []" using Cons.prems by (auto simp: filter_empty_conv)
      moreover have "\<not> x \<le> b" "\<not> x < a" using 3 Cons.prems(2) by auto
      ultimately show ?thesis by (simp add: partition_point_def)
    qed
  qed (simp add: partition_point_def)
  then show ?thesis
    using partition_mono [OF assms(2)] by (simp add: slice_range_def partition_point_le)
qed

end
