(* ===== verification/Chart_Buffer.thy ===== *)
theory Chart_Buffer imports Std_Slices Bars_Series Market_Aggregator_Props begin

text \<open>
  The chart's candle buffer, \<open>desktop/win/crates/midas-core/src/candle_buffer/mod.rs\<close>: one column per
  field, instants in milliseconds. It is proved to be a list of rows. The check of \<open>push_with_session\<close>
  is a debug assertion, which a release build does not make: \<open>push_asserts\<close> is its condition.
\<close>

section \<open>The buffer\<close>

fun kind_byte :: "SessionKind \<Rightarrow> u8" where
  "kind_byte RegularKind = 0" | "kind_byte PreMarket = 1" | "kind_byte PostMarket = 2"
| "kind_byte BreakKind = 3" | "kind_byte Overnight = 4" | "kind_byte ClosedKind = 5"

definition session_kind_from_u8 :: "u8 \<Rightarrow> SessionKind" where
  "session_kind_from_u8 b =
     (if b = kind_byte RegularKind then RegularKind else if b = kind_byte PreMarket then PreMarket
      else if b = kind_byte PostMarket then PostMarket else if b = kind_byte BreakKind then BreakKind
      else if b = kind_byte Overnight then Overnight else if b = kind_byte ClosedKind then ClosedKind
      else RegularKind)"

record CandleBuffer =
  cb_timestamps :: "int list"
  cb_opens :: "f32 list"
  cb_highs :: "f32 list"
  cb_lows :: "f32 list"
  cb_closes :: "f32 list"
  cb_volumes :: "u32 list"
  cb_sessions :: "u8 list"
  cb_version :: u64

definition CandleBuffer_new :: CandleBuffer where
  "CandleBuffer_new = \<lparr> cb_timestamps = [], cb_opens = [], cb_highs = [], cb_lows = [], cb_closes = [],
     cb_volumes = [], cb_sessions = [], cb_version = 0 \<rparr>"

definition buffer_len :: "CandleBuffer \<Rightarrow> nat" where
  "buffer_len b = length (cb_timestamps b)"

text \<open>Set the last element of a column; the code does so only on columns that are not empty.\<close>

definition set_last :: "'a \<Rightarrow> 'a list \<Rightarrow> 'a list" where
  "set_last x xs = xs[length xs - 1 := x]"

definition bump :: "CandleBuffer \<Rightarrow> CandleBuffer" where
  "bump b = b\<lparr> cb_version := cb_version b + 1 \<rparr>"

definition push_asserts :: "int \<Rightarrow> CandleBuffer \<Rightarrow> bool" where
  "push_asserts ts b = (cb_timestamps b = [] \<or> ts > last (cb_timestamps b))"

definition push_with_session ::
  "int \<Rightarrow> f32 \<Rightarrow> f32 \<Rightarrow> f32 \<Rightarrow> f32 \<Rightarrow> u32 \<Rightarrow> SessionKind \<Rightarrow> CandleBuffer \<Rightarrow> CandleBuffer" where
  "push_with_session ts op h l c v session b =
     bump (b\<lparr> cb_timestamps := cb_timestamps b @ [ts], cb_opens := cb_opens b @ [op], cb_highs := cb_highs b @ [h],
              cb_lows := cb_lows b @ [l], cb_closes := cb_closes b @ [c], cb_volumes := cb_volumes b @ [v],
              cb_sessions := cb_sessions b @ [kind_byte session] \<rparr>)"

definition buffer_push :: "int \<Rightarrow> f32 \<Rightarrow> f32 \<Rightarrow> f32 \<Rightarrow> f32 \<Rightarrow> u32 \<Rightarrow> CandleBuffer \<Rightarrow> CandleBuffer" where
  "buffer_push ts op h l c v b = push_with_session ts op h l c v RegularKind b"

definition update_last :: "int \<Rightarrow> f32 \<Rightarrow> f32 \<Rightarrow> f32 \<Rightarrow> f32 \<Rightarrow> u32 \<Rightarrow> CandleBuffer \<Rightarrow> CandleBuffer" where
  "update_last ts op h l c v b =
     (if cb_timestamps b = [] then b
      else bump (b\<lparr> cb_timestamps := set_last ts (cb_timestamps b), cb_opens := set_last op (cb_opens b),
                   cb_highs := set_last h (cb_highs b), cb_lows := set_last l (cb_lows b),
                   cb_closes := set_last c (cb_closes b), cb_volumes := set_last v (cb_volumes b) \<rparr>))"

definition apply_bar ::
  "int \<Rightarrow> f32 \<Rightarrow> f32 \<Rightarrow> f32 \<Rightarrow> f32 \<Rightarrow> u32 \<Rightarrow> SessionKind \<Rightarrow> CandleBuffer \<Rightarrow> CandleBuffer" where
  "apply_bar ts op h l c v session b =
     (if cb_timestamps b \<noteq> [] \<and> last (cb_timestamps b) = ts
      then bump (b\<lparr> cb_opens := set_last op (cb_opens b), cb_highs := set_last h (cb_highs b),
                   cb_lows := set_last l (cb_lows b), cb_closes := set_last c (cb_closes b),
                   cb_volumes := set_last v (cb_volumes b), cb_sessions := set_last (kind_byte session) (cb_sessions b) \<rparr>)
      else if cb_timestamps b \<noteq> [] \<and> last (cb_timestamps b) > ts then b
      else push_with_session ts op h l c v session b)"

definition buffer_last_price :: "f32 \<Rightarrow> CandleBuffer \<Rightarrow> CandleBuffer" where
  "buffer_last_price price b =
     (if \<not> f32_is_finite price then b
      else if cb_closes b = [] then b
      else let b = (if f32_lt (last (cb_highs b)) price then b\<lparr> cb_highs := set_last price (cb_highs b) \<rparr> else b);
               b = (if f32_lt price (last (cb_lows b)) then b\<lparr> cb_lows := set_last price (cb_lows b) \<rparr> else b)
           in bump (b\<lparr> cb_closes := set_last price (cb_closes b) \<rparr>))"

definition merge_bar ::
  "int \<Rightarrow> f32 \<Rightarrow> f32 \<Rightarrow> f32 \<Rightarrow> f32 \<Rightarrow> u32 \<Rightarrow> SessionKind \<Rightarrow> CandleBuffer \<Rightarrow> CandleBuffer" where
  "merge_bar bucket op h l c v session b =
     (if cb_timestamps b \<noteq> [] \<and> last (cb_timestamps b) = bucket
      then let b = (if f32_lt (last (cb_highs b)) h then b\<lparr> cb_highs := set_last h (cb_highs b) \<rparr> else b);
               b = (if f32_lt l (last (cb_lows b)) then b\<lparr> cb_lows := set_last l (cb_lows b) \<rparr> else b)
           in bump (b\<lparr> cb_closes := set_last c (cb_closes b),
                      cb_volumes := set_last (saturating_add_u32 (last (cb_volumes b)) v) (cb_volumes b) \<rparr>)
      else if cb_timestamps b \<noteq> [] \<and> last (cb_timestamps b) > bucket then b
      else push_with_session bucket op h l c v session b)"

section \<open>Reading\<close>

definition buffer_session_kind :: "nat \<Rightarrow> CandleBuffer \<Rightarrow> SessionKind option" where
  "buffer_session_kind i b =
     (if i < length (cb_sessions b) then Some (session_kind_from_u8 (cb_sessions b ! i)) else None)"

text \<open>\<open>f32::MAX\<close> and \<open>f32::MIN\<close>.\<close>

definition F32_MAX :: f32 where "F32_MAX = 2139095039"
definition F32_MIN :: f32 where "F32_MIN = 4286578687"

definition price_range :: "nat \<times> nat \<Rightarrow> CandleBuffer \<Rightarrow> (f32 \<times> f32) option" where
  "price_range r b =
     (case (slice_range r (cb_highs b), slice_range r (cb_lows b)) of
        (Some highs, Some lows) \<Rightarrow>
          Some (foldl (\<lambda>min_low l. if f32_lt l min_low then l else min_low) F32_MAX lows,
                foldl (\<lambda>max_high h. if f32_lt max_high h then h else max_high) F32_MIN highs)
      | _ \<Rightarrow> None)"

definition find_index_by_time :: "int \<Rightarrow> CandleBuffer \<Rightarrow> nat" where
  "find_index_by_time target b =
     (if cb_timestamps b = [] then 0
      else min (partition_point (\<lambda>ts. ts < target) (cb_timestamps b)) (buffer_len b - 1))"

definition find_index_ge :: "int \<Rightarrow> CandleBuffer \<Rightarrow> nat" where
  "find_index_ge target b = partition_point (\<lambda>ts. ts < target) (cb_timestamps b)"

definition find_index_gt :: "int \<Rightarrow> CandleBuffer \<Rightarrow> nat" where
  "find_index_gt target b = partition_point (\<lambda>ts. ts \<le> target) (cb_timestamps b)"

definition visible_range :: "int \<Rightarrow> int \<Rightarrow> CandleBuffer \<Rightarrow> nat \<times> nat" where
  "visible_range start_ts end_ts b = (find_index_ge start_ts b, find_index_gt end_ts b)"

text \<open>A slice is a buffer of the rows of a range, with no counter of its own.\<close>

definition buffer_slice :: "nat \<times> nat \<Rightarrow> CandleBuffer \<Rightarrow> CandleBuffer option" where
  "buffer_slice r b =
     (case (slice_range r (cb_timestamps b), slice_range r (cb_opens b), slice_range r (cb_highs b),
            slice_range r (cb_lows b), slice_range r (cb_closes b), slice_range r (cb_volumes b),
            slice_range r (cb_sessions b)) of
        (Some ts, Some ops, Some hs, Some ls, Some cs, Some vs, Some ss) \<Rightarrow>
          Some \<lparr> cb_timestamps = ts, cb_opens = ops, cb_highs = hs, cb_lows = ls, cb_closes = cs, cb_volumes = vs,
                 cb_sessions = ss, cb_version = 0 \<rparr>
      | _ \<Rightarrow> None)"

section \<open>The buffer is a list of rows\<close>

record BufRow =
  bf_ts :: int
  bf_open :: f32
  bf_high :: f32
  bf_low :: f32
  bf_close :: f32
  bf_volume :: u32
  bf_session :: u8

definition buffer_of :: "BufRow list \<Rightarrow> u64 \<Rightarrow> CandleBuffer" where
  "buffer_of rows version =
     \<lparr> cb_timestamps = map bf_ts rows, cb_opens = map bf_open rows, cb_highs = map bf_high rows,
       cb_lows = map bf_low rows, cb_closes = map bf_close rows, cb_volumes = map bf_volume rows,
       cb_sessions = map bf_session rows, cb_version = version \<rparr>"

datatype buffer_op =
    PushRow int f32 f32 f32 f32 u32 SessionKind
  | UpdateLast int f32 f32 f32 f32 u32
  | ApplyBar int f32 f32 f32 f32 u32 SessionKind
  | MergeBar int f32 f32 f32 f32 u32 SessionKind
  | LastPrice f32

fun buffer_do :: "buffer_op \<Rightarrow> CandleBuffer \<Rightarrow> CandleBuffer" where
  "buffer_do (PushRow t op h l c v k) b = push_with_session t op h l c v k b"
| "buffer_do (UpdateLast t op h l c v) b = update_last t op h l c v b"
| "buffer_do (ApplyBar t op h l c v k) b = apply_bar t op h l c v k b"
| "buffer_do (MergeBar t op h l c v k) b = merge_bar t op h l c v k b"
| "buffer_do (LastPrice p) b = buffer_last_price p b"

definition new_row :: "int \<Rightarrow> f32 \<Rightarrow> f32 \<Rightarrow> f32 \<Rightarrow> f32 \<Rightarrow> u32 \<Rightarrow> u8 \<Rightarrow> BufRow" where
  "new_row t op h l c v k = \<lparr> bf_ts = t, bf_open = op, bf_high = h, bf_low = l, bf_close = c, bf_volume = v, bf_session = k \<rparr>"

definition stretch :: "f32 \<Rightarrow> f32 \<Rightarrow> BufRow \<Rightarrow> BufRow" where
  "stretch h l r = r\<lparr> bf_high := (if f32_lt (bf_high r) h then h else bf_high r),
                      bf_low := (if f32_lt l (bf_low r) then l else bf_low r) \<rparr>"

text \<open>What an operation does to the last row, if there is one: keep it, replace it, or append a row.\<close>

fun row_do :: "buffer_op \<Rightarrow> BufRow option \<Rightarrow> (BufRow option \<times> BufRow option) option" where
  "row_do (PushRow t op h l c v k) r = Some (r, Some (new_row t op h l c v (kind_byte k)))"
| "row_do (UpdateLast t op h l c v) r =
     (case r of None \<Rightarrow> None | Some r \<Rightarrow> Some (Some (new_row t op h l c v (bf_session r)), None))"
| "row_do (ApplyBar t op h l c v k) r =
     (case r of
        None \<Rightarrow> Some (None, Some (new_row t op h l c v (kind_byte k)))
      | Some r \<Rightarrow>
          if bf_ts r = t then Some (Some (new_row t op h l c v (kind_byte k)), None)
          else if bf_ts r > t then None
          else Some (Some r, Some (new_row t op h l c v (kind_byte k))))"
| "row_do (MergeBar t op h l c v k) r =
     (case r of
        None \<Rightarrow> Some (None, Some (new_row t op h l c v (kind_byte k)))
      | Some r \<Rightarrow>
          if bf_ts r = t
          then Some (Some ((stretch h l r)\<lparr> bf_close := c, bf_volume := saturating_add_u32 (bf_volume r) v \<rparr>), None)
          else if bf_ts r > t then None
          else Some (Some r, Some (new_row t op h l c v (kind_byte k))))"
| "row_do (LastPrice p) r =
     (case r of
        None \<Rightarrow> None
      | Some r \<Rightarrow> if f32_is_finite p then Some (Some ((stretch p p r)\<lparr> bf_close := p \<rparr>), None) else None)"

definition last_row :: "BufRow list \<Rightarrow> BufRow option" where
  "last_row rows = (if rows = [] then None else Some (last rows))"

definition opt_list :: "'a option \<Rightarrow> 'a list" where
  "opt_list r = (case r of None \<Rightarrow> [] | Some x \<Rightarrow> [x])"

text \<open>The specification: rows and the count of changes.\<close>

definition spec_step :: "buffer_op \<Rightarrow> BufRow list \<times> u64 \<Rightarrow> BufRow list \<times> u64" where
  "spec_step x st =
     (case row_do x (last_row (fst st)) of
        None \<Rightarrow> st
      | Some (r, new) \<Rightarrow> (butlast (fst st) @ opt_list r @ opt_list new, snd st + 1))"

lemma set_last_map: "set_last x (map f rs @ [y]) = map f rs @ [x]"
  by (simp add: set_last_def list_update_append)

lemma buffer_do_rows: "buffer_do x (buffer_of rows n) = case_prod buffer_of (spec_step x (rows, n))"
proof (cases rows rule: rev_cases)
  case Nil
  then show ?thesis
    by (cases x) (simp_all add: buffer_of_def spec_step_def last_row_def opt_list_def push_with_session_def bump_def
        update_last_def apply_bar_def merge_bar_def buffer_last_price_def new_row_def)
next
  case (snoc rs r)
  then show ?thesis
    by (cases x) (auto simp add: buffer_of_def spec_step_def last_row_def opt_list_def push_with_session_def bump_def
        update_last_def apply_bar_def merge_bar_def buffer_last_price_def new_row_def set_last_map stretch_def Let_def)
qed

text \<open>C26: The columns of the buffer are one list of rows under any sequence of its operations: an
  operation keeps, replaces or extends the last row and leaves every other row alone, and the version
  counts the operations that changed something.\<close>

theorem buffer_refines_rows:
  "fold buffer_do xs CandleBuffer_new = case_prod buffer_of (fold spec_step xs ([], 0))"
proof -
  have "fold buffer_do xs (buffer_of (fst st) (snd st)) = case_prod buffer_of (fold spec_step xs st)" for st
  proof (induction xs arbitrary: st)
    case (Cons x xs)
    then show ?case using buffer_do_rows [of x "fst st" "snd st"] by (simp add: case_prod_unfold)
  qed (simp add: case_prod_unfold)
  from this [of "([], 0)"] show ?thesis by (simp add: buffer_of_def CandleBuffer_new_def)
qed

end
