(* ===== verification/Chart_Timeframe.thy ===== *)
theory Chart_Timeframe imports Calendar_Crypto Market_Types begin

text \<open>
  The chart's timeframes, \<open>desktop/win/crates/midas-core/src/timeframe/mod.rs\<close>: their file suffixes and
  the boundaries of their bars. The enum has the constructors and durations of the broker's \<open>Timeframe\<close>.
  Instants are milliseconds since the epoch, in the range of the date library, where no sum leaves 64
  bits; \<open>None\<close> is a panic of one of the \<open>expect\<close>s.
\<close>

fun file_suffix :: "Timeframe \<Rightarrow> string" where
  "file_suffix S1 = ''1s''" | "file_suffix S5 = ''5s''" | "file_suffix S15 = ''15s''" | "file_suffix S30 = ''30s''"
| "file_suffix M1 = ''1m''" | "file_suffix M5 = ''5m''" | "file_suffix M15 = ''15m''" | "file_suffix M30 = ''30m''"
| "file_suffix H1 = ''1H''" | "file_suffix H4 = ''4H''" | "file_suffix D1 = ''1D''" | "file_suffix W1 = ''1W''"
| "file_suffix MN1 = ''1M''"

definition display_name :: "Timeframe \<Rightarrow> string" where
  "display_name tf = file_suffix tf"

definition from_suffix :: "string \<Rightarrow> Timeframe option" where
  "from_suffix s =
     (if s = ''1s'' then Some S1 else if s = ''5s'' then Some S5 else if s = ''15s'' then Some S15
      else if s = ''30s'' then Some S30 else if s = ''1m'' then Some M1 else if s = ''5m'' then Some M5
      else if s = ''15m'' then Some M15 else if s = ''30m'' then Some M30 else if s = ''1H'' then Some H1
      else if s = ''4H'' then Some H4 else if s = ''1D'' then Some D1 else if s = ''1W'' then Some W1
      else if s = ''1M'' then Some MN1 else None)"

definition is_calendar :: "Timeframe \<Rightarrow> bool" where
  "is_calendar tf = (tf \<in> {W1, MN1})"

definition DAY_MS :: int where "DAY_MS = 86400000"

text \<open>\<open>DateTime::from_timestamp_millis\<close> and the date of the instant.\<close>

definition date_of_millis :: "chrono \<Rightarrow> int \<Rightarrow> NaiveDate option" where
  "date_of_millis C ts_ms = (if from_timestamp C (ts_ms div 1000) = None then None else Some (ts_ms div DAY_MS))"

definition floor_timestamp :: "chrono \<Rightarrow> Timeframe \<Rightarrow> int \<Rightarrow> int option" where
  "floor_timestamp C tf ts_ms =
     (case tf of
        D1 \<Rightarrow> Some (ts_ms - ts_ms mod DAY_MS)
      | W1 \<Rightarrow> (let days = ts_ms div DAY_MS; dow = (days + 3) mod 7 in Some ((days - dow) * DAY_MS))
      | MN1 \<Rightarrow>
          (case date_of_millis C ts_ms of
             None \<Rightarrow> None
           | Some d \<Rightarrow> map_option (\<lambda>first. first * DAY_MS) (from_ymd_opt C (date_year C d) (date_month C d) 1))
      | _ \<Rightarrow> (let period_ms = int (as_secs tf) * 1000 in Some (ts_ms - ts_ms mod period_ms)))"

definition next_boundary :: "chrono \<Rightarrow> Timeframe \<Rightarrow> int \<Rightarrow> int option" where
  "next_boundary C tf ts_ms =
     (case tf of
        MN1 \<Rightarrow>
          (case date_of_millis C ts_ms of
             None \<Rightarrow> None
           | Some d \<Rightarrow>
               map_option (\<lambda>first. first * DAY_MS)
                 (if date_month C d = 12 then from_ymd_opt C (date_year C d + 1) 1 1
                  else from_ymd_opt C (date_year C d) (date_month C d + 1) 1))
      | _ \<Rightarrow> map_option (\<lambda>floored. floored + int (as_secs tf) * 1000) (floor_timestamp C tf ts_ms))"

lemma suffix_roundtrip: "from_suffix (file_suffix tf) = Some tf"
  by (cases tf) (simp_all add: from_suffix_def)

text \<open>Within a step \<open>k\<close> from the start of the step.\<close>

lemma mod_floor:
  fixes a t k :: int
  assumes "0 < k"
  shows "a - a mod k \<le> t \<and> t < a - a mod k + k \<longleftrightarrow> t - t mod k = a - a mod k"
proof -
  have a: "a - a mod k = a div k * k" and t: "t - t mod k = t div k * k" by (simp_all add: minus_mod_eq_div_mult)
  have "a div k * k \<le> t \<and> t < (a div k + 1) * k \<longleftrightarrow> t div k = a div k"
    unfolding div_between [OF assms] by auto
  then show ?thesis unfolding a t using assms by (simp add: algebra_simps)
qed

lemma day_le: "a * DAY_MS \<le> t \<longleftrightarrow> a \<le> t div DAY_MS" and day_less: "t < a * DAY_MS \<longleftrightarrow> t div DAY_MS < a"
  using mult_le_iff_le_div [of DAY_MS a t] by (auto simp: DAY_MS_def not_le [symmetric])

lemma week_floor:
  "floor_timestamp C W1 t = Some (monday_of (t div DAY_MS) * DAY_MS)"
  by (simp add: floor_timestamp_def monday_of_def Let_def)

lemma floor_cases:
  assumes "gregorian C" "floor_timestamp C tf a = Some lo" "next_boundary C tf a = Some hi"
  shows "lo \<le> t \<and> t < hi \<longleftrightarrow>
    (case tf of
       W1 \<Rightarrow> monday_of (t div DAY_MS) = monday_of (a div DAY_MS)
     | MN1 \<Rightarrow> civil_year (t div DAY_MS) = civil_year (a div DAY_MS) \<and> civil_month (t div DAY_MS) = civil_month (a div DAY_MS)
     | _ \<Rightarrow> t - t mod (int (as_secs tf) * 1000) = a - a mod (int (as_secs tf) * 1000))"
proof (cases tf)
  case MN1
  define d where "d = a div DAY_MS"
  obtain x y m z where first: "from_ymd_opt C (civil_year d) (civil_month d) 1 = Some x" "lo = x * DAY_MS"
    and after: "next_month (civil_year d) (civil_month d) = (y, m)" "from_ymd_opt C y m 1 = Some z" "hi = z * DAY_MS"
    using assms(2, 3) gregorianD(3, 4) [OF assms(1)] unfolding MN1 d_def
    by (auto simp: floor_timestamp_def next_boundary_def date_of_millis_def next_month_def split: option.splits if_splits)
  have "civil (civil_year d) (civil_month d) 1 = Some x" "civil y m 1 = Some z"
    using first after gregorianD(1) [OF assms(1)] by auto
  then have "x \<le> t div DAY_MS \<and> t div DAY_MS < z \<longleftrightarrow> civil_year (t div DAY_MS) = civil_year d \<and> civil_month (t div DAY_MS) = civil_month d"
    using between_firsts [of "civil_year d" "civil_month d" x y m z "t div DAY_MS"]
      same_month [OF civil_month_range [of "t div DAY_MS"] civil_month_range [of d] after(1)] by simp
  then show ?thesis by (simp add: MN1 first(2) after(3) day_le day_less d_def)
next
  case W1
  have "lo = monday_of (a div DAY_MS) * DAY_MS" "hi = (monday_of (a div DAY_MS) + 7) * DAY_MS"
    using assms(2, 3) unfolding W1
    by (simp_all add: next_boundary_def week_floor DAY_MS_def)
  then show ?thesis using monday_of_week [of "a div DAY_MS" "t div DAY_MS"] by (simp add: W1 day_le day_less)
qed (use assms(2, 3) mod_floor [of "int (as_secs tf) * 1000" a t] in
    \<open>auto simp: floor_timestamp_def next_boundary_def DAY_MS_def Let_def\<close>)

lemma floor_tiles:
  assumes "gregorian C" "floor_timestamp C tf a = Some lo" "next_boundary C tf a = Some hi"
    and "floor_timestamp C tf t = Some lo'"
  shows "lo \<le> t \<and> t < hi \<longleftrightarrow> lo' = lo"
proof (cases tf)
  case MN1
  have first: "civil (civil_year (u div DAY_MS)) (civil_month (u div DAY_MS)) 1 = Some (l div DAY_MS) \<and> l = l div DAY_MS * DAY_MS"
    if "floor_timestamp C tf u = Some l" for u l
    using that gregorianD(1, 3, 4) [OF assms(1)] unfolding MN1
    by (auto simp: floor_timestamp_def date_of_millis_def DAY_MS_def split: option.splits if_splits)
  let ?d = "a div DAY_MS" and ?e = "t div DAY_MS"
  have same: "lo \<le> t \<and> t < hi \<longleftrightarrow> civil_year ?e = civil_year ?d \<and> civil_month ?e = civil_month ?d"
    using floor_cases [OF assms(1, 2, 3), of t] by (simp add: MN1)
  note fa = first [OF assms(2)] and ft = first [OF assms(4)]
  show ?thesis
  proof
    assume "lo \<le> t \<and> t < hi"
    then show "lo' = lo" using same fa ft by simp
  next
    assume "lo' = lo"
    then show "lo \<le> t \<and> t < hi" using same civil_parts [OF conjunct1 [OF fa]] civil_parts [OF conjunct1 [OF ft]] by simp
  qed
next
  case W1
  then show ?thesis
    using floor_cases [OF assms(1, 2, 3), of t] assms(2, 4) by (auto simp: week_floor DAY_MS_def)
qed (use floor_cases [OF assms(1, 2, 3), of t] assms(2, 4) in \<open>auto simp: floor_timestamp_def DAY_MS_def Let_def\<close>)

end
