(* ===== verification/Bars_Resolver.thy ===== *)
theory Bars_Resolver imports Bars_Candle Std_Strings "HOL-Library.Sublist" begin

text \<open>
  From a ticker to its symbol, calendar and contract, \<open>crates/midas-bars-adapter/src/resolver.rs\<close>, and
  the application's \<open>resolve_calendar\<close> (\<open>desktop/win/crates/midas-app/src/app.rs\<close>). The table of the
  static resolver is a map from tickers.
\<close>

record ResolvedSymbol =
  rs_symbol :: Symbol
  rs_calendar :: ExchangeCalendar
  rs_contract_id :: i32

datatype ResolveError = UnknownTicker string | LookupError string

section \<open>The static table\<close>

type_synonym StaticSymbolResolver = "string \<rightharpoonup> ExchangeCalendar \<times> i32"

definition static_empty :: StaticSymbolResolver where "static_empty = Map.empty"

definition static_register :: "string \<Rightarrow> ExchangeCalendar \<Rightarrow> i32 \<Rightarrow> StaticSymbolResolver \<Rightarrow> StaticSymbolResolver" where
  "static_register ticker calendar contract_id r = r(ticker \<mapsto> (calendar, contract_id))"

definition static_new :: "chrono \<Rightarrow> StaticSymbolResolver" where
  "static_new C =
     fold (\<lambda>(t, cal, cid). static_register t cal cid)
       [(''BTC-USD'', CRYPTO_SPOT C, 1000000001), (''ETH-USD'', CRYPTO_SPOT C, 1000000002),
        (''AAPL'', XNYS C, 265598), (''SPY'', XNYS C, 756733), (''MSFT'', XNYS C, 272093),
        (''TSLA'', XNYS C, 76792991), (''NVDA'', XNYS C, 4815747)]
       static_empty"

definition resolved :: "string \<Rightarrow> ExchangeCalendar \<Rightarrow> i32 \<Rightarrow> ResolvedSymbol" where
  "resolved ticker calendar contract_id =
     \<lparr> rs_symbol = \<lparr> sy_ticker = ticker, sy_calendar = cal_id calendar \<rparr>, rs_calendar = calendar,
       rs_contract_id = contract_id \<rparr>"

definition static_resolve :: "StaticSymbolResolver \<Rightarrow> string \<Rightarrow> (ResolvedSymbol, ResolveError) rust_result" where
  "static_resolve r ticker =
     (case r ticker of
        Some (calendar, contract_id) \<Rightarrow> Ok (resolved ticker calendar contract_id)
      | None \<Rightarrow> Err (UnknownTicker ticker))"

section \<open>The heuristic\<close>

definition to_ascii_uppercase :: "string \<Rightarrow> string" where
  "to_ascii_uppercase s = map (\<lambda>c. let n = of_char c :: nat in if 97 \<le> n \<and> n \<le> 122 then char_of (n - 32) else c) s"

definition is_crypto :: "string \<Rightarrow> bool" where
  "is_crypto ticker =
     (let upper = to_ascii_uppercase ticker in
      suffix ''-USD'' upper \<or> suffix ''-USDT'' upper \<or> suffix ''-USDC'' upper
      \<or> sublist ''BTC'' upper \<or> sublist ''ETH'' upper)"

definition stable_hash :: "string \<Rightarrow> u32 \<Rightarrow> u32" where
  "stable_hash ticker seed = foldl (\<lambda>h b. h * 33 + of_nat (of_char b)) (5381 + seed) ticker"

definition heuristic_resolve :: "chrono \<Rightarrow> string \<Rightarrow> (ResolvedSymbol, ResolveError) rust_result" where
  "heuristic_resolve C ticker =
     (let (calendar, seed, base) =
            (if is_crypto ticker then (CRYPTO_SPOT C, 0xC0DEC0DE, 2000000000)
             else (XNYS C, 0x57B157B1, 0 :: int));
          window = (if base = 0 then 1000000000 else 100000000);
          off = stable_hash ticker seed mod window
      in Ok (resolved ticker calendar (word_of_int (min (base + sint (ucast off :: i32)) (2 ^ 31 - 1)))))"

definition resolve_calendar :: "chrono \<Rightarrow> string \<Rightarrow> ExchangeCalendar" where
  "resolve_calendar C symbol =
     (case heuristic_resolve C symbol of Inr r \<Rightarrow> rs_calendar r | Inl _ \<Rightarrow> XNYS C)"

section \<open>What a resolution promises\<close>

lemma mod_window:
  fixes w :: u32
  assumes "0 < n" "n < 2 ^ 31"
  shows "0 \<le> sint (ucast (w mod word_of_int n) :: i32)" "sint (ucast (w mod word_of_int n) :: i32) < n"
proof -
  have "uint (word_of_int n :: u32) = n" using assms by (simp add: uint_word_of_int)
  then have u: "uint (w mod word_of_int n) = uint w mod n" by (simp add: uint_mod)
  have "sint (ucast (w mod word_of_int n) :: i32) = uint w mod n"
    using order.strict_trans [OF pos_mod_bound [OF assms(1), of "uint w"] assms(2)]
      order.trans [OF _ pos_mod_sign [OF assms(1), of "uint w"], of "- 2147483648"]
    by (simp add: ucast_id u sint_uint signed_take_bit_int_eq_self)
  then show "0 \<le> sint (ucast (w mod word_of_int n) :: i32)" "sint (ucast (w mod word_of_int n) :: i32) < n"
    using assms by simp_all
qed

lemma sint_small: "- (2 ^ 31) \<le> x \<Longrightarrow> x < 2 ^ 31 \<Longrightarrow> sint (word_of_int x :: i32) = x"
  by (simp add: int_word_sint)

text \<open>The heuristic resolves every ticker: to the crypto calendar with a contract from two thousand
  million, below two thousand one hundred million, if the ticker looks like a pair, and otherwise to New
  York with one from 0, below a thousand million; no sum leaves 32 bits, and the symbol it makes belongs
  to the calendar, as the bars require.\<close>

lemma heuristic_resolves_apart:
  "case heuristic_resolve C ticker of
     Inl _ \<Rightarrow> False
   | Inr r \<Rightarrow>
       sy_calendar (rs_symbol r) = cal_id (rs_calendar r) \<and> rs_calendar r = resolve_calendar C ticker
       \<and> (if is_crypto ticker
          then rs_calendar r = CRYPTO_SPOT C \<and> sint (rs_contract_id r) \<in> {2000000000..<2100000000}
          else rs_calendar r = XNYS C \<and> sint (rs_contract_id r) \<in> {0..<1000000000})"
proof -
  have a: "0 \<le> sint (ucast (w mod 100000000) :: i32)" "sint (ucast (w mod 100000000) :: i32) < 100000000" for w :: u32
    using mod_window [of 100000000 w] by simp_all
  have b: "0 \<le> sint (ucast (w mod 1000000000) :: i32)" "sint (ucast (w mod 1000000000) :: i32) < 1000000000" for w :: u32
    using mod_window [of 1000000000 w] by simp_all
  show ?thesis
    using a [of "stable_hash ticker 0xC0DEC0DE"] b [of "stable_hash ticker 0x57B157B1"]
    by (simp add: heuristic_resolve_def resolve_calendar_def resolved_def sint_small min_def Let_def del: of_int_add)
qed

end
