(* ===== verification/Chart_Live.thy ===== *)
theory Chart_Live imports Chart_Buffer Chart_Timeframe Bars_Resolver Annot_Store begin

text \<open>
  The data of the legacy charts, \<open>desktop/win/crates/midas-app/src/app.rs\<close> with \<open>app/handlers.rs\<close> and
  \<open>app/ticker_wiring.rs\<close>: histories loaded for a chart's symbol, with the guard against stale loads;
  batches of bars of the chart's timeframe, batches of shorter bars merged into buckets, and quotes. A
  chart is its identity, its symbol, its buffer and its load generation; cameras, the flags that ask for
  a repaint and the requests to load are left out, so a load is the message that brings its result.
\<close>

section \<open>Folding one bar\<close>

definition timestamp_millis :: "DateTime \<Rightarrow> int" where
  "timestamp_millis ts = ts div 1000000"

definition narrow_volume :: "u64 \<Rightarrow> u32" where
  "narrow_volume v = ucast (min v (2 ^ 32 - 1))"

definition apply_bar_to_buffer :: "ExchangeCalendar \<Rightarrow> Bar \<Rightarrow> CandleBuffer \<Rightarrow> CandleBuffer" where
  "apply_bar_to_buffer cal bar b =
     apply_bar (timestamp_millis (bar_ts_open bar)) (as_f32 (bar_o bar)) (as_f32 (bar_h bar)) (as_f32 (bar_l bar))
       (as_f32 (bar_c bar)) (narrow_volume (bar_volume bar)) (ses_kind (cal_classify cal (bar_ts_open bar))) b"

text \<open>Division of 64-bit integers, by a positive one, rounds towards zero.\<close>

definition div_trunc :: "int \<Rightarrow> int \<Rightarrow> int" where
  "div_trunc a k = (if 0 \<le> a then a div k else - (- a div k))"

definition bucket_open :: "int \<Rightarrow> Bar \<Rightarrow> int" where
  "bucket_open bucket_ms bar = div_trunc (timestamp_millis (bar_ts_open bar)) bucket_ms * bucket_ms"

definition merge_sub_bar :: "int \<Rightarrow> ExchangeCalendar \<Rightarrow> Bar \<Rightarrow> CandleBuffer \<Rightarrow> CandleBuffer" where
  "merge_sub_bar bucket_ms cal bar b =
     merge_bar (bucket_open bucket_ms bar) (as_f32 (bar_o bar)) (as_f32 (bar_h bar)) (as_f32 (bar_l bar))
       (as_f32 (bar_c bar)) (narrow_volume (bar_volume bar)) (ses_kind (cal_classify cal (bar_ts_open bar))) b"

section \<open>The charts\<close>

record ChartPanel =
  cp_id :: nat
  cp_symbol :: string
  cp_data :: "CandleBuffer option"
  cp_load_generation :: u64

datatype chart_msg =
    ChartBarBatch nat "Bar list"
  | ChartSubBarBatch nat "Bar list" u64
  | QuotePrice string f32
  | LoadSymbol nat string
  | ActivateChart nat
  | DataLoaded nat string u64 "(CandleBuffer, string) rust_result"
  | DataRestoredFromStartup nat string u64 "(CandleBuffer, string) rust_result"

definition make_empty_panel :: "nat \<Rightarrow> ChartPanel" where
  "make_empty_panel cid = \<lparr> cp_id = cid, cp_symbol = [], cp_data = None, cp_load_generation = 0 \<rparr>"

text \<open>The history of a chart, as the router answers it.\<close>

definition bars_to_candle_buffer :: "Bar list \<Rightarrow> ExchangeCalendar \<Rightarrow> CandleBuffer" where
  "bars_to_candle_buffer bars cal =
     fold (\<lambda>bar. push_with_session (timestamp_millis (bar_ts_open bar)) (as_f32 (bar_o bar)) (as_f32 (bar_h bar))
             (as_f32 (bar_l bar)) (as_f32 (bar_c bar)) (narrow_volume (bar_volume bar))
             (ses_kind (cal_classify cal (bar_ts_open bar)))) bars CandleBuffer_new"

definition with_chart :: "nat \<Rightarrow> (ChartPanel \<Rightarrow> ChartPanel) \<Rightarrow> ChartPanel list \<Rightarrow> ChartPanel list" where
  "with_chart cid f charts = map (\<lambda>ch. if cp_id ch = cid then f ch else ch) charts"

definition bind_chart_to_symbol :: "nat \<Rightarrow> string \<Rightarrow> ChartPanel list \<Rightarrow> ChartPanel list" where
  "bind_chart_to_symbol cid key charts = with_chart cid (\<lambda>ch. ch\<lparr> cp_symbol := key \<rparr>) charts"

definition load_symbol_for_chart :: "nat \<Rightarrow> string \<Rightarrow> ChartPanel list \<Rightarrow> ChartPanel list" where
  "load_symbol_for_chart cid symbol charts =
     (let symbol = List.map ascii_upper (str_trim symbol) in
      if symbol = [] then charts
      else bind_chart_to_symbol cid (SymbolKey_new symbol)
             (with_chart cid (\<lambda>ch. ch\<lparr> cp_load_generation := cp_load_generation ch + 1, cp_data := None \<rparr>) charts))"

text \<open>A chart that has a symbol is bound to it again, in the spelling of the key.\<close>

definition rebind :: "ChartPanel \<Rightarrow> ChartPanel" where
  "rebind ch = (if cp_symbol ch = [] then ch else ch\<lparr> cp_symbol := SymbolKey_new (cp_symbol ch) \<rparr>)"

definition stale_load :: "string \<Rightarrow> u64 \<Rightarrow> ChartPanel \<Rightarrow> bool" where
  "stale_load requested_symbol gen ch \<longleftrightarrow>
     List.map ascii_upper (cp_symbol ch) \<noteq> requested_symbol \<or> cp_load_generation ch \<noteq> gen"

definition data_loaded :: "string \<Rightarrow> u64 \<Rightarrow> (CandleBuffer, string) rust_result \<Rightarrow> ChartPanel \<Rightarrow> ChartPanel" where
  "data_loaded requested_symbol gen result ch =
     (if stale_load requested_symbol gen ch then ch
      else case result of
        Inr buffer \<Rightarrow> ch\<lparr> cp_data := Some buffer \<rparr>
      | Inl e \<Rightarrow> ch\<lparr> cp_data := None \<rparr>)"

definition data_restored :: "string \<Rightarrow> u64 \<Rightarrow> (CandleBuffer, string) rust_result \<Rightarrow> ChartPanel \<Rightarrow> ChartPanel" where
  "data_restored requested_symbol gen result ch =
     (if stale_load requested_symbol gen ch then ch
      else case result of
        Inr buffer \<Rightarrow> rebind (ch\<lparr> cp_data := Some buffer \<rparr>)
      | Inl e \<Rightarrow> ch)"

definition update_chart :: "nat \<Rightarrow> (ChartPanel \<Rightarrow> CandleBuffer \<Rightarrow> CandleBuffer) \<Rightarrow> ChartPanel list \<Rightarrow> ChartPanel list" where
  "update_chart cid f charts =
     map (\<lambda>ch. if cp_id ch = cid then ch\<lparr> cp_data := map_option (f ch) (cp_data ch) \<rparr> else ch) charts"

definition apply_quote_to_matching_charts :: "string \<Rightarrow> f32 \<Rightarrow> ChartPanel list \<Rightarrow> ChartPanel list" where
  "apply_quote_to_matching_charts symbol_str price charts =
     map (\<lambda>ch. if eq_ignore_ascii_case (cp_symbol ch) symbol_str
               then ch\<lparr> cp_data := map_option (buffer_last_price price) (cp_data ch) \<rparr> else ch) charts"

definition bucket_millis :: "u64 \<Rightarrow> int" where
  "bucket_millis bucket_secs = sint (bucket_secs * 1000)"

definition handle_chart_msg :: "chrono \<Rightarrow> chart_msg \<Rightarrow> ChartPanel list \<Rightarrow> ChartPanel list" where
  "handle_chart_msg C msg charts =
     (case msg of
        ChartBarBatch cid bars \<Rightarrow>
          update_chart cid (\<lambda>ch. fold (apply_bar_to_buffer (resolve_calendar C (cp_symbol ch))) bars) charts
      | ChartSubBarBatch cid bars bucket_secs \<Rightarrow>
          (let bucket_ms = bucket_millis bucket_secs in
           if bucket_ms \<le> 0 then charts
           else update_chart cid (\<lambda>ch. fold (merge_sub_bar bucket_ms (resolve_calendar C (cp_symbol ch))) bars) charts)
      | QuotePrice symbol price \<Rightarrow> apply_quote_to_matching_charts symbol price charts
      | LoadSymbol cid symbol \<Rightarrow> load_symbol_for_chart cid symbol charts
      | ActivateChart cid \<Rightarrow> with_chart cid rebind charts
      | DataLoaded cid requested_symbol gen result \<Rightarrow>
          with_chart cid (data_loaded requested_symbol gen result) charts
      | DataRestoredFromStartup cid requested_symbol gen result \<Rightarrow>
          with_chart cid (data_restored requested_symbol gen result) charts)"

section \<open>Charts stay in order\<close>

definition sorted_rows :: "BufRow list \<Rightarrow> bool" where
  "sorted_rows rows = sorted_wrt (<) (map bf_ts rows)"

definition chart_ok :: "ChartPanel \<Rightarrow> bool" where
  "chart_ok ch = (case cp_data ch of None \<Rightarrow> True | Some b \<Rightarrow> \<exists>rows n. b = buffer_of rows n \<and> sorted_rows rows)"

text \<open>The operations a live feed makes.\<close>

fun live :: "buffer_op \<Rightarrow> bool" where
  "live (ApplyBar t op h l c v k) = True"
| "live (MergeBar t op h l c v k) = True"
| "live (LastPrice p) = True"
| "live _ = False"

lemma sorted_snoc: "sorted_rows (rs @ [r]) \<longleftrightarrow> sorted_rows rs \<and> (\<forall>x \<in> set rs. bf_ts x < bf_ts r)"
  by (simp add: sorted_rows_def sorted_wrt_append)

lemma sorted_snoc2: "sorted_rows (rs @ [r, q]) \<longleftrightarrow> sorted_rows (rs @ [r]) \<and> (\<forall>x \<in> set rs. bf_ts x < bf_ts q) \<and> bf_ts r < bf_ts q"
  by (auto simp: sorted_rows_def sorted_wrt_append)

lemma live_sorted:
  assumes "live x" "sorted_rows rows"
  shows "sorted_rows (fst (spec_step x (rows, n)))"
proof (cases rows rule: rev_cases)
  case Nil
  then show ?thesis using assms
    by (cases x) (simp_all add: spec_step_def last_row_def opt_list_def sorted_rows_def)
next
  case (snoc rs r)
  then show ?thesis using assms
    by (cases x)
      (auto simp: spec_step_def last_row_def opt_list_def sorted_snoc sorted_snoc2 new_row_def stretch_def
        dest: order.strict_trans)
qed

lemma live_fold:
  assumes "list_all live xs" "sorted_rows rows"
  shows "\<exists>rows' n'. fold buffer_do xs (buffer_of rows n) = buffer_of rows' n' \<and> sorted_rows rows'"
  using assms
proof (induction xs arbitrary: rows n)
  case (Cons x xs)
  obtain rows' n' where s: "spec_step x (rows, n) = (rows', n')" by (cases "spec_step x (rows, n)")
  then have "sorted_rows rows'" using live_sorted [of x rows n] Cons.prems by simp
  with Cons s show ?case by (simp add: buffer_do_rows)
qed auto

text \<open>A batch is a list of buffer operations.\<close>

definition apply_op :: "ExchangeCalendar \<Rightarrow> Bar \<Rightarrow> buffer_op" where
  "apply_op cal bar = ApplyBar (timestamp_millis (bar_ts_open bar)) (as_f32 (bar_o bar)) (as_f32 (bar_h bar))
     (as_f32 (bar_l bar)) (as_f32 (bar_c bar)) (narrow_volume (bar_volume bar)) (ses_kind (cal_classify cal (bar_ts_open bar)))"

definition merge_op :: "int \<Rightarrow> ExchangeCalendar \<Rightarrow> Bar \<Rightarrow> buffer_op" where
  "merge_op k cal bar = MergeBar (bucket_open k bar) (as_f32 (bar_o bar)) (as_f32 (bar_h bar))
     (as_f32 (bar_l bar)) (as_f32 (bar_c bar)) (narrow_volume (bar_volume bar)) (ses_kind (cal_classify cal (bar_ts_open bar)))"

lemma buffer_do_ops:
  "buffer_do (apply_op cal bar) = apply_bar_to_buffer cal bar" "buffer_do (merge_op k cal bar) = merge_sub_bar k cal bar"
  by (simp_all add: fun_eq_iff apply_op_def merge_op_def apply_bar_to_buffer_def merge_sub_bar_def)

lemma batches_are_ops:
  "fold (apply_bar_to_buffer cal) bars = fold buffer_do (map (apply_op cal) bars)"
  "fold (merge_sub_bar k cal) bars = fold buffer_do (map (merge_op k cal) bars)"
  by (simp_all add: fold_map comp_def buffer_do_ops)

lemma ops_live: "list_all live (map (apply_op cal) bars)" "list_all live (map (merge_op k cal) bars)"
  by (simp_all add: list_all_iff apply_op_def merge_op_def)

lemma ops_keep_chart:
  assumes "chart_ok ch" "list_all live xs"
  shows "chart_ok (ch\<lparr> cp_data := map_option (fold buffer_do xs) (cp_data ch) \<rparr>)"
  using assms live_fold [OF assms(2)] by (auto simp: chart_ok_def split: option.splits)

text \<open>A history that may be loaded: columns of one length, instants that strictly rise.\<close>

definition buffer_in_order :: "CandleBuffer \<Rightarrow> bool" where
  "buffer_in_order b \<longleftrightarrow> sorted_wrt (<) (cb_timestamps b)
     \<and> (let n = length (cb_timestamps b) in
        length (cb_opens b) = n \<and> length (cb_highs b) = n \<and> length (cb_lows b) = n
        \<and> length (cb_closes b) = n \<and> length (cb_volumes b) = n \<and> length (cb_sessions b) = n)"

definition loads_in_order :: "chart_msg \<Rightarrow> bool" where
  "loads_in_order msg = (case msg of
     DataLoaded cid s g (Inr b) \<Rightarrow> buffer_in_order b
   | DataRestoredFromStartup cid s g (Inr b) \<Rightarrow> buffer_in_order b
   | _ \<Rightarrow> True)"

lemma new_buffer: "CandleBuffer_new = buffer_of [] 0"
  by (simp add: buffer_of_def CandleBuffer_new_def)

lemma buffer_in_order_rows:
  "buffer_in_order b \<longleftrightarrow> (\<exists>rows n. b = buffer_of rows n \<and> sorted_rows rows)"
proof
  assume b: "buffer_in_order b"
  define rows where "rows = map (\<lambda>i. \<lparr> bf_ts = cb_timestamps b ! i, bf_open = cb_opens b ! i, bf_high = cb_highs b ! i,
    bf_low = cb_lows b ! i, bf_close = cb_closes b ! i, bf_volume = cb_volumes b ! i,
    bf_session = cb_sessions b ! i \<rparr>) [0..<length (cb_timestamps b)]"
  have col: "map ((!) xs) [0..<n] = xs" if "length xs = n" for n and xs :: "'a list"
    using that map_nth [of xs] by simp
  have "b = buffer_of rows (cb_version b)"
    using b by (simp add: buffer_of_def rows_def comp_def col buffer_in_order_def Let_def)
  moreover from this b have "sorted_rows rows"
    by (metis CandleBuffer.select_convs(1) buffer_in_order_def buffer_of_def sorted_rows_def)
  ultimately show "\<exists>rows n. b = buffer_of rows n \<and> sorted_rows rows" by blast
qed (auto simp: buffer_in_order_def buffer_of_def sorted_rows_def)

lemma chart_ok_in_order: "chart_ok ch \<longleftrightarrow> (\<forall>b. cp_data ch = Some b \<longrightarrow> buffer_in_order b)"
  by (auto simp: chart_ok_def buffer_in_order_rows split: option.split)

text \<open>The history the router answers is one, when its bars open one after the other.\<close>

definition push_op :: "ExchangeCalendar \<Rightarrow> Bar \<Rightarrow> buffer_op" where
  "push_op cal bar = PushRow (timestamp_millis (bar_ts_open bar)) (as_f32 (bar_o bar)) (as_f32 (bar_h bar))
     (as_f32 (bar_l bar)) (as_f32 (bar_c bar)) (narrow_volume (bar_volume bar)) (ses_kind (cal_classify cal (bar_ts_open bar)))"

lemma history_is_in_order:
  assumes "sorted_wrt (<) (map (\<lambda>bar. timestamp_millis (bar_ts_open bar)) bars)"
  shows "buffer_in_order (bars_to_candle_buffer bars cal)
    \<and> cb_timestamps (bars_to_candle_buffer bars cal) = map (\<lambda>bar. timestamp_millis (bar_ts_open bar)) bars"
proof -
  have "\<exists>rows n. bars_to_candle_buffer bars cal = buffer_of rows n
      \<and> map bf_ts rows = map (\<lambda>bar. timestamp_millis (bar_ts_open bar)) bars"
  proof (induction bars rule: rev_induct)
    case Nil
    have "bars_to_candle_buffer [] cal = buffer_of [] 0" by (simp add: bars_to_candle_buffer_def new_buffer)
    then show ?case by (metis list.simps(8))
  next
    case (snoc bar bars)
    then obtain rows n where r: "bars_to_candle_buffer bars cal = buffer_of rows n"
      "map bf_ts rows = map (\<lambda>bar. timestamp_millis (bar_ts_open bar)) bars" by blast
    have "bars_to_candle_buffer (bars @ [bar]) cal = buffer_do (push_op cal bar) (bars_to_candle_buffer bars cal)"
      by (simp add: bars_to_candle_buffer_def push_op_def)
    also have "\<dots> = case_prod buffer_of (spec_step (push_op cal bar) (rows, n))"
      by (simp only: r(1) buffer_do_rows)
    also have "spec_step (push_op cal bar) (rows, n)
        = (rows @ [new_row (timestamp_millis (bar_ts_open bar)) (as_f32 (bar_o bar)) (as_f32 (bar_h bar))
            (as_f32 (bar_l bar)) (as_f32 (bar_c bar)) (narrow_volume (bar_volume bar))
            (kind_byte (ses_kind (cal_classify cal (bar_ts_open bar))))], n + 1)" (is "_ = (rows @ [?r], _)")
      using append_butlast_last_id [of rows]
      by (cases "rows = []") (simp_all add: push_op_def spec_step_def last_row_def opt_list_def flip: append_assoc)
    finally have "bars_to_candle_buffer (bars @ [bar]) cal = buffer_of (rows @ [?r]) (n + 1)" by simp
    moreover have "map bf_ts (rows @ [?r]) = map (\<lambda>bar. timestamp_millis (bar_ts_open bar)) (bars @ [bar])"
      using r(2) by (simp add: new_row_def)
    ultimately show ?case by blast
  qed
  then show ?thesis
    using assms by (auto simp: buffer_in_order_rows sorted_rows_def) (simp_all add: buffer_of_def)
qed

lemma with_chart_keeps:
  "list_all chart_ok charts \<Longrightarrow> (\<And>ch. chart_ok ch \<Longrightarrow> chart_ok (f ch)) \<Longrightarrow> list_all chart_ok (with_chart cid f charts)"
  by (auto simp: with_chart_def list_all_iff)

lemma loads_keep_chart:
  "chart_ok ch \<Longrightarrow> chart_ok (rebind ch)"
  "chart_ok ch \<Longrightarrow> loads_in_order (DataLoaded cid s g res) \<Longrightarrow> chart_ok (data_loaded s g res ch)"
  "chart_ok ch \<Longrightarrow> loads_in_order (DataRestoredFromStartup cid s g res) \<Longrightarrow> chart_ok (data_restored s g res ch)"
  by (auto simp: chart_ok_in_order rebind_def data_loaded_def data_restored_def loads_in_order_def split: sum.splits)

lemma load_symbol_keeps: "list_all chart_ok charts \<Longrightarrow> list_all chart_ok (load_symbol_for_chart cid s charts)"
  by (auto simp: load_symbol_for_chart_def bind_chart_to_symbol_def Let_def chart_ok_in_order intro!: with_chart_keeps)

lemma handle_keeps_charts:
  assumes ok: "list_all chart_ok charts" and loads: "loads_in_order msg"
  shows "list_all chart_ok (handle_chart_msg C msg charts)"
proof -
  have up: "list_all chart_ok (update_chart cid (\<lambda>ch. fold buffer_do (xs ch)) charts)"
    if "\<And>ch. list_all live (xs ch)" for cid and xs :: "ChartPanel \<Rightarrow> buffer_op list"
    using ok that by (auto simp: update_chart_def list_all_iff intro!: ops_keep_chart)
  have q: "map_option (buffer_last_price p) = map_option (fold buffer_do [LastPrice p])" for p
    by (rule arg_cong [of _ _ map_option]) (simp add: fun_eq_iff)
  show ?thesis
  proof (cases msg)
    case (ChartBarBatch cid bars)
    then show ?thesis using up [OF ops_live(1)] by (simp add: handle_chart_msg_def batches_are_ops)
  next
    case (ChartSubBarBatch cid bars secs)
    then show ?thesis using up [OF ops_live(2)] ok by (simp add: handle_chart_msg_def batches_are_ops Let_def)
  next
    case (QuotePrice s p)
    show ?thesis
      using ok ops_keep_chart [of _ "[LastPrice p]"]
      by (auto simp: QuotePrice handle_chart_msg_def apply_quote_to_matching_charts_def list_all_iff q)
  qed (use ok loads in \<open>auto simp: handle_chart_msg_def load_symbol_keeps
        intro!: with_chart_keeps loads_keep_chart\<close>)
qed

text \<open>
  The charts of a start: new panels, or those of the configuration, which have their symbol already.
  None has data before its first load.
\<close>

definition fresh_charts :: "(nat \<times> string) list \<Rightarrow> ChartPanel list" where
  "fresh_charts cs = map (\<lambda>(i, s). (make_empty_panel i)\<lparr> cp_symbol := s \<rparr>) cs"

lemma slice_range_map: "slice_range r (map f xs) = map_option (map f) (slice_range r xs)"
  by (simp add: slice_range_def take_map drop_map)

lemma visible_slice:
  assumes "sorted_rows rows"
  shows "map_option cb_timestamps (buffer_slice (visible_range a (a + int k) (buffer_of rows n)) (buffer_of rows n))
    = Some (filter (\<lambda>t. a \<le> t \<and> t \<le> a + int k) (map bf_ts rows))"
proof -
  have "sorted (map bf_ts rows)" using assms by (simp add: sorted_rows_def strict_sorted_imp_sorted)
  from slice_between [OF this, of a "a + int k"]
  show ?thesis
    by (auto simp: visible_range_def find_index_ge_def find_index_gt_def buffer_of_def buffer_slice_def slice_range_map)
qed

text \<open>C16: Whatever loads, symbol switches, batches and quotes reach the charts, in whatever order, if every
  history that is loaded is in order (columns of one length, instants that strictly rise), then so is the
  buffer of every chart that has one, so that pushing never trips the debug assertion; and the visible
  part of a chart is exactly its candles between the two instants: the binary searches see sorted data.
  Charts start without data and get it from loads only.\<close>

theorem live_charts_stay_in_order:
  assumes "list_all loads_in_order msgs"
  shows "list_all (\<lambda>ch. case cp_data ch of
       None \<Rightarrow> True
     | Some b \<Rightarrow>
         buffer_in_order b
         \<and> map_option cb_timestamps (buffer_slice (visible_range a (a + int k) b) b)
             = Some (filter (\<lambda>t. a \<le> t \<and> t \<le> a + int k) (cb_timestamps b)))
     (fold (handle_chart_msg C) msgs (fresh_charts cs))"
proof -
  have "list_all chart_ok (fold (handle_chart_msg C) msgs charts)" if "list_all chart_ok charts" for charts
    using that assms
  proof (induction msgs arbitrary: charts)
    case (Cons msg msgs)
    then show ?case using handle_keeps_charts [of charts msg C] by simp
  qed simp
  moreover have "list_all chart_ok (fresh_charts cs)"
    by (auto simp: fresh_charts_def make_empty_panel_def list_all_iff chart_ok_def)
  ultimately have ok: "list_all chart_ok (fold (handle_chart_msg C) msgs (fresh_charts cs))" by blast
  have "buffer_in_order (buffer_of rows n)" "cb_timestamps (buffer_of rows n) = map bf_ts rows"
    if "sorted_rows rows" for rows n
    using that by (auto simp: buffer_in_order_rows buffer_of_def)
  then show ?thesis
    using ok visible_slice [where a = a and k = k]
    by (auto simp: list_all_iff chart_ok_def split: option.splits) fastforce+
qed

section \<open>Merging makes one candle per bucket\<close>

definition bucket_row :: "int \<Rightarrow> ExchangeCalendar \<Rightarrow> Bar list \<Rightarrow> BufRow" where
  "bucket_row k cal bars =
     \<lparr> bf_ts = bucket_open k (hd bars), bf_open = as_f32 (bar_o (hd bars)),
       bf_high = foldl (\<lambda>h b. if f32_lt h (as_f32 (bar_h b)) then as_f32 (bar_h b) else h) (as_f32 (bar_h (hd bars))) (tl bars),
       bf_low = foldl (\<lambda>l b. if f32_lt (as_f32 (bar_l b)) l then as_f32 (bar_l b) else l) (as_f32 (bar_l (hd bars))) (tl bars),
       bf_close = as_f32 (bar_c (last bars)),
       bf_volume = foldl (\<lambda>v b. saturating_add_u32 v (narrow_volume (bar_volume b))) (narrow_volume (bar_volume (hd bars))) (tl bars),
       bf_session = kind_byte (ses_kind (cal_classify cal (bar_ts_open (hd bars)))) \<rparr>"

lemma bucket_row_snoc:
  "bars \<noteq> [] \<Longrightarrow> bucket_row k cal (bars @ [x]) = (stretch (as_f32 (bar_h x)) (as_f32 (bar_l x)) (bucket_row k cal bars))
     \<lparr> bf_close := as_f32 (bar_c x),
       bf_volume := saturating_add_u32 (bf_volume (bucket_row k cal bars)) (narrow_volume (bar_volume x)) \<rparr>"
  by (cases bars) (simp_all add: bucket_row_def stretch_def)

lemma bucket_open_mono: "0 < k \<Longrightarrow> bar_ts_open a \<le> bar_ts_open b \<Longrightarrow> bucket_open k a \<le> bucket_open k b"
proof -
  assume k: "0 < k" and le: "bar_ts_open a \<le> bar_ts_open b"
  then have m: "timestamp_millis (bar_ts_open a) \<le> timestamp_millis (bar_ts_open b)"
    unfolding timestamp_millis_def by (intro zdiv_mono1) simp_all
  have "div_trunc x k \<le> div_trunc y k" if "x \<le> y" for x y
  proof (cases "0 \<le> x")
    case True
    then show ?thesis using that k by (simp add: div_trunc_def zdiv_mono1)
  next
    case False
    then show ?thesis
      using that k zdiv_mono1 [of "- y" "- x" k] pos_imp_zdiv_nonneg_iff [OF k, of y] pos_imp_zdiv_nonneg_iff [OF k, of "- x"]
      by (auto simp: div_trunc_def)
  qed
  from this [OF m] k show ?thesis by (simp add: bucket_open_def)
qed

text \<open>Bars that come in the order of time make one candle per bucket: the first open, the last close,
  the extremes, the saturated sum of the volumes, and the session of the first bar.\<close>

lemma sub_bars_make_bucket_candles:
  assumes "sorted (map bar_ts_open bars)" and "0 < k"
  shows "fold (merge_sub_bar k cal) bars CandleBuffer_new
    = buffer_of (map (bucket_row k cal) (runs (bucket_open k) bars)) (of_nat (length bars))"
  using assms(1)
proof (induction bars rule: rev_induct)
  case Nil
  then show ?case by (simp add: new_buffer)
next
  case (snoc x bars)
  let ?rs = "runs (bucket_open k) bars"
  let ?rows = "map (bucket_row k cal) ?rs" and ?n = "of_nat (length bars) :: u64"
  have IH: "fold (merge_sub_bar k cal) bars CandleBuffer_new = buffer_of ?rows ?n"
    using snoc by (simp add: sorted_append)
  have step: "merge_sub_bar k cal x (buffer_of ?rows ?n) = case_prod buffer_of
      (spec_step (merge_op k cal x) (?rows, ?n))"
    using buffer_do_rows [of "merge_op k cal x" ?rows ?n] by (simp add: buffer_do_ops)
  have one: "new_row (bucket_open k x) (as_f32 (bar_o x)) (as_f32 (bar_h x)) (as_f32 (bar_l x)) (as_f32 (bar_c x))
      (narrow_volume (bar_volume x)) (kind_byte (ses_kind (cal_classify cal (bar_ts_open x)))) = bucket_row k cal [x]"
    by (simp add: new_row_def bucket_row_def)
  show ?case
  proof (cases "bars = []")
    case True
    then show ?thesis using step by (simp add: new_buffer spec_step_def last_row_def opt_list_def merge_op_def one)
  next
    case False
    note l = last_run [OF False, of "bucket_open k"]
    have ts: "bf_ts (last ?rows) = bucket_open k (last bars)" and ne: "?rs \<noteq> []"
      using l False by (simp_all add: last_map bucket_row_def)
    have "bar_ts_open (last bars) \<le> bar_ts_open x" using snoc.prems False by (simp add: sorted_append)
    then have le: "bucket_open k (last bars) \<le> bucket_open k x" by (rule bucket_open_mono [OF assms(2)])
    show ?thesis
    proof (cases "bucket_open k (last bars) = bucket_open k x")
      case True
      then show ?thesis
        using False ts ne l
        by (simp add: IH step spec_step_def last_row_def opt_list_def merge_op_def runs_snoc map_butlast last_map bucket_row_snoc add.commute)
    next
      case nb: False
      have whole: "butlast ?rows @ [last ?rows, y] = ?rows @ [y]" for y
        using ne append_butlast_last_id [of ?rows] by (metis append.assoc append_Cons append_Nil map_is_Nil_conv)
      show ?thesis
        using False ts ne le nb
        by (simp add: whole IH step spec_step_def last_row_def opt_list_def merge_op_def runs_snoc one add.commute)
    qed
  qed
qed

section \<open>Weeks\<close>

text \<open>
  The buckets of the live feed start where their length divides the instant: weeks start on Thursdays,
  as the epoch did, where \<open>floor_timestamp\<close> of the same chart starts them on Mondays.
\<close>

lemma week_bucket:
  assumes "0 \<le> ms" "monday = monday_of (ms div DAY_MS) * DAY_MS"
  shows "ms div (604800 * 1000) * (604800 * 1000)
    = (if ms < monday + 3 * DAY_MS then monday - 4 * DAY_MS else monday + 3 * DAY_MS)"
proof -
  define d where "d = ms div DAY_MS"
  have week: "ms div (604800 * 1000) = d div 7" by (simp add: d_def DAY_MS_def zdiv_zmult2_eq [symmetric])
  have monday: "monday = monday_of d * DAY_MS" by (simp add: assms(2) d_def)
  have less: "ms < monday + 3 * DAY_MS \<longleftrightarrow> d < monday_of d + 3"
    using day_less [of ms "monday_of d + 3"] by (simp add: monday d_def algebra_simps)
  have "7 * (d div 7) = (if d < monday_of d + 3 then monday_of d - 4 else monday_of d + 3)"
    unfolding monday_of_eq by presburger
  moreover have "d div 7 * (604800 * 1000) = 7 * (d div 7) * DAY_MS" by (simp add: DAY_MS_def)
  ultimately show ?thesis unfolding week less by (simp add: monday left_diff_distrib distrib_right)
qed

text \<open>C20: A weekly chart whose last candle opens on the Monday of the week takes no live bar from Monday to
  Wednesday: each is dropped as out of order. From Thursday on, the bars of the same week open a second
  candle, three days after the first.\<close>

theorem weekly_chart_splits_its_week:
  assumes "floor_timestamp C W1 (timestamp_millis (bar_ts_open bar)) = Some monday"
    and "0 \<le> timestamp_millis (bar_ts_open bar)" and "bf_ts r = monday"
  shows "merge_sub_bar (bucket_millis (of_nat (as_secs W1))) cal bar (buffer_of (rows @ [r]) n)
    = (if timestamp_millis (bar_ts_open bar) < monday + 3 * DAY_MS then buffer_of (rows @ [r]) n
       else buffer_of (rows @ [r, (bucket_row 604800000 cal [bar])\<lparr> bf_ts := monday + 3 * DAY_MS \<rparr>]) (n + 1))"
proof -
  define ms where "ms = timestamp_millis (bar_ts_open bar)"
  have k: "bucket_millis 604800 = 604800000" by (simp add: bucket_millis_def)
  have monday: "monday = monday_of (ms div DAY_MS) * DAY_MS" using assms(1) by (simp add: week_floor ms_def)
  have bucket: "bucket_open 604800000 bar
      = (if ms < monday + 3 * DAY_MS then monday - 4 * DAY_MS else monday + 3 * DAY_MS)"
    using week_bucket [OF _ monday] assms(2) by (simp add: bucket_open_def div_trunc_def ms_def)
  have "merge_sub_bar 604800000 cal bar (buffer_of (rows @ [r]) n)
      = case_prod buffer_of (spec_step (merge_op 604800000 cal bar) (rows @ [r], n))"
    using buffer_do_rows [of "merge_op 604800000 cal bar" "rows @ [r]" n] by (simp add: buffer_do_ops)
  then show ?thesis
    using bucket assms(3)
    by (auto simp: k spec_step_def merge_op_def last_row_def opt_list_def ms_def [symmetric] new_row_def bucket_row_def DAY_MS_def)
qed

section \<open>Witnesses\<close>

definition demo_sub_bar :: "int \<Rightarrow> Bar" where
  "demo_sub_bar secs = \<lparr> bar_symbol = \<lparr> sk_contract_id = 1, sk_symbol = ''SPY'' \<rparr>, bar_timeframe = S5,
     bar_ts_open = secs * nanos, bar_ts_close = (secs + 5) * nanos, bar_o = 0, bar_h = 0, bar_l = 0, bar_c = 0,
     bar_volume = 1, bar_trade_count = 1, bar_wap = None, bar_completeness = CompletedBar \<rparr>"

text \<open>A chart of SPY restored with one bar, then a live bar, then a load of another symbol's that came too late.\<close>

definition demo_chart_msgs :: "chart_msg list" where
  "demo_chart_msgs = [DataRestoredFromStartup 1 ''SPY'' 0 (Inr (bars_to_candle_buffer [demo_sub_bar 50] (XNYS civil_chrono))),
     ChartBarBatch 1 [demo_sub_bar 55], DataLoaded 1 ''QQQ'' 0 (Inr CandleBuffer_new)]"

lemma live_charts_stay_in_order_witness:
  "\<exists>b. map cp_data (fold (handle_chart_msg civil_chrono) demo_chart_msgs (fresh_charts [(1, ''spy'')])) = [Some b]
     \<and> cb_timestamps b = [50000, 55000] \<and> buffer_in_order b
     \<and> map_option cb_timestamps (buffer_slice (visible_range 51000 61000 b) b) = Some [55000]"
proof -
  let ?cal = "XNYS civil_chrono"
  let ?h = "bars_to_candle_buffer [demo_sub_bar 50] ?cal"
  have "buffer_in_order ?h" by (rule history_is_in_order [THEN conjunct1]) simp
  then have ok: "list_all loads_in_order demo_chart_msgs"
    by (simp add: demo_chart_msgs_def loads_in_order_def buffer_in_order_def CandleBuffer_new_def)
  have sym: "ascii_upper (CHR ''s'') = CHR ''S''" "ascii_upper (CHR ''p'') = CHR ''P''"
    "ascii_upper (CHR ''y'') = CHR ''Y''" "ascii_upper (CHR ''S'') = CHR ''S''" "ascii_upper (CHR ''P'') = CHR ''P''"
    "ascii_upper (CHR ''Y'') = CHR ''Y''" "SymbolKey_new ''spy'' = ''SPY''" by code_simp+
  let ?b = "apply_bar_to_buffer (resolve_calendar civil_chrono ''SPY'') (demo_sub_bar 55) ?h"
  have run: "fold (handle_chart_msg civil_chrono) demo_chart_msgs (fresh_charts [(1, ''spy'')])
      = [\<lparr> cp_id = 1, cp_symbol = ''SPY'', cp_data = Some ?b, cp_load_generation = 0 \<rparr>]"
    by (simp add: demo_chart_msgs_def fresh_charts_def make_empty_panel_def handle_chart_msg_def with_chart_def
        data_restored_def data_loaded_def stale_load_def rebind_def update_chart_def sym)
  have ts: "cb_timestamps ?b = [50000, 55000]"
    by (simp add: bars_to_candle_buffer_def apply_bar_to_buffer_def apply_bar_def push_with_session_def bump_def
        CandleBuffer_new_def timestamp_millis_def demo_sub_bar_def nanos_def)
  show ?thesis
    using live_charts_stay_in_order [OF ok, of 51000 10000 civil_chrono "[(1, ''spy'')]"]
    unfolding run by (simp add: ts)
qed

text \<open>The week of Monday, day 4 after the epoch; a bar on its Tuesday and one on its Friday.\<close>

lemma weekly_chart_splits_its_week_witness:
  "merge_sub_bar (bucket_millis 604800) (XNYS civil_chrono) (demo_sub_bar (5 * 86400)) (buffer_of [new_row (4 * DAY_MS) 0 0 0 0 0 0] 1)
      = buffer_of [new_row (4 * DAY_MS) 0 0 0 0 0 0] 1
   \<and> map_option length (Some (cb_timestamps (merge_sub_bar (bucket_millis 604800) (XNYS civil_chrono) (demo_sub_bar (8 * 86400))
        (buffer_of [new_row (4 * DAY_MS) 0 0 0 0 0 0] 1)))) = Some 2"
proof -
  let ?r = "new_row (4 * DAY_MS) 0 0 0 0 0 0"
  have f: "floor_timestamp civil_chrono W1 (timestamp_millis (bar_ts_open (demo_sub_bar (d * 86400)))) = Some (4 * DAY_MS)"
    "0 \<le> timestamp_millis (bar_ts_open (demo_sub_bar (d * 86400)))"
    "timestamp_millis (bar_ts_open (demo_sub_bar (d * 86400))) = d * DAY_MS" if "d = 5 \<or> d = 8" for d
    using that by (auto simp: week_floor timestamp_millis_def demo_sub_bar_def nanos_def DAY_MS_def monday_of_def)
  have r: "bf_ts ?r = 4 * DAY_MS" by (simp add: new_row_def)
  show ?thesis
    using weekly_chart_splits_its_week [OF f(1) f(2) r, of 5 "XNYS civil_chrono" "[]" 1] f(3) [of 5]
      weekly_chart_splits_its_week [OF f(1) f(2) r, of 8 "XNYS civil_chrono" "[]" 1] f(3) [of 8]
    by (simp add: DAY_MS_def buffer_of_def)
qed

lemma sub_bars_make_bucket_candles_witness:
  "fold (merge_sub_bar 60000 (XNYS civil_chrono)) [demo_sub_bar 50, demo_sub_bar 55, demo_sub_bar 60] CandleBuffer_new
     = buffer_of (map (bucket_row 60000 (XNYS civil_chrono)) [[demo_sub_bar 50, demo_sub_bar 55], [demo_sub_bar 60]]) 3"
proof -
  have "sorted (map bar_ts_open [demo_sub_bar 50, demo_sub_bar 55, demo_sub_bar 60])"
    by (simp add: demo_sub_bar_def nanos_def)
  moreover have "runs (bucket_open 60000) [demo_sub_bar 50, demo_sub_bar 55, demo_sub_bar 60]
      = [[demo_sub_bar 50, demo_sub_bar 55], [demo_sub_bar 60]]"
    by (simp add: demo_sub_bar_def bucket_open_def div_trunc_def timestamp_millis_def nanos_def)
  ultimately show ?thesis
    using sub_bars_make_bucket_candles [of "[demo_sub_bar 50, demo_sub_bar 55, demo_sub_bar 60]" 60000 "XNYS civil_chrono"]
    by simp
qed

end
