(* ===== verification/Data_Binary.thy ===== *)
theory Data_Binary imports Chart_Buffer begin

text \<open>
  The candle files, \<open>desktop/win/crates/midas-data/src/binary/mod.rs\<close>: a header of 128 bytes with a
  checksum of its first 64, then records of 32 bytes, all little-endian. A file is the list of its bytes;
  the errors of the operating system are left out. \<open>None\<close> is a panic: a slice out of bounds, or a cast
  of bytes whose length is no multiple of a record. Products of lengths wrap at 64 bits, as in a release
  build.
\<close>

unbundle bit_operations_syntax

section \<open>Little-endian integers\<close>

fun le_bytes :: "nat \<Rightarrow> int \<Rightarrow> u8 list" where
  "le_bytes 0 x = []"
| "le_bytes (Suc n) x = word_of_int x # le_bytes n (x div 256)"

fun le_int :: "u8 list \<Rightarrow> int" where
  "le_int [] = 0"
| "le_int (b # bs) = uint b + 256 * le_int bs"

lemma length_le_bytes [simp]: "length (le_bytes n x) = n"
  by (induction n arbitrary: x) simp_all

lemma le_int_bytes: "le_int (le_bytes n x) = x mod 256 ^ n"
proof (induction n arbitrary: x)
  case (Suc n)
  have "x mod (256 * 256 ^ n) = 256 * (x div 256 mod 256 ^ n) + x mod 256" by (rule zmod_zmult2_eq) simp
  with Suc show ?case by (simp add: uint_word_of_int)
qed simp

definition take_int :: "nat \<Rightarrow> u8 list \<Rightarrow> int \<times> u8 list" where
  "take_int n bs = (le_int (take n bs), drop n bs)"

lemma take_int_bytes: "take_int n (le_bytes n x @ rest) = (x mod 256 ^ n, rest)"
  by (simp add: take_int_def le_int_bytes)

type_synonym u16 = "16 word"

section \<open>Header and records\<close>

definition MIDAS_MAGIC :: u32 where "MIDAS_MAGIC = 0x4D494441"
definition MIDAS_VERSION :: u16 where "MIDAS_VERSION = 1"
definition HEADER_SIZE :: nat where "HEADER_SIZE = 128"
definition RECORD_SIZE :: nat where "RECORD_SIZE = 32"

datatype BinaryError =
    FileTooSmall nat
  | InvalidMagic u32
  | UnsupportedVersion u16
  | ChecksumMismatch u32 u32
  | TruncatedBody nat nat
  | IndexOutOfBounds nat nat

record MidasHeader =
  mh_magic :: u32
  mh_version :: u16
  mh_flags :: u16
  mh_symbol_id :: u32
  mh_timeframe_secs :: u32
  mh_start_ts :: i64
  mh_end_ts :: i64
  mh_candle_count :: u64
  mh_record_size :: u32
  mh_lod_levels :: u32
  mh_lod_offset :: u64
  mh_write_seq :: u64
  mh_checksum :: u32
  mh_reserved :: "u8 list"
  mh_symbol_ascii :: "u8 list"

record CandleRecord =
  cd_timestamp :: i64
  cd_open :: f32
  cd_high :: f32
  cd_low :: f32
  cd_close :: f32
  cd_volume :: u32
  cd_padding :: u32

text \<open>The bytes of a header in memory order, and back.\<close>

definition header_prefix :: "MidasHeader \<Rightarrow> u8 list" where
  "header_prefix h =
     le_bytes 4 (uint (mh_magic h)) @ le_bytes 2 (uint (mh_version h)) @ le_bytes 2 (uint (mh_flags h))
     @ le_bytes 4 (uint (mh_symbol_id h)) @ le_bytes 4 (uint (mh_timeframe_secs h))
     @ le_bytes 8 (uint (mh_start_ts h)) @ le_bytes 8 (uint (mh_end_ts h)) @ le_bytes 8 (uint (mh_candle_count h))
     @ le_bytes 4 (uint (mh_record_size h)) @ le_bytes 4 (uint (mh_lod_levels h))
     @ le_bytes 8 (uint (mh_lod_offset h)) @ le_bytes 8 (uint (mh_write_seq h))"

definition header_bytes :: "MidasHeader \<Rightarrow> u8 list" where
  "header_bytes h =
     header_prefix h @ le_bytes 4 (uint (mh_checksum h)) @ mh_reserved h @ mh_symbol_ascii h"

definition header_of_bytes :: "u8 list \<Rightarrow> MidasHeader" where
  "header_of_bytes bs =
     (let (magic, bs) = take_int 4 bs; (version, bs) = take_int 2 bs; (flags, bs) = take_int 2 bs;
          (symbol_id, bs) = take_int 4 bs; (tf, bs) = take_int 4 bs; (start, bs) = take_int 8 bs;
          (end_ts, bs) = take_int 8 bs; (count, bs) = take_int 8 bs; (rsize, bs) = take_int 4 bs;
          (levels, bs) = take_int 4 bs; (offset, bs) = take_int 8 bs; (seq, bs) = take_int 8 bs;
          (sum, bs) = take_int 4 bs
      in \<lparr> mh_magic = word_of_int magic, mh_version = word_of_int version, mh_flags = word_of_int flags,
           mh_symbol_id = word_of_int symbol_id, mh_timeframe_secs = word_of_int tf,
           mh_start_ts = word_of_int start, mh_end_ts = word_of_int end_ts, mh_candle_count = word_of_int count,
           mh_record_size = word_of_int rsize, mh_lod_levels = word_of_int levels,
           mh_lod_offset = word_of_int offset, mh_write_seq = word_of_int seq, mh_checksum = word_of_int sum,
           mh_reserved = take 28 bs, mh_symbol_ascii = take 32 (drop 28 bs) \<rparr>)"

definition record_bytes :: "CandleRecord \<Rightarrow> u8 list" where
  "record_bytes r =
     le_bytes 8 (uint (cd_timestamp r)) @ le_bytes 4 (uint (cd_open r)) @ le_bytes 4 (uint (cd_high r))
     @ le_bytes 4 (uint (cd_low r)) @ le_bytes 4 (uint (cd_close r)) @ le_bytes 4 (uint (cd_volume r))
     @ le_bytes 4 (uint (cd_padding r))"

definition record_of_bytes :: "u8 list \<Rightarrow> CandleRecord" where
  "record_of_bytes bs =
     (let (ts, bs) = take_int 8 bs; (op, bs) = take_int 4 bs; (h, bs) = take_int 4 bs; (l, bs) = take_int 4 bs;
          (c, bs) = take_int 4 bs; (v, bs) = take_int 4 bs; (pad, bs) = take_int 4 bs
      in \<lparr> cd_timestamp = word_of_int ts, cd_open = word_of_int op, cd_high = word_of_int h,
           cd_low = word_of_int l, cd_close = word_of_int c, cd_volume = word_of_int v,
           cd_padding = word_of_int pad \<rparr>)"

section \<open>The checksum\<close>

definition crc_bit :: "u32 \<Rightarrow> u32" where
  "crc_bit crc = (if crc AND 1 \<noteq> 0 then drop_bit 1 crc XOR 0x82F63B78 else drop_bit 1 crc)"

definition crc_byte :: "u32 \<Rightarrow> u8 \<Rightarrow> u32" where
  "crc_byte crc byte = (crc_bit ^^ 8) (crc XOR ucast byte)"

definition crc32c :: "u8 list \<Rightarrow> u32" where
  "crc32c data = NOT (foldl crc_byte 0xFFFFFFFF data)"

section \<open>Writing\<close>

definition validate_header :: "MidasHeader \<Rightarrow> (unit, BinaryError) rust_result" where
  "validate_header h =
     (if mh_magic h \<noteq> MIDAS_MAGIC then Err (InvalidMagic (mh_magic h))
      else if mh_version h > MIDAS_VERSION then Err (UnsupportedVersion (mh_version h))
      else let computed = crc32c (take 64 (header_bytes h)) in
        if mh_checksum h \<noteq> computed then Err (ChecksumMismatch (mh_checksum h) computed) else Ok ())"

definition symbol_field :: "string \<Rightarrow> u8 list" where
  "symbol_field symbol = (let bytes = take 31 (map of_char symbol) in bytes @ replicate (32 - length bytes) 0)"

definition build_header :: "u32 \<Rightarrow> u32 \<Rightarrow> string \<Rightarrow> CandleBuffer \<Rightarrow> MidasHeader" where
  "build_header symbol_id timeframe_secs symbol candles =
     (let count = buffer_len candles;
          start_ts = (if count > 0 then cb_timestamps candles ! 0 else 0);
          end_ts = (if count > 0 then cb_timestamps candles ! (count - 1) else 0);
          header = \<lparr> mh_magic = MIDAS_MAGIC, mh_version = MIDAS_VERSION, mh_flags = 0, mh_symbol_id = symbol_id,
            mh_timeframe_secs = timeframe_secs, mh_start_ts = word_of_int start_ts, mh_end_ts = word_of_int end_ts,
            mh_candle_count = of_nat count, mh_record_size = of_nat RECORD_SIZE, mh_lod_levels = 0,
            mh_lod_offset = 0, mh_write_seq = 1, mh_checksum = 0, mh_reserved = replicate 28 0,
            mh_symbol_ascii = symbol_field symbol \<rparr>
      in header\<lparr> mh_checksum := crc32c (take 64 (header_bytes header)) \<rparr>)"

definition record_at :: "CandleBuffer \<Rightarrow> nat \<Rightarrow> CandleRecord" where
  "record_at candles i =
     \<lparr> cd_timestamp = word_of_int (cb_timestamps candles ! i), cd_open = cb_opens candles ! i,
       cd_high = cb_highs candles ! i, cd_low = cb_lows candles ! i, cd_close = cb_closes candles ! i,
       cd_volume = cb_volumes candles ! i, cd_padding = 0 \<rparr>"

definition write_midas_file :: "u32 \<Rightarrow> u32 \<Rightarrow> string \<Rightarrow> CandleBuffer \<Rightarrow> u8 list" where
  "write_midas_file symbol_id timeframe_secs symbol candles =
     header_bytes (build_header symbol_id timeframe_secs symbol candles)
     @ concat (map (\<lambda>i. record_bytes (record_at candles i)) [0..<buffer_len candles])"

section \<open>Reading\<close>

text \<open>\<open>cast_slice\<close> to records.\<close>

function records_of_bytes :: "u8 list \<Rightarrow> CandleRecord list option" where
  "records_of_bytes bs =
     (if bs = [] then Some []
      else if length bs < RECORD_SIZE then None
      else map_option ((#) (record_of_bytes (take RECORD_SIZE bs))) (records_of_bytes (drop RECORD_SIZE bs)))"
  by pat_completeness auto
termination by (relation "measure length") (auto simp: RECORD_SIZE_def)

declare records_of_bytes.simps [simp del]

definition push_record :: "CandleRecord \<Rightarrow> CandleBuffer \<Rightarrow> CandleBuffer" where
  "push_record r = buffer_push (sint (cd_timestamp r)) (cd_open r) (cd_high r) (cd_low r) (cd_close r) (cd_volume r)"

definition body_size :: "MidasHeader \<Rightarrow> nat" where
  "body_size h = unat (mh_candle_count h) * unat (mh_record_size h) mod 2 ^ 64"

definition check_file :: "u8 list \<Rightarrow> (MidasHeader, BinaryError) rust_result" where
  "check_file data =
     (if length data < HEADER_SIZE then Err (FileTooSmall (length data))
      else let header = header_of_bytes (take HEADER_SIZE data) in
        case validate_header header of
          Inl e \<Rightarrow> Err e
        | Inr _ \<Rightarrow>
            (let actual_body = length data - HEADER_SIZE in
             if actual_body < body_size header then Err (TruncatedBody (body_size header) actual_body)
             else Ok header))"

definition read_midas_file :: "u8 list \<Rightarrow> (CandleBuffer, BinaryError) rust_result option" where
  "read_midas_file data =
     (case check_file data of
        Inl e \<Rightarrow> Some (Err e)
      | Inr header \<Rightarrow>
          map_option (\<lambda>records. Ok (fold push_record records CandleBuffer_new))
            (records_of_bytes (take (body_size header) (drop HEADER_SIZE data))))"

record MmapCandleFile =
  mm_bytes :: "u8 list"
  mm_header :: MidasHeader
  mm_record_count :: nat

definition mmap_open :: "u8 list \<Rightarrow> (MmapCandleFile, BinaryError) rust_result" where
  "mmap_open data =
     (case check_file data of
        Inl e \<Rightarrow> Err e
      | Inr header \<Rightarrow>
          Ok \<lparr> mm_bytes = data, mm_header = header, mm_record_count = unat (mh_candle_count header) \<rparr>)"

definition mmap_record :: "nat \<Rightarrow> MmapCandleFile \<Rightarrow> (CandleRecord, BinaryError) rust_result option" where
  "mmap_record i f =
     (if i \<ge> mm_record_count f then Some (Err (IndexOutOfBounds i (mm_record_count f)))
      else let offset = HEADER_SIZE + i * RECORD_SIZE in
        map_option (\<lambda>bs. Ok (record_of_bytes bs)) (slice_range (offset, offset + RECORD_SIZE) (mm_bytes f)))"

definition mmap_records :: "MmapCandleFile \<Rightarrow> CandleRecord list option" where
  "mmap_records f =
     (case slice_range (HEADER_SIZE, HEADER_SIZE + mm_record_count f * RECORD_SIZE) (mm_bytes f) of
        None \<Rightarrow> None | Some body \<Rightarrow> records_of_bytes body)"

definition mmap_to_candle_buffer :: "MmapCandleFile \<Rightarrow> CandleBuffer option" where
  "mmap_to_candle_buffer f = map_option (\<lambda>records. fold push_record records CandleBuffer_new) (mmap_records f)"

definition mmap_slice_by_time :: "int \<Rightarrow> int \<Rightarrow> MmapCandleFile \<Rightarrow> CandleBuffer option" where
  "mmap_slice_by_time start_ts end_ts f =
     (if mm_record_count f = 0 then Some CandleBuffer_new
      else case mmap_records f of
             None \<Rightarrow> None
           | Some records \<Rightarrow>
               (let lo = partition_point (\<lambda>r. sint (cd_timestamp r) < start_ts) records;
                    hi = partition_point (\<lambda>r. sint (cd_timestamp r) \<le> end_ts) records
                in map_option (\<lambda>rs. fold push_record rs CandleBuffer_new) (slice_range (lo, hi) records)))"

end
