(* ===== verification/Std_Words.thy ===== *)
theory Std_Words imports Midas_Prelude begin

text \<open>Facts on machine words that several components share.\<close>

unbundle bit_operations_syntax

lemma xor_left_cancel: "a XOR b = a XOR c \<longleftrightarrow> b = c" for a b c :: "'a::len word"
  by (metis xor.left_neutral xor_self_eq xor.assoc)

lemma xor_right_cancel: "b XOR a = c XOR a \<longleftrightarrow> b = c" for a b c :: "'a::len word"
  by (metis xor_left_cancel xor.commute)

end
