(* ===== verification/Data_Binary_Props.thy ===== *)
theory Data_Binary_Props imports Data_Binary Std_Words begin

text \<open>
  What is proved of the candle files: a file that is written reads back as the same candles, and a change
  of one byte among those the checksum covers is always found.
\<close>

section \<open>Bytes and records are the same\<close>

lemma word_int_back:
  "word_of_int (uint (a :: u16) mod 65536) = a" "word_of_int (uint (b :: u32) mod 4294967296) = b"
  "word_of_int (uint (c :: u64) mod 18446744073709551616) = c"
  using uint_lt2p [of a] uint_lt2p [of b] uint_lt2p [of c] by simp_all

lemma length_prefix [simp]: "length (header_prefix h) = 64"
  by (simp add: header_prefix_def)

lemma take_header: "take 64 (header_bytes h) = header_prefix h"
  by (simp add: header_bytes_def)

lemma header_roundtrip:
  assumes "length (mh_reserved h) = 28" "length (mh_symbol_ascii h) = 32"
  shows "header_of_bytes (header_bytes h) = h"
  using assms
  by (simp add: header_of_bytes_def header_bytes_def header_prefix_def take_int_bytes word_int_back Let_def)

lemma length_record [simp]: "length (record_bytes r) = 32"
  by (simp add: record_bytes_def)

lemma record_roundtrip: "record_of_bytes (record_bytes r) = r"
  using take_int_bytes [of 4 "uint (cd_padding r)" "[]"]
  by (simp add: record_of_bytes_def record_bytes_def take_int_bytes word_int_back Let_def)

lemma records_roundtrip: "records_of_bytes (concat (map record_bytes rs)) = Some rs"
proof (induction rs)
  case Nil
  then show ?case by (simp add: records_of_bytes.simps)
next
  case (Cons r rs)
  have "record_bytes r @ concat (map record_bytes rs) \<noteq> []" by (metis append_is_Nil_conv length_record list.size(3) zero_neq_numeral)
  then show ?case using Cons by (simp add: records_of_bytes.simps [of "record_bytes r @ _"] RECORD_SIZE_def record_roundtrip)
qed

section \<open>The checksum\<close>

lemma low_bit: "(x AND 1 \<noteq> 0) = bit x 0" for x :: u32
  by (simp add: and_one_eq bit_0 odd_iff_mod_2_eq_one)

lemma crc_bit_top: "bit (crc_bit x) 31 = bit x 0"
proof -
  have "\<not> bit x 32" using bit_imp_le_length [of x 32] by auto
  then have "bit (drop_bit 1 x) 31 = False" by (simp add: bit_simps)
  moreover have "bit (0x82F63B78 :: u32) 31" by (simp add: bit_simps)
  ultimately show ?thesis by (simp add: crc_bit_def low_bit bit_xor_iff)
qed

lemma crc_bit_inj: "crc_bit x = crc_bit y \<Longrightarrow> x = y"
proof -
  assume eq: "crc_bit x = crc_bit y"
  then have low: "bit x 0 = bit y 0" using crc_bit_top [of x] crc_bit_top [of y] by simp
  have d: "drop_bit 1 x = drop_bit 1 y"
    using eq low by (simp add: crc_bit_def low_bit xor_right_cancel split: if_splits)
  show "x = y"
  proof (rule bit_eqI)
    fix n
    show "bit x n = bit y n"
    proof (cases n)
      case (Suc m)
      then show ?thesis using arg_cong [OF d, of "\<lambda>w. bit w m"] by (simp add: bit_drop_bit_eq)
    qed (use low in simp)
  qed
qed

lemma crc_byte_inj: "crc_byte x b = crc_byte y c \<Longrightarrow> x XOR ucast b = y XOR ucast c"
proof -
  have "inj crc_bit" by (rule injI) (rule crc_bit_inj)
  then have "inj (crc_bit ^^ 8)" by (rule inj_fn)
  then show "crc_byte x b = crc_byte y c \<Longrightarrow> x XOR ucast b = y XOR ucast c"
    unfolding crc_byte_def by (rule injD)
qed

lemma crc_state_kept: "foldl crc_byte x bs = foldl crc_byte y bs \<Longrightarrow> x = y"
proof (induction bs arbitrary: x y)
  case (Cons b bs)
  then have "crc_byte x b = crc_byte y b" by simp
  then show ?case using crc_byte_inj [of x b y b] by (simp add: xor_right_cancel)
qed simp

lemma byte_inj: "(ucast b :: u32) = ucast c \<Longrightarrow> b = (c :: u8)"
proof (rule bit_word_eqI)
  assume e: "(ucast b :: u32) = ucast c"
  fix n assume "n < LENGTH(8)"
  then show "bit b n = bit c n"
    using arg_cong [OF e, of "\<lambda>w. bit w n"] by (simp add: bit_simps split: if_splits)
qed

lemma crc_one_byte:
  assumes "i < length bs" "b \<noteq> bs ! i"
  shows "crc32c (bs[i := b]) \<noteq> crc32c bs"
proof
  let ?x = "foldl crc_byte 0xFFFFFFFF (take i bs)"
  assume "crc32c (bs[i := b]) = crc32c bs"
  then have "foldl crc_byte 0xFFFFFFFF (bs[i := b]) = foldl crc_byte 0xFFFFFFFF bs" by (simp add: crc32c_def)
  moreover have "foldl crc_byte 0xFFFFFFFF (bs[i := b]) = foldl crc_byte (crc_byte ?x b) (drop (Suc i) bs)"
    using assms(1) by (simp add: upd_conv_take_nth_drop)
  moreover have "foldl crc_byte 0xFFFFFFFF bs = foldl crc_byte (crc_byte ?x (bs ! i)) (drop (Suc i) bs)"
    by (subst id_take_nth_drop [OF assms(1)]) (simp only: foldl_append foldl_Cons)
  ultimately have "crc_byte ?x b = crc_byte ?x (bs ! i)" using crc_state_kept by metis
  from crc_byte_inj [OF this] have "b = bs ! i" by (intro byte_inj) (simp add: xor_left_cancel)
  with assms(2) show False by simp
qed

section \<open>A change of a protected byte is found\<close>

lemma word_uint_eqI: "uint a = uint b \<Longrightarrow> a = b" for a b :: "'a::len word"
  by (metis word_of_int_uint)

lemma byte_256: "(256 :: u8) = 0"
  by (rule word_uint_eqI) simp

lemma le_bytes_int: "le_bytes (length bs) (le_int bs) = bs"
proof (induction bs)
  case (Cons b bs)
  have "(uint b + 256 * le_int bs) div 256 = le_int bs" using uint_lt2p [of b] by simp
  then show ?case using Cons by (simp add: byte_256)
qed simp

lemma le_int_range: "0 \<le> le_int bs \<and> le_int bs < 256 ^ length bs"
proof (induction bs)
  case (Cons b bs)
  then show ?case using uint_lt2p [of b] by simp
qed simp

lemma le_back:
  "length bs = 2 \<Longrightarrow> le_bytes 2 (uint (word_of_int (le_int bs) :: u16)) = bs"
  "length bs = 4 \<Longrightarrow> le_bytes 4 (uint (word_of_int (le_int bs) :: u32)) = bs"
  "length bs = 8 \<Longrightarrow> le_bytes 8 (uint (word_of_int (le_int bs) :: u64)) = bs"
  using le_bytes_int [of bs] le_int_range [of bs] by (simp_all add: uint_word_of_int)

lemma prefix_back:
  assumes "64 \<le> length bs"
  shows "header_prefix (header_of_bytes bs) = take 64 bs"
proof -
  have "take (4 + (2 + (2 + (4 + (4 + (8 + (8 + (8 + (4 + (4 + (8 + 8))))))))))) bs
      = header_prefix (header_of_bytes bs)"
    unfolding take_add using assms
    by (simp add: header_prefix_def header_of_bytes_def take_int_def le_back Let_def)
  then show ?thesis by simp
qed

lemma checksum_back: "mh_checksum (header_of_bytes bs) = word_of_int (le_int (take 4 (drop 64 bs)))"
  by (simp add: header_of_bytes_def take_int_def Let_def)

lemma valid_checksum:
  assumes "validate_header (header_of_bytes bs) = Ok ()" "64 \<le> length bs"
  shows "word_of_int (le_int (take 4 (drop 64 bs))) = crc32c (take 64 bs)"
  using assms prefix_back [OF assms(2)]
  by (auto simp: validate_header_def take_header checksum_back Let_def split: if_splits)

text \<open>C18: The checksum finds every change of one byte among the 64 it covers: a file that opens does not
  open after it, neither as a whole nor as a memory map. A step of the checksum loses nothing, so two
  prefixes that differ in one byte never have the same sum.\<close>

theorem header_corruption_is_found:
  assumes "check_file data = Ok h" and "i < 64" and "b \<noteq> data ! i"
  shows "\<exists>e. read_midas_file (data[i := b]) = Some (Err e) \<and> mmap_open (data[i := b]) = Err e"
proof -
  have len: "128 \<le> length data" and ok: "validate_header (header_of_bytes (take 128 data)) = Ok ()"
    using assms(1) by (auto simp: check_file_def HEADER_SIZE_def Let_def split: if_splits sum.splits)
  let ?bs = "take 128 data"
  have bs: "take 128 (data[i := b]) = ?bs[i := b]" by (simp add: take_update_swap)
  have "validate_header (header_of_bytes (?bs[i := b])) \<noteq> Ok ()"
  proof
    assume ok': "validate_header (header_of_bytes (?bs[i := b])) = Ok ()"
    have same: "drop 64 (?bs[i := b]) = drop 64 ?bs" using assms(2) by simp
    have "crc32c (take 64 (?bs[i := b])) = crc32c (take 64 ?bs)"
      using valid_checksum [OF ok] valid_checksum [OF ok'] len by (simp add: same)
    moreover have "take 64 (?bs[i := b]) = (take 64 ?bs)[i := b]" by (simp add: take_update_swap)
    ultimately show False using crc_one_byte [of i "take 64 ?bs" b] assms(2, 3) len by simp
  qed
  then obtain e where "validate_header (header_of_bytes (?bs[i := b])) = Err e"
    by (cases "validate_header (header_of_bytes (?bs[i := b]))") auto
  then have "check_file (data[i := b]) = Err e" using len bs by (simp add: check_file_def HEADER_SIZE_def Let_def)
  then show ?thesis by (simp add: read_midas_file_def mmap_open_def)
qed

section \<open>What is written reads back\<close>

text \<open>The session of a candle is not stored.\<close>

definition regular :: "BufRow \<Rightarrow> BufRow" where
  "regular r = r\<lparr> bf_session := kind_byte RegularKind \<rparr>"

definition record_of_row :: "BufRow \<Rightarrow> CandleRecord" where
  "record_of_row r = \<lparr> cd_timestamp = word_of_int (bf_ts r), cd_open = bf_open r, cd_high = bf_high r,
     cd_low = bf_low r, cd_close = bf_close r, cd_volume = bf_volume r, cd_padding = 0 \<rparr>"

lemma records_of_buffer: "map (record_at (buffer_of rows n)) [0..<length rows] = map record_of_row rows"
  by (rule nth_equalityI) (simp_all add: record_at_def record_of_row_def buffer_of_def)

definition fits :: "BufRow \<Rightarrow> bool" where
  "fits r = (- (2 ^ 63) \<le> bf_ts r \<and> bf_ts r < 2 ^ 63)"

lemma push_record_row: "fits r \<Longrightarrow> push_record (record_of_row r) (buffer_of rows n) = buffer_of (rows @ [regular r]) (n + 1)"
  by (simp add: push_record_def record_of_row_def buffer_push_def push_with_session_def bump_def buffer_of_def regular_def
      fits_def int_word_sint)

lemma push_records: "list_all fits rs \<Longrightarrow> fold push_record (map record_of_row rs) (buffer_of rows n)
    = buffer_of (rows @ map regular rs) (n + of_nat (length rs))"
proof (induction rs arbitrary: rows n)
  case (Cons r rs)
  then show ?case by (simp add: push_record_row ac_simps)
qed simp

lemma valid_build: "validate_header (build_header symbol_id tf symbol b) = Ok ()"
  by (simp add: validate_header_def build_header_def take_header MIDAS_VERSION_def Let_def header_prefix_def)

lemma build_parts:
  "mh_candle_count (build_header symbol_id tf symbol b) = of_nat (buffer_len b)"
  "mh_record_size (build_header symbol_id tf symbol b) = 32"
  "length (mh_reserved (build_header symbol_id tf symbol b)) = 28"
  "length (mh_symbol_ascii (build_header symbol_id tf symbol b)) = 32"
  by (simp_all add: build_header_def Let_def RECORD_SIZE_def symbol_field_def)

lemma record_bytes_length: "length (concat (map record_bytes rs)) = 32 * length rs"
  by (induction rs) simp_all

lemma valid_file_opens:
  assumes "length (mh_reserved h) = 28" "length (mh_symbol_ascii h) = 32" "validate_header h = Ok ()"
    and "body_size h \<le> length body"
  shows "check_file (header_bytes h @ body) = Ok h"
proof -
  have "length (header_bytes h) = 128" using assms(1, 2) by (simp add: header_bytes_def)
  with assms show ?thesis by (simp add: check_file_def HEADER_SIZE_def header_roundtrip Let_def)
qed

lemma written_file:
  assumes "length rows < 2 ^ 59" and "h = build_header symbol_id tf symbol (buffer_of rows n)"
  shows "write_midas_file symbol_id tf symbol (buffer_of rows n) = header_bytes h @ concat (map record_bytes (map record_of_row rows))"
    and "length (header_bytes h) = 128" and "body_size h = 32 * length rows" and "unat (mh_candle_count h) = length rows"
    and "check_file (header_bytes h @ concat (map record_bytes (map record_of_row rows))) = Ok h"
proof -
  have len: "buffer_len (buffer_of rows n) = length rows" by (simp add: buffer_len_def buffer_of_def)
  show "write_midas_file symbol_id tf symbol (buffer_of rows n) = header_bytes h @ concat (map record_bytes (map record_of_row rows))"
    by (simp add: write_midas_file_def assms(2) len records_of_buffer [of rows n, symmetric] comp_def)
  show "length (header_bytes h) = 128" by (simp add: header_bytes_def assms(2) build_parts)
  have "unat (of_nat (length rows) :: u64) = length rows" using assms(1) by (simp add: unat_of_nat)
  then show count: "unat (mh_candle_count h) = length rows" by (simp add: assms(2) build_parts len)
  show size: "body_size h = 32 * length rows"
    using count assms(1) build_parts(2) [of symbol_id tf symbol "buffer_of rows n", folded assms(2)]
    by (simp add: body_size_def)
  show "check_file (header_bytes h @ concat (map record_bytes (map record_of_row rows))) = Ok h"
    by (rule valid_file_opens)
      (simp_all add: assms(2) build_parts valid_build record_bytes_length size [unfolded assms(2)] del: map_map)
qed

text \<open>C17: A written file reads back as the candles that were written, as a whole and through a memory map,
  whatever their number and prices, with every session read as regular.\<close>

theorem midas_file_roundtrip:
  assumes "list_all fits rows" and "length rows < 2 ^ 59"
  shows "read_midas_file (write_midas_file symbol_id tf symbol (buffer_of rows n))
      = Some (Ok (buffer_of (map regular rows) (of_nat (length rows))))
    \<and> (\<exists>f. mmap_open (write_midas_file symbol_id tf symbol (buffer_of rows n)) = Ok f
        \<and> mmap_to_candle_buffer f = Some (buffer_of (map regular rows) (of_nat (length rows))))"
proof -
  define h where "h = build_header symbol_id tf symbol (buffer_of rows n)"
  note w = written_file [OF assms(2) h_def]
  have buf: "fold push_record (map record_of_row rows) CandleBuffer_new = buffer_of (map regular rows) (of_nat (length rows))"
    using push_records [OF assms(1), of "[]" 0] by (simp add: CandleBuffer_new_def buffer_of_def)
  show ?thesis
    unfolding w(1)
    using w(2, 3, 4) records_roundtrip [of "map record_of_row rows"] record_bytes_length [of "map record_of_row rows"]
    by (simp add: read_midas_file_def mmap_open_def w(5) HEADER_SIZE_def buf mmap_to_candle_buffer_def
        mmap_records_def slice_range_def RECORD_SIZE_def ac_simps del: map_map)
qed

section \<open>Record sizes\<close>

text \<open>
  Opening a file checks its length against the record size of its header, and reading records uses 32:
  a file with a valid checksum, a record size of 0 and one candle opens, and reading the candle panics.
\<close>

lemma open_accepts_what_it_cannot_read:
  assumes "h = (build_header symbol_id tf symbol b)\<lparr> mh_candle_count := 1, mh_record_size := 0 \<rparr>"
    and "h' = h\<lparr> mh_checksum := crc32c (header_prefix h) \<rparr>"
  shows "\<exists>f. mmap_open (header_bytes h') = Ok f \<and> mmap_record 0 f = None \<and> mmap_to_candle_buffer f = None"
proof -
  have parts: "length (mh_reserved h') = 28" "length (mh_symbol_ascii h') = 32" "body_size h' = 0"
    "unat (mh_candle_count h') = 1"
    by (simp_all add: assms body_size_def build_parts)
  have "header_prefix h' = header_prefix h" by (simp add: assms(2) header_prefix_def)
  then have "validate_header h' = Ok ()"
    by (simp add: validate_header_def take_header assms build_header_def MIDAS_VERSION_def Let_def)
  from valid_file_opens [OF parts(1, 2) this, of "[]"] have "check_file (header_bytes h') = Ok h'"
    by (simp add: parts)
  moreover have "length (header_bytes h') = 128" using parts by (simp add: header_bytes_def)
  ultimately show ?thesis
    by (simp add: mmap_open_def mmap_record_def mmap_to_candle_buffer_def mmap_records_def slice_range_def parts
        HEADER_SIZE_def RECORD_SIZE_def)
qed

section \<open>Witnesses\<close>

definition demo_rows :: "BufRow list" where
  "demo_rows = [new_row 60000 0 0 0 0 5 (kind_byte PreMarket), new_row 120000 0 0 0 0 7 (kind_byte RegularKind)]"

lemma midas_file_roundtrip_witness:
  "read_midas_file (write_midas_file 1 60 ''SPY'' (buffer_of demo_rows 2))
     = Some (Ok (buffer_of (map regular demo_rows) 2))"
proof -
  have "list_all fits demo_rows" "length demo_rows < 2 ^ 59" by (simp_all add: demo_rows_def fits_def new_row_def)
  from conjunct1 [OF midas_file_roundtrip [OF this, of 1 60 "''SPY''" 2]] show ?thesis
    by (simp add: demo_rows_def)
qed

lemma first_byte: "(le_bytes 4 x @ rest) ! 0 = word_of_int x"
  by (simp add: numeral_eq_Suc)

lemma header_corruption_is_found_witness:
  "\<exists>e. read_midas_file ((write_midas_file 1 60 ''SPY'' (buffer_of demo_rows 2))[0 := 0]) = Some (Err e)"
proof -
  have "length demo_rows < 2 ^ 59" by (simp add: demo_rows_def)
  note w = written_file [OF this refl, of 1 60 "''SPY''" 2]
  have "mh_magic (build_header 1 60 ''SPY'' (buffer_of demo_rows 2)) = 0x4D494441"
    by (simp add: build_header_def MIDAS_MAGIC_def Let_def)
  then have "write_midas_file 1 60 ''SPY'' (buffer_of demo_rows 2) ! 0 = word_of_int (uint (0x4D494441 :: u32))"
    by (simp add: w(1) header_bytes_def header_prefix_def first_byte)
  then have "0 \<noteq> write_midas_file 1 60 ''SPY'' (buffer_of demo_rows 2) ! 0" by simp
  then show ?thesis
    using header_corruption_is_found [OF w(5) [folded w(1)], of 0 0] by auto
qed

end
