(* ===== verification/Expr_Syntax.thy ===== *)
theory Expr_Syntax imports Std_Floats begin

text \<open>
  The scenario expression language of the simulator: syntax trees and run-time values,
  \<open>scenario/expr/ast.rs\<close>, and the read-only view of the engine that expressions are evaluated
  against, \<open>scenario/expr/query.rs\<close>.
\<close>

section \<open>Values\<close>

datatype Value = VNum f64 | VInt int | VStr string | VBool bool | VList "Value list" | VNull

text \<open>\<open>PartialEq\<close> of values: numbers and integers compare by value, so a NaN differs from itself.\<close>

fun value_eq :: "Value \<Rightarrow> Value \<Rightarrow> bool" and values_eq :: "Value list \<Rightarrow> Value list \<Rightarrow> bool" where
  "value_eq (VNum a) (VNum b) = f64_eq a b"
| "value_eq (VInt a) (VInt b) = (a = b)"
| "value_eq (VNum a) (VInt b) = f64_eq a (f64_of_int b)"
| "value_eq (VInt b) (VNum a) = f64_eq a (f64_of_int b)"
| "value_eq (VStr a) (VStr b) = (a = b)"
| "value_eq (VBool a) (VBool b) = (a = b)"
| "value_eq (VList a) (VList b) = values_eq a b"
| "value_eq VNull VNull = True"
| "value_eq _ _ = False"
| "values_eq [] [] = True"
| "values_eq (a # as) (b # bs) = (value_eq a b \<and> values_eq as bs)"
| "values_eq _ _ = False"

fun as_f64 :: "Value \<Rightarrow> f64 option" where
  "as_f64 (VNum n) = Some n"
| "as_f64 (VInt i) = Some (f64_of_int i)"
| "as_f64 (VBool b) = Some (if b then f64_one else f64_zero)"
| "as_f64 _ = None"

fun as_bool :: "Value \<Rightarrow> bool option" where
  "as_bool (VBool b) = Some b"
| "as_bool _ = None"

fun type_name :: "Value \<Rightarrow> string" where
  "type_name (VNum _) = ''number''"
| "type_name (VInt _) = ''int''"
| "type_name (VStr _) = ''string''"
| "type_name (VBool _) = ''bool''"
| "type_name (VList _) = ''list''"
| "type_name VNull = ''null''"

datatype Ordering = OrdLess | OrdEqual | OrdGreater

definition f64_partial_cmp :: "f64 \<Rightarrow> f64 \<Rightarrow> Ordering option" where
  "f64_partial_cmp a b =
    (if f64_lt a b then Some OrdLess else if f64_lt b a then Some OrdGreater
     else if f64_eq a b then Some OrdEqual else None)"

definition str_cmp :: "string \<Rightarrow> string \<Rightarrow> Ordering" where
  "str_cmp a b = (if a < b then OrdLess else if b < a then OrdGreater else OrdEqual)"

definition cmp_total :: "Value \<Rightarrow> Value \<Rightarrow> Ordering option" where
  "cmp_total v w =
    (case (as_f64 v, as_f64 w) of
       (Some a, Some b) \<Rightarrow> f64_partial_cmp a b
     | _ \<Rightarrow> (case (v, w) of (VStr a, VStr b) \<Rightarrow> Some (str_cmp a b) | _ \<Rightarrow> None))"

section \<open>Expressions\<close>

datatype BinOp = OpEq | OpNeq | OpLt | OpLe | OpGt | OpGe

fun binop_text :: "BinOp \<Rightarrow> string" where
  "binop_text OpEq = ''==''"
| "binop_text OpNeq = ''!=''"
| "binop_text OpLt = ''<''"
| "binop_text OpLe = ''<=''"
| "binop_text OpGt = ''>''"
| "binop_text OpGe = ''>=''"

datatype Index = IxInt int | IxStr string | IxIdent string | IxWildcard

datatype Segment = SField string | SIndex Index

datatype Expr =
    ELiteral Value
  | EPath string "Segment list"
  | ECall string "Expr list"
  | EBinOp BinOp Expr Expr
  | EAnd Expr Expr
  | EOr Expr Expr

section \<open>The view of the engine\<close>

datatype OrderStatusName = ApiPending | PendingSubmit | PreSubmitted | Submitted | Filled
  | PartiallyFilled | Cancelled | ApiCancelled | Inactive

fun status_as_str :: "OrderStatusName \<Rightarrow> string" where
  "status_as_str ApiPending = ''ApiPending''"
| "status_as_str PendingSubmit = ''PendingSubmit''"
| "status_as_str PreSubmitted = ''PreSubmitted''"
| "status_as_str Submitted = ''Submitted''"
| "status_as_str Filled = ''Filled''"
| "status_as_str PartiallyFilled = ''PartiallyFilled''"
| "status_as_str Cancelled = ''Cancelled''"
| "status_as_str ApiCancelled = ''ApiCancelled''"
| "status_as_str Inactive = ''Inactive''"

definition name_is_terminal :: "OrderStatusName \<Rightarrow> bool" where
  "name_is_terminal s \<longleftrightarrow> s = Filled \<or> s = Cancelled \<or> s = ApiCancelled"

record OrderSnapshot =
  os_order_ref :: string
  os_symbol :: string
  os_side :: string
  os_quantity :: f64
  os_filled_qty :: f64
  os_remaining_qty :: f64
  os_status :: OrderStatusName
  os_limit_price :: "f64 option"
  os_stop_price :: "f64 option"
  os_avg_fill_price :: "f64 option"
  os_parent_ref :: "string option"

record PositionSnapshot =
  ps_symbol :: string
  ps_quantity :: f64
  ps_avg_cost :: f64
  ps_realized_pnl :: f64
  ps_unrealized_pnl :: f64

record SessionMetrics =
  sm_msg_count :: nat
  sm_msg_count_last_5s :: nat
  sm_tick_count :: nat
  sm_connected :: bool

text \<open>The trait \<open>ScenarioQuery\<close>: its required methods, and the two default ones.\<close>

record ScenarioQuery =
  sq_orders :: "OrderSnapshot list"
  sq_position_for :: "string \<Rightarrow> PositionSnapshot option"
  sq_positions :: "PositionSnapshot list"
  sq_session_metrics :: "nat \<Rightarrow> SessionMetrics option"
  sq_session_duration :: Duration

definition order_by_ref :: "ScenarioQuery \<Rightarrow> string \<Rightarrow> OrderSnapshot option" where
  "order_by_ref q ref = List.find (\<lambda>ord. os_order_ref ord = ref) (sq_orders q)"

definition order_by_index :: "ScenarioQuery \<Rightarrow> nat \<Rightarrow> OrderSnapshot option" where
  "order_by_index q i = (if i < length (sq_orders q) then Some (sq_orders q ! i) else None)"

end
