(* ===== verification/Expr_Parser.thy ===== *)
theory Expr_Parser imports Expr_Syntax "HOL-Library.Sublist" begin

text \<open>
  The recursive-descent parser of scenario expressions, \<open>scenario/expr/parser.rs\<close>. A parser holds
  the byte position it has reached and the bytes that are left; each method takes a parser and
  returns the moved one. The grammar rules call each other without a bound in the source, so here
  they carry fuel, and running out of it is the value \<open>None\<close>; \<open>parse_returns\<close> proves that the fuel
  of \<open>parse\<close> always suffices.
\<close>

section \<open>Errors and the cursor\<close>

datatype ParseError =
    UnexpectedChar nat char
  | UnexpectedEof string
  | UnterminatedString nat
  | InvalidNumber nat string
  | Expected nat string string
  | TrailingInput nat string

record Parser =
  pr_pos :: nat
  pr_rest :: string

type_synonym 'a parsed = "('a \<times> Parser, ParseError) rust_result"

definition parser_new :: "string \<Rightarrow> Parser" where
  "parser_new src = \<lparr> pr_pos = 0, pr_rest = src \<rparr>"

definition peek_at :: "nat \<Rightarrow> Parser \<Rightarrow> char option" where
  "peek_at n p = (case drop n (pr_rest p) of [] \<Rightarrow> None | b # _ \<Rightarrow> Some b)"

definition peek :: "Parser \<Rightarrow> char option" where
  "peek p = peek_at 0 p"

definition move :: "nat \<Rightarrow> Parser \<Rightarrow> Parser" where
  "move n p = \<lparr> pr_pos = pr_pos p + n, pr_rest = drop n (pr_rest p) \<rparr>"

definition skip_while :: "(char \<Rightarrow> bool) \<Rightarrow> Parser \<Rightarrow> Parser" where
  "skip_while P p = move (length (takeWhile P (pr_rest p))) p"

definition is_ascii_whitespace :: "char \<Rightarrow> bool" where
  "is_ascii_whitespace c \<longleftrightarrow> byte c \<in> {9, 10, 12, 13, 32}"

definition is_ascii_lowercase :: "char \<Rightarrow> bool" where
  "is_ascii_lowercase c \<longleftrightarrow> 97 \<le> byte c \<and> byte c \<le> 122"

definition is_ascii_alphabetic :: "char \<Rightarrow> bool" where
  "is_ascii_alphabetic c \<longleftrightarrow> is_ascii_lowercase c \<or> (65 \<le> byte c \<and> byte c \<le> 90)"

definition ident_start :: "char \<Rightarrow> bool" where
  "ident_start c \<longleftrightarrow> is_ascii_alphabetic c \<or> c = CHR ''_''"

definition ident_char :: "char \<Rightarrow> bool" where
  "ident_char c \<longleftrightarrow> is_ascii_alphabetic c \<or> is_ascii_digit c \<or> c = CHR ''_''"

definition skip_whitespace :: "Parser \<Rightarrow> Parser" where
  "skip_whitespace p = skip_while is_ascii_whitespace p"

definition eat :: "string \<Rightarrow> Parser \<Rightarrow> bool \<times> Parser" where
  "eat expected p =
    (let p = skip_whitespace p
     in if prefix expected (pr_rest p) then (True, move (length expected) p) else (False, p))"

text \<open>A byte cast to \<open>char\<close> and pushed on a string: above 127 it becomes the two bytes of that code point.\<close>

definition push_byte :: "char \<Rightarrow> string" where
  "push_byte b = (if byte b < 128 then [b] else [char_of (192 + byte b div 64), char_of (128 + byte b mod 64)])"

definition expect :: "string \<Rightarrow> Parser \<Rightarrow> unit parsed" where
  "expect expected p =
    (case eat expected p of
       (True, p) \<Rightarrow> Ok ((), p)
     | (False, p) \<Rightarrow> Err (Expected (pr_pos p) expected (case peek p of None \<Rightarrow> [] | Some b \<Rightarrow> push_byte b)))"

text \<open>A keyword must not be followed by another byte of an identifier.\<close>

definition eat_keyword :: "string \<Rightarrow> Parser \<Rightarrow> bool \<times> Parser" where
  "eat_keyword kw p =
    (let p = skip_whitespace p
     in if prefix kw (pr_rest p) \<and> (case peek_at (length kw) p of None \<Rightarrow> True | Some b \<Rightarrow> \<not> ident_char b)
        then (True, move (length kw) p) else (False, p))"

definition eat_either :: "string \<Rightarrow> string \<Rightarrow> Parser \<Rightarrow> bool \<times> Parser" where
  "eat_either operator kw p =
    (case eat operator p of (True, p) \<Rightarrow> (True, p) | (False, p) \<Rightarrow> eat_keyword kw p)"

section \<open>Identifiers, strings and numbers\<close>

definition take_ident :: "(char \<Rightarrow> bool) \<Rightarrow> Parser \<Rightarrow> string parsed" where
  "take_ident P p =
    (let p = skip_whitespace p; p' = skip_while P p
     in if pr_pos p' = pr_pos p
        then Err (UnexpectedChar (pr_pos p) (case peek p of None \<Rightarrow> CHR 0x00 | Some b \<Rightarrow> b))
        else Ok (takeWhile P (pr_rest p), p'))"

definition parse_ident :: "Parser \<Rightarrow> string parsed" where
  "parse_ident = take_ident ident_char"

definition parse_ident_with_hyphen :: "Parser \<Rightarrow> string parsed" where
  "parse_ident_with_hyphen = take_ident (\<lambda>c. ident_char c \<or> c = CHR ''-'')"

definition escaped :: "char \<Rightarrow> string" where
  "escaped b = (if b = CHR ''n'' then [CHR 0x0A] else if b = CHR ''t'' then [CHR 0x09] else push_byte b)"

text \<open>The loop of \<open>parse_string\<close> after the opening quote at \<open>start\<close>: the bytes and what is left.\<close>

fun string_loop :: "nat \<Rightarrow> char \<Rightarrow> string \<Rightarrow> nat \<Rightarrow> string \<Rightarrow> string parsed" where
  "string_loop start quote acc pos [] = Err (UnterminatedString start)"
| "string_loop start quote acc pos (b # bs) =
     (if b = quote then Ok (acc, \<lparr> pr_pos = pos + 1, pr_rest = bs \<rparr>)
      else if b = CHR 0x5C then
        (case bs of
           [] \<Rightarrow> Err (UnterminatedString start)
         | e # bs' \<Rightarrow> string_loop start quote (acc @ escaped e) (pos + 2) bs')
      else string_loop start quote (acc @ push_byte b) (pos + 1) bs)"

definition parse_string :: "Parser \<Rightarrow> string parsed" where
  "parse_string p =
    (case pr_rest p of
       [] \<Rightarrow> Err (UnterminatedString (pr_pos p))
     | quote # bs \<Rightarrow> string_loop (pr_pos p) quote [] (pr_pos p + 1) bs)"

text \<open>A number's text: a sign, digits, and a dot that a digit must follow, with more digits.\<close>

definition number_text :: "string \<Rightarrow> string \<times> string \<times> string" where
  "number_text s =
    (let sign = (if take 1 s = ''-'' \<or> take 1 s = ''+'' then take 1 s else []);
         whole = takeWhile is_ascii_digit (drop (length sign) s);
         s1 = dropWhile is_ascii_digit (drop (length sign) s);
         fraction = (case s1 of
            c # d # cs \<Rightarrow> if c = CHR ''.'' \<and> is_ascii_digit d then CHR ''.'' # takeWhile is_ascii_digit (d # cs) else []
          | _ \<Rightarrow> [])
     in (sign, whole, fraction))"

definition parse_number :: "Parser \<Rightarrow> Value parsed" where
  "parse_number p =
    (case number_text (pr_rest p) of
       (sign, whole, fraction) \<Rightarrow>
         let text = sign @ whole @ fraction; p' = move (length text) p;
             bad = Err (InvalidNumber (pr_pos p) text)
         in if whole = [] \<and> fraction = [] then bad
            else if fraction \<noteq> [] then (case parse_f64 text of Some x \<Rightarrow> Ok (VNum x, p') | None \<Rightarrow> bad)
            else (case parse_i64 text of Inr i \<Rightarrow> Ok (VInt i, p') | Inl _ \<Rightarrow> bad))"

definition is_duration_suffix :: "string \<Rightarrow> bool" where
  "is_duration_suffix s \<longleftrightarrow>
    s \<in> {''ms'', ''s'', ''sec'', ''secs'', ''m'', ''min'', ''h'', ''hr'', ''hour'', ''hours''}"

definition scale_by_suffix :: "f64 \<Rightarrow> string \<Rightarrow> f64" where
  "scale_by_suffix n sfx =
    (if sfx = ''ms'' then f64_div n (f64_of_int 1000)
     else if sfx \<in> {''s'', ''sec'', ''secs''} then n
     else if sfx \<in> {''m'', ''min''} then f64_mul n (f64_of_int 60)
     else if sfx \<in> {''h'', ''hr'', ''hour'', ''hours''} then f64_mul n (f64_of_int 3600)
     else n)"

text \<open>\<open>MM:SS\<close> after the hours of a time of day; \<open>None\<close> where the source rewinds.\<close>

definition minutes_seconds :: "Parser \<Rightarrow> (int \<times> int \<times> Parser) option" where
  "minutes_seconds p =
    (if peek p \<noteq> Some (CHR '':'') then None
     else case parse_number (move 1 p) of
       Inr (VInt m, p1) \<Rightarrow>
         if peek p1 \<noteq> Some (CHR '':'') then None
         else (case parse_number (move 1 p1) of Inr (VInt sec, p2) \<Rightarrow> Some (m, sec, p2) | _ \<Rightarrow> None)
     | _ \<Rightarrow> None)"

definition day_seconds :: "int \<Rightarrow> int \<Rightarrow> int \<Rightarrow> f64" where
  "day_seconds h m sec =
    f64_add (f64_add (f64_mul (f64_of_int h) (f64_of_int 3600)) (f64_mul (f64_of_int m) (f64_of_int 60)))
      (f64_of_int sec)"

definition value_secs :: "Value \<Rightarrow> f64" where
  "value_secs n = (case n of VInt i \<Rightarrow> f64_of_int i | VNum f \<Rightarrow> f | _ \<Rightarrow> f64_zero)"

text \<open>The branch of \<open>parse_term\<close> for a number: a duration, a time of day, or a plain literal.\<close>

definition parse_number_literal :: "Parser \<Rightarrow> Expr parsed" where
  "parse_number_literal p =
    (case parse_number p of
       Inl e \<Rightarrow> Err e
     | Inr (n, p1) \<Rightarrow>
         let sfx = takeWhile is_ascii_lowercase (pr_rest p1)
         in if sfx \<noteq> [] \<and> is_duration_suffix sfx
            then Ok (ELiteral (VNum (scale_by_suffix (value_secs n) sfx)), move (length sfx) p1)
            else (case n of
              VInt h \<Rightarrow>
                (case minutes_seconds p1 of
                   Some (m, sec, p2) \<Rightarrow> Ok (ELiteral (VNum (day_seconds h m sec)), p2)
                 | None \<Rightarrow> Ok (ELiteral n, p1))
            | _ \<Rightarrow> Ok (ELiteral n, p1)))"

definition non_integer_index :: string where
  "non_integer_index = ''non-integer index''"

definition parse_index :: "Parser \<Rightarrow> Index parsed" where
  "parse_index p =
    (let p = skip_whitespace p
     in case peek p of
       None \<Rightarrow> Err (UnexpectedEof ''index'')
     | Some b \<Rightarrow>
         if b = CHR ''*'' then Ok (IxWildcard, move 1 p)
         else if b = CHR 0x22 \<or> b = CHR 0x27 then
           (case parse_string p of Inl e \<Rightarrow> Err e | Inr (s, p1) \<Rightarrow> Ok (IxStr s, p1))
         else if b = CHR ''-'' \<or> is_ascii_digit b then
           (case parse_number p of
              Inl e \<Rightarrow> Err e
            | Inr (VInt i, p1) \<Rightarrow> Ok (IxInt i, p1)
            | Inr (VNum f, p1) \<Rightarrow>
                if f64_eq (f64_fract f) f64_zero then Ok (IxInt (f64_as_int (- (2 ^ 63)) (2 ^ 63 - 1) f), p1)
                else Err (InvalidNumber (pr_pos p1) non_integer_index)
            | Inr (_, p1) \<Rightarrow> Err (InvalidNumber (pr_pos p1) non_integer_index))
         else if ident_start b then
           (case parse_ident_with_hyphen p of Inl e \<Rightarrow> Err e | Inr (s, p1) \<Rightarrow> Ok (IxIdent s, p1))
         else Err (UnexpectedChar (pr_pos p) b))"


text \<open>The segments after a path's root: \<open>.field\<close> and \<open>[index]\<close>, as long as there are any.\<close>

definition parse_segment :: "Parser \<Rightarrow> Segment option parsed" where
  "parse_segment p =
    (case eat ''.'' p of
       (True, p1) \<Rightarrow> (case parse_ident p1 of Inl e \<Rightarrow> Err e | Inr (field, p2) \<Rightarrow> Ok (Some (SField field), p2))
     | (False, p1) \<Rightarrow>
         if peek p1 \<noteq> Some (CHR ''['') then Ok (None, p1)
         else case parse_index (move 1 p1) of
           Inl e \<Rightarrow> Err e
         | Inr (idx, p2) \<Rightarrow> (case expect '']'' p2 of Inl e \<Rightarrow> Err e | Inr (_, p3) \<Rightarrow> Ok (Some (SIndex idx), p3)))"

section \<open>Every token takes bytes\<close>

lemma pr_rest_move [simp]: "pr_rest (move n p) = drop n (pr_rest p)" and pr_pos_move [simp]: "pr_pos (move n p) = pr_pos p + n"
  by (simp_all add: move_def)

lemma pr_rest_skip [simp]: "pr_rest (skip_while P p) = dropWhile P (pr_rest p)"
  by (simp add: skip_while_def dropWhile_eq_drop)

lemma skip_le: "length (pr_rest (skip_whitespace p)) \<le> length (pr_rest p)"
  by (simp add: skip_whitespace_def length_dropWhile_le)

lemma eat_rest:
  assumes "eat e p = (hit, p')"
  shows "length (pr_rest p') + (if hit then length e else 0) \<le> length (pr_rest p)"
  using assms skip_le [of p] prefix_length_le [of e "pr_rest (skip_whitespace p)"]
  by (auto simp: eat_def Let_def split: if_splits)

lemma take_ident_rest: "take_ident P p = Inr (s, p') \<Longrightarrow> length (pr_rest p') < length (pr_rest p)"
  using skip_le [of p] by (cases "pr_rest (skip_whitespace p)") (auto simp: take_ident_def Let_def skip_while_def split: if_splits)

lemma string_loop_rest: "string_loop st q acc pos bs = Inr (s, p') \<Longrightarrow> length (pr_rest p') < length bs"
  by (induction st q acc pos bs rule: string_loop.induct) (fastforce split: if_splits list.splits)+

lemma parse_string_rest: "parse_string p = Inr (s, p') \<Longrightarrow> length (pr_rest p') < length (pr_rest p)"
  using string_loop_rest by (fastforce simp: parse_string_def split: list.splits)

lemma prefix_take_cong: "prefix (take n s @ t) s" if "prefix t (drop n s)"
  using that by (metis append_take_drop_id same_prefix_prefix)

lemma number_text_prefix:
  assumes "number_text s = (sign, whole, fraction)"
  shows "prefix (sign @ whole @ fraction) s"
proof -
  let ?s = "drop (length sign) s"
  have sign: "sign = take (length sign) s"
    using assms by (auto simp: number_text_def Let_def min_def split: if_splits)
  have whole: "whole = takeWhile is_ascii_digit ?s"
    using assms by (auto simp: number_text_def Let_def)
  have "prefix fraction (dropWhile is_ascii_digit ?s)"
    using assms by (auto simp: number_text_def Let_def takeWhile_is_prefix split: list.splits if_splits)
  then have "prefix (whole @ fraction) ?s"
    unfolding whole by (metis takeWhile_dropWhile_id same_prefix_prefix)
  then show ?thesis using prefix_take_cong sign by metis
qed

lemma parse_number_parts:
  assumes "parse_number p = Inr (v, p')"
  obtains lit where "lit \<noteq> []" "prefix lit (pr_rest p)" "p' = move (length lit) p"
    "(\<exists>i. v = VInt i) \<or> (\<exists>x. v = VNum x)"
proof -
  obtain sign whole fraction where t: "number_text (pr_rest p) = (sign, whole, fraction)"
    by (cases "number_text (pr_rest p)") auto
  with assms have "sign @ whole @ fraction \<noteq> []" "p' = move (length (sign @ whole @ fraction)) p"
    "(\<exists>i. v = VInt i) \<or> (\<exists>x. v = VNum x)"
    by (auto simp: parse_number_def Let_def split: if_splits option.splits sum.splits)
  with number_text_prefix [OF t] show ?thesis by (metis that)
qed

lemma parse_number_rest: "parse_number p = Inr (v, p') \<Longrightarrow> length (pr_rest p') < length (pr_rest p)"
  by (erule parse_number_parts) (auto dest: prefix_length_le intro!: diff_less)

lemma peek_skip_rest: "peek (skip_whitespace p) = Some b \<Longrightarrow> length (pr_rest (skip_whitespace p)) - Suc 0 < length (pr_rest p)"
  using skip_le [of p] by (cases "pr_rest (skip_whitespace p)") (auto simp: peek_def peek_at_def)

lemma parse_index_rest: "parse_index p = Inr (v, p') \<Longrightarrow> length (pr_rest p') < length (pr_rest p)"
  using skip_le [of p] peek_skip_rest [of p]
  by (auto simp: parse_index_def parse_ident_with_hyphen_def Let_def dest!: parse_string_rest parse_number_rest take_ident_rest
      split: if_splits sum.splits option.splits prod.splits Value.splits)


lemma expect_rest: "expect e p = Inr (u, p') \<Longrightarrow> length (pr_rest p') + length e \<le> length (pr_rest p)"
  using eat_rest [of e p] by (auto simp: expect_def split: prod.splits bool.splits)

lemma parse_segment_rest:
  assumes "parse_segment p = Inr (s, p')"
  shows "length (pr_rest p') + (if s = None then 0 else 1) \<le> length (pr_rest p)"
proof -
  obtain hit p1 where e: "eat ''.'' p = (hit, p1)" by force
  note le = eat_rest [OF e]
  have "length (pr_rest (move 1 p1)) \<le> length (pr_rest p1)" by simp
  with assms le show ?thesis
    by (fastforce simp: parse_segment_def e parse_ident_def dest: take_ident_rest parse_index_rest expect_rest
        split: bool.splits sum.splits prod.splits if_splits)
qed

function path_segments :: "Segment list \<Rightarrow> Parser \<Rightarrow> Segment list parsed" where
  "path_segments acc p =
    (case parse_segment p of
       Inl e \<Rightarrow> Err e
     | Inr (None, p1) \<Rightarrow> Ok (acc, p1)
     | Inr (Some seg, p1) \<Rightarrow> path_segments (acc @ [seg]) p1)"
  by pat_completeness auto
termination
  by (relation "measure (\<lambda>(_, p). length (pr_rest p))") (auto dest: parse_segment_rest)

declare path_segments.simps [simp del]

lemma path_segments_rest: "path_segments acc p = Inr (segs, p') \<Longrightarrow> length (pr_rest p') \<le> length (pr_rest p)"
proof (induction acc p rule: path_segments.induct)
  case (1 acc p)
  obtain seg p1 where s: "parse_segment p = Inr (seg, p1)"
    using 1(2) path_segments.simps [of acc p] by (cases "parse_segment p") auto
  show ?case
  proof (cases seg)
    case (Some sg)
    then have "length (pr_rest p') \<le> length (pr_rest p1)"
      using 1(1) [OF s refl _ ] 1(2) by (simp add: s path_segments.simps [of acc p])
    then show ?thesis using parse_segment_rest [OF s] by simp
  qed (use 1(2) parse_segment_rest [OF s] in \<open>simp add: s path_segments.simps [of acc p]\<close>)
qed

end
