(* ===== verification/Expr_Grammar.thy ===== *)
theory Expr_Grammar imports Expr_Parser begin

text \<open>
  The grammar rules of \<open>scenario/expr/parser.rs\<close>, one function per rule and one per loop, with the
  proof that they always return and the equations between them that no longer mention fuel.
\<close>

type_synonym 'a fuelled = "'a parsed option"

definition and_then :: "'a fuelled \<Rightarrow> ('a \<Rightarrow> Parser \<Rightarrow> 'b fuelled) \<Rightarrow> 'b fuelled" where
  "and_then r f =
    (case r of None \<Rightarrow> None | Some (Inl e) \<Rightarrow> Some (Inl e) | Some (Inr (x, p)) \<Rightarrow> f x p)"

definition comparison :: "Parser \<Rightarrow> BinOp option \<times> Parser" where
  "comparison p =
    (case eat ''=='' p of (True, p) \<Rightarrow> (Some OpEq, p) | (False, p) \<Rightarrow>
     case eat ''!='' p of (True, p) \<Rightarrow> (Some OpNeq, p) | (False, p) \<Rightarrow>
     case eat ''<='' p of (True, p) \<Rightarrow> (Some OpLe, p) | (False, p) \<Rightarrow>
     case eat ''>='' p of (True, p) \<Rightarrow> (Some OpGe, p) | (False, p) \<Rightarrow>
     case eat ''<'' p of (True, p) \<Rightarrow> (Some OpLt, p) | (False, p) \<Rightarrow>
     case eat ''>'' p of (True, p) \<Rightarrow> (Some OpGt, p) | (False, p) \<Rightarrow> (None, p))"

fun parse_or :: "nat \<Rightarrow> Parser \<Rightarrow> Expr fuelled"
  and or_loop :: "nat \<Rightarrow> Expr \<Rightarrow> Parser \<Rightarrow> Expr fuelled"
  and parse_and :: "nat \<Rightarrow> Parser \<Rightarrow> Expr fuelled"
  and and_loop :: "nat \<Rightarrow> Expr \<Rightarrow> Parser \<Rightarrow> Expr fuelled"
  and parse_cmp :: "nat \<Rightarrow> Parser \<Rightarrow> Expr fuelled"
  and parse_term :: "nat \<Rightarrow> Parser \<Rightarrow> Expr fuelled"
  and parse_ident_expr :: "nat \<Rightarrow> Parser \<Rightarrow> Expr fuelled"
  and args_loop :: "nat \<Rightarrow> Expr list \<Rightarrow> Parser \<Rightarrow> Expr list fuelled" where
  "parse_or 0 p = None"
| "parse_or (Suc n) p = and_then (parse_and n p) (or_loop n)"
| "or_loop 0 lhs p = None"
| "or_loop (Suc n) lhs p =
    (case eat_either ''||'' ''or'' (skip_whitespace p) of
       (True, p1) \<Rightarrow> and_then (parse_and n p1) (\<lambda>rhs p2. or_loop n (EOr lhs rhs) p2)
     | (False, p1) \<Rightarrow> Some (Ok (lhs, p1)))"
| "parse_and 0 p = None"
| "parse_and (Suc n) p = and_then (parse_cmp n p) (and_loop n)"
| "and_loop 0 lhs p = None"
| "and_loop (Suc n) lhs p =
    (case eat_either ''&&'' ''and'' (skip_whitespace p) of
       (True, p1) \<Rightarrow> and_then (parse_cmp n p1) (\<lambda>rhs p2. and_loop n (EAnd lhs rhs) p2)
     | (False, p1) \<Rightarrow> Some (Ok (lhs, p1)))"
| "parse_cmp 0 p = None"
| "parse_cmp (Suc n) p = and_then (parse_term n p) (\<lambda>lhs p1.
     case comparison (skip_whitespace p1) of
       (None, p2) \<Rightarrow> Some (Ok (lhs, p2))
     | (Some op, p2) \<Rightarrow> and_then (parse_term n p2) (\<lambda>rhs p3. Some (Ok (EBinOp op lhs rhs, p3))))"
| "parse_term 0 p = None"
| "parse_term (Suc n) p =
    (let p = skip_whitespace p
     in case peek p of
       None \<Rightarrow> Some (Err (UnexpectedEof ''term''))
     | Some b \<Rightarrow>
         if b = CHR ''('' then
           and_then (parse_or n (move 1 p)) (\<lambda>e p1.
             and_then (Some (expect '')'' p1)) (\<lambda>_ p2. Some (Ok (e, p2))))
         else if b = CHR 0x22 \<or> b = CHR 0x27 then
           and_then (Some (parse_string p)) (\<lambda>s p1. Some (Ok (ELiteral (VStr s), p1)))
         else if is_ascii_digit b \<or> b = CHR ''-'' \<or> b = CHR ''+'' then Some (parse_number_literal p)
         else if ident_start b then parse_ident_expr n p
         else Some (Err (UnexpectedChar (pr_pos p) b)))"
| "parse_ident_expr 0 p = None"
| "parse_ident_expr (Suc n) p = and_then (Some (parse_ident p)) (\<lambda>ident p1.
     if ident = ''true'' then Some (Ok (ELiteral (VBool True), p1))
     else if ident = ''false'' then Some (Ok (ELiteral (VBool False), p1))
     else let p2 = skip_whitespace p1
       in if peek p2 = Some (CHR ''('') then
            (let p3 = skip_whitespace (move 1 p2)
             in and_then (if peek p3 = Some (CHR '')'') then Some (Ok ([], p3)) else args_loop n [] p3)
                  (\<lambda>args p4. and_then (Some (expect '')'' p4)) (\<lambda>_ p5. Some (Ok (ECall ident args, p5)))))
          else and_then (Some (path_segments [] p2)) (\<lambda>segments p3. Some (Ok (EPath ident segments, p3))))"
| "args_loop 0 acc p = None"
| "args_loop (Suc n) acc p = and_then (parse_or n p) (\<lambda>arg p1.
     case eat '','' (skip_whitespace p1) of
       (True, p2) \<Rightarrow> args_loop n (acc @ [arg]) p2
     | (False, p2) \<Rightarrow> Some (Ok (acc @ [arg], p2)))"

text \<open>The fuel of a whole parse, eight calls for every byte, and the parse itself.\<close>

definition parse_fuel :: "string \<Rightarrow> nat" where
  "parse_fuel src = 8 * length src + 8"

definition parse :: "string \<Rightarrow> (Expr, ParseError) rust_result option" where
  "parse src =
    (case parse_or (parse_fuel src) (parser_new src) of
       None \<Rightarrow> None
     | Some (Inl e) \<Rightarrow> Some (Err e)
     | Some (Inr (e, p)) \<Rightarrow>
         let p = skip_whitespace p
         in Some (if pr_rest p \<noteq> [] then Err (TrailingInput (pr_pos p) (pr_rest p)) else Ok e))"


section \<open>Every rule takes bytes\<close>

abbreviation left :: "Parser \<Rightarrow> nat" where
  "left p \<equiv> length (pr_rest p)"

lemma and_then_simps [simp]:
  "and_then None f = None" "and_then (Some (Inl e)) f = Some (Inl e)" "and_then (Some (Inr (x, p))) f = f x p"
  by (simp_all add: and_then_def)

lemma and_then_OkE:
  assumes "and_then r f = Some (Inr y)"
  obtains x p where "r = Some (Inr (x, p))" "f x p = Some (Inr y)"
  using assms by (auto simp: and_then_def split: option.splits sum.splits)

lemma and_then_NoneE:
  assumes "and_then r f = None"
  obtains "r = None" | x p where "r = Some (Inr (x, p))" "f x p = None"
  using assms by (auto simp: and_then_def split: option.splits sum.splits)

lemma and_then_mono:
  assumes "and_then r f = Some y" "\<And>x. r = Some x \<Longrightarrow> r' = Some x" "\<And>x p z. f x p = Some z \<Longrightarrow> f' x p = Some z"
  shows "and_then r' f' = Some y"
  using assms by (auto simp: and_then_def split: option.splits sum.splits)

lemma eat_either_rest:
  assumes "eat_either a b p = (hit, p')" "a \<noteq> []" "b \<noteq> []"
  shows "left p' + (if hit then 1 else 0) \<le> left p"
proof -
  obtain h1 p1 where e: "eat a p = (h1, p1)" by force
  have "left p' + (if hit then length b else 0) \<le> left p1" if "eat_keyword b p1 = (hit, p')"
    using that skip_le [of p1] prefix_length_le [of b "pr_rest (skip_whitespace p1)"]
    by (auto simp: eat_keyword_def Let_def split: if_splits)
  moreover have "Suc 0 \<le> length a" "Suc 0 \<le> length b" using assms by (simp_all add: Suc_le_eq)
  ultimately show ?thesis using assms(1) eat_rest [OF e]
    unfolding eat_either_def e by (cases h1; cases hit) (auto split: prod.splits bool.splits)
qed

lemma eat_either_skip:
  assumes "a \<noteq> []" "b \<noteq> []"
  shows "eat_either a b (skip_whitespace p) = (True, p') \<Longrightarrow> left p' < left p"
    and "eat_either a b (skip_whitespace p) = (False, p') \<Longrightarrow> left p' \<le> left p"
  using eat_either_rest [OF _ assms, of "skip_whitespace p"] skip_le [of p] by fastforce+

lemma comparison_skip:
  assumes "comparison (skip_whitespace p) = (hit, p')"
  shows "left p' \<le> left p"
proof -
  have "left p' \<le> left (skip_whitespace p)"
    using assms by (auto simp: comparison_def dest!: eat_rest split: prod.splits bool.splits)
  then show ?thesis using skip_le [of p] by simp
qed

lemma eat_skip:
  assumes "eat e (skip_whitespace p) = (hit, p')"
  shows "left p' + (if hit then length e else 0) \<le> left p"
  using eat_rest [OF assms] skip_le [of p] by simp

definition takes :: "nat \<Rightarrow> (Parser \<Rightarrow> 'a fuelled) \<Rightarrow> bool" where
  "takes k f \<longleftrightarrow> (\<forall>p x p'. f p = Some (Inr (x, p')) \<longrightarrow> left p' + k \<le> left p)"

lemma takesI: "(\<And>p x p'. f p = Some (Inr (x, p')) \<Longrightarrow> left p' + k \<le> left p) \<Longrightarrow> takes k f"
  by (simp add: takes_def)

lemma takesD: "takes k f \<Longrightarrow> f p = Some (Inr (x, p')) \<Longrightarrow> left p' + k \<le> left p"
  by (simp add: takes_def)

lemma takes_then:
  assumes "takes a r" "\<And>x. takes b (f x)" "k \<le> a + b"
  shows "takes k (\<lambda>p. and_then (r p) f)"
  using assms by (fastforce simp: takes_def elim: and_then_OkE)

lemma parse_number_literal_rest:
  assumes "parse_number_literal p = Inr (e, p')"
  shows "left p' < left p"
proof -
  obtain n p1 where n: "parse_number p = Inr (n, p1)"
    using assms by (cases "parse_number p") (auto simp: parse_number_literal_def)
  have ms: "left p2 \<le> left p1" if "minutes_seconds p1 = Some (m, sec, p2)" for m sec p2
    using that by (auto simp: minutes_seconds_def dest!: parse_number_rest split: if_splits sum.splits Value.splits prod.splits)
  show ?thesis using assms parse_number_rest [OF n] ms
    by (auto simp: parse_number_literal_def n Let_def split: if_splits Value.splits option.splits)
qed

lemma loop_take_bytes:
  assumes "\<And>e. takes 0 (g e)" "takes 1 f" "a \<noteq> []" "b \<noteq> []"
  shows "takes 0 (\<lambda>p. case eat_either a b (skip_whitespace p) of
       (True, p1) \<Rightarrow> and_then (f p1) (\<lambda>rhs p2. g (op lhs rhs) p2)
     | (False, p1) \<Rightarrow> Some (Ok (lhs, p1)))"
  by (rule takesI) (auto elim!: and_then_OkE dest!: takesD [OF assms(1)] takesD [OF assms(2)]
      dest: eat_either_skip [OF assms(3,4)] split: prod.splits bool.splits)

lemma rules_take_bytes:
  "takes 1 (parse_or n)" "takes 0 (or_loop n e)" "takes 1 (parse_and n)" "takes 0 (and_loop n e)"
  "takes 1 (parse_cmp n)" "takes 1 (parse_term n)" "takes 1 (parse_ident_expr n)" "takes 1 (args_loop n acc)"
proof (induction n arbitrary: e acc)
  case 0
  {
    case 1 then show ?case by (simp add: takes_def)
  next
    case 2 then show ?case by (simp add: takes_def)
  next
    case 3 then show ?case by (simp add: takes_def)
  next
    case 4 then show ?case by (simp add: takes_def)
  next
    case 5 then show ?case by (simp add: takes_def)
  next
    case 6 then show ?case by (simp add: takes_def)
  next
    case 7 then show ?case by (simp add: takes_def)
  next
    case 8 then show ?case by (simp add: takes_def)
  }
next
  case (Suc n)
  note ih = this
  {
    case 1
    show ?case by (simp only: parse_or.simps takes_then [OF ih(3,2)])
  next
    case 2
    show ?case using loop_take_bytes [OF ih(2,3), where a = "''||''" and b = "''or''" and op = EOr and lhs = e] by simp
  next
    case 3
    show ?case using takes_then [OF ih(5,4), of 1] by simp
  next
    case 4
    show ?case using loop_take_bytes [OF ih(4,5), where a = "''&&''" and b = "''and''" and op = EAnd and lhs = e] by simp
  next
    case 5
    show ?case
      by (rule takesI) (auto elim!: and_then_OkE dest!: takesD [OF ih(6)] comparison_skip
        split: prod.splits option.splits)
  next
    case 6
    show ?case
    proof (rule takesI)
      fix p e p'
      assume a: "parse_term (Suc n) p = Some (Inr (e, p'))"
      then obtain b where b: "peek (skip_whitespace p) = Some b"
        by (cases "peek (skip_whitespace p)") (auto simp: Let_def)
      show "left p' + 1 \<le> left p"
        using a skip_le [of p] peek_skip_rest [OF b]
        by (auto simp: b Let_def elim!: and_then_OkE dest!: takesD [OF ih(1)] takesD [OF ih(7)] expect_rest
            parse_string_rest parse_number_literal_rest split: if_splits)
    qed
  next
    case 7
    show ?case
    proof (rule takesI)
      fix p e p'
      assume a: "parse_ident_expr (Suc n) p = Some (Inr (e, p'))"
      then obtain ident p1 where i: "parse_ident p = Inr (ident, p1)"
        by (cases "parse_ident p") (auto simp: and_then_def)
      show "left p' + 1 \<le> left p"
        using a take_ident_rest [OF i [unfolded parse_ident_def]] skip_le [of p1] skip_le [of "move 1 (skip_whitespace p1)"]
        by (auto simp: i Let_def elim!: and_then_OkE dest!: takesD [OF ih(8)] expect_rest path_segments_rest split: if_splits)
    qed
  next
    case 8
    show ?case by (rule takesI) (auto elim!: and_then_OkE dest!: takesD [OF ih(1)] takesD [OF ih(8)] eat_skip split: prod.splits bool.splits)
  }
qed


section \<open>The fuel suffices\<close>

definition fits :: "nat \<Rightarrow> nat \<Rightarrow> (Parser \<Rightarrow> 'a fuelled) \<Rightarrow> bool" where
  "fits c n f \<longleftrightarrow> (\<forall>p. 8 * left p + c \<le> n \<longrightarrow> f p \<noteq> None)"

lemma fitsI: "(\<And>p. 8 * left p + c \<le> n \<Longrightarrow> f p = None \<Longrightarrow> False) \<Longrightarrow> fits c n f"
  by (auto simp: fits_def)

lemma fitsD: "fits c n f \<Longrightarrow> f p = None \<Longrightarrow> n < 8 * left p + c"
  unfolding fits_def using not_le by blast

lemma rules_return:
  "fits 5 n (parse_or n)" "fits 1 n (or_loop n e)" "fits 4 n (parse_and n)" "fits 1 n (and_loop n e)"
  "fits 3 n (parse_cmp n)" "fits 2 n (parse_term n)" "fits 1 n (parse_ident_expr n)" "fits 6 n (args_loop n acc)"
proof (induction n arbitrary: e acc)
  case (Suc n)
  note ih = this
  {
    case 1
    show ?case
      by (rule fitsI) (auto elim!: and_then_NoneE dest!: fitsD [OF ih(3)] fitsD [OF ih(2)] takesD [OF rules_take_bytes(3)])
  next
    case 2
    show ?case
      by (rule fitsI) (auto elim!: and_then_NoneE dest!: fitsD [OF ih(3)] fitsD [OF ih(2)] takesD [OF rules_take_bytes(3)]
        eat_either_skip [rotated 2] split: prod.splits bool.splits)
  next
    case 3
    show ?case
      by (rule fitsI) (auto elim!: and_then_NoneE dest!: fitsD [OF ih(5)] fitsD [OF ih(4)] takesD [OF rules_take_bytes(5)])
  next
    case 4
    show ?case
      by (rule fitsI) (auto elim!: and_then_NoneE dest!: fitsD [OF ih(5)] fitsD [OF ih(4)] takesD [OF rules_take_bytes(5)]
        eat_either_skip [rotated 2] split: prod.splits bool.splits)
  next
    case 5
    show ?case
      by (rule fitsI) (auto elim!: and_then_NoneE dest!: fitsD [OF ih(6)] takesD [OF rules_take_bytes(6)] comparison_skip
        split: prod.splits option.splits)
  next
    case 6
    show ?case
    proof (rule fitsI)
      fix p
      assume n: "8 * left p + 2 \<le> Suc n" and a: "parse_term (Suc n) p = None"
      then obtain b where b: "peek (skip_whitespace p) = Some b"
        by (cases "peek (skip_whitespace p)") (auto simp: Let_def)
      show False
        using n a skip_le [of p] peek_skip_rest [OF b]
        by (auto simp: b Let_def elim!: and_then_NoneE dest!: fitsD [OF ih(1)] fitsD [OF ih(7)] split: if_splits)
    qed
  next
    case 7
    show ?case
    proof (rule fitsI)
      fix p
      assume n: "8 * left p + 1 \<le> Suc n" and a: "parse_ident_expr (Suc n) p = None"
      then obtain ident p1 where i: "parse_ident p = Inr (ident, p1)"
        by (cases "parse_ident p") (auto simp: and_then_def)
      show False
        using n a take_ident_rest [OF i [unfolded parse_ident_def]] skip_le [of p1] skip_le [of "move 1 (skip_whitespace p1)"]
          peek_skip_rest [of p1]
        by (auto simp: i Let_def elim!: and_then_NoneE dest!: fitsD [OF ih(8)] split: if_splits)
    qed
  next
    case 8
    show ?case
      by (rule fitsI) (auto elim!: and_then_NoneE dest!: fitsD [OF ih(1)] fitsD [OF ih(8)] takesD [OF rules_take_bytes(1)] eat_skip
        split: prod.splits bool.splits)
  }
qed (simp_all add: fits_def)

section \<open>More fuel changes nothing\<close>

definition keeps :: "(Parser \<Rightarrow> 'a fuelled) \<Rightarrow> (Parser \<Rightarrow> 'a fuelled) \<Rightarrow> bool" where
  "keeps f g \<longleftrightarrow> (\<forall>p r. f p = Some r \<longrightarrow> g p = Some r)"

lemma keepsD: "keeps f g \<Longrightarrow> f p = Some r \<Longrightarrow> g p = Some r"
  by (simp add: keeps_def)

lemma keepsI: "(\<And>p r. f p = Some r \<Longrightarrow> g p = Some r) \<Longrightarrow> keeps f g"
  by (simp add: keeps_def)

lemma and_then_keeps:
  assumes "and_then r f = Some y" "\<And>x. r = Some x \<Longrightarrow> r' = Some x" "\<And>x. keeps (f x) (f' x)"
  shows "and_then r' f' = Some y"
  using assms by (auto simp: and_then_def keeps_def split: option.splits sum.splits)

lemma if_keeps:
  assumes "(if c then a else b) = Some r" "c \<Longrightarrow> a = Some r \<Longrightarrow> a' = Some r" "\<not> c \<Longrightarrow> b = Some r \<Longrightarrow> b' = Some r"
  shows "(if c then a' else b') = Some r"
  using assms by (cases c) auto

lemma option_keeps:
  assumes "(case v of None \<Rightarrow> a | Some x \<Rightarrow> f x) = Some r" "a = Some r \<Longrightarrow> a' = Some r"
    "\<And>x. f x = Some r \<Longrightarrow> f' x = Some r"
  shows "(case v of None \<Rightarrow> a' | Some x \<Rightarrow> f' x) = Some r"
  using assms by (cases v) auto

lemma rules_keep:
  assumes "n \<le> m"
  shows "keeps (parse_or n) (parse_or m)" "keeps (or_loop n e) (or_loop m e)"
    "keeps (parse_and n) (parse_and m)" "keeps (and_loop n e) (and_loop m e)"
    "keeps (parse_cmp n) (parse_cmp m)" "keeps (parse_term n) (parse_term m)"
    "keeps (parse_ident_expr n) (parse_ident_expr m)" "keeps (args_loop n acc) (args_loop m acc)"
  using assms
proof (induction n arbitrary: m e acc)
  case (Suc n)
  have m: "\<exists>k. m = Suc k \<and> n \<le> k" if "Suc n \<le> m" for m
    using that by (cases m) auto
  note ih = Suc(1-8)
  {
    case 1
    then obtain k where k: "m = Suc k" "n \<le> k" using m by blast
    show ?case unfolding k
      by (rule keepsI) (auto elim!: and_then_keeps intro: ih(2) [OF k(2)] keepsD [OF ih(3) [OF k(2)]])
  next
    case 2
    then obtain k where k: "m = Suc k" "n \<le> k" using m by blast
    show ?case unfolding k
      by (rule keepsI) (auto elim!: and_then_keeps intro: ih(2) [OF k(2)] keepsD [OF ih(3) [OF k(2)]] split: prod.splits bool.splits)
  next
    case 3
    then obtain k where k: "m = Suc k" "n \<le> k" using m by blast
    show ?case unfolding k
      by (rule keepsI) (auto elim!: and_then_keeps intro: ih(4) [OF k(2)] keepsD [OF ih(5) [OF k(2)]])
  next
    case 4
    then obtain k where k: "m = Suc k" "n \<le> k" using m by blast
    show ?case unfolding k
      by (rule keepsI) (auto elim!: and_then_keeps intro: ih(4) [OF k(2)] keepsD [OF ih(5) [OF k(2)]] split: prod.splits bool.splits)
  next
    case 5
    then obtain k where k: "m = Suc k" "n \<le> k" using m by blast
    note t = keepsD [OF ih(6) [OF k(2)]]
    show ?case unfolding k
      by (rule keepsI) (auto elim!: and_then_keeps intro!: keepsI intro: t split: prod.splits option.splits)
  next
    case 6
    then obtain k where k: "m = Suc k" "n \<le> k" using m by blast
    note t = keepsD [OF ih(1) [OF k(2)]] keepsD [OF ih(7) [OF k(2)]]
    show ?case unfolding k
      by (rule keepsI) (unfold parse_term.simps Let_def, erule option_keeps, assumption,
          (erule if_keeps and_then_keeps | assumption | rule keepsI | erule t)+)
  next
    case 7
    then obtain k where k: "m = Suc k" "n \<le> k" using m by blast
    note t = keepsD [OF ih(8) [OF k(2)]]
    show ?case unfolding k
      by (rule keepsI) (unfold parse_ident_expr.simps Let_def,
          (erule if_keeps and_then_keeps | assumption | rule keepsI | erule t)+)
  next
    case 8
    then obtain k where k: "m = Suc k" "n \<le> k" using m by blast
    note t = keepsD [OF ih(1) [OF k(2)]] keepsD [OF ih(8) [OF k(2)]]
    show ?case unfolding k
      by (rule keepsI) (auto elim!: and_then_keeps intro!: keepsI intro: t split: prod.splits bool.splits)
  }
qed (simp_all add: keeps_def)


text \<open>C32: The parser of scenario expressions returns on every source text: its mutually recursive
rules and loops, none of which carries a bound, come to an expression or an error within the fuel of
\<open>parse\<close> (eight calls per byte), and any larger fuel gives the very same outcome, so the fuel decides
nothing.\<close>

theorem parse_returns:
  "(\<exists>r. parse src = Some r)
   \<and> parse_or (parse_fuel src + k) (parser_new src) = parse_or (parse_fuel src) (parser_new src)"
proof -
  obtain r where r: "parse_or (parse_fuel src) (parser_new src) = Some r"
    using rules_return(1) [of "parse_fuel src"] by (fastforce simp: fits_def parse_fuel_def parser_new_def)
  moreover have "parse_or (parse_fuel src + k) (parser_new src) = Some r"
    using keepsD [OF rules_keep(1) r] by simp
  ultimately show ?thesis
    by (cases r) (auto simp: parse_def Let_def)
qed

end
