(* ===== verification/Expr_Roundtrip.thy ===== *)
theory Expr_Roundtrip imports Expr_Grammar begin

text \<open>
  What the parser accepts: a printer that writes an expression with the fewest parentheses the
  documented grammar allows, and the proof that the parser reads every printed expression back. This
  fixes precedence and associativity of the operators as the code has them.
\<close>

section \<open>Successful runs\<close>

definition yields :: "(nat \<Rightarrow> Parser \<Rightarrow> 'a fuelled) \<Rightarrow> Parser \<Rightarrow> 'a \<Rightarrow> Parser \<Rightarrow> bool" where
  "yields f p x p' \<longleftrightarrow> (\<exists>n. f n p = Some (Inr (x, p')))"

definition monotone_fuel :: "(nat \<Rightarrow> Parser \<Rightarrow> 'a fuelled) \<Rightarrow> bool" where
  "monotone_fuel f \<longleftrightarrow> (\<forall>n m. n \<le> m \<longrightarrow> keeps (f n) (f m))"

lemma monotone_rules:
  "monotone_fuel parse_or" "monotone_fuel (\<lambda>n. or_loop n e)" "monotone_fuel parse_and" "monotone_fuel (\<lambda>n. and_loop n e)"
  "monotone_fuel parse_cmp" "monotone_fuel parse_term" "monotone_fuel parse_ident_expr" "monotone_fuel (\<lambda>n. args_loop n acc)"
  by (simp_all add: monotone_fuel_def rules_keep)

lemma yields_both:
  assumes "yields f p x p'" "yields g q y q'" "monotone_fuel f" "monotone_fuel g"
  obtains n where "f n p = Some (Inr (x, p'))" "g n q = Some (Inr (y, q'))"
proof -
  obtain n m where nm: "f n p = Some (Inr (x, p'))" "g m q = Some (Inr (y, q'))"
    using assms(1,2) by (auto simp: yields_def)
  have "f (max n m) p = Some (Inr (x, p'))"
    using assms(3) nm(1) unfolding monotone_fuel_def keeps_def by (metis max.cobounded1)
  moreover have "g (max n m) q = Some (Inr (y, q'))"
    using assms(4) nm(2) unfolding monotone_fuel_def keeps_def by (metis max.cobounded2)
  ultimately show ?thesis by (rule that)
qed

lemma yields_then:
  assumes "yields f p x p1" "yields (\<lambda>n. g n x) p1 y p2" "monotone_fuel f" "monotone_fuel (\<lambda>n. g n x)"
  shows "\<exists>n. and_then (f n p) (g n) = Some (Inr (y, p2))"
proof -
  obtain n where "f n p = Some (Inr (x, p1))" "g n x p1 = Some (Inr (y, p2))"
    using yields_both [OF assms] .
  then show ?thesis by (intro exI [of _ n]) simp
qed

lemma yields_Suc: "\<exists>n. f (Suc n) p = Some (Inr (x, p')) \<Longrightarrow> yields f p x p'"
  by (auto simp: yields_def)

lemma yields_or:
  "yields parse_and p a p1 \<Longrightarrow> yields (\<lambda>n. or_loop n a) p1 e p2 \<Longrightarrow> yields parse_or p e p2"
  using yields_then [of parse_and p a p1 or_loop] by (intro yields_Suc) (simp add: monotone_rules)

lemma yields_and:
  "yields parse_cmp p a p1 \<Longrightarrow> yields (\<lambda>n. and_loop n a) p1 e p2 \<Longrightarrow> yields parse_and p e p2"
  using yields_then [of parse_cmp p a p1 and_loop] by (intro yields_Suc) (simp add: monotone_rules)

lemma yields_or_loop:
  assumes "eat_either ''||'' ''or'' (skip_whitespace p) = (True, p1)" "yields parse_and p1 b p2"
    "yields (\<lambda>n. or_loop n (EOr a b)) p2 e p3"
  shows "yields (\<lambda>n. or_loop n a) p e p3"
  using yields_then [of parse_and p1 b p2 "\<lambda>n b. or_loop n (EOr a b)"] assms
  by (intro yields_Suc) (simp add: monotone_rules)

lemma yields_and_loop:
  assumes "eat_either ''&&'' ''and'' (skip_whitespace p) = (True, p1)" "yields parse_cmp p1 b p2"
    "yields (\<lambda>n. and_loop n (EAnd a b)) p2 e p3"
  shows "yields (\<lambda>n. and_loop n a) p e p3"
  using yields_then [of parse_cmp p1 b p2 "\<lambda>n b. and_loop n (EAnd a b)"] assms
  by (intro yields_Suc) (simp add: monotone_rules)

lemma yields_loop_end:
  "eat_either ''||'' ''or'' (skip_whitespace p) = (False, p1) \<Longrightarrow> yields (\<lambda>n. or_loop n a) p a p1"
  "eat_either ''&&'' ''and'' (skip_whitespace p) = (False, p1) \<Longrightarrow> yields (\<lambda>n. and_loop n a) p a p1"
  by (auto intro!: yields_Suc)

lemma yields_cmp:
  assumes "yields parse_term p a p1" "comparison (skip_whitespace p1) = (Some op, p2)" "yields parse_term p2 b p3"
  shows "yields parse_cmp p (EBinOp op a b) p3"
proof -
  obtain n where "parse_term n p = Some (Inr (a, p1))" "parse_term n p2 = Some (Inr (b, p3))"
    using yields_both [OF assms(1,3) monotone_rules(6,6)] .
  then show ?thesis using assms(2) by (intro yields_Suc exI [of _ n]) simp
qed

lemma yields_cmp_plain:
  assumes "yields parse_term p a p1" "comparison (skip_whitespace p1) = (None, p2)"
  shows "yields parse_cmp p a p2"
proof -
  obtain n where "parse_term n p = Some (Inr (a, p1))" using assms by (auto simp: yields_def)
  then show ?thesis using assms by (intro yields_Suc exI [of _ n]) simp
qed

lemma yields_parens:
  assumes "peek (skip_whitespace p) = Some (CHR ''('')" "yields parse_or (move 1 (skip_whitespace p)) e p1"
    "expect '')'' p1 = Inr ((), p2)"
  shows "yields parse_term p e p2"
proof -
  obtain n where "parse_or n (move 1 (skip_whitespace p)) = Some (Inr (e, p1))"
    using assms by (auto simp: yields_def)
  then show ?thesis using assms by (intro yields_Suc exI [of _ n]) (simp add: Let_def)
qed

lemma yields_args_last:
  assumes "yields parse_or p e p1" "eat '','' (skip_whitespace p1) = (False, p2)"
  shows "yields (\<lambda>n. args_loop n acc) p (acc @ [e]) p2"
proof -
  obtain n where "parse_or n p = Some (Inr (e, p1))" using assms by (auto simp: yields_def)
  then show ?thesis using assms by (intro yields_Suc exI [of _ n]) simp
qed

lemma yields_args_more:
  assumes "yields parse_or p e p1" "eat '','' (skip_whitespace p1) = (True, p2)"
    "yields (\<lambda>n. args_loop n (acc @ [e])) p2 args p3"
  shows "yields (\<lambda>n. args_loop n acc) p args p3"
proof -
  obtain n where "parse_or n p = Some (Inr (e, p1))" "args_loop n (acc @ [e]) p2 = Some (Inr (args, p3))"
    using yields_both [OF assms(1,3) monotone_rules(1,8)] .
  then show ?thesis using assms(2) by (intro yields_Suc exI [of _ n]) simp
qed

section \<open>The printer\<close>

definition quote_byte :: "char \<Rightarrow> string" where
  "quote_byte c = (if c = CHR 0x22 \<or> c = CHR 0x5C then [CHR 0x5C, c] else [c])"

definition show_str :: "string \<Rightarrow> string" where
  "show_str s = CHR 0x22 # concat (List.map quote_byte s) @ [CHR 0x22]"

fun show_index :: "Index \<Rightarrow> string" where
  "show_index (IxInt i) = show_int i"
| "show_index (IxStr s) = show_str s"
| "show_index (IxIdent s) = s"
| "show_index IxWildcard = ''*''"

fun show_segment :: "Segment \<Rightarrow> string" where
  "show_segment (SField f) = CHR ''.'' # f"
| "show_segment (SIndex ix) = CHR ''['' # show_index ix @ '']''"

fun show_literal :: "Value \<Rightarrow> string" where
  "show_literal (VInt i) = show_int i"
| "show_literal (VStr s) = show_str s"
| "show_literal (VBool b) = (if b then ''true'' else ''false'')"
| "show_literal _ = []"

fun join_args :: "string list \<Rightarrow> string" where
  "join_args [] = []"
| "join_args [a] = a"
| "join_args (a # b # as) = a @ '', '' @ join_args (b # as)"

definition parens_if :: "bool \<Rightarrow> string \<Rightarrow> string" where
  "parens_if b s = (if b then CHR ''('' # s @ '')'' else s)"

text \<open>The level is that of the grammar rule the text is for: 0 or, 1 and, 2 comparison, 3 term.\<close>

fun show_at :: "nat \<Rightarrow> Expr \<Rightarrow> string" where
  "show_at l (ELiteral v) = show_literal v"
| "show_at l (EPath name segments) = name @ concat (List.map show_segment segments)"
| "show_at l (ECall name args) = name @ CHR ''('' # join_args (List.map (show_at 0) args) @ '')''"
| "show_at l (EBinOp op a b) = parens_if (2 < l) (show_at 3 a @ '' '' @ binop_text op @ '' '' @ show_at 3 b)"
| "show_at l (EAnd a b) = parens_if (1 < l) (show_at 1 a @ '' && '' @ show_at 2 b)"
| "show_at l (EOr a b) = parens_if (0 < l) (show_at 0 a @ '' || '' @ show_at 1 b)"

definition show_expr :: "Expr \<Rightarrow> string" where
  "show_expr e = show_at 0 e"

text \<open>What can be written: identifiers that are not keywords, ASCII strings, 64-bit integers.\<close>

definition root_ok :: "string \<Rightarrow> bool" where
  "root_ok s \<longleftrightarrow> s \<noteq> [] \<and> ident_start (hd s) \<and> list_all ident_char s \<and> s \<noteq> ''true'' \<and> s \<noteq> ''false''"

definition ascii :: "string \<Rightarrow> bool" where
  "ascii s \<longleftrightarrow> list_all (\<lambda>c. byte c < 128) s"

definition is_i64 :: "int \<Rightarrow> bool" where
  "is_i64 i \<longleftrightarrow> - (2 ^ 63) \<le> i \<and> i < 2 ^ 63"

fun index_ok :: "Index \<Rightarrow> bool" where
  "index_ok (IxInt i) = is_i64 i"
| "index_ok (IxStr s) = ascii s"
| "index_ok (IxIdent s) = (s \<noteq> [] \<and> ident_start (hd s) \<and> list_all (\<lambda>c. ident_char c \<or> c = CHR ''-'') s)"
| "index_ok IxWildcard = True"

fun segment_ok :: "Segment \<Rightarrow> bool" where
  "segment_ok (SField f) = (f \<noteq> [] \<and> list_all ident_char f)"
| "segment_ok (SIndex ix) = index_ok ix"

fun literal_ok :: "Value \<Rightarrow> bool" where
  "literal_ok (VInt i) = is_i64 i"
| "literal_ok (VStr s) = ascii s"
| "literal_ok (VBool b) = True"
| "literal_ok _ = False"

fun printable :: "Expr \<Rightarrow> bool" where
  "printable (ELiteral v) = literal_ok v"
| "printable (EPath name segments) = (root_ok name \<and> list_all segment_ok segments)"
| "printable (ECall name args) = (root_ok name \<and> list_all printable args)"
| "printable (EBinOp op a b) = (printable a \<and> printable b)"
| "printable (EAnd a b) = (printable a \<and> printable b)"
| "printable (EOr a b) = (printable a \<and> printable b)"

section \<open>Reading tokens back\<close>

definition reads :: "string \<Rightarrow> Parser \<Rightarrow> bool" where
  "reads s p \<longleftrightarrow> pr_rest (skip_whitespace p) = dropWhile is_ascii_whitespace s"

lemma skip_rest: "pr_rest (skip_whitespace p) = dropWhile is_ascii_whitespace (pr_rest p)"
  by (simp add: skip_whitespace_def)

lemma reads_rest: "pr_rest p = s \<Longrightarrow> reads s p"
  by (simp add: reads_def skip_rest)

lemma takeWhile_dropWhile [simp]: "takeWhile P (dropWhile P s) = []"
  by (induction s) auto

lemma skip_skip [simp]: "skip_whitespace (skip_whitespace p) = skip_whitespace p"
  by (simp add: skip_whitespace_def skip_while_def move_def flip: dropWhile_eq_drop)

lemma reads_skip [simp]: "reads s (skip_whitespace p) = reads s p"
  by (simp add: reads_def)

lemma whitespace_iff: "is_ascii_whitespace c \<longleftrightarrow> c \<in> {CHR 0x09, CHR 0x0A, CHR 0x0C, CHR 0x0D, CHR '' ''}"
proof -
  have inj: "byte c = byte d \<longleftrightarrow> c = d" for d by (simp add: byte_def)
  have "byte (CHR 0x09) = 9" "byte (CHR 0x0A) = 10" "byte (CHR 0x0C) = 12" "byte (CHR 0x0D) = 13" "byte (CHR '' '') = 32"
    by (simp_all add: byte_def)
  then show ?thesis unfolding is_ascii_whitespace_def by (metis inj insert_iff singletonD singletonI)
qed

lemma reads_space [simp]: "reads (CHR '' '' # s) p = reads s p"
  by (simp add: reads_def whitespace_iff)

lemma eat_hit:
  assumes "reads (e @ s) p" "e \<noteq> []" "\<not> is_ascii_whitespace (hd e)"
  obtains p1 where "eat e p = (True, p1)" "pr_rest p1 = s"
  using assms by (cases e) (auto simp: eat_def Let_def reads_def)

lemma eat_miss:
  assumes "reads s p" "\<not> prefix e (dropWhile is_ascii_whitespace s)"
  shows "eat e p = (False, skip_whitespace p)"
  using assms by (simp add: eat_def Let_def reads_def)

definition followers :: "nat \<Rightarrow> string" where
  "followers l = ''),'' @ (if 1 \<le> l then ''|'' else []) @ (if 2 \<le> l then ''&'' else []) @ (if 3 \<le> l then ''=!<>'' else [])"

definition closing :: "nat \<Rightarrow> string \<Rightarrow> bool" where
  "closing l r \<longleftrightarrow> (r = [] \<or> hd r \<in> {CHR '' '', CHR '')'', CHR '',''})
     \<and> (case dropWhile is_ascii_whitespace r of [] \<Rightarrow> True | c # _ \<Rightarrow> c \<in> set (followers l))"

lemma closing_end [simp]: "closing l []" "closing l (CHR '')'' # s)" "closing l (CHR '','' # s)"
  by (simp_all add: closing_def followers_def whitespace_iff)

lemma closing_or: "closing 1 ('' || '' @ s)" and closing_and: "closing 2 ('' && '' @ s)"
  by (simp_all add: closing_def followers_def whitespace_iff)

lemma closing_op: "closing 3 (CHR '' '' # binop_text op @ s)"
proof -
  have f: "set (followers 3) = set ''),|&=!<>''" by (simp add: followers_def)
  show ?thesis unfolding closing_def f by (cases op) (simp_all add: whitespace_iff)
qed

lemma closing_mono:
  assumes "closing l r" "l \<le> m"
  shows "closing m r"
proof -
  have "set (followers l) \<subseteq> set (followers m)"
    unfolding followers_def set_append by (intro Un_mono subset_refl) (use assms(2) in \<open>auto split: if_splits\<close>)
  moreover define d where "d = dropWhile is_ascii_whitespace r"
  ultimately show ?thesis using assms(1) unfolding closing_def d_def [symmetric] by (cases d) auto
qed

section \<open>Terms that are one token\<close>

lemma closing_hd:
  assumes "closing l r"
  shows "r = [] \<or> (\<exists>c cs. r = c # cs \<and> \<not> ident_char c \<and> \<not> is_ascii_digit c \<and> \<not> is_ascii_lowercase c
    \<and> c \<noteq> CHR ''.'' \<and> c \<noteq> CHR '':'' \<and> c \<noteq> CHR ''('' \<and> c \<noteq> CHR ''['' \<and> c \<noteq> CHR ''-'')"
  using assms by (cases r) (auto simp: closing_def ident_char_def is_ascii_alphabetic_def is_ascii_lowercase_def
      is_ascii_digit_def byte_def)

lemma takeWhile_closing:
  assumes "list_all P s" "r = [] \<or> (\<exists>c cs. r = c # cs \<and> \<not> P c)"
  shows "takeWhile P (s @ r) = s" "dropWhile P (s @ r) = r"
  using assms by (auto simp: list_all_iff takeWhile_append2 dropWhile_append2)

lemma parse_number_int:
  assumes "pr_rest p = show_int i @ r" "is_i64 i"
    and r: "r = [] \<or> (\<exists>c cs. r = c # cs \<and> \<not> is_ascii_digit c \<and> c \<noteq> CHR ''.'')"
  shows "parse_number p = Inr (VInt i, move (length (show_int i)) p)"
proof -
  define sign where "sign = (if i < 0 then ''-'' else [])"
  define ds where "ds = show_nat (nat \<bar>i\<bar>)"
  have i: "show_int i = sign @ ds" by (simp add: show_int_def sign_def ds_def)
  have ds: "list_all is_ascii_digit ds" "ds \<noteq> []" by (simp_all add: ds_def show_nat_digits)
  then have dw: "dropWhile is_ascii_digit ds = []" "takeWhile is_ascii_digit ds = ds" by (simp_all add: list_all_iff)
  have hd: "take 1 (sign @ ds @ r) \<noteq> ''-'' \<and> take 1 (sign @ ds @ r) \<noteq> ''+''" if "\<not> i < 0"
    using show_nat_hd [of "nat \<bar>i\<bar>"] that by (auto simp: sign_def ds_def)
  have "number_text (sign @ ds @ r) = (sign, ds, [])"
    using hd takeWhile_closing [OF ds(1), of r] dw r
    by (cases "i < 0") (auto simp: number_text_def Let_def sign_def split: list.splits)
  moreover have "parse_i64 (sign @ ds) = Inr i"
    using parse_int_show_int [of "- (2 ^ 63)" i "2 ^ 63 - 1"] assms(2) by (simp add: i [symmetric] parse_i64_def is_i64_def)
  ultimately show ?thesis using assms(1) ds by (simp add: parse_number_def i Let_def)
qed


lemma peek_reads: "reads (c # s) p \<Longrightarrow> \<not> is_ascii_whitespace c \<Longrightarrow> peek (skip_whitespace p) = Some c"
  by (simp add: reads_def peek_def peek_at_def)

lemma term_int:
  assumes "is_i64 i" "closing l r" "reads (show_int i @ r) p"
  obtains p1 where "yields parse_term p (ELiteral (VInt i)) p1" "pr_rest p1 = r"
proof -
  obtain c cs where c: "show_int i = c # cs" "c = CHR ''-'' \<or> is_ascii_digit c"
    using show_int_nonempty [of i] show_int_chars [of _ i] by (cases "show_int i") auto
  have ws: "\<not> is_ascii_whitespace c" "c \<noteq> CHR ''(''" "c \<noteq> CHR 0x22" "c \<noteq> CHR 0x27"
    using c(2) by (auto simp: whitespace_iff is_ascii_digit_def byte_def)
  let ?q = "skip_whitespace p" and ?p1 = "move (length (show_int i)) (skip_whitespace p)"
  have q: "pr_rest ?q = show_int i @ r" using assms(3) c ws by (simp add: reads_def)
  have n: "parse_number ?q = Inr (VInt i, ?p1)"
    using parse_number_int [OF q assms(1)] closing_hd [OF assms(2)] by blast
  have r: "pr_rest ?p1 = r" using q by simp
  have "takeWhile is_ascii_lowercase r = []" using closing_hd [OF assms(2)] by auto
  moreover have "minutes_seconds ?p1 = None"
    using closing_hd [OF assms(2)] r by (auto simp: minutes_seconds_def peek_def peek_at_def)
  ultimately have "parse_number_literal ?q = Inr (ELiteral (VInt i), ?p1)"
    using r by (simp add: parse_number_literal_def n)
  moreover have "peek ?q = Some c" using assms(3) c ws by (intro peek_reads) auto
  ultimately have "yields parse_term p (ELiteral (VInt i)) ?p1"
    using ws c(2) by (intro yields_Suc) (auto simp: Let_def)
  then show ?thesis using r that by blast
qed

lemma string_loop_quoted:
  assumes "ascii s"
  shows "\<exists>pos'. string_loop start (CHR 0x22) acc pos (concat (List.map quote_byte s) @ CHR 0x22 # r)
    = Inr (acc @ s, \<lparr> pr_pos = pos', pr_rest = r \<rparr>)"
  using assms
proof (induction s arbitrary: acc pos)
  case (Cons c s)
  then have c: "push_byte c = [c]" "escaped c = [c]" if "c = CHR 0x22 \<or> c = CHR 0x5C \<or> c \<noteq> CHR ''n'' \<and> c \<noteq> CHR ''t''"
    using that by (auto simp: ascii_def push_byte_def escaped_def)
  have p: "push_byte c = [c]" using Cons by (simp add: ascii_def push_byte_def)
  have s: "ascii s" using Cons by (simp add: ascii_def)
  show ?case
  proof (cases "c = CHR 0x22 \<or> c = CHR 0x5C")
    case True
    then show ?thesis using Cons.IH [OF s, of "acc @ [c]" "pos + 2"] c by (auto simp: quote_byte_def [of c])
  next
    case False
    then show ?thesis using Cons.IH [OF s, of "acc @ [c]" "pos + 1"] p by (auto simp: quote_byte_def [of c])
  qed
qed simp

lemma parse_string_quoted:
  assumes "ascii s" "pr_rest p = show_str s @ r"
  obtains p1 where "parse_string p = Inr (s, p1)" "pr_rest p1 = r"
  using string_loop_quoted [OF assms(1), of "pr_pos p" "[]" "pr_pos p + 1" r] assms(2)
  by (auto simp: parse_string_def show_str_def)

lemma term_str:
  assumes "ascii s" "reads (show_str s @ r) p"
  obtains p1 where "yields parse_term p (ELiteral (VStr s)) p1" "pr_rest p1 = r"
proof -
  have ws: "\<not> is_ascii_whitespace (CHR 0x22)" by (simp add: whitespace_iff)
  then have "pr_rest (skip_whitespace p) = show_str s @ r" using assms(2) by (simp add: reads_def show_str_def)
  then obtain p1 where p1: "parse_string (skip_whitespace p) = Inr (s, p1)" "pr_rest p1 = r"
    using parse_string_quoted [OF assms(1)] by blast
  have "peek (skip_whitespace p) = Some (CHR 0x22)"
    using assms(2) ws by (intro peek_reads) (auto simp: show_str_def)
  with p1 have "yields parse_term p (ELiteral (VStr s)) p1"
    by (intro yields_Suc) (simp add: Let_def)
  then show ?thesis using p1 that by blast
qed

lemma take_ident_reads:
  assumes "reads (s @ r) p" "s \<noteq> []" "list_all P s" "\<not> is_ascii_whitespace (hd s)" "r = [] \<or> (\<exists>c cs. r = c # cs \<and> \<not> P c)"
  obtains p1 where "take_ident P p = Inr (s, p1)" "pr_rest p1 = r"
proof -
  have "pr_rest (skip_whitespace p) = s @ r" using assms(1,2,4) by (cases s) (auto simp: reads_def)
  then show ?thesis using takeWhile_closing [OF assms(3,5)] assms(2) that
    by (simp add: take_ident_def Let_def skip_while_def)
qed

section \<open>Paths and calls\<close>

lemma not_whitespace: "ident_start c \<Longrightarrow> \<not> is_ascii_whitespace c" "ident_char c \<Longrightarrow> \<not> is_ascii_whitespace c"
  "is_ascii_digit c \<Longrightarrow> \<not> is_ascii_whitespace c"
  by (auto simp: is_ascii_whitespace_def ident_start_def ident_char_def is_ascii_alphabetic_def is_ascii_lowercase_def
      is_ascii_digit_def byte_def)

lemma ident_start_facts:
  assumes "ident_start c"
  shows "ident_char c" "\<not> is_ascii_digit c" "c \<notin> {CHR ''('', CHR 0x22, CHR 0x27, CHR ''-'', CHR ''+'', CHR ''*''}"
proof -
  show "ident_char c" "\<not> is_ascii_digit c"
    using assms by (auto simp: ident_start_def ident_char_def is_ascii_alphabetic_def is_ascii_lowercase_def is_ascii_digit_def byte_def)
  have "\<not> ident_start d" if "d \<in> {CHR ''('', CHR 0x22, CHR 0x27, CHR ''-'', CHR ''+'', CHR ''*''}" for d
    using that by (elim insertE emptyE) (simp_all add: ident_start_def is_ascii_alphabetic_def is_ascii_lowercase_def byte_def)
  then show "c \<notin> {CHR ''('', CHR 0x22, CHR 0x27, CHR ''-'', CHR ''+'', CHR ''*''}" using assms by blast
qed

lemma expect_hit:
  assumes "reads (e @ s) p" "e \<noteq> []" "\<not> is_ascii_whitespace (hd e)"
  obtains p1 where "expect e p = Inr ((), p1)" "pr_rest p1 = s"
proof -
  obtain p1 where "eat e p = (True, p1)" "pr_rest p1 = s" using eat_hit [OF assms] .
  then show ?thesis using that by (simp add: expect_def)
qed

lemma parse_index_reads:
  assumes "index_ok ix" "pr_rest p = show_index ix @ CHR '']'' # r"
  obtains p1 where "parse_index p = Inr (ix, p1)" "pr_rest p1 = CHR '']'' # r"
proof -
  have bracket: "\<not> ident_char (CHR '']'')" "\<not> is_ascii_digit (CHR '']'')"
    by (auto simp: ident_char_def is_ascii_alphabetic_def is_ascii_lowercase_def is_ascii_digit_def byte_def)
  note defs = parse_index_def Let_def peek_def peek_at_def
  show ?thesis
  proof (cases ix)
    case (IxInt i)
    obtain c cs where c: "show_int i = c # cs" "c = CHR ''-'' \<or> is_ascii_digit c"
      using show_int_nonempty [of i] show_int_chars [of _ i] by (cases "show_int i") auto
    have ws: "\<not> is_ascii_whitespace c" "c \<noteq> CHR ''*''" "c \<noteq> CHR 0x22" "c \<noteq> CHR 0x27"
      using c(2) by (auto simp: whitespace_iff is_ascii_digit_def byte_def)
    let ?q = "skip_whitespace p"
    have q: "pr_rest ?q = show_int i @ CHR '']'' # r" using assms(2) c ws by (simp add: IxInt skip_rest)
    then have "parse_number ?q = Inr (VInt i, move (length (show_int i)) ?q)"
      using parse_number_int [OF q] bracket assms(1) by (simp add: IxInt)
    then have "parse_index p = Inr (ix, move (length (show_int i)) ?q)"
      using q c ws by (auto simp: defs IxInt)
    then show ?thesis using that q by simp
  next
    case (IxStr s)
    have ws: "\<not> is_ascii_whitespace (CHR 0x22)" by (simp add: whitespace_iff)
    have q: "pr_rest (skip_whitespace p) = show_str s @ CHR '']'' # r"
      using assms(2) ws by (simp add: IxStr skip_rest show_str_def)
    then obtain p1 where "parse_string (skip_whitespace p) = Inr (s, p1)" "pr_rest p1 = CHR '']'' # r"
      using parse_string_quoted assms(1) by (metis IxStr index_ok.simps(2))
    then show ?thesis using that q by (simp add: defs IxStr show_str_def)
  next
    case (IxIdent s)
    then have s: "s \<noteq> []" "ident_start (hd s)" "list_all (\<lambda>c. ident_char c \<or> c = CHR ''-'') s" using assms(1) by simp_all
    then obtain c cs where c: "s = c # cs" "ident_start c" by (cases s) auto
    have q: "pr_rest (skip_whitespace p) = s @ CHR '']'' # r"
      using assms(2) not_whitespace c by (simp add: IxIdent skip_rest)
    obtain p1 where "parse_ident_with_hyphen (skip_whitespace p) = Inr (s, p1)" "pr_rest p1 = CHR '']'' # r"
      unfolding parse_ident_with_hyphen_def
      using take_ident_reads [OF reads_rest [OF q] s(1,3)] bracket not_whitespace(1) [OF s(2)] by auto
    then show ?thesis using that q c ident_start_facts [OF c(2)] by (simp add: defs IxIdent)
  next
    case IxWildcard
    have "\<not> is_ascii_whitespace (CHR ''*'')" by (simp add: whitespace_iff)
    then have "pr_rest (skip_whitespace p) = CHR ''*'' # CHR '']'' # r"
      using assms(2) by (simp add: IxWildcard skip_rest)
    then show ?thesis using that [of "move 1 (skip_whitespace p)"] by (simp add: defs IxWildcard)
  qed
qed

text \<open>What may follow a segment: another one, or the end of the path.\<close>

definition after_ident :: "string \<Rightarrow> bool" where
  "after_ident r \<longleftrightarrow> r = [] \<or> (\<exists>c cs. r = c # cs \<and> \<not> ident_char c)"

lemma after_ident_closing: "closing l r \<Longrightarrow> after_ident r"
  using closing_hd by (fastforce simp: after_ident_def)

lemma after_ident_segments: "after_ident r \<Longrightarrow> after_ident (concat (List.map show_segment segs) @ r)"
proof (cases segs)
  case (Cons sg sgs)
  then show ?thesis
    by (cases sg) (auto simp: after_ident_def ident_char_def is_ascii_alphabetic_def is_ascii_lowercase_def is_ascii_digit_def byte_def)
qed simp

lemma parse_segment_reads:
  assumes "segment_ok sg" "after_ident r" "reads (show_segment sg @ r) p"
  obtains p1 where "parse_segment p = Inr (Some sg, p1)" "pr_rest p1 = r"
proof (cases sg)
  case (SField f)
  have "reads (''.'' @ (f @ r)) p" using assms(3) by (simp add: SField)
  then obtain p1 where p1: "eat ''.'' p = (True, p1)" "pr_rest p1 = f @ r"
    using eat_hit [of "''.''" "f @ r" p] by (auto simp: whitespace_iff)
  have f: "f \<noteq> []" "list_all ident_char f" using assms(1) by (simp_all add: SField)
  then have "\<not> is_ascii_whitespace (hd f)" using not_whitespace(2) by (cases f) auto
  then obtain p2 where "parse_ident p1 = Inr (f, p2)" "pr_rest p2 = r"
    unfolding parse_ident_def using take_ident_reads [OF reads_rest [OF p1(2)] f] assms(2) unfolding after_ident_def by blast
  then show ?thesis using that p1 by (simp add: parse_segment_def SField)
next
  case (SIndex ix)
  have ws: "\<not> is_ascii_whitespace (CHR ''['')" by (simp add: whitespace_iff)
  have q: "pr_rest (skip_whitespace p) = CHR ''['' # show_index ix @ CHR '']'' # r"
    using assms(3) ws by (simp add: SIndex reads_def)
  have e: "eat ''.'' p = (False, skip_whitespace p)"
    using assms(3) ws by (intro eat_miss) (auto simp: SIndex)
  obtain p1 where p1: "parse_index (move 1 (skip_whitespace p)) = Inr (ix, p1)" "pr_rest p1 = CHR '']'' # r"
    using parse_index_reads [of ix "move 1 (skip_whitespace p)" r] assms(1) q by (auto simp: SIndex)
  then have "reads ('']'' @ r) p1" by (simp add: reads_rest)
  then obtain p2 where "expect '']'' p1 = Inr ((), p2)" "pr_rest p2 = r"
    using expect_hit [of "'']''" r p1] by (auto simp: whitespace_iff)
  then show ?thesis using that q p1 by (simp add: parse_segment_def e peek_def peek_at_def SIndex)
qed

lemma closing_next:
  assumes "closing l r" "reads r p"
  shows "\<not> prefix ''.'' (dropWhile is_ascii_whitespace r)" "peek (skip_whitespace p) \<noteq> Some (CHR ''['')"
    "peek (skip_whitespace p) \<noteq> Some (CHR ''('')"
proof -
  have "set (followers l) \<subseteq> set (followers 3)"
    unfolding followers_def set_append by (intro Un_mono subset_refl) auto
  then have f: "c \<notin> set (followers l)" if "c \<in> {CHR ''.'', CHR ''['', CHR ''(''}" for c
    using that by (auto simp: followers_def)
  have rest: "pr_rest (skip_whitespace p) = dropWhile is_ascii_whitespace r" using assms(2) by (simp add: reads_def)
  have "\<not> prefix ''.'' (dropWhile is_ascii_whitespace r) \<and> peek (skip_whitespace p) \<noteq> Some (CHR ''['')
    \<and> peek (skip_whitespace p) \<noteq> Some (CHR ''('')"
  proof (cases "dropWhile is_ascii_whitespace r")
    case Nil
    then show ?thesis by (simp only: rest peek_def peek_at_def) simp
  next
    case (Cons c cs)
    then have "c \<in> set (followers l)" using assms(1) unfolding closing_def by simp
    then have "c \<notin> {CHR ''.'', CHR ''['', CHR ''(''}" using f by blast
    then show ?thesis by (simp only: rest Cons peek_def peek_at_def) auto
  qed
  then show "\<not> prefix ''.'' (dropWhile is_ascii_whitespace r)" "peek (skip_whitespace p) \<noteq> Some (CHR ''['')"
    "peek (skip_whitespace p) \<noteq> Some (CHR ''('')" by blast+
qed

lemma path_segments_reads:
  assumes "list_all segment_ok segs" "closing l r" "reads (concat (List.map show_segment segs) @ r) p"
  shows "\<exists>p1. path_segments acc p = Inr (acc @ segs, p1) \<and> reads r p1"
  using assms(1,3)
proof (induction segs arbitrary: acc p)
  case Nil
  then have "parse_segment p = Inr (None, skip_whitespace p)"
    using closing_next [OF assms(2), of p] eat_miss [of r p "''.''"] by (simp add: parse_segment_def)
  then show ?case using Nil by (simp add: path_segments.simps [of acc p])
next
  case (Cons sg segs)
  let ?r = "concat (List.map show_segment segs) @ r"
  obtain p1 where p1: "parse_segment p = Inr (Some sg, p1)" "pr_rest p1 = ?r"
    using parse_segment_reads [of sg ?r p] Cons.prems after_ident_segments [OF after_ident_closing [OF assms(2)]]
    by auto
  obtain p2 where "path_segments (acc @ [sg]) p1 = Inr ((acc @ [sg]) @ segs, p2)" "reads r p2"
    using Cons.IH [of p1 "acc @ [sg]"] Cons.prems(1) reads_rest [OF p1(2)] by auto
  then show ?case using p1 by (simp add: path_segments.simps [of acc p])
qed

lemma root_reads:
  assumes "root_ok name" "after_ident r" "reads (name @ r) p"
  obtains c p1 where "peek (skip_whitespace p) = Some c" "ident_start c" "parse_ident (skip_whitespace p) = Inr (name, p1)"
    "pr_rest p1 = r"
proof -
  obtain c cs where c: "name = c # cs" "ident_start c" using assms(1) by (cases name) (auto simp: root_ok_def)
  have "reads (name @ r) (skip_whitespace p)" using assms(3) by simp
  then obtain p1 where "parse_ident (skip_whitespace p) = Inr (name, p1)" "pr_rest p1 = r"
    unfolding parse_ident_def using take_ident_reads [of name r "skip_whitespace p" ident_char] assms(1,2) not_whitespace(1)
    unfolding root_ok_def after_ident_def by blast
  moreover have "peek (skip_whitespace p) = Some c" using assms(3) c not_whitespace(1) by (intro peek_reads) auto
  ultimately show ?thesis using that c by blast
qed

lemma yields_ident:
  assumes "yields parse_ident_expr (skip_whitespace p) e p1" "peek (skip_whitespace p) = Some c" "ident_start c"
  shows "yields parse_term p e p1"
proof -
  obtain n where "parse_ident_expr n (skip_whitespace p) = Some (Inr (e, p1))" using assms(1) by (auto simp: yields_def)
  then show ?thesis using assms(2) ident_start_facts [OF assms(3)] assms(3)
    by (intro yields_Suc exI [of _ n]) (simp add: Let_def)
qed

lemma term_path:
  assumes "root_ok name" "list_all segment_ok segs" "closing l r" "reads (name @ concat (List.map show_segment segs) @ r) p"
  obtains p1 where "yields parse_term p (EPath name segs) p1" "reads r p1"
proof -
  let ?r = "concat (List.map show_segment segs) @ r"
  obtain c p1 where p1: "peek (skip_whitespace p) = Some c" "ident_start c" "parse_ident (skip_whitespace p) = Inr (name, p1)"
    "pr_rest p1 = ?r"
    using root_reads [OF assms(1) after_ident_segments [OF after_ident_closing [OF assms(3)]] assms(4)] .
  have r1: "reads ?r (skip_whitespace p1)" using reads_rest [OF p1(4)] by simp
  obtain p2 where p2: "path_segments [] (skip_whitespace p1) = Inr (segs, p2)" "reads r p2"
    using path_segments_reads [OF assms(2,3) r1, of "[]"] by auto
  have "peek (skip_whitespace p1) \<noteq> Some (CHR ''('')"
  proof (cases segs)
    case Nil
    then show ?thesis using closing_next(3) [OF assms(3)] r1 by simp
  next
    case (Cons sg sgs)
    then show ?thesis using p1(4) by (cases sg) (simp_all add: peek_def peek_at_def skip_rest whitespace_iff)
  qed
  then have "yields parse_ident_expr (skip_whitespace p) (EPath name segs) p2"
    using p1(3) p2(1) assms(1) by (intro yields_Suc exI [of _ 0]) (simp add: Let_def root_ok_def)
  then show ?thesis using that yields_ident p1(1,2) p2(2) by blast
qed

lemma term_bool:
  assumes "closing l r" "reads ((if b then ''true'' else ''false'') @ r) p"
  obtains p1 where "yields parse_term p (ELiteral (VBool b)) p1" "pr_rest p1 = r"
proof -
  let ?s = "if b then ''true'' else ''false''"
  have s: "?s \<noteq> []" "list_all ident_char ?s" "ident_start (hd ?s)"
    by (simp_all add: ident_char_def ident_start_def is_ascii_alphabetic_def is_ascii_lowercase_def byte_def)
  then obtain c cs where c: "?s = c # cs" "ident_start c" by (cases ?s) auto
  have "reads (?s @ r) (skip_whitespace p)" using assms(2) by simp
  then obtain p1 where p1: "parse_ident (skip_whitespace p) = Inr (?s, p1)" "pr_rest p1 = r"
    unfolding parse_ident_def using take_ident_reads [of ?s r "skip_whitespace p" ident_char] s not_whitespace(1)
      after_ident_closing [OF assms(1)] unfolding after_ident_def by blast
  then have "yields parse_ident_expr (skip_whitespace p) (ELiteral (VBool b)) p1"
    by (intro yields_Suc exI [of _ 0]) (cases b; simp)
  moreover have "peek (skip_whitespace p) = Some c"
    using assms(2) not_whitespace(1) [OF c(2)] unfolding c(1) by (intro peek_reads) simp_all
  ultimately show ?thesis using that yields_ident c(2) p1(2) by blast
qed

lemma yields_call:
  assumes "yields (\<lambda>n. args_loop n []) p3 args p4" "peek p3 \<noteq> Some (CHR '')'')" "expect '')'' p4 = Inr ((), p5)"
    "parse_ident p = Inr (name, p1)" "root_ok name" "peek (skip_whitespace p1) = Some (CHR ''('')"
    "p3 = skip_whitespace (move 1 (skip_whitespace p1))"
  shows "yields parse_ident_expr p (ECall name args) p5"
proof -
  obtain n where "args_loop n [] p3 = Some (Inr (args, p4))" using assms(1) by (auto simp: yields_def)
  then show ?thesis using assms by (intro yields_Suc exI [of _ n]) (simp add: Let_def root_ok_def)
qed

section \<open>The levels of the grammar\<close>

text \<open>
  What each rule does with the text of \<open>e\<close> and what follows it. The or- and the and-rule reach their
  loop with \<open>e\<close> as the left operand, whatever the loop then does.
\<close>

definition as_term :: "Expr \<Rightarrow> bool" where
  "as_term e \<longleftrightarrow> (\<forall>r p. closing 3 r \<longrightarrow> reads (show_at 3 e @ r) p \<longrightarrow> (\<exists>p'. yields parse_term p e p' \<and> reads r p'))"

definition as_cmp :: "Expr \<Rightarrow> bool" where
  "as_cmp e \<longleftrightarrow> (\<forall>r p. closing 2 r \<longrightarrow> reads (show_at 2 e @ r) p \<longrightarrow> (\<exists>p'. yields parse_cmp p e p' \<and> reads r p'))"

definition as_and :: "Expr \<Rightarrow> bool" where
  "as_and e \<longleftrightarrow> (\<forall>r p. closing 2 r \<longrightarrow> reads (show_at 1 e @ r) p \<longrightarrow>
     (\<exists>p'. reads r p' \<and> (\<forall>x q. yields (\<lambda>n. and_loop n e) p' x q \<longrightarrow> yields parse_and p x q)))"

definition as_or :: "Expr \<Rightarrow> bool" where
  "as_or e \<longleftrightarrow> (\<forall>r p. closing 1 r \<longrightarrow> reads (show_at 0 e @ r) p \<longrightarrow>
     (\<exists>p'. reads r p' \<and> (\<forall>x q. yields (\<lambda>n. or_loop n e) p' x q \<longrightarrow> yields parse_or p x q)))"

definition as_whole :: "Expr \<Rightarrow> bool" where
  "as_whole e \<longleftrightarrow> (\<forall>r p. closing 0 r \<longrightarrow> reads (show_at 0 e @ r) p \<longrightarrow> (\<exists>p'. yields parse_or p e p' \<and> reads r p'))"

lemma closing_not:
  assumes "closing l r" "c \<notin> set (followers l)"
  shows "\<not> prefix (c # s) (dropWhile is_ascii_whitespace r)"
proof (cases "dropWhile is_ascii_whitespace r")
  case (Cons d ds)
  then have "d \<in> set (followers l)" using assms(1) unfolding closing_def by simp
  then show ?thesis using assms(2) Cons by auto
qed (simp only: prefix_def, simp)

lemma either_miss:
  assumes "closing l r" "reads r p" "a \<notin> set (followers l)" "b \<notin> set (followers l)"
  shows "eat_either (a # as) (b # bs) (skip_whitespace p) = (False, skip_whitespace p)"
proof -
  have r: "pr_rest (skip_whitespace p) = dropWhile is_ascii_whitespace r" using assms(2) by (simp add: reads_def)
  have "eat (a # as) (skip_whitespace p) = (False, skip_whitespace p)"
    "eat_keyword (b # bs) (skip_whitespace p) = (False, skip_whitespace p)"
    using closing_not [OF assms(1,3), of as] closing_not [OF assms(1,4), of bs]
    by (simp_all add: eat_def eat_keyword_def Let_def r)
  then show ?thesis by (simp add: eat_either_def)
qed

lemma either_hit:
  assumes "reads (e @ s) p" "e \<noteq> []" "\<not> is_ascii_whitespace (hd e)"
  obtains p1 where "eat_either e kw (skip_whitespace p) = (True, p1)" "pr_rest p1 = s"
proof -
  have "reads (e @ s) (skip_whitespace p)" using assms(1) by simp
  then obtain p1 where "eat e (skip_whitespace p) = (True, p1)" "pr_rest p1 = s" using eat_hit assms(2,3) by blast
  then show ?thesis using that by (simp add: eat_either_def)
qed

lemma loop_ends:
  assumes "closing l r" "reads r p"
  shows "l = 0 \<Longrightarrow> yields (\<lambda>n. or_loop n e) p e (skip_whitespace p)"
    and "l \<le> 1 \<Longrightarrow> yields (\<lambda>n. and_loop n e) p e (skip_whitespace p)"
proof -
  have f: "l = 0 \<Longrightarrow> CHR ''|'' \<notin> set (followers l)" "l \<le> 1 \<Longrightarrow> CHR ''&'' \<notin> set (followers l)"
    "CHR ''o'' \<notin> set (followers l)" "CHR ''a'' \<notin> set (followers l)"
    by (auto simp: followers_def split: if_splits)
  show "l = 0 \<Longrightarrow> yields (\<lambda>n. or_loop n e) p e (skip_whitespace p)"
    using either_miss [OF assms] f by (intro yields_loop_end) blast
  show "l \<le> 1 \<Longrightarrow> yields (\<lambda>n. and_loop n e) p e (skip_whitespace p)"
    using either_miss [OF assms] f by (intro yields_loop_end) blast
qed

lemma comparison_miss:
  assumes "closing 2 r" "reads r p"
  shows "comparison (skip_whitespace p) = (None, skip_whitespace p)"
proof -
  have r: "reads r (skip_whitespace p)" using assms(2) by simp
  have f: "c \<notin> set (followers 2)" if "c \<in> {CHR ''='', CHR ''!'', CHR ''<'', CHR ''>''}" for c
    using that by (auto simp: followers_def)
  have "eat (c # s) (skip_whitespace p) = (False, skip_whitespace p)" if "c \<in> {CHR ''='', CHR ''!'', CHR ''<'', CHR ''>''}" for c s
    using eat_miss [OF r closing_not [OF assms(1) f [OF that], of s]] by simp
  then show ?thesis by (simp add: comparison_def)
qed

lemma comparison_hit:
  assumes "reads (CHR '' '' # binop_text op @ CHR '' '' # s) p"
  obtains p1 where "comparison (skip_whitespace p) = (Some op, p1)" "pr_rest p1 = CHR '' '' # s"
proof -
  have ws: "\<not> is_ascii_whitespace c" if "c \<in> {CHR ''='', CHR ''!'', CHR ''<'', CHR ''>''}" for c
    using that by (auto simp: whitespace_iff)
  have r: "pr_rest (skip_whitespace p) = binop_text op @ CHR '' '' # s"
    using assms ws by (cases op) (simp_all add: reads_def whitespace_iff)
  have e: "eat e (skip_whitespace p) = (if prefix e (binop_text op @ CHR '' '' # s)
      then (True, move (length e) (skip_whitespace p)) else (False, skip_whitespace p))" for e
    by (simp add: eat_def Let_def r)
  have "comparison (skip_whitespace p) = (Some op, move (length (binop_text op)) (skip_whitespace p))"
    by (cases op) (simp_all add: comparison_def e)
  then show ?thesis using that r by simp
qed

lemma cmp_of_term:
  assumes "as_term e" "show_at 2 e = show_at 3 e"
  shows "as_cmp e"
  unfolding as_cmp_def
proof (intro allI impI)
  fix r p assume r: "closing 2 r" "reads (show_at 2 e @ r) p"
  then have "closing 3 r" "reads (show_at 3 e @ r) p" using assms(2) closing_mono [OF r(1)] by simp_all
  then obtain p' where p': "yields parse_term p e p'" "reads r p'"
    using assms(1) unfolding as_term_def by blast
  then have "yields parse_cmp p e (skip_whitespace p')"
    using yields_cmp_plain comparison_miss [OF r(1)] by blast
  then show "\<exists>p'. yields parse_cmp p e p' \<and> reads r p'" using p'(2) by (intro exI [of _ "skip_whitespace p'"]) simp
qed

lemma and_of_cmp:
  assumes "as_cmp e" "show_at 1 e = show_at 2 e"
  shows "as_and e"
  unfolding as_and_def
proof (intro allI impI)
  fix r p assume r: "closing 2 r" "reads (show_at 1 e @ r) p"
  then obtain p' where "yields parse_cmp p e p'" "reads r p'"
    using assms unfolding as_cmp_def by metis
  then show "\<exists>p'. reads r p' \<and> (\<forall>x q. yields (\<lambda>n. and_loop n e) p' x q \<longrightarrow> yields parse_and p x q)"
    using yields_and by blast
qed

lemma or_of_and:
  assumes "as_and e" "show_at 0 e = show_at 1 e"
  shows "as_or e"
  unfolding as_or_def
proof (intro allI impI)
  fix r p assume r: "closing 1 r" "reads (show_at 0 e @ r) p"
  then have "closing 2 r" "reads (show_at 1 e @ r) p" using assms(2) closing_mono [OF r(1)] by simp_all
  then obtain p' where p': "reads r p'" "\<And>x q. yields (\<lambda>n. and_loop n e) p' x q \<Longrightarrow> yields parse_and p x q"
    using assms(1) unfolding as_and_def by blast
  then have "yields parse_and p e (skip_whitespace p')" using loop_ends(2) [OF r(1) p'(1)] by simp
  then show "\<exists>p'. reads r p' \<and> (\<forall>x q. yields (\<lambda>n. or_loop n e) p' x q \<longrightarrow> yields parse_or p x q)"
    using p'(1) yields_or by (intro exI [of _ "skip_whitespace p'"]) auto
qed

lemma whole_of_or:
  assumes "as_or e"
  shows "as_whole e"
  unfolding as_whole_def
proof (intro allI impI)
  fix r p assume r: "closing 0 r" "reads (show_at 0 e @ r) p"
  then obtain p' where p': "reads r p'" "\<And>x q. yields (\<lambda>n. or_loop n e) p' x q \<Longrightarrow> yields parse_or p x q"
    using assms closing_mono [OF r(1), of 1] unfolding as_or_def by (meson zero_le_one)
  then show "\<exists>p'. yields parse_or p e p' \<and> reads r p'"
    using loop_ends(1) [OF r(1) p'(1)] by (intro exI [of _ "skip_whitespace p'"]) simp
qed

lemma term_of_whole:
  assumes "as_whole e" "show_at 3 e = CHR ''('' # show_at 0 e @ '')''"
  shows "as_term e"
  unfolding as_term_def
proof (intro allI impI)
  fix r p assume r: "closing 3 r" "reads (show_at 3 e @ r) p"
  let ?q = "move 1 (skip_whitespace p)"
  have ws: "\<not> is_ascii_whitespace (CHR ''('')" "\<not> is_ascii_whitespace (CHR '')'')" by (simp_all add: whitespace_iff)
  have "pr_rest (skip_whitespace p) = CHR ''('' # show_at 0 e @ CHR '')'' # r"
    using r(2) ws by (simp add: assms(2) reads_def)
  then have q: "peek (skip_whitespace p) = Some (CHR ''('')" "reads (show_at 0 e @ CHR '')'' # r) ?q"
    by (simp_all add: peek_def peek_at_def reads_rest)
  then obtain p1 where p1: "yields parse_or ?q e p1" "reads ('')'' @ r) p1"
    using assms(1) [unfolded as_whole_def, rule_format, OF closing_end(2) q(2)] by auto
  obtain p2 where "expect '')'' p1 = Inr ((), p2)" "pr_rest p2 = r"
    using expect_hit [OF p1(2)] ws by auto
  then show "\<exists>p'. yields parse_term p e p' \<and> reads r p'"
    using yields_parens q(1) p1(1) reads_rest by blast
qed

lemma as_termE:
  assumes "as_term e" "closing 3 r" "reads (show_at 3 e @ r) p"
  obtains p' where "yields parse_term p e p'" "reads r p'"
  using assms unfolding as_term_def by blast

lemma as_cmpE:
  assumes "as_cmp e" "closing 2 r" "reads (show_at 2 e @ r) p"
  obtains p' where "yields parse_cmp p e p'" "reads r p'"
  using assms unfolding as_cmp_def by blast

lemma as_andE:
  assumes "as_and e" "closing 2 r" "reads (show_at 1 e @ r) p"
  obtains p' where "reads r p'" "\<And>x q. yields (\<lambda>n. and_loop n e) p' x q \<Longrightarrow> yields parse_and p x q"
  using assms unfolding as_and_def by blast

lemma as_orE:
  assumes "as_or e" "closing 1 r" "reads (show_at 0 e @ r) p"
  obtains p' where "reads r p'" "\<And>x q. yields (\<lambda>n. or_loop n e) p' x q \<Longrightarrow> yields parse_or p x q"
  using assms unfolding as_or_def by blast

lemma as_wholeE:
  assumes "as_whole e" "closing 0 r" "reads (show_at 0 e @ r) p"
  obtains p' where "yields parse_or p e p'" "reads r p'"
  using assms unfolding as_whole_def by blast

lemma or_of_or:
  assumes "as_or a" "as_and b"
  shows "as_or (EOr a b)"
  unfolding as_or_def
proof (intro allI impI)
  fix r p assume r: "closing 1 r" "reads (show_at 0 (EOr a b) @ r) p"
  let ?r = "'' || '' @ show_at 1 b @ r"
  have q: "reads (show_at 0 a @ ?r) p" using r(2) by (simp add: parens_if_def)
  obtain p1 where p1: "reads ?r p1" "\<And>x q. yields (\<lambda>n. or_loop n a) p1 x q \<Longrightarrow> yields parse_or p x q"
    by (rule as_orE [OF assms(1) closing_or q]) blast
  then have "reads (''||'' @ CHR '' '' # show_at 1 b @ r) p1" by simp
  then obtain p2 where p2: "eat_either ''||'' ''or'' (skip_whitespace p1) = (True, p2)"
    "pr_rest p2 = CHR '' '' # show_at 1 b @ r"
    using either_hit [of "''||''" _ p1 "''or''"] by (auto simp: whitespace_iff)
  then have "reads (show_at 1 b @ r) p2" using reads_rest by fastforce
  then obtain p3 where p3: "reads r p3" "\<And>x q. yields (\<lambda>n. and_loop n b) p3 x q \<Longrightarrow> yields parse_and p2 x q"
    using as_andE [OF assms(2) closing_mono [OF r(1)]] by auto
  then have "yields parse_and p2 b (skip_whitespace p3)" using loop_ends(2) [OF r(1)] by simp
  then show "\<exists>p'. reads r p' \<and> (\<forall>x q. yields (\<lambda>n. or_loop n (EOr a b)) p' x q \<longrightarrow> yields parse_or p x q)"
    using p1(2) p2(1) p3(1) yields_or_loop by (intro exI [of _ "skip_whitespace p3"]) auto
qed

lemma and_of_and:
  assumes "as_and a" "as_cmp b"
  shows "as_and (EAnd a b)"
  unfolding as_and_def
proof (intro allI impI)
  fix r p assume r: "closing 2 r" "reads (show_at 1 (EAnd a b) @ r) p"
  let ?r = "'' && '' @ show_at 2 b @ r"
  have q: "reads (show_at 1 a @ ?r) p" using r(2) by (simp add: parens_if_def)
  obtain p1 where p1: "reads ?r p1" "\<And>x q. yields (\<lambda>n. and_loop n a) p1 x q \<Longrightarrow> yields parse_and p x q"
    by (rule as_andE [OF assms(1) closing_and q]) blast
  then have "reads (''&&'' @ CHR '' '' # show_at 2 b @ r) p1" by simp
  then obtain p2 where p2: "eat_either ''&&'' ''and'' (skip_whitespace p1) = (True, p2)"
    "pr_rest p2 = CHR '' '' # show_at 2 b @ r"
    using either_hit [of "''&&''" _ p1 "''and''"] by (auto simp: whitespace_iff)
  then have "reads (show_at 2 b @ r) p2" using reads_rest by fastforce
  then obtain p3 where p3: "yields parse_cmp p2 b p3" "reads r p3"
    using as_cmpE [OF assms(2) r(1)] by blast
  then show "\<exists>p'. reads r p' \<and> (\<forall>x q. yields (\<lambda>n. and_loop n (EAnd a b)) p' x q \<longrightarrow> yields parse_and p x q)"
    using p1(2) p2(1) yields_and_loop by blast
qed

lemma cmp_of_terms:
  assumes "as_term a" "as_term b"
  shows "as_cmp (EBinOp op a b)"
  unfolding as_cmp_def
proof (intro allI impI)
  fix r p assume r: "closing 2 r" "reads (show_at 2 (EBinOp op a b) @ r) p"
  let ?r = "CHR '' '' # binop_text op @ CHR '' '' # show_at 3 b @ r"
  have q: "reads (show_at 3 a @ ?r) p" using r(2) by (simp add: parens_if_def)
  obtain p1 where p1: "yields parse_term p a p1" "reads ?r p1"
    by (rule as_termE [OF assms(1) closing_op q])
  then obtain p2 where p2: "comparison (skip_whitespace p1) = (Some op, p2)" "pr_rest p2 = CHR '' '' # show_at 3 b @ r"
    using comparison_hit by blast
  then have "reads (show_at 3 b @ r) p2" using reads_rest by fastforce
  then obtain p3 where "yields parse_term p2 b p3" "reads r p3"
    using as_termE [OF assms(2) closing_mono [OF r(1)]] by auto
  then show "\<exists>p'. yields parse_cmp p (EBinOp op a b) p' \<and> reads r p'"
    using yields_cmp [OF p1(1) p2(1)] by blast
qed

lemma args_read:
  assumes "\<And>e. e \<in> set args \<Longrightarrow> as_whole e" "args \<noteq> []" "reads (join_args (List.map (show_at 0) args) @ CHR '')'' # r) p"
  shows "\<exists>p'. yields (\<lambda>n. args_loop n acc) p (acc @ args) p' \<and> reads (CHR '')'' # r) p'"
  using assms
proof (induction args arbitrary: acc p rule: induct_list012)
  case (2 e)
  then obtain p1 where p1: "yields parse_or p e p1" "reads (CHR '')'' # r) p1"
    using as_wholeE [OF 2(1) [of e] closing_end(2), of r p] by auto
  have "eat '','' (skip_whitespace p1) = (False, skip_whitespace p1)"
    using p1(2) eat_miss [of "CHR '')'' # r" "skip_whitespace p1" "'',''"] by (simp add: whitespace_iff)
  then show ?case using yields_args_last [OF p1(1)] p1(2) by (metis reads_skip)
next
  case (3 e e' es)
  let ?r = "join_args (List.map (show_at 0) (e' # es)) @ CHR '')'' # r"
  have "reads (show_at 0 e @ CHR '','' # CHR '' '' # ?r) p" using 3(5) by simp
  then obtain p1 where p1: "yields parse_or p e p1" "reads (CHR '','' # CHR '' '' # ?r) p1"
    using as_wholeE [OF 3(3) [of e] closing_end(3), of "CHR '' '' # ?r" p] by auto
  then have "reads ('','' @ CHR '' '' # ?r) (skip_whitespace p1)" by simp
  then obtain p2 where p2: "eat '','' (skip_whitespace p1) = (True, p2)" "pr_rest p2 = CHR '' '' # ?r"
    using eat_hit [of "'',''" _ "skip_whitespace p1"] by (auto simp: whitespace_iff)
  have "reads ?r p2" using reads_rest [OF p2(2)] by simp
  then obtain p3 where "yields (\<lambda>n. args_loop n (acc @ [e])) p2 ((acc @ [e]) @ e' # es) p3" "reads (CHR '')'' # r) p3"
    using 3(2) [of p2 "acc @ [e]"] 3(3) by auto
  then show ?case using yields_args_more [OF p1(1) p2(1)] by auto
qed simp

lemma term_not_paren:
  assumes "peek (skip_whitespace p) = Some (CHR '')'')"
  shows "parse_or n p \<noteq> Some (Inr x)"
proof -
  have "\<not> is_ascii_digit (CHR '')'')" "\<not> ident_start (CHR '')'')"
    by (simp_all add: ident_start_def is_ascii_alphabetic_def is_ascii_lowercase_def is_ascii_digit_def byte_def)
  then have t: "parse_term n p \<noteq> Some (Inr x)" for n x using assms by (cases n) (simp_all add: Let_def)
  have c: "parse_cmp n p \<noteq> Some (Inr x)" for n x using t by (cases n) (auto elim: and_then_OkE)
  have a: "parse_and n p \<noteq> Some (Inr x)" for n x using c by (cases n) (auto elim: and_then_OkE)
  show ?thesis using a by (cases n) (auto elim: and_then_OkE)
qed

lemma args_not_paren:
  assumes "yields (\<lambda>n. args_loop n acc) p args p'"
  shows "peek (skip_whitespace p) \<noteq> Some (CHR '')'')"
proof -
  obtain n where "args_loop n acc p = Some (Inr (args, p'))" using assms by (auto simp: yields_def)
  then obtain m x where "parse_or m p = Some (Inr x)" by (cases n) (auto elim: and_then_OkE)
  then show ?thesis using term_not_paren by blast
qed

lemma term_call:
  assumes "root_ok name" "\<And>e. e \<in> set args \<Longrightarrow> as_whole e"
  shows "as_term (ECall name args)"
  unfolding as_term_def
proof (intro allI impI)
  fix r p assume r: "closing 3 r" "reads (show_at 3 (ECall name args) @ r) p"
  let ?t = "join_args (List.map (show_at 0) args) @ CHR '')'' # r"
  have ws: "\<not> is_ascii_whitespace (CHR ''('')" "\<not> is_ascii_whitespace (CHR '')'')" by (simp_all add: whitespace_iff)
  have "after_ident (CHR ''('' # ?t)"
    by (simp add: after_ident_def ident_char_def is_ascii_alphabetic_def is_ascii_lowercase_def is_ascii_digit_def byte_def)
  moreover have "reads (name @ CHR ''('' # ?t) p" using r(2) by simp
  ultimately obtain c p1 where p1: "peek (skip_whitespace p) = Some c" "ident_start c"
    "parse_ident (skip_whitespace p) = Inr (name, p1)" "pr_rest p1 = CHR ''('' # ?t"
    by (rule root_reads [OF assms(1)])
  have q1: "pr_rest (skip_whitespace p1) = CHR ''('' # ?t" using p1(4) ws by (simp add: skip_rest)
  then have peek: "peek (skip_whitespace p1) = Some (CHR ''('')" by (simp add: peek_def peek_at_def)
  let ?p3 = "skip_whitespace (move 1 (skip_whitespace p1))"
  have p3: "reads ?t ?p3" using q1 by (simp add: reads_rest)
  have "\<exists>p5. yields parse_ident_expr (skip_whitespace p) (ECall name args) p5 \<and> pr_rest p5 = r"
  proof (cases "args = []")
    case True
    then have "pr_rest ?p3 = CHR '')'' # r" using p3 ws by (simp add: reads_def)
    then have e: "peek ?p3 = Some (CHR '')'')" "expect '')'' ?p3 = Inr ((), move 1 ?p3)" "pr_rest (move 1 ?p3) = r"
      by (simp_all add: peek_def peek_at_def expect_def eat_def Let_def)
    have "yields parse_ident_expr (skip_whitespace p) (ECall name args) (move 1 ?p3)"
      using e peek p1(3) assms(1) True by (intro yields_Suc exI [of _ 0]) (simp add: Let_def root_ok_def)
    then show ?thesis using e(3) by blast
  next
    case False
    obtain p4 where p4: "yields (\<lambda>n. args_loop n []) ?p3 args p4" "reads (CHR '')'' # r) p4"
      using args_read [OF assms(2) False p3, of "[]"] by auto
    then have "reads ('')'' @ r) p4" by simp
    then obtain p5 where p5: "expect '')'' p4 = Inr ((), p5)" "pr_rest p5 = r"
      using expect_hit [of "'')''" r p4] ws by auto
    have "peek ?p3 \<noteq> Some (CHR '')'')" using args_not_paren [OF p4(1)] by simp
    then show ?thesis using yields_call [OF p4(1) _ p5(1) p1(3) assms(1) peek refl] p5(2) by blast
  qed
  then show "\<exists>p'. yields parse_term p (ECall name args) p' \<and> reads r p'"
    using yields_ident p1(1,2) reads_rest by blast
qed

lemma printable_levels:
  assumes "printable e"
  shows "as_term e \<and> as_cmp e \<and> as_and e \<and> as_or e \<and> as_whole e"
  using assms
proof (induction e)
  case (ELiteral v)
  then have "as_term (ELiteral v)"
    unfolding as_term_def
  proof (intro allI impI)
    fix r p assume r: "closing 3 r" "reads (show_at 3 (ELiteral v) @ r) p"
    consider i where "v = VInt i" "is_i64 i" | s where "v = VStr s" "ascii s" | b where "v = VBool b"
      using ELiteral by (cases v) auto
    then show "\<exists>p'. yields parse_term p (ELiteral v) p' \<and> reads r p'"
    proof cases
      case 1
      then show ?thesis using r term_int [OF 1(2) r(1)] reads_rest by (metis show_at.simps(1) show_literal.simps(1))
    next
      case 2
      then show ?thesis using r term_str [OF 2(2)] reads_rest by (metis show_at.simps(1) show_literal.simps(2))
    next
      case 3
      have q: "reads ((if b then ''true'' else ''false'') @ r) p" using r(2) unfolding 3 show_at.simps show_literal.simps .
      obtain p1 where "yields parse_term p (ELiteral (VBool b)) p1" "pr_rest p1 = r"
        by (rule term_bool [OF r(1) q])
      then show ?thesis unfolding 3 using reads_rest by blast
    qed
  qed
  then show ?case using cmp_of_term and_of_cmp or_of_and whole_of_or by fastforce
next
  case (EPath name segs)
  have "as_term (EPath name segs)"
    unfolding as_term_def
  proof (intro allI impI)
    fix r p assume r: "closing 3 r" "reads (show_at 3 (EPath name segs) @ r) p"
    then have q: "reads (name @ concat (List.map show_segment segs) @ r) p" by simp
    have "root_ok name" "list_all segment_ok segs" using EPath by simp_all
    then show "\<exists>p'. yields parse_term p (EPath name segs) p' \<and> reads r p'"
      using term_path [OF _ _ r(1) q] by blast
  qed
  then show ?case using cmp_of_term and_of_cmp or_of_and whole_of_or by fastforce
next
  case (ECall name args)
  then have "as_term (ECall name args)" by (intro term_call) (auto simp: list_all_iff)
  then show ?case using cmp_of_term and_of_cmp or_of_and whole_of_or by fastforce
next
  case (EBinOp op a b)
  then have "as_cmp (EBinOp op a b)" using cmp_of_terms by auto
  then have "as_cmp (EBinOp op a b)" "as_whole (EBinOp op a b)" "as_and (EBinOp op a b)" "as_or (EBinOp op a b)"
    using and_of_cmp or_of_and whole_of_or by (simp_all add: parens_if_def)
  then show ?case using term_of_whole by (simp add: parens_if_def)
next
  case (EAnd a b)
  then have "as_and (EAnd a b)" using and_of_and by auto
  then have w: "as_whole (EAnd a b)" "as_and (EAnd a b)" "as_or (EAnd a b)"
    using or_of_and whole_of_or by (simp_all add: parens_if_def)
  then have "as_term (EAnd a b)" using term_of_whole by (simp add: parens_if_def)
  then show ?case using w cmp_of_term by (simp add: parens_if_def)
next
  case (EOr a b)
  then have "as_or (EOr a b)" using or_of_or by auto
  then have w: "as_whole (EOr a b)" "as_or (EOr a b)"
    using whole_of_or by (simp_all add: parens_if_def)
  then have "as_term (EOr a b)" using term_of_whole by (simp add: parens_if_def)
  then show ?case using w cmp_of_term and_of_cmp by (simp add: parens_if_def)
qed


text \<open>C31: The parser of scenario expressions inverts the printer: every expression made of 64-bit
integers, ASCII strings, booleans, paths, calls and operators is read back exactly from the text that
uses the fewest parentheses, so that or binds weaker than and, both associate to the left,
comparisons bind tightest and do not chain, and string escapes and indices survive.\<close>

theorem parse_inverts_show:
  assumes "printable e"
  shows "parse (show_expr e) = Some (Ok e)"
proof -
  let ?s = "show_expr e"
  have "as_whole e" using printable_levels [OF assms] by simp
  then obtain p where p: "yields parse_or (parser_new ?s) e p" "reads [] p"
    by (rule as_wholeE [of e "[]" "parser_new ?s"]) (simp_all add: show_expr_def reads_rest parser_new_def)
  then obtain n where n: "parse_or n (parser_new ?s) = Some (Inr (e, p))" by (auto simp: yields_def)
  obtain r where r: "parse_or (parse_fuel ?s) (parser_new ?s) = Some r"
    using rules_return(1) [of "parse_fuel ?s"] by (fastforce simp: fits_def parse_fuel_def parser_new_def)
  have "parse_or (n + parse_fuel ?s) (parser_new ?s) = Some (Inr (e, p))"
    "parse_or (n + parse_fuel ?s) (parser_new ?s) = Some r"
    by (rule keepsD [OF rules_keep(1) n], simp, rule keepsD [OF rules_keep(1) r], simp)
  then have "r = Inr (e, p)" by simp
  then show ?thesis using r p(2) by (simp add: parse_def Let_def reads_def)
qed

definition expr_example :: Expr where
  "expr_example = EAnd (EOr (EBinOp OpLe (ECall ''sum'' [EPath ''orders'' [SIndex IxWildcard, SField ''filled_qty'']])
       (ELiteral (VInt (- 5)))) (EPath ''no_orphan_bracket_children'' []))
     (EBinOp OpEq (EPath ''orders'' [SIndex (IxIdent ''smoke-1''), SField ''status''])
       (ELiteral (VStr [CHR 0x22, CHR ''a'', CHR 0x5C])))"

theorem parse_inverts_show_witness:
  "parse (show_expr expr_example) = Some (Ok expr_example)
   \<and> show_expr expr_example = ''(sum(orders[*].filled_qty) <= -5 || no_orphan_bracket_children)''
       @ '' && orders[smoke-1].status == '' @ [CHR 0x22, CHR 0x5C, CHR 0x22, CHR ''a'', CHR 0x5C, CHR 0x5C, CHR 0x22]"
proof -
  have "printable expr_example" by code_simp
  moreover have "show_expr expr_example = ''(sum(orders[*].filled_qty) <= -5 || no_orphan_bracket_children)''
       @ '' && orders[smoke-1].status == '' @ [CHR 0x22, CHR 0x5C, CHR 0x22, CHR ''a'', CHR 0x5C, CHR 0x5C, CHR 0x22]"
    by code_simp
  ultimately show ?thesis using parse_inverts_show by blast
qed

end
