(* ===== verification/Expr_Eval.thy ===== *)
theory Expr_Eval imports Expr_Syntax begin

text \<open>
  The interpreter of scenario expressions, \<open>scenario/expr/interpreter.rs\<close>: path resolution against
  the view of the engine, the closed list of functions, comparisons with their coercions, and the
  duration literals. The error \<open>Panicked\<close> is not a value of the source: it stands for the panic of
  \<open>Duration::from_secs_f64\<close> on a negative, non-finite or too large number of seconds. The whole
  seconds of a clock time wrap around at 64 bits, as they do in a release build.
\<close>

section \<open>Errors\<close>

datatype EvalError =
    UnknownIdent string
  | UnknownFunction string
  | ArgCount string string nat
  | TypeMismatch string string
  | PathResolve string string
  | IncomparableCompare string string
  | DurationError string
  | Panicked

type_synonym 'a evaluated = "('a, EvalError) rust_result"

fun collect :: "('a \<Rightarrow> ('b, 'e) rust_result) \<Rightarrow> 'a list \<Rightarrow> ('b list, 'e) rust_result" where
  "collect f [] = Ok []"
| "collect f (x # xs) =
    (case f x of Inl e \<Rightarrow> Err e
     | Inr y \<Rightarrow> (case collect f xs of Inl e \<Rightarrow> Err e | Inr ys \<Rightarrow> Ok (y # ys)))"

lemma collect_cong [fundef_cong]:
  "xs = ys \<Longrightarrow> (\<And>x. x \<in> set ys \<Longrightarrow> f x = g x) \<Longrightarrow> collect f xs = collect g ys"
  by (induction xs arbitrary: ys) (auto cong: sum.case_cong)

section \<open>Durations\<close>

text \<open>\<open>char::is_alphabetic\<close> and \<open>str::trim\<close> on ASCII; a byte of a longer character counts as a letter.\<close>

definition is_alphabetic :: "char \<Rightarrow> bool" where
  "is_alphabetic c \<longleftrightarrow> 128 \<le> byte c \<or> (65 \<le> byte c \<and> byte c \<le> 90) \<or> (97 \<le> byte c \<and> byte c \<le> 122)"

definition is_whitespace :: "char \<Rightarrow> bool" where
  "is_whitespace c \<longleftrightarrow> (9 \<le> byte c \<and> byte c \<le> 13) \<or> byte c = 32"

definition trim :: "string \<Rightarrow> string" where
  "trim s = rev (dropWhile is_whitespace (rev (dropWhile is_whitespace s)))"

fun split_on :: "char \<Rightarrow> string \<Rightarrow> string list" where
  "split_on c [] = [[]]"
| "split_on c (x # xs) =
    (if x = c then [] # split_on c xs
     else (case split_on c xs of [] \<Rightarrow> [[x]] | w # ws \<Rightarrow> (x # w) # ws))"

definition parse_u64 :: "string \<Rightarrow> (int, IntErrorKind) rust_result" where
  "parse_u64 = parse_int 0 (2 ^ 64 - 1)"

definition unknown_unit :: "string \<Rightarrow> string" where
  "unknown_unit s = ''unknown unit `'' @ s @ ''`''"

definition seconds_or_panic :: "f64 \<Rightarrow> Duration evaluated" where
  "seconds_or_panic x = (case from_secs_f64 x of Some d \<Rightarrow> Ok d | None \<Rightarrow> Err Panicked)"

definition clock_duration :: "int \<Rightarrow> int \<Rightarrow> int \<Rightarrow> Duration" where
  "clock_duration h m sec = from_secs (nat ((h * 3600 + m * 60 + sec) mod 2 ^ 64))"

definition parse_duration :: "string \<Rightarrow> Duration evaluated" where
  "parse_duration s =
    (let t = trim s
     in if t = [] then Err (DurationError s)
        else case split_on (CHR '':'') t of
          [h, m, sec] \<Rightarrow>
            (case parse_u64 h of Inl _ \<Rightarrow> Err (DurationError s) | Inr h \<Rightarrow>
             case parse_u64 m of Inl _ \<Rightarrow> Err (DurationError s) | Inr m \<Rightarrow>
             case parse_u64 sec of Inl _ \<Rightarrow> Err (DurationError s) | Inr sec \<Rightarrow> Ok (clock_duration h m sec))
        | _ \<Rightarrow>
            let num = takeWhile (\<lambda>c. \<not> is_alphabetic c) t; unit = dropWhile (\<lambda>c. \<not> is_alphabetic c) t
            in if num = [] then Err (DurationError s)
               else (case parse_f64 num of
                 None \<Rightarrow> Err (DurationError s)
               | Some n \<Rightarrow>
                   if unit \<in> {'''', ''s'', ''sec'', ''secs''} then seconds_or_panic n
                   else if unit = ''ms'' then Ok (from_millis (nat (f64_as_int 0 (2 ^ 64 - 1) n)))
                   else if unit \<in> {''min'', ''m''} then seconds_or_panic (f64_mul n (f64_of_int 60))
                   else if unit \<in> {''h'', ''hr'', ''hour'', ''hours''} then seconds_or_panic (f64_mul n (f64_of_int 3600))
                   else Err (DurationError (unknown_unit unit))))"

section \<open>Names\<close>

definition status_from_ident :: "string \<Rightarrow> OrderStatusName option" where
  "status_from_ident name =
    List.find (\<lambda>s. status_as_str s = name)
      [ApiPending, PendingSubmit, PreSubmitted, Submitted, Filled, PartiallyFilled, Cancelled, ApiCancelled, Inactive]"

definition builtin_value :: "string \<Rightarrow> ScenarioQuery \<Rightarrow> Value option" where
  "builtin_value name q =
    (if name = ''all_orders_have_terminal_status'' then
       Some (VBool (list_all (\<lambda>ord. name_is_terminal (os_status ord)) (sq_orders q)))
     else if name = ''no_orphan_bracket_children'' then
       Some (VBool (\<not> list_ex (\<lambda>ord. case os_parent_ref ord of
           Some pref \<Rightarrow> \<not> list_ex (\<lambda>p. os_order_ref p = pref) (sq_orders q) | None \<Rightarrow> False) (sq_orders q)))
     else if name = ''session_duration'' then Some (VNum (as_secs_f64 (sq_session_duration q)))
     else None)"

section \<open>Paths\<close>

definition opt_num :: "f64 option \<Rightarrow> Value" where
  "opt_num x = (case x of Some n \<Rightarrow> VNum n | None \<Rightarrow> VNull)"

definition order_value :: "OrderSnapshot \<Rightarrow> string \<Rightarrow> Value option" where
  "order_value snap name =
    (if name = ''order_ref'' then Some (VStr (os_order_ref snap))
     else if name = ''symbol'' then Some (VStr (os_symbol snap))
     else if name = ''side'' then Some (VStr (os_side snap))
     else if name = ''quantity'' \<or> name = ''qty'' then Some (VNum (os_quantity snap))
     else if name = ''filled_qty'' \<or> name = ''filled'' then Some (VNum (os_filled_qty snap))
     else if name = ''remaining_qty'' \<or> name = ''remaining'' then Some (VNum (os_remaining_qty snap))
     else if name = ''status'' then Some (VStr (status_as_str (os_status snap)))
     else if name = ''limit_price'' then Some (opt_num (os_limit_price snap))
     else if name = ''stop_price'' then Some (opt_num (os_stop_price snap))
     else if name = ''avg_fill_price'' then Some (opt_num (os_avg_fill_price snap))
     else if name = ''parent_ref'' then
       Some (case os_parent_ref snap of Some s \<Rightarrow> VStr s | None \<Rightarrow> VNull)
     else None)"

definition order_field :: "OrderSnapshot \<Rightarrow> Segment list \<Rightarrow> Value evaluated" where
  "order_field snap segments =
    (case segments of
       [] \<Rightarrow> Ok (VStr (os_order_ref snap))
     | SIndex _ # _ \<Rightarrow> Err (PathResolve ''<order>'' ''expected `.field` after an order index'')
     | SField name # rest \<Rightarrow>
         if rest \<noteq> [] then Err (PathResolve name (''order fields are scalars '' @
           [CHR 0xE2, CHR 0x80, CHR 0x94] @ '' no nested access''))
         else (case order_value snap name of
           Some v \<Rightarrow> Ok v | None \<Rightarrow> Err (PathResolve name ''unknown order field'')))"

definition i64_as_u64 :: "int \<Rightarrow> nat" where
  "i64_as_u64 i = nat (i mod 2 ^ 64)"

definition in_brackets :: "string \<Rightarrow> string \<Rightarrow> string" where
  "in_brackets name key = name @ ''['' @ key @ '']''"

definition resolve_orders :: "Segment list \<Rightarrow> ScenarioQuery \<Rightarrow> Value evaluated" where
  "resolve_orders segments q =
    (case segments of
       [] \<Rightarrow> Ok (VList (List.map (\<lambda>ord. VStr (os_order_ref ord)) (sq_orders q)))
     | SField _ # _ \<Rightarrow> Err (PathResolve ''orders'' ''expected `[...]` after `orders`'')
     | SIndex idx # rest \<Rightarrow>
         (case idx of
            IxInt i \<Rightarrow>
              (case order_by_index q (i64_as_u64 i) of
                 Some snap \<Rightarrow> order_field snap rest
               | None \<Rightarrow> Err (PathResolve (in_brackets ''orders'' (show_int i)) ''index out of range''))
          | IxStr s \<Rightarrow>
              (case order_by_ref q s of
                 Some snap \<Rightarrow> order_field snap rest
               | None \<Rightarrow> Err (PathResolve (in_brackets ''orders'' s) ''no order with that order_ref''))
          | IxIdent s \<Rightarrow>
              (case order_by_ref q s of
                 Some snap \<Rightarrow> order_field snap rest
               | None \<Rightarrow> Err (PathResolve (in_brackets ''orders'' s) ''no order with that order_ref''))
          | IxWildcard \<Rightarrow>
              (case collect (\<lambda>snap. order_field snap rest) (sq_orders q) of
                 Inl e \<Rightarrow> Err e | Inr items \<Rightarrow> Ok (VList items))))"

text \<open>The order snapshot that the source passes along is not used, so it is not modelled.\<close>

definition position_field :: "PositionSnapshot \<Rightarrow> Segment list \<Rightarrow> Value evaluated" where
  "position_field pos segments =
    (case segments of
       [] \<Rightarrow> Ok (VNum (ps_quantity pos))
     | SIndex _ # _ \<Rightarrow> Err (PathResolve ''<position>'' ''expected `.field`'')
     | SField name # _ \<Rightarrow>
         if name = ''symbol'' then Ok (VStr (ps_symbol pos))
         else if name = ''quantity'' \<or> name = ''qty'' then Ok (VNum (ps_quantity pos))
         else if name = ''avg_cost'' then Ok (VNum (ps_avg_cost pos))
         else if name = ''realized_pnl'' then Ok (VNum (ps_realized_pnl pos))
         else if name = ''unrealized_pnl'' then Ok (VNum (ps_unrealized_pnl pos))
         else Err (PathResolve name ''unknown position field''))"

definition position_at :: "string \<Rightarrow> Segment list \<Rightarrow> ScenarioQuery \<Rightarrow> Value evaluated" where
  "position_at key rest q =
    (case sq_position_for q key of
       Some snap \<Rightarrow> position_field snap rest
     | None \<Rightarrow> Err (PathResolve (in_brackets ''positions'' key) ''no position for that symbol''))"

definition resolve_positions :: "Segment list \<Rightarrow> ScenarioQuery \<Rightarrow> Value evaluated" where
  "resolve_positions segments q =
    (case segments of
       [] \<Rightarrow> Ok (VList (List.map (\<lambda>p. VStr (ps_symbol p)) (sq_positions q)))
     | SField _ # _ \<Rightarrow> Err (PathResolve ''positions'' ''expected `[SYMBOL]` after `positions`'')
     | SIndex idx # rest \<Rightarrow>
         (case idx of
            IxIdent s \<Rightarrow> position_at s rest q
          | IxStr s \<Rightarrow> position_at s rest q
          | IxInt i \<Rightarrow> position_at (show_int i) rest q
          | IxWildcard \<Rightarrow>
              (case collect (\<lambda>p. position_field p rest) (sq_positions q) of
                 Inl e \<Rightarrow> Err e | Inr items \<Rightarrow> Ok (VList items))))"

definition session_field :: "SessionMetrics \<Rightarrow> Segment list \<Rightarrow> Value evaluated" where
  "session_field metrics rest =
    (case rest of
       [] \<Rightarrow> Ok (VBool (sm_connected metrics))
     | SIndex _ # _ \<Rightarrow> Err (PathResolve ''<session>'' ''expected `.field`'')
     | SField name # _ \<Rightarrow>
         if name = ''msg_count'' then Ok (VNum (f64_of_int (int (sm_msg_count metrics))))
         else if name = ''msg_count_last_5s'' \<or> name = ''msg_count_since'' then
           Ok (VNum (f64_of_int (int (sm_msg_count_last_5s metrics))))
         else if name = ''tick_count'' then Ok (VNum (f64_of_int (int (sm_tick_count metrics))))
         else if name = ''connected'' then Ok (VBool (sm_connected metrics))
         else Err (PathResolve name ''unknown session field''))"

definition session_id :: "Index \<Rightarrow> nat evaluated" where
  "session_id idx =
    (let by_name = (\<lambda>s. case parse_u64 s of
           Inr n \<Rightarrow> Ok (nat n) | Inl _ \<Rightarrow> Err (PathResolve (in_brackets ''session'' s) ''session id must be integer''))
     in case idx of
          IxInt i \<Rightarrow> Ok (i64_as_u64 i)
        | IxStr s \<Rightarrow> by_name s
        | IxIdent s \<Rightarrow> by_name s
        | IxWildcard \<Rightarrow> Err (PathResolve ''session[*]'' ''wildcard not supported on sessions''))"

definition resolve_session :: "Segment list \<Rightarrow> ScenarioQuery \<Rightarrow> Value evaluated" where
  "resolve_session segments q =
    (case segments of
       SIndex idx # rest \<Rightarrow>
         (case session_id idx of
            Inl e \<Rightarrow> Err e
          | Inr sid \<Rightarrow>
              (case sq_session_metrics q sid of
                 Some metrics \<Rightarrow> session_field metrics rest
               | None \<Rightarrow> Err (PathResolve (in_brackets ''session'' (show_nat sid)) ''no such session'')))
     | _ \<Rightarrow> Err (PathResolve ''session'' ''expected `[id]` after `session`''))"

definition resolve_path :: "string \<Rightarrow> Segment list \<Rightarrow> ScenarioQuery \<Rightarrow> Value evaluated" where
  "resolve_path name segments q =
    (if segments = [] then
       (case status_from_ident name of
          Some status \<Rightarrow> Ok (VStr (status_as_str status))
        | None \<Rightarrow>
            (case builtin_value name q of
               Some v \<Rightarrow> Ok v
             | None \<Rightarrow>
                 (case parse_duration name of
                    Inr d \<Rightarrow> Ok (VNum (as_secs_f64 d))
                  | Inl Panicked \<Rightarrow> Err Panicked
                  | Inl _ \<Rightarrow> Err (UnknownIdent name))))
     else if name = ''orders'' then resolve_orders segments q
     else if name = ''positions'' then resolve_positions segments q
     else if name = ''session'' then resolve_session segments q
     else Err (UnknownIdent name))"

section \<open>Functions\<close>

definition flatten :: "Value list \<Rightarrow> Value list" where
  "flatten values = (case values of [VList items] \<Rightarrow> items | _ \<Rightarrow> values)"

text \<open>The text of the source's \<open>>=1\<close>, one character wide there.\<close>

definition at_least_one :: string where
  "at_least_one = [CHR 0xE2, CHR 0x89, CHR 0xA5, CHR ''1'']"

fun sum_loop :: "f64 \<Rightarrow> Value list \<Rightarrow> Value evaluated" where
  "sum_loop acc [] = Ok (VNum acc)"
| "sum_loop acc (v # vs) =
    (case v of
       VNull \<Rightarrow> sum_loop acc vs
     | VNum n \<Rightarrow> sum_loop (f64_add acc n) vs
     | VInt i \<Rightarrow> sum_loop (f64_add acc (f64_of_int i)) vs
     | VBool b \<Rightarrow> sum_loop (f64_add acc (if b then f64_one else f64_zero)) vs
     | _ \<Rightarrow> Err (TypeMismatch ''number'' (type_name v)))"

definition fn_sum :: "Value list \<Rightarrow> string \<Rightarrow> Value evaluated" where
  "fn_sum values name =
    (if values = [] then Err (ArgCount name at_least_one 0) else sum_loop f64_zero (flatten values))"

definition fn_count :: "Value list \<Rightarrow> string \<Rightarrow> Value evaluated" where
  "fn_count values name =
    (if values = [] then Err (ArgCount name ''1'' 0) else Ok (VInt (int (length (flatten values)))))"

fun extreme_loop :: "bool \<Rightarrow> f64 option \<Rightarrow> Value list \<Rightarrow> Value evaluated" where
  "extreme_loop want_max best [] = Ok (VNum (case best of Some b \<Rightarrow> b | None \<Rightarrow> f64_zero))"
| "extreme_loop want_max best (v # vs) =
    (if v = VNull then extreme_loop want_max best vs
     else case as_f64 v of
       None \<Rightarrow> Err (TypeMismatch ''number'' (type_name v))
     | Some n \<Rightarrow>
         extreme_loop want_max
           (Some (case best of Some b \<Rightarrow> if want_max then f64_max b n else f64_min b n | None \<Rightarrow> n)) vs)"

definition fn_extreme :: "Value list \<Rightarrow> string \<Rightarrow> bool \<Rightarrow> Value evaluated" where
  "fn_extreme values name want_max =
    (if values = [] then Err (ArgCount name at_least_one 0) else extreme_loop want_max None (flatten values))"

definition fn_last_5s :: "Value list \<Rightarrow> string \<Rightarrow> Value evaluated" where
  "fn_last_5s values name =
    (if values \<noteq> [] then Err (ArgCount name ''0'' (length values)) else Ok (VNum (f64_of_int 5)))"

definition apply_function :: "string \<Rightarrow> Value list \<Rightarrow> Value evaluated" where
  "apply_function name values =
    (if name = ''sum'' then fn_sum values name
     else if name = ''count'' then fn_count values name
     else if name = ''max'' then fn_extreme values name True
     else if name = ''min'' then fn_extreme values name False
     else if name = ''last_5s'' then fn_last_5s values name
     else Err (UnknownFunction name))"

section \<open>Operators\<close>

definition coerce_bool :: "Value \<Rightarrow> bool evaluated" where
  "coerce_bool v = (case as_bool v of Some b \<Rightarrow> Ok b | None \<Rightarrow> Err (TypeMismatch ''bool'' (type_name v)))"

definition apply_binop :: "BinOp \<Rightarrow> Value \<Rightarrow> Value \<Rightarrow> Value evaluated" where
  "apply_binop op l r =
    (case op of
       OpEq \<Rightarrow> Ok (VBool (value_eq l r))
     | OpNeq \<Rightarrow> Ok (VBool (\<not> value_eq l r))
     | _ \<Rightarrow>
         (case cmp_total l r of
            None \<Rightarrow> Err (IncomparableCompare (type_name l) (type_name r))
          | Some ord \<Rightarrow> Ok (VBool (case op of
                OpLt \<Rightarrow> ord = OrdLess
              | OpLe \<Rightarrow> ord \<noteq> OrdGreater
              | OpGt \<Rightarrow> ord = OrdGreater
              | _ \<Rightarrow> ord \<noteq> OrdLess))))"

fun eval :: "ScenarioQuery \<Rightarrow> Expr \<Rightarrow> Value evaluated" where
  "eval q (ELiteral v) = Ok v"
| "eval q (EPath name segments) = resolve_path name segments q"
| "eval q (ECall name args) =
    (case collect (eval q) args of Inl e \<Rightarrow> Err e | Inr values \<Rightarrow> apply_function name values)"
| "eval q (EBinOp op lhs rhs) =
    (case eval q lhs of Inl e \<Rightarrow> Err e | Inr l \<Rightarrow>
     case eval q rhs of Inl e \<Rightarrow> Err e | Inr r \<Rightarrow> apply_binop op l r)"
| "eval q (EAnd lhs rhs) =
    (case eval q lhs of Inl e \<Rightarrow> Err e | Inr a \<Rightarrow>
     case coerce_bool a of Inl e \<Rightarrow> Err e | Inr ab \<Rightarrow>
     if \<not> ab then Ok (VBool False)
     else case eval q rhs of Inl e \<Rightarrow> Err e | Inr b \<Rightarrow>
          case coerce_bool b of Inl e \<Rightarrow> Err e | Inr bb \<Rightarrow> Ok (VBool bb))"
| "eval q (EOr lhs rhs) =
    (case eval q lhs of Inl e \<Rightarrow> Err e | Inr a \<Rightarrow>
     case coerce_bool a of Inl e \<Rightarrow> Err e | Inr ab \<Rightarrow>
     if ab then Ok (VBool True)
     else case eval q rhs of Inl e \<Rightarrow> Err e | Inr b \<Rightarrow>
          case coerce_bool b of Inl e \<Rightarrow> Err e | Inr bb \<Rightarrow> Ok (VBool bb))"

end
