(* ===== verification/Expr_Types.thy ===== *)
theory Expr_Types imports Expr_Eval F64_Facts begin

text \<open>
  A type system for scenario expressions and its soundness for the interpreter: what an author can
  check about an assertion before the scenario runs. Types are read off the names of fields, built-in
  values and functions; nothing in the source computes them.
\<close>

section \<open>Types\<close>

datatype ty = TNum | TStr | TBool | TOpt ty | TList ty

fun has_ty :: "Value \<Rightarrow> ty \<Rightarrow> bool" where
  "has_ty (VNum _) TNum = True"
| "has_ty (VInt _) TNum = True"
| "has_ty (VStr _) TStr = True"
| "has_ty (VBool _) TBool = True"
| "has_ty v (TOpt t) = (v = VNull \<or> has_ty v t)"
| "has_ty (VList vs) (TList t) = list_all (\<lambda>v. has_ty v t) vs"
| "has_ty _ _ = False"

text \<open>Numbers to a comparison; numbers, or nothing at all, to an aggregate.\<close>

definition numeric :: "ty \<Rightarrow> bool" where
  "numeric t \<longleftrightarrow> t = TNum \<or> t = TBool"

definition aggregable :: "ty \<Rightarrow> bool" where
  "aggregable t \<longleftrightarrow> numeric t \<or> t = TOpt TNum"

definition order_field_ty :: "string \<Rightarrow> ty option" where
  "order_field_ty name =
    (if name \<in> {''order_ref'', ''symbol'', ''side'', ''status''} then Some TStr
     else if name \<in> {''quantity'', ''qty'', ''filled_qty'', ''filled'', ''remaining_qty'', ''remaining''} then Some TNum
     else if name \<in> {''limit_price'', ''stop_price'', ''avg_fill_price''} then Some (TOpt TNum)
     else if name = ''parent_ref'' then Some (TOpt TStr) else None)"

definition position_field_ty :: "string \<Rightarrow> ty option" where
  "position_field_ty name =
    (if name = ''symbol'' then Some TStr
     else if name \<in> {''quantity'', ''qty'', ''avg_cost'', ''realized_pnl'', ''unrealized_pnl''} then Some TNum else None)"

definition session_field_ty :: "string \<Rightarrow> ty option" where
  "session_field_ty name =
    (if name = ''connected'' then Some TBool
     else if name \<in> {''msg_count'', ''msg_count_last_5s'', ''msg_count_since'', ''tick_count''} then Some TNum else None)"

fun tail_ty :: "ty \<Rightarrow> (string \<Rightarrow> ty option) \<Rightarrow> Segment list \<Rightarrow> ty option" where
  "tail_ty t f [] = Some t"
| "tail_ty t f [SField name] = f name"
| "tail_ty t f _ = None"

fun name_ty :: "string \<Rightarrow> ty option" where
  "name_ty name =
    (if status_from_ident name \<noteq> None then Some TStr
     else if name \<in> {''all_orders_have_terminal_status'', ''no_orphan_bracket_children''} then Some TBool
     else if name = ''session_duration'' then Some TNum else None)"

declare name_ty.simps [simp del]

fun path_ty :: "string \<Rightarrow> Segment list \<Rightarrow> ty option" where
  "path_ty name [] = name_ty name"
| "path_ty name (SField _ # _) = None"
| "path_ty name (SIndex ix # rest) =
    (if name = ''orders'' then
       (case tail_ty TStr order_field_ty rest of None \<Rightarrow> None
        | Some t \<Rightarrow> Some (if ix = IxWildcard then TList t else t))
     else if name = ''positions'' then
       (case tail_ty TNum position_field_ty rest of None \<Rightarrow> None
        | Some t \<Rightarrow> Some (if ix = IxWildcard then TList t else t))
     else if name = ''session'' then
       (case session_id ix of Inl _ \<Rightarrow> None | Inr _ \<Rightarrow> tail_ty TBool session_field_ty rest)
     else None)"

definition args_aggregable :: "ty list \<Rightarrow> bool" where
  "args_aggregable ts = (case ts of [] \<Rightarrow> False | [TList t] \<Rightarrow> aggregable t | _ \<Rightarrow> list_all aggregable ts)"

definition call_ty :: "string \<Rightarrow> ty list \<Rightarrow> ty option" where
  "call_ty name ts =
    (if name \<in> {''sum'', ''max'', ''min''} then (if args_aggregable ts then Some TNum else None)
     else if name = ''count'' then (if ts \<noteq> [] then Some TNum else None)
     else if name = ''last_5s'' then (if ts = [] then Some TNum else None)
     else None)"

fun literal_ty :: "Value \<Rightarrow> ty option" where
  "literal_ty (VNum _) = Some TNum"
| "literal_ty (VInt _) = Some TNum"
| "literal_ty (VStr _) = Some TStr"
| "literal_ty (VBool _) = Some TBool"
| "literal_ty _ = None"

fun collect_opt :: "('a \<Rightarrow> 'b option) \<Rightarrow> 'a list \<Rightarrow> 'b list option" where
  "collect_opt f [] = Some []"
| "collect_opt f (x # xs) =
    (case f x of None \<Rightarrow> None | Some y \<Rightarrow> map_option (\<lambda>ys. y # ys) (collect_opt f xs))"

lemma collect_opt_cong [fundef_cong]:
  "xs = ys \<Longrightarrow> (\<And>x. x \<in> set ys \<Longrightarrow> f x = g x) \<Longrightarrow> collect_opt f xs = collect_opt g ys"
  by (induction xs arbitrary: ys) (auto cong: option.case_cong)

fun type_of :: "Expr \<Rightarrow> ty option" where
  "type_of (ELiteral v) = literal_ty v"
| "type_of (EPath name segments) = path_ty name segments"
| "type_of (ECall name args) = (case collect_opt type_of args of None \<Rightarrow> None | Some ts \<Rightarrow> call_ty name ts)"
| "type_of (EBinOp op a b) =
    (case (type_of a, type_of b) of
       (Some s, Some t) \<Rightarrow>
         if op = OpEq \<or> op = OpNeq \<or> (numeric s \<and> numeric t) \<or> (s = TStr \<and> t = TStr) then Some TBool else None
     | _ \<Rightarrow> None)"
| "type_of (EAnd a b) = (if type_of a = Some TBool \<and> type_of b = Some TBool then Some TBool else None)"
| "type_of (EOr a b) = (if type_of a = Some TBool \<and> type_of b = Some TBool then Some TBool else None)"

section \<open>Soundness\<close>

text \<open>
  What evaluation may answer at a type: a value of it, or one of the errors that a typed expression
  cannot exclude. These are two. The first is that an order, a position or a session which the
  expression names is not there now: \<open>absent\<close> gives the exact error for the name and index of a
  path. The second is an ordering comparison one side of which is a NaN.
\<close>

fun subexprs :: "Expr \<Rightarrow> Expr list" where
  "subexprs (ECall name args) = ECall name args # concat (map subexprs args)"
| "subexprs (EBinOp op a b) = EBinOp op a b # subexprs a @ subexprs b"
| "subexprs (EAnd a b) = EAnd a b # subexprs a @ subexprs b"
| "subexprs (EOr a b) = EOr a b # subexprs a @ subexprs b"
| "subexprs e = [e]"

definition absent_order :: "ScenarioQuery \<Rightarrow> string \<Rightarrow> EvalError option" where
  "absent_order q s = (if order_by_ref q s = None
     then Some (PathResolve (in_brackets ''orders'' s) ''no order with that order_ref'') else None)"

definition absent_position :: "ScenarioQuery \<Rightarrow> string \<Rightarrow> EvalError option" where
  "absent_position q s = (if sq_position_for q s = None
     then Some (PathResolve (in_brackets ''positions'' s) ''no position for that symbol'') else None)"

definition absent_session :: "ScenarioQuery \<Rightarrow> nat \<Rightarrow> EvalError option" where
  "absent_session q sid = (if sq_session_metrics q sid = None
     then Some (PathResolve (in_brackets ''session'' (show_nat sid)) ''no such session'') else None)"

fun absent :: "ScenarioQuery \<Rightarrow> string \<Rightarrow> Index \<Rightarrow> EvalError option" where
  "absent q name IxWildcard = None"
| "absent q name (IxInt i) =
    (if name = ''orders'' then
       (if order_by_index q (i64_as_u64 i) = None
        then Some (PathResolve (in_brackets ''orders'' (show_int i)) ''index out of range'') else None)
     else if name = ''positions'' then absent_position q (show_int i)
     else if name = ''session'' then absent_session q (i64_as_u64 i) else None)"
| "absent q name ix =
    (let s = (case ix of IxStr s \<Rightarrow> s | IxIdent s \<Rightarrow> s | _ \<Rightarrow> []) in
     if name = ''orders'' then absent_order q s
     else if name = ''positions'' then absent_position q s
     else if name = ''session'' then
       (case parse_u64 s of Inl _ \<Rightarrow> None | Inr n \<Rightarrow> absent_session q (nat n)) else None)"

definition is_nan :: "Value \<Rightarrow> bool" where
  "is_nan v = (case v of VNum x \<Rightarrow> f64_is_nan x | _ \<Rightarrow> False)"

text \<open>The path of the expression that the error is about, and the comparison it is about.\<close>

definition names_absent :: "ScenarioQuery \<Rightarrow> Expr \<Rightarrow> EvalError \<Rightarrow> bool" where
  "names_absent q e err \<longleftrightarrow>
    (\<exists>name ix rest. EPath name (SIndex ix # rest) \<in> set (subexprs e) \<and> absent q name ix = Some err)"

definition compares_nan :: "ScenarioQuery \<Rightarrow> Expr \<Rightarrow> EvalError \<Rightarrow> bool" where
  "compares_nan q e err \<longleftrightarrow>
    (\<exists>op a b l r. EBinOp op a b \<in> set (subexprs e) \<and> op \<in> {OpLt, OpLe, OpGt, OpGe}
       \<and> eval q a = Inr l \<and> eval q b = Inr r \<and> (is_nan l \<or> is_nan r)
       \<and> err = IncomparableCompare (type_name l) (type_name r))"

definition excused :: "ScenarioQuery \<Rightarrow> Expr \<Rightarrow> EvalError \<Rightarrow> bool" where
  "excused q e err \<longleftrightarrow> names_absent q e err \<or> compares_nan q e err"

lemma excused_mono: "excused q a err \<Longrightarrow> set (subexprs a) \<subseteq> set (subexprs e) \<Longrightarrow> excused q e err"
  unfolding excused_def names_absent_def compares_nan_def by blast

definition sound :: "(EvalError \<Rightarrow> bool) \<Rightarrow> ty \<Rightarrow> Value evaluated \<Rightarrow> bool" where
  "sound P t r = (case r of Inl e \<Rightarrow> P e | Inr v \<Rightarrow> has_ty v t)"

lemma sound_simps [simp]: "sound P t (Inl e) = P e" "sound P t (Inr v) = has_ty v t"
  by (simp_all add: sound_def)

lemma sound_mono: "sound P t r \<Longrightarrow> (\<And>e. P e \<Longrightarrow> Q e) \<Longrightarrow> sound Q t r"
  by (cases r) simp_all

text \<open>No error at all.\<close>

abbreviation fine :: "ty \<Rightarrow> Value evaluated \<Rightarrow> bool" where
  "fine \<equiv> sound (\<lambda>_. False)"

lemma fine_sound: "fine t r \<Longrightarrow> sound P t r"
  by (cases r) simp_all

lemma tail_tyE:
  assumes "tail_ty t0 f segments = Some t"
  obtains "segments = []" "t = t0" | name where "segments = [SField name]" "f name = Some t"
  using assms by (induction t0 f segments rule: tail_ty.induct) auto

lemma order_value_typed:
  assumes "order_field_ty name = Some t"
  obtains v where "order_value snap name = Some v" "has_ty v t"
proof -
  have opt: "has_ty (opt_num x) (TOpt TNum)" for x by (cases x) (simp_all add: opt_num_def)
  have par: "has_ty (case x of Some s \<Rightarrow> VStr s | None \<Rightarrow> VNull) (TOpt TStr)" for x by (cases x) simp_all
  have "name \<in> {''order_ref'', ''symbol'', ''side'', ''status''} \<and> t = TStr
    \<or> name \<in> {''quantity'', ''qty'', ''filled_qty'', ''filled'', ''remaining_qty'', ''remaining''} \<and> t = TNum
    \<or> name \<in> {''limit_price'', ''stop_price'', ''avg_fill_price''} \<and> t = TOpt TNum \<or> name = ''parent_ref'' \<and> t = TOpt TStr"
    using assms unfolding order_field_ty_def by (metis option.distinct(1) option.inject)
  then have "\<exists>v. order_value snap name = Some v \<and> has_ty v t"
    by (elim disjE conjE insertE emptyE) (simp_all add: order_value_def opt [simplified] par [simplified])
  then show ?thesis using that by blast
qed

lemma order_field_sound:
  assumes "tail_ty TStr order_field_ty segments = Some t"
  shows "fine t (order_field snap segments)"
  using assms
proof (rule tail_tyE)
  fix name assume n: "segments = [SField name]" "order_field_ty name = Some t"
  obtain v where "order_value snap name = Some v" "has_ty v t" using order_value_typed [OF n(2)] .
  then show ?thesis by (simp add: order_field_def n)
qed (simp add: order_field_def)

lemma position_field_sound:
  assumes "tail_ty TNum position_field_ty segments = Some t"
  shows "fine t (position_field pos segments)"
  using assms
proof (rule tail_tyE)
  fix name assume n: "segments = [SField name]" "position_field_ty name = Some t"
  then have "name = ''symbol'' \<and> t = TStr
    \<or> name \<in> {''quantity'', ''qty'', ''avg_cost'', ''realized_pnl'', ''unrealized_pnl''} \<and> t = TNum"
    unfolding position_field_ty_def by (metis option.distinct(1) option.inject)
  then show ?thesis
    by (elim disjE conjE insertE emptyE) (simp_all add: position_field_def n)
qed (simp add: position_field_def)

lemma session_field_sound:
  assumes "tail_ty TBool session_field_ty segments = Some t"
  shows "fine t (session_field m segments)"
  using assms
proof (rule tail_tyE)
  fix name assume n: "segments = [SField name]" "session_field_ty name = Some t"
  then have "name = ''connected'' \<and> t = TBool
    \<or> name \<in> {''msg_count'', ''msg_count_last_5s'', ''msg_count_since'', ''tick_count''} \<and> t = TNum"
    unfolding session_field_ty_def by (metis option.distinct(1) option.inject)
  then show ?thesis
    by (elim disjE conjE insertE emptyE) (simp_all add: session_field_def n)
qed (simp add: session_field_def)

lemma collect_sound:
  assumes "\<And>x. x \<in> set xs \<Longrightarrow> fine t (f x)"
  shows "fine (TList t) (case collect f xs of Inl e \<Rightarrow> Inl e | Inr vs \<Rightarrow> Inr (VList vs))"
  using assms
proof (induction xs)
  case (Cons x xs)
  then have "fine t (f x)" "fine (TList t) (case collect f xs of Inl e \<Rightarrow> Inl e | Inr vs \<Rightarrow> Inr (VList vs))"
    by auto
  then show ?case by (cases "f x"; cases "collect f xs") auto
qed simp

lemma resolve_orders_sound:
  assumes "path_ty ''orders'' (SIndex ix # rest) = Some t"
  shows "sound (\<lambda>err. absent q ''orders'' ix = Some err) t (resolve_orders (SIndex ix # rest) q)"
proof -
  obtain u where u: "tail_ty TStr order_field_ty rest = Some u" "t = (if ix = IxWildcard then TList u else u)"
    using assms by (auto split: option.splits)
  note f = order_field_sound [OF u(1)]
  show ?thesis
    using u(2) fine_sound [OF f] fine_sound [OF collect_sound, of "sq_orders q" u "\<lambda>snap. order_field snap rest"] f
    by (cases ix) (auto simp: resolve_orders_def absent_order_def split: option.splits)
qed

lemma resolve_positions_sound:
  assumes "path_ty ''positions'' (SIndex ix # rest) = Some t"
  shows "sound (\<lambda>err. absent q ''positions'' ix = Some err) t (resolve_positions (SIndex ix # rest) q)"
proof -
  obtain u where u: "tail_ty TNum position_field_ty rest = Some u" "t = (if ix = IxWildcard then TList u else u)"
    using assms by (auto split: option.splits)
  note f = position_field_sound [OF u(1)]
  show ?thesis
    using u(2) fine_sound [OF f] fine_sound [OF collect_sound, of "sq_positions q" u "\<lambda>p. position_field p rest"] f
    by (cases ix) (auto simp: resolve_positions_def position_at_def absent_position_def split: option.splits)
qed

lemma resolve_session_sound:
  assumes "path_ty ''session'' (SIndex ix # rest) = Some t"
  shows "sound (\<lambda>err. absent q ''session'' ix = Some err) t (resolve_session (SIndex ix # rest) q)"
proof -
  have u: "tail_ty TBool session_field_ty rest = Some t" using assms by (auto split: sum.splits)
  obtain sid where sid: "session_id ix = Inr sid" using assms by (auto split: sum.splits)
  then have "absent q ''session'' ix = absent_session q sid"
    by (cases ix) (auto simp: session_id_def Let_def split: sum.splits)
  then show ?thesis using fine_sound [OF session_field_sound [OF u]] sid
    by (auto simp: resolve_session_def absent_session_def split: option.splits)
qed

lemma resolve_path_sound:
  assumes "path_ty name segments = Some t"
  shows "sound (excused q (EPath name segments)) t (resolve_path name segments q)"
proof (cases segments)
  case Nil
  then have n: "name_ty name = Some t" using assms by simp
  show ?thesis
  proof (cases "status_from_ident name")
    case None
    then have "name \<in> {''all_orders_have_terminal_status'', ''no_orphan_bracket_children''} \<and> t = TBool \<or> name = ''session_duration'' \<and> t = TNum"
      using n unfolding name_ty.simps by (metis option.distinct(1) option.inject)
    then show ?thesis
      by (elim disjE conjE insertE emptyE) (use None in \<open>simp_all add: Nil resolve_path_def builtin_value_def\<close>)
  qed (use n in \<open>simp add: Nil resolve_path_def name_ty.simps\<close>)
next
  case (Cons sg rest)
  then obtain ix where ix: "sg = SIndex ix" using assms by (cases sg) auto
  have name: "name = ''orders'' \<or> name = ''positions'' \<or> name = ''session''"
    using assms by (auto simp: Cons ix split: if_splits)
  then have "sound (\<lambda>err. absent q name ix = Some err) t (resolve_path name segments q)"
    using assms resolve_orders_sound resolve_positions_sound resolve_session_sound unfolding Cons ix
    by (elim disjE) (simp_all only: resolve_path_def, simp_all)
  then show ?thesis
    by (rule sound_mono) (auto simp: excused_def names_absent_def Cons ix)
qed

lemma has_ty_numeric:
  assumes "has_ty v t" "numeric t"
  obtains x where "as_f64 v = Some x" "f64_is_nan x \<longleftrightarrow> is_nan v"
proof -
  have "\<not> f64_is_nan f64_one" "\<not> f64_is_nan f64_zero" by code_simp+
  then show thesis using that assms
    by (cases v) (auto simp: numeric_def is_nan_def f64_of_int_rnd)
qed

lemma f64_partial_cmp_None: "f64_partial_cmp a b = None \<Longrightarrow> f64_is_nan a \<or> f64_is_nan b"
  by (auto simp: f64_partial_cmp_def f64_lt_def f64_eq_def split: if_splits)

lemma has_ty_aggregable:
  assumes "has_ty v t" "aggregable t"
  shows "v = VNull \<or> (\<exists>x. as_f64 v = Some x)" and "v = VNull \<or> (\<exists>n. v = VNum n) \<or> (\<exists>i. v = VInt i) \<or> (\<exists>b. v = VBool b)"
  using assms by (cases v; auto simp: aggregable_def numeric_def)+

lemma sum_loop_sound: "(\<And>v. v \<in> set vs \<Longrightarrow> \<exists>t. aggregable t \<and> has_ty v t) \<Longrightarrow> \<exists>x. sum_loop acc vs = Inr (VNum x)"
proof (induction vs arbitrary: acc)
  case (Cons v vs)
  then have "v = VNull \<or> (\<exists>n. v = VNum n) \<or> (\<exists>i. v = VInt i) \<or> (\<exists>b. v = VBool b)"
    using has_ty_aggregable(2) by (meson list.set_intros(1))
  then show ?case using Cons by auto
qed simp

lemma extreme_loop_sound:
  "(\<And>v. v \<in> set vs \<Longrightarrow> \<exists>t. aggregable t \<and> has_ty v t) \<Longrightarrow> \<exists>x. extreme_loop m best vs = Inr (VNum x)"
proof (induction vs arbitrary: best)
  case (Cons v vs)
  then have "v = VNull \<or> (\<exists>x. as_f64 v = Some x)" using has_ty_aggregable(1) by (meson list.set_intros(1))
  then show ?case using Cons by auto
qed simp

lemma flatten_aggregable:
  assumes "args_aggregable ts" "list_all2 has_ty vs ts"
  shows "vs \<noteq> []" and "v \<in> set (flatten vs) \<Longrightarrow> \<exists>t. aggregable t \<and> has_ty v t"
proof -
  show "vs \<noteq> []" using assms by (cases ts) (auto simp: args_aggregable_def)
  have many: "\<exists>t. aggregable t \<and> has_ty v t" if "list_all aggregable ts" "v \<in> set vs" for v
    using that assms(2) by (fastforce simp: list_all2_conv_all_nth list_all_length in_set_conv_nth)
  show "\<exists>t. aggregable t \<and> has_ty v t" if v: "v \<in> set (flatten vs)"
  proof (cases "\<exists>t. ts = [TList t]")
    case True
    then obtain t where t: "ts = [TList t]" "aggregable t" using assms(1) by (auto simp: args_aggregable_def)
    then obtain w where w: "vs = [w]" "has_ty w (TList t)" using assms(2) by (auto simp: list_all2_Cons2)
    then obtain items where "w = VList items" by (cases w) auto
    with w v t show ?thesis by (auto simp: flatten_def list_all_iff)
  next
    case False
    then have all: "list_all aggregable ts" using assms(1)
      by (cases ts rule: remdups_adj.cases) (auto simp: args_aggregable_def split: ty.splits)
    have "flatten vs = vs"
    proof (cases "\<exists>items. vs = [VList items]")
      case True
      then obtain items t where "vs = [VList items]" "ts = [t]" "has_ty (VList items) t" using assms(2) by (auto simp: list_all2_Cons1)
      with all show ?thesis by (cases t) (auto simp: aggregable_def numeric_def)
    qed (auto simp: flatten_def split: list.splits Value.splits)
    with many all v show ?thesis by simp
  qed
qed

lemma apply_function_sound:
  assumes "call_ty name ts = Some t" "list_all2 has_ty vs ts"
  shows "fine t (apply_function name vs)"
proof -
  consider "name \<in> {''sum'', ''max'', ''min''}" "args_aggregable ts" "t = TNum" | "name = ''count''" "ts \<noteq> []" "t = TNum"
    | "name = ''last_5s''" "ts = []" "t = TNum"
    using assms(1) unfolding call_ty_def by (metis option.distinct(1) option.inject)
  then show ?thesis
  proof cases
    case 1
    note fs = flatten_aggregable [OF 1(2) assms(2)]
    obtain x where x: "sum_loop f64_zero (flatten vs) = Inr (VNum x)" using sum_loop_sound fs(2) by blast
    obtain y where y: "extreme_loop True None (flatten vs) = Inr (VNum y)" using extreme_loop_sound fs(2) by blast
    obtain z where z: "extreme_loop False None (flatten vs) = Inr (VNum z)" using extreme_loop_sound fs(2) by blast
    show ?thesis using 1(1)
      by (elim insertE emptyE) (simp_all add: apply_function_def fn_sum_def fn_extreme_def fs(1) x y z 1(3))
  next
    case 2
    then show ?thesis using assms(2) by (cases vs) (auto simp: apply_function_def fn_count_def)
  next
    case 3
    then show ?thesis using assms(2) by (simp add: apply_function_def fn_last_5s_def)
  qed
qed

lemma apply_binop_sound:
  assumes "has_ty l s" "has_ty r t" "op = OpEq \<or> op = OpNeq \<or> (numeric s \<and> numeric t) \<or> (s = TStr \<and> t = TStr)"
  shows "sound (\<lambda>err. op \<in> {OpLt, OpLe, OpGt, OpGe} \<and> (is_nan l \<or> is_nan r)
    \<and> err = IncomparableCompare (type_name l) (type_name r)) TBool (apply_binop op l r)"
proof (cases "op = OpEq \<or> op = OpNeq")
  case False
  have "cmp_total l r = None \<longrightarrow> is_nan l \<or> is_nan r"
    using False assms(3)
  proof (elim disjE conjE)
    assume n: "numeric s" "numeric t"
    obtain x where x: "as_f64 l = Some x" "f64_is_nan x \<longleftrightarrow> is_nan l" using has_ty_numeric [OF assms(1) n(1)] .
    obtain y where y: "as_f64 r = Some y" "f64_is_nan y \<longleftrightarrow> is_nan r" using has_ty_numeric [OF assms(2) n(2)] .
    show ?thesis using f64_partial_cmp_None [of x y] x y by (auto simp: cmp_total_def)
  next
    assume "s = TStr" "t = TStr"
    with assms(1,2) obtain a b where "l = VStr a" "r = VStr b" by (cases l; cases r) auto
    then show ?thesis by (simp add: cmp_total_def)
  qed simp_all
  then show ?thesis using False
    by (cases "cmp_total l r"; cases op) (auto simp: apply_binop_def)
qed (auto simp: apply_binop_def)

lemma collect_typed:
  assumes "collect_opt g args = Some ts" "\<And>a t. a \<in> set args \<Longrightarrow> g a = Some t \<Longrightarrow> sound P t (f a)"
  shows "case collect f args of Inl e \<Rightarrow> P e | Inr vs \<Rightarrow> list_all2 has_ty vs ts"
  using assms
proof (induction args arbitrary: ts)
  case (Cons a args)
  then obtain t us where t: "g a = Some t" "collect_opt g args = Some us" "ts = t # us"
    by (auto split: option.splits)
  then have "sound P t (f a)" "case collect f args of Inl e \<Rightarrow> P e | Inr vs \<Rightarrow> list_all2 has_ty vs us"
    using Cons by auto
  then show ?case using t by (cases "f a"; cases "collect f args") auto
qed simp

lemma has_ty_bool: "has_ty v TBool \<Longrightarrow> \<exists>b. v = VBool b"
  by (cases v) auto

lemma literal_sound: "literal_ty v = Some t \<Longrightarrow> has_ty v t"
  by (cases v) auto

lemma eval_sound: "type_of e = Some t \<Longrightarrow> sound (excused q e) t (eval q e)"
proof (induction e arbitrary: t)
  case (ECall name args)
  then obtain ts where ts: "collect_opt type_of args = Some ts" "call_ty name ts = Some t"
    by (auto split: option.splits)
  have "sound (excused q (ECall name args)) u (eval q a)" if "a \<in> set args" "type_of a = Some u" for a u
    by (rule sound_mono [OF ECall.IH [OF that]]) (use that(1) in \<open>auto elim!: excused_mono\<close>)
  then have "case collect (eval q) args of Inl e \<Rightarrow> excused q (ECall name args) e
      | Inr vs \<Rightarrow> list_all2 has_ty vs ts"
    by (rule collect_typed [OF ts(1)])
  then show ?case using fine_sound [OF apply_function_sound [OF ts(2)]]
    by (cases "collect (eval q) args") auto
next
  case (EBinOp op a b)
  then obtain s u where su: "type_of a = Some s" "type_of b = Some u" "t = TBool"
    "op = OpEq \<or> op = OpNeq \<or> (numeric s \<and> numeric u) \<or> (s = TStr \<and> u = TStr)"
    by (auto split: option.splits if_splits)
  have a: "sound (excused q (EBinOp op a b)) s (eval q a)"
    by (rule sound_mono [OF EBinOp.IH(1) [OF su(1)]]) (auto elim!: excused_mono)
  have b: "sound (excused q (EBinOp op a b)) u (eval q b)"
    by (rule sound_mono [OF EBinOp.IH(2) [OF su(2)]]) (auto elim!: excused_mono)
  show ?case
  proof (cases "eval q a"; cases "eval q b")
    fix l r assume lr: "eval q a = Inr l" "eval q b = Inr r"
    then have "has_ty l s" "has_ty r u" using a b by simp_all
    from apply_binop_sound [OF this su(4)]
    have "sound (excused q (EBinOp op a b)) TBool (apply_binop op l r)"
      by (rule sound_mono) (use lr in \<open>fastforce simp: excused_def compares_nan_def\<close>)
    with lr su(3) show ?case by simp
  qed (use a b in simp_all)
next
  case (EAnd a b)
  then have t: "type_of a = Some TBool" "type_of b = Some TBool" "t = TBool" by (auto split: if_splits)
  have "sound (excused q (EAnd a b)) TBool (eval q a)" "sound (excused q (EAnd a b)) TBool (eval q b)"
    by (rule sound_mono [OF EAnd.IH(1) [OF t(1)]], auto elim!: excused_mono)
      (rule sound_mono [OF EAnd.IH(2) [OF t(2)]], auto elim!: excused_mono)
  then show ?case using \<open>t = TBool\<close> has_ty_bool
    by (cases "eval q a"; cases "eval q b") (fastforce simp: coerce_bool_def)+
next
  case (EOr a b)
  then have t: "type_of a = Some TBool" "type_of b = Some TBool" "t = TBool" by (auto split: if_splits)
  have "sound (excused q (EOr a b)) TBool (eval q a)" "sound (excused q (EOr a b)) TBool (eval q b)"
    by (rule sound_mono [OF EOr.IH(1) [OF t(1)]], auto elim!: excused_mono)
      (rule sound_mono [OF EOr.IH(2) [OF t(2)]], auto elim!: excused_mono)
  then show ?case using \<open>t = TBool\<close> has_ty_bool
    by (cases "eval q a"; cases "eval q b") (fastforce simp: coerce_bool_def)+
qed (simp_all add: literal_sound resolve_path_sound)

text \<open>C30: A scenario expression that the type system accepts cannot go wrong: whatever the engine's
orders, positions and sessions are, evaluating it gives a value of its type; or it gives the exact
error for an order, position or session that a path of the expression names by index and that is
not there now; or one of its ordering comparisons was between values one of which is a NaN, and the
error names the types of the two. It never ends in an unknown name, function or field, a malformed
path or session id, a wrong argument count, a type mismatch, a bad duration or a panic.\<close>

theorem well_typed_expressions_do_not_go_wrong:
  assumes "type_of e = Some t"
  shows "(\<exists>v. eval q e = Inr v \<and> has_ty v t)
    \<or> (\<exists>err. eval q e = Inl err \<and> (names_absent q e err \<or> compares_nan q e err))"
  using eval_sound [OF assms, of q] by (cases "eval q e") (auto simp: excused_def)

definition typed_example :: Expr where
  "typed_example = EOr (EBinOp OpLe (ECall ''sum'' [EPath ''orders'' [SIndex IxWildcard, SField ''limit_price'']])
      (ELiteral (VInt 500))) (EBinOp OpEq (EPath ''orders'' [SIndex (IxStr ''a''), SField ''status'']) (EPath ''Filled'' []))"

definition no_orders :: ScenarioQuery where
  "no_orders = \<lparr> sq_orders = [], sq_position_for = (\<lambda>_. None), sq_positions = [], sq_session_metrics = (\<lambda>_. None),
     sq_session_duration = 0 \<rparr>"

theorem well_typed_expressions_do_not_go_wrong_witness:
  "type_of typed_example = Some TBool \<and> eval no_orders typed_example = Inr (VBool True)
   \<and> ((\<exists>v. eval no_orders typed_example = Inr v \<and> has_ty v TBool)
     \<or> (\<exists>err. eval no_orders typed_example = Inl err
          \<and> (names_absent no_orders typed_example err \<or> compares_nan no_orders typed_example err)))"
proof -
  have t: "type_of typed_example = Some TBool" by code_simp
  have "eval no_orders typed_example = Inr (VBool True)" by code_simp
  then show ?thesis using t well_typed_expressions_do_not_go_wrong [OF t, of no_orders] by simp
qed

end
