(* ===== verification/Market_Publisher_Props.thy ===== *)
theory Market_Publisher_Props imports Market_Hub begin

text \<open>
  What the publisher tasks of a hub do over a stretch of upstream items: they forward every tick,
  the quote watch ends up with the last price of each side while somebody watches, an idle
  publisher leaves after 16 ticks.
\<close>

section \<open>The quote of a run\<close>

fun quote_side :: "TickType \<Rightarrow> Quote \<Rightarrow> f64 option" where
  "quote_side BidTick q = q_bid q"
| "quote_side AskTick q = q_ask q"
| "quote_side LastTick q = q_last q"
| "quote_side _ q = None"

definition tick_price :: "TickType \<Rightarrow> Tick \<Rightarrow> f64 option" where
  "tick_price side tick = (if tk_kind tick \<in> {PriceKind, PriceSizeKind} \<and> tk_type tick = side
     then (case tk_value tick of PriceVal p \<Rightarrow> Some p | PriceSizeVal p _ \<Rightarrow> Some p | _ \<Rightarrow> None)
     else None)"

definition newer :: "f64 option \<Rightarrow> f64 option \<Rightarrow> f64 option" where
  "newer old new = (case new of None \<Rightarrow> old | Some p \<Rightarrow> Some p)"

text \<open>The last price the ticks carry for a side.\<close>

definition last_price :: "TickType \<Rightarrow> Tick list \<Rightarrow> f64 option" where
  "last_price side ticks = foldl (\<lambda>acc tick. newer acc (tick_price side tick)) None ticks"

text \<open>Prices are the same when they are identical or equal as floats, as the two zeros are.\<close>

definition same_price :: "f64 option \<Rightarrow> f64 option \<Rightarrow> bool" where
  "same_price x y = (x = y \<or> price_eq x y)"

lemma same_price_refl [simp]: "same_price x x"
  by (simp add: same_price_def)

lemma same_price_newer: "same_price x y \<Longrightarrow> same_price (newer x p) (newer y p)"
  by (cases p) (auto simp: newer_def)

lemma price_eq_trans: "price_eq x y \<Longrightarrow> price_eq y z \<Longrightarrow> price_eq x z"
  by (auto simp: price_eq_def f64_eq_def split: option.splits)

lemma price_eq_sym: "price_eq x y \<Longrightarrow> price_eq y x"
  by (auto simp: price_eq_def f64_eq_def split: option.splits)

lemma same_price_trans: "same_price x y \<Longrightarrow> same_price y z \<Longrightarrow> same_price x z"
  by (auto simp: same_price_def intro: price_eq_trans)

definition price_sides :: "TickType set" where
  "price_sides = {BidTick, AskTick, LastTick}"

text \<open>One tick, seen by somebody.\<close>

lemma update_last_quote_side:
  assumes "side \<in> price_sides" "0 < wtch" "tk_kind tick \<in> {PriceKind, PriceSizeKind}"
  shows "same_price (quote_side side (wt_value (update_last_quote wtch tick w)))
     (newer (quote_side side (wt_value w)) (tick_price side tick))"
proof -
  define nxt where "nxt = (case (tk_type tick, tk_value tick) of
             (BidTick, PriceVal p) \<Rightarrow> wt_value w\<lparr> q_bid := Some p, q_ts := tk_ts tick \<rparr>
           | (AskTick, PriceVal p) \<Rightarrow> wt_value w\<lparr> q_ask := Some p, q_ts := tk_ts tick \<rparr>
           | (LastTick, PriceVal p) \<Rightarrow> wt_value w\<lparr> q_last := Some p, q_ts := tk_ts tick \<rparr>
           | (LastTick, PriceSizeVal p _) \<Rightarrow> wt_value w\<lparr> q_last := Some p, q_ts := tk_ts tick \<rparr>
           | (BidTick, PriceSizeVal p _) \<Rightarrow> wt_value w\<lparr> q_bid := Some p, q_ts := tk_ts tick \<rparr>
           | (AskTick, PriceSizeVal p _) \<Rightarrow> wt_value w\<lparr> q_ask := Some p, q_ts := tk_ts tick \<rparr>
           | _ \<Rightarrow> wt_value w)"
  have u: "update_last_quote wtch tick w = (if quote_eq nxt (wt_value w) then w
      else \<lparr> wt_value = nxt, wt_version = wt_version w + 1 \<rparr>)"
    using assms(2) by (simp add: update_last_quote_def nxt_def watch_send_def Let_def)
  have n: "quote_side side nxt = newer (quote_side side (wt_value w)) (tick_price side tick)"
    using assms(1,3) by (auto simp: nxt_def price_sides_def newer_def tick_price_def
        split: TickType.splits TickValue.splits)
  have "price_eq (quote_side side nxt) (quote_side side (wt_value w))" if "quote_eq nxt (wt_value w)"
    using that assms(1) by (auto simp: quote_eq_def price_sides_def)
  with u n show ?thesis by (auto simp: same_price_def intro: price_eq_sym)
qed

lemma update_unwatched: "update_last_quote 0 tick w = w"
  by (simp add: update_last_quote_def watch_send_def Let_def)

section \<open>Runs\<close>

definition ticks_of :: "(Tick upstream_item \<times> nat \<times> nat) list \<Rightarrow> Tick list" where
  "ticks_of items = concat (map (\<lambda>(item, _). case item of Item tick \<Rightarrow> [tick] | _ \<Rightarrow> []) items)"

lemma ticks_of_simps [simp]:
  "ticks_of [] = []" "ticks_of ((Item tick, bw) # items) = tick # ticks_of items"
  "ticks_of ((Lagged n, bw) # items) = ticks_of items"
  by (simp_all add: ticks_of_def)

abbreviation tick_run ::
  "(Tick upstream_item \<times> nat \<times> nat) list \<Rightarrow> SymbolHub \<times> nat
     \<Rightarrow> Tick list \<times> publisher_end option \<times> SymbolHub \<times> nat" where
  "tick_run \<equiv> run_publisher (\<lambda>(item, bcast, wtch). tick_publisher_step item bcast wtch)"

lemma watched_run:
  assumes "\<forall>(item, bcast, wtch) \<in> set items. item \<noteq> Closed \<and> 0 < wtch" "side \<in> price_sides"
  shows "\<exists>hub' streak'. tick_run items (hub, streak) = (ticks_of items, None, hub', streak')
     \<and> same_price (quote_side side (wt_value (sh_last_quote hub')))
         (foldl (\<lambda>acc tick. newer acc (tick_price side tick))
           (quote_side side (wt_value (sh_last_quote hub))) (ticks_of items))"
  using assms(1)
proof (induction items arbitrary: hub streak)
  case (Cons i items)
  obtain item bcast wtch where i: "i = (item, bcast, wtch)" by (cases i)
  show ?case
  proof (cases item)
    case (Item tick)
    let ?new = "newer (quote_side side (wt_value (sh_last_quote hub))) (tick_price side tick)"
    obtain hub1 where s: "tick_publisher_step item bcast wtch (hub, streak) = (Some tick, None, hub1, 0)"
      and q: "same_price (quote_side side (wt_value (sh_last_quote hub1))) ?new"
    proof (cases "tk_kind tick \<in> {PriceKind, PriceSizeKind}")
      case True
      with Cons.prems i Item that update_last_quote_side [OF assms(2) _ True] show ?thesis
        by (simp add: tick_publisher_step_def Let_def)
    next
      case False
      then have "tick_price side tick = None" by (simp add: tick_price_def)
      with False Cons.prems i Item that show ?thesis
        by (simp add: tick_publisher_step_def Let_def newer_def)
    qed
    obtain hub' streak' where r: "tick_run items (hub1, 0) = (ticks_of items, None, hub', streak')"
      and p: "same_price (quote_side side (wt_value (sh_last_quote hub')))
         (foldl (\<lambda>acc tick. newer acc (tick_price side tick))
           (quote_side side (wt_value (sh_last_quote hub1))) (ticks_of items))"
      using Cons.IH [of hub1 0] Cons.prems by auto
    have "same_price (foldl (\<lambda>acc tick. newer acc (tick_price side tick)) x ticks)
        (foldl (\<lambda>acc tick. newer acc (tick_price side tick)) y ticks)" if "same_price x y" for x y ticks
      using that by (induction ticks arbitrary: x y) (auto intro: same_price_newer)
    from same_price_trans [OF p this [OF q]] r s i Item show ?thesis by simp
  next
    case (Lagged n)
    with Cons i show ?thesis by (auto simp: tick_publisher_step_def)
  next
    case Closed
    with Cons.prems i show ?thesis by auto
  qed
qed simp

text \<open>While somebody holds a quote handle and the upstream stays open, the tick publisher forwards
  every tick in order and keeps running, and for bid, ask and last the watch holds the price of
  the last tick that carried one.\<close>

lemma quote_holds_last_prices:
  assumes "\<forall>(item, bcast, wtch) \<in> set items. item \<noteq> Closed \<and> 0 < wtch" "side \<in> price_sides"
  shows "\<exists>hub streak. run_tick_publisher items (SymbolHub_new s) = (ticks_of items, None, hub, streak)
     \<and> same_price (quote_side side (wt_value (sh_last_quote hub))) (last_price side (ticks_of items))"
  using watched_run [OF assms, of "SymbolHub_new s" 0] assms(2)
  by (auto simp: run_tick_publisher_def last_price_def SymbolHub_new_def watch_new_def
      Quote_default_def price_sides_def)

text \<open>While only tick subscribers are there, the publisher forwards every tick but the quote
  watch keeps its first value: a quote handle opened afterwards starts from the empty quote, not
  from the last known one.\<close>

lemma unwatched_quotes_are_lost:
  assumes "\<forall>(item, bcast, wtch) \<in> set items. item \<noteq> Closed \<and> 0 < bcast \<and> wtch = 0"
  shows "\<exists>hub streak. run_tick_publisher items (SymbolHub_new s) = (ticks_of items, None, hub, streak)
     \<and> sh_last_quote hub = watch_new Quote_default"
proof -
  have "\<exists>hub' streak'. tick_run items (hub, streak) = (ticks_of items, None, hub', streak')
     \<and> sh_last_quote hub' = sh_last_quote hub" for hub streak
    using assms
  proof (induction items arbitrary: hub streak)
    case (Cons i items)
    obtain item bcast wtch where i: "i = (item, bcast, wtch)" by (cases i)
    show ?case
    proof (cases item)
      case (Item tick)
      let ?hub = "hub\<lparr> sh_last_tick_ts := of_int (tk_ts tick div 1000000) \<rparr>"
      have s: "tick_publisher_step item bcast wtch (hub, streak) = (Some tick, None, ?hub, 0)"
        using Cons.prems i Item by (auto simp: tick_publisher_step_def Let_def update_unwatched)
      with Cons.IH [of ?hub 0] Cons.prems i Item show ?thesis by auto
    next
      case (Lagged n)
      with Cons i show ?thesis by (auto simp: tick_publisher_step_def)
    next
      case Closed
      with Cons.prems i show ?thesis by auto
    qed
  qed simp
  from this [of "SymbolHub_new s" 0] show ?thesis
    by (auto simp: run_tick_publisher_def SymbolHub_new_def)
qed

text \<open>A publisher nobody listens to forwards sixteen ticks and leaves by itself, without a word
  to the router, however many items it missed in between.\<close>

theorem idle_publisher_leaves:
  assumes "\<forall>(item, bcast, wtch) \<in> set items. item \<noteq> Closed \<and> bcast = 0 \<and> wtch = 0"
  shows "fst (run_tick_publisher items hub) = take 16 (ticks_of items)
     \<and> fst (snd (run_tick_publisher items hub)) = (if length (ticks_of items) < 16 then None else Some AutoExit)"
proof -
  have "fst (tick_run items (hub, streak)) = take (16 - streak) (ticks_of items)
      \<and> fst (snd (tick_run items (hub, streak)))
        = (if length (ticks_of items) < 16 - streak then None else Some AutoExit)" if "streak < 16" for streak
    using assms that
  proof (induction items arbitrary: hub streak)
    case (Cons i items)
    obtain item bcast wtch where i: "i = (item, bcast, wtch)" by (cases i)
    show ?case
    proof (cases item)
      case (Item tick)
      obtain hub1 where s: "tick_publisher_step item bcast wtch (hub, streak)
          = (Some tick, if streak + 1 \<ge> 16 then Some AutoExit else None, hub1, streak + 1)"
        using Cons.prems i Item by (auto simp: tick_publisher_step_def Let_def PUBLISHER_AUTO_EXIT_STREAK_def)
      show ?thesis
      proof (cases "streak + 1 \<ge> 16")
        case True
        with Cons.prems have "streak = 15" by simp
        with s i Item show ?thesis by simp
      next
        case False
        then obtain n where n: "16 - streak = Suc n" "16 - Suc streak = n" by (metis Suc_diff_Suc Cons.prems(2))
        from Cons.IH [of "Suc streak" hub1] False Cons.prems s i Item n show ?thesis
          by (auto simp: split_beta)
      qed
    next
      case (Lagged n)
      with Cons i show ?thesis by (auto simp: tick_publisher_step_def split_beta)
    next
      case Closed
      with Cons.prems i show ?thesis by auto
    qed
  qed simp
  from this [of 0] show ?thesis by (simp add: run_tick_publisher_def)
qed

section \<open>The theorems at work\<close>

definition bid_tick :: Tick where
  "bid_tick = \<lparr> tk_symbol = \<lparr> sk_contract_id = 1, sk_symbol = ''A'' \<rparr>, tk_req_id = 1,
     tk_kind = PriceKind, tk_type = BidTick, tk_value = PriceVal f64_one,
     tk_attrs = TickAttributes_default, tk_ts = 5 \<rparr>"

definition watched_items :: "(Tick upstream_item \<times> nat \<times> nat) list" where
  "watched_items = [(Item bid_tick, 0, 1), (Lagged 3, 0, 2)]"

definition unwatched_items :: "(Tick upstream_item \<times> nat \<times> nat) list" where
  "unwatched_items = [(Item bid_tick, 1, 0)]"

definition idle_items :: "(Tick upstream_item \<times> nat \<times> nat) list" where
  "idle_items = replicate 20 (Item bid_tick, 0, 0)"

lemma quote_holds_last_prices_witness:
  "\<exists>hub streak. run_tick_publisher watched_items (SymbolHub_new (tk_symbol bid_tick))
       = ([bid_tick], None, hub, streak)
     \<and> same_price (quote_side BidTick (wt_value (sh_last_quote hub))) (Some f64_one)"
proof -
  have "\<forall>(item, bcast, wtch) \<in> set watched_items. item \<noteq> Closed \<and> 0 < wtch"
    "BidTick \<in> price_sides" by (simp_all add: watched_items_def price_sides_def)
  note quote_holds_last_prices [OF this, of "tk_symbol bid_tick"]
  moreover have "ticks_of watched_items = [bid_tick]" "last_price BidTick [bid_tick] = Some f64_one"
    by (simp_all add: watched_items_def last_price_def tick_price_def newer_def bid_tick_def)
  ultimately show ?thesis by simp
qed

lemma unwatched_quotes_are_lost_witness:
  "\<exists>hub streak. run_tick_publisher unwatched_items (SymbolHub_new (tk_symbol bid_tick))
       = ([bid_tick], None, hub, streak) \<and> sh_last_quote hub = watch_new Quote_default"
proof -
  have "\<forall>(item, bcast, wtch) \<in> set unwatched_items. item \<noteq> Closed \<and> 0 < bcast \<and> wtch = 0"
    by (simp add: unwatched_items_def)
  from unwatched_quotes_are_lost [OF this, of "tk_symbol bid_tick"] show ?thesis
    by (simp add: unwatched_items_def)
qed

lemma idle_publisher_leaves_witness:
  "fst (run_tick_publisher idle_items (SymbolHub_new (tk_symbol bid_tick))) = replicate 16 bid_tick
   \<and> fst (snd (run_tick_publisher idle_items (SymbolHub_new (tk_symbol bid_tick)))) = Some AutoExit"
proof -
  have "\<forall>(item, bcast, wtch) \<in> set idle_items. item \<noteq> Closed \<and> bcast = 0 \<and> wtch = 0"
    by (simp add: idle_items_def)
  moreover have "ticks_of idle_items = replicate 20 bid_tick"
    by (simp add: idle_items_def ticks_of_def numeral_eq_Suc)
  ultimately show ?thesis
    using idle_publisher_leaves [of idle_items "SymbolHub_new (tk_symbol bid_tick)"] by simp
qed

end
