(* ===== verification/Market_Registry.thy ===== *)
theory Market_Registry imports Market_Aggregator "HOL-Library.AList" begin

text \<open>
  The aggregator registry, \<open>crates/midas-market-data/src/aggregator/registry.rs\<close>: one aggregator
  task per symbol and timeframe, shared by refcount. A dropped guard spawns a task that takes the
  lock and decrements; those tasks run in any order. What the router answers to
  \<open>subscribe_rt_bars\<close>, and whether it is still alive, is given with each call.
\<close>

section \<open>Operations\<close>

type_synonym AggKey = "SymbolKey \<times> Timeframe"

record AggregatorEntry =
  ae_refcount :: u32
  ae_last_bar :: "Bar option"
  ae_task :: PublisherTask
  ae_end_reason :: "EndReason option"

type_synonym BarAggregatorRegistry = "(AggKey \<times> AggregatorEntry) list"

definition is_unsupported_tf :: "Timeframe \<Rightarrow> bool" where
  "is_unsupported_tf tf = (tf \<in> {S1, H4, D1, W1, MN1})"

definition fresh_entry :: AggregatorEntry where
  "fresh_entry = \<lparr> ae_refcount = 0, ae_last_bar = None, ae_task = Running, ae_end_reason = None \<rparr>"

definition add_ref :: "AggregatorEntry \<Rightarrow> AggregatorEntry" where
  "add_ref entry = entry\<lparr> ae_refcount := ae_refcount entry + 1 \<rparr>"

definition agg_subscribe ::
  "(unit, MarketDataError) rust_result option \<Rightarrow> SymbolKey \<Rightarrow> Timeframe \<Rightarrow> BarAggregatorRegistry
     \<Rightarrow> (AggKey, MarketDataError) rust_result \<times> BarAggregatorRegistry" where
  "agg_subscribe router symbol tf reg =
    (if is_unsupported_tf tf then (Err (UnsupportedTimeframe tf), reg)
     else case router of
       None \<Rightarrow> (Err ShuttingDown, reg)
     | Some rt_handle \<Rightarrow>
        (let key = (symbol, tf) in
         case map_of reg key of
           Some existing \<Rightarrow> (Ok key, AList.update key (add_ref existing) reg)
         | None \<Rightarrow>
            (case rt_handle of
               Inl e \<Rightarrow> (Err e, reg)
             | Inr _ \<Rightarrow> (Ok key, AList.update key (add_ref fresh_entry) reg))))"

definition agg_last_bar :: "SymbolKey \<Rightarrow> Timeframe \<Rightarrow> BarAggregatorRegistry \<Rightarrow> Bar option" where
  "agg_last_bar symbol tf reg = (case map_of reg (symbol, tf) of
     Some entry \<Rightarrow> ae_last_bar entry | None \<Rightarrow> None)"

text \<open>The body of the task a dropped guard spawns.\<close>

definition agg_guard_drop :: "AggKey \<Rightarrow> BarAggregatorRegistry \<Rightarrow> BarAggregatorRegistry" where
  "agg_guard_drop key reg = (case map_of reg key of
     None \<Rightarrow> reg
   | Some entry \<Rightarrow>
      (let prev = ae_refcount entry; dec = entry\<lparr> ae_refcount := prev - 1 \<rparr>
       in if prev = 0 then AList.update key (entry\<lparr> ae_refcount := 0 \<rparr>) reg
          else if prev = 1 then AList.delete key reg
          else AList.update key dec reg))"

text \<open>An aggregator task that returned stays in its entry.\<close>

definition agg_task_ends :: "AggKey \<Rightarrow> BarAggregatorRegistry \<Rightarrow> BarAggregatorRegistry" where
  "agg_task_ends key reg = (case map_of reg key of
     None \<Rightarrow> reg | Some entry \<Rightarrow> AList.update key (entry\<lparr> ae_task := Finished \<rparr>) reg)"

section \<open>The registry with its clients\<close>

record AggSystem =
  as_registry :: BarAggregatorRegistry
  as_handles :: "AggKey list"
  as_drops :: "AggKey list"

definition AggSystem_new :: AggSystem where
  "AggSystem_new = \<lparr> as_registry = [], as_handles = [], as_drops = [] \<rparr>"

datatype AggEvent =
    AggSubscribe "(unit, MarketDataError) rust_result option" SymbolKey Timeframe
  | AggDropHandle nat
  | AggRunDrop nat
  | AggTaskEnds AggKey

definition without :: "nat \<Rightarrow> 'a list \<Rightarrow> 'a list" where
  "without i xs = take i xs @ drop (Suc i) xs"

fun agg_step :: "AggEvent \<Rightarrow> AggSystem \<Rightarrow> AggSystem" where
  "agg_step (AggSubscribe router symbol tf) sys =
     (case agg_subscribe router symbol tf (as_registry sys) of
        (Inl e, reg) \<Rightarrow> sys\<lparr> as_registry := reg \<rparr>
      | (Inr key, reg) \<Rightarrow> sys\<lparr> as_registry := reg, as_handles := as_handles sys @ [key] \<rparr>)"
| "agg_step (AggDropHandle i) sys =
     (if i < length (as_handles sys)
      then sys\<lparr> as_handles := without i (as_handles sys),
                as_drops := as_drops sys @ [as_handles sys ! i] \<rparr>
      else sys)"
| "agg_step (AggRunDrop i) sys =
     (if i < length (as_drops sys)
      then sys\<lparr> as_registry := agg_guard_drop (as_drops sys ! i) (as_registry sys),
                as_drops := without i (as_drops sys) \<rparr>
      else sys)"
| "agg_step (AggTaskEnds key) sys = sys\<lparr> as_registry := agg_task_ends key (as_registry sys) \<rparr>"

definition agg_run :: "AggEvent list \<Rightarrow> AggSystem" where
  "agg_run evs = fold agg_step evs AggSystem_new"

section \<open>Refcounts\<close>

definition agg_holders :: "AggSystem \<Rightarrow> AggKey \<Rightarrow> nat" where
  "agg_holders sys key = count_list (as_handles sys) key + count_list (as_drops sys) key"

definition agg_ok :: "nat \<Rightarrow> AggSystem \<Rightarrow> bool" where
  "agg_ok n sys = (\<forall>key. agg_holders sys key \<le> n
     \<and> agg_holders sys key = (case map_of (as_registry sys) key of
          None \<Rightarrow> 0 | Some entry \<Rightarrow> unat (ae_refcount entry))
     \<and> (\<forall>entry. map_of (as_registry sys) key = Some entry \<longrightarrow> ae_refcount entry \<noteq> 0))"

lemma count_without:
  "i < length xs \<Longrightarrow> count_list xs x = count_list (without i xs) x + (if xs ! i = x then 1 else 0)"
  unfolding without_def by (subst id_take_nth_drop [of i xs]) simp_all

lemma agg_okD:
  assumes "agg_ok n sys"
  shows "agg_holders sys key \<le> n"
    "map_of (as_registry sys) key = None \<Longrightarrow> agg_holders sys key = 0"
    "map_of (as_registry sys) key = Some entry \<Longrightarrow>
       agg_holders sys key = unat (ae_refcount entry) \<and> ae_refcount entry \<noteq> 0"
  using assms [unfolded agg_ok_def, THEN spec, of key] by (auto split: option.splits)

lemma agg_okI:
  assumes "\<And>key. agg_holders sys key \<le> n"
    "\<And>key. map_of (as_registry sys) key = None \<Longrightarrow> agg_holders sys key = 0"
    "\<And>key entry. map_of (as_registry sys) key = Some entry \<Longrightarrow>
       agg_holders sys key = unat (ae_refcount entry) \<and> ae_refcount entry \<noteq> 0"
  shows "agg_ok n sys"
  unfolding agg_ok_def using assms by (auto split: option.split)

lemma agg_ok_same:
  assumes "agg_ok n sys" "n \<le> m" "agg_holders sys' = agg_holders sys"
    and "\<And>key. map_option ae_refcount (map_of (as_registry sys') key)
           = map_option ae_refcount (map_of (as_registry sys) key)"
  shows "agg_ok m sys'"
proof (rule agg_okI)
  fix key
  show "agg_holders sys' key \<le> m" using agg_okD(1) [OF assms(1), of key] assms(2,3) by simp
  show "agg_holders sys' key = 0" if "map_of (as_registry sys') key = None"
    using that assms(4) [of key] agg_okD(2) [OF assms(1), of key] assms(3) by simp
  show "agg_holders sys' key = unat (ae_refcount entry) \<and> ae_refcount entry \<noteq> 0"
    if "map_of (as_registry sys') key = Some entry" for entry
    using that assms(4) [of key] agg_okD(3) [OF assms(1), of key] assms(3)
    by (cases "map_of (as_registry sys) key") auto
qed

lemma subscribe_ok_step:
  assumes ok: "agg_ok n sys" and n: "n + 1 < 2 ^ 32"
  shows "agg_ok (n + 1) (agg_step (AggSubscribe router symbol tf) sys)"
proof -
  obtain r reg where s: "agg_subscribe router symbol tf (as_registry sys) = (r, reg)"
    by (cases "agg_subscribe router symbol tf (as_registry sys)")
  show ?thesis
  proof (cases r)
    case (Inl e)
    with s have "reg = as_registry sys"
      by (auto simp: agg_subscribe_def Let_def split: if_splits option.splits sum.splits)
    with s Inl show ?thesis by (intro agg_ok_same [OF ok]) (simp_all add: agg_holders_def fun_eq_iff)
  next
    case (Inr key)
    let ?old = "case map_of (as_registry sys) key of None \<Rightarrow> fresh_entry | Some e \<Rightarrow> e"
    have reg: "reg = AList.update key (add_ref ?old) (as_registry sys)"
      using s Inr by (auto simp: agg_subscribe_def Let_def split: if_splits option.splits sum.splits)
    have step: "agg_step (AggSubscribe router symbol tf) sys
        = sys\<lparr> as_registry := reg, as_handles := as_handles sys @ [key] \<rparr>" using s Inr by simp
    have h: "agg_holders (agg_step (AggSubscribe router symbol tf) sys) k
        = agg_holders sys k + (if k = key then 1 else 0)" for k
      unfolding step by (simp add: agg_holders_def)
    have old: "agg_holders sys key = unat (ae_refcount ?old)"
      using agg_okD(2,3) [OF ok, of key] by (auto simp: fresh_entry_def split: option.split)
    have "unat (ae_refcount ?old) + 1 < 2 ^ 32" using agg_okD(1) [OF ok, of key] old n by linarith
    note c = unat_Suc(2) [OF this] unat_Suc_nonzero [OF this]
    have reg': "map_of (as_registry (agg_step (AggSubscribe router symbol tf) sys))
        = (map_of (as_registry sys))(key \<mapsto> add_ref ?old)"
      unfolding step reg by (simp add: update_conv')
    show ?thesis
    proof (rule agg_okI)
      fix k
      show "agg_holders (agg_step (AggSubscribe router symbol tf) sys) k \<le> n + 1"
        unfolding h using agg_okD(1) [OF ok, of k] by (cases "k = key") simp_all
      show "agg_holders (agg_step (AggSubscribe router symbol tf) sys) k = 0"
        if "map_of (as_registry (agg_step (AggSubscribe router symbol tf) sys)) k = None"
        using that agg_okD(2) [OF ok, of k] unfolding h reg' by (simp split: if_splits)
      show "agg_holders (agg_step (AggSubscribe router symbol tf) sys) k = unat (ae_refcount entry)
          \<and> ae_refcount entry \<noteq> 0"
        if m: "map_of (as_registry (agg_step (AggSubscribe router symbol tf) sys)) k = Some entry" for entry
      proof (cases "k = key")
        case True
        with m have "entry = add_ref ?old" unfolding reg' by simp
        then have e: "ae_refcount entry = ae_refcount ?old + 1" by (simp add: add_ref_def)
        show ?thesis unfolding h e using True c old by presburger
      next
        case False
        with m agg_okD(3) [OF ok, of k] show ?thesis unfolding h reg' by simp
      qed
    qed
  qed
qed

lemma drop_ok_step:
  assumes ok: "agg_ok n sys" and i: "i < length (as_drops sys)"
  shows "agg_ok n (agg_step (AggRunDrop i) sys)"
proof -
  let ?key = "as_drops sys ! i"
  let ?sys = "agg_step (AggRunDrop i) sys"
  have step: "?sys = sys\<lparr> as_registry := agg_guard_drop ?key (as_registry sys),
      as_drops := without i (as_drops sys) \<rparr>" using i by simp
  have h: "agg_holders sys k = agg_holders ?sys k + (if k = ?key then 1 else 0)" for k
    unfolding step using count_without [OF i, of k] by (simp add: agg_holders_def)
  have pos: "0 < agg_holders sys ?key" using h [of ?key] by simp
  then obtain entry where e: "map_of (as_registry sys) ?key = Some entry"
    using agg_okD(2) [OF ok, of ?key] by (cases "map_of (as_registry sys) ?key") auto
  note c = agg_okD(3) [OF ok e]
  have reg: "map_of (as_registry ?sys) = (map_of (as_registry sys))(?key :=
      if ae_refcount entry = 1 then None else Some (entry\<lparr> ae_refcount := ae_refcount entry - 1 \<rparr>))"
    unfolding step using e c by (auto simp: agg_guard_drop_def Let_def update_conv' delete_conv')
  show ?thesis
  proof (rule agg_okI)
    fix k
    show "agg_holders ?sys k \<le> n" using agg_okD(1) [OF ok, of k] h [of k] by simp
    show "agg_holders ?sys k = 0" if m: "map_of (as_registry ?sys) k = None"
    proof (cases "k = ?key")
      case True
      with m reg have "ae_refcount entry = 1" by (simp split: if_splits)
      with True h [of k] c show ?thesis by simp
    next
      case False
      with m reg agg_okD(2) [OF ok, of k] h [of k] show ?thesis by simp
    qed
    show "agg_holders ?sys k = unat (ae_refcount entry') \<and> ae_refcount entry' \<noteq> 0"
      if m: "map_of (as_registry ?sys) k = Some entry'" for entry'
    proof (cases "k = ?key")
      case True
      with m reg have r: "ae_refcount entry \<noteq> 1" "ae_refcount entry' = ae_refcount entry - 1"
        by (auto split: if_splits)
      from r(1) have "ae_refcount entry - 1 \<noteq> 0" by simp
      with True h [of k] c unat_Suc(3) [of "ae_refcount entry"] show ?thesis unfolding r(2) by simp
    next
      case False
      with m reg agg_okD(3) [OF ok, of k] h [of k] show ?thesis by simp
    qed
  qed
qed

lemma agg_step_ok:
  assumes ok: "agg_ok n sys" and n: "n + 1 < 2 ^ 32"
  shows "agg_ok (n + 1) (agg_step ev sys)"
proof (cases ev)
  case (AggSubscribe router symbol tf)
  with subscribe_ok_step [OF ok n] show ?thesis by blast
next
  case (AggDropHandle i)
  then show ?thesis
    using count_without [of i "as_handles sys"]
    by (intro agg_ok_same [OF ok]) (auto simp: agg_holders_def fun_eq_iff)
next
  case (AggRunDrop i)
  show ?thesis
  proof (cases "i < length (as_drops sys)")
    case True
    from drop_ok_step [OF ok this] have "agg_ok n (agg_step ev sys)" unfolding AggRunDrop .
    then show ?thesis by (rule agg_ok_same) simp_all
  next
    case False
    with ok show ?thesis unfolding AggRunDrop by (intro agg_ok_same [OF ok]) simp_all
  qed
next
  case (AggTaskEnds key)
  then show ?thesis
    by (intro agg_ok_same [OF ok])
       (auto simp: agg_holders_def fun_eq_iff agg_task_ends_def update_conv' split: option.split)
qed

lemma agg_run_snoc: "agg_run (evs @ [ev]) = agg_step ev (agg_run evs)"
  by (simp add: agg_run_def)

lemma agg_run_ok: "length evs < 2 ^ 32 \<Longrightarrow> agg_ok (length evs) (agg_run evs)"
proof (induction evs rule: rev_induct)
  case Nil
  show ?case by (rule agg_okI) (simp_all add: agg_run_def AggSystem_new_def agg_holders_def)
next
  case (snoc ev evs)
  then have "agg_ok (length evs) (agg_run evs)" by simp
  from agg_step_ok [OF this] snoc.prems show ?case by (simp add: agg_run_snoc)
qed

text \<open>The aggregator of a symbol and timeframe is registered exactly as long as it has consumers:
  after any calls, drops and task ends, in any order, there is an entry for a key iff a handle is
  alive or a drop is still to run, and its refcount is their number, never zero.\<close>

lemma aggregators_are_refcounted:
  assumes "length evs < 2 ^ 32"
  shows "agg_holders (agg_run evs) key = (case map_of (as_registry (agg_run evs)) key of
      None \<Rightarrow> 0 | Some entry \<Rightarrow> unat (ae_refcount entry))
    \<and> (map_of (as_registry (agg_run evs)) key \<noteq> None \<longleftrightarrow> 0 < agg_holders (agg_run evs) key)"
  using agg_okD(2,3) [OF agg_run_ok [OF assms], of key]
  by (cases "map_of (as_registry (agg_run evs)) key") (auto simp: unat_gt_0)

lemma finished_entry_step:
  assumes ok: "agg_ok n sys" and n: "n + 1 < 2 ^ 32"
    and e: "map_option ae_task (map_of (as_registry sys) key) = Some Finished"
    and held: "0 < agg_holders (agg_step ev sys) key"
  shows "map_option ae_task (map_of (as_registry (agg_step ev sys)) key) = Some Finished"
proof -
  have "map_of (as_registry (agg_step ev sys)) key \<noteq> None"
    using agg_okD(2) [OF agg_step_ok [OF ok n, of ev], of key] held by auto
  with e show ?thesis
    by (cases ev) (auto simp: agg_subscribe_def agg_guard_drop_def agg_task_ends_def add_ref_def
        update_conv' delete_conv' Let_def split: option.splits if_splits sum.splits prod.splits)
qed

text \<open>C12: An aggregator whose task has returned is not replaced. From the moment its task ends, for as
  long as the key keeps a consumer, every further subscriber is handed the same dead entry,
  whatever the router would have answered: no bar will ever arrive.\<close>

theorem finished_aggregator_is_never_restarted:
  assumes "length evs + length later < 2 ^ 32"
    and "map_option ae_task (map_of (as_registry (agg_run evs)) key) = Some Finished"
    and "\<forall>k \<le> length later. 0 < agg_holders (agg_run (evs @ take k later)) key"
  shows "map_option ae_task (map_of (as_registry (agg_run (evs @ later))) key) = Some Finished"
  using assms(1,3)
proof (induction later rule: rev_induct)
  case Nil
  then show ?case using assms(2) by simp
next
  case (snoc ev later)
  have t: "take k (later @ [ev]) = take k later" if "k \<le> length later" for k using that by simp
  have "\<forall>k \<le> length later. 0 < agg_holders (agg_run (evs @ take k later)) key"
    using snoc.prems(2) t by (metis le_SucI length_append_singleton)
  with snoc have IH: "map_option ae_task (map_of (as_registry (agg_run (evs @ later))) key) = Some Finished"
    by simp
  have ok: "agg_ok (length (evs @ later)) (agg_run (evs @ later))"
    using snoc.prems(1) by (intro agg_run_ok) simp
  have s: "agg_run (evs @ later @ [ev]) = agg_step ev (agg_run (evs @ later))"
    using agg_run_snoc [of "evs @ later" ev] by simp
  have "0 < agg_holders (agg_step ev (agg_run (evs @ later))) key"
    using snoc.prems(2) [rule_format, of "length (later @ [ev])"] s by simp
  with finished_entry_step [OF ok _ IH] snoc.prems(1) s show ?case by simp
qed

section \<open>The theorems at work\<close>

definition example_symbol :: SymbolKey where
  "example_symbol = \<lparr> sk_contract_id = 1, sk_symbol = ''A'' \<rparr>"

definition dying_run :: "AggEvent list" where
  "dying_run = [AggSubscribe (Some (Ok ())) example_symbol M1, AggTaskEnds (example_symbol, M1)]"

definition late_subscriber :: "AggEvent list" where
  "late_subscriber = [AggSubscribe (Some (Ok ())) example_symbol M1]"

lemma aggregators_are_refcounted_witness:
  "agg_holders (agg_run dying_run) (example_symbol, M1) = 1
   \<and> map_of (as_registry (agg_run dying_run)) (example_symbol, M1) \<noteq> None"
proof -
  have "length dying_run < 2 ^ 32" by (simp add: dying_run_def)
  note aggregators_are_refcounted [OF this, of "(example_symbol, M1)"]
  moreover have "agg_holders (agg_run dying_run) (example_symbol, M1) = 1" by code_simp
  ultimately show ?thesis by simp
qed

lemma finished_aggregator_is_never_restarted_witness:
  "agg_holders (agg_run (dying_run @ late_subscriber)) (example_symbol, M1) = 2
   \<and> map_option ae_task (map_of (as_registry (agg_run (dying_run @ late_subscriber))) (example_symbol, M1))
     = Some Finished"
proof -
  have z: "map_option ae_task (map_of (as_registry (agg_run dying_run)) (example_symbol, M1)) = Some Finished"
    "agg_holders (agg_run (dying_run @ take 0 late_subscriber)) (example_symbol, M1) = 1"
    "agg_holders (agg_run (dying_run @ late_subscriber)) (example_symbol, M1) = 2" by code_simp+
  have "0 < agg_holders (agg_run (dying_run @ take k late_subscriber)) (example_symbol, M1)"
    if "k \<le> length late_subscriber" for k
  proof (cases "k = 0")
    case True
    with z(2) show ?thesis by simp
  next
    case False
    with that have "take k late_subscriber = late_subscriber" by (simp add: late_subscriber_def)
    with z(3) show ?thesis by simp
  qed
  moreover have "length dying_run + length late_subscriber < 2 ^ 32"
    by (simp add: dying_run_def late_subscriber_def)
  ultimately show ?thesis using finished_aggregator_is_never_restarted [OF _ z(1)] z(3) by blast
qed

end
