(* ===== verification/Market_Router.thy ===== *)
theory Market_Router imports Market_Hub "HOL-Library.AList" begin

text \<open>
  The control actor of the market-data router, \<open>crates/midas-market-data/src/router/actor.rs\<close>,
  with its state (\<open>state.rs\<close>), the handles and their guards (\<open>handle.rs\<close>) and the client calls
  that send to it (\<open>mod.rs\<close>). An \<open>Arc<SymbolHub>\<close> is an index into the list of all hubs ever
  made; the concurrent maps, whose order nothing depends on, are association lists. The provider
  is a parameter: what it answers, or that a call does not return within the deadline, may
  differ at every message.
\<close>

type_synonym HubId = nat

section \<open>State\<close>

record RouterState =
  rs_hubs :: "SymbolHub list"
  rs_per_symbol :: "(SymbolKey \<times> HubId) list"
  rs_contract_cache :: "(SymbolKey \<times> ContractDetails) list"
  rs_backlog :: u64
  rs_backlog_warned :: bool
  rs_previously_disconnected :: "SymbolKey list"

definition RouterState_new :: RouterState where
  "RouterState_new = \<lparr> rs_hubs = [], rs_per_symbol = [], rs_contract_cache = [], rs_backlog = 0,
     rs_backlog_warned = False, rs_previously_disconnected = [] \<rparr>"

definition hub_of :: "RouterState \<Rightarrow> SymbolKey \<Rightarrow> HubId option" where
  "hub_of st symbol = map_of (rs_per_symbol st) symbol"

definition update_hub :: "HubId \<Rightarrow> (SymbolHub \<Rightarrow> SymbolHub) \<Rightarrow> RouterState \<Rightarrow> RouterState" where
  "update_hub h f st = st\<lparr> rs_hubs := (rs_hubs st)[h := f (rs_hubs st ! h)] \<rparr>"

definition alloc_hub :: "SymbolHub \<Rightarrow> RouterState \<Rightarrow> HubId \<times> RouterState" where
  "alloc_hub hub st = (length (rs_hubs st), st\<lparr> rs_hubs := rs_hubs st @ [hub] \<rparr>)"

definition insert_hub :: "SymbolKey \<Rightarrow> HubId \<Rightarrow> RouterState \<Rightarrow> RouterState" where
  "insert_hub symbol h st = st\<lparr> rs_per_symbol := AList.update symbol h (rs_per_symbol st) \<rparr>"

definition remove_hub :: "SymbolKey \<Rightarrow> RouterState \<Rightarrow> RouterState" where
  "remove_hub symbol st = st\<lparr> rs_per_symbol := AList.delete symbol (rs_per_symbol st) \<rparr>"

section \<open>The provider\<close>

datatype 'a call_outcome = Answered "('a, MarketDataError) rust_result" | Elapsed

record MarketDataSource =
  src_resolve_contract :: "SymbolKey \<Rightarrow> SecurityType \<Rightarrow> string \<Rightarrow> ContractDetails call_outcome"
  src_subscribe_ticks :: "SymbolKey \<Rightarrow> i32 \<Rightarrow> unit call_outcome"
  src_subscribe_realtime_bars :: "SymbolKey \<Rightarrow> i32 \<Rightarrow> unit call_outcome"

definition with_op_timeout :: "string \<Rightarrow> 'a call_outcome \<Rightarrow> ('a, MarketDataError) rust_result" where
  "with_op_timeout label outcome = (case outcome of
     Answered r \<Rightarrow> r
   | Elapsed \<Rightarrow> Err (MdOther (''router: upstream '' @ label @ '' timed out after 10s'')))"

definition resolve_con_id ::
  "MarketDataSource \<Rightarrow> SymbolKey \<Rightarrow> RouterState \<Rightarrow> (i32, MarketDataError) rust_result \<times> RouterState" where
  "resolve_con_id src sk st = (case map_of (rs_contract_cache st) sk of
     Some c \<Rightarrow> (Ok (cd_contract_id c), st)
   | None \<Rightarrow>
       (case with_op_timeout ''resolve_contract'' (src_resolve_contract src sk Stock ''SMART'') of
          Inl e \<Rightarrow> (Err e, st)
        | Inr details \<Rightarrow> (Ok (cd_contract_id details),
            st\<lparr> rs_contract_cache := AList.update sk details (rs_contract_cache st) \<rparr>)))"

definition subscribe_ticks_upstream ::
  "MarketDataSource \<Rightarrow> SymbolKey \<Rightarrow> i32 \<Rightarrow> (unit, MarketDataError) rust_result" where
  "subscribe_ticks_upstream src symbol con_id =
     with_op_timeout ''subscribe_ticks'' (src_subscribe_ticks src symbol con_id)"

definition subscribe_rt_bars_upstream ::
  "MarketDataSource \<Rightarrow> SymbolKey \<Rightarrow> i32 \<Rightarrow> (unit, MarketDataError) rust_result" where
  "subscribe_rt_bars_upstream src symbol con_id =
     with_op_timeout ''subscribe_realtime_bars'' (src_subscribe_realtime_bars src symbol con_id)"

section \<open>Handles and messages\<close>

datatype DecKind = TickRef | RtBarRef | WatchRef

text \<open>
  What a client holds: receivers on the channels of one hub, and a guard that knows the symbol.
\<close>

record Handle =
  hd_hub :: HubId
  hd_kind :: DecKind
  hd_symbol :: SymbolKey

datatype RouterMsg =
    SubscribeTicks SymbolKey
  | SubscribeRtBars SymbolKey
  | OpenHubForWatch SymbolKey
  | DecTickRef SymbolKey
  | DecRtBarRef SymbolKey
  | DecWatchRef SymbolKey
  | DebugDump
  | UpstreamClosedMsg SymbolKey EndReason
  | Shutdown

text \<open>The message a dropped guard sends.\<close>

fun dec_msg :: "DecKind \<Rightarrow> SymbolKey \<Rightarrow> RouterMsg" where
  "dec_msg TickRef symbol = DecTickRef symbol"
| "dec_msg RtBarRef symbol = DecRtBarRef symbol"
| "dec_msg WatchRef symbol = DecWatchRef symbol"

fun refcount_of :: "DecKind \<Rightarrow> SymbolHub \<Rightarrow> u32" where
  "refcount_of TickRef hub = sh_tick_refcount hub"
| "refcount_of RtBarRef hub = sh_rt_bar_refcount hub"
| "refcount_of WatchRef hub = sh_watch_refcount hub"

fun set_refcount :: "DecKind \<Rightarrow> u32 \<Rightarrow> SymbolHub \<Rightarrow> SymbolHub" where
  "set_refcount TickRef n hub = hub\<lparr> sh_tick_refcount := n \<rparr>"
| "set_refcount RtBarRef n hub = hub\<lparr> sh_rt_bar_refcount := n \<rparr>"
| "set_refcount WatchRef n hub = hub\<lparr> sh_watch_refcount := n \<rparr>"

definition is_finished :: "PublisherTask \<Rightarrow> bool" where
  "is_finished t = (t = Finished)"

definition task_alive :: "PublisherTask option \<Rightarrow> bool" where
  "task_alive t = (case t of None \<Rightarrow> False | Some h \<Rightarrow> \<not> is_finished h)"

definition spawn_tick_publisher_on :: "SymbolHub \<Rightarrow> SymbolHub" where
  "spawn_tick_publisher_on hub = hub\<lparr> sh_tick_publisher_task := Some Running \<rparr>"

definition spawn_rt_bar_publisher_on :: "SymbolHub \<Rightarrow> SymbolHub" where
  "spawn_rt_bar_publisher_on hub = hub\<lparr> sh_rt_bar_publisher_task := Some Running \<rparr>"

definition abort_tick_publisher :: "SymbolHub \<Rightarrow> SymbolHub" where
  "abort_tick_publisher hub = hub\<lparr> sh_tick_publisher_task := None \<rparr>"

definition abort_rt_bar_publisher :: "SymbolHub \<Rightarrow> SymbolHub" where
  "abort_rt_bar_publisher hub = hub\<lparr> sh_rt_bar_publisher_task := None \<rparr>"

definition note_resubscribe_after_disconnect :: "SymbolKey \<Rightarrow> RouterState \<Rightarrow> RouterState" where
  "note_resubscribe_after_disconnect symbol st =
     st\<lparr> rs_previously_disconnected := removeAll symbol (rs_previously_disconnected st) \<rparr>"

section \<open>Subscribing\<close>

definition ensure_tick_publisher ::
  "MarketDataSource \<Rightarrow> HubId \<Rightarrow> RouterState \<Rightarrow> (unit, MarketDataError) rust_result \<times> RouterState" where
  "ensure_tick_publisher src h st =
    (let hub = rs_hubs st ! h in
     if task_alive (sh_tick_publisher_task hub) then (Ok (), st)
     else case resolve_con_id src (sh_symbol hub) st of
       (Inl e, st) \<Rightarrow> (Err e, st)
     | (Inr con_id, st) \<Rightarrow>
         (case subscribe_ticks_upstream src (sh_symbol hub) con_id of
            Inl e \<Rightarrow> (Err e, st)
          | Inr _ \<Rightarrow> (Ok (), update_hub h spawn_tick_publisher_on st)))"

definition inc_ref :: "DecKind \<Rightarrow> SymbolHub \<Rightarrow> SymbolHub" where
  "inc_ref kind hub = set_refcount kind (refcount_of kind hub + 1) hub"

text \<open>
  Ticks and the quote watch both need a tick publisher; they differ in the refcount they take
  and in the receiver of the handle. The first subscription of a symbol calls the provider before
  it makes anything.
\<close>

definition subscribe_tick_publisher ::
  "DecKind \<Rightarrow> MarketDataSource \<Rightarrow> SymbolKey \<Rightarrow> RouterState
     \<Rightarrow> (Handle, MarketDataError) rust_result \<times> RouterState" where
  "subscribe_tick_publisher kind src symbol st =
    (case hub_of st symbol of
       Some h \<Rightarrow>
         (case ensure_tick_publisher src h st of
            (Inl e, st) \<Rightarrow> (Err e, st)
          | (Inr _, st) \<Rightarrow> (Ok \<lparr> hd_hub = h, hd_kind = kind, hd_symbol = symbol \<rparr>,
                            update_hub h (inc_ref kind) st))
     | None \<Rightarrow>
         (case resolve_con_id src symbol st of
            (Inl e, st) \<Rightarrow> (Err e, st)
          | (Inr con_id, st) \<Rightarrow>
              (case subscribe_ticks_upstream src symbol con_id of
                 Inl e \<Rightarrow> (Err e, st)
               | Inr _ \<Rightarrow>
                   (case alloc_hub (spawn_tick_publisher_on
                       (set_refcount kind 1 (SymbolHub_new symbol))) st of
                      (h, st) \<Rightarrow> (Ok \<lparr> hd_hub = h, hd_kind = kind, hd_symbol = symbol \<rparr>,
                        note_resubscribe_after_disconnect symbol (insert_hub symbol h st))))))"

definition handle_subscribe_ticks ::
  "MarketDataSource \<Rightarrow> SymbolKey \<Rightarrow> RouterState \<Rightarrow> (Handle, MarketDataError) rust_result \<times> RouterState" where
  "handle_subscribe_ticks = subscribe_tick_publisher TickRef"

definition handle_open_hub_for_watch ::
  "MarketDataSource \<Rightarrow> SymbolKey \<Rightarrow> RouterState \<Rightarrow> (Handle, MarketDataError) rust_result \<times> RouterState" where
  "handle_open_hub_for_watch = subscribe_tick_publisher WatchRef"

definition handle_subscribe_rt_bars ::
  "MarketDataSource \<Rightarrow> SymbolKey \<Rightarrow> RouterState \<Rightarrow> (Handle, MarketDataError) rust_result \<times> RouterState" where
  "handle_subscribe_rt_bars src symbol st =
    (let handle = (\<lambda>h. \<lparr> hd_hub = h, hd_kind = RtBarRef, hd_symbol = symbol \<rparr>) in
     case hub_of st symbol of
       Some h \<Rightarrow>
         (if task_alive (sh_rt_bar_publisher_task (rs_hubs st ! h))
          then (Ok (handle h), update_hub h (\<lambda>hub. ensure_rt_bars_tx (inc_ref RtBarRef hub)) st)
          else case resolve_con_id src symbol st of
            (Inl e, st) \<Rightarrow> (Err e, st)
          | (Inr con_id, st) \<Rightarrow>
              (case subscribe_rt_bars_upstream src symbol con_id of
                 Inl e \<Rightarrow> (Err e, st)
               | Inr _ \<Rightarrow> (Ok (handle h), update_hub h (\<lambda>hub. ensure_rt_bars_tx (inc_ref RtBarRef
                   (spawn_rt_bar_publisher_on (ensure_rt_bars_tx hub)))) st)))
     | None \<Rightarrow>
         (case resolve_con_id src symbol st of
            (Inl e, st) \<Rightarrow> (Err e, st)
          | (Inr con_id, st) \<Rightarrow>
              (case subscribe_rt_bars_upstream src symbol con_id of
                 Inl e \<Rightarrow> (Err e, st)
               | Inr _ \<Rightarrow>
                   (case alloc_hub (spawn_rt_bar_publisher_on (ensure_rt_bars_tx
                       (set_refcount RtBarRef 1 (SymbolHub_new symbol)))) st of
                      (h, st) \<Rightarrow> (Ok (handle h),
                        note_resubscribe_after_disconnect symbol (insert_hub symbol h st))))))"

section \<open>Leaving\<close>

definition reap_tasks :: "SymbolHub \<Rightarrow> SymbolHub" where
  "reap_tasks hub =
    (let hub = (if sh_tick_refcount hub = 0 \<and> sh_watch_refcount hub = 0
                then abort_tick_publisher hub else hub)
     in if sh_rt_bar_refcount hub = 0 then abort_rt_bar_publisher hub else hub)"

definition maybe_reap :: "HubId \<Rightarrow> RouterState \<Rightarrow> RouterState" where
  "maybe_reap h st =
    (let hub = rs_hubs st ! h; st = update_hub h reap_tasks st in
     if sh_tick_refcount hub = 0 \<and> sh_watch_refcount hub = 0 \<and> sh_rt_bar_refcount hub = 0
     then remove_hub (sh_symbol hub) st else st)"

definition handle_dec_ref :: "SymbolKey \<Rightarrow> DecKind \<Rightarrow> RouterState \<Rightarrow> RouterState" where
  "handle_dec_ref symbol kind st = (case hub_of st symbol of
     None \<Rightarrow> st
   | Some h \<Rightarrow>
      (let prev = refcount_of kind (rs_hubs st ! h);
           st = update_hub h (set_refcount kind (prev - 1)) st
       in if prev = 0 then update_hub h (set_refcount kind 0) st
          else if prev = 1 then maybe_reap h st
          else st))"

definition handle_upstream_closed :: "SymbolKey \<Rightarrow> EndReason \<Rightarrow> RouterState \<Rightarrow> RouterState" where
  "handle_upstream_closed symbol reason st = (case hub_of st symbol of
     None \<Rightarrow> st
   | Some h \<Rightarrow>
      (let st = update_hub h (\<lambda>hub. hub\<lparr> sh_end_reason := Some reason \<rparr>) st;
           st = update_hub h (\<lambda>hub. abort_rt_bar_publisher (abort_tick_publisher hub)) st;
           st = remove_hub symbol st
       in st\<lparr> rs_previously_disconnected := List.insert symbol (rs_previously_disconnected st) \<rparr>))"

definition abort_all_publishers :: "RouterState \<Rightarrow> RouterState" where
  "abort_all_publishers st =
    (fold (\<lambda>(_, h). update_hub h (\<lambda>hub. abort_rt_bar_publisher (abort_tick_publisher hub)))
       (rs_per_symbol st) st)\<lparr> rs_per_symbol := [] \<rparr>"

record SymbolDebugInfo =
  di_symbol :: SymbolKey
  di_tick_refcount :: u32
  di_rt_bar_refcount :: u32
  di_watch_refcount :: u32
  di_last_tick_ts_ms :: i64
  di_tick_publisher_alive :: bool
  di_rt_bar_publisher_alive :: bool

definition collect_debug_dump :: "RouterState \<Rightarrow> SymbolDebugInfo list" where
  "collect_debug_dump st = map (\<lambda>(_, h). let hub = rs_hubs st ! h in
     \<lparr> di_symbol = sh_symbol hub, di_tick_refcount = sh_tick_refcount hub,
       di_rt_bar_refcount = sh_rt_bar_refcount hub, di_watch_refcount = sh_watch_refcount hub,
       di_last_tick_ts_ms = sh_last_tick_ts hub,
       di_tick_publisher_alive = task_alive (sh_tick_publisher_task hub),
       di_rt_bar_publisher_alive = task_alive (sh_rt_bar_publisher_task hub) \<rparr>) (rs_per_symbol st)"

section \<open>The mailbox\<close>

definition ROUTER_BACKLOG_WARN :: u64 where "ROUTER_BACKLOG_WARN = 1000"

definition bump_backlog :: "RouterState \<Rightarrow> RouterState" where
  "bump_backlog st = (let depth = rs_backlog st + 1 in
     st\<lparr> rs_backlog := depth,
         rs_backlog_warned := rs_backlog_warned st \<or> depth \<ge> ROUTER_BACKLOG_WARN \<rparr>)"

definition drop_backlog :: "RouterState \<Rightarrow> RouterState" where
  "drop_backlog st = st\<lparr> rs_backlog := rs_backlog st - 1 \<rparr>"

text \<open>
  The router with its clients: the actor's state, the messages on their way to it, the handles
  that are alive, and whether the actor still runs.
\<close>

record Router =
  rt_state :: RouterState
  rt_mailbox :: "RouterMsg list"
  rt_handles :: "Handle list"
  rt_running :: bool

definition Router_new :: Router where
  "Router_new = \<lparr> rt_state = RouterState_new, rt_mailbox = [], rt_handles = [], rt_running = True \<rparr>"

text \<open>\<open>send_control\<close> and \<open>GuardCtrl::send_msg\<close>: the bump is undone when the actor is gone.\<close>

definition send_control :: "RouterMsg \<Rightarrow> Router \<Rightarrow> Router" where
  "send_control msg rt =
    (let rt = rt\<lparr> rt_state := bump_backlog (rt_state rt) \<rparr> in
     if rt_running rt then rt\<lparr> rt_mailbox := rt_mailbox rt @ [msg] \<rparr>
     else rt\<lparr> rt_state := drop_backlog (rt_state rt) \<rparr>)"

text \<open>
  A reply that arrives makes the handle the client's; one nobody waits for any more drops it,
  and its guard with it.
\<close>

definition drop_guard :: "Handle \<Rightarrow> Router \<Rightarrow> Router" where
  "drop_guard held rt = send_control (dec_msg (hd_kind held) (hd_symbol held)) rt"

definition reply :: "bool \<Rightarrow> (Handle, MarketDataError) rust_result \<times> RouterState \<Rightarrow> Router \<Rightarrow> Router" where
  "reply waiting = (\<lambda>(r, st) rt. let rt = rt\<lparr> rt_state := st \<rparr> in case r of
     Inl e \<Rightarrow> rt
   | Inr held \<Rightarrow> (if waiting then rt\<lparr> rt_handles := rt_handles rt @ [held] \<rparr> else drop_guard held rt))"

fun actor_step :: "MarketDataSource \<Rightarrow> bool \<Rightarrow> RouterMsg \<Rightarrow> Router \<Rightarrow> Router" where
  "actor_step src waiting (SubscribeTicks symbol) rt =
     reply waiting (handle_subscribe_ticks src symbol (rt_state rt)) rt"
| "actor_step src waiting (SubscribeRtBars symbol) rt =
     reply waiting (handle_subscribe_rt_bars src symbol (rt_state rt)) rt"
| "actor_step src waiting (OpenHubForWatch symbol) rt =
     reply waiting (handle_open_hub_for_watch src symbol (rt_state rt)) rt"
| "actor_step src waiting (DecTickRef symbol) rt =
     rt\<lparr> rt_state := handle_dec_ref symbol TickRef (rt_state rt) \<rparr>"
| "actor_step src waiting (DecRtBarRef symbol) rt =
     rt\<lparr> rt_state := handle_dec_ref symbol RtBarRef (rt_state rt) \<rparr>"
| "actor_step src waiting (DecWatchRef symbol) rt =
     rt\<lparr> rt_state := handle_dec_ref symbol WatchRef (rt_state rt) \<rparr>"
| "actor_step src waiting DebugDump rt = rt"
| "actor_step src waiting (UpstreamClosedMsg symbol reason) rt =
     rt\<lparr> rt_state := handle_upstream_closed symbol reason (rt_state rt) \<rparr>"
| "actor_step src waiting Shutdown rt =
     rt\<lparr> rt_state := abort_all_publishers (abort_all_publishers (rt_state rt)), rt_mailbox := [],
         rt_running := False \<rparr>"

text \<open>One message of the actor's loop.\<close>

definition run_control_actor :: "MarketDataSource \<Rightarrow> bool \<Rightarrow> Router \<Rightarrow> Router" where
  "run_control_actor src waiting rt = (case rt_mailbox rt of
     [] \<Rightarrow> rt
   | msg # rest \<Rightarrow> actor_step src waiting msg
       (rt\<lparr> rt_mailbox := rest, rt_state := drop_backlog (rt_state rt) \<rparr>))"

section \<open>Events\<close>

text \<open>
  What happens around the router, in any order: a client calls, the actor handles the next
  message, a client drops its \<open>i\<close>-th handle, a publisher task ends by itself, the router is
  dropped. A publisher leaves by itself only while it runs, and by auto-exit only while its
  channels have no receivers.
\<close>

datatype RouterEvent =
    SubscribeCall DecKind SymbolKey
  | DumpCall
  | Deliver MarketDataSource bool
  | DropHandle nat
  | TickPublisherExits HubId
  | TickUpstreamCloses HubId
  | RtBarPublisherExits HubId
  | RtBarUpstreamCloses HubId
  | RouterDropped

fun subscribe_msg :: "DecKind \<Rightarrow> SymbolKey \<Rightarrow> RouterMsg" where
  "subscribe_msg TickRef symbol = SubscribeTicks symbol"
| "subscribe_msg RtBarRef symbol = SubscribeRtBars symbol"
| "subscribe_msg WatchRef symbol = OpenHubForWatch symbol"

definition receivers :: "HubId \<Rightarrow> DecKind \<Rightarrow> Router \<Rightarrow> nat" where
  "receivers h kind rt = length (filter (\<lambda>held. hd_hub held = h \<and> hd_kind held = kind) (rt_handles rt))"

definition hub_at :: "HubId \<Rightarrow> Router \<Rightarrow> SymbolHub option" where
  "hub_at h rt = (if h < length (rs_hubs (rt_state rt)) then Some (rs_hubs (rt_state rt) ! h) else None)"

definition finish_tick :: "SymbolHub \<Rightarrow> SymbolHub" where
  "finish_tick hub = hub\<lparr> sh_tick_publisher_task := Some Finished \<rparr>"

definition finish_rt_bar :: "SymbolHub \<Rightarrow> SymbolHub" where
  "finish_rt_bar hub = hub\<lparr> sh_rt_bar_publisher_task := Some Finished \<rparr>"

definition notify_upstream_closed :: "HubId \<Rightarrow> EndReason \<Rightarrow> Router \<Rightarrow> Router" where
  "notify_upstream_closed h reason rt =
     send_control (UpstreamClosedMsg (sh_symbol (rs_hubs (rt_state rt) ! h)) reason) rt"

fun router_step :: "RouterEvent \<Rightarrow> Router \<Rightarrow> Router" where
  "router_step (SubscribeCall kind symbol) rt = send_control (subscribe_msg kind symbol) rt"
| "router_step DumpCall rt = send_control DebugDump rt"
| "router_step (Deliver src waiting) rt = run_control_actor src waiting rt"
| "router_step (DropHandle i) rt =
     (if i < length (rt_handles rt)
      then drop_guard (rt_handles rt ! i)
        (rt\<lparr> rt_handles := take i (rt_handles rt) @ drop (Suc i) (rt_handles rt) \<rparr>)
      else rt)"
| "router_step (TickPublisherExits h) rt = (case hub_at h rt of
     Some hub \<Rightarrow> (if task_alive (sh_tick_publisher_task hub)
                     \<and> receivers h TickRef rt = 0 \<and> receivers h WatchRef rt = 0
                  then rt\<lparr> rt_state := update_hub h finish_tick (rt_state rt) \<rparr> else rt)
   | None \<Rightarrow> rt)"
| "router_step (TickUpstreamCloses h) rt = (case hub_at h rt of
     Some hub \<Rightarrow> (if task_alive (sh_tick_publisher_task hub)
                  then notify_upstream_closed h DisconnectedEnd
                    (rt\<lparr> rt_state := update_hub h finish_tick (rt_state rt) \<rparr>) else rt)
   | None \<Rightarrow> rt)"
| "router_step (RtBarPublisherExits h) rt = (case hub_at h rt of
     Some hub \<Rightarrow> (if task_alive (sh_rt_bar_publisher_task hub) \<and> receivers h RtBarRef rt = 0
                  then rt\<lparr> rt_state := update_hub h finish_rt_bar (rt_state rt) \<rparr> else rt)
   | None \<Rightarrow> rt)"
| "router_step (RtBarUpstreamCloses h) rt = (case hub_at h rt of
     Some hub \<Rightarrow> (if task_alive (sh_rt_bar_publisher_task hub)
                  then notify_upstream_closed h DisconnectedEnd
                    (rt\<lparr> rt_state := update_hub h finish_rt_bar (rt_state rt) \<rparr>) else rt)
   | None \<Rightarrow> rt)"
| "router_step RouterDropped rt = send_control Shutdown rt"

definition router_run :: "RouterEvent list \<Rightarrow> Router" where
  "router_run evs = fold router_step evs Router_new"

end
