(* ===== verification/Market_Router_Facts.thy ===== *)
theory Market_Router_Facts imports Market_Router begin

text \<open>
  What the router's handlers do, seen through three views of the state: the hub a symbol maps to,
  the refcounts of a hub, and which of its publishers run. Each handler is one of three moves: a
  consumer joins a hub, a consumer leaves a hub, a hub is torn down. The invariants are kept move
  by move.
\<close>

section \<open>Views\<close>

fun publisher_task :: "DecKind \<Rightarrow> SymbolHub \<Rightarrow> PublisherTask option" where
  "publisher_task TickRef hub = sh_tick_publisher_task hub"
| "publisher_task WatchRef hub = sh_tick_publisher_task hub"
| "publisher_task RtBarRef hub = sh_rt_bar_publisher_task hub"

definition publishing :: "DecKind \<Rightarrow> SymbolHub \<Rightarrow> bool" where
  "publishing kind hub = task_alive (publisher_task kind hub)"

lemma task_alive_simps [simp]:
  "\<not> task_alive None" "task_alive (Some Running)" "\<not> task_alive (Some Finished)"
  by (simp_all add: task_alive_def is_finished_def)

lemma refcount_set [simp]:
  "refcount_of k (set_refcount k' n hub) = (if k = k' then n else refcount_of k hub)"
  "sh_symbol (set_refcount k' n hub) = sh_symbol hub"
  "publishing k (set_refcount k' n hub) = publishing k hub"
  by (cases k; cases k'; simp add: publishing_def)+

lemma refcount_more [simp]:
  "refcount_of k (spawn_tick_publisher_on hub) = refcount_of k hub"
  "refcount_of k (spawn_rt_bar_publisher_on hub) = refcount_of k hub"
  "refcount_of k (abort_tick_publisher hub) = refcount_of k hub"
  "refcount_of k (abort_rt_bar_publisher hub) = refcount_of k hub"
  "refcount_of k (ensure_rt_bars_tx hub) = refcount_of k hub"
  "refcount_of k (finish_tick hub) = refcount_of k hub"
  "refcount_of k (finish_rt_bar hub) = refcount_of k hub"
  "refcount_of k (hub\<lparr> sh_end_reason := r \<rparr>) = refcount_of k hub"
  "refcount_of k (SymbolHub_new symbol) = 0"
  by (cases k; simp add: spawn_tick_publisher_on_def spawn_rt_bar_publisher_on_def
      abort_tick_publisher_def abort_rt_bar_publisher_def ensure_rt_bars_tx_def finish_tick_def
      finish_rt_bar_def SymbolHub_new_def)+

lemma symbol_more [simp]:
  "sh_symbol (spawn_tick_publisher_on hub) = sh_symbol hub"
  "sh_symbol (spawn_rt_bar_publisher_on hub) = sh_symbol hub"
  "sh_symbol (abort_tick_publisher hub) = sh_symbol hub"
  "sh_symbol (abort_rt_bar_publisher hub) = sh_symbol hub"
  "sh_symbol (ensure_rt_bars_tx hub) = sh_symbol hub"
  "sh_symbol (finish_tick hub) = sh_symbol hub"
  "sh_symbol (finish_rt_bar hub) = sh_symbol hub"
  "sh_symbol (SymbolHub_new symbol) = symbol"
  by (simp_all add: spawn_tick_publisher_on_def spawn_rt_bar_publisher_on_def
      abort_tick_publisher_def abort_rt_bar_publisher_def ensure_rt_bars_tx_def finish_tick_def
      finish_rt_bar_def SymbolHub_new_def)

lemma publishing_more [simp]:
  "publishing k (spawn_tick_publisher_on hub) = (k \<noteq> RtBarRef \<or> publishing k hub)"
  "publishing k (spawn_rt_bar_publisher_on hub) = (k = RtBarRef \<or> publishing k hub)"
  "publishing k (abort_tick_publisher hub) = (k = RtBarRef \<and> publishing k hub)"
  "publishing k (abort_rt_bar_publisher hub) = (k \<noteq> RtBarRef \<and> publishing k hub)"
  "publishing k (ensure_rt_bars_tx hub) = publishing k hub"
  "publishing k (finish_tick hub) = (k = RtBarRef \<and> publishing k hub)"
  "publishing k (finish_rt_bar hub) = (k \<noteq> RtBarRef \<and> publishing k hub)"
  "publishing k (hub\<lparr> sh_end_reason := r \<rparr>) = publishing k hub"
  "\<not> publishing k (SymbolHub_new symbol)"
  by (cases k; simp add: publishing_def spawn_tick_publisher_on_def spawn_rt_bar_publisher_on_def
      abort_tick_publisher_def abort_rt_bar_publisher_def ensure_rt_bars_tx_def finish_tick_def
      finish_rt_bar_def SymbolHub_new_def)+

lemma hub_of_insert [simp]: "hub_of (insert_hub s h st) = (hub_of st)(s \<mapsto> h)"
  by (rule ext) (simp add: hub_of_def insert_hub_def update_conv')

lemma hub_of_remove [simp]: "hub_of (remove_hub s st) = (hub_of st)(s := None)"
  by (rule ext) (simp add: hub_of_def remove_hub_def delete_conv')

lemma hub_of_frame [simp]:
  "hub_of (update_hub h f st) = hub_of st"
  "hub_of (st\<lparr> rs_hubs := hs \<rparr>) = hub_of st"
  "hub_of (st\<lparr> rs_contract_cache := c \<rparr>) = hub_of st"
  "hub_of (st\<lparr> rs_backlog := b \<rparr>) = hub_of st"
  "hub_of (st\<lparr> rs_backlog_warned := w \<rparr>) = hub_of st"
  "hub_of (st\<lparr> rs_backlog := b, rs_backlog_warned := w \<rparr>) = hub_of st"
  "hub_of (st\<lparr> rs_previously_disconnected := d \<rparr>) = hub_of st"
  "hub_of (note_resubscribe_after_disconnect s st) = hub_of st"
  by (auto simp: hub_of_def update_hub_def note_resubscribe_after_disconnect_def)

lemma hubs_frame [simp]:
  "rs_hubs (update_hub h f st) = (rs_hubs st)[h := f (rs_hubs st ! h)]"
  "rs_hubs (insert_hub s h st) = rs_hubs st"
  "rs_hubs (remove_hub s st) = rs_hubs st"
  "rs_hubs (note_resubscribe_after_disconnect s st) = rs_hubs st"
  by (simp_all add: update_hub_def insert_hub_def remove_hub_def
      note_resubscribe_after_disconnect_def)

lemma backlog_frame [simp]:
  "rs_backlog (update_hub h f st) = rs_backlog st"
  "rs_backlog (insert_hub s h st) = rs_backlog st"
  "rs_backlog (remove_hub s st) = rs_backlog st"
  "rs_backlog (note_resubscribe_after_disconnect s st) = rs_backlog st"
  by (simp_all add: update_hub_def insert_hub_def remove_hub_def
      note_resubscribe_after_disconnect_def)

section \<open>Joining\<close>

text \<open>\<open>hub'\<close> is \<open>hub\<close> with one more consumer of a kind, and its publisher runs.\<close>

definition joined :: "DecKind \<Rightarrow> SymbolHub \<Rightarrow> SymbolHub \<Rightarrow> bool" where
  "joined kind hub hub' = (sh_symbol hub' = sh_symbol hub \<and> publishing kind hub'
     \<and> (\<forall>k. refcount_of k hub' = refcount_of k hub + (if k = kind then 1 else 0))
     \<and> (\<forall>k. publishing k hub \<longrightarrow> publishing k hub'))"

lemma joined_refcount: "joined kind hub hub' \<Longrightarrow> refcount_of kind hub' = refcount_of kind hub + 1"
  by (simp add: joined_def)

definition joins :: "DecKind \<Rightarrow> SymbolKey \<Rightarrow> HubId \<Rightarrow> RouterState \<Rightarrow> RouterState \<Rightarrow> bool" where
  "joins kind s h st st' = (case hub_of st s of
     Some h' \<Rightarrow> h = h' \<and> hub_of st' = hub_of st
       \<and> (\<exists>hub'. joined kind (rs_hubs st ! h) hub' \<and> rs_hubs st' = (rs_hubs st)[h := hub'])
   | None \<Rightarrow> h = length (rs_hubs st) \<and> hub_of st' = (hub_of st)(s \<mapsto> h)
       \<and> (\<exists>hub'. joined kind (SymbolHub_new s) hub' \<and> rs_hubs st' = rs_hubs st @ [hub']))"

text \<open>A state that differs at most in the contract cache.\<close>

definition cache_only :: "RouterState \<Rightarrow> RouterState \<Rightarrow> bool" where
  "cache_only st st' = (\<exists>c. st' = st\<lparr> rs_contract_cache := c \<rparr>)"

lemma cache_only_refl: "cache_only st st"
  by (metis RouterState.surjective RouterState.update_convs(3) cache_only_def)

lemma cache_onlyD:
  "cache_only st st' \<Longrightarrow> rs_hubs st' = rs_hubs st \<and> hub_of st' = hub_of st
     \<and> rs_backlog st' = rs_backlog st \<and> rs_per_symbol st' = rs_per_symbol st"
  by (auto simp: cache_only_def)

lemma resolve_cache_only: "resolve_con_id src s st = (r, st') \<Longrightarrow> cache_only st st'"
  by (auto simp: resolve_con_id_def cache_only_refl split: option.splits sum.splits)
     (auto simp: cache_only_def)

lemma joined_tick:
  "kind \<noteq> RtBarRef \<Longrightarrow> joined kind hub (inc_ref kind (spawn_tick_publisher_on hub))"
  "kind \<noteq> RtBarRef \<Longrightarrow> publishing kind hub \<Longrightarrow> joined kind hub (inc_ref kind hub)"
  "kind \<noteq> RtBarRef \<Longrightarrow>
     joined kind (SymbolHub_new s) (spawn_tick_publisher_on (set_refcount kind 1 (SymbolHub_new s)))"
  by (simp_all add: joined_def inc_ref_def)

lemma joined_rt_bar:
  "joined RtBarRef hub
     (ensure_rt_bars_tx (inc_ref RtBarRef (spawn_rt_bar_publisher_on (ensure_rt_bars_tx hub))))"
  "publishing RtBarRef hub \<Longrightarrow> joined RtBarRef hub (ensure_rt_bars_tx (inc_ref RtBarRef hub))"
  "joined RtBarRef (SymbolHub_new s)
     (spawn_rt_bar_publisher_on (ensure_rt_bars_tx (set_refcount RtBarRef 1 (SymbolHub_new s))))"
  by (simp_all add: joined_def inc_ref_def del: set_refcount.simps refcount_of.simps)

fun subscribe_handler :: "DecKind \<Rightarrow> MarketDataSource \<Rightarrow> SymbolKey \<Rightarrow> RouterState
     \<Rightarrow> (Handle, MarketDataError) rust_result \<times> RouterState" where
  "subscribe_handler TickRef = handle_subscribe_ticks"
| "subscribe_handler WatchRef = handle_open_hub_for_watch"
| "subscribe_handler RtBarRef = handle_subscribe_rt_bars"

lemma subscribe_err:
  assumes "subscribe_handler kind src s st = (Err e, st')"
  shows "cache_only st st'"
proof (cases kind)
  case RtBarRef
  with assms show ?thesis
    by (auto simp: handle_subscribe_rt_bars_def alloc_hub_def Let_def cache_only_refl
        dest: resolve_cache_only split: option.splits if_splits sum.splits prod.splits)
qed (use assms in \<open>auto simp: handle_subscribe_ticks_def handle_open_hub_for_watch_def
        subscribe_tick_publisher_def ensure_tick_publisher_def alloc_hub_def Let_def cache_only_refl
        dest: resolve_cache_only split: option.splits if_splits sum.splits prod.splits\<close>)

lemma ensure_ok:
  assumes "ensure_tick_publisher src h st = (Ok (), st')"
  obtains (runs) "publishing TickRef (rs_hubs st ! h)" "st' = st"
  | (spawned) st1 where "cache_only st st1" "st' = update_hub h spawn_tick_publisher_on st1"
proof (cases "publishing TickRef (rs_hubs st ! h)")
  case True
  with assms show ?thesis by (intro runs) (auto simp: ensure_tick_publisher_def publishing_def)
next
  case False
  obtain r st1 where r: "resolve_con_id src (sh_symbol (rs_hubs st ! h)) st = (r, st1)"
    by (cases "resolve_con_id src (sh_symbol (rs_hubs st ! h)) st")
  with assms False have "st' = update_hub h spawn_tick_publisher_on st1"
    by (auto simp: ensure_tick_publisher_def publishing_def Let_def split: sum.splits)
  with resolve_cache_only [OF r] show ?thesis by (rule spawned)
qed

lemma publishing_watch [simp]: "publishing WatchRef hub = publishing TickRef hub"
  by (simp add: publishing_def)

lemma subscribe_tick_joins:
  assumes "subscribe_tick_publisher kind src s st = (Ok held, st')" "kind \<noteq> RtBarRef"
    and mapped: "\<And>h. hub_of st s = Some h \<Longrightarrow> h < length (rs_hubs st)"
  shows "held = \<lparr> hd_hub = hd_hub held, hd_kind = kind, hd_symbol = s \<rparr>
     \<and> joins kind s (hd_hub held) st st' \<and> rs_backlog st' = rs_backlog st"
proof (cases "hub_of st s")
  case None
  obtain r st1 where r: "resolve_con_id src s st = (r, st1)" by (cases "resolve_con_id src s st")
  note frame = cache_onlyD [OF resolve_cache_only [OF r]]
  from assms(1) None r frame joined_tick(3) [OF assms(2)] show ?thesis
    by (auto simp: subscribe_tick_publisher_def alloc_hub_def joins_def split: sum.splits)
next
  case (Some h)
  obtain st1 where e: "ensure_tick_publisher src h st = (Ok (), st1)"
    and held: "held = \<lparr> hd_hub = h, hd_kind = kind, hd_symbol = s \<rparr>"
    and st': "st' = update_hub h (inc_ref kind) st1"
    using assms(1) Some by (auto simp: subscribe_tick_publisher_def split: sum.splits prod.splits)
  have pub: "publishing kind = publishing TickRef" using assms(2) by (cases kind) (auto simp: fun_eq_iff)
  from e show ?thesis
  proof (cases rule: ensure_ok)
    case runs
    with held st' Some joined_tick(2) [OF assms(2)] pub show ?thesis
      by (auto simp: joins_def)
  next
    case (spawned st2)
    with cache_onlyD [OF spawned(1)] held st' Some joined_tick(1) [OF assms(2)] mapped [OF Some]
    show ?thesis by (auto simp: joins_def)
  qed
qed

lemma subscribe_rt_joins:
  assumes "handle_subscribe_rt_bars src s st = (Ok held, st')"
    and mapped: "\<And>h. hub_of st s = Some h \<Longrightarrow> h < length (rs_hubs st)"
  shows "held = \<lparr> hd_hub = hd_hub held, hd_kind = RtBarRef, hd_symbol = s \<rparr>
     \<and> joins RtBarRef s (hd_hub held) st st' \<and> rs_backlog st' = rs_backlog st"
proof -
  obtain r st1 where r: "resolve_con_id src s st = (r, st1)" by (cases "resolve_con_id src s st")
  note frame = cache_onlyD [OF resolve_cache_only [OF r]]
  show ?thesis
  proof (cases "hub_of st s")
    case None
    with assms(1) r frame joined_rt_bar(3) show ?thesis
      by (auto simp: handle_subscribe_rt_bars_def alloc_hub_def joins_def Let_def split: sum.splits)
  next
    case (Some h)
    show ?thesis
    proof (cases "publishing RtBarRef (rs_hubs st ! h)")
      case True
      with assms(1) Some joined_rt_bar(2) [OF True] show ?thesis
        by (auto simp: handle_subscribe_rt_bars_def joins_def Let_def publishing_def)
    next
      case False
      with assms(1) Some r frame joined_rt_bar(1) [of "rs_hubs st ! h"] mapped [OF Some] show ?thesis
        by (auto simp: handle_subscribe_rt_bars_def joins_def Let_def publishing_def split: sum.splits)
    qed
  qed
qed

lemma subscribe_ok:
  assumes "subscribe_handler kind src s st = (Ok held, st')"
    and mapped: "\<And>h. hub_of st s = Some h \<Longrightarrow> h < length (rs_hubs st)"
  shows "held = \<lparr> hd_hub = hd_hub held, hd_kind = kind, hd_symbol = s \<rparr>
     \<and> joins kind s (hd_hub held) st st' \<and> rs_backlog st' = rs_backlog st"
  using assms subscribe_tick_joins subscribe_rt_joins
  by (cases kind) (auto simp: handle_subscribe_ticks_def handle_open_hub_for_watch_def)

section \<open>The invariants of the state\<close>

text \<open>
  Every mapped hub exists, serves its symbol and has a consumer counted; only mapped hubs have
  running publishers.
\<close>

definition state_ok :: "RouterState \<Rightarrow> bool" where
  "state_ok st = ((\<forall>s h. hub_of st s = Some h \<longrightarrow> h < length (rs_hubs st)
        \<and> sh_symbol (rs_hubs st ! h) = s \<and> (\<exists>k. refcount_of k (rs_hubs st ! h) \<noteq> 0))
     \<and> (\<forall>h < length (rs_hubs st). \<forall>k. publishing k (rs_hubs st ! h)
          \<longrightarrow> hub_of st (sh_symbol (rs_hubs st ! h)) = Some h))"

text \<open>\<open>H k s\<close> bounds, or is, the number of consumers of a kind that a symbol has.\<close>

definition counted :: "(DecKind \<Rightarrow> SymbolKey \<Rightarrow> nat) \<Rightarrow> RouterState \<Rightarrow> bool" where
  "counted H st = (\<forall>s h k. hub_of st s = Some h \<longrightarrow> unat (refcount_of k (rs_hubs st ! h)) \<le> H k s)"

definition exactly_counted :: "(DecKind \<Rightarrow> SymbolKey \<Rightarrow> nat) \<Rightarrow> RouterState \<Rightarrow> bool" where
  "exactly_counted H st = (\<forall>s k. H k s = (case hub_of st s of
     None \<Rightarrow> 0 | Some h \<Rightarrow> unat (refcount_of k (rs_hubs st ! h))))"

text \<open>The handle's hub is the one its symbol maps to, and the hub's publisher runs.\<close>

definition served :: "RouterState \<Rightarrow> Handle \<Rightarrow> bool" where
  "served st held = (hub_of st (hd_symbol held) = Some (hd_hub held)
     \<and> publishing (hd_kind held) (rs_hubs st ! hd_hub held))"

lemma state_okD:
  "state_ok st \<Longrightarrow> hub_of st s = Some h \<Longrightarrow> h < length (rs_hubs st) \<and> sh_symbol (rs_hubs st ! h) = s
     \<and> (\<exists>k. refcount_of k (rs_hubs st ! h) \<noteq> 0)"
  "state_ok st \<Longrightarrow> h < length (rs_hubs st) \<Longrightarrow> publishing k (rs_hubs st ! h) \<Longrightarrow>
     hub_of st (sh_symbol (rs_hubs st ! h)) = Some h"
  by (auto simp: state_ok_def)

lemma same_view:
  assumes "rs_hubs st' = rs_hubs st" "hub_of st' = hub_of st"
  shows "state_ok st' = state_ok st" "counted H st' = counted H st"
    "exactly_counted H st' = exactly_counted H st" "served st' held = served st held"
  by (simp_all add: state_ok_def counted_def exactly_counted_def served_def assms cong: option.case_cong)

text \<open>One change of a hub in place.\<close>

lemma state_ok_update:
  assumes "state_ok st" "hub_of st s = Some h"
    and "rs_hubs st' = (rs_hubs st)[h := hub']" "hub_of st' = hub_of st"
    and "sh_symbol hub' = s" "\<exists>k. refcount_of k hub' \<noteq> 0"
  shows "state_ok st'"
proof -
  note h = state_okD(1) [OF assms(1,2)]
  have "hub_of st' (sh_symbol (rs_hubs st' ! i)) = Some i"
    if "i < length (rs_hubs st')" "publishing k (rs_hubs st' ! i)" for i k
    using that assms(2-5) h state_okD(2) [OF assms(1), of i k]
    by (cases "i = h") (auto simp: nth_list_update)
  moreover have "i < length (rs_hubs st') \<and> sh_symbol (rs_hubs st' ! i) = t
      \<and> (\<exists>k. refcount_of k (rs_hubs st' ! i) \<noteq> 0)" if "hub_of st' t = Some i" for t i
    using that assms(2-6) h state_okD(1) [OF assms(1), of t i]
    by (cases "i = h") (auto simp: nth_list_update)
  ultimately show ?thesis by (auto simp: state_ok_def)
qed

lemma joins_hub:
  assumes "joins kind s h st st'" "state_ok st"
  obtains (old) hub' where "hub_of st s = Some h" "hub_of st' = hub_of st"
      "joined kind (rs_hubs st ! h) hub'" "rs_hubs st' = (rs_hubs st)[h := hub']"
      "h < length (rs_hubs st)" "sh_symbol hub' = s"
  | (new) hub' where "hub_of st s = None" "h = length (rs_hubs st)"
      "hub_of st' = (hub_of st)(s \<mapsto> h)" "joined kind (SymbolHub_new s) hub'"
      "rs_hubs st' = rs_hubs st @ [hub']" "sh_symbol hub' = s"
proof (cases "hub_of st s")
  case None
  with assms(1) that(2) show ?thesis by (auto simp: joins_def joined_def)
next
  case (Some h')
  with assms(1) that(1) state_okD(1) [OF assms(2) Some] show ?thesis
    by (auto simp: joins_def joined_def)
qed

lemma joins_frame:
  assumes "joins kind s h st st'" "state_ok st"
  shows "hub_of st' s = Some h" "h < length (rs_hubs st')" "publishing kind (rs_hubs st' ! h)"
    "\<And>t. t \<noteq> s \<Longrightarrow> hub_of st' t = hub_of st t"
    "\<And>i. i < length (rs_hubs st) \<Longrightarrow> i \<noteq> h \<Longrightarrow> rs_hubs st' ! i = rs_hubs st ! i"
    "\<And>k. refcount_of k (rs_hubs st' ! h) = (case hub_of st s of
        None \<Rightarrow> 0 | Some i \<Rightarrow> refcount_of k (rs_hubs st ! i)) + (if k = kind then 1 else 0)"
    "\<And>i k. i < length (rs_hubs st) \<Longrightarrow> publishing k (rs_hubs st ! i) \<Longrightarrow> publishing k (rs_hubs st' ! i)"
    "length (rs_hubs st) \<le> length (rs_hubs st')"
    "\<And>i. i < length (rs_hubs st) \<Longrightarrow> sh_symbol (rs_hubs st' ! i) = sh_symbol (rs_hubs st ! i)"
    "sh_symbol (rs_hubs st' ! h) = s"
  using assms
  by (auto elim!: joins_hub simp: joined_def nth_append nth_list_update)

lemma joins_state_ok:
  assumes j: "joins kind s h st st'" and ok: "state_ok st" and H: "counted H st"
    and small: "H kind s + 1 < 2 ^ 32"
  shows "state_ok st'"
  using j ok
proof (cases rule: joins_hub)
  case (old hub')
  have "unat (refcount_of kind (rs_hubs st ! h)) + 1 < 2 ^ 32"
    using H [unfolded counted_def, rule_format, OF old(1), of kind] small by simp
  then have "refcount_of kind (rs_hubs st ! h) + 1 \<noteq> 0" by (rule unat_Suc_nonzero)
  then have "refcount_of kind hub' \<noteq> 0" by (simp only: joined_refcount [OF old(3)] not_False_eq_True)
  then have "\<exists>k. refcount_of k hub' \<noteq> 0" by (rule exI)
  then show ?thesis by (rule state_ok_update [OF ok old(1) old(4) old(2) old(6)])
next
  case (new hub')
  have fresh: "i \<noteq> h" if "hub_of st t = Some i" for t i
    using state_okD(1) [OF ok that] new(2) by simp
  have "refcount_of kind hub' \<noteq> 0" using new(4) by (simp add: joined_def)
  moreover have "publishing k (rs_hubs st ! i) \<Longrightarrow> i < length (rs_hubs st) \<Longrightarrow>
      sh_symbol (rs_hubs st ! i) \<noteq> s" for i k
    using state_okD(2) [OF ok, of i k] new(1) by auto
  ultimately show ?thesis
    using new ok unfolding state_ok_def
    by (auto simp: nth_append less_Suc_eq split: if_splits dest!: state_okD(1) [OF ok])
qed

lemma joins_counted:
  assumes "joins kind s h st st'" "state_ok st" "counted H st"
  shows "counted (H(kind := (H kind)(s := H kind s + 1))) st'"
  unfolding counted_def
proof (intro allI impI)
  fix t i k assume m: "hub_of st' t = Some i"
  note f = joins_frame [OF assms(1,2)]
  show "unat (refcount_of k (rs_hubs st' ! i)) \<le> (H(kind := (H kind)(s := H kind s + 1))) k t"
  proof (cases "t = s")
    case True
    with m f(1) have i: "i = h" by simp
    have "unat (case hub_of st s of None \<Rightarrow> 0 | Some i \<Rightarrow> refcount_of k (rs_hubs st ! i)) \<le> H k s"
      using assms(3) by (auto simp: counted_def split: option.split)
    with i True f(6) [of k] unat_Suc(1) show ?thesis
      by (auto intro: order_trans [OF unat_Suc(1)])
  next
    case False
    with m f(4) have m': "hub_of st t = Some i" by simp
    moreover have "i \<noteq> h" using False state_okD(1) [OF assms(2) m'] f(9,10) by metis
    ultimately show ?thesis using f(5) state_okD(1) [OF assms(2) m'] assms(3) False
      by (auto simp: counted_def)
  qed
qed

lemma joins_exactly_counted:
  assumes "joins kind s h st st'" "state_ok st" "exactly_counted H st" "H kind s + 1 < 2 ^ 32"
  shows "exactly_counted (H(kind := (H kind)(s := H kind s + 1))) st'"
  unfolding exactly_counted_def
proof (intro allI)
  fix t k
  note f = joins_frame [OF assms(1,2)]
  have old: "H k t = (case hub_of st t of None \<Rightarrow> 0 | Some h \<Rightarrow> unat (refcount_of k (rs_hubs st ! h)))" for k t
    using assms(3) by (simp add: exactly_counted_def)
  show "(H(kind := (H kind)(s := H kind s + 1))) k t
      = (case hub_of st' t of None \<Rightarrow> 0 | Some h \<Rightarrow> unat (refcount_of k (rs_hubs st' ! h)))"
  proof (cases "t = s")
    case True
    with f(1) f(6) [of k] old [of k s] assms(4) unat_Suc(2) show ?thesis
      by (auto split: option.splits)
  next
    case False
    have "rs_hubs st' ! i = rs_hubs st ! i" if m: "hub_of st t = Some i" for i
      using f(5) [of i] f(9) [of i] f(10) state_okD(1) [OF assms(2) m] False by metis
    with False f(4) [OF False] old [of k t] show ?thesis by (auto split: option.splits)
  qed
qed

lemma joins_served:
  assumes "joins kind s h st st'" "state_ok st" "served st held"
  shows "served st' held"
proof -
  note f = joins_frame [OF assms(1,2)]
  have m: "hub_of st (hd_symbol held) = Some (hd_hub held)" using assms(3) by (simp add: served_def)
  from assms(1,2) have "hub_of st' (hd_symbol held) = Some (hd_hub held)"
    by (cases rule: joins_hub) (use m in auto)
  with f(7) state_okD(1) [OF assms(2) m] assms(3) show ?thesis by (auto simp: served_def)
qed

section \<open>Leaving\<close>

text \<open>
  \<open>hub'\<close> is \<open>hub\<close> with one consumer of a kind less, unless none was counted. A publisher that some
  consumer still needs keeps running.
\<close>

definition left_by :: "DecKind \<Rightarrow> SymbolHub \<Rightarrow> SymbolHub \<Rightarrow> bool" where
  "left_by kind hub hub' = (sh_symbol hub' = sh_symbol hub
     \<and> (\<forall>k. refcount_of k hub' = (if k = kind \<and> refcount_of k hub \<noteq> 0
              then refcount_of k hub - 1 else refcount_of k hub))
     \<and> (\<forall>k. publishing k hub' \<longrightarrow> publishing k hub)
     \<and> (\<forall>k. publishing k hub \<and> refcount_of k hub' \<noteq> 0 \<longrightarrow> publishing k hub'))"

definition unused :: "SymbolHub \<Rightarrow> bool" where
  "unused hub = (\<forall>k. refcount_of k hub = 0)"

definition silent :: "SymbolHub \<Rightarrow> bool" where
  "silent hub = (\<forall>k. \<not> publishing k hub)"

definition leaves :: "DecKind \<Rightarrow> SymbolKey \<Rightarrow> RouterState \<Rightarrow> RouterState \<Rightarrow> bool" where
  "leaves kind s st st' = (case hub_of st s of
     None \<Rightarrow> rs_hubs st' = rs_hubs st \<and> hub_of st' = hub_of st
   | Some h \<Rightarrow> (\<exists>hub'. left_by kind (rs_hubs st ! h) hub' \<and> rs_hubs st' = (rs_hubs st)[h := hub']
       \<and> (if unused hub' then silent hub' \<and> hub_of st' = (hub_of st)(s := None)
          else hub_of st' = hub_of st)))"

lemma all_kinds: "(\<forall>k. P k) \<longleftrightarrow> P TickRef \<and> P WatchRef \<and> P RtBarRef"
  by (metis DecKind.exhaust)

lemma unused_iff:
  "unused hub \<longleftrightarrow> sh_tick_refcount hub = 0 \<and> sh_watch_refcount hub = 0 \<and> sh_rt_bar_refcount hub = 0"
  by (simp add: unused_def all_kinds)

lemma reap_tasks_facts:
  "sh_symbol (reap_tasks hub) = sh_symbol hub" "refcount_of k (reap_tasks hub) = refcount_of k hub"
  by (simp_all add: reap_tasks_def Let_def)

lemma reap_tasks_publishing:
  "publishing k (reap_tasks hub) = (publishing k hub \<and>
     (if k = RtBarRef then sh_rt_bar_refcount hub \<noteq> 0
      else \<not> (sh_tick_refcount hub = 0 \<and> sh_watch_refcount hub = 0)))"
  using refcount_more(3) [of RtBarRef hub] by (auto simp: reap_tasks_def Let_def simp del: refcount_more)

lemma reap_tasks_needed:
  "publishing k hub \<Longrightarrow> refcount_of k hub \<noteq> 0 \<Longrightarrow> publishing k (reap_tasks hub)"
  by (cases k) (simp_all add: reap_tasks_publishing)

lemma reap_tasks_only: "publishing k (reap_tasks hub) \<Longrightarrow> publishing k hub"
  by (simp add: reap_tasks_publishing)

lemma reap_tasks_silent: "unused hub \<Longrightarrow> silent (reap_tasks hub)"
  by (simp add: unused_iff silent_def reap_tasks_publishing)

lemma dec_ref_leaves:
  assumes "state_ok st"
  shows "leaves kind s st (handle_dec_ref s kind st)
     \<and> rs_backlog (handle_dec_ref s kind st) = rs_backlog st"
proof (cases "hub_of st s")
  case None
  then show ?thesis by (simp add: leaves_def handle_dec_ref_def)
next
  case (Some h)
  define hub where "hub = rs_hubs st ! h"
  note m = state_okD(1) [OF assms Some]
  have h: "h < length (rs_hubs st)" and sym: "sh_symbol hub = s" using m by (auto simp: hub_def)
  obtain k0 where k0: "refcount_of k0 hub \<noteq> 0" using m by (auto simp: hub_def)
  consider (none) "refcount_of kind hub = 0" | (one) "refcount_of kind hub = 1"
    | (several) "refcount_of kind hub \<noteq> 0" "refcount_of kind hub \<noteq> 1" by blast
  then show ?thesis
  proof cases
    case none
    let ?hub = "set_refcount kind 0 (set_refcount kind (- 1) hub)"
    have "left_by kind hub ?hub" using none by (auto simp: left_by_def)
    moreover have "\<not> unused ?hub" using k0 none by (auto simp: unused_def)
    ultimately show ?thesis using Some none h
      by (auto simp: leaves_def handle_dec_ref_def Let_def hub_def)
  next
    case one
    let ?hub = "set_refcount kind 0 hub"
    have "left_by kind hub (reap_tasks ?hub)"
      using one reap_tasks_needed [of _ ?hub] reap_tasks_only [of _ ?hub]
      by (auto simp: left_by_def reap_tasks_facts)
    moreover have "unused (reap_tasks ?hub) = unused ?hub"
      by (simp add: unused_def reap_tasks_facts)
    moreover have "handle_dec_ref s kind st = maybe_reap h (update_hub h (set_refcount kind 0) st)"
      using Some one by (simp add: handle_dec_ref_def Let_def hub_def)
    then have "handle_dec_ref s kind st = (let st' = update_hub h (\<lambda>hub. reap_tasks (set_refcount kind 0 hub)) st
        in if unused ?hub then remove_hub s st' else st')"
      using h sym by (simp add: maybe_reap_def unused_iff Let_def hub_def update_hub_def)
    ultimately show ?thesis using Some h reap_tasks_silent [of ?hub]
      by (auto simp: leaves_def hub_def Let_def)
  next
    case several
    let ?hub = "set_refcount kind (refcount_of kind hub - 1) hub"
    have "left_by kind hub ?hub" using several by (auto simp: left_by_def)
    moreover have "\<not> unused ?hub" using several unfolding unused_def
      by (intro notI) (metis refcount_set(1) right_minus_eq)
    ultimately show ?thesis using Some several h
      by (auto simp: leaves_def handle_dec_ref_def Let_def hub_def)
  qed
qed

section \<open>Being torn down\<close>

definition closes :: "SymbolKey \<Rightarrow> RouterState \<Rightarrow> RouterState \<Rightarrow> bool" where
  "closes s st st' = (case hub_of st s of
     None \<Rightarrow> rs_hubs st' = rs_hubs st \<and> hub_of st' = hub_of st
   | Some h \<Rightarrow> (\<exists>hub'. silent hub' \<and> sh_symbol hub' = sh_symbol (rs_hubs st ! h)
       \<and> rs_hubs st' = (rs_hubs st)[h := hub'] \<and> hub_of st' = (hub_of st)(s := None)))"

lemma upstream_closed_closes:
  assumes "state_ok st"
  shows "closes s st (handle_upstream_closed s reason st)
     \<and> rs_backlog (handle_upstream_closed s reason st) = rs_backlog st"
proof (cases "hub_of st s")
  case None
  then show ?thesis by (simp add: closes_def handle_upstream_closed_def)
next
  case (Some h)
  with state_okD(1) [OF assms Some] show ?thesis
    by (auto simp: closes_def handle_upstream_closed_def Let_def silent_def
        intro!: exI [of _ "abort_rt_bar_publisher (abort_tick_publisher
          ((rs_hubs st ! h)\<lparr> sh_end_reason := Some reason \<rparr>))"])
qed

lemma abort_fold:
  "rs_hubs (fold (\<lambda>(_, h). update_hub h (\<lambda>hub. abort_rt_bar_publisher (abort_tick_publisher hub))) ps st) ! i
     = (if i \<in> snd ` set ps \<and> i < length (rs_hubs st)
        then abort_rt_bar_publisher (abort_tick_publisher (rs_hubs st ! i)) else rs_hubs st ! i)
   \<and> length (rs_hubs (fold (\<lambda>(_, h). update_hub h (\<lambda>hub. abort_rt_bar_publisher (abort_tick_publisher hub))) ps st))
     = length (rs_hubs st)
   \<and> rs_backlog (fold (\<lambda>(_, h). update_hub h (\<lambda>hub. abort_rt_bar_publisher (abort_tick_publisher hub))) ps st)
     = rs_backlog st"
proof (induction ps arbitrary: st)
  case (Cons p ps)
  have "abort_rt_bar_publisher (abort_tick_publisher (abort_rt_bar_publisher (abort_tick_publisher hub)))
      = abort_rt_bar_publisher (abort_tick_publisher hub)" for hub
    by (simp add: abort_rt_bar_publisher_def abort_tick_publisher_def)
  with Cons show ?case
    by (cases p; cases "snd p < length (rs_hubs st)"; cases "snd p = i") (auto simp: nth_list_update list_update_beyond)
qed simp

lemma abort_all_silent:
  assumes "state_ok st"
  shows "hub_of (abort_all_publishers st) = (\<lambda>_. None)"
    "length (rs_hubs (abort_all_publishers st)) = length (rs_hubs st)"
    "\<And>h. h < length (rs_hubs st) \<Longrightarrow> silent (rs_hubs (abort_all_publishers st) ! h)"
    "rs_backlog (abort_all_publishers st) = rs_backlog st"
proof -
  fix h assume h: "h < length (rs_hubs st)"
  show "silent (rs_hubs (abort_all_publishers st) ! h)"
  proof (cases "\<exists>k. publishing k (rs_hubs st ! h)")
    case True
    then obtain k where "hub_of st (sh_symbol (rs_hubs st ! h)) = Some h"
      using state_okD(2) [OF assms h] by blast
    then have "h \<in> snd ` set (rs_per_symbol st)"
      by (force simp: hub_of_def dest: map_of_SomeD)
    with h show ?thesis by (simp add: abort_all_publishers_def abort_fold silent_def)
  next
    case False
    then show ?thesis by (auto simp: abort_all_publishers_def abort_fold silent_def)
  qed
qed (simp_all add: abort_all_publishers_def abort_fold hub_of_def fun_eq_iff)

section \<open>What leaving and tearing down keep\<close>

lemma state_ok_drop:
  assumes ok: "state_ok st" and h: "hub_of st s = Some h" and "silent hub'"
    and "sh_symbol hub' = sh_symbol (rs_hubs st ! h)"
    and "rs_hubs st' = (rs_hubs st)[h := hub']" "hub_of st' = (hub_of st)(s := None)"
  shows "state_ok st'"
proof -
  note hs = state_okD(1) [OF ok h]
  have "i < length (rs_hubs st') \<and> sh_symbol (rs_hubs st' ! i) = t
      \<and> (\<exists>k. refcount_of k (rs_hubs st' ! i) \<noteq> 0)" if m: "hub_of st' t = Some i" for t i
  proof -
    from m assms(6) have t: "t \<noteq> s" "hub_of st t = Some i" by (auto split: if_splits)
    with hs state_okD(1) [OF ok t(2)] have "i \<noteq> h" by auto
    with t assms(5) state_okD(1) [OF ok t(2)] show ?thesis by simp
  qed
  moreover have "hub_of st' (sh_symbol (rs_hubs st' ! i)) = Some i"
    if i: "i < length (rs_hubs st')" "publishing k (rs_hubs st' ! i)" for i k
  proof -
    have "i \<noteq> h" using i assms(3,5) hs by (auto simp: silent_def)
    with i assms(5) have "publishing k (rs_hubs st ! i)" "rs_hubs st' ! i = rs_hubs st ! i"
      "i < length (rs_hubs st)" by auto
    with state_okD(2) [OF ok this(3,1)] \<open>i \<noteq> h\<close> h assms(6) show ?thesis by auto
  qed
  ultimately show ?thesis by (auto simp: state_ok_def)
qed

lemma leaves_state_ok:
  assumes "leaves kind s st st'" and ok: "state_ok st"
  shows "state_ok st'"
proof (cases "hub_of st s")
  case None
  with assms(1) have "state_ok st' = state_ok st" by (intro same_view) (simp_all add: leaves_def)
  with ok show ?thesis by simp
next
  case (Some h)
  with assms(1) obtain hub' where l: "left_by kind (rs_hubs st ! h) hub'"
    "rs_hubs st' = (rs_hubs st)[h := hub']" and r: "if unused hub'
      then silent hub' \<and> hub_of st' = (hub_of st)(s := None) else hub_of st' = hub_of st"
    by (auto simp: leaves_def)
  have sym: "sh_symbol hub' = sh_symbol (rs_hubs st ! h)" using l(1) by (simp add: left_by_def)
  show ?thesis
  proof (cases "unused hub'")
    case True
    with r state_ok_drop [OF ok Some _ sym l(2)] show ?thesis by simp
  next
    case False
    then have "\<exists>k. refcount_of k hub' \<noteq> 0" by (simp add: unused_def)
    moreover have "sh_symbol hub' = s" using sym state_okD(1) [OF ok Some] by simp
    ultimately show ?thesis using r False l(2) by (intro state_ok_update [OF ok Some l(2)]) auto
  qed
qed

lemma closes_state_ok:
  assumes "closes s st st'" and ok: "state_ok st"
  shows "state_ok st'"
proof (cases "hub_of st s")
  case None
  with assms(1) have "state_ok st' = state_ok st" by (intro same_view) (simp_all add: closes_def)
  with ok show ?thesis by simp
next
  case (Some h)
  with assms(1) obtain hub' where "silent hub'" "sh_symbol hub' = sh_symbol (rs_hubs st ! h)"
    "rs_hubs st' = (rs_hubs st)[h := hub']" "hub_of st' = (hub_of st)(s := None)"
    by (auto simp: closes_def)
  then show ?thesis by (rule state_ok_drop [OF ok Some])
qed

lemma left_by_refcount:
  "left_by kind hub hub' \<Longrightarrow> refcount_of k hub' = (if k = kind \<and> refcount_of k hub \<noteq> 0
     then refcount_of k hub - 1 else refcount_of k hub)"
  by (simp add: left_by_def)

lemma same_hub:
  assumes "state_ok st" "hub_of st t = Some i" "hub_of st s = Some h"
  shows "t = s \<longleftrightarrow> i = h"
  using state_okD(1) [OF assms(1,2)] state_okD(1) [OF assms(1,3)] assms(2,3) by (metis option.inject)

lemma leaves_view:
  assumes "leaves kind s st st'" and ok: "state_ok st" and m: "hub_of st' t = Some i"
  shows "hub_of st t = Some i"
    "refcount_of k (rs_hubs st' ! i) = (if t = s \<and> k = kind \<and> refcount_of k (rs_hubs st ! i) \<noteq> 0
       then refcount_of k (rs_hubs st ! i) - 1 else refcount_of k (rs_hubs st ! i))"
proof -
  have "hub_of st t = Some i \<and> refcount_of k (rs_hubs st' ! i)
      = (if t = s \<and> k = kind \<and> refcount_of k (rs_hubs st ! i) \<noteq> 0
         then refcount_of k (rs_hubs st ! i) - 1 else refcount_of k (rs_hubs st ! i))"
  proof (cases "hub_of st s")
    case None
    with assms(1) m show ?thesis by (auto simp: leaves_def)
  next
    case (Some h)
    with assms(1) obtain hub' where l: "left_by kind (rs_hubs st ! h) hub'"
      "rs_hubs st' = (rs_hubs st)[h := hub']" and r: "hub_of st' = hub_of st
        \<or> hub_of st' = (hub_of st)(s := None)" by (auto simp: leaves_def split: if_splits)
    from r m have t: "hub_of st t = Some i" by (auto split: if_splits)
    have i: "t = s \<longleftrightarrow> i = h" by (rule same_hub [OF ok t Some])
    have h: "h < length (rs_hubs st)" using state_okD(1) [OF ok Some] by blast
    have "refcount_of k (rs_hubs st' ! i)
        = (if i = h \<and> k = kind \<and> refcount_of k (rs_hubs st ! i) \<noteq> 0
           then refcount_of k (rs_hubs st ! i) - 1 else refcount_of k (rs_hubs st ! i))"
      using h l(2) left_by_refcount [OF l(1), of k] by (cases "i = h") (simp_all split del: if_split cong: if_cong)
    with i t show ?thesis by (simp only: simp_thms)
  qed
  then show "hub_of st t = Some i"
    "refcount_of k (rs_hubs st' ! i) = (if t = s \<and> k = kind \<and> refcount_of k (rs_hubs st ! i) \<noteq> 0
       then refcount_of k (rs_hubs st ! i) - 1 else refcount_of k (rs_hubs st ! i))" by auto
qed

abbreviation one_less :: "DecKind \<Rightarrow> SymbolKey \<Rightarrow> (DecKind \<Rightarrow> SymbolKey \<Rightarrow> nat)
    \<Rightarrow> DecKind \<Rightarrow> SymbolKey \<Rightarrow> nat" where
  "one_less kind s H \<equiv> H(kind := (H kind)(s := H kind s - 1))"

lemma leaves_counted:
  assumes "leaves kind s st st'" "state_ok st" and H: "counted H st"
  shows "counted (one_less kind s H) st'"
  unfolding counted_def
proof (intro allI impI)
  fix t i k assume m: "hub_of st' t = Some i"
  note v = leaves_view [OF assms(1,2) m]
  have le: "unat (refcount_of k (rs_hubs st ! i)) \<le> H k t"
    using H v(1) by (auto simp: counted_def)
  show "unat (refcount_of k (rs_hubs st' ! i)) \<le> one_less kind s H k t"
  proof (cases "t = s \<and> k = kind")
    case True
    then have g: "one_less kind s H k t = H k t - 1" by simp
    show ?thesis
    proof (cases "refcount_of k (rs_hubs st ! i) = 0")
      case r: True
      with v(2) [of k] have "refcount_of k (rs_hubs st' ! i) = 0" by (simp split: if_splits)
      then show ?thesis by (simp only: unat_0 le0)
    next
      case r: False
      with v(2) [of k] True have "refcount_of k (rs_hubs st' ! i) = refcount_of k (rs_hubs st ! i) - 1"
        by simp
      then show ?thesis using unat_Suc(3) [OF r] le by (simp only: g diff_le_mono)
    qed
  next
    case False
    with v(2) [of k] have "refcount_of k (rs_hubs st' ! i) = refcount_of k (rs_hubs st ! i)" by auto
    with le False show ?thesis by auto
  qed
qed

lemma leaves_removed:
  assumes "leaves kind s st st'" "state_ok st" "hub_of st t = Some i" "hub_of st' t = None"
  shows "t = s" "\<And>k. unat (refcount_of k (rs_hubs st ! i)) = (if k = kind then 1 else 0)"
proof -
  obtain h where h: "hub_of st s = Some h" using assms by (cases "hub_of st s") (auto simp: leaves_def)
  with assms(1) obtain hub' where l: "left_by kind (rs_hubs st ! h) hub'" and r: "if unused hub'
      then silent hub' \<and> hub_of st' = (hub_of st)(s := None) else hub_of st' = hub_of st"
    by (auto simp: leaves_def)
  from r assms(3,4) have u: "unused hub'" and t: "t = s" by (auto split: if_splits)
  show "t = s" by (rule t)
  from t h assms(3) have i: "i = h" by simp
  obtain k0 where k0: "refcount_of k0 (rs_hubs st ! h) \<noteq> 0" using state_okD(1) [OF assms(2) h] by blast
  have z: "(if k = kind \<and> refcount_of k (rs_hubs st ! h) \<noteq> 0 then refcount_of k (rs_hubs st ! h) - 1
      else refcount_of k (rs_hubs st ! h)) = 0" for k
    using l u by (simp add: left_by_def unused_def)
  have k0': "k0 = kind" using z [of k0] k0 by (auto split: if_splits)
  fix k
  show "unat (refcount_of k (rs_hubs st ! i)) = (if k = kind then 1 else 0)"
  proof (cases "k = kind")
    case True
    with z [of k] k0 k0' have "refcount_of k (rs_hubs st ! h) - 1 = 0" by simp
    then have "refcount_of k (rs_hubs st ! h) = 1" by simp
    with True i show ?thesis by simp
  next
    case False
    with z [of k] i show ?thesis by simp
  qed
qed

lemma leaves_exactly_counted:
  assumes "leaves kind s st st'" "state_ok st" and H: "exactly_counted H st" and pos: "0 < H kind s"
  shows "exactly_counted (one_less kind s H) st'"
  unfolding exactly_counted_def
proof (intro allI)
  fix t k
  have old: "H k t = (case hub_of st t of None \<Rightarrow> 0 | Some h \<Rightarrow> unat (refcount_of k (rs_hubs st ! h)))" for k t
    using H by (simp add: exactly_counted_def)
  show "one_less kind s H k t
      = (case hub_of st' t of None \<Rightarrow> 0 | Some h \<Rightarrow> unat (refcount_of k (rs_hubs st' ! h)))"
  proof (cases "hub_of st' t")
    case (Some i)
    note v = leaves_view [OF assms(1,2) Some]
    show ?thesis
    proof (cases "t = s \<and> k = kind")
      case True
      with old [of kind s] pos v(1) have "refcount_of k (rs_hubs st ! i) \<noteq> 0" by auto
      with True Some v old [of k t] unat_Suc(3) [OF this] show ?thesis by auto
    next
      case False
      with v(2) [of k] have "refcount_of k (rs_hubs st' ! i) = refcount_of k (rs_hubs st ! i)" by auto
      with Some v(1) old [of k t] False show ?thesis by auto
    qed
  next
    case None
    show ?thesis
    proof (cases "hub_of st t")
      case (Some i)
      note r = leaves_removed [OF assms(1,2) Some None]
      show ?thesis using None Some old [of k t] r(1) r(2) [of k] by auto
    next
      case n: None
      with old [of k t] None pos old [of kind s] show ?thesis by auto
    qed
  qed
qed

lemma leaves_served:
  assumes l: "leaves kind s st st'" and ok: "state_ok st" and H: "exactly_counted H st"
    and pos: "0 < H kind s" and held: "served st held"
    and still: "0 < one_less kind s H (hd_kind held) (hd_symbol held)"
  shows "served st' held"
proof -
  let ?t = "hd_symbol held" and ?i = "hd_hub held" and ?k = "hd_kind held"
  have m: "hub_of st ?t = Some ?i" and p: "publishing ?k (rs_hubs st ! ?i)"
    using held by (auto simp: served_def)
  have e: "one_less kind s H ?k ?t = (case hub_of st' ?t of None \<Rightarrow> 0
      | Some h \<Rightarrow> unat (refcount_of ?k (rs_hubs st' ! h)))"
    using leaves_exactly_counted [OF l ok H pos] unfolding exactly_counted_def by blast
  with still obtain h where h: "hub_of st' ?t = Some h" by (cases "hub_of st' ?t") auto
  with leaves_view(1) [OF l ok h] m have hi: "h = ?i" by simp
  with e h still have nz: "refcount_of ?k (rs_hubs st' ! ?i) \<noteq> 0" by auto
  have "publishing ?k (rs_hubs st' ! ?i)"
  proof (cases "?t = s")
    case True
    with m l obtain hub' where "left_by kind (rs_hubs st ! ?i) hub'"
      "rs_hubs st' = (rs_hubs st)[?i := hub']" by (auto simp: leaves_def)
    with nz p state_okD(1) [OF ok m] show ?thesis by (auto simp: left_by_def)
  next
    case False
    have "rs_hubs st' ! ?i = rs_hubs st ! ?i"
      using l m False state_okD(1) [OF ok m] state_okD(1) [OF ok, of s]
      by (cases "hub_of st s") (auto simp: leaves_def nth_list_update)
    with p show ?thesis by simp
  qed
  with h hi show ?thesis by (simp add: served_def)
qed

lemma closes_counted:
  assumes c: "closes s st st'" and ok: "state_ok st" and H: "counted H st"
  shows "counted H st'"
  unfolding counted_def
proof (intro allI impI)
  fix t i k assume m: "hub_of st' t = Some i"
  have "hub_of st t = Some i \<and> rs_hubs st' ! i = rs_hubs st ! i"
  proof (cases "hub_of st s")
    case None
    with c m show ?thesis by (auto simp: closes_def)
  next
    case (Some h)
    with c m have t: "hub_of st t = Some i" "t \<noteq> s" by (auto simp: closes_def split: if_splits)
    with state_okD(1) [OF ok t(1)] state_okD(1) [OF ok Some] have "i \<noteq> h" by auto
    with c Some t show ?thesis by (auto simp: closes_def)
  qed
  with H show "unat (refcount_of k (rs_hubs st' ! i)) \<le> H k t" by (auto simp: counted_def)
qed

text \<open>A publisher that ends by itself.\<close>

lemma update_frame:
  assumes "\<And>hub. sh_symbol (f hub) = sh_symbol hub" "\<And>k hub. refcount_of k (f hub) = refcount_of k hub"
    "\<And>k hub. publishing k (f hub) \<Longrightarrow> publishing k hub"
  shows "state_ok st \<Longrightarrow> state_ok (update_hub h f st)"
    "counted H st \<Longrightarrow> counted H (update_hub h f st)"
    "exactly_counted H st \<Longrightarrow> exactly_counted H (update_hub h f st)"
proof -
  have nth: "sh_symbol (rs_hubs (update_hub h f st) ! i) = sh_symbol (rs_hubs st ! i)
    \<and> refcount_of k (rs_hubs (update_hub h f st) ! i) = refcount_of k (rs_hubs st ! i)
    \<and> (publishing k (rs_hubs (update_hub h f st) ! i) \<longrightarrow> publishing k (rs_hubs st ! i))" for i k
    using assms by (cases "i = h"; cases "h < length (rs_hubs st)") (auto simp: list_update_beyond)
  have len: "length (rs_hubs (update_hub h f st)) = length (rs_hubs st)" by simp
  show "state_ok st \<Longrightarrow> state_ok (update_hub h f st)"
    unfolding state_ok_def hub_of_frame using nth len by metis
  show "counted H st \<Longrightarrow> counted H (update_hub h f st)"
    unfolding counted_def hub_of_frame using nth by simp
  show "exactly_counted H st \<Longrightarrow> exactly_counted H (update_hub h f st)"
    unfolding exactly_counted_def hub_of_frame using nth
    by (simp del: hubs_frame cong: option.case_cong)
qed

end
