(* ===== verification/Market_Router_Props.thy ===== *)
theory Market_Router_Props imports Market_Router_Facts begin

text \<open>
  The market-data router as a system of events: what its reference counts mean while clients
  subscribe and leave in any order, that nothing is leaked, and what goes wrong when an upstream
  stream closes.
\<close>

section \<open>Consumers of a symbol\<close>

text \<open>The handles alive, and the guards dropped whose message the actor has not seen yet.\<close>

definition holders :: "Router \<Rightarrow> DecKind \<Rightarrow> SymbolKey \<Rightarrow> nat" where
  "holders rt k s = length (filter (\<lambda>held. hd_kind held = k \<and> hd_symbol held = s) (rt_handles rt))
     + count_list (rt_mailbox rt) (dec_msg k s)"

lemma dec_msg_eq [simp]: "dec_msg k s = dec_msg k' s' \<longleftrightarrow> k = k' \<and> s = s'"
  by (cases k; cases k') auto

lemma other_msgs [simp]:
  "subscribe_msg k s \<noteq> dec_msg k' s'" "DebugDump \<noteq> dec_msg k s" "Shutdown \<noteq> dec_msg k s"
  "UpstreamClosedMsg t r \<noteq> dec_msg k s" "subscribe_msg k s \<noteq> UpstreamClosedMsg t r"
  "UpstreamClosedMsg t r \<noteq> subscribe_msg k s" "Shutdown \<noteq> subscribe_msg k s"
  "subscribe_msg k s \<noteq> Shutdown" "dec_msg k s \<noteq> UpstreamClosedMsg t r" "dec_msg k s \<noteq> Shutdown"
  by (cases k; cases k'; simp)+

lemma router_msg_cases [case_names sub dec dump upstream shutdown]:
  obtains k s where "msg = subscribe_msg k s" | k s where "msg = dec_msg k s" | "msg = DebugDump"
  | s r where "msg = UpstreamClosedMsg s r" | "msg = Shutdown"
  by (cases msg) (metis dec_msg.simps subscribe_msg.simps)+

lemma actor_subscribe:
  "actor_step src waiting (subscribe_msg k s) rt = reply waiting (subscribe_handler k src s (rt_state rt)) rt"
  by (cases k) auto

lemma actor_dec:
  "actor_step src waiting (dec_msg k s) rt = rt\<lparr> rt_state := handle_dec_ref s k (rt_state rt) \<rparr>"
  by (cases k) auto

lemma holders_state [simp]: "holders (rt\<lparr> rt_state := st \<rparr>) = holders rt"
  by (simp add: holders_def fun_eq_iff)

lemma holders_send:
  "holders (send_control msg rt) = (\<lambda>k s. holders rt k s + (if rt_running rt \<and> msg = dec_msg k s then 1 else 0))"
  by (auto simp: holders_def send_control_def Let_def fun_eq_iff)

lemma send_frame [simp]:
  "rs_hubs (rt_state (send_control msg rt)) = rs_hubs (rt_state rt)"
  "hub_of (rt_state (send_control msg rt)) = hub_of (rt_state rt)"
  "rt_handles (send_control msg rt) = rt_handles rt"
  "rt_running (send_control msg rt) = rt_running rt"
  "rt_mailbox (send_control msg rt) = (if rt_running rt then rt_mailbox rt @ [msg] else rt_mailbox rt)"
  "rs_backlog (rt_state (send_control msg rt)) = (if rt_running rt then rs_backlog (rt_state rt) + 1
     else rs_backlog (rt_state rt))"
  by (auto simp: send_control_def bump_backlog_def drop_backlog_def Let_def)

lemma send_view [simp]:
  "state_ok (rt_state (send_control msg rt)) = state_ok (rt_state rt)"
  "counted H (rt_state (send_control msg rt)) = counted H (rt_state rt)"
  "exactly_counted H (rt_state (send_control msg rt)) = exactly_counted H (rt_state rt)"
  "served (rt_state (send_control msg rt)) held = served (rt_state rt) held"
  by (rule same_view; simp)+

lemma drop_backlog_frame [simp]:
  "rs_hubs (drop_backlog st) = rs_hubs st" "hub_of (drop_backlog st) = hub_of st"
  "rs_backlog (drop_backlog st) = rs_backlog st - 1"
  by (simp_all add: drop_backlog_def)

lemma drop_backlog_view [simp]:
  "state_ok (drop_backlog st) = state_ok st" "counted H (drop_backlog st) = counted H st"
  "exactly_counted H (drop_backlog st) = exactly_counted H st"
  "served (drop_backlog st) held = served st held"
  by (rule same_view; simp)+

text \<open>Accepting a handle or dropping it at once makes the same number of consumers.\<close>

abbreviation one_more :: "DecKind \<Rightarrow> SymbolKey \<Rightarrow> (DecKind \<Rightarrow> SymbolKey \<Rightarrow> nat)
    \<Rightarrow> DecKind \<Rightarrow> SymbolKey \<Rightarrow> nat" where
  "one_more kind s H \<equiv> H(kind := (H kind)(s := H kind s + 1))"

lemma reply_ok:
  assumes "rt_running rt" "held = \<lparr> hd_hub = h, hd_kind = k, hd_symbol = s \<rparr>"
  shows "holders (reply waiting (Ok held, st) rt) = one_more k s (holders rt)"
    "rs_hubs (rt_state (reply waiting (Ok held, st) rt)) = rs_hubs st"
    "hub_of (rt_state (reply waiting (Ok held, st) rt)) = hub_of st"
    "rt_running (reply waiting (Ok held, st) rt) = rt_running rt"
    "set (rt_handles (reply waiting (Ok held, st) rt)) \<subseteq> insert held (set (rt_handles rt))"
    "rs_backlog st = of_nat (length (rt_mailbox rt)) \<Longrightarrow>
       rs_backlog (rt_state (reply waiting (Ok held, st) rt))
         = of_nat (length (rt_mailbox (reply waiting (Ok held, st) rt)))"
    "set (rt_mailbox (reply waiting (Ok held, st) rt)) \<subseteq> insert (dec_msg k s) (set (rt_mailbox rt))"
proof -
  show "holders (reply waiting (Ok held, st) rt) = one_more k s (holders rt)"
    using assms by (cases waiting) (auto simp: reply_def drop_guard_def Let_def holders_send holders_def fun_eq_iff)
qed (use assms in \<open>cases waiting; auto simp: reply_def drop_guard_def Let_def\<close>)+

section \<open>The system's invariants\<close>

definition bounded :: "nat \<Rightarrow> Router \<Rightarrow> bool" where
  "bounded n rt = (\<forall>k s. holders rt k s \<le> n)"

definition router_ok :: "nat \<Rightarrow> Router \<Rightarrow> bool" where
  "router_ok n rt = (state_ok (rt_state rt) \<and> counted (holders rt) (rt_state rt) \<and> bounded n rt
     \<and> (if rt_running rt then rs_backlog (rt_state rt) = of_nat (length (rt_mailbox rt))
        else rt_mailbox rt = [] \<and> hub_of (rt_state rt) = (\<lambda>_. None)))"

text \<open>While no upstream stream closes and the router lives, the counts are exact.\<close>

definition router_exact :: "Router \<Rightarrow> bool" where
  "router_exact rt = (rt_running rt \<and> exactly_counted (holders rt) (rt_state rt)
     \<and> (\<forall>held \<in> set (rt_handles rt). served (rt_state rt) held)
     \<and> (\<forall>msg \<in> set (rt_mailbox rt). \<exists>k s. msg = subscribe_msg k s \<or> msg = dec_msg k s \<or> msg = DebugDump))"

lemma router_okD:
  assumes "router_ok n rt"
  shows "state_ok (rt_state rt)" "counted (holders rt) (rt_state rt)" "\<And>k s. holders rt k s \<le> n"
  using assms by (auto simp: router_ok_def bounded_def)

lemma counted_mono: "counted H st \<Longrightarrow> (\<And>k s. H k s \<le> H' k s) \<Longrightarrow> counted H' st"
  unfolding counted_def by (meson order_trans)

lemma bounded_mono: "bounded n rt \<Longrightarrow> n \<le> m \<Longrightarrow> bounded m rt"
  unfolding bounded_def by (meson order_trans)

text \<open>Handling a subscription.\<close>

lemma subscribe_step:
  assumes ok: "state_ok (rt_state rt)" "counted (holders rt) (rt_state rt)" "bounded n rt"
    and run: "rt_running rt" and b: "rs_backlog (rt_state rt) = of_nat (length (rt_mailbox rt))"
    and n: "n + 1 < 2 ^ 32"
    and rt': "rt' = reply waiting (subscribe_handler k src s (rt_state rt)) rt"
  shows "router_ok (n + 1) rt'"
    "exactly_counted (holders rt) (rt_state rt) \<Longrightarrow>
       (\<forall>held \<in> set (rt_handles rt). served (rt_state rt) held) \<Longrightarrow>
       exactly_counted (holders rt') (rt_state rt') \<and> (\<forall>held \<in> set (rt_handles rt'). served (rt_state rt') held)"
    "rt_running rt'" "set (rt_mailbox rt') \<subseteq> insert (dec_msg k s) (set (rt_mailbox rt))"
proof -
  obtain r st where r: "subscribe_handler k src s (rt_state rt) = (r, st)"
    by (cases "subscribe_handler k src s (rt_state rt)")
  have bd: "holders rt k s + 1 < 2 ^ 32"
    using ok(3) n unfolding bounded_def by (metis add_le_mono1 order_le_less_trans)
  have "router_ok (n + 1) rt' \<and> (exactly_counted (holders rt) (rt_state rt) \<longrightarrow>
       (\<forall>held \<in> set (rt_handles rt). served (rt_state rt) held) \<longrightarrow>
       exactly_counted (holders rt') (rt_state rt') \<and> (\<forall>held \<in> set (rt_handles rt'). served (rt_state rt') held))
     \<and> rt_running rt' \<and> set (rt_mailbox rt') \<subseteq> insert (dec_msg k s) (set (rt_mailbox rt))"
  proof (cases r)
    case (Inl e)
    with r have c: "cache_only (rt_state rt) st" using subscribe_err by metis
    have e: "rt' = rt\<lparr> rt_state := st \<rparr>" using rt' r Inl by (simp add: reply_def)
    note f = cache_onlyD [OF c]
    from e f have v: "rs_hubs (rt_state rt') = rs_hubs (rt_state rt)" "hub_of (rt_state rt') = hub_of (rt_state rt)"
      by auto
    show ?thesis unfolding router_ok_def same_view [OF v]
      using ok run b e f bounded_mono [OF ok(3), of "n + 1"] by (auto simp: bounded_def)
  next
    case (Inr held)
    with r have s: "subscribe_handler k src s (rt_state rt) = (Ok held, st)" by simp
    have mapped: "h < length (rs_hubs (rt_state rt))" if "hub_of (rt_state rt) s = Some h" for h
      using state_okD(1) [OF ok(1) that] by blast
    note j = subscribe_ok [OF s mapped]
    have held: "held = \<lparr> hd_hub = hd_hub held, hd_kind = k, hd_symbol = s \<rparr>"
      and jn: "joins k s (hd_hub held) (rt_state rt) st" and bs: "rs_backlog st = rs_backlog (rt_state rt)"
      using j by blast+
    have e: "rt' = reply waiting (Ok held, st) rt" using rt' s by simp
    note p = reply_ok [OF run held, where waiting = waiting and st = st, folded e]
    note v = same_view [OF p(2,3)]
    have "held \<in> {held}" by simp
    have "served st held"
      using joins_frame(1,3) [OF jn ok(1)] held unfolding served_def
      by (metis Handle.select_convs(2,3))
    moreover have "served st other" if "served (rt_state rt) other" for other
      by (rule joins_served [OF jn ok(1) that])
    ultimately have sv: "\<forall>other \<in> set (rt_handles rt). served (rt_state rt) other \<Longrightarrow>
        \<forall>other \<in> set (rt_handles rt'). served (rt_state rt') other" using p(5) v by blast
    have "bounded (n + 1) rt'" using ok(3) by (auto simp: bounded_def p(1) intro: le_SucI)
    with joins_state_ok [OF jn ok(1,2) bd] joins_counted [OF jn ok(1,2)] p(4) p(6) bs b run
    have "router_ok (n + 1) rt'" unfolding router_ok_def v p(1) by simp
    moreover have "exactly_counted (holders rt) (rt_state rt) \<Longrightarrow> exactly_counted (holders rt') (rt_state rt')"
      unfolding v p(1) using joins_exactly_counted [OF jn ok(1), of "holders rt"] bd by blast
    ultimately show ?thesis using sv p(4,7) run by blast
  qed
  then show "router_ok (n + 1) rt'" "exactly_counted (holders rt) (rt_state rt) \<Longrightarrow>
       (\<forall>held \<in> set (rt_handles rt). served (rt_state rt) held) \<Longrightarrow>
       exactly_counted (holders rt') (rt_state rt') \<and> (\<forall>held \<in> set (rt_handles rt'). served (rt_state rt') held)"
    "rt_running rt'" "set (rt_mailbox rt') \<subseteq> insert (dec_msg k s) (set (rt_mailbox rt))" by blast+
qed

text \<open>The actor's turn, once the message has been taken from the mailbox.\<close>

lemma holders_pop:
  assumes "rt_mailbox rt = msg # rest"
  shows "holders (rt\<lparr> rt_mailbox := rest, rt_state := st \<rparr>)
       = (\<lambda>k s. holders rt k s - (if msg = dec_msg k s then 1 else 0))"
    "msg = dec_msg k s \<Longrightarrow> 0 < holders rt k s"
  using assms by (auto simp: holders_def fun_eq_iff)

lemma deliver_step:
  assumes ok: "router_ok n rt" and n: "n + 1 < 2 ^ 32" and m: "rt_mailbox rt = msg # rest"
    and rt': "rt' = run_control_actor src waiting rt"
  shows "router_ok (n + 1) rt' \<and> (router_exact rt \<longrightarrow> router_exact rt')"
proof -
  define rt0 where "rt0 = rt\<lparr> rt_mailbox := rest, rt_state := drop_backlog (rt_state rt) \<rparr>"
  have run: "rt_running rt" using ok m by (auto simp: router_ok_def split: if_splits)
  have r': "rt' = actor_step src waiting msg rt0" using rt' m by (simp add: run_control_actor_def rt0_def)
  have z: "rt_running rt0" "rt_handles rt0 = rt_handles rt" "rt_mailbox rt0 = rest"
    "state_ok (rt_state rt0)" "\<And>H. counted H (rt_state rt0) = counted H (rt_state rt)"
    "\<And>H. exactly_counted H (rt_state rt0) = exactly_counted H (rt_state rt)"
    "\<And>held. served (rt_state rt0) held = served (rt_state rt) held"
    using run router_okD(1) [OF ok] by (simp_all add: rt0_def)
  have b: "rs_backlog (rt_state rt0) = of_nat (length (rt_mailbox rt0))"
    using ok m run by (simp add: router_ok_def rt0_def)
  have h0: "holders rt0 = (\<lambda>k s. holders rt k s - (if msg = dec_msg k s then 1 else 0))"
    unfolding rt0_def by (rule holders_pop(1) [OF m])
  have bd0: "bounded (n + 1) rt0" using router_okD(3) [OF ok] by (auto simp: bounded_def h0 intro: le_SucI diff_le_self [THEN order_trans])
  have box: "router_exact rt \<Longrightarrow> \<forall>msg' \<in> set rest. \<exists>k s. msg' = subscribe_msg k s \<or> msg' = dec_msg k s \<or> msg' = DebugDump"
    using m by (simp add: router_exact_def)
  show ?thesis
  proof (cases msg rule: router_msg_cases)
    case (sub k s)
    with h0 have h: "holders rt0 = holders rt" by simp
    have c: "counted (holders rt0) (rt_state rt0)" "bounded n rt0"
      using router_okD(2,3) [OF ok] by (auto simp: h z(5) bounded_def)
    have e: "rt' = reply waiting (subscribe_handler k src s (rt_state rt0)) rt0"
      using r' sub by (simp add: actor_subscribe)
    note st = subscribe_step [OF z(4) c z(1) b n e]
    have "router_exact rt'" if x: "router_exact rt"
    proof -
      from x have "exactly_counted (holders rt0) (rt_state rt0)"
        "\<forall>held \<in> set (rt_handles rt0). served (rt_state rt0) held"
        unfolding h z(2,6,7) by (auto simp: router_exact_def)
      note st(2) [OF this]
      with st(3,4) box [OF x] z(3) show ?thesis by (auto simp: router_exact_def)
    qed
    with st(1) show ?thesis by blast
  next
    case (dec k s)
    let ?st = "handle_dec_ref s k (rt_state rt0)"
    have e: "rt' = rt0\<lparr> rt_state := ?st \<rparr>" using r' dec by (simp add: actor_dec)
    have l: "leaves k s (rt_state rt0) ?st" and lb: "rs_backlog ?st = rs_backlog (rt_state rt0)"
      using dec_ref_leaves [OF z(4)] by blast+
    have h: "holders rt0 = one_less k s (holders rt)" using dec by (auto simp: h0 fun_eq_iff)
    have pos: "0 < holders rt k s" using holders_pop(2) [OF m dec] .
    have "counted (holders rt0) ?st"
      unfolding h by (rule leaves_counted [OF l z(4)]) (simp add: z(5) router_okD(2) [OF ok])
    moreover have "bounded (n + 1) rt'" using bd0 by (simp add: e bounded_def)
    ultimately have "router_ok (n + 1) rt'"
      using leaves_state_ok [OF l z(4)] lb b z(1) by (simp add: router_ok_def e)
    moreover have "router_exact rt'" if x: "router_exact rt"
    proof -
      from x have H: "exactly_counted (holders rt) (rt_state rt0)" unfolding z(6) by (simp add: router_exact_def)
      have "served ?st held" if held: "held \<in> set (rt_handles rt)" for held
      proof (rule leaves_served [OF l z(4) H pos])
        show "served (rt_state rt0) held" using x held unfolding z(7) by (simp add: router_exact_def)
        have "held \<in> set (filter (\<lambda>held'. hd_kind held' = hd_kind held \<and> hd_symbol held' = hd_symbol held) (rt_handles rt0))"
          using held z(2) by simp
        then have "0 < holders rt0 (hd_kind held) (hd_symbol held)"
          unfolding holders_def using length_pos_if_in_set by (metis (no_types, lifting) add_gr_0)
        then show "0 < one_less k s (holders rt) (hd_kind held) (hd_symbol held)" unfolding h .
      qed
      moreover have "exactly_counted (holders rt0) ?st"
        unfolding h by (rule leaves_exactly_counted [OF l z(4) H pos])
      ultimately show ?thesis using box [OF x] z(1,2,3) by (simp add: router_exact_def e)
    qed
    ultimately show ?thesis by blast
  next
    case dump
    with r' have e: "rt' = rt0" by simp
    have h: "holders rt0 = holders rt" using h0 dump by simp
    have "router_ok (n + 1) rt'"
      using z b bd0 router_okD(2) [OF ok] by (simp add: router_ok_def e h)
    moreover have "router_exact rt \<Longrightarrow> router_exact rt'"
      using box z unfolding e router_exact_def h by simp
    ultimately show ?thesis by blast
  next
    case (upstream s r)
    let ?st = "handle_upstream_closed s r (rt_state rt0)"
    have e: "rt' = rt0\<lparr> rt_state := ?st \<rparr>" using r' upstream by simp
    have c: "closes s (rt_state rt0) ?st" and lb: "rs_backlog ?st = rs_backlog (rt_state rt0)"
      using upstream_closed_closes [OF z(4)] by blast+
    have h: "holders rt0 = holders rt" using h0 upstream by simp
    have "counted (holders rt0) ?st" unfolding h
      by (rule closes_counted [OF c z(4)]) (simp add: z(5) router_okD(2) [OF ok])
    then have "router_ok (n + 1) rt'"
      using closes_state_ok [OF c z(4)] lb b z(1) bd0 by (simp add: router_ok_def e bounded_def)
    moreover have "\<not> router_exact rt" using m upstream by (auto simp: router_exact_def)
    ultimately show ?thesis by blast
  next
    case shutdown
    let ?st = "abort_all_publishers (abort_all_publishers (rt_state rt0))"
    have e: "rt' = rt0\<lparr> rt_state := ?st, rt_mailbox := [], rt_running := False \<rparr>" using r' shutdown by simp
    have "holders rt' k s' \<le> holders rt0 k s'" for k s' by (simp add: e holders_def)
    then have "bounded (n + 1) rt'" using bd0 unfolding bounded_def by (meson order_trans)
    moreover have "state_ok (abort_all_publishers st)" if "state_ok st" for st
      using abort_all_silent [OF that] by (auto simp: state_ok_def silent_def)
    then have "state_ok ?st" "hub_of ?st = (\<lambda>_. None)" using z(4) abort_all_silent(1) by blast+
    ultimately have "router_ok (n + 1) rt'" by (simp add: router_ok_def e counted_def)
    moreover have "\<not> router_exact rt" using m shutdown by (auto simp: router_exact_def)
    ultimately show ?thesis by blast
  qed
qed

text \<open>Everything else.\<close>

lemma send_keeps:
  assumes "router_ok n rt" "\<And>k s. msg \<noteq> dec_msg k s"
  shows "router_ok n (send_control msg rt)"
proof -
  have h: "holders (send_control msg rt) = holders rt" by (simp add: holders_send assms(2))
  with assms(1) show ?thesis by (simp add: router_ok_def bounded_def split: if_splits)
qed

lemma send_keeps_exact:
  assumes "router_exact rt" "(\<exists>k s. msg = subscribe_msg k s) \<or> msg = DebugDump"
  shows "router_exact (send_control msg rt)"
proof -
  have h: "holders (send_control msg rt) = holders rt" using assms(2) by (auto simp: holders_send)
  with assms show ?thesis by (auto simp: router_exact_def)
qed

lemma filter_without:
  assumes "i < length xs"
  shows "length (filter P xs) = length (filter P (take i xs @ drop (Suc i) xs)) + (if P (xs ! i) then 1 else 0)"
  by (subst id_take_nth_drop [OF assms]) simp

lemma drop_handle_keeps:
  assumes i: "i < length (rt_handles rt)"
    and rt': "rt' = router_step (DropHandle i) rt"
  shows "router_ok n rt \<Longrightarrow> router_ok n rt'" "router_exact rt \<Longrightarrow> router_exact rt'"
proof -
  let ?held = "rt_handles rt ! i"
  define rt1 where "rt1 = rt\<lparr> rt_handles := take i (rt_handles rt) @ drop (Suc i) (rt_handles rt) \<rparr>"
  have e: "rt' = send_control (dec_msg (hd_kind ?held) (hd_symbol ?held)) rt1"
    using rt' i by (simp add: drop_guard_def rt1_def)
  have h1: "holders rt k s = holders rt1 k s + (if hd_kind ?held = k \<and> hd_symbol ?held = s then 1 else 0)" for k s
    unfolding holders_def rt1_def using filter_without [OF i, of "\<lambda>held. hd_kind held = k \<and> hd_symbol held = s"] by simp
  have z: "rt_state rt1 = rt_state rt" "rt_mailbox rt1 = rt_mailbox rt" "rt_running rt1 = rt_running rt"
    "set (rt_handles rt1) \<subseteq> set (rt_handles rt)"
    by (auto simp: rt1_def dest: in_set_takeD in_set_dropD)
  have h: "holders rt' = holders rt" if "rt_running rt"
    using that by (auto simp: e holders_send h1 z(3) fun_eq_iff)
  have le: "holders rt' k s \<le> holders rt k s" for k s by (auto simp: e holders_send h1)
  show "router_exact rt'" if x: "router_exact rt"
  proof -
    from x have run: "rt_running rt" by (simp add: router_exact_def)
    with h x z show ?thesis by (auto simp: router_exact_def e)
  qed
  show "router_ok n rt'" if ok: "router_ok n rt"
  proof -
    have "bounded n rt'" using ok le unfolding router_ok_def bounded_def by (meson order_trans)
    moreover have "counted (holders rt') (rt_state rt')"
      using ok h z(1,3) by (cases "rt_running rt") (auto simp: router_ok_def e counted_def)
    ultimately show ?thesis using ok z by (simp add: router_ok_def e split: if_splits)
  qed
qed

text \<open>A publisher that ends by itself, with and without a message.\<close>

lemma exit_keeps:
  assumes f: "\<And>hub. sh_symbol (f hub) = sh_symbol hub" "\<And>k hub. refcount_of k (f hub) = refcount_of k hub"
    "\<And>k hub. publishing k (f hub) \<Longrightarrow> publishing k hub"
    and ok: "router_ok n rt"
  shows "router_ok n (rt\<lparr> rt_state := update_hub h f (rt_state rt) \<rparr>)"
    "router_ok n (notify_upstream_closed h r (rt\<lparr> rt_state := update_hub h f (rt_state rt) \<rparr>))"
proof -
  show "router_ok n (rt\<lparr> rt_state := update_hub h f (rt_state rt) \<rparr>)"
    using ok update_frame(1,2) [OF f] unfolding router_ok_def
    by (simp add: bounded_def del: hubs_frame)
  then show "router_ok n (notify_upstream_closed h r (rt\<lparr> rt_state := update_hub h f (rt_state rt) \<rparr>))"
    unfolding notify_upstream_closed_def by (rule send_keeps) simp
qed

lemma no_receivers:
  assumes "receivers h k rt = 0" "held \<in> set (rt_handles rt)" "hd_hub held = h"
  shows "hd_kind held \<noteq> k"
  using assms by (auto simp: receivers_def filter_empty_conv)

lemma exit_keeps_exact:
  assumes f: "\<And>hub. sh_symbol (f hub) = sh_symbol hub" "\<And>k hub. refcount_of k (f hub) = refcount_of k hub"
    "\<And>k hub. publishing k (f hub) \<Longrightarrow> publishing k hub"
    and idle: "\<And>k hub. receivers h k rt \<noteq> 0 \<Longrightarrow> publishing k (f hub) = publishing k hub"
    and x: "router_exact rt"
  shows "router_exact (rt\<lparr> rt_state := update_hub h f (rt_state rt) \<rparr>)"
proof -
  have "served (update_hub h f (rt_state rt)) held" if held: "held \<in> set (rt_handles rt)" for held
  proof -
    have s: "served (rt_state rt) held" using x held by (simp add: router_exact_def)
    have "publishing (hd_kind held) (f hub) = publishing (hd_kind held) hub" if "hd_hub held = h" for hub
      using idle no_receivers [OF _ held that] by blast
    with s show ?thesis
      by (cases "hd_hub held = h"; cases "h < length (rs_hubs (rt_state rt))")
         (auto simp: served_def list_update_beyond)
  qed
  with x update_frame(3) [OF f] show ?thesis
    unfolding router_exact_def by (simp del: hubs_frame)
qed

definition quiet :: "RouterEvent \<Rightarrow> bool" where
  "quiet ev = (case ev of TickUpstreamCloses _ \<Rightarrow> False | RtBarUpstreamCloses _ \<Rightarrow> False
     | RouterDropped \<Rightarrow> False | _ \<Rightarrow> True)"

lemma router_ok_mono: "router_ok n rt \<Longrightarrow> n \<le> m \<Longrightarrow> router_ok m rt"
  unfolding router_ok_def using bounded_mono by blast

lemma finish_keeps:
  assumes "router_ok n rt"
  shows "router_ok n (rt\<lparr> rt_state := update_hub h finish_tick (rt_state rt) \<rparr>)"
    "router_ok n (rt\<lparr> rt_state := update_hub h finish_rt_bar (rt_state rt) \<rparr>)"
    "router_ok n (notify_upstream_closed h r (rt\<lparr> rt_state := update_hub h finish_tick (rt_state rt) \<rparr>))"
    "router_ok n (notify_upstream_closed h r (rt\<lparr> rt_state := update_hub h finish_rt_bar (rt_state rt) \<rparr>))"
  by (rule exit_keeps [OF _ _ _ assms]; simp)+

lemma router_step_other:
  assumes "router_ok n rt" "\<And>src waiting. ev \<noteq> Deliver src waiting"
  shows "router_ok n (router_step ev rt)"
proof (cases ev)
  case (DropHandle i)
  with drop_handle_keeps(1) [OF _ refl assms(1), of i] assms(1) show ?thesis
    by (cases "i < length (rt_handles rt)") simp_all
qed (use assms in \<open>auto simp: hub_at_def intro!: send_keeps finish_keeps\<close>)

lemma router_step_ok:
  assumes ok: "router_ok n rt" and n: "n + 1 < 2 ^ 32"
  shows "router_ok (n + 1) (router_step ev rt)"
proof (cases "\<exists>src waiting. ev = Deliver src waiting")
  case True
  then obtain src waiting where ev: "ev = Deliver src waiting" by blast
  show ?thesis
  proof (cases "rt_mailbox rt")
    case Nil
    then show ?thesis using router_ok_mono [OF ok] by (simp add: ev run_control_actor_def)
  next
    case (Cons msg rest)
    from deliver_step [OF ok n this refl, of src waiting] show ?thesis by (simp add: ev)
  qed
next
  case False
  with router_step_other [OF ok] have "router_ok n (router_step ev rt)" by blast
  then show ?thesis by (rule router_ok_mono) simp
qed

lemma router_step_exact:
  assumes ok: "router_ok n rt" and n: "n + 1 < 2 ^ 32" and x: "router_exact rt" and q: "quiet ev"
  shows "router_exact (router_step ev rt)"
proof (cases ev)
  case (Deliver src waiting)
  then show ?thesis
    using deliver_step [OF ok n _ refl, of _ _ src waiting] x
    by (cases "rt_mailbox rt") (auto simp: run_control_actor_def)
next
  case (DropHandle i)
  then show ?thesis
    using drop_handle_keeps(2) [OF _ refl x] x by (cases "i < length (rt_handles rt)") auto
next
  case (TickPublisherExits h)
  have "router_exact (rt\<lparr> rt_state := update_hub h finish_tick (rt_state rt) \<rparr>)"
    if r: "receivers h TickRef rt = 0" "receivers h WatchRef rt = 0"
  proof (rule exit_keeps_exact [OF _ _ _ _ x])
    fix k hub assume "receivers h k rt \<noteq> 0"
    with r show "publishing k (finish_tick hub) = publishing k hub" by (cases k) simp_all
  qed simp_all
  with x TickPublisherExits show ?thesis by (simp add: hub_at_def)
next
  case (RtBarPublisherExits h)
  have "router_exact (rt\<lparr> rt_state := update_hub h finish_rt_bar (rt_state rt) \<rparr>)"
    if r: "receivers h RtBarRef rt = 0"
  proof (rule exit_keeps_exact [OF _ _ _ _ x])
    fix k hub assume "receivers h k rt \<noteq> 0"
    with r show "publishing k (finish_rt_bar hub) = publishing k hub" by (cases k) simp_all
  qed simp_all
  with x RtBarPublisherExits show ?thesis by (simp add: hub_at_def)
qed (use q x in \<open>auto simp: quiet_def intro!: send_keeps_exact\<close>)

section \<open>Runs\<close>

lemma router_run_snoc: "router_run (evs @ [ev]) = router_step ev (router_run evs)"
  by (simp add: router_run_def)

lemma router_new_ok: "router_ok 0 Router_new" "router_exact Router_new"
  by (auto simp: router_ok_def router_exact_def Router_new_def RouterState_new_def state_ok_def
      counted_def exactly_counted_def bounded_def holders_def hub_of_def)

lemma router_run_ok: "length evs < 2 ^ 32 \<Longrightarrow> router_ok (length evs) (router_run evs)"
proof (induction evs rule: rev_induct)
  case Nil
  then show ?case using router_new_ok(1) by (simp add: router_run_def)
next
  case (snoc ev evs)
  from snoc have "router_ok (length evs) (router_run evs)" by simp
  from router_step_ok [OF this] snoc.prems show ?case by (simp add: router_run_snoc)
qed

lemma router_run_exact:
  "length evs < 2 ^ 32 \<Longrightarrow> \<forall>ev \<in> set evs. quiet ev \<Longrightarrow> router_exact (router_run evs)"
proof (induction evs rule: rev_induct)
  case Nil
  then show ?case using router_new_ok(2) by (simp add: router_run_def)
next
  case (snoc ev evs)
  then have "router_ok (length evs) (router_run evs)" "router_exact (router_run evs)"
    by (simp_all add: router_run_ok)
  with snoc.prems show ?case by (simp add: router_run_snoc router_step_exact)
qed

text \<open>C5: Clients subscribe to ticks, bars and quotes and drop their handles in any order, replies
  find their client gone, calls to the provider fail or hang, idle publishers exit: as long as no
  upstream stream closes and the router lives, the hub behind every live handle is the one its
  symbol maps to and its publisher runs, and every refcount is exactly the number of handles
  alive plus the drops the actor has not seen.\<close>

theorem consumers_are_served:
  assumes "length evs < 2 ^ 32" "\<forall>ev \<in> set evs. quiet ev" and rt: "rt = router_run evs"
  shows "(\<forall>held \<in> set (rt_handles rt). hub_of (rt_state rt) (hd_symbol held) = Some (hd_hub held)
      \<and> publishing (hd_kind held) (rs_hubs (rt_state rt) ! hd_hub held))
    \<and> (\<forall>s k. holders rt k s = (case hub_of (rt_state rt) s of None \<Rightarrow> 0
        | Some h \<Rightarrow> unat (refcount_of k (rs_hubs (rt_state rt) ! h))))"
  using router_run_exact [OF assms(1,2)]
  unfolding router_exact_def served_def exactly_counted_def rt by blast

text \<open>C9: No subscription outlives its consumers. Whatever happened, upstream closures included,
  once no handle is alive and the mailbox is empty, or the actor has stopped, no symbol maps to a
  hub and no publisher runs, so no wire subscription is held.\<close>

theorem nothing_leaks:
  assumes "length evs < 2 ^ 32" and rt: "rt = router_run evs"
    and "rt_handles rt = [] \<and> rt_mailbox rt = [] \<or> \<not> rt_running rt"
  shows "hub_of (rt_state rt) = (\<lambda>_. None) \<and> (\<forall>hub \<in> set (rs_hubs (rt_state rt)). silent hub)"
proof -
  have ok: "router_ok (length evs) rt" unfolding rt by (rule router_run_ok [OF assms(1)])
  have none: "hub_of (rt_state rt) s = None" for s
  proof (cases "rt_running rt")
    case True
    with assms(3) have z: "holders rt k s = 0" for k by (simp add: holders_def)
    show ?thesis
    proof (rule ccontr)
      assume "hub_of (rt_state rt) s \<noteq> None"
      then obtain h where h: "hub_of (rt_state rt) s = Some h" by blast
      obtain k where k: "refcount_of k (rs_hubs (rt_state rt) ! h) \<noteq> 0"
        using state_okD(1) [OF router_okD(1) [OF ok] h] by blast
      have "unat (refcount_of k (rs_hubs (rt_state rt) ! h)) \<le> holders rt k s"
        using router_okD(2) [OF ok] h by (auto simp: counted_def)
      with z k show False by (simp add: unat_eq_zero)
    qed
  next
    case False
    with ok show ?thesis by (simp add: router_ok_def)
  qed
  have "silent hub" if "hub \<in> set (rs_hubs (rt_state rt))" for hub
  proof -
    from that obtain h where h: "h < length (rs_hubs (rt_state rt))" "rs_hubs (rt_state rt) ! h = hub"
      by (auto simp: in_set_conv_nth)
    show ?thesis using state_okD(2) [OF router_okD(1) [OF ok] h(1)] none h(2) by (auto simp: silent_def)
  qed
  with none show ?thesis by auto
qed

text \<open>C28: The provider serves each symbol at most once: whatever happened, two hubs that publish the
  same kind of data for a symbol are the same hub.\<close>

theorem one_stream_per_symbol:
  assumes "length evs < 2 ^ 32" and rt: "rt = router_run evs"
    and "h < length (rs_hubs (rt_state rt))" "i < length (rs_hubs (rt_state rt))"
    and "publishing k (rs_hubs (rt_state rt) ! h)" "publishing k (rs_hubs (rt_state rt) ! i)"
    and "sh_symbol (rs_hubs (rt_state rt) ! h) = sh_symbol (rs_hubs (rt_state rt) ! i)"
  shows "h = i"
proof -
  have ok: "router_ok (length evs) rt" unfolding rt by (rule router_run_ok [OF assms(1)])
  show ?thesis
    using state_okD(2) [OF router_okD(1) [OF ok] assms(3,5)]
      state_okD(2) [OF router_okD(1) [OF ok] assms(4,6)] unfolding assms(7) by (metis option.inject)
qed

text \<open>The backlog counter is the length of the mailbox while the actor runs.\<close>

lemma backlog_is_mailbox_length:
  "length evs < 2 ^ 32 \<Longrightarrow> rt_running (router_run evs) \<Longrightarrow>
     rs_backlog (rt_state (router_run evs)) = of_nat (length (rt_mailbox (router_run evs)))"
  using router_run_ok [of evs] by (simp add: router_ok_def)

text \<open>C36: A subscription the provider refuses, or does not answer in time, leaves no trace but a
  resolved contract: no hub is made, no refcount moves, no publisher starts, the map keeps its
  entries.\<close>

theorem failed_subscription_leaves_no_trace:
  assumes "subscribe_handler kind src s st = (Err e, st')"
  shows "st' = st\<lparr> rs_contract_cache := rs_contract_cache st' \<rparr>"
  using subscribe_err [OF assms] by (auto simp: cache_only_def)

text \<open>C10: After an upstream closure a consumer can be cut off silently. A client subscribes, the
  upstream closes, the client subscribes again and then drops its first handle: the guard knows
  the symbol only, so the drop is counted against the new hub, which is reaped. The second handle
  is alive, but its hub is gone from the map, its publisher is aborted, and it is given no end
  reason.\<close>

theorem stale_handle_reaps_the_new_hub:
  assumes "src_resolve_contract src s Stock ''SMART'' = Answered (Ok details)"
    and "src_subscribe_ticks src s (cd_contract_id details) = Answered (Ok ())"
    and rt: "rt = router_run [SubscribeCall TickRef s, Deliver src True, TickUpstreamCloses 0,
      Deliver src True, SubscribeCall TickRef s, Deliver src True, DropHandle 0, Deliver src True]"
  shows "rt_handles rt = [\<lparr> hd_hub = 1, hd_kind = TickRef, hd_symbol = s \<rparr>]
    \<and> hub_of (rt_state rt) s = None \<and> sh_tick_publisher_task (rs_hubs (rt_state rt) ! 1) = None
    \<and> sh_end_reason (rs_hubs (rt_state rt) ! 1) = None"
  unfolding rt using assms(1,2)
  by (simp add: router_run_def Router_new_def RouterState_new_def run_control_actor_def
      send_control_def bump_backlog_def drop_backlog_def handle_subscribe_ticks_def
      subscribe_tick_publisher_def hub_of_def resolve_con_id_def with_op_timeout_def
      subscribe_ticks_upstream_def alloc_hub_def spawn_tick_publisher_on_def SymbolHub_new_def
      insert_hub_def note_resubscribe_after_disconnect_def reply_def hub_at_def finish_tick_def
      update_hub_def notify_upstream_closed_def handle_upstream_closed_def abort_tick_publisher_def
      abort_rt_bar_publisher_def remove_hub_def drop_guard_def handle_dec_ref_def maybe_reap_def
      reap_tasks_def Let_def)

section \<open>The theorems at work\<close>

definition aapl :: SymbolKey where
  "aapl = \<lparr> sk_contract_id = 265598, sk_symbol = ''AAPL'' \<rparr>"

definition aapl_details :: ContractDetails where
  "aapl_details = \<lparr> cd_contract_id = 265598, cd_symbol = ''AAPL'', cd_sec_type = Stock,
     cd_exchange = ''SMART'', cd_primary_exchange = None, cd_currency = ''USD'', cd_long_name = None,
     cd_min_tick = f64_zero, cd_multiplier = None, cd_trading_class = None \<rparr>"

definition open_source :: MarketDataSource where
  "open_source = \<lparr> src_resolve_contract = (\<lambda>_ _ _. Answered (Ok aapl_details)),
     src_subscribe_ticks = (\<lambda>_ _. Answered (Ok ())),
     src_subscribe_realtime_bars = (\<lambda>_ _. Answered (Ok ())) \<rparr>"

definition silent_source :: MarketDataSource where
  "silent_source = open_source\<lparr> src_subscribe_ticks := (\<lambda>_ _. Elapsed) \<rparr>"

definition shared_run :: "RouterEvent list" where
  "shared_run = [SubscribeCall TickRef aapl, SubscribeCall WatchRef aapl, Deliver open_source True,
     Deliver open_source True, SubscribeCall RtBarRef aapl, Deliver open_source False, DropHandle 0,
     Deliver open_source True]"

definition closing_run :: "RouterEvent list" where
  "closing_run = [SubscribeCall TickRef aapl, Deliver open_source True, TickUpstreamCloses 0,
     Deliver open_source True, DropHandle 0, Deliver open_source True]"

lemma consumers_are_served_witness:
  "\<exists>held. rt_handles (router_run shared_run) = [held]
     \<and> hub_of (rt_state (router_run shared_run)) (hd_symbol held) = Some (hd_hub held)
     \<and> publishing (hd_kind held) (rs_hubs (rt_state (router_run shared_run)) ! hd_hub held)"
proof -
  have "length (rt_handles (router_run shared_run)) = 1" by code_simp
  then obtain held where h: "rt_handles (router_run shared_run) = [held]"
    by (auto simp: length_Suc_conv)
  have "length shared_run < 2 ^ 32" "\<forall>ev \<in> set shared_run. quiet ev"
    by (simp_all add: shared_run_def quiet_def)
  from consumers_are_served [OF this refl] h show ?thesis by simp
qed

lemma nothing_leaks_witness:
  "rt_handles (router_run closing_run) = [] \<and> rt_mailbox (router_run closing_run) = []
   \<and> length (rs_hubs (rt_state (router_run closing_run))) = 1
   \<and> hub_of (rt_state (router_run closing_run)) = (\<lambda>_. None)
   \<and> silent (rs_hubs (rt_state (router_run closing_run)) ! 0)"
proof -
  have "rt_handles (router_run closing_run) = []" "rt_mailbox (router_run closing_run) = []"
    "length (rs_hubs (rt_state (router_run closing_run))) = 1" by code_simp+
  moreover have "length closing_run < 2 ^ 32" by (simp add: closing_run_def)
  note nothing_leaks [OF this refl]
  ultimately show ?thesis by simp
qed

lemma one_stream_per_symbol_witness:
  "{h. h < length (rs_hubs (rt_state (router_run shared_run)))
      \<and> publishing TickRef (rs_hubs (rt_state (router_run shared_run)) ! h)
      \<and> sh_symbol (rs_hubs (rt_state (router_run shared_run)) ! h) = aapl} = {0}"
proof -
  let ?rt = "router_run shared_run"
  have z: "0 < length (rs_hubs (rt_state ?rt))" "publishing TickRef (rs_hubs (rt_state ?rt) ! 0)"
    "sh_symbol (rs_hubs (rt_state ?rt) ! 0) = aapl" by code_simp+
  have "length shared_run < 2 ^ 32" by (simp add: shared_run_def)
  note u = one_stream_per_symbol [OF this refl _ z(1) _ z(2)]
  from z u show ?thesis by auto
qed

lemma failed_subscription_leaves_no_trace_witness:
  "\<exists>e st'. subscribe_handler TickRef silent_source aapl RouterState_new = (Err e, st')
     \<and> rs_contract_cache st' = [(aapl, aapl_details)]
     \<and> st' = RouterState_new\<lparr> rs_contract_cache := rs_contract_cache st' \<rparr>"
proof -
  obtain e st' where r: "subscribe_handler TickRef silent_source aapl RouterState_new = (Err e, st')"
    and "rs_contract_cache st' = [(aapl, aapl_details)]"
    by (simp add: handle_subscribe_ticks_def subscribe_tick_publisher_def hub_of_def
        RouterState_new_def resolve_con_id_def with_op_timeout_def subscribe_ticks_upstream_def
        silent_source_def open_source_def)
  with failed_subscription_leaves_no_trace [OF r] show ?thesis by blast
qed

definition stale_run :: "RouterEvent list" where
  "stale_run = [SubscribeCall TickRef aapl, Deliver open_source True, TickUpstreamCloses 0,
     Deliver open_source True, SubscribeCall TickRef aapl, Deliver open_source True, DropHandle 0,
     Deliver open_source True]"

lemma stale_handle_reaps_the_new_hub_witness:
  "rt_handles (router_run stale_run) = [\<lparr> hd_hub = 1, hd_kind = TickRef, hd_symbol = aapl \<rparr>]
     \<and> hub_of (rt_state (router_run stale_run)) aapl = None"
proof -
  have "src_resolve_contract open_source aapl Stock ''SMART'' = Answered (Ok aapl_details)"
    "src_subscribe_ticks open_source aapl (cd_contract_id aapl_details) = Answered (Ok ())"
    by (simp_all add: open_source_def)
  from stale_handle_reaps_the_new_hub [OF this stale_run_def [THEN arg_cong, of router_run]]
  show ?thesis by blast
qed

end
