(* ===== verification/Market_Seam.thy ===== *)
theory Market_Seam imports Market_Aggregator begin

text \<open>
  Streams handed to consumers: \<open>GuardedStream\<close> of \<open>crates/midas-market-data/src/router/handle.rs\<close>,
  which ends at the first gap, and the join of history and live bars of
  \<open>crates/midas-market-data/src/router/history_seam.rs\<close>.
\<close>

section \<open>The guarded stream\<close>

text \<open>One poll of a stream over the items its receiver will yield: the item, and the stream left.\<close>

record 'a GuardedStream =
  gs_inner :: "'a upstream_item list"
  gs_closed :: bool

datatype 'a stream_poll = Ready "'a option" | Pending

fun poll_next :: "'a GuardedStream \<Rightarrow> 'a stream_poll \<times> 'a GuardedStream" where
  "poll_next s =
    (if gs_closed s then (Ready None, s)
     else case gs_inner s of
       [] \<Rightarrow> (Pending, s)
     | Item v # rest \<Rightarrow> (Ready (Some v), s\<lparr> gs_inner := rest \<rparr>)
     | Lagged n # rest \<Rightarrow> (Ready None, s\<lparr> gs_inner := rest, gs_closed := True \<rparr>)
     | Closed # rest \<Rightarrow> (Ready None, s\<lparr> gs_inner := rest, gs_closed := True \<rparr>))"

text \<open>What \<open>n\<close> polls yield.\<close>

fun polls :: "nat \<Rightarrow> 'a GuardedStream \<Rightarrow> 'a stream_poll list" where
  "polls 0 s = []"
| "polls (Suc n) s = (case poll_next s of (p, s') \<Rightarrow> p # polls n s')"

definition into_stream :: "'a upstream_item list \<Rightarrow> 'a GuardedStream" where
  "into_stream items = \<lparr> gs_inner = items, gs_closed = False \<rparr>"

text \<open>The items before the first gap.\<close>

fun before_gap :: "'a upstream_item list \<Rightarrow> 'a list" where
  "before_gap (Item v # items) = v # before_gap items"
| "before_gap _ = []"

definition has_gap :: "'a upstream_item list \<Rightarrow> bool" where
  "has_gap items = (\<exists>i \<in> set items. \<forall>v. i \<noteq> Item v)"

section \<open>History then live\<close>

text \<open>
  The live subscription, the contract and the history are answers of the router and the provider;
  \<open>items\<close> is what the live subscription's receiver will yield from the moment it was opened.
\<close>

definition history_then_live ::
  "(Bar upstream_item list, MarketDataError) rust_result \<Rightarrow> (ContractDetails, MarketDataError) rust_result
     \<Rightarrow> (i32 \<Rightarrow> (Bar list \<times> DateTime, MarketDataError) rust_result)
     \<Rightarrow> (Bar list, MarketDataError) rust_result" where
  "history_then_live live_handle contract historical_bars =
    (case live_handle of
       Inl e \<Rightarrow> Err e
     | Inr items \<Rightarrow>
        (case contract of
           Inl e \<Rightarrow> Err e
         | Inr details \<Rightarrow>
            (case historical_bars (cd_contract_id details) of
               Inl e \<Rightarrow> Err e
             | Inr (bars, t_server) \<Rightarrow>
                 Ok (bars @ filter (\<lambda>bar. bar_ts_open bar > t_server) (before_gap items)))))"

section \<open>What they promise\<close>

lemma polls_closed: "gs_closed s \<Longrightarrow> polls n s = replicate n (Ready None)"
  by (induction n arbitrary: s) auto

text \<open>A guarded stream yields the items received before the first gap, in order, then ends, and
  stays ended however often it is polled.\<close>

lemma guarded_stream_ends_at_gap:
  assumes "has_gap items"
  shows "polls (length (before_gap items) + n) (into_stream items)
     = map (\<lambda>v. Ready (Some v)) (before_gap items) @ replicate n (Ready None)"
proof -
  have "has_gap items \<Longrightarrow> polls (length (before_gap items) + n) (into_stream items)
     = map (\<lambda>v. Ready (Some v)) (before_gap items) @ replicate n (Ready None)"
  proof (induction items rule: before_gap.induct)
    case (1 v items)
    then show ?case by (auto simp: has_gap_def into_stream_def)
  qed (cases n; auto simp: into_stream_def polls_closed has_gap_def)+
  with assms show ?thesis by blast
qed

text \<open>The seam between history and live bars has no duplicate and keeps the order: if the history
  is strictly ordered by opening time and does not go past the server's cutoff, and the live bars
  are strictly ordered, so is the whole stream, and it holds every history bar and every live bar
  after the cutoff that came before a gap.\<close>

lemma seam_is_ordered:
  assumes "history_then_live (Ok items) (Ok details) historical_bars = Ok out"
    and "historical_bars (cd_contract_id details) = Ok (bars, t_server)"
    and "sorted_wrt (\<lambda>a b. bar_ts_open a < bar_ts_open b) bars" "\<forall>b \<in> set bars. bar_ts_open b \<le> t_server"
    and "sorted_wrt (\<lambda>a b. bar_ts_open a < bar_ts_open b) (before_gap items)"
  shows "sorted_wrt (\<lambda>a b. bar_ts_open a < bar_ts_open b) out
    \<and> set out = set bars \<union> {b \<in> set (before_gap items). t_server < bar_ts_open b}"
  using assms by (fastforce simp: history_then_live_def sorted_wrt_append sorted_wrt_filter)

section \<open>The theorem at work\<close>

definition bar_at :: "int \<Rightarrow> Bar" where
  "bar_at ts = \<lparr> bar_symbol = \<lparr> sk_contract_id = 1, sk_symbol = ''A'' \<rparr>, bar_timeframe = S5,
     bar_ts_open = ts, bar_ts_close = ts + 5 * nanos, bar_o = f64_one, bar_h = f64_one,
     bar_l = f64_one, bar_c = f64_one, bar_volume = 10, bar_trade_count = 2, bar_wap = None,
     bar_completeness = CompletedBar \<rparr>"

definition seam_history :: "i32 \<Rightarrow> (Bar list \<times> DateTime, MarketDataError) rust_result" where
  "seam_history con_id = Ok ([bar_at 0, bar_at 5], 5)"

definition seam_details :: ContractDetails where
  "seam_details = \<lparr> cd_contract_id = 1, cd_symbol = ''A'', cd_sec_type = Stock,
     cd_exchange = ''SMART'', cd_primary_exchange = None, cd_currency = ''USD'', cd_long_name = None,
     cd_min_tick = f64_zero, cd_multiplier = None, cd_trading_class = None \<rparr>"

lemma seam_is_ordered_witness:
  "\<exists>out. history_then_live (Ok [Item (bar_at 5), Item (bar_at 10), Lagged 2, Item (bar_at 99)])
      (Ok seam_details) seam_history = Ok out
    \<and> sorted_wrt (\<lambda>a b. bar_ts_open a < bar_ts_open b) out \<and> length out = 3"
proof -
  let ?items = "[Item (bar_at 5), Item (bar_at 10), Lagged 2, Item (bar_at 99)]"
  have r: "history_then_live (Ok ?items) (Ok seam_details) seam_history
      = Ok [bar_at 0, bar_at 5, bar_at 10]"
    by (simp add: history_then_live_def seam_history_def bar_at_def)
  have "sorted_wrt (\<lambda>a b. bar_ts_open a < bar_ts_open b) [bar_at 0, bar_at 5, bar_at 10]"
    using seam_is_ordered [OF r, of "[bar_at 0, bar_at 5]" 5]
    by (simp add: seam_history_def bar_at_def)
  with r show ?thesis by simp
qed

end
