(* ===== verification/Sim_Scheduler.thy ===== *)
theory Sim_Scheduler imports Sim_Clock begin

text \<open>
  The deterministic event queue of the simulator, \<open>crates/midas-ib-sim/src/engine/scheduler.rs\<close>,
  and the loop with which the engine drains it (\<open>engine/orchestrator.rs\<close>, \<open>tick\<close>). Sequence
  numbers are naturals: the 64-bit counter of the code is not exhausted by any run.
\<close>

record SubKey =
  sub_session :: u64
  sub_req_id :: i32
  sub_contract_id :: i32
  sub_symbol :: string

datatype EngineAction =
    EmitTick SubKey
  | EmitFillPatternStep i32 u32
  | EmitFarmStatus i32 string bool
  | EmitDailyRestart
  | DeliverHistoricalBatch u64 SubKey
  | Deferred string

record ScheduledEvent =
  se_deadline :: VirtualInstant
  se_seq :: nat
  se_action :: EngineAction

definition event_key :: "ScheduledEvent \<Rightarrow> VirtualInstant \<times> nat" where
  "event_key e = (se_deadline e, se_seq e)"

record EventScheduler =
  es_queue :: "ScheduledEvent list"
  es_next_seq :: nat

definition scheduler_new :: EventScheduler where
  "scheduler_new = \<lparr> es_queue = heap_empty, es_next_seq = 0 \<rparr>"

definition sched_len :: "EventScheduler \<Rightarrow> nat" where
  "sched_len s = length (es_queue s)"

definition schedule :: "VirtualInstant \<Rightarrow> EngineAction \<Rightarrow> EventScheduler \<Rightarrow> EventScheduler" where
  "schedule deadline action s =
    (let seq = es_next_seq s
     in s\<lparr> es_next_seq := es_next_seq s + 1,
           es_queue := heap_push event_key
             \<lparr> se_deadline = deadline, se_seq = seq, se_action = action \<rparr> (es_queue s) \<rparr>)"

definition peek_deadline :: "EventScheduler \<Rightarrow> VirtualInstant option" where
  "peek_deadline s = map_option se_deadline (heap_peek (es_queue s))"

definition pop_if_due :: "VirtualInstant \<Rightarrow> EventScheduler \<Rightarrow> EngineAction option \<times> EventScheduler" where
  "pop_if_due now s =
    (case heap_pop (es_queue s) of
       Some (e, rest) \<Rightarrow>
         if se_deadline e \<le> now then (Some (se_action e), s\<lparr> es_queue := rest \<rparr>) else (None, s)
     | None \<Rightarrow> (None, s))"

text \<open>\<open>while let Some(action) = scheduler.pop_if_due(now)\<close>: the actions in firing order.\<close>

function fire_due :: "VirtualInstant \<Rightarrow> EventScheduler \<Rightarrow> EngineAction list \<times> EventScheduler" where
  "fire_due now s =
    (case pop_if_due now s of
       (None, s') \<Rightarrow> ([], s')
     | (Some a, s') \<Rightarrow> (case fire_due now s' of (as, s'') \<Rightarrow> (a # as, s'')))"
  by pat_completeness auto
termination
  by (relation "measure (\<lambda>(_, s). length (es_queue s))")
    (auto simp: pop_if_due_def heap_pop_def split: list.splits if_splits)

declare fire_due.simps [simp del]

fun schedule_all :: "(VirtualInstant \<times> EngineAction) list \<Rightarrow> EventScheduler \<Rightarrow> EventScheduler" where
  "schedule_all [] s = s"
| "schedule_all ((d, a) # evs) s = schedule_all evs (schedule d a s)"

definition sched_ok :: "EventScheduler \<Rightarrow> bool" where
  "sched_ok s \<longleftrightarrow> heap_sorted event_key (es_queue s) \<and> distinct (map se_seq (es_queue s))
     \<and> (\<forall>e\<in>set (es_queue s). se_seq e < es_next_seq s)"

lemma sched_ok_new: "sched_ok scheduler_new"
  by (simp add: sched_ok_def scheduler_new_def heap_empty_def heap_sorted_def)

lemma mset_schedule: "mset (es_queue (schedule d a s)) =
    add_mset \<lparr> se_deadline = d, se_seq = es_next_seq s, se_action = a \<rparr> (mset (es_queue s))"
  by (simp add: schedule_def Let_def heap_push_def)

lemma es_next_seq_schedule [simp]: "es_next_seq (schedule d a s) = es_next_seq s + 1"
  by (simp add: schedule_def Let_def)

lemma fire_due_drains:
  "fire_due now s = (as, s') \<Longrightarrow>
     \<exists>es. as = map se_action es \<and> es_next_seq s' = es_next_seq s
       \<and> drains heap_pop (\<lambda>e. se_deadline e \<le> now) (es_queue s) es (es_queue s')"
proof (induction now s arbitrary: as s' rule: fire_due.induct)
  case (1 now s)
  show ?case
  proof (cases "heap_pop (es_queue s)")
    case None
    with 1(2) show ?thesis
      by (auto simp: fire_due.simps [of now s] pop_if_due_def intro: drain_empty)
  next
    case (Some p)
    then obtain e rest where pop: "heap_pop (es_queue s) = Some (e, rest)" by (cases p) auto
    show ?thesis
    proof (cases "se_deadline e \<le> now")
      case True
      let ?t = "s\<lparr>es_queue := rest\<rparr>"
      obtain bs t where r: "fire_due now ?t = (bs, t)" by (cases "fire_due now ?t")
      have d: "pop_if_due now s = (Some (se_action e), ?t)" using pop True by (simp add: pop_if_due_def)
      with 1(2) r have res: "as = se_action e # bs" "s' = t" by (auto simp: fire_due.simps [of now s])
      from 1(1) [OF d [symmetric] refl r] obtain es where "bs = map se_action es"
        "es_next_seq t = es_next_seq s" "drains heap_pop (\<lambda>e. se_deadline e \<le> now) rest es (es_queue t)"
        by auto
      with res pop True show ?thesis
        by (intro exI [of _ "e # es"]) (auto intro: drain_pop)
    next
      case False
      with 1(2) pop show ?thesis
        by (auto simp: fire_due.simps [of now s] pop_if_due_def intro: drain_stop)
    qed
  qed
qed


section \<open>Firing order\<close>

text \<open>The events that scheduling a list of requests creates, in scheduling order.\<close>

fun events_from :: "nat \<Rightarrow> (VirtualInstant \<times> EngineAction) list \<Rightarrow> ScheduledEvent list" where
  "events_from n [] = []"
| "events_from n ((d, a) # evs) = \<lparr> se_deadline = d, se_seq = n, se_action = a \<rparr> # events_from (n + 1) evs"

lemma schedule_all_queue:
  "mset (es_queue (schedule_all evs s)) = mset (es_queue s) + mset (events_from (es_next_seq s) evs)"
  by (induction evs s rule: schedule_all.induct) (simp_all add: mset_schedule)

lemma heap_sorted_schedule_all:
  "heap_sorted event_key (es_queue s) \<Longrightarrow> heap_sorted event_key (es_queue (schedule_all evs s))"
  by (induction evs s rule: schedule_all.induct)
    (simp_all add: schedule_def Let_def heap.invar_push)

lemma events_from_seqs: "map se_seq (events_from n evs) = [n ..< n + length evs]"
  by (induction n evs rule: events_from.induct) (simp_all add: upt_rec)

lemma events_from_requests: "map (\<lambda>e. (se_deadline e, se_action e)) (events_from n evs) = evs"
  by (induction n evs rule: events_from.induct) simp_all

lemma sched_ok_schedule_all: "sched_ok (schedule_all evs scheduler_new)"
proof -
  have q: "mset (es_queue (schedule_all evs scheduler_new)) = mset (events_from 0 evs)"
    by (simp add: schedule_all_queue scheduler_new_def heap_empty_def)
  have n: "es_next_seq (schedule_all evs s) = es_next_seq s + length evs" for s
    by (induction evs s rule: schedule_all.induct) simp_all
  have "mset (map se_seq (es_queue (schedule_all evs scheduler_new))) = mset [0 ..< length evs]"
    using q events_from_seqs [of 0 evs] by (metis add_0 mset_map)
  then have seqs: "distinct (map se_seq (es_queue (schedule_all evs scheduler_new)))"
    "set (map se_seq (es_queue (schedule_all evs scheduler_new))) = {0 ..< length evs}"
    by (metis distinct_upt mset_eq_imp_distinct_iff, metis atLeastLessThan_upt mset_eq_setD)
  have "heap_sorted event_key (es_queue (schedule_all evs scheduler_new))"
    by (rule heap_sorted_schedule_all) (simp add: scheduler_new_def heap.invar_empty)
  with seqs show ?thesis
    by (auto simp: sched_ok_def n) (auto simp: scheduler_new_def)
qed

text \<open>
  C38: the engine fires events in deadline order and, among events of one deadline, in the order in
  which they were scheduled: after scheduling a list of requests on a new scheduler, draining it at
  some instant yields the actions of the requests due by then, stably sorted by deadline, and
  leaves exactly the other events queued. Two runs with the same requests fire the same actions.
\<close>

theorem fire_due_is_stable_deadline_order:
  "map_prod id (\<lambda>s. mset (map (\<lambda>e. (se_deadline e, se_action e)) (es_queue s)))
      (fire_due now (schedule_all evs scheduler_new))
   = (map snd (sort_key fst (filter (\<lambda>(d, _). d \<le> now) evs)),
      mset (filter (\<lambda>(d, _). now < d) evs))"
proof -
  let ?P = "\<lambda>e. se_deadline e \<le> now" and ?r = "\<lambda>e. (se_deadline e, se_action e)"
  let ?s = "schedule_all evs scheduler_new" and ?E = "events_from 0 evs"
  obtain as s' where fire: "fire_due now ?s = (as, s')" by (cases "fire_due now ?s")
  from fire_due_drains [OF this] obtain es where es: "as = map se_action es"
    "drains heap_pop ?P (es_queue ?s) es (es_queue s')" by blast
  have q: "mset (es_queue ?s) = mset ?E"
    by (simp add: schedule_all_queue scheduler_new_def heap_empty_def)
  have ex: "mset es = filter_mset ?P (mset ?E) \<and> mset (es_queue s') = filter_mset (\<lambda>e. \<not> ?P e) (mset ?E)
      \<and> sorted (map event_key es) \<and> heap_sorted event_key (es_queue s')"
    unfolding q [symmetric]
    by (rule heap.drains_exact [OF es(2)]) (use sched_ok_schedule_all [of evs] in
        \<open>auto simp: sched_ok_def event_key_def less_eq_prod_def\<close>)
  have "sorted (map se_seq (filter ?P ?E))"
    using events_from_seqs [of 0 evs] by (intro sorted_filter) simp
  then have st: "sorted (map event_key (sort_key se_deadline (filter ?P ?E)))"
    unfolding event_key_def by (rule sort_key_stable_pair)
  have "inj_on se_seq (set ?E)"
    using events_from_seqs [of 0 evs] by (metis distinct_map distinct_upt)
  then have "inj_on event_key (set ?E)" by (auto simp: inj_on_def event_key_def)
  moreover have "set es \<subseteq> set ?E" using ex by (metis filter_is_subset mset_eq_setD mset_filter)
  ultimately have "es = sort_key se_deadline (filter ?P ?E)"
    using ex st by (intro sorted_keys_unique [where key = event_key]) (auto intro: inj_on_subset)
  then have "as = map snd (map ?r (sort_key (fst \<circ> ?r) (filter ?P ?E)))"
    unfolding es(1) by (simp add: comp_def)
  also have "\<dots> = map snd (sort_key fst (filter (\<lambda>(d, _). d \<le> now) (map ?r ?E)))"
    unfolding map_sort_key by (simp add: filter_map comp_def)
  finally have "as = map snd (sort_key fst (filter (\<lambda>(d, _). d \<le> now) evs))"
    by (simp add: events_from_requests)
  moreover have "mset (map ?r (es_queue s')) = mset (filter (\<lambda>(d, _). now < d) (map ?r ?E))"
    using ex by (simp add: filter_map comp_def not_le)
  ultimately show ?thesis unfolding fire by (simp add: events_from_requests)
qed

end
