(* ===== verification/Sim_Types.thy ===== *)
theory Sim_Types imports Sim_Scheduler Std_Strings Order_Client begin

text \<open>
  Types the parts of the simulator share (\<open>crates/midas-ib-sim/src/engine/types.rs\<close> and the
  contract specification of \<open>crates/midas-broker-core/src/lib.rs\<close>), and the table of IB error
  codes, \<open>crates/midas-ib-sim/src/quirks/error_codes.rs\<close>.
\<close>

type_synonym SessionId = u64
type_synonym ReqId = i32

datatype OptionRight = Call | Put

datatype ContractSpec =
    Stock_spec string string string            \<comment> \<open>symbol, exchange, currency\<close>
  | Option_spec string string f64 OptionRight string \<comment> \<open>symbol, expiry, strike, right, exchange\<close>
  | Future_spec string string string           \<comment> \<open>symbol, expiry, exchange\<close>
  | Forex_spec string                          \<comment> \<open>pair\<close>

record HistoricalReq =
  hr_contract :: ContractSpec
  hr_end_date_time :: string
  hr_duration :: string
  hr_bar_size :: string
  hr_what_to_show :: string
  hr_use_rth :: bool
  hr_format_date :: i32
  hr_keep_up_to_date :: bool

datatype ViolationAction = DisconnectAfterError | RejectRequest | WarnOnly

datatype QuirkViolation =
    RateLimit i32 string ViolationAction
  | LineLimit i32 string ViolationAction
  | HistoricalPacingViolation i32 string ViolationAction
  | TickByTickLimit i32 string ViolationAction
  | DuplicateOrderId i32 string i32
  | UnknownContract i32 string ReqId
  | MarketDataNotSubscribed i32 string ReqId

section \<open>Error codes\<close>

definition MSG_RATE_EXCEEDED :: i32 where "MSG_RATE_EXCEEDED = 100"
definition DUPLICATE_ORDER_ID :: i32 where "DUPLICATE_ORDER_ID = 103"
definition CANT_MODIFY_FILLED :: i32 where "CANT_MODIFY_FILLED = 104"
definition PRICE_NOT_MIN_TICK :: i32 where "PRICE_NOT_MIN_TICK = 110"
definition HISTORICAL_PACING :: i32 where "HISTORICAL_PACING = 162"
definition NO_SECURITY_DEF :: i32 where "NO_SECURITY_DEF = 200"
definition ORDER_REJECTED :: i32 where "ORDER_REJECTED = 201"
definition ORDER_CANCELLED :: i32 where "ORDER_CANCELLED = 202"
definition CLIENT_ID_IN_USE :: i32 where "CLIENT_ID_IN_USE = 326"
definition MD_NOT_SUBSCRIBED :: i32 where "MD_NOT_SUBSCRIBED = 354"
definition FARM_LOST :: i32 where "FARM_LOST = 1100"
definition FARM_RESTORED_NO_DATA :: i32 where "FARM_RESTORED_NO_DATA = 1101"
definition FARM_RESTORED_DATA :: i32 where "FARM_RESTORED_DATA = 1102"
definition TWS_DAILY_RESTART :: i32 where "TWS_DAILY_RESTART = 1300"
definition MD_FARM_BROKEN :: i32 where "MD_FARM_BROKEN = 2103"
definition MD_FARM_OK_USFARM :: i32 where "MD_FARM_OK_USFARM = 2104"
definition HMDS_FARM_BROKEN :: i32 where "HMDS_FARM_BROKEN = 2105"
definition HMDS_FARM_OK_USHMDS :: i32 where "HMDS_FARM_OK_USHMDS = 2106"
definition SEC_DEF_FARM_DISCONNECTED :: i32 where "SEC_DEF_FARM_DISCONNECTED = 2108"
definition SEC_DEF_FARM_OK :: i32 where "SEC_DEF_FARM_OK = 2158"
definition ORDER_NOT_YET_TRANSMITTED :: i32 where "ORDER_NOT_YET_TRANSMITTED = 10147"
definition LINE_CAP_OVERFLOW :: i32 where "LINE_CAP_OVERFLOW = 10197"

lemmas code_defs = MSG_RATE_EXCEEDED_def DUPLICATE_ORDER_ID_def CANT_MODIFY_FILLED_def
  PRICE_NOT_MIN_TICK_def HISTORICAL_PACING_def NO_SECURITY_DEF_def ORDER_REJECTED_def
  ORDER_CANCELLED_def CLIENT_ID_IN_USE_def MD_NOT_SUBSCRIBED_def FARM_LOST_def
  FARM_RESTORED_NO_DATA_def FARM_RESTORED_DATA_def TWS_DAILY_RESTART_def MD_FARM_BROKEN_def
  MD_FARM_OK_USFARM_def HMDS_FARM_BROKEN_def HMDS_FARM_OK_USHMDS_def SEC_DEF_FARM_DISCONNECTED_def
  SEC_DEF_FARM_OK_def ORDER_NOT_YET_TRANSMITTED_def LINE_CAP_OVERFLOW_def

definition message :: "i32 \<Rightarrow> string" where
  "message code =
    (if code = MSG_RATE_EXCEEDED then ''Max rate of messages per second has been exceeded.''
     else if code = DUPLICATE_ORDER_ID then ''Duplicate order id''
     else if code = CANT_MODIFY_FILLED then ''Cannot modify a filled order''
     else if code = PRICE_NOT_MIN_TICK then
       ''The price does not conform to the minimum price variation for this contract''
     else if code = HISTORICAL_PACING then
       ''Historical Market Data Service error message: Historical data request pacing violation''
     else if code = NO_SECURITY_DEF then ''No security definition has been found for the request''
     else if code = ORDER_REJECTED then ''Order rejected - reason''
     else if code = ORDER_CANCELLED then ''Order cancelled''
     else if code = CLIENT_ID_IN_USE then ''Client id is already in use''
     else if code = MD_NOT_SUBSCRIBED then
       ''Requested market data is not subscribed. Displaying delayed market data.''
     else if code = FARM_LOST then ''Connectivity between IB and TWS has been lost.''
     else if code = FARM_RESTORED_NO_DATA then
       ''Connectivity between IB and Trader Workstation has been restored - data lost.''
     else if code = FARM_RESTORED_DATA then
       ''Connectivity between IB and Trader Workstation has been restored - data maintained.''
     else if code = TWS_DAILY_RESTART then ''TWS is restarting. Please reconnect.''
     else if code = MD_FARM_BROKEN then ''Market data farm connection is broken:usfarm''
     else if code = MD_FARM_OK_USFARM then ''Market data farm connection is OK:usfarm''
     else if code = HMDS_FARM_BROKEN then ''HMDS data farm connection is broken:ushmds''
     else if code = HMDS_FARM_OK_USHMDS then ''HMDS data farm connection is OK:ushmds''
     else if code = SEC_DEF_FARM_DISCONNECTED then
       ''Sec-def data farm connection is disconnected:secdefil''
     else if code = SEC_DEF_FARM_OK then ''Sec-def data farm connection is OK:secdefil''
     else if code = ORDER_NOT_YET_TRANSMITTED then
       ''OrderId that needs to be cancelled is not yet transmitted.''
     else if code = LINE_CAP_OVERFLOW then ''Max number of tickers has been reached''
     else ''Unknown error code'')"

end
