(* ===== verification/Session_Table.thy ===== *)
theory Session_Table imports Std_Collections begin

text \<open>
  Guards that keep one state per session. Every limiter of the simulator promises the same thing
  of its table: an operation for one session reads and changes that session's entry only. The
  contract \<open>session_table\<close> states it, and its lemma reduces a run with interleaved sessions to
  the run of each session alone.
\<close>

text \<open>A run of operations, with the answer to each.\<close>

fun run_ops :: "('i \<Rightarrow> 's \<Rightarrow> 'o \<times> 's) \<Rightarrow> 'i list \<Rightarrow> 's \<Rightarrow> 'o list \<times> 's" where
  "run_ops f [] s = ([], s)"
| "run_ops f (i # is) s =
     (case f i s of (a, s1) \<Rightarrow> (case run_ops f is s1 of (as, s2) \<Rightarrow> (a # as, s2)))"

lemma length_run_ops: "length (fst (run_ops f is s)) = length is"
  by (induction f "is" s rule: run_ops.induct) (auto split: prod.splits)

lemma run_ops_invariant:
  assumes "\<And>i s. I s \<Longrightarrow> I (snd (f i s))" "I s"
  shows "I (snd (run_ops f is s))"
  using assms(2)
proof (induction "is" arbitrary: s)
  case (Cons i "is")
  obtain a s1 where s1: "f i s = (a, s1)" by (cases "f i s")
  with assms(1) [OF Cons.prems, of i] have "I (snd (run_ops f is s1))" by (intro Cons.IH) simp
  with s1 show ?case by (simp add: split_beta)
qed simp

lemma run_ops_append:
  "run_ops f (as @ bs) s = (case run_ops f as s of (os, s1) \<Rightarrow>
     (case run_ops f bs s1 of (ps, s2) \<Rightarrow> (os @ ps, s2)))"
  by (induction "as" arbitrary: s) (auto split: prod.splits)

text \<open>The calls of one session and the answers they got.\<close>

definition calls_of :: "'k \<Rightarrow> ('k \<times> 'i) list \<Rightarrow> 'i list" where
  "calls_of k calls = map snd (filter (\<lambda>c. fst c = k) calls)"

definition answers_of :: "'k \<Rightarrow> ('k \<times> 'i) list \<Rightarrow> 'o list \<Rightarrow> 'o list" where
  "answers_of k calls os = map snd (filter (\<lambda>(c, _). fst c = k) (zip calls os))"

lemma answers_of_zip:
  "length calls = length os \<Longrightarrow> zip (calls_of k calls) (answers_of k calls os)
     = map (\<lambda>(c, a). (snd c, a)) (filter (\<lambda>(c, _). fst c = k) (zip calls os))"
  by (induction calls os rule: list_induct2) (auto simp: calls_of_def answers_of_def)

locale session_table =
  fixes op :: "'k \<Rightarrow> 'i \<Rightarrow> 'g \<Rightarrow> 'o \<times> 'g" and view :: "'g \<Rightarrow> 'k \<Rightarrow> 'l"
    and alone :: "'i \<Rightarrow> 'l \<Rightarrow> 'o \<times> 'l" and invar :: "'g \<Rightarrow> bool"
  assumes invar_op: "invar g \<Longrightarrow> invar (snd (op k i g))"
    and answer_op: "invar g \<Longrightarrow> fst (op k i g) = fst (alone i (view g k))"
    and view_op: "invar g \<Longrightarrow>
      view (snd (op k i g)) k' = (if k' = k then snd (alone i (view g k)) else view g k')"
begin

lemma run_alone:
  assumes "invar g" "run_ops (\<lambda>(k, i). op k i) calls g = (os, g')"
  shows "run_ops alone (calls_of k calls) (view g k) = (answers_of k calls os, view g' k) \<and> invar g'"
  using assms
proof (induction calls arbitrary: g os g')
  case Nil
  then show ?case by (simp add: calls_of_def answers_of_def)
next
  case (Cons c calls)
  obtain s i where c: "c = (s, i)" by (cases c)
  obtain a g1 where g1: "op s i g = (a, g1)" by (cases "op s i g")
  obtain as g2 where r: "run_ops (\<lambda>(k, i). op k i) calls g1 = (as, g2)"
    by (cases "run_ops (\<lambda>(k, i). op k i) calls g1")
  have os: "os = a # as" "g' = g2" using Cons.prems(2) g1 r c by auto
  have "invar g1" using invar_op [OF Cons.prems(1), of s i] g1 by simp
  note IH = Cons.IH [OF this r]
  show ?case
  proof (cases "s = k")
    case True
    then have "alone i (view g k) = (a, view g1 k)"
      using answer_op [OF Cons.prems(1), of s i] view_op [OF Cons.prems(1), of s i k] g1
      by (cases "alone i (view g k)") simp
    with IH True c os show ?thesis by (simp add: calls_of_def answers_of_def)
  next
    case False
    then have "view g1 k = view g k"
      using view_op [OF Cons.prems(1), of s i k] g1 by simp
    with IH False c os show ?thesis by (simp add: calls_of_def answers_of_def)
  qed
qed

text \<open>What the other sessions do makes no difference to a session.\<close>

lemma isolated:
  assumes "invar g" "calls_of k calls = calls_of k calls'"
  shows "answers_of k calls (fst (run_ops (\<lambda>(k, i). op k i) calls g))
       = answers_of k calls' (fst (run_ops (\<lambda>(k, i). op k i) calls' g))"
proof -
  obtain os g1 os' g2 where "run_ops (\<lambda>(k, i). op k i) calls g = (os, g1)"
    "run_ops (\<lambda>(k, i). op k i) calls' g = (os', g2)" by (meson surj_pair)
  with run_alone [OF assms(1), of calls os g1 k] run_alone [OF assms(1), of calls' os' g2 k] assms(2)
  show ?thesis by simp
qed

end

end
