(* ===== verification/Quirk_Lines.thy ===== *)
theory Quirk_Lines imports Sim_Types Session_Table begin

text \<open>
  The streaming-line caps, \<open>crates/midas-ib-sim/src/quirks/line_limit.rs\<close>: the L1 line limiter
  and the tick-by-tick limiter with its cooldown per contract. Both are proved to implement, per
  session, a bounded set of subscriptions. Neither table is iterated in an order that shows, so
  the signed identifiers are compared as bit patterns.
\<close>

section \<open>The debug form of a duration\<close>

text \<open>
  \<open>fmt::Debug for Duration\<close> in the standard library: the largest unit of which there is at least
  one, and the fraction without trailing zeros.
\<close>

fun frac_digits :: "nat \<Rightarrow> nat \<Rightarrow> nat \<Rightarrow> string" where
  "frac_digits 0 fract divisor = []"
| "frac_digits (Suc k) fract divisor =
     (if fract = 0 then [] else digit_char (fract div divisor)
        # frac_digits k (fract mod divisor) (divisor div 10))"

definition fmt_decimal :: "nat \<Rightarrow> nat \<Rightarrow> nat \<Rightarrow> string \<Rightarrow> string" where
  "fmt_decimal integer fract divisor suffix =
    show_nat integer @ (case frac_digits 9 fract divisor of [] \<Rightarrow> [] | ds \<Rightarrow> ''.'' @ ds) @ suffix"

definition debug_duration :: "Duration \<Rightarrow> string" where
  "debug_duration d =
    (let secs = d div 1000000000; nanos = d mod 1000000000
     in if 0 < secs then fmt_decimal secs nanos 100000000 ''s''
        else if 1000000 \<le> nanos then fmt_decimal (nanos div 1000000) (nanos mod 1000000) 100000 ''ms''
        else if 1000 \<le> nanos then
          fmt_decimal (nanos div 1000) (nanos mod 1000) 100 [char_of (194::nat), char_of (181::nat), CHR ''s'']
        else fmt_decimal nanos 0 1 ''ns'')"

section \<open>L1 lines\<close>

record LineLimiter =
  ll_lines :: "(SessionId, (ReqId, unit) btree) btree"
  ll_cap :: nat

definition lines_with_cap :: "nat \<Rightarrow> LineLimiter option" where
  "lines_with_cap cap = (if cap = 0 then None else Some \<lparr> ll_lines = bt_empty, ll_cap = cap \<rparr>)"

definition LINE_LIMIT :: QuirkViolation where
  "LINE_LIMIT = LineLimit LINE_CAP_OVERFLOW (message LINE_CAP_OVERFLOW) RejectRequest"

definition reserve_l1 :: "SessionId \<Rightarrow> ReqId \<Rightarrow> LineLimiter
    \<Rightarrow> (unit, QuirkViolation) rust_result \<times> LineLimiter" where
  "reserve_l1 session req_id l =
    (let lines = bt_get_or (ll_lines l) session bt_empty;
         l0 = l\<lparr> ll_lines := bt_insert session lines (ll_lines l) \<rparr>
     in if bt_get lines req_id \<noteq> None then (Ok (), l0)
        else if ll_cap l \<le> bt_len lines then (Err LINE_LIMIT, l0)
        else (Ok (), l\<lparr> ll_lines := bt_insert session (bt_insert req_id () lines) (ll_lines l) \<rparr>))"

definition release_l1 :: "SessionId \<Rightarrow> ReqId \<Rightarrow> LineLimiter \<Rightarrow> LineLimiter" where
  "release_l1 session req_id l =
    (case bt_get (ll_lines l) session of
       None \<Rightarrow> l
     | Some lines \<Rightarrow>
         let lines = bt_remove req_id lines
         in if lines = bt_empty then l\<lparr> ll_lines := bt_remove session (ll_lines l) \<rparr>
            else l\<lparr> ll_lines := bt_insert session lines (ll_lines l) \<rparr>)"

definition l1_forget_session :: "SessionId \<Rightarrow> LineLimiter \<Rightarrow> LineLimiter" where
  "l1_forget_session session l = l\<lparr> ll_lines := bt_remove session (ll_lines l) \<rparr>"

definition active_lines :: "LineLimiter \<Rightarrow> SessionId \<Rightarrow> nat" where
  "active_lines l session = (case bt_get (ll_lines l) session of Some s \<Rightarrow> bt_len s | None \<Rightarrow> 0)"

section \<open>Tick-by-tick subscriptions\<close>

record TickByTickLimiter =
  tl_active :: "(SessionId, (ReqId, SymbolKey) btree) btree"
  tl_last_sub :: "(SessionId \<times> i32, VirtualInstant) btree"
  tl_max :: nat
  tl_cooldown :: Duration

definition tbt_with_params :: "nat \<Rightarrow> Duration \<Rightarrow> TickByTickLimiter option" where
  "tbt_with_params max_tbt cooldown =
    (if max_tbt = 0 then None
     else Some \<lparr> tl_active = bt_empty, tl_last_sub = bt_empty, tl_max = max_tbt, tl_cooldown = cooldown \<rparr>)"

definition tbt_cooldown_violation :: "string \<Rightarrow> Duration \<Rightarrow> QuirkViolation" where
  "tbt_cooldown_violation symbol left = TickByTickLimit LINE_CAP_OVERFLOW
     (''Tick-by-tick cooldown: re-subscribe to '' @ symbol @ '' not allowed for another ''
        @ debug_duration left) RejectRequest"

definition tbt_cap_violation :: "nat \<Rightarrow> QuirkViolation" where
  "tbt_cap_violation max_tbt = TickByTickLimit LINE_CAP_OVERFLOW
     (''Max tick-by-tick subscriptions ('' @ show_nat max_tbt @ '') reached'') RejectRequest"

definition tbt_reserve :: "VirtualInstant \<Rightarrow> SessionId \<Rightarrow> ReqId \<Rightarrow> SymbolKey \<Rightarrow> TickByTickLimiter
    \<Rightarrow> (unit, QuirkViolation) rust_result \<times> TickByTickLimiter" where
  "tbt_reserve now session req_id symbol l =
    (if (case bt_get (tl_active l) session of
           Some per \<Rightarrow> bt_get per req_id \<noteq> None | None \<Rightarrow> False) then (Ok (), l)
     else
       let key = (session, sk_contract_id symbol);
           blocked = (case bt_get (tl_last_sub l) key of
             None \<Rightarrow> None
           | Some last_ts \<Rightarrow>
               let since = vi_saturating_sub now last_ts
               in if since < tl_cooldown l then Some (tl_cooldown l - since) else None)
       in case blocked of
            Some left \<Rightarrow> (Err (tbt_cooldown_violation (sk_symbol symbol) left), l)
          | None \<Rightarrow>
              let per = bt_get_or (tl_active l) session bt_empty
              in if tl_max l \<le> bt_len per
                 then (Err (tbt_cap_violation (tl_max l)),
                       l\<lparr> tl_active := bt_insert session per (tl_active l) \<rparr>)
                 else (Ok (), l\<lparr> tl_active := bt_insert session (bt_insert req_id symbol per) (tl_active l),
                                 tl_last_sub := bt_insert key now (tl_last_sub l) \<rparr>))"

definition tbt_release :: "SessionId \<Rightarrow> ReqId \<Rightarrow> TickByTickLimiter \<Rightarrow> TickByTickLimiter" where
  "tbt_release session req_id l =
    (case bt_get (tl_active l) session of
       None \<Rightarrow> l
     | Some per \<Rightarrow>
         let per = bt_remove req_id per
         in if per = bt_empty then l\<lparr> tl_active := bt_remove session (tl_active l) \<rparr>
            else l\<lparr> tl_active := bt_insert session per (tl_active l) \<rparr>)"

definition tbt_forget_session :: "SessionId \<Rightarrow> TickByTickLimiter \<Rightarrow> TickByTickLimiter" where
  "tbt_forget_session session l =
    l\<lparr> tl_active := bt_remove session (tl_active l),
       tl_last_sub := bt_retain (\<lambda>(s, _) _. s \<noteq> session) (tl_last_sub l) \<rparr>"

definition active_count :: "TickByTickLimiter \<Rightarrow> SessionId \<Rightarrow> nat" where
  "active_count l session = (case bt_get (tl_active l) session of Some s \<Rightarrow> bt_len s | None \<Rightarrow> 0)"

section \<open>The L1 limiter is a bounded set per session\<close>

datatype line_call = Reserve ReqId | Release ReqId | ForgetLines

fun l1_op :: "SessionId \<Rightarrow> line_call \<Rightarrow> LineLimiter \<Rightarrow> (unit, QuirkViolation) rust_result \<times> LineLimiter" where
  "l1_op s (Reserve r) l = reserve_l1 s r l"
| "l1_op s (Release r) l = (Ok (), release_l1 s r l)"
| "l1_op s ForgetLines l = (Ok (), l1_forget_session s l)"

fun l1_spec :: "nat \<Rightarrow> line_call \<Rightarrow> ReqId set \<Rightarrow> (unit, QuirkViolation) rust_result \<times> ReqId set" where
  "l1_spec cap (Reserve r) S =
     (if r \<in> S then (Ok (), S) else if cap \<le> card S then (Err LINE_LIMIT, S) else (Ok (), insert r S))"
| "l1_spec cap (Release r) S = (Ok (), S - {r})"
| "l1_spec cap ForgetLines S = (Ok (), {})"

text \<open>A table of sorted tables; reading a session that has no entry gives the empty table.\<close>

definition nested_ok :: "(SessionId, ('k::linorder, 'v) btree) btree \<Rightarrow> bool" where
  "nested_ok t \<longleftrightarrow> bt_sorted t \<and> (\<forall>s. bt_sorted (bt_get_or t s bt_empty))"

lemma nested_ok_empty: "nested_ok bt_empty"
  by (simp add: nested_ok_def bt.invar_empty bt_get_or_def bt.get_empty)

lemma nested_ok_insert: "nested_ok t \<Longrightarrow> bt_sorted m \<Longrightarrow> nested_ok (bt_insert s m t)"
  by (auto simp: nested_ok_def bt_invars bt_get_or_def bt_get_insert)

lemma nested_ok_remove: "nested_ok t \<Longrightarrow> nested_ok (bt_remove s t)"
  by (auto simp: nested_ok_def bt_invars bt_get_or_def bt_get_remove)

lemma bt_get_or_insert:
  "bt_sorted t \<Longrightarrow> bt_get_or (bt_insert s m t) s' d = (if s' = s then m else bt_get_or t s' d)"
  by (simp add: bt_get_or_def bt_get_insert)

lemma bt_get_or_remove:
  "bt_sorted t \<Longrightarrow> bt_get_or (bt_remove s t) s' d = (if s' = s then d else bt_get_or t s' d)"
  by (simp add: bt_get_or_def bt_get_remove)

lemmas nested_simps = bt_get_or_insert bt_get_or_remove nested_ok_insert nested_ok_remove

abbreviation "session_lines l s \<equiv> bt_get_or (ll_lines l) s bt_empty"

interpretation l1: session_table l1_op "\<lambda>l s. bt_dom (session_lines l s)" "l1_spec cap"
  "\<lambda>l. nested_ok (ll_lines l) \<and> ll_cap l = cap" for cap
proof unfold_locales
  fix g :: LineLimiter and k i k'
  assume inv: "nested_ok (ll_lines g) \<and> ll_cap g = cap"
  then have srt: "bt_sorted (ll_lines g)" "bt_sorted (session_lines g k)" by (simp_all add: nested_ok_def)
  note len = bt_len_card [OF srt(2)]
  have hit: "r \<in> bt_dom (session_lines g k) \<longleftrightarrow> bt_get (session_lines g k) r \<noteq> None" for r
    by (simp add: bt_dom_def)
  have rel: "nested_ok (ll_lines (release_l1 k r g)) \<and> ll_cap (release_l1 k r g) = cap
      \<and> bt_dom (session_lines (release_l1 k r g) s)
        = (if s = k then bt_dom (session_lines g k) - {r} else bt_dom (session_lines g s))" for r s
  proof (cases "bt_get (ll_lines g) k")
    case None
    then show ?thesis using inv by (auto simp: release_l1_def bt_get_or_def)
  next
    case (Some lines)
    then have lines: "session_lines g k = lines" by (simp add: bt_get_or_def)
    have e: "bt_remove r lines = bt_empty \<Longrightarrow> bt_dom lines - {r} = {}"
      by (metis bt_dom_simps(1,3))
    show ?thesis using inv srt Some lines e
      by (auto simp: release_l1_def Let_def nested_simps bt_sorted_remove)
  qed
  show "nested_ok (ll_lines (snd (l1_op k i g))) \<and> ll_cap (snd (l1_op k i g)) = cap"
    using inv srt rel by (cases i) (auto simp: reserve_l1_def Let_def l1_forget_session_def
        nested_simps bt_sorted_insert)
  show "fst (l1_op k i g) = fst (l1_spec cap i (bt_dom (session_lines g k)))"
    using inv by (cases i) (auto simp: reserve_l1_def Let_def hit len)
  show "bt_dom (session_lines (snd (l1_op k i g)) k')
      = (if k' = k then snd (l1_spec cap i (bt_dom (session_lines g k))) else bt_dom (session_lines g k'))"
    using inv srt rel by (cases i) (auto simp: reserve_l1_def Let_def hit len l1_forget_session_def
        nested_simps bt_sorted_insert)
qed

lemma l1_spec_bounded:
  "finite S \<Longrightarrow> card S \<le> cap \<Longrightarrow>
     finite (snd (run_ops (l1_spec cap) cs S)) \<and> card (snd (run_ops (l1_spec cap) cs S)) \<le> cap"
proof (induction cs arbitrary: S)
  case (Cons c cs)
  have "finite (snd (l1_spec cap c S)) \<and> card (snd (l1_spec cap c S)) \<le> cap"
    using Cons.prems by (cases c) (auto simp: card_Diff_singleton_if)
  with Cons.IH show ?case by (simp add: split_beta)
qed simp

text \<open>
  for every session the L1 limiter is a set of at most \<open>cap\<close> request ids, whatever other
  sessions do: reserving a member succeeds and changes nothing, reserving a new id succeeds exactly
  when there is room, releasing frees the line, and the count the limiter reports is the number of
  ids the session really holds.
\<close>

lemma line_limiter_is_bounded_set:
  assumes "lines_with_cap cap = Some l" "run_ops (\<lambda>(s, c). l1_op s c) calls l = (os, l')"
    and "run_ops (l1_spec cap) (calls_of s calls) {} = (spec_os, S)"
  shows "answers_of s calls os = spec_os \<and> active_lines l' s = card S \<and> active_lines l' s \<le> cap"
proof -
  have l: "l = \<lparr>ll_lines = bt_empty, ll_cap = cap\<rparr>"
    using assms(1) by (simp add: lines_with_cap_def split: if_splits)
  have "nested_ok (ll_lines l) \<and> ll_cap l = cap" by (simp add: l nested_ok_empty)
  from l1.run_alone [where cap = cap, OF this assms(2), of s]
  have "answers_of s calls os = spec_os" and S: "S = bt_dom (session_lines l' s)"
    and srt: "bt_sorted (session_lines l' s)"
    using assms(3) by (simp_all add: l bt_get_or_def bt.get_empty nested_ok_def)
  moreover have "active_lines l' s = card S"
    unfolding S bt_len_card [OF srt, symmetric]
    by (simp add: active_lines_def bt_get_or_def bt_len_def bt_empty_def split: option.splits)
  moreover have "card S \<le> cap" using l1_spec_bounded [of "{}" cap "calls_of s calls"] assms(3) by simp
  ultimately show ?thesis by simp
qed

definition l1_example :: "(SessionId \<times> line_call) list" where
  "l1_example = [(1, Reserve 10), (1, Reserve 10), (2, Reserve 9), (1, Reserve 11),
     (1, Reserve 12), (1, Release 10), (1, Reserve 12)]"

lemma line_limiter_is_bounded_set_witness:
  "\<exists>l os l'. lines_with_cap 2 = Some l \<and> run_ops (\<lambda>(s, c). l1_op s c) l1_example l = (os, l')
     \<and> answers_of 1 l1_example os = [Ok (), Ok (), Ok (), Err LINE_LIMIT, Ok (), Ok ()]
     \<and> active_lines l' 1 = 2"
proof -
  let ?l = "\<lparr>ll_lines = bt_empty, ll_cap = 2\<rparr>"
  obtain os l' where r: "run_ops (\<lambda>(s, c). l1_op s c) l1_example ?l = (os, l')"
    by (cases "run_ops (\<lambda>(s, c). l1_op s c) l1_example ?l")
  have s: "run_ops (l1_spec 2) (calls_of 1 l1_example) {}
      = ([Ok (), Ok (), Ok (), Err LINE_LIMIT, Ok (), Ok ()], {11, 12})"
    by (auto simp: calls_of_def l1_example_def)
  have l: "lines_with_cap 2 = Some ?l" by (simp add: lines_with_cap_def)
  from line_limiter_is_bounded_set [OF this r s] have
    "answers_of 1 l1_example os = [Ok (), Ok (), Ok (), Err LINE_LIMIT, Ok (), Ok ()]"
    "active_lines l' 1 = 2" by simp_all
  with l r show ?thesis by blast
qed

section \<open>The tick-by-tick limiter\<close>

datatype tbt_call = TReserve VirtualInstant ReqId SymbolKey | TRelease ReqId | TForget

fun tbt_op :: "SessionId \<Rightarrow> tbt_call \<Rightarrow> TickByTickLimiter
    \<Rightarrow> (unit, QuirkViolation) rust_result \<times> TickByTickLimiter" where
  "tbt_op s (TReserve now r sk) l = tbt_reserve now s r sk l"
| "tbt_op s (TRelease r) l = (Ok (), tbt_release s r l)"
| "tbt_op s TForget l = (Ok (), tbt_forget_session s l)"

text \<open>Per session: the subscribed ids, and when each contract was last accepted.\<close>

fun tbt_spec :: "nat \<Rightarrow> Duration \<Rightarrow> tbt_call \<Rightarrow> ReqId set \<times> (i32 \<Rightarrow> VirtualInstant option)
    \<Rightarrow> (unit, QuirkViolation) rust_result \<times> (ReqId set \<times> (i32 \<Rightarrow> VirtualInstant option))" where
  "tbt_spec cap cd (TReserve now r sk) (S, L) =
     (if r \<in> S then (Ok (), (S, L))
      else if (case L (sk_contract_id sk) of Some t \<Rightarrow> now - t < cd | None \<Rightarrow> False)
      then (Err (tbt_cooldown_violation (sk_symbol sk) (cd - (now - the (L (sk_contract_id sk))))), (S, L))
      else if cap \<le> card S then (Err (tbt_cap_violation cap), (S, L))
      else (Ok (), (insert r S, L(sk_contract_id sk \<mapsto> now))))"
| "tbt_spec cap cd (TRelease r) (S, L) = (Ok (), (S - {r}, L))"
| "tbt_spec cap cd TForget (S, L) = (Ok (), ({}, \<lambda>_. None))"

abbreviation "session_subs l s \<equiv> bt_get_or (tl_active l) s bt_empty"

definition tbt_view :: "TickByTickLimiter \<Rightarrow> SessionId \<Rightarrow> ReqId set \<times> (i32 \<Rightarrow> VirtualInstant option)" where
  "tbt_view l s = (bt_dom (session_subs l s), \<lambda>c. bt_get (tl_last_sub l) (s, c))"

definition tbt_ok :: "nat \<Rightarrow> Duration \<Rightarrow> TickByTickLimiter \<Rightarrow> bool" where
  "tbt_ok cap cd l \<longleftrightarrow> nested_ok (tl_active l) \<and> bt_sorted (tl_last_sub l)
     \<and> tl_max l = cap \<and> tl_cooldown l = cd"

lemma tbt_reserve_step:
  assumes "tbt_ok cap cd g"
  shows "tbt_ok cap cd (snd (tbt_reserve now k r sk g))
    \<and> fst (tbt_reserve now k r sk g) = fst (tbt_spec cap cd (TReserve now r sk) (tbt_view g k))
    \<and> tbt_view (snd (tbt_reserve now k r sk g)) k'
      = (if k' = k then snd (tbt_spec cap cd (TReserve now r sk) (tbt_view g k)) else tbt_view g k')"
proof -
  have srt: "bt_sorted (tl_active g)" "bt_sorted (session_subs g k)" "bt_sorted (tl_last_sub g)"
    and par: "tl_max g = cap" "tl_cooldown g = cd" and nest: "nested_ok (tl_active g)"
    using assms by (simp_all add: tbt_ok_def nested_ok_def)
  have hit: "(case bt_get (tl_active g) k of Some per \<Rightarrow> bt_get per r \<noteq> None | None \<Rightarrow> False)
      \<longleftrightarrow> r \<in> bt_dom (session_subs g k)"
    by (auto simp: bt_dom_def bt_get_or_def bt_empty_def split: option.splits)
  note len = bt_len_card [OF srt(2)]
  let ?key = "(k, sk_contract_id sk)"
  have ins: "bt_get (bt_insert ?key now (tl_last_sub g)) (s, c)
      = (if s = k \<and> c = sk_contract_id sk then Some now else bt_get (tl_last_sub g) (s, c))" for s c
    by (simp add: bt_get_insert [OF srt(3)])
  show ?thesis
  proof (cases "r \<in> bt_dom (session_subs g k)")
    case True
    with assms show ?thesis by (simp add: tbt_reserve_def hit tbt_view_def)
  next
    case False
    note fresh = this
    show ?thesis
    proof (cases "case bt_get (tl_last_sub g) ?key of Some t \<Rightarrow> now - t < cd | None \<Rightarrow> False")
      case True
      then obtain t where "bt_get (tl_last_sub g) ?key = Some t" "now - t < cd"
        by (auto split: option.splits)
      with fresh assms show ?thesis
        by (simp add: tbt_reserve_def hit tbt_view_def vi_saturating_sub_def par)
    next
      case False
      then have "(case bt_get (tl_last_sub g) ?key of None \<Rightarrow> None | Some last_ts \<Rightarrow>
          let since = vi_saturating_sub now last_ts
          in if since < tl_cooldown g then Some (tl_cooldown g - since) else None) = None"
        by (auto simp: vi_saturating_sub_def par split: option.splits)
      then show ?thesis
        using fresh False assms srt nest
        by (auto simp: tbt_reserve_def hit tbt_view_def par len Let_def tbt_ok_def nested_simps
            bt_sorted_insert ins fun_eq_iff)
    qed
  qed
qed

lemma tbt_release_step:
  assumes "tbt_ok cap cd g"
  shows "tbt_ok cap cd (tbt_release k r g) \<and> tbt_view (tbt_release k r g) k'
      = (if k' = k then snd (tbt_spec cap cd (TRelease r) (tbt_view g k)) else tbt_view g k')"
proof (cases "bt_get (tl_active g) k")
  case None
  then show ?thesis using assms by (auto simp: tbt_release_def tbt_view_def bt_get_or_def)
next
  case (Some per)
  then have per: "session_subs g k = per" by (simp add: bt_get_or_def)
  have e: "bt_remove r per = bt_empty \<Longrightarrow> bt_dom per - {r} = {}"
    by (metis bt_dom_simps(1,3))
  have "bt_sorted (tl_active g)" "bt_sorted per"
    using assms per by (auto simp: tbt_ok_def nested_ok_def)
  then show ?thesis using assms Some per e
    by (auto simp: tbt_release_def tbt_view_def tbt_ok_def Let_def nested_simps bt_sorted_remove)
qed

interpretation tbt: session_table tbt_op tbt_view "tbt_spec cap cd" "tbt_ok cap cd" for cap cd
proof unfold_locales
  fix g :: TickByTickLimiter and k i k'
  assume ok: "tbt_ok cap cd g"
  then have fg: "tbt_ok cap cd (tbt_forget_session k g)" "tbt_view (tbt_forget_session k g) k'
      = (if k' = k then ({}, \<lambda>_. None) else tbt_view g k')"
    by (auto simp: tbt_forget_session_def tbt_ok_def tbt_view_def nested_ok_def nested_simps
        bt.invar_retain bt.get_retain bt_sorted_remove bt_get_or_remove bt_invars(1) fun_eq_iff
        split: option.splits)
  obtain S L where v: "tbt_view g k = (S, L)" by (cases "tbt_view g k")
  note steps = tbt_reserve_step [OF ok] tbt_release_step [OF ok]
  show "tbt_ok cap cd (snd (tbt_op k i g))" using steps fg by (cases i) auto
  show "fst (tbt_op k i g) = fst (tbt_spec cap cd i (tbt_view g k))"
    using steps by (cases i) (auto simp: v)
  show "tbt_view (snd (tbt_op k i g)) k'
      = (if k' = k then snd (tbt_spec cap cd i (tbt_view g k)) else tbt_view g k')"
    using steps fg by (cases i) (auto simp: v)
qed

lemma tbt_spec_bounded:
  "finite (fst st) \<Longrightarrow> card (fst st) \<le> cap \<Longrightarrow>
     finite (fst (snd (run_ops (tbt_spec cap cd) cs st)))
     \<and> card (fst (snd (run_ops (tbt_spec cap cd) cs st))) \<le> cap"
proof (induction cs arbitrary: st)
  case (Cons c cs)
  obtain S L where st: "st = (S, L)" by (cases st)
  have "finite (fst (snd (tbt_spec cap cd c st))) \<and> card (fst (snd (tbt_spec cap cd c st))) \<le> cap"
    using Cons.prems by (cases c) (auto simp: st card_Diff_singleton_if)
  with Cons.IH show ?case by (simp add: split_beta)
qed simp

text \<open>
  the tick-by-tick limiter admits, for every session and whatever other sessions do, exactly
  what a bounded set with a cooldown per contract admits: a known id again, or a new id when the
  session's last accepted subscription to that contract is a full cooldown ago and a slot is free.
  Releasing a slot does not shorten the cooldown, forgetting the session clears it, and the count
  the limiter reports never exceeds the cap.
\<close>

lemma tbt_limiter_exact:
  assumes "tbt_with_params cap cd = Some l" "run_ops (\<lambda>(s, c). tbt_op s c) calls l = (os, l')"
    and "run_ops (tbt_spec cap cd) (calls_of s calls) ({}, \<lambda>_. None) = (spec_os, (S, L))"
  shows "answers_of s calls os = spec_os \<and> active_count l' s = card S \<and> active_count l' s \<le> cap
    \<and> (\<forall>c. bt_get (tl_last_sub l') (s, c) = L c)"
proof -
  have l: "l = \<lparr>tl_active = bt_empty, tl_last_sub = bt_empty, tl_max = cap, tl_cooldown = cd\<rparr>"
    using assms(1) by (simp add: tbt_with_params_def split: if_splits)
  have "tbt_ok cap cd l" by (simp add: l tbt_ok_def nested_ok_empty bt.invar_empty)
  from tbt.run_alone [where cap = cap and cd = cd, OF this assms(2), of s]
  have run: "answers_of s calls os = spec_os" "tbt_view l' s = (S, L)" and ok: "tbt_ok cap cd l'"
    using assms(3) by (simp_all add: l tbt_view_def bt_get_or_def bt.get_empty)
  then have S: "S = bt_dom (session_subs l' s)" and srt: "bt_sorted (session_subs l' s)"
    and L: "\<forall>c. bt_get (tl_last_sub l') (s, c) = L c"
    by (auto simp: tbt_view_def tbt_ok_def nested_ok_def)
  moreover have "active_count l' s = card S"
    unfolding S bt_len_card [OF srt, symmetric]
    by (simp add: active_count_def bt_get_or_def bt_len_def bt_empty_def split: option.splits)
  moreover have "card S \<le> cap"
    using tbt_spec_bounded [of "({}, \<lambda>_. None)" cap cd "calls_of s calls"] assms(3) by simp
  ultimately show ?thesis using run(1) by simp
qed

definition tbt_example :: "(SessionId \<times> tbt_call) list" where
  "tbt_example = (let A = \<lparr> sk_contract_id = 42, sk_symbol = ''A'' \<rparr>; B = \<lparr> sk_contract_id = 7, sk_symbol = ''B'' \<rparr>
     in [(1, TReserve 0 0 A), (1, TRelease 0), (1, TReserve 14900 1 A), (2, TReserve 14900 1 A),
         (1, TReserve 15000 1 A), (1, TReserve 15000 2 B)])"

lemma tbt_limiter_exact_witness:
  "\<exists>l os l'. tbt_with_params 1 15000 = Some l \<and> run_ops (\<lambda>(s, c). tbt_op s c) tbt_example l = (os, l')
     \<and> answers_of 1 tbt_example os = [Ok (), Ok (), Err (tbt_cooldown_violation ''A'' 100), Ok (),
         Err (tbt_cap_violation 1)]"
proof -
  let ?l = "\<lparr>tl_active = bt_empty, tl_last_sub = bt_empty, tl_max = 1, tl_cooldown = 15000\<rparr>"
  obtain os l' where r: "run_ops (\<lambda>(s, c). tbt_op s c) tbt_example ?l = (os, l')"
    by (cases "run_ops (\<lambda>(s, c). tbt_op s c) tbt_example ?l")
  have s: "run_ops (tbt_spec 1 15000) (calls_of 1 tbt_example) ({}, \<lambda>_. None)
      = ([Ok (), Ok (), Err (tbt_cooldown_violation ''A'' 100), Ok (), Err (tbt_cap_violation 1)],
         ({1}, [42 \<mapsto> 15000]))"
    by (simp add: calls_of_def tbt_example_def Let_def)
  have l: "tbt_with_params 1 15000 = Some ?l" by (simp add: tbt_with_params_def)
  from tbt_limiter_exact [OF this r s] l r show ?thesis by blast
qed

end
