(* ===== verification/Quirk_Pacing.thy ===== *)
theory Quirk_Pacing imports Sim_Types Session_Table begin

text \<open>
  The historical-data pacing guard, \<open>crates/midas-ib-sim/src/quirks/historical_pacing.rs\<close>, with
  its per-session window, the three regimes and the pruning. The reading of the shared clock is an
  argument of \<open>check\<close>. Counters have the 32 bits of the code and wrap as a release build does.
\<close>

section \<open>Requests and state\<close>

datatype RequestKey = RequestKey (rk_symbol: string) (rk_exchange: string)
  (rk_what_to_show: string) (rk_bar_size: string)

definition rk_tuple :: "RequestKey \<Rightarrow> string \<times> string \<times> string \<times> string" where
  "rk_tuple k = (rk_symbol k, rk_exchange k, rk_what_to_show k, rk_bar_size k)"

lemma rk_tuple_inj: "rk_tuple a = rk_tuple b \<longleftrightarrow> a = b"
  by (cases a; cases b) (simp add: rk_tuple_def)

text \<open>The derived order: the fields in the order of their declaration.\<close>

instantiation RequestKey :: linorder
begin

definition less_eq_RequestKey :: "RequestKey \<Rightarrow> RequestKey \<Rightarrow> bool" where
  "less_eq_RequestKey a b \<longleftrightarrow> rk_tuple a \<le> rk_tuple b"

definition less_RequestKey :: "RequestKey \<Rightarrow> RequestKey \<Rightarrow> bool" where
  "less_RequestKey a b \<longleftrightarrow> rk_tuple a < rk_tuple b"

instance
  by standard (auto simp: less_eq_RequestKey_def less_RequestKey_def rk_tuple_inj less_le_not_le)

end

fun contract_fields :: "ContractSpec \<Rightarrow> string \<times> string" where
  "contract_fields (Stock_spec symbol exchange _) = (symbol, exchange)"
| "contract_fields (Option_spec symbol _ _ _ exchange) = (symbol, exchange)"
| "contract_fields (Future_spec symbol _ exchange) = (symbol, exchange)"
| "contract_fields (Forex_spec pair) = (pair, ''IDEALPRO'')"

definition request_key :: "HistoricalReq \<Rightarrow> RequestKey" where
  "request_key req =
    (case contract_fields (hr_contract req) of
       (symbol, exchange) \<Rightarrow> RequestKey symbol exchange (hr_what_to_show req) (hr_bar_size req))"

record WindowEntry =
  we_ts :: VirtualInstant
  we_key :: RequestKey
  we_cost :: u32

record SessionState =
  ss_window :: "WindowEntry list"
  ss_window_cost :: u32
  ss_cooldown :: "(RequestKey, VirtualInstant) btree"
  ss_violations :: u32

definition session_default :: SessionState where
  "session_default = \<lparr> ss_window = [], ss_window_cost = 0, ss_cooldown = bt_empty, ss_violations = 0 \<rparr>"

record PacingParams =
  pp_window_limit :: u32
  pp_window :: Duration
  pp_burst_limit :: u32
  pp_burst_window :: Duration
  pp_cooldown :: Duration
  pp_bidask_double :: bool

definition pacing_default :: PacingParams where
  "pacing_default = \<lparr> pp_window_limit = 60, pp_window = from_secs 600, pp_burst_limit = 6,
     pp_burst_window = from_secs 2, pp_cooldown = from_secs 15, pp_bidask_double = True \<rparr>"

record HistoricalPacing =
  hp_per_session :: "(SessionId, SessionState) btree"
  hp_params :: PacingParams

text \<open>The two assertions of \<open>with_params\<close> are its failure.\<close>

definition pacing_with_params :: "PacingParams \<Rightarrow> HistoricalPacing option" where
  "pacing_with_params params =
    (if pp_window_limit params = 0 \<or> pp_burst_limit params = 0 then None
     else Some \<lparr> hp_per_session = bt_empty, hp_params = params \<rparr>)"

section \<open>Operations\<close>

definition cost_for :: "PacingParams \<Rightarrow> HistoricalReq \<Rightarrow> u32" where
  "cost_for p req =
    (if pp_bidask_double p \<and> eq_ignore_ascii_case (hr_what_to_show req) ''BID_ASK'' then 2 else 1)"

definition saturating_sub_u32 :: "u32 \<Rightarrow> u32 \<Rightarrow> u32" where
  "saturating_sub_u32 a b = (if b \<le> a then a - b else 0)"

text \<open>The \<open>while let\<close> loop of \<open>prune_window\<close>, then its \<open>retain\<close>.\<close>

fun prune_entries :: "VirtualInstant \<Rightarrow> Duration \<Rightarrow> WindowEntry list \<Rightarrow> u32 \<Rightarrow> WindowEntry list \<times> u32" where
  "prune_entries now window [] cost = ([], cost)"
| "prune_entries now window (e # es) cost =
     (if window < vi_saturating_sub now (we_ts e)
      then prune_entries now window es (saturating_sub_u32 cost (we_cost e))
      else (e # es, cost))"

definition prune_window :: "VirtualInstant \<Rightarrow> Duration \<Rightarrow> Duration \<Rightarrow> SessionState \<Rightarrow> SessionState" where
  "prune_window now window cooldown st =
    (case prune_entries now window (ss_window st) (ss_window_cost st) of
       (es, cost) \<Rightarrow>
         st\<lparr> ss_window := es, ss_window_cost := cost,
             ss_cooldown := bt_retain (\<lambda>_ ts. vi_saturating_sub now ts \<le> cooldown) (ss_cooldown st) \<rparr>)"

definition violation :: "string \<Rightarrow> QuirkViolation" where
  "violation msg = HistoricalPacingViolation HISTORICAL_PACING
     (message HISTORICAL_PACING @ '': '' @ msg) RejectRequest"

definition ROLLING :: QuirkViolation where
  "ROLLING = violation ''Historical data pacing violation (rolling window)''"

definition BURST :: QuirkViolation where
  "BURST = violation ''Historical data pacing violation (burst)''"

definition COOLDOWN :: QuirkViolation where
  "COOLDOWN = violation ''Historical data pacing violation (cooldown)''"

text \<open>\<open>check\<close> on the entry of one session.\<close>

definition check_session ::
  "PacingParams \<Rightarrow> VirtualInstant \<Rightarrow> HistoricalReq \<Rightarrow> SessionState
     \<Rightarrow> (unit, QuirkViolation) rust_result \<times> SessionState" where
  "check_session p now req st0 =
    (let key = request_key req;
         cost = cost_for p req;
         st = prune_window now (pp_window p) (pp_cooldown p) st0
     in if pp_window_limit p < ss_window_cost st + cost
        then (Err ROLLING, st\<lparr> ss_violations := ss_violations st + 1 \<rparr>)
        else
          let identical_burst = length (filter (\<lambda>e. we_key e = key
                \<and> vi_saturating_sub now (we_ts e) < pp_burst_window p) (ss_window st))
          in if pp_burst_limit p \<le> word_of_nat identical_burst
             then (Err BURST, st\<lparr> ss_violations := ss_violations st + 1 \<rparr>)
             else if (case bt_get (ss_cooldown st) key of
                        Some last_ts \<Rightarrow> vi_saturating_sub now last_ts < pp_cooldown p
                      | None \<Rightarrow> False)
             then (Err COOLDOWN, st\<lparr> ss_violations := ss_violations st + 1 \<rparr>)
             else (Ok (), st\<lparr> ss_window := ss_window st @ [\<lparr> we_ts = now, we_key = key, we_cost = cost \<rparr>],
                              ss_window_cost := ss_window_cost st + cost,
                              ss_cooldown := bt_insert key now (ss_cooldown st) \<rparr>))"

definition pacing_check ::
  "VirtualInstant \<Rightarrow> SessionId \<Rightarrow> HistoricalReq \<Rightarrow> HistoricalPacing
     \<Rightarrow> (unit, QuirkViolation) rust_result \<times> HistoricalPacing" where
  "pacing_check now session req hp =
    (case check_session (hp_params hp) now req (bt_get_or (hp_per_session hp) session session_default) of
       (r, st) \<Rightarrow> (r, hp\<lparr> hp_per_session := bt_insert session st (hp_per_session hp) \<rparr>))"

definition pacing_forget_session :: "SessionId \<Rightarrow> HistoricalPacing \<Rightarrow> HistoricalPacing" where
  "pacing_forget_session session hp = hp\<lparr> hp_per_session := bt_remove session (hp_per_session hp) \<rparr>"

definition pacing_violations :: "HistoricalPacing \<Rightarrow> SessionId \<Rightarrow> u32" where
  "pacing_violations hp session =
    (case bt_get (hp_per_session hp) session of Some st \<Rightarrow> ss_violations st | None \<Rightarrow> 0)"

definition total_violations :: "HistoricalPacing \<Rightarrow> u64" where
  "total_violations hp = sum_list (map (\<lambda>st. ucast (ss_violations st)) (bt_values (hp_per_session hp)))"

section \<open>A run of calls and what it should answer\<close>

datatype pacing_call = PCheck VirtualInstant HistoricalReq | PForget

fun pacing_op :: "SessionId \<Rightarrow> pacing_call \<Rightarrow> HistoricalPacing
    \<Rightarrow> (unit, QuirkViolation) rust_result \<times> HistoricalPacing" where
  "pacing_op s (PCheck now req) hp = pacing_check now s req hp"
| "pacing_op s PForget hp = (Ok (), pacing_forget_session s hp)"

definition run_pacing :: "PacingParams \<Rightarrow> (SessionId \<times> pacing_call) list
    \<Rightarrow> (unit, QuirkViolation) rust_result list" where
  "run_pacing p calls =
    (case pacing_with_params p of
       None \<Rightarrow> []
     | Some hp \<Rightarrow> fst (run_ops (\<lambda>(s, c). pacing_op s c) calls hp))"

fun session_op :: "PacingParams \<Rightarrow> pacing_call \<Rightarrow> SessionState
    \<Rightarrow> (unit, QuirkViolation) rust_result \<times> SessionState" where
  "session_op p (PCheck now req) st = check_session p now req st"
| "session_op p PForget st = (Ok (), session_default)"

interpretation pacing: session_table pacing_op
  "\<lambda>hp s. bt_get_or (hp_per_session hp) s session_default" "session_op p"
  "\<lambda>hp. bt_sorted (hp_per_session hp) \<and> hp_params hp = p" for p
proof unfold_locales
  fix g :: HistoricalPacing and k i k'
  assume inv: "bt_sorted (hp_per_session g) \<and> hp_params g = p"
  show "bt_sorted (hp_per_session (snd (pacing_op k i g))) \<and> hp_params (snd (pacing_op k i g)) = p"
    using inv by (cases i) (auto simp: pacing_check_def pacing_forget_session_def
        bt_invars split: prod.splits)
  show "fst (pacing_op k i g) = fst (session_op p i (bt_get_or (hp_per_session g) k session_default))"
    using inv by (cases i) (auto simp: pacing_check_def split: prod.splits)
  show "bt_get_or (hp_per_session (snd (pacing_op k i g))) k' session_default
      = (if k' = k then snd (session_op p i (bt_get_or (hp_per_session g) k session_default))
         else bt_get_or (hp_per_session g) k' session_default)"
    using inv by (cases i) (auto simp: pacing_check_def pacing_forget_session_def bt_get_or_def
        bt_get_insert bt_get_remove split: prod.splits)
qed

text \<open>
  The specification keeps everything a session was admitted, with time, key and cost, and decides
  from that history alone; nothing is pruned and nothing is counted incrementally.
\<close>

type_synonym history = "(VirtualInstant \<times> RequestKey \<times> nat) list"

definition window_total :: "Duration \<Rightarrow> VirtualInstant \<Rightarrow> history \<Rightarrow> nat" where
  "window_total window now h = sum_list (map (snd \<circ> snd) (filter (\<lambda>x. now - fst x \<le> window) h))"

definition spec_decide :: "PacingParams \<Rightarrow> VirtualInstant \<Rightarrow> RequestKey \<Rightarrow> nat \<Rightarrow> history
    \<Rightarrow> (unit, QuirkViolation) rust_result" where
  "spec_decide p now key cost h =
    (if unat (pp_window_limit p) < window_total (pp_window p) now h + cost then Err ROLLING
     else if unat (pp_burst_limit p)
        \<le> length (filter (\<lambda>(t, k, _). k = key \<and> now - t < pp_burst_window p) h) then Err BURST
     else if list_ex (\<lambda>(t, k, _). k = key \<and> now - t < pp_cooldown p) h then Err COOLDOWN
     else Ok ())"

fun spec_op :: "PacingParams \<Rightarrow> pacing_call \<Rightarrow> history
    \<Rightarrow> (unit, QuirkViolation) rust_result \<times> history" where
  "spec_op p (PCheck now req) h =
    (case spec_decide p now (request_key req) (unat (cost_for p req)) h of
       Inl e \<Rightarrow> (Err e, h)
     | Inr u \<Rightarrow> (Ok u, h @ [(now, request_key req, unat (cost_for p req))]))"
| "spec_op p PForget h = (Ok (), [])"

text \<open>The readings of the clock in a run.\<close>

fun clock_readings :: "pacing_call list \<Rightarrow> VirtualInstant list" where
  "clock_readings [] = []"
| "clock_readings (PCheck now _ # cs) = now # clock_readings cs"
| "clock_readings (PForget # cs) = clock_readings cs"

lemma clock_readings_calls_of:
  "set (clock_readings (calls_of s calls)) \<subseteq> set (clock_readings (map snd calls))
   \<and> (sorted (clock_readings (map snd calls)) \<longrightarrow> sorted (clock_readings (calls_of s calls)))"
proof (induction calls)
  case (Cons c calls)
  obtain k i where "c = (k, i)" by (cases c)
  with Cons show ?case by (cases i) (auto simp: calls_of_def)
qed (simp add: calls_of_def)

section \<open>The code implements the specification\<close>

definition entry_abs :: "WindowEntry \<Rightarrow> VirtualInstant \<times> RequestKey \<times> nat" where
  "entry_abs e = (we_ts e, we_key e, unat (we_cost e))"

definition cooldown_sim :: "PacingParams \<Rightarrow> VirtualInstant \<Rightarrow> history
    \<Rightarrow> (RequestKey, VirtualInstant) btree \<Rightarrow> bool" where
  "cooldown_sim p T h cd \<longleftrightarrow> bt_sorted cd \<and> (\<forall>k. case bt_get cd k of
       Some t \<Rightarrow> (\<exists>c. (t, k, c) \<in> set h) \<and> (\<forall>t' c. (t', k, c) \<in> set h \<longrightarrow> t' \<le> t)
     | None \<Rightarrow> (\<forall>t' c. (t', k, c) \<in> set h \<longrightarrow> pp_cooldown p < T - t'))"

definition window_sim :: "PacingParams \<Rightarrow> VirtualInstant \<Rightarrow> history \<Rightarrow> WindowEntry list \<Rightarrow> u32 \<Rightarrow> bool" where
  "window_sim p T h es cost \<longleftrightarrow>
     (\<exists>old. h = old @ map entry_abs es \<and> (\<forall>x\<in>set old. pp_window p < T - fst x))
     \<and> unat cost = sum_list (map (unat \<circ> we_cost) es) \<and> cost \<le> pp_window_limit p
     \<and> (\<forall>e\<in>set es. 0 < we_cost e)"

definition pacing_sim :: "PacingParams \<Rightarrow> VirtualInstant \<Rightarrow> history \<Rightarrow> SessionState \<Rightarrow> bool" where
  "pacing_sim p T h st \<longleftrightarrow> sorted (map fst h) \<and> (\<forall>x\<in>set h. fst x \<le> T)
     \<and> window_sim p T h (ss_window st) (ss_window_cost st) \<and> cooldown_sim p T h (ss_cooldown st)"

lemma pacing_sim_default: "pacing_sim p T [] session_default"
  by (simp add: pacing_sim_def window_sim_def cooldown_sim_def session_default_def
      bt.invar_empty bt.get_empty)

lemma prune_entries_dropWhile:
  "unat cost = sum_list (map (unat \<circ> we_cost) es) \<Longrightarrow>
   prune_entries now window es cost = (es', cost') \<Longrightarrow>
     es' = dropWhile (\<lambda>e. window < now - we_ts e) es
     \<and> unat cost' = sum_list (map (unat \<circ> we_cost) es') \<and> cost' \<le> cost"
proof (induction now window es cost arbitrary: es' cost' rule: prune_entries.induct)
  case (2 now window e es cost)
  show ?case
  proof (cases "window < now - we_ts e")
    case True
    have le: "we_cost e \<le> cost" using 2(2) by (simp add: word_le_nat_alt)
    then have "unat (cost - we_cost e) = sum_list (map (unat \<circ> we_cost) es)"
      using 2(2) by (simp add: unat_sub comp_def)
    moreover have "cost - we_cost e \<le> cost" using le by (rule word_sub_le)
    moreover have "prune_entries now window es (cost - we_cost e) = (es', cost')"
      and sat: "saturating_sub_u32 cost (we_cost e) = cost - we_cost e"
      using 2(3) True le by (simp_all add: vi_saturating_sub_def saturating_sub_u32_def)
    ultimately have "es' = dropWhile (\<lambda>e. window < now - we_ts e) es
        \<and> unat cost' = sum_list (map (unat \<circ> we_cost) es') \<and> cost' \<le> cost - we_cost e"
      using 2(1) True unfolding vi_saturating_sub_def sat by blast
    with True \<open>cost - we_cost e \<le> cost\<close> show ?thesis by (metis dropWhile.simps(2) order_trans)
  next
    case False
    with 2(2,3) show ?thesis by (auto simp: vi_saturating_sub_def)
  qed
qed simp

lemma window_sim_prune:
  assumes "window_sim p T h es cost" "T \<le> now" "sorted (map fst h)"
    "prune_entries now (pp_window p) es cost = (es', cost')"
  shows "window_sim p now h es' cost' \<and> map entry_abs es' = filter (\<lambda>x. now - fst x \<le> pp_window p) h"
proof -
  obtain old where h: "h = old @ map entry_abs es" and old: "\<forall>x\<in>set old. pp_window p < T - fst x"
    and c: "unat cost = sum_list (map (unat \<circ> we_cost) es)" "cost \<le> pp_window_limit p"
    and pos: "\<forall>e\<in>set es. 0 < we_cost e"
    using assms(1) unfolding window_sim_def by blast
  let ?P = "\<lambda>e. pp_window p < now - we_ts e"
  note pr = prune_entries_dropWhile [OF c(1) assms(4)]
  have old': "\<forall>x\<in>set old. pp_window p < now - fst x" using old assms(2) by fastforce
  have srt: "sorted (map we_ts es)"
    using assms(3) unfolding h by (auto simp: sorted_append entry_abs_def comp_def)
  have es': "es' = filter (\<lambda>e. \<not> ?P e) es"
    using pr dropWhile_sorted_filter [OF srt, of ?P] by auto
  have "h = (old @ map entry_abs (takeWhile ?P es)) @ map entry_abs es'"
    using pr unfolding h by (simp flip: map_append)
  moreover have "\<forall>x\<in>set (old @ map entry_abs (takeWhile ?P es)). pp_window p < now - fst x"
    using old' by (auto simp: entry_abs_def dest: set_takeWhileD)
  moreover have "cost' \<le> pp_window_limit p" using pr c(2) by auto
  moreover have "\<forall>e\<in>set es'. 0 < we_cost e" using pos es' by auto
  ultimately have "window_sim p now h es' cost'" using pr unfolding window_sim_def by blast
  moreover have "filter (\<lambda>x. now - fst x \<le> pp_window p) old = []"
    using old' by (auto simp: filter_empty_conv)
  ultimately show ?thesis
    unfolding h es' by (simp add: filter_map comp_def entry_abs_def not_less)
qed

lemma cooldown_sim_prune:
  assumes "cooldown_sim p T h cd" "T \<le> now"
  shows "cooldown_sim p now h (bt_retain (\<lambda>_ ts. vi_saturating_sub now ts \<le> pp_cooldown p) cd)"
  unfolding cooldown_sim_def
proof (intro conjI allI)
  have srt: "bt_sorted cd" using assms(1) by (simp add: cooldown_sim_def)
  then show "bt_sorted (bt_retain (\<lambda>_ ts. vi_saturating_sub now ts \<le> pp_cooldown p) cd)"
    by (rule bt.invar_retain)
  fix k
  note k = assms(1) [unfolded cooldown_sim_def, THEN conjunct2, rule_format, of k]
  show "case bt_get (bt_retain (\<lambda>_ ts. vi_saturating_sub now ts \<le> pp_cooldown p) cd) k of
      Some t \<Rightarrow> (\<exists>c. (t, k, c) \<in> set h) \<and> (\<forall>t' c. (t', k, c) \<in> set h \<longrightarrow> t' \<le> t)
    | None \<Rightarrow> (\<forall>t' c. (t', k, c) \<in> set h \<longrightarrow> pp_cooldown p < now - t')"
  proof (cases "bt_get cd k")
    case None
    with k assms(2) show ?thesis
      by (auto simp: bt.get_retain [OF srt] intro: less_le_trans diff_le_mono)
  next
    case (Some t)
    have "pp_cooldown p < now - t'" if "\<not> now - t \<le> pp_cooldown p" "(t', k, c) \<in> set h" for t' c
    proof -
      have "t' \<le> t" using k Some that(2) by auto
      then have "now - t \<le> now - t'" by (rule diff_le_mono2)
      with that(1) show ?thesis by simp
    qed
    with k Some show ?thesis by (auto simp: bt.get_retain [OF srt] vi_saturating_sub_def)
  qed
qed

lemma sum_costs_ge_length:
  "\<forall>e\<in>set es. 0 < we_cost e \<Longrightarrow> length es \<le> sum_list (map (unat \<circ> we_cost) es)"
proof (induction es)
  case (Cons e es)
  moreover have "1 \<le> unat (we_cost e)" using Cons.prems by (simp add: word_less_nat_alt)
  ultimately show ?case by simp
qed simp

text \<open>What the three regimes look at in the pruned state is what they would see in the history.\<close>

lemma burst_count:
  assumes "map entry_abs es = filter (\<lambda>x. now - fst x \<le> pp_window p) h"
    "pp_burst_window p \<le> pp_window p"
  shows "length (filter (\<lambda>e. we_key e = key \<and> vi_saturating_sub now (we_ts e) < pp_burst_window p) es)
       = length (filter (\<lambda>(t, k, _). k = key \<and> now - t < pp_burst_window p) h)"
proof -
  let ?Q = "\<lambda>(t, k, _). k = key \<and> now - t < pp_burst_window p"
  have "filter ?Q h = filter ?Q (filter (\<lambda>x. now - fst x \<le> pp_window p) h)"
    using assms(2) by (auto intro!: filter_cong)
  then show ?thesis
    unfolding assms(1) [symmetric]
    by (simp add: filter_map comp_def entry_abs_def vi_saturating_sub_def)
qed

lemma cooldown_seen:
  assumes "cooldown_sim p now h cd" "\<forall>x\<in>set h. fst x \<le> now"
  shows "(case bt_get cd key of Some t \<Rightarrow> vi_saturating_sub now t < pp_cooldown p | None \<Rightarrow> False)
       \<longleftrightarrow> list_ex (\<lambda>(t, k, _). k = key \<and> now - t < pp_cooldown p) h"
proof (cases "bt_get cd key")
  case None
  then have "\<forall>t c. (t, key, c) \<in> set h \<longrightarrow> pp_cooldown p < now - t"
    using assms(1) [unfolded cooldown_sim_def, THEN conjunct2, rule_format, of key] by simp
  with None show ?thesis by (fastforce simp: list_ex_iff)
next
  case (Some t)
  then have "\<exists>c. (t, key, c) \<in> set h" "\<forall>t' c. (t', key, c) \<in> set h \<longrightarrow> t' \<le> t"
    using assms(1) [unfolded cooldown_sim_def, THEN conjunct2, rule_format, of key] by simp_all
  with Some show ?thesis
    by (fastforce simp: list_ex_iff vi_saturating_sub_def)
qed

lemma cooldown_sim_insert:
  assumes "cooldown_sim p now h cd" "\<forall>x\<in>set h. fst x \<le> now"
  shows "cooldown_sim p now (h @ [(now, key, c)]) (bt_insert key now cd)"
  using assms by (fastforce simp: cooldown_sim_def bt_get_insert bt_sorted_insert split: option.splits)

lemma check_session_sim:
  assumes sim: "pacing_sim p T h st" and now: "T \<le> now"
    and lim: "unat (pp_window_limit p) + 2 < 2 ^ 32" and bw: "pp_burst_window p \<le> pp_window p"
  shows "fst (check_session p now req st) = fst (spec_op p (PCheck now req) h)
    \<and> pacing_sim p now (snd (spec_op p (PCheck now req) h)) (snd (check_session p now req st))"
proof -
  obtain es cost where pr: "prune_entries now (pp_window p) (ss_window st) (ss_window_cost st) = (es, cost)"
    by (cases "prune_entries now (pp_window p) (ss_window st) (ss_window_cost st)")
  define cd where "cd = bt_retain (\<lambda>_ ts. vi_saturating_sub now ts \<le> pp_cooldown p) (ss_cooldown st)"
  define st' where "st' = prune_window now (pp_window p) (pp_cooldown p) st"
  let ?key = "request_key req" and ?c = "cost_for p req"
  have st': "ss_window st' = es" "ss_window_cost st' = cost" "ss_cooldown st' = cd"
    by (simp_all add: st'_def prune_window_def pr cd_def)
  have h: "sorted (map fst h)" "\<forall>x\<in>set h. fst x \<le> now"
    using sim now by (auto simp: pacing_sim_def)
  have w: "window_sim p now h es cost" "map entry_abs es = filter (\<lambda>x. now - fst x \<le> pp_window p) h"
    using window_sim_prune [OF _ now h(1) pr] sim by (auto simp: pacing_sim_def)
  have cds: "cooldown_sim p now h cd"
    unfolding cd_def by (rule cooldown_sim_prune [OF _ now]) (use sim in \<open>simp add: pacing_sim_def\<close>)
  have total: "window_total (pp_window p) now h = unat cost"
    using w unfolding window_total_def window_sim_def w(2) [symmetric]
    by (simp add: comp_def entry_abs_def)
  have c: "unat cost \<le> unat (pp_window_limit p)" "0 < ?c" "unat ?c \<le> 2"
    using w(1) by (auto simp: window_sim_def word_le_nat_alt cost_for_def)
  have sum: "unat (cost + ?c) = unat cost + unat ?c"
    using c lim by (intro unat_add_lem [THEN iffD1]) simp
  have "length (filter Q es) \<le> unat cost" for Q
    using w(1) sum_costs_ge_length [of es] length_filter_le [of Q es]
    unfolding window_sim_def by linarith
  then have cnt: "unat (word_of_nat (length (filter Q es)) :: u32) = length (filter Q es)" for Q
    using c(1) lim by (subst unat_of_nat) (simp add: order.strict_trans1 [OF le_trans [OF _ c(1)]])
  have regime1: "pp_window_limit p < cost + ?c
      \<longleftrightarrow> unat (pp_window_limit p) < window_total (pp_window p) now h + unat ?c"
    by (simp add: word_less_nat_alt sum total)
  have regime2: "pp_burst_limit p \<le> word_of_nat (length (filter (\<lambda>e. we_key e = ?key
        \<and> vi_saturating_sub now (we_ts e) < pp_burst_window p) es))
      \<longleftrightarrow> unat (pp_burst_limit p)
        \<le> length (filter (\<lambda>(t, k, _). k = ?key \<and> now - t < pp_burst_window p) h)"
    by (simp only: word_le_nat_alt cnt) (simp only: burst_count [OF w(2) bw])
  have stay: "pacing_sim p now h (st'\<lparr>ss_violations := v\<rparr>)" for v
    using h w(1) cds by (simp add: pacing_sim_def st')
  have "window_sim p now (h @ [(now, ?key, unat ?c)])
      (es @ [\<lparr>we_ts = now, we_key = ?key, we_cost = ?c\<rparr>]) (cost + ?c)"
    if "\<not> pp_window_limit p < cost + ?c"
    using that w(1) c(2) unfolding window_sim_def
    by (auto simp: sum entry_abs_def not_less)
  moreover have "sorted (map fst (h @ [(now, ?key, unat ?c)]))"
    using h by (auto simp: sorted_append)
  ultimately have admit: "pacing_sim p now (h @ [(now, ?key, unat ?c)])
      (st'\<lparr>ss_window := es @ [\<lparr>we_ts = now, we_key = ?key, we_cost = ?c\<rparr>],
        ss_window_cost := cost + ?c, ss_cooldown := bt_insert ?key now cd\<rparr>)"
    if "\<not> pp_window_limit p < cost + ?c"
    using that h(2) cooldown_sim_insert [OF cds h(2)] by (auto simp: pacing_sim_def)
  let ?roll = "pp_window_limit p < cost + ?c"
  let ?burst = "pp_burst_limit p \<le> word_of_nat (length (filter (\<lambda>e. we_key e = ?key
        \<and> vi_saturating_sub now (we_ts e) < pp_burst_window p) es))"
  let ?cool = "case bt_get cd ?key of Some t \<Rightarrow> vi_saturating_sub now t < pp_cooldown p | None \<Rightarrow> False"
  have spec: "spec_decide p now ?key (unat ?c) h
      = (if ?roll then Err ROLLING else if ?burst then Err BURST else if ?cool then Err COOLDOWN else Ok ())"
    unfolding spec_decide_def regime1 regime2 cooldown_seen [OF cds h(2)] by (rule refl)
  have code: "check_session p now req st
      = (if ?roll then (Err ROLLING, st'\<lparr>ss_violations := ss_violations st' + 1\<rparr>)
         else if ?burst then (Err BURST, st'\<lparr>ss_violations := ss_violations st' + 1\<rparr>)
         else if ?cool then (Err COOLDOWN, st'\<lparr>ss_violations := ss_violations st' + 1\<rparr>)
         else (Ok (), st'\<lparr>ss_window := es @ [\<lparr>we_ts = now, we_key = ?key, we_cost = ?c\<rparr>],
           ss_window_cost := cost + ?c, ss_cooldown := bt_insert ?key now cd\<rparr>))"
    unfolding check_session_def Let_def st'_def [symmetric] st' by (rule refl)
  consider "?roll" | "\<not> ?roll" "?burst" | "\<not> ?roll" "\<not> ?burst" "?cool"
    | "\<not> ?roll" "\<not> ?burst" "\<not> ?cool" by blast
  then show ?thesis
  proof cases
    case 1 then show ?thesis by (simp add: code spec stay del: not_less)
  next
    case 2 then show ?thesis by (simp add: code spec stay del: not_less)
  next
    case 3 then show ?thesis by (simp only: code spec spec_op.simps if_True if_False sum.case fst_conv snd_conv stay simp_thms)
  next
    case 4
    then show ?thesis
      by (simp only: code spec spec_op.simps if_True if_False sum.case fst_conv snd_conv admit [OF 4(1)] simp_thms)
  qed
qed

lemma session_run_sim:
  assumes "pacing_sim p T h st" "sorted (clock_readings cs)" "\<forall>t\<in>set (clock_readings cs). T \<le> t"
    "unat (pp_window_limit p) + 2 < 2 ^ 32" "pp_burst_window p \<le> pp_window p"
  shows "fst (run_ops (session_op p) cs st) = fst (run_ops (spec_op p) cs h)"
  using assms(1-3)
proof (induction cs arbitrary: T h st)
  case (Cons c cs)
  show ?case
  proof (cases c)
    case (PCheck now req)
    note step = check_session_sim [OF Cons.prems(1) _ assms(4,5), of now req]
    show ?thesis
      using Cons.IH [of now "snd (spec_op p c h)" "snd (session_op p c st)"] Cons.prems(2,3) step
      by (simp add: PCheck split_beta)
  next
    case PForget
    with Cons show ?thesis using pacing_sim_default by (auto simp: split_beta pacing_sim_def
          window_sim_def cooldown_sim_def session_default_def bt.invar_empty bt.get_empty)
  qed
qed simp

lemma pacing_history:
  assumes "0 < pp_window_limit p" "0 < pp_burst_limit p" "unat (pp_window_limit p) + 2 < 2 ^ 32"
    and "pp_burst_window p \<le> pp_window p" "sorted (clock_readings (map snd calls))"
  shows "answers_of s calls (run_pacing p calls) = fst (run_ops (spec_op p) (calls_of s calls) [])"
proof -
  let ?hp = "\<lparr>hp_per_session = bt_empty, hp_params = p\<rparr>"
  obtain os g where r: "run_ops (\<lambda>(s, c). pacing_op s c) calls ?hp = (os, g)"
    by (cases "run_ops (\<lambda>(s, c). pacing_op s c) calls ?hp")
  have run: "run_pacing p calls = os"
    using assms(1,2) r by (simp add: run_pacing_def pacing_with_params_def word_gt_0)
  have "run_ops (session_op p) (calls_of s calls) session_default = (answers_of s calls os,
      bt_get_or (hp_per_session g) s session_default)"
    using pacing.run_alone [where p = p, OF _ r, of s]
    by (simp add: bt.invar_empty bt_get_or_def bt.get_empty)
  moreover have "sorted (clock_readings (calls_of s calls))"
    using assms(5) clock_readings_calls_of [of s calls] by blast
  then have "fst (run_ops (session_op p) (calls_of s calls) session_default)
      = fst (run_ops (spec_op p) (calls_of s calls) [])"
    using assms(3,4) by (intro session_run_sim [where T = 0] pacing_sim_default) auto
  ultimately show ?thesis by (simp add: run)
qed

text \<open>
  C2: the pacing guard answers every request as the history of the requesting session says: a call
  is refused by the rolling window, the burst or the cooldown regime, in this order, exactly when
  the unpruned list of what the session was admitted before exceeds the regime, and it is admitted
  otherwise. Calls of other sessions interleave freely and make no difference. The clock does not
  run backwards, the 32-bit budget has room for one more request and the burst window fits in the
  rolling window, as in the default parameters.
\<close>

theorem pacing_implements_history_spec:
  assumes "0 < pp_window_limit p" "0 < pp_burst_limit p" "unat (pp_window_limit p) + 2 < 2 ^ 32"
    and "pp_burst_window p \<le> pp_window p" "sorted (clock_readings (map snd calls))"
  shows "answers_of s calls (run_pacing p calls) = fst (run_ops (spec_op p) (calls_of s calls) [])"
  using assms by (rule pacing_history)

definition example_params :: PacingParams where
  "example_params = \<lparr> pp_window_limit = 3, pp_window = 100, pp_burst_limit = 2, pp_burst_window = 5,
     pp_cooldown = 3, pp_bidask_double = True \<rparr>"

definition example_req :: "string \<Rightarrow> string \<Rightarrow> HistoricalReq" where
  "example_req symbol what = \<lparr> hr_contract = Stock_spec symbol ''SMART'' ''USD'', hr_end_date_time = [],
     hr_duration = ''1 D'', hr_bar_size = ''1 min'', hr_what_to_show = what, hr_use_rth = True,
     hr_format_date = 1, hr_keep_up_to_date = False \<rparr>"

definition example_calls :: "(SessionId \<times> pacing_call) list" where
  "example_calls = [(1, PCheck 0 (example_req ''AAPL'' ''TRADES'')),
     (1, PCheck 1 (example_req ''AAPL'' ''TRADES'')), (1, PCheck 3 (example_req ''AAPL'' ''TRADES'')),
     (1, PCheck 4 (example_req ''AAPL'' ''TRADES'')), (2, PCheck 10 (example_req ''AAPL'' ''TRADES'')),
     (1, PCheck 10 (example_req ''MSFT'' ''bid_ask''))]"

lemma example_calls_of:
  "calls_of 1 example_calls = [PCheck 0 (example_req ''AAPL'' ''TRADES''),
     PCheck 1 (example_req ''AAPL'' ''TRADES''), PCheck 3 (example_req ''AAPL'' ''TRADES''),
     PCheck 4 (example_req ''AAPL'' ''TRADES''), PCheck 10 (example_req ''MSFT'' ''bid_ask'')]"
  "clock_readings (map snd example_calls) = [0, 1, 3, 4, 10, 10]"
  by (simp_all add: calls_of_def example_calls_def)

lemma example_keys:
  "request_key (example_req s w) = RequestKey s ''SMART'' w ''1 min''"
  "unat (cost_for example_params (example_req s ''TRADES'')) = 1"
  "unat (cost_for example_params (example_req s ''bid_ask'')) = 2"
proof -
  have "eq_ignore_ascii_case ''bid_ask'' ''BID_ASK''" "\<not> eq_ignore_ascii_case ''TRADES'' ''BID_ASK''"
    by code_simp+
  then show "unat (cost_for example_params (example_req s ''TRADES'')) = 1"
    "unat (cost_for example_params (example_req s ''bid_ask'')) = 2"
    by (simp_all add: cost_for_def example_params_def example_req_def)
qed (simp add: request_key_def example_req_def)

lemma example_spec_run:
  "fst (run_ops (spec_op example_params) (calls_of 1 example_calls) [])
   = [Ok (), Err COOLDOWN, Ok (), Err BURST, Err ROLLING]"
proof -
  have "spec_decide example_params now k c h =
    (if 3 < window_total 100 now h + c then Err ROLLING
     else if 2 \<le> length (filter (\<lambda>(t, k', _). k' = k \<and> now - t < 5) h) then Err BURST
     else if list_ex (\<lambda>(t, k', _). k' = k \<and> now - t < 3) h then Err COOLDOWN else Ok ())" for now k c h
    by (simp add: spec_decide_def example_params_def)
  then show ?thesis
    by (simp add: example_calls_of example_keys window_total_def)
qed

lemma example_params_ok:
  "0 < pp_window_limit example_params" "0 < pp_burst_limit example_params"
  "unat (pp_window_limit example_params) + 2 < 2 ^ 32"
  "pp_burst_window example_params \<le> pp_window example_params"
  "sorted (clock_readings (map snd example_calls))"
  unfolding example_calls_of by (simp_all add: example_params_def)

theorem pacing_implements_history_spec_witness:
  "answers_of 1 example_calls (run_pacing example_params example_calls)
   = [Ok (), Err COOLDOWN, Ok (), Err BURST, Err ROLLING]"
  using pacing_implements_history_spec [OF example_params_ok, of 1] by (simp only: example_spec_run)

section \<open>What the regimes guarantee\<close>

text \<open>What a session was admitted since it was last forgotten, from its calls and their answers.\<close>

fun admitted :: "PacingParams \<Rightarrow> (pacing_call \<times> (unit, QuirkViolation) rust_result) list \<Rightarrow> history \<Rightarrow> history" where
  "admitted p [] h = h"
| "admitted p ((PForget, _) # cs) h = admitted p cs []"
| "admitted p ((PCheck now req, a) # cs) h =
     admitted p cs (if is_ok a then h @ [(now, request_key req, unat (cost_for p req))] else h)"

lemma admitted_spec_run:
  "admitted p (zip cs (fst (run_ops (spec_op p) cs h))) h = snd (run_ops (spec_op p) cs h)"
proof (induction cs arbitrary: h)
  case (Cons c cs)
  then show ?case by (cases c) (auto simp: split_beta split: sum.splits)
qed simp

definition within_regimes :: "PacingParams \<Rightarrow> history \<Rightarrow> bool" where
  "within_regimes p h \<longleftrightarrow>
     (\<forall>a. sum_list (map (snd \<circ> snd) (filter (\<lambda>(t, _). a \<le> t \<and> t \<le> a + pp_window p) h))
            \<le> unat (pp_window_limit p))
     \<and> (\<forall>a k. length (filter (\<lambda>(t, k', _). k' = k \<and> a \<le> t \<and> t < a + pp_burst_window p) h)
            \<le> unat (pp_burst_limit p))
     \<and> sorted_wrt (\<lambda>(t, k, _) (t', k', _). k = k' \<longrightarrow> t + pp_cooldown p \<le> t') h"

lemma sum_list_filter_mono:
  "(\<And>x. x \<in> set xs \<Longrightarrow> P x \<Longrightarrow> Q x) \<Longrightarrow>
     sum_list (map f (filter P xs)) \<le> sum_list (map f (filter Q xs))" for f :: "'a \<Rightarrow> nat"
  by (induction xs) (auto intro: trans_le_add2)

lemma length_filter_mono:
  "(\<And>x. x \<in> set xs \<Longrightarrow> P x \<Longrightarrow> Q x) \<Longrightarrow> length (filter P xs) \<le> length (filter Q xs)"
  using sum_list_filter_mono [of xs P Q "\<lambda>_. 1"] by (simp add: sum_list_triv)

lemma within_regimes_admit:
  assumes "within_regimes p h" "spec_decide p now key cost h = Ok ()" "\<forall>x\<in>set h. fst x \<le> now"
  shows "within_regimes p (h @ [(now, key, cost)])"
proof -
  note dec = assms(2) [unfolded spec_decide_def]
  have roll: "window_total (pp_window p) now h + cost \<le> unat (pp_window_limit p)"
    using dec by (simp split: if_splits)
  have burst: "length (filter (\<lambda>(t, k, _). k = key \<and> now - t < pp_burst_window p) h)
      < unat (pp_burst_limit p)"
    using dec by (simp split: if_splits)
  have "\<not> list_ex (\<lambda>(t, k, _). k = key \<and> now - t < pp_cooldown p) h"
    using dec by (simp split: if_splits)
  then have cool: "pp_cooldown p \<le> now - t" if "(t, key, c) \<in> set h" for t c
    using that by (fastforce simp: list_ex_iff)
  have budget: "sum_list (map (snd \<circ> snd) (filter (\<lambda>(t, _). a \<le> t \<and> t \<le> a + pp_window p)
      (h @ [(now, key, cost)]))) \<le> unat (pp_window_limit p)" for a
  proof (cases "a \<le> now \<and> now \<le> a + pp_window p")
    case True
    have "sum_list (map (snd \<circ> snd) (filter (\<lambda>(t, _). a \<le> t \<and> t \<le> a + pp_window p) h))
        \<le> window_total (pp_window p) now h"
      unfolding window_total_def using True by (intro sum_list_filter_mono) auto
    with roll True show ?thesis by simp
  next
    case False
    then show ?thesis using assms(1) by (auto simp: within_regimes_def)
  qed
  have bursts: "length (filter (\<lambda>(t, k', _). k' = k \<and> a \<le> t \<and> t < a + pp_burst_window p)
      (h @ [(now, key, cost)])) \<le> unat (pp_burst_limit p)" for a k
  proof (cases "key = k \<and> a \<le> now \<and> now < a + pp_burst_window p")
    case True
    then have "length (filter (\<lambda>(t, k', _). k' = k \<and> a \<le> t \<and> t < a + pp_burst_window p) h)
        \<le> length (filter (\<lambda>(t, k', _). k' = key \<and> now - t < pp_burst_window p) h)"
      by (intro length_filter_mono) auto
    with burst True show ?thesis by simp
  next
    case False
    then show ?thesis using assms(1) by (auto simp: within_regimes_def)
  qed
  have "t + pp_cooldown p \<le> now" if "(t, key, c) \<in> set h" for t c
    using cool [OF that] bspec [OF assms(3) that] by simp
  then have "sorted_wrt (\<lambda>(t, k, _) (t', k', _). k = k' \<longrightarrow> t + pp_cooldown p \<le> t')
      (h @ [(now, key, cost)])"
    using assms(1) by (auto simp: within_regimes_def sorted_wrt_append)
  with budget bursts show ?thesis unfolding within_regimes_def by blast
qed

lemma spec_run_within_regimes:
  assumes "within_regimes p h" "\<forall>x\<in>set h. fst x \<le> T" "sorted (clock_readings cs)"
    "\<forall>t\<in>set (clock_readings cs). T \<le> t"
  shows "within_regimes p (snd (run_ops (spec_op p) cs h))"
  using assms
proof (induction cs arbitrary: T h)
  case (Cons c cs)
  show ?case
  proof (cases c)
    case (PCheck now req)
    have now: "T \<le> now" "\<forall>t\<in>set (clock_readings cs). now \<le> t" "sorted (clock_readings cs)"
      using Cons.prems(3,4) by (simp_all add: PCheck)
    have h: "\<forall>x\<in>set h. fst x \<le> now" using Cons.prems(2) now(1) by auto
    have "within_regimes p (snd (spec_op p c h)) \<and> (\<forall>x\<in>set (snd (spec_op p c h)). fst x \<le> now)"
      using Cons.prems(1) h within_regimes_admit [OF Cons.prems(1) _ h]
      by (auto simp: PCheck split: sum.split)
    then show ?thesis using Cons.IH [OF _ _ now(3,2)] by (simp add: split_beta)
  next
    case PForget
    have "within_regimes p []" by (simp add: within_regimes_def)
    with PForget Cons show ?thesis by (simp add: split_beta)
  qed
qed simp

text \<open>
  C35: whatever calls sessions make, what a session is admitted obeys all three regimes at once:
  in any rolling window the admitted cost stays within the budget, in any burst window at most the
  burst limit of identical requests is admitted, and identical requests are admitted at least the
  cooldown apart.
\<close>

theorem admitted_requests_obey_the_regimes:
  assumes "0 < pp_window_limit p" "0 < pp_burst_limit p" "unat (pp_window_limit p) + 2 < 2 ^ 32"
    and "pp_burst_window p \<le> pp_window p" "sorted (clock_readings (map snd calls))"
    and "h = admitted p (zip (calls_of s calls) (answers_of s calls (run_pacing p calls))) []"
  shows "within_regimes p h"
  unfolding assms(6) pacing_history [OF assms(1-5)] admitted_spec_run
proof (rule spec_run_within_regimes)
  show "sorted (clock_readings (calls_of s calls))"
    using assms(5) clock_readings_calls_of [of s calls] by blast
qed (auto simp: within_regimes_def)

theorem admitted_requests_obey_the_regimes_witness:
  "within_regimes example_params [(0, RequestKey ''AAPL'' ''SMART'' ''TRADES'' ''1 min'', 1),
     (3, RequestKey ''AAPL'' ''SMART'' ''TRADES'' ''1 min'', 1)]"
proof -
  have "zip (calls_of 1 example_calls) (answers_of 1 example_calls (run_pacing example_params example_calls))
    = zip (calls_of 1 example_calls) [Ok (), Err COOLDOWN, Ok (), Err BURST, Err ROLLING]"
    unfolding pacing_history [OF example_params_ok] example_spec_run by (rule refl)
  then show ?thesis
    by (intro admitted_requests_obey_the_regimes [OF example_params_ok, where s = 1])
      (simp add: example_calls_of example_keys)
qed

section \<open>The burst regime\<close>

lemma spec_no_burst:
  assumes "within_regimes p h" "\<forall>x\<in>set h. fst x \<le> T" "sorted (clock_readings cs)"
    "\<forall>t\<in>set (clock_readings cs). T \<le> t" "pp_burst_window p \<le> pp_cooldown p" "1 < pp_burst_limit p"
  shows "Err BURST \<notin> set (fst (run_ops (spec_op p) cs h))"
  using assms(1-4)
proof (induction cs arbitrary: T h)
  case (Cons c cs)
  show ?case
  proof (cases c)
    case (PCheck now req)
    have now: "T \<le> now" "\<forall>t\<in>set (clock_readings cs). now \<le> t" "sorted (clock_readings cs)"
      using Cons.prems(3,4) by (simp_all add: PCheck)
    have h: "\<forall>x\<in>set h. fst x \<le> now" using Cons.prems(2) now(1) by auto
    have "within_regimes p (snd (spec_op p c h)) \<and> (\<forall>x\<in>set (snd (spec_op p c h)). fst x \<le> now)"
      using Cons.prems(1) h within_regimes_admit [OF Cons.prems(1) _ h]
      by (auto simp: PCheck split: sum.split)
    then have rest: "Err BURST \<notin> set (fst (run_ops (spec_op p) cs (snd (spec_op p c h))))"
      using Cons.IH [OF _ _ now(3,2)] by blast
    let ?B = "filter (\<lambda>(t, k, _). k = request_key req \<and> now - t < pp_burst_window p) h"
    have "sorted_wrt (\<lambda>(t, k, _) (t', k', _). k = k' \<longrightarrow> t + pp_cooldown p \<le> t') ?B"
      using Cons.prems(1) by (simp add: within_regimes_def sorted_wrt_filter)
    moreover have "\<forall>(t, k, _)\<in>set ?B. k = request_key req \<and> now - t < pp_cooldown p \<and> t \<le> now"
      using h assms(5) by auto
    ultimately have "length ?B \<le> 1"
      by (cases ?B; cases "tl ?B") auto
    then have "\<not> unat (pp_burst_limit p) \<le> length ?B"
      using assms(6) by (simp add: word_less_nat_alt)
    moreover have "BURST \<noteq> ROLLING" "BURST \<noteq> COOLDOWN"
      by (simp_all add: BURST_def ROLLING_def COOLDOWN_def violation_def)
    ultimately have "fst (spec_op p c h) \<noteq> Err BURST"
      by (auto simp: PCheck spec_decide_def split: sum.split if_splits)
    with rest show ?thesis by (simp add: split_beta)
  next
    case PForget
    have "within_regimes p []" by (simp add: within_regimes_def)
    with PForget Cons show ?thesis by (simp add: split_beta)
  qed
qed simp

text \<open>
  under the default parameters the burst regime never refuses anything: two identical requests
  are already kept 15 seconds apart by the cooldown, so six of them never fall into two seconds.
\<close>

lemma burst_regime_idle_by_default:
  assumes "sorted (clock_readings (map snd calls))"
  shows "Err BURST \<notin> set (answers_of s calls (run_pacing pacing_default calls))"
proof -
  have "answers_of s calls (run_pacing pacing_default calls)
      = fst (run_ops (spec_op pacing_default) (calls_of s calls) [])"
    by (rule pacing_history) (use assms in \<open>simp_all add: pacing_default_def from_secs_def\<close>)
  moreover have "sorted (clock_readings (calls_of s calls))"
    using assms clock_readings_calls_of [of s calls] by blast
  ultimately show ?thesis
    using spec_no_burst [where p = pacing_default and h = "[]" and T = 0]
    by (simp add: within_regimes_def pacing_default_def from_secs_def)
qed

lemma burst_regime_idle_by_default_witness:
  "Err BURST \<notin> set (answers_of 1 example_calls (run_pacing pacing_default example_calls))"
  by (rule burst_regime_idle_by_default [OF example_params_ok(5)])

end
