(* ===== verification/Quirk_Policies.thy ===== *)
theory Quirk_Policies imports Quirk_Pacing Quirk_Lines begin

text \<open>
  The remaining quirk policies of the simulator: farm-status bulletins
  (\<open>quirks/farm_status.rs\<close>), the market-data-type policy (\<open>quirks/market_data_type.rs\<close>), the
  duplicate-status and contract-latency switches, and the configuration they are built from
  (\<open>quirks/config.rs\<close>, without its YAML reader). Random draws are arguments.
\<close>

section \<open>Farm status\<close>

datatype ConnEvent = FarmLost | FarmRestoredNoData | FarmRestoredData | DailyRestart

record FarmBulletin =
  fb_code :: i32
  fb_message :: string

definition farm_bulletin :: "i32 \<Rightarrow> string \<Rightarrow> FarmBulletin" where
  "farm_bulletin code msg = \<lparr> fb_code = code, fb_message = msg \<rparr>"

record FarmStatusEmitter =
  fe_initial_delay :: Duration
  fe_cycle_period :: Duration
  fe_cycling_enabled :: bool
  fe_daily_restart_offset :: "Duration option"
  fe_market_data_farm :: string
  fe_hmds_farm :: string
  fe_sec_def_farm :: string

definition emitter_new :: FarmStatusEmitter where
  "emitter_new = \<lparr> fe_initial_delay = from_millis 100, fe_cycle_period = from_secs (30 * 60),
     fe_cycling_enabled = False, fe_daily_restart_offset = None, fe_market_data_farm = ''usfarm'',
     fe_hmds_farm = ''ushmds'', fe_sec_def_farm = ''secdefil'' \<rparr>"

definition daily_restart_at :: "FarmStatusEmitter \<Rightarrow> VirtualInstant \<Rightarrow> VirtualInstant option" where
  "daily_restart_at em start = map_option (vi_saturating_add start) (fe_daily_restart_offset em)"

definition initial_bulletins :: "FarmStatusEmitter \<Rightarrow> FarmBulletin list" where
  "initial_bulletins em =
    [farm_bulletin MD_FARM_OK_USFARM (''Market data farm connection is OK:'' @ fe_market_data_farm em),
     farm_bulletin HMDS_FARM_OK_USHMDS (''HMDS data farm connection is OK:'' @ fe_hmds_farm em),
     farm_bulletin SEC_DEF_FARM_OK (''Sec-def data farm connection is OK:'' @ fe_sec_def_farm em)]"

fun bulletins_for :: "ConnEvent \<Rightarrow> FarmBulletin list" where
  "bulletins_for FarmLost = [farm_bulletin FARM_LOST (message FARM_LOST)]"
| "bulletins_for FarmRestoredNoData =
     [farm_bulletin FARM_RESTORED_NO_DATA (message FARM_RESTORED_NO_DATA)]"
| "bulletins_for FarmRestoredData = [farm_bulletin FARM_RESTORED_DATA (message FARM_RESTORED_DATA)]"
| "bulletins_for DailyRestart = [farm_bulletin TWS_DAILY_RESTART (message TWS_DAILY_RESTART)]"

definition cycling_pair :: "FarmStatusEmitter \<Rightarrow> u64 \<Rightarrow> FarmBulletin \<times> FarmBulletin" where
  "cycling_pair em cycle_idx =
    (if cycle_idx mod 3 = 0 then
       (farm_bulletin MD_FARM_BROKEN (''Market data farm connection is broken:'' @ fe_market_data_farm em),
        farm_bulletin MD_FARM_OK_USFARM (''Market data farm connection is OK:'' @ fe_market_data_farm em))
     else if cycle_idx mod 3 = 1 then
       (farm_bulletin HMDS_FARM_BROKEN (''HMDS data farm connection is broken:'' @ fe_hmds_farm em),
        farm_bulletin HMDS_FARM_OK_USHMDS (''HMDS data farm connection is OK:'' @ fe_hmds_farm em))
     else
       (farm_bulletin SEC_DEF_FARM_DISCONNECTED
          (''Sec-def data farm connection is disconnected:'' @ fe_sec_def_farm em),
        farm_bulletin SEC_DEF_FARM_OK (''Sec-def data farm connection is OK:'' @ fe_sec_def_farm em)))"

text \<open>
  With the default farm names every bulletin carries the message the table of error codes holds for
  its code, and the bulletins that end a cycle are the initial ones in rotation.
\<close>

lemma bulletins_match_table:
  "\<forall>b\<in>set (initial_bulletins emitter_new). fb_message b = message (fb_code b)"
  "fb_message (fst (cycling_pair emitter_new i)) = message (fb_code (fst (cycling_pair emitter_new i)))"
  by (simp_all add: initial_bulletins_def cycling_pair_def emitter_new_def farm_bulletin_def
      message_def code_defs)

lemma cycle_restores_initial:
  "snd (cycling_pair em i) = initial_bulletins em ! unat (i mod 3)"
proof -
  have "unat (i mod 3) < 3" by (simp add: unat_mod)
  then have "unat (i mod 3) = 0 \<or> unat (i mod 3) = 1 \<or> unat (i mod 3) = 2" by linarith
  then have "i mod 3 = 0 \<or> i mod 3 = 1 \<or> i mod 3 = 2"
    by (simp only: word_unat_eq_iff) simp
  then show ?thesis by (auto simp: cycling_pair_def initial_bulletins_def)
qed

section \<open>Configuration\<close>

datatype MsgRateViolationAction = Disconnect | MsgRateWarnOnly

record MsgRateConfig =
  mr_limit_per_sec :: u32
  mr_violation_action :: MsgRateViolationAction

record LineLimitConfig =
  lc_max_l1_lines :: u32
  lc_max_tbt :: u32
  lc_tbt_cooldown_sec :: nat

definition tbt_cooldown :: "LineLimitConfig \<Rightarrow> Duration" where
  "tbt_cooldown c = from_secs (lc_tbt_cooldown_sec c)"

record HistoricalPacingConfig =
  hc_window_60_10min :: u32
  hc_burst_6_2sec :: u32
  hc_identical_cooldown_sec :: nat
  hc_bidask_double_count :: bool

definition historical_config_default :: HistoricalPacingConfig where
  "historical_config_default = \<lparr> hc_window_60_10min = 60, hc_burst_6_2sec = 6,
     hc_identical_cooldown_sec = 15, hc_bidask_double_count = True \<rparr>"

definition to_pacing_params :: "HistoricalPacingConfig \<Rightarrow> PacingParams" where
  "to_pacing_params c = \<lparr> pp_window_limit = hc_window_60_10min c, pp_window = from_secs 600,
     pp_burst_limit = hc_burst_6_2sec c, pp_burst_window = from_secs 2,
     pp_cooldown = from_secs (hc_identical_cooldown_sec c), pp_bidask_double = hc_bidask_double_count c \<rparr>"

record ContractLatencyConfig =
  cl_min_ms :: nat
  cl_max_ms :: nat

definition latency_is_enabled :: "ContractLatencyConfig \<Rightarrow> bool" where
  "latency_is_enabled c \<longleftrightarrow> 0 < cl_max_ms c"

definition as_range_ms :: "ContractLatencyConfig \<Rightarrow> nat \<times> nat" where
  "as_range_ms c = (cl_min_ms c, max (cl_max_ms c) (cl_min_ms c))"

text \<open>\<open>draw lo hi\<close> stands for the uniform draw \<open>rng.gen_range(lo..=hi)\<close>.\<close>

definition next_delay :: "(nat \<Rightarrow> nat \<Rightarrow> nat) \<Rightarrow> ContractLatencyConfig \<Rightarrow> Duration" where
  "next_delay draw c =
    (if \<not> latency_is_enabled c then 0
     else case as_range_ms c of
       (lo, hi) \<Rightarrow> if hi = lo then from_millis lo else from_millis (draw lo hi))"

text \<open>Every pacing configuration yields the windows that the pacing theorems ask for.\<close>

lemma config_pacing_windows:
  "pp_burst_window (to_pacing_params c) \<le> pp_window (to_pacing_params c)"
  "to_pacing_params historical_config_default = pacing_default"
  by (simp_all add: to_pacing_params_def from_secs_def historical_config_default_def pacing_default_def)

lemma next_delay_in_range:
  assumes "\<And>lo hi. lo \<le> hi \<Longrightarrow> lo \<le> draw lo hi \<and> draw lo hi \<le> hi" "latency_is_enabled c"
  shows "from_millis (fst (as_range_ms c)) \<le> next_delay draw c
    \<and> next_delay draw c \<le> from_millis (snd (as_range_ms c))"
  using assms(1) [of "cl_min_ms c" "max (cl_max_ms c) (cl_min_ms c)"] assms(2)
  by (auto simp: next_delay_def as_range_ms_def from_millis_def)

section \<open>Duplicate order status\<close>

text \<open>\<open>f64::clamp(0.0, 1.0)\<close>; \<open>draw\<close> is the number in \<open>[0, 1)\<close> the generator yields.\<close>

definition clamp_unit :: "f64 \<Rightarrow> f64" where
  "clamp_unit x = (if f64_lt x f64_zero then f64_zero else if f64_lt f64_one x then f64_one else x)"

definition duplicate_rate :: "f64 \<Rightarrow> f64" where
  "duplicate_rate rate = (if f64_is_nan rate then f64_zero else clamp_unit rate)"

definition should_duplicate :: "f64 \<Rightarrow> f64 \<Rightarrow> bool" where
  "should_duplicate rate draw =
    (if f64_le rate f64_zero then False else if f64_le f64_one rate then True else f64_lt draw rate)"

section \<open>Market-data type\<close>

datatype MarketDataTypeKind = Live | Frozen | Delayed | DelayedFrozen

record MarketDataTypePolicy =
  mp_default :: MarketDataTypeKind
  mp_delayed_lag :: Duration
  mp_overrides :: "(SessionId, MarketDataTypeKind) btree"

definition policy_new :: "MarketDataTypeKind \<Rightarrow> nat \<Rightarrow> MarketDataTypePolicy" where
  "policy_new kind delayed_lag_secs =
    \<lparr> mp_default = kind, mp_delayed_lag = from_secs delayed_lag_secs, mp_overrides = bt_empty \<rparr>"

definition set_for_session :: "SessionId \<Rightarrow> MarketDataTypeKind \<Rightarrow> MarketDataTypePolicy \<Rightarrow> MarketDataTypePolicy" where
  "set_for_session session kind p = p\<lparr> mp_overrides := bt_insert session kind (mp_overrides p) \<rparr>"

definition kind_for :: "MarketDataTypePolicy \<Rightarrow> SessionId \<Rightarrow> MarketDataTypeKind" where
  "kind_for p session = bt_get_or (mp_overrides p) session (mp_default p)"

definition timestamp_for :: "MarketDataTypePolicy \<Rightarrow> SessionId \<Rightarrow> VirtualInstant \<Rightarrow> VirtualInstant" where
  "timestamp_for p session live_ts =
    (case kind_for p session of
       Live \<Rightarrow> live_ts | Frozen \<Rightarrow> live_ts
     | Delayed \<Rightarrow> vi_saturating_sub live_ts (mp_delayed_lag p)
     | DelayedFrozen \<Rightarrow> vi_saturating_sub live_ts (mp_delayed_lag p))"

definition allows_updates :: "MarketDataTypePolicy \<Rightarrow> SessionId \<Rightarrow> bool" where
  "allows_updates p session \<longleftrightarrow> kind_for p session \<noteq> Frozen \<and> kind_for p session \<noteq> DelayedFrozen"

definition mdt_forget_session :: "SessionId \<Rightarrow> MarketDataTypePolicy \<Rightarrow> MarketDataTypePolicy" where
  "mdt_forget_session session p = p\<lparr> mp_overrides := bt_remove session (mp_overrides p) \<rparr>"

datatype mdt_call = SetKind MarketDataTypeKind | ForgetKind

fun mdt_op :: "SessionId \<Rightarrow> mdt_call \<Rightarrow> MarketDataTypePolicy \<Rightarrow> unit \<times> MarketDataTypePolicy" where
  "mdt_op s (SetKind k) p = ((), set_for_session s k p)"
| "mdt_op s ForgetKind p = ((), mdt_forget_session s p)"

fun mdt_alone :: "MarketDataTypeKind \<Rightarrow> mdt_call \<Rightarrow> MarketDataTypeKind \<Rightarrow> unit \<times> MarketDataTypeKind" where
  "mdt_alone d (SetKind k) _ = ((), k)"
| "mdt_alone d ForgetKind _ = ((), d)"

interpretation mdt: session_table mdt_op kind_for "mdt_alone d"
  "\<lambda>p. bt_sorted (mp_overrides p) \<and> mp_default p = d" for d
proof unfold_locales
  fix g :: MarketDataTypePolicy and k i k'
  assume inv: "bt_sorted (mp_overrides g) \<and> mp_default g = d"
  show "bt_sorted (mp_overrides (snd (mdt_op k i g))) \<and> mp_default (snd (mdt_op k i g)) = d"
    using inv by (cases i) (auto simp: set_for_session_def mdt_forget_session_def bt_invars)
  show "fst (mdt_op k i g) = fst (mdt_alone d i (kind_for g k))" by simp
  show "kind_for (snd (mdt_op k i g)) k'
      = (if k' = k then snd (mdt_alone d i (kind_for g k)) else kind_for g k')"
    using inv by (cases i) (auto simp: set_for_session_def mdt_forget_session_def kind_for_def nested_simps)
qed

text \<open>Delayed modes never show data from the future, and live modes do not shift it.\<close>

lemma timestamp_for_past: "timestamp_for p s ts \<le> ts"
  by (simp add: timestamp_for_def vi_saturating_sub_def split: MarketDataTypeKind.split)

end
