(* ===== verification/Quirk_Rate.thy ===== *)
theory Quirk_Rate imports Quirk_Policies Std_Floats begin

text \<open>
  The message-rate limiter, \<open>crates/midas-ib-sim/src/quirks/msg_rate.rs\<close>: a token bucket per
  session in floating point. The reading of the clock is an argument of \<open>check\<close>.
\<close>

record PerSessionRate =
  pr_tokens :: f64
  pr_last_refill :: VirtualInstant
  pr_violation_count :: u32

definition per_session_new :: "f64 \<Rightarrow> VirtualInstant \<Rightarrow> PerSessionRate" where
  "per_session_new capacity now = \<lparr> pr_tokens = capacity, pr_last_refill = now, pr_violation_count = 0 \<rparr>"

record MsgRateLimiter =
  ml_capacity :: f64
  ml_refill_per_sec :: f64
  ml_sessions :: "(SessionId, PerSessionRate) btree"

text \<open>The two assertions of \<open>with_params\<close> are its failure.\<close>

definition rate_with_params :: "u32 \<Rightarrow> f64 \<Rightarrow> MsgRateLimiter option" where
  "rate_with_params capacity refill =
    (if capacity = 0 \<or> \<not> (f64_is_finite refill \<and> f64_lt f64_zero refill) then None
     else Some \<lparr> ml_capacity = f64_of_int (uint capacity), ml_refill_per_sec = refill,
                 ml_sessions = bt_empty \<rparr>)"

definition refill :: "PerSessionRate \<Rightarrow> VirtualInstant \<Rightarrow> f64 \<Rightarrow> f64 \<Rightarrow> PerSessionRate" where
  "refill per now capacity refill_per_sec =
    (let elapsed = as_secs_f64 (vi_saturating_sub now (pr_last_refill per))
     in if f64_le elapsed f64_zero then per
        else per\<lparr> pr_tokens := f64_min (f64_add (pr_tokens per) (f64_mul elapsed refill_per_sec)) capacity,
                  pr_last_refill := now \<rparr>)"

definition RATE_LIMIT :: QuirkViolation where
  "RATE_LIMIT = RateLimit MSG_RATE_EXCEEDED (message MSG_RATE_EXCEEDED) DisconnectAfterError"

text \<open>\<open>check\<close> on the entry of one session.\<close>

definition check_rate :: "f64 \<Rightarrow> f64 \<Rightarrow> VirtualInstant \<Rightarrow> PerSessionRate
    \<Rightarrow> (unit, QuirkViolation) rust_result \<times> PerSessionRate" where
  "check_rate capacity refill_per_sec now per0 =
    (let per = refill per0 now capacity refill_per_sec
     in if f64_lt (pr_tokens per) f64_one
        then (Err RATE_LIMIT, per\<lparr> pr_violation_count := pr_violation_count per + 1 \<rparr>)
        else (Ok (), per\<lparr> pr_tokens := f64_sub (pr_tokens per) f64_one \<rparr>))"

definition rate_check :: "VirtualInstant \<Rightarrow> SessionId \<Rightarrow> MsgRateLimiter
    \<Rightarrow> (unit, QuirkViolation) rust_result \<times> MsgRateLimiter" where
  "rate_check now session l =
    (let per = bt_get_or (ml_sessions l) session (per_session_new (ml_capacity l) now)
     in case check_rate (ml_capacity l) (ml_refill_per_sec l) now per of
          (r, per) \<Rightarrow> (r, l\<lparr> ml_sessions := bt_insert session per (ml_sessions l) \<rparr>))"

definition rate_forget_session :: "SessionId \<Rightarrow> MsgRateLimiter \<Rightarrow> MsgRateLimiter" where
  "rate_forget_session session l = l\<lparr> ml_sessions := bt_remove session (ml_sessions l) \<rparr>"

definition rate_total_violations :: "MsgRateLimiter \<Rightarrow> u64" where
  "rate_total_violations l = sum_list (map (\<lambda>s. ucast (pr_violation_count s)) (bt_values (ml_sessions l)))"

section \<open>One session at a time\<close>

datatype rate_call = RCheck VirtualInstant | RForget

fun rate_op :: "SessionId \<Rightarrow> rate_call \<Rightarrow> MsgRateLimiter \<Rightarrow> (unit, QuirkViolation) rust_result \<times> MsgRateLimiter" where
  "rate_op s (RCheck now) l = rate_check now s l"
| "rate_op s RForget l = (Ok (), rate_forget_session s l)"

fun rate_alone :: "f64 \<Rightarrow> f64 \<Rightarrow> rate_call \<Rightarrow> PerSessionRate option
    \<Rightarrow> (unit, QuirkViolation) rust_result \<times> PerSessionRate option" where
  "rate_alone cap r (RCheck now) st =
     map_prod id Some (check_rate cap r now (case st of None \<Rightarrow> per_session_new cap now | Some per \<Rightarrow> per))"
| "rate_alone cap r RForget st = (Ok (), None)"

interpretation rate: session_table rate_op "\<lambda>l s. bt_get (ml_sessions l) s" "rate_alone cap r"
  "\<lambda>l. bt_sorted (ml_sessions l) \<and> ml_capacity l = cap \<and> ml_refill_per_sec l = r" for cap r
proof unfold_locales
  fix g :: MsgRateLimiter and k i k'
  assume inv: "bt_sorted (ml_sessions g) \<and> ml_capacity g = cap \<and> ml_refill_per_sec g = r"
  show "bt_sorted (ml_sessions (snd (rate_op k i g))) \<and> ml_capacity (snd (rate_op k i g)) = cap
      \<and> ml_refill_per_sec (snd (rate_op k i g)) = r"
    using inv by (cases i) (auto simp: rate_check_def rate_forget_session_def bt_invars Let_def
        split: prod.splits)
  show "fst (rate_op k i g) = fst (rate_alone cap r i (bt_get (ml_sessions g) k))"
    using inv by (cases i) (auto simp: rate_check_def bt_get_or_def Let_def split: prod.splits)
  show "bt_get (ml_sessions (snd (rate_op k i g))) k'
      = (if k' = k then snd (rate_alone cap r i (bt_get (ml_sessions g) k)) else bt_get (ml_sessions g) k')"
    using inv by (cases i) (auto simp: rate_check_def rate_forget_session_def bt_get_or_def Let_def
        bt_get_insert bt_get_remove split: prod.splits)
qed

section \<open>The bucket\<close>

text \<open>No elapsed time, no tokens.\<close>

lemma refill_same_instant: "now \<le> pr_last_refill per \<Longrightarrow> refill per now cap r = per"
  using as_secs_f64_zero by (simp add: refill_def vi_saturating_sub_def)

lemma burst_step:
  assumes "f64_int (pr_tokens per) (int k)" "k \<le> 2 ^ 32" "pr_last_refill per = now"
  shows "check_rate cap r now per =
    (if k = 0 then (Err RATE_LIMIT, per\<lparr> pr_violation_count := pr_violation_count per + 1 \<rparr>)
     else (Ok (), per\<lparr> pr_tokens := f64_sub (pr_tokens per) f64_one \<rparr>))
    \<and> (0 < k \<longrightarrow> f64_int (f64_sub (pr_tokens per) f64_one) (int (k - 1)))"
proof -
  have "f64_lt (pr_tokens per) f64_one \<longleftrightarrow> int k < 1"
    by (rule f64_int_lt [OF assms(1) f64_int_consts(2)])
  moreover have "f64_int (f64_sub (pr_tokens per) f64_one) (int (k - 1))" if "0 < k"
  proof -
    have e: "int (k - 1) = int k - 1" using that by simp
    show ?thesis
      unfolding e by (intro f64_int_sub [OF assms(1) f64_int_consts(2)]) (use assms(2) in simp)
  qed
  ultimately show ?thesis by (simp add: check_rate_def refill_same_instant assms(3))
qed

lemma burst_run:
  assumes "f64_int (pr_tokens per) (int k)" "k \<le> 2 ^ 32" "pr_last_refill per = now"
  shows "fst (run_ops (rate_alone cap r) (replicate n (RCheck now)) (Some per))
    = replicate (min n k) (Ok ()) @ replicate (n - k) (Err RATE_LIMIT)"
  using assms
proof (induction n arbitrary: k per)
  case (Suc n)
  note step = burst_step [OF Suc.prems, of cap r]
  show ?case
  proof (cases "k = 0")
    case True
    with Suc.IH [of "per\<lparr> pr_violation_count := pr_violation_count per + 1 \<rparr>" 0] Suc.prems step
    show ?thesis by (simp add: split_beta)
  next
    case False
    then obtain j where j: "k = Suc j" by (cases k) auto
    with Suc.IH [of "per\<lparr> pr_tokens := f64_sub (pr_tokens per) f64_one \<rparr>" j] Suc.prems step False
    show ?thesis by (simp add: split_beta)
  qed
qed simp

text \<open>
  a burst is admitted up to the capacity and not one message further: of any number of messages
  a new session sends at one instant, exactly the first \<open>capacity\<close> are admitted, and each later one
  is answered with the rate-limit error that disconnects, however other sessions' messages
  interleave. The floating-point bucket counts exactly.
\<close>

lemma burst_admits_exactly_the_capacity:
  assumes "rate_with_params capacity refill_rate = Some l"
    and "calls_of s calls = replicate n (RCheck now)"
  shows "answers_of s calls (fst (run_ops (\<lambda>(s, c). rate_op s c) calls l))
    = replicate (min n (unat capacity)) (Ok ()) @ replicate (n - unat capacity) (Err RATE_LIMIT)"
proof -
  let ?cap = "f64_of_int (uint capacity)"
  have l: "l = \<lparr> ml_capacity = ?cap, ml_refill_per_sec = refill_rate, ml_sessions = bt_empty \<rparr>"
    using assms(1) by (simp add: rate_with_params_def split: if_splits)
  obtain os g where r: "run_ops (\<lambda>(s, c). rate_op s c) calls l = (os, g)"
    by (cases "run_ops (\<lambda>(s, c). rate_op s c) calls l")
  have "bt_sorted (ml_sessions l) \<and> ml_capacity l = ?cap \<and> ml_refill_per_sec l = refill_rate"
    by (simp add: l bt.invar_empty)
  from rate.run_alone [OF this r, of s] have
    alone: "fst (run_ops (rate_alone ?cap refill_rate) (replicate n (RCheck now)) None) = answers_of s calls os"
    by (simp add: assms(2) l bt.get_empty)
  have c: "uint capacity = int (unat capacity)" "unat capacity \<le> 2 ^ 32"
    using unsigned_less [of capacity, where 'a = nat] by simp_all
  have cap: "f64_int ?cap (int (unat capacity))"
    using f64_int_of_int [of "uint capacity"] unsigned_less [of capacity, where 'a = int]
    unfolding c(1) [symmetric] by simp
  have "run_ops (rate_alone ?cap refill_rate) (replicate n (RCheck now)) None
      = (if n = 0 then ([], None) else run_ops (rate_alone ?cap refill_rate) (replicate n (RCheck now))
          (Some (per_session_new ?cap now)))"
    by (cases n) simp_all
  moreover have "fst (run_ops (rate_alone ?cap refill_rate) (replicate n (RCheck now))
        (Some (per_session_new ?cap now)))
      = replicate (min n (unat capacity)) (Ok ()) @ replicate (n - unat capacity) (Err RATE_LIMIT)"
    by (rule burst_run) (use cap c(2) in \<open>simp_all add: per_session_new_def\<close>)
  ultimately show ?thesis using alone r by (auto split: if_splits)
qed

definition rate_example :: "(SessionId \<times> rate_call) list" where
  "rate_example = [(1, RCheck 5), (2, RCheck 5), (1, RCheck 5), (1, RCheck 5)]"

lemma burst_admits_exactly_the_capacity_witness:
  "\<exists>l. rate_with_params 2 (f64_of_int 50) = Some l \<and>
     answers_of 1 rate_example (fst (run_ops (\<lambda>(s, c). rate_op s c) rate_example l))
     = [Ok (), Ok (), Err RATE_LIMIT]"
proof -
  have "f64_is_finite (f64_of_int 50)" "f64_lt f64_zero (f64_of_int 50)" by code_simp+
  then obtain l where l: "rate_with_params 2 (f64_of_int 50) = Some l"
    by (simp add: rate_with_params_def)
  have c: "calls_of 1 rate_example = replicate 3 (RCheck 5)"
    by (simp add: calls_of_def rate_example_def numeral_3_eq_3)
  have "unat (2 :: u32) = 2" by simp
  with burst_admits_exactly_the_capacity [OF l c] l show ?thesis
    by (simp only: min.absorb2) (simp add: numeral_2_eq_2 numeral_3_eq_3)
qed

end
