(* ===== verification/Quirk_Composite.thy ===== *)
theory Quirk_Composite imports Quirk_Lines Quirk_Rate begin

text \<open>
  The guard the simulator's engine consults, \<open>crates/midas-ib-sim/src/quirks/mod.rs\<close>: the message
  rate first, then the limiter the request concerns. The sub-limiters are those of the theories
  Quirk_Rate, Quirk_Lines and Quirk_Pacing; the shared clock is an argument of \<open>check\<close>.
\<close>

section \<open>The guard\<close>

datatype QuirkCheckKind =
    MsgRate
  | L1Subscribe SymbolKey
  | L1Unsubscribe
  | TickByTickSubscribe SymbolKey
  | HistoricalRequest HistoricalReq
  | OrderPlace

text \<open>The parts of \<open>QuirksConfig\<close> that the guard reads.\<close>

record GuardConfig =
  qc_msg_rate :: MsgRateConfig
  qc_line_limit :: LineLimitConfig
  qc_historical_pacing :: HistoricalPacingConfig

record CompositeQuirkGuard =
  g_msg_rate :: MsgRateLimiter
  g_line_limit :: LineLimiter
  g_tick_by_tick :: TickByTickLimiter
  g_historical :: HistoricalPacing

text \<open>A constructor's assertion that fails is \<open>None\<close>.\<close>

definition from_config :: "GuardConfig \<Rightarrow> CompositeQuirkGuard option" where
  "from_config cfg =
    (let limit = mr_limit_per_sec (qc_msg_rate cfg)
     in case rate_with_params limit (f64_of_int (uint limit)) of None \<Rightarrow> None | Some msg_rate \<Rightarrow>
        (case lines_with_cap (unat (lc_max_l1_lines (qc_line_limit cfg))) of None \<Rightarrow> None | Some line_limit \<Rightarrow>
        (case tbt_with_params (unat (lc_max_tbt (qc_line_limit cfg))) (tbt_cooldown (qc_line_limit cfg)) of
           None \<Rightarrow> None | Some tick_by_tick \<Rightarrow>
        (case pacing_with_params (to_pacing_params (qc_historical_pacing cfg)) of
           None \<Rightarrow> None | Some historical \<Rightarrow>
         Some \<lparr> g_msg_rate = msg_rate, g_line_limit = line_limit, g_tick_by_tick = tick_by_tick,
                g_historical = historical \<rparr>))))"

definition guard_forget_session :: "SessionId \<Rightarrow> CompositeQuirkGuard \<Rightarrow> CompositeQuirkGuard" where
  "guard_forget_session session g =
     g\<lparr> g_msg_rate := rate_forget_session session (g_msg_rate g),
        g_line_limit := l1_forget_session session (g_line_limit g),
        g_tick_by_tick := tbt_forget_session session (g_tick_by_tick g),
        g_historical := pacing_forget_session session (g_historical g) \<rparr>"

definition guard_release_l1 :: "SessionId \<Rightarrow> ReqId \<Rightarrow> CompositeQuirkGuard \<Rightarrow> CompositeQuirkGuard" where
  "guard_release_l1 session req_id g = g\<lparr> g_line_limit := release_l1 session req_id (g_line_limit g) \<rparr>"

definition guard_release_tbt :: "SessionId \<Rightarrow> ReqId \<Rightarrow> CompositeQuirkGuard \<Rightarrow> CompositeQuirkGuard" where
  "guard_release_tbt session req_id g = g\<lparr> g_tick_by_tick := tbt_release session req_id (g_tick_by_tick g) \<rparr>"

definition unwrap_or_default :: "ReqId option \<Rightarrow> ReqId" where
  "unwrap_or_default r = (case r of Some r \<Rightarrow> r | None \<Rightarrow> 0)"

definition guard_check :: "VirtualInstant \<Rightarrow> SessionId \<Rightarrow> ReqId option \<Rightarrow> QuirkCheckKind \<Rightarrow> CompositeQuirkGuard
    \<Rightarrow> (unit, QuirkViolation) rust_result \<times> CompositeQuirkGuard" where
  "guard_check now session req_id kind g =
    (case rate_check now session (g_msg_rate g) of
       (Err e, r) \<Rightarrow> (Err e, g\<lparr> g_msg_rate := r \<rparr>)
     | (Ok _, r) \<Rightarrow>
       let g = g\<lparr> g_msg_rate := r \<rparr>
       in case kind of
            MsgRate \<Rightarrow> (Ok (), g)
          | L1Subscribe _ \<Rightarrow>
              map_prod id (\<lambda>l. g\<lparr> g_line_limit := l \<rparr>)
                (reserve_l1 session (unwrap_or_default req_id) (g_line_limit g))
          | L1Unsubscribe \<Rightarrow>
              (Ok (), case req_id of Some r \<Rightarrow> guard_release_l1 session r g | None \<Rightarrow> g)
          | TickByTickSubscribe symbol \<Rightarrow>
              map_prod id (\<lambda>l. g\<lparr> g_tick_by_tick := l \<rparr>)
                (tbt_reserve now session (unwrap_or_default req_id) symbol (g_tick_by_tick g))
          | HistoricalRequest req \<Rightarrow>
              map_prod id (\<lambda>h. g\<lparr> g_historical := h \<rparr>) (pacing_check now session req (g_historical g))
          | OrderPlace \<Rightarrow> (Ok (), g))"

section \<open>One session at a time\<close>

datatype guard_call =
    GCheck VirtualInstant "ReqId option" QuirkCheckKind
  | GReleaseL1 ReqId
  | GReleaseTbt ReqId
  | GForget

fun guard_op :: "SessionId \<Rightarrow> guard_call \<Rightarrow> CompositeQuirkGuard
    \<Rightarrow> (unit, QuirkViolation) rust_result \<times> CompositeQuirkGuard" where
  "guard_op s (GCheck now r kind) g = guard_check now s r kind g"
| "guard_op s (GReleaseL1 r) g = (Ok (), guard_release_l1 s r g)"
| "guard_op s (GReleaseTbt r) g = (Ok (), guard_release_tbt s r g)"
| "guard_op s GForget g = (Ok (), guard_forget_session s g)"

text \<open>The state of one session in each limiter, and the guard on it.\<close>

record session_guard =
  sg_rate :: "PerSessionRate option"
  sg_lines :: "ReqId set"
  sg_tbt :: "ReqId set \<times> (i32 \<Rightarrow> VirtualInstant option)"
  sg_pacing :: SessionState

definition session_fresh :: session_guard where
  "session_fresh = \<lparr> sg_rate = None, sg_lines = {}, sg_tbt = ({}, \<lambda>_. None), sg_pacing = session_default \<rparr>"

definition guard_view :: "CompositeQuirkGuard \<Rightarrow> SessionId \<Rightarrow> session_guard" where
  "guard_view g s = \<lparr> sg_rate = bt_get (ml_sessions (g_msg_rate g)) s,
     sg_lines = bt_dom (session_lines (g_line_limit g) s),
     sg_tbt = tbt_view (g_tick_by_tick g) s,
     sg_pacing = bt_get_or (hp_per_session (g_historical g)) s session_default \<rparr>"

record guard_limits =
  gl_capacity :: f64
  gl_lines :: nat
  gl_tbt :: nat
  gl_cooldown :: Duration
  gl_pacing :: PacingParams

fun kind_alone :: "guard_limits \<Rightarrow> VirtualInstant \<Rightarrow> ReqId option \<Rightarrow> QuirkCheckKind \<Rightarrow> session_guard
    \<Rightarrow> (unit, QuirkViolation) rust_result \<times> session_guard" where
  "kind_alone c now r (L1Subscribe _) v =
     map_prod id (\<lambda>l. v\<lparr> sg_lines := l \<rparr>) (l1_spec (gl_lines c) (Reserve (unwrap_or_default r)) (sg_lines v))"
| "kind_alone c now r L1Unsubscribe v =
     (case r of None \<Rightarrow> (Ok (), v)
      | Some r \<Rightarrow> map_prod id (\<lambda>l. v\<lparr> sg_lines := l \<rparr>) (l1_spec (gl_lines c) (Release r) (sg_lines v)))"
| "kind_alone c now r (TickByTickSubscribe sk) v =
     map_prod id (\<lambda>t. v\<lparr> sg_tbt := t \<rparr>)
       (tbt_spec (gl_tbt c) (gl_cooldown c) (TReserve now (unwrap_or_default r) sk) (sg_tbt v))"
| "kind_alone c now r (HistoricalRequest req) v =
     map_prod id (\<lambda>p. v\<lparr> sg_pacing := p \<rparr>) (session_op (gl_pacing c) (PCheck now req) (sg_pacing v))"
| "kind_alone c now r _ v = (Ok (), v)"

fun guard_alone :: "guard_limits \<Rightarrow> guard_call \<Rightarrow> session_guard
    \<Rightarrow> (unit, QuirkViolation) rust_result \<times> session_guard" where
  "guard_alone c (GCheck now r kind) v =
     (case rate_alone (gl_capacity c) (gl_capacity c) (RCheck now) (sg_rate v) of
        (Err e, b) \<Rightarrow> (Err e, v\<lparr> sg_rate := b \<rparr>)
      | (Ok _, b) \<Rightarrow> kind_alone c now r kind (v\<lparr> sg_rate := b \<rparr>))"
| "guard_alone c (GReleaseL1 r) v = (Ok (), v\<lparr> sg_lines := sg_lines v - {r} \<rparr>)"
| "guard_alone c (GReleaseTbt r) v =
     (Ok (), v\<lparr> sg_tbt := snd (tbt_spec (gl_tbt c) (gl_cooldown c) (TRelease r) (sg_tbt v)) \<rparr>)"
| "guard_alone c GForget v = (Ok (), session_fresh)"

definition guard_ok :: "guard_limits \<Rightarrow> CompositeQuirkGuard \<Rightarrow> bool" where
  "guard_ok c g \<longleftrightarrow>
     (bt_sorted (ml_sessions (g_msg_rate g)) \<and> ml_capacity (g_msg_rate g) = gl_capacity c
        \<and> ml_refill_per_sec (g_msg_rate g) = gl_capacity c)
     \<and> (nested_ok (ll_lines (g_line_limit g)) \<and> ll_cap (g_line_limit g) = gl_lines c)
     \<and> tbt_ok (gl_tbt c) (gl_cooldown c) (g_tick_by_tick g)
     \<and> (bt_sorted (hp_per_session (g_historical g)) \<and> hp_params (g_historical g) = gl_pacing c)"

text \<open>What each limiter promises, read for the operations the guard calls.\<close>

lemma rate_laws:
  assumes "guard_ok c g"
  defines "l \<equiv> g_msg_rate g"
  shows "bt_sorted (ml_sessions (snd (rate_op k i l))) \<and> ml_capacity (snd (rate_op k i l)) = gl_capacity c
      \<and> ml_refill_per_sec (snd (rate_op k i l)) = gl_capacity c"
    and "fst (rate_op k i l) = fst (rate_alone (gl_capacity c) (gl_capacity c) i (bt_get (ml_sessions l) k))"
    and "bt_get (ml_sessions (snd (rate_op k i l))) k' = (if k' = k
        then snd (rate_alone (gl_capacity c) (gl_capacity c) i (bt_get (ml_sessions l) k)) else bt_get (ml_sessions l) k')"
  using rate.invar_op [of l "gl_capacity c" "gl_capacity c" k i]
    rate.answer_op [of l "gl_capacity c" "gl_capacity c" k i]
    rate.view_op [of l "gl_capacity c" "gl_capacity c" k i k'] assms by (simp_all add: guard_ok_def)

lemma l1_laws:
  assumes "guard_ok c g"
  defines "l \<equiv> g_line_limit g"
  shows "nested_ok (ll_lines (snd (l1_op k i l))) \<and> ll_cap (snd (l1_op k i l)) = gl_lines c"
    and "fst (l1_op k i l) = fst (l1_spec (gl_lines c) i (bt_dom (session_lines l k)))"
    and "bt_dom (session_lines (snd (l1_op k i l)) k') = (if k' = k
        then snd (l1_spec (gl_lines c) i (bt_dom (session_lines l k))) else bt_dom (session_lines l k'))"
  using l1.invar_op [of l "gl_lines c" k i] l1.answer_op [of l "gl_lines c" k i]
    l1.view_op [of l "gl_lines c" k i k'] assms by (simp_all add: guard_ok_def)

lemma tbt_laws:
  assumes "guard_ok c g"
  defines "l \<equiv> g_tick_by_tick g"
  shows "tbt_ok (gl_tbt c) (gl_cooldown c) (snd (tbt_op k i l))"
    and "fst (tbt_op k i l) = fst (tbt_spec (gl_tbt c) (gl_cooldown c) i (tbt_view l k))"
    and "tbt_view (snd (tbt_op k i l)) k' = (if k' = k
        then snd (tbt_spec (gl_tbt c) (gl_cooldown c) i (tbt_view l k)) else tbt_view l k')"
  using tbt.invar_op [of "gl_tbt c" "gl_cooldown c" l k i] tbt.answer_op [of "gl_tbt c" "gl_cooldown c" l k i]
    tbt.view_op [of "gl_tbt c" "gl_cooldown c" l k i k'] assms by (simp_all add: guard_ok_def)

lemma pacing_laws:
  assumes "guard_ok c g"
  defines "l \<equiv> g_historical g"
  shows "bt_sorted (hp_per_session (snd (pacing_op k i l))) \<and> hp_params (snd (pacing_op k i l)) = gl_pacing c"
    and "fst (pacing_op k i l) = fst (session_op (gl_pacing c) i (bt_get_or (hp_per_session l) k session_default))"
    and "bt_get_or (hp_per_session (snd (pacing_op k i l))) k' session_default = (if k' = k
        then snd (session_op (gl_pacing c) i (bt_get_or (hp_per_session l) k session_default))
        else bt_get_or (hp_per_session l) k' session_default)"
  using pacing.invar_op [of l "gl_pacing c" k i] pacing.answer_op [of l "gl_pacing c" k i]
    pacing.view_op [of l "gl_pacing c" k i k'] assms by (simp_all add: guard_ok_def)

text \<open>The sub-limiter's part of a check, by the kind of request.\<close>

definition kind_check :: "VirtualInstant \<Rightarrow> SessionId \<Rightarrow> ReqId option \<Rightarrow> QuirkCheckKind \<Rightarrow> CompositeQuirkGuard
    \<Rightarrow> (unit, QuirkViolation) rust_result \<times> CompositeQuirkGuard" where
  "kind_check now s r kind g = (case kind of
      L1Subscribe _ \<Rightarrow> map_prod id (\<lambda>l. g\<lparr> g_line_limit := l \<rparr>) (l1_op s (Reserve (unwrap_or_default r)) (g_line_limit g))
    | L1Unsubscribe \<Rightarrow> (case r of None \<Rightarrow> (Ok (), g)
        | Some r \<Rightarrow> map_prod id (\<lambda>l. g\<lparr> g_line_limit := l \<rparr>) (l1_op s (Release r) (g_line_limit g)))
    | TickByTickSubscribe sk \<Rightarrow> map_prod id (\<lambda>l. g\<lparr> g_tick_by_tick := l \<rparr>)
        (tbt_op s (TReserve now (unwrap_or_default r) sk) (g_tick_by_tick g))
    | HistoricalRequest req \<Rightarrow> map_prod id (\<lambda>h. g\<lparr> g_historical := h \<rparr>) (pacing_op s (PCheck now req) (g_historical g))
    | _ \<Rightarrow> (Ok (), g))"

lemma guard_check_kind:
  "guard_check now s r kind g =
    (case rate_op s (RCheck now) (g_msg_rate g) of
       (Err e, l) \<Rightarrow> (Err e, g\<lparr> g_msg_rate := l \<rparr>)
     | (Ok _, l) \<Rightarrow> kind_check now s r kind (g\<lparr> g_msg_rate := l \<rparr>))"
  by (auto simp: guard_check_def kind_check_def guard_release_l1_def Let_def
      split: prod.splits sum.splits QuirkCheckKind.splits option.splits)

text \<open>Replacing one limiter by its next state.\<close>

lemma guard_ok_updates:
  assumes "guard_ok c g"
  shows "guard_ok c (g\<lparr> g_msg_rate := snd (rate_op k i1 (g_msg_rate g)) \<rparr>)"
    and "guard_ok c (g\<lparr> g_line_limit := snd (l1_op k i2 (g_line_limit g)) \<rparr>)"
    and "guard_ok c (g\<lparr> g_tick_by_tick := snd (tbt_op k i3 (g_tick_by_tick g)) \<rparr>)"
    and "guard_ok c (g\<lparr> g_historical := snd (pacing_op k i4 (g_historical g)) \<rparr>)"
  using assms rate_laws(1) [OF assms, of k i1] l1_laws(1) [OF assms, of k i2]
    tbt_laws(1) [OF assms, of k i3] pacing_laws(1) [OF assms, of k i4]
  by (simp_all add: guard_ok_def)

lemma kind_check_laws:
  assumes "guard_ok c g"
  shows "guard_ok c (snd (kind_check now k r kind g))
    \<and> fst (kind_check now k r kind g) = fst (kind_alone c now r kind (guard_view g k))
    \<and> guard_view (snd (kind_check now k r kind g)) k'
      = (if k' = k then snd (kind_alone c now r kind (guard_view g k)) else guard_view g k')"
proof -
  note defs = kind_check_def guard_view_def
  show ?thesis
  proof (cases kind)
    case (L1Subscribe sk)
    let ?i = "Reserve (unwrap_or_default r)"
    show ?thesis
      using L1Subscribe guard_ok_updates(2) [OF assms, of k ?i] l1_laws(2) [OF assms, of k ?i]
        l1_laws(3) [OF assms, of k ?i k'] by (simp add: defs del: l1_op.simps l1_spec.simps)
  next
    case L1Unsubscribe
    then show ?thesis
    proof (cases r)
      case (Some r)
      let ?i = "Release r"
      show ?thesis
        using L1Unsubscribe Some guard_ok_updates(2) [OF assms, of k ?i] l1_laws(2) [OF assms, of k ?i]
          l1_laws(3) [OF assms, of k ?i k'] by (simp add: defs del: l1_op.simps l1_spec.simps)
    qed (use assms in \<open>simp add: defs\<close>)
  next
    case (TickByTickSubscribe sk)
    let ?i = "TReserve now (unwrap_or_default r) sk"
    show ?thesis
      using TickByTickSubscribe guard_ok_updates(3) [OF assms, of k ?i] tbt_laws(2) [OF assms, of k ?i]
        tbt_laws(3) [OF assms, of k ?i k'] by (simp add: defs del: tbt_op.simps)
  next
    case (HistoricalRequest req)
    let ?i = "PCheck now req"
    show ?thesis
      using HistoricalRequest guard_ok_updates(4) [OF assms, of k ?i] pacing_laws(2) [OF assms, of k ?i]
        pacing_laws(3) [OF assms, of k ?i k'] by (simp add: defs del: pacing_op.simps session_op.simps)
  qed (use assms in \<open>simp_all add: defs\<close>)
qed

interpretation guard: session_table guard_op guard_view "guard_alone c" "guard_ok c" for c
proof unfold_locales
  fix g :: CompositeQuirkGuard and k i k'
  assume ok: "guard_ok c g"
  note laws = rate_laws(2,3) [OF ok] l1_laws(3) [OF ok, of _ "Release _"] tbt_laws(3) [OF ok, of _ "TRelease _"]
  have "guard_ok c (snd (guard_op k i g)) \<and> fst (guard_op k i g) = fst (guard_alone c i (guard_view g k))
    \<and> guard_view (snd (guard_op k i g)) k'
      = (if k' = k then snd (guard_alone c i (guard_view g k)) else guard_view g k')"
  proof (cases i)
    case (GCheck now r kind)
    obtain a l where al: "rate_op k (RCheck now) (g_msg_rate g) = (a, l)"
      by (cases "rate_op k (RCheck now) (g_msg_rate g)")
    let ?g = "g\<lparr> g_msg_rate := l \<rparr>"
    have g: "guard_ok c ?g" using guard_ok_updates(1) [OF ok, of k "RCheck now"] al by simp
    have al': "rate_alone (gl_capacity c) (gl_capacity c) (RCheck now) (sg_rate (guard_view g k))
        = (a, bt_get (ml_sessions l) k)"
      using rate_laws(2) [OF ok, of k "RCheck now"] rate_laws(3) [OF ok, of k "RCheck now" k] al
      by (simp add: guard_view_def prod_eq_iff)
    have v: "guard_view ?g k = (guard_view g k)\<lparr> sg_rate := bt_get (ml_sessions l) k \<rparr>"
      "k' \<noteq> k \<Longrightarrow> guard_view ?g k' = guard_view g k'"
      using rate_laws(3) [OF ok, of k "RCheck now" k'] al by (simp_all add: guard_view_def)
    note kl = kind_check_laws [OF g, of now k r kind k']
    show ?thesis
    proof (cases a)
      case (Inl e)
      with GCheck al al' v g show ?thesis by (simp add: guard_check_kind del: rate_op.simps rate_alone.simps)
    next
      case (Inr u)
      with GCheck al al' v kl show ?thesis by (simp add: guard_check_kind del: rate_op.simps rate_alone.simps)
    qed
  next
    case (GReleaseL1 r)
    with guard_ok_updates(2) [OF ok, of k "Release r"] l1_laws(3) [OF ok, of k "Release r"] show ?thesis
      by (simp add: guard_release_l1_def guard_view_def)
  next
    case (GReleaseTbt r)
    with guard_ok_updates(3) [OF ok, of k "TRelease r"] tbt_laws(3) [OF ok, of k "TRelease r"] show ?thesis
      by (simp add: guard_release_tbt_def guard_view_def)
  next
    case GForget
    let ?f = "guard_forget_session k g"
    have "guard_ok c ?f"
      using ok rate_laws(1) [OF ok, of k RForget] l1_laws(1) [OF ok, of k ForgetLines]
        tbt_laws(1) [OF ok, of k TForget] pacing_laws(1) [OF ok, of k PForget]
      by (simp add: guard_ok_def guard_forget_session_def)
    moreover have "guard_view ?f k' = (if k' = k then session_fresh else guard_view g k')"
      using rate_laws(3) [OF ok, of k RForget k'] l1_laws(3) [OF ok, of k ForgetLines k']
        tbt_laws(3) [OF ok, of k TForget k'] pacing_laws(3) [OF ok, of k PForget k']
      by (cases "tbt_view (g_tick_by_tick g) k")
        (simp add: guard_view_def guard_forget_session_def session_fresh_def)
    ultimately show ?thesis using GForget by simp
  qed
  then show "guard_ok c (snd (guard_op k i g))"
    "fst (guard_op k i g) = fst (guard_alone c i (guard_view g k))"
    "guard_view (snd (guard_op k i g)) k'
      = (if k' = k then snd (guard_alone c i (guard_view g k)) else guard_view g k')" by blast+
qed

section \<open>Isolation\<close>

definition limits_of :: "GuardConfig \<Rightarrow> guard_limits" where
  "limits_of cfg = \<lparr> gl_capacity = f64_of_int (uint (mr_limit_per_sec (qc_msg_rate cfg))),
     gl_lines = unat (lc_max_l1_lines (qc_line_limit cfg)), gl_tbt = unat (lc_max_tbt (qc_line_limit cfg)),
     gl_cooldown = tbt_cooldown (qc_line_limit cfg), gl_pacing = to_pacing_params (qc_historical_pacing cfg) \<rparr>"

lemma from_config_fresh:
  "from_config cfg = Some g \<Longrightarrow> guard_ok (limits_of cfg) g \<and> guard_view g s = session_fresh"
  by (auto simp: from_config_def Let_def rate_with_params_def lines_with_cap_def tbt_with_params_def
      pacing_with_params_def limits_of_def guard_ok_def guard_view_def session_fresh_def tbt_ok_def
      tbt_view_def nested_ok_empty bt.invar_empty bt.get_empty bt_get_or_def bt_dom_def
      split: if_splits option.splits)

definition run_guard :: "GuardConfig \<Rightarrow> (SessionId \<times> guard_call) list
    \<Rightarrow> (unit, QuirkViolation) rust_result list" where
  "run_guard cfg calls = (case from_config cfg of
     None \<Rightarrow> [] | Some g \<Rightarrow> fst (run_ops (\<lambda>(s, c). guard_op s c) calls g))"

lemma run_guard_alone:
  "from_config cfg = Some g \<Longrightarrow> answers_of s calls (run_guard cfg calls)
     = fst (run_ops (guard_alone (limits_of cfg)) (calls_of s calls) session_fresh)"
  using guard.run_alone [of "limits_of cfg" g calls _ _ s] from_config_fresh [of cfg g s]
  by (cases "run_ops (\<lambda>(s, c). guard_op s c) calls g") (simp add: run_guard_def)

text \<open>
  sessions do not share a budget, and a session id starts afresh once forgotten. Of any calls
  on a guard, with checks of every kind interleaved between sessions, the answers one session gets
  after it was forgotten are those a new guard gives to its later calls alone: neither its own past
  nor anything another session did makes a difference.
\<close>

lemma forgotten_session_starts_afresh:
  assumes "from_config cfg = Some g" and "calls_of s calls = before @ GForget # later"
    and "calls_of s alone = later"
  shows "drop (Suc (length before)) (answers_of s calls (run_guard cfg calls))
    = answers_of s alone (run_guard cfg alone)"
proof -
  obtain os v where b: "run_ops (guard_alone (limits_of cfg)) before session_fresh = (os, v)"
    by (cases "run_ops (guard_alone (limits_of cfg)) before session_fresh")
  then have "length os = length before"
    using length_run_ops [of "guard_alone (limits_of cfg)" before session_fresh] by simp
  with b assms show ?thesis
    by (simp add: run_guard_alone [OF assms(1)] run_ops_append split_beta)
qed

definition guard_example_config :: GuardConfig where
  "guard_example_config = \<lparr> qc_msg_rate = \<lparr> mr_limit_per_sec = 2, mr_violation_action = Disconnect \<rparr>,
     qc_line_limit = \<lparr> lc_max_l1_lines = 1, lc_max_tbt = 1, lc_tbt_cooldown_sec = 15 \<rparr>,
     qc_historical_pacing = historical_config_default \<rparr>"

definition guard_example_later :: "(SessionId \<times> guard_call) list" where
  "guard_example_later = [(1, GCheck 0 (Some 7) (L1Subscribe \<lparr> sk_contract_id = 1, sk_symbol = ''A'' \<rparr>))]"

definition guard_example :: "(SessionId \<times> guard_call) list" where
  "guard_example = [(1, GCheck 0 (Some 1) (L1Subscribe \<lparr> sk_contract_id = 1, sk_symbol = ''A'' \<rparr>)), (2, GCheck 0 None MsgRate),
     (1, GCheck 0 (Some 2) (L1Subscribe \<lparr> sk_contract_id = 2, sk_symbol = ''B'' \<rparr>)), (1, GForget)] @ guard_example_later"

lemma guard_example_config_ok: "from_config guard_example_config \<noteq> None"
proof -
  have "f64_is_finite (f64_of_int 2)" "f64_lt f64_zero (f64_of_int 2)" by code_simp+
  then show ?thesis
    by (simp add: from_config_def guard_example_config_def rate_with_params_def lines_with_cap_def
        tbt_with_params_def pacing_with_params_def to_pacing_params_def historical_config_default_def)
qed

lemma first_message_admitted:
  "fst (check_rate (f64_of_int 2) (f64_of_int 2) 0 (per_session_new (f64_of_int 2) 0)) = Ok ()"
  using burst_step [of "per_session_new (f64_of_int 2) 0" 2 0 "f64_of_int 2" "f64_of_int 2"]
    f64_int_of_int [of 2] by (simp add: per_session_new_def)

lemma forgotten_session_starts_afresh_witness:
  "drop 3 (answers_of 1 guard_example (run_guard guard_example_config guard_example)) = [Ok ()]"
proof -
  obtain g where g: "from_config guard_example_config = Some g"
    using guard_example_config_ok by blast
  have c: "calls_of 1 guard_example
      = take 2 (calls_of 1 guard_example) @ GForget # calls_of 1 guard_example_later"
    "length (take 2 (calls_of 1 guard_example)) = 2"
    by (simp_all add: calls_of_def guard_example_def guard_example_later_def)
  have "answers_of 1 guard_example_later (run_guard guard_example_config guard_example_later) = [Ok ()]"
    unfolding run_guard_alone [OF g] using first_message_admitted
    by (cases "check_rate (f64_of_int 2) (f64_of_int 2) 0 (per_session_new (f64_of_int 2) 0)")
      (auto simp: calls_of_def guard_example_later_def limits_of_def guard_example_config_def
        session_fresh_def)
  with forgotten_session_starts_afresh [OF g c(1) refl] show ?thesis
    unfolding c(2) by (simp add: numeral_3_eq_3 numeral_2_eq_2)
qed

end
