(* ===== verification/Sim_Order_State.thy ===== *)
theory Sim_Order_State imports Sim_Types begin

text \<open>
  The order types of the simulator (\<open>crates/midas-ib-sim/src/engine/types.rs\<close>) and the record and
  state machine it keeps per order (\<open>crates/midas-ib-sim/src/orders/state_machine.rs\<close>). An order id
  is an \<open>i32\<close>; the simulator's maps order it as a signed number, so it is that number here, and is
  cast to the machine word where the code computes with it.
\<close>

type_synonym OrderId = int

definition id_word :: "OrderId \<Rightarrow> i32" where
  "id_word oid = word_of_int oid"

datatype Side = SideBuy | SideSell

datatype SimOrderKind = MarketOrder | LimitOrder | StopOrder | StopLimitOrder

datatype OrderStatusCode = StApiPending | StPendingSubmit | StPreSubmitted | StSubmitted | StFilled
  | StPartiallyFilled | StCancelled | StApiCancelled | StInactive

record PlaceOrderReq =
  po_order_id :: OrderId
  po_contract :: ContractSpec
  po_side :: Side
  po_total_quantity :: f64
  po_kind :: SimOrderKind
  po_limit_price :: "f64 option"
  po_aux_price :: "f64 option"
  po_tif :: string
  po_account :: string
  po_parent_id :: "OrderId option"
  po_oca_group :: "string option"
  po_transmit :: bool

fun contract_symbol :: "ContractSpec \<Rightarrow> string" where
  "contract_symbol (Stock_spec symbol _ _) = symbol"
| "contract_symbol (Option_spec symbol _ _ _ _) = symbol"
| "contract_symbol (Future_spec symbol _ _) = symbol"
| "contract_symbol (Forex_spec pair) = pair"

section \<open>What the simulator emits\<close>

record OpenOrder =
  oo_order_id :: OrderId
  oo_contract :: ContractSpec
  oo_side :: Side
  oo_total_quantity :: f64
  oo_kind :: SimOrderKind
  oo_limit_price :: "f64 option"
  oo_aux_price :: "f64 option"
  oo_status :: OrderStatusCode
  oo_tif :: string
  oo_account :: string
  oo_parent_id :: "OrderId option"
  oo_oca_group :: "string option"

record OrderStatusMsg =
  om_order_id :: OrderId
  om_status :: OrderStatusCode
  om_filled :: f64
  om_remaining :: f64
  om_avg_fill_price :: f64
  om_perm_id :: i32
  om_parent_id :: i32
  om_last_fill_price :: f64
  om_client_id :: i32
  om_why_held :: string
  om_mkt_cap_price :: "f64 option"

record Execution =
  ex_req_id :: "ReqId option"
  ex_order_id :: OrderId
  ex_exec_id :: string
  ex_time :: VirtualInstant
  ex_acct_number :: string
  ex_exchange :: string
  ex_side :: Side
  ex_shares :: f64
  ex_price :: f64
  ex_perm_id :: i32
  ex_client_id :: i32
  ex_liquidation :: i32
  ex_cumulative_quantity :: f64
  ex_avg_price :: f64
  ex_order_ref :: "string option"
  ex_contract :: ContractSpec

record CommissionReport =
  cr_exec_id :: string
  cr_commission :: f64
  cr_currency :: string
  cr_realized_pnl :: "f64 option"
  cr_yield :: "f64 option"
  cr_yield_redemption_date :: "i32 option"

record PositionUpdate =
  pu_account :: string
  pu_contract :: ContractSpec
  pu_position :: f64
  pu_avg_cost :: f64

record PortfolioValueUpdate =
  pv_contract :: ContractSpec
  pv_position :: f64
  pv_market_price :: f64
  pv_market_value :: f64
  pv_average_cost :: f64
  pv_unrealized_pnl :: f64
  pv_realized_pnl :: f64
  pv_account :: string

record AcctValueUpdate =
  av_key :: string
  av_value :: string
  av_currency :: string
  av_account :: string

datatype OrderEmission =
    EOpenOrder OpenOrder
  | EOrderStatus OrderStatusMsg
  | EExecution Execution
  | ECommission CommissionReport
  | EReject OrderId i32 string
  | EPosition PositionUpdate
  | EPortfolioValue PortfolioValueUpdate
  | EAcctValue AcctValueUpdate
  | EAcctDownloadEnd string
  | EPositionEnd

record MarketSnapshot =
  sn_symbol :: SymbolKey
  sn_mid :: f64
  sn_bid :: f64
  sn_ask :: f64
  sn_last :: f64
  sn_volume :: "i64 option"
  sn_ts :: VirtualInstant

section \<open>The order record and its transitions\<close>

record OrderRecord =
  or_order_id :: OrderId
  or_contract :: ContractSpec
  or_side :: Side
  or_kind :: SimOrderKind
  or_limit_price :: "f64 option"
  or_aux_price :: "f64 option"
  or_total_qty :: f64
  or_filled_qty :: f64
  or_remaining_qty :: f64
  or_avg_fill_price :: f64
  or_status :: OrderStatusCode
  or_stop_triggered :: bool
  or_tif :: string
  or_account :: string
  or_parent_id :: "OrderId option"
  or_oca_group :: "string option"
  or_created_at :: VirtualInstant

definition from_place_req :: "PlaceOrderReq \<Rightarrow> VirtualInstant \<Rightarrow> OrderRecord" where
  "from_place_req req now =
    \<lparr> or_order_id = po_order_id req, or_contract = po_contract req, or_side = po_side req,
      or_kind = po_kind req, or_limit_price = po_limit_price req, or_aux_price = po_aux_price req,
      or_total_qty = po_total_quantity req, or_filled_qty = f64_zero,
      or_remaining_qty = po_total_quantity req, or_avg_fill_price = f64_zero,
      or_status = StApiPending, or_stop_triggered = False, or_tif = po_tif req,
      or_account = po_account req, or_parent_id = po_parent_id req, or_oca_group = po_oca_group req,
      or_created_at = now \<rparr>"

definition status_is_terminal :: "OrderStatusCode \<Rightarrow> bool" where
  "status_is_terminal status \<longleftrightarrow> status \<in> {StFilled, StCancelled, StApiCancelled}"

text \<open>\<open>f64::EPSILON\<close>, \<open>2 ^ -52\<close>.\<close>

definition f64_epsilon :: f64 where "f64_epsilon = 0x3CB0000000000000"

definition order_is_filled :: "OrderRecord \<Rightarrow> bool" where
  "order_is_filled o' \<longleftrightarrow> or_status o' = StFilled \<and> f64_le (or_remaining_qty o') f64_epsilon"

definition order_is_cancelled :: "OrderRecord \<Rightarrow> bool" where
  "order_is_cancelled o' \<longleftrightarrow> or_status o' \<in> {StCancelled, StApiCancelled}"

definition kind_transitions :: "SimOrderKind \<Rightarrow> OrderStatusCode \<Rightarrow> OrderStatusCode \<Rightarrow> bool" where
  "kind_transitions kind from to =
    (case kind of
       MarketOrder \<Rightarrow> (from, to) \<in>
         {(StApiPending, StPendingSubmit), (StApiPending, StPreSubmitted), (StPendingSubmit, StPreSubmitted),
          (StPreSubmitted, StSubmitted), (StPreSubmitted, StPartiallyFilled), (StSubmitted, StPartiallyFilled),
          (StPreSubmitted, StFilled), (StSubmitted, StFilled), (StPartiallyFilled, StFilled)}
     | LimitOrder \<Rightarrow> (from, to) \<in>
         {(StApiPending, StPendingSubmit), (StApiPending, StPreSubmitted), (StPendingSubmit, StPreSubmitted),
          (StPreSubmitted, StSubmitted), (StSubmitted, StPartiallyFilled),
          (StSubmitted, StFilled), (StPartiallyFilled, StFilled),
          (StPreSubmitted, StPartiallyFilled), (StPreSubmitted, StFilled)}
     | _ \<Rightarrow> (from, to) \<in>
         {(StApiPending, StPendingSubmit), (StApiPending, StPreSubmitted), (StPendingSubmit, StPreSubmitted),
          (StPreSubmitted, StSubmitted), (StSubmitted, StPartiallyFilled),
          (StSubmitted, StFilled), (StPartiallyFilled, StFilled)})"

definition transition_allowed :: "SimOrderKind \<Rightarrow> OrderStatusCode \<Rightarrow> OrderStatusCode \<Rightarrow> bool" where
  "transition_allowed kind from to =
    (if to = StCancelled \<or> to = StApiCancelled then from \<notin> {StFilled, StCancelled, StApiCancelled}
     else if to = StInactive then from = StApiPending
     else if from = StInactive then to \<in> {StPreSubmitted, StSubmitted}
     else kind_transitions kind from to)"

definition order_transition :: "OrderStatusCode \<Rightarrow> OrderRecord \<Rightarrow> bool \<times> OrderRecord" where
  "order_transition target o' =
    (if \<not> transition_allowed (or_kind o') (or_status o') target then (False, o')
     else (True, o'\<lparr> or_status := target \<rparr>))"

section \<open>The graph of the transitions\<close>

lemma terminal_is_final: "transition_allowed kind from to \<Longrightarrow> \<not> status_is_terminal from"
  by (cases kind) (auto simp: transition_allowed_def status_is_terminal_def kind_transitions_def split: if_splits)

text \<open>Progress of an order; a transition never goes back.\<close>

fun stage :: "OrderStatusCode \<Rightarrow> nat" where
  "stage StApiPending = 0"
| "stage StInactive = 1"
| "stage StPendingSubmit = 2"
| "stage StPreSubmitted = 3"
| "stage StSubmitted = 4"
| "stage StPartiallyFilled = 5"
| "stage _ = 6"

lemma transition_advances: "transition_allowed kind from to \<Longrightarrow> stage from < stage to"
  by (cases kind; cases "from"; cases to) (simp_all add: transition_allowed_def kind_transitions_def)

lemma order_transition_status:
  "or_status (snd (order_transition t o')) = (if fst (order_transition t o') then t else or_status o')"
  by (simp add: order_transition_def)

lemma order_transition_terminal:
  "status_is_terminal (or_status o') \<Longrightarrow> order_transition t o' = (False, o')"
  using terminal_is_final by (auto simp: order_transition_def)

text \<open>A transition changes nothing but the status.\<close>

lemma order_transition_frame [simp]:
  "or_order_id (snd (order_transition t o')) = or_order_id o'"
  "or_kind (snd (order_transition t o')) = or_kind o'"
  "or_remaining_qty (snd (order_transition t o')) = or_remaining_qty o'"
  "or_filled_qty (snd (order_transition t o')) = or_filled_qty o'"
  "or_total_qty (snd (order_transition t o')) = or_total_qty o'"
  "or_avg_fill_price (snd (order_transition t o')) = or_avg_fill_price o'"
  "or_side (snd (order_transition t o')) = or_side o'"
  "or_contract (snd (order_transition t o')) = or_contract o'"
  "or_limit_price (snd (order_transition t o')) = or_limit_price o'"
  "or_aux_price (snd (order_transition t o')) = or_aux_price o'"
  "or_stop_triggered (snd (order_transition t o')) = or_stop_triggered o'"
  by (simp_all add: order_transition_def)

text \<open>
  Where an order can be filled from: a market or limit order from every working status, a stop or
  stop-limit order only once it is submitted.
\<close>

lemma fillable_from:
  "transition_allowed kind from StFilled \<longleftrightarrow>
     from \<in> {StSubmitted, StPartiallyFilled}
     \<or> (from = StPreSubmitted \<and> kind \<in> {MarketOrder, LimitOrder})"
  by (cases kind; cases "from") (simp_all add: transition_allowed_def kind_transitions_def)

lemma partially_fillable_from:
  "transition_allowed kind from StPartiallyFilled \<longleftrightarrow>
     from = StSubmitted \<or> (from = StPreSubmitted \<and> kind \<in> {MarketOrder, LimitOrder})"
  by (cases kind; cases "from") (simp_all add: transition_allowed_def kind_transitions_def)

end
