(* ===== verification/Sim_Determinism.thy ===== *)
theory Sim_Determinism imports Sim_Types Std_Words begin

text \<open>
  Deterministic seeds, \<open>crates/midas-ib-sim/src/orders/determinism.rs\<close>: the SplitMix64 mixer and
  the fold of a draw's identity into a seed. The generator the seed is given to belongs to an
  external crate. That no two draws of an order share a seed rests on the mixer being a
  permutation of the 64-bit words, which is proved here.
\<close>

unbundle bit_operations_syntax

datatype DrawKind = PatternSelection | PatternJitter | Slippage | Commission | PartialChunking
  | BracketActivation | OcaCancel

text \<open>\<open>draw_kind as u64\<close>.\<close>

fun draw_code :: "DrawKind \<Rightarrow> u64" where
  "draw_code PatternSelection = 0"
| "draw_code PatternJitter = 1"
| "draw_code Slippage = 2"
| "draw_code Commission = 3"
| "draw_code PartialChunking = 4"
| "draw_code BracketActivation = 5"
| "draw_code OcaCancel = 6"

definition splitmix64 :: "u64 \<Rightarrow> u64" where
  "splitmix64 x0 =
    (let x = x0 + 0x9E3779B97F4A7C15;
         z = x;
         z = (z XOR drop_bit 30 z) * 0xBF58476D1CE4E5B9;
         z = (z XOR drop_bit 27 z) * 0x94D049BB133111EB
     in z XOR drop_bit 31 z)"

text \<open>The casts of the code: \<open>i32 as u64\<close> extends the sign, \<open>u32 as u64\<close> does not.\<close>

definition seed64 :: "u64 \<Rightarrow> i32 \<Rightarrow> DrawKind \<Rightarrow> u32 \<Rightarrow> u64" where
  "seed64 base_seed order_id draw_kind step_idx =
    (let acc = splitmix64 base_seed;
         acc = splitmix64 (acc XOR scast order_id);
         acc = splitmix64 (acc XOR draw_code draw_kind)
     in splitmix64 (acc XOR ucast step_idx))"

lemma splitmix64_vectors:
  "splitmix64 0 = 0xE220A8397B1DCDAF" "splitmix64 0xE220A8397B1DCDAF = 0xA706DD2F4D197E6F"
  "seed64 42 7 PatternJitter 2 = 0x259fc1d000a9b1a0"
  by code_simp+

section \<open>The mixer is a permutation\<close>

lemma xorshift_inj:
  fixes x y :: u64
  assumes "0 < k" "x XOR drop_bit k x = y XOR drop_bit k y"
  shows "x = y"
proof (rule bit_word_eqI)
  fix n
  assume "n < LENGTH(64)"
  have b: "bit x m = bit y m" if "63 - m < j" for m j
    using that
  proof (induction j arbitrary: m)
    case (Suc j)
    have e: "bit x m \<noteq> bit x (m + k) \<longleftrightarrow> bit y m \<noteq> bit y (m + k)" 
      using arg_cong [OF assms(2), of "\<lambda>w. bit w m"]
      by (cases "m < 64") (auto simp: bit_simps add.commute dest: bit_imp_le_length)
    show ?case
    proof (cases "m + k < 64")
      case True
      with Suc assms(1) have "bit x (m + k) = bit y (m + k)" by (intro Suc.IH) simp
      with e show ?thesis by blast
    next
      case False
      then have "\<not> bit x (m + k)" "\<not> bit y (m + k)" by (auto dest: bit_imp_le_length)
      with e show ?thesis by blast
    qed
  qed simp
  show "bit x n = bit y n" by (rule b [where j = 64]) simp
qed

lemma odd_mult_inj:
  fixes x y c d :: u64
  assumes "c * d = 1" "x * c = y * c"
  shows "x = y"
proof -
  have "x = (x * c) * d" using assms(1) by (simp add: mult.assoc)
  also have "\<dots> = (y * c) * d" by (simp only: assms(2))
  also have "\<dots> = y" using assms(1) by (simp add: mult.assoc)
  finally show ?thesis .
qed

lemma splitmix64_inj: "inj splitmix64"
proof (rule injI)
  fix x y
  let ?m1 = "0xBF58476D1CE4E5B9 :: u64" and ?m2 = "0x94D049BB133111EB :: u64"
  have m1: "?m1 * 0x96DE1B173F119089 = 1" by code_simp
  have m2: "?m2 * 0x319642B2D24D8EC3 = 1" by code_simp
  let ?a = "\<lambda>x. x + 0x9E3779B97F4A7C15 :: u64"
  let ?b = "\<lambda>x. (?a x XOR drop_bit 30 (?a x)) * ?m1"
  let ?c = "\<lambda>x. (?b x XOR drop_bit 27 (?b x)) * ?m2"
  assume "splitmix64 x = splitmix64 y"
  then have "?c x = ?c y" unfolding splitmix64_def Let_def by (rule xorshift_inj [rotated]) simp
  then have "?b x XOR drop_bit 27 (?b x) = ?b y XOR drop_bit 27 (?b y)" by (rule odd_mult_inj [OF m2])
  then have "?b x = ?b y" by (rule xorshift_inj [rotated]) simp
  then have "?a x XOR drop_bit 30 (?a x) = ?a y XOR drop_bit 30 (?a y)" by (rule odd_mult_inj [OF m1])
  then have "?a x = ?a y" by (rule xorshift_inj [rotated]) simp
  then show "x = y" by simp
qed

lemma scast_inj: "(scast :: i32 \<Rightarrow> u64) a = scast b \<longleftrightarrow> a = b"
proof
  assume e: "(scast :: i32 \<Rightarrow> u64) a = scast b"
  show "a = b"
  proof (rule bit_word_eqI)
    fix n assume "n < LENGTH(32)"
    then show "bit a n = bit b n"
      using arg_cong [OF e, of "\<lambda>w. bit w n"] by (simp add: bit_simps split: if_splits)
  qed
qed simp

lemma ucast_inj: "(ucast :: u32 \<Rightarrow> u64) a = ucast b \<longleftrightarrow> a = b"
proof
  assume e: "(ucast :: u32 \<Rightarrow> u64) a = ucast b"
  show "a = b"
  proof (rule bit_word_eqI)
    fix n assume "n < LENGTH(32)"
    then show "bit a n = bit b n"
      using arg_cong [OF e, of "\<lambda>w. bit w n"] by (simp add: bit_simps)
  qed
qed simp

lemma draw_code_inj: "draw_code a = draw_code b \<longleftrightarrow> a = b"
  by (cases a; cases b) simp_all

text \<open>
  the seeds of an order never collide along any one coordinate: with the other inputs fixed,
  different base seeds, different orders, different kinds of draw and different steps give
  different seeds, because the mixer is a permutation. The published test vectors hold.
\<close>

lemma seed64_separates:
  "(seed64 s o1 k i = seed64 s' o1 k i \<longleftrightarrow> s = s')
   \<and> (seed64 s o1 k i = seed64 s o2 k i \<longleftrightarrow> o1 = o2)
   \<and> (seed64 s o1 k i = seed64 s o1 k' i \<longleftrightarrow> k = k')
   \<and> (seed64 s o1 k i = seed64 s o1 k i' \<longleftrightarrow> i = i')
   \<and> seed64 42 7 PatternJitter 2 = 0x259fc1d000a9b1a0"
  unfolding splitmix64_vectors
  by (simp add: seed64_def inj_eq [OF splitmix64_inj] xor_left_cancel xor_right_cancel
      scast_inj ucast_inj draw_code_inj)

end
