(* ===== verification/Sim_Fill.thy ===== *)
theory Sim_Fill imports Sim_Order_State Sim_Determinism F64_Facts begin

text \<open>
  When and at what price the simulator fills an order (\<open>crates/midas-ib-sim/src/orders/fill_model.rs\<close>),
  in which order the callbacks of a fill are delivered (\<open>orders/patterns.rs\<close>), and the bracket
  groups with their delays (\<open>orders/brackets.rs\<close>). The generator of the crates \<open>rand_chacha\<close> and
  \<open>rand_distr\<close> is the parameter \<open>R\<close>: a record of what the code calls of it.
\<close>

unbundle bit_operations_syntax

section \<open>Random draws\<close>

record 'g rand_crate =
  seed_from_u64 :: "u64 \<Rightarrow> 'g"
  gen_u32 :: "'g \<Rightarrow> u32 \<times> 'g"
  gen_u64 :: "'g \<Rightarrow> u64 \<times> 'g"
  gen_f64 :: "'g \<Rightarrow> f64 \<times> 'g"
  exp_sample :: "f64 \<Rightarrow> 'g \<Rightarrow> f64 \<times> 'g"

definition rng_for :: "'g rand_crate \<Rightarrow> u64 \<Rightarrow> OrderId \<Rightarrow> DrawKind \<Rightarrow> u32 \<Rightarrow> 'g" where
  "rng_for R base_seed order_id draw_kind step_idx =
     seed_from_u64 R (seed64 base_seed (id_word order_id) draw_kind step_idx)"

section \<open>Patterns of callbacks\<close>

definition PATTERN_MAX_JITTER_MS :: nat where "PATTERN_MAX_JITTER_MS = 50"
definition PATTERN_A_OFFSETS_MS :: "nat list" where "PATTERN_A_OFFSETS_MS = [0, 100, 180, 260]"
definition PATTERN_B_OFFSETS_MS :: "nat list" where "PATTERN_B_OFFSETS_MS = [0, 80, 140, 210]"
definition PATTERN_C_OFFSETS_MS :: "nat list" where
  "PATTERN_C_OFFSETS_MS = [0, 80, 140, 210, 400, 470, 540]"

fun array_min_gap :: "nat list \<Rightarrow> nat" where
  "array_min_gap (a # b # xs) = min (b - a) (array_min_gap (b # xs))"
| "array_min_gap _ = 2 ^ 64 - 1"

lemmas offset_defs = PATTERN_A_OFFSETS_MS_def PATTERN_B_OFFSETS_MS_def PATTERN_C_OFFSETS_MS_def

datatype PatternKind = PatternA | PatternB | PatternC

datatype StepKind =
    OpenOrderSubmitted
  | OpenOrderPreSubmitted
  | ExecutionPart nat
  | CommissionPart nat
  | OrderStatusPartiallyFilled nat
  | OrderStatusFilled

definition select_pattern :: "'g rand_crate \<Rightarrow> u64 \<Rightarrow> OrderId \<Rightarrow> SimOrderKind \<Rightarrow> f64 \<Rightarrow> f64 \<Rightarrow> PatternKind" where
  "select_pattern R base_seed order_id kind total_qty partial_threshold =
    (let draw = fst (gen_u32 R (rng_for R base_seed order_id PatternSelection 0)) mod 100;
         large = f64_gt total_qty partial_threshold
     in case kind of
          MarketOrder \<Rightarrow> (if large \<and> draw < 30 then PatternC else if draw < 60 then PatternB else PatternA)
        | LimitOrder \<Rightarrow> (if large \<and> draw < 10 then PatternC else if draw < 20 then PatternB else PatternA)
        | _ \<Rightarrow> (if large \<and> draw < 15 then PatternC else if draw < 40 then PatternB else PatternA))"

definition at_ms :: "nat list \<Rightarrow> nat \<Rightarrow> Duration" where
  "at_ms offsets i = from_millis (offsets ! i)"

fun steps_for :: "PatternKind \<Rightarrow> (Duration \<times> StepKind) list" where
  "steps_for PatternA =
     [(at_ms PATTERN_A_OFFSETS_MS 0, OpenOrderSubmitted), (at_ms PATTERN_A_OFFSETS_MS 1, OrderStatusFilled),
      (at_ms PATTERN_A_OFFSETS_MS 2, ExecutionPart 0), (at_ms PATTERN_A_OFFSETS_MS 3, CommissionPart 0)]"
| "steps_for PatternB =
     [(at_ms PATTERN_B_OFFSETS_MS 0, OpenOrderPreSubmitted), (at_ms PATTERN_B_OFFSETS_MS 1, ExecutionPart 0),
      (at_ms PATTERN_B_OFFSETS_MS 2, CommissionPart 0), (at_ms PATTERN_B_OFFSETS_MS 3, OrderStatusFilled)]"
| "steps_for PatternC =
     [(at_ms PATTERN_C_OFFSETS_MS 0, OpenOrderPreSubmitted), (at_ms PATTERN_C_OFFSETS_MS 1, ExecutionPart 0),
      (at_ms PATTERN_C_OFFSETS_MS 2, CommissionPart 0),
      (at_ms PATTERN_C_OFFSETS_MS 3, OrderStatusPartiallyFilled 0),
      (at_ms PATTERN_C_OFFSETS_MS 4, ExecutionPart 1), (at_ms PATTERN_C_OFFSETS_MS 5, CommissionPart 1),
      (at_ms PATTERN_C_OFFSETS_MS 6, OrderStatusFilled)]"

definition jitter_for_step :: "'g rand_crate \<Rightarrow> u64 \<Rightarrow> OrderId \<Rightarrow> u32 \<Rightarrow> Duration" where
  "jitter_for_step R base_seed order_id step_idx =
    (let sample_ms = fst (exp_sample R (f64_div f64_one (f64_of_int 15))
                            (rng_for R base_seed order_id PatternJitter step_idx));
         clamped = f64_max (f64_min sample_ms (f64_of_int (int PATTERN_MAX_JITTER_MS))) f64_zero
     in from_millis (nat (f64_as_int 0 (2 ^ 64 - 1) (f64_round clamped))))"

definition actual_offset :: "'g rand_crate \<Rightarrow> Duration \<Rightarrow> u64 \<Rightarrow> OrderId \<Rightarrow> u32 \<Rightarrow> Duration" where
  "actual_offset R base_offset base_seed order_id step_idx =
     base_offset + jitter_for_step R base_seed order_id step_idx"

section \<open>The fill model\<close>

record Fill =
  fl_order_id :: OrderId
  fl_price :: f64
  fl_shares :: f64
  fl_ts :: VirtualInstant
  fl_side :: Side

datatype SlippageKind = NoSlippage | FixedBps f64

fun cross_spread :: "Side \<Rightarrow> f64 \<Rightarrow> f64 \<Rightarrow> f64" where
  "cross_spread SideBuy bid ask = ask"
| "cross_spread SideSell bid ask = bid"

fun stop_triggered :: "Side \<Rightarrow> f64 \<Rightarrow> f64 \<Rightarrow> bool" where
  "stop_triggered SideBuy stop_price mid = f64_ge mid stop_price"
| "stop_triggered SideSell stop_price mid = f64_le mid stop_price"

text \<open>The draw of \<open>apply_slippage\<close> is thrown away, so the price does not depend on the generator.\<close>

fun apply_slippage :: "f64 \<Rightarrow> Side \<Rightarrow> SlippageKind \<Rightarrow> f64" where
  "apply_slippage price side NoSlippage = price"
| "apply_slippage price side (FixedBps bps) =
    (let delta = f64_mul price (f64_div bps (f64_of_int 10000))
     in case side of SideBuy \<Rightarrow> f64_add price delta | SideSell \<Rightarrow> f64_sub price delta)"

definition round_to_cent :: "f64 \<Rightarrow> f64" where
  "round_to_cent p = f64_div (f64_round (f64_mul p (f64_of_int 100))) (f64_of_int 100)"

text \<open>The arms of a limit price: the price a crossed limit trades at. A missing limit price returns early.\<close>

definition limit_cross :: "Side \<Rightarrow> f64 option \<Rightarrow> f64 \<Rightarrow> f64 \<Rightarrow> f64 option" where
  "limit_cross side limit_price bid ask =
    (case limit_price of
       None \<Rightarrow> None
     | Some l \<Rightarrow> (case side of
         SideBuy \<Rightarrow> if f64_le ask l then Some (f64_min l ask) else None
       | SideSell \<Rightarrow> if f64_ge bid l then Some (f64_max l bid) else None))"

text \<open>The stop condition: whether the order may go on, and the order with its trigger set.\<close>

definition trigger_stop :: "OrderRecord \<Rightarrow> f64 \<Rightarrow> bool \<times> OrderRecord" where
  "trigger_stop ord mid =
    (if or_stop_triggered ord then (True, ord)
     else case or_aux_price ord of
            None \<Rightarrow> (False, ord)
          | Some a \<Rightarrow> if stop_triggered (or_side ord) a mid
                      then (True, ord\<lparr> or_stop_triggered := True \<rparr>) else (False, ord))"

definition fill_price :: "OrderRecord \<Rightarrow> f64 \<Rightarrow> f64 \<Rightarrow> f64 \<Rightarrow> f64 option \<times> OrderRecord" where
  "fill_price ord mid bid ask =
    (case or_kind ord of
       MarketOrder \<Rightarrow> (Some (cross_spread (or_side ord) bid ask), ord)
     | LimitOrder \<Rightarrow> (limit_cross (or_side ord) (or_limit_price ord) bid ask, ord)
     | StopOrder \<Rightarrow> (case trigger_stop ord mid of
         (go, ord) \<Rightarrow> (if go then Some (cross_spread (or_side ord) bid ask) else None, ord))
     | StopLimitOrder \<Rightarrow> (case trigger_stop ord mid of
         (go, ord) \<Rightarrow> (if go then limit_cross (or_side ord) (or_limit_price ord) bid ask else None, ord)))"

definition maybe_fill :: "OrderRecord \<Rightarrow> f64 \<Rightarrow> f64 \<Rightarrow> f64 \<Rightarrow> VirtualInstant \<Rightarrow> SlippageKind
    \<Rightarrow> Fill option \<times> OrderRecord" where
  "maybe_fill ord mid bid ask now slippage =
    (case fill_price ord mid bid ask of
       (None, ord) \<Rightarrow> (None, ord)
     | (Some p, ord) \<Rightarrow>
         let final_price = (case or_kind ord of
               MarketOrder \<Rightarrow> apply_slippage p (or_side ord) slippage
             | StopOrder \<Rightarrow> apply_slippage p (or_side ord) slippage
             | _ \<Rightarrow> p)
         in (Some \<lparr> fl_order_id = or_order_id ord, fl_price = round_to_cent final_price,
                    fl_shares = or_remaining_qty ord, fl_ts = now, fl_side = or_side ord \<rparr>, ord))"

section \<open>Partial fills\<close>

definition MIN_CHUNK :: f64 where "MIN_CHUNK = f64_of_int 100"

text \<open>The loop of \<open>partial_chunks\<close>, with the number of rounds that are left.\<close>

fun chunk_loop :: "'g rand_crate \<Rightarrow> nat \<Rightarrow> 'g \<Rightarrow> f64 \<Rightarrow> f64 list" where
  "chunk_loop R 0 rng remaining = []"
| "chunk_loop R (Suc k) rng remaining =
    (if k = 0 \<or> f64_le remaining (f64_mul (f64_of_int 2) MIN_CHUNK) then [remaining]
     else case gen_f64 R rng of (u, rng) \<Rightarrow>
       let frac = f64_add (f64_of_ratio False 2 10) (f64_mul u (f64_of_ratio False 3 10));
           raw = f64_mul (f64_round (f64_div (f64_mul remaining frac) MIN_CHUNK)) MIN_CHUNK;
           ceiling = f64_max (f64_sub remaining MIN_CHUNK) MIN_CHUNK;
           chunk = f64_clamp raw MIN_CHUNK ceiling
       in chunk # chunk_loop R k rng (f64_sub remaining chunk))"

text \<open>As a release build has it: the \<open>debug_assert\<close>s on the chunks are left out.\<close>

definition partial_chunks :: "'g rand_crate \<Rightarrow> f64 \<Rightarrow> u64 \<Rightarrow> OrderId \<Rightarrow> f64 \<Rightarrow> f64 list" where
  "partial_chunks R qty base_seed order_id partial_threshold =
    (if f64_le qty partial_threshold then [qty]
     else case gen_u32 R (rng_for R base_seed order_id PartialChunking 0) of
       (d, rng) \<Rightarrow> chunk_loop R (unat (2 + d mod 3)) rng qty)"

section \<open>Bracket groups\<close>

datatype GroupLifecycle = ParentWorking | ParentFilled | OneChildFilled | GroupComplete

record BracketGroup =
  bg_parent_id :: OrderId
  bg_take_profit :: "OrderId option"
  bg_stop_loss :: "OrderId option"
  bg_oca_group :: "string option"
  bg_state :: GroupLifecycle

definition group_new :: "OrderId \<Rightarrow> string option \<Rightarrow> BracketGroup" where
  "group_new parent_id oca_group =
    \<lparr> bg_parent_id = parent_id, bg_take_profit = None, bg_stop_loss = None, bg_oca_group = oca_group,
      bg_state = ParentWorking \<rparr>"

definition sample_activation_jitter :: "'g rand_crate \<Rightarrow> u64 \<Rightarrow> OrderId \<Rightarrow> OrderId \<Rightarrow> Duration" where
  "sample_activation_jitter R base_seed parent_id child_id =
    (let d = fst (gen_u64 R (rng_for R base_seed parent_id BracketActivation (id_word child_id)))
     in from_millis (unat (5 + d mod (50 - 5 + 1))))"

definition sample_oca_cancel_jitter :: "'g rand_crate \<Rightarrow> u64 \<Rightarrow> OrderId \<Rightarrow> OrderId \<Rightarrow> Duration" where
  "sample_oca_cancel_jitter R base_seed filled_child_id sibling_id =
    (let d = fst (gen_u64 R (rng_for R base_seed filled_child_id OcaCancel (id_word sibling_id)))
     in from_millis (unat (10 + d mod (100 - 10 + 1))))"

end
