(* ===== verification/Sim_Account.thy ===== *)
theory Sim_Account imports Sim_Order_State Sim_Determinism F64_Facts begin

text \<open>
  Account, positions and profit of the simulator, \<open>crates/midas-ib-sim/src/orders/accounts.rs\<close>. The
  positions are ordered by \<open>SymbolKey\<close>, the signed contract id first. The account data rows, which
  format their numbers with two decimals, are not modelled.
\<close>

unbundle bit_operations_syntax

section \<open>Positions\<close>

record Position =
  ps_contract :: "ContractSpec option"
  ps_shares :: f64
  ps_avg_cost :: f64
  ps_realized_pnl :: f64
  ps_last_mid :: f64

definition position_default :: Position where
  "position_default = \<lparr> ps_contract = None, ps_shares = f64_zero, ps_avg_cost = f64_zero,
     ps_realized_pnl = f64_zero, ps_last_mid = f64_zero \<rparr>"

definition market_value :: "Position \<Rightarrow> f64" where
  "market_value p = f64_mul (ps_shares p) (ps_last_mid p)"

definition unrealized_pnl :: "Position \<Rightarrow> f64" where
  "unrealized_pnl p = f64_mul (ps_shares p) (f64_sub (ps_last_mid p) (ps_avg_cost p))"

text \<open>The derived order of \<open>SymbolKey\<close>.\<close>

type_synonym symbol_ord = "int \<times> string"

definition symbol_ord :: "SymbolKey \<Rightarrow> symbol_ord" where
  "symbol_ord k = (sint (sk_contract_id k), sk_symbol k)"

record AccountState =
  ac_account :: string
  ac_cash :: f64
  ac_realized_pnl :: f64
  ac_positions :: "(symbol_ord, Position) btree"

definition account_new :: "string \<Rightarrow> f64 \<Rightarrow> AccountState" where
  "account_new account starting_cash = \<lparr> ac_account = account, ac_cash = starting_cash,
     ac_realized_pnl = f64_zero, ac_positions = bt_empty \<rparr>"

text \<open>The sum of an iterator of floats starts at \<open>-0.0\<close>.\<close>

definition f64_sum :: "f64 list \<Rightarrow> f64" where
  "f64_sum xs = foldl f64_add (f64_neg f64_zero) xs"

definition equity :: "AccountState \<Rightarrow> f64" where
  "equity a = f64_add (ac_cash a) (f64_sum (map market_value (bt_values (ac_positions a))))"

definition account_unrealized_pnl :: "AccountState \<Rightarrow> f64" where
  "account_unrealized_pnl a = f64_sum (map unrealized_pnl (bt_values (ac_positions a)))"

section \<open>Applying a fill\<close>

definition f64_signum :: "f64 \<Rightarrow> f64" where
  "f64_signum x = (if f64_is_nan x then f64_nan else if f64_negative x then f64_neg f64_one else f64_one)"

definition signed_shares :: "Side \<Rightarrow> f64 \<Rightarrow> f64" where
  "signed_shares side shares = (case side of SideBuy \<Rightarrow> shares | SideSell \<Rightarrow> f64_neg shares)"

text \<open>The profit of closing \<open>closing\<close> shares of a position.\<close>

definition closing_pnl :: "Position \<Rightarrow> f64 \<Rightarrow> f64 \<Rightarrow> f64" where
  "closing_pnl pos price closing =
    (let s = f64_as_int (- (2 ^ 31)) (2 ^ 31 - 1) (f64_signum (ps_shares pos))
     in if s = 1 then f64_mul (f64_sub price (ps_avg_cost pos)) closing
        else if s = - 1 then f64_mul (f64_sub (ps_avg_cost pos) price) closing
        else f64_zero)"

text \<open>A fill in the direction of the position, or on none: the average cost is weighted.\<close>

definition extend_position :: "Position \<Rightarrow> f64 \<Rightarrow> f64 \<Rightarrow> Position" where
  "extend_position pos shares price =
    (let old_cost_notional = f64_mul (f64_abs (ps_shares pos)) (ps_avg_cost pos);
         new_cost_notional = f64_mul shares price;
         total_shares = f64_add (f64_abs (ps_shares pos)) shares
     in pos\<lparr> ps_avg_cost := (if f64_gt total_shares f64_zero
               then f64_div (f64_add old_cost_notional new_cost_notional) total_shares else f64_zero) \<rparr>)"

definition apply_fill :: "SymbolKey \<Rightarrow> ContractSpec \<Rightarrow> Side \<Rightarrow> f64 \<Rightarrow> f64 \<Rightarrow> AccountState
    \<Rightarrow> (PositionUpdate \<times> PortfolioValueUpdate) \<times> AccountState" where
  "apply_fill symbol_key contract side shares price a =
    (let pos = bt_get_or (ac_positions a) (symbol_ord symbol_key) position_default;
         pos = pos\<lparr> ps_contract := Some contract, ps_last_mid := price \<rparr>;
         signed = signed_shares side shares;
         notional = f64_mul price shares;
         cash = (case side of SideBuy \<Rightarrow> f64_sub (ac_cash a) notional | SideSell \<Rightarrow> f64_add (ac_cash a) notional);
         new_shares = f64_add (ps_shares pos) signed;
         same = f64_eq (f64_signum (ps_shares pos)) (f64_signum signed) \<or> f64_eq (ps_shares pos) f64_zero;
         pnl = closing_pnl pos price (f64_min shares (f64_abs (ps_shares pos)));
         realized = (if same then ac_realized_pnl a else f64_add (ac_realized_pnl a) pnl);
         pos = (if same then extend_position pos shares price
                else pos\<lparr> ps_realized_pnl := f64_add (ps_realized_pnl pos) pnl,
                          ps_avg_cost := (if f64_gt shares (f64_abs (ps_shares pos)) then price
                                          else ps_avg_cost pos) \<rparr>);
         pos = pos\<lparr> ps_shares := new_shares \<rparr>;
         pos = (if f64_lt (f64_abs (ps_shares pos)) f64_epsilon
                then pos\<lparr> ps_shares := f64_zero, ps_avg_cost := f64_zero \<rparr> else pos)
     in ((\<lparr> pu_account = ac_account a, pu_contract = contract, pu_position = ps_shares pos,
            pu_avg_cost = ps_avg_cost pos \<rparr>,
          \<lparr> pv_contract = contract, pv_position = ps_shares pos, pv_market_price = ps_last_mid pos,
            pv_market_value = market_value pos, pv_average_cost = ps_avg_cost pos,
            pv_unrealized_pnl = unrealized_pnl pos, pv_realized_pnl = ps_realized_pnl pos,
            pv_account = ac_account a \<rparr>),
         a\<lparr> ac_cash := cash, ac_realized_pnl := realized,
            ac_positions := bt_insert (symbol_ord symbol_key) pos (ac_positions a) \<rparr>))"

definition snapshot_positions :: "AccountState \<Rightarrow> OrderEmission list" where
  "snapshot_positions a =
    List.map_filter (\<lambda>p. case ps_contract p of
        None \<Rightarrow> None
      | Some c \<Rightarrow> Some (EPosition \<lparr> pu_account = ac_account a, pu_contract = c,
                                    pu_position = ps_shares p, pu_avg_cost = ps_avg_cost p \<rparr>))
      (filter (\<lambda>p. f64_gt (f64_abs (ps_shares p)) f64_epsilon) (bt_values (ac_positions a)))
    @ [EPositionEnd]"

section \<open>Symbol keys\<close>

definition mix_str :: "u64 \<Rightarrow> string \<Rightarrow> u64" where
  "mix_str acc s = splitmix64 (foldl (\<lambda>acc b. splitmix64 (acc XOR of_nat (byte b))) acc s XOR of_nat (length s))"

fun contract_mix :: "u64 \<Rightarrow> ContractSpec \<Rightarrow> u64" where
  "contract_mix acc (Stock_spec symbol exchange currency) =
     mix_str (mix_str (mix_str (splitmix64 (acc XOR 1)) symbol) exchange) currency"
| "contract_mix acc (Option_spec symbol expiry strike right exchange) =
    (let acc = mix_str (mix_str (splitmix64 (acc XOR 2)) symbol) expiry;
         acc = splitmix64 (acc XOR strike);
         acc = splitmix64 (acc XOR (case right of Call \<Rightarrow> 0xC | Put \<Rightarrow> 0xD))
     in mix_str acc exchange)"
| "contract_mix acc (Future_spec symbol expiry exchange) =
     mix_str (mix_str (mix_str (splitmix64 (acc XOR 3)) symbol) expiry) exchange"
| "contract_mix acc (Forex_spec pair) = mix_str (splitmix64 (acc XOR 4)) pair"

definition symbol_key_for :: "ContractSpec \<Rightarrow> SymbolKey" where
  "symbol_key_for contract =
    (let acc = contract_mix (splitmix64 0xA55AA55A5AA55AA5) contract
     in \<lparr> sk_contract_id = ucast (acc AND 0x7FFFFFFF), sk_symbol = contract_symbol contract \<rparr>)"

text \<open>The value the code's test pins.\<close>

lemma symbol_key_pinned:
  "sk_contract_id (symbol_key_for (Stock_spec ''AAPL'' ''SMART'' ''USD'')) = 0x6DCB34D9"
  by code_simp

text \<open>The contract id is never negative.\<close>

lemma symbol_key_nonneg: "0 \<le> sint (sk_contract_id (symbol_key_for c))"
proof -
  have "\<not> bit (ucast (acc AND 0x7FFFFFFF :: u64) :: i32) 31" for acc
  proof -
    have "(0x7FFFFFFF :: u64) = mask 31" by (simp add: mask_eq_exp_minus_1)
    then show ?thesis by (simp add: bit_simps)
  qed
  then have "\<not> bit (sk_contract_id (symbol_key_for c)) 31" by (simp add: symbol_key_for_def Let_def)
  then show ?thesis using bit_last_iff [of "sk_contract_id (symbol_key_for c)"] by simp
qed

section \<open>Positions track the net quantity\<close>

record fill_event =
  fe_key :: SymbolKey
  fe_contract :: ContractSpec
  fe_side :: Side
  fe_shares :: f64
  fe_price :: f64

definition apply_event :: "fill_event \<Rightarrow> AccountState \<Rightarrow> AccountState" where
  "apply_event e a = snd (apply_fill (fe_key e) (fe_contract e) (fe_side e) (fe_shares e) (fe_price e) a)"

definition shares_held :: "AccountState \<Rightarrow> SymbolKey \<Rightarrow> f64" where
  "shares_held a k = ps_shares (bt_get_or (ac_positions a) (symbol_ord k) position_default)"

definition signed_int :: "Side \<Rightarrow> int \<Rightarrow> int" where
  "signed_int side n = (case side of SideBuy \<Rightarrow> n | SideSell \<Rightarrow> - n)"

text \<open>What the fills of symbol \<open>k\<close> add up to.\<close>

definition net_quantity :: "SymbolKey \<Rightarrow> (fill_event \<times> int) list \<Rightarrow> int" where
  "net_quantity k es = (\<Sum>(e, n)\<leftarrow>es. if fe_key e = k then signed_int (fe_side e) n else 0)"

lemma symbol_ord_inj: "symbol_ord j = symbol_ord k \<longleftrightarrow> j = k"
  by (cases j; cases k) (auto simp: symbol_ord_def dest: signed_word_eqI)

lemma f64_int_neg: "f64_int x a \<Longrightarrow> f64_int (f64_neg x) (- a)"
  by (simp add: f64_int_def f64_neg_facts)

lemma f64_int_abs: "f64_int x a \<Longrightarrow> f64_int (f64_abs x) \<bar>a\<bar>"
  using f64_make_parts [OF f64_mag_range [of x], of False] f64_val_sign [of x]
  by (auto simp: f64_int_def f64_abs_def f64_is_finite_def f64_val_def split: if_splits)

lemma below_epsilon: "f64_int x a \<Longrightarrow> f64_lt (f64_abs x) f64_epsilon \<Longrightarrow> a = 0"
proof -
  assume a: "f64_int x a" "f64_lt (f64_abs x) f64_epsilon"
  have "f64_lt f64_epsilon f64_one" by code_simp
  with a(2) have "f64_lt (f64_abs x) f64_one" by (rule f64_lt_trans)
  with f64_int_lt [OF f64_int_abs [OF a(1)] f64_int_consts(2)] show "a = 0" by simp
qed

lemma apply_fill_shares:
  assumes "bt_sorted (ac_positions a)" "f64_int (shares_held a k) m" "f64_int (fe_shares e) n"
    "fe_key e = k" "\<bar>m + signed_int (fe_side e) n\<bar> \<le> 2 ^ 53"
  shows "f64_int (shares_held (apply_event e a) k) (m + signed_int (fe_side e) n)"
proof -
  let ?s = "f64_add (shares_held a k) (signed_shares (fe_side e) (fe_shares e))"
  have "f64_int (signed_shares (fe_side e) (fe_shares e)) (signed_int (fe_side e) n)"
    using assms(3) by (auto simp: signed_shares_def signed_int_def f64_int_neg split: Side.split)
  from f64_int_add [OF assms(2) this assms(5)] have s: "f64_int ?s (m + signed_int (fe_side e) n)" .
  have "shares_held (apply_event e a) k = (if f64_lt (f64_abs ?s) f64_epsilon then f64_zero else ?s)"
    using assms(1,4) by (simp add: apply_event_def apply_fill_def shares_held_def Let_def bt_get_or_def
        bt_get_insert extend_position_def)
  with s below_epsilon [OF s] f64_int_consts(1) show ?thesis by (auto split: if_splits)
qed

lemma apply_fill_other:
  "bt_sorted (ac_positions a) \<Longrightarrow> fe_key e \<noteq> k \<Longrightarrow> shares_held (apply_event e a) k = shares_held a k"
  by (simp add: apply_event_def apply_fill_def shares_held_def Let_def bt_get_or_def bt_get_insert symbol_ord_inj)

lemma apply_fill_sorted:
  "bt_sorted (ac_positions a) \<Longrightarrow> bt_sorted (ac_positions (apply_event e a))"
  by (simp add: apply_event_def apply_fill_def Let_def bt_sorted_insert)

text \<open>
  C37: the books balance in shares. After any sequence of fills of whole quantities, for any symbols,
  at any prices, the position of each symbol is exactly the shares bought less the shares sold of
  that symbol; reversals through zero and the flattening of tiny positions included. The traded
  volume is bounded by \<open>2 ^ 53\<close>, up to which whole numbers are exact.
\<close>

theorem positions_are_net_quantities:
  assumes "\<forall>(e, n) \<in> set es. f64_int (fe_shares e) n \<and> 0 \<le> n" and "(\<Sum>(_, n)\<leftarrow>es. n) \<le> 2 ^ 53"
  shows "f64_int (shares_held (fold (apply_event \<circ> fst) es (account_new acct cash)) k) (net_quantity k es)"
proof -
  have "f64_int (shares_held (fold (apply_event \<circ> fst) es a) k) (m + net_quantity k es)"
    if "bt_sorted (ac_positions a)" "f64_int (shares_held a k) m" "\<bar>m\<bar> + (\<Sum>(_, n)\<leftarrow>es. n) \<le> 2 ^ 53" for a m
    using that assms(1)
  proof (induction es arbitrary: a m)
    case Nil
    then show ?case by (simp add: net_quantity_def)
  next
    case (Cons x es)
    obtain e n where x: "x = (e, n)" by (cases x)
    define d where "d = (if fe_key e = k then signed_int (fe_side e) n else 0)"
    have n: "f64_int (fe_shares e) n" "0 \<le> n" using Cons.prems(4) x by auto
    have nn: "0 \<le> (\<Sum>(_, n)\<leftarrow>es. n)" using Cons.prems(4) by (intro sum_list_nonneg) auto
    have d: "\<bar>d\<bar> \<le> n" using n by (auto simp: d_def signed_int_def split: Side.split)
    have b: "\<bar>m\<bar> + (n + (\<Sum>(_, n)\<leftarrow>es. n)) \<le> 2 ^ 53" using Cons.prems(3) x by simp
    have "f64_int (shares_held (apply_event e a) k) (m + d)"
    proof (cases "fe_key e = k")
      case True
      have "\<bar>m + signed_int (fe_side e) n\<bar> \<le> 2 ^ 53" using b nn d True by (simp add: d_def)
      from apply_fill_shares [OF Cons.prems(1,2) n(1) True this] True show ?thesis by (simp add: d_def)
    next
      case False
      with apply_fill_other [OF Cons.prems(1) False] Cons.prems(2) show ?thesis by (simp add: d_def)
    qed
    moreover have "\<bar>m + d\<bar> + (\<Sum>(_, n)\<leftarrow>es. n) \<le> 2 ^ 53" using b d by linarith
    ultimately have "f64_int (shares_held (fold (apply_event \<circ> fst) es (apply_event e a)) k)
        (m + d + net_quantity k es)"
      using Cons.prems(4) by (intro Cons.IH apply_fill_sorted Cons.prems(1)) auto
    moreover have "net_quantity k (x # es) = d + net_quantity k es" by (simp add: net_quantity_def d_def x)
    ultimately show ?case using x by (simp add: add.assoc o_def)
  qed
  moreover have "f64_int (shares_held (account_new acct cash) k) 0"
    using f64_int_consts by (simp add: account_new_def shares_held_def bt_get_or_def bt.get_empty position_default_def)
  moreover have "bt_sorted (ac_positions (account_new acct cash))" by (simp add: account_new_def bt.invar_empty)
  ultimately show ?thesis using assms(2) by fastforce
qed

definition account_example :: "(fill_event \<times> int) list" where
  "account_example = map (\<lambda>(side, n).
     (\<lparr> fe_key = \<lparr> sk_contract_id = 1, sk_symbol = ''MSFT'' \<rparr>, fe_contract = Forex_spec ''MSFT'',
        fe_side = side, fe_shares = f64_of_int n, fe_price = f64_of_int 100 \<rparr>, n))
     [(SideBuy, 50), (SideSell, 150)]"

theorem positions_are_net_quantities_witness:
  "f64_int (shares_held (fold (apply_event \<circ> fst) account_example (account_new ''U1'' f64_zero))
     \<lparr> sk_contract_id = 1, sk_symbol = ''MSFT'' \<rparr>) (- 100)"
proof -
  have 1: "\<forall>(e, n) \<in> set account_example. f64_int (fe_shares e) n \<and> 0 \<le> n"
    using f64_int_of_int [of 50] f64_int_of_int [of 150] by (simp add: account_example_def)
  have 2: "(\<Sum>(_, n)\<leftarrow>account_example. n) \<le> 2 ^ 53" by (simp add: account_example_def)
  have "net_quantity \<lparr> sk_contract_id = 1, sk_symbol = ''MSFT'' \<rparr> account_example = - 100"
    by (simp add: net_quantity_def account_example_def signed_int_def)
  with positions_are_net_quantities [OF 1 2] show ?thesis by metis
qed

end
