(* ===== verification/Sim_Orders.thy ===== *)
theory Sim_Orders imports Sim_Fill Sim_Account begin

text \<open>
  The order simulator, \<open>BasicOrderSimulator\<close> of \<open>crates/midas-ib-sim/src/orders/mod.rs\<close>: placing and
  cancelling orders, filling them on market snapshots, the callbacks of a fill, bracket activation
  and one-cancels-all, deferred commission reports and the fault injections of the scenarios. The
  reading of the clock is an argument of \<open>place\<close>, and \<open>R\<close> is the random generator.
\<close>

section \<open>The state\<close>

record BasicOrderSimulator =
  bs_base_seed :: u64
  bs_orders :: "(OrderId, OrderRecord) btree"
  bs_brackets :: "(OrderId, BracketGroup) btree"
  bs_child_to_parent :: "(OrderId, OrderId) btree"
  bs_account :: AccountState
  bs_seen :: "(OrderId, unit) btree"
  bs_partial_threshold :: f64
  bs_slippage :: SlippageKind
  bs_last_snapshot :: "(symbol_ord, MarketSnapshot) btree"
  bs_exec_counter :: u64
  bs_commission_delay :: "(OrderId, Duration) btree"
  bs_deferred :: "(VirtualInstant \<times> OrderEmission) list"
  bs_duplicate_next :: bool
  bs_out_of_order :: "(OrderId, nat list) btree"

definition with_seed :: "u64 \<Rightarrow> BasicOrderSimulator" where
  "with_seed base_seed =
    \<lparr> bs_base_seed = base_seed, bs_orders = bt_empty, bs_brackets = bt_empty,
      bs_child_to_parent = bt_empty, bs_account = account_new ''U0000001'' (f64_of_int 1000000),
      bs_seen = bt_empty, bs_partial_threshold = f64_of_int 1000, bs_slippage = FixedBps f64_one,
      bs_last_snapshot = bt_empty, bs_exec_counter = 0, bs_commission_delay = bt_empty,
      bs_deferred = [], bs_duplicate_next = False, bs_out_of_order = bt_empty \<rparr>"

definition set_commission_delay :: "OrderId \<Rightarrow> Duration \<Rightarrow> BasicOrderSimulator \<Rightarrow> BasicOrderSimulator" where
  "set_commission_delay order_id delay s =
     s\<lparr> bs_commission_delay := bt_insert order_id delay (bs_commission_delay s) \<rparr>"

definition arm_duplicate_order_status :: "BasicOrderSimulator \<Rightarrow> BasicOrderSimulator" where
  "arm_duplicate_order_status s = s\<lparr> bs_duplicate_next := True \<rparr>"

definition install_out_of_order_schedule :: "OrderId \<Rightarrow> nat list \<Rightarrow> BasicOrderSimulator \<Rightarrow> BasicOrderSimulator" where
  "install_out_of_order_schedule order_id permutation s =
     s\<lparr> bs_out_of_order := bt_insert order_id permutation (bs_out_of_order s) \<rparr>"

definition set_slippage :: "SlippageKind \<Rightarrow> BasicOrderSimulator \<Rightarrow> BasicOrderSimulator" where
  "set_slippage k s = s\<lparr> bs_slippage := k \<rparr>"

definition set_partial_threshold :: "f64 \<Rightarrow> BasicOrderSimulator \<Rightarrow> BasicOrderSimulator" where
  "set_partial_threshold t s = s\<lparr> bs_partial_threshold := t \<rparr>"

text \<open>\<open>format!("exec-{:08x}", n)\<close>.\<close>

fun show_hex :: "nat \<Rightarrow> string" where
  "show_hex n = (let d = n mod 16; c = (if d < 10 then char_of (48 + d) else char_of (87 + d))
     in if n < 16 then [c] else show_hex (n div 16) @ [c])"

declare show_hex.simps [simp del]

definition exec_id_for :: "u64 \<Rightarrow> string" where
  "exec_id_for n = (let h = show_hex (unat n) in ''exec-'' @ replicate (8 - length h) (CHR ''0'') @ h)"

section \<open>Emissions\<close>

definition emit_open_order :: "OrderRecord \<Rightarrow> OrderStatusCode \<Rightarrow> OrderEmission" where
  "emit_open_order ord status = EOpenOrder
    \<lparr> oo_order_id = or_order_id ord, oo_contract = or_contract ord, oo_side = or_side ord,
      oo_total_quantity = or_total_qty ord, oo_kind = or_kind ord, oo_limit_price = or_limit_price ord,
      oo_aux_price = or_aux_price ord, oo_status = status, oo_tif = or_tif ord,
      oo_account = or_account ord, oo_parent_id = or_parent_id ord, oo_oca_group = or_oca_group ord \<rparr>"

definition emit_order_status :: "OrderRecord \<Rightarrow> OrderStatusCode \<Rightarrow> OrderEmission" where
  "emit_order_status ord status = EOrderStatus
    \<lparr> om_order_id = or_order_id ord, om_status = status, om_filled = or_filled_qty ord,
      om_remaining = or_remaining_qty ord, om_avg_fill_price = or_avg_fill_price ord,
      om_perm_id = id_word (or_order_id ord) * 31,
      om_parent_id = (case or_parent_id ord of Some p \<Rightarrow> id_word p | None \<Rightarrow> 0),
      om_last_fill_price = or_avg_fill_price ord, om_client_id = 0, om_why_held = [],
      om_mkt_cap_price = None \<rparr>"

section \<open>Placing and cancelling\<close>

text \<open>\<open>0.01\<close> and \<open>1e-6\<close>.\<close>

definition DEFAULT_MIN_TICK :: f64 where "DEFAULT_MIN_TICK = f64_of_ratio False 1 100"

definition respects_min_tick :: "f64 \<Rightarrow> bool" where
  "respects_min_tick price =
    (let units = f64_div price DEFAULT_MIN_TICK
     in f64_lt (f64_abs (f64_sub units (f64_round units))) (f64_of_ratio False 1 1000000))"

definition MIN_TICK_MESSAGE :: string where
  "MIN_TICK_MESSAGE = ''The price does not conform to the minimum price variation for this contract.''"

definition off_tick :: "f64 option \<Rightarrow> bool" where
  "off_tick px = (case px of Some p \<Rightarrow> \<not> respects_min_tick p | None \<Rightarrow> False)"

text \<open>The guards of \<open>place\<close>, in order.\<close>

definition place_reject :: "PlaceOrderReq \<Rightarrow> BasicOrderSimulator \<Rightarrow> (i32 \<times> string) option" where
  "place_reject req s =
    (if bt_get (bs_seen s) (po_order_id req) \<noteq> None then Some (DUPLICATE_ORDER_ID, ''Duplicate order id'')
     else if contract_symbol (po_contract req) = []
       then Some (NO_SECURITY_DEF, ''No security definition has been found for the request'')
     else if off_tick (po_limit_price req) then Some (PRICE_NOT_MIN_TICK, MIN_TICK_MESSAGE)
     else if off_tick (po_aux_price req) then Some (PRICE_NOT_MIN_TICK, MIN_TICK_MESSAGE)
     else case po_kind req of
       LimitOrder \<Rightarrow> if po_limit_price req = None
         then Some (ORDER_REJECTED, ''Limit order missing limit price'') else None
     | StopOrder \<Rightarrow> if po_aux_price req = None
         then Some (ORDER_REJECTED, ''Stop order missing stop price'') else None
     | StopLimitOrder \<Rightarrow> if po_limit_price req = None \<or> po_aux_price req = None
         then Some (ORDER_REJECTED, ''Stop-limit order missing limit or stop price'') else None
     | MarketOrder \<Rightarrow> None)"

definition add_child :: "SimOrderKind \<Rightarrow> OrderId \<Rightarrow> BracketGroup \<Rightarrow> BracketGroup" where
  "add_child kind order_id grp =
    (case kind of
       LimitOrder \<Rightarrow> grp\<lparr> bg_take_profit := Some order_id \<rparr>
     | MarketOrder \<Rightarrow> grp\<lparr> bg_take_profit := Some order_id \<rparr>
     | _ \<Rightarrow> grp\<lparr> bg_stop_loss := Some order_id \<rparr>)"

definition place_child :: "PlaceOrderReq \<Rightarrow> OrderId \<Rightarrow> OrderRecord \<Rightarrow> BasicOrderSimulator
    \<Rightarrow> OrderEmission list \<times> BasicOrderSimulator" where
  "place_child req parent_id rec s =
    (let rec = rec\<lparr> or_status := StInactive \<rparr>;
         grp = bt_get_or (bs_brackets s) parent_id (group_new parent_id (po_oca_group req))
     in ([emit_open_order rec StInactive, emit_order_status rec StInactive],
         s\<lparr> bs_child_to_parent := bt_insert (or_order_id rec) parent_id (bs_child_to_parent s),
            bs_brackets := bt_insert parent_id (add_child (po_kind req) (or_order_id rec) grp) (bs_brackets s),
            bs_orders := bt_insert (or_order_id rec) rec (bs_orders s) \<rparr>))"

definition place_working :: "PlaceOrderReq \<Rightarrow> OrderRecord \<Rightarrow> BasicOrderSimulator
    \<Rightarrow> OrderEmission list \<times> BasicOrderSimulator" where
  "place_working req rec s =
    (let rec = snd (order_transition StPendingSubmit rec);
         rec = snd (order_transition StPreSubmitted rec);
         out = [emit_open_order rec StPreSubmitted, emit_order_status rec StPreSubmitted];
         (rec, out) = (if or_kind rec = LimitOrder
           then let rec = snd (order_transition StSubmitted rec) in (rec, out @ [emit_order_status rec StSubmitted])
           else (rec, out));
         s = (if po_oca_group req \<noteq> None
              then s\<lparr> bs_brackets := (let g = bt_get_or (bs_brackets s) (or_order_id rec)
                        (group_new (or_order_id rec) (po_oca_group req))
                      in bt_insert (or_order_id rec) g (bs_brackets s)) \<rparr>
              else s)
     in (out, s\<lparr> bs_orders := bt_insert (or_order_id rec) rec (bs_orders s) \<rparr>))"

definition place :: "VirtualInstant \<Rightarrow> PlaceOrderReq \<Rightarrow> BasicOrderSimulator
    \<Rightarrow> OrderEmission list \<times> BasicOrderSimulator" where
  "place now req s =
    (case place_reject req s of
       Some (code, msg) \<Rightarrow> ([EReject (po_order_id req) code msg], s)
     | None \<Rightarrow>
         let s = s\<lparr> bs_seen := bt_insert (po_order_id req) () (bs_seen s) \<rparr>;
             rec = from_place_req req now
         in case po_parent_id req of
              Some parent_id \<Rightarrow> place_child req parent_id rec s
            | None \<Rightarrow> place_working req rec s)"

definition cancel :: "OrderId \<Rightarrow> BasicOrderSimulator \<Rightarrow> OrderEmission list \<times> BasicOrderSimulator" where
  "cancel order_id s =
    (case bt_get (bs_orders s) order_id of
       None \<Rightarrow> ([EReject order_id ORDER_NOT_YET_TRANSMITTED
                 ''OrderId that needs to be cancelled is not yet transmitted.''], s)
     | Some rec \<Rightarrow>
         if order_is_filled rec
         then ([EReject order_id CANT_MODIFY_FILLED ''Cannot modify a filled order.''], s)
         else case order_transition StCancelled rec of
           (False, _) \<Rightarrow> ([EReject order_id ORDER_CANCELLED ''Order cancelled''], s)
         | (True, rec) \<Rightarrow> ([emit_order_status rec StCancelled],
                           s\<lparr> bs_orders := bt_insert order_id rec (bs_orders s) \<rparr>))"

definition open_orders_snapshot :: "BasicOrderSimulator \<Rightarrow> OrderEmission list" where
  "open_orders_snapshot s =
    concat (map (\<lambda>o'. [emit_open_order o' (or_status o'), emit_order_status o' (or_status o')])
      (filter (\<lambda>o'. \<not> order_is_filled o' \<and> \<not> order_is_cancelled o') (bt_values (bs_orders s))))"

definition drain_due :: "VirtualInstant \<Rightarrow> BasicOrderSimulator \<Rightarrow> OrderEmission list \<times> BasicOrderSimulator" where
  "drain_due now s =
    (map snd (filter (\<lambda>(deadline, _). deadline \<le> now) (bs_deferred s)),
     s\<lparr> bs_deferred := filter (\<lambda>(deadline, _). \<not> deadline \<le> now) (bs_deferred s) \<rparr>)"

definition next_deferred_deadline :: "BasicOrderSimulator \<Rightarrow> VirtualInstant option" where
  "next_deferred_deadline s =
    (case bs_deferred s of [] \<Rightarrow> None | _ \<Rightarrow> Some (Min (set (map fst (bs_deferred s)))))"

section \<open>The callbacks of a fill\<close>

text \<open>
  What the loop over the pattern's steps carries: the order being filled, the execution counter, the
  deferred emissions and the emissions of this tick with their delivery offsets.
\<close>

record fill_progress =
  fp_working :: OrderRecord
  fp_counter :: u64
  fp_deferred :: "(VirtualInstant \<times> OrderEmission) list"
  fp_materialized :: "(Duration \<times> OrderEmission) list"

definition chunk_at :: "f64 list \<Rightarrow> nat \<Rightarrow> f64" where
  "chunk_at chunks i = (if i < length chunks then chunks ! i else f64_zero)"

text \<open>The quantities of the order after one more execution.\<close>

definition execute_shares :: "f64 \<Rightarrow> f64 \<Rightarrow> OrderRecord \<Rightarrow> OrderRecord" where
  "execute_shares shares price w =
    (let filled = f64_add (or_filled_qty w) shares;
         remaining = f64_max (f64_sub (or_total_qty w) filled) f64_zero;
         prev_notional = f64_mul (f64_sub filled shares) (or_avg_fill_price w);
         this_notional = f64_mul shares price
     in w\<lparr> or_filled_qty := filled, or_remaining_qty := remaining,
           or_avg_fill_price := (if f64_gt filled f64_zero
             then f64_div (f64_add prev_notional this_notional) filled else price) \<rparr>)"

definition emit_execution :: "OrderId \<Rightarrow> Fill \<Rightarrow> string \<Rightarrow> f64 \<Rightarrow> OrderRecord \<Rightarrow> OrderEmission" where
  "emit_execution order_id fill exec_id shares w = EExecution
    \<lparr> ex_req_id = None, ex_order_id = order_id, ex_exec_id = exec_id, ex_time = fl_ts fill,
      ex_acct_number = or_account w, ex_exchange = ''SMART'', ex_side = or_side w, ex_shares = shares,
      ex_price = fl_price fill, ex_perm_id = id_word order_id * 31, ex_client_id = 0, ex_liquidation = 0,
      ex_cumulative_quantity = or_filled_qty w, ex_avg_price = or_avg_fill_price w, ex_order_ref = None,
      ex_contract = or_contract w \<rparr>"

definition emit_commission :: "string \<Rightarrow> f64 \<Rightarrow> OrderEmission" where
  "emit_commission exec_id shares = ECommission
    \<lparr> cr_exec_id = exec_id, cr_commission = f64_max (f64_mul (f64_of_ratio False 5 1000) shares) f64_one,
      cr_currency = ''USD'', cr_realized_pnl = None, cr_yield = None, cr_yield_redemption_date = None \<rparr>"

definition materialize :: "Duration \<Rightarrow> OrderEmission \<Rightarrow> fill_progress \<Rightarrow> fill_progress" where
  "materialize offset e p = p\<lparr> fp_materialized := fp_materialized p @ [(offset, e)] \<rparr>"

fun fill_step :: "OrderId \<Rightarrow> Fill \<Rightarrow> f64 list \<Rightarrow> Duration option \<Rightarrow> Duration \<times> StepKind
    \<Rightarrow> fill_progress \<Rightarrow> fill_progress" where
  "fill_step oid fill chunks delay (offset, OpenOrderSubmitted) p =
     materialize offset (emit_open_order (fp_working p) StSubmitted) p"
| "fill_step oid fill chunks delay (offset, OpenOrderPreSubmitted) p =
     materialize offset (emit_open_order (fp_working p) StPreSubmitted) p"
| "fill_step oid fill chunks delay (offset, ExecutionPart i) p =
    (let shares = chunk_at chunks i;
         w = execute_shares shares (fl_price fill) (fp_working p);
         counter = fp_counter p + 1
     in materialize offset (emit_execution oid fill (exec_id_for counter) shares w)
          (p\<lparr> fp_working := w, fp_counter := counter \<rparr>))"
| "fill_step oid fill chunks delay (offset, CommissionPart i) p =
    (let e = emit_commission (exec_id_for (fp_counter p)) (chunk_at chunks i)
     in case delay of
          Some d \<Rightarrow> p\<lparr> fp_deferred := fp_deferred p @ [(fl_ts fill + d, e)] \<rparr>
        | None \<Rightarrow> materialize offset e p)"
| "fill_step oid fill chunks delay (offset, OrderStatusPartiallyFilled i) p =
    (let w = snd (order_transition StPartiallyFilled (fp_working p))
     in materialize offset (emit_order_status w StFilled) (p\<lparr> fp_working := w \<rparr>))"
| "fill_step oid fill chunks delay (offset, OrderStatusFilled) p =
    (let w = (snd (order_transition StFilled (fp_working p)))\<lparr> or_remaining_qty := f64_zero \<rparr>
     in materialize offset (emit_order_status w StFilled) (p\<lparr> fp_working := w \<rparr>))"

definition fill_chunks :: "'g rand_crate \<Rightarrow> u64 \<Rightarrow> OrderId \<Rightarrow> PatternKind \<Rightarrow> f64 \<Rightarrow> f64 list" where
  "fill_chunks R base_seed order_id pattern shares =
    (if pattern = PatternC
     then let c = partial_chunks R shares base_seed order_id
                    (f64_max (f64_sub (f64_div shares f64_two) (f64_of_ratio False 1 10)) f64_one)
          in if length c < 2 then [f64_div shares f64_two, f64_div shares f64_two] else c
     else [shares])"

text \<open>The steps with their delivery offsets.\<close>

definition timed_steps :: "'g rand_crate \<Rightarrow> u64 \<Rightarrow> OrderId \<Rightarrow> PatternKind \<Rightarrow> (Duration \<times> StepKind) list" where
  "timed_steps R base_seed order_id pattern =
     map (\<lambda>(i, base_off, kind). (actual_offset R base_off base_seed order_id (of_nat i), kind))
       (enumerate 0 (steps_for pattern))"

text \<open>
  The injected permutation: the item at \<open>i\<close> moves to \<open>perm ! i\<close>; a list that is no permutation of
  the positions is ignored.
\<close>

definition reorder_by :: "nat list \<Rightarrow> 'a list \<Rightarrow> 'a list" where
  "reorder_by perm xs =
    (let len = length xs
     in if length perm = len \<and> (\<forall>i \<in> set perm. i < len) \<and> distinct perm
        then map the (foldl (\<lambda>slots (src, item). slots[perm ! src := Some item])
                        (replicate len None) (enumerate 0 xs))
        else xs)"

definition is_order_status :: "OrderEmission \<Rightarrow> bool" where
  "is_order_status e = (case e of EOrderStatus _ \<Rightarrow> True | _ \<Rightarrow> False)"

text \<open>The first status of the list, doubled; whether there was one.\<close>

fun duplicate_first_status :: "OrderEmission list \<Rightarrow> OrderEmission list \<times> bool" where
  "duplicate_first_status [] = ([], False)"
| "duplicate_first_status (e # es) =
    (if is_order_status e then (e # e # es, True)
     else case duplicate_first_status es of (es, b) \<Rightarrow> (e # es, b))"

text \<open>Position and portfolio updates, chunk by chunk.\<close>

fun apply_chunks :: "SymbolKey \<Rightarrow> ContractSpec \<Rightarrow> Side \<Rightarrow> f64 \<Rightarrow> f64 list \<Rightarrow> AccountState
    \<Rightarrow> OrderEmission list \<times> AccountState" where
  "apply_chunks key contract side price [] a = ([], a)"
| "apply_chunks key contract side price (shares # cs) a =
    (case apply_fill key contract side shares price a of
       ((pu, pv), a) \<Rightarrow> (case apply_chunks key contract side price cs a of
         (es, a) \<Rightarrow> (EPosition pu # EPortfolioValue pv # es, a)))"

section \<open>Brackets\<close>

definition child_status :: "OrderId \<Rightarrow> OrderRecord \<Rightarrow> OrderEmission" where
  "child_status parent_id child = EOrderStatus
    \<lparr> om_order_id = or_order_id child, om_status = StSubmitted, om_filled = f64_zero,
      om_remaining = or_remaining_qty child, om_avg_fill_price = f64_zero,
      om_perm_id = id_word (or_order_id child) * 31, om_parent_id = id_word parent_id,
      om_last_fill_price = f64_zero, om_client_id = 0, om_why_held = [], om_mkt_cap_price = None \<rparr>"

definition option_list :: "'a option list \<Rightarrow> 'a list" where
  "option_list xs = List.map_filter id xs"

text \<open>One pass of the activation loop: the emission of a child that exists, with its delay.\<close>

definition activate_child :: "'g rand_crate \<Rightarrow> OrderId \<Rightarrow> OrderId
    \<Rightarrow> (Duration \<times> OrderEmission) list \<times> BasicOrderSimulator
    \<Rightarrow> (Duration \<times> OrderEmission) list \<times> BasicOrderSimulator" where
  "activate_child R parent_id child_id acc =
    (case acc of (activations, s) \<Rightarrow>
      (case bt_get (bs_orders s) child_id of
         None \<Rightarrow> (activations, s)
       | Some child \<Rightarrow>
           let child = snd (order_transition StSubmitted child);
               jitter = sample_activation_jitter R (bs_base_seed s) parent_id child_id
           in (activations @ [(jitter, child_status parent_id child)],
               s\<lparr> bs_orders := bt_insert child_id child (bs_orders s) \<rparr>)))"

definition activate_children :: "'g rand_crate \<Rightarrow> OrderId \<Rightarrow> BasicOrderSimulator
    \<Rightarrow> OrderEmission list \<times> BasicOrderSimulator" where
  "activate_children R order_id s =
    (case bt_get (bs_brackets s) order_id of
       None \<Rightarrow> ([], s)
     | Some grp \<Rightarrow>
         if bg_state grp = ParentWorking
         then case fold (activate_child R order_id) (option_list [bg_take_profit grp, bg_stop_loss grp]) ([], s) of
                (activations, s) \<Rightarrow>
                  (map snd (sort_key fst activations),
                   s\<lparr> bs_brackets := bt_insert order_id (grp\<lparr> bg_state := ParentFilled \<rparr>) (bs_brackets s) \<rparr>)
         else ([], s))"

definition sibling_of :: "OrderId \<Rightarrow> BracketGroup \<Rightarrow> OrderId option" where
  "sibling_of order_id g =
    (if bg_take_profit g = Some order_id then bg_stop_loss g
     else if bg_stop_loss g = Some order_id then bg_take_profit g
     else None)"

definition oca_cancelled :: "OrderId \<Rightarrow> OrderId \<Rightarrow> OrderRecord \<Rightarrow> OrderEmission" where
  "oca_cancelled parent_id sid sib = EOrderStatus
    \<lparr> om_order_id = sid, om_status = StCancelled, om_filled = or_filled_qty sib,
      om_remaining = or_remaining_qty sib, om_avg_fill_price = or_avg_fill_price sib,
      om_perm_id = id_word sid * 31, om_parent_id = id_word parent_id, om_last_fill_price = f64_zero,
      om_client_id = 0, om_why_held = ''OCA group cancelled by sibling fill'', om_mkt_cap_price = None \<rparr>"

text \<open>The jitter the code samples here is thrown away.\<close>

definition cancel_sibling :: "OrderId \<Rightarrow> BasicOrderSimulator \<Rightarrow> OrderEmission list \<times> BasicOrderSimulator" where
  "cancel_sibling order_id s =
    (case bt_get (bs_child_to_parent s) order_id of
       None \<Rightarrow> ([], s)
     | Some parent_id \<Rightarrow>
       (case bt_get (bs_brackets s) parent_id of
          None \<Rightarrow> ([], s)
        | Some grp \<Rightarrow>
          (case sibling_of order_id grp of
             None \<Rightarrow> ([], s)
           | Some sid \<Rightarrow>
               let (out, s) = (case bt_get (bs_orders s) sid of
                     None \<Rightarrow> ([], s)
                   | Some sib \<Rightarrow> (case order_transition StCancelled sib of
                       (True, sib) \<Rightarrow> ([oca_cancelled parent_id sid sib],
                                       s\<lparr> bs_orders := bt_insert sid sib (bs_orders s) \<rparr>)
                     | (False, _) \<Rightarrow> ([], s)))
               in (out, s\<lparr> bs_brackets := bt_insert parent_id (grp\<lparr> bg_state := OneChildFilled \<rparr>)
                            (bs_brackets s) \<rparr>))))"

section \<open>Finalising a fill\<close>

definition run_steps :: "'g rand_crate \<Rightarrow> OrderId \<Rightarrow> Fill \<Rightarrow> PatternKind \<Rightarrow> f64 list \<Rightarrow> OrderRecord
    \<Rightarrow> BasicOrderSimulator \<Rightarrow> fill_progress" where
  "run_steps R order_id fill pattern chunks rec s =
     fold (fill_step order_id fill chunks (bt_get (bs_commission_delay s) order_id))
       (timed_steps R (bs_base_seed s) order_id pattern)
       \<lparr> fp_working = rec, fp_counter = bs_exec_counter s, fp_deferred = bs_deferred s, fp_materialized = [] \<rparr>"

definition finalize_fill :: "'g rand_crate \<Rightarrow> OrderId \<Rightarrow> Fill \<Rightarrow> BasicOrderSimulator
    \<Rightarrow> OrderEmission list \<times> BasicOrderSimulator" where
  "finalize_fill R order_id fill s =
    (case bt_get (bs_orders s) order_id of
       None \<Rightarrow> ([], s)
     | Some rec \<Rightarrow>
       let pattern = select_pattern R (bs_base_seed s) order_id (or_kind rec) (or_total_qty rec)
                       (bs_partial_threshold s);
           chunks = fill_chunks R (bs_base_seed s) order_id pattern (fl_shares fill);
           p = run_steps R order_id fill pattern chunks rec s;
           sorted = sort_key fst (fp_materialized p);
           ordered = (case bt_get (bs_out_of_order s) order_id of
                        Some perm \<Rightarrow> reorder_by perm sorted | None \<Rightarrow> sorted);
           out = map snd ordered;
           (out, used) = (if bs_duplicate_next s then duplicate_first_status out else (out, False));
           (updates, account) = apply_chunks (symbol_key_for (or_contract rec)) (or_contract rec)
                                  (or_side rec) (fl_price fill) chunks (bs_account s);
           s = s\<lparr> bs_commission_delay := bt_remove order_id (bs_commission_delay s),
                  bs_out_of_order := bt_remove order_id (bs_out_of_order s),
                  bs_exec_counter := fp_counter p, bs_deferred := fp_deferred p,
                  bs_duplicate_next := bs_duplicate_next s \<and> \<not> used,
                  bs_orders := bt_insert order_id (fp_working p) (bs_orders s),
                  bs_account := account \<rparr>;
           (activated, s) = activate_children R order_id s;
           (cancelled, s) = cancel_sibling order_id s
       in (out @ updates @ activated @ cancelled, s))"

section \<open>Market snapshots\<close>

definition is_active :: "OrderStatusCode \<Rightarrow> bool" where
  "is_active st \<longleftrightarrow> st \<in> {StPreSubmitted, StSubmitted, StPartiallyFilled}"

definition candidate_ids :: "MarketSnapshot \<Rightarrow> BasicOrderSimulator \<Rightarrow> OrderId list" where
  "candidate_ids snap s =
     map fst (filter (\<lambda>(_, o'). is_active (or_status o') \<and> symbol_key_for (or_contract o') = sn_symbol snap)
       (bs_orders s))"

definition snapshot_order :: "'g rand_crate \<Rightarrow> MarketSnapshot \<Rightarrow> OrderId \<Rightarrow> BasicOrderSimulator
    \<Rightarrow> OrderEmission list \<times> BasicOrderSimulator" where
  "snapshot_order R snap oid s =
    (case bt_get (bs_orders s) oid of
       None \<Rightarrow> ([], s)
     | Some rec \<Rightarrow>
       (case maybe_fill rec (sn_mid snap) (sn_bid snap) (sn_ask snap) (sn_ts snap) (bs_slippage s) of
          (fill, rec) \<Rightarrow>
            let s = s\<lparr> bs_orders := bt_insert oid rec (bs_orders s) \<rparr>
            in case fill of None \<Rightarrow> ([], s) | Some f \<Rightarrow> finalize_fill R oid f s))"

fun snapshot_loop :: "'g rand_crate \<Rightarrow> MarketSnapshot \<Rightarrow> OrderId list \<Rightarrow> BasicOrderSimulator
    \<Rightarrow> OrderEmission list \<times> BasicOrderSimulator" where
  "snapshot_loop R snap [] s = ([], s)"
| "snapshot_loop R snap (oid # oids) s =
    (case snapshot_order R snap oid s of
       (events, s) \<Rightarrow> (case snapshot_loop R snap oids s of (out, s) \<Rightarrow> (events @ out, s)))"

definition on_market_snapshot :: "'g rand_crate \<Rightarrow> MarketSnapshot \<Rightarrow> BasicOrderSimulator
    \<Rightarrow> OrderEmission list \<times> BasicOrderSimulator" where
  "on_market_snapshot R snap s =
    (let s = s\<lparr> bs_last_snapshot := bt_insert (symbol_ord (sn_symbol snap)) snap (bs_last_snapshot s) \<rparr>
     in snapshot_loop R snap (candidate_ids snap s) s)"

end
