(* ===== verification/Sim_Fill_Props.thy ===== *)
theory Sim_Fill_Props imports Sim_Fill begin

text \<open>
  Properties of the fill patterns and of the splitting of a fill into chunks: delays keep the order
  of the callbacks, and chunks partition the quantity.
\<close>

section \<open>The jitter never reorders a pattern\<close>

lemma f64_int_50: "f64_int (f64_of_int (int PATTERN_MAX_JITTER_MS)) 50"
  unfolding PATTERN_MAX_JITTER_MS_def using f64_int_of_int [of 50] by simp

lemma jitter_bounded: "jitter_for_step R base_seed oid i \<le> from_millis PATTERN_MAX_JITTER_MS"
proof -
  let ?m = "f64_of_int (int PATTERN_MAX_JITTER_MS)"
  have c: "f64_is_finite (f64_max (f64_min s ?m) f64_zero)
      \<and> 0 \<le> f64_val (f64_max (f64_min s ?m) f64_zero) \<and> f64_val (f64_max (f64_min s ?m) f64_zero) \<le> 50" for s
  proof -
    have fin: "f64_is_finite ?m" "f64_val ?m = 50" "f64_is_finite f64_zero" "f64_val f64_zero = 0"
      using f64_int_50 f64_int_consts by (simp_all add: f64_int_def)
    have min: "\<not> f64_is_nan (f64_min s ?m) \<and> f64_key (f64_min s ?m) \<le> f64_key ?m"
      using fin(1) by (auto simp: f64_min_def f64_finite_not_nan f64_lt_def)
    then have "f64_key f64_zero \<le> f64_key (f64_max (f64_min s ?m) f64_zero)
        \<and> f64_key (f64_max (f64_min s ?m) f64_zero) \<le> f64_key ?m"
      using fin by (auto simp: f64_max_def f64_finite_not_nan f64_lt_def f64_key_le_iff not_less)
    moreover have "f64_is_finite x" if "f64_key f64_zero \<le> f64_key x" "f64_key x \<le> f64_key ?m" for x
      using that fin(1,3) by (auto simp: f64_finite_key)
    ultimately show ?thesis using fin by (simp add: f64_key_le_iff)
  qed
  have "f64_as_int 0 (2 ^ 64 - 1) (f64_round x) \<le> 50"
    if "f64_is_finite x" "0 \<le> f64_val x" "f64_val x \<le> 50" for x
  proof -
    have "0 \<le> f64_round_int x" "f64_round_int x \<le> 50"
      using f64_round_int_bounds [of 0 x 50] that by simp_all
    with f64_as_int_exact [OF f64_round_int [OF that(1)], of 0 "2 ^ 64 - 1"] show ?thesis by simp
  qed
  with c show ?thesis
    by (simp add: jitter_for_step_def Let_def from_millis_def PATTERN_MAX_JITTER_MS_def nat_le_iff)
qed

text \<open>The compile-time assertions of the code.\<close>

lemma pattern_gaps:
  "PATTERN_MAX_JITTER_MS < array_min_gap PATTERN_A_OFFSETS_MS" "array_min_gap PATTERN_A_OFFSETS_MS = 80"
  "PATTERN_MAX_JITTER_MS < array_min_gap PATTERN_B_OFFSETS_MS" "array_min_gap PATTERN_B_OFFSETS_MS = 60"
  "PATTERN_MAX_JITTER_MS < array_min_gap PATTERN_C_OFFSETS_MS" "array_min_gap PATTERN_C_OFFSETS_MS = 60"
  by (simp_all add: offset_defs PATTERN_MAX_JITTER_MS_def)

definition jittered :: "'g rand_crate \<Rightarrow> u64 \<Rightarrow> OrderId \<Rightarrow> PatternKind \<Rightarrow> Duration list" where
  "jittered R base_seed oid pattern = map (\<lambda>(i, off, _). actual_offset R off base_seed oid (of_nat i))
     (enumerate 0 (steps_for pattern))"

text \<open>
  the random delays never change the order of a fill's callbacks: whatever the generator draws,
  not-a-number included, each delay is at most 50 ms, less than every gap of the tables, and the
  delivery times of a pattern's steps are strictly increasing.
\<close>

lemma jitter_keeps_order:
  "sorted_wrt (<) (jittered R base_seed oid pattern)
   \<and> jitter_for_step R base_seed oid i \<le> from_millis PATTERN_MAX_JITTER_MS"
proof -
  have j: "jitter_for_step R base_seed oid i \<le> 50000000" for i
    using jitter_bounded [of R base_seed oid i] by (simp add: from_millis_def PATTERN_MAX_JITTER_MS_def)
  have step: "a + 50000000 < b \<Longrightarrow> actual_offset R a base_seed oid i < actual_offset R b base_seed oid k" for a b i k
    unfolding actual_offset_def using j [of i] by linarith
  have "sorted_wrt (<) (jittered R base_seed oid pattern)"
    by (cases pattern)
      (simp_all add: jittered_def at_ms_def offset_defs from_millis_def numeral_3_eq_3 step)
  with jitter_bounded show ?thesis by blast
qed

section \<open>Chunks partition the quantity\<close>

text \<open>The documented range of \<open>gen::<f64>()\<close>.\<close>

definition unit_draws :: "'g rand_crate \<Rightarrow> bool" where
  "unit_draws R \<longleftrightarrow> (\<forall>g. f64_is_finite (fst (gen_f64 R g))
     \<and> f64_le f64_zero (fst (gen_f64 R g)) \<and> f64_lt (fst (gen_f64 R g)) f64_one)"

abbreviation "frac_of u \<equiv> f64_add (f64_of_ratio False 2 10) (f64_mul u (f64_of_ratio False 3 10))"

lemma frac_bounds:
  assumes "f64_is_finite u" "0 \<le> f64_val u" "f64_val u \<le> 1"
  shows "f64_is_finite (frac_of u) \<and> 0 \<le> f64_val (frac_of u) \<and> f64_val (frac_of u) \<le> 1"
proof -
  let ?a = "f64_of_ratio False 2 10" and ?b = "f64_of_ratio False 3 10" and ?h = "f64_div f64_one f64_two"
  have fin: "f64_is_finite ?a" "f64_is_finite ?b" "f64_is_finite ?h" by code_simp+
  have "f64_le f64_zero ?a" "f64_le ?a ?h" "f64_le f64_zero ?b" "f64_le ?b ?h"
    "f64_le (f64_add ?h ?h) f64_one" "f64_mul ?h f64_two = f64_one" by code_simp+
  moreover have one: "f64_val f64_one = 1" "f64_is_finite f64_one" "f64_val f64_zero = 0" "f64_is_finite f64_zero"
    using f64_int_consts by (simp_all add: f64_int_def)
  moreover have "f64_val ?h = 1 / 2"
  proof -
    have "f64_mant ?h = 2 ^ 52" "f64_expo ?h = - 53" "\<not> f64_negative ?h" by code_simp+
    then show ?thesis by (simp add: f64_val_mant power_int_minus)
  qed
  ultimately have ab: "0 \<le> f64_val ?a" "f64_val ?a \<le> 1 / 2" "0 \<le> f64_val ?b" "f64_val ?b \<le> 1 / 2"
    using fin by (simp_all add: f64_le_val)
  let ?m = "f64_mul u ?b"
  have "0 \<le> f64_val u * f64_val ?b" "f64_val u * f64_val ?b \<le> 1 * f64_val ?b"
    using assms ab by (simp, intro mult_right_mono) auto
  then have m: "f64_is_finite ?m \<and> 0 \<le> f64_val ?m \<and> f64_val ?m \<le> f64_val ?b"
    using rnd_between [OF one(4) fin(2) _ _ f64_mul_rnd(1) [OF assms(1) fin(2)]] one by simp
  then show ?thesis
    using rnd_between [OF one(4,2) _ _ f64_add_rnd(1) [of ?a ?m]] fin ab one by simp
qed

lemma f64_int_100: "f64_int MIN_CHUNK 100" "f64_int (f64_mul (f64_of_int 2) MIN_CHUNK) 200"
  using f64_int_of_int [of 100] f64_int_mul [OF f64_int_of_int [of 2] f64_int_of_int [of 100]]
  by (simp_all add: MIN_CHUNK_def)

lemma chunk_bounds:
  assumes r: "f64_int remaining r" "200 < r" "r \<le> 2 ^ 46"
    and u: "f64_is_finite u" "0 \<le> f64_val u" "f64_val u \<le> 1"
  defines "raw \<equiv> f64_mul (f64_round (f64_div (f64_mul remaining (frac_of u)) MIN_CHUNK)) MIN_CHUNK"
  shows "\<exists>c. f64_int (f64_clamp raw MIN_CHUNK (f64_max (f64_sub remaining MIN_CHUNK) MIN_CHUNK)) c
    \<and> 100 \<le> c \<and> c \<le> r - 100"
proof -
  let ?f = "frac_of u" and ?m = "f64_mul remaining (frac_of u)"
  have fin: "f64_is_finite remaining" "f64_val remaining = of_int r" "f64_is_finite f64_zero" "f64_val f64_zero = 0"
    using r(1) f64_int_consts by (simp_all add: f64_int_def)
  have f: "f64_is_finite ?f" "0 \<le> f64_val ?f" "f64_val ?f \<le> 1" using frac_bounds [OF u] by auto
  have "f64_val remaining * f64_val ?f \<le> f64_val remaining * 1"
    using f fin r by (intro mult_left_mono) auto
  then have m: "f64_is_finite ?m \<and> 0 \<le> f64_val ?m \<and> f64_val ?m \<le> of_int r"
    using rnd_between [OF fin(3,1) _ _ f64_mul_rnd(1) [OF fin(1) f(1)]] f fin r by simp
  let ?d = "f64_div ?m MIN_CHUNK"
  have c: "f64_is_finite MIN_CHUNK" "f64_val MIN_CHUNK = 100" using f64_int_100 by (simp_all add: f64_int_def)
  have nz: "\<not> f64_is_zero MIN_CHUNK" using c f64_mant_zero_iff [of MIN_CHUNK] by (auto simp: f64_val_mant)
  have "f64_is_finite ?d \<and> 0 \<le> f64_val ?d \<and> f64_val ?d \<le> of_int r"
    using rnd_between [OF fin(3,1) _ _ f64_div_rnd(1) [of ?m MIN_CHUNK]] m c nz fin r by (simp add: divide_le_eq)
  then have d: "f64_is_finite ?d" "0 \<le> f64_round_int ?d" "f64_round_int ?d \<le> r"
    using f64_round_int_bounds [of 0 ?d r] by simp_all
  let ?k = "f64_round_int ?d"
  have "\<bar>?k\<bar> \<le> 2 ^ 53" "\<bar>?k * 100\<bar> \<le> 2 ^ 53" using d r by simp_all
  then have "f64_int raw (?k * 100)"
    unfolding raw_def using f64_int_mul [OF f64_round_int [OF d(1)] f64_int_100(1)] by simp
  moreover have "f64_int (f64_sub remaining MIN_CHUNK) (r - 100)"
    using f64_int_sub [OF r(1) f64_int_100(1)] r by simp
  then have "f64_int (f64_max (f64_sub remaining MIN_CHUNK) MIN_CHUNK) (r - 100)"
    using f64_int_max [OF _ f64_int_100(1), of _ "r - 100"] r by simp
  ultimately show ?thesis
    using f64_int_clamp [OF _ f64_int_100(1), of raw "?k * 100" _ "r - 100"] r
    by (intro exI [of _ "max 100 (min (?k * 100) (r - 100))"]) auto
qed

lemma chunk_loop_partition:
  assumes "unit_draws R" "f64_int remaining r" "0 < r" "r \<le> 2 ^ 46"
  shows "\<exists>ns. list_all2 f64_int (chunk_loop R (Suc k) g remaining) ns \<and> sum_list ns = r
    \<and> (\<forall>i \<in> set ns. min r 100 \<le> i) \<and> length ns \<le> Suc k"
  using assms(2-)
proof (induction k arbitrary: g remaining r)
  case 0
  then show ?case by (intro exI [of _ "[r]"]) simp
next
  case (Suc k)
  show ?case
  proof (cases "r \<le> 200")
    case True
    then have "chunk_loop R (Suc (Suc k)) g remaining = [remaining]"
      using f64_int_le [OF Suc.prems(1) f64_int_100(2)] by simp
    with Suc.prems show ?thesis by (intro exI [of _ "[r]"]) simp
  next
    case False
    obtain u g' where g': "gen_f64 R g = (u, g')" by (cases "gen_f64 R g")
    have u: "f64_is_finite u" "0 \<le> f64_val u" "f64_val u \<le> 1"
      using assms(1) [unfolded unit_draws_def, rule_format, of g] g' f64_int_consts
      by (auto simp: f64_int_def f64_le_val f64_lt_val)
    let ?chunk = "f64_clamp (f64_mul (f64_round (f64_div (f64_mul remaining (frac_of u)) MIN_CHUNK)) MIN_CHUNK)
      MIN_CHUNK (f64_max (f64_sub remaining MIN_CHUNK) MIN_CHUNK)"
    obtain c where c: "f64_int ?chunk c" "100 \<le> c" "c \<le> r - 100"
      using chunk_bounds [OF Suc.prems(1) _ _ u] False Suc.prems by auto
    have loop: "chunk_loop R (Suc (Suc k)) g remaining
        = ?chunk # chunk_loop R (Suc k) g' (f64_sub remaining ?chunk)"
      using False f64_int_le [OF Suc.prems(1) f64_int_100(2)] g' by (simp add: Let_def)
    have "f64_int (f64_sub remaining ?chunk) (r - c)"
      using f64_int_sub [OF Suc.prems(1) c(1)] c Suc.prems by simp
    from Suc.IH [OF this, of g'] c Suc.prems obtain ns where
      "list_all2 f64_int (chunk_loop R (Suc k) g' (f64_sub remaining ?chunk)) ns" "sum_list ns = r - c"
      "\<forall>i \<in> set ns. min (r - c) 100 \<le> i" "length ns \<le> Suc k" by auto
    with c show ?thesis unfolding loop by (intro exI [of _ "c # ns"]) auto
  qed
qed

text \<open>
  splitting a fill neither loses nor creates shares. With draws in the documented range [0, 1) and
  a whole number of shares up to \<open>2 ^ 46\<close>, the chunks are whole numbers, between one and four of them,
  none smaller than a round lot (or the order itself, if that is smaller), and they add up to
  exactly the quantity; no rounding is lost in the floating-point loop.
\<close>

lemma partial_chunks_partition:
  assumes "unit_draws R" and "f64_int qty n" and "0 < n" and "n \<le> 2 ^ 46"
  shows "\<exists>ns. list_all2 f64_int (partial_chunks R qty base_seed oid threshold) ns \<and> sum_list ns = n
    \<and> (\<forall>i \<in> set ns. min n 100 \<le> i) \<and> 0 < length ns \<and> length ns \<le> 4"
proof (cases "f64_le qty threshold")
  case True
  with assms show ?thesis by (intro exI [of _ "[n]"]) (simp add: partial_chunks_def)
next
  case False
  obtain d g where d: "gen_u32 R (rng_for R base_seed oid PartialChunking 0) = (d, g)"
    by (cases "gen_u32 R (rng_for R base_seed oid PartialChunking 0)")
  have m: "unat (d mod 3) \<le> 2"
    using unat_mono [OF word_mod_less_divisor [of "3::u32" d]] by (simp add: word_less_nat_alt)
  then have "unat (2 + d mod 3) = 2 + unat (d mod 3)" by (subst unat_add_lem [THEN iffD1]) simp_all
  then have "unat (2 + d mod 3) = Suc (Suc (unat (d mod 3)))" by simp
  with False d have p: "partial_chunks R qty base_seed oid threshold = chunk_loop R (Suc (Suc (unat (d mod 3)))) g qty"
    by (simp add: partial_chunks_def)
  obtain ns where ns: "list_all2 f64_int (partial_chunks R qty base_seed oid threshold) ns" "sum_list ns = n"
    "\<forall>i \<in> set ns. min n 100 \<le> i" "length ns \<le> Suc (Suc (unat (d mod 3)))"
    using chunk_loop_partition [OF assms, of "Suc (unat (d mod 3))" g] unfolding p by blast
  moreover have "ns \<noteq> []" using ns(2) assms(3) by auto
  ultimately show ?thesis using m by (intro exI [of _ ns]) simp
qed

text \<open>A generator whose integer draws are all \<open>d\<close> and whose fractions are zero, for examples.\<close>

definition constant_rand :: "u32 \<Rightarrow> u64 rand_crate" where
  "constant_rand d = \<lparr> seed_from_u64 = (\<lambda>s. s), gen_u32 = (\<lambda>g. (d, g)), gen_u64 = (\<lambda>g. (0, g)),
     gen_f64 = (\<lambda>g. (f64_zero, g)), exp_sample = (\<lambda>_ g. (f64_zero, g)) \<rparr>"

lemma constant_rand_unit: "unit_draws (constant_rand d)"
proof -
  have "f64_is_finite f64_zero" "f64_le f64_zero f64_zero" "f64_lt f64_zero f64_one" by code_simp+
  then show ?thesis by (simp add: unit_draws_def constant_rand_def)
qed

lemma partial_chunks_partition_witness:
  "\<exists>ns. list_all2 f64_int (partial_chunks (constant_rand 1) (f64_of_int 1000) 1 7 f64_one) ns
    \<and> sum_list ns = 1000 \<and> 2 \<le> length ns"
proof -
  have q: "f64_int (f64_of_int 1000) 1000" by (intro f64_int_of_int) simp
  have "length (partial_chunks (constant_rand 1) (f64_of_int 1000) 1 7 f64_one) = 3" by code_simp
  moreover obtain ns where "list_all2 f64_int (partial_chunks (constant_rand 1) (f64_of_int 1000) 1 7 f64_one) ns"
    "sum_list ns = 1000"
    using partial_chunks_partition [OF constant_rand_unit q, of 1 1 7 f64_one] by auto
  ultimately show ?thesis by (intro exI [of _ ns]) (auto dest: list_all2_lengthD)
qed

end
