(* ===== verification/Sim_Orders_Fills.thy ===== *)
theory Sim_Orders_Fills imports Sim_Orders Sim_Fill_Props begin

text \<open>
  What one fill does: an injected reordering is a permutation, the statuses and quantities the steps
  leave, and which shares the executions report.
\<close>

section \<open>Injected orders are permutations\<close>

lemma slots_length: "length (foldl (\<lambda>slots (src, item). slots[p ! src := Some item]) slots xs) = length slots"
  by (induction xs arbitrary: slots) (auto split: prod.splits)

lemma slots_filled:
  assumes "distinct perm" "\<forall>i \<in> set perm. i < length slots"
  shows "length xs \<le> length perm \<Longrightarrow> i < length xs \<Longrightarrow>
    foldl (\<lambda>slots (src, item). slots[perm ! src := Some item]) slots (enumerate 0 xs) ! (perm ! i) = Some (xs ! i)"
proof (induction xs arbitrary: i rule: rev_induct)
  case (snoc x xs)
  let ?f = "\<lambda>slots (src, item). slots[perm ! src := Some item]"
  have e: "foldl ?f slots (enumerate 0 (xs @ [x]))
      = (foldl ?f slots (enumerate 0 xs))[perm ! length xs := Some x]"
    by (simp add: enumerate_append_eq)
  have n: "length xs < length perm" using snoc.prems by simp
  then have l: "perm ! length xs < length (foldl ?f slots (enumerate 0 xs))"
    using assms(2) by (simp add: slots_length)
  show ?case
  proof (cases "i = length xs")
    case True
    with e l show ?thesis by simp
  next
    case False
    then have i: "i < length xs" using snoc.prems by simp
    with n assms(1) have "perm ! length xs \<noteq> perm ! i" by (simp add: nth_eq_iff_index_eq)
    with e i snoc show ?thesis by (simp add: nth_append)
  qed
qed simp

lemma reorder_by_mset: "mset (reorder_by perm xs) = mset xs"
proof -
  let ?n = "length xs"
  let ?slots = "foldl (\<lambda>slots (src, item). slots[perm ! src := Some item]) (replicate ?n None) (enumerate 0 xs)"
  show ?thesis
  proof (cases "length perm = ?n \<and> (\<forall>i \<in> set perm. i < ?n) \<and> distinct perm")
    case True
    have filled: "?slots ! (perm ! i) = Some (xs ! i)" if "i < ?n" for i
      using slots_filled [of perm "replicate ?n None" xs i] True that by simp
    have "set perm = {0 ..< ?n}"
      using True by (intro card_subset_eq) (auto simp: distinct_card subset_iff)
    then have p: "mset perm = mset [0 ..< ?n]"
      using True set_eq_iff_mset_eq_distinct [of perm "[0 ..< ?n]"] by simp
    have l: "length ?slots = ?n" by (simp add: slots_length)
    have "mset (map the ?slots) = image_mset (\<lambda>d. the (?slots ! d)) (mset [0 ..< ?n])"
    proof -
      have "map the ?slots = map (\<lambda>d. the (?slots ! d)) [0 ..< ?n]"
        by (intro nth_equalityI) (simp_all add: l)
      then show ?thesis by (simp only: mset_map)
    qed
    also have "\<dots> = mset (map (\<lambda>d. the (?slots ! d)) perm)" by (simp only: mset_map p)
    also have "map (\<lambda>d. the (?slots ! d)) perm = xs"
      using True filled by (intro nth_equalityI) auto
    finally have "mset (map the ?slots) = mset xs" .
    moreover have "reorder_by perm xs = map the ?slots" using True by (simp add: reorder_by_def)
    ultimately show ?thesis by simp
  qed (simp only: reorder_by_def Let_def if_False)
qed

section \<open>What the steps of a fill do to the order\<close>

lemma execute_shares_frame [simp]:
  "or_status (execute_shares q px w) = or_status w" "or_kind (execute_shares q px w) = or_kind w"
  "or_order_id (execute_shares q px w) = or_order_id w" "or_contract (execute_shares q px w) = or_contract w"
  "or_side (execute_shares q px w) = or_side w"
  by (simp_all add: execute_shares_def Let_def)

lemma fill_step_frame:
  "or_kind (fp_working (fill_step oid fill chunks d st p)) = or_kind (fp_working p)
   \<and> or_order_id (fp_working (fill_step oid fill chunks d st p)) = or_order_id (fp_working p)
   \<and> or_contract (fp_working (fill_step oid fill chunks d st p)) = or_contract (fp_working p)"
  by (cases st; cases "snd st") (auto simp: materialize_def Let_def split: option.splits)

lemma fill_steps_frame:
  "or_kind (fp_working (fold (fill_step oid fill chunks d) sts p)) = or_kind (fp_working p)
   \<and> or_order_id (fp_working (fold (fill_step oid fill chunks d) sts p)) = or_order_id (fp_working p)
   \<and> or_contract (fp_working (fold (fill_step oid fill chunks d) sts p)) = or_contract (fp_working p)"
  by (induction sts arbitrary: p) (simp_all add: fill_step_frame)

lemma timed_steps_kinds: "map snd (timed_steps R b oid pattern) = map snd (steps_for pattern)"
  by (cases pattern) (simp_all add: timed_steps_def)

text \<open>The transition of a fill that the table allows; otherwise the status stays.\<close>

definition status_after_fill :: "SimOrderKind \<Rightarrow> OrderStatusCode \<Rightarrow> OrderStatusCode" where
  "status_after_fill kind st = (if transition_allowed kind st StFilled then StFilled else st)"

fun step_status :: "SimOrderKind \<Rightarrow> StepKind \<Rightarrow> OrderStatusCode \<Rightarrow> OrderStatusCode" where
  "step_status kind (OrderStatusPartiallyFilled _) st
     = (if transition_allowed kind st StPartiallyFilled then StPartiallyFilled else st)"
| "step_status kind OrderStatusFilled st = status_after_fill kind st"
| "step_status kind _ st = st"

lemma fill_step_status:
  "or_status (fp_working (fill_step oid fill chunks d st p))
     = step_status (or_kind (fp_working p)) (snd st) (or_status (fp_working p))"
  by (cases st; cases "snd st")
    (auto simp: materialize_def Let_def order_transition_def status_after_fill_def split: option.splits)

lemma fill_steps_status:
  "or_status (fp_working (fold (fill_step oid fill chunks d) sts p))
     = fold (step_status (or_kind (fp_working p))) (map snd sts) (or_status (fp_working p))"
  by (induction sts arbitrary: p) (simp_all add: fill_step_status fill_step_frame)

lemma run_steps_status:
  "or_status (fp_working (run_steps R oid fill pattern chunks rec s)) = status_after_fill (or_kind rec) (or_status rec)"
proof -
  have "or_status (fp_working (run_steps R oid fill pattern chunks rec s))
      = fold (step_status (or_kind rec)) (map snd (steps_for pattern)) (or_status rec)"
    unfolding run_steps_def fill_steps_status by (simp add: timed_steps_kinds)
  also have "\<dots> = status_after_fill (or_kind rec) (or_status rec)"
    by (cases pattern) (auto simp: status_after_fill_def fillable_from partially_fillable_from)
  finally show ?thesis .
qed

lemma run_steps_order_id: "or_order_id (fp_working (run_steps R oid fill pattern chunks rec s)) = or_order_id rec"
  by (simp add: run_steps_def fill_steps_frame)

lemma run_steps_kind: "or_kind (fp_working (run_steps R oid fill pattern chunks rec s)) = or_kind rec"
  by (simp add: run_steps_def fill_steps_frame)

lemma run_steps_contract: "or_contract (fp_working (run_steps R oid fill pattern chunks rec s)) = or_contract rec"
  by (simp add: run_steps_def fill_steps_frame)

lemma run_steps_remaining_A: "pattern \<noteq> PatternA \<Longrightarrow>
  or_remaining_qty (fp_working (run_steps R oid fill pattern chunks rec s)) = f64_zero"
  by (cases pattern) (simp_all add: run_steps_def timed_steps_def Let_def materialize_def split: option.splits)

section \<open>What a fill reports\<close>

fun execution_shares :: "OrderEmission \<Rightarrow> f64 option" where
  "execution_shares (EExecution x) = Some (ex_shares x)"
| "execution_shares _ = None"

definition executions_of :: "OrderEmission list \<Rightarrow> f64 list" where
  "executions_of es = List.map_filter execution_shares es"

lemma executions_of_simps [simp]:
  "executions_of [] = []" "executions_of (es @ fs) = executions_of es @ executions_of fs"
  "executions_of (e # es) = (case execution_shares e of Some x \<Rightarrow> x # executions_of es | None \<Rightarrow> executions_of es)"
  by (simp_all add: executions_of_def map_filter_simps List.map_filter_def split: option.splits)

lemma executions_of_mset: "mset es = mset fs \<Longrightarrow> mset (executions_of es) = mset (executions_of fs)"
proof -
  assume "mset es = mset fs"
  then have "filter_mset (\<lambda>e. execution_shares e \<noteq> None) (mset es)
      = filter_mset (\<lambda>e. execution_shares e \<noteq> None) (mset fs)" by simp
  then show ?thesis
    by (simp add: executions_of_def List.map_filter_def o_def mset_filter)
qed

lemma no_executions:
  "execution_shares (emit_order_status ord st) = None" "execution_shares (emit_open_order ord st) = None"
  "execution_shares (emit_commission i q) = None" "execution_shares (child_status p c) = None"
  "execution_shares (oca_cancelled p sid c) = None"
  by (simp_all add: emit_order_status_def emit_open_order_def emit_commission_def child_status_def oca_cancelled_def)

lemma executions_of_duplicate [simp]: "executions_of (fst (duplicate_first_status es)) = executions_of es"
  by (induction es) (auto simp: is_order_status_def split: OrderEmission.splits prod.splits option.splits)

lemma executions_of_chunks [simp]: "executions_of (fst (apply_chunks key c side px cs a)) = []"
  by (induction cs arbitrary: a) (simp_all add: split_beta)

lemma executions_of_statuses: "\<forall>e \<in> set es. execution_shares e = None \<Longrightarrow> executions_of es = []"
  by (induction es) auto

lemma activate_child_no_exec:
  "\<forall>e \<in> snd ` set (fst acc). execution_shares e = None \<Longrightarrow>
     \<forall>e \<in> snd ` set (fst (activate_child R p c acc)). execution_shares e = None"
  by (auto simp: activate_child_def no_executions Let_def split: prod.splits option.splits)

lemma activate_children_no_exec [simp]: "executions_of (fst (activate_children R oid s)) = []"
proof -
  have "\<forall>e \<in> snd ` set (fst (fold (activate_child R oid) cs acc)). execution_shares e = None"
    if "\<forall>e \<in> snd ` set (fst acc). execution_shares e = None" for cs acc
    using that
  proof (induction cs arbitrary: acc)
    case (Cons c cs)
    from Cons.IH [OF activate_child_no_exec [OF Cons.prems]] show ?case by simp
  qed simp
  from this [of "([], s)"] show ?thesis
    by (auto simp: activate_children_def intro!: executions_of_statuses split: option.splits prod.splits)
      (metis fst_conv image_eqI snd_conv)
qed

lemma cancel_sibling_no_exec [simp]: "executions_of (fst (cancel_sibling oid s)) = []"
  by (auto simp: cancel_sibling_def Let_def no_executions split: option.splits prod.splits bool.splits)

text \<open>The shares of the execution reports: with pattern C those of the first two chunks only.\<close>

definition reported_shares :: "PatternKind \<Rightarrow> f64 list \<Rightarrow> f64 list" where
  "reported_shares pattern chunks =
     (if pattern = PatternC then [chunk_at chunks 0, chunk_at chunks 1] else [chunk_at chunks 0])"

lemma run_steps_executions:
  "executions_of (map snd (fp_materialized (run_steps R oid fill pattern chunks rec s))) = reported_shares pattern chunks"
  by (cases pattern)
    (simp_all add: run_steps_def timed_steps_def Let_def materialize_def no_executions emit_execution_def
      reported_shares_def split: option.splits)

abbreviation "pattern_of R s oid rec \<equiv>
  select_pattern R (bs_base_seed s) oid (or_kind rec) (or_total_qty rec) (bs_partial_threshold s)"

lemma finalize_fill_executions:
  assumes "bt_get (bs_orders s) oid = Some rec"
  shows "mset (executions_of (fst (finalize_fill R oid fill s)))
    = mset (reported_shares (pattern_of R s oid rec)
        (fill_chunks R (bs_base_seed s) oid (pattern_of R s oid rec) (fl_shares fill)))"
proof -
  let ?p = "pattern_of R s oid rec"
  let ?m = "fp_materialized (run_steps R oid fill ?p (fill_chunks R (bs_base_seed s) oid ?p (fl_shares fill)) rec s)"
  have "mset (executions_of (map snd (case bt_get (bs_out_of_order s) oid of
      Some perm \<Rightarrow> reorder_by perm (sort_key fst ?m) | None \<Rightarrow> sort_key fst ?m)))
    = mset (executions_of (map snd ?m))"
    by (intro executions_of_mset) (simp add: reorder_by_mset split: option.splits)
  then show ?thesis
    using assms by (simp add: finalize_fill_def Let_def split_beta run_steps_executions)
qed

definition order_example :: "SimOrderKind \<Rightarrow> f64 option \<Rightarrow> PlaceOrderReq" where
  "order_example kind aux =
    \<lparr> po_order_id = 10, po_contract = Stock_spec ''AAPL'' ''SMART'' ''USD'', po_side = SideBuy,
      po_total_quantity = f64_of_int 100, po_kind = kind, po_limit_price = None, po_aux_price = aux,
      po_tif = ''DAY'', po_account = ''U1'', po_parent_id = None, po_oca_group = None, po_transmit = True \<rparr>"

section \<open>What a fill reports and what it books\<close>

lemma activate_child_account: "bs_account (snd (activate_child R p c acc)) = bs_account (snd acc)"
  by (auto simp: activate_child_def Let_def split: prod.splits option.splits)

lemma activate_fold_account: "bs_account (snd (fold (activate_child R p) cs acc)) = bs_account (snd acc)"
  by (induction cs arbitrary: acc) (simp_all add: activate_child_account)

lemma brackets_keep_account:
  "bs_account (snd (cancel_sibling oid (snd (activate_children R oid s)))) = bs_account s"
proof -
  have "bs_account (snd (cancel_sibling oid s1)) = bs_account s1" for s1
    by (auto simp: cancel_sibling_def Let_def split: option.splits prod.splits bool.splits)
  moreover have "bs_account (snd (activate_children R oid s)) = bs_account s"
    using activate_fold_account [of R oid _ "([], s)"]
    by (auto simp: activate_children_def split: option.splits prod.splits) (metis snd_conv)
  ultimately show ?thesis by simp
qed

text \<open>
  C34: the execution reports of a large fill lose shares. A fill with pattern A or B is reported by one
  execution with all its shares; with pattern C by two, those of the first two chunks. The
  account books every chunk, and there can be up to four. No injected reordering changes this.
\<close>

theorem fill_reports_two_chunks_and_books_all:
  fixes R :: "'g rand_crate" and fill :: Fill
  assumes "bt_get (bs_orders s) oid = Some rec"
  defines "pattern \<equiv> select_pattern R (bs_base_seed s) oid (or_kind rec) (or_total_qty rec) (bs_partial_threshold s)"
  defines "chunks \<equiv> fill_chunks R (bs_base_seed s) oid pattern (fl_shares fill)"
  shows "mset (executions_of (fst (finalize_fill R oid fill s)))
      = (if pattern = PatternC then {# chunk_at chunks 0, chunk_at chunks 1 #} else {# fl_shares fill #})
    \<and> bs_account (snd (finalize_fill R oid fill s))
      = snd (apply_chunks (symbol_key_for (or_contract rec)) (or_contract rec) (or_side rec) (fl_price fill)
          chunks (bs_account s))"
proof -
  have "pattern \<noteq> PatternC \<Longrightarrow> chunks = [fl_shares fill]" by (simp add: chunks_def fill_chunks_def)
  moreover have "mset (executions_of (fst (finalize_fill R oid fill s))) = mset (reported_shares pattern chunks)"
    using finalize_fill_executions [OF assms(1), of R fill] by (simp add: pattern_def chunks_def)
  ultimately have "mset (executions_of (fst (finalize_fill R oid fill s)))
      = (if pattern = PatternC then {# chunk_at chunks 0, chunk_at chunks 1 #} else {# fl_shares fill #})"
    by (simp add: reported_shares_def chunk_at_def)
  moreover have "bs_account (snd (finalize_fill R oid fill s))
      = snd (apply_chunks (symbol_key_for (or_contract rec)) (or_contract rec) (or_side rec) (fl_price fill)
          chunks (bs_account s))"
    using assms(1) by (simp add: finalize_fill_def Let_def split_beta brackets_keep_account pattern_def chunks_def)
  ultimately show ?thesis by blast
qed

definition large_fill :: Fill where
  "large_fill = \<lparr> fl_order_id = 10, fl_price = f64_of_int 150, fl_shares = f64_of_int 2000, fl_ts = 0, fl_side = SideBuy \<rparr>"

lemma large_fill_chunks:
  "fill_chunks (constant_rand 1) 1 10 PatternC (f64_of_int 2000) = [f64_of_int 400, f64_of_int 300, f64_of_int 1300]"
  by code_simp

text \<open>Of 2000 shares that the account books, the execution reports mention 700.\<close>

theorem fill_reports_two_chunks_and_books_all_witness:
  "\<exists>s. mset (executions_of (fst (finalize_fill (constant_rand 1) 10 large_fill s))) = {# f64_of_int 400, f64_of_int 300 #}"
proof -
  let ?rec = "from_place_req ((order_example MarketOrder None)\<lparr> po_total_quantity := f64_of_int 2000 \<rparr>) 0"
  let ?s = "(with_seed 1)\<lparr> bs_orders := [(10, ?rec)] \<rparr>"
  have g: "bt_get (bs_orders ?s) 10 = Some ?rec" by simp
  have "f64_lt (f64_of_int 1000) (f64_of_int 2000)" by code_simp
  then have "select_pattern (constant_rand 1) (bs_base_seed ?s) 10 (or_kind ?rec) (or_total_qty ?rec)
      (bs_partial_threshold ?s) = PatternC"
    by (simp add: select_pattern_def constant_rand_def with_seed_def from_place_req_def order_example_def)
  with fill_reports_two_chunks_and_books_all [OF g, of "constant_rand 1" large_fill] large_fill_chunks
  show ?thesis by (intro exI [of _ ?s]) (simp add: large_fill_def with_seed_def chunk_at_def)
qed

section \<open>The status that precedes its execution\<close>

lemma set_duplicate: "set (fst (duplicate_first_status es)) = set es"
  by (induction es) (auto split: prod.splits)

lemma finalize_fill_emits:
  assumes "bt_get (bs_orders s) oid = Some rec"
    and "e \<in> snd ` set (fp_materialized (run_steps R oid fill (pattern_of R s oid rec)
      (fill_chunks R (bs_base_seed s) oid (pattern_of R s oid rec) (fl_shares fill)) rec s))"
  shows "e \<in> set (fst (finalize_fill R oid fill s))"
proof -
  have "set (reorder_by perm xs) = set xs" for perm and xs :: "(Duration \<times> OrderEmission) list"
    by (rule mset_eq_setD) (rule reorder_by_mset)
  then show ?thesis
    using assms by (auto simp: finalize_fill_def Let_def split_beta set_duplicate split: option.splits)
qed

text \<open>
  With pattern A the final status is emitted before the execution is booked: it says filled and
  reports the quantity and the average price from before the fill.
\<close>

lemma pattern_a_status_reports_no_fill:
  assumes "bt_get (bs_orders s) oid = Some rec" "pattern_of R s oid rec = PatternA"
  shows "\<exists>m. EOrderStatus m \<in> set (fst (finalize_fill R oid fill s)) \<and> om_status m = StFilled
    \<and> om_filled m = or_filled_qty rec \<and> om_avg_fill_price m = or_avg_fill_price rec"
proof -
  let ?w = "(snd (order_transition StFilled rec))\<lparr> or_remaining_qty := f64_zero \<rparr>"
  have "emit_order_status ?w StFilled \<in> snd ` set (fp_materialized (run_steps R oid fill PatternA chunks rec s))" for chunks
    by (auto simp: run_steps_def timed_steps_def Let_def materialize_def split: option.splits)
  then have "emit_order_status ?w StFilled \<in> set (fst (finalize_fill R oid fill s))"
    by (intro finalize_fill_emits [OF assms(1)]) (simp add: assms(2))
  then show ?thesis by (auto simp: emit_order_status_def order_transition_def)
qed

end
