(* ===== verification/Sim_Orders_Props.thy ===== *)
theory Sim_Orders_Props imports Sim_Orders_Fills Session_Table begin

text \<open>
  The order simulator over whole runs: its invariant, that terminal orders are final, which orders
  a fill closes, and that a filled bracket child cancels its sibling.
\<close>

section \<open>The invariant\<close>

definition sim_ok :: "BasicOrderSimulator \<Rightarrow> bool" where
  "sim_ok s \<longleftrightarrow> bt_sorted (bs_orders s) \<and> bt_sorted (bs_brackets s) \<and> bt_sorted (bs_child_to_parent s)
     \<and> bt_sorted (bs_seen s)
     \<and> (\<forall>k ord. bt_get (bs_orders s) k = Some ord \<longrightarrow> or_order_id ord = k \<and> bt_get (bs_seen s) k \<noteq> None)"

text \<open>A terminal order, with its record.\<close>

definition holds_terminal :: "OrderId \<Rightarrow> OrderRecord \<Rightarrow> BasicOrderSimulator \<Rightarrow> bool" where
  "holds_terminal k ord s \<longleftrightarrow> bt_get (bs_orders s) k = Some ord \<and> status_is_terminal (or_status ord)"

definition safe :: "OrderId \<Rightarrow> OrderRecord \<Rightarrow> BasicOrderSimulator \<Rightarrow> BasicOrderSimulator \<Rightarrow> bool" where
  "safe k ord s s' \<longleftrightarrow> (sim_ok s \<longrightarrow> sim_ok s' \<and> (holds_terminal k ord s \<longrightarrow> holds_terminal k ord s'))"

lemma safe_refl: "safe k ord s s"
  by (simp add: safe_def)

lemma safe_trans: "safe k ord s s' \<Longrightarrow> safe k ord s' s'' \<Longrightarrow> safe k ord s s''"
  by (simp add: safe_def)

text \<open>Writing back an order that was there.\<close>

lemma safe_update:
  assumes "bt_get (bs_orders s) i = Some ord'" "or_order_id ord'' = or_order_id ord'"
    "i \<noteq> k \<or> (status_is_terminal (or_status ord') \<longrightarrow> ord'' = ord')"
  shows "safe k ord s (s\<lparr> bs_orders := bt_insert i ord'' (bs_orders s) \<rparr>)"
  using assms by (auto simp: safe_def sim_ok_def holds_terminal_def bt_sorted_insert bt_get_insert)

lemma safe_transition:
  "bt_get (bs_orders s) i = Some ord' \<Longrightarrow>
     safe k ord s (s\<lparr> bs_orders := bt_insert i (snd (order_transition t ord')) (bs_orders s) \<rparr>)"
  by (rule safe_update) (auto simp: order_transition_terminal)

text \<open>Fields the invariant does not look at.\<close>

lemma safe_fields:
  "bs_orders s' = bs_orders s \<Longrightarrow> bs_seen s' = bs_seen s \<Longrightarrow> bt_sorted (bs_child_to_parent s) \<longrightarrow> bt_sorted (bs_child_to_parent s')
    \<Longrightarrow> bt_sorted (bs_brackets s) \<longrightarrow> bt_sorted (bs_brackets s') \<Longrightarrow> safe k ord s s'"
  by (auto simp: safe_def sim_ok_def holds_terminal_def)

lemma activate_child_safe: "safe k ord (snd acc) (snd (activate_child R p c acc))"
  by (auto simp: activate_child_def safe_refl safe_transition Let_def split: prod.splits option.splits)

lemma activate_fold_safe: "safe k ord (snd acc) (snd (fold (activate_child R p) cs acc))"
proof (induction cs arbitrary: acc)
  case (Cons c cs)
  show ?case using safe_trans [OF activate_child_safe Cons.IH] by simp
qed (simp add: safe_refl)

lemma activate_children_safe: "safe k ord s (snd (activate_children R oid s))"
proof (cases "bt_get (bs_brackets s) oid")
  case (Some grp)
  obtain as s1 where f: "fold (activate_child R oid) (option_list [bg_take_profit grp, bg_stop_loss grp]) ([], s) = (as, s1)"
    by (cases "fold (activate_child R oid) (option_list [bg_take_profit grp, bg_stop_loss grp]) ([], s)")
  have 1: "safe k ord s s1"
    using activate_fold_safe [of k ord "([], s)" R oid "option_list [bg_take_profit grp, bg_stop_loss grp]"] f by simp
  have "safe k ord s1 (s1\<lparr> bs_brackets := bt_insert oid (grp\<lparr> bg_state := ParentFilled \<rparr>) (bs_brackets s1) \<rparr>)"
    by (rule safe_fields) (simp_all add: bt_sorted_insert)
  with 1 Some f show ?thesis by (auto simp: activate_children_def safe_refl intro: safe_trans)
qed (simp add: activate_children_def safe_refl)

lemma cancel_sibling_safe: "safe k ord s (snd (cancel_sibling oid s))"
proof -
  have sib: "safe k ord s1 (s1\<lparr> bs_brackets := bt_insert p g (bs_brackets s1) \<rparr>)" for s1 p g
    by (rule safe_fields) (simp_all add: bt_sorted_insert)
  have "safe k ord s (snd (case bt_get (bs_orders s) sid of None \<Rightarrow> ([], s)
      | Some sib \<Rightarrow> (case order_transition StCancelled sib of
          (True, sib) \<Rightarrow> ([oca_cancelled p sid sib], s\<lparr> bs_orders := bt_insert sid sib (bs_orders s) \<rparr>)
        | (False, _) \<Rightarrow> ([], s))))" for p sid
    using safe_transition [of s sid _ k ord StCancelled]
    by (auto simp: safe_refl split: option.splits prod.splits bool.splits)
  from safe_trans [OF this sib] show ?thesis
    by (auto simp: cancel_sibling_def Let_def split_beta safe_refl split: option.splits)
qed

text \<open>A fill of another order leaves a terminal order alone.\<close>

lemma finalize_fill_safe:
  assumes "oid \<noteq> k"
  shows "safe k ord s (snd (finalize_fill R oid fill s))"
proof (cases "bt_get (bs_orders s) oid")
  case (Some rec)
  define w where "w = fp_working (run_steps R oid fill (pattern_of R s oid rec)
    (fill_chunks R (bs_base_seed s) oid (pattern_of R s oid rec) (fl_shares fill)) rec s)"
  have id: "or_order_id w = or_order_id rec" by (simp add: w_def run_steps_order_id)
  have 1: "safe k ord s s1" if "bs_orders s1 = bt_insert oid w (bs_orders s)" "bs_seen s1 = bs_seen s"
    "bs_child_to_parent s1 = bs_child_to_parent s" "bs_brackets s1 = bs_brackets s" for s1
    using safe_trans [OF safe_update [OF Some id, of k ord] safe_fields [of s1]] that assms by simp
  show ?thesis
    using Some by (auto simp: finalize_fill_def Let_def split_beta
        intro!: safe_trans [OF 1 safe_trans [OF activate_children_safe cancel_sibling_safe]] simp: w_def)
qed (simp add: finalize_fill_def safe_refl)

lemma trigger_stop_frame:
  "or_order_id (snd (trigger_stop ord m)) = or_order_id ord \<and> or_status (snd (trigger_stop ord m)) = or_status ord
   \<and> or_kind (snd (trigger_stop ord m)) = or_kind ord \<and> or_contract (snd (trigger_stop ord m)) = or_contract ord
   \<and> or_filled_qty (snd (trigger_stop ord m)) = or_filled_qty ord
   \<and> or_total_qty (snd (trigger_stop ord m)) = or_total_qty ord
   \<and> or_remaining_qty (snd (trigger_stop ord m)) = or_remaining_qty ord"
  by (auto simp: trigger_stop_def split: option.split)

lemma maybe_fill_frame:
  assumes "maybe_fill ord mid bid ask now sl = (f, ord')"
  shows "or_order_id ord' = or_order_id ord" "or_status ord' = or_status ord" "or_kind ord' = or_kind ord"
    "or_contract ord' = or_contract ord" "or_filled_qty ord' = or_filled_qty ord"
    "or_total_qty ord' = or_total_qty ord" "or_remaining_qty ord' = or_remaining_qty ord"
    "f = Some fl \<Longrightarrow> fl_shares fl = or_remaining_qty ord"
proof -
  have fp: "or_order_id (snd (fill_price ord mid bid ask)) = or_order_id ord
    \<and> or_status (snd (fill_price ord mid bid ask)) = or_status ord
    \<and> or_kind (snd (fill_price ord mid bid ask)) = or_kind ord
    \<and> or_contract (snd (fill_price ord mid bid ask)) = or_contract ord
    \<and> or_filled_qty (snd (fill_price ord mid bid ask)) = or_filled_qty ord
    \<and> or_total_qty (snd (fill_price ord mid bid ask)) = or_total_qty ord
    \<and> or_remaining_qty (snd (fill_price ord mid bid ask)) = or_remaining_qty ord"
    using trigger_stop_frame [of ord mid]
    by (cases "or_kind ord") (auto simp: fill_price_def split: prod.split)
  obtain p o1 where p: "fill_price ord mid bid ask = (p, o1)" by (cases "fill_price ord mid bid ask")
  with assms have o1: "ord' = o1" "p = None \<longrightarrow> f = None"
      "f = Some fl \<longrightarrow> fl_shares fl = or_remaining_qty o1"
    by (auto simp: maybe_fill_def Let_def split: option.splits)
  show "or_order_id ord' = or_order_id ord" "or_status ord' = or_status ord" "or_kind ord' = or_kind ord"
    "or_contract ord' = or_contract ord" "or_filled_qty ord' = or_filled_qty ord"
    "or_total_qty ord' = or_total_qty ord" "or_remaining_qty ord' = or_remaining_qty ord"
    using fp p o1 by simp_all
  show "f = Some fl \<Longrightarrow> fl_shares fl = or_remaining_qty ord" using fp p o1 by simp
qed

lemma snapshot_order_safe:
  assumes "oid \<noteq> k"
  shows "safe k ord s (snd (snapshot_order R snap oid s))"
proof (cases "bt_get (bs_orders s) oid")
  case (Some rec)
  obtain f rec' where m: "maybe_fill rec (sn_mid snap) (sn_bid snap) (sn_ask snap) (sn_ts snap) (bs_slippage s) = (f, rec')"
    by (cases "maybe_fill rec (sn_mid snap) (sn_bid snap) (sn_ask snap) (sn_ts snap) (bs_slippage s)")
  have "safe k ord s (s\<lparr> bs_orders := bt_insert oid rec' (bs_orders s) \<rparr>)"
    by (rule safe_update [OF Some maybe_fill_frame(1) [OF m]]) (use assms in simp)
  from safe_trans [OF this finalize_fill_safe [OF assms]] this show ?thesis
    using Some m by (auto simp: snapshot_order_def Let_def split: option.split)
qed (simp add: snapshot_order_def safe_refl)

lemma snapshot_loop_safe: "k \<notin> set oids \<Longrightarrow> safe k ord s (snd (snapshot_loop R snap oids s))"
proof (induction oids arbitrary: s)
  case (Cons oid oids)
  then have "safe k ord s (snd (snapshot_order R snap oid s))" by (intro snapshot_order_safe) simp
  from safe_trans [OF this Cons.IH] Cons.prems show ?case by (simp add: split_beta)
qed (simp add: safe_refl)

lemma terminal_no_candidate:
  "sim_ok s \<Longrightarrow> holds_terminal k ord s \<Longrightarrow> k \<notin> set (candidate_ids snap s)"
proof
  assume ok: "sim_ok s" and t: "holds_terminal k ord s" and c: "k \<in> set (candidate_ids snap s)"
  then obtain ord' where "(k, ord') \<in> set (bs_orders s)" and act: "is_active (or_status ord')"
    by (auto simp: candidate_ids_def)
  then have "bt_get (bs_orders s) k = Some ord'" using ok by (simp add: sim_ok_def bt_get_member)
  with t act show False
    by (auto simp: holds_terminal_def is_active_def status_is_terminal_def)
qed

lemma on_market_snapshot_safe: "safe k ord s (snd (on_market_snapshot R snap s))"
proof -
  define s0 where "s0 = s\<lparr> bs_last_snapshot := bt_insert (symbol_ord (sn_symbol snap)) snap (bs_last_snapshot s) \<rparr>"
  have s0: "safe j ord s s0" for j by (rule safe_fields) (simp_all add: s0_def)
  have out: "snd (on_market_snapshot R snap s) = snd (snapshot_loop R snap (candidate_ids snap s0) s0)"
    by (simp add: on_market_snapshot_def s0_def Let_def)
  show ?thesis
  proof (cases "k \<in> set (candidate_ids snap s0)")
    case False
    from safe_trans [OF s0 snapshot_loop_safe [OF False]] show ?thesis by (simp only: out)
  next
    case True
    obtain j where j: "j \<notin> set (candidate_ids snap s0)"
      using ex_new_if_finite [OF infinite_UNIV_int, of "set (candidate_ids snap s0)"] by auto
    from safe_trans [OF s0 snapshot_loop_safe [OF j, of ord s0 R snap]]
    have "sim_ok s \<longrightarrow> sim_ok (snd (on_market_snapshot R snap s))" by (simp add: safe_def out)
    moreover have "\<not> (sim_ok s \<and> holds_terminal k ord s)"
      using terminal_no_candidate [of s0 k ord snap] s0 True by (auto simp: safe_def)
    ultimately show ?thesis by (auto simp: safe_def)
  qed
qed

section \<open>The other operations\<close>

lemma place_reject_fresh: "place_reject req s = None \<Longrightarrow> bt_get (bs_seen s) (po_order_id req) = None"
  by (rule ccontr) (simp add: place_reject_def)

text \<open>A new order takes an id that no order has.\<close>

lemma safe_new:
  assumes "bt_get (bs_seen s) (or_order_id rec) = None"
    and "bs_orders s' = bt_insert (or_order_id rec) rec (bs_orders s)"
    and "bs_seen s' = bt_insert (or_order_id rec) () (bs_seen s)"
    and "bt_sorted (bs_child_to_parent s) \<longrightarrow> bt_sorted (bs_child_to_parent s')"
    and "bt_sorted (bs_brackets s) \<longrightarrow> bt_sorted (bs_brackets s')"
  shows "safe k ord s s'"
proof -
  have "holds_terminal k ord s \<Longrightarrow> sim_ok s \<Longrightarrow> k \<noteq> or_order_id rec"
    using assms(1) by (auto simp: holds_terminal_def sim_ok_def)
  with assms(2-) show ?thesis
    by (auto simp: safe_def sim_ok_def holds_terminal_def bt_sorted_insert bt_get_insert)
qed

lemma place_child_effect:
  "snd (place_child req p rec s) = s\<lparr> bs_child_to_parent := bt_insert (or_order_id rec) p (bs_child_to_parent s),
     bs_brackets := bt_insert p (add_child (po_kind req) (or_order_id rec)
       (bt_get_or (bs_brackets s) p (group_new p (po_oca_group req)))) (bs_brackets s),
     bs_orders := bt_insert (or_order_id rec) (rec\<lparr> or_status := StInactive \<rparr>) (bs_orders s) \<rparr>"
  by (simp add: place_child_def Let_def)

lemma place_as_child:
  "place_reject req s = None \<Longrightarrow> po_parent_id req = Some p \<Longrightarrow> snd (place now req s) =
     s\<lparr> bs_seen := bt_insert (po_order_id req) () (bs_seen s),
       bs_child_to_parent := bt_insert (po_order_id req) p (bs_child_to_parent s),
       bs_brackets := bt_insert p (add_child (po_kind req) (po_order_id req)
         (bt_get_or (bs_brackets s) p (group_new p (po_oca_group req)))) (bs_brackets s),
       bs_orders := bt_insert (po_order_id req) ((from_place_req req now)\<lparr> or_status := StInactive \<rparr>) (bs_orders s) \<rparr>"
  by (simp add: place_def Let_def place_child_effect) (simp add: from_place_req_def)

definition working_record :: "OrderRecord \<Rightarrow> OrderRecord" where
  "working_record rec = (let rec = snd (order_transition StPreSubmitted (snd (order_transition StPendingSubmit rec)))
     in if or_kind rec = LimitOrder then snd (order_transition StSubmitted rec) else rec)"

lemma working_record_frame [simp]:
  "or_order_id (working_record rec) = or_order_id rec" "or_kind (working_record rec) = or_kind rec"
  "or_filled_qty (working_record rec) = or_filled_qty rec" "or_total_qty (working_record rec) = or_total_qty rec"
  "or_remaining_qty (working_record rec) = or_remaining_qty rec"
  by (simp_all add: working_record_def Let_def)

lemma place_working_effect:
  "snd (place_working req rec s) =
    (if po_oca_group req \<noteq> None
     then s\<lparr> bs_brackets := bt_insert (or_order_id rec) (bt_get_or (bs_brackets s) (or_order_id rec)
             (group_new (or_order_id rec) (po_oca_group req))) (bs_brackets s) \<rparr> else s)
    \<lparr> bs_orders := bt_insert (or_order_id rec) (working_record rec) (bs_orders s) \<rparr>"
  by (simp add: place_working_def working_record_def Let_def)

lemma place_safe: "safe k ord s (snd (place now req s))"
proof (cases "place_reject req s")
  case None
  let ?s = "s\<lparr> bs_seen := bt_insert (po_order_id req) () (bs_seen s) \<rparr>" and ?rec = "from_place_req req now"
  have id: "or_order_id ?rec = po_order_id req" by (simp add: from_place_req_def)
  note fresh = place_reject_fresh [OF None]
  show ?thesis
  proof (cases "po_parent_id req")
    case (Some p)
    have "snd (place now req s) = snd (place_child req p ?rec ?s)" by (simp add: place_def None Some Let_def)
    then show ?thesis
      unfolding place_child_effect by (intro safe_new [where rec = "?rec\<lparr> or_status := StInactive \<rparr>"])
        (simp_all add: id fresh bt_sorted_insert)
  next
    case p: None
    have "snd (place now req s) = snd (place_working req ?rec ?s)" by (simp add: place_def None p Let_def)
    then show ?thesis
      unfolding place_working_effect by (intro safe_new [where rec = "working_record ?rec"])
        (simp_all add: id fresh bt_sorted_insert)
  qed
next
  case (Some r)
  then show ?thesis by (simp add: place_def safe_refl split: prod.split)
qed

lemma cancel_safe: "safe k ord s (snd (cancel oid s))"
  using safe_transition [of s oid _ k ord StCancelled]
  by (auto simp: cancel_def safe_refl split: option.splits prod.splits bool.splits)

datatype sim_event =
    SPlace VirtualInstant PlaceOrderReq
  | SCancel OrderId
  | SSnapshot MarketSnapshot
  | SDrain VirtualInstant
  | SDelay OrderId Duration
  | SDuplicate
  | SReorder OrderId "nat list"
  | SSlippage SlippageKind
  | SThreshold f64

fun sim_step :: "'g rand_crate \<Rightarrow> sim_event \<Rightarrow> BasicOrderSimulator \<Rightarrow> OrderEmission list \<times> BasicOrderSimulator" where
  "sim_step R (SPlace now req) s = place now req s"
| "sim_step R (SCancel oid) s = cancel oid s"
| "sim_step R (SSnapshot snap) s = on_market_snapshot R snap s"
| "sim_step R (SDrain now) s = drain_due now s"
| "sim_step R (SDelay oid d) s = ([], set_commission_delay oid d s)"
| "sim_step R SDuplicate s = ([], arm_duplicate_order_status s)"
| "sim_step R (SReorder oid perm) s = ([], install_out_of_order_schedule oid perm s)"
| "sim_step R (SSlippage k) s = ([], set_slippage k s)"
| "sim_step R (SThreshold t) s = ([], set_partial_threshold t s)"

lemma sim_step_safe: "safe k ord s (snd (sim_step R ev s))"
proof (cases ev)
  case (SPlace now req) then show ?thesis by (simp add: place_safe)
next
  case (SCancel oid) then show ?thesis by (simp add: cancel_safe)
next
  case (SSnapshot snap) then show ?thesis by (simp add: on_market_snapshot_safe)
qed (auto simp: drain_due_def set_commission_delay_def arm_duplicate_order_status_def
    install_out_of_order_schedule_def set_slippage_def set_partial_threshold_def intro!: safe_fields)

definition run_sim :: "'g rand_crate \<Rightarrow> sim_event list \<Rightarrow> BasicOrderSimulator \<Rightarrow> OrderEmission list list \<times> BasicOrderSimulator" where
  "run_sim R evs s = run_ops (sim_step R) evs s"

lemma run_sim_safe: "safe k ord s (snd (run_sim R evs s))"
proof (induction evs arbitrary: s)
  case (Cons ev evs)
  from safe_trans [OF sim_step_safe [of k ord s R ev] Cons.IH] show ?case
    by (simp add: run_sim_def split_beta)
qed (simp add: run_sim_def safe_refl)

lemma with_seed_ok: "sim_ok (with_seed seed)"
  by (simp add: sim_ok_def with_seed_def bt.invar_empty bt.get_empty)

section \<open>The end of an order\<close>

text \<open>A working order outside of every bracket, as it is before its first fill.\<close>

definition standalone :: "BasicOrderSimulator \<Rightarrow> OrderId \<Rightarrow> OrderRecord \<Rightarrow> bool" where
  "standalone s oid rec \<longleftrightarrow> bt_get (bs_orders s) oid = Some rec
     \<and> bt_get (bs_brackets s) oid = None \<and> bt_get (bs_child_to_parent s) oid = None
     \<and> or_filled_qty rec = f64_zero \<and> or_remaining_qty rec = or_total_qty rec
     \<and> f64_is_finite (or_total_qty rec)"

lemma finalize_fill_standalone:
  assumes "bt_sorted (bs_orders s)" "bt_get (bs_orders s) oid = Some rec"
    "bt_get (bs_brackets s) oid = None" "bt_get (bs_child_to_parent s) oid = None"
  shows "bt_get (bs_orders (snd (finalize_fill R oid fill s))) oid
    = Some (fp_working (run_steps R oid fill (pattern_of R s oid rec)
        (fill_chunks R (bs_base_seed s) oid (pattern_of R s oid rec) (fl_shares fill)) rec s))"
  using assms by (simp add: finalize_fill_def Let_def split_beta activate_children_def cancel_sibling_def
      bt_get_insert)

text \<open>Nothing is left of the order after its fill.\<close>

lemma remaining_zero:
  assumes "or_filled_qty rec = f64_zero" "f64_is_finite (or_total_qty rec)" "chunks = [or_total_qty rec] \<or> pattern = PatternC"
  shows "f64_le (or_remaining_qty (fp_working (run_steps R oid fill pattern chunks rec s))) f64_epsilon"
proof (cases pattern)
  case PatternA
  let ?t = "or_total_qty rec"
  have fin: "f64_is_finite f64_zero" "f64_val f64_zero = 0" using f64_int_consts by (simp_all add: f64_int_def)
  have a: "f64_key (f64_add f64_zero ?t) = f64_key ?t"
    using f64_add_rnd(1) [OF fin(1) assms(2)] f64_rnd_val [OF assms(2)] fin by simp
  then have af: "f64_is_finite (f64_add f64_zero ?t)" "f64_val (f64_add f64_zero ?t) = f64_val ?t"
    using assms(2) by (simp_all add: f64_finite_key f64_val_key)
  have "f64_key (f64_sub ?t (f64_add f64_zero ?t)) = 0" "\<not> f64_is_nan (f64_sub ?t (f64_add f64_zero ?t))"
    using f64_sub_rnd [OF assms(2) af(1)] af by simp_all
  moreover have "f64_le f64_zero f64_epsilon" "f64_key f64_zero = 0" "\<not> f64_is_nan f64_zero" by code_simp+
  ultimately have "f64_le (f64_max (f64_sub ?t (f64_add f64_zero ?t)) f64_zero) f64_epsilon"
    by (auto simp: f64_max_def f64_le_def)
  then show ?thesis
    using PatternA assms by (auto simp: run_steps_def timed_steps_def Let_def materialize_def chunk_at_def
        execute_shares_def order_transition_def split: option.splits)
next
  case PatternB
  have "f64_le f64_zero f64_epsilon" by code_simp
  then show ?thesis using PatternB by (simp add: run_steps_remaining_A)
next
  case PatternC
  have "f64_le f64_zero f64_epsilon" by code_simp
  then show ?thesis using PatternC by (simp add: run_steps_remaining_A)
qed

text \<open>What the snapshot loop does to a standalone order that fills.\<close>

lemma snapshot_order_standalone:
  assumes "sim_ok s" "standalone s oid rec"
    and "fst (maybe_fill rec (sn_mid snap) (sn_bid snap) (sn_ask snap) (sn_ts snap) (bs_slippage s)) \<noteq> None"
  obtains r where "sim_ok (snd (snapshot_order R snap oid s))"
    "bt_get (bs_orders (snd (snapshot_order R snap oid s))) oid = Some r"
    "or_status r = status_after_fill (or_kind rec) (or_status rec)"
    "f64_le (or_remaining_qty r) f64_epsilon" "or_contract r = or_contract rec"
proof -
  note sa = assms(2) [unfolded standalone_def]
  obtain f rec' where m: "maybe_fill rec (sn_mid snap) (sn_bid snap) (sn_ask snap) (sn_ts snap) (bs_slippage s)
      = (Some f, rec')"
    using assms(3) by (cases "maybe_fill rec (sn_mid snap) (sn_bid snap) (sn_ask snap) (sn_ts snap) (bs_slippage s)") auto
  note fr = maybe_fill_frame [OF m]
  let ?s = "s\<lparr> bs_orders := bt_insert oid rec' (bs_orders s) \<rparr>"
  have srt: "bt_sorted (bs_orders s)" using assms(1) by (simp add: sim_ok_def)
  have so: "snapshot_order R snap oid s = finalize_fill R oid f ?s"
    using sa m by (simp add: snapshot_order_def)
  let ?p = "pattern_of R ?s oid rec'"
  let ?c = "fill_chunks R (bs_base_seed ?s) oid ?p (fl_shares f)"
  let ?r = "fp_working (run_steps R oid f ?p ?c rec' ?s)"
  have get: "bt_get (bs_orders (snd (finalize_fill R oid f ?s))) oid = Some ?r"
    by (rule finalize_fill_standalone) (use sa srt in \<open>simp_all add: bt_get_insert bt_sorted_insert\<close>)
  have "?c = [or_total_qty rec'] \<or> ?p = PatternC"
    using fr(6,7) fr(8) [OF refl] sa by (simp add: fill_chunks_def)
  then have rem: "f64_le (or_remaining_qty ?r) f64_epsilon"
    by (intro remaining_zero) (use fr(5,6) sa in simp_all)
  have con: "or_contract ?r = or_contract rec"
    using fr(4) by (simp add: run_steps_contract)
  have ok: "sim_ok (snd (snapshot_order R snap oid s))"
    using snapshot_order_safe [of oid "oid + 1" rec s R snap] assms(1) by (simp add: safe_def)
  show thesis
    by (rule that [of ?r]) (use get so rem con ok fr(2,3) in \<open>simp_all add: run_steps_status\<close>)
qed

text \<open>
  a fill closes a market or limit order. A working order of these kinds outside of every bracket
  that a snapshot fills is filled with nothing left: cancelling it is refused with error 104, and
  no later snapshot considers it.
\<close>

lemma fill_closes_market_and_limit_orders:
  assumes "run_sim R evs (with_seed seed) = (out, s)" and "standalone s oid rec"
    and "or_kind rec \<in> {MarketOrder, LimitOrder}" and "is_active (or_status rec)"
    and "fst (maybe_fill rec (sn_mid snap) (sn_bid snap) (sn_ask snap) (sn_ts snap) (bs_slippage s)) \<noteq> None"
  defines "s' \<equiv> snd (snapshot_order R snap oid s)"
  shows "cancel oid s' = ([EReject oid CANT_MODIFY_FILLED ''Cannot modify a filled order.''], s')
    \<and> (\<forall>snap'. oid \<notin> set (candidate_ids snap' s'))"
proof -
  have ok: "sim_ok s" using run_sim_safe [of oid rec "with_seed seed" R evs] assms(1) with_seed_ok
    by (simp add: safe_def)
  obtain r where r: "sim_ok s'" "bt_get (bs_orders s') oid = Some r"
    "or_status r = status_after_fill (or_kind rec) (or_status rec)" "f64_le (or_remaining_qty r) f64_epsilon"
    unfolding s'_def by (rule snapshot_order_standalone [OF ok assms(2,5)])
  have "or_status r = StFilled"
    using assms(3,4) r(3) by (auto simp: status_after_fill_def fillable_from is_active_def)
  with r have "order_is_filled r" "holds_terminal oid r s'"
    by (simp_all add: order_is_filled_def holds_terminal_def status_is_terminal_def)
  with r terminal_no_candidate [OF r(1)] show ?thesis by (auto simp: cancel_def)
qed

text \<open>
  a fill does not close a stop order. A stop or stop-limit order placed outside of a bracket rests
  as pre-submitted, from where the transition table allows no fill. A snapshot that fills it
  leaves nothing of its quantity and yet its status is unchanged: the order is still listed as open, every
  later snapshot of its symbol considers it again, and cancelling it is accepted.
\<close>

lemma fill_does_not_close_stop_orders:
  assumes "run_sim R evs (with_seed seed) = (out, s)" and "standalone s oid rec"
    and "or_kind rec \<in> {StopOrder, StopLimitOrder}" and "or_status rec = StPreSubmitted"
    and "fst (maybe_fill rec (sn_mid snap) (sn_bid snap) (sn_ask snap) (sn_ts snap) (bs_slippage s)) \<noteq> None"
  defines "s' \<equiv> snd (snapshot_order R snap oid s)"
  shows "\<exists>r. bt_get (bs_orders s') oid = Some r \<and> or_status r = StPreSubmitted
    \<and> f64_le (or_remaining_qty r) f64_epsilon
    \<and> emit_open_order r StPreSubmitted \<in> set (open_orders_snapshot s')
    \<and> (sn_symbol snap' = symbol_key_for (or_contract rec) \<longrightarrow> oid \<in> set (candidate_ids snap' s'))
    \<and> fst (cancel oid s') = [emit_order_status (r\<lparr> or_status := StCancelled \<rparr>) StCancelled]"
proof -
  have ok: "sim_ok s" using run_sim_safe [of oid rec "with_seed seed" R evs] assms(1) with_seed_ok
    by (simp add: safe_def)
  obtain r where r: "sim_ok s'" "bt_get (bs_orders s') oid = Some r"
    "or_status r = status_after_fill (or_kind rec) (or_status rec)" "f64_le (or_remaining_qty r) f64_epsilon"
    "or_contract r = or_contract rec"
    unfolding s'_def by (rule snapshot_order_standalone [OF ok assms(2,5)])
  have st: "or_status r = StPreSubmitted"
    using assms(3,4) r(3) by (auto simp: status_after_fill_def fillable_from)
  have mem: "(oid, r) \<in> set (bs_orders s')" using r(1,2) by (simp add: sim_ok_def bt_get_member)
  have "emit_open_order r StPreSubmitted \<in> set (open_orders_snapshot s')"
    using mem st by (force simp: open_orders_snapshot_def bt_values_def order_is_filled_def order_is_cancelled_def)
  moreover have "oid \<in> set (candidate_ids snap' s')" if "sn_symbol snap' = symbol_key_for (or_contract rec)"
    using mem st r(5) that by (force simp: candidate_ids_def is_active_def)
  moreover have "fst (cancel oid s') = [emit_order_status (r\<lparr> or_status := StCancelled \<rparr>) StCancelled]"
    using r(2) st by (simp add: cancel_def order_is_filled_def order_transition_def transition_allowed_def)
  ultimately show ?thesis using r st by blast
qed

definition snapshot_example :: MarketSnapshot where
  "snapshot_example = \<lparr> sn_symbol = symbol_key_for (Stock_spec ''AAPL'' ''SMART'' ''USD''),
     sn_mid = f64_of_int 150, sn_bid = f64_of_int 149, sn_ask = f64_of_int 151, sn_last = f64_of_int 150,
     sn_volume = None, sn_ts = 0 \<rparr>"

lemma order_example_run:
  assumes "off_tick aux = False" "kind = MarketOrder \<or> kind = StopOrder \<and> aux \<noteq> None"
  shows "\<exists>out s. run_sim R [SPlace 0 (order_example kind aux)] (with_seed 1) = (out, s) \<and>
    bs_slippage s = FixedBps f64_one \<and>
    standalone s 10 (working_record (from_place_req (order_example kind aux) 0))"
proof -
  have fin: "f64_is_finite (f64_of_int 100)" by code_simp
  have "place_reject (order_example kind aux) (with_seed 1) = None"
    using assms by (auto simp: place_reject_def order_example_def with_seed_def bt.get_empty off_tick_def)
  then have "snd (place 0 (order_example kind aux) (with_seed 1))
      = snd (place_working (order_example kind aux) (from_place_req (order_example kind aux) 0)
          ((with_seed 1)\<lparr> bs_seen := bt_insert 10 () (bs_seen (with_seed 1)) \<rparr>))"
    by (simp add: place_def order_example_def Let_def)
  then have s: "snd (place 0 (order_example kind aux) (with_seed 1))
      = ((with_seed 1)\<lparr> bs_seen := bt_insert 10 () (bs_seen (with_seed 1)) \<rparr>)
        \<lparr> bs_orders := bt_insert 10 (working_record (from_place_req (order_example kind aux) 0)) bt_empty \<rparr>"
    unfolding place_working_effect by (simp add: order_example_def from_place_req_def with_seed_def)
  have "bt_get (bs_orders (snd (place 0 (order_example kind aux) (with_seed 1)))) 10
      = Some (working_record (from_place_req (order_example kind aux) 0))"
    unfolding s by (simp add: bt_get_insert bt.invar_empty)
  moreover have "bs_brackets (snd (place 0 (order_example kind aux) (with_seed 1))) = bt_empty"
    "bs_child_to_parent (snd (place 0 (order_example kind aux) (with_seed 1))) = bt_empty"
    "bs_slippage (snd (place 0 (order_example kind aux) (with_seed 1))) = FixedBps f64_one"
    unfolding s by (simp_all add: with_seed_def)
  moreover have "or_filled_qty (working_record (from_place_req (order_example kind aux) 0)) = f64_zero"
    "or_remaining_qty (working_record (from_place_req (order_example kind aux) 0)) = f64_of_int 100"
    "or_total_qty (working_record (from_place_req (order_example kind aux) 0)) = f64_of_int 100"
    by (simp_all add: from_place_req_def order_example_def)
  ultimately have "standalone (snd (place 0 (order_example kind aux) (with_seed 1))) 10
      (working_record (from_place_req (order_example kind aux) 0))"
    using fin by (simp add: standalone_def bt.get_empty)
  moreover have "run_sim R [SPlace 0 (order_example kind aux)] (with_seed 1)
      = ([fst (place 0 (order_example kind aux) (with_seed 1))], snd (place 0 (order_example kind aux) (with_seed 1)))"
    by (simp add: run_sim_def split_beta)
  ultimately show ?thesis using \<open>bs_slippage _ = _\<close> by blast
qed

lemma working_record_market:
  "working_record (from_place_req (order_example MarketOrder aux) 0)
     = (from_place_req (order_example MarketOrder aux) 0)\<lparr> or_status := StPreSubmitted \<rparr>"
  "working_record (from_place_req (order_example StopOrder aux) 0)
     = (from_place_req (order_example StopOrder aux) 0)\<lparr> or_status := StPreSubmitted \<rparr>"
  by (simp_all add: working_record_def from_place_req_def order_example_def order_transition_def
      transition_allowed_def kind_transitions_def)

lemma fill_closes_market_and_limit_orders_witness:
  "\<exists>s. cancel 10 (snd (snapshot_order (constant_rand 99) snapshot_example 10 s))
     = ([EReject 10 CANT_MODIFY_FILLED ''Cannot modify a filled order.''],
        snd (snapshot_order (constant_rand 99) snapshot_example 10 s))"
proof -
  obtain out s where s: "run_sim (constant_rand 99) [SPlace 0 (order_example MarketOrder None)] (with_seed 1) = (out, s)"
    "standalone s 10 ((from_place_req (order_example MarketOrder None) 0)\<lparr> or_status := StPreSubmitted \<rparr>)"
    using order_example_run [where aux = None and kind = MarketOrder and R = "constant_rand 99"] by (auto simp: off_tick_def working_record_market)
  have "fst (maybe_fill ((from_place_req (order_example MarketOrder None) 0)\<lparr> or_status := StPreSubmitted \<rparr>)
      m b a t sl) \<noteq> None" for m b a t sl
    by (simp add: maybe_fill_def fill_price_def from_place_req_def order_example_def Let_def)
  from fill_closes_market_and_limit_orders [OF s _ _ this] show ?thesis
    by (intro exI [of _ s]) (simp add: is_active_def from_place_req_def order_example_def)
qed

lemma fill_does_not_close_stop_orders_witness:
  "\<exists>s r. bt_get (bs_orders (snd (snapshot_order (constant_rand 99) snapshot_example 10 s))) 10 = Some r
     \<and> or_status r = StPreSubmitted \<and> f64_le (or_remaining_qty r) f64_epsilon
     \<and> 10 \<in> set (candidate_ids snapshot_example (snd (snapshot_order (constant_rand 99) snapshot_example 10 s)))"
proof -
  let ?aux = "Some (f64_of_int 145)"
  let ?rec = "(from_place_req (order_example StopOrder ?aux) 0)\<lparr> or_status := StPreSubmitted \<rparr>"
  have tick: "off_tick ?aux = False" by code_simp
  obtain out s where s: "run_sim (constant_rand 99) [SPlace 0 (order_example StopOrder ?aux)] (with_seed 1) = (out, s)"
    "standalone s 10 ?rec"
    using order_example_run [OF tick, where kind = StopOrder and R = "constant_rand 99"] by (auto simp: working_record_market)
  have "f64_le (f64_of_int 145) (f64_of_int 150)" by code_simp
  then have "fst (maybe_fill ?rec (sn_mid snapshot_example) b a t sl) \<noteq> None" for b a t sl
    by (simp add: maybe_fill_def fill_price_def trigger_stop_def from_place_req_def order_example_def
        snapshot_example_def Let_def)
  from fill_does_not_close_stop_orders [OF s _ _ this, of snapshot_example] show ?thesis
    by (intro exI [of _ s]) (auto simp: from_place_req_def order_example_def snapshot_example_def)
qed

section \<open>One cancels all\<close>

text \<open>What activation leaves of an order and of the groups.\<close>

definition kept_live :: "OrderId \<Rightarrow> BasicOrderSimulator \<Rightarrow> BasicOrderSimulator \<Rightarrow> bool" where
  "kept_live i s s' \<longleftrightarrow> bs_child_to_parent s' = bs_child_to_parent s
     \<and> (\<forall>ord. bt_get (bs_orders s) i = Some ord \<and> \<not> status_is_terminal (or_status ord) \<longrightarrow>
         (\<exists>ord'. bt_get (bs_orders s') i = Some ord' \<and> \<not> status_is_terminal (or_status ord')))"

lemma activate_fold_kept:
  "sim_ok (snd acc) \<Longrightarrow> kept_live i (snd acc) (snd (fold (activate_child R p) cs acc))
     \<and> bs_brackets (snd (fold (activate_child R p) cs acc)) = bs_brackets (snd acc)"
proof (induction cs arbitrary: acc)
  case (Cons c cs)
  let ?acc = "activate_child R p c acc"
  have "sim_ok (snd ?acc)" using activate_child_safe [of 0 undefined acc R p c] Cons.prems by (simp add: safe_def)
  note IH = Cons.IH [OF this]
  obtain as b where acc: "acc = (as, b)" by (cases acc)
  have srt: "bt_sorted (bs_orders b)" using Cons.prems by (simp add: sim_ok_def acc)
  have "kept_live i (snd acc) (snd ?acc) \<and> bs_brackets (snd ?acc) = bs_brackets (snd acc)"
    using srt by (auto simp: acc kept_live_def activate_child_def Let_def order_transition_def bt_get_insert
        status_is_terminal_def transition_allowed_def split: option.splits)
  with IH show ?case unfolding kept_live_def fold_Cons o_apply by (metis (no_types, lifting))
qed (simp add: kept_live_def)

lemma activate_children_kept:
  assumes "sim_ok s"
  shows "kept_live i s (snd (activate_children R oid s))"
    and "bt_get (bs_brackets s) p = Some grp \<Longrightarrow>
      \<exists>grp'. bt_get (bs_brackets (snd (activate_children R oid s))) p = Some grp' \<and> sibling_of i grp' = sibling_of i grp"
proof -
  have k: "kept_live i s (snd (activate_children R oid s)) \<and>
    (bt_get (bs_brackets s) p = Some grp \<longrightarrow>
      (\<exists>grp'. bt_get (bs_brackets (snd (activate_children R oid s))) p = Some grp'
        \<and> sibling_of i grp' = sibling_of i grp))"
  proof (cases "bt_get (bs_brackets s) oid")
    case (Some g)
    obtain as s1 where f: "fold (activate_child R oid) (option_list [bg_take_profit g, bg_stop_loss g]) ([], s) = (as, s1)"
      by (cases "fold (activate_child R oid) (option_list [bg_take_profit g, bg_stop_loss g]) ([], s)")
    have "kept_live i s s1" "bs_brackets s1 = bs_brackets s"
      using activate_fold_kept [of "([], s)" i R oid "option_list [bg_take_profit g, bg_stop_loss g]"] assms f by auto
    moreover have "bt_sorted (bs_brackets s)" using assms by (simp add: sim_ok_def)
    ultimately show ?thesis
      using Some f by (auto simp: activate_children_def kept_live_def bt_get_insert sibling_of_def)
  qed (simp add: activate_children_def kept_live_def)
  then show "kept_live i s (snd (activate_children R oid s))" by blast
  show "bt_get (bs_brackets s) p = Some grp \<Longrightarrow>
      \<exists>grp'. bt_get (bs_brackets (snd (activate_children R oid s))) p = Some grp' \<and> sibling_of i grp' = sibling_of i grp"
    using k by blast
qed

text \<open>The state after the order is written back, before the bracket logic.\<close>

lemma finalize_fill_parts:
  assumes "bt_get (bs_orders s) oid = Some rec"
  shows "\<exists>s1. snd (finalize_fill R oid fill s) = snd (cancel_sibling oid (snd (activate_children R oid s1)))
    \<and> bs_orders s1 = bt_insert oid (fp_working (run_steps R oid fill (pattern_of R s oid rec)
        (fill_chunks R (bs_base_seed s) oid (pattern_of R s oid rec) (fl_shares fill)) rec s)) (bs_orders s)
    \<and> bs_brackets s1 = bs_brackets s \<and> bs_child_to_parent s1 = bs_child_to_parent s \<and> bs_seen s1 = bs_seen s"
  by (simp only: finalize_fill_def Let_def split_beta assms option.case snd_conv, intro exI conjI, rule refl)
    simp_all

lemma cancel_live: "\<not> status_is_terminal (or_status x) \<Longrightarrow>
  order_transition StCancelled x = (True, x\<lparr> or_status := StCancelled \<rparr>)"
  by (simp add: order_transition_def transition_allowed_def status_is_terminal_def)

text \<open>
  C33: a bracket's children exclude each other. When a child of a bracket is filled, its sibling is
  terminal afterwards: it is cancelled unless it already was filled or cancelled, whatever its
  state was, and the group records that one child has filled.
\<close>

theorem filled_child_cancels_sibling:
  assumes "run_sim R evs (with_seed seed) = (out, s)"
    and "bt_get (bs_orders s) oid = Some rec" and "bt_get (bs_child_to_parent s) oid = Some p"
    and "bt_get (bs_brackets s) p = Some grp" and "sibling_of oid grp = Some sid"
    and "bt_get (bs_orders s) sid = Some sib" and "sid \<noteq> oid"
  shows "\<exists>sib' grp'. bt_get (bs_orders (snd (finalize_fill R oid fill s))) sid = Some sib'
    \<and> (sib' = sib \<and> status_is_terminal (or_status sib) \<or> or_status sib' = StCancelled)
    \<and> bt_get (bs_brackets (snd (finalize_fill R oid fill s))) p = Some grp' \<and> bg_state grp' = OneChildFilled"
proof -
  have ok: "sim_ok s" using run_sim_safe [of oid rec "with_seed seed" R evs] assms(1) with_seed_ok
    by (simp add: safe_def)
  obtain s1 where s1: "bs_orders s1 = bt_insert oid (fp_working (run_steps R oid fill (pattern_of R s oid rec)
      (fill_chunks R (bs_base_seed s) oid (pattern_of R s oid rec) (fl_shares fill)) rec s)) (bs_orders s)"
    "bs_brackets s1 = bs_brackets s" "bs_child_to_parent s1 = bs_child_to_parent s" "bs_seen s1 = bs_seen s"
    "snd (finalize_fill R oid fill s) = snd (cancel_sibling oid (snd (activate_children R oid s1)))"
    using finalize_fill_parts [OF assms(2), of R fill] by blast
  have srt: "bt_sorted (bs_orders s)" using ok by (simp add: sim_ok_def)
  have ok1: "sim_ok s1"
    using ok assms(2) by (auto simp: sim_ok_def s1 bt_sorted_insert bt_get_insert run_steps_order_id)
  let ?s2 = "snd (activate_children R oid s1)"
  have ok2: "sim_ok ?s2" using activate_children_safe [of 0 rec s1 R oid] ok1 by (simp add: safe_def)
  then have srt2: "bt_sorted (bs_brackets ?s2)" "bt_sorted (bs_orders ?s2)" by (simp_all add: sim_ok_def)
  obtain g2 where g2: "bt_get (bs_brackets ?s2) p = Some g2" "sibling_of oid g2 = Some sid"
    using activate_children_kept(2) [OF ok1, of p grp R oid oid] assms(4,5) by (auto simp: s1)
  have c2: "bt_get (bs_child_to_parent ?s2) oid = Some p"
    using activate_children_kept(1) [OF ok1, of sid R oid] assms(3) by (simp add: kept_live_def s1)
  have sib1: "bt_get (bs_orders s1) sid = Some sib" using assms(6,7) srt by (simp add: s1 bt_get_insert)
  have "safe sid sib s1 ?s2" by (rule activate_children_safe)
  then obtain sib2 where sib2: "bt_get (bs_orders ?s2) sid = Some sib2"
    "if status_is_terminal (or_status sib) then sib2 = sib else \<not> status_is_terminal (or_status sib2)"
    using activate_children_kept(1) [OF ok1, of sid R oid] sib1 ok1
    by (cases "status_is_terminal (or_status sib)") (auto simp: kept_live_def safe_def holds_terminal_def)
  show ?thesis
  proof (cases "status_is_terminal (or_status sib)")
    case True
    with sib2 g2 c2 srt2 show ?thesis
      by (simp add: s1(5) cancel_sibling_def Let_def order_transition_terminal bt_get_insert)
  next
    case False
    with sib2 g2 c2 srt2 show ?thesis
      by (simp add: s1(5) cancel_sibling_def Let_def cancel_live bt_get_insert)
  qed
qed

definition child_example :: "OrderId \<Rightarrow> SimOrderKind \<Rightarrow> f64 option \<Rightarrow> PlaceOrderReq" where
  "child_example oid kind aux = (order_example kind aux)\<lparr> po_order_id := oid, po_parent_id := Some 100 \<rparr>"

definition bracket_example :: "sim_event list" where
  "bracket_example = [SPlace 0 (child_example 101 MarketOrder None),
     SPlace 0 (child_example 102 StopOrder (Some (f64_of_int 145)))]"

theorem filled_child_cancels_sibling_witness:
  "\<exists>s sib. bt_get (bs_orders (snd (finalize_fill (constant_rand 99) 101 large_fill s))) 102 = Some sib
    \<and> or_status sib = StCancelled"
proof -
  have tick: "off_tick (Some (f64_of_int 145)) = False" by code_simp
  let ?s = "snd (run_sim (constant_rand 99) bracket_example (with_seed 1))"
  let ?r1 = "child_example 101 MarketOrder None" and ?r2 = "child_example 102 StopOrder (Some (f64_of_int 145))"
  have req: "po_order_id ?r1 = 101" "po_parent_id ?r1 = Some 100" "po_kind ?r1 = MarketOrder"
    "po_order_id ?r2 = 102" "po_parent_id ?r2 = Some 100" "po_kind ?r2 = StopOrder"
    by (simp_all add: child_example_def order_example_def)
  have new: "bs_seen (with_seed 1) = bt_empty" "bs_orders (with_seed 1) = bt_empty"
    "bs_brackets (with_seed 1) = bt_empty" "bs_child_to_parent (with_seed 1) = bt_empty"
    by (simp_all add: with_seed_def)
  have r1: "place_reject ?r1 (with_seed 1) = None"
    by (simp add: place_reject_def child_example_def order_example_def new bt.get_empty off_tick_def)
  note s1 = place_as_child [OF r1 req(2), of 0]
  have r2: "place_reject ?r2 (snd (place 0 ?r1 (with_seed 1))) = None"
    unfolding s1 using tick by (simp add: place_reject_def child_example_def order_example_def new bt_get_insert
        bt.invar_empty bt.get_empty off_tick_def)
  have s: "?s = snd (place 0 ?r2 (snd (place 0 ?r1 (with_seed 1))))"
    by (simp add: run_sim_def bracket_example_def split_beta)
  have o1: "\<exists>rec. bt_get (bs_orders ?s) 101 = Some rec"
    and o2: "\<exists>sib. bt_get (bs_orders ?s) 102 = Some sib \<and> \<not> status_is_terminal (or_status sib)"
    and p: "bt_get (bs_child_to_parent ?s) 101 = Some 100"
    and b: "\<exists>grp. bt_get (bs_brackets ?s) 100 = Some grp \<and> sibling_of 101 grp = Some 102"
    unfolding s unfolding place_as_child [OF r2 req(5)] unfolding s1
    by (simp_all add: req new bt_get_insert bt_sorted_insert bt.invar_empty bt.get_empty
        status_is_terminal_def add_child_def group_new_def bt_get_or_def sibling_of_def)
  obtain rec sib grp where "bt_get (bs_orders ?s) 101 = Some rec" "bt_get (bs_orders ?s) 102 = Some sib"
    "\<not> status_is_terminal (or_status sib)" "bt_get (bs_brackets ?s) 100 = Some grp" "sibling_of 101 grp = Some 102"
    using o1 o2 b by blast
  with filled_child_cancels_sibling [OF prod.collapse [symmetric] this(1) p this(4,5,2), of large_fill] show ?thesis
    by (intro exI [of _ ?s]) auto
qed

section \<open>Finality, inside a snapshot too\<close>

text \<open>
  The state inside one snapshot: the snapshot is stored, the candidates are collected, and the
  first \<open>n\<close> of them have had their turn.
\<close>

definition snapshot_upto :: "'g rand_crate \<Rightarrow> MarketSnapshot \<Rightarrow> nat \<Rightarrow> BasicOrderSimulator \<Rightarrow> BasicOrderSimulator" where
  "snapshot_upto R snap n s =
    (let s = s\<lparr> bs_last_snapshot := bt_insert (symbol_ord (sn_symbol snap)) snap (bs_last_snapshot s) \<rparr>
     in snd (snapshot_loop R snap (take n (candidate_ids snap s)) s))"

text \<open>A fill of the bracket child \<open>i\<close> cancels the order \<open>k\<close>.\<close>

definition fill_cancels :: "BasicOrderSimulator \<Rightarrow> OrderId \<Rightarrow> OrderId \<Rightarrow> bool" where
  "fill_cancels s i k = (case bt_get (bs_child_to_parent s) i of
     None \<Rightarrow> False
   | Some p \<Rightarrow> (case bt_get (bs_brackets s) p of None \<Rightarrow> False | Some g \<Rightarrow> sibling_of i g = Some k))"

definition live_in :: "OrderId \<Rightarrow> BasicOrderSimulator \<Rightarrow> bool" where
  "live_in k s \<longleftrightarrow> (\<exists>ord. bt_get (bs_orders s) k = Some ord \<and> \<not> status_is_terminal (or_status ord))"

lemma fill_cancels_cong:
  "bs_child_to_parent s' = bs_child_to_parent s \<Longrightarrow> bs_brackets s' = bs_brackets s
    \<Longrightarrow> fill_cancels s' = fill_cancels s"
  by (auto simp: fill_cancels_def fun_eq_iff split: option.split)

lemma fill_cancels_state:
  assumes "bt_sorted (bs_brackets s)" "bt_get (bs_brackets s) q = Some g"
    and "bs_child_to_parent s' = bs_child_to_parent s"
    and "bs_brackets s' = bt_insert q (g\<lparr> bg_state := st \<rparr>) (bs_brackets s)"
  shows "fill_cancels s' = fill_cancels s"
  using assms by (auto simp: fill_cancels_def fun_eq_iff bt_get_insert sibling_of_def split: option.split)

lemma fill_cancels_activate:
  assumes "sim_ok s"
  shows "fill_cancels (snd (activate_children R oid s)) = fill_cancels s"
proof (cases "bt_get (bs_brackets s) oid")
  case (Some g)
  obtain as s1 where f: "fold (activate_child R oid) (option_list [bg_take_profit g, bg_stop_loss g]) ([], s) = (as, s1)"
    by (cases "fold (activate_child R oid) (option_list [bg_take_profit g, bg_stop_loss g]) ([], s)")
  have "bs_child_to_parent s1 = bs_child_to_parent s" "bs_brackets s1 = bs_brackets s"
    using activate_fold_kept [of "([], s)" 0 R oid "option_list [bg_take_profit g, bg_stop_loss g]"] assms f
    by (auto simp: kept_live_def)
  moreover have "bt_sorted (bs_brackets s)" using assms by (simp add: sim_ok_def)
  ultimately have "fill_cancels (s1\<lparr> bs_brackets := bt_insert oid (g\<lparr> bg_state := ParentFilled \<rparr>) (bs_brackets s1) \<rparr>)
      = fill_cancels s"
    using Some by (intro fill_cancels_state) simp_all
  with Some f show ?thesis by (simp add: activate_children_def)
qed (simp add: activate_children_def)

lemma cancel_sibling_step:
  assumes "sim_ok s" "live_in k s"
  shows "fill_cancels (snd (cancel_sibling i s)) = fill_cancels s"
    and "live_in k (snd (cancel_sibling i s)) \<or> fill_cancels s i k
      \<and> (\<exists>ord. bt_get (bs_orders (snd (cancel_sibling i s))) k = Some ord \<and> or_status ord = StCancelled)"
proof -
  have srt: "bt_sorted (bs_brackets s)" "bt_sorted (bs_orders s)" using assms(1) by (simp_all add: sim_ok_def)
  show "fill_cancels (snd (cancel_sibling i s)) = fill_cancels s"
    unfolding cancel_sibling_def Let_def split_beta using srt(1)
    by (auto split: option.split bool.split intro!: fill_cancels_state)
  obtain x where x: "bt_get (bs_orders s) k = Some x" "\<not> status_is_terminal (or_status x)"
    using assms(2) by (auto simp: live_in_def)
  show "live_in k (snd (cancel_sibling i s)) \<or> fill_cancels s i k
      \<and> (\<exists>ord. bt_get (bs_orders (snd (cancel_sibling i s))) k = Some ord \<and> or_status ord = StCancelled)"
  proof (cases "fill_cancels s i k")
    case True
    then show ?thesis using x srt
      by (auto simp: cancel_sibling_def fill_cancels_def Let_def cancel_live bt_get_insert
          split: option.splits)
  next
    case False
    then show ?thesis using x srt
      by (auto simp: cancel_sibling_def fill_cancels_def live_in_def Let_def split_beta bt_get_insert
          split: option.splits bool.splits)
  qed
qed

text \<open>One fill of another order: the order lives on, or that fill cancels it.\<close>

lemma finalize_fill_step:
  assumes "sim_ok s" "live_in k s" "i \<noteq> k"
  shows "fill_cancels (snd (finalize_fill R i fill s)) = fill_cancels s"
    and "live_in k (snd (finalize_fill R i fill s)) \<or> fill_cancels s i k
      \<and> (\<exists>ord. bt_get (bs_orders (snd (finalize_fill R i fill s))) k = Some ord \<and> or_status ord = StCancelled)"
proof -
  have "fill_cancels (snd (finalize_fill R i fill s)) = fill_cancels s
    \<and> (live_in k (snd (finalize_fill R i fill s)) \<or> fill_cancels s i k
      \<and> (\<exists>ord. bt_get (bs_orders (snd (finalize_fill R i fill s))) k = Some ord \<and> or_status ord = StCancelled))"
  proof (cases "bt_get (bs_orders s) i")
    case (Some rec)
    obtain s1 where s1: "snd (finalize_fill R i fill s) = snd (cancel_sibling i (snd (activate_children R i s1)))"
      "bs_orders s1 = bt_insert i (fp_working (run_steps R i fill (pattern_of R s i rec)
        (fill_chunks R (bs_base_seed s) i (pattern_of R s i rec) (fl_shares fill)) rec s)) (bs_orders s)"
      "bs_brackets s1 = bs_brackets s" "bs_child_to_parent s1 = bs_child_to_parent s" "bs_seen s1 = bs_seen s"
      using finalize_fill_parts [OF Some, of R fill] by blast
    have srt: "bt_sorted (bs_orders s)" using assms(1) by (simp add: sim_ok_def)
    have ok1: "sim_ok s1"
      using assms(1) Some by (auto simp: sim_ok_def s1 bt_sorted_insert bt_get_insert run_steps_order_id)
    have l1: "live_in k s1" using assms(2,3) srt by (simp add: live_in_def s1 bt_get_insert)
    let ?s2 = "snd (activate_children R i s1)"
    have ok2: "sim_ok ?s2" using activate_children_safe [of 0 rec s1 R i] ok1 by (simp add: safe_def)
    have l2: "live_in k ?s2"
      using activate_children_kept(1) [OF ok1, of k R i] l1 by (auto simp: kept_live_def live_in_def)
    have "fill_cancels ?s2 = fill_cancels s"
      using fill_cancels_activate [OF ok1] fill_cancels_cong [OF s1(4,3)] by simp
    with cancel_sibling_step [OF ok2 l2, of i] show ?thesis by (simp add: s1(1))
  qed (use assms(2) in \<open>simp add: finalize_fill_def\<close>)
  then show "fill_cancels (snd (finalize_fill R i fill s)) = fill_cancels s"
    "live_in k (snd (finalize_fill R i fill s)) \<or> fill_cancels s i k
      \<and> (\<exists>ord. bt_get (bs_orders (snd (finalize_fill R i fill s))) k = Some ord \<and> or_status ord = StCancelled)"
    by blast+
qed

lemma snapshot_order_step:
  assumes "sim_ok s" "live_in k s" "i \<noteq> k"
  shows "sim_ok (snd (snapshot_order R snap i s))"
    and "fill_cancels (snd (snapshot_order R snap i s)) = fill_cancels s"
    and "live_in k (snd (snapshot_order R snap i s)) \<or> fill_cancels s i k
      \<and> (\<exists>ord. bt_get (bs_orders (snd (snapshot_order R snap i s))) k = Some ord \<and> or_status ord = StCancelled)"
proof -
  show "sim_ok (snd (snapshot_order R snap i s))"
    using snapshot_order_safe [OF assms(3), of undefined s R snap] assms(1) by (simp add: safe_def)
  have "fill_cancels (snd (snapshot_order R snap i s)) = fill_cancels s
    \<and> (live_in k (snd (snapshot_order R snap i s)) \<or> fill_cancels s i k
      \<and> (\<exists>ord. bt_get (bs_orders (snd (snapshot_order R snap i s))) k = Some ord \<and> or_status ord = StCancelled))"
  proof (cases "bt_get (bs_orders s) i")
    case (Some rec)
    obtain f rec' where m: "maybe_fill rec (sn_mid snap) (sn_bid snap) (sn_ask snap) (sn_ts snap) (bs_slippage s) = (f, rec')"
      by (cases "maybe_fill rec (sn_mid snap) (sn_bid snap) (sn_ask snap) (sn_ts snap) (bs_slippage s)")
    let ?s = "s\<lparr> bs_orders := bt_insert i rec' (bs_orders s) \<rparr>"
    have srt: "bt_sorted (bs_orders s)" using assms(1) by (simp add: sim_ok_def)
    have ok: "sim_ok ?s" using assms(1) Some maybe_fill_frame(1) [OF m]
      by (auto simp: sim_ok_def bt_sorted_insert bt_get_insert)
    have l: "live_in k ?s" using assms(2,3) srt by (simp add: live_in_def bt_get_insert)
    have c: "fill_cancels ?s = fill_cancels s" by (rule fill_cancels_cong) simp_all
    show ?thesis
    proof (cases f)
      case None
      with Some m l c show ?thesis by (simp add: snapshot_order_def)
    next
      case fill: (Some fill)
      then have so: "snapshot_order R snap i s = finalize_fill R i fill ?s"
        using Some m by (simp add: snapshot_order_def)
      show ?thesis using finalize_fill_step [OF ok l assms(3), of R fill] unfolding so c by blast
    qed
  qed (use assms(2) in \<open>simp add: snapshot_order_def\<close>)
  then show "fill_cancels (snd (snapshot_order R snap i s)) = fill_cancels s"
    "live_in k (snd (snapshot_order R snap i s)) \<or> fill_cancels s i k
      \<and> (\<exists>ord. bt_get (bs_orders (snd (snapshot_order R snap i s))) k = Some ord \<and> or_status ord = StCancelled)"
    by blast+
qed

text \<open>The turns of the other candidates: what ends an order there is the fill of its sibling.\<close>

lemma snapshot_loop_step:
  "sim_ok s \<Longrightarrow> live_in k s \<Longrightarrow> k \<notin> set oids \<Longrightarrow>
    live_in k (snd (snapshot_loop R snap oids s))
    \<or> (\<exists>i \<in> set oids. fill_cancels s i k)
      \<and> (\<exists>ord. bt_get (bs_orders (snd (snapshot_loop R snap oids s))) k = Some ord \<and> or_status ord = StCancelled)"
proof (induction oids arbitrary: s)
  case (Cons i oids)
  let ?s = "snd (snapshot_order R snap i s)"
  have ne: "i \<noteq> k" "k \<notin> set oids" using Cons.prems(3) by auto
  note st = snapshot_order_step [OF Cons.prems(1,2) ne(1), of R snap]
  have lp: "snd (snapshot_loop R snap (i # oids) s) = snd (snapshot_loop R snap oids ?s)"
    by (simp add: split_beta)
  show ?case
  proof (cases "live_in k ?s")
    case True
    from Cons.IH [OF st(1) True ne(2)] show ?thesis unfolding lp st(2) by auto
  next
    case False
    with st(3) obtain ord where c: "fill_cancels s i k"
      and o: "bt_get (bs_orders ?s) k = Some ord" "or_status ord = StCancelled" by blast
    then have "holds_terminal k ord ?s" by (simp add: holds_terminal_def status_is_terminal_def)
    with snapshot_loop_safe [OF ne(2), of ord ?s R snap] st(1)
    have "bt_get (bs_orders (snd (snapshot_loop R snap oids ?s))) k = Some ord"
      by (simp add: safe_def holds_terminal_def)
    with c o(2) show ?thesis unfolding lp by auto
  qed
qed simp

lemma snapshot_loop_append:
  "snd (snapshot_loop R snap (xs @ ys) s) = snd (snapshot_loop R snap ys (snd (snapshot_loop R snap xs s)))"
  by (induction xs arbitrary: s) (simp_all add: split_beta)

lemma candidate_ids_distinct: "sim_ok s \<Longrightarrow> distinct (candidate_ids snap s)"
  unfolding candidate_ids_def by (intro distinct_map_filter bt_sorted_distinct) (simp add: sim_ok_def)

lemma candidate_live:
  "sim_ok s \<Longrightarrow> k \<in> set (candidate_ids snap s) \<Longrightarrow> live_in k s"
  by (auto simp: candidate_ids_def sim_ok_def bt_get_member live_in_def is_active_def status_is_terminal_def)

text \<open>
  A terminal record seen inside a snapshot is the record after it, unless the order is cancelled
  there by its sibling's fill and still waits for its own turn.
\<close>

lemma snapshot_upto_final:
  assumes "sim_ok s" "holds_terminal k ord (snapshot_upto R snap n s)"
  shows "holds_terminal k ord (snd (on_market_snapshot R snap s))
    \<or> or_status ord = StCancelled \<and> live_in k s \<and> k \<in> set (drop n (candidate_ids snap s))
      \<and> (\<exists>i \<in> set (take n (candidate_ids snap s)). fill_cancels s i k)"
proof -
  define s0 where "s0 = s\<lparr> bs_last_snapshot := bt_insert (symbol_ord (sn_symbol snap)) snap (bs_last_snapshot s) \<rparr>"
  have ok0: "sim_ok s0" using assms(1) by (simp add: s0_def sim_ok_def)
  have same: "candidate_ids snap s0 = candidate_ids snap s" "fill_cancels s0 = fill_cancels s"
    "live_in k s0 = live_in k s"
    by (simp_all add: s0_def candidate_ids_def live_in_def fill_cancels_cong [of s0 s, unfolded s0_def])
  let ?xs = "take n (candidate_ids snap s)" and ?ys = "drop n (candidate_ids snap s)"
  let ?s1 = "snd (snapshot_loop R snap ?xs s0)"
  have mid: "snapshot_upto R snap n s = ?s1"
    using same(1) by (simp add: snapshot_upto_def s0_def [symmetric] Let_def)
  have aft: "snd (on_market_snapshot R snap s) = snd (snapshot_loop R snap ?ys ?s1)"
    using same(1) snapshot_loop_append [of R snap ?xs ?ys s0]
    by (simp add: on_market_snapshot_def s0_def [symmetric] Let_def)
  have dj: "k \<in> set ?ys \<Longrightarrow> k \<notin> set ?xs"
    using candidate_ids_distinct [OF assms(1), of snap] by (metis append_take_drop_id disjoint_iff distinct_append)
  have ok1: "sim_ok ?s1"
  proof -
    obtain j where "j \<notin> set ?xs" using ex_new_if_finite [OF infinite_UNIV_int, of "set ?xs"] by auto
    from snapshot_loop_safe [OF this, of ord s0 R snap] ok0 show ?thesis by (simp add: safe_def)
  qed
  show ?thesis
  proof (cases "k \<in> set ?ys")
    case False
    from snapshot_loop_safe [OF this, of ord ?s1 R snap] ok1 assms(2) show ?thesis
      by (simp add: safe_def mid aft)
  next
    case True
    then have l: "live_in k s" using candidate_live [OF assms(1)] by (meson in_set_dropD)
    have "\<not> live_in k ?s1" using assms(2) by (auto simp: mid live_in_def holds_terminal_def)
    with snapshot_loop_step [OF ok0 _ dj [OF True], of R snap] l same assms(2) True show ?thesis
      by (auto simp: mid holds_terminal_def)
  qed
qed

text \<open>
  C1: an order that is filled or cancelled is final, with one exception inside a snapshot. Take any
  run of the simulator, with any interleaving of placements, cancels, snapshots and injected faults
  and any random draws. Between events: an order that is terminal keeps its whole record for ever.
  Inside a snapshot, after any number of candidates have had their turn: a record that is terminal
  there is the record after the snapshot and after everything that follows it, except for an order
  that was live before the snapshot, whose bracket sibling was filled earlier in this same snapshot
  and so cancelled it, and whose own turn is still to come (the code does not look at its status
  again and may fill it). So a filled order's record never changes, and a cancelled one's only then.
\<close>

theorem terminal_orders_are_frozen:
  assumes "run_sim R before (with_seed seed) = (out, s)"
    and "bt_get (bs_orders (snapshot_upto R snap n s)) oid = Some ord" and "status_is_terminal (or_status ord)"
  shows "(bt_get (bs_orders s) oid = Some ord \<longrightarrow> bt_get (bs_orders (snd (run_sim R after s))) oid = Some ord)
    \<and> (bt_get (bs_orders (snd (run_sim R (SSnapshot snap # after) s))) oid = Some ord
       \<or> or_status ord = StCancelled
         \<and> (\<exists>live. bt_get (bs_orders s) oid = Some live \<and> \<not> status_is_terminal (or_status live))
         \<and> oid \<in> set (drop n (candidate_ids snap s))
         \<and> (\<exists>i \<in> set (take n (candidate_ids snap s)). fill_cancels s i oid))"
proof -
  have ok: "sim_ok s" using run_sim_safe [of oid ord "with_seed seed" R before] assms(1) with_seed_ok
    by (simp add: safe_def)
  let ?s' = "snd (on_market_snapshot R snap s)"
  have "sim_ok ?s'" using on_market_snapshot_safe [of oid ord s R snap] ok by (simp add: safe_def)
  with run_sim_safe [of oid ord ?s' R after]
  have "holds_terminal oid ord ?s' \<Longrightarrow> bt_get (bs_orders (snd (run_sim R after ?s'))) oid = Some ord"
    by (simp add: safe_def holds_terminal_def)
  moreover have "snd (run_sim R (SSnapshot snap # after) s) = snd (run_sim R after ?s')"
    by (simp add: run_sim_def split_beta)
  moreover note snapshot_upto_final [OF ok, of oid ord R snap n]
  ultimately show ?thesis
    using run_sim_safe [of oid ord s R after] ok assms(2,3)
    by (auto simp: safe_def holds_terminal_def live_in_def)
qed

theorem terminal_orders_are_frozen_witness:
  "\<exists>s ord. bt_get (bs_orders (snd (run_sim (constant_rand 99) [SCancel 10, SSnapshot snapshot_example] s))) 10 = Some ord
     \<and> or_status ord = StCancelled"
proof -
  let ?rec = "(from_place_req (order_example MarketOrder None) 0)\<lparr> or_status := StPreSubmitted \<rparr>"
  let ?rec' = "?rec\<lparr> or_status := StCancelled \<rparr>"
  obtain out s where s: "run_sim (constant_rand 99) [SPlace 0 (order_example MarketOrder None)] (with_seed 1) = (out, s)"
    "standalone s 10 ?rec"
    using order_example_run [where aux = None and kind = MarketOrder and R = "constant_rand 99"]
    by (auto simp: off_tick_def working_record_market)
  have "sim_ok s" using run_sim_safe [of 10 ?rec "with_seed 1" "constant_rand 99" "[SPlace 0 (order_example MarketOrder None)]"]
    s(1) with_seed_ok by (simp add: safe_def)
  then have srt: "bt_sorted (bs_orders s)" by (simp add: sim_ok_def)
  have pl: "snd (place 0 (order_example MarketOrder None) (with_seed 1)) = s"
    using s(1) by (simp add: run_sim_def split_beta)
  have "cancel 10 s = ([emit_order_status ?rec' StCancelled], s\<lparr> bs_orders := bt_insert 10 ?rec' (bs_orders s) \<rparr>)"
    using s(2) by (simp add: standalone_def cancel_def order_is_filled_def order_transition_def transition_allowed_def)
  then have "snd (run_sim (constant_rand 99) [SPlace 0 (order_example MarketOrder None), SCancel 10] (with_seed 1))
      = s\<lparr> bs_orders := bt_insert 10 ?rec' (bs_orders s) \<rparr>"
    by (simp add: run_sim_def split_beta pl)
  then obtain out2 where r: "run_sim (constant_rand 99) [SPlace 0 (order_example MarketOrder None), SCancel 10] (with_seed 1)
      = (out2, s\<lparr> bs_orders := bt_insert 10 ?rec' (bs_orders s) \<rparr>)"
    by (metis prod.collapse)
  have "bt_get (bs_orders (s\<lparr> bs_orders := bt_insert 10 ?rec' (bs_orders s) \<rparr>)) 10 = Some ?rec'"
    using srt by (simp add: bt_get_insert)
  moreover from this have "bt_get (bs_orders (snapshot_upto (constant_rand 99) snapshot_example 0
      (s\<lparr> bs_orders := bt_insert 10 ?rec' (bs_orders s) \<rparr>))) 10 = Some ?rec'"
    by (simp add: snapshot_upto_def)
  ultimately show ?thesis
    using terminal_orders_are_frozen [OF r, of snapshot_example 0 10 ?rec' "[SCancel 10, SSnapshot snapshot_example]"]
    by (intro exI [of _ "s\<lparr> bs_orders := bt_insert 10 ?rec' (bs_orders s) \<rparr>"] exI [of _ ?rec'])
    (simp add: status_is_terminal_def)
qed

end
