(* ===== verification/Wire_Framing.thy ===== *)
theory Wire_Framing imports Std_Strings begin

text \<open>
  The wire framing of the simulator, \<open>crates/midas-ib-sim/src/protocol/framing.rs\<close> and the types
  of \<open>protocol/mod.rs\<close>: length-prefixed frames of NUL-terminated fields, the structured codec with
  its two states, and the byte codec. A buffer is the string of its bytes; \<open>decode\<close> returns what
  it leaves in the buffer. The receiving loop, which the transport library drives, is modelled as
  repeated calls of \<open>decode\<close>, and is proved to be independent of how the bytes arrive.
\<close>

section \<open>Types of the protocol\<close>

datatype ProtocolError =
    InvalidFrame string
  | FrameTooLarge u32
  | UnsupportedMsgId i32
  | UnsupportedVersion i32
  | Field string
  | ParseIntError IntErrorKind
  | ParseFloatError
  | ProtocolIo

definition MIN_VERSION :: int where "MIN_VERSION = 176"
definition MAX_VERSION :: int where "MAX_VERSION = 221"
definition MAX_FRAME_LEN :: u32 where "MAX_FRAME_LEN = 16 * 1024 * 1024"

text \<open>A \<open>ServerVersion\<close> is its number; \<open>server_version_new\<close> is its only constructor.\<close>

definition server_version_new :: "int \<Rightarrow> int option" where
  "server_version_new v = (if MIN_VERSION \<le> v \<and> v \<le> MAX_VERSION then Some v else None)"

definition NUL :: char where
  "NUL = char_of (0::nat)"

text \<open>\<open>u32::to_be_bytes\<close> and \<open>u32::from_be_bytes\<close>.\<close>

definition to_be_bytes :: "u32 \<Rightarrow> string" where
  "to_be_bytes n = map (\<lambda>i. char_of (unat n div 256 ^ i)) [3, 2, 1, 0]"

definition from_be_bytes :: "string \<Rightarrow> u32" where
  "from_be_bytes s = word_of_nat (foldl (\<lambda>acc c. 256 * acc + byte c) 0 s)"

section \<open>Frames\<close>

datatype CodecState = PreHandshake | Framed

record RawFrame =
  rf_fields :: "string list"

definition encode_payload :: "RawFrame \<Rightarrow> string" where
  "encode_payload f = concat (map (\<lambda>x. x @ [NUL]) (rf_fields f))"

text \<open>
  \<open>split_payload\<close>: one pass over the bytes that closes a field at every NUL; what follows the last
  NUL is a field when it is not empty.
\<close>

fun split_fields :: "string \<Rightarrow> string \<Rightarrow> string list" where
  "split_fields cur [] = (if cur = [] then [] else [cur])"
| "split_fields cur (c # cs) = (if c = NUL then cur # split_fields [] cs else split_fields (cur @ [c]) cs)"

definition split_payload :: "string \<Rightarrow> RawFrame" where
  "split_payload payload = \<lparr> rf_fields = (if payload = [] then [] else split_fields [] payload) \<rparr>"

definition decode_framed :: "string \<Rightarrow> (RawFrame option, ProtocolError) rust_result \<times> string" where
  "decode_framed src =
    (if length src < 4 then (Ok None, src)
     else let len = from_be_bytes (take 4 src)
          in if MAX_FRAME_LEN < len then (Err (FrameTooLarge len), src)
             else if length src < 4 + unat len then (Ok None, src)
             else let src = drop 4 src
                  in (Ok (Some (split_payload (take (unat len) src))), drop (unat len) src))"

definition encode_framed :: "RawFrame \<Rightarrow> string \<Rightarrow> (unit, ProtocolError) rust_result \<times> string" where
  "encode_framed frame dst =
    (let payload_len = sum_list (map (\<lambda>f. length f + 1) (rf_fields frame))
     in if unat MAX_FRAME_LEN < payload_len then (Err (FrameTooLarge (word_of_nat payload_len)), dst)
        else (Ok (), dst @ to_be_bytes (word_of_nat payload_len)
                 @ concat (map (\<lambda>f. f @ [NUL]) (rf_fields frame))))"

section \<open>Codecs\<close>

definition codec_decode :: "CodecState \<Rightarrow> string \<Rightarrow> (RawFrame option, ProtocolError) rust_result \<times> string" where
  "codec_decode st src = (case st of PreHandshake \<Rightarrow> (Ok None, src) | Framed \<Rightarrow> decode_framed src)"

definition byte_decode :: "string \<Rightarrow> (string option, ProtocolError) rust_result \<times> string" where
  "byte_decode src =
    (if length src < 4 then (Ok None, src)
     else let len = from_be_bytes (take 4 src)
          in if MAX_FRAME_LEN < len then (Err (FrameTooLarge len), src)
             else if length src < 4 + unat len then (Ok None, src)
             else (Ok (Some (take (unat len) (drop 4 src))), drop (unat len) (drop 4 src)))"

definition byte_encode :: "string \<Rightarrow> string \<Rightarrow> (unit, ProtocolError) rust_result \<times> string" where
  "byte_encode item dst =
    (if unat MAX_FRAME_LEN < length item then (Err (FrameTooLarge (word_of_nat (length item))), dst)
     else (Ok (), dst @ to_be_bytes (word_of_nat (length item)) @ item))"

section \<open>The receiving loop\<close>

text \<open>
  Decode until no complete frame is left: the items, the error that stopped the loop if any, and
  the bytes that remain.
\<close>

function pump :: "(string \<Rightarrow> ('a option, 'e) rust_result \<times> string) \<Rightarrow> string
    \<Rightarrow> 'a list \<times> 'e option \<times> string" where
  "pump decode src =
    (case decode src of
       (Inl e, rest) \<Rightarrow> ([], Some e, rest)
     | (Inr None, rest) \<Rightarrow> ([], None, rest)
     | (Inr (Some x), rest) \<Rightarrow>
         if length rest < length src
         then (case pump decode rest of (xs, e, r) \<Rightarrow> (x # xs, e, r))
         else ([x], None, rest))"
  by pat_completeness auto
termination
  by (relation "measure (\<lambda>(_, src). length src)") auto

declare pump.simps [simp del]

text \<open>Chunks arriving one after the other; the stream ends at the first error.\<close>

fun feed :: "(string \<Rightarrow> ('a option, 'e) rust_result \<times> string) \<Rightarrow> string list \<Rightarrow> string
    \<Rightarrow> 'a list \<times> 'e option \<times> string" where
  "feed decode [] buf = ([], None, buf)"
| "feed decode (c # cs) buf =
     (case pump decode (buf @ c) of
        (xs, Some e, rest) \<Rightarrow> (xs, Some e, rest)
      | (xs, None, rest) \<Rightarrow> (case feed decode cs rest of (ys, e, r) \<Rightarrow> (xs @ ys, e, r)))"

text \<open>
  The contract of a stream decoder: it waits without consuming, and what it decides on a buffer it
  decides on every longer buffer, leaving the further bytes alone.
\<close>

locale stream_decoder =
  fixes decode :: "string \<Rightarrow> ('a option, 'e) rust_result \<times> string"
  assumes need_more: "decode b = (Ok None, r) \<Longrightarrow> r = b"
    and item_stable: "decode b = (Ok (Some x), r) \<Longrightarrow> decode (b @ c) = (Ok (Some x), r @ c)"
    and item_consumes: "decode b = (Ok (Some x), r) \<Longrightarrow> length r < length b"
    and err_stable: "decode b = (Err e, r) \<Longrightarrow> decode (b @ c) = (Err e, r @ c)"
begin

lemma pump_item: "decode b = (Ok (Some x), r) \<Longrightarrow>
    pump decode b = (case pump decode r of (xs, e, r') \<Rightarrow> (x # xs, e, r'))"
  using item_consumes by (subst pump.simps) simp

lemma pump_wait: "decode b = (Ok None, r) \<Longrightarrow> pump decode b = ([], None, b)"
  using need_more by (subst pump.simps) simp

lemma pump_err: "decode b = (Err e, r) \<Longrightarrow> pump decode b = ([], Some e, r)"
  by (subst pump.simps) simp

lemma pump_append:
  "pump decode a = (xs, e, r) \<Longrightarrow>
     (case e of
        None \<Rightarrow> pump decode (a @ b) = (case pump decode (r @ b) of (ys, e', r') \<Rightarrow> (xs @ ys, e', r'))
          \<and> decode r = (Ok None, r)
      | Some e' \<Rightarrow> pump decode (a @ b) = (xs, Some e', r @ b))"
proof (induction a arbitrary: xs e r rule: length_induct)
  case (1 a)
  obtain d s where d: "decode a = (d, s)" by (cases "decode a")
  consider (err) e' where "d = Err e'" | (wait) "d = Ok None" | (item) x where "d = Ok (Some x)"
    by (metis not_None_eq old.sum.exhaust)
  then show ?case
  proof cases
    case err
    with 1(2) d pump_err [of a] pump_err [OF err_stable [of a e' s b]] show ?thesis by auto
  next
    case wait
    with 1(2) d pump_wait [of a] need_more [of a s] show ?thesis by (auto split: prod.split)
  next
    case item
    obtain ys e' r' where p: "pump decode s = (ys, e', r')" by (metis prod_cases3)
    have "length s < length a" using item d item_consumes by simp
    with 1(1) p have IH: "case e' of
        None \<Rightarrow> pump decode (s @ b) = (case pump decode (r' @ b) of (zs, e'', r'') \<Rightarrow> (ys @ zs, e'', r''))
          \<and> decode r' = (Ok None, r')
      | Some e'' \<Rightarrow> pump decode (s @ b) = (ys, Some e'', r' @ b)" by blast
    have "xs = x # ys" "e = e'" "r = r'" using 1(2) item d p pump_item by auto
    with IH pump_item [OF item_stable [of a x s b]] item d show ?thesis
      by (auto split: option.splits prod.splits)
  qed
qed

text \<open>How the bytes are cut into chunks makes no difference to what is received.\<close>

lemma feed_concat:
  assumes "decode buf = (Ok None, buf)" "feed decode cs buf = (xs, e, r)"
  shows "case pump decode (buf @ concat cs) of (ys, e', r') \<Rightarrow> ys = xs \<and> e' = e \<and> (e = None \<longrightarrow> r' = r)"
  using assms
proof (induction cs arbitrary: buf xs e r)
  case Nil
  then show ?case using pump_wait [of buf buf] by simp
next
  case (Cons c cs)
  obtain ys e1 r1 where p: "pump decode (buf @ c) = (ys, e1, r1)" by (metis prod_cases3)
  note app = pump_append [OF p, of "concat cs"]
  show ?case
  proof (cases e1)
    case (Some e2)
    with app p Cons.prems(2) show ?thesis by auto
  next
    case None
    obtain zs e2 r2 where f: "feed decode cs r1 = (zs, e2, r2)" by (metis prod_cases3)
    with app None have "case pump decode (r1 @ concat cs) of
        (ys, e', r') \<Rightarrow> ys = zs \<and> e' = e2 \<and> (e2 = None \<longrightarrow> r' = r2)"
      using Cons.IH by simp
    with app None p f Cons.prems(2) show ?thesis by (auto split: prod.splits)
  qed
qed

end

interpretation frames: stream_decoder decode_framed
  by unfold_locales (auto simp: decode_framed_def Let_def split: if_splits)

interpretation byte_frames: stream_decoder byte_decode
  by unfold_locales (auto simp: byte_decode_def Let_def split: if_splits)

section \<open>Round trips\<close>

lemma be_bytes_length [simp]: "length (to_be_bytes n) = 4"
  by (simp add: to_be_bytes_def)

lemma from_to_be_bytes: "from_be_bytes (to_be_bytes n) = n"
proof -
  define k where "k = unat n"
  have k: "k < 2 ^ 32" unfolding k_def using unsigned_less [of n] by simp
  have b: "byte (char_of m) = m mod 256" for m by (simp add: byte_def)
  have "k div 256 ^ 3 mod 256 = k div 256 ^ 3" using k by (simp add: div_less_iff_less_mult)
  moreover have "k div 256 ^ 3 = k div 256 div 256 div 256" "k div 256 ^ 2 = k div 256 div 256"
    by (simp_all add: div_mult2_eq [symmetric])
  ultimately have "256 * (256 * (256 * (k div 256 ^ 3 mod 256) + k div 256 ^ 2 mod 256)
      + k div 256 mod 256) + k mod 256 = k"
    by (metis mult_div_mod_eq)
  moreover have "k div 16777216 mod 256 = k div 16777216" using k by (simp add: div_less_iff_less_mult)
  ultimately have "foldl (\<lambda>acc c. 256 * acc + byte c) 0 (to_be_bytes n) = k"
    by (simp add: to_be_bytes_def b k_def [symmetric])
  then show ?thesis by (simp only: from_be_bytes_def) (simp add: k_def)
qed

lemma split_fields_field:
  "NUL \<notin> set f \<Longrightarrow> split_fields cur (f @ NUL # rest) = (cur @ f) # split_fields [] rest"
  by (induction f arbitrary: cur) auto

lemma split_encode_payload:
  assumes "\<forall>f\<in>set (rf_fields frame). NUL \<notin> set f"
  shows "split_payload (encode_payload frame) = frame"
proof -
  have "split_fields [] (concat (map (\<lambda>x. x @ [NUL]) fs)) = fs" if "\<forall>f\<in>set fs. NUL \<notin> set f" for fs
    using that by (induction fs) (simp_all add: split_fields_field)
  with assms show ?thesis
    by (cases frame) (auto simp: split_payload_def encode_payload_def)
qed

lemma length_encode_payload:
  "length (encode_payload f) = sum_list (map (\<lambda>x. length x + 1) (rf_fields f))"
  by (simp add: encode_payload_def length_concat comp_def)

lemma decode_encoded:
  assumes "encode_framed frame dst = (Ok (), dst')" "\<forall>f\<in>set (rf_fields frame). NUL \<notin> set f"
  obtains bs where "dst' = dst @ bs" "decode_framed (bs @ rest) = (Ok (Some frame), rest)"
proof -
  let ?p = "encode_payload frame"
  let ?l = "word_of_nat (length ?p) :: u32"
  have len: "\<not> unat MAX_FRAME_LEN < length ?p" and dst': "dst' = dst @ (to_be_bytes ?l @ ?p)"
    using assms(1) unfolding encode_framed_def length_encode_payload [symmetric]
    by (auto simp: Let_def encode_payload_def split: if_splits)
  have "unat MAX_FRAME_LEN = 16777216" by (simp add: MAX_FRAME_LEN_def)
  then have l: "unat ?l = length ?p" using len by (subst unat_of_nat) simp
  have "decode_framed ((to_be_bytes ?l @ ?p) @ rest) = (Ok (Some frame), rest)"
    using len by (simp add: decode_framed_def from_to_be_bytes l word_less_nat_alt
        split_encode_payload [OF assms(2)])
  with dst' show ?thesis by (rule that)
qed

text \<open>Encode frames one after the other into one buffer; stops at the first refusal.\<close>

fun encode_all :: "RawFrame list \<Rightarrow> string \<Rightarrow> (unit, ProtocolError) rust_result \<times> string" where
  "encode_all [] dst = (Ok (), dst)"
| "encode_all (f # fs) dst =
     (case encode_framed f dst of (Inl e, dst) \<Rightarrow> (Err e, dst) | (Inr _, dst) \<Rightarrow> encode_all fs dst)"

lemma encode_all_append:
  "encode_all fs dst = (Ok (), dst') \<Longrightarrow> \<forall>frame\<in>set fs. \<forall>f\<in>set (rf_fields frame). NUL \<notin> set f \<Longrightarrow>
     \<exists>bs. dst' = dst @ bs \<and> pump decode_framed bs = (fs, None, [])"
proof (induction fs arbitrary: dst)
  case Nil
  have "decode_framed [] = (Ok None, [])" by (simp add: decode_framed_def)
  with Nil show ?case using frames.pump_wait by simp
next
  case (Cons f fs)
  obtain dst1 where d1: "encode_framed f dst = (Ok (), dst1)" "encode_all fs dst1 = (Ok (), dst')"
    using Cons.prems(1) by (auto split: prod.splits sum.splits)
  obtain b2 where b2: "dst' = dst1 @ b2" "pump decode_framed b2 = (fs, None, [])"
    using Cons.IH [OF d1(2)] Cons.prems(2) by auto
  obtain b1 where b1: "dst1 = dst @ b1" "decode_framed (b1 @ b2) = (Ok (Some f), b2)"
    using decode_encoded [OF d1(1)] Cons.prems(2) by auto
  with b2 show ?case using frames.pump_item [OF b1(2)] by auto
qed

text \<open>
  C4: frames survive the transport: the bytes of any sequence of encoded frames whose fields hold no
  NUL, cut into chunks in any way, are decoded to exactly these frames, in order, with no error and
  nothing left over.
\<close>

theorem frames_survive_any_chunking:
  assumes "encode_all fs [] = (Ok (), concat chunks)"
    and "\<forall>frame\<in>set fs. \<forall>f\<in>set (rf_fields frame). NUL \<notin> set f"
  shows "feed decode_framed chunks [] = (fs, None, [])"
proof -
  obtain xs e r where f: "feed decode_framed chunks [] = (xs, e, r)" by (metis prod_cases3)
  have "decode_framed [] = (Ok None, [])" by (simp add: decode_framed_def)
  from frames.feed_concat [OF this f] encode_all_append [OF assms] f show ?thesis by auto
qed

theorem frames_survive_any_chunking_witness:
  "feed decode_framed [[NUL, NUL], [NUL, char_of (4::nat), CHR ''7''], [CHR ''1'', NUL, NUL, NUL, NUL],
       [NUL, NUL]] [] = ([\<lparr>rf_fields = [''71'', []]\<rparr>, \<lparr>rf_fields = []\<rparr>], None, [])"
proof (rule frames_survive_any_chunking)
  show "encode_all [\<lparr>rf_fields = [''71'', []]\<rparr>, \<lparr>rf_fields = []\<rparr>] []
      = (Ok (), concat [[NUL, NUL], [NUL, char_of (4::nat), CHR ''7''], [CHR ''1'', NUL, NUL, NUL, NUL],
          [NUL, NUL]])"
    by (simp add: encode_framed_def MAX_FRAME_LEN_def to_be_bytes_def NUL_def)
  show "\<forall>frame\<in>set [\<lparr>rf_fields = [''71'', []]\<rparr>, \<lparr>rf_fields = []\<rparr>].
      \<forall>f\<in>set (rf_fields frame). NUL \<notin> set f"
    unfolding NUL_def by code_simp
qed

text \<open>
  the receiver is bounded and its answer does not depend on the transport: whatever bytes arrive,
  two ways of cutting the same bytes into chunks give the same frames and the same error, and
  while there is no error fewer than 16 MiB and 4 bytes are ever held back.
\<close>

lemma receiver_bounded_and_chunk_independent:
  assumes "feed decode_framed chunks [] = (fs, e, r)" "feed decode_framed chunks' [] = (fs', e', r')"
    and "concat chunks' = concat chunks"
  shows "fs' = fs \<and> e' = e \<and> (e = None \<longrightarrow> r' = r \<and> length r < 4 + 16 * 1024 * 1024)"
proof -
  have d: "decode_framed [] = (Ok None, [])" by (simp add: decode_framed_def)
  obtain xs x s where p: "pump decode_framed (concat chunks) = (xs, x, s)" by (metis prod_cases3)
  have "fs' = fs \<and> e' = e \<and> (e = None \<longrightarrow> r' = r \<and> s = r) \<and> x = e"
    using frames.feed_concat [OF d assms(1)] frames.feed_concat [OF d assms(2)] assms(3) p by auto
  moreover have "length s < 4 + 16 * 1024 * 1024" if "x = None"
  proof -
    have "decode_framed s = (Ok None, s)" using frames.pump_append [OF p, of "[]"] that by simp
    then show ?thesis
      by (auto simp: decode_framed_def Let_def MAX_FRAME_LEN_def word_less_nat_alt not_less split: if_splits)
  qed
  ultimately show ?thesis by simp
qed

lemma receiver_bounded_and_chunk_independent_witness:
  "\<exists>r. feed decode_framed [[char_of (255::nat), NUL, NUL], [NUL], [NUL]] []
     = ([], Some (FrameTooLarge 0xFF000000), r)"
proof -
  let ?a = "[[char_of (255::nat), NUL, NUL, NUL, NUL]]" and ?b = "[[char_of (255::nat), NUL, NUL], [NUL], [NUL]]"
  have a: "feed decode_framed ?a [] = ([], Some (FrameTooLarge 0xFF000000), concat ?a)"
    by (simp add: pump.simps decode_framed_def from_be_bytes_def byte_def NUL_def MAX_FRAME_LEN_def)
  obtain fs e r where b: "feed decode_framed ?b [] = (fs, e, r)" by (metis prod_cases3)
  from receiver_bounded_and_chunk_independent [OF a b] b show ?thesis by simp
qed

end
