(* ===== verification/Wire_Fields.thy ===== *)
theory Wire_Fields imports Wire_Framing begin

text \<open>
  The typed field codec, \<open>crates/midas-ib-sim/src/protocol/messages/fields.rs\<close>, without its
  floating-point fields: the cursor over received fields and the writer of payloads. An \<open>i32\<close> or
  \<open>i64\<close> on the wire is the integer it denotes; the readers check the range.
\<close>

definition UNSET_INT :: int where "UNSET_INT = 2 ^ 31 - 1"
definition UNSET_LONG :: int where "UNSET_LONG = 2 ^ 63 - 1"

section \<open>Reader\<close>

record FieldReader =
  fr_fields :: "string list"
  fr_idx :: nat

type_synonym 'a reading = "('a, ProtocolError) rust_result \<times> FieldReader"

definition reader_new :: "string list \<Rightarrow> FieldReader" where
  "reader_new fs = \<lparr> fr_fields = fs, fr_idx = 0 \<rparr>"

definition remaining :: "FieldReader \<Rightarrow> nat" where
  "remaining r = length (fr_fields r) - fr_idx r"

definition reader_is_empty :: "FieldReader \<Rightarrow> bool" where
  "reader_is_empty r \<longleftrightarrow> remaining r = 0"

definition take_raw :: "FieldReader \<Rightarrow> string reading" where
  "take_raw r =
    (if fr_idx r < length (fr_fields r) then (Ok (fr_fields r ! fr_idx r), r\<lparr> fr_idx := fr_idx r + 1 \<rparr>)
     else (Err (Field (''unexpected end of fields at index '' @ show_nat (fr_idx r) @ '' (len=''
             @ show_nat (length (fr_fields r)) @ '')'')), r))"

definition take_str :: "FieldReader \<Rightarrow> string reading" where
  "take_str r =
    (case take_raw r of
       (Inl e, r) \<Rightarrow> (Err e, r)
     | (Inr raw, r) \<Rightarrow>
         (case from_utf8 raw of
            Inl e \<Rightarrow> (Err (Field (''invalid utf-8 in field: '' @ show_utf8_error e)), r)
          | Inr s \<Rightarrow> (Ok s, r)))"

text \<open>\<open>?\<close> on the string, then a pure conversion.\<close>

definition read_with :: "(string \<Rightarrow> ('a, ProtocolError) rust_result) \<Rightarrow> FieldReader \<Rightarrow> 'a reading" where
  "read_with f r = (case take_str r of (Inl e, r) \<Rightarrow> (Err e, r) | (Inr s, r) \<Rightarrow> (f s, r))"

definition parsed :: "(int, IntErrorKind) rust_result \<Rightarrow> (int, ProtocolError) rust_result" where
  "parsed x = (case x of Inl e \<Rightarrow> Err (ParseIntError e) | Inr i \<Rightarrow> Ok i)"

definition read_i32 :: "FieldReader \<Rightarrow> int reading" where
  "read_i32 = read_with (\<lambda>s. if s = [] then Err (Field ''expected i32, got empty field'') else parsed (parse_i32 s))"

definition read_i64 :: "FieldReader \<Rightarrow> int reading" where
  "read_i64 = read_with (\<lambda>s. if s = [] then Err (Field ''expected i64, got empty field'') else parsed (parse_i64 s))"

definition read_string :: "FieldReader \<Rightarrow> string reading" where
  "read_string = read_with Ok"

definition read_bool :: "FieldReader \<Rightarrow> bool reading" where
  "read_bool = read_with (\<lambda>s. Ok (if s = [] then False else case parse_i32 s of Inl _ \<Rightarrow> False | Inr i \<Rightarrow> i \<noteq> 0))"

definition read_opt_i32 :: "FieldReader \<Rightarrow> int option reading" where
  "read_opt_i32 = read_with (\<lambda>s. if s = [] then Ok None
     else case parsed (parse_i32 s) of Inl e \<Rightarrow> Err e | Inr v \<Rightarrow> Ok (if v = UNSET_INT then None else Some v))"

definition read_opt_i64 :: "FieldReader \<Rightarrow> int option reading" where
  "read_opt_i64 = read_with (\<lambda>s. if s = [] then Ok None
     else case parsed (parse_i64 s) of Inl e \<Rightarrow> Err e | Inr v \<Rightarrow> Ok (if v = UNSET_LONG then None else Some v))"

definition read_opt_string :: "FieldReader \<Rightarrow> string option reading" where
  "read_opt_string = read_with (\<lambda>s. Ok (if s = [] then None else Some s))"

section \<open>Writer\<close>

record FieldWriter =
  fw_buf :: string
  fw_count :: nat

definition writer_new :: FieldWriter where
  "writer_new = \<lparr> fw_buf = [], fw_count = 0 \<rparr>"

definition push_raw :: "string \<Rightarrow> FieldWriter \<Rightarrow> FieldWriter" where
  "push_raw bytes w = w\<lparr> fw_buf := fw_buf w @ bytes @ [NUL], fw_count := fw_count w + 1 \<rparr>"

definition into_fields :: "FieldWriter \<Rightarrow> string list" where
  "into_fields w = (if fw_buf w = [] then [] else split_fields [] (fw_buf w))"

definition write_i32 :: "int \<Rightarrow> FieldWriter \<Rightarrow> FieldWriter" where
  "write_i32 v = push_raw (show_int v)"

definition write_i64 :: "int \<Rightarrow> FieldWriter \<Rightarrow> FieldWriter" where
  "write_i64 v = push_raw (show_int v)"

definition write_str :: "string \<Rightarrow> FieldWriter \<Rightarrow> FieldWriter" where
  "write_str s = push_raw s"

definition write_bool :: "bool \<Rightarrow> FieldWriter \<Rightarrow> FieldWriter" where
  "write_bool v = push_raw (if v then ''1'' else ''0'')"

definition write_opt_i32 :: "int option \<Rightarrow> FieldWriter \<Rightarrow> FieldWriter" where
  "write_opt_i32 v = (case v of Some x \<Rightarrow> write_i32 x | None \<Rightarrow> write_i32 UNSET_INT)"

definition write_opt_i64 :: "int option \<Rightarrow> FieldWriter \<Rightarrow> FieldWriter" where
  "write_opt_i64 v = (case v of Some x \<Rightarrow> write_i64 x | None \<Rightarrow> write_i64 UNSET_LONG)"

definition write_opt_string :: "string option \<Rightarrow> FieldWriter \<Rightarrow> FieldWriter" where
  "write_opt_string v = (case v of Some s \<Rightarrow> write_str s | None \<Rightarrow> write_str [])"

section \<open>Messages as sequences of typed fields\<close>

datatype field_value = VI32 int | VI64 int | VBool bool | VStr string
  | VOptI32 "int option" | VOptI64 "int option" | VOptStr "string option"

fun write_value :: "field_value \<Rightarrow> FieldWriter \<Rightarrow> FieldWriter" where
  "write_value (VI32 i) = write_i32 i"
| "write_value (VI64 i) = write_i64 i"
| "write_value (VBool b) = write_bool b"
| "write_value (VStr s) = write_str s"
| "write_value (VOptI32 i) = write_opt_i32 i"
| "write_value (VOptI64 i) = write_opt_i64 i"
| "write_value (VOptStr s) = write_opt_string s"

definition map_reading :: "('a \<Rightarrow> 'b) \<Rightarrow> 'a reading \<Rightarrow> 'b reading" where
  "map_reading f x = (case x of (Inl e, r) \<Rightarrow> (Err e, r) | (Inr a, r) \<Rightarrow> (Ok (f a), r))"

text \<open>Read a field with the reader of the type of a given value.\<close>

fun read_like :: "field_value \<Rightarrow> FieldReader \<Rightarrow> field_value reading" where
  "read_like (VI32 _) r = map_reading VI32 (read_i32 r)"
| "read_like (VI64 _) r = map_reading VI64 (read_i64 r)"
| "read_like (VBool _) r = map_reading VBool (read_bool r)"
| "read_like (VStr _) r = map_reading VStr (read_string r)"
| "read_like (VOptI32 _) r = map_reading VOptI32 (read_opt_i32 r)"
| "read_like (VOptI64 _) r = map_reading VOptI64 (read_opt_i64 r)"
| "read_like (VOptStr _) r = map_reading VOptStr (read_opt_string r)"

fun read_all_like :: "field_value list \<Rightarrow> FieldReader \<Rightarrow> field_value list reading" where
  "read_all_like [] r = (Ok [], r)"
| "read_all_like (v # vs) r =
     (case read_like v r of
        (Inl e, r) \<Rightarrow> (Err e, r)
      | (Inr x, r) \<Rightarrow> map_reading ((#) x) (read_all_like vs r))"

text \<open>
  The values that a field can carry: integers of their width, strings of ASCII without NUL; an
  optional value that is present is neither the sentinel nor empty.
\<close>

definition wire_text :: "string \<Rightarrow> bool" where
  "wire_text s \<longleftrightarrow> list_all (\<lambda>c. byte c < 128 \<and> c \<noteq> NUL) s"

fun sendable :: "field_value \<Rightarrow> bool" where
  "sendable (VI32 i) = (- (2 ^ 31) \<le> i \<and> i \<le> 2 ^ 31 - 1)"
| "sendable (VI64 i) = (- (2 ^ 63) \<le> i \<and> i \<le> 2 ^ 63 - 1)"
| "sendable (VBool _) = True"
| "sendable (VStr s) = wire_text s"
| "sendable (VOptI32 v) = (case v of None \<Rightarrow> True | Some i \<Rightarrow> - (2 ^ 31) \<le> i \<and> i < UNSET_INT)"
| "sendable (VOptI64 v) = (case v of None \<Rightarrow> True | Some i \<Rightarrow> - (2 ^ 63) \<le> i \<and> i < UNSET_LONG)"
| "sendable (VOptStr v) = (case v of None \<Rightarrow> True | Some s \<Rightarrow> s \<noteq> [] \<and> wire_text s)"

text \<open>The text a value is written as.\<close>

fun value_text :: "field_value \<Rightarrow> string" where
  "value_text (VI32 i) = show_int i"
| "value_text (VI64 i) = show_int i"
| "value_text (VBool b) = (if b then ''1'' else ''0'')"
| "value_text (VStr s) = s"
| "value_text (VOptI32 v) = show_int (case v of None \<Rightarrow> UNSET_INT | Some i \<Rightarrow> i)"
| "value_text (VOptI64 v) = show_int (case v of None \<Rightarrow> UNSET_LONG | Some i \<Rightarrow> i)"
| "value_text (VOptStr v) = (case v of None \<Rightarrow> [] | Some s \<Rightarrow> s)"

lemma write_value_text: "write_value v w = push_raw (value_text v) w"
  by (cases v) (auto simp: write_i32_def write_i64_def write_bool_def write_str_def write_opt_i32_def
      write_opt_i64_def write_opt_string_def split: option.split)

lemma wire_text_show_int: "wire_text (show_int i)"
proof -
  have "byte NUL = 0" by (simp add: NUL_def byte_def)
  moreover have "byte (CHR ''-'') = 45" by (simp add: byte_def)
  ultimately show ?thesis
    using show_int_chars [of _ i] by (fastforce simp: wire_text_def list_all_iff is_ascii_digit_def)
qed

lemma sendable_text: "sendable v \<Longrightarrow> wire_text (value_text v)"
proof (cases v)
  case (VBool b)
  moreover have "wire_text ''1''" "wire_text ''0''" unfolding wire_text_def NUL_def by code_simp+
  ultimately show ?thesis by simp
qed (auto simp: wire_text_show_int split: option.splits, simp add: wire_text_def)

lemma wire_text_facts: "wire_text s \<Longrightarrow> NUL \<notin> set s \<and> from_utf8 s = Ok s"
  using from_utf8_ascii by (auto simp: wire_text_def list_all_iff)

lemma take_str_at:
  assumes "fr_idx r < length (fr_fields r)" "wire_text (fr_fields r ! fr_idx r)"
  shows "take_str r = (Ok (fr_fields r ! fr_idx r), r\<lparr> fr_idx := fr_idx r + 1 \<rparr>)"
  using assms wire_text_facts by (simp add: take_str_def take_raw_def)

lemma parse_shown:
  "- (2 ^ 31) \<le> i \<Longrightarrow> i \<le> 2 ^ 31 - 1 \<Longrightarrow> parse_i32 (show_int i) = Ok i"
  "- (2 ^ 63) \<le> i \<Longrightarrow> i \<le> 2 ^ 63 - 1 \<Longrightarrow> parse_i64 (show_int i) = Ok i"
  by (simp_all add: parse_i32_def parse_i64_def parse_int_show_int)

lemma parse_bool_digits: "parse_i32 ''1'' = Ok 1" "parse_i32 ''0'' = Ok 0"
  by code_simp+

lemma read_like_text:
  assumes "sendable v" "fr_idx r < length (fr_fields r)" "fr_fields r ! fr_idx r = value_text v"
  shows "read_like v r = (Ok v, r\<lparr> fr_idx := fr_idx r + 1 \<rparr>)"
proof -
  have "take_str r = (Ok (value_text v), r\<lparr> fr_idx := fr_idx r + 1 \<rparr>)"
    using take_str_at [OF assms(2)] sendable_text [OF assms(1)] assms(3) by simp
  then have rw: "read_with f r = (f (value_text v), r\<lparr> fr_idx := fr_idx r + 1 \<rparr>)" for f :: "string \<Rightarrow> ('x, ProtocolError) rust_result"
    by (simp add: read_with_def)
  show ?thesis
  proof (cases v)
    case (VOptI32 x)
    with assms(1) show ?thesis
      by (cases x) (auto simp: map_reading_def read_opt_i32_def rw parsed_def parse_shown UNSET_INT_def)
  next
    case (VOptI64 x)
    with assms(1) show ?thesis
      by (cases x) (auto simp: map_reading_def read_opt_i64_def rw parsed_def parse_shown UNSET_LONG_def)
  next
    case (VOptStr x)
    with assms(1) show ?thesis by (cases x) (auto simp: map_reading_def read_opt_string_def rw)
  qed (use assms(1) in \<open>auto simp: map_reading_def read_i32_def read_i64_def read_bool_def
      read_string_def rw parsed_def parse_shown parse_bool_digits\<close>)
qed

lemma read_all_like_texts:
  assumes "\<forall>v\<in>set vs. sendable v" "fr_fields r = pre @ map value_text vs" "fr_idx r = length pre"
  shows "read_all_like vs r = (Ok vs, r\<lparr> fr_idx := length (fr_fields r) \<rparr>)"
  using assms
proof (induction vs arbitrary: r pre)
  case Nil
  then show ?case by simp
next
  case (Cons v vs)
  let ?r = "r\<lparr> fr_idx := fr_idx r + 1 \<rparr>"
  have "read_like v r = (Ok v, ?r)"
    using Cons.prems by (intro read_like_text) (auto simp: nth_append)
  moreover have "read_all_like vs ?r = (Ok vs, ?r\<lparr> fr_idx := length (fr_fields ?r) \<rparr>)"
    using Cons.prems by (intro Cons.IH [of _ "pre @ [value_text v]"]) auto
  ultimately show ?case by (simp add: map_reading_def)
qed

lemma write_all_buf:
  "fw_buf (fold write_value vs w) = fw_buf w @ concat (map (\<lambda>v. value_text v @ [NUL]) vs)
   \<and> fw_count (fold write_value vs w) = fw_count w + length vs"
  by (induction vs arbitrary: w) (simp_all add: write_value_text push_raw_def)

text \<open>The frame a written message is sent as.\<close>

definition message_frame :: "field_value list \<Rightarrow> RawFrame" where
  "message_frame vs = \<lparr> rf_fields = into_fields (fold write_value vs writer_new) \<rparr>"

lemma message_frame_fields:
  assumes "\<forall>v\<in>set vs. sendable v"
  shows "rf_fields (message_frame vs) = map value_text vs"
proof -
  have "split_fields [] (concat (map (\<lambda>v. value_text v @ [NUL]) vs)) = map value_text vs"
    using assms
  proof (induction vs)
    case (Cons v vs)
    then have "NUL \<notin> set (value_text v)" using sendable_text wire_text_facts by auto
    with Cons show ?case by (simp add: split_fields_field)
  qed simp
  then show ?thesis
    by (auto simp: message_frame_def into_fields_def write_all_buf writer_new_def)
qed

text \<open>
  C39: messages survive the wire: a list of sendable typed values, written field by field, framed,
  sent in chunks of any size, deframed and read back with the readers of the same types yields the
  same values, consumes every field and reports no error.
\<close>

theorem typed_messages_survive_the_wire:
  assumes "\<forall>v\<in>set vs. sendable v"
    and "encode_framed (message_frame vs) [] = (Ok (), concat chunks)"
    and "feed decode_framed chunks [] = (frames, e, rest)"
  shows "e = None \<and> rest = [] \<and> (\<exists>r. map (\<lambda>f. read_all_like vs (reader_new (rf_fields f))) frames
    = [(Ok vs, r)] \<and> reader_is_empty r)"
proof -
  have flds: "rf_fields (message_frame vs) = map value_text vs"
    by (rule message_frame_fields [OF assms(1)])
  have nul: "\<forall>frame\<in>set [message_frame vs]. \<forall>f\<in>set (rf_fields frame). NUL \<notin> set f"
    using assms(1) sendable_text wire_text_facts by (auto simp: flds)
  have "encode_all [message_frame vs] [] = (Ok (), concat chunks)" using assms(2) by simp
  from encode_all_append [OF this nul] have p: "pump decode_framed (concat chunks) = ([message_frame vs], None, [])"
    by simp
  have "decode_framed [] = (Ok None, [])" by (simp add: decode_framed_def)
  from frames.feed_concat [OF this assms(3)] p
  have "frames = [message_frame vs]" "e = None" "rest = []" by simp_all
  moreover have "read_all_like vs (reader_new (map value_text vs))
      = (Ok vs, (reader_new (map value_text vs))\<lparr> fr_idx := length vs \<rparr>)"
    using read_all_like_texts [OF assms(1), of "reader_new (map value_text vs)" "[]"]
    by (simp add: reader_new_def)
  ultimately show ?thesis
    by (simp add: flds reader_is_empty_def remaining_def reader_new_def)
qed

definition example_message :: "field_value list" where
  "example_message = [VI32 (- 7), VStr ''DU1'', VBool True, VOptI32 None, VOptStr None]"

theorem typed_messages_survive_the_wire_witness:
  "\<exists>bs frames. encode_framed (message_frame example_message) [] = (Ok (), bs)
     \<and> feed decode_framed [take 9 bs, drop 9 bs] [] = (frames, None, []) \<and> length frames = 1"
proof -
  have vs: "\<forall>v\<in>set example_message. sendable v"
  proof -
    have "wire_text ''DU1''" unfolding wire_text_def NUL_def by code_simp
    then show ?thesis by (simp add: example_message_def)
  qed
  obtain bs where bs: "encode_framed (message_frame example_message) [] = (Ok (), bs)"
    unfolding encode_framed_def message_frame_fields [OF vs]
    by (simp add: example_message_def UNSET_INT_def show_int_def show_nat.simps MAX_FRAME_LEN_def)
  then have "encode_framed (message_frame example_message) [] = (Ok (), concat [take 9 bs, drop 9 bs])"
    by simp
  moreover obtain frames e rest where "feed decode_framed [take 9 bs, drop 9 bs] [] = (frames, e, rest)"
    by (metis prod_cases3)
  ultimately have r: "feed decode_framed [take 9 bs, drop 9 bs] [] = (frames, e, rest)"
    "e = None \<and> rest = [] \<and> (\<exists>r. map (\<lambda>f. read_all_like example_message (reader_new (rf_fields f))) frames
    = [(Ok example_message, r)] \<and> reader_is_empty r)"
    using typed_messages_survive_the_wire [OF vs] by blast+
  then have "length frames = 1" by (metis length_map length_Cons list.size(3) One_nat_def)
  with bs r show ?thesis by blast
qed

end
