(* ===== verification/Wire_Handshake.thy ===== *)
theory Wire_Handshake imports Wire_Framing begin

text \<open>
  The server side of the connection handshake, \<open>crates/midas-ib-sim/src/protocol/handshake.rs\<close>.
  The socket is the string of bytes the client sends before it closes, and what the server writes
  is returned; the formatted time of day is an argument.
\<close>

datatype HandshakeError = BadPrefix | BadVersionFrame string | NoSupportedVersion int int int int
  | HandshakeIo

definition MAX_VERSION_FRAME_LEN :: u32 where
  "MAX_VERSION_FRAME_LEN = 64"

record NegotiatedSession =
  ns_version :: int
  ns_connection_time :: string

text \<open>\<open>read_exact\<close>: all the bytes asked for, or the error of a closed connection.\<close>

definition read_exact :: "nat \<Rightarrow> string \<Rightarrow> (string, HandshakeError) rust_result \<times> string" where
  "read_exact n s = (if length s < n then (Err HandshakeIo, []) else (Ok (take n s), drop n s))"

definition read_length_prefixed :: "u32 \<Rightarrow> string \<Rightarrow> (string, HandshakeError) rust_result \<times> string" where
  "read_length_prefixed max_len s =
    (case read_exact 4 s of
       (Inl e, s) \<Rightarrow> (Err e, s)
     | (Inr hdr, s) \<Rightarrow>
         let len = from_be_bytes hdr
         in if min max_len MAX_FRAME_LEN < len
            then (Err (BadVersionFrame (''length-prefixed frame too large: '' @ show_nat (unat len))), s)
            else read_exact (unat len) s)"

definition write_length_prefixed :: "string \<Rightarrow> string" where
  "write_length_prefixed payload = to_be_bytes (word_of_nat (length payload)) @ payload"

fun show_int_error :: "IntErrorKind \<Rightarrow> string" where
  "show_int_error EmptyInt = ''cannot parse integer from empty string''"
| "show_int_error InvalidDigit = ''invalid digit found in string''"
| "show_int_error PosOverflow = ''number too large to fit in target type''"
| "show_int_error NegOverflow = ''number too small to fit in target type''"

text \<open>\<open>find("..")\<close> and the two parts around it.\<close>

fun split_dots :: "string \<Rightarrow> (string \<times> string) option" where
  "split_dots (a # b # s) =
     (if a = CHR ''.'' \<and> b = CHR ''.'' then Some ([], s)
      else map_option (\<lambda>(x, y). (a # x, y)) (split_dots (b # s)))"
| "split_dots _ = None"

definition parse_version_range :: "string \<Rightarrow> (int \<times> int, HandshakeError) rust_result" where
  "parse_version_range frame =
    (case from_utf8 frame of
       Inl _ \<Rightarrow> Err (BadVersionFrame ''version frame not valid utf-8'')
     | Inr s \<Rightarrow>
         let core = (case s of c # cs \<Rightarrow> if c = CHR ''v'' then cs else s | [] \<Rightarrow> s)
         in case split_dots core of
              Some (lo, hi) \<Rightarrow>
                (case parse_i32 lo of
                   Inl e \<Rightarrow> Err (BadVersionFrame (''min: '' @ show_int_error e))
                 | Inr lo \<Rightarrow>
                     (case parse_i32 hi of
                        Inl e \<Rightarrow> Err (BadVersionFrame (''max: '' @ show_int_error e))
                      | Inr hi \<Rightarrow>
                          if hi < lo
                          then Err (BadVersionFrame (''inverted range v'' @ show_int lo @ ''..'' @ show_int hi))
                          else Ok (lo, hi)))
            | None \<Rightarrow>
                (case parse_i32 core of
                   Inl e \<Rightarrow> Err (BadVersionFrame (''single version: '' @ show_int_error e))
                 | Inr v \<Rightarrow> Ok (v, v)))"

text \<open>The answer, the bytes of the client not yet read and the bytes written.\<close>

definition server_handshake :: "int \<Rightarrow> int \<Rightarrow> string \<Rightarrow> string
    \<Rightarrow> (NegotiatedSession, HandshakeError) rust_result \<times> string \<times> string" where
  "server_handshake sim_min sim_max connection_time s =
    (case read_exact 4 s of
       (Inl e, s) \<Rightarrow> (Err e, s, [])
     | (Inr prefix, s) \<Rightarrow>
         if prefix \<noteq> ''API'' @ [NUL] then (Err BadPrefix, s, [])
         else case read_length_prefixed MAX_VERSION_FRAME_LEN s of
           (Inl e, s) \<Rightarrow> (Err e, s, [])
         | (Inr frame, s) \<Rightarrow>
             (case parse_version_range frame of
                Inl e \<Rightarrow> (Err e, s, [])
              | Inr (client_min, client_max) \<Rightarrow>
                  let lo = max client_min sim_min;
                      hi = min client_max sim_max
                  in if hi < lo then (Err (NoSupportedVersion client_min client_max sim_min sim_max), s, [])
                     else case server_version_new hi of
                       None \<Rightarrow> (Err (NoSupportedVersion client_min client_max sim_min sim_max), s, [])
                     | Some chosen \<Rightarrow>
                         (Ok \<lparr> ns_version = chosen, ns_connection_time = connection_time \<rparr>, s,
                          write_length_prefixed (show_int chosen @ [NUL] @ connection_time @ [NUL]))))"

definition server_handshake_default :: "string \<Rightarrow> string
    \<Rightarrow> (NegotiatedSession, HandshakeError) rust_result \<times> string \<times> string" where
  "server_handshake_default = server_handshake MIN_VERSION MAX_VERSION"

section \<open>Negotiation\<close>

text \<open>What a well-behaved client sends: the prefix and its range of versions.\<close>

definition client_hello :: "int \<Rightarrow> int \<Rightarrow> string" where
  "client_hello lo hi = ''API'' @ [NUL] @ write_length_prefixed (''v'' @ show_int lo @ ''..'' @ show_int hi)"

lemma show_nat_length:
  "n < 10 ^ k \<Longrightarrow> 0 < k \<Longrightarrow> length (show_nat n) \<le> k"
proof (induction n arbitrary: k rule: show_nat.induct)
  case (1 n)
  show ?case
  proof (cases "n < 10")
    case True
    with 1 show ?thesis by (subst show_nat.simps) simp
  next
    case False
    with 1(2,3) obtain j where j: "k = Suc j" "0 < j" by (cases k; cases "k - 1") auto
    with 1(1) [of j] 1(2) False have "length (show_nat (n div 10)) \<le> j"
      by (simp add: div_less_iff_less_mult mult.commute)
    with False j show ?thesis by (subst show_nat.simps) simp
  qed
qed

lemma show_i32_length: "- (2 ^ 31) \<le> i \<Longrightarrow> i \<le> 2 ^ 31 - 1 \<Longrightarrow> length (show_int i) \<le> 11"
proof -
  assume "- (2 ^ 31) \<le> i" "i \<le> 2 ^ 31 - 1"
  then have "nat i < 10 ^ 10" "nat (- i) < 10 ^ 10" by simp_all
  then show ?thesis
    using show_nat_length [of "nat i" 10] show_nat_length [of "nat (- i)" 10]
    by (simp add: show_int_def)
qed

lemma split_dots_shown:
  assumes "CHR ''.'' \<notin> set s"
  shows "split_dots (s @ CHR ''.'' # CHR ''.'' # t) = Some (s, t)"
  using assms by (induction s rule: induct_list012) auto

lemma show_int_no_dot: "CHR ''.'' \<notin> set (show_int i)"
proof
  assume "CHR ''.'' \<in> set (show_int i)"
  then have "is_ascii_digit (CHR ''.'')" using show_int_chars by fastforce
  then show False by (simp add: is_ascii_digit_def byte_def)
qed

lemma parse_client_range:
  assumes "- (2 ^ 31) \<le> lo" "lo \<le> hi" "hi \<le> 2 ^ 31 - 1"
  shows "parse_version_range (''v'' @ show_int lo @ ''..'' @ show_int hi) = Ok (lo, hi)"
proof -
  have "list_all (\<lambda>c. byte c < 128) (''v'' @ show_int lo @ ''..'' @ show_int hi)"
    using show_int_ascii by (simp add: byte_def)
  from from_utf8_ascii [OF this] show ?thesis
    using assms split_dots_shown [OF show_int_no_dot, of lo "show_int hi"]
    by (simp add: parse_version_range_def parse_i32_def parse_int_show_int)
qed

lemma read_prefixed_frame:
  assumes "length payload \<le> 64"
  shows "read_length_prefixed MAX_VERSION_FRAME_LEN (write_length_prefixed payload @ rest) = (Ok payload, rest)"
proof -
  have l: "unat (word_of_nat (length payload) :: u32) = length payload"
    using assms by (subst unat_of_nat) simp
  then have "\<not> min MAX_VERSION_FRAME_LEN MAX_FRAME_LEN < word_of_nat (length payload)"
    using assms by (simp add: MAX_VERSION_FRAME_LEN_def MAX_FRAME_LEN_def word_less_nat_alt min_def
        word_le_nat_alt)
  with l show ?thesis
    by (simp add: read_length_prefixed_def write_length_prefixed_def read_exact_def from_to_be_bytes)
qed

text \<open>
  the handshake negotiates the best common version: a client that announces the versions
  \<open>cmin..cmax\<close> gets the highest version in both ranges, with a reply frame that names it, when the
  ranges overlap, and is refused with both ranges named, and no reply, when they do not. The
  frames the client sends after its greeting are left for the codec.
\<close>

lemma handshake_picks_highest_common_version:
  assumes "- (2 ^ 31) \<le> cmin" "cmin \<le> cmax" "cmax \<le> 2 ^ 31 - 1"
    and "MIN_VERSION \<le> smin" "smin \<le> smax" "smax \<le> MAX_VERSION"
  shows "server_handshake smin smax time (client_hello cmin cmax @ rest)
    = (if cmin \<le> smax \<and> smin \<le> cmax
       then (Ok \<lparr> ns_version = Max ({cmin..cmax} \<inter> {smin..smax}), ns_connection_time = time \<rparr>, rest,
             write_length_prefixed
               (show_int (Max ({cmin..cmax} \<inter> {smin..smax})) @ [NUL] @ time @ [NUL]))
       else (Err (NoSupportedVersion cmin cmax smin smax), rest, []))"
proof -
  let ?p = "''v'' @ show_int cmin @ ''..'' @ show_int cmax"
  have "length ?p \<le> 64"
    using show_i32_length [of cmin] show_i32_length [of cmax] assms(1-3) by simp
  note rd = read_prefixed_frame [OF this, of rest]
  note pr = parse_client_range [OF assms(1-3)]
  have pre: "read_exact 4 (client_hello cmin cmax @ rest)
      = (Ok (''API'' @ [NUL]), write_length_prefixed ?p @ rest)"
    by (simp add: read_exact_def client_hello_def)
  have mx: "Max ({cmin..cmax} \<inter> {smin..smax}) = min cmax smax" if "cmin \<le> smax" "smin \<le> cmax"
  proof -
    have "{cmin..cmax} \<inter> {smin..smax} = {max cmin smin..min cmax smax}" by auto
    moreover have "max cmin smin \<le> min cmax smax" using that assms by auto
    ultimately show ?thesis by (simp add: Max_eq_iff)
  qed
  show ?thesis
  proof (cases "cmin \<le> smax \<and> smin \<le> cmax")
    case True
    then have "\<not> min cmax smax < max cmin smin" "server_version_new (min cmax smax) = Some (min cmax smax)"
      using assms by (auto simp: server_version_new_def)
    with True mx show ?thesis
      by (simp only: server_handshake_def pre rd pr prod.case sum.case option.case Let_def simp_thms
          if_True if_False refl)
  next
    case False
    then have "min cmax smax < max cmin smin" using assms by auto
    then show ?thesis
      by (simp only: server_handshake_def pre rd pr prod.case sum.case Let_def simp_thms False
          if_True if_False refl)
  qed
qed

lemma handshake_picks_highest_common_version_witness:
  "fst (server_handshake 176 221 ''now'' (client_hello 100 203 @ ''next''))
     = Ok \<lparr> ns_version = 203, ns_connection_time = ''now'' \<rparr>"
proof -
  have "{100..203} \<inter> {176..221} = {176..203::int}" by auto
  moreover have "Max {176..203::int} = 203" by (rule Max_eqI) auto
  ultimately show ?thesis
    using handshake_picks_highest_common_version [of 100 203 176 221 "''now''" "''next''"]
    by (simp add: MIN_VERSION_def MAX_VERSION_def)
qed

end
