(* ===== verification/Spec2Isabelle.thy ===== *)
theory Spec2Isabelle imports Ticker_App_Props Bars_Aggregator_Props Bars_Stream Chart_Live Data_Binary_Props Bracket_Submit Expr_Roundtrip Expr_Types Market_Aggregator_Props Market_Publisher_Props Market_Registry Market_Router_Props Market_Seam Quirk_Composite Sim_Orders_Props Wire_Fields Wire_Handshake begin

text \<open>
  Hand of Midas is a trading application in Rust. This development models the parts of it that
  decide something about orders and market data, and proves what makes them correct. Paths below are
  relative to \<open>src/\<close>.

  \<^bold>\<open>The program.\<close> The broker library (\<open>crates/midas-broker\<close>) keeps orders and brackets, places them
  through an order client, and persists them. The IB simulator (\<open>crates/midas-ib-sim\<close>) is a server
  that speaks the gateway's wire protocol: bytes are cut into frames, frames into typed fields; each
  request passes the quirk guard (rate, streaming lines, historical pacing), orders go to the order
  simulator, which fills them from market snapshots and schedules the callbacks on a virtual clock;
  scenarios assert about all of this in a small expression language. The market-data router
  (\<open>crates/midas-market-data\<close>) multiplexes one upstream stream per symbol to many consumers, whose
  guards release it, and builds bars of any timeframe from five-second bars.

  \<^bold>\<open>Values.\<close> Machine integers are words; a signed number that the code orders or prints is the
  integer it denotes, with the range checks where the code has them. \<open>f64\<close> is its 64-bit pattern with
  IEEE arithmetic (theories F64, F64_Arith and F64_Facts, Std_Floats for text and durations). Strings
  are byte strings (Std_Strings). A \<open>BTreeMap\<close> is the list of its entries in key order, a binary heap
  the list of its elements in key order (Std_Collections, the contracts \<open>ordered_map\<close> and \<open>min_heap\<close>
  with their interpretations). A \<open>HashMap\<close> whose order does not show is a map or an association list.
  \<open>Result\<close> is a sum, \<open>Inl\<close> the error; a panic is \<open>None\<close> or an error of its own. Clocks and random
  draws are arguments; external crates (random generators, chrono, the socket) are parameters.

  \<^bold>\<open>Broker orders\<close> (\<open>crates/midas-broker/src\<close>). Order_State: the eleven statuses, their spellings
  and \<open>validate_transition\<close> (\<open>orders/state/mod.rs\<close>) with the step relation it induces; an order reaches
  the gateway only through submission, terminal statuses absorb. Order_Types: the database
  vocabulary (\<open>orders/types/mod.rs\<close>). Order_Bracket: validation of bracket parameters and the status
  of a group (\<open>orders/bracket/mod.rs\<close>). Order_Client and Bracket_Submit: the client trait as a record
  of state transformers and \<open>place_bracket\<close> (\<open>order_client.rs\<close>, \<open>bracket.rs\<close>), for every client.

  \<^bold>\<open>Simulator infrastructure\<close> (\<open>crates/midas-ib-sim/src\<close>). Sim_Clock and Sim_Scheduler: virtual
  time and the deterministic event queue (\<open>engine/clock.rs\<close>, \<open>engine/scheduler.rs\<close>). Wire_Framing,
  Wire_Fields, Wire_Handshake: \<open>protocol/framing.rs\<close>, \<open>protocol/messages/fields.rs\<close>,
  \<open>protocol/handshake.rs\<close>; what a receiver sees does not depend on how the bytes are chunked (contract
  \<open>stream_decoder\<close>, interpreted on both codecs), and typed messages survive the wire.

  \<^bold>\<open>Quirks\<close> (\<open>quirks/\<close>). Session_Table states the contract of every limiter, that a session's
  operations read and change only its own entry, and reduces interleaved runs to the run of each
  session; it is interpreted on Quirk_Rate (token bucket), Quirk_Lines (the L1 and tick-by-tick
  caps), Quirk_Pacing (the historical-data windows, refined to a specification on the request
  history), Quirk_Policies and the composite guard of Quirk_Composite. Sim_Types has the error codes.

  \<^bold>\<open>Order simulator\<close> (\<open>orders/\<close>). Sim_Order_State: record and state machine of an order; Sim_Fill:
  fill prices, callback patterns and bracket groups; Sim_Determinism: seeds; Sim_Account: positions and
  profit; Sim_Orders: placing, cancelling, filling, commissions, fault injection. Sim_Fill_Props,
  Sim_Orders_Fills and Sim_Orders_Props hold the theorems: chunks partition the quantity, executions
  report what the account books, terminal orders stay terminal, also inside a snapshot but for the
  child that a sibling's fill has just cancelled, and a filled child cancels its sibling.

  \<^bold>\<open>Scenario expressions\<close> (\<open>scenario/expr/\<close>). Expr_Syntax, Expr_Parser, Expr_Grammar and Expr_Eval
  follow \<open>ast.rs\<close>, \<open>query.rs\<close>, \<open>parser.rs\<close> and \<open>interpreter.rs\<close>. The grammar rules of the parser call each
  other, so they carry fuel: every loop and every rule spends one unit and at most eight nested calls
  happen before a byte is consumed, so that \<open>parse_fuel\<close>, which grows by eight per byte, suffices; that is
  \<open>parse_returns\<close>. Expr_Roundtrip prints and reads back, which fixes precedence and associativity.
  Expr_Types is a type system: a well-typed expression evaluates, or fails for a NaN on one side of a
  comparison or an order, position or session that one of its paths names and the state lacks.

  \<^bold>\<open>Market data\<close> (\<open>crates/midas-broker-core/src/market_data\<close>, \<open>crates/midas-market-data/src\<close>).
  Market_Types: the vocabulary. Market_Hub and Market_Publisher_Props: the hub of a symbol and the
  publisher tasks (\<open>router/state.rs\<close>, \<open>router/publisher.rs\<close>). Market_Router with Market_Router_Facts and
  Market_Router_Props: the control actor, its mailbox, guards and clients as a system of events
  (\<open>router/actor.rs\<close>, \<open>handle.rs\<close>, \<open>mod.rs\<close>): consumers that hold a guard are served, nothing is leaked
  when they leave, there is one stream per symbol; every reference count is 32 bits wide, hence the
  bound of fewer than \<open>2 ^ 32\<close> events. A publisher that is aborted stops at once in the model. Market_Aggregator
  with its properties: five-second bars folded into windows (\<open>aggregator/task.rs\<close>), for bars from 1970
  to the end of the year 9999, where chrono builds every instant; Market_Registry:
  the shared aggregators (\<open>aggregator/registry.rs\<close>); Market_Seam: \<open>GuardedStream\<close> and the history seam.

  \<^bold>\<open>Calendars\<close> (\<open>crates/midas-calendar/src\<close>). Calendar_Types: periods, sessions, windows and the trait as
  a record of its methods, with the contract \<open>exchange_calendar\<close> the bars rely on. Calendar_Gregorian:
  what is assumed of the date library, with an executable instance. Calendar_Crypto: the 24-hour
  calendar, whose windows tile time. Calendar_Holidays and Calendar_Rules: the New York holidays; no
  closure is on a weekend. Calendar_Xnys: the New York sessions. Both calendars interpret the contract.
  What is assumed of the New York clock is assumed for covered days only, and holds of the zone's own
  rule, daylight saving from the second Sunday of March to the first of November (\<open>ny_chrono\<close>).

  \<^bold>\<open>Session-aware bars\<close> (\<open>crates/midas-bars\<close>, \<open>crates/midas-bars-adapter/src/aggregator\<close>). F32: the
  32-bit floats of the columns. Bars_Candle: candles and their validation. Bars_Series: the columns of a
  chart's series, shown to be one list of rows. Bars_Aggregator: trades folded into the windows of a
  calendar, and the stream of candles. Bars_Aggregator_Props: the aggregator is total and computes one bar
  per run of trades, on any calendar with the contract; at a session boundary inside a clock window, and
  for a trade that comes after its window was flushed, the chart's series loses the bar closed before.

  \<^bold>\<open>Streams and charts\<close> (\<open>crates/midas-stream\<close>, \<open>desktop/win/crates/midas-core\<close>,
  \<open>desktop/win/crates/midas-app\<close>). Bars_Stream: the streams of candles, their joins and filters, and the
  chart's pump; \<open>next\<close> takes fuel, and \<open>fuel_of\<close>, the candles left plus the depth of the stream, is
  enough; the rows of a chart rise whatever the live stream sends. Bars_Resolver: tickers to calendars.
  Chart_Timeframe, Chart_Buffer, Chart_Live: the legacy chart's timeframes, its buffer as a list of rows,
  the loads of its history with the guard against stale results, and the live feed: charts whose
  histories are loaded in order stay in order whatever is received, and merging makes one candle per bucket, but a weekly chart
  is split on Thursdays. Std_Slices: the slice functions of the standard library these use.

  \<^bold>\<open>Candle files\<close> (\<open>desktop/win/crates/midas-data/src/binary/mod.rs\<close>). Data_Binary: header, records,
  checksum, reading as a whole and through a memory map, on lists of bytes. Data_Binary_Props: what is
  written reads back, and a change of one protected byte of the header is always found. Std_Words: facts
  on machine words shared with the simulator's seeds.

  \<^bold>\<open>Tickers\<close> (\<open>desktop/win/crates/midas-annotation-types\<close>, \<open>desktop/win/crates/midas-app\<close>).
  Annot_Types: lines, levels, order brackets and the annotations that wrap them. Panel_Rules: the rules of
  the order panel (prices from input, validation, normalised and shifted brackets). Annot_Store: the
  store of all annotations. Ticker_State, Ticker_Apply: the state of a symbol and its reducer, from every
  message to the new state and the effects. Std_Fmt: \<open>f64\<close> as text. Ticker_App: what the application
  does with the effects and the buttons of a bracket (\<open>app/ticker_wiring.rs\<close>, \<open>app/handlers.rs\<close>), on the
  part of its state they use. Ticker_Panel: the broker's reports and the actions of the order panel.
  Annot_Store_Props: the store is a function from symbols to annotations, identities are never reused
  between a start from files and the next, and levels survive saving. Ticker_Props: effects tell the whole change of the bracket, a snap can be undone,
  a fresh symbol never snaps, and the default drafts, with the rounding of their prices bounded, are held
  against the validation.
  Ticker_App_Props: the store shows exactly the live brackets; what is sent to the broker, where the
  submit button of a chart sends its bracket twice and the panel always sends a market order.
  \<^bold>\<open>Not modelled.\<close> The desktop application but for the parts above (views, widgets, windows,
  configuration, persistence), its chart and rendering crates and the scene and axis crates (GPU and
  iced code around geometry on floats); the translation to the ibapi crate, the
  in-process provider simulator and the SQL persistence; the price generators, replay and session
  tools of the simulator; the server's sockets and its control API; the scenario runner; the encoders and
  decoders of the individual wire messages. Tasks are modelled by the events they process, not by
  their scheduling; the ring of a broadcast channel, which drops old values for slow receivers, appears
  as the gap its receiver sees.
\<close>

end
